(* ===== verification/Rbo_Prelude.thy ===== *)
theory Rbo_Prelude
  imports Main "HOL-Library.Sublist"
begin

text \<open>
  The vocabulary every component shares.

  \<^item> \<^bold>\<open>Effects.\<close> Controller code reads and writes one SQLite database and a few in-memory maps,
    and it throws. An operation is a function of type \<open>('s, 'a) rbo\<close>: it takes the state and
    returns a value or a thrown error \<^emph>\<open>together with\<close> the state at that point, because a JavaScript
    throw does not undo the statements executed before it. \<open>ret\<close>, \<open>throw\<close>, \<open>bind\<close>, \<open>gets\<close>,
    \<open>modify\<close> and \<open>for_each\<close> are the combinators the translated handlers are written with.
  \<^item> \<^bold>\<open>Tables.\<close> A table is the list of its rows in insertion order. \<open>sql_get\<close> is
    \<open>SELECT .. LIMIT 1\<close> (\<open>.get()\<close>), \<open>sql_all\<close> is \<open>.all()\<close>, \<open>sql_update\<close> is
    \<open>UPDATE .. WHERE\<close> and \<open>sql_changes\<close> its \<open>info.changes\<close>.
  \<^item> \<^bold>\<open>Relations kept by an operation.\<close> \<open>obeys R m\<close> says that every run of \<open>m\<close>, thrown or
    not, relates its start and end state by \<open>R\<close>. The locale \<open>step_relation\<close> proves once, for any
    reflexive and transitive \<open>R\<close>, that the combinators keep it; \<open>preserves I\<close> is the instance
    for an invariant.
  \<^item> \<^bold>\<open>Time.\<close> Timestamps are milliseconds. The program stores the strings of
    \<open>Date.toISOString\<close>, whose fixed-width format makes the string order used in SQL the order of
    the instants (years 0 to 9999).
\<close>

section \<open>Errors and effects\<close>

type_synonym ts = int

datatype error_category =
    Validation | No_matching_agent | No_capacity | Source_scan | Secret_blocked | Repo_clone
  | Repo_fetch | Base_commit_missing | Bundle_import | Snapshot_transfer | Snapshot_hash
  | Materialization | Workspace_changed | Shell_missing | Process_spawn | Process_exit
  | Timeout | Cancelled_category | Agent_lost | Artifact_collection | Artifact_upload | Cleanup
  | Secret_missing | Toolchain_changed | Agent_disconnected | Lease_expired | Log_spool_limit
  | Internal

text \<open>
  What a call can throw: an \<open>RboError\<close> (category, message, retryable), a plain \<open>Error\<close>, or the
  error \<open>better-sqlite3\<close> raises when a constraint of the schema is violated.
\<close>

datatype rbo_error =
    RboError error_category string bool
  | JsError string
  | SqliteConstraint string

definition rbo_validation :: "string \<Rightarrow> rbo_error" where
  "rbo_validation msg = RboError Validation msg False"

definition rbo_internal :: "string \<Rightarrow> rbo_error" where
  "rbo_internal msg = RboError Internal msg False"

definition rbo_noMatchingAgent :: "string \<Rightarrow> rbo_error" where
  "rbo_noMatchingAgent msg = RboError No_matching_agent msg True"

definition rbo_timeout :: "string \<Rightarrow> rbo_error" where
  "rbo_timeout msg = RboError Timeout msg True"

type_synonym ('s, 'a) rbo = "'s \<Rightarrow> (rbo_error + 'a) \<times> 's"

definition ret :: "'a \<Rightarrow> ('s, 'a) rbo" where
  "ret a = (\<lambda>s. (Inr a, s))"

definition throw :: "rbo_error \<Rightarrow> ('s, 'a) rbo" where
  "throw e = (\<lambda>s. (Inl e, s))"

definition bind :: "('s, 'a) rbo \<Rightarrow> ('a \<Rightarrow> ('s, 'b) rbo) \<Rightarrow> ('s, 'b) rbo" where
  "bind m f = (\<lambda>s. case m s of (Inl e, t) \<Rightarrow> (Inl e, t) | (Inr a, t) \<Rightarrow> f a t)"

definition gets :: "('s \<Rightarrow> 'a) \<Rightarrow> ('s, 'a) rbo" where
  "gets f = (\<lambda>s. (Inr (f s), s))"

definition modify :: "('s \<Rightarrow> 's) \<Rightarrow> ('s, unit) rbo" where
  "modify f = (\<lambda>s. (Inr (), f s))"

fun for_each :: "'x list \<Rightarrow> ('x \<Rightarrow> ('s, 'a) rbo) \<Rightarrow> ('s, unit) rbo" where
  "for_each [] f = ret ()"
| "for_each (x # xs) f = bind (f x) (\<lambda>_. for_each xs f)"

definition result_of :: "(rbo_error + 'a) \<times> 's \<Rightarrow> rbo_error + 'a" where
  "result_of p = fst p"

definition state_of :: "(rbo_error + 'a) \<times> 's \<Rightarrow> 's" where
  "state_of p = snd p"

definition succeeds :: "(rbo_error + 'a) \<times> 's \<Rightarrow> bool" where
  "succeeds p = (case fst p of Inl _ \<Rightarrow> False | Inr _ \<Rightarrow> True)"

named_theorems rbo_simps \<open>equations of the effect combinators\<close>

lemma ret_apply [simp, rbo_simps]: "ret a s = (Inr a, s)"
  by (simp add: ret_def)

lemma throw_apply [simp, rbo_simps]: "throw e s = (Inl e, s)"
  by (simp add: throw_def)

lemma gets_apply [simp, rbo_simps]: "gets f s = (Inr (f s), s)"
  by (simp add: gets_def)

lemma modify_apply [simp, rbo_simps]: "modify f s = (Inr (), f s)"
  by (simp add: modify_def)

lemma bind_apply [rbo_simps]:
  "bind m f s = (case m s of (Inl e, t) \<Rightarrow> (Inl e, t) | (Inr a, t) \<Rightarrow> f a t)"
  by (simp add: bind_def)

lemma bind_Inr: "bind m f s = (Inr b, t) \<Longrightarrow> \<exists>a u. m s = (Inr a, u) \<and> f a u = (Inr b, t)"
  by (auto simp: bind_apply split: prod.splits sum.splits)

lemma bind_Inr_iff: "bind m f s = (Inr y, t) \<longleftrightarrow> (\<exists>x u. m s = (Inr x, u) \<and> f x u = (Inr y, t))"
  by (auto simp: bind_apply split: prod.splits sum.splits)

lemma bind_ret [simp]: "bind (ret a) f = f a"
  by (simp add: bind_def fun_eq_iff)

lemma bind_gets [simp]: "bind (gets g) f = (\<lambda>s. f (g s) s)"
  by (simp add: bind_def fun_eq_iff)

lemma bind_modify [simp]: "bind (modify g) f = (\<lambda>s. f () (g s))"
  by (simp add: bind_def fun_eq_iff)

lemma bind_throw [simp]: "bind (throw e) f = throw e"
  by (simp add: bind_def fun_eq_iff)

lemma state_of_pair [simp]: "state_of (r, s) = s"
  by (simp add: state_of_def)

lemma result_of_pair [simp]: "result_of (r, s) = r"
  by (simp add: result_of_def)

lemma succeeds_Inr [simp]: "succeeds (Inr a, s)"
  by (simp add: succeeds_def)

lemma succeeds_Inl [simp]: "\<not> succeeds (Inl e, s)"
  by (simp add: succeeds_def)

section \<open>Relations and invariants an operation keeps\<close>

definition obeys :: "('s \<Rightarrow> 's \<Rightarrow> bool) \<Rightarrow> ('s, 'a) rbo \<Rightarrow> bool" where
  "obeys R m = (\<forall>s. R s (snd (m s)))"

definition preserves :: "('s \<Rightarrow> bool) \<Rightarrow> ('s, 'a) rbo \<Rightarrow> bool" where
  "preserves I m = obeys (\<lambda>s t. I s \<longrightarrow> I t) m"

lemma preservesI: "(\<And>s. I s \<Longrightarrow> I (snd (m s))) \<Longrightarrow> preserves I m"
  by (simp add: preserves_def obeys_def)

lemma preservesD: "preserves I m \<Longrightarrow> I s \<Longrightarrow> I (snd (m s))"
  by (simp add: preserves_def obeys_def)

lemma obeysI: "(\<And>s. R s (snd (m s))) \<Longrightarrow> obeys R m"
  by (simp add: obeys_def)

lemma obeysD: "obeys R m \<Longrightarrow> R s (snd (m s))"
  by (simp add: obeys_def)

text \<open>
  The contract of a relation between the state before and after: whatever the relation says about
  a state transition, doing nothing satisfies it and two transitions in a row satisfy it.
\<close>

locale step_relation =
  fixes R :: "'s \<Rightarrow> 's \<Rightarrow> bool"
  assumes R_refl: "R s s"
    and R_trans: "R s t \<Longrightarrow> R t u \<Longrightarrow> R s u"
begin

lemma obeys_ret: "obeys R (ret a)"
  by (simp add: obeys_def R_refl)

lemma obeys_throw: "obeys R (throw e)"
  by (simp add: obeys_def R_refl)

lemma obeys_gets: "obeys R (gets f)"
  by (simp add: obeys_def R_refl)

lemma obeys_modify: "(\<And>s. R s (f s)) \<Longrightarrow> obeys R (modify f)"
  by (simp add: obeys_def)

lemma obeys_bind:
  assumes m: "obeys R m" and f: "\<And>a. obeys R (f a)"
  shows "obeys R (bind m f)"
proof (rule obeysI)
  fix s
  obtain r t where st: "m s = (r, t)" by (cases "m s")
  from obeysD [OF m, of s] st have "R s t" by simp
  then show "R s (snd (bind m f s))"
    using obeysD [OF f, of t] st by (auto simp: bind_apply intro: R_trans split: sum.split)
qed

lemma obeys_for_each:
  "(\<And>x. x \<in> set xs \<Longrightarrow> obeys R (f x)) \<Longrightarrow> obeys R (for_each xs f)"
  by (induction xs) (auto intro!: obeys_ret obeys_bind)

lemma obeys_if: "obeys R m \<Longrightarrow> obeys R n \<Longrightarrow> obeys R (if b then m else n)"
  by simp

lemma obeys_option:
  "obeys R m \<Longrightarrow> (\<And>x. obeys R (f x)) \<Longrightarrow>
     obeys R (case o' of None \<Rightarrow> m | Some x \<Rightarrow> f x)"
  by (cases o') simp_all

lemma obeys_get_bind: "(\<And>a. obeys R (f a)) \<Longrightarrow> obeys R (\<lambda>s. f (g s) s)"
  by (simp add: obeys_def)

lemma rtranclp_step:
  assumes "\<And>s t. step s t \<Longrightarrow> R s t" and "step\<^sup>*\<^sup>* s t"
  shows "R s t"
  using assms(2) by (induction rule: rtranclp_induct) (auto intro: R_refl R_trans assms(1))

lemmas obeys_rules =
  obeys_ret obeys_throw obeys_gets obeys_bind obeys_for_each obeys_if
  obeys_option obeys_modify
end

interpretation keeps: step_relation "\<lambda>s t. I s \<longrightarrow> I t" for I :: "'s \<Rightarrow> bool"
  by unfold_locales auto

lemmas preserves_rules = keeps.obeys_rules [folded preserves_def]

section \<open>Tables\<close>

definition sql_get :: "('r \<Rightarrow> bool) \<Rightarrow> 'r list \<Rightarrow> 'r option" where
  "sql_get P t = find P t"

definition sql_all :: "('r \<Rightarrow> bool) \<Rightarrow> 'r list \<Rightarrow> 'r list" where
  "sql_all P t = filter P t"

definition sql_update :: "('r \<Rightarrow> bool) \<Rightarrow> ('r \<Rightarrow> 'r) \<Rightarrow> 'r list \<Rightarrow> 'r list" where
  "sql_update P f t = map (\<lambda>r. if P r then f r else r) t"

definition sql_changes :: "('r \<Rightarrow> bool) \<Rightarrow> 'r list \<Rightarrow> nat" where
  "sql_changes P t = length (filter P t)"

text \<open>\<open>COALESCE(MAX(col), 0)\<close> over the selected rows.\<close>

fun max_or_zero :: "int list \<Rightarrow> int" where
  "max_or_zero [] = 0"
| "max_or_zero (x # xs) = fold max xs x"

text \<open>\<open>ORDER BY col DESC LIMIT 1\<close>: a row whose column is the greatest (the first such row).\<close>

fun top_by :: "('r \<Rightarrow> int) \<Rightarrow> 'r list \<Rightarrow> 'r option" where
  "top_by f [] = None"
| "top_by f (x # xs) =
     (case top_by f xs of None \<Rightarrow> Some x | Some y \<Rightarrow> if f x \<ge> f y then Some x else Some y)"

lemma sql_get_Some: "sql_get P t = Some r \<Longrightarrow> P r \<and> r \<in> set t"
  by (induction t) (auto simp: sql_get_def split: if_splits)

lemma sql_get_None: "sql_get P t = None \<longleftrightarrow> (\<forall>r \<in> set t. \<not> P r)"
  by (induction t) (auto simp: sql_get_def)

lemma sql_get_Nil [simp]: "sql_get P [] = None"
  by (simp add: sql_get_def)

lemma sql_get_Cons [simp]: "sql_get P (r # t) = (if P r then Some r else sql_get P t)"
  by (simp add: sql_get_def)

lemma sql_get_append:
  "sql_get P (t @ u) = (case sql_get P t of None \<Rightarrow> sql_get P u | Some r \<Rightarrow> Some r)"
  by (induction t) auto

lemma set_sql_update: "set (sql_update P f t) = (\<lambda>r. if P r then f r else r) ` set t"
  by (simp add: sql_update_def)

lemma sql_update_Nil [simp]: "sql_update P f [] = []"
  by (simp add: sql_update_def)

lemma sql_update_Cons [simp]:
  "sql_update P f (r # t) = (if P r then f r else r) # sql_update P f t"
  by (simp add: sql_update_def)

lemma length_sql_update [simp]: "length (sql_update P f t) = length t"
  by (simp add: sql_update_def)

lemma sql_update_id: "\<forall>r \<in> set t. \<not> P r \<Longrightarrow> sql_update P f t = t"
  by (induction t) auto

lemma map_sql_update:
  "(\<And>r. key (f r) = key r) \<Longrightarrow> map key (sql_update P f t) = map key t"
  by (simp add: sql_update_def)

lemma fold_max_ge: "z \<le> fold max xs (z :: int)"
  by (induction xs arbitrary: z) (auto intro: order_trans [OF max.cobounded2])

lemma fold_max_mem: "v \<in> set xs \<Longrightarrow> v \<le> fold max xs (z :: int)"
  by (induction xs arbitrary: z)
    (auto intro: order_trans [OF max.cobounded1 [of v] fold_max_ge [of "max v z" for z]])

lemma max_or_zero_ge: "x \<in> set xs \<Longrightarrow> x \<le> max_or_zero xs"
  by (cases xs) (auto intro: fold_max_ge fold_max_mem)

lemma top_by_None [simp]: "top_by f xs = None \<longleftrightarrow> xs = []"
  by (cases xs) (auto split: option.splits)

lemma top_by_Some: "top_by f xs = Some x \<Longrightarrow> x \<in> set xs \<and> (\<forall>y \<in> set xs. f y \<le> f x)"
proof (induction xs arbitrary: x)
  case (Cons a xs)
  show ?case
  proof (cases "top_by f xs")
    case None
    with Cons.prems show ?thesis by simp
  next
    case (Some y)
    with Cons.IH have y: "y \<in> set xs" "\<forall>z \<in> set xs. f z \<le> f y" by auto
    with Some Cons.prems show ?thesis by (auto split: if_splits intro: order_trans)
  qed
qed simp

text \<open>
  What a component may rely on in a table with a primary key: reading a row back after an update
  of that row gives the updated row, every other row is as before, and updates keep the key unique.
  The locale is the interface the components use; each table of the database interprets it.
\<close>

locale keyed_table =
  fixes key :: "'r \<Rightarrow> 'k"
    and set_row :: "'f \<Rightarrow> 'r \<Rightarrow> 'r"
  assumes key_set_row: "key (set_row f r) = key r"
begin

lemma keys_update: "map key (sql_update P (set_row f) t) = map key t"
  by (rule map_sql_update) (rule key_set_row)

lemma get_update_same:
  "sql_get (\<lambda>r. key r = k) (sql_update (\<lambda>r. key r = k) (set_row f) t)
     = map_option (set_row f) (sql_get (\<lambda>r. key r = k) t)"
  by (induction t) (auto simp: key_set_row)

lemma get_update_other:
  "k \<noteq> k' \<Longrightarrow> sql_get (\<lambda>r. key r = k') (sql_update (\<lambda>r. key r = k) (set_row f) t)
     = sql_get (\<lambda>r. key r = k') t"
  by (induction t) (auto simp: key_set_row)

lemma get_update_sel:
  "sql_get (\<lambda>r. key r = k) (sql_update P (set_row f) t)
     = map_option (\<lambda>r. if P r then set_row f r else r) (sql_get (\<lambda>r. key r = k) t)"
  by (induction t) (auto simp: key_set_row)

lemma get_unique:
  "distinct (map key t) \<Longrightarrow> r \<in> set t \<Longrightarrow> sql_get (\<lambda>x. key x = key r) t = Some r"
  by (induction t) (auto simp: image_iff)

end

section \<open>Strings\<close>

text \<open>
  Strings are lists of bytes; the program's case folding and trimming are applied to ASCII text
  (host names, versions, URL schemes), where \<open>toLowerCase\<close> changes A..Z only.
\<close>

definition lower_char :: "char \<Rightarrow> char" where
  "lower_char c = (if 65 \<le> (of_char c :: nat) \<and> (of_char c :: nat) \<le> 90
                   then char_of ((of_char c :: nat) + 32) else c)"

definition toLowerCase :: "string \<Rightarrow> string" where
  "toLowerCase s = map lower_char s"

definition upper_char :: "char \<Rightarrow> char" where
  "upper_char c = (if 97 \<le> (of_char c :: nat) \<and> (of_char c :: nat) \<le> 122
                   then char_of ((of_char c :: nat) - 32) else c)"

definition toUpperCase :: "string \<Rightarrow> string" where
  "toUpperCase s = map upper_char s"

definition is_space :: "char \<Rightarrow> bool" where
  "is_space c = (let n = (of_char c :: nat) in n = 32 \<or> (9 \<le> n \<and> n \<le> 13))"

definition trim :: "string \<Rightarrow> string" where
  "trim s = rev (dropWhile is_space (rev (dropWhile is_space s)))"

fun split_on :: "char \<Rightarrow> string \<Rightarrow> string list" where
  "split_on d [] = [[]]"
| "split_on d (c # cs) =
     (if c = d then [] # split_on d cs
      else (case split_on d cs of [] \<Rightarrow> [[c]] | w # ws \<Rightarrow> (c # w) # ws))"

fun join_with :: "string \<Rightarrow> string list \<Rightarrow> string" where
  "join_with d [] = []"
| "join_with d [w] = w"
| "join_with d (w # v # ws) = w @ d @ join_with d (v # ws)"

definition is_digit :: "char \<Rightarrow> bool" where
  "is_digit c = (48 \<le> (of_char c :: nat) \<and> (of_char c :: nat) \<le> 57)"

definition is_alpha :: "char \<Rightarrow> bool" where
  "is_alpha c = (let n = (of_char c :: nat) in (65 \<le> n \<and> n \<le> 90) \<or> (97 \<le> n \<and> n \<le> 122))"

definition replace_char :: "char \<Rightarrow> char \<Rightarrow> string \<Rightarrow> string" where
  "replace_char a b s = map (\<lambda>c. if c = a then b else c) s"

lemma split_on_not_Nil [simp]: "split_on d s \<noteq> []"
  by (cases s) (auto split: list.splits)

lemma join_split: "join_with [d] (split_on d s) = s"
proof (induction s)
  case (Cons c cs)
  obtain w ws where "split_on d cs = w # ws" by (cases "split_on d cs") auto
  with Cons show ?case by (cases ws) auto
qed simp

lemma split_on_no_delim: "w \<in> set (split_on d s) \<Longrightarrow> d \<notin> set w"
  by (induction s arbitrary: w) (auto split: if_splits list.splits)

lemma split_on_free [simp]: "d \<notin> set w \<Longrightarrow> split_on d w = [w]"
  by (induction w) auto

lemma split_on_append: "d \<notin> set u \<Longrightarrow> split_on d (u @ d # x) = u # split_on d x"
  by (induction u) auto

lemma split_join:
  "ws \<noteq> [] \<Longrightarrow> \<forall>w \<in> set ws. d \<notin> set w \<Longrightarrow> split_on d (join_with [d] ws) = ws"
  by (induction ws rule: induct_list012) (auto simp: split_on_append)

end
