(* ===== verification/Protocol_Types.thy ===== *)
theory Protocol_Types
  imports Complex_Main Rbo_Prelude
begin

text \<open>
  The wire data of \<open>packages/protocol/src/schemas.ts\<close> and \<open>messages.ts\<close> that the Controller's
  core reads: the job request, the Agent capability report, and the state and outcome vocabularies.
  Every zod object is a record with the schema's fields; \<open>.optional()\<close> is \<open>option\<close>;
  \<open>z.record\<close> is the association list of its entries in insertion order; \<open>z.number()\<close> is a
  rational (JSON carries no NaN or infinity).

  One enumeration \<open>run_state\<close> serves the \<open>state\<close> columns of both \<open>jobs\<close> and
  \<open>job_attempts\<close>. The columns are unconstrained \<open>TEXT\<close>; the constructors are the literals the
  sources write. \<open>Leasing\<close> is written to jobs although \<open>JobStateSchema\<close> only lists
  \<open>Leased\<close>, so both are here.
\<close>

section \<open>States, outcomes, policies\<close>

datatype run_state =
    Created | Awaiting_confirmation | Queued | Matching | Leased | Leasing | Preparing_source
  | Transferring_source | Materializing | Starting | Running | Orphaned | Collecting_artifacts
  | Cleaning | Completed

datatype job_outcome = Succeeded | Failed | Timed_out | Cancelled | Lost

datatype risk_level = Safe | Normal | Destructive | Hardware

datatype queue_policy = Local_fallback | Wait | Fail_fast

datatype completion_policy =
    Run_to_exit
  | Run_for_duration rat
  | Run_until_log_match string "string option" rat

datatype secret_policy = Block | Warn | Allow

text \<open>The states \<open>JobStateSchema\<close> accepts in a \<open>state_transition\<close> event.\<close>

definition JobStateSchema :: "run_state list" where
  "JobStateSchema =
     [Created, Awaiting_confirmation, Queued, Matching, Leased, Preparing_source,
      Transferring_source, Materializing, Starting, Running, Orphaned, Collecting_artifacts,
      Cleaning, Completed]"

section \<open>Job request\<close>

record execution_config =
  ex_shell :: "string option"
  ex_script :: string
  ex_env :: "(string \<times> string) list"
  ex_secret_refs :: "(string \<times> string) list option"
  ex_timeout_seconds :: rat
  ex_idle_timeout_seconds :: "rat option"
  ex_cancel_grace_seconds :: "rat option"
  ex_cleanup_script :: "string option"
  ex_cleanup_timeout_seconds :: rat
  ex_tty :: bool
  ex_completion :: completion_policy

record additional_root =
  ar_source_path :: string
  ar_mount_path :: string
  ar_include :: "string list"
  ar_exclude :: "string list"
  ar_read_only :: bool

record source_config =
  src_project_root :: string
  src_cwd :: string
  src_additional_roots :: "additional_root list"

record source_policy =
  sp_include_untracked :: bool
  sp_include_ignored :: "string list"
  sp_secret_policy :: secret_policy

record requirements_config =
  rq_os :: "string list option"
  rq_arch :: "string list option"
  rq_tools :: "(string \<times> string) list option"
  rq_labels :: "(string \<times> string) list option"
  rq_secret_refs :: "string list option"
  rq_min_memory_mb :: "rat option"
  rq_min_disk_mb :: "rat option"

record preferences_config =
  pf_agent_ids :: "string list option"
  pf_os_order :: "string list option"
  pf_prefer_repo_cache :: "bool option"
  pf_prefer_build_cache :: "bool option"
  pf_allow_local_fallback :: "bool option"

record artifact_rule =
  rule_glob :: string
  rule_required :: bool

record job_request =
  rqst_client_request_id :: string
  rqst_name :: "string option"
  rqst_source :: source_config
  rqst_execution :: execution_config
  rqst_requirements :: "requirements_config option"
  rqst_preferences :: "preferences_config option"
  rqst_queue_policy :: "queue_policy option"
  rqst_risk_level :: "risk_level option"
  rqst_intent :: "string option"
  rqst_source_policy :: "source_policy option"
  rqst_artifacts :: "artifact_rule list option"

section \<open>Agent capability report\<close>

datatype activation_type = Source_script | Environment_variables | Path_prepend

record toolchain_activation =
  ta_type :: activation_type
  ta_path :: "string option"
  ta_env :: "(string \<times> string) list option"

record toolchain_profile =
  tp_id :: string
  tp_kind :: string
  tp_version :: string
  tp_platform :: string
  tp_activation :: toolchain_activation
  tp_environment_fingerprint :: string

datatype build_cache_kind = Ccache | Sccache | Npm | Pnpm | Pip

record repository_cache_entry =
  rc_canonical_id :: string
  rc_commits :: "string list option"

record build_cache_entry =
  bc_kind :: build_cache_kind
  bc_keys :: "string list option"

datatype os_family = Macos | Windows | Linux

record agent_os =
  os_family :: os_family
  os_version :: string
  os_arch :: string

record agent_resources =
  res_cpu_logical :: rat
  res_memory_total_mb :: rat
  res_memory_free_mb :: rat
  res_disk_free_mb :: rat
  res_cpu_load :: "rat option"
  res_disk_free_bytes :: "rat option"
  res_disk_min_free_bytes :: "rat option"
  res_disk_pressure :: "bool option"
  res_cpu_speed_mhz :: "rat option"

record agent_execution =
  cap_max_jobs :: rat
  cap_shells :: "string list"
  cap_supports_tty :: bool
  cap_supports_process_tree_kill :: bool

record agent_capability_report =
  cap_agent_id :: string
  cap_display_name :: string
  cap_hostname :: string
  cap_os :: agent_os
  cap_resources :: agent_resources
  cap_execution :: agent_execution
  cap_tools :: "(string \<times> string list) list"
  cap_toolchain_profiles :: "toolchain_profile list"
  cap_labels :: "(string \<times> string) list"
  cap_secret_refs :: "string list"
  cap_repository_cache :: "repository_cache_entry list option"
  cap_build_caches :: "build_cache_entry list option"
  cap_accepting_jobs :: "bool option"
  cap_boot_id :: "string option"
  cap_configured_priority :: "rat option"

section \<open>JSON values and names on the wire\<close>

datatype json =
    JNull
  | JBool bool
  | JNum rat
  | JStr string
  | JArr "json list"
  | JObj "(string \<times> json) list"

fun outcome_name :: "job_outcome \<Rightarrow> string" where
  "outcome_name Succeeded = ''succeeded''"
| "outcome_name Failed = ''failed''"
| "outcome_name Timed_out = ''timed_out''"
| "outcome_name Cancelled = ''cancelled''"
| "outcome_name Lost = ''lost''"

fun risk_name :: "risk_level \<Rightarrow> string" where
  "risk_name Safe = ''safe''"
| "risk_name Normal = ''normal''"
| "risk_name Destructive = ''destructive''"
| "risk_name Hardware = ''hardware''"

definition json_int :: "int option \<Rightarrow> json" where
  "json_int v = (case v of None \<Rightarrow> JNull | Some n \<Rightarrow> JNum (of_int n))"

definition json_str :: "string option \<Rightarrow> json" where
  "json_str v = (case v of None \<Rightarrow> JNull | Some x \<Rightarrow> JStr x)"

fun os_name :: "os_family \<Rightarrow> string" where
  "os_name Macos = ''macos''"
| "os_name Windows = ''windows''"
| "os_name Linux = ''linux''"

end
