(* ===== verification/Lifecycle_Notifier.thy ===== *)
theory Lifecycle_Notifier
  imports Rbo_Prelude
begin

text \<open>
  \<open>apps/controller/src/jobs/lifecycle-notifier.ts\<close>: the in-process wakeup primitive for durable
  job state. A \<open>notif_state\<close> is one \<open>JobLifecycleNotifier\<close> seen from one database: its listener
  map, the job ids queued until commit, the marker of a managed transaction and the closed flag.
  A listener is identified by a number and calling it appends that number to \<open>woken\<close>, so the
  ghost field records which waiters ran, in which order. \<open>db_conn\<close> is what the code keeps per
  database handle: whether SQLite is in a transaction, the bound notifier, and the marker of the
  unbound managed transaction. The tables extend this record in \<open>Job_Store\<close>; a transaction
  therefore takes the function that restores them as an argument.
\<close>

section \<open>State\<close>

record notif_state =
  nf_listeners :: "(string \<times> nat list) list"
  nf_pending :: "string list option"
  nf_managed :: bool
  nf_closed :: bool

record db_conn =
  in_transaction :: bool
  bound_notifier :: "notif_state option"
  unbound_managed :: bool
  woken :: "nat list"

definition empty_notifier :: notif_state where
  "empty_notifier = \<lparr>nf_listeners = [], nf_pending = None, nf_managed = False, nf_closed = False\<rparr>"

definition UnboundJobLifecycleNotifierError :: rbo_error where
  "UnboundJobLifecycleNotifierError = JsError ''No job lifecycle notifier is bound to this database''"

section \<open>The notifier's methods\<close>

text \<open>A JavaScript \<open>Map\<close>: \<open>get\<close>, \<open>delete\<close>, \<open>set\<close> on an association list.\<close>

definition listeners_of :: "string \<Rightarrow> notif_state \<Rightarrow> nat list" where
  "listeners_of jobId n = (case map_of (nf_listeners n) jobId of None \<Rightarrow> [] | Some ls \<Rightarrow> ls)"

fun map_delete :: "'k \<Rightarrow> ('k \<times> 'v) list \<Rightarrow> ('k \<times> 'v) list" where
  "map_delete k [] = []"
| "map_delete k ((k', v) # m) = (if k = k' then map_delete k m else (k', v) # map_delete k m)"

fun map_set :: "'k \<Rightarrow> 'v \<Rightarrow> ('k \<times> 'v) list \<Rightarrow> ('k \<times> 'v) list" where
  "map_set k v [] = [(k, v)]"
| "map_set k v ((k', v') # m) = (if k = k' then (k, v) # map_delete k m else (k', v') # map_set k v m)"

definition set_add :: "'a \<Rightarrow> 'a list \<Rightarrow> 'a list" where
  "set_add x xs = (if x \<in> set xs then xs else xs @ [x])"

text \<open>\<open>subscribe\<close>: the returned unsubscribe closure is modelled by \<open>unsubscribe\<close> with its flag.\<close>

definition subscribe :: "string \<Rightarrow> nat \<Rightarrow> notif_state \<times> nat list \<Rightarrow> notif_state \<times> nat list" where
  "subscribe jobId l nw =
     (let (n, w) = nw in
      if nf_closed n then (n, w @ [l])
      else (n\<lparr>nf_listeners := map_set jobId (set_add l (listeners_of jobId n)) (nf_listeners n)\<rparr>, w))"

definition unsubscribe :: "bool \<Rightarrow> string \<Rightarrow> nat \<Rightarrow> notif_state \<Rightarrow> bool \<times> notif_state" where
  "unsubscribe subscribed jobId l n =
     (if \<not> subscribed then (False, n)
      else case map_of (nf_listeners n) jobId of
             None \<Rightarrow> (False, n)
           | Some ls \<Rightarrow>
               (let ls' = removeAll l ls in
                (False, if ls' = [] then n\<lparr>nf_listeners := map_delete jobId (nf_listeners n)\<rparr>
                        else n\<lparr>nf_listeners := map_set jobId ls' (nf_listeners n)\<rparr>)))"

definition notify :: "string \<Rightarrow> notif_state \<times> nat list \<Rightarrow> notif_state \<times> nat list" where
  "notify jobId nw =
     (let (n, w) = nw in
      if nf_closed n then (n, w)
      else case map_of (nf_listeners n) jobId of
             None \<Rightarrow> (n, w)
           | Some ls \<Rightarrow> (n\<lparr>nf_listeners := map_delete jobId (nf_listeners n)\<rparr>, w @ ls))"

definition notifyAfterCommit ::
  "bool \<Rightarrow> string \<Rightarrow> notif_state \<times> nat list \<Rightarrow> notif_state \<times> nat list" where
  "notifyAfterCommit inTransaction jobId nw =
     (let (n, w) = nw in
      if nf_closed n then (n, w)
      else if \<not> inTransaction then notify jobId (n, w)
      else (n\<lparr>nf_pending := Some (set_add jobId (case nf_pending n of None \<Rightarrow> [] | Some p \<Rightarrow> p))\<rparr>, w))"

definition listenerCount :: "string option \<Rightarrow> notif_state \<Rightarrow> nat" where
  "listenerCount j n =
     (case j of Some jobId \<Rightarrow> length (listeners_of jobId n)
      | None \<Rightarrow> sum_list (map (length \<circ> snd) (nf_listeners n)))"

definition close_notifier :: "notif_state \<times> nat list \<Rightarrow> notif_state \<times> nat list" where
  "close_notifier nw =
     (let (n, w) = nw in
      (n\<lparr>nf_closed := True, nf_listeners := []\<rparr>, w @ concat (map snd (nf_listeners n))))"

section \<open>Per-database binding and transactions\<close>

definition with_notifier ::
  "(notif_state \<times> nat list \<Rightarrow> notif_state \<times> nat list) \<Rightarrow> 'z db_conn_scheme \<Rightarrow> 'z db_conn_scheme" where
  "with_notifier f s =
     (case bound_notifier s of None \<Rightarrow> s
      | Some n \<Rightarrow> (let (n', w') = f (n, woken s) in s\<lparr>bound_notifier := Some n', woken := w'\<rparr>))"

definition bindJobLifecycleNotifier :: "notif_state \<Rightarrow> ('z db_conn_scheme, unit) rbo" where
  "bindJobLifecycleNotifier n = modify (\<lambda>s. s\<lparr>bound_notifier := Some n\<rparr>)"

definition unbindJobLifecycleNotifier :: "('z db_conn_scheme, unit) rbo" where
  "unbindJobLifecycleNotifier = modify (\<lambda>s. s\<lparr>bound_notifier := None\<rparr>)"

definition isBoundJobLifecycleNotifierClosed :: "'z db_conn_scheme \<Rightarrow> bool" where
  "isBoundJobLifecycleNotifierClosed s =
     (case bound_notifier s of None \<Rightarrow> False | Some n \<Rightarrow> nf_closed n)"

definition subscribeToJobLifecycle :: "string \<Rightarrow> nat \<Rightarrow> ('z db_conn_scheme, unit) rbo" where
  "subscribeToJobLifecycle jobId l =
     (\<lambda>s. case bound_notifier s of
            None \<Rightarrow> throw UnboundJobLifecycleNotifierError s
          | Some n \<Rightarrow> modify (with_notifier (subscribe jobId l)) s)"

definition notifyJobLifecycleChanged :: "string \<Rightarrow> ('z db_conn_scheme, unit) rbo" where
  "notifyJobLifecycleChanged jobId =
     modify (\<lambda>s. with_notifier (notifyAfterCommit (in_transaction s) jobId) s)"

definition assertJobLifecycleWriteAllowed :: "('z db_conn_scheme, unit) rbo" where
  "assertJobLifecycleWriteAllowed =
     (\<lambda>s. if \<not> in_transaction s then (Inr (), s)
          else if (case bound_notifier s of None \<Rightarrow> False | Some n \<Rightarrow> nf_managed n) \<or> unbound_managed s
          then (Inr (), s)
          else (Inl (JsError ''Job lifecycle writes inside a SQLite transaction must use runJobLifecycleTransaction at the outer boundary''), s))"

definition set_managed :: "bool \<Rightarrow> 'z db_conn_scheme \<Rightarrow> 'z db_conn_scheme" where
  "set_managed b = with_notifier (\<lambda>(n, w). (n\<lparr>nf_managed := b\<rparr>, w))"

definition clear_pending :: "'z db_conn_scheme \<Rightarrow> 'z db_conn_scheme" where
  "clear_pending = with_notifier (\<lambda>(n, w). (n\<lparr>nf_pending := None\<rparr>, w))"

definition pending_of :: "'z db_conn_scheme \<Rightarrow> string list" where
  "pending_of s =
     (case bound_notifier s of None \<Rightarrow> []
      | Some n \<Rightarrow> (case nf_pending n of None \<Rightarrow> [] | Some p \<Rightarrow> p))"

text \<open>
  \<open>JobLifecycleNotifier.runTransaction\<close>. \<open>rollback s0 s1\<close> is the state with the tables of \<open>s0\<close>
  and the in-memory fields of \<open>s1\<close>: what SQLite's \<open>ROLLBACK\<close> leaves.
\<close>

definition runJobLifecycleTransaction ::
  "('z db_conn_scheme \<Rightarrow> 'z db_conn_scheme \<Rightarrow> 'z db_conn_scheme) \<Rightarrow> ('z db_conn_scheme, 'a) rbo
     \<Rightarrow> ('z db_conn_scheme, 'a) rbo" where
  "runJobLifecycleTransaction rollback operation = (\<lambda>s.
     if bound_notifier s = None then (Inl UnboundJobLifecycleNotifierError, s)
     else if in_transaction s
     then (Inl (JsError ''Cannot start a job lifecycle transaction inside an existing SQLite transaction; wrap the outer transaction with runJobLifecycleTransaction''), s)
     else
       (let (r, s1) = operation (set_managed True (s\<lparr>in_transaction := True\<rparr>));
            s2 = set_managed False s1
        in case r of
             Inr a \<Rightarrow>
               (let s3 = s2\<lparr>in_transaction := False\<rparr>
                in (Inr a, fold (\<lambda>j. with_notifier (notify j)) (pending_of s3) (clear_pending s3)))
           | Inl e \<Rightarrow> (Inl e, clear_pending ((rollback s s2)\<lparr>in_transaction := False\<rparr>))))"

definition runUnboundJobLifecycleTransaction ::
  "('z db_conn_scheme \<Rightarrow> 'z db_conn_scheme \<Rightarrow> 'z db_conn_scheme) \<Rightarrow> ('z db_conn_scheme, 'a) rbo
     \<Rightarrow> ('z db_conn_scheme, 'a) rbo" where
  "runUnboundJobLifecycleTransaction rollback operation = (\<lambda>s.
     if in_transaction s
     then (Inl (JsError ''Cannot start a job lifecycle transaction inside an existing SQLite transaction; wrap the outer transaction with runLifecycleTransaction''), s)
     else
       (let (r, s1) = operation (s\<lparr>in_transaction := True, unbound_managed := True\<rparr>);
            s2 = s1\<lparr>unbound_managed := False\<rparr>
        in case r of
             Inr a \<Rightarrow> (Inr a, s2\<lparr>in_transaction := False\<rparr>)
           | Inl e \<Rightarrow> (Inl e, (rollback s s2)\<lparr>in_transaction := False\<rparr>)))"

text \<open>\<open>runLifecycleTransaction\<close> of \<open>lifecycle.ts\<close>: fall back only on the unbound error.\<close>

definition runLifecycleTransaction ::
  "('z db_conn_scheme \<Rightarrow> 'z db_conn_scheme \<Rightarrow> 'z db_conn_scheme) \<Rightarrow> ('z db_conn_scheme, 'a) rbo
     \<Rightarrow> ('z db_conn_scheme, 'a) rbo" where
  "runLifecycleTransaction rollback operation = (\<lambda>s.
     case runJobLifecycleTransaction rollback operation s of
       (Inr a, t) \<Rightarrow> (Inr a, t)
     | (Inl e, t) \<Rightarrow>
         if e = UnboundJobLifecycleNotifierError then runUnboundJobLifecycleTransaction rollback operation t
         else (Inl e, t))"

section \<open>Lemmas\<close>

lemma map_of_map_delete: "map_of (map_delete k m) = (map_of m)(k := None)"
  by (induction k m rule: map_delete.induct) (auto simp: fun_eq_iff)

lemma map_of_map_set: "map_of (map_set k v m) = (map_of m)(k \<mapsto> v)"
  by (induction k v m rule: map_set.induct) (auto simp: fun_eq_iff map_of_map_delete)

lemma listeners_of_subscribe:
  "\<not> nf_closed n \<Longrightarrow> listeners_of j (fst (subscribe jobId l (n, w)))
     = (if j = jobId then set_add l (listeners_of jobId n) else listeners_of j n)"
  by (auto simp: subscribe_def listeners_of_def map_of_map_set)

lemma notify_listeners:
  "\<not> nf_closed n \<Longrightarrow> notify j (n, w)
     = (n\<lparr>nf_listeners := if map_of (nf_listeners n) j = None then nf_listeners n
                          else map_delete j (nf_listeners n)\<rparr>, w @ listeners_of j n)"
  by (auto simp: notify_def listeners_of_def split: option.splits)

lemma listeners_of_after_notify:
  "\<not> nf_closed n \<Longrightarrow> listeners_of k (fst (notify j (n, w))) = (if k = j then [] else listeners_of k n)"
  by (auto simp: notify_def listeners_of_def map_of_map_delete split: option.splits)

lemma closed_after_notify [simp]: "nf_closed (fst (notify j nw)) = nf_closed (fst nw)"
  by (cases nw) (auto simp: notify_def split: option.splits)

lemma fold_notify:
  "\<not> nf_closed n \<Longrightarrow> distinct js \<Longrightarrow>
     snd (fold notify js (n, w)) = w @ concat (map (\<lambda>j. listeners_of j n) js)
     \<and> (\<forall>j. listeners_of j (fst (fold notify js (n, w))) = (if j \<in> set js then [] else listeners_of j n))"
proof (induction js arbitrary: n w)
  case (Cons j js)
  obtain n1 w1 where nw: "notify j (n, w) = (n1, w1)" by (cases "notify j (n, w)")
  have w1: "w1 = w @ listeners_of j n" using notify_listeners [OF Cons.prems(1), of j w] nw by simp
  have l1: "listeners_of k n1 = (if k = j then [] else listeners_of k n)" for k
    using listeners_of_after_notify [OF Cons.prems(1), of k j w] nw by simp
  have "nf_closed n1 = nf_closed n" using closed_after_notify [of j "(n, w)"] nw by simp
  with Cons.prems have IH: "snd (fold notify js (n1, w1)) = w1 @ concat (map (\<lambda>j. listeners_of j n1) js)"
      "\<forall>k. listeners_of k (fst (fold notify js (n1, w1))) = (if k \<in> set js then [] else listeners_of k n1)"
    using Cons.IH [of n1 w1] by auto
  have "map (\<lambda>j. listeners_of j n1) js = map (\<lambda>j. listeners_of j n) js"
    using Cons.prems(2) by (auto simp: l1)
  with IH(1) w1 have "snd (fold notify js (n1, w1)) = w @ listeners_of j n @ concat (map (\<lambda>j. listeners_of j n) js)"
    by simp
  moreover have "\<forall>k. listeners_of k (fst (fold notify js (n1, w1)))
      = (if k \<in> set (j # js) then [] else listeners_of k n)"
    using IH(2) l1 by auto
  ultimately show ?case using nw by simp
qed simp

lemma fold_with_notifier:
  "bound_notifier s = Some n \<Longrightarrow>
     fold (\<lambda>j. with_notifier (f j)) js s
       = (let (n', w') = fold f js (n, woken s) in s\<lparr>bound_notifier := Some n', woken := w'\<rparr>)"
proof (induction js arbitrary: s n)
  case Nil
  then show ?case by (cases s) simp
next
  case (Cons j js)
  obtain n1 w1 where fj: "f j (n, woken s) = (n1, w1)" by (cases "f j (n, woken s)")
  let ?s1 = "s\<lparr>bound_notifier := Some n1, woken := w1\<rparr>"
  have step: "with_notifier (f j) s = ?s1" using Cons.prems fj by (simp add: with_notifier_def)
  have "bound_notifier ?s1 = Some n1" by simp
  from Cons.IH [OF this] show ?case by (simp add: step fj)
qed

end
