(* ===== verification/Job_Store.thy ===== *)
theory Job_Store
  imports Protocol_Types Lifecycle_Notifier
begin

text \<open>
  The Controller's SQLite schema (\<open>storage/migrations.ts\<close>) and the lifecycle operations on it
  (\<open>jobs/lifecycle.ts\<close>). A \<open>controller_db\<close> is the connection of \<open>Lifecycle_Notifier\<close> extended
  by the tables, each the list of its rows in insertion order. Every constraint of the schema that
  an operation can violate (primary keys, \<open>UNIQUE\<close>, foreign keys, which the program switches on) is
  a branch that throws \<open>SqliteConstraint\<close> and leaves the tables alone. Columns no modelled operation
  reads or writes (\<open>jobs.agent_id\<close>, \<open>snapshots.bundle_path\<close>, \<open>snapshots.expires_at\<close>) are left out. A \<open>Partial<..>\<close> argument
  is the list of its entries, in the order \<open>Object.entries\<close> visits them.

  The operations are stated over an arbitrary extension of \<open>controller_db\<close>, so that the remote
  execution and recovery components run on the same database with their own in-memory state added.
\<close>

section \<open>Rows\<close>

record agent_row =
  ag_id :: string
  ag_display_name :: string
  ag_hostname :: "string option"
  ag_state :: string
  ag_priority :: int
  ag_max_jobs :: rat
  ag_capabilities :: "agent_capability_report option"
  ag_last_seen_at :: "ts option"
  ag_paired_at :: ts
  ag_disabled_at :: "ts option"
  ag_device_public_key :: "string option"
  ag_device_thumbprint :: "string option"
  ag_credential_version :: int
  ag_revoked_at :: "ts option"
  ag_last_boot_id :: "string option"

record job_row =
  jb_id :: string
  jb_client_id :: string
  jb_client_request_id :: string
  jb_name :: "string option"
  jb_state :: run_state
  jb_outcome :: "job_outcome option"
  jb_created_at :: ts
  jb_updated_at :: ts
  jb_queued_at :: "ts option"
  jb_started_at :: "ts option"
  jb_finished_at :: "ts option"
  jb_snapshot_id :: "string option"
  jb_request :: job_request
  jb_result_json :: "json option"
  jb_exit_code :: "int option"
  jb_failure_category :: "error_category option"
  jb_failure_message :: "string option"

record attempt_row =
  at_id :: string
  at_job_id :: string
  at_ordinal :: int
  at_agent_id :: "string option"
  at_lease_id :: string
  at_lease_epoch :: int
  at_lease_deadline :: "ts option"
  at_state :: run_state
  at_outcome :: "job_outcome option"
  at_toolchain_profiles :: "toolchain_profile list option"
  at_started_at :: "ts option"
  at_finished_at :: "ts option"
  at_log_acked_sequence :: int
  at_orphaned_at :: "ts option"
  at_process_identity :: "string option"
  at_last_reconcile_at :: "ts option"
  at_artifact_collection_rules :: "nat option"

datatype event_type =
    State_transition run_state run_state
  | Snapshot_captured string string
  | Materialized string
  | Process_started string "int option"
  | Artifact_collected string string string
  | Artifact_skipped string string
  | Artifact_limit_exceeded string int int
  | Secret_warning string string
  | Env_override_ignored string string
  | Cancel_requested "string option" bool
  | Cleanup_error "int option" bool string
  | Error_event error_category string

record job_event =
  ev_job_id :: string
  ev_attempt_id :: string
  ev_sequence :: int
  ev_created_at :: ts
  ev_type :: event_type

record snapshot_row =
  sn_id :: string
  sn_content_id :: string
  sn_repo_id :: string
  sn_base_commit :: "string option"
  sn_dirty :: bool
  sn_manifest_path :: string
  sn_payload_path :: "string option"
  sn_size_bytes :: "int option"
  sn_sha256 :: "string option"
  sn_created_at :: ts

record controller_db = db_conn +
  agents :: "agent_row list"
  jobs :: "job_row list"
  job_attempts :: "attempt_row list"
  job_events :: "job_event list"
  snapshots :: "snapshot_row list"

text \<open>\<open>ROLLBACK\<close>: the tables of the first state, the in-memory fs of the second.\<close>

definition rollback_tables ::
  "'z controller_db_scheme \<Rightarrow> 'z controller_db_scheme \<Rightarrow> 'z controller_db_scheme" where
  "rollback_tables s0 s1 =
     s1\<lparr>agents := agents s0, jobs := jobs s0, job_attempts := job_attempts s0,
        job_events := job_events s0, snapshots := snapshots s0\<rparr>"

section \<open>Partial updates\<close>

datatype job_field =
    JF_outcome "job_outcome option"
  | JF_queued_at ts
  | JF_started_at ts
  | JF_finished_at ts
  | JF_snapshot_id string
  | JF_exit_code "int option"
  | JF_failure_category "error_category option"
  | JF_failure_message "string option"
  | JF_result_json json

fun set_job_field :: "job_field \<Rightarrow> job_row \<Rightarrow> job_row" where
  "set_job_field (JF_outcome v) r = r\<lparr>jb_outcome := v\<rparr>"
| "set_job_field (JF_queued_at v) r = r\<lparr>jb_queued_at := Some v\<rparr>"
| "set_job_field (JF_started_at v) r = r\<lparr>jb_started_at := Some v\<rparr>"
| "set_job_field (JF_finished_at v) r = r\<lparr>jb_finished_at := Some v\<rparr>"
| "set_job_field (JF_snapshot_id v) r = r\<lparr>jb_snapshot_id := Some v\<rparr>"
| "set_job_field (JF_exit_code v) r = r\<lparr>jb_exit_code := v\<rparr>"
| "set_job_field (JF_failure_category v) r = r\<lparr>jb_failure_category := v\<rparr>"
| "set_job_field (JF_failure_message v) r = r\<lparr>jb_failure_message := v\<rparr>"
| "set_job_field (JF_result_json v) r = r\<lparr>jb_result_json := Some v\<rparr>"

datatype attempt_field =
    AF_log_acked_sequence int
  | AF_orphaned_at "ts option"
  | AF_process_identity "string option"
  | AF_last_reconcile_at "ts option"
  | AF_state run_state
  | AF_outcome "job_outcome option"
  | AF_agent_id "string option"
  | AF_lease_deadline "ts option"
  | AF_finished_at "ts option"

fun set_attempt_field :: "attempt_field \<Rightarrow> attempt_row \<Rightarrow> attempt_row" where
  "set_attempt_field (AF_log_acked_sequence v) r = r\<lparr>at_log_acked_sequence := v\<rparr>"
| "set_attempt_field (AF_orphaned_at v) r = r\<lparr>at_orphaned_at := v\<rparr>"
| "set_attempt_field (AF_process_identity v) r = r\<lparr>at_process_identity := v\<rparr>"
| "set_attempt_field (AF_last_reconcile_at v) r = r\<lparr>at_last_reconcile_at := v\<rparr>"
| "set_attempt_field (AF_state v) r = r\<lparr>at_state := v\<rparr>"
| "set_attempt_field (AF_outcome v) r = r\<lparr>at_outcome := v\<rparr>"
| "set_attempt_field (AF_agent_id v) r = r\<lparr>at_agent_id := v\<rparr>"
| "set_attempt_field (AF_lease_deadline v) r = r\<lparr>at_lease_deadline := v\<rparr>"
| "set_attempt_field (AF_finished_at v) r = r\<lparr>at_finished_at := v\<rparr>"

definition set_job_row :: "run_state \<times> ts \<times> job_field list \<Rightarrow> job_row \<Rightarrow> job_row" where
  "set_job_row u r =
     (case u of (state, now, fs) \<Rightarrow> fold set_job_field fs (r\<lparr>jb_state := state, jb_updated_at := now\<rparr>))"

definition set_attempt_row :: "attempt_field list \<Rightarrow> attempt_row \<Rightarrow> attempt_row" where
  "set_attempt_row fs r = fold set_attempt_field fs r"

section \<open>Lifecycle operations\<close>

definition getJob :: "string \<Rightarrow> 'z controller_db_scheme \<Rightarrow> job_row option" where
  "getJob jobId s = sql_get (\<lambda>r. jb_id r = jobId) (jobs s)"

definition getJobRequest :: "string \<Rightarrow> 'z controller_db_scheme \<Rightarrow> job_request option" where
  "getJobRequest jobId s = map_option jb_request (sql_get (\<lambda>r. jb_id r = jobId) (jobs s))"

definition getAttempt :: "string \<Rightarrow> 'z controller_db_scheme \<Rightarrow> attempt_row option" where
  "getAttempt attemptId s = sql_get (\<lambda>r. at_id r = attemptId) (job_attempts s)"

definition getLatestAttempt :: "string \<Rightarrow> 'z controller_db_scheme \<Rightarrow> attempt_row option" where
  "getLatestAttempt jobId s = top_by at_ordinal (sql_all (\<lambda>r. at_job_id r = jobId) (job_attempts s))"

definition getSnapshot :: "string \<Rightarrow> 'z controller_db_scheme \<Rightarrow> snapshot_row option" where
  "getSnapshot snapshotId s = sql_get (\<lambda>r. sn_id r = snapshotId) (snapshots s)"

definition createJob ::
  "ts \<Rightarrow> string \<Rightarrow> string \<Rightarrow> string \<Rightarrow> job_request \<Rightarrow> run_state \<Rightarrow> string option
     \<Rightarrow> ('z controller_db_scheme, job_row) rbo" where
  "createJob now jobId clientId clientRequestId request initialState name = (\<lambda>s.
     if \<exists>r \<in> set (jobs s). jb_id r = jobId \<or> (jb_client_id r = clientId \<and> jb_client_request_id r = clientRequestId)
     then (Inl (SqliteConstraint ''jobs''), s)
     else
       (let row = \<lparr>jb_id = jobId, jb_client_id = clientId, jb_client_request_id = clientRequestId,
                   jb_name = (case name of Some n \<Rightarrow> Some n | None \<Rightarrow> rqst_name request),
                   jb_state = initialState, jb_outcome = None, jb_created_at = now,
                   jb_updated_at = now, jb_queued_at = None, jb_started_at = None,
                   jb_finished_at = None, jb_snapshot_id = None, jb_request = request,
                   jb_result_json = None, jb_exit_code = None, jb_failure_category = None,
                   jb_failure_message = None\<rparr>;
            t = s\<lparr>jobs := jobs s @ [row]\<rparr>
        in case getJob jobId t of
             None \<Rightarrow> (Inl (JsError ''Failed to create job''), t)
           | Some r \<Rightarrow> (Inr r, t)))"

definition snapshot_fk_broken :: "string \<Rightarrow> job_field list \<Rightarrow> 'z controller_db_scheme \<Rightarrow> bool" where
  "snapshot_fk_broken jobId fs s =
     (getJob jobId s \<noteq> None \<and>
      (\<exists>f \<in> set fs. case f of JF_snapshot_id sid \<Rightarrow> getSnapshot sid s = None | _ \<Rightarrow> False))"

definition transitionJobState ::
  "ts \<Rightarrow> string \<Rightarrow> run_state \<Rightarrow> job_field list \<Rightarrow> ('z controller_db_scheme, job_row) rbo" where
  "transitionJobState now jobId state fs =
     bind assertJobLifecycleWriteAllowed (\<lambda>_ s.
       if snapshot_fk_broken jobId fs s then (Inl (SqliteConstraint ''jobs.snapshot_id''), s)
       else
         (let t = s\<lparr>jobs := sql_update (\<lambda>r. jb_id r = jobId) (set_job_row (state, now, fs)) (jobs s)\<rparr>
          in case getJob jobId t of
               None \<Rightarrow> (Inl (JsError (''Job not found after transition: '' @ jobId)), t)
             | Some r \<Rightarrow> bind (notifyJobLifecycleChanged jobId) (\<lambda>_. ret r) t))"

definition nextLeaseEpochForJob :: "string \<Rightarrow> 'z controller_db_scheme \<Rightarrow> int" where
  "nextLeaseEpochForJob jobId s =
     max_or_zero (map at_lease_epoch (sql_all (\<lambda>r. at_job_id r = jobId) (job_attempts s))) + 1"

definition bumpLeaseEpoch :: "string \<Rightarrow> ('z controller_db_scheme, int) rbo" where
  "bumpLeaseEpoch attemptId = (\<lambda>s.
     case getAttempt attemptId s of
       None \<Rightarrow> (Inl (JsError (''Attempt not found: '' @ attemptId)), s)
     | Some attempt \<Rightarrow>
         (let nextEpoch = at_lease_epoch attempt + 1 in
          if \<exists>r \<in> set (job_attempts s). at_id r \<noteq> attemptId \<and> at_lease_id r = at_lease_id attempt
                                       \<and> at_lease_epoch r = nextEpoch
          then (Inl (SqliteConstraint ''job_attempts.lease''), s)
          else (Inr nextEpoch,
                s\<lparr>job_attempts := sql_update (\<lambda>r. at_id r = attemptId)
                                    (\<lambda>r. r\<lparr>at_lease_epoch := nextEpoch\<rparr>) (job_attempts s)\<rparr>)))"

text \<open>The constraints an inserted \<open>job_attempts\<close> row must satisfy.\<close>

definition attempt_insert_ok :: "attempt_row \<Rightarrow> 'z controller_db_scheme \<Rightarrow> bool" where
  "attempt_insert_ok row s =
     ((\<forall>r \<in> set (job_attempts s).
         at_id r \<noteq> at_id row \<and>
         \<not> (at_job_id r = at_job_id row \<and> at_ordinal r = at_ordinal row) \<and>
         \<not> (at_lease_id r = at_lease_id row \<and> at_lease_epoch r = at_lease_epoch row)) \<and>
      getJob (at_job_id row) s \<noteq> None \<and>
      (case at_agent_id row of None \<Rightarrow> True | Some a \<Rightarrow> sql_get (\<lambda>r. ag_id r = a) (agents s) \<noteq> None))"

definition blank_attempt :: "string \<Rightarrow> string \<Rightarrow> int \<Rightarrow> string \<Rightarrow> int \<Rightarrow> run_state \<Rightarrow> attempt_row" where
  "blank_attempt attemptId jobId ordinal leaseId epoch state =
     \<lparr>at_id = attemptId, at_job_id = jobId, at_ordinal = ordinal, at_agent_id = None,
      at_lease_id = leaseId, at_lease_epoch = epoch, at_lease_deadline = None, at_state = state,
      at_outcome = None, at_toolchain_profiles = None, at_started_at = None, at_finished_at = None,
      at_log_acked_sequence = 0, at_orphaned_at = None, at_process_identity = None,
      at_last_reconcile_at = None, at_artifact_collection_rules = None\<rparr>"

definition insertAttempt :: "attempt_row \<Rightarrow> ('z controller_db_scheme, unit) rbo" where
  "insertAttempt row = (\<lambda>s.
     if attempt_insert_ok row s then (Inr (), s\<lparr>job_attempts := job_attempts s @ [row]\<rparr>)
     else (Inl (SqliteConstraint ''job_attempts''), s))"

definition createAttempt ::
  "ts \<Rightarrow> string \<Rightarrow> string \<Rightarrow> string \<Rightarrow> int \<Rightarrow> ('z controller_db_scheme, attempt_row) rbo" where
  "createAttempt now attemptId leaseId jobId ordinal =
     bind (gets (nextLeaseEpochForJob jobId)) (\<lambda>leaseEpoch.
     bind (insertAttempt ((blank_attempt attemptId jobId ordinal leaseId leaseEpoch Starting)
                            \<lparr>at_started_at := Some now\<rparr>)) (\<lambda>_.
     bind (gets (getAttempt attemptId)) (\<lambda>row.
       case row of None \<Rightarrow> throw (JsError ''Failed to create attempt'') | Some r \<Rightarrow> ret r)))"

definition agent_fk_broken :: "string \<Rightarrow> attempt_field list \<Rightarrow> 'z controller_db_scheme \<Rightarrow> bool" where
  "agent_fk_broken attemptId fs s =
     (getAttempt attemptId s \<noteq> None \<and>
      (\<exists>f \<in> set fs. case f of AF_agent_id (Some a) \<Rightarrow> sql_get (\<lambda>r. ag_id r = a) (agents s) = None
                                | _ \<Rightarrow> False))"

definition updateAttempt ::
  "string \<Rightarrow> attempt_field list \<Rightarrow> ('z controller_db_scheme, attempt_row) rbo" where
  "updateAttempt attemptId fs = (\<lambda>s.
     if fs = [] then
       (case getAttempt attemptId s of
          None \<Rightarrow> (Inl (JsError (''Attempt not found: '' @ attemptId)), s)
        | Some r \<Rightarrow> (Inr r, s))
     else if agent_fk_broken attemptId fs s then (Inl (SqliteConstraint ''job_attempts.agent_id''), s)
     else
       (let t = s\<lparr>job_attempts := sql_update (\<lambda>r. at_id r = attemptId) (set_attempt_row fs) (job_attempts s)\<rparr>
        in case getAttempt attemptId t of
             None \<Rightarrow> (Inl (JsError (''Attempt not found after update: '' @ attemptId)), t)
           | Some r \<Rightarrow> (Inr r, t)))"

definition transitionAttemptState ::
  "string \<Rightarrow> run_state \<Rightarrow> attempt_field list \<Rightarrow> ('z controller_db_scheme, attempt_row) rbo" where
  "transitionAttemptState attemptId state fs = (\<lambda>s.
     let t = s\<lparr>job_attempts := sql_update (\<lambda>r. at_id r = attemptId)
                                 (set_attempt_row (AF_state state # fs)) (job_attempts s)\<rparr>
     in case getAttempt attemptId t of
          None \<Rightarrow> (Inl (JsError (''Attempt not found after transition: '' @ attemptId)), t)
        | Some r \<Rightarrow> (Inr r, t))"

text \<open>\<open>JobEventSchema.parse\<close>: the \<open>min(1)\<close>, \<open>positive()\<close> and enum checks of the union's members.\<close>

fun event_type_ok :: "event_type \<Rightarrow> bool" where
  "event_type_ok (State_transition a b) = (a \<in> set JobStateSchema \<and> b \<in> set JobStateSchema)"
| "event_type_ok (Snapshot_captured sid cid) = (sid \<noteq> [] \<and> cid \<noteq> [])"
| "event_type_ok (Materialized w) = (w \<noteq> [])"
| "event_type_ok (Process_started w pid) = (w \<noteq> [] \<and> (case pid of None \<Rightarrow> True | Some p \<Rightarrow> p > 0))"
| "event_type_ok (Artifact_collected i p h) = (i \<noteq> [] \<and> p \<noteq> [] \<and> h \<noteq> [])"
| "event_type_ok (Artifact_skipped p w) = (p \<noteq> [] \<and> w \<noteq> [])"
| "event_type_ok (Artifact_limit_exceeded w l a) = (w \<in> {''file_count'', ''total_bytes''} \<and> l > 0 \<and> a > 0)"
| "event_type_ok (Secret_warning p w) = (p \<noteq> [] \<and> w \<noteq> [])"
| "event_type_ok (Env_override_ignored n w) = (n \<noteq> [] \<and> w \<noteq> [])"
| "event_type_ok (Cancel_requested w b) = True"
| "event_type_ok (Cleanup_error c t m) = (m \<noteq> [])"
| "event_type_ok (Error_event c m) = (m \<noteq> [])"

definition event_ok :: "job_event \<Rightarrow> bool" where
  "event_ok e = (ev_sequence e > 0 \<and> ev_job_id e \<noteq> [] \<and> ev_attempt_id e \<noteq> [] \<and> event_type_ok (ev_type e))"

definition nextEventSequence :: "string \<Rightarrow> 'z controller_db_scheme \<Rightarrow> int" where
  "nextEventSequence attemptId s =
     max_or_zero (map ev_sequence (sql_all (\<lambda>e. ev_attempt_id e = attemptId) (job_events s))) + 1"

definition createJobEvent ::
  "ts \<Rightarrow> event_type \<Rightarrow> string \<Rightarrow> string \<Rightarrow> ('z controller_db_scheme, job_event) rbo" where
  "createJobEvent now type jobId attemptId = (\<lambda>s.
     let e = \<lparr>ev_job_id = jobId, ev_attempt_id = attemptId,
              ev_sequence = nextEventSequence attemptId s, ev_created_at = now, ev_type = type\<rparr>
     in if event_ok e then (Inr e, s) else (Inl (JsError ''ZodError''), s))"

definition recordEvent :: "job_event \<Rightarrow> ('z controller_db_scheme, job_event) rbo" where
  "recordEvent e = (\<lambda>s.
     if \<not> event_ok e then (Inl (JsError ''ZodError''), s)
     else if (\<exists>r \<in> set (job_events s). ev_attempt_id r = ev_attempt_id e \<and> ev_sequence r = ev_sequence e)
        \<or> getJob (ev_job_id e) s = None \<or> getAttempt (ev_attempt_id e) s = None
     then (Inl (SqliteConstraint ''job_events''), s)
     else (Inr e, s\<lparr>job_events := job_events s @ [e]\<rparr>))"

definition persistSnapshot :: "ts \<Rightarrow> snapshot_row \<Rightarrow> ('z controller_db_scheme, snapshot_row) rbo" where
  "persistSnapshot now row = (\<lambda>s.
     if getSnapshot (sn_id row) s \<noteq> None then (Inl (SqliteConstraint ''snapshots''), s)
     else (Inr (row\<lparr>sn_created_at := now\<rparr>), s\<lparr>snapshots := snapshots s @ [row\<lparr>sn_created_at := now\<rparr>]\<rparr>))"

definition isTerminalJobState :: "run_state \<Rightarrow> bool" where
  "isTerminalJobState state = (state = Completed)"

definition isDestructiveRisk :: "risk_level \<Rightarrow> bool" where
  "isDestructiveRisk riskLevel = (riskLevel = Destructive \<or> riskLevel = Hardware)"

end
