(* ===== verification/Job_Store_Laws.thy ===== *)
theory Job_Store_Laws
  imports Job_Store
begin

text \<open>
  What the lifecycle operations promise their callers. The tables \<open>jobs\<close> and
  \<open>job_attempts\<close> interpret the locale \<open>keyed_table\<close>; two relations between the database before
  and after an operation interpret \<open>step_relation\<close>:
  \<^item> \<open>attempt_frame a\<close>: rows of \<open>job_attempts\<close> other than \<open>a\<close> are as before;
  \<^item> \<open>leases_advance\<close>: no attempt disappears, changes its lease id, or lowers its epoch.

  The schema invariant \<open>db_wf\<close> states the primary keys, unique pairs and foreign keys.
\<close>

section \<open>Tables as keyed tables\<close>

lemma jb_id_set_job_field [simp]: "jb_id (set_job_field f r) = jb_id r"
  by (cases f) simp_all

lemma jb_id_fold_set_job_field [simp]: "jb_id (fold set_job_field fs r) = jb_id r"
  by (induction fs arbitrary: r) simp_all

lemma jb_id_set_job_row [simp]: "jb_id (set_job_row u r) = jb_id r"
  by (simp add: set_job_row_def split: prod.split)

lemma set_attempt_field_keys [simp]:
  "at_id (set_attempt_field f r) = at_id r"
  "at_job_id (set_attempt_field f r) = at_job_id r"
  "at_ordinal (set_attempt_field f r) = at_ordinal r"
  "at_lease_id (set_attempt_field f r) = at_lease_id r"
  "at_lease_epoch (set_attempt_field f r) = at_lease_epoch r"
  by (cases f; simp)+

lemma set_attempt_row_keys [simp]:
  "at_id (set_attempt_row fs r) = at_id r"
  "at_job_id (set_attempt_row fs r) = at_job_id r"
  "at_ordinal (set_attempt_row fs r) = at_ordinal r"
  "at_lease_id (set_attempt_row fs r) = at_lease_id r"
  "at_lease_epoch (set_attempt_row fs r) = at_lease_epoch r"
  unfolding set_attempt_row_def by (induction fs arbitrary: r) simp_all

lemma set_job_field_keys [simp]:
  "jb_state (set_job_field f r) = jb_state r"
  "jb_request (set_job_field f r) = jb_request r"
  "jb_client_id (set_job_field f r) = jb_client_id r"
  "jb_client_request_id (set_job_field f r) = jb_client_request_id r"
  by (cases f; simp)+

lemma fold_set_job_field_keys [simp]:
  "jb_state (fold set_job_field fs r) = jb_state r"
  "jb_request (fold set_job_field fs r) = jb_request r"
  "jb_client_id (fold set_job_field fs r) = jb_client_id r"
  "jb_client_request_id (fold set_job_field fs r) = jb_client_request_id r"
  by (induction fs arbitrary: r) simp_all

lemma set_job_row_keys [simp]:
  "jb_state (set_job_row (st, now, fs) r) = st"
  "jb_request (set_job_row u r) = jb_request r"
  "jb_client_id (set_job_row u r) = jb_client_id r"
  "jb_client_request_id (set_job_row u r) = jb_client_request_id r"
  by (simp_all add: set_job_row_def split: prod.split)

interpretation job_tab: keyed_table jb_id set_job_row
  by unfold_locales simp

interpretation attempt_tab: keyed_table at_id set_attempt_row
  by unfold_locales simp

interpretation epoch_tab: keyed_table at_id "\<lambda>e r. r\<lparr>at_lease_epoch := e\<rparr>"
  by unfold_locales simp

section \<open>What the notifier calls leave alone\<close>

definition db_part :: "'z controller_db_scheme \<Rightarrow> _" where
  "db_part s = (agents s, jobs s, job_attempts s, job_events s, snapshots s, controller_db.more s)"

lemma with_notifier_db [simp]:
  "agents (with_notifier f s) = agents s" "jobs (with_notifier f s) = jobs s"
  "job_attempts (with_notifier f s) = job_attempts s" "job_events (with_notifier f s) = job_events s"
  "snapshots (with_notifier f s) = snapshots s" "controller_db.more (with_notifier f s) = controller_db.more s"
  "in_transaction (with_notifier f s) = in_transaction s"
  "unbound_managed (with_notifier f s) = unbound_managed s"
  by (auto simp: with_notifier_def split: option.splits prod.splits)

lemma getJob_with_notifier [simp]: "getJob j (with_notifier f s) = getJob j s"
  by (simp add: getJob_def)

lemma getAttempt_with_notifier [simp]: "getAttempt a (with_notifier f s) = getAttempt a s"
  by (simp add: getAttempt_def)

lemma assertJobLifecycleWriteAllowed_state [simp]: "snd (assertJobLifecycleWriteAllowed s) = s"
  by (auto simp: assertJobLifecycleWriteAllowed_def)

section \<open>Functional behaviour of the row operations\<close>

lemma getAttempt_jobs_update [simp]:
  "getAttempt a (s\<lparr>jobs := js\<rparr>) = getAttempt a s"
  "getAttempt a (s\<lparr>job_events := es\<rparr>) = getAttempt a s"
  by (simp_all add: getAttempt_def)

lemma getJob_attempts_update [simp]:
  "getJob j (s\<lparr>job_attempts := xs\<rparr>) = getJob j s"
  "getJob j (s\<lparr>job_events := es\<rparr>) = getJob j s"
  by (simp_all add: getJob_def)

lemma getAttempt_sql_update:
  "getAttempt a (s\<lparr>job_attempts := sql_update (\<lambda>r. at_id r = b) (set_attempt_row fs) (job_attempts s)\<rparr>)
     = (if a = b then map_option (set_attempt_row fs) (getAttempt a s) else getAttempt a s)"
  by (simp add: getAttempt_def attempt_tab.get_update_same attempt_tab.get_update_other)

lemma getJob_sql_update:
  "getJob j (s\<lparr>jobs := sql_update (\<lambda>r. jb_id r = k) (set_job_row u) (jobs s)\<rparr>)
     = (if j = k then map_option (set_job_row u) (getJob j s) else getJob j s)"
  by (simp add: getJob_def job_tab.get_update_same job_tab.get_update_other)

lemma getAttempt_id: "getAttempt a s = Some r \<Longrightarrow> at_id r = a"
  unfolding getAttempt_def by (drule sql_get_Some) simp

lemma getJob_id: "getJob j s = Some r \<Longrightarrow> jb_id r = j"
  unfolding getJob_def by (drule sql_get_Some) simp

lemma transitionAttemptState_existing:
  "getAttempt a s = Some r \<Longrightarrow> transitionAttemptState a st fs s
     = (Inr (set_attempt_row (AF_state st # fs) r),
        s\<lparr>job_attempts := sql_update (\<lambda>r. at_id r = a) (set_attempt_row (AF_state st # fs)) (job_attempts s)\<rparr>)"
  by (simp add: transitionAttemptState_def Let_def getAttempt_sql_update)

lemma transitionAttemptState_missing:
  "getAttempt a s = None \<Longrightarrow> transitionAttemptState a st fs s
     = (Inl (JsError (''Attempt not found after transition: '' @ a)), s)"
  by (simp add: transitionAttemptState_def Let_def getAttempt_sql_update)
    (simp add: getAttempt_def sql_get_None sql_update_id)

lemma updateAttempt_existing:
  "getAttempt a s = Some r \<Longrightarrow> \<not> agent_fk_broken a fs s \<Longrightarrow> fs \<noteq> [] \<Longrightarrow> updateAttempt a fs s
     = (Inr (set_attempt_row fs r),
        s\<lparr>job_attempts := sql_update (\<lambda>r. at_id r = a) (set_attempt_row fs) (job_attempts s)\<rparr>)"
  by (simp add: updateAttempt_def Let_def getAttempt_sql_update)

definition no_agent_field :: "attempt_field list \<Rightarrow> bool" where
  "no_agent_field fs = list_all (\<lambda>f. case f of AF_agent_id _ \<Rightarrow> False | _ \<Rightarrow> True) fs"

lemma no_agent_fk: "no_agent_field fs \<Longrightarrow> \<not> agent_fk_broken a fs s"
proof
  assume fs: "no_agent_field fs" and "agent_fk_broken a fs s"
  then obtain f where f: "f \<in> set fs"
      and b: "case f of AF_agent_id (Some x) \<Rightarrow> sql_get (\<lambda>r. ag_id r = x) (agents s) = None | _ \<Rightarrow> False"
    by (auto simp: agent_fk_broken_def)
  from fs f have "case f of AF_agent_id _ \<Rightarrow> False | _ \<Rightarrow> True"
    by (simp add: no_agent_field_def list_all_iff)
  with b show False by (cases f) simp_all
qed

definition no_snapshot_field :: "job_field list \<Rightarrow> bool" where
  "no_snapshot_field fs = list_all (\<lambda>f. case f of JF_snapshot_id _ \<Rightarrow> False | _ \<Rightarrow> True) fs"

lemma no_snapshot_fk: "no_snapshot_field fs \<Longrightarrow> \<not> snapshot_fk_broken j fs s"
proof
  assume fs: "no_snapshot_field fs" and "snapshot_fk_broken j fs s"
  then obtain f where f: "f \<in> set fs"
      and b: "case f of JF_snapshot_id sid \<Rightarrow> getSnapshot sid s = None | _ \<Rightarrow> False"
    by (auto simp: snapshot_fk_broken_def)
  from fs f have "case f of JF_snapshot_id _ \<Rightarrow> False | _ \<Rightarrow> True"
    by (simp add: no_snapshot_field_def list_all_iff)
  with b show False by (cases f) simp_all
qed

definition job_updated :: "ts \<Rightarrow> string \<Rightarrow> run_state \<Rightarrow> job_field list \<Rightarrow> 'z controller_db_scheme \<Rightarrow> 'z controller_db_scheme" where
  "job_updated now j st fs s =
     with_notifier (notifyAfterCommit (in_transaction s) j)
       (s\<lparr>jobs := sql_update (\<lambda>r. jb_id r = j) (set_job_row (st, now, fs)) (jobs s)\<rparr>)"

lemma transitionJobState_existing:
  assumes "getJob j s = Some r" and "no_snapshot_field fs" and "\<not> in_transaction s"
  shows "transitionJobState now j st fs s = (Inr (set_job_row (st, now, fs) r), job_updated now j st fs s)"
  using assms no_snapshot_fk [OF assms(2), of j s]
  by (simp add: transitionJobState_def bind_apply assertJobLifecycleWriteAllowed_def Let_def
      getJob_sql_update notifyJobLifecycleChanged_def job_updated_def)

lemma job_updated_simps [simp]:
  "getAttempt a (job_updated now j st fs s) = getAttempt a s"
  "job_attempts (job_updated now j st fs s) = job_attempts s"
  "job_events (job_updated now j st fs s) = job_events s"
  "agents (job_updated now j st fs s) = agents s"
  "snapshots (job_updated now j st fs s) = snapshots s"
  "in_transaction (job_updated now j st fs s) = in_transaction s"
  "controller_db.more (job_updated now j st fs s) = controller_db.more s"
  by (simp_all add: job_updated_def)

lemma getJob_job_updated [simp]:
  "getJob k (job_updated now j st fs s)
     = (if k = j then map_option (set_job_row (st, now, fs)) (getJob k s) else getJob k s)"
  by (simp add: job_updated_def getJob_sql_update)

section \<open>Relations the operations keep\<close>

definition attempt_frame :: "string \<Rightarrow> 'z controller_db_scheme \<Rightarrow> 'z controller_db_scheme \<Rightarrow> bool" where
  "attempt_frame a s t = (\<forall>b. b \<noteq> a \<longrightarrow> getAttempt b t = getAttempt b s)"

definition leases_advance :: "'z controller_db_scheme \<Rightarrow> 'z controller_db_scheme \<Rightarrow> bool" where
  "leases_advance s t =
     (\<forall>a r. getAttempt a s = Some r \<longrightarrow>
        (\<exists>r'. getAttempt a t = Some r' \<and> at_lease_id r' = at_lease_id r \<and>
              at_job_id r' = at_job_id r \<and> at_lease_epoch r \<le> at_lease_epoch r'))"

interpretation frame: step_relation "attempt_frame a" for a
  by unfold_locales (auto simp: attempt_frame_def)

interpretation advance: step_relation leases_advance
proof unfold_locales
  fix s t u :: "'z controller_db_scheme"
  show "leases_advance s s" by (simp add: leases_advance_def)
  assume st: "leases_advance s t" and tu: "leases_advance t u"
  show "leases_advance s u"
    unfolding leases_advance_def
  proof (intro allI impI)
    fix a r assume "getAttempt a s = Some r"
    with st obtain r1 where r1: "getAttempt a t = Some r1" "at_lease_id r1 = at_lease_id r"
        "at_job_id r1 = at_job_id r" "at_lease_epoch r \<le> at_lease_epoch r1"
      unfolding leases_advance_def by blast
    with tu obtain r2 where "getAttempt a u = Some r2" "at_lease_id r2 = at_lease_id r1"
        "at_job_id r2 = at_job_id r1" "at_lease_epoch r1 \<le> at_lease_epoch r2"
      unfolding leases_advance_def by blast
    with r1 show "\<exists>r'. getAttempt a u = Some r' \<and> at_lease_id r' = at_lease_id r \<and>
        at_job_id r' = at_job_id r \<and> at_lease_epoch r \<le> at_lease_epoch r'"
      by simp
  qed
qed

lemma frame_transitionAttemptState: "obeys (attempt_frame a) (transitionAttemptState a st fs)"
  by (auto simp: obeys_def attempt_frame_def transitionAttemptState_def Let_def getAttempt_sql_update
      split: option.splits)

lemma frame_updateAttempt: "obeys (attempt_frame a) (updateAttempt a fs)"
  by (auto simp: obeys_def attempt_frame_def updateAttempt_def Let_def getAttempt_sql_update
      split: option.splits)

lemma getAttempt_epoch_update:
  "getAttempt b (s\<lparr>job_attempts := sql_update (\<lambda>r. at_id r = a) (\<lambda>r. r\<lparr>at_lease_epoch := e\<rparr>) (job_attempts s)\<rparr>)
     = (if b = a then map_option (\<lambda>r. r\<lparr>at_lease_epoch := e\<rparr>) (getAttempt b s) else getAttempt b s)"
  by (simp add: getAttempt_def epoch_tab.get_update_same epoch_tab.get_update_other)

lemma frame_bumpLeaseEpoch: "obeys (attempt_frame a) (bumpLeaseEpoch a)"
  by (auto simp: obeys_def attempt_frame_def bumpLeaseEpoch_def Let_def
      getAttempt_epoch_update split: option.splits)

lemma attempts_transitionJobState [simp]:
  "job_attempts (snd (transitionJobState now j st fs s)) = job_attempts s"
  by (auto simp: transitionJobState_def bind_apply assertJobLifecycleWriteAllowed_def Let_def
      notifyJobLifecycleChanged_def split: option.splits)

lemma attempts_recordEvent [simp]: "job_attempts (snd (recordEvent e s)) = job_attempts s"
  by (simp add: recordEvent_def)

lemma state_createJobEvent [simp]: "snd (createJobEvent now ty j a s) = s"
  by (simp add: createJobEvent_def Let_def)

lemma getAttempt_cong: "job_attempts s = job_attempts t \<Longrightarrow> getAttempt a s = getAttempt a t"
  by (simp add: getAttempt_def)

lemma obeys_frame_same: "(\<And>s. job_attempts (snd (m s)) = job_attempts s) \<Longrightarrow> obeys (attempt_frame a) m"
  by (simp add: obeys_def attempt_frame_def getAttempt_def)

lemma obeys_advance_same: "(\<And>s. job_attempts (snd (m s)) = job_attempts s) \<Longrightarrow> obeys leases_advance m"
  by (simp add: obeys_def leases_advance_def getAttempt_def)

lemma frame_transitionJobState: "obeys (attempt_frame a) (transitionJobState now j st fs)"
  by (rule obeys_frame_same) simp

lemma frame_recordEvent: "obeys (attempt_frame a) (recordEvent e)"
  by (rule obeys_frame_same) simp

lemma frame_createJobEvent: "obeys (attempt_frame a) (createJobEvent now ty j b)"
  by (rule obeys_frame_same) simp

lemma frame_notifyJobLifecycleChanged: "obeys (attempt_frame a) (notifyJobLifecycleChanged j)"
  by (rule obeys_frame_same) (simp add: notifyJobLifecycleChanged_def)

lemma frame_assertJobLifecycleWriteAllowed: "obeys (attempt_frame a) assertJobLifecycleWriteAllowed"
  by (rule obeys_frame_same) simp

lemmas frame_intros =
  frame.obeys_rules frame_transitionAttemptState frame_updateAttempt frame_bumpLeaseEpoch
  frame_transitionJobState frame_recordEvent frame_createJobEvent
  frame_notifyJobLifecycleChanged frame_assertJobLifecycleWriteAllowed

lemma advance_transitionAttemptState: "obeys leases_advance (transitionAttemptState a st fs)"
  by (auto simp: obeys_def leases_advance_def transitionAttemptState_def Let_def getAttempt_sql_update
      split: option.splits)

lemma advance_updateAttempt: "obeys leases_advance (updateAttempt a fs)"
  by (auto simp: obeys_def leases_advance_def updateAttempt_def Let_def getAttempt_sql_update
      split: option.splits)

lemma advance_bumpLeaseEpoch: "obeys leases_advance (bumpLeaseEpoch a)"
  by (auto simp: obeys_def leases_advance_def bumpLeaseEpoch_def Let_def getAttempt_epoch_update
      split: option.splits)

lemma advance_insertAttempt: "obeys leases_advance (insertAttempt row)"
  by (auto simp: obeys_def leases_advance_def insertAttempt_def getAttempt_def sql_get_append)

lemma advance_transitionJobState: "obeys leases_advance (transitionJobState now j st fs)"
  by (rule obeys_advance_same) simp

lemma advance_recordEvent: "obeys leases_advance (recordEvent e)"
  by (rule obeys_advance_same) simp

lemma advance_createJobEvent: "obeys leases_advance (createJobEvent now ty j b)"
  by (rule obeys_advance_same) simp

lemma advance_notifyJobLifecycleChanged: "obeys leases_advance (notifyJobLifecycleChanged j)"
  by (rule obeys_advance_same) (simp add: notifyJobLifecycleChanged_def)

lemma advance_assertJobLifecycleWriteAllowed: "obeys leases_advance assertJobLifecycleWriteAllowed"
  by (rule obeys_advance_same) simp

lemmas advance_intros =
  advance.obeys_rules advance_transitionAttemptState advance_updateAttempt advance_bumpLeaseEpoch
  advance_insertAttempt advance_transitionJobState advance_recordEvent advance_createJobEvent
  advance_notifyJobLifecycleChanged advance_assertJobLifecycleWriteAllowed

section \<open>The schema invariant\<close>

definition attempts_wf :: "'z controller_db_scheme \<Rightarrow> bool" where
  "attempts_wf s =
     (distinct (map at_id (job_attempts s)) \<and>
      distinct (map (\<lambda>r. (at_job_id r, at_ordinal r)) (job_attempts s)) \<and>
      distinct (map (\<lambda>r. (at_lease_id r, at_lease_epoch r)) (job_attempts s)) \<and>
      (\<forall>r \<in> set (job_attempts s). at_job_id r \<in> jb_id ` set (jobs s)) \<and>
      (\<forall>r \<in> set (job_attempts s). \<forall>a. at_agent_id r = Some a \<longrightarrow> a \<in> ag_id ` set (agents s)))"

definition jobs_wf :: "'z controller_db_scheme \<Rightarrow> bool" where
  "jobs_wf s =
     (distinct (map jb_id (jobs s)) \<and>
      distinct (map (\<lambda>r. (jb_client_id r, jb_client_request_id r)) (jobs s)) \<and>
      distinct (map sn_id (snapshots s)) \<and>
      (\<forall>r \<in> set (jobs s). \<forall>i. jb_snapshot_id r = Some i \<longrightarrow> i \<in> sn_id ` set (snapshots s)))"

definition events_wf :: "'z controller_db_scheme \<Rightarrow> bool" where
  "events_wf s =
     (distinct (map (\<lambda>e. (ev_attempt_id e, ev_sequence e)) (job_events s)) \<and>
      (\<forall>e \<in> set (job_events s). ev_attempt_id e \<in> at_id ` set (job_attempts s)
                               \<and> ev_job_id e \<in> jb_id ` set (jobs s)))"

definition db_wf :: "'z controller_db_scheme \<Rightarrow> bool" where
  "db_wf s = (attempts_wf s \<and> jobs_wf s \<and> events_wf s)"

lemma getJob_mem: "getJob j s \<noteq> None \<longleftrightarrow> j \<in> jb_id ` set (jobs s)"
  by (auto simp: getJob_def sql_get_None image_iff)

lemma getAttempt_mem: "getAttempt a s \<noteq> None \<longleftrightarrow> a \<in> at_id ` set (job_attempts s)"
  by (auto simp: getAttempt_def sql_get_None image_iff)

lemma getSnapshot_mem: "getSnapshot i s \<noteq> None \<longleftrightarrow> i \<in> sn_id ` set (snapshots s)"
  by (auto simp: getSnapshot_def sql_get_None image_iff)

lemma image_key_sql_update: "(\<And>r. key (f r) = key r) \<Longrightarrow> key ` set (sql_update P f t) = key ` set t"
  by (metis list.set_map map_sql_update)

lemma at_agent_id_fold:
  "at_agent_id (fold set_attempt_field fs r) = at_agent_id r
   \<or> (\<exists>x. AF_agent_id x \<in> set fs \<and> at_agent_id (fold set_attempt_field fs r) = x)"
proof (induction fs arbitrary: r)
  case (Cons f fs)
  show ?case
  proof (cases "\<exists>x. AF_agent_id x \<in> set fs \<and> at_agent_id (fold set_attempt_field fs (set_attempt_field f r)) = x")
    case False
    then have "at_agent_id (fold set_attempt_field fs (set_attempt_field f r)) = at_agent_id (set_attempt_field f r)"
      using Cons.IH by blast
    then show ?thesis by (cases f) auto
  qed auto
qed simp

lemma jb_snapshot_id_fold:
  "jb_snapshot_id (fold set_job_field fs r) = jb_snapshot_id r
   \<or> (\<exists>x. JF_snapshot_id x \<in> set fs \<and> jb_snapshot_id (fold set_job_field fs r) = Some x)"
proof (induction fs arbitrary: r)
  case (Cons f fs)
  show ?case
  proof (cases "\<exists>x. JF_snapshot_id x \<in> set fs \<and> jb_snapshot_id (fold set_job_field fs (set_job_field f r)) = Some x")
    case False
    then have "jb_snapshot_id (fold set_job_field fs (set_job_field f r)) = jb_snapshot_id (set_job_field f r)"
      using Cons.IH by blast
    then show ?thesis by (cases f) auto
  qed auto
qed simp

lemma attempt_set_row_wf:
  assumes wf: "db_wf s" and ok: "\<not> agent_fk_broken a fs s"
  shows "db_wf (s\<lparr>job_attempts := sql_update (\<lambda>r. at_id r = a) (set_attempt_row fs) (job_attempts s)\<rparr>)"
proof -
  let ?u = "sql_update (\<lambda>r. at_id r = a) (set_attempt_row fs) (job_attempts s)"
  have agent: "\<forall>r \<in> set ?u. \<forall>x. at_agent_id r = Some x \<longrightarrow> x \<in> ag_id ` set (agents s)"
  proof (intro ballI allI impI)
    fix r x assume r: "r \<in> set ?u" and x: "at_agent_id r = Some x"
    from r obtain q where q: "q \<in> set (job_attempts s)" "r = (if at_id q = a then set_attempt_row fs q else q)"
      by (auto simp: set_sql_update)
    have old: "at_agent_id q = Some x \<Longrightarrow> x \<in> ag_id ` set (agents s)"
      using wf q(1) by (auto simp: db_wf_def attempts_wf_def)
    show "x \<in> ag_id ` set (agents s)"
    proof (cases "at_id q = a \<and> at_agent_id r \<noteq> at_agent_id q")
      case True
      with q x have "AF_agent_id (Some x) \<in> set fs"
        using at_agent_id_fold [of fs q] by (auto simp: set_attempt_row_def)
      moreover have "getAttempt a s \<noteq> None" using True q(1) unfolding getAttempt_mem by blast
      ultimately have "sql_get (\<lambda>r. ag_id r = x) (agents s) \<noteq> None"
        using ok by (force simp: agent_fk_broken_def)
      then show ?thesis by (auto simp: sql_get_None)
    next
      case False
      with q x old show ?thesis by (auto split: if_splits)
    qed
  qed
  have ids: "at_id ` set ?u = at_id ` set (job_attempts s)"
    by (rule image_key_sql_update) simp
  have jobs: "\<forall>r \<in> set ?u. at_job_id r \<in> jb_id ` set (jobs s)"
    using wf by (auto simp: db_wf_def attempts_wf_def set_sql_update)
  show ?thesis using wf agent ids jobs
    by (simp add: db_wf_def attempts_wf_def jobs_wf_def events_wf_def map_sql_update)
qed

lemma db_wf_with_notifier [simp]: "db_wf (with_notifier f s) = db_wf s"
  by (simp add: db_wf_def attempts_wf_def jobs_wf_def events_wf_def)

lemma job_set_row_wf:
  assumes wf: "db_wf s" and ok: "\<not> snapshot_fk_broken j fs s"
  shows "db_wf (s\<lparr>jobs := sql_update (\<lambda>r. jb_id r = j) (set_job_row (st, now, fs)) (jobs s)\<rparr>)"
proof -
  let ?u = "sql_update (\<lambda>r. jb_id r = j) (set_job_row (st, now, fs)) (jobs s)"
  have snap: "\<forall>r \<in> set ?u. \<forall>i. jb_snapshot_id r = Some i \<longrightarrow> i \<in> sn_id ` set (snapshots s)"
  proof (intro ballI allI impI)
    fix r i assume r: "r \<in> set ?u" and i: "jb_snapshot_id r = Some i"
    from r obtain q where q: "q \<in> set (jobs s)" "r = (if jb_id q = j then set_job_row (st, now, fs) q else q)"
      by (auto simp: set_sql_update)
    have old: "jb_snapshot_id q = Some i \<Longrightarrow> i \<in> sn_id ` set (snapshots s)"
      using wf q(1) by (auto simp: db_wf_def jobs_wf_def)
    show "i \<in> sn_id ` set (snapshots s)"
    proof (cases "jb_id q = j \<and> jb_snapshot_id r \<noteq> jb_snapshot_id q")
      case True
      with q i have "JF_snapshot_id i \<in> set fs"
        using jb_snapshot_id_fold [of fs "q\<lparr>jb_state := st, jb_updated_at := now\<rparr>"]
        by (auto simp: set_job_row_def)
      moreover have "getJob j s \<noteq> None" using True q(1) unfolding getJob_mem by blast
      ultimately have "getSnapshot i s \<noteq> None"
        using ok by (force simp: snapshot_fk_broken_def)
      then show ?thesis by (simp only: getSnapshot_mem)
    next
      case False
      with q i old show ?thesis by (auto split: if_splits)
    qed
  qed
  have "jb_id ` set ?u = jb_id ` set (jobs s)"
    by (rule image_key_sql_update) simp
  with wf snap show ?thesis
    by (simp add: db_wf_def attempts_wf_def jobs_wf_def events_wf_def map_sql_update)
qed

lemma wf_transitionAttemptState: "no_agent_field fs \<Longrightarrow> preserves db_wf (transitionAttemptState a st fs)"
  by (rule preservesI)
    (auto simp: transitionAttemptState_def Let_def no_agent_field_def
      intro!: attempt_set_row_wf no_agent_fk split: option.splits)

lemma wf_updateAttempt: "preserves db_wf (updateAttempt a fs)"
  by (rule preservesI)
    (auto simp: updateAttempt_def Let_def intro!: attempt_set_row_wf split: option.splits)

lemma wf_transitionJobState: "preserves db_wf (transitionJobState now j st fs)"
  by (rule preservesI)
    (auto simp: transitionJobState_def bind_apply assertJobLifecycleWriteAllowed_def Let_def
      notifyJobLifecycleChanged_def intro!: job_set_row_wf split: option.splits)

lemma wf_insertAttempt: "preserves db_wf (insertAttempt row)"
proof (rule preservesI)
  fix s :: "'z controller_db_scheme" assume wf: "db_wf s"
  show "db_wf (snd (insertAttempt row s))"
  proof (cases "attempt_insert_ok row s")
    case True
    then have new: "at_id row \<notin> at_id ` set (job_attempts s)"
        "(at_job_id row, at_ordinal row) \<notin> (\<lambda>r. (at_job_id r, at_ordinal r)) ` set (job_attempts s)"
        "(at_lease_id row, at_lease_epoch row) \<notin> (\<lambda>r. (at_lease_id r, at_lease_epoch r)) ` set (job_attempts s)"
        "at_job_id row \<in> jb_id ` set (jobs s)"
        "\<And>x. at_agent_id row = Some x \<Longrightarrow> x \<in> ag_id ` set (agents s)"
      using getJob_mem [of "at_job_id row" s]
      by (auto simp: attempt_insert_ok_def sql_get_None split: option.splits)
    with wf True show ?thesis
      by (auto simp: insertAttempt_def db_wf_def attempts_wf_def jobs_wf_def events_wf_def)
  qed (use wf in \<open>simp add: insertAttempt_def\<close>)
qed

lemma wf_createAttempt: "preserves db_wf (createAttempt now a l j n)"
  unfolding createAttempt_def
  by (intro preserves_rules wf_insertAttempt)

lemma wf_createJob: "preserves db_wf (createJob now j c q rq st nm)"
  by (rule preservesI)
    (auto simp: createJob_def Let_def db_wf_def attempts_wf_def jobs_wf_def events_wf_def
      split: option.splits)

lemma wf_createJobEvent: "preserves db_wf (createJobEvent now ty j a)"
  by (rule preservesI) simp

lemma wf_recordEvent: "preserves db_wf (recordEvent e)"
proof (rule preservesI)
  fix s :: "'z controller_db_scheme" assume wf: "db_wf s"
  show "db_wf (snd (recordEvent e s))"
  proof (cases "succeeds (recordEvent e s)")
    case True
    then have "(ev_attempt_id e, ev_sequence e) \<notin> (\<lambda>r. (ev_attempt_id r, ev_sequence r)) ` set (job_events s)"
        and "getJob (ev_job_id e) s \<noteq> None" "getAttempt (ev_attempt_id e) s \<noteq> None"
        and "snd (recordEvent e s) = s\<lparr>job_events := job_events s @ [e]\<rparr>"
      by (auto simp: recordEvent_def split: if_splits)
    with wf show ?thesis unfolding getJob_mem getAttempt_mem
      by (simp add: db_wf_def attempts_wf_def jobs_wf_def events_wf_def)
  next
    case False
    then have "snd (recordEvent e s) = s" by (auto simp: recordEvent_def split: if_splits)
    with wf show ?thesis by simp
  qed
qed

lemma wf_persistSnapshot: "preserves db_wf (persistSnapshot now row)"
proof (rule preservesI)
  fix s :: "'z controller_db_scheme" assume wf: "db_wf s"
  show "db_wf (snd (persistSnapshot now row s))"
  proof (cases "getSnapshot (sn_id row) s = None")
    case True
    then have "sn_id row \<notin> sn_id ` set (snapshots s)" using getSnapshot_mem by blast
    with wf True show ?thesis
      by (simp add: persistSnapshot_def db_wf_def attempts_wf_def jobs_wf_def events_wf_def)
  qed (use wf in \<open>auto simp: persistSnapshot_def\<close>)
qed

lemma distinct_epoch_update:
  assumes "distinct (map at_id t)" "distinct (map (\<lambda>r. (at_lease_id r, at_lease_epoch r)) t)"
    and "\<forall>r \<in> set t. at_id r \<noteq> a \<longrightarrow> \<not> (at_lease_id r = l \<and> at_lease_epoch r = e)"
    and "\<forall>r \<in> set t. at_id r = a \<longrightarrow> at_lease_id r = l"
  shows "distinct (map (\<lambda>r. (at_lease_id r, at_lease_epoch r))
           (sql_update (\<lambda>r. at_id r = a) (\<lambda>r. r\<lparr>at_lease_epoch := e\<rparr>) t))"
  using assms
proof (induction t)
  case (Cons r t)
  show ?case
  proof (cases "at_id r = a")
    case True
    then have "\<forall>q \<in> set t. at_id q \<noteq> a" using Cons.prems(1) by (auto simp: image_iff)
    then have "sql_update (\<lambda>r. at_id r = a) (\<lambda>r. r\<lparr>at_lease_epoch := e\<rparr>) t = t"
      by (rule sql_update_id)
    with True Cons.prems \<open>\<forall>q \<in> set t. at_id q \<noteq> a\<close> show ?thesis by auto
  next
    case False
    with Cons show ?thesis by (auto simp: set_sql_update)
  qed
qed simp

lemma wf_bumpLeaseEpoch: "preserves db_wf (bumpLeaseEpoch a)"
proof (rule preservesI)
  fix s :: "'z controller_db_scheme" assume wf: "db_wf s"
  show "db_wf (snd (bumpLeaseEpoch a s))"
  proof (cases "succeeds (bumpLeaseEpoch a s)")
    case True
    then obtain r where r: "getAttempt a s = Some r"
      and free: "\<forall>q \<in> set (job_attempts s). at_id q \<noteq> a \<longrightarrow>
                   \<not> (at_lease_id q = at_lease_id r \<and> at_lease_epoch q = at_lease_epoch r + 1)"
      and st: "snd (bumpLeaseEpoch a s) = s\<lparr>job_attempts := sql_update (\<lambda>r. at_id r = a)
                   (\<lambda>q. q\<lparr>at_lease_epoch := at_lease_epoch r + 1\<rparr>) (job_attempts s)\<rparr>"
      by (auto simp: bumpLeaseEpoch_def Let_def split: option.splits if_splits)
    have "\<forall>q \<in> set (job_attempts s). at_id q = a \<longrightarrow> at_lease_id q = at_lease_id r"
    proof (intro ballI impI)
      fix q assume "q \<in> set (job_attempts s)" "at_id q = a"
      moreover have "distinct (map at_id (job_attempts s))"
        using wf by (simp add: db_wf_def attempts_wf_def)
      ultimately have "getAttempt a s = Some q"
        unfolding getAttempt_def using attempt_tab.get_unique by blast
      with r show "at_lease_id q = at_lease_id r" by simp
    qed
    then have "distinct (map (\<lambda>r. (at_lease_id r, at_lease_epoch r)) (job_attempts (snd (bumpLeaseEpoch a s))))"
      using wf free unfolding st by (simp add: distinct_epoch_update db_wf_def attempts_wf_def)
    moreover have "at_id ` set (job_attempts (snd (bumpLeaseEpoch a s))) = at_id ` set (job_attempts s)"
      unfolding st by (simp add: image_key_sql_update)
    ultimately show ?thesis using wf
      by (auto simp: st db_wf_def attempts_wf_def jobs_wf_def events_wf_def map_sql_update set_sql_update)
  next
    case False
    then have "snd (bumpLeaseEpoch a s) = s"
      by (auto simp: bumpLeaseEpoch_def Let_def split: option.splits if_splits)
    with wf show ?thesis by simp
  qed
qed

lemmas wf_intros =
  preserves_rules wf_transitionAttemptState wf_updateAttempt wf_transitionJobState wf_insertAttempt
  wf_createAttempt wf_createJob wf_createJobEvent wf_recordEvent wf_persistSnapshot wf_bumpLeaseEpoch

end
