(* ===== verification/Js_Values.thy ===== *)
theory Js_Values
  imports Job_Store_Laws
begin

text \<open>
  The JavaScript values and standard-library functions the sources compute with: JSON values and
  object spread, \<open>Number(string)\<close>, and the address predicates of
  \<open>packages/discovery/src/address.ts\<close>. Numbers are exact rationals; \<open>None\<close> is a conversion
  whose result is not a finite number.
\<close>

section \<open>JSON\<close>

text \<open>\<open>{...base, ...over}\<close>: later entries replace earlier ones in place.\<close>

definition obj_spread :: "(string \<times> json) list \<Rightarrow> (string \<times> json) list \<Rightarrow> (string \<times> json) list" where
  "obj_spread base over = fold (\<lambda>(k, v) o'. map_set k v o') over base"

definition str_of :: "json option \<Rightarrow> string" where
  "str_of v = (case v of Some (JStr s) \<Rightarrow> s | _ \<Rightarrow> [])"

section \<open>Number(string)\<close>

definition digit_val :: "char \<Rightarrow> nat" where
  "digit_val c = (of_char c :: nat) - 48"

definition digits_val :: "string \<Rightarrow> nat" where
  "digits_val s = fold (\<lambda>c n. 10 * n + digit_val c) s 0"

definition parse_exponent :: "string \<Rightarrow> int option" where
  "parse_exponent s =
     (case s of
        [] \<Rightarrow> Some 0
      | c # r \<Rightarrow>
          if c = CHR ''e'' \<or> c = CHR ''E'' then
            (let (neg, ds) = (case r of
                 [] \<Rightarrow> (False, [])
               | x # xs \<Rightarrow> if x = CHR ''-'' then (True, xs) else if x = CHR ''+'' then (False, xs) else (False, r))
             in if ds \<noteq> [] \<and> list_all is_digit ds
                then Some (if neg then - int (digits_val ds) else int (digits_val ds)) else None)
          else None)"

definition pow10 :: "int \<Rightarrow> rat" where
  "pow10 e = (if e \<ge> 0 then 10 ^ nat e else 1 / 10 ^ nat (- e))"

definition parse_unsigned :: "string \<Rightarrow> rat option" where
  "parse_unsigned s =
     (let i = takeWhile is_digit s; r = dropWhile is_digit s;
          (f, r2) = (case r of [] \<Rightarrow> ([], [])
                     | c # t \<Rightarrow> if c = CHR ''.'' then (takeWhile is_digit t, dropWhile is_digit t) else ([], r))
      in if i = [] \<and> f = [] then None
         else case parse_exponent r2 of
                None \<Rightarrow> None
              | Some e \<Rightarrow> Some (of_nat (digits_val (i @ f)) * pow10 (e - int (length f))))"

definition hex_val :: "char \<Rightarrow> nat option" where
  "hex_val c =
     (let n = (of_char c :: nat) in
      if 48 \<le> n \<and> n \<le> 57 then Some (n - 48)
      else if 97 \<le> n \<and> n \<le> 102 then Some (n - 87)
      else if 65 \<le> n \<and> n \<le> 70 then Some (n - 55) else None)"

fun radix_val :: "nat \<Rightarrow> string \<Rightarrow> nat \<Rightarrow> nat option" where
  "radix_val b [] acc = Some acc"
| "radix_val b (c # cs) acc =
     (case hex_val c of None \<Rightarrow> None
      | Some d \<Rightarrow> if d < b then radix_val b cs (b * acc + d) else None)"

definition parse_radix :: "nat \<Rightarrow> string \<Rightarrow> rat option" where
  "parse_radix b ds = (if ds = [] then None else map_option of_nat (radix_val b ds 0))"

definition js_Number :: "string \<Rightarrow> rat option" where
  "js_Number s =
     (let t = trim s in
      case t of
        [] \<Rightarrow> Some 0
      | c # r \<Rightarrow>
          if c = CHR ''-'' then map_option uminus (parse_unsigned r)
          else if c = CHR ''+'' then parse_unsigned r
          else if c = CHR ''0'' \<and> r \<noteq> [] \<and> lower_char (hd r) = CHR ''x'' then parse_radix 16 (tl r)
          else if c = CHR ''0'' \<and> r \<noteq> [] \<and> lower_char (hd r) = CHR ''o'' then parse_radix 8 (tl r)
          else if c = CHR ''0'' \<and> r \<noteq> [] \<and> lower_char (hd r) = CHR ''b'' then parse_radix 2 (tl r)
          else parse_unsigned t)"

section \<open>Addresses\<close>

definition starts_with :: "string \<Rightarrow> string \<Rightarrow> bool" where
  "starts_with s p = prefix p s"

definition isIpv4Address :: "string \<Rightarrow> bool" where
  "isIpv4Address v =
     (let parts = split_on CHR ''.'' v in
      length parts = 4 \<and>
      list_all (\<lambda>p. p \<noteq> [] \<and> length p \<le> 3 \<and> list_all is_digit p \<and> digits_val p \<le> 255) parts)"

definition is_hex_colon :: "char \<Rightarrow> bool" where
  "is_hex_colon c = (hex_val c \<noteq> None \<or> c = CHR '':'')"

definition isIpv6Address :: "string \<Rightarrow> bool" where
  "isIpv6Address v = (CHR '':'' \<in> set v \<and> list_all is_hex_colon v)"

text \<open>\<open>value.replace(/^::ffff:/i, '')\<close>\<close>

definition strip_mapped :: "string \<Rightarrow> string" where
  "strip_mapped v = (if toLowerCase (take 7 v) = ''::ffff:'' then drop 7 v else v)"

definition isIpAddress :: "string \<Rightarrow> bool" where
  "isIpAddress v = (isIpv4Address (strip_mapped v) \<or> isIpv6Address v \<or> isIpv4Address v)"

text \<open>\<open>host.trim().replace(/\.+$/, '')\<close>\<close>

definition strip_trailing_dots :: "string \<Rightarrow> string" where
  "strip_trailing_dots v = rev (dropWhile (\<lambda>c. c = CHR ''.'') (rev v))"

definition normalizeMdnsHost :: "string \<Rightarrow> string" where
  "normalizeMdnsHost host =
     (let trimmed = strip_trailing_dots (trim host) in
      if trimmed = [] then trimmed
      else if isIpAddress trimmed then trimmed
      else if CHR ''.'' \<notin> set trimmed then trimmed @ ''.local''
      else trimmed)"

definition hostLookupCandidates :: "string \<Rightarrow> string list" where
  "hostLookupCandidates host =
     (let trimmed = strip_trailing_dots (trim host) in
      if trimmed = [] then []
      else if isIpAddress trimmed then [trimmed]
      else if CHR ''.'' \<notin> set trimmed then [trimmed, trimmed @ ''.local'']
      else [trimmed])"

text \<open>\<open>/^172\.(1[6-9]|2[0-9]|3[0-1])\./\<close>\<close>

definition is_172_private :: "string \<Rightarrow> bool" where
  "is_172_private v =
     (take 4 v = ''172.'' \<and>
      (case drop 4 v of
         a # b # d # _ \<Rightarrow>
           d = CHR ''.'' \<and> is_digit b \<and>
           ((a = CHR ''1'' \<and> digit_val b \<ge> 6) \<or> a = CHR ''2'' \<or> (a = CHR ''3'' \<and> digit_val b \<le> 1))
       | _ \<Rightarrow> False))"

definition isPrivateLanAddress :: "string \<Rightarrow> bool" where
  "isPrivateLanAddress v =
     (let n = strip_mapped v in
      isIpv4Address n \<and>
      (starts_with n ''10.'' \<or> starts_with n ''192.168.'' \<or> starts_with n ''169.254.'' \<or> is_172_private n))"

definition isRoutableIpAddress :: "string \<Rightarrow> bool" where
  "isRoutableIpAddress v =
     (let n = strip_mapped v in
      isIpAddress n \<and>
      \<not> (n = ''0.0.0.0'' \<or> n = ''::'' \<or> n = ''::1'' \<or> starts_with n ''127.'' \<or>
         starts_with n ''169.254.'' \<or> starts_with (toLowerCase n) ''fe80:''))"

definition first_some :: "'a option list \<Rightarrow> 'a \<Rightarrow> 'a" where
  "first_some os d = (case find (\<lambda>o'. o' \<noteq> None) os of Some (Some x) \<Rightarrow> x | _ \<Rightarrow> d)"

definition selectBestAddress :: "string list \<Rightarrow> string \<Rightarrow> string option \<Rightarrow> string" where
  "selectBestAddress addresses fallbackHost responderAddress =
     (let responder = map_option strip_mapped responderAddress;
          routable = filter isRoutableIpAddress addresses;
          lan172 = filter is_172_private routable
      in if (case responder of Some r \<Rightarrow> r \<noteq> [] \<and> isRoutableIpAddress r | None \<Rightarrow> False)
         then the responder
         else first_some
           [find (\<lambda>a. starts_with a ''192.168.'') routable,
            find (\<lambda>a. starts_with a ''10.'') routable,
            find (\<lambda>a. a \<noteq> ''172.17.0.1'') lan172,
            find (\<lambda>_. True) lan172,
            find (\<lambda>a. CHR '':'' \<notin> set a) routable,
            find (\<lambda>_. True) routable]
           (normalizeMdnsHost fallbackHost))"

section \<open>Lemmas\<close>

lemma first_some_cases: "first_some os d = d \<or> Some (first_some os d) \<in> set os"
  by (induction os) (auto simp: first_some_def split: option.splits)

lemma find_mem: "find P xs = Some x \<Longrightarrow> P x \<and> x \<in> set xs"
  by (induction xs) (auto split: if_splits)

lemma not_None_mem: "find (\<lambda>_. True) xs = Some x \<Longrightarrow> x \<in> set xs"
  by (cases xs) auto

lemma map_of_map_set_fold:
  "k \<notin> fst ` set over \<Longrightarrow> map_of (fold (\<lambda>(k, v) o'. map_set k v o') over base) k = map_of base k"
  by (induction over arbitrary: base) (auto simp: map_of_map_set)

lemma obj_spread_other: "k \<notin> fst ` set over \<Longrightarrow> map_of (obj_spread base over) k = map_of base k"
  by (simp add: obj_spread_def map_of_map_set_fold)

lemma obj_spread_over:
  "distinct (map fst over) \<Longrightarrow> (k, v) \<in> set over \<Longrightarrow> map_of (obj_spread base over) k = Some v"
  unfolding obj_spread_def
proof (induction over arbitrary: base)
  case (Cons kv over)
  show ?case
  proof (cases "kv = (k, v)")
    case True
    with Cons.prems have "k \<notin> fst ` set over" by auto
    with True show ?thesis by (simp add: map_of_map_set_fold map_of_map_set)
  next
    case False
    with Cons show ?thesis by (cases kv) auto
  qed
qed simp

section \<open>Properties\<close>

text \<open>
  Address selection for a discovered Controller never invents an address: the result is the
  responder that delivered the packet when it is routable, or else one of the advertised addresses
  that is routable, or else, only when no advertised address is routable, the normalised fallback
  host name.
\<close>

theorem selectBestAddress_sound:
  "(\<exists>r. responderAddress = Some r \<and> isRoutableIpAddress (strip_mapped r)
        \<and> selectBestAddress addresses fallbackHost responderAddress = strip_mapped r)
   \<or> (selectBestAddress addresses fallbackHost responderAddress \<in> set addresses
        \<and> isRoutableIpAddress (selectBestAddress addresses fallbackHost responderAddress))
   \<or> (selectBestAddress addresses fallbackHost responderAddress = normalizeMdnsHost fallbackHost
        \<and> filter isRoutableIpAddress addresses = [])"
proof -
  let ?routable = "filter isRoutableIpAddress addresses"
  let ?os = "[find (\<lambda>a. starts_with a ''192.168.'') ?routable,
            find (\<lambda>a. starts_with a ''10.'') ?routable,
            find (\<lambda>a. a \<noteq> ''172.17.0.1'') (filter is_172_private ?routable),
            find (\<lambda>_. True) (filter is_172_private ?routable),
            find (\<lambda>a. CHR '':'' \<notin> set a) ?routable,
            find (\<lambda>_. True) ?routable]"
  let ?x = "first_some ?os (normalizeMdnsHost fallbackHost)"
  have mem: "Some x \<in> set ?os \<Longrightarrow> x \<in> set addresses \<and> isRoutableIpAddress x" for x
    by (auto dest!: find_mem sym [of "Some x"])
  have none: "?routable \<noteq> [] \<Longrightarrow> Some ?x \<in> set ?os"
    by (cases ?routable) (auto simp: first_some_def split: option.splits)
  have "(?x \<in> set addresses \<and> isRoutableIpAddress ?x) \<or> (?x = normalizeMdnsHost fallbackHost \<and> ?routable = [])"
  proof (cases "?routable = []")
    case True
    then show ?thesis by (simp add: first_some_def)
  next
    case False
    from mem [OF none [OF False]] show ?thesis by blast
  qed
  then show ?thesis
    by (cases responderAddress) (auto simp: selectBestAddress_def Let_def)
qed

end
