(* ===== verification/Data_Tokens.thy ===== *)
theory Data_Tokens
  imports Js_Values "HOL-Library.Countable"
begin

text \<open>
  Controller-signed EdDSA JWTs (\<open>packages/shared/src/crypto.ts\<close>) and the data-plane tokens built
  on them (\<open>apps/controller/src/security/data-tokens.ts\<close>). Node's \<open>crypto\<close> and the base64url and
  JSON codecs are parameters, collected in \<open>jwt_env\<close>; \<open>jwt_env_ok\<close> states the documented
  behaviour the code relies on: decoding undoes encoding, neither codec nor signature text contains
  a dot, and a signature made with the private key verifies under the public key.
\<close>

record jwt_env =
  b64_encode :: "json \<Rightarrow> string"
  b64_decode :: "string \<Rightarrow> json option"
  crypto_sign :: "string \<Rightarrow> string \<Rightarrow> string"
  crypto_verify :: "string \<Rightarrow> string \<Rightarrow> string \<Rightarrow> bool"

record controller_identity =
  id_controllerId :: string
  id_signingPrivateKeyPem :: string
  id_signingPublicKeyPem :: string

definition jwt_env_ok :: "jwt_env \<Rightarrow> string \<Rightarrow> string \<Rightarrow> bool" where
  "jwt_env_ok env priv pub =
     ((\<forall>j. b64_decode env (b64_encode env j) = Some j) \<and>
      (\<forall>j. CHR ''.'' \<notin> set (b64_encode env j)) \<and>
      (\<forall>m. CHR ''.'' \<notin> set (crypto_sign env priv m)) \<and>
      (\<forall>m. crypto_verify env pub m (crypto_sign env priv m)))"

section \<open>Compact JWTs\<close>

definition signEdDsaJwt :: "jwt_env \<Rightarrow> int \<Rightarrow> string \<Rightarrow> (string \<times> json) list \<Rightarrow> string" where
  "signEdDsaJwt env nowSec privateKeyPem claims =
     (let header = b64_encode env (JObj [(''alg'', JStr ''EdDSA''), (''typ'', JStr ''JWT'')]);
          payload = b64_encode env (JObj (obj_spread [(''iat'', JNum (of_int nowSec))] claims));
          signingInput = header @ ''.'' @ payload;
          signature = crypto_sign env privateKeyPem signingInput
      in signingInput @ ''.'' @ signature)"

definition verifyEdDsaJwt :: "jwt_env \<Rightarrow> int \<Rightarrow> string \<Rightarrow> string \<Rightarrow> (string \<times> json) list option" where
  "verifyEdDsaJwt env nowSec publicKeyPem token =
     (case split_on CHR ''.'' token of
        [header, payload, signature] \<Rightarrow>
          (case b64_decode env header of
             Some (JObj h) \<Rightarrow>
               if map_of h ''alg'' \<noteq> Some (JStr ''EdDSA'') then None
               else if \<not> crypto_verify env publicKeyPem (header @ ''.'' @ payload) signature then None
               else (case b64_decode env payload of
                       Some (JObj claims) \<Rightarrow>
                         (case map_of claims ''exp'' of
                            Some (JNum e) \<Rightarrow> if e \<le> of_int nowSec then None else Some claims
                          | _ \<Rightarrow> None)
                     | _ \<Rightarrow> None)
           | _ \<Rightarrow> None)
      | _ \<Rightarrow> None)"

section \<open>Data tokens\<close>

datatype data_op = Snapshot_download | Overlay_download | Bundle_download_op | Artifact_upload_op

fun op_name :: "data_op \<Rightarrow> string" where
  "op_name Snapshot_download = ''snapshot_download''"
| "op_name Overlay_download = ''overlay_download''"
| "op_name Bundle_download_op = ''bundle_download''"
| "op_name Artifact_upload_op = ''artifact_upload''"

definition parse_op :: "json option \<Rightarrow> data_op option" where
  "parse_op v =
     (if v = Some (JStr ''snapshot_download'') then Some Snapshot_download
      else if v = Some (JStr ''overlay_download'') then Some Overlay_download
      else if v = Some (JStr ''bundle_download'') then Some Bundle_download_op
      else if v = Some (JStr ''artifact_upload'') then Some Artifact_upload_op
      else None)"

record data_token_claims =
  dt_agent_id :: string
  dt_job_id :: string
  dt_attempt_id :: string
  dt_lease_id :: string
  dt_lease_epoch :: int
  dt_op :: data_op
  dt_artifact_id :: "string option"
  dt_ttl_seconds :: "int option"

record verified_data_token =
  vt_agentId :: string
  vt_jobId :: string
  vt_attemptId :: string
  vt_leaseId :: string
  vt_leaseEpoch :: rat
  vt_op :: data_op
  vt_artifactId :: "string option"

definition DEFAULT_DATA_TOKEN_TTL :: int where
  "DEFAULT_DATA_TOKEN_TTL = 900"

definition data_token_payload :: "string \<Rightarrow> int \<Rightarrow> data_token_claims \<Rightarrow> (string \<times> json) list" where
  "data_token_payload controllerId now c =
     (let ttl = (case dt_ttl_seconds c of Some t \<Rightarrow> t | None \<Rightarrow> DEFAULT_DATA_TOKEN_TTL) in
      [(''sub'', JStr (dt_agent_id c)), (''aud'', JStr controllerId), (''iat'', JNum (of_int now)),
       (''exp'', JNum (of_int (now + ttl))), (''job_id'', JStr (dt_job_id c)),
       (''attempt_id'', JStr (dt_attempt_id c)), (''lease_id'', JStr (dt_lease_id c)),
       (''lease_epoch'', JNum (of_int (dt_lease_epoch c))), (''op'', JStr (op_name (dt_op c)))] @
      (case dt_artifact_id c of
         Some a \<Rightarrow> if a = [] then [] else [(''artifact_id'', JStr a)]
       | None \<Rightarrow> []))"

definition issueDataToken :: "jwt_env \<Rightarrow> int \<Rightarrow> controller_identity \<Rightarrow> data_token_claims \<Rightarrow> string" where
  "issueDataToken env now identity c =
     signEdDsaJwt env now (id_signingPrivateKeyPem identity) (data_token_payload (id_controllerId identity) now c)"

text \<open>
  \<open>typeof x === 'number' ? x : Number(x)\<close>, with \<open>None\<close> for a result the next check rejects
  (\<open>NaN\<close>); \<open>Number\<close> of an array or object is not a number for every value but a one-element or
  empty array, which is not distinguished here.
\<close>

definition json_epoch :: "json option \<Rightarrow> rat option" where
  "json_epoch v =
     (case v of
        Some (JNum n) \<Rightarrow> Some n
      | Some (JStr s) \<Rightarrow> js_Number s
      | Some (JBool b) \<Rightarrow> Some (if b then 1 else 0)
      | Some JNull \<Rightarrow> Some 0
      | _ \<Rightarrow> None)"

definition verifyDataToken :: "jwt_env \<Rightarrow> int \<Rightarrow> controller_identity \<Rightarrow> string \<Rightarrow> verified_data_token option" where
  "verifyDataToken env now identity token =
     (case verifyEdDsaJwt env now (id_signingPublicKeyPem identity) token of
        None \<Rightarrow> None
      | Some claims \<Rightarrow>
          if map_of claims ''aud'' \<noteq> Some (JStr (id_controllerId identity)) then None
          else
            (let agentId = str_of (map_of claims ''sub'');
                 jobId = str_of (map_of claims ''job_id'');
                 attemptId = str_of (map_of claims ''attempt_id'');
                 leaseId = str_of (map_of claims ''lease_id'');
                 leaseEpoch = json_epoch (map_of claims ''lease_epoch'');
                 opn = parse_op (map_of claims ''op'')
             in case (leaseEpoch, opn) of
                  (Some e, Some d) \<Rightarrow>
                    if agentId = [] \<or> jobId = [] \<or> attemptId = [] \<or> leaseId = [] \<or> e = 0 then None
                    else Some \<lparr>vt_agentId = agentId, vt_jobId = jobId, vt_attemptId = attemptId,
                               vt_leaseId = leaseId, vt_leaseEpoch = e, vt_op = d,
                               vt_artifactId =
                                 (case map_of claims ''artifact_id'' of
                                    Some (JStr a) \<Rightarrow> if a = [] then None else Some a
                                  | _ \<Rightarrow> None)\<rparr>
                | _ \<Rightarrow> None))"

section \<open>Lemmas\<close>

lemma parse_op_name [simp]: "parse_op (Some (JStr (op_name d))) = Some d"
  by (cases d) (simp_all add: parse_op_def)

lemma verify_sign_any:
  assumes ok: "jwt_env_ok env priv pub"
    and exp: "map_of (obj_spread [(''iat'', JNum (of_int now))] claims) ''exp'' = Some (JNum e)"
  shows "verifyEdDsaJwt env now' pub (signEdDsaJwt env now priv claims)
           = (if e \<le> of_int now' then None else Some (obj_spread [(''iat'', JNum (of_int now))] claims))"
proof -
  let ?h = "b64_encode env (JObj [(''alg'', JStr ''EdDSA''), (''typ'', JStr ''JWT'')])"
  let ?p = "b64_encode env (JObj (obj_spread [(''iat'', JNum (of_int now))] claims))"
  let ?s = "crypto_sign env priv (?h @ ''.'' @ ?p)"
  have dots: "CHR ''.'' \<notin> set ?h" "CHR ''.'' \<notin> set ?p" "CHR ''.'' \<notin> set ?s"
    using ok by (auto simp: jwt_env_ok_def)
  have "split_on CHR ''.'' (signEdDsaJwt env now priv claims) = [?h, ?p, ?s]"
    using dots by (simp add: signEdDsaJwt_def Let_def split_on_append)
  moreover have "crypto_verify env pub (?h @ ''.'' @ ?p) ?s"
    "b64_decode env ?h = Some (JObj [(''alg'', JStr ''EdDSA''), (''typ'', JStr ''JWT'')])"
    "b64_decode env ?p = Some (JObj (obj_spread [(''iat'', JNum (of_int now))] claims))"
    using ok by (auto simp: jwt_env_ok_def)
  ultimately show ?thesis using exp by (simp add: verifyEdDsaJwt_def)
qed

lemma verify_sign:
  assumes "jwt_env_ok env priv pub"
    and "map_of (obj_spread [(''iat'', JNum (of_int now))] claims) ''exp'' = Some (JNum e)"
    and "of_int now' < e"
  shows "verifyEdDsaJwt env now' pub (signEdDsaJwt env now priv claims)
           = Some (obj_spread [(''iat'', JNum (of_int now))] claims)"
  using verify_sign_any [OF assms(1,2), of now'] assms(3) by simp

text \<open>A concrete environment that satisfies \<open>jwt_env_ok\<close>, for the witnesses.\<close>

instance json :: countable
  by countable_datatype

definition dot_free :: "string \<Rightarrow> string" where
  "dot_free s = concat (map (\<lambda>c. if c = CHR ''.'' then ''-d'' else if c = CHR ''-'' then ''-m'' else [c]) s)"

definition unary_env :: jwt_env where
  "unary_env =
     \<lparr>b64_encode = (\<lambda>j. replicate (to_nat j) (CHR ''a'')),
      b64_decode = (\<lambda>s. Some (from_nat (length s))),
      crypto_sign = (\<lambda>priv m. dot_free m),
      crypto_verify = (\<lambda>pub m s. s = dot_free m)\<rparr>"

lemma dot_free_no_dot: "CHR ''.'' \<notin> set (dot_free m)"
  by (auto simp: dot_free_def)

lemma unary_env_ok: "jwt_env_ok unary_env priv pub"
  by (auto simp: jwt_env_ok_def unary_env_def dot_free_no_dot)

section \<open>Properties\<close>

text \<open>
  A data token issued for an attempt verifies, until it expires, to exactly the agent, job,
  attempt, lease, epoch and operation it was issued for, so the data plane checks a request against
  the lease the token was granted under.
\<close>

theorem dataToken_roundtrip:
  assumes env: "jwt_env_ok env (id_signingPrivateKeyPem identity) (id_signingPublicKeyPem identity)"
    and ids: "dt_agent_id c \<noteq> []" "dt_job_id c \<noteq> []" "dt_attempt_id c \<noteq> []" "dt_lease_id c \<noteq> []"
    and epoch: "dt_lease_epoch c \<noteq> 0"
    and artifact: "dt_artifact_id c \<noteq> Some []"
    and live: "now' < now + (case dt_ttl_seconds c of Some t \<Rightarrow> t | None \<Rightarrow> DEFAULT_DATA_TOKEN_TTL)"
  shows "verifyDataToken env now' identity (issueDataToken env now identity c)
           = Some \<lparr>vt_agentId = dt_agent_id c, vt_jobId = dt_job_id c, vt_attemptId = dt_attempt_id c,
                   vt_leaseId = dt_lease_id c, vt_leaseEpoch = of_int (dt_lease_epoch c),
                   vt_op = dt_op c, vt_artifactId = dt_artifact_id c\<rparr>"
proof -
  let ?ttl = "case dt_ttl_seconds c of Some t \<Rightarrow> t | None \<Rightarrow> DEFAULT_DATA_TOKEN_TTL"
  let ?claims = "data_token_payload (id_controllerId identity) now c"
  let ?full = "obj_spread [(''iat'', JNum (of_int now))] ?claims"
  have d: "distinct (map fst ?claims)"
    by (cases "dt_artifact_id c") (auto simp: data_token_payload_def Let_def)
  have look: "(k, v) \<in> set ?claims \<Longrightarrow> map_of ?full k = Some v" for k v
    by (rule obj_spread_over [OF d])
  have fields: "map_of ?full ''exp'' = Some (JNum (of_int (now + ?ttl)))"
    "map_of ?full ''aud'' = Some (JStr (id_controllerId identity))"
    "map_of ?full ''sub'' = Some (JStr (dt_agent_id c))"
    "map_of ?full ''job_id'' = Some (JStr (dt_job_id c))"
    "map_of ?full ''attempt_id'' = Some (JStr (dt_attempt_id c))"
    "map_of ?full ''lease_id'' = Some (JStr (dt_lease_id c))"
    "map_of ?full ''lease_epoch'' = Some (JNum (of_int (dt_lease_epoch c)))"
    "map_of ?full ''op'' = Some (JStr (op_name (dt_op c)))"
    by (rule look; simp add: data_token_payload_def Let_def)+
  have art: "map_of ?full ''artifact_id'' = map_option JStr (dt_artifact_id c)"
  proof (cases "dt_artifact_id c")
    case None
    then have "''artifact_id'' \<notin> fst ` set ?claims"
      by (simp add: data_token_payload_def Let_def)
    with None show ?thesis by (simp add: obj_spread_other)
  next
    case (Some a)
    with artifact have "(''artifact_id'', JStr a) \<in> set ?claims"
      by (simp add: data_token_payload_def Let_def)
    with Some show ?thesis by (simp add: look)
  qed
  have "verifyEdDsaJwt env now' (id_signingPublicKeyPem identity) (issueDataToken env now identity c) = Some ?full"
    unfolding issueDataToken_def by (rule verify_sign [OF env fields(1)]) (use live in simp)
  then show ?thesis
    using fields art ids epoch artifact
    by (auto simp: verifyDataToken_def Let_def str_of_def json_epoch_def split: option.splits)
qed

theorem dataToken_roundtrip_witness:
  "verifyDataToken unary_env 1000
     \<lparr>id_controllerId = ''ctl'', id_signingPrivateKeyPem = ''priv'', id_signingPublicKeyPem = ''pub''\<rparr>
     (issueDataToken unary_env 500
        \<lparr>id_controllerId = ''ctl'', id_signingPrivateKeyPem = ''priv'', id_signingPublicKeyPem = ''pub''\<rparr>
        \<lparr>dt_agent_id = ''agt_1'', dt_job_id = ''job_1'', dt_attempt_id = ''att_1'', dt_lease_id = ''lease_1'',
         dt_lease_epoch = 2, dt_op = Artifact_upload_op, dt_artifact_id = Some ''out.bin'', dt_ttl_seconds = None\<rparr>)
   = Some \<lparr>vt_agentId = ''agt_1'', vt_jobId = ''job_1'', vt_attemptId = ''att_1'', vt_leaseId = ''lease_1'',
           vt_leaseEpoch = 2, vt_op = Artifact_upload_op, vt_artifactId = Some ''out.bin''\<rparr>"
  using dataToken_roundtrip [of unary_env
      "\<lparr>id_controllerId = ''ctl'', id_signingPrivateKeyPem = ''priv'', id_signingPublicKeyPem = ''pub''\<rparr>"
      "\<lparr>dt_agent_id = ''agt_1'', dt_job_id = ''job_1'', dt_attempt_id = ''att_1'', dt_lease_id = ''lease_1'',
        dt_lease_epoch = 2, dt_op = Artifact_upload_op, dt_artifact_id = Some ''out.bin'', dt_ttl_seconds = None\<rparr>"
      1000 500]
  by (simp add: unary_env_ok DEFAULT_DATA_TOKEN_TTL_def)

end
