(* ===== verification/Live_Log_Hub.thy ===== *)
theory Live_Log_Hub
  imports Lifecycle_Notifier
begin

text \<open>
  \<open>apps/controller/src/logs/live-log-hub.ts\<close>: in-memory publish/subscribe for live log viewers.
  A subscriber object outlives its membership in the hub (the returned subscription still reads
  it), so the hub keeps every subscriber ever created in \<open>hb_subs\<close>, and \<open>hb_groups\<close> is the map
  from an attempt to the set of registered subscriber ids. \<open>sub_waiting\<close> is \<open>wake !== null\<close>.
  \<open>hub_next\<close> is one pass of the loop in \<open>next\<close> up to its \<open>await\<close>.
\<close>

section \<open>State\<close>

datatype log_stream = Stdout | Stderr

record live_log_event =
  le_attempt_id :: string
  le_sequence :: int
  le_stream :: log_stream
  le_text :: string

datatype hub_item = Log_item live_log_event | Heartbeat

record subscriber =
  sub_id :: nat
  sub_attemptId :: string
  sub_afterSequence :: int
  sub_maxBuffered :: nat
  sub_queue :: "hub_item list"
  sub_dropped :: bool
  sub_closed :: bool
  sub_waiting :: bool

record live_log_hub =
  hb_next :: nat
  hb_subs :: "subscriber list"
  hb_groups :: "(string \<times> nat list) list"

definition DEFAULT_MAX_BUFFERED_EVENTS :: nat where
  "DEFAULT_MAX_BUFFERED_EVENTS = 256"

definition empty_hub :: live_log_hub where
  "empty_hub = \<lparr>hb_next = 1, hb_subs = [], hb_groups = []\<rparr>"

definition hub_group :: "string \<Rightarrow> live_log_hub \<Rightarrow> nat list" where
  "hub_group a h = (case map_of (hb_groups h) a of None \<Rightarrow> [] | Some g \<Rightarrow> g)"

definition hub_sub :: "nat \<Rightarrow> live_log_hub \<Rightarrow> subscriber option" where
  "hub_sub i h = find (\<lambda>u. sub_id u = i) (hb_subs h)"

definition hub_set_sub :: "nat \<Rightarrow> (subscriber \<Rightarrow> subscriber) \<Rightarrow> live_log_hub \<Rightarrow> live_log_hub" where
  "hub_set_sub i f h = h\<lparr>hb_subs := map (\<lambda>u. if sub_id u = i then f u else u) (hb_subs h)\<rparr>"

text \<open>\<open>group.delete(state)\<close>, and \<open>byAttempt.delete\<close> once the group is empty.\<close>

definition hub_leave :: "string \<Rightarrow> nat \<Rightarrow> live_log_hub \<Rightarrow> live_log_hub" where
  "hub_leave a i h =
     (case map_of (hb_groups h) a of
        None \<Rightarrow> h
      | Some g \<Rightarrow>
          (let g' = removeAll i g in
           h\<lparr>hb_groups := if g' = [] then map_delete a (hb_groups h) else map_set a g' (hb_groups h)\<rparr>))"

section \<open>Operations\<close>

definition hub_subscribe ::
  "string \<Rightarrow> int option \<Rightarrow> nat option \<Rightarrow> live_log_hub \<Rightarrow> nat \<times> live_log_hub" where
  "hub_subscribe attemptId afterSequence maxBuffered h =
     (let i = hb_next h;
          u = \<lparr>sub_id = i, sub_attemptId = attemptId,
               sub_afterSequence = (case afterSequence of Some n \<Rightarrow> n | None \<Rightarrow> 0),
               sub_maxBuffered = (case maxBuffered of Some n \<Rightarrow> n | None \<Rightarrow> DEFAULT_MAX_BUFFERED_EVENTS),
               sub_queue = [], sub_dropped = False, sub_closed = False, sub_waiting = False\<rparr>
      in (i, h\<lparr>hb_next := i + 1, hb_subs := hb_subs h @ [u],
               hb_groups := map_set attemptId (set_add i (hub_group attemptId h)) (hb_groups h)\<rparr>))"

definition hub_close :: "nat \<Rightarrow> live_log_hub \<Rightarrow> live_log_hub" where
  "hub_close i h =
     (case hub_sub i h of
        None \<Rightarrow> h
      | Some u \<Rightarrow>
          if sub_closed u then h
          else hub_leave (sub_attemptId u) i
                 (hub_set_sub i (\<lambda>u. u\<lparr>sub_closed := True, sub_waiting := False\<rparr>) h))"

datatype hub_next_result = Next_item hub_item | Next_null | Next_throw | Next_wait

definition hub_next :: "bool \<Rightarrow> nat \<Rightarrow> live_log_hub \<Rightarrow> hub_next_result \<times> live_log_hub" where
  "hub_next aborted i h =
     (case hub_sub i h of
        None \<Rightarrow> (Next_null, h)
      | Some u \<Rightarrow>
          if sub_closed u then (Next_null, h)
          else case sub_queue u of
                 x # q \<Rightarrow> (Next_item x, hub_set_sub i (\<lambda>u. u\<lparr>sub_queue := q\<rparr>) h)
               | [] \<Rightarrow>
                   if aborted then (Next_null, h)
                   else if sub_waiting u then (Next_throw, h)
                   else (Next_wait, hub_set_sub i (\<lambda>u. u\<lparr>sub_waiting := True\<rparr>) h))"

text \<open>One iteration of the loop in \<open>publish\<close>, on one member of the group.\<close>

definition publish_to :: "live_log_event \<Rightarrow> nat \<Rightarrow> live_log_hub \<Rightarrow> live_log_hub" where
  "publish_to event i h =
     (case hub_sub i h of
        None \<Rightarrow> h
      | Some u \<Rightarrow>
          if sub_closed u \<or> sub_dropped u then h
          else if le_sequence event \<le> sub_afterSequence u then h
          else if length (sub_queue u) \<ge> sub_maxBuffered u
          then hub_leave (le_attempt_id event) i
                 (hub_set_sub i (\<lambda>u. u\<lparr>sub_afterSequence := le_sequence event, sub_dropped := True,
                                       sub_closed := True, sub_waiting := False\<rparr>) h)
          else hub_set_sub i (\<lambda>u. u\<lparr>sub_afterSequence := le_sequence event,
                                    sub_queue := sub_queue u @ [Log_item event],
                                    sub_waiting := False\<rparr>) h)"

definition hub_publish :: "live_log_event \<Rightarrow> live_log_hub \<Rightarrow> live_log_hub" where
  "hub_publish event h = fold (publish_to event) (hub_group (le_attempt_id event) h) h"

definition heartbeat_to :: "nat \<Rightarrow> live_log_hub \<Rightarrow> live_log_hub" where
  "heartbeat_to i h =
     (case hub_sub i h of
        None \<Rightarrow> h
      | Some u \<Rightarrow>
          if sub_closed u \<or> sub_dropped u then h
          else if length (sub_queue u) \<ge> sub_maxBuffered u then h
          else hub_set_sub i (\<lambda>u. u\<lparr>sub_queue := sub_queue u @ [Heartbeat], sub_waiting := False\<rparr>) h)"

definition hub_heartbeat :: "string option \<Rightarrow> live_log_hub \<Rightarrow> live_log_hub" where
  "hub_heartbeat attemptId h =
     (case attemptId of
        Some a \<Rightarrow> fold heartbeat_to (hub_group a h) h
      | None \<Rightarrow> fold heartbeat_to (concat (map snd (hb_groups h))) h)"

definition subscriberCount :: "string \<Rightarrow> live_log_hub \<Rightarrow> nat" where
  "subscriberCount attemptId h = length (hub_group attemptId h)"

section \<open>Lemmas\<close>

definition log_seqs :: "hub_item list \<Rightarrow> int list" where
  "log_seqs q = concat (map (\<lambda>x. case x of Log_item e \<Rightarrow> [le_sequence e] | Heartbeat \<Rightarrow> []) q)"

lemma log_seqs_simps [simp]:
  "log_seqs [] = []"
  "log_seqs (Log_item e # q) = le_sequence e # log_seqs q"
  "log_seqs (Heartbeat # q) = log_seqs q"
  "log_seqs (p @ q) = log_seqs p @ log_seqs q"
  by (simp_all add: log_seqs_def)

text \<open>
  What every subscriber keeps: the log events waiting for it are in strictly increasing sequence
  order, none is newer than the position it was moved to, and at most \<open>maxBuffered\<close> items wait.
\<close>

definition sub_ok :: "subscriber \<Rightarrow> bool" where
  "sub_ok u = (sorted_wrt (<) (log_seqs (sub_queue u)) \<and>
               (\<forall>n \<in> set (log_seqs (sub_queue u)). n \<le> sub_afterSequence u) \<and>
               length (sub_queue u) \<le> sub_maxBuffered u)"

definition hub_ok :: "live_log_hub \<Rightarrow> bool" where
  "hub_ok h = (\<forall>u \<in> set (hb_subs h). sub_ok u)"

lemma hub_sub_mem: "hub_sub i h = Some u \<Longrightarrow> u \<in> set (hb_subs h) \<and> sub_id u = i"
  unfolding hub_sub_def by (induction "hb_subs h" arbitrary: h) (auto simp: find_Some_iff)

lemma hub_ok_sub: "hub_ok h \<Longrightarrow> hub_sub i h = Some u \<Longrightarrow> sub_ok u"
  using hub_sub_mem by (auto simp: hub_ok_def)

lemma hub_ok_leave [simp]: "hub_ok (hub_leave a i h) = hub_ok h"
  by (simp add: hub_ok_def hub_leave_def Let_def split: option.split)

text \<open>
  Subscriber ids are unique, so replacing the subscriber \<open>i\<close> touches the one \<open>hub_sub\<close> reads.
\<close>

definition hub_ids :: "live_log_hub \<Rightarrow> bool" where
  "hub_ids h = (distinct (map sub_id (hb_subs h)) \<and> (\<forall>u \<in> set (hb_subs h). sub_id u < hb_next h))"

lemma hub_ids_set_sub [simp]:
  assumes "\<And>u. sub_id (f u) = sub_id u"
  shows "hub_ids (hub_set_sub i f h) = hub_ids h"
proof -
  have "map sub_id (hb_subs (hub_set_sub i f h)) = map sub_id (hb_subs h)"
    by (simp add: hub_set_sub_def assms)
  moreover have "hb_next (hub_set_sub i f h) = hb_next h" by (simp add: hub_set_sub_def)
  moreover have "hub_ids g = (distinct (map sub_id (hb_subs g)) \<and>
      (\<forall>n \<in> set (map sub_id (hb_subs g)). n < hb_next g))" for g
    by (simp add: hub_ids_def)
  ultimately show ?thesis by presburger
qed

lemma hub_ids_leave [simp]: "hub_ids (hub_leave a i h) = hub_ids h"
  by (simp add: hub_ids_def hub_leave_def Let_def split: option.split)

lemma hub_ok_set_sub:
  assumes "hub_ok h" "hub_ids h" "hub_sub i h = Some u" "sub_ok (f u)"
  shows "hub_ok (hub_set_sub i f h)"
proof -
  have "sub_ok (f v)" if "v \<in> set (hb_subs h)" "sub_id v = i" for v
  proof -
    have "u \<in> set (hb_subs h)" "sub_id u = i" using hub_sub_mem [OF assms(3)] by auto
    with that assms(2) have "v = u" by (auto simp: hub_ids_def distinct_map inj_on_def)
    with assms(4) show ?thesis by simp
  qed
  with assms(1) show ?thesis by (auto simp: hub_ok_def hub_set_sub_def)
qed

abbreviation hub_inv :: "live_log_hub \<Rightarrow> bool" where
  "hub_inv h \<equiv> hub_ok h \<and> hub_ids h"

lemma sub_ok_push:
  assumes "sub_ok u" "sub_afterSequence u < le_sequence e" "length (sub_queue u) < sub_maxBuffered u"
  shows "sub_ok (u\<lparr>sub_afterSequence := le_sequence e, sub_queue := sub_queue u @ [Log_item e],
                   sub_waiting := w\<rparr>)"
  using assms by (fastforce simp: sub_ok_def sorted_wrt_append)

lemma sub_ok_drop:
  assumes "sub_ok u" "sub_afterSequence u < le_sequence e"
  shows "sub_ok (u\<lparr>sub_afterSequence := le_sequence e, sub_dropped := d, sub_closed := c,
                   sub_waiting := w\<rparr>)"
  using assms by (fastforce simp: sub_ok_def)

lemma publish_to_inv: "hub_inv h \<Longrightarrow> hub_inv (publish_to e i h)"
proof (cases "hub_sub i h")
  case (Some u)
  assume inv: "hub_inv h"
  then have "sub_ok u" using hub_ok_sub Some by blast
  with inv Some show ?thesis
    by (auto simp: publish_to_def not_le intro!: hub_ok_set_sub [OF _ _ Some] sub_ok_push sub_ok_drop)
qed (simp add: publish_to_def)

lemma heartbeat_to_inv: "hub_inv h \<Longrightarrow> hub_inv (heartbeat_to i h)"
proof (cases "hub_sub i h")
  case (Some u)
  assume inv: "hub_inv h"
  then have "sub_ok u" using hub_ok_sub Some by blast
  with inv Some show ?thesis
    by (auto simp: heartbeat_to_def sub_ok_def intro!: hub_ok_set_sub [OF _ _ Some])
qed (simp add: heartbeat_to_def)

lemma fold_inv: "(\<And>x h. I h \<Longrightarrow> I (f x h)) \<Longrightarrow> I h \<Longrightarrow> I (fold f xs h)"
  by (induction xs arbitrary: h) auto

lemma publish_inv: "hub_inv h \<Longrightarrow> hub_inv (hub_publish e h)"
  unfolding hub_publish_def by (rule fold_inv [where I = hub_inv]) (simp_all add: publish_to_inv)

lemma heartbeat_inv: "hub_inv h \<Longrightarrow> hub_inv (hub_heartbeat a h)"
  unfolding hub_heartbeat_def
  by (cases a; simp; rule fold_inv [where I = hub_inv]; simp add: heartbeat_to_inv)

lemma subscribe_inv: "hub_inv h \<Longrightarrow> hub_inv (snd (hub_subscribe a n m h))"
  by (fastforce simp: hub_subscribe_def Let_def hub_ok_def hub_ids_def sub_ok_def)

lemma close_inv: "hub_inv h \<Longrightarrow> hub_inv (hub_close i h)"
proof (cases "hub_sub i h")
  case (Some u)
  assume inv: "hub_inv h"
  then have "sub_ok u" using hub_ok_sub Some by blast
  with inv Some show ?thesis
    by (auto simp: hub_close_def sub_ok_def intro!: hub_ok_set_sub [OF _ _ Some])
qed (simp add: hub_close_def)

lemma next_inv: "hub_inv h \<Longrightarrow> hub_inv (snd (hub_next ab i h))"
proof (cases "hub_sub i h")
  case (Some u)
  assume inv: "hub_inv h"
  then have ok: "sub_ok u" using hub_ok_sub Some by blast
  have tail: "sub_queue u = x # q \<Longrightarrow> sub_ok (u\<lparr>sub_queue := q\<rparr>)" for x q
    using ok by (cases x) (auto simp: sub_ok_def)
  from inv Some ok show ?thesis
    by (auto simp: hub_next_def sub_ok_def intro!: hub_ok_set_sub [OF _ _ Some] tail split: list.splits)
qed (simp add: hub_next_def)

section \<open>Steps of the hub\<close>

inductive hub_step :: "live_log_hub \<Rightarrow> live_log_hub \<Rightarrow> bool" where
  h_subscribe: "hub_step h (snd (hub_subscribe a n m h))"
| h_close: "hub_step h (hub_close i h)"
| h_next: "hub_step h (snd (hub_next ab i h))"
| h_publish: "hub_step h (hub_publish e h)"
| h_heartbeat: "hub_step h (hub_heartbeat a h)"

lemma hub_step_inv: "hub_step h h' \<Longrightarrow> hub_inv h \<Longrightarrow> hub_inv h'"
proof (induction rule: hub_step.induct)
  case (h_subscribe h a n m) then show ?case by (rule subscribe_inv)
next
  case (h_close h i) then show ?case by (rule close_inv)
next
  case (h_next h ab i) then show ?case by (rule next_inv)
next
  case (h_publish h e) then show ?case by (rule publish_inv)
next
  case (h_heartbeat h a) then show ?case by (rule heartbeat_inv)
qed

lemma empty_hub_inv: "hub_inv empty_hub"
  by (simp add: empty_hub_def hub_ok_def hub_ids_def)

lemma reachable_hub_inv: "hub_step\<^sup>*\<^sup>* empty_hub h \<Longrightarrow> hub_inv h"
  by (induction rule: rtranclp_induct) (use empty_hub_inv hub_step_inv in blast)+

section \<open>Properties\<close>



section \<open>Delivery\<close>

text \<open>
  \<open>published\<close> is what one published event does to one subscriber of its attempt; publishing it a
  second time changes nothing.
\<close>

definition published :: "live_log_event \<Rightarrow> subscriber \<Rightarrow> subscriber" where
  "published e u =
     (if sub_closed u \<or> sub_dropped u \<or> le_sequence e \<le> sub_afterSequence u then u
      else if length (sub_queue u) < sub_maxBuffered u
      then u\<lparr>sub_afterSequence := le_sequence e, sub_queue := sub_queue u @ [Log_item e], sub_waiting := False\<rparr>
      else u\<lparr>sub_afterSequence := le_sequence e, sub_dropped := True, sub_closed := True, sub_waiting := False\<rparr>)"

lemma published_twice [simp]: "published e (published e u) = published e u"
  by (simp add: published_def)

lemma hub_sub_leave [simp]: "hub_sub j (hub_leave a i h) = hub_sub j h"
  by (simp add: hub_sub_def hub_leave_def Let_def split: option.split)

lemma hub_sub_set_sub:
  assumes "\<And>v. sub_id (f v) = sub_id v"
  shows "hub_sub j (hub_set_sub i f h) = (if j = i then map_option f (hub_sub j h) else hub_sub j h)"
proof -
  have "find (\<lambda>v. sub_id v = j) (map (\<lambda>v. if sub_id v = i then f v else v) xs) =
      (if j = i then map_option f (find (\<lambda>v. sub_id v = j) xs) else find (\<lambda>v. sub_id v = j) xs)" for xs
    by (induction xs) (auto simp: assms)
  then show ?thesis by (simp add: hub_sub_def hub_set_sub_def)
qed

lemma hub_sub_publish_to:
  "hub_sub j (publish_to e i h) = (if j = i then map_option (published e) (hub_sub j h) else hub_sub j h)"
  by (auto simp: publish_to_def published_def hub_sub_set_sub not_le split: option.split)

lemma hub_sub_publish:
  "hub_sub i (hub_publish e h) =
     (if i \<in> set (hub_group (le_attempt_id e) h) then map_option (published e) (hub_sub i h) else hub_sub i h)"
proof -
  have "hub_sub i (fold (publish_to e) g h) =
      (if i \<in> set g then map_option (published e) (hub_sub i h) else hub_sub i h)" for g
    by (induction g arbitrary: h) (auto simp: hub_sub_publish_to option.map_comp comp_def)
  then show ?thesis by (simp add: hub_publish_def)
qed

text \<open>An open subscriber is registered in the group of its attempt.\<close>

definition registered :: "nat \<Rightarrow> live_log_hub \<Rightarrow> bool" where
  "registered i h = (\<forall>u. hub_sub i h = Some u \<longrightarrow>
     sub_closed u \<or> i \<in> set (hub_group (sub_attemptId u) h))"

lemma hub_group_set_sub [simp]: "hub_group a (hub_set_sub i f h) = hub_group a h"
  by (simp add: hub_group_def hub_set_sub_def)

lemma hub_group_leave:
  "set (hub_group b (hub_leave a i h)) = (if b = a then set (hub_group b h) - {i} else set (hub_group b h))"
proof -
  have "removeAll i g = [] \<longleftrightarrow> set g \<subseteq> {i}" for g :: "nat list"
    by (induction g) auto
  then show ?thesis
    by (auto simp: hub_group_def hub_leave_def Let_def map_of_map_set map_of_map_delete split: option.split if_splits)
qed

lemma published_attempt [simp]: "sub_attemptId (published e u) = sub_attemptId u"
  by (simp add: published_def)

lemma published_closed: "sub_closed u \<Longrightarrow> published e u = u"
  by (simp add: published_def)

lemma publish_to_registered: "registered i h \<Longrightarrow> registered i (publish_to e j h)"
  by (auto simp: registered_def publish_to_def hub_sub_set_sub hub_group_leave split: option.splits if_splits)

lemma publish_registered: "registered i h \<Longrightarrow> registered i (hub_publish e h)"
  unfolding hub_publish_def by (rule fold_inv [where I = "registered i"]) (simp_all add: publish_to_registered)

lemma hub_sub_publish_registered:
  assumes "registered i h" "hub_sub i h = Some u" "sub_attemptId u = le_attempt_id e"
  shows "hub_sub i (hub_publish e h) = Some (published e u)"
  using assms by (auto simp: hub_sub_publish registered_def published_closed)

lemma hub_sub_publish_all:
  assumes "registered i h" "hub_sub i h = Some u" "\<forall>e \<in> set es. le_attempt_id e = sub_attemptId u"
  shows "hub_sub i (fold hub_publish es h) = Some (fold published es u)"
  using assms
  by (induction es arbitrary: h u) (auto simp: hub_sub_publish_registered publish_registered)

lemma fold_published_closed: "sub_closed u \<Longrightarrow> fold published es u = u"
  by (induction es arbitrary: u) (auto simp: published_closed)

lemma fold_published:
  assumes "\<not> sub_closed u" "\<not> sub_dropped u"
    and "sorted_wrt (<) (sub_afterSequence u # map le_sequence es)"
    and "length (sub_queue u) \<le> sub_maxBuffered u"
  shows "sub_queue (fold published es u)
           = sub_queue u @ map Log_item (take (sub_maxBuffered u - length (sub_queue u)) es)
       \<and> sub_dropped (fold published es u) = (sub_maxBuffered u - length (sub_queue u) < length es)
       \<and> sub_closed (fold published es u) = (sub_maxBuffered u - length (sub_queue u) < length es)"
  using assms
proof (induction es arbitrary: u)
  case (Cons e es)
  show ?case
  proof (cases "length (sub_queue u) < sub_maxBuffered u")
    case True
    let ?u = "published e u"
    have u': "?u = u\<lparr>sub_afterSequence := le_sequence e, sub_queue := sub_queue u @ [Log_item e],
        sub_waiting := False\<rparr>"
      using Cons.prems True by (simp add: published_def)
    have "sorted_wrt (<) (sub_afterSequence ?u # map le_sequence es)"
      using Cons.prems u' by simp
    with Cons.IH [of ?u] Cons.prems True u' show ?thesis by (auto simp: take_Cons' Suc_diff_Suc)
  next
    case False
    then have "published e u = u\<lparr>sub_afterSequence := le_sequence e, sub_dropped := True,
        sub_closed := True, sub_waiting := False\<rparr>"
      using Cons.prems by (simp add: published_def)
    with False show ?thesis by (simp add: fold_published_closed)
  qed
qed simp

lemma hub_sub_subscribe:
  "hub_ids h \<Longrightarrow> hub_sub i (snd (hub_subscribe a n m h)) =
     (if i = hb_next h then Some
        \<lparr>sub_id = i, sub_attemptId = a, sub_afterSequence = (case n of Some n \<Rightarrow> n | None \<Rightarrow> 0),
         sub_maxBuffered = (case m of Some n \<Rightarrow> n | None \<Rightarrow> DEFAULT_MAX_BUFFERED_EVENTS),
         sub_queue = [], sub_dropped = False, sub_closed = False, sub_waiting = False\<rparr>
      else hub_sub i h)"
proof -
  assume ids: "hub_ids h"
  have fresh: "find (\<lambda>u. sub_id u = hb_next h) (hb_subs h) = None"
    using ids by (auto simp: hub_ids_def find_None_iff)
  have app: "find P (xs @ ys) = (case find P xs of Some x \<Rightarrow> Some x | None \<Rightarrow> find P ys)"
    for P and xs ys :: "subscriber list"
    by (induction xs) auto
  show ?thesis
    using fresh by (auto simp: hub_sub_def hub_subscribe_def Let_def app split: option.split)
qed

lemma subscribe_registered:
  assumes "hub_ids h" "registered i h"
  shows "registered i (snd (hub_subscribe a n m h))"
proof -
  have "set (hub_group b (snd (hub_subscribe a n m h))) =
      (if b = a then insert (hb_next h) (set (hub_group b h)) else set (hub_group b h))" for b
    by (auto simp: hub_subscribe_def Let_def hub_group_def map_of_map_set set_add_def split: option.split)
  with assms show ?thesis by (auto simp: registered_def hub_sub_subscribe)
qed

lemma heartbeat_to_registered: "registered i h \<Longrightarrow> registered i (heartbeat_to j h)"
  by (auto simp: registered_def heartbeat_to_def hub_sub_set_sub split: option.splits if_splits)

lemma heartbeat_registered: "registered i h \<Longrightarrow> registered i (hub_heartbeat a h)"
  unfolding hub_heartbeat_def
  by (cases a; simp; rule fold_inv [where I = "registered i"]; simp add: heartbeat_to_registered)

lemma close_registered: "registered i h \<Longrightarrow> registered i (hub_close j h)"
  by (auto simp: registered_def hub_close_def hub_sub_set_sub hub_group_leave split: option.splits if_splits)

lemma next_registered: "registered i h \<Longrightarrow> registered i (snd (hub_next ab j h))"
  by (auto simp: registered_def hub_next_def hub_sub_set_sub split: option.splits if_splits list.splits)

lemma hub_step_registered: "hub_step h h' \<Longrightarrow> hub_ids h \<Longrightarrow> registered i h \<Longrightarrow> registered i h'"
  by (induction rule: hub_step.induct)
    (simp_all add: subscribe_registered close_registered next_registered publish_registered heartbeat_registered)

lemma reachable_registered: "hub_step\<^sup>*\<^sup>* empty_hub h \<Longrightarrow> registered i h"
proof (induction rule: rtranclp_induct)
  case base
  show ?case by (simp add: registered_def empty_hub_def hub_sub_def)
next
  case (step h h')
  with reachable_hub_inv [OF step(1)] hub_step_registered show ?case by blast
qed

text \<open>
  Delivery: in every reachable state, publishing a run of events with increasing sequence
  numbers to the attempt a live viewer watches leaves in its queue, after what was already there,
  exactly the longest prefix of the run that fits its buffer, in order. The viewer is marked dropped
  (and closed, so that it reconnects from its last event) exactly when something did not fit:
  no event is ever skipped silently. What other viewers do has no influence.
\<close>

theorem publish_delivers_or_drops:
  assumes "hub_step\<^sup>*\<^sup>* empty_hub h" and "hub_sub i h = Some u"
    and "\<not> sub_closed u" and "\<not> sub_dropped u"
    and "\<forall>e \<in> set es. le_attempt_id e = sub_attemptId u"
    and "sorted_wrt (<) (sub_afterSequence u # map le_sequence es)"
  shows "\<exists>u'. hub_sub i (fold hub_publish es h) = Some u' \<and>
     sub_queue u' = sub_queue u @ map Log_item (take (sub_maxBuffered u - length (sub_queue u)) es) \<and>
     sub_dropped u' = (sub_maxBuffered u - length (sub_queue u) < length es) \<and>
     sub_closed u' = sub_dropped u'"
proof -
  have "sub_ok u" using hub_ok_sub reachable_hub_inv assms(1,2) by blast
  then have "length (sub_queue u) \<le> sub_maxBuffered u" by (simp add: sub_ok_def)
  from fold_published [OF assms(3,4,6) this]
    hub_sub_publish_all [OF reachable_registered [OF assms(1)] assms(2,5)]
  show ?thesis by simp
qed

theorem publish_delivers_or_drops_witness:
  "\<exists>u'. hub_sub 1 (fold hub_publish
          (map (\<lambda>n. \<lparr>le_attempt_id = ''a'', le_sequence = n, le_stream = Stdout, le_text = ''x''\<rparr>) [1, 2, 3])
          (snd (hub_subscribe ''a'' None (Some 2) empty_hub))) = Some u' \<and>
     log_seqs (sub_queue u') = [1, 2] \<and> sub_dropped u'"
proof -
  let ?h = "snd (hub_subscribe ''a'' None (Some 2) empty_hub)"
  let ?u = "\<lparr>sub_id = 1, sub_attemptId = ''a'', sub_afterSequence = 0, sub_maxBuffered = 2,
             sub_queue = [], sub_dropped = False, sub_closed = False, sub_waiting = False\<rparr>"
  have reach: "hub_step\<^sup>*\<^sup>* empty_hub ?h" by (intro r_into_rtranclp hub_step.h_subscribe)
  have sub: "hub_sub 1 ?h = Some ?u" by (simp add: hub_subscribe_def empty_hub_def hub_sub_def)
  show ?thesis
    using publish_delivers_or_drops [OF reach sub, where es =
        "map (\<lambda>n. \<lparr>le_attempt_id = ''a'', le_sequence = n, le_stream = Stdout, le_text = ''x''\<rparr>) [1, 2, 3]"]
    by (auto simp: log_seqs_def)
qed

end
