(* ===== verification/Chunk_Log.thy ===== *)
theory Chunk_Log
  imports Js_Values Live_Log_Hub
begin

text \<open>
  The durable log of one attempt (\<open>packages/executor/src/logs.ts\<close>): two stream files, an ordered
  index of the chunks in them (\<open>chunks.jsonl\<close>), and a sparse list of checkpoints that lets a
  reader start in the middle of the index (\<open>chunks.checkpoints.jsonl\<close>).

  A stream file is its bytes. The index is the list of its newline-terminated lines, each with its
  length in bytes and what \<open>JSON.parse\<close> makes of it: \<open>Entry e\<close>, or \<open>Malformed\<close> for a line
  that does not parse as an index entry. A reader that starts at a byte offset inside a line sees
  the rest of that line as malformed. An unterminated last line is ignored by every reader and is
  not represented. Decoding bytes as UTF-8 is the identity here: texts are byte strings.
\<close>

section \<open>Files\<close>

record chunk_index_entry =
  ce_sequence :: int
  ce_stream :: log_stream
  ce_byte_offset :: int
  ce_byte_length :: int

datatype index_line = Entry chunk_index_entry | Malformed

record chunk_checkpoint =
  cp_sequence :: int
  cp_byte_offset :: int

record attempt_logs =
  lg_stdout :: string
  lg_stderr :: string
  lg_chunks :: "(nat \<times> index_line) list"
  lg_checkpoints :: "chunk_checkpoint list"

definition CHUNK_CHECKPOINT_INTERVAL :: int where
  "CHUNK_CHECKPOINT_INTERVAL = 128"

definition MAX_SAFE_INTEGER :: int where
  "MAX_SAFE_INTEGER = 2 ^ 53 - 1"

definition isSafeInteger :: "int \<Rightarrow> bool" where
  "isSafeInteger n = (\<bar>n\<bar> \<le> MAX_SAFE_INTEGER)"

definition empty_logs :: attempt_logs where
  "empty_logs = \<lparr>lg_stdout = [], lg_stderr = [], lg_chunks = [], lg_checkpoints = []\<rparr>"

fun show_nat :: "nat \<Rightarrow> string" where
  "show_nat n = (if n < 10 then [char_of (48 + n)] else show_nat (n div 10) @ [char_of (48 + n mod 10)])"

declare show_nat.simps [simp del]

definition show_int :: "int \<Rightarrow> string" where
  "show_int n = (if n < 0 then CHR ''-'' # show_nat (nat (- n)) else show_nat (nat n))"

fun stream_name :: "log_stream \<Rightarrow> string" where
  "stream_name Stdout = ''stdout''"
| "stream_name Stderr = ''stderr''"

text \<open>The line \<open>JSON.stringify(entry)\<close> with its newline; only its length is used.\<close>

definition dquote :: string where
  "dquote = [char_of (34 :: nat)]"

definition entry_line :: "chunk_index_entry \<Rightarrow> string" where
  "entry_line e =
     ''{'' @ dquote @ ''sequence'' @ dquote @ '':'' @ show_int (ce_sequence e) @ '','' @
     dquote @ ''stream'' @ dquote @ '':'' @ dquote @ stream_name (ce_stream e) @ dquote @ '','' @
     dquote @ ''byte_offset'' @ dquote @ '':'' @ show_int (ce_byte_offset e) @ '','' @
     dquote @ ''byte_length'' @ dquote @ '':'' @ show_int (ce_byte_length e) @ ''}'' @ [char_of (10 :: nat)]"

definition stream_bytes :: "log_stream \<Rightarrow> attempt_logs \<Rightarrow> string" where
  "stream_bytes st logs = (case st of Stdout \<Rightarrow> lg_stdout logs | Stderr \<Rightarrow> lg_stderr logs)"

definition streamByteOffset :: "attempt_logs \<Rightarrow> log_stream \<Rightarrow> int" where
  "streamByteOffset logs st = int (length (stream_bytes st logs))"

definition index_size :: "attempt_logs \<Rightarrow> nat" where
  "index_size logs = sum_list (map fst (lg_chunks logs))"

fun lines_from :: "nat \<Rightarrow> (nat \<times> index_line) list \<Rightarrow> (nat \<times> index_line) list" where
  "lines_from n [] = []"
| "lines_from n ((k, l) # ls) =
     (if n = 0 then (k, l) # ls else if k \<le> n then lines_from (n - k) ls else (k - n, Malformed) # ls)"

section \<open>Reading the index\<close>

definition entry_valid :: "attempt_logs \<Rightarrow> chunk_index_entry \<Rightarrow> bool" where
  "entry_valid logs e =
     (isSafeInteger (ce_sequence e) \<and> ce_sequence e \<ge> 1 \<and>
      isSafeInteger (ce_byte_offset e) \<and> ce_byte_offset e \<ge> 0 \<and>
      isSafeInteger (ce_byte_length e) \<and> ce_byte_length e \<ge> 0 \<and>
      ce_byte_offset e \<le> MAX_SAFE_INTEGER - ce_byte_length e \<and>
      ce_byte_offset e + ce_byte_length e \<le> streamByteOffset logs (ce_stream e))"

fun scan_index :: "(chunk_index_entry \<Rightarrow> bool) \<Rightarrow> int \<Rightarrow> int \<Rightarrow> (nat \<times> index_line) list \<Rightarrow> chunk_index_entry list" where
  "scan_index ok after previousSequence [] = []"
| "scan_index ok after previousSequence ((_, Malformed) # ls) = scan_index ok after previousSequence ls"
| "scan_index ok after previousSequence ((_, Entry e) # ls) =
     (if \<not> ok e \<or> ce_sequence e \<le> previousSequence then scan_index ok after previousSequence ls
      else if ce_sequence e > after then e # scan_index ok after (ce_sequence e) ls
      else scan_index ok after (ce_sequence e) ls)"

definition better_checkpoint ::
  "int \<Rightarrow> nat \<Rightarrow> chunk_checkpoint \<Rightarrow> chunk_checkpoint option \<Rightarrow> chunk_checkpoint option" where
  "better_checkpoint after indexSize cp candidate =
     (if \<not> isSafeInteger (cp_sequence cp) \<or> cp_sequence cp < 0 \<or> cp_sequence cp > after
        \<or> \<not> isSafeInteger (cp_byte_offset cp) \<or> cp_byte_offset cp < 0 \<or> cp_byte_offset cp > int indexSize
        \<or> (case candidate of Some c \<Rightarrow> cp_sequence cp \<le> cp_sequence c | None \<Rightarrow> False)
      then candidate else Some cp)"

definition findChunkCheckpoint :: "attempt_logs \<Rightarrow> int \<Rightarrow> nat \<Rightarrow> chunk_checkpoint option" where
  "findChunkCheckpoint logs after indexSize =
     (case fold (better_checkpoint after indexSize) (lg_checkpoints logs) None of
        None \<Rightarrow> None
      | Some candidate \<Rightarrow>
          (case lines_from (nat (cp_byte_offset candidate)) (lg_chunks logs) of
             (k, Entry e) # _ \<Rightarrow>
               if k \<le> 4097 \<and> ce_sequence e = cp_sequence candidate + 1 then Some candidate else None
           | _ \<Rightarrow> None))"

definition iterChunkIndexEntriesFrom :: "attempt_logs \<Rightarrow> int \<Rightarrow> int \<Rightarrow> chunk_index_entry list" where
  "iterChunkIndexEntriesFrom logs afterSequence checkpointSequence =
     (let checkpointBound = (if checkpointSequence > 0 then checkpointSequence else afterSequence);
          checkpoint = (if checkpointBound > 0 then findChunkCheckpoint logs checkpointBound (index_size logs)
                        else None);
          start = (case checkpoint of Some c \<Rightarrow> nat (cp_byte_offset c) | None \<Rightarrow> 0);
          previousSequence = (case checkpoint of Some c \<Rightarrow> cp_sequence c | None \<Rightarrow> 0)
      in scan_index (entry_valid logs) afterSequence previousSequence (lines_from start (lg_chunks logs)))"

definition iterChunkIndexEntriesAfter :: "attempt_logs \<Rightarrow> int \<Rightarrow> chunk_index_entry list" where
  "iterChunkIndexEntriesAfter logs afterSequence = iterChunkIndexEntriesFrom logs afterSequence afterSequence"

definition readChunkIndexEntries :: "attempt_logs \<Rightarrow> chunk_index_entry list" where
  "readChunkIndexEntries logs = iterChunkIndexEntriesFrom logs 0 0"

definition readLastChunkSequence :: "attempt_logs \<Rightarrow> int" where
  "readLastChunkSequence logs =
     fold (\<lambda>e _. ce_sequence e) (iterChunkIndexEntriesFrom logs 0 MAX_SAFE_INTEGER) 0"

definition readIndexedBytes :: "string \<Rightarrow> chunk_index_entry \<Rightarrow> string option" where
  "readIndexedBytes content e =
     (if ce_byte_length e = 0 then Some []
      else if ce_byte_offset e + ce_byte_length e > int (length content) then None
      else Some (take (nat (ce_byte_length e)) (drop (nat (ce_byte_offset e)) content)))"

definition iterIndexedChunksAfter :: "attempt_logs \<Rightarrow> int \<Rightarrow> (int \<times> log_stream \<times> string) list" where
  "iterIndexedChunksAfter logs afterSequence =
     List.map_filter
       (\<lambda>e. map_option (\<lambda>bytes. (ce_sequence e, ce_stream e, bytes))
              (readIndexedBytes (stream_bytes (ce_stream e) logs) e))
       (iterChunkIndexEntriesAfter logs afterSequence)"

section \<open>Appending\<close>

definition appendLogChunk :: "log_stream \<Rightarrow> string \<Rightarrow> attempt_logs \<Rightarrow> attempt_logs" where
  "appendLogChunk st chunk logs =
     (case st of Stderr \<Rightarrow> logs\<lparr>lg_stderr := lg_stderr logs @ chunk\<rparr>
               | Stdout \<Rightarrow> logs\<lparr>lg_stdout := lg_stdout logs @ chunk\<rparr>)"

definition appendIndexedLogChunk ::
  "log_stream \<Rightarrow> string \<Rightarrow> int \<Rightarrow> int option \<Rightarrow> attempt_logs \<Rightarrow> (rbo_error + chunk_index_entry \<times> string) \<times> attempt_logs" where
  "appendIndexedLogChunk st chunk sequence streamOffset logs =
     (let byte_offset = (case streamOffset of Some n \<Rightarrow> n | None \<Rightarrow> streamByteOffset logs st);
          previous = readLastChunkSequence logs
      in if sequence \<le> previous
         then (Inl (JsError (''Chunk sequence must increase monotonically (previous='' @ show_int previous @
                             '', next='' @ show_int sequence @ '')'')), logs)
         else
           (let logs1 = appendLogChunk st chunk logs;
                entry = \<lparr>ce_sequence = sequence, ce_stream = st, ce_byte_offset = byte_offset,
                         ce_byte_length = int (length chunk)\<rparr>;
                indexOffset = index_size logs1;
                logs2 = logs1\<lparr>lg_chunks := lg_chunks logs1 @ [(length (entry_line entry), Entry entry)]\<rparr>;
                logs3 = (if sequence mod CHUNK_CHECKPOINT_INTERVAL = 0
                         then logs2\<lparr>lg_checkpoints := lg_checkpoints logs2 @
                                [\<lparr>cp_sequence = sequence - 1, cp_byte_offset = int indexOffset\<rparr>]\<rparr>
                         else logs2)
            in (Inr (entry, chunk), logs3)))"

section \<open>Lemmas\<close>

abbreviation line_of :: "chunk_index_entry \<Rightarrow> nat \<times> index_line" where
  "line_of e \<equiv> (length (entry_line e), Entry e)"

lemma entry_line_pos [simp]: "0 < length (entry_line e)"
  by (simp add: entry_line_def)

lemma entry_line_not_Nil [simp]: "entry_line e \<noteq> []"
  by (simp add: entry_line_def)

lemma lines_from_0 [simp]: "lines_from 0 ls = ls"
  by (cases ls) auto

lemma lines_from_append: "lines_from (sum_list (map fst (map line_of es)) + n) (map line_of es @ ls) = lines_from n ls"
  by (induction es arbitrary: n) (auto simp: add.assoc)

lemma scan_sorted:
  "sorted_wrt (<) (prev # map ce_sequence es) \<Longrightarrow> (\<forall>e \<in> set es. ok e) \<Longrightarrow>
     scan_index ok after prev (map line_of es) = filter (\<lambda>e. ce_sequence e > after) es"
  by (induction es arbitrary: prev) auto

lemma fold_last: "fold (\<lambda>e _. f e) xs z = (if xs = [] then z else f (last xs))"
  by (induction xs arbitrary: z) auto

lemma fold_better_checkpoint:
  assumes "fold (better_checkpoint after n) cps cand = Some c"
  shows "cand = Some c \<or> (c \<in> set cps \<and> cp_sequence c \<le> after)"
  using assms
proof (induction cps arbitrary: cand)
  case (Cons cp cps)
  from Cons.IH [of "better_checkpoint after n cp cand"] Cons.prems
  show ?case by (auto simp: better_checkpoint_def split: if_splits)
qed simp

text \<open>
  \<open>log_holds logs cs\<close>: the files hold exactly the chunks \<open>cs\<close> (sequence, stream, bytes), in
  order. This is the abstraction every reader is shown to compute.
\<close>

definition chunk_at :: "attempt_logs \<Rightarrow> chunk_index_entry \<Rightarrow> int \<times> log_stream \<times> string \<Rightarrow> bool" where
  "chunk_at logs e c =
     (c = (ce_sequence e, ce_stream e, snd (snd c)) \<and> entry_valid logs e \<and>
      readIndexedBytes (stream_bytes (ce_stream e) logs) e = Some (snd (snd c)))"

definition checkpoint_at :: "attempt_logs \<Rightarrow> chunk_checkpoint \<Rightarrow> bool" where
  "checkpoint_at logs cp =
     (\<exists>es e ls. lg_chunks logs = map line_of es @ line_of e # ls \<and>
        cp_byte_offset cp = int (sum_list (map fst (map line_of es))) \<and> ce_sequence e = cp_sequence cp + 1)"

definition log_holds :: "attempt_logs \<Rightarrow> (int \<times> log_stream \<times> string) list \<Rightarrow> bool" where
  "log_holds logs cs =
     (\<exists>es. lg_chunks logs = map line_of es \<and> list_all2 (chunk_at logs) es cs \<and>
           sorted_wrt (<) (0 # map ce_sequence es) \<and> (\<forall>cp \<in> set (lg_checkpoints logs). checkpoint_at logs cp))"

lemma log_holdsE:
  assumes "log_holds logs cs"
  obtains es where "lg_chunks logs = map line_of es" "list_all2 (chunk_at logs) es cs"
    "sorted_wrt (<) (0 # map ce_sequence es)" "\<forall>cp \<in> set (lg_checkpoints logs). checkpoint_at logs cp"
  using assms unfolding log_holds_def by blast

lemma chunk_at_valid: "list_all2 (chunk_at logs) es cs \<Longrightarrow> \<forall>e \<in> set es. entry_valid logs e"
  by (induction rule: list_all2_induct) (auto simp: chunk_at_def)

text \<open>Where a checkpoint that passed the probe lets the reader start.\<close>

lemma checkpoint_start:
  assumes lines: "lg_chunks logs = map line_of es"
    and cps: "\<forall>cp \<in> set (lg_checkpoints logs). checkpoint_at logs cp"
    and found: "findChunkCheckpoint logs after n = Some c"
  obtains es1 e es2 where "es = es1 @ e # es2" "ce_sequence e = cp_sequence c + 1" "cp_sequence c \<le> after"
    "lines_from (nat (cp_byte_offset c)) (lg_chunks logs) = map line_of (e # es2)"
proof -
  from found have cand: "fold (better_checkpoint after n) (lg_checkpoints logs) None = Some c"
    by (auto simp: findChunkCheckpoint_def split: option.splits list.splits index_line.splits if_splits prod.splits)
  from fold_better_checkpoint [OF cand] have c: "c \<in> set (lg_checkpoints logs)" "cp_sequence c \<le> after"
    by auto
  with cps obtain es1 e ls where at: "lg_chunks logs = map line_of es1 @ line_of e # ls"
      "cp_byte_offset c = int (sum_list (map fst (map line_of es1)))" "ce_sequence e = cp_sequence c + 1"
    unfolding checkpoint_at_def by blast
  from at(1) lines have "map line_of es = map line_of es1 @ (line_of e # ls)" by simp
  then obtain us vs where es: "es = us @ vs" "map line_of es1 = map line_of us"
      "line_of e # ls = map line_of vs"
    by (rule map_eq_append_conv [THEN iffD1, elim_format]) iprover
  then obtain es2 where vs: "vs = e # es2" "ls = map line_of es2" by (auto simp: Cons_eq_map_conv)
  from lines_from_append [of es1 0 "line_of e # ls"] at(1,2)
  have start: "lines_from (nat (cp_byte_offset c)) (lg_chunks logs) = line_of e # ls" by simp
  show ?thesis
    by (rule that [of us e es2]) (use es vs at(3) c(2) start in auto)
qed

lemma iter_from_sorted:
  assumes lines: "lg_chunks logs = map line_of es"
    and valid: "\<forall>e \<in> set es. entry_valid logs e"
    and sorted: "sorted_wrt (<) (0 # map ce_sequence es)"
    and cps: "\<forall>cp \<in> set (lg_checkpoints logs). checkpoint_at logs cp"
  shows "\<exists>es1 es2. es = es1 @ es2 \<and> (es2 = [] \<longrightarrow> es = []) \<and>
     (\<forall>e \<in> set es1. ce_sequence e \<le> (if cs > 0 then cs else after)) \<and>
     iterChunkIndexEntriesFrom logs after cs = filter (\<lambda>e. ce_sequence e > after) es2"
proof -
  let ?bound = "if cs > 0 then cs else after"
  let ?cp = "if ?bound > 0 then findChunkCheckpoint logs ?bound (index_size logs) else None"
  show ?thesis
  proof (cases ?cp)
    case None
    with scan_sorted [OF sorted valid] lines
    have "iterChunkIndexEntriesFrom logs after cs = filter (\<lambda>e. ce_sequence e > after) es"
      unfolding iterChunkIndexEntriesFrom_def Let_def None by simp
    then show ?thesis by (intro exI [of _ "[]"] exI [of _ es]) auto
  next
    case (Some c)
    then have "findChunkCheckpoint logs ?bound (index_size logs) = Some c" by (simp split: if_splits)
    from checkpoint_start [OF lines cps this] obtain es1 e es2 where at: "es = es1 @ e # es2"
      "ce_sequence e = cp_sequence c + 1" "cp_sequence c \<le> ?bound"
      "lines_from (nat (cp_byte_offset c)) (lg_chunks logs) = map line_of (e # es2)" by blast
    from sorted at(1,2) have later: "sorted_wrt (<) (cp_sequence c # map ce_sequence (e # es2))"
      by (auto simp: sorted_wrt_append dest: bspec)
    have "iterChunkIndexEntriesFrom logs after cs = filter (\<lambda>e. ce_sequence e > after) (e # es2)"
      unfolding iterChunkIndexEntriesFrom_def Let_def Some option.case at(4)
      using scan_sorted [OF later] valid at(1) by simp
    moreover have "\<forall>x \<in> set es1. ce_sequence x \<le> ?bound"
    proof
      fix x assume "x \<in> set es1"
      with sorted at(1) have "ce_sequence x < ce_sequence e" by (auto simp: sorted_wrt_append)
      with at(2,3) show "ce_sequence x \<le> ?bound" by simp
    qed
    ultimately show ?thesis using at(1) by (intro exI [of _ es1] exI [of _ "e # es2"]) auto
  qed
qed

lemma iter_after_holds:
  assumes "lg_chunks logs = map line_of es" "\<forall>e \<in> set es. entry_valid logs e"
    "sorted_wrt (<) (0 # map ce_sequence es)" "\<forall>cp \<in> set (lg_checkpoints logs). checkpoint_at logs cp"
  shows "iterChunkIndexEntriesAfter logs n = filter (\<lambda>e. ce_sequence e > n) es"
proof -
  from iter_from_sorted [OF assms, of n n] obtain es1 es2 where
    "es = es1 @ es2" "\<forall>e \<in> set es1. ce_sequence e \<le> n"
    "iterChunkIndexEntriesFrom logs n n = filter (\<lambda>e. ce_sequence e > n) es2" by auto
  then show ?thesis by (auto simp: iterChunkIndexEntriesAfter_def filter_empty_conv not_less)
qed

lemma map_filter_chunks:
  "list_all2 (chunk_at logs) es cs \<Longrightarrow>
     List.map_filter (\<lambda>e. map_option (\<lambda>b. (ce_sequence e, ce_stream e, b))
        (readIndexedBytes (stream_bytes (ce_stream e) logs) e)) (filter (\<lambda>e. ce_sequence e > n) es)
     = filter (\<lambda>c. fst c > n) cs"
  by (induction rule: list_all2_induct) (auto simp: chunk_at_def List.map_filter_def split: option.splits)

lemma replay_holds: "log_holds logs cs \<Longrightarrow> iterIndexedChunksAfter logs n = filter (\<lambda>c. fst c > n) cs"
  by (erule log_holdsE)
    (simp add: iterIndexedChunksAfter_def iter_after_holds chunk_at_valid map_filter_chunks)

lemma list_all2_last: "list_all2 P xs ys \<Longrightarrow> xs \<noteq> [] \<Longrightarrow> P (last xs) (last ys)"
  by (induction rule: list_all2_induct) auto

lemma last_sequence_holds:
  assumes "log_holds logs cs"
  shows "readLastChunkSequence logs = (if cs = [] then 0 else fst (last cs))"
proof -
  from assms obtain es where es: "lg_chunks logs = map line_of es" "list_all2 (chunk_at logs) es cs"
    "sorted_wrt (<) (0 # map ce_sequence es)" "\<forall>cp \<in> set (lg_checkpoints logs). checkpoint_at logs cp"
    by (rule log_holdsE)
  from iter_from_sorted [OF es(1) chunk_at_valid [OF es(2)] es(3,4), of MAX_SAFE_INTEGER 0]
  obtain es1 es2 where split: "es = es1 @ es2" "es2 = [] \<longrightarrow> es = []"
      "iterChunkIndexEntriesFrom logs 0 MAX_SAFE_INTEGER = filter (\<lambda>e. ce_sequence e > 0) es2" by auto
  have "filter (\<lambda>e. ce_sequence e > 0) es2 = es2" using es(3) split(1) by (auto simp: filter_id_conv)
  with split have "readLastChunkSequence logs = (if es = [] then 0 else ce_sequence (last es))"
    by (cases "es2 = []") (simp_all add: readLastChunkSequence_def fold_last)
  moreover have "es = [] \<longleftrightarrow> cs = []" using es(2) by auto
  moreover have "es \<noteq> [] \<Longrightarrow> ce_sequence (last es) = fst (last cs)"
  proof -
    assume "es \<noteq> []"
    with es(2) have "chunk_at logs (last es) (last cs)" by (rule list_all2_last)
    then show ?thesis by (metis chunk_at_def fst_conv)
  qed
  ultimately show ?thesis by simp
qed

section \<open>Appending keeps what is held\<close>

lemma last_seq_bound:
  assumes "list_all2 (chunk_at logs) es cs" and "sorted_wrt (<) (0 # map ce_sequence es)"
    and "sequence > (if cs = [] then 0 else fst (last cs))"
  shows "\<forall>e \<in> set es. ce_sequence e < sequence"
proof (cases "es = []")
  case False
  with assms(1) have "chunk_at logs (last es) (last cs)" by (rule list_all2_last)
  then have eq: "fst (last cs) = ce_sequence (last es)" unfolding chunk_at_def by (metis fst_conv)
  have "cs \<noteq> []" using assms(1) False by auto
  have "ce_sequence e \<le> ce_sequence (last es)" if "e \<in> set es" for e
  proof -
    from False have "es = butlast es @ [last es]" by simp
    with assms(2) have "sorted_wrt (<) (map ce_sequence (butlast es) @ [ce_sequence (last es)])"
      by (metis list.simps(8,9) map_append sorted_wrt.simps(2))
    moreover have "e \<in> set (butlast es) \<or> e = last es" using that \<open>es = _\<close> by (metis in_set_butlastD Un_iff empty_iff list.set(1,2) insert_iff set_append)
    ultimately show ?thesis by (auto simp: sorted_wrt_append)
  qed
  with assms(3) eq \<open>cs \<noteq> []\<close> show ?thesis by fastforce
qed simp

definition grows :: "attempt_logs \<Rightarrow> attempt_logs \<Rightarrow> bool" where
  "grows logs logs' = (\<forall>st. \<exists>x. stream_bytes st logs' = stream_bytes st logs @ x)"

lemma growsE:
  assumes "grows logs logs'"
  obtains x where "stream_bytes st logs' = stream_bytes st logs @ x"
  using assms unfolding grows_def by blast

lemma readIndexedBytes_append:
  "readIndexedBytes content e = Some b \<Longrightarrow> ce_byte_offset e \<ge> 0 \<Longrightarrow> ce_byte_length e \<ge> 0 \<Longrightarrow>
     readIndexedBytes (content @ x) e = Some b"
proof (cases "ce_byte_length e = 0")
  case False
  assume r: "readIndexedBytes content e = Some b" and off: "ce_byte_offset e \<ge> 0" and len: "ce_byte_length e \<ge> 0"
  from r False have "ce_byte_offset e + ce_byte_length e \<le> int (length content)"
    and b: "b = take (nat (ce_byte_length e)) (drop (nat (ce_byte_offset e)) content)"
    by (auto simp: readIndexedBytes_def split: if_splits)
  then have "nat (ce_byte_offset e) + nat (ce_byte_length e) \<le> length content" using off len by linarith
  with r b False show ?thesis by (auto simp: readIndexedBytes_def split: if_splits)
qed (simp add: readIndexedBytes_def)

lemma chunk_at_grows: "grows logs logs' \<Longrightarrow> chunk_at logs e c \<Longrightarrow> chunk_at logs' e c"
proof -
  assume g: "grows logs logs'" and c: "chunk_at logs e c"
  obtain x where x: "stream_bytes (ce_stream e) logs' = stream_bytes (ce_stream e) logs @ x"
    using g by (rule growsE)
  from c x show ?thesis
    by (auto simp: chunk_at_def entry_valid_def streamByteOffset_def readIndexedBytes_append)
qed

lemma checkpoint_at_grows:
  "lg_chunks logs' = lg_chunks logs @ ls \<Longrightarrow> checkpoint_at logs cp \<Longrightarrow> checkpoint_at logs' cp"
  unfolding checkpoint_at_def by fastforce

lemma chunk_at_new:
  assumes "stream_bytes st logs' = stream_bytes st logs @ chunk" and "seq \<ge> 1" and "isSafeInteger seq"
    and "int (length (stream_bytes st logs)) + int (length chunk) \<le> MAX_SAFE_INTEGER"
  shows "chunk_at logs' \<lparr>ce_sequence = seq, ce_stream = st, ce_byte_offset = streamByteOffset logs st,
           ce_byte_length = int (length chunk)\<rparr> (seq, st, chunk)"
  using assms by (auto simp: chunk_at_def entry_valid_def streamByteOffset_def readIndexedBytes_def isSafeInteger_def)

lemma appendIndexedLogChunk_holds:
  assumes holds: "log_holds logs cs" and seq: "sequence > (if cs = [] then 0 else fst (last cs))"
    and safe: "isSafeInteger sequence"
    and room: "int (length (stream_bytes st logs)) + int (length chunk) \<le> MAX_SAFE_INTEGER"
  shows "log_holds (snd (appendIndexedLogChunk st chunk sequence None logs)) (cs @ [(sequence, st, chunk)])"
    and "snd (appendIndexedLogChunk st chunk sequence None logs) \<noteq> logs"
    and "stream_bytes st' (snd (appendIndexedLogChunk st chunk sequence None logs))
           = stream_bytes st' logs @ (if st' = st then chunk else [])"
proof -
  from holds obtain es where es: "lg_chunks logs = map line_of es" "list_all2 (chunk_at logs) es cs"
    "sorted_wrt (<) (0 # map ce_sequence es)" "\<forall>cp \<in> set (lg_checkpoints logs). checkpoint_at logs cp"
    by (rule log_holdsE)
  let ?e = "\<lparr>ce_sequence = sequence, ce_stream = st, ce_byte_offset = streamByteOffset logs st,
             ce_byte_length = int (length chunk)\<rparr>"
  let ?l = "snd (appendIndexedLogChunk st chunk sequence None logs)"
  let ?cp = "\<lparr>cp_sequence = sequence - 1, cp_byte_offset = int (index_size logs)\<rparr>"
  have last: "\<not> sequence \<le> readLastChunkSequence logs" using last_sequence_holds [OF holds] seq by simp
  have lines: "lg_chunks ?l = map line_of es @ [line_of ?e]"
    using last es(1) by (cases st) (simp_all add: appendIndexedLogChunk_def Let_def appendLogChunk_def)
  have cps: "set (lg_checkpoints ?l) \<subseteq> insert ?cp (set (lg_checkpoints logs))"
    using last by (cases st) (auto simp: appendIndexedLogChunk_def Let_def appendLogChunk_def index_size_def)
  show streams: "stream_bytes st' ?l = stream_bytes st' logs @ (if st' = st then chunk else [])" for st'
    using last by (cases st; cases st')
      (simp_all add: appendIndexedLogChunk_def Let_def appendLogChunk_def stream_bytes_def)
  then have "grows logs ?l" unfolding grows_def by blast
  then have old: "list_all2 (chunk_at ?l) es cs"
    by (intro list_all2_mono [OF es(2)]) (rule chunk_at_grows)
  have pos: "sequence \<ge> 1"
  proof (cases "cs = []")
    case False
    with es(2) have "es \<noteq> []" by auto
    with es(2) have "chunk_at logs (last es) (last cs)" by (rule list_all2_last)
    then have "entry_valid logs (last es)" "fst (last cs) = ce_sequence (last es)"
      unfolding chunk_at_def by (simp, metis fst_conv)
    with seq False show ?thesis by (auto simp: entry_valid_def)
  qed (use seq in simp)
  have new: "chunk_at ?l ?e (sequence, st, chunk)"
    by (rule chunk_at_new) (use streams [of st] safe room pos in auto)
  have sorted: "sorted_wrt (<) (0 # map ce_sequence (es @ [?e]))"
    using es(3) last_seq_bound [OF es(2,3) seq] pos by (auto simp: sorted_wrt_append)
  have "checkpoint_at ?l ?cp"
    unfolding checkpoint_at_def using lines es(1)
    by (intro exI [of _ es] exI [of _ ?e] exI [of _ "[]"]) (simp add: index_size_def)
  moreover have "checkpoint_at ?l cp" if "cp \<in> set (lg_checkpoints logs)" for cp
    using that es(1,4) lines checkpoint_at_grows [of ?l logs] by auto
  ultimately have "\<forall>cp \<in> set (lg_checkpoints ?l). checkpoint_at ?l cp" using cps by blast
  with lines old new sorted show "log_holds ?l (cs @ [(sequence, st, chunk)])"
    unfolding log_holds_def by (intro exI [of _ "es @ [?e]"]) (simp add: list_all2_appendI)
  show "?l \<noteq> logs" using lines es(1) by auto
qed

section \<open>Properties\<close>

text \<open>Writing a run of chunks, one \<open>appendIndexedLogChunk\<close> after the other.\<close>

definition append_chunks :: "(int \<times> log_stream \<times> string) list \<Rightarrow> attempt_logs \<Rightarrow> attempt_logs" where
  "append_chunks cs logs =
     fold (\<lambda>(seq, st, b) logs. snd (appendIndexedLogChunk st b seq None logs)) cs logs"

definition total_bytes :: "(int \<times> log_stream \<times> string) list \<Rightarrow> nat" where
  "total_bytes cs = sum_list (map (\<lambda>(_, _, b). length b) cs)"

lemma log_holds_empty: "log_holds empty_logs []"
  by (simp add: log_holds_def empty_logs_def)

lemma append_chunks_holds:
  assumes "log_holds logs cs0"
    and "sorted_wrt (<) ((if cs0 = [] then 0 else fst (last cs0)) # map fst cs)"
    and "\<forall>c \<in> set cs. fst c \<le> MAX_SAFE_INTEGER"
    and "\<forall>st. int (length (stream_bytes st logs)) + int (total_bytes cs) \<le> MAX_SAFE_INTEGER"
    and "(if cs0 = [] then 0 else fst (last cs0)) \<ge> 0"
  shows "log_holds (append_chunks cs logs) (cs0 @ cs)"
  using assms
proof (induction cs arbitrary: logs cs0)
  case (Cons c cs)
  obtain seq st b where c: "c = (seq, st, b)" by (cases c)
  let ?l = "snd (appendIndexedLogChunk st b seq None logs)"
  have seq: "seq > (if cs0 = [] then 0 else fst (last cs0))" using Cons.prems(2) c by simp
  have room: "int (length (stream_bytes st logs)) + int (length b) \<le> MAX_SAFE_INTEGER"
    using Cons.prems(4) [rule_format, of st] c by (simp add: total_bytes_def)
  have safe: "isSafeInteger seq" using Cons.prems(3,5) seq c by (simp add: isSafeInteger_def)
  note app = appendIndexedLogChunk_holds [OF Cons.prems(1) seq safe room]
  have "int (length (stream_bytes st' ?l)) + int (total_bytes cs) \<le> MAX_SAFE_INTEGER" for st'
    using Cons.prems(4) [rule_format, of st'] c app(3) [of st'] by (auto simp: total_bytes_def)
  then have "log_holds (append_chunks cs ?l) ((cs0 @ [(seq, st, b)]) @ cs)"
    using Cons.prems(2,3,5) c seq by (intro Cons.IH [OF app(1)]) auto
  with c show ?case by (simp add: append_chunks_def)
qed (simp add: append_chunks_def)



end
