(* ===== verification/Remote_Execution.thy ===== *)
theory Remote_Execution
  imports Data_Tokens Chunk_Log
begin

text \<open>
  \<open>apps/controller/src/execution/remote-execution.ts\<close>: the Controller side of one remote attempt,
  from the lease offer to the end of cleanup, with \<open>persistAndPublishLogChunk\<close> of
  \<open>logs/stream.ts\<close> and the artifact expectations of \<open>http/data-plane.ts\<close>.

  \<open>remote_state\<close> adds to the database what the Controller holds in memory or on disk and these
  functions change: the connected Agents, the frames sent to them (oldest first), the log files, the
  live log hub, the artifact expectations and the queues of log chunks. \<open>remote_env\<close> holds the
  fixed options and the reads of the outside world (manifest files, the process table, the
  network interfaces). A handler takes the clock reading \<open>now\<close> (milliseconds).

  Handlers that \<open>await\<close> are split where they do: \<open>.._begin\<close> runs up to the \<open>await\<close> and
  \<open>.._finish\<close> runs after it, with the outcome of the awaited call as argument.
\<close>

section \<open>State and environment\<close>

record agent_conn =
  cn_socket :: nat
  cn_open :: bool
  cn_lastHeartbeatAt :: ts
  cn_connectionHost :: "string option"

record upload_grant =
  ug_logical_name :: string
  ug_path :: string
  ug_size_bytes :: int
  ug_sha256 :: string
  ug_upload_token :: string
  ug_upload_url :: string

record source_descriptor =
  sd_download_url :: string
  sd_data_token :: string
  sd_expected_size_bytes :: json
  sd_expected_sha256 :: json

record overlay_repo =
  or_url :: string
  or_canonical_id :: string
  or_branch :: "string option"
  or_base_commit :: string
  or_fetch_refs :: "string list"

record lease_offer =
  lo_job_id :: string
  lo_job_request :: job_request
  lo_snapshot_id :: string
  lo_content_id :: string
  lo_size_bytes :: int
  lo_sha256 :: string
  lo_selected_toolchain_profiles :: "toolchain_profile list option"
  lo_lease_ttl_seconds :: int

datatype ws_payload =
    Lease_offer lease_offer
  | Prepare_full source_descriptor "json option"
  | Prepare_overlay overlay_repo source_descriptor "json option"
  | Bundle_download source_descriptor
  | Run_job
  | Cancel_job rat "string option"
  | Log_ack int
  | Artifact_upload_grant "upload_grant list"
  | Reconcile_decision bool "int option" "string option"

record ws_frame =
  fr_socket :: nat
  fr_attempt_id :: string
  fr_lease_id :: string
  fr_lease_epoch :: int
  fr_payload :: ws_payload

text \<open>The three fields every job-scoped payload of an Agent carries.\<close>

record lease_ref =
  lr_attempt_id :: string
  lr_lease_id :: string
  lr_lease_epoch :: int

record log_chunk =
  lc_lease :: lease_ref
  lc_stream :: log_stream
  lc_sequence :: int
  lc_bytes :: string

record remote_state = controller_db +
  connectedAgents :: "(string \<times> agent_conn) list"
  ws_sent :: "ws_frame list"
  log_files :: "(string \<times> attempt_logs) list"
  live_hub :: live_log_hub
  artifactExpectations :: "(string \<times> (int \<times> string)) list"
  logChunkChains :: "(string \<times> (string \<times> log_chunk) list) list"
  log_writing :: "(string \<times> attempt_row) list"

record remote_env =
  re_jwt :: jwt_env
  re_identity :: controller_identity
  re_serverPort :: nat
  re_controllerPublicHost :: "string option"
  re_dataPlaneBaseUrl :: "string option"
  re_defaultQueuePolicy :: "queue_policy option"
  re_isAssigned :: "string \<Rightarrow> bool"
  re_readManifest :: "string \<Rightarrow> json option"
  re_processIdentity :: "int \<Rightarrow> string option"
  re_num_str :: "rat \<Rightarrow> string"

definition DEFAULT_LEASE_TTL_SECONDS :: int where
  "DEFAULT_LEASE_TTL_SECONDS = 300"

section \<open>Values of JSON manifests\<close>

fun js_truthy :: "json option \<Rightarrow> bool" where
  "js_truthy None = False"
| "js_truthy (Some JNull) = False"
| "js_truthy (Some (JBool b)) = b"
| "js_truthy (Some (JNum n)) = (n \<noteq> 0)"
| "js_truthy (Some (JStr s)) = (s \<noteq> [])"
| "js_truthy (Some (JArr xs)) = True"
| "js_truthy (Some (JObj xs)) = True"

definition js_nullish :: "json option \<Rightarrow> bool" where
  "js_nullish v = (v = None \<or> v = Some JNull)"

definition js_prop :: "json option \<Rightarrow> string \<Rightarrow> json option" where
  "js_prop v k = (case v of Some (JObj xs) \<Rightarrow> map_of xs k | _ \<Rightarrow> None)"

text \<open>\<open>String(v)\<close>; the spelling of a number is left to \<open>num\<close>.\<close>

fun js_String :: "(rat \<Rightarrow> string) \<Rightarrow> json \<Rightarrow> string" where
  "js_String num JNull = ''null''"
| "js_String num (JBool b) = (if b then ''true'' else ''false'')"
| "js_String num (JNum n) = num n"
| "js_String num (JStr s) = s"
| "js_String num (JArr xs) = join_with '','' (map (\<lambda>x. if x = JNull then [] else js_String num x) xs)"
| "js_String num (JObj xs) = ''[object Object]''"

definition js_String_of :: "(rat \<Rightarrow> string) \<Rightarrow> json option \<Rightarrow> string" where
  "js_String_of num v = (case v of None \<Rightarrow> ''undefined'' | Some j \<Rightarrow> js_String num j)"

definition falsy_str :: "string option \<Rightarrow> bool" where
  "falsy_str v = (v = None \<or> v = Some [])"

definition snapshotManifestMode :: "json option \<Rightarrow> bool" where
  "snapshotManifestMode manifest = (js_prop (js_prop manifest ''payload'') ''mode'' = Some (JStr ''git_overlay''))"

definition resolveFetchRefs :: "(rat \<Rightarrow> string) \<Rightarrow> json option \<Rightarrow> string list" where
  "resolveFetchRefs num repo =
     (case js_prop repo ''fetch_refs'' of
        Some (JArr (x # xs)) \<Rightarrow> map (js_String num) (x # xs)
      | _ \<Rightarrow>
          (let branch = (if js_nullish (js_prop repo ''branch'') then [] else js_String_of num (js_prop repo ''branch''))
           in if branch \<noteq> [] then [''refs/heads/'' @ branch] else []))"

section \<open>Data plane URLs\<close>

definition strip_brackets :: "string \<Rightarrow> string" where
  "strip_brackets host =
     (let h = (case host of c # r \<Rightarrow> if c = CHR ''['' then r else c # r | [] \<Rightarrow> [])
      in if h \<noteq> [] \<and> last h = CHR '']'' then butlast h else h)"

definition isLocalOrWildcardHost :: "string \<Rightarrow> bool" where
  "isLocalOrWildcardHost host =
     (toLowerCase (strip_brackets host) \<in> {''127.0.0.1'', ''localhost'', ''::1'', ''0.0.0.0'', ''::''})"

definition formatHostForUrl :: "string \<Rightarrow> string" where
  "formatHostForUrl host =
     (if CHR '':'' \<in> set host \<and> \<not> starts_with host ''['' then ''['' @ host @ '']'' else host)"

definition resolveDataPlaneBaseUrl :: "remote_env \<Rightarrow> agent_conn option \<Rightarrow> string" where
  "resolveDataPlaneBaseUrl env agent =
     (let url = (\<lambda>host. ''https://'' @ formatHostForUrl host @ '':'' @ show_nat (re_serverPort env));
          base = re_dataPlaneBaseUrl env;
          pinned = re_controllerPublicHost env;
          staleLanIp = (case pinned of
             Some h \<Rightarrow> h \<noteq> [] \<and> \<not> isLocalOrWildcardHost h \<and> isPrivateLanAddress h \<and> \<not> re_isAssigned env h
           | None \<Rightarrow> False)
      in if \<not> falsy_str base then
           (let b = the base in if last b = CHR ''/'' then butlast b else b)
         else if \<not> falsy_str pinned \<and> \<not> isLocalOrWildcardHost (the pinned) \<and> \<not> staleLanIp then url (the pinned)
         else case agent of
                Some c \<Rightarrow>
                  if \<not> falsy_str (cn_connectionHost c) \<and> \<not> isLocalOrWildcardHost (the (cn_connectionHost c))
                  then url (the (cn_connectionHost c))
                  else url (if staleLanIp then ''127.0.0.1'' else case pinned of Some h \<Rightarrow> h | None \<Rightarrow> ''127.0.0.1'')
              | None \<Rightarrow> url (if staleLanIp then ''127.0.0.1'' else case pinned of Some h \<Rightarrow> h | None \<Rightarrow> ''127.0.0.1''))"

section \<open>Frames and leases\<close>

definition sendWsFrame ::
  "agent_conn \<Rightarrow> string \<Rightarrow> string \<Rightarrow> int \<Rightarrow> ws_payload \<Rightarrow> ('z remote_state_scheme, unit) rbo" where
  "sendWsFrame conn attemptId leaseId leaseEpoch payload =
     (if \<not> cn_open conn then ret ()
      else modify (\<lambda>s. s\<lparr>ws_sent := ws_sent s @
             [\<lparr>fr_socket = cn_socket conn, fr_attempt_id = attemptId, fr_lease_id = leaseId,
               fr_lease_epoch = leaseEpoch, fr_payload = payload\<rparr>]\<rparr>))"

text \<open>\<open>const conn = opts.connectedAgents.get(agentId); if (conn) sendWsFrame(..)\<close>\<close>

definition sendToAgent ::
  "string \<Rightarrow> string \<Rightarrow> string \<Rightarrow> int \<Rightarrow> ws_payload \<Rightarrow> ('z remote_state_scheme, unit) rbo" where
  "sendToAgent agentId attemptId leaseId leaseEpoch payload =
     bind (gets (\<lambda>s. map_of (connectedAgents s) agentId)) (\<lambda>conn.
       case conn of None \<Rightarrow> ret () | Some c \<Rightarrow> sendWsFrame c attemptId leaseId leaseEpoch payload)"

definition loadAttemptByLease :: "lease_ref \<Rightarrow> 'z controller_db_scheme \<Rightarrow> attempt_row option" where
  "loadAttemptByLease p s =
     sql_get (\<lambda>r. at_id r = lr_attempt_id p \<and> at_lease_id r = lr_lease_id p \<and> at_lease_epoch r = lr_lease_epoch p)
       (job_attempts s)"

definition isLeaseExpired :: "ts \<Rightarrow> attempt_row \<Rightarrow> bool" where
  "isLeaseExpired now attempt = (case at_lease_deadline attempt of None \<Rightarrow> False | Some d \<Rightarrow> d \<le> now)"

text \<open>
  \<open>rejectStale\<close> returns true when the message may proceed; \<open>Some attempt\<close> here. Every handler
  starts with \<open>loadAttemptByLease\<close> followed by it, which is \<open>live_attempt\<close>.
\<close>

definition rejectStale :: "ts \<Rightarrow> attempt_row option \<Rightarrow> string \<Rightarrow> run_state list \<Rightarrow> attempt_row option" where
  "rejectStale now attempt agentId expectedStates =
     (case attempt of
        None \<Rightarrow> None
      | Some a \<Rightarrow>
          if at_agent_id a \<noteq> Some agentId then None
          else if isLeaseExpired now a then None
          else if at_state a \<notin> set expectedStates then None
          else Some a)"

definition live_attempt ::
  "ts \<Rightarrow> string \<Rightarrow> lease_ref \<Rightarrow> run_state list \<Rightarrow> 'z controller_db_scheme \<Rightarrow> attempt_row option" where
  "live_attempt now agentId p expectedStates s = rejectStale now (loadAttemptByLease p s) agentId expectedStates"

definition guarded ::
  "ts \<Rightarrow> string \<Rightarrow> lease_ref \<Rightarrow> run_state list \<Rightarrow> (attempt_row \<Rightarrow> ('z controller_db_scheme, unit) rbo)
     \<Rightarrow> ('z controller_db_scheme, unit) rbo" where
  "guarded now agentId p expectedStates body =
     bind (gets (live_attempt now agentId p expectedStates)) (\<lambda>a. case a of None \<Rightarrow> ret () | Some attempt \<Rightarrow> body attempt)"

definition renewActiveLease :: "ts \<Rightarrow> string \<Rightarrow> int \<Rightarrow> ('z controller_db_scheme, unit) rbo" where
  "renewActiveLease now agentId ttlSeconds =
     modify (\<lambda>s. s\<lparr>job_attempts :=
       sql_update (\<lambda>r. at_agent_id r = Some agentId \<and> at_state r \<noteq> Completed \<and> at_lease_deadline r \<noteq> None)
         (\<lambda>r. r\<lparr>at_lease_deadline := Some (now + ttlSeconds * 1000)\<rparr>) (job_attempts s)\<rparr>)"

definition expired_row :: "ts \<Rightarrow> attempt_row \<Rightarrow> bool" where
  "expired_row now r =
     (at_state r \<notin> {Completed, Orphaned} \<and> (case at_lease_deadline r of None \<Rightarrow> False | Some d \<Rightarrow> d \<le> now))"

definition expireStaleLeases :: "ts \<Rightarrow> ('z controller_db_scheme, unit) rbo" where
  "expireStaleLeases now =
     bind (gets (\<lambda>s. sql_all (expired_row now) (job_attempts s))) (\<lambda>rows.
       for_each rows (\<lambda>row.
         bind (transitionAttemptState (at_id row) Completed [AF_outcome (Some Failed), AF_finished_at (Some now)]) (\<lambda>_.
         bind (transitionJobState now (at_job_id row) Completed
                 [JF_outcome (Some Failed), JF_finished_at now, JF_failure_category (Some Agent_disconnected),
                  JF_failure_message (Some ''Lease expired during remote execution'')]) (\<lambda>_. ret ()))))"

section \<open>Offering a lease\<close>

definition initiateRemoteAttempt ::
  "ts \<Rightarrow> string \<Rightarrow> string \<Rightarrow> string \<Rightarrow> string \<Rightarrow> toolchain_profile list option \<Rightarrow> ('z remote_state_scheme, string) rbo" where
  "initiateRemoteAttempt now leaseId attemptId jobId agentId selectedToolchains = (\<lambda>s.
     case getJob jobId s of
       None \<Rightarrow> (Inl (rbo_validation (''Unknown job '' @ jobId)), s)
     | Some job \<Rightarrow>
       (case map_of (connectedAgents s) agentId of
          None \<Rightarrow> (Inl (rbo_internal (''Agent '' @ agentId @ '' is not connected'')), s)
        | Some conn \<Rightarrow>
          if \<not> cn_open conn then (Inl (rbo_internal (''Agent '' @ agentId @ '' is not connected'')), s)
          else case Option.bind (jb_snapshot_id job) (\<lambda>i. getSnapshot i s) of
            None \<Rightarrow> (Inl (rbo_internal (''Missing snapshot metadata for job '' @ jobId)), s)
          | Some snap \<Rightarrow>
            if falsy_str (sn_sha256 snap) \<or> sn_size_bytes snap = None
            then (Inl (rbo_internal (''Snapshot '' @ sn_id snap @ '' is missing size/sha256 metadata'')), s)
            else
              (let leaseEpoch = nextLeaseEpochForJob jobId s;
                   ordinal = max_or_zero (map at_ordinal (sql_all (\<lambda>r. at_job_id r = jobId) (job_attempts s))) + 1;
                   tools = (case selectedToolchains of Some (t # ts) \<Rightarrow> Some (t # ts) | _ \<Rightarrow> None);
                   row = (blank_attempt attemptId jobId ordinal leaseId leaseEpoch Leasing)
                           \<lparr>at_agent_id := Some agentId,
                            at_lease_deadline := Some (now + DEFAULT_LEASE_TTL_SECONDS * 1000),
                            at_toolchain_profiles := tools\<rparr>;
                   offer = \<lparr>lo_job_id = jobId, lo_job_request = jb_request job, lo_snapshot_id = sn_id snap,
                            lo_content_id = sn_content_id snap, lo_size_bytes = the (sn_size_bytes snap),
                            lo_sha256 = the (sn_sha256 snap), lo_selected_toolchain_profiles = tools,
                            lo_lease_ttl_seconds = DEFAULT_LEASE_TTL_SECONDS\<rparr>
               in bind (insertAttempt row) (\<lambda>_.
                  bind (transitionJobState now jobId Leasing []) (\<lambda>_.
                  bind (sendWsFrame conn attemptId leaseId leaseEpoch (Lease_offer offer)) (\<lambda>_.
                  ret attemptId))) s)))"

section \<open>Preparing the source\<close>

definition loadSnapshotForJob :: "string \<Rightarrow> 'z controller_db_scheme \<Rightarrow> snapshot_row option" where
  "loadSnapshotForJob jobId s =
     Option.bind (getJob jobId s) (\<lambda>j. Option.bind (jb_snapshot_id j) (\<lambda>i. getSnapshot i s))"

definition failAttemptPrepare ::
  "ts \<Rightarrow> string \<Rightarrow> string \<Rightarrow> error_category \<Rightarrow> string \<Rightarrow> ('z controller_db_scheme, unit) rbo" where
  "failAttemptPrepare now attemptId jobId category message =
     bind (transitionAttemptState attemptId Completed [AF_outcome (Some Failed), AF_finished_at (Some now)]) (\<lambda>_.
     bind (transitionJobState now jobId Completed
             [JF_outcome (Some Failed), JF_finished_at now, JF_failure_category (Some category),
              JF_failure_message (Some message)]) (\<lambda>_. ret ()))"

definition token_for :: "remote_env \<Rightarrow> ts \<Rightarrow> string \<Rightarrow> string \<Rightarrow> lease_ref \<Rightarrow> data_op \<Rightarrow> string option \<Rightarrow> string" where
  "token_for env now agentId jobId p op artifact =
     issueDataToken (re_jwt env) (now div 1000) (re_identity env)
       \<lparr>dt_agent_id = agentId, dt_job_id = jobId, dt_attempt_id = lr_attempt_id p, dt_lease_id = lr_lease_id p,
        dt_lease_epoch = lr_lease_epoch p, dt_op = op, dt_artifact_id = artifact, dt_ttl_seconds = None\<rparr>"

definition attempt_url :: "remote_env \<Rightarrow> agent_conn option \<Rightarrow> string \<Rightarrow> string \<Rightarrow> string" where
  "attempt_url env conn attemptId what =
     resolveDataPlaneBaseUrl env conn @ ''/data/v1/attempts/'' @ attemptId @ ''/'' @ what"

text \<open>
  \<open>p\<close> carries the attempt id and the lease of the message; \<open>snapshotManifestMode\<close> is true
  for \<open>git_overlay\<close>, which implies that the manifest is an object.
\<close>

definition sendPrepareSource ::
  "remote_env \<Rightarrow> ts \<Rightarrow> string \<Rightarrow> lease_ref \<Rightarrow> string \<Rightarrow> json option \<Rightarrow> snapshot_row \<Rightarrow> ('z remote_state_scheme, unit) rbo" where
  "sendPrepareSource env now agentId p jobId manifest snap =
     bind (gets (\<lambda>s. map_of (connectedAgents s) agentId)) (\<lambda>conn.
       let attemptId = lr_attempt_id p in
       if snapshotManifestMode manifest then
         (let repo = js_prop manifest ''repo''; payload = js_prop manifest ''payload''; num = re_num_str env in
          if \<not> js_truthy (js_prop repo ''url'') \<or> \<not> js_truthy (js_prop repo ''base_commit'')
            \<or> \<not> js_truthy (js_prop payload ''sha256'') \<or> js_nullish (js_prop payload ''size'')
          then failAttemptPrepare now attemptId jobId Materialization ''Invalid git_overlay manifest''
          else
            sendToAgent agentId attemptId (lr_lease_id p) (lr_lease_epoch p)
              (Prepare_overlay
                 \<lparr>or_url = js_String_of num (js_prop repo ''url''),
                  or_canonical_id = js_String_of num
                    (if js_nullish (js_prop repo ''canonical_id'') then js_prop repo ''url'' else js_prop repo ''canonical_id''),
                  or_branch = (if js_nullish (js_prop repo ''branch'') then None else Some (js_String_of num (js_prop repo ''branch''))),
                  or_base_commit = js_String_of num (js_prop repo ''base_commit''),
                  or_fetch_refs = resolveFetchRefs num repo\<rparr>
                 \<lparr>sd_download_url = attempt_url env conn attemptId ''overlay'',
                  sd_data_token = token_for env now agentId jobId p Overlay_download None,
                  sd_expected_size_bytes = the (js_prop payload ''size''),
                  sd_expected_sha256 = the (js_prop payload ''sha256'')\<rparr>
                 manifest))
       else
         sendToAgent agentId attemptId (lr_lease_id p) (lr_lease_epoch p)
           (Prepare_full
              \<lparr>sd_download_url = attempt_url env conn attemptId ''snapshot'',
               sd_data_token = token_for env now agentId jobId p Snapshot_download None,
               sd_expected_size_bytes = json_int (sn_size_bytes snap),
               sd_expected_sha256 = json_str (sn_sha256 snap)\<rparr>
              manifest))"

definition handleRemoteLeaseAccept ::
  "remote_env \<Rightarrow> ts \<Rightarrow> string \<Rightarrow> lease_ref \<Rightarrow> ('z remote_state_scheme, unit) rbo" where
  "handleRemoteLeaseAccept env now agentId p =
     guarded now agentId p [Leasing] (\<lambda>attempt.
       bind (transitionAttemptState (at_id attempt) Preparing_source []) (\<lambda>_.
       bind (transitionJobState now (at_job_id attempt) Preparing_source []) (\<lambda>_.
       bind (gets (loadSnapshotForJob (at_job_id attempt))) (\<lambda>row.
         let failed = failAttemptPrepare now (at_id attempt) (at_job_id attempt) Materialization
                        ''Snapshot metadata missing size, sha256, or payload path''
         in case row of
              None \<Rightarrow> failed
            | Some snap \<Rightarrow>
                if falsy_str (sn_sha256 snap) \<or> sn_size_bytes snap = None \<or> falsy_str (sn_payload_path snap) then failed
                else
                  (let manifest = (if sn_manifest_path snap = [] then None else re_readManifest env (sn_manifest_path snap))
                   in sendPrepareSource env now agentId p (at_job_id attempt) manifest snap)))))"

section \<open>When the Agent needs more source\<close>

text \<open>
  What git answers: \<open>rev-parse HEAD\<close>, whether a commit exists, and the size and SHA-256 of the
  bundle file \<open>git bundle create\<close> leaves for a ref (\<open>None\<close> when the command fails).
\<close>

record git_world =
  gw_head :: "string option"
  gw_has_commit :: "string \<Rightarrow> bool"
  gw_bundle :: "string \<Rightarrow> (int \<times> string) option"
  gw_error :: string

definition createGitBundle :: "git_world \<Rightarrow> string \<Rightarrow> int \<Rightarrow> string + int \<times> string" where
  "createGitBundle git baseCommit maxBytes =
     (case gw_head git of
        None \<Rightarrow> Inl (gw_error git)
      | Some head \<Rightarrow>
          if \<not> gw_has_commit git baseCommit then Inl (gw_error git)
          else
            (let bundleRef = (if trim head = baseCommit then ''HEAD'' else baseCommit);
                 written = (case gw_bundle git bundleRef of Some b \<Rightarrow> Some b | None \<Rightarrow> gw_bundle git ''--all'')
             in case written of
                  None \<Rightarrow> Inl (gw_error git)
                | Some (sizeBytes, sha256) \<Rightarrow>
                    if sizeBytes > maxBytes
                    then Inl (''GitBundleSizeExceededError: Git bundle size '' @ show_int sizeBytes @
                              '' bytes exceeds maximum '' @ show_int maxBytes @ '' bytes'')
                    else Inr (sizeBytes, sha256)))"

text \<open>
  \<open>existing\<close>: size and hash of the archive already in the transfer directory with its parsed
  manifest, \<open>None\<close> when any of them cannot be read. \<open>captured\<close>: the outcome of
  \<open>captureFullSnapshot\<close>. \<open>Inr None\<close> is the \<open>null\<close> for a job without a request.
\<close>

definition ensureFullFallbackArchive ::
  "job_request option \<Rightarrow> (int \<times> string \<times> json) option \<Rightarrow> string + int \<times> string \<times> json
     \<Rightarrow> string + (int \<times> string \<times> json) option" where
  "ensureFullFallbackArchive request existing captured =
     (case request of
        None \<Rightarrow> Inr None
      | Some _ \<Rightarrow>
          (let fresh = (case captured of Inl e \<Rightarrow> Inl e | Inr c \<Rightarrow> Inr (Some c)) in
           case existing of
             Some (sz, sha256, manifest) \<Rightarrow>
               (let payload = js_prop (Some manifest) ''payload'' in
                if js_prop payload ''sha256'' = Some (JStr sha256) \<and> js_prop payload ''size'' = Some (JNum (of_int sz))
                then Inr (Some (sz, sha256, manifest)) else fresh)
           | None \<Rightarrow> fresh))"

datatype source_need_reason =
  Base_present | Base_commit_missing_reason | Bundle_required | Full_snapshot_required | Repo_fetch_failed

text \<open>What the handler is waiting for when it yields, with the values it holds across the \<open>await\<close>.\<close>

datatype source_wait =
    Source_done
  | Wait_bundle attempt_row agent_conn string string
  | Wait_fallback attempt_row agent_conn "job_request option"

definition sourceNeed_fail ::
  "ts \<Rightarrow> attempt_row \<Rightarrow> error_category \<Rightarrow> string \<Rightarrow> ('z controller_db_scheme, source_wait) rbo" where
  "sourceNeed_fail now attempt category message =
     bind (failAttemptPrepare now (at_id attempt) (at_job_id attempt) category message) (\<lambda>_. ret Source_done)"

text \<open>The branch for \<open>base_commit_missing\<close> and \<open>bundle_required\<close>.\<close>

definition sourceNeed_bundle_begin ::
  "remote_env \<Rightarrow> ts \<Rightarrow> attempt_row \<Rightarrow> agent_conn \<Rightarrow> ('z controller_db_scheme, source_wait) rbo" where
  "sourceNeed_bundle_begin env now attempt conn =
     bind (gets (getJobRequest (at_job_id attempt))) (\<lambda>request.
     bind (gets (loadSnapshotForJob (at_job_id attempt))) (\<lambda>row.
       if request = None \<or> (case row of None \<Rightarrow> True | Some snap \<Rightarrow> sn_manifest_path snap = [])
       then sourceNeed_fail now attempt Materialization ''Cannot create bundle: missing job request or manifest''
       else
         (case re_readManifest env (sn_manifest_path (the row)) of
            None \<Rightarrow> sourceNeed_fail now attempt Materialization ''Cannot create bundle: manifest unreadable''
          | Some manifest \<Rightarrow>
              (let base = js_prop (js_prop (Some manifest) ''repo'') ''base_commit'' in
               if \<not> js_truthy base
               then sourceNeed_fail now attempt Materialization ''Cannot create bundle: manifest missing base_commit''
               else ret (Wait_bundle attempt conn (src_project_root (rqst_source (the request)))
                           (js_String_of (re_num_str env) base))))))"

text \<open>The branch for \<open>full_snapshot_required\<close> and \<open>repo_fetch_failed\<close>.\<close>

definition sourceNeed_full_begin ::
  "remote_env \<Rightarrow> ts \<Rightarrow> string \<Rightarrow> lease_ref \<Rightarrow> attempt_row \<Rightarrow> agent_conn \<Rightarrow> ('z remote_state_scheme, source_wait) rbo" where
  "sourceNeed_full_begin env now agentId p attempt conn =
     bind (gets (getJobRequest (at_job_id attempt))) (\<lambda>request.
     bind (gets (loadSnapshotForJob (at_job_id attempt))) (\<lambda>row.
       case row of
         None \<Rightarrow> sourceNeed_fail now attempt Repo_fetch ''No snapshot available for full-mode fallback''
       | Some snap \<Rightarrow>
           (let manifest = re_readManifest env (sn_manifest_path snap) in
            if \<not> snapshotManifestMode manifest
            then bind (sendPrepareSource env now agentId p (at_job_id attempt) manifest snap) (\<lambda>_. ret Source_done)
            else ret (Wait_fallback attempt conn request))))"

definition handleRemoteSourceNeed_begin ::
  "remote_env \<Rightarrow> ts \<Rightarrow> string \<Rightarrow> lease_ref \<Rightarrow> source_need_reason \<Rightarrow> ('z remote_state_scheme, source_wait) rbo" where
  "handleRemoteSourceNeed_begin env now agentId p reason =
     bind (gets (live_attempt now agentId p [Preparing_source])) (\<lambda>live.
       case live of
         None \<Rightarrow> ret Source_done
       | Some attempt \<Rightarrow>
           if reason = Base_present then ret Source_done
           else bind (gets (\<lambda>s. map_of (connectedAgents s) agentId)) (\<lambda>agentConn.
             case agentConn of
               None \<Rightarrow> ret Source_done
             | Some conn \<Rightarrow>
                 if reason = Base_commit_missing_reason \<or> reason = Bundle_required
                 then sourceNeed_bundle_begin env now attempt conn
                 else sourceNeed_full_begin env now agentId p attempt conn))"

text \<open>
  After the \<open>await\<close>. The connection is the one captured before it; \<open>cn_open\<close> is what its
  socket's \<open>readyState\<close> says now. There is no second look at the attempt.
\<close>

definition sourceNeed_bundle_finish ::
  "remote_env \<Rightarrow> ts \<Rightarrow> string \<Rightarrow> lease_ref \<Rightarrow> attempt_row \<Rightarrow> agent_conn \<Rightarrow> string + int \<times> string \<Rightarrow> ('z remote_state_scheme, unit) rbo" where
  "sourceNeed_bundle_finish env now agentId p attempt conn bundle =
     (case bundle of
        Inl e \<Rightarrow> failAttemptPrepare now (at_id attempt) (at_job_id attempt) Materialization (''Failed to create git bundle: '' @ e)
      | Inr (sizeBytes, sha256) \<Rightarrow>
          sendWsFrame conn (at_id attempt) (lr_lease_id p) (lr_lease_epoch p)
            (Bundle_download
               \<lparr>sd_download_url = attempt_url env (Some conn) (at_id attempt) ''bundle'',
                sd_data_token = token_for env now agentId (at_job_id attempt) p Bundle_download_op None,
                sd_expected_size_bytes = JNum (of_int sizeBytes), sd_expected_sha256 = JStr sha256\<rparr>))"

definition sourceNeed_fallback_finish ::
  "remote_env \<Rightarrow> ts \<Rightarrow> string \<Rightarrow> lease_ref \<Rightarrow> attempt_row \<Rightarrow> agent_conn \<Rightarrow> string + (int \<times> string \<times> json) option
     \<Rightarrow> ('z remote_state_scheme, unit) rbo" where
  "sourceNeed_fallback_finish env now agentId p attempt conn fallback =
     (case fallback of
        Inl e \<Rightarrow> throw (JsError e)
      | Inr None \<Rightarrow> failAttemptPrepare now (at_id attempt) (at_job_id attempt) Repo_fetch ''Full snapshot fallback unavailable''
      | Inr (Some (sizeBytes, sha256, manifest)) \<Rightarrow>
          sendWsFrame conn (at_id attempt) (lr_lease_id p) (lr_lease_epoch p)
            (Prepare_full
               \<lparr>sd_download_url = attempt_url env (Some conn) (at_id attempt) ''snapshot'',
                sd_data_token = token_for env now agentId (at_job_id attempt) p Snapshot_download None,
                sd_expected_size_bytes = JNum (of_int sizeBytes), sd_expected_sha256 = JStr sha256\<rparr>
               (Some manifest)))"

text \<open>
  The whole handler when nothing else runs between its two halves. \<open>bundle\<close> and
  \<open>archive\<close> are the disk and git side.
\<close>

definition handleRemoteSourceNeed ::
  "remote_env \<Rightarrow> ts \<Rightarrow> (string \<Rightarrow> string \<Rightarrow> string + int \<times> string)
     \<Rightarrow> (job_request option \<Rightarrow> string + (int \<times> string \<times> json) option)
     \<Rightarrow> string \<Rightarrow> lease_ref \<Rightarrow> source_need_reason \<Rightarrow> ('z remote_state_scheme, unit) rbo" where
  "handleRemoteSourceNeed env now bundle archive agentId p reason =
     bind (handleRemoteSourceNeed_begin env now agentId p reason) (\<lambda>w.
       case w of
         Source_done \<Rightarrow> ret ()
       | Wait_bundle attempt conn projRoot base \<Rightarrow> sourceNeed_bundle_finish env now agentId p attempt conn (bundle projRoot base)
       | Wait_fallback attempt conn request \<Rightarrow> sourceNeed_fallback_finish env now agentId p attempt conn (archive request))"

section \<open>Rejection, cancellation, start\<close>

definition requeue_row :: "ts \<Rightarrow> job_row \<Rightarrow> job_row" where
  "requeue_row now r =
     r\<lparr>jb_state := Queued, jb_outcome := None, jb_finished_at := None, jb_failure_category := None,
       jb_failure_message := None,
       jb_queued_at := (case jb_queued_at r of Some q \<Rightarrow> Some q | None \<Rightarrow> Some now), jb_updated_at := now\<rparr>"

definition update_jobs :: "string \<Rightarrow> (job_row \<Rightarrow> job_row) \<Rightarrow> ('z controller_db_scheme, unit) rbo" where
  "update_jobs jobId f = modify (\<lambda>s. s\<lparr>jobs := sql_update (\<lambda>r. jb_id r = jobId) f (jobs s)\<rparr>)"

definition handleRemoteLeaseReject ::
  "remote_env \<Rightarrow> ts \<Rightarrow> string \<Rightarrow> lease_ref \<Rightarrow> string \<Rightarrow> ('z remote_state_scheme, unit) rbo" where
  "handleRemoteLeaseReject env now agentId p reason =
     guarded now agentId p [Leasing] (\<lambda>attempt.
       bind (bumpLeaseEpoch (at_id attempt)) (\<lambda>_.
       bind (transitionAttemptState (at_id attempt) Completed [AF_outcome (Some Failed), AF_finished_at (Some now)]) (\<lambda>_.
       bind (gets (getJobRequest (at_job_id attempt))) (\<lambda>request.
         let requested = Option.bind request rqst_queue_policy;
             queuePolicy = (case requested of Some q \<Rightarrow> q
                            | None \<Rightarrow> (case re_defaultQueuePolicy env of Some q \<Rightarrow> q | None \<Rightarrow> Local_fallback))
         in if queuePolicy = Fail_fast then
              bind (transitionJobState now (at_job_id attempt) Completed
                      [JF_outcome (Some Failed), JF_finished_at now, JF_failure_category (Some No_capacity),
                       JF_failure_message (Some (''Agent rejected lease offer: '' @ reason))]) (\<lambda>_. ret ())
            else
              bind assertJobLifecycleWriteAllowed (\<lambda>_.
              bind (update_jobs (at_job_id attempt) (requeue_row now)) (\<lambda>_.
              notifyJobLifecycleChanged (at_job_id attempt)))))))"

definition requestRemoteJobCancel :: "string \<Rightarrow> string option \<Rightarrow> ('z remote_state_scheme, bool) rbo" where
  "requestRemoteJobCancel jobId reason = (\<lambda>s.
     case getLatestAttempt jobId s of
       None \<Rightarrow> (Inr False, s)
     | Some attempt \<Rightarrow>
         if falsy_str (at_agent_id attempt) \<or> at_state attempt = Completed then (Inr False, s)
         else if at_lease_id attempt = [] then (Inr False, s)
         else case map_of (connectedAgents s) (the (at_agent_id attempt)) of
           None \<Rightarrow> (Inr False, s)
         | Some conn \<Rightarrow>
             if \<not> cn_open conn then (Inr False, s)
             else
               (let grace = (case Option.bind (getJobRequest jobId s) (\<lambda>rq. ex_cancel_grace_seconds (rqst_execution rq)) of
                               Some g \<Rightarrow> g | None \<Rightarrow> 10)
                in bind (sendWsFrame conn (at_id attempt) (at_lease_id attempt) (at_lease_epoch attempt)
                           (Cancel_job grace (if falsy_str reason then None else reason))) (\<lambda>_. ret True) s))"

definition handleRemoteSourceReady :: "ts \<Rightarrow> string \<Rightarrow> lease_ref \<Rightarrow> ('z remote_state_scheme, unit) rbo" where
  "handleRemoteSourceReady now agentId p =
     guarded now agentId p [Preparing_source] (\<lambda>attempt.
       bind (transitionAttemptState (at_id attempt) Running []) (\<lambda>_.
       bind (transitionJobState now (at_job_id attempt) Running [JF_started_at now]) (\<lambda>_.
       sendToAgent agentId (at_id attempt) (lr_lease_id p) (lr_lease_epoch p) Run_job)))"

definition handleRemoteJobStarted ::
  "remote_env \<Rightarrow> ts \<Rightarrow> string \<Rightarrow> lease_ref \<Rightarrow> int option \<Rightarrow> ('z controller_db_scheme, unit) rbo" where
  "handleRemoteJobStarted env now agentId p pid =
     guarded now agentId p [Running] (\<lambda>attempt.
       bind (case Option.bind pid (\<lambda>n. if n > 0 then re_processIdentity env n else None) of
               None \<Rightarrow> ret ()
             | Some identity \<Rightarrow>
                 if identity = [] then ret ()
                 else bind (updateAttempt (at_id attempt) [AF_process_identity (Some identity)]) (\<lambda>_. ret ())) (\<lambda>_.
       bind (createJobEvent now (Process_started ''remote'' (if pid = Some 0 then None else pid))
               (at_job_id attempt) (at_id attempt)) (\<lambda>event.
       bind (recordEvent event) (\<lambda>_. ret ()))))"

section \<open>Log chunks\<close>

definition logs_of :: "string \<Rightarrow> 'z remote_state_scheme \<Rightarrow> attempt_logs" where
  "logs_of attemptId s = (case map_of (log_files s) attemptId of None \<Rightarrow> empty_logs | Some l \<Rightarrow> l)"

text \<open>\<open>persistAndPublishLogChunk\<close>; \<open>io_ok\<close> is false when a file operation fails, before anything is written.\<close>

definition persistAndPublishLogChunk ::
  "bool \<Rightarrow> string \<Rightarrow> log_stream \<Rightarrow> string \<Rightarrow> int \<Rightarrow> ('z remote_state_scheme, unit) rbo" where
  "persistAndPublishLogChunk io_ok attemptId stream chunk sequence = (\<lambda>s.
     if \<not> io_ok then (Inl (JsError ''EIO''), s)
     else
       (case appendIndexedLogChunk stream chunk sequence None (logs_of attemptId s) of
          (Inl e, logs) \<Rightarrow> (Inl e, s\<lparr>log_files := map_set attemptId logs (log_files s)\<rparr>)
        | (Inr (_, text), logs) \<Rightarrow>
            (Inr (), s\<lparr>log_files := map_set attemptId logs (log_files s),
                       live_hub := hub_publish \<lparr>le_attempt_id = attemptId, le_sequence = sequence,
                                                le_stream = stream, le_text = text\<rparr> (live_hub s)\<rparr>)))"

datatype log_decision = Chunk_ignored | Chunk_reacked attempt_row | Chunk_append attempt_row

definition log_chunk_decision :: "ts \<Rightarrow> string \<Rightarrow> log_chunk \<Rightarrow> 'z controller_db_scheme \<Rightarrow> log_decision" where
  "log_chunk_decision now agentId payload s =
     (case live_attempt now agentId (lc_lease payload) [Running, Collecting_artifacts, Completed] s of
        None \<Rightarrow> Chunk_ignored
      | Some attempt \<Rightarrow>
          if lc_sequence payload \<le> at_log_acked_sequence attempt then Chunk_reacked attempt
          else if lc_sequence payload \<noteq> at_log_acked_sequence attempt + 1 then Chunk_ignored
          else Chunk_append attempt)"

definition send_log_ack :: "string \<Rightarrow> log_chunk \<Rightarrow> attempt_row \<Rightarrow> ('z remote_state_scheme, unit) rbo" where
  "send_log_ack agentId payload attempt =
     sendToAgent agentId (at_id attempt) (lr_lease_id (lc_lease payload)) (lr_lease_epoch (lc_lease payload))
       (Log_ack (lc_sequence payload))"

text \<open>The part before the \<open>await\<close>: the attempt to append to, if there is one.\<close>

definition handleRemoteLogChunk_begin ::
  "ts \<Rightarrow> string \<Rightarrow> log_chunk \<Rightarrow> ('z remote_state_scheme, attempt_row option) rbo" where
  "handleRemoteLogChunk_begin now agentId payload =
     bind (gets (log_chunk_decision now agentId payload)) (\<lambda>d.
       case d of
         Chunk_ignored \<Rightarrow> ret None
       | Chunk_reacked attempt \<Rightarrow> bind (send_log_ack agentId payload attempt) (\<lambda>_. ret None)
       | Chunk_append attempt \<Rightarrow> ret (Some attempt))"

definition handleRemoteLogChunk_finish ::
  "bool \<Rightarrow> string \<Rightarrow> log_chunk \<Rightarrow> attempt_row \<Rightarrow> ('z remote_state_scheme, unit) rbo" where
  "handleRemoteLogChunk_finish io_ok agentId payload attempt =
     bind (persistAndPublishLogChunk io_ok (at_id attempt) (lc_stream payload) (lc_bytes payload) (lc_sequence payload)) (\<lambda>_.
     bind (updateAttempt (at_id attempt) [AF_log_acked_sequence (lc_sequence payload)]) (\<lambda>_.
     send_log_ack agentId payload attempt))"

definition handleRemoteLogChunk ::
  "ts \<Rightarrow> bool \<Rightarrow> string \<Rightarrow> log_chunk \<Rightarrow> ('z remote_state_scheme, unit) rbo" where
  "handleRemoteLogChunk now io_ok agentId payload =
     bind (handleRemoteLogChunk_begin now agentId payload) (\<lambda>a.
       case a of None \<Rightarrow> ret () | Some attempt \<Rightarrow> handleRemoteLogChunk_finish io_ok agentId payload attempt)"

text \<open>
  \<open>enqueueRemoteLogChunk\<close> chains the handlers of one attempt: the map keeps, per attempt, the
  chunks whose handler has not finished, in arrival order, and \<open>log_writing\<close> the attempts whose
  first handler waits for the disk, with the row it read. \<open>log_chain_begin\<close> and \<open>log_chain_finish\<close> run the two
  halves of the first handler; when it ends the next one may start, and an empty chain is removed.
\<close>

definition chain_of :: "string \<Rightarrow> 'z remote_state_scheme \<Rightarrow> (string \<times> log_chunk) list" where
  "chain_of attemptId s = (case map_of (logChunkChains s) attemptId of None \<Rightarrow> [] | Some c \<Rightarrow> c)"

definition set_chain :: "string \<Rightarrow> (string \<times> log_chunk) list \<Rightarrow> 'z remote_state_scheme \<Rightarrow> 'z remote_state_scheme" where
  "set_chain attemptId c s =
     s\<lparr>logChunkChains := if c = [] then map_delete attemptId (logChunkChains s)
                         else map_set attemptId c (logChunkChains s)\<rparr>"

definition enqueueRemoteLogChunk :: "string \<Rightarrow> log_chunk \<Rightarrow> ('z remote_state_scheme, unit) rbo" where
  "enqueueRemoteLogChunk agentId payload =
     modify (\<lambda>s. let key = lr_attempt_id (lc_lease payload)
                 in set_chain key (chain_of key s @ [(agentId, payload)]) s)"

definition log_chain_begin :: "ts \<Rightarrow> string \<Rightarrow> ('z remote_state_scheme, unit) rbo" where
  "log_chain_begin now key = (\<lambda>s.
     case chain_of key s of
       [] \<Rightarrow> (Inr (), s)
     | (agentId, payload) # rest \<Rightarrow>
         if map_of (log_writing s) key \<noteq> None then (Inr (), s)
         else bind (handleRemoteLogChunk_begin now agentId payload) (\<lambda>a.
                case a of
                  None \<Rightarrow> modify (set_chain key rest)
                | Some attempt \<Rightarrow> modify (\<lambda>s. s\<lparr>log_writing := map_set key attempt (log_writing s)\<rparr>)) s)"

definition log_chain_finish :: "bool \<Rightarrow> string \<Rightarrow> ('z remote_state_scheme, unit) rbo" where
  "log_chain_finish io_ok key = (\<lambda>s.
     case (chain_of key s, map_of (log_writing s) key) of
       ((agentId, payload) # rest, Some attempt) \<Rightarrow>
         (let t = snd (handleRemoteLogChunk_finish io_ok agentId payload attempt s)
          in (Inr (), set_chain key rest (t\<lparr>log_writing := map_delete key (log_writing t)\<rparr>)))
     | _ \<Rightarrow> (Inr (), s))"

text \<open>
  \<open>drainRemoteLogChunks\<close> waits until the chain of the attempt has settled. With nothing else
  running meanwhile, that is running every queued handler in order; a handler that throws does
  not stop the chain.
\<close>

definition drainRemoteLogChunks :: "ts \<Rightarrow> bool \<Rightarrow> string \<Rightarrow> ('z remote_state_scheme, unit) rbo" where
  "drainRemoteLogChunks now io_ok attemptId = (\<lambda>s.
     (Inr (), fold (\<lambda>(agentId, payload) t. snd (handleRemoteLogChunk now io_ok agentId payload t))
                (chain_of attemptId s) (set_chain attemptId [] (s\<lparr>log_writing := map_delete attemptId (log_writing s)\<rparr>))))"

section \<open>Exit, artifacts, cleanup\<close>

record job_exit =
  jx_exit_code :: "int option"
  jx_outcome :: job_outcome
  jx_failure_category :: "error_category option"
  jx_failure_message :: "string option"

definition handleRemoteJobExit ::
  "ts \<Rightarrow> string \<Rightarrow> lease_ref \<Rightarrow> job_exit \<Rightarrow> ('z controller_db_scheme, unit) rbo" where
  "handleRemoteJobExit now agentId p payload =
     guarded now agentId p [Leasing, Preparing_source, Running, Orphaned, Collecting_artifacts] (\<lambda>attempt.
       bind (transitionAttemptState (at_id attempt) Collecting_artifacts [AF_outcome (Some (jx_outcome payload))]) (\<lambda>_.
       bind (updateAttempt (at_id attempt) [AF_orphaned_at None]) (\<lambda>_.
       bind assertJobLifecycleWriteAllowed (\<lambda>_.
       bind (update_jobs (at_job_id attempt)
               (\<lambda>r. r\<lparr>jb_exit_code := jx_exit_code payload, jb_failure_category := jx_failure_category payload,
                      jb_failure_message := jx_failure_message payload, jb_updated_at := now\<rparr>)) (\<lambda>_.
       bind (notifyJobLifecycleChanged (at_job_id attempt)) (\<lambda>_.
       bind (transitionJobState now (at_job_id attempt) Collecting_artifacts []) (\<lambda>_. ret ())))))))"

record artifact_decl =
  ad_logical_name :: string
  ad_path :: string
  ad_size_bytes :: int
  ad_sha256 :: string

definition expectationKey :: "string \<Rightarrow> string \<Rightarrow> string" where
  "expectationKey attemptId logicalName = attemptId @ [char_of (0 :: nat)] @ logicalName"

definition registerArtifactExpectations :: "string \<Rightarrow> artifact_decl list \<Rightarrow> ('z remote_state_scheme, unit) rbo" where
  "registerArtifactExpectations attemptId artifacts =
     modify (\<lambda>s. s\<lparr>artifactExpectations :=
       fold (\<lambda>a. map_set (expectationKey attemptId (ad_logical_name a)) (ad_size_bytes a, ad_sha256 a))
         artifacts (artifactExpectations s)\<rparr>)"

definition clearArtifactExpectations :: "string \<Rightarrow> ('z remote_state_scheme, unit) rbo" where
  "clearArtifactExpectations attemptId =
     modify (\<lambda>s. s\<lparr>artifactExpectations :=
       filter (\<lambda>(k, _). \<not> starts_with k (attemptId @ [char_of (0 :: nat)])) (artifactExpectations s)\<rparr>)"

text \<open>\<open>stored\<close>: size and SHA-256 of the file already under the attempt's artifact directory.\<close>

definition filterMissingArtifacts ::
  "(string \<Rightarrow> (int \<times> string) option) \<Rightarrow> artifact_decl list \<Rightarrow> artifact_decl list" where
  "filterMissingArtifacts stored artifacts =
     filter (\<lambda>a. stored (ad_logical_name a) \<noteq> Some (ad_size_bytes a, ad_sha256 a)) artifacts"

definition hex_digit :: "nat \<Rightarrow> char" where
  "hex_digit n = (if n < 10 then char_of (48 + n) else char_of (55 + n))"

definition encodeURIComponent :: "string \<Rightarrow> string" where
  "encodeURIComponent s =
     concat (map (\<lambda>c. if is_alpha c \<or> is_digit c \<or> c \<in> set ''-_.!~*()'' \<or> c = char_of (39 :: nat) then [c]
                      else [CHR ''%'', hex_digit (of_char c div 16), hex_digit (of_char c mod 16)]) s)"

definition handleRemoteArtifactManifest ::
  "ts \<Rightarrow> string \<Rightarrow> lease_ref \<Rightarrow> artifact_decl list \<Rightarrow> nat option \<Rightarrow> ('z remote_state_scheme, unit) rbo" where
  "handleRemoteArtifactManifest now agentId p artifacts collection =
     guarded now agentId p [Collecting_artifacts] (\<lambda>attempt.
       bind (gets (getJobRequest (at_job_id attempt))) (\<lambda>request.
         let rules = (case Option.bind request rqst_artifacts of Some r \<Rightarrow> r | None \<Rightarrow> []) in
         bind (case collection of
                 Some n \<Rightarrow>
                   if n = length rules
                   then modify (\<lambda>s. s\<lparr>job_attempts := sql_update (\<lambda>r. at_id r = at_id attempt)
                                       (\<lambda>r. r\<lparr>at_artifact_collection_rules := Some n\<rparr>) (job_attempts s)\<rparr>)
                   else ret ()
               | None \<Rightarrow> ret ()) (\<lambda>_.
         registerArtifactExpectations (at_id attempt) artifacts)))"

text \<open>The continuation after \<open>filterMissingArtifacts\<close>, with the attempt read before it.\<close>

definition artifactManifest_finish ::
  "remote_env \<Rightarrow> ts \<Rightarrow> (string \<Rightarrow> (int \<times> string) option) \<Rightarrow> string \<Rightarrow> lease_ref \<Rightarrow> attempt_row \<Rightarrow> artifact_decl list
     \<Rightarrow> ('z remote_state_scheme, unit) rbo" where
  "artifactManifest_finish env now stored agentId p attempt artifacts =
     bind (gets (\<lambda>s. map_of (connectedAgents s) agentId)) (\<lambda>conn.
       let missing = filterMissingArtifacts stored artifacts;
           path_of = (\<lambda>n. case map_of (rev (map (\<lambda>a. (ad_logical_name a, ad_path a)) artifacts)) n of
                            Some q \<Rightarrow> q | None \<Rightarrow> n);
           grants = map (\<lambda>a. \<lparr>ug_logical_name = ad_logical_name a, ug_path = path_of (ad_logical_name a),
                              ug_size_bytes = ad_size_bytes a, ug_sha256 = ad_sha256 a,
                              ug_upload_token = token_for env now agentId (at_job_id attempt) p Artifact_upload_op
                                                  (Some (ad_logical_name a)),
                              ug_upload_url = attempt_url env conn (at_id attempt)
                                                (''artifacts/'' @ encodeURIComponent (ad_logical_name a))\<rparr>) missing
       in sendToAgent agentId (at_id attempt) (lr_lease_id p) (lr_lease_epoch p) (Artifact_upload_grant grants))"

record cleanup_report =
  cr_exit_code :: "int option"
  cr_timed_out :: bool
  cr_message :: "string option"

definition cleanup_outcome :: "attempt_row \<Rightarrow> cleanup_report \<Rightarrow> job_outcome" where
  "cleanup_outcome attempt payload =
     (case at_outcome attempt of
        Some o' \<Rightarrow> o'
      | None \<Rightarrow> if cr_timed_out payload then Timed_out else if cr_exit_code payload = Some 0 then Succeeded else Failed)"

definition cleanup_exit_code :: "attempt_row \<Rightarrow> job_row option \<Rightarrow> cleanup_report \<Rightarrow> int option" where
  "cleanup_exit_code attempt job payload =
     (let jobExit = Option.bind job jb_exit_code in
      if at_outcome attempt \<noteq> None then jobExit
      else case jobExit of Some c \<Rightarrow> Some c | None \<Rightarrow> cr_exit_code payload)"

definition show_exit :: "int option \<Rightarrow> string" where
  "show_exit c = (case c of None \<Rightarrow> ''null'' | Some n \<Rightarrow> show_int n)"

text \<open>The \<open>cleanup_error\<close> event of a cleanup script that failed or timed out.\<close>

definition cleanup_event ::
  "ts \<Rightarrow> cleanup_report \<Rightarrow> attempt_row \<Rightarrow> ('z controller_db_scheme, unit) rbo" where
  "cleanup_event now payload attempt =
     (if cr_timed_out payload \<or> (cr_exit_code payload \<noteq> None \<and> cr_exit_code payload \<noteq> Some 0)
      then bind (createJobEvent now
                   (Cleanup_error (cr_exit_code payload) (cr_timed_out payload)
                      (case cr_message payload of Some m \<Rightarrow> m | None \<Rightarrow> ''Cleanup script failed or timed out''))
                   (at_job_id attempt) (at_id attempt)) (\<lambda>event.
           bind (recordEvent event) (\<lambda>_. ret ()))
      else ret ())"

text \<open>The columns of the job's last transition.\<close>

definition cleanup_job_fields ::
  "ts \<Rightarrow> job_outcome \<Rightarrow> int option \<Rightarrow> job_row option \<Rightarrow> cleanup_report \<Rightarrow> job_field list" where
  "cleanup_job_fields now outcome exitCode job payload =
     [JF_outcome (Some outcome), JF_finished_at now, JF_exit_code exitCode,
      JF_failure_category
        (case Option.bind job jb_failure_category of
           Some c \<Rightarrow> Some c
         | None \<Rightarrow> if outcome = Failed then Some Process_exit
                   else if outcome = Timed_out then Some Timeout else None),
      JF_failure_message
        (case Option.bind job jb_failure_message of
           Some m \<Rightarrow> Some m
         | None \<Rightarrow> (case cr_message payload of
                      Some m \<Rightarrow> Some m
                    | None \<Rightarrow> if outcome = Failed then Some (''Process exited with code '' @ show_exit exitCode)
                              else None)),
      JF_result_json (JObj [(''outcome'', JStr (outcome_name outcome)), (''exit_code'', json_int exitCode)])]"

text \<open>The part after the drain.\<close>

definition cleanupComplete_finish ::
  "ts \<Rightarrow> string \<Rightarrow> lease_ref \<Rightarrow> cleanup_report \<Rightarrow> ('z remote_state_scheme, unit) rbo" where
  "cleanupComplete_finish now agentId p payload =
     guarded now agentId p [Collecting_artifacts] (\<lambda>attempt.
       bind (clearArtifactExpectations (at_id attempt)) (\<lambda>_.
       bind (gets (getJob (at_job_id attempt))) (\<lambda>job.
         let outcome = cleanup_outcome attempt payload;
             exitCode = cleanup_exit_code attempt job payload
         in
         bind (cleanup_event now payload attempt) (\<lambda>_.
         bind (transitionAttemptState (at_id attempt) Completed [AF_outcome (Some outcome), AF_finished_at (Some now)]) (\<lambda>_.
         bind (transitionJobState now (at_job_id attempt) Cleaning []) (\<lambda>_.
         bind (transitionJobState now (at_job_id attempt) Completed
                 (cleanup_job_fields now outcome exitCode job payload)) (\<lambda>_. ret ())))))))"

definition handleRemoteCleanupComplete ::
  "ts \<Rightarrow> bool \<Rightarrow> string \<Rightarrow> lease_ref \<Rightarrow> cleanup_report \<Rightarrow> ('z remote_state_scheme, unit) rbo" where
  "handleRemoteCleanupComplete now io_ok agentId p payload =
     guarded now agentId p [Collecting_artifacts] (\<lambda>loaded.
       bind (drainRemoteLogChunks now io_ok (at_id loaded)) (\<lambda>_.
       cleanupComplete_finish now agentId p payload))"

section \<open>Job messages of an Agent\<close>

text \<open>
  The job-scoped cases of the switch in \<open>websocket/server.ts\<close>, each handler run to its end. \<open>io\<close> is
  what the awaited disk and git calls return.
\<close>

datatype job_message =
    M_lease_accept
  | M_lease_reject string
  | M_source_need source_need_reason
  | M_source_ready
  | M_job_started "int option"
  | M_log_chunk log_stream int string
  | M_job_exit job_exit
  | M_artifact_manifest "artifact_decl list" "nat option"
  | M_cleanup_complete cleanup_report

record io_results =
  io_ok :: bool
  io_bundle :: "string \<Rightarrow> string \<Rightarrow> string + int \<times> string"
  io_archive :: "job_request option \<Rightarrow> string + (int \<times> string \<times> json) option"

fun handle_job_message ::
  "remote_env \<Rightarrow> ts \<Rightarrow> io_results \<Rightarrow> string \<Rightarrow> lease_ref \<Rightarrow> job_message \<Rightarrow> ('z remote_state_scheme, unit) rbo" where
  "handle_job_message env now io agentId p M_lease_accept = handleRemoteLeaseAccept env now agentId p"
| "handle_job_message env now io agentId p (M_lease_reject reason) = handleRemoteLeaseReject env now agentId p reason"
| "handle_job_message env now io agentId p (M_source_need reason) =
     handleRemoteSourceNeed env now (io_bundle io) (io_archive io) agentId p reason"
| "handle_job_message env now io agentId p M_source_ready = handleRemoteSourceReady now agentId p"
| "handle_job_message env now io agentId p (M_job_started pid) = handleRemoteJobStarted env now agentId p pid"
| "handle_job_message env now io agentId p (M_log_chunk stream sequence bytes) =
     handleRemoteLogChunk now (io_ok io) agentId
       \<lparr>lc_lease = p, lc_stream = stream, lc_sequence = sequence, lc_bytes = bytes\<rparr>"
| "handle_job_message env now io agentId p (M_job_exit x) = handleRemoteJobExit now agentId p x"
| "handle_job_message env now io agentId p (M_artifact_manifest arts coll) =
     handleRemoteArtifactManifest now agentId p arts coll"
| "handle_job_message env now io agentId p (M_cleanup_complete x) =
     handleRemoteCleanupComplete now (io_ok io) agentId p x"

end
