(* ===== verification/Remote_Laws.thy ===== *)
theory Remote_Laws
  imports Remote_Execution
begin

text \<open>
  What the handlers of \<open>Remote_Execution\<close> promise. A relation between the states before and after
  is shown for every handler at once: the locale \<open>remote_primitives\<close> asks for it on the row
  operations and on sending a frame, and derives it for the handlers; \<open>log_path\<close> does the same for
  the operations on log chunks, and \<open>remote_all\<close> joins the two. The interpretations instantiate it with the frame of one attempt, the
  monotonicity of leases, the schema invariant and the frame of the log path.
\<close>

section \<open>The guard\<close>

lemma live_attempt_facts:
  assumes "live_attempt now agentId p states s = Some r"
  shows "r \<in> set (job_attempts s)" "at_id r = lr_attempt_id p" "at_lease_id r = lr_lease_id p"
    "at_lease_epoch r = lr_lease_epoch p" "at_agent_id r = Some agentId" "\<not> isLeaseExpired now r"
    "at_state r \<in> set states"
  using assms
  by (auto simp: live_attempt_def rejectStale_def loadAttemptByLease_def
      dest: sql_get_Some split: option.splits if_splits)

definition plain_field :: "attempt_field \<Rightarrow> bool" where
  "plain_field f = (case f of AF_agent_id _ \<Rightarrow> False | AF_log_acked_sequence _ \<Rightarrow> False
     | AF_state st \<Rightarrow> st \<noteq> Orphaned | _ \<Rightarrow> True)"

lemma plain_field_simps [simp]:
  "plain_field (AF_orphaned_at o')" "plain_field (AF_process_identity i)" "plain_field (AF_last_reconcile_at l)"
  "plain_field (AF_state st) = (st \<noteq> Orphaned)" "plain_field (AF_outcome oc)" "plain_field (AF_lease_deadline d)"
  "plain_field (AF_finished_at fa)" "\<not> plain_field (AF_agent_id ag)" "\<not> plain_field (AF_log_acked_sequence q)"
  by (simp_all add: plain_field_def)

definition not_ack :: "ws_payload \<Rightarrow> bool" where
  "not_ack pl = (\<forall>q. pl \<noteq> Log_ack q)"

lemma not_ack_simps [simp]:
  "not_ack (Lease_offer o')" "not_ack (Prepare_full d m)" "not_ack (Prepare_overlay rp d m)"
  "not_ack (Bundle_download d)" "not_ack Run_job" "not_ack (Cancel_job g w)"
  "not_ack (Artifact_upload_grant gs)" "not_ack (Reconcile_decision b n r)" "\<not> not_ack (Log_ack q)"
  by (simp_all add: not_ack_def)

definition keeps_job_keys :: "(job_row \<Rightarrow> job_row) \<Rightarrow> bool" where
  "keeps_job_keys f = (\<forall>r. jb_id (f r) = jb_id r \<and> jb_client_id (f r) = jb_client_id r \<and>
     jb_client_request_id (f r) = jb_client_request_id r \<and> jb_snapshot_id (f r) = jb_snapshot_id r)"

lemma sourceNeed_fail_done: "fst (sourceNeed_fail now att c m s) = Inr x \<Longrightarrow> x = Source_done"
  by (auto simp: sourceNeed_fail_def bind_apply split: prod.splits sum.splits)

lemma sourceNeed_wait_attempt:
  assumes "fst (handleRemoteSourceNeed_begin env now ag p w s) = Inr x"
  shows "case x of Source_done \<Rightarrow> True
           | Wait_bundle att conn q b \<Rightarrow> at_id att = lr_attempt_id p
           | Wait_fallback att conn rq \<Rightarrow> at_id att = lr_attempt_id p"
proof (cases "live_attempt now ag p [Preparing_source] s")
  case None
  with assms show ?thesis by (simp add: handleRemoteSourceNeed_begin_def)
next
  case (Some att)
  note ids = live_attempt_facts(2) [OF Some]
  have case_bundle: "fst (sourceNeed_bundle_begin env now att conn s) = Inr x \<Longrightarrow> ?thesis" for conn
    using ids by (auto simp: sourceNeed_bundle_begin_def Let_def dest: sourceNeed_fail_done split: option.splits if_splits)
  have case_full: "fst (sourceNeed_full_begin env now ag p att conn s) = Inr x \<Longrightarrow> ?thesis" for conn
    using ids by (auto simp: sourceNeed_full_begin_def Let_def bind_apply dest: sourceNeed_fail_done
        split: option.splits if_splits prod.splits sum.splits)
  from assms Some case_bundle case_full show ?thesis
    by (auto simp: handleRemoteSourceNeed_begin_def split: if_splits option.splits)
qed

section \<open>A relation every handler keeps\<close>

locale remote_primitives = step_relation R for R :: "'z remote_state_scheme \<Rightarrow> 'z remote_state_scheme \<Rightarrow> bool" +
  fixes A :: "string \<Rightarrow> bool"
  assumes p_transitionAttempt: "A a \<Longrightarrow> st \<noteq> Orphaned \<Longrightarrow> list_all plain_field fs \<Longrightarrow> obeys R (transitionAttemptState a st fs)"
    and p_updateAttempt: "A a \<Longrightarrow> list_all plain_field fs \<Longrightarrow> obeys R (updateAttempt a fs)"
    and p_bump: "A a \<Longrightarrow> obeys R (bumpLeaseEpoch a)"
    and p_insert: "A (at_id row) \<Longrightarrow> at_state row \<noteq> Orphaned \<Longrightarrow> at_log_acked_sequence row = 0 \<Longrightarrow> obeys R (insertAttempt row)"
    and p_collection: "A a \<Longrightarrow> R s (s\<lparr>job_attempts := sql_update (\<lambda>r. at_id r = a)
           (\<lambda>r. r\<lparr>at_artifact_collection_rules := n\<rparr>) (job_attempts s)\<rparr>)"
    and p_transitionJob: "obeys R (transitionJobState now j st jfs)"
    and p_updateJobs: "keeps_job_keys f \<Longrightarrow> obeys R (update_jobs j f)"
    and p_event: "obeys R (recordEvent e)"
    and p_notify: "obeys R (notifyJobLifecycleChanged j)"
    and p_send: "not_ack (fr_payload fr) \<Longrightarrow> R s (s\<lparr>ws_sent := ws_sent s @ [fr]\<rparr>)"
    and p_expect: "R s (s\<lparr>artifactExpectations := x\<rparr>)"
begin

lemma p_createEvent: "obeys R (createJobEvent now ty j a)"
  by (simp add: obeys_def R_refl)

lemma p_assert: "obeys R assertJobLifecycleWriteAllowed"
  by (simp add: obeys_def R_refl)

lemma r_guarded:
  "(\<And>r. at_id r = lr_attempt_id p \<Longrightarrow> obeys R (body r)) \<Longrightarrow> obeys R (guarded now agentId p states body)"
  by (auto simp: guarded_def obeys_def R_refl dest: live_attempt_facts split: option.split)

lemma r_sendWsFrame: "not_ack pl \<Longrightarrow> obeys R (sendWsFrame conn a l e pl)"
  by (auto simp: sendWsFrame_def obeys_def R_refl p_send)

lemma r_sendToAgent: "not_ack pl \<Longrightarrow> obeys R (sendToAgent ag a l e pl)"
  unfolding sendToAgent_def by (intro obeys_rules r_sendWsFrame)

lemmas r_base =
  obeys_rules p_createEvent p_assert p_transitionJob p_updateJobs p_event p_notify r_guarded r_sendWsFrame r_sendToAgent

lemma r_failAttemptPrepare: "A a \<Longrightarrow> obeys R (failAttemptPrepare now a j c m)"
  unfolding failAttemptPrepare_def by (intro r_base p_transitionAttempt) auto

lemma r_sendPrepareSource: "A (lr_attempt_id p) \<Longrightarrow> obeys R (sendPrepareSource env now ag p j m snap)"
  unfolding sendPrepareSource_def Let_def by (intro r_base r_failAttemptPrepare) auto

lemma r_leaseAccept: "A (lr_attempt_id p) \<Longrightarrow> obeys R (handleRemoteLeaseAccept env now ag p)"
  unfolding handleRemoteLeaseAccept_def Let_def
  by (intro r_base r_failAttemptPrepare r_sendPrepareSource p_transitionAttempt) auto

lemma r_leaseReject: "A (lr_attempt_id p) \<Longrightarrow> obeys R (handleRemoteLeaseReject env now ag p w)"
  unfolding handleRemoteLeaseReject_def Let_def
  by (intro r_base p_transitionAttempt p_bump) (auto simp: keeps_job_keys_def requeue_row_def)

lemma r_sourceReady: "A (lr_attempt_id p) \<Longrightarrow> obeys R (handleRemoteSourceReady now ag p)"
  unfolding handleRemoteSourceReady_def by (intro r_base p_transitionAttempt) auto

lemma r_jobStarted: "A (lr_attempt_id p) \<Longrightarrow> obeys R (handleRemoteJobStarted env now ag p pid)"
  unfolding handleRemoteJobStarted_def by (intro r_base p_updateAttempt) auto

lemma r_jobExit: "A (lr_attempt_id p) \<Longrightarrow> obeys R (handleRemoteJobExit now ag p x)"
  unfolding handleRemoteJobExit_def
  by (intro r_base p_transitionAttempt p_updateAttempt) (auto simp: keeps_job_keys_def)

lemma r_artifactManifest: "A (lr_attempt_id p) \<Longrightarrow> obeys R (handleRemoteArtifactManifest now ag p arts coll)"
  unfolding handleRemoteArtifactManifest_def registerArtifactExpectations_def Let_def
  by (intro r_base p_collection p_expect) auto

lemma r_artifactFinish: "obeys R (artifactManifest_finish env now stored ag p att arts)"
  unfolding artifactManifest_finish_def Let_def by (intro r_base) auto

lemma r_cleanupFinish: "A (lr_attempt_id p) \<Longrightarrow> obeys R (cleanupComplete_finish now ag p x)"
  unfolding cleanupComplete_finish_def cleanup_event_def clearArtifactExpectations_def Let_def
  by (intro r_base p_transitionAttempt p_expect) auto

lemma r_bundleFinish: "A (at_id att) \<Longrightarrow> obeys R (sourceNeed_bundle_finish env now ag p att conn b)"
  unfolding sourceNeed_bundle_finish_def
  by (auto split: sum.split prod.split intro!: r_failAttemptPrepare r_sendWsFrame)

lemma r_fallbackFinish: "A (at_id att) \<Longrightarrow> obeys R (sourceNeed_fallback_finish env now ag p att conn b)"
  unfolding sourceNeed_fallback_finish_def
  by (auto split: sum.split prod.split option.split intro!: r_failAttemptPrepare r_sendWsFrame obeys_throw)

lemma obeys_bind_live:
  assumes "\<And>r. at_id r = lr_attempt_id p \<Longrightarrow> obeys R (f (Some r))" and "obeys R (f None)"
  shows "obeys R (bind (gets (live_attempt now ag p states)) f)"
proof (rule obeysI)
  fix s
  show "R s (snd (bind (gets (live_attempt now ag p states)) f s))"
  proof (cases "live_attempt now ag p states s")
    case None
    then show ?thesis using obeysD [OF assms(2)] by simp
  next
    case (Some r)
    then show ?thesis using obeysD [OF assms(1) [OF live_attempt_facts(2) [OF Some]]] by simp
  qed
qed

lemma r_sourceFail: "A (at_id att) \<Longrightarrow> obeys R (sourceNeed_fail now att c m)"
  unfolding sourceNeed_fail_def by (intro r_base r_failAttemptPrepare)

lemma r_bundleBegin: "A (at_id att) \<Longrightarrow> obeys R (sourceNeed_bundle_begin env now att conn)"
  unfolding sourceNeed_bundle_begin_def Let_def by (intro r_base r_sourceFail)

lemma r_fullBegin:
  "A (at_id att) \<Longrightarrow> A (lr_attempt_id p) \<Longrightarrow> obeys R (sourceNeed_full_begin env now ag p att conn)"
  unfolding sourceNeed_full_begin_def Let_def by (intro r_base r_sourceFail r_sendPrepareSource)

lemma r_sourceNeedBegin: "A (lr_attempt_id p) \<Longrightarrow> obeys R (handleRemoteSourceNeed_begin env now ag p w)"
  unfolding handleRemoteSourceNeed_begin_def
  by (rule obeys_bind_live; unfold option.case; intro r_base r_bundleBegin r_fullBegin; simp)

lemma r_sourceNeed:
  assumes "A (lr_attempt_id p)"
  shows "obeys R (handleRemoteSourceNeed env now bundle archive ag p w)"
proof (rule obeysI)
  fix s :: "'z remote_state_scheme"
  let ?b = "handleRemoteSourceNeed_begin env now ag p w s"
  have first: "R s (snd ?b)" using r_sourceNeedBegin [OF assms] by (rule obeysD)
  show "R s (snd (handleRemoteSourceNeed env now bundle archive ag p w s))"
  proof (cases "fst ?b")
    case (Inl e)
    then show ?thesis using first by (auto simp: handleRemoteSourceNeed_def bind_apply split: prod.splits)
  next
    case (Inr x)
    from sourceNeed_wait_attempt [OF Inr] assms
    have "obeys R (case x of Source_done \<Rightarrow> ret ()
        | Wait_bundle attempt conn pr base \<Rightarrow> sourceNeed_bundle_finish env now ag p attempt conn (bundle pr base)
        | Wait_fallback attempt conn request \<Rightarrow> sourceNeed_fallback_finish env now ag p attempt conn (archive request))"
      by (cases x) (auto intro: obeys_ret r_bundleFinish r_fallbackFinish)
    from obeysD [OF this, of "snd ?b"] first Inr show ?thesis
      by (auto simp: handleRemoteSourceNeed_def bind_apply split: prod.splits intro: R_trans)
  qed
qed

lemma r_expire: "(\<And>a. A a) \<Longrightarrow> obeys R (expireStaleLeases now)"
  unfolding expireStaleLeases_def by (intro r_base p_transitionAttempt) auto

lemma r_initiate: "A a \<Longrightarrow> obeys R (initiateRemoteAttempt now l a j ag tp)"
proof (rule obeysI)
  fix s assume a: "A a"
  note rules = obeysD [OF obeys_bind] p_insert p_transitionJob r_sendWsFrame obeys_ret obeys_bind
  show "R s (snd (initiateRemoteAttempt now l a j ag tp s))"
    unfolding initiateRemoteAttempt_def Let_def
    using a
    by (auto simp: R_refl blank_attempt_def intro!: rules split: option.split)
qed

lemma r_cancel: "obeys R (requestRemoteJobCancel j w)"
proof (rule obeysI)
  fix s
  note rules = obeysD [OF obeys_bind] r_sendWsFrame obeys_ret
  show "R s (snd (requestRemoteJobCancel j w s))"
    unfolding requestRemoteJobCancel_def Let_def
    by (auto simp: R_refl intro!: rules split: option.split)
qed

end

locale log_path = step_relation R for R :: "'z remote_state_scheme \<Rightarrow> 'z remote_state_scheme \<Rightarrow> bool" +
  fixes A :: "string \<Rightarrow> bool"
  assumes p_acked: "A a \<Longrightarrow> obeys R (updateAttempt a [AF_log_acked_sequence q])"
    and p_frame: "R s (s\<lparr>ws_sent := ws_sent s @ [fr]\<rparr>)"
    and p_files: "R s (s\<lparr>log_files := x\<rparr>)"
    and p_hub: "R s (s\<lparr>live_hub := h\<rparr>)"
    and p_chains: "R s (s\<lparr>logChunkChains := c\<rparr>)"
    and p_writing: "R s (s\<lparr>log_writing := w\<rparr>)"
begin

lemma r_ack: "obeys R (send_log_ack ag pl att)"
  by (auto simp: send_log_ack_def sendToAgent_def sendWsFrame_def obeys_def R_refl p_frame split: option.split)

lemma r_persist: "obeys R (persistAndPublishLogChunk ok a st c q)"
proof (rule obeysI)
  fix s
  have "R s (s\<lparr>log_files := x, live_hub := h\<rparr>)" for x h
    using p_files p_hub by (rule R_trans)
  then show "R s (snd (persistAndPublishLogChunk ok a st c q s))"
    by (auto simp: persistAndPublishLogChunk_def R_refl p_files split: prod.split sum.split)
qed

lemma r_chunkBegin: "obeys R (handleRemoteLogChunk_begin now ag pl)"
  by (auto simp: handleRemoteLogChunk_begin_def obeys_def R_refl split: log_decision.split
      intro: obeysD [OF obeys_bind [OF r_ack obeys_ret]])

lemma r_chunkFinish: "A (at_id att) \<Longrightarrow> obeys R (handleRemoteLogChunk_finish ok ag pl att)"
  unfolding handleRemoteLogChunk_finish_def by (intro obeys_bind r_persist p_acked r_ack)

lemma r_chunk: "A (lr_attempt_id (lc_lease pl)) \<Longrightarrow> obeys R (handleRemoteLogChunk now ok ag pl)"
proof (rule obeysI)
  fix s :: "'z remote_state_scheme" assume a: "A (lr_attempt_id (lc_lease pl))"
  show "R s (snd (handleRemoteLogChunk now ok ag pl s))"
  proof (cases "log_chunk_decision now ag pl s")
    case (Chunk_append att)
    then have "at_id att = lr_attempt_id (lc_lease pl)"
      by (auto simp: log_chunk_decision_def dest: live_attempt_facts split: option.splits if_splits)
    with a have "R s (snd (handleRemoteLogChunk_finish ok ag pl att s))" by (intro obeysD [OF r_chunkFinish]) simp
    with Chunk_append show ?thesis by (simp add: handleRemoteLogChunk_def handleRemoteLogChunk_begin_def bind_apply)
  next
    case (Chunk_reacked att)
    have "R s (snd (send_log_ack ag pl att s))" by (rule obeysD [OF r_ack])
    with Chunk_reacked show ?thesis
      by (auto simp: handleRemoteLogChunk_def handleRemoteLogChunk_begin_def bind_apply split: prod.splits sum.splits)
  qed (simp add: handleRemoteLogChunk_def handleRemoteLogChunk_begin_def bind_apply R_refl)
qed

lemma r_setChain: "obeys R (modify (set_chain key c))"
  by (simp add: obeys_def set_chain_def p_chains)

lemma r_enqueue: "obeys R (enqueueRemoteLogChunk ag pl)"
  by (simp add: enqueueRemoteLogChunk_def obeys_def Let_def set_chain_def p_chains)

lemma r_chainBegin: "obeys R (log_chain_begin now key)"
proof (rule obeysI)
  fix s :: "'z remote_state_scheme"
  have rest: "obeys R (case a of None \<Rightarrow> modify (set_chain key c)
      | Some attempt \<Rightarrow> modify (\<lambda>s. s\<lparr>log_writing := map_set key attempt (log_writing s)\<rparr>))" for a c
    by (intro obeys_option r_setChain obeys_modify p_writing)
  show "R s (snd (log_chain_begin now key s))"
    unfolding log_chain_begin_def
    by (auto simp: R_refl intro!: obeysD [OF obeys_bind [OF r_chunkBegin rest]] split: list.split prod.split)
qed

end

locale log_path_all = log_path R A for R :: "'z remote_state_scheme \<Rightarrow> 'z remote_state_scheme \<Rightarrow> bool" and A +
  assumes every: "A a"
begin

lemma r_drain: "obeys R (drainRemoteLogChunks now ok a)"
proof (rule obeysI)
  fix s :: "'z remote_state_scheme"
  have f: "R t (fold (\<lambda>(ag, pl) t. snd (handleRemoteLogChunk now ok ag pl t)) c t)" for c t
    by (induction c arbitrary: t) (auto simp: R_refl intro: R_trans [OF obeysD [OF r_chunk [OF every]]])
  have "R s (set_chain a [] (s\<lparr>log_writing := w\<rparr>))" for w
    using p_writing p_chains unfolding set_chain_def by (rule R_trans)
  with f show "R s (snd (drainRemoteLogChunks now ok a s))"
    by (auto simp: drainRemoteLogChunks_def intro: R_trans)
qed

lemma r_chainFinish: "obeys R (log_chain_finish ok key)"
proof (rule obeysI)
  fix s :: "'z remote_state_scheme"
  have "R s (set_chain key c (snd (handleRemoteLogChunk_finish ok ag pl att s)\<lparr>log_writing := w\<rparr>))" for ag pl att c w
    unfolding set_chain_def
    by (rule R_trans [OF obeysD [OF r_chunkFinish [OF every]] R_trans [OF p_writing p_chains]])
  then show "R s (snd (log_chain_finish ok key s))"
    by (auto simp: log_chain_finish_def R_refl Let_def split: list.split prod.split option.split)
qed

end

locale remote_logging = remote_primitives R A + log_path R A for R :: "'z remote_state_scheme \<Rightarrow> 'z remote_state_scheme \<Rightarrow> bool" and A

locale remote_all = remote_primitives R A + log_path_all R A for R :: "'z remote_state_scheme \<Rightarrow> 'z remote_state_scheme \<Rightarrow> bool" and A
begin

lemma r_cleanup: "obeys R (handleRemoteCleanupComplete now ok ag p x)"
  unfolding handleRemoteCleanupComplete_def
  by (intro r_guarded obeys_bind r_drain r_cleanupFinish every)

lemma r_message: "obeys R (handle_job_message env now io ag p m)"
  by (cases m)
    (simp_all add: every r_leaseAccept r_leaseReject r_sourceNeed r_sourceReady r_jobStarted r_chunk r_jobExit
      r_artifactManifest r_cleanup)

end

section \<open>Interpretations\<close>

subsection \<open>Memory updates leave the tables alone\<close>

lemma getAttempt_memory [simp]:
  "getAttempt a (s\<lparr>ws_sent := x\<rparr>) = getAttempt a s" "getAttempt a (s\<lparr>log_files := y\<rparr>) = getAttempt a s"
  "getAttempt a (s\<lparr>live_hub := h\<rparr>) = getAttempt a s" "getAttempt a (s\<lparr>logChunkChains := c\<rparr>) = getAttempt a s"
  "getAttempt a (s\<lparr>log_writing := w\<rparr>) = getAttempt a s"
  "getAttempt a (s\<lparr>artifactExpectations := e\<rparr>) = getAttempt a s"
  "getAttempt a (s\<lparr>connectedAgents := ca\<rparr>) = getAttempt a s"
  by (simp_all add: getAttempt_def)

lemma db_wf_memory [simp]:
  "db_wf (s\<lparr>ws_sent := x\<rparr>) = db_wf s" "db_wf (s\<lparr>log_files := y\<rparr>) = db_wf s"
  "db_wf (s\<lparr>live_hub := h\<rparr>) = db_wf s" "db_wf (s\<lparr>logChunkChains := c\<rparr>) = db_wf s"
  "db_wf (s\<lparr>log_writing := w\<rparr>) = db_wf s" "db_wf (s\<lparr>artifactExpectations := e\<rparr>) = db_wf s"
  "db_wf (s\<lparr>connectedAgents := ca\<rparr>) = db_wf s"
  by (simp_all add: db_wf_def attempts_wf_def jobs_wf_def events_wf_def)

lemma plain_no_agent: "list_all plain_field fs \<Longrightarrow> no_agent_field fs"
  by (auto simp: no_agent_field_def list_all_iff plain_field_def split: attempt_field.splits)

lemma attempts_update_jobs [simp]: "job_attempts (snd (update_jobs j f s)) = job_attempts s"
  by (simp add: update_jobs_def)

lemma attempts_notify [simp]: "job_attempts (snd (notifyJobLifecycleChanged j s)) = job_attempts s"
  by (simp add: notifyJobLifecycleChanged_def)

interpretation coll_tab: keyed_table at_id "\<lambda>n r. r\<lparr>at_artifact_collection_rules := n\<rparr>"
  by unfold_locales simp

lemma getAttempt_collection:
  "getAttempt b (s\<lparr>job_attempts := sql_update (\<lambda>r. at_id r = a) (\<lambda>r. r\<lparr>at_artifact_collection_rules := n\<rparr>) (job_attempts s)\<rparr>)
     = (if b = a then map_option (\<lambda>r. r\<lparr>at_artifact_collection_rules := n\<rparr>) (getAttempt b s) else getAttempt b s)"
  by (simp add: getAttempt_def coll_tab.get_update_same coll_tab.get_update_other)

interpretation adv: remote_all leases_advance "\<lambda>_. True"
  by unfold_locales
    (auto intro: advance_intros obeys_advance_same simp: leases_advance_def getAttempt_collection)

lemma frame_insertAttempt: "obeys (attempt_frame (at_id row)) (insertAttempt row)"
  by (auto simp: obeys_def attempt_frame_def insertAttempt_def getAttempt_def sql_get_append split: option.split)

interpretation frm: remote_logging "attempt_frame a" "\<lambda>b. b = a" for a
  by unfold_locales
    (auto intro: frame_intros frame_insertAttempt obeys_frame_same simp: attempt_frame_def getAttempt_collection)

lemma ball_sql_update:
  "(\<And>r. Q (f r) = Q r) \<Longrightarrow> (\<forall>r \<in> set (sql_update P f t). Q r) = (\<forall>r \<in> set t. Q r)"
  by (induction t) (auto simp: sql_update_def)

lemma db_wf_update_jobs:
  assumes "keeps_job_keys f"
  shows "db_wf (s\<lparr>jobs := sql_update (\<lambda>r. jb_id r = j) f (jobs s)\<rparr>) = db_wf s"
  using assms
  by (simp add: db_wf_def attempts_wf_def jobs_wf_def events_wf_def keeps_job_keys_def map_sql_update
      ball_sql_update image_key_sql_update)

lemma wf_update_jobs: "keeps_job_keys f \<Longrightarrow> preserves db_wf (update_jobs j f)"
  by (simp add: preserves_def obeys_def update_jobs_def db_wf_update_jobs)

lemma db_wf_collection:
  "db_wf (s\<lparr>job_attempts := sql_update (\<lambda>r. at_id r = a) (\<lambda>r. r\<lparr>at_artifact_collection_rules := n\<rparr>) (job_attempts s)\<rparr>) = db_wf s"
  by (simp add: db_wf_def attempts_wf_def jobs_wf_def events_wf_def map_sql_update ball_sql_update image_key_sql_update)

lemma wf_notify: "preserves db_wf (notifyJobLifecycleChanged j)"
  by (simp add: preserves_def obeys_def notifyJobLifecycleChanged_def)

interpretation wf: remote_all "\<lambda>s t. db_wf s \<longrightarrow> db_wf t" "\<lambda>_. True"
  by unfold_locales
    (auto simp: preserves_def [symmetric] db_wf_collection plain_no_agent
      intro: wf_intros wf_update_jobs wf_notify)

subsection \<open>The frame of the log path\<close>

text \<open>
  What every operation outside the log path leaves alone: the log files, the queues of chunks, how
  far each attempt's log is acknowledged, and the acknowledgements sent.
\<close>

definition log_frame :: "'z remote_state_scheme \<Rightarrow> 'z remote_state_scheme \<Rightarrow> bool" where
  "log_frame s t =
     (log_files t = log_files s \<and> logChunkChains t = logChunkChains s \<and> log_writing t = log_writing s \<and>
      (\<forall>a r. getAttempt a s = Some r \<longrightarrow>
         (\<exists>r'. getAttempt a t = Some r' \<and> at_log_acked_sequence r' = at_log_acked_sequence r)) \<and>
      (\<forall>a r. getAttempt a s = None \<longrightarrow> getAttempt a t = Some r \<longrightarrow> at_log_acked_sequence r = 0) \<and>
      (\<forall>fr \<in> set (ws_sent t). fr \<in> set (ws_sent s) \<or> not_ack (fr_payload fr)))"

lemma log_frame_trans: "log_frame s t \<Longrightarrow> log_frame t u \<Longrightarrow> log_frame s u"
proof -
  assume st: "log_frame s t" and tu: "log_frame t u"
  have kept: "\<exists>r'. getAttempt a u = Some r' \<and> at_log_acked_sequence r' = at_log_acked_sequence r"
    if r: "getAttempt a s = Some r" for a r
  proof -
    from st r obtain r1 where r1: "getAttempt a t = Some r1" "at_log_acked_sequence r1 = at_log_acked_sequence r"
      unfolding log_frame_def by blast
    with tu obtain r2 where "getAttempt a u = Some r2" "at_log_acked_sequence r2 = at_log_acked_sequence r1"
      unfolding log_frame_def by blast
    with r1 show ?thesis by simp
  qed
  have new: "at_log_acked_sequence r = 0" if n: "getAttempt a s = None" and r: "getAttempt a u = Some r" for a r
  proof (cases "getAttempt a t")
    case None
    with tu r show ?thesis unfolding log_frame_def by blast
  next
    case (Some r1)
    with st n have "at_log_acked_sequence r1 = 0" unfolding log_frame_def by blast
    moreover from tu Some obtain r2 where "getAttempt a u = Some r2" "at_log_acked_sequence r2 = at_log_acked_sequence r1"
      unfolding log_frame_def by blast
    ultimately show ?thesis using r by simp
  qed
  have "\<forall>fr \<in> set (ws_sent u). fr \<in> set (ws_sent s) \<or> not_ack (fr_payload fr)"
    using st tu unfolding log_frame_def by blast
  with kept new st tu show ?thesis unfolding log_frame_def by simp
qed

lemma acked_set_field [simp]: "plain_field f \<Longrightarrow> at_log_acked_sequence (set_attempt_field f r) = at_log_acked_sequence r"
  by (cases f) (simp_all add: plain_field_def)

lemma acked_set_row [simp]:
  "list_all plain_field fs \<Longrightarrow> at_log_acked_sequence (set_attempt_row fs r) = at_log_acked_sequence r"
  unfolding set_attempt_row_def by (induction fs arbitrary: r) auto

lemma with_notifier_remote [simp]:
  "ws_sent (with_notifier f s) = ws_sent s" "log_files (with_notifier f s) = log_files s"
  "live_hub (with_notifier f s) = live_hub s" "logChunkChains (with_notifier f s) = logChunkChains s"
  "log_writing (with_notifier f s) = log_writing s" "connectedAgents (with_notifier f s) = connectedAgents s"
  "artifactExpectations (with_notifier f s) = artifactExpectations s"
  by (auto simp: with_notifier_def split: option.splits prod.splits)

text \<open>The in-memory part of the state, which the database operations do not touch.\<close>

definition memory_of :: "'z remote_state_scheme \<Rightarrow> _" where
  "memory_of s = (connectedAgents s, ws_sent s, log_files s, live_hub s, artifactExpectations s, logChunkChains s, log_writing s)"

lemma memory_ops [simp]:
  "memory_of (snd (transitionAttemptState a st fs s)) = memory_of s"
  "memory_of (snd (updateAttempt a fs s)) = memory_of s"
  "memory_of (snd (bumpLeaseEpoch a s)) = memory_of s"
  "memory_of (snd (insertAttempt row s)) = memory_of s"
  "memory_of (snd (transitionJobState now j st jfs s)) = memory_of s"
  "memory_of (snd (update_jobs j f s)) = memory_of s"
  "memory_of (snd (recordEvent e s)) = memory_of s"
  "memory_of (snd (notifyJobLifecycleChanged j s)) = memory_of s"
  by (simp_all add: memory_of_def transitionAttemptState_def updateAttempt_def bumpLeaseEpoch_def insertAttempt_def
      transitionJobState_def bind_apply assertJobLifecycleWriteAllowed_def notifyJobLifecycleChanged_def
      update_jobs_def recordEvent_def Let_def split: option.split)

lemma log_frameI:
  assumes "memory_of t = memory_of s"
    and "\<And>a r. getAttempt a s = Some r \<Longrightarrow> \<exists>r'. getAttempt a t = Some r' \<and> at_log_acked_sequence r' = at_log_acked_sequence r"
    and "\<And>a r. getAttempt a s = None \<Longrightarrow> getAttempt a t = Some r \<Longrightarrow> at_log_acked_sequence r = 0"
  shows "log_frame s t"
  using assms by (auto simp: log_frame_def memory_of_def)

lemma log_frame_same: "memory_of t = memory_of s \<Longrightarrow> job_attempts t = job_attempts s \<Longrightarrow> log_frame s t"
  by (rule log_frameI) (auto simp: getAttempt_def)

lemma getAttempt_transition:
  "getAttempt b (snd (transitionAttemptState a st fs s)) =
     (if b = a then map_option (set_attempt_row (AF_state st # fs)) (getAttempt b s) else getAttempt b s)"
  by (auto simp: transitionAttemptState_def Let_def getAttempt_sql_update split: option.split)

lemma getAttempt_update:
  "no_agent_field fs \<Longrightarrow> getAttempt b (snd (updateAttempt a fs s)) =
     (if b = a then map_option (set_attempt_row fs) (getAttempt b s) else getAttempt b s)"
  by (auto simp: updateAttempt_def Let_def getAttempt_sql_update no_agent_fk set_attempt_row_def split: option.split)

lemma log_frame_bump: "log_frame s (snd (bumpLeaseEpoch a s))"
  by (rule log_frameI)
    (auto simp: memory_of_def bumpLeaseEpoch_def Let_def getAttempt_epoch_update split: option.splits if_splits)

lemma log_frame_insert: "at_log_acked_sequence row = 0 \<Longrightarrow> log_frame s (snd (insertAttempt row s))"
  by (rule log_frameI)
    (auto simp: memory_of_def insertAttempt_def getAttempt_def sql_get_append split: option.splits if_splits)

lemma acked_transition [simp]:
  "list_all plain_field fs \<Longrightarrow> at_log_acked_sequence (set_attempt_row (AF_state st # fs) r) = at_log_acked_sequence r"
  using acked_set_row [of fs "r\<lparr>at_state := st\<rparr>"] by (simp add: set_attempt_row_def)

lemma log_frame_transition: "list_all plain_field fs \<Longrightarrow> log_frame s (snd (transitionAttemptState a st fs s))"
  by (rule log_frameI) (auto simp: getAttempt_transition split: if_splits)

lemma log_frame_update: "list_all plain_field fs \<Longrightarrow> log_frame s (snd (updateAttempt a fs s))"
  by (rule log_frameI) (auto simp: getAttempt_update plain_no_agent split: if_splits)

interpretation logf: remote_primitives log_frame "\<lambda>_. True"
proof unfold_locales
  show "log_frame s s" for s :: "'z remote_state_scheme" by (simp add: log_frame_def)
  show "log_frame s t \<Longrightarrow> log_frame t u \<Longrightarrow> log_frame s u" for s t u :: "'z remote_state_scheme"
    by (rule log_frame_trans)
  show "log_frame s (s\<lparr>job_attempts := sql_update (\<lambda>r. at_id r = a)
      (\<lambda>r. r\<lparr>at_artifact_collection_rules := n\<rparr>) (job_attempts s)\<rparr>)" for s :: "'z remote_state_scheme" and a n
    by (rule log_frameI) (auto simp: memory_of_def getAttempt_collection split: if_splits)
  show "not_ack (fr_payload fr) \<Longrightarrow> log_frame s (s\<lparr>ws_sent := ws_sent s @ [fr]\<rparr>)" for fr and s :: "'z remote_state_scheme"
    by (auto simp: log_frame_def)
  show "log_frame s (s\<lparr>artifactExpectations := x\<rparr>)" for s :: "'z remote_state_scheme" and x
    by (auto simp: log_frame_def)
qed (auto simp: obeys_def log_frame_transition log_frame_update log_frame_bump log_frame_insert
      intro!: log_frame_same)

end
