(* ===== verification/Remote_Safety.thy ===== *)
theory Remote_Safety
  imports Remote_Laws
begin

text \<open>
  Properties of remote execution: fencing of stale messages, terminal attempts, leases, the log path
  and the end of an attempt. \<open>remote_step\<close> is one atomic step of the Controller: a handler, a half
  of a handler that awaits, a timer, or a change of the connections, in any order.
\<close>

section \<open>Steps\<close>

fun atomic_message :: "job_message \<Rightarrow> bool" where
  "atomic_message (M_source_need _) = False"
| "atomic_message (M_log_chunk _ _ _) = False"
| "atomic_message (M_cleanup_complete _) = False"
| "atomic_message _ = True"

text \<open>
  The files of an attempt stay within the safe integers of JavaScript: an append that reports success
  does not make a stream longer than \<open>2^53 - 1\<close> bytes.
\<close>

definition log_room :: "string \<Rightarrow> 'z remote_state_scheme \<Rightarrow> bool" where
  "log_room key s = (case chain_of key s of
     (_, pl) # _ \<Rightarrow> isSafeInteger (lc_sequence pl) \<and>
        int (length (stream_bytes (lc_stream pl) (logs_of key s))) + int (length (lc_bytes pl)) \<le> MAX_SAFE_INTEGER
   | [] \<Rightarrow> True)"

inductive remote_step :: "remote_env \<Rightarrow> 'z remote_state_scheme \<Rightarrow> 'z remote_state_scheme \<Rightarrow> bool" for env where
  rs_message: "atomic_message m \<Longrightarrow> remote_step env s (snd (handle_job_message env now io ag p m s))"
| rs_source_begin: "remote_step env s (snd (handleRemoteSourceNeed_begin env now ag p w s))"
| rs_bundle_finish: "remote_step env s (snd (sourceNeed_bundle_finish env now ag p att conn b s))"
| rs_fallback_finish: "remote_step env s (snd (sourceNeed_fallback_finish env now ag p att conn fb s))"
| rs_artifact_finish: "remote_step env s (snd (artifactManifest_finish env now stored ag p att arts s))"
| rs_cleanup_finish: "remote_step env s (snd (cleanupComplete_finish now ag p x s))"
| rs_log_enqueue: "remote_step env s (snd (enqueueRemoteLogChunk ag pl s))"
| rs_log_begin: "remote_step env s (snd (log_chain_begin now key s))"
| rs_log_finish: "ok \<longrightarrow> log_room key s \<Longrightarrow> remote_step env s (snd (log_chain_finish ok key s))"
| rs_initiate: "remote_step env s (snd (initiateRemoteAttempt now l a j ag tp s))"
| rs_cancel: "remote_step env s (snd (requestRemoteJobCancel j wh s))"
| rs_renew: "remote_step env s (snd (renewActiveLease now ag ttl s))"
| rs_expire: "remote_step env s (snd (expireStaleLeases now s))"
| rs_connections: "remote_step env s (s\<lparr>connectedAgents := ca\<rparr>)"

section \<open>Fencing\<close>

definition holds_lease :: "ts \<Rightarrow> string \<Rightarrow> lease_ref \<Rightarrow> 'z controller_db_scheme \<Rightarrow> bool" where
  "holds_lease now agentId p s =
     (case loadAttemptByLease p s of
        None \<Rightarrow> False | Some r \<Rightarrow> at_agent_id r = Some agentId \<and> \<not> isLeaseExpired now r)"

lemma no_lease_no_attempt: "\<not> holds_lease now ag p s \<Longrightarrow> live_attempt now ag p states s = None"
  by (auto simp: holds_lease_def live_attempt_def rejectStale_def split: option.splits)

lemma fenced_message:
  assumes "\<not> holds_lease now ag p s"
  shows "handle_job_message env now io ag p m s = (Inr (), s)"
  using no_lease_no_attempt [OF assms]
  by (cases m)
    (simp_all add: handleRemoteLeaseAccept_def handleRemoteLeaseReject_def handleRemoteSourceNeed_def
      handleRemoteSourceNeed_begin_def handleRemoteSourceReady_def handleRemoteJobStarted_def
      handleRemoteLogChunk_def handleRemoteLogChunk_begin_def log_chunk_decision_def handleRemoteJobExit_def
      handleRemoteArtifactManifest_def handleRemoteCleanupComplete_def guarded_def bind_apply)

text \<open>
  (C1) Fencing: a job message whose lease the sender does not hold (an unknown attempt, another lease
  or epoch, another Agent, or an expired lease) has no effect at all: the database, the log files, the
  live log hub, the artifact expectations and the frames sent are exactly as before, whatever the message.
\<close>

theorem stale_message_has_no_effect:
  assumes "\<not> holds_lease now agentId p s"
  shows "handle_job_message env now io agentId p m s = (Inr (), s)"
  using assms by (rule fenced_message)

section \<open>Leases only advance\<close>

lemma sql_get_update_any:
  "(\<And>r. key (f r) = key r) \<Longrightarrow>
     sql_get (\<lambda>r. key r = k) (sql_update P f t) = map_option (\<lambda>r. if P r then f r else r) (sql_get (\<lambda>r. key r = k) t)"
  by (induction t) (auto simp: sql_update_def)

definition renewed :: "ts \<Rightarrow> string \<Rightarrow> int \<Rightarrow> attempt_row \<Rightarrow> attempt_row" where
  "renewed now agentId ttl r =
     (if at_agent_id r = Some agentId \<and> at_state r \<noteq> Completed \<and> at_lease_deadline r \<noteq> None
      then r\<lparr>at_lease_deadline := Some (now + ttl * 1000)\<rparr> else r)"

lemma renewed_keys [simp]:
  "at_id (renewed now ag ttl r) = at_id r" "at_job_id (renewed now ag ttl r) = at_job_id r"
  "at_ordinal (renewed now ag ttl r) = at_ordinal r" "at_lease_id (renewed now ag ttl r) = at_lease_id r"
  "at_lease_epoch (renewed now ag ttl r) = at_lease_epoch r" "at_agent_id (renewed now ag ttl r) = at_agent_id r"
  "at_state (renewed now ag ttl r) = at_state r" "at_outcome (renewed now ag ttl r) = at_outcome r"
  "at_log_acked_sequence (renewed now ag ttl r) = at_log_acked_sequence r"
  "at_finished_at (renewed now ag ttl r) = at_finished_at r"
  by (simp_all add: renewed_def)

lemma getAttempt_renew:
  "getAttempt b (snd (renewActiveLease now ag ttl s)) = map_option (renewed now ag ttl) (getAttempt b s)"
  unfolding renewActiveLease_def getAttempt_def
  by (simp add: sql_get_update_any renewed_def [abs_def])

lemma renew_attempts: "snd (renewActiveLease now ag ttl s) = s\<lparr>job_attempts := map (renewed now ag ttl) (job_attempts s)\<rparr>"
  by (simp add: renewActiveLease_def sql_update_def renewed_def [abs_def])

lemma wf_renew: "db_wf s \<longrightarrow> db_wf (snd (renewActiveLease now ag ttl s))"
  by (simp add: renew_attempts db_wf_def attempts_wf_def jobs_wf_def events_wf_def comp_def image_image)

lemma log_frame_renew: "log_frame s (snd (renewActiveLease now ag ttl s))"
  by (rule log_frameI) (auto simp: getAttempt_renew, simp add: renew_attempts memory_of_def)

text \<open>A relation kept by all operations and by renewal and reconnection is kept by every step.\<close>

locale remote_steps = remote_all R A for R :: "'z remote_state_scheme \<Rightarrow> 'z remote_state_scheme \<Rightarrow> bool" and A +
  assumes s_renew: "R s (snd (renewActiveLease now ag ttl s))"
    and s_connect: "R s (s\<lparr>connectedAgents := ca\<rparr>)"
begin

lemmas s_rules =
  s_renew s_connect obeysD [OF r_message] obeysD [OF r_sourceNeedBegin [OF every]] obeysD [OF r_bundleFinish [OF every]]
  obeysD [OF r_fallbackFinish [OF every]] obeysD [OF r_artifactFinish] obeysD [OF r_cleanupFinish [OF every]]
  obeysD [OF r_enqueue] obeysD [OF r_chainBegin] obeysD [OF r_chainFinish] obeysD [OF r_initiate [OF every]]
  obeysD [OF r_cancel] obeysD [OF r_expire [OF every]]

lemma s_step: "remote_step env s t \<Longrightarrow> R s t"
  by (induction rule: remote_step.induct) (rule s_rules)+

lemma s_steps: "(remote_step env)\<^sup>*\<^sup>* s t \<Longrightarrow> R s t"
  by (rule rtranclp_step [OF s_step])

end

interpretation adv_steps: remote_steps leases_advance "\<lambda>_. True"
  by unfold_locales (simp_all add: leases_advance_def getAttempt_renew)

interpretation wf_steps: remote_steps "\<lambda>s t. db_wf s \<longrightarrow> db_wf t" "\<lambda>_. True"
  by unfold_locales (use wf_renew in auto)

lemma load_getAttempt:
  assumes "db_wf s" and "loadAttemptByLease p s = Some r"
  shows "getAttempt (lr_attempt_id p) s = Some r"
proof -
  from assms(2) have r: "r \<in> set (job_attempts s)" "at_id r = lr_attempt_id p"
    by (auto simp: loadAttemptByLease_def dest: sql_get_Some)
  then obtain r' where r': "getAttempt (lr_attempt_id p) s = Some r'"
    using getAttempt_mem [of "lr_attempt_id p" s] by (cases "getAttempt (lr_attempt_id p) s") force+
  then have "r' \<in> set (job_attempts s)" "at_id r' = lr_attempt_id p"
    by (auto simp: getAttempt_def dest: sql_get_Some)
  with r assms(1) have "r = r'"
    by (auto simp: db_wf_def attempts_wf_def distinct_map inj_on_def)
  with r' show ?thesis by simp
qed

text \<open>
  (C2) A lease epoch that has passed stays fenced for ever: once an attempt's epoch is beyond the
  epoch a message carries (after \<open>lease_reject\<close>, for instance, which bumps it), no sequence of
  Controller steps, in any interleaving, leads to a state in which that message has an effect, from
  whichever Agent it comes. A partitioned Agent that comes back with an old lease cannot act.
\<close>

theorem old_epoch_fenced_forever:
  assumes "db_wf s" and "getAttempt (lr_attempt_id p) s = Some r" and "lr_lease_epoch p < at_lease_epoch r"
    and "(remote_step env)\<^sup>*\<^sup>* s t"
  shows "handle_job_message env now io agentId p m t = (Inr (), t)"
proof (rule fenced_message)
  from adv_steps.s_steps [OF assms(4)] assms(2) obtain r' where
    r': "getAttempt (lr_attempt_id p) t = Some r'" "at_lease_epoch r \<le> at_lease_epoch r'"
    unfolding leases_advance_def by blast
  have wf: "db_wf t" using wf_steps.s_steps [OF assms(4)] assms(1) by blast
  show "\<not> holds_lease now agentId p t"
  proof
    assume "holds_lease now agentId p t"
    then obtain r'' where r'': "loadAttemptByLease p t = Some r''" by (auto simp: holds_lease_def split: option.splits)
    with load_getAttempt [OF wf r''] r'(1) have "r'' = r'" by simp
    moreover have "at_lease_epoch r'' = lr_lease_epoch p"
      using r'' by (auto simp: loadAttemptByLease_def dest: sql_get_Some)
    ultimately show False using r'(2) assms(3) by simp
  qed
qed

section \<open>Completed attempts\<close>

definition completed_kept :: "'z controller_db_scheme \<Rightarrow> 'z controller_db_scheme \<Rightarrow> bool" where
  "completed_kept s t =
     (\<forall>a r. getAttempt a s = Some r \<longrightarrow> at_state r = Completed \<longrightarrow>
        (\<exists>r'. getAttempt a t = Some r' \<and> at_state r' = Completed \<and> at_outcome r' = at_outcome r \<and>
              at_finished_at r' = at_finished_at r))"

interpretation kept: step_relation completed_kept
  by unfold_locales (fastforce simp: completed_kept_def)+

text \<open>The log path changes nothing of an attempt but how far its log is acknowledged.\<close>

definition acked_only :: "'z controller_db_scheme \<Rightarrow> 'z controller_db_scheme \<Rightarrow> bool" where
  "acked_only s t = (\<forall>a r. getAttempt a s = Some r \<longrightarrow> (\<exists>q. getAttempt a t = Some (r\<lparr>at_log_acked_sequence := q\<rparr>)))"

lemma acked_only_same: "(\<And>a. getAttempt a t = getAttempt a s) \<Longrightarrow> acked_only s t"
  unfolding acked_only_def by (metis attempt_row.surjective attempt_row.update_convs(13))

lemma acked_only_update: "acked_only s (snd (updateAttempt a [AF_log_acked_sequence q] s))"
  unfolding acked_only_def
proof (intro allI impI)
  fix b r assume "getAttempt b s = Some r"
  then show "\<exists>q'. getAttempt b (snd (updateAttempt a [AF_log_acked_sequence q] s)) = Some (r\<lparr>at_log_acked_sequence := q'\<rparr>)"
    by (cases "b = a")
      (auto simp: getAttempt_update no_agent_field_def set_attempt_row_def
        intro: exI [of _ q] exI [of _ "at_log_acked_sequence r"])
qed

interpretation acked: log_path_all acked_only "\<lambda>_. True"
proof unfold_locales
  show "acked_only s u" if "acked_only s t" "acked_only t u" for s t u :: "'z remote_state_scheme"
    using that unfolding acked_only_def by (metis attempt_row.update_convs(13) attempt_row.surjective)
qed (auto intro: acked_only_same acked_only_update simp: obeys_def)

lemma acked_only_completed: "acked_only s t \<Longrightarrow> completed_kept s t"
  by (fastforce simp: acked_only_def completed_kept_def)

lemma frame_completed:
  assumes "attempt_frame a s t" and "\<And>r. getAttempt a s = Some r \<Longrightarrow> at_state r \<noteq> Completed"
  shows "completed_kept s t"
  unfolding completed_kept_def
proof (intro allI impI)
  fix b r assume r: "getAttempt b s = Some r" "at_state r = Completed"
  with assms(2) have "b \<noteq> a" by auto
  with assms(1) r have "getAttempt b t = Some r" by (simp add: attempt_frame_def)
  with r show "\<exists>r'. getAttempt b t = Some r' \<and> at_state r' = Completed \<and> at_outcome r' = at_outcome r \<and>
      at_finished_at r' = at_finished_at r" by simp
qed

lemma live_attempt_row:
  assumes "db_wf s" and "live_attempt now ag p states s = Some r"
  shows "getAttempt (lr_attempt_id p) s = Some r"
  using assms by (auto simp: live_attempt_def rejectStale_def intro: load_getAttempt split: option.splits if_splits)

lemma handler_completed:
  assumes "db_wf s" and "live_attempt now ag p states s = None \<Longrightarrow> snd (h s) = s"
    and "obeys (attempt_frame (lr_attempt_id p)) h" and "Completed \<notin> set states"
  shows "completed_kept s (snd (h s))"
proof (cases "live_attempt now ag p states s")
  case None
  with assms(2) show ?thesis by (simp add: kept.R_refl)
next
  case (Some r)
  have "at_state r \<noteq> Completed" using live_attempt_facts(7) [OF Some] assms(4) by auto
  with live_attempt_row [OF assms(1) Some] show ?thesis
    by (intro frame_completed [OF obeysD [OF assms(3)]]) simp
qed

lemma noop:
  "live_attempt now ag p [Leasing] s = None \<Longrightarrow> snd (handleRemoteLeaseAccept env now ag p s) = s"
  "live_attempt now ag p [Leasing] s = None \<Longrightarrow> snd (handleRemoteLeaseReject env now ag p w s) = s"
  "live_attempt now ag p [Preparing_source] s = None \<Longrightarrow> snd (handleRemoteSourceNeed env now bnd arc ag p sw s) = s"
  "live_attempt now ag p [Preparing_source] s = None \<Longrightarrow> snd (handleRemoteSourceReady now ag p s) = s"
  "live_attempt now ag p [Running] s = None \<Longrightarrow> snd (handleRemoteJobStarted env now ag p pid s) = s"
  "live_attempt now ag p [Leasing, Preparing_source, Running, Orphaned, Collecting_artifacts] s = None
     \<Longrightarrow> snd (handleRemoteJobExit now ag p jx s) = s"
  "live_attempt now ag p [Collecting_artifacts] s = None \<Longrightarrow> snd (handleRemoteArtifactManifest now ag p arts coll s) = s"
  "live_attempt now ag p [Collecting_artifacts] s = None \<Longrightarrow> snd (cleanupComplete_finish now ag p x s) = s"
  by (simp_all add: handleRemoteLeaseAccept_def handleRemoteLeaseReject_def handleRemoteSourceNeed_def
      handleRemoteSourceNeed_begin_def handleRemoteSourceReady_def handleRemoteJobStarted_def
      handleRemoteJobExit_def handleRemoteArtifactManifest_def cleanupComplete_finish_def guarded_def bind_apply)

lemma cleanup_completed:
  assumes "db_wf s"
  shows "completed_kept s (snd (handleRemoteCleanupComplete now ok ag p x s))"
proof (cases "live_attempt now ag p [Collecting_artifacts] s")
  case None
  then show ?thesis by (simp add: handleRemoteCleanupComplete_def guarded_def kept.R_refl)
next
  case (Some r)
  let ?t = "snd (drainRemoteLogChunks now ok (at_id r) s)"
  have "completed_kept s ?t" by (intro acked_only_completed obeysD [OF acked.r_drain])
  moreover have wft: "db_wf ?t" using obeysD [OF wf.r_drain] assms by blast
  have "completed_kept ?t (snd (cleanupComplete_finish now ag p x ?t))"
    by (rule handler_completed [OF wft noop(8) frm.r_cleanupFinish [OF refl]], assumption) simp
  ultimately have "completed_kept s (snd (cleanupComplete_finish now ag p x ?t))" by (rule kept.R_trans)
  with Some show ?thesis
    by (simp add: handleRemoteCleanupComplete_def guarded_def bind_apply drainRemoteLogChunks_def)
qed

lemma message_completed:
  assumes "db_wf s"
  shows "completed_kept s (snd (handle_job_message env now io ag p m s))"
proof (cases m)
  case M_lease_accept
  show ?thesis unfolding M_lease_accept handle_job_message.simps
    by (rule handler_completed [OF assms noop(1) frm.r_leaseAccept [OF refl]], assumption) simp
next
  case (M_lease_reject w)
  show ?thesis unfolding M_lease_reject handle_job_message.simps
    by (rule handler_completed [OF assms noop(2) frm.r_leaseReject [OF refl]], assumption) simp
next
  case (M_source_need w)
  show ?thesis unfolding M_source_need handle_job_message.simps
    by (rule handler_completed [OF assms noop(3) frm.r_sourceNeed [OF refl]], assumption) simp
next
  case M_source_ready
  show ?thesis unfolding M_source_ready handle_job_message.simps
    by (rule handler_completed [OF assms noop(4) frm.r_sourceReady [OF refl]], assumption) simp
next
  case (M_job_started pid)
  show ?thesis unfolding M_job_started handle_job_message.simps
    by (rule handler_completed [OF assms noop(5) frm.r_jobStarted [OF refl]], assumption) simp
next
  case (M_log_chunk st q b)
  then show ?thesis by (auto intro: acked_only_completed obeysD [OF acked.r_chunk])
next
  case (M_job_exit x)
  show ?thesis unfolding M_job_exit handle_job_message.simps
    by (rule handler_completed [OF assms noop(6) frm.r_jobExit [OF refl]], assumption) simp
next
  case (M_artifact_manifest arts coll)
  show ?thesis unfolding M_artifact_manifest handle_job_message.simps
    by (rule handler_completed [OF assms noop(7) frm.r_artifactManifest [OF refl]], assumption) simp
next
  case (M_cleanup_complete x)
  then show ?thesis using cleanup_completed [OF assms] by simp
qed

text \<open>Operations that touch the attempts of a set only.\<close>

definition frame_outside :: "string set \<Rightarrow> 'z controller_db_scheme \<Rightarrow> 'z controller_db_scheme \<Rightarrow> bool" where
  "frame_outside I s t = (\<forall>b. b \<notin> I \<longrightarrow> getAttempt b t = getAttempt b s)"

interpretation outside: step_relation "frame_outside I" for I
  by unfold_locales (auto simp: frame_outside_def)

lemma outside_frame: "a \<in> I \<Longrightarrow> obeys (attempt_frame a) m \<Longrightarrow> obeys (frame_outside I) m"
  by (auto simp: obeys_def frame_outside_def attempt_frame_def)

lemma expire_outside:
  "frame_outside (at_id ` set (sql_all (expired_row now) (job_attempts s))) s (snd (expireStaleLeases now s))"
proof -
  let ?rows = "sql_all (expired_row now) (job_attempts s)"
  have "obeys (frame_outside (at_id ` set ?rows)) (for_each ?rows (\<lambda>row.
      bind (transitionAttemptState (at_id row) Completed [AF_outcome (Some Failed), AF_finished_at (Some now)]) (\<lambda>_.
      bind (transitionJobState now (at_job_id row) Completed
              [JF_outcome (Some Failed), JF_finished_at now, JF_failure_category (Some Agent_disconnected),
               JF_failure_message (Some ''Lease expired during remote execution'')]) (\<lambda>_. ret ()))))"
  proof (rule outside.obeys_for_each)
    fix row assume "row \<in> set ?rows"
    then have "at_id row \<in> at_id ` set ?rows" by simp
    then show "obeys (frame_outside (at_id ` set ?rows))
        (bind (transitionAttemptState (at_id row) Completed [AF_outcome (Some Failed), AF_finished_at (Some now)]) (\<lambda>_.
         bind (transitionJobState now (at_job_id row) Completed
              [JF_outcome (Some Failed), JF_finished_at now, JF_failure_category (Some Agent_disconnected),
               JF_failure_message (Some ''Lease expired during remote execution'')]) (\<lambda>_. ret ())))"
      by (rule outside_frame) (intro frame_intros)
  qed
  from obeysD [OF this, of s] show ?thesis by (simp add: expireStaleLeases_def)
qed

lemma expire_completed:
  assumes "db_wf s"
  shows "completed_kept s (snd (expireStaleLeases now s))"
  unfolding completed_kept_def
proof (intro allI impI)
  fix a r assume r: "getAttempt a s = Some r" "at_state r = Completed"
  have "a \<notin> at_id ` set (sql_all (expired_row now) (job_attempts s))"
  proof
    assume "a \<in> at_id ` set (sql_all (expired_row now) (job_attempts s))"
    then obtain r' where r': "r' \<in> set (job_attempts s)" "expired_row now r'" "at_id r' = a"
      by (auto simp: sql_all_def)
    from r(1) have "r \<in> set (job_attempts s)" "at_id r = a" by (auto simp: getAttempt_def dest: sql_get_Some)
    with r' assms have "r = r'" by (auto simp: db_wf_def attempts_wf_def distinct_map inj_on_def)
    with r'(2) r(2) show False by (simp add: expired_row_def)
  qed
  with expire_outside [of now s] r(1) have "getAttempt a (snd (expireStaleLeases now s)) = Some r"
    by (simp add: frame_outside_def)
  with r show "\<exists>r'. getAttempt a (snd (expireStaleLeases now s)) = Some r' \<and> at_state r' = Completed \<and>
      at_outcome r' = at_outcome r \<and> at_finished_at r' = at_finished_at r" by simp
qed

lemma insert_completed: "completed_kept s (snd (insertAttempt row s))"
  by (auto simp: completed_kept_def insertAttempt_def getAttempt_def sql_get_append)

lemma initiate_completed: "completed_kept s (snd (initiateRemoteAttempt now l a j ag tp s))"
proof -
  have jobs: "obeys completed_kept (transitionJobState now j st [])" for st
    by (simp add: obeys_def completed_kept_def getAttempt_def)
  have send: "obeys completed_kept (sendWsFrame c a l e pl)" for c e pl
    by (auto simp: obeys_def completed_kept_def sendWsFrame_def)
  have ins: "obeys completed_kept (insertAttempt row)" for row :: attempt_row
    by (simp add: obeys_def insert_completed)
  note body = obeysD [OF kept.obeys_bind [OF ins kept.obeys_bind [OF jobs kept.obeys_bind [OF send kept.obeys_ret]]]]
  show ?thesis
    unfolding initiateRemoteAttempt_def Let_def
    by (auto simp: kept.R_refl intro!: body split: option.split)
qed


section \<open>A concrete controller\<close>

text \<open>One connected Agent, one job with its snapshot, one attempt of it: the inputs of the witnesses.\<close>

definition demo_request :: job_request where
  "demo_request =
     \<lparr>rqst_client_request_id = ''req'', rqst_name = None,
      rqst_source = \<lparr>src_project_root = ''/p'', src_cwd = ''.'', src_additional_roots = []\<rparr>,
      rqst_execution = \<lparr>ex_shell = None, ex_script = ''make'', ex_env = [], ex_secret_refs = None,
         ex_timeout_seconds = 60, ex_idle_timeout_seconds = None, ex_cancel_grace_seconds = None,
         ex_cleanup_script = None, ex_cleanup_timeout_seconds = 30, ex_tty = False, ex_completion = Run_to_exit\<rparr>,
      rqst_requirements = None, rqst_preferences = None, rqst_queue_policy = Some Wait, rqst_risk_level = None,
      rqst_intent = None, rqst_source_policy = None, rqst_artifacts = None\<rparr>"

definition demo_job :: "run_state \<Rightarrow> job_row" where
  "demo_job st =
     \<lparr>jb_id = ''j'', jb_client_id = ''c'', jb_client_request_id = ''req'', jb_name = None, jb_state = st,
      jb_outcome = None, jb_created_at = 0, jb_updated_at = 0, jb_queued_at = Some 0, jb_started_at = None,
      jb_finished_at = None, jb_snapshot_id = Some ''s'', jb_request = demo_request, jb_result_json = None,
      jb_exit_code = None, jb_failure_category = None, jb_failure_message = None\<rparr>"

definition demo_snapshot :: snapshot_row where
  "demo_snapshot =
     \<lparr>sn_id = ''s'', sn_content_id = ''c'', sn_repo_id = ''r'', sn_base_commit = None, sn_dirty = False,
      sn_manifest_path = ''m'', sn_payload_path = Some ''p'', sn_size_bytes = Some 5, sn_sha256 = Some ''h'',
      sn_created_at = 0\<rparr>"

definition demo_agent :: agent_row where
  "demo_agent =
     \<lparr>ag_id = ''g'', ag_display_name = ''g'', ag_hostname = None, ag_state = ''idle'', ag_priority = 0, ag_max_jobs = 1,
      ag_capabilities = None, ag_last_seen_at = None, ag_paired_at = 0, ag_disabled_at = None,
      ag_device_public_key = None, ag_device_thumbprint = None, ag_credential_version = 1, ag_revoked_at = None,
      ag_last_boot_id = None\<rparr>"

definition demo_attempt :: "run_state \<Rightarrow> job_outcome option \<Rightarrow> int \<Rightarrow> attempt_row" where
  "demo_attempt st oc epoch =
     (blank_attempt ''a'' ''j'' 1 ''l'' epoch st)
       \<lparr>at_agent_id := Some ''g'', at_lease_deadline := Some 1000, at_outcome := oc\<rparr>"

definition demo_state :: "run_state \<Rightarrow> job_outcome option \<Rightarrow> int \<Rightarrow> remote_state" where
  "demo_state st oc epoch =
     \<lparr>in_transaction = False, bound_notifier = None, unbound_managed = False, woken = [],
      agents = [demo_agent], jobs = [demo_job st], job_attempts = [demo_attempt st oc epoch], job_events = [],
      snapshots = [demo_snapshot],
      connectedAgents = [(''g'', \<lparr>cn_socket = 1, cn_open = True, cn_lastHeartbeatAt = 0, cn_connectionHost = None\<rparr>)],
      ws_sent = [], log_files = [], live_hub = empty_hub, artifactExpectations = [], logChunkChains = [], log_writing = []\<rparr>"

definition demo_lease :: "int \<Rightarrow> lease_ref" where
  "demo_lease epoch = \<lparr>lr_attempt_id = ''a'', lr_lease_id = ''l'', lr_lease_epoch = epoch\<rparr>"

definition demo_env :: remote_env where
  "demo_env =
     \<lparr>re_jwt = unary_env, re_identity = \<lparr>id_controllerId = ''ctl'', id_signingPrivateKeyPem = ''k'', id_signingPublicKeyPem = ''k''\<rparr>,
      re_serverPort = 7411, re_controllerPublicHost = None, re_dataPlaneBaseUrl = None, re_defaultQueuePolicy = None,
      re_isAssigned = (\<lambda>_. True), re_readManifest = (\<lambda>_. None), re_processIdentity = (\<lambda>_. None), re_num_str = (\<lambda>_. [])\<rparr>"

definition demo_io :: io_results where
  "demo_io = \<lparr>io_ok = True, io_bundle = (\<lambda>_ _. Inl ''e''), io_archive = (\<lambda>_. Inr None)\<rparr>"

lemmas demo_defs = demo_state_def demo_attempt_def demo_job_def demo_snapshot_def demo_agent_def demo_lease_def blank_attempt_def

lemma demo_wf: "db_wf (demo_state st oc epoch)"
  by (simp add: demo_defs db_wf_def attempts_wf_def jobs_wf_def events_wf_def)

lemma demo_getAttempt [simp]: "getAttempt ''a'' (demo_state st oc epoch) = Some (demo_attempt st oc epoch)"
  by (simp add: demo_defs getAttempt_def)

theorem stale_message_has_no_effect_witness:
  "handle_job_message demo_env 500 demo_io ''other'' (demo_lease 1) M_source_ready (demo_state Running None 1)
     = (Inr (), demo_state Running None 1)"
  by (rule stale_message_has_no_effect)
    (simp add: holds_lease_def loadAttemptByLease_def demo_defs)

theorem old_epoch_fenced_forever_witness:
  "let t = snd (expireStaleLeases 2000 (demo_state Running None 2)) in
   handle_job_message demo_env 500 demo_io ''g'' (demo_lease 1) (M_job_started (Some 7)) t = (Inr (), t)"
proof -
  let ?s = "demo_state Running None 2"
  have "(remote_step demo_env)\<^sup>*\<^sup>* ?s (snd (expireStaleLeases 2000 ?s))"
    by (intro r_into_rtranclp rs_expire)
  then show ?thesis
    unfolding Let_def
    by (rule old_epoch_fenced_forever [OF demo_wf, of "demo_lease 1" Running None 2 "demo_attempt Running None 2", rotated 2])
      (simp_all add: demo_lease_def, simp add: demo_attempt_def blank_attempt_def)
qed


text \<open>
  The second half of \<open>handleRemoteSourceNeed\<close> does not look at the attempt again: if the attempt was
  declared lost while git was writing the bundle, a failing bundle turns the outcome into \<open>failed\<close>.
\<close>

theorem sourceNeed_finish_overwrites:
  "let s = demo_state Completed (Some Lost) 1;
       t = snd (sourceNeed_bundle_finish demo_env 500 ''g'' (demo_lease 1) (demo_attempt Preparing_source None 1)
                  \<lparr>cn_socket = 1, cn_open = True, cn_lastHeartbeatAt = 0, cn_connectionHost = None\<rparr> (Inl ''e'') s)
   in map_option at_outcome (getAttempt ''a'' s) = Some (Some Lost) \<and>
      map_option at_outcome (getAttempt ''a'' t) = Some (Some Failed)"
  by (simp add: sourceNeed_bundle_finish_def failAttemptPrepare_def bind_apply transitionAttemptState_def
      transitionJobState_def Let_def getAttempt_def getJob_def demo_defs sql_update_def set_attempt_row_def set_job_row_def
      assertJobLifecycleWriteAllowed_def snapshot_fk_broken_def notifyJobLifecycleChanged_def with_notifier_def)

end
