(* ===== verification/Log_Ingest.thy ===== *)
theory Log_Ingest
  imports Remote_Safety
begin

text \<open>
  The log path across every interleaving of Controller steps: the durable log of an attempt holds
  exactly the chunks up to the acknowledged position, and an acknowledgement is only sent for a chunk
  that is durable. The Agent deletes a chunk from its spool when it is acknowledged, so this is what
  keeps remote logs complete.
\<close>

section \<open>The invariant\<close>

definition log_complete :: "string \<Rightarrow> 'z remote_state_scheme \<Rightarrow> bool" where
  "log_complete a s =
     (case getAttempt a s of
        None \<Rightarrow> logs_of a s = empty_logs
      | Some r \<Rightarrow> \<exists>cs. log_holds (logs_of a s) cs \<and> map fst cs = [1..at_log_acked_sequence r] \<and> 0 \<le> at_log_acked_sequence r)"

definition writer_ok :: "string \<Rightarrow> 'z remote_state_scheme \<Rightarrow> bool" where
  "writer_ok a s =
     (case map_of (log_writing s) a of
        None \<Rightarrow> True
      | Some att \<Rightarrow> at_id att = a \<and>
          (\<exists>ag pl rest r. chain_of a s = (ag, pl) # rest \<and> getAttempt a s = Some r \<and>
                          lc_sequence pl = at_log_acked_sequence r + 1))"

definition chain_ok :: "string \<Rightarrow> 'z remote_state_scheme \<Rightarrow> bool" where
  "chain_ok a s = (\<forall>(ag, pl) \<in> set (chain_of a s). lr_attempt_id (lc_lease pl) = a)"

definition ack_ok :: "'z remote_state_scheme \<Rightarrow> ws_frame \<Rightarrow> bool" where
  "ack_ok s fr = (\<forall>q. fr_payload fr = Log_ack q \<longrightarrow>
     (\<exists>r. getAttempt (fr_attempt_id fr) s = Some r \<and> q \<le> at_log_acked_sequence r))"

definition log_inv :: "'z remote_state_scheme \<Rightarrow> bool" where
  "log_inv s = (db_wf s \<and> (\<forall>a. log_complete a s \<and> writer_ok a s \<and> chain_ok a s) \<and> (\<forall>fr \<in> set (ws_sent s). ack_ok s fr))"

lemma log_invI:
  assumes "db_wf s" "\<And>a. log_complete a s" "\<And>a. writer_ok a s" "\<And>a. chain_ok a s" "\<And>fr. fr \<in> set (ws_sent s) \<Longrightarrow> ack_ok s fr"
  shows "log_inv s"
  using assms by (simp add: log_inv_def)

lemma log_invD:
  assumes "log_inv s"
  shows "db_wf s" "log_complete a s" "writer_ok a s" "chain_ok a s" "fr \<in> set (ws_sent s) \<Longrightarrow> ack_ok s fr"
  using assms by (simp_all add: log_inv_def)

section \<open>Steps outside the log path\<close>

lemma log_frame_logs: "log_frame s t \<Longrightarrow> logs_of a t = logs_of a s \<and> chain_of a t = chain_of a s"
  by (simp add: log_frame_def logs_of_def chain_of_def)

lemma log_frame_complete: "log_frame s t \<Longrightarrow> log_complete a s \<Longrightarrow> log_complete a t"
proof -
  assume fr: "log_frame s t" and c: "log_complete a s"
  note logs = log_frame_logs [OF fr, of a]
  show ?thesis
  proof (cases "getAttempt a s")
    case None
    then have "getAttempt a t = Some r \<Longrightarrow> at_log_acked_sequence r = 0" for r
      using fr unfolding log_frame_def by blast
    with None c logs log_holds_empty show ?thesis
      by (auto simp: log_complete_def intro!: exI [of _ "[]"] split: option.splits)
  next
    case (Some r)
    with fr obtain r' where "getAttempt a t = Some r'" "at_log_acked_sequence r' = at_log_acked_sequence r"
      unfolding log_frame_def by blast
    with Some c logs show ?thesis by (simp add: log_complete_def)
  qed
qed

lemma log_frame_writer:
  assumes fr: "log_frame s t" and w: "writer_ok a s"
  shows "writer_ok a t"
proof (cases "map_of (log_writing s) a")
  case None
  with fr show ?thesis by (simp add: writer_ok_def log_frame_def)
next
  case (Some att)
  with w obtain ag pl rest r where s: "at_id att = a" "chain_of a s = (ag, pl) # rest" "getAttempt a s = Some r"
      "lc_sequence pl = at_log_acked_sequence r + 1"
    by (auto simp: writer_ok_def)
  with fr obtain r' where "getAttempt a t = Some r'" "at_log_acked_sequence r' = at_log_acked_sequence r"
    unfolding log_frame_def by blast
  with s log_frame_logs [OF fr, of a] fr Some show ?thesis by (simp add: writer_ok_def log_frame_def)
qed

lemma log_frame_ack:
  assumes fr: "log_frame s t" and a: "ack_ok s f"
  shows "ack_ok t f"
  unfolding ack_ok_def
proof (intro allI impI)
  fix q assume "fr_payload f = Log_ack q"
  with a obtain r where "getAttempt (fr_attempt_id f) s = Some r" "q \<le> at_log_acked_sequence r"
    unfolding ack_ok_def by blast
  moreover from this fr obtain r' where "getAttempt (fr_attempt_id f) t = Some r'"
      "at_log_acked_sequence r' = at_log_acked_sequence r"
    unfolding log_frame_def by blast
  ultimately show "\<exists>r. getAttempt (fr_attempt_id f) t = Some r \<and> q \<le> at_log_acked_sequence r" by auto
qed

lemma log_inv_frame:
  assumes inv: "log_inv s" and fr: "log_frame s t" and wf: "db_wf t"
  shows "log_inv t"
proof (rule log_invI)
  show "chain_ok a t" for a using log_invD(4) [OF inv] log_frame_logs [OF fr, of a] by (simp add: chain_ok_def)
  show "ack_ok t f" if "f \<in> set (ws_sent t)" for f
  proof (cases "f \<in> set (ws_sent s)")
    case True
    then show ?thesis using log_frame_ack [OF fr log_invD(5) [OF inv]] by blast
  next
    case False
    with fr that have "not_ack (fr_payload f)" unfolding log_frame_def by blast
    then show ?thesis by (simp add: ack_ok_def not_ack_def)
  qed
qed (use assms log_frame_complete log_frame_writer log_invD in blast)+

section \<open>Steps of the log path\<close>

lemma chain_of_set_chain [simp]: "chain_of a (set_chain k c s) = (if a = k then c else chain_of a s)"
  by (auto simp: chain_of_def set_chain_def map_of_map_set map_of_map_delete)

lemma set_chain_same [simp]:
  "log_files (set_chain k c s) = log_files s" "log_writing (set_chain k c s) = log_writing s"
  "ws_sent (set_chain k c s) = ws_sent s" "getAttempt a (set_chain k c s) = getAttempt a s"
  "db_wf (set_chain k c s) = db_wf s" "logs_of a (set_chain k c s) = logs_of a s"
  by (simp_all add: set_chain_def logs_of_def)

lemma chain_of_memory [simp]:
  "chain_of a (s\<lparr>log_writing := w\<rparr>) = chain_of a s" "chain_of a (s\<lparr>ws_sent := x\<rparr>) = chain_of a s"
  "logs_of a (s\<lparr>log_writing := w\<rparr>) = logs_of a s" "logs_of a (s\<lparr>ws_sent := x\<rparr>) = logs_of a s"
  by (simp_all add: chain_of_def logs_of_def)

lemma enqueue_inv:
  assumes "log_inv s"
  shows "log_inv (snd (enqueueRemoteLogChunk ag pl s))"
proof (rule log_invI)
  let ?t = "snd (enqueueRemoteLogChunk ag pl s)" and ?k = "lr_attempt_id (lc_lease pl)"
  have t: "?t = set_chain ?k (chain_of ?k s @ [(ag, pl)]) s" by (simp add: enqueueRemoteLogChunk_def Let_def)
  note inv = log_invD [OF assms]
  show "db_wf ?t" using inv(1) by (simp add: t)
  show "log_complete a ?t" for a using inv(2) [of a] by (simp add: t log_complete_def split: option.splits)
  show "writer_ok a ?t" for a using inv(3) [of a] by (auto simp: t writer_ok_def split: option.splits)
  show "chain_ok a ?t" for a using inv(4) [of a] by (auto simp: t chain_ok_def)
  show "ack_ok ?t fr" if "fr \<in> set (ws_sent ?t)" for fr using inv(5) [of fr] that by (simp add: t ack_ok_def)
qed

text \<open>Dropping the first chunk of a chain whose handler has finished.\<close>

lemma pop_inv:
  assumes inv: "log_inv s" and c: "chain_of k s = x # rest" and w: "map_of (log_writing s) k = None"
  shows "log_inv (set_chain k rest s)"
proof (rule log_invI)
  note i = log_invD [OF inv]
  show "writer_ok a (set_chain k rest s)" for a
    using i(3) [of a] w by (auto simp: writer_ok_def split: option.splits)
  show "chain_ok a (set_chain k rest s)" for a using i(4) [of a] c by (auto simp: chain_ok_def)
  show "log_complete a (set_chain k rest s)" for a using i(2) [of a] by (simp add: log_complete_def split: option.splits)
  show "ack_ok (set_chain k rest s) fr" if "fr \<in> set (ws_sent (set_chain k rest s))" for fr
    using i(5) [of fr] that by (simp add: ack_ok_def)
qed (use log_invD [OF inv] in simp)

text \<open>Sending frames that are justified.\<close>

definition sends :: "(ws_frame \<Rightarrow> bool) \<Rightarrow> 'z remote_state_scheme \<Rightarrow> 'z remote_state_scheme \<Rightarrow> bool" where
  "sends P s t = (\<exists>fs. t = s\<lparr>ws_sent := ws_sent s @ fs\<rparr> \<and> (\<forall>fr \<in> set fs. P fr))"

lemma sends_refl: "sends P s s"
  unfolding sends_def by (rule exI [of _ "[]"]) simp

lemma sends_one: "P fr \<Longrightarrow> sends P s (s\<lparr>ws_sent := ws_sent s @ [fr]\<rparr>)"
  unfolding sends_def by (rule exI [of _ "[fr]"]) simp

lemma send_ack_sends:
  "sends (\<lambda>fr. fr_attempt_id fr = at_id att \<and> fr_payload fr = Log_ack (lc_sequence pl)) s (snd (send_log_ack ag pl att s))"
  by (cases "map_of (connectedAgents s) ag")
    (simp_all add: send_log_ack_def sendToAgent_def sendWsFrame_def sends_refl sends_one)

lemma send_ack_result [simp]: "fst (send_log_ack ag pl att s) = Inr ()"
  by (cases "map_of (connectedAgents s) ag") (simp_all add: send_log_ack_def sendToAgent_def sendWsFrame_def)

lemma sends_inv:
  assumes inv: "log_inv s" and s: "sends P s t" and P: "\<And>fr. P fr \<Longrightarrow> ack_ok s fr"
  shows "log_inv t"
proof -
  from s obtain fs where t: "t = s\<lparr>ws_sent := ws_sent s @ fs\<rparr>" and fs: "\<forall>fr \<in> set fs. P fr"
    unfolding sends_def by blast
  note i = log_invD [OF inv]
  show ?thesis
  proof (rule log_invI)
    show "ack_ok t fr" if "fr \<in> set (ws_sent t)" for fr
      using that fs P i(5) [of fr] by (auto simp: t ack_ok_def)
    show "log_complete a t" for a using i(2) [of a] by (simp add: t log_complete_def split: option.splits)
    show "writer_ok a t" for a using i(3) [of a] by (auto simp: t writer_ok_def split: option.splits)
    show "chain_ok a t" for a using i(4) [of a] by (simp add: t chain_ok_def)
  qed (use i(1) in \<open>simp add: t\<close>)
qed

lemma begin_inv:
  assumes inv: "log_inv s"
  shows "log_inv (snd (log_chain_begin now k s))"
proof (cases "chain_of k s")
  case Nil
  with inv show ?thesis by (simp add: log_chain_begin_def)
next
  case (Cons x rest)
  obtain ag pl where x: "x = (ag, pl)" by (cases x)
  note i = log_invD [OF inv]
  have key: "lr_attempt_id (lc_lease pl) = k" using i(4) [of k] Cons x by (simp add: chain_ok_def)
  have row: "live_attempt now ag (lc_lease pl) states s = Some att \<Longrightarrow> getAttempt k s = Some att \<and> at_id att = k" for states att
    using live_attempt_row [OF i(1)] live_attempt_facts(2) key by fastforce
  show ?thesis
  proof (cases "map_of (log_writing s) k")
    case None
    show ?thesis
    proof (cases "log_chunk_decision now ag pl s")
      case Chunk_ignored
      with Cons x None pop_inv [OF inv, of k] show ?thesis
        by (simp add: log_chain_begin_def handleRemoteLogChunk_begin_def bind_apply)
    next
      case (Chunk_reacked att)
      then have r: "getAttempt k s = Some att" "at_id att = k" "lc_sequence pl \<le> at_log_acked_sequence att"
        using row by (auto simp: log_chunk_decision_def split: option.splits if_splits)
      obtain t where t: "send_log_ack ag pl att s = (Inr (), t)"
        using send_ack_result [of ag pl att s] by (cases "send_log_ack ag pl att s") simp
      note sent = send_ack_sends [of att pl s ag, unfolded t snd_conv]
      have "log_inv t" by (rule sends_inv [OF inv sent]) (use r in \<open>auto simp: ack_ok_def\<close>)
      moreover have "chain_of k t = x # rest" "map_of (log_writing t) k = None"
        using sent Cons None by (auto simp: sends_def)
      ultimately have "log_inv (set_chain k rest t)" by (rule pop_inv)
      with t show ?thesis using Cons x None Chunk_reacked
        by (simp add: log_chain_begin_def handleRemoteLogChunk_begin_def bind_apply)
    next
      case (Chunk_append att)
      then have r: "getAttempt k s = Some att" "at_id att = k" "lc_sequence pl = at_log_acked_sequence att + 1"
        using row by (auto simp: log_chunk_decision_def split: option.splits if_splits)
      let ?t = "s\<lparr>log_writing := map_set k att (log_writing s)\<rparr>"
      have "log_inv ?t"
      proof (rule log_invI)
        show "writer_ok a ?t" for a
          using i(3) [of a] r Cons x by (auto simp: writer_ok_def map_of_map_set split: option.splits)
        show "log_complete a ?t" for a using i(2) [of a] by (simp add: log_complete_def split: option.splits)
        show "chain_ok a ?t" for a using i(4) [of a] by (simp add: chain_ok_def)
        show "ack_ok ?t fr" if "fr \<in> set (ws_sent ?t)" for fr using i(5) [of fr] that by (simp add: ack_ok_def)
      qed (use i(1) in simp)
      with Cons x None Chunk_append show ?thesis
        by (simp add: log_chain_begin_def handleRemoteLogChunk_begin_def bind_apply)
    qed
  qed (use Cons inv x in \<open>simp add: log_chain_begin_def\<close>)
qed

lemma logs_of_set: "logs_of b (s\<lparr>log_files := map_set a l (log_files s)\<rparr>) = (if b = a then l else logs_of b s)"
  by (simp add: logs_of_def map_of_map_set)

text \<open>The successful second half of a log chunk: what it makes of the state.\<close>

lemma finish_ok:
  fixes ag :: string
  assumes att: "at_id att = k" and row: "getAttempt k s = Some r"
    and app: "appendIndexedLogChunk (lc_stream pl) (lc_bytes pl) (lc_sequence pl) None (logs_of k s) = (Inr x, l)"
  defines "t \<equiv> snd (handleRemoteLogChunk_finish True ag pl att s)"
  shows "getAttempt b t = (if b = k then Some (r\<lparr>at_log_acked_sequence := lc_sequence pl\<rparr>) else getAttempt b s)"
    and "logs_of b t = (if b = k then l else logs_of b s)"
    and "chain_of b t = chain_of b s" and "log_writing t = log_writing s"
    and "fr \<in> set (ws_sent t) \<Longrightarrow> fr \<in> set (ws_sent s) \<or> (fr_attempt_id fr = k \<and> fr_payload fr = Log_ack (lc_sequence pl))"
proof -
  define h where "h = hub_publish \<lparr>le_attempt_id = k, le_sequence = lc_sequence pl, le_stream = lc_stream pl, le_text = snd x\<rparr> (live_hub s)"
  define u where "u = s\<lparr>log_files := map_set k l (log_files s), live_hub := h\<rparr>"
  define v where "v = u\<lparr>job_attempts := sql_update (\<lambda>r. at_id r = k) (set_attempt_row [AF_log_acked_sequence (lc_sequence pl)]) (job_attempts u)\<rparr>"
  have persist: "persistAndPublishLogChunk True k (lc_stream pl) (lc_bytes pl) (lc_sequence pl) s = (Inr (), u)"
    using app by (cases x) (simp add: persistAndPublishLogChunk_def u_def h_def)
  have u_row: "getAttempt k u = Some r" using row by (simp add: u_def)
  have "no_agent_field [AF_log_acked_sequence (lc_sequence pl)]" by (simp add: no_agent_field_def)
  from updateAttempt_existing [OF u_row no_agent_fk [OF this]]
  have upd: "updateAttempt k [AF_log_acked_sequence (lc_sequence pl)] u =
      (Inr (set_attempt_row [AF_log_acked_sequence (lc_sequence pl)] r), v)"
    by (simp add: v_def)
  have t: "t = snd (send_log_ack ag pl att v)"
    using persist att upd by (simp add: t_def handleRemoteLogChunk_finish_def bind_apply)
  from send_ack_sends [of att pl v ag] obtain fs where fs: "t = v\<lparr>ws_sent := ws_sent v @ fs\<rparr>"
      "\<forall>fr \<in> set fs. fr_attempt_id fr = k \<and> fr_payload fr = Log_ack (lc_sequence pl)"
    unfolding sends_def t att by blast
  have v_row: "getAttempt b v = (if b = k then Some (r\<lparr>at_log_acked_sequence := lc_sequence pl\<rparr>) else getAttempt b s)"
    using row by (simp add: v_def getAttempt_sql_update) (simp add: u_def set_attempt_row_def)
  show "getAttempt b t = (if b = k then Some (r\<lparr>at_log_acked_sequence := lc_sequence pl\<rparr>) else getAttempt b s)"
    using v_row by (simp add: fs(1))
  show "logs_of b t = (if b = k then l else logs_of b s)"
    by (simp add: fs(1)) (simp add: v_def u_def logs_of_def map_of_map_set)
  show "chain_of b t = chain_of b s" by (simp add: fs(1)) (simp add: v_def u_def chain_of_def)
  show "log_writing t = log_writing s" by (simp add: fs(1) v_def u_def)
  show "fr \<in> set (ws_sent s) \<or> (fr_attempt_id fr = k \<and> fr_payload fr = Log_ack (lc_sequence pl))" if "fr \<in> set (ws_sent t)"
    using that fs by (auto simp: v_def u_def)
qed

lemma upto_snoc: "0 \<le> n \<Longrightarrow> [1..n + 1] = [1..n] @ [n + 1 :: int]"
  by (simp add: upto_rec2)

lemma last_of_complete: "map fst cs = [1..n] \<Longrightarrow> 0 \<le> n \<Longrightarrow> (if cs = [] then 0 else fst (last cs)) = (n :: int)"
proof (cases "n = 0")
  case False
  assume m: "map fst cs = [1..n]" and "0 \<le> n"
  with False have "[1..n] = [1..n - 1] @ [n]" using upto_snoc [of "n - 1"] by simp
  with m show ?thesis by (metis last_map last_snoc map_is_Nil_conv snoc_eq_iff_butlast)
qed simp

lemma append_complete:
  assumes holds: "log_holds logs cs" and cs: "map fst cs = [1..n]" "0 \<le> n"
    and safe: "isSafeInteger (n + 1)" and room: "int (length (stream_bytes st logs)) + int (length b) \<le> MAX_SAFE_INTEGER"
  obtains x l where "appendIndexedLogChunk st b (n + 1) None logs = (Inr x, l)"
    "log_holds l (cs @ [(n + 1, st, b)])" "map fst (cs @ [(n + 1, st, b)]) = [1..n + 1]"
proof -
  have last: "(if cs = [] then 0 else fst (last cs)) = n" by (rule last_of_complete [OF cs])
  note app = appendIndexedLogChunk_holds [OF holds _ safe room]
  have "\<not> n + 1 \<le> readLastChunkSequence logs" using last_sequence_holds [OF holds] last by simp
  then obtain x where "fst (appendIndexedLogChunk st b (n + 1) None logs) = Inr x"
    by (simp add: appendIndexedLogChunk_def Let_def)
  then show ?thesis
    using app(1) last cs by (intro that [of x "snd (appendIndexedLogChunk st b (n + 1) None logs)"])
      (simp_all add: prod_eq_iff upto_snoc)
qed

lemma finish_inv:
  assumes inv: "log_inv s" and room: "ok \<longrightarrow> log_room k s"
  shows "log_inv (snd (log_chain_finish ok k s))"
proof (cases "map_of (log_writing s) k")
  case None
  with inv show ?thesis by (auto simp: log_chain_finish_def split: list.split)
next
  case (Some att)
  note i = log_invD [OF inv]
  from i(3) [of k] Some obtain ag pl rest r where w: "at_id att = k" "chain_of k s = (ag, pl) # rest"
      "getAttempt k s = Some r" "lc_sequence pl = at_log_acked_sequence r + 1"
    by (auto simp: writer_ok_def)
  let ?t = "snd (handleRemoteLogChunk_finish ok ag pl att s)"
  let ?u = "set_chain k rest (?t\<lparr>log_writing := map_delete k (log_writing ?t)\<rparr>)"
  have res: "snd (log_chain_finish ok k s) = ?u" using w Some by (simp add: log_chain_finish_def Let_def)
  have wf: "db_wf ?u" using obeysD [OF wf.r_chainFinish, of s ok k] i(1) res by simp
  show ?thesis
  proof (cases ok)
    case False
    then have same: "?t = s" by (simp add: handleRemoteLogChunk_finish_def persistAndPublishLogChunk_def bind_apply)
    show ?thesis unfolding res
    proof (rule log_invI [OF wf])
      show "log_complete a ?u" for a using i(2) [of a] by (simp add: same log_complete_def split: option.splits)
      show "writer_ok a ?u" for a
        using i(3) [of a] by (auto simp: same writer_ok_def map_of_map_delete split: option.splits)
      show "chain_ok a ?u" for a using i(4) [of a] w by (auto simp: same chain_ok_def)
      show "ack_ok ?u fr" if "fr \<in> set (ws_sent ?u)" for fr using i(5) [of fr] that by (simp add: same ack_ok_def)
    qed
  next
    case True
    let ?n = "at_log_acked_sequence r"
    from i(2) [of k] w obtain cs where cs: "log_holds (logs_of k s) cs" "map fst cs = [1..?n]" "0 \<le> ?n"
      by (auto simp: log_complete_def)
    from room True w have "isSafeInteger (?n + 1)"
        "int (length (stream_bytes (lc_stream pl) (logs_of k s))) + int (length (lc_bytes pl)) \<le> MAX_SAFE_INTEGER"
      by (auto simp: log_room_def)
    from append_complete [OF cs this] obtain x l where
      app: "appendIndexedLogChunk (lc_stream pl) (lc_bytes pl) (lc_sequence pl) None (logs_of k s) = (Inr x, l)"
      and l: "log_holds l (cs @ [(?n + 1, lc_stream pl, lc_bytes pl)])"
        "map fst (cs @ [(?n + 1, lc_stream pl, lc_bytes pl)]) = [1..?n + 1]"
      using w(4) by auto
    note t = finish_ok [OF w(1,3) app, where ag = ag]
    show ?thesis unfolding res using True
    proof (simp, intro log_invI)
      let ?t = "snd (handleRemoteLogChunk_finish True ag pl att s)"
      let ?u = "set_chain k rest (?t\<lparr>log_writing := map_delete k (log_writing ?t)\<rparr>)"
      show "db_wf ?u" using wf True by simp
      show "log_complete a ?u" for a
        using i(2) [of a] l cs(3) w(4) t(1,2) [of a]
        by (auto simp: log_complete_def intro!: exI [of _ "cs @ [(?n + 1, lc_stream pl, lc_bytes pl)]"] split: option.splits)
      show "writer_ok a ?u" for a
        using i(3) [of a] t(1,3) [of a] t(4) by (auto simp: writer_ok_def map_of_map_delete split: option.splits)
      show "chain_ok a ?u" for a using i(4) [of a] w t(3) [of a] by (auto simp: chain_ok_def)
      show "ack_ok ?u fr" if "fr \<in> set (ws_sent ?u)" for fr
      proof -
        from that t(5) [of fr] consider "fr \<in> set (ws_sent s)" | "fr_attempt_id fr = k" "fr_payload fr = Log_ack (lc_sequence pl)"
          by auto
        then show ?thesis
        proof cases
          case 1
          with i(5) [of fr] w(3,4) t(1) [of "fr_attempt_id fr"] show ?thesis by (fastforce simp: ack_ok_def split: if_splits)
        next
          case 2
          then show ?thesis using t(1) [of k] by (simp add: ack_ok_def)
        qed
      qed
    qed
  qed
qed

section \<open>Every step\<close>

lemma message_log_frame: "atomic_message m \<Longrightarrow> log_frame s (snd (handle_job_message env now io ag p m s))"
  by (cases m)
    (auto intro!: obeysD [OF logf.r_leaseAccept] obeysD [OF logf.r_leaseReject] obeysD [OF logf.r_sourceReady]
      obeysD [OF logf.r_jobStarted] obeysD [OF logf.r_jobExit] obeysD [OF logf.r_artifactManifest])

lemma connections_log_frame: "log_frame s (s\<lparr>connectedAgents := ca\<rparr>)"
  by (auto simp: log_frame_def)

lemma step_log_inv: "remote_step env s t \<Longrightarrow> log_inv s \<Longrightarrow> log_inv t"
proof -
  assume step: "remote_step env s t" and inv: "log_inv s"
  have wf: "db_wf t" using wf_steps.s_step [OF step] log_invD(1) [OF inv] by blast
  note frame = log_inv_frame [OF inv _ wf]
  from step show ?thesis
  proof (cases rule: remote_step.cases)
    case (rs_log_enqueue ag pl) then show ?thesis using enqueue_inv [OF inv] by simp
  next
    case (rs_log_begin now key) then show ?thesis using begin_inv [OF inv] by simp
  next
    case (rs_log_finish ok key) then show ?thesis using finish_inv [OF inv] by simp
  next
    case (rs_message m now io ag p) then show ?thesis using frame message_log_frame by blast
  next
    case (rs_source_begin now ag p w) then show ?thesis using frame obeysD [OF logf.r_sourceNeedBegin] by blast
  next
    case (rs_bundle_finish now ag p att conn b) then show ?thesis using frame obeysD [OF logf.r_bundleFinish] by blast
  next
    case (rs_fallback_finish now ag p att conn fb) then show ?thesis using frame obeysD [OF logf.r_fallbackFinish] by blast
  next
    case (rs_artifact_finish now stored ag p att arts) then show ?thesis using frame obeysD [OF logf.r_artifactFinish] by blast
  next
    case (rs_cleanup_finish now ag p x) then show ?thesis using frame obeysD [OF logf.r_cleanupFinish] by blast
  next
    case (rs_initiate now l a j ag tp) then show ?thesis using frame obeysD [OF logf.r_initiate] by blast
  next
    case (rs_cancel j wh) then show ?thesis using frame obeysD [OF logf.r_cancel] by blast
  next
    case (rs_renew now ag ttl) then show ?thesis using frame log_frame_renew by blast
  next
    case (rs_expire now) then show ?thesis using frame obeysD [OF logf.r_expire] by blast
  next
    case (rs_connections ca) then show ?thesis using frame connections_log_frame by blast
  qed
qed

lemma steps_log_inv: "(remote_step env)\<^sup>*\<^sup>* s t \<Longrightarrow> log_inv s \<Longrightarrow> log_inv t"
  by (induction rule: rtranclp_induct) (auto intro: step_log_inv)

section \<open>Properties\<close>

text \<open>A Controller that has just started: a consistent database, no log written, nothing sent or queued.\<close>

definition fresh_logs :: "'z remote_state_scheme \<Rightarrow> bool" where
  "fresh_logs s = (db_wf s \<and> log_files s = [] \<and> logChunkChains s = [] \<and> log_writing s = [] \<and> ws_sent s = [] \<and>
     (\<forall>r \<in> set (job_attempts s). at_log_acked_sequence r = 0))"

lemma fresh_log_inv: "fresh_logs s \<Longrightarrow> log_inv s"
proof (rule log_invI)
  assume f: "fresh_logs s"
  then show "db_wf s" by (simp add: fresh_logs_def)
  have "getAttempt a s = Some r \<Longrightarrow> at_log_acked_sequence r = 0" for a r
    using f by (auto simp: fresh_logs_def getAttempt_def dest: sql_get_Some)
  then show "log_complete a s" for a
    using f log_holds_empty by (auto simp: log_complete_def logs_of_def fresh_logs_def intro!: exI [of _ "[]"] split: option.split)
qed (simp_all add: fresh_logs_def writer_ok_def chain_ok_def chain_of_def)


text \<open>
  (C4) An acknowledgement means durable: every \<open>log_ack\<close> frame the Controller has ever sent is for a
  chunk its durable log still returns on replay. The Agent may drop an acknowledged chunk from its spool.
\<close>

theorem acknowledged_chunk_is_durable:
  assumes "fresh_logs s" and "(remote_step env)\<^sup>*\<^sup>* s t" and "fr \<in> set (ws_sent t)"
    and "fr_payload fr = Log_ack q" and "0 < q"
  shows "q \<in> set (map fst (iterIndexedChunksAfter (logs_of (fr_attempt_id fr) t) 0))"
proof -
  have inv: "log_inv t" using steps_log_inv [OF assms(2) fresh_log_inv [OF assms(1)]] .
  from log_invD(5) [OF inv assms(3)] assms(4) obtain r where
    r: "getAttempt (fr_attempt_id fr) t = Some r" "q \<le> at_log_acked_sequence r"
    unfolding ack_ok_def by blast
  from log_invD(2) [OF inv, of "fr_attempt_id fr"] r obtain cs where
    cs: "log_holds (logs_of (fr_attempt_id fr) t) cs" "map fst cs = [1..at_log_acked_sequence r]"
    by (auto simp: log_complete_def)
  then have "set (map fst cs) = {1..at_log_acked_sequence r}" by simp
  with r(2) assms(5) have "q \<in> fst ` set cs" by auto
  then obtain c where "c \<in> set cs" "fst c = q" by auto
  with assms(5) show ?thesis using replay_holds [OF cs(1), of 0] by force
qed

text \<open>One chunk through the whole path.\<close>

definition demo_log_state :: remote_state where
  "demo_log_state =
     snd (log_chain_finish True ''a'' (snd (log_chain_begin 500 ''a'' (snd (enqueueRemoteLogChunk ''g''
       \<lparr>lc_lease = demo_lease 1, lc_stream = Stdout, lc_sequence = 1, lc_bytes = ''hi''\<rparr> (demo_state Running None 1))))))"

definition demo_ack :: ws_frame where
  "demo_ack = \<lparr>fr_socket = 1, fr_attempt_id = ''a'', fr_lease_id = ''l'', fr_lease_epoch = 1, fr_payload = Log_ack 1\<rparr>"

lemma demo_fresh: "fresh_logs (demo_state Running None 1)"
  by (simp add: fresh_logs_def demo_wf) (simp add: demo_defs)

lemma demo_log_steps: "(remote_step demo_env)\<^sup>*\<^sup>* (demo_state Running None 1) demo_log_state"
proof -
  let ?s = "demo_state Running None 1"
  let ?c = "\<lparr>lc_lease = demo_lease 1, lc_stream = Stdout, lc_sequence = 1, lc_bytes = ''hi''\<rparr>"
  let ?t = "snd (enqueueRemoteLogChunk ''g'' ?c ?s)"
  let ?u = "snd (log_chain_begin 500 ''a'' ?t)"
  have "remote_step demo_env ?s ?t" by (rule rs_log_enqueue)
  moreover have "remote_step demo_env ?t ?u" by (rule rs_log_begin)
  moreover have "log_room ''a'' ?u" by code_simp
  then have "remote_step demo_env ?u demo_log_state" unfolding demo_log_state_def by (intro rs_log_finish) simp
  ultimately show ?thesis by (meson rtranclp.rtrancl_into_rtrancl rtranclp.rtrancl_refl)
qed


theorem acknowledged_chunk_is_durable_witness:
  "1 \<in> set (map fst (iterIndexedChunksAfter (logs_of ''a'' demo_log_state) 0))"
proof -
  have "ws_sent demo_log_state = [demo_ack]" by code_simp
  then have "demo_ack \<in> set (ws_sent demo_log_state)" by simp
  from acknowledged_chunk_is_durable [OF demo_fresh demo_log_steps this, of 1] show ?thesis by (simp add: demo_ack_def)
qed

end
