(* ===== verification/Remote_Lifecycle.thy ===== *)
theory Remote_Lifecycle
  imports Remote_Safety
begin

text \<open>
  How a remote attempt begins and ends: the lease offer of \<open>initiateRemoteAttempt\<close> and the final
  transition of \<open>handleRemoteCleanupComplete\<close>.
\<close>

section \<open>Successful calls\<close>

lemma transitionJobState_success:
  assumes "transitionJobState now j st fs s = (Inr x, t)" and "no_snapshot_field fs"
  shows "\<exists>r. getJob j s = Some r \<and> t = job_updated now j st fs s"
  using assms no_snapshot_fk [OF assms(2), of j s]
  by (auto simp: transitionJobState_def bind_Inr_iff assertJobLifecycleWriteAllowed_def Let_def
      getJob_sql_update notifyJobLifecycleChanged_def job_updated_def split: option.splits if_splits)

lemma set_job_row_state: "jb_state (set_job_row (st, now, fs) r) = st"
proof -
  have "jb_state (fold set_job_field fs r') = jb_state r'" for r'
  proof (induction fs arbitrary: r')
    case (Cons f fs)
    then show ?case by (cases f) simp_all
  qed simp
  then show ?thesis by (simp add: set_job_row_def)
qed

lemma ws_sent_job_updated [simp]: "ws_sent (job_updated now j st fs s) = ws_sent s"
  by (simp add: job_updated_def)

section \<open>Offering a lease\<close>

text \<open>
  (C8) Every offer carries a fresh lease: when \<open>initiateRemoteAttempt\<close> succeeds, the new attempt is
  in state \<open>leasing\<close> for the chosen Agent with a deadline 300 s ahead, its epoch and its ordinal are
  greater than those of every earlier attempt of the job, the job is \<open>leasing\<close>, and the frame sent
  to the Agent carries exactly this lease.
\<close>

theorem initiate_offers_fresh_lease:
  assumes "initiateRemoteAttempt now leaseId attemptId jobId agentId tools s = (Inr x, t)"
  shows "x = attemptId \<and>
    (\<exists>r. getAttempt attemptId t = Some r \<and> at_state r = Leasing \<and> at_agent_id r = Some agentId \<and>
         at_lease_id r = leaseId \<and> at_lease_deadline r = Some (now + 300000) \<and>
         (\<forall>r' \<in> set (job_attempts s). at_job_id r' = jobId \<longrightarrow>
             at_lease_epoch r' < at_lease_epoch r \<and> at_ordinal r' < at_ordinal r) \<and>
         (\<exists>fr o'. ws_sent t = ws_sent s @ [fr] \<and> fr_payload fr = Lease_offer o' \<and> lo_job_id o' = jobId \<and>
             fr_attempt_id fr = attemptId \<and> fr_lease_id fr = leaseId \<and> fr_lease_epoch fr = at_lease_epoch r)) \<and>
    (\<exists>j. getJob jobId t = Some j \<and> jb_state j = Leasing)"
proof -
  let ?rows = "sql_all (\<lambda>r. at_job_id r = jobId) (job_attempts s)"
  let ?epoch = "nextLeaseEpochForJob jobId s" and ?ord = "max_or_zero (map at_ordinal ?rows) + 1"
  let ?tools = "case tools of Some (t # ts) \<Rightarrow> Some (t # ts) | _ \<Rightarrow> None"
  let ?row = "(blank_attempt attemptId jobId ?ord leaseId ?epoch Leasing)
     \<lparr>at_agent_id := Some agentId, at_lease_deadline := Some (now + DEFAULT_LEASE_TTL_SECONDS * 1000), at_toolchain_profiles := ?tools\<rparr>"
  from assms obtain job conn snap where ok: "getJob jobId s = Some job" "map_of (connectedAgents s) agentId = Some conn"
      "cn_open conn" "Option.bind (jb_snapshot_id job) (\<lambda>i. getSnapshot i s) = Some snap"
      "\<not> (falsy_str (sn_sha256 snap) \<or> sn_size_bytes snap = None)"
    by (auto simp: initiateRemoteAttempt_def split: option.splits if_splits)
  let ?offer = "\<lparr>lo_job_id = jobId, lo_job_request = jb_request job, lo_snapshot_id = sn_id snap,
      lo_content_id = sn_content_id snap, lo_size_bytes = the (sn_size_bytes snap), lo_sha256 = the (sn_sha256 snap),
      lo_selected_toolchain_profiles = ?tools, lo_lease_ttl_seconds = DEFAULT_LEASE_TTL_SECONDS\<rparr>"
  from assms ok have run: "bind (insertAttempt ?row) (\<lambda>_. bind (transitionJobState now jobId Leasing []) (\<lambda>_.
      bind (sendWsFrame conn attemptId leaseId ?epoch (Lease_offer ?offer)) (\<lambda>_. ret attemptId))) s = (Inr x, t)"
    by (simp add: initiateRemoteAttempt_def Let_def)
  then obtain u v where u: "insertAttempt ?row s = (Inr (), u)" and v: "\<exists>y. transitionJobState now jobId Leasing [] u = (Inr y, v)"
      and t: "t = snd (sendWsFrame conn attemptId leaseId ?epoch (Lease_offer ?offer) v)" "x = attemptId"
    by (auto simp: bind_Inr_iff)
  from u have ins: "attempt_insert_ok ?row s" "u = s\<lparr>job_attempts := job_attempts s @ [?row]\<rparr>"
    by (auto simp: insertAttempt_def split: if_splits)
  have v': "v = job_updated now jobId Leasing [] u" "getJob jobId u \<noteq> None"
    using v transitionJobState_success [of now jobId Leasing "[]" u _ v] by (auto simp: no_snapshot_field_def)
  have t': "t = v\<lparr>ws_sent := ws_sent v @ [\<lparr>fr_socket = cn_socket conn, fr_attempt_id = attemptId, fr_lease_id = leaseId,
      fr_lease_epoch = ?epoch, fr_payload = Lease_offer ?offer\<rparr>]\<rparr>"
    using t(1) ok(3) by (simp add: sendWsFrame_def)
  have "sql_get (\<lambda>r. at_id r = attemptId) (job_attempts s) = None"
    using ins(1) by (auto simp: attempt_insert_ok_def sql_get_None blank_attempt_def)
  then have row: "getAttempt attemptId t = Some ?row"
    by (simp add: t' v'(1)) (simp add: ins(2) getAttempt_def sql_get_append blank_attempt_def)
  have fresh: "at_lease_epoch r' < ?epoch \<and> at_ordinal r' < ?ord" if "r' \<in> set (job_attempts s)" "at_job_id r' = jobId" for r'
    using that max_or_zero_ge [of "at_lease_epoch r'" "map at_lease_epoch ?rows"]
      max_or_zero_ge [of "at_ordinal r'" "map at_ordinal ?rows"]
    by (auto simp: nextLeaseEpochForJob_def sql_all_def)
  have "\<exists>j. getJob jobId t = Some j \<and> jb_state j = Leasing"
    using v'(2) by (auto simp: t' v'(1) getJob_def set_job_row_state) (simp add: getJob_def [symmetric] set_job_row_state)
  then show ?thesis
    using row fresh t(2)
    by (auto simp: blank_attempt_def DEFAULT_LEASE_TTL_SECONDS_def t' v'(1) ins(2))
qed

theorem initiate_offers_fresh_lease_witness:
  "\<exists>r. getAttempt ''a2'' (snd (initiateRemoteAttempt 0 ''l2'' ''a2'' ''j'' ''g'' None (demo_state Completed (Some Failed) 3))) = Some r
     \<and> at_state r = Leasing \<and> 3 < at_lease_epoch r"
proof -
  let ?s = "demo_state Completed (Some Failed) 3"
  obtain t where t: "initiateRemoteAttempt 0 ''l2'' ''a2'' ''j'' ''g'' None ?s = (Inr ''a2'', t)"
  proof -
    have "fst (initiateRemoteAttempt 0 ''l2'' ''a2'' ''j'' ''g'' None ?s) = Inr ''a2''" by code_simp
    then show ?thesis by (intro that [of "snd (initiateRemoteAttempt 0 ''l2'' ''a2'' ''j'' ''g'' None ?s)"]) (simp add: prod_eq_iff)
  qed
  have "demo_attempt Completed (Some Failed) 3 \<in> set (job_attempts ?s)" by (simp add: demo_state_def)
  moreover have "at_job_id (demo_attempt Completed (Some Failed) 3) = ''j''" "at_lease_epoch (demo_attempt Completed (Some Failed) 3) = 3"
    by (simp_all add: demo_attempt_def blank_attempt_def)
  ultimately show ?thesis using initiate_offers_fresh_lease [OF t] t by fastforce
qed

section \<open>The end of an attempt\<close>

lemma nextEventSequence_fresh:
  "e \<in> set (job_events s) \<Longrightarrow> ev_attempt_id e = a \<Longrightarrow> ev_sequence e < nextEventSequence a s"
  using max_or_zero_ge [of "ev_sequence e" "map ev_sequence (sql_all (\<lambda>e. ev_attempt_id e = a) (job_events s))"]
  by (auto simp: nextEventSequence_def sql_all_def)

lemma nextEventSequence_pos:
  assumes "\<forall>e \<in> set (job_events s). 0 < ev_sequence e"
  shows "0 < nextEventSequence a s"
proof (cases "sql_all (\<lambda>e. ev_attempt_id e = a) (job_events s)")
  case Nil
  then show ?thesis by (simp add: nextEventSequence_def)
next
  case (Cons e es)
  then have "e \<in> set (sql_all (\<lambda>e. ev_attempt_id e = a) (job_events s))" by simp
  then have "e \<in> set (job_events s)" "ev_attempt_id e = a" by (auto simp: sql_all_def)
  with assms nextEventSequence_fresh [of e s a] show ?thesis by force
qed

lemma cleanup_event_ok:
  assumes "\<forall>e \<in> set (job_events s). 0 < ev_sequence e" and "at_job_id r \<noteq> []" "at_id r \<noteq> []" and "cr_message payload \<noteq> Some []"
    and "getJob (at_job_id r) s \<noteq> None" "getAttempt (at_id r) s \<noteq> None"
  shows "\<exists>es. cleanup_event now payload r s = (Inr (), s\<lparr>job_events := job_events s @ es\<rparr>)"
proof -
  have "(case cr_message payload of Some m \<Rightarrow> m | None \<Rightarrow> ''Cleanup script failed or timed out'') \<noteq> []"
    using assms(4) by (auto split: option.split)
  with assms nextEventSequence_pos [OF assms(1), of "at_id r"] nextEventSequence_fresh [of _ s "at_id r"]
  show ?thesis
    by (fastforce simp: cleanup_event_def createJobEvent_def recordEvent_def event_ok_def bind_apply Let_def
        intro: exI [of _ "[]"])
qed

lemma getJob_memory [simp]:
  "getJob j (s\<lparr>artifactExpectations := x\<rparr>) = getJob j s" "getJob j (s\<lparr>job_events := es\<rparr>) = getJob j s"
  "getAttempt a (s\<lparr>job_events := es\<rparr>) = getAttempt a s"
  by (simp_all add: getJob_def getAttempt_def)

lemma expectations_job_updated [simp]:
  "artifactExpectations (job_updated now j st fs s) = artifactExpectations s"
  by (simp add: job_updated_def)

text \<open>
  The end of an attempt. When \<open>cleanup_complete\<close> arrives under a live lease for an attempt that is
  collecting artifacts, attempt and job both become \<open>completed\<close> with the same outcome. The outcome is
  the one \<open>job_exit\<close> reported if there is one; the result of the cleanup script only decides when there
  is none. Likewise the exit code of the process is never replaced by that of the cleanup script. All
  artifact expectations of the attempt are dropped.
\<close>

theorem cleanup_completes_attempt_and_job:
  assumes wf: "db_wf s" and live: "live_attempt now agentId p [Collecting_artifacts] s = Some r"
    and job: "getJob (at_job_id r) s = Some job"
    and tx: "\<not> in_transaction s" and ev: "\<forall>e \<in> set (job_events s). 0 < ev_sequence e"
    and ids: "at_job_id r \<noteq> []" "at_id r \<noteq> []" and msg: "cr_message payload \<noteq> Some []"
  shows "\<exists>t. cleanupComplete_finish now agentId p payload s = (Inr (), t) \<and>
    (\<exists>r'. getAttempt (at_id r) t = Some r' \<and> at_state r' = Completed \<and> at_finished_at r' = Some now \<and>
          at_outcome r' = Some (case at_outcome r of Some oc \<Rightarrow> oc
             | None \<Rightarrow> if cr_timed_out payload then Timed_out
                       else if cr_exit_code payload = Some 0 then Succeeded else Failed) \<and>
     (\<exists>j'. getJob (at_job_id r) t = Some j' \<and> jb_state j' = Completed \<and> jb_outcome j' = at_outcome r' \<and>
          (at_outcome r \<noteq> None \<longrightarrow> jb_exit_code j' = jb_exit_code job))) \<and>
    (\<forall>k v. (expectationKey (at_id r) k, v) \<notin> set (artifactExpectations t))"
proof -
  let ?a = "at_id r" and ?j = "at_job_id r"
  define s1 where "s1 = snd (clearArtifactExpectations ?a s)"
  have s1: "getJob ?j s1 = Some job" "getAttempt ?a s1 = Some r" "\<not> in_transaction s1"
      "\<forall>e \<in> set (job_events s1). 0 < ev_sequence e"
    using assms live_attempt_row [OF wf live] live_attempt_facts(2) [OF live]
    by (simp_all add: s1_def clearArtifactExpectations_def)
  obtain es where es: "cleanup_event now payload r s1 = (Inr (), s1\<lparr>job_events := job_events s1 @ es\<rparr>)"
    using cleanup_event_ok [OF s1(4) ids msg, of now] s1 by auto
  define s2 where "s2 = s1\<lparr>job_events := job_events s1 @ es\<rparr>"
  let ?oc = "cleanup_outcome r payload" and ?ec = "cleanup_exit_code r (Some job) payload"
  let ?fs = "cleanup_job_fields now ?oc ?ec (Some job) payload"
  define s3 where "s3 = snd (transitionAttemptState ?a Completed [AF_outcome (Some ?oc), AF_finished_at (Some now)] s2)"
  have a3: "getAttempt ?a s3 = Some (r\<lparr>at_state := Completed, at_outcome := Some ?oc, at_finished_at := Some now\<rparr>)"
    using s1(2) by (simp add: s3_def s2_def getAttempt_transition) (simp add: set_attempt_row_def)
  obtain y3 where t3: "transitionAttemptState ?a Completed [AF_outcome (Some ?oc), AF_finished_at (Some now)] s2 = (Inr y3, s3)"
    using s1(2) by (simp add: s3_def s2_def transitionAttemptState_existing [of _ _ r])
  have j3: "getJob ?j s3 = Some job" "\<not> in_transaction s3" "artifactExpectations s3 = artifactExpectations s1"
    using s1 by (simp_all add: s3_def s2_def transitionAttemptState_existing [of _ _ r])
  define s4 where "s4 = job_updated now ?j Cleaning [] s3"
  obtain y4 where t4: "transitionJobState now ?j Cleaning [] s3 = (Inr y4, s4)"
    unfolding s4_def by (simp add: transitionJobState_existing [OF j3(1) _ j3(2)] no_snapshot_field_def)
  define t where "t = job_updated now ?j Completed ?fs s4"
  have "getJob ?j s4 = Some (set_job_row (Cleaning, now, []) job)" "\<not> in_transaction s4"
    using j3 by (simp_all add: s4_def)
  from transitionJobState_existing [OF this(1) _ this(2), of ?fs now Completed]
  obtain y5 where t5: "transitionJobState now ?j Completed ?fs s4 = (Inr y5, t)"
    by (simp add: t_def no_snapshot_field_def cleanup_job_fields_def)
  have run: "cleanupComplete_finish now agentId p payload s = (Inr (), t)"
    using live es [folded s2_def] t3 t4 t5 s1(1)
    by (simp add: cleanupComplete_finish_def guarded_def Let_def bind_apply clearArtifactExpectations_def s1_def)
  have "\<exists>j'. getJob ?j t = Some j' \<and> jb_state j' = Completed \<and> jb_outcome j' = Some ?oc \<and> jb_exit_code j' = ?ec"
    using j3(1) by (simp add: t_def s4_def set_job_row_state) (simp add: set_job_row_def cleanup_job_fields_def)
  moreover have "getAttempt ?a t = Some (r\<lparr>at_state := Completed, at_outcome := Some ?oc, at_finished_at := Some now\<rparr>)"
    using a3 by (simp add: t_def s4_def)
  moreover have "at_outcome r \<noteq> None \<longrightarrow> ?ec = jb_exit_code job" by (simp add: cleanup_exit_code_def)
  moreover have "(expectationKey ?a k, v) \<notin> set (artifactExpectations t)" for k v
    by (simp add: t_def s4_def j3(3) s1_def clearArtifactExpectations_def expectationKey_def starts_with_def)
  ultimately show ?thesis using run by (auto simp: cleanup_outcome_def)
qed

theorem cleanup_completes_attempt_and_job_witness:
  "\<exists>t r'. cleanupComplete_finish 500 ''g'' (demo_lease 1) \<lparr>cr_exit_code = Some 0, cr_timed_out = False, cr_message = None\<rparr>
       (demo_state Collecting_artifacts (Some Cancelled) 1) = (Inr (), t) \<and>
     getAttempt ''a'' t = Some r' \<and> at_state r' = Completed \<and> at_outcome r' = Some Cancelled"
proof -
  let ?s = "demo_state Collecting_artifacts (Some Cancelled) 1" and ?r = "demo_attempt Collecting_artifacts (Some Cancelled) 1"
  have live: "live_attempt 500 ''g'' (demo_lease 1) [Collecting_artifacts] ?s = Some ?r"
    by (simp add: live_attempt_def rejectStale_def loadAttemptByLease_def isLeaseExpired_def demo_defs)
  have ids: "at_id ?r = ''a''" "at_job_id ?r = ''j''" "at_outcome ?r = Some Cancelled" by (simp_all add: demo_attempt_def blank_attempt_def)
  have job: "getJob (at_job_id ?r) ?s = Some (demo_job Collecting_artifacts)" by (simp add: getJob_def demo_defs)
  have "\<not> in_transaction ?s" "\<forall>e \<in> set (job_events ?s). 0 < ev_sequence e" by (simp_all add: demo_state_def)
  from cleanup_completes_attempt_and_job [OF demo_wf live job this, of "\<lparr>cr_exit_code = Some 0, cr_timed_out = False, cr_message = None\<rparr>"]
  show ?thesis using ids by auto
qed

end
