(* ===== verification/Recovery.thy ===== *)
theory Recovery
  imports Remote_Safety
begin

text \<open>
  \<open>apps/controller/src/recovery/coordinator.ts\<close>: what happens to in-flight attempts when an Agent
  disconnects, restarts or comes back, and when the Controller itself restarts. The coordinator's three
  timer maps become association lists from an attempt to the time its timer is due. A timer callback is
  an operation of its own (\<open>graceFires\<close>, \<open>orphanFires\<close>, \<open>reconcileFires\<close>) that first removes
  the timer, as the callbacks do.
\<close>

section \<open>State\<close>

record recovery_state = remote_state +
  graceTimers :: "(string \<times> ts) list"
  orphanTimers :: "(string \<times> ts) list"
  reconcileTimers :: "(string \<times> ts) list"

record recovery_opts =
  ro_graceSeconds :: int
  ro_orphanSeconds :: int
  ro_reconcileSeconds :: int

definition default_recovery_opts :: recovery_opts where
  "default_recovery_opts = \<lparr>ro_graceSeconds = 60, ro_orphanSeconds = 300, ro_reconcileSeconds = 120\<rparr>"

datatype recovery_status = Report_running | Report_completed_awaiting_upload | Report_orphaned

record recovery_report =
  rr_lease :: lease_ref
  rr_status :: recovery_status
  rr_process_identity :: string
  rr_last_sent_sequence :: int
  rr_last_acked_sequence :: int
  rr_artifact_upload_pending :: bool

record reconcile_decision =
  dc_lease :: lease_ref
  dc_adopt :: bool
  dc_resume_from_sequence :: "int option"
  dc_reason :: "string option"

section \<open>Timers\<close>

definition setGrace :: "string \<Rightarrow> ts \<Rightarrow> ('z recovery_state_scheme, unit) rbo" where
  "setGrace a due = modify (\<lambda>s. s\<lparr>graceTimers := map_set a due (graceTimers s)\<rparr>)"

definition setOrphan :: "string \<Rightarrow> ts \<Rightarrow> ('z recovery_state_scheme, unit) rbo" where
  "setOrphan a due = modify (\<lambda>s. s\<lparr>orphanTimers := map_set a due (orphanTimers s)\<rparr>)"

definition setReconcile :: "string \<Rightarrow> ts \<Rightarrow> ('z recovery_state_scheme, unit) rbo" where
  "setReconcile a due = modify (\<lambda>s. s\<lparr>reconcileTimers := map_set a due (reconcileTimers s)\<rparr>)"

definition clearAllTimersFor :: "string \<Rightarrow> ('z recovery_state_scheme, unit) rbo" where
  "clearAllTimersFor a =
     modify (\<lambda>s. s\<lparr>graceTimers := map_delete a (graceTimers s), orphanTimers := map_delete a (orphanTimers s),
                   reconcileTimers := map_delete a (reconcileTimers s)\<rparr>)"

definition dispose :: "('z recovery_state_scheme, unit) rbo" where
  "dispose = modify (\<lambda>s. s\<lparr>graceTimers := [], orphanTimers := [], reconcileTimers := []\<rparr>)"

section \<open>Terminal transitions\<close>

definition isPreStartDisconnect :: "run_state \<Rightarrow> string option \<Rightarrow> bool" where
  "isPreStartDisconnect state processIdentity =
     (if state \<in> {Running, Collecting_artifacts, Orphaned} then False
      else falsy_str processIdentity \<and> state \<in> {Leasing, Preparing_source, Transferring_source, Materializing, Starting})"

definition isDestructiveOrHardwareRisk :: "string \<Rightarrow> 'z controller_db_scheme \<Rightarrow> bool" where
  "isDestructiveOrHardwareRisk jobId s =
     (let risk = (case Option.bind (getJobRequest jobId s) rqst_risk_level of Some r \<Rightarrow> r | None \<Rightarrow> Normal)
      in risk = Destructive \<or> risk = Hardware)"

definition markPreStartLost :: "ts \<Rightarrow> string \<Rightarrow> string \<Rightarrow> ('z recovery_state_scheme, unit) rbo" where
  "markPreStartLost now attemptId jobId =
     bind (clearAllTimersFor attemptId) (\<lambda>_.
     bind (transitionAttemptState attemptId Completed [AF_outcome (Some Failed), AF_finished_at (Some now)]) (\<lambda>_.
     bind (transitionJobState now jobId Completed
             [JF_outcome (Some Failed), JF_finished_at now, JF_failure_category (Some Agent_disconnected),
              JF_failure_message (Some ''Agent disconnected before script start'')]) (\<lambda>_. ret ())))"

definition markLost :: "ts \<Rightarrow> attempt_row \<Rightarrow> ('z recovery_state_scheme, unit) rbo" where
  "markLost now attempt =
     bind (clearAllTimersFor (at_id attempt)) (\<lambda>_.
     bind (transitionAttemptState (at_id attempt) Completed [AF_outcome (Some Lost), AF_finished_at (Some now)]) (\<lambda>_.
     bind (transitionJobState now (at_job_id attempt) Completed
             [JF_outcome (Some Lost), JF_finished_at now, JF_failure_category (Some Agent_disconnected),
              JF_failure_message (Some ''Attempt lost during disconnect / restart reconciliation'')]) (\<lambda>_. ret ())))"

definition markTerminateStaleFailed :: "ts \<Rightarrow> attempt_row \<Rightarrow> string option \<Rightarrow> ('z recovery_state_scheme, unit) rbo" where
  "markTerminateStaleFailed now attempt reason =
     (let newer = (reason = Some ''newer_epoch'') in
      bind (clearAllTimersFor (at_id attempt)) (\<lambda>_.
      bind (transitionAttemptState (at_id attempt) Completed [AF_outcome (Some Failed), AF_finished_at (Some now)]) (\<lambda>_.
      bind (updateAttempt (at_id attempt) [AF_orphaned_at None, AF_last_reconcile_at (Some now)]) (\<lambda>_.
      bind (transitionJobState now (at_job_id attempt) Completed
              [JF_outcome (Some Failed), JF_finished_at now,
               JF_failure_category (Some (if newer then Lease_expired else Agent_lost)),
               JF_failure_message (Some (if newer then ''Stale recovery_report rejected (newer lease epoch)''
                  else ''Stale recovery_report rejected ('' @ (case reason of Some w \<Rightarrow> w | None \<Rightarrow> ''terminate_stale'') @ '')''))])
        (\<lambda>_. ret ())))))"

section \<open>Disconnect, connect, timers\<close>

definition getAgentLastBootId :: "string \<Rightarrow> 'z controller_db_scheme \<Rightarrow> string option" where
  "getAgentLastBootId agentId s = Option.bind (sql_get (\<lambda>r. ag_id r = agentId) (agents s)) ag_last_boot_id"

definition open_attempts_of :: "string \<Rightarrow> 'z controller_db_scheme \<Rightarrow> attempt_row list" where
  "open_attempts_of agentId s = sql_all (\<lambda>r. at_agent_id r = Some agentId \<and> at_state r \<noteq> Completed) (job_attempts s)"

definition onControllerStartup :: "recovery_opts \<Rightarrow> ts \<Rightarrow> ('z recovery_state_scheme, unit) rbo" where
  "onControllerStartup opts now =
     bind (modify (\<lambda>s. s\<lparr>agents := sql_update (\<lambda>r. ag_state r \<notin> {''offline'', ''revoked''})
                                     (\<lambda>r. r\<lparr>ag_state := ''offline''\<rparr>) (agents s)\<rparr>)) (\<lambda>_.
     bind (gets (\<lambda>s. sql_all (\<lambda>r. at_state r \<noteq> Completed) (job_attempts s))) (\<lambda>rows.
       for_each rows (\<lambda>row. setReconcile (at_id row) (now + ro_reconcileSeconds opts * 1000))))"

definition disconnect_one :: "recovery_opts \<Rightarrow> ts \<Rightarrow> attempt_row \<Rightarrow> ('z recovery_state_scheme, unit) rbo" where
  "disconnect_one opts now att =
     (if isPreStartDisconnect (at_state att) (at_process_identity att)
      then markPreStartLost now (at_id att) (at_job_id att)
      else
        bind (updateAttempt (at_id att)
                [AF_lease_deadline (Some (now + (ro_graceSeconds opts + ro_orphanSeconds opts + 30) * 1000))]) (\<lambda>_.
        setGrace (at_id att) (now + ro_graceSeconds opts * 1000)))"

definition onAgentDisconnect :: "recovery_opts \<Rightarrow> ts \<Rightarrow> string \<Rightarrow> ('z recovery_state_scheme, unit) rbo" where
  "onAgentDisconnect opts now agentId =
     bind (gets (open_attempts_of agentId)) (\<lambda>attempts. for_each attempts (disconnect_one opts now))"

definition lose_if_open :: "ts \<Rightarrow> attempt_row \<Rightarrow> ('z recovery_state_scheme, unit) rbo" where
  "lose_if_open now att =
     bind (gets (getAttempt (at_id att))) (\<lambda>attempt.
       case attempt of
         None \<Rightarrow> ret ()
       | Some a \<Rightarrow> if at_state a \<noteq> Completed then markLost now a else ret ())"

definition onAgentConnect :: "ts \<Rightarrow> string \<Rightarrow> string option \<Rightarrow> ('z recovery_state_scheme, unit) rbo" where
  "onAgentConnect now agentId bootId =
     (case bootId of
        None \<Rightarrow> ret ()
      | Some b \<Rightarrow>
          bind (gets (getAgentLastBootId agentId)) (\<lambda>lastBootId.
            if lastBootId = Some b then ret ()
            else bind (gets (open_attempts_of agentId)) (\<lambda>attempts. for_each attempts (lose_if_open now))))"

definition onGraceElapsed :: "recovery_opts \<Rightarrow> ts \<Rightarrow> string \<Rightarrow> ('z recovery_state_scheme, unit) rbo" where
  "onGraceElapsed opts now attemptId =
     bind (gets (getAttempt attemptId)) (\<lambda>attempt.
       case attempt of
         None \<Rightarrow> ret ()
       | Some a \<Rightarrow>
           if at_state a = Completed then ret ()
           else bind (updateAttempt attemptId [AF_state Orphaned, AF_orphaned_at (Some now)]) (\<lambda>_.
                setOrphan attemptId (now + ro_orphanSeconds opts * 1000)))"

definition onOrphanTimeout :: "ts \<Rightarrow> string \<Rightarrow> ('z recovery_state_scheme, unit) rbo" where
  "onOrphanTimeout now attemptId =
     bind (gets (getAttempt attemptId)) (\<lambda>attempt.
       case attempt of
         None \<Rightarrow> ret ()
       | Some a \<Rightarrow>
           if at_state a = Completed then ret ()
           else if at_state a \<noteq> Orphaned then ret ()
           else markLost now a)"

definition graceFires :: "recovery_opts \<Rightarrow> ts \<Rightarrow> string \<Rightarrow> ('z recovery_state_scheme, unit) rbo" where
  "graceFires opts now attemptId =
     bind (modify (\<lambda>s. s\<lparr>graceTimers := map_delete attemptId (graceTimers s)\<rparr>)) (\<lambda>_. onGraceElapsed opts now attemptId)"

definition orphanFires :: "ts \<Rightarrow> string \<Rightarrow> ('z recovery_state_scheme, unit) rbo" where
  "orphanFires now attemptId =
     bind (modify (\<lambda>s. s\<lparr>orphanTimers := map_delete attemptId (orphanTimers s)\<rparr>)) (\<lambda>_. onOrphanTimeout now attemptId)"

definition reconcileFires :: "ts \<Rightarrow> string \<Rightarrow> ('z recovery_state_scheme, unit) rbo" where
  "reconcileFires now attemptId =
     bind (modify (\<lambda>s. s\<lparr>reconcileTimers := map_delete attemptId (reconcileTimers s)\<rparr>)) (\<lambda>_.
     bind (gets (getAttempt attemptId)) (\<lambda>attempt.
       case attempt of
         None \<Rightarrow> ret ()
       | Some a \<Rightarrow> if at_state a = Completed then ret () else markLost now a))"

section \<open>Recovery reports\<close>

definition rearmOrphanWatchdog :: "recovery_opts \<Rightarrow> ts \<Rightarrow> string \<Rightarrow> ('z recovery_state_scheme, unit) rbo" where
  "rearmOrphanWatchdog opts now attemptId =
     bind (gets (getAttempt attemptId)) (\<lambda>attempt.
       case attempt of
         None \<Rightarrow> ret ()
       | Some a \<Rightarrow>
           if at_state a = Completed then ret ()
           else if at_state a = Orphaned then setOrphan attemptId (now + ro_orphanSeconds opts * 1000)
           else setGrace attemptId (now + ro_graceSeconds opts * 1000))"

definition terminate_stale :: "recovery_report \<Rightarrow> string \<Rightarrow> reconcile_decision" where
  "terminate_stale payload reason =
     \<lparr>dc_lease = rr_lease payload, dc_adopt = False, dc_resume_from_sequence = None, dc_reason = Some reason\<rparr>"

definition decide :: "string \<Rightarrow> attempt_row option \<Rightarrow> recovery_report \<Rightarrow> reconcile_decision" where
  "decide agentId attempt payload =
     (let p = rr_lease payload in
      case attempt of
        None \<Rightarrow> terminate_stale payload ''attempt_terminal_or_unknown''
      | Some a \<Rightarrow>
          if at_state a = Completed then terminate_stale payload ''attempt_terminal_or_unknown''
          else if at_agent_id a \<noteq> Some agentId then terminate_stale payload ''agent_mismatch''
          else if at_lease_id a \<noteq> lr_lease_id p \<or> at_lease_epoch a \<noteq> lr_lease_epoch p
                 \<or> at_process_identity a \<noteq> Some (rr_process_identity payload)
          then terminate_stale payload
                 (if at_lease_epoch a \<noteq> lr_lease_epoch p then ''newer_epoch''
                  else if at_lease_id a \<noteq> lr_lease_id p then ''lease_mismatch''
                  else ''process_identity_mismatch'')
          else \<lparr>dc_lease = \<lparr>lr_attempt_id = at_id a, lr_lease_id = at_lease_id a, lr_lease_epoch = at_lease_epoch a\<rparr>,
                dc_adopt = True, dc_resume_from_sequence = Some (at_log_acked_sequence a), dc_reason = None\<rparr>)"

definition sendReconcileDecision :: "string \<Rightarrow> reconcile_decision \<Rightarrow> ('z remote_state_scheme, unit) rbo" where
  "sendReconcileDecision agentId d =
     sendToAgent agentId (lr_attempt_id (dc_lease d)) (lr_lease_id (dc_lease d)) (lr_lease_epoch (dc_lease d))
       (Reconcile_decision (dc_adopt d) (dc_resume_from_sequence d) (dc_reason d))"

definition onRecoveryReport ::
  "recovery_opts \<Rightarrow> ts \<Rightarrow> string \<Rightarrow> recovery_report \<Rightarrow> ('z recovery_state_scheme, reconcile_decision) rbo" where
  "onRecoveryReport opts now agentId payload =
     bind (clearAllTimersFor (lr_attempt_id (rr_lease payload))) (\<lambda>_.
     bind (gets (getAttempt (lr_attempt_id (rr_lease payload)))) (\<lambda>attempt.
       case attempt of
         None \<Rightarrow>
           bind (sendReconcileDecision agentId (decide agentId None payload)) (\<lambda>_. ret (decide agentId None payload))
       | Some a \<Rightarrow>
           if at_state a \<noteq> Completed \<and> falsy_str (at_process_identity a) then
             bind (updateAttempt (at_id a) [AF_last_reconcile_at (Some now)]) (\<lambda>_.
             bind (rearmOrphanWatchdog opts now (at_id a)) (\<lambda>_.
             ret (terminate_stale payload ''process_identity_pending'')))
           else
             (let d = decide agentId (Some a) payload in
              bind (sendReconcileDecision agentId d) (\<lambda>_.
              bind (if dc_adopt d then
                      bind (updateAttempt (at_id a)
                              [AF_state (if rr_status payload = Report_completed_awaiting_upload then Collecting_artifacts else Running),
                               AF_orphaned_at None, AF_last_reconcile_at (Some now),
                               AF_process_identity (Some (rr_process_identity payload))]) (\<lambda>_. ret ())
                    else if at_state a = Completed then ret ()
                    else if dc_reason d = Some ''agent_mismatch'' then
                      bind (updateAttempt (at_id a) [AF_last_reconcile_at (Some now)]) (\<lambda>_.
                      rearmOrphanWatchdog opts now (at_id a))
                    else markTerminateStaleFailed now a (dc_reason d)) (\<lambda>_.
              ret d)))))"

end
