(* ===== verification/Recovery_Laws.thy ===== *)
theory Recovery_Laws
  imports Recovery
begin

text \<open>
  Properties of the recovery coordinator: whom it adopts, that no orphaned attempt is ever left without
  a timer that ends it, and that it leaves completed attempts alone. \<open>recovery_step\<close> interleaves the
  coordinator's operations and timers with every step of remote execution.
\<close>

section \<open>Memory and rows\<close>

lemma getAttempt_timers [simp]:
  "getAttempt a (s\<lparr>graceTimers := g\<rparr>) = getAttempt a s" "getAttempt a (s\<lparr>orphanTimers := o'\<rparr>) = getAttempt a s"
  "getAttempt a (s\<lparr>reconcileTimers := c\<rparr>) = getAttempt a s" "getAttempt a (s\<lparr>agents := ag\<rparr>) = getAttempt a s"
  by (simp_all add: getAttempt_def)

lemma db_wf_timers [simp]:
  "db_wf (s\<lparr>graceTimers := g\<rparr>) = db_wf s" "db_wf (s\<lparr>orphanTimers := o'\<rparr>) = db_wf s"
  "db_wf (s\<lparr>reconcileTimers := c\<rparr>) = db_wf s"
  by (simp_all add: db_wf_def attempts_wf_def jobs_wf_def events_wf_def)

definition timers_of :: "'z recovery_state_scheme \<Rightarrow> _" where
  "timers_of s = (graceTimers s, orphanTimers s, reconcileTimers s)"

lemma with_notifier_timers [simp]: "timers_of (with_notifier f s) = timers_of s"
  by (auto simp: timers_of_def with_notifier_def split: option.splits prod.splits)

lemma timers_ops [simp]:
  "timers_of (snd (transitionAttemptState a st fs s)) = timers_of s"
  "timers_of (snd (updateAttempt a fs s)) = timers_of s"
  "timers_of (snd (bumpLeaseEpoch a s)) = timers_of s"
  "timers_of (snd (insertAttempt row s)) = timers_of s"
  "timers_of (snd (transitionJobState now j st jfs s)) = timers_of s"
  "timers_of (snd (update_jobs j f s)) = timers_of s"
  "timers_of (snd (recordEvent e s)) = timers_of s"
  "timers_of (snd (notifyJobLifecycleChanged j s)) = timers_of s"
proof -
  have [simp]: "timers_of (s\<lparr>job_attempts := x\<rparr>) = timers_of s" "timers_of (s\<lparr>jobs := y\<rparr>) = timers_of s"
      "timers_of (s\<lparr>job_events := z\<rparr>) = timers_of s" for s :: "'z recovery_state_scheme" and x y z
    by (simp_all add: timers_of_def)
  show "timers_of (snd (transitionAttemptState a st fs s)) = timers_of s"
    by (simp add: transitionAttemptState_def Let_def split: option.split)
  show "timers_of (snd (updateAttempt a fs s)) = timers_of s"
    by (simp add: updateAttempt_def Let_def split: option.split)
  show "timers_of (snd (bumpLeaseEpoch a s)) = timers_of s"
    by (simp add: bumpLeaseEpoch_def Let_def split: option.split)
  show "timers_of (snd (insertAttempt row s)) = timers_of s" by (simp add: insertAttempt_def)
  show "timers_of (snd (transitionJobState now j st jfs s)) = timers_of s"
    by (simp add: transitionJobState_def bind_apply assertJobLifecycleWriteAllowed_def notifyJobLifecycleChanged_def
        Let_def split: option.split)
  show "timers_of (snd (update_jobs j f s)) = timers_of s" by (simp add: update_jobs_def)
  show "timers_of (snd (recordEvent e s)) = timers_of s" by (simp add: recordEvent_def)
  show "timers_of (snd (notifyJobLifecycleChanged j s)) = timers_of s" by (simp add: notifyJobLifecycleChanged_def)
qed

lemma getAttempt_bind:
  assumes "\<And>x t. getAttempt b (snd (f x t)) = getAttempt b t"
  shows "getAttempt b (snd (bind m f s)) = getAttempt b (snd (m s))"
proof -
  obtain x u where xu: "m s = (x, u)" by (cases "m s")
  then show ?thesis using assms by (cases x) (simp_all add: bind_apply)
qed

lemma getAttempt_transitionJob [simp]: "getAttempt b (snd (transitionJobState now j st jfs t)) = getAttempt b t"
  by (simp add: getAttempt_def)

lemma getAttempt_complete:
  "getAttempt b (snd (bind (transitionAttemptState a st fs) (\<lambda>_. bind (transitionJobState now j st' jfs) (\<lambda>_. ret ())) s))
     = (if b = a then map_option (set_attempt_row (AF_state st # fs)) (getAttempt b s) else getAttempt b s)"
  by (simp add: getAttempt_bind getAttempt_transition)

section \<open>Operations on one attempt\<close>

definition touches :: "string \<Rightarrow> 'z recovery_state_scheme \<Rightarrow> 'z recovery_state_scheme \<Rightarrow> bool" where
  "touches a s t =
     (attempt_frame a s t \<and>
      (\<forall>b. b \<noteq> a \<longrightarrow> map_of (orphanTimers t) b = map_of (orphanTimers s) b \<and>
                     map_of (reconcileTimers t) b = map_of (reconcileTimers s) b))"

interpretation touch: step_relation "touches a" for a
  by unfold_locales (auto simp: touches_def attempt_frame_def)

lemma touchesI:
  "attempt_frame a s t \<Longrightarrow> timers_of t = timers_of s \<Longrightarrow> touches a s t"
  by (simp add: touches_def timers_of_def)

lemma touch_ops:
  "obeys (touches a) (transitionAttemptState a st fs)" "obeys (touches a) (updateAttempt a afs)"
  "obeys (touches a) (transitionJobState now j st' jfs)" "obeys (touches a) (setGrace a d)"
  "obeys (touches a) (setOrphan a d)" "obeys (touches a) (clearAllTimersFor a)"
  by (auto simp: obeys_def setGrace_def setOrphan_def clearAllTimersFor_def
      intro: touchesI obeysD [OF frame_transitionAttemptState] obeysD [OF frame_updateAttempt]
        obeysD [OF frame_transitionJobState])
    (auto simp: touches_def attempt_frame_def map_of_map_set map_of_map_delete)

lemma touch_send: "obeys (touches a) (sendToAgent ag b l e pl)"
  by (auto simp: obeys_def sendToAgent_def sendWsFrame_def touches_def attempt_frame_def split: option.split)

lemmas touch_intros = touch.obeys_rules touch_ops touch_send

lemma touch_markLost: "at_id r = a \<Longrightarrow> obeys (touches a) (markLost now r)"
  unfolding markLost_def by (auto intro!: touch_intros)

lemma touch_markPreStartLost: "obeys (touches a) (markPreStartLost now a j)"
  unfolding markPreStartLost_def by (intro touch_intros)

lemma touch_markTerminate: "at_id r = a \<Longrightarrow> obeys (touches a) (markTerminateStaleFailed now r w)"
  unfolding markTerminateStaleFailed_def Let_def by (auto intro!: touch_intros)

lemma touch_disconnect: "at_id r = a \<Longrightarrow> obeys (touches a) (disconnect_one opts now r)"
  unfolding disconnect_one_def by (auto intro!: touch_intros touch_markPreStartLost)

lemma touch_get_or:
  fixes n :: "('z recovery_state_scheme, 'b) rbo"
  assumes "obeys (touches a) n" and "\<And>r. at_id r = a \<Longrightarrow> obeys (touches a) (f r)"
  shows "obeys (touches a) (bind (gets (getAttempt a)) (\<lambda>x. case x of None \<Rightarrow> n | Some r \<Rightarrow> f r))"
proof (rule obeysI)
  fix s :: "'z recovery_state_scheme"
  show "touches a s (snd (bind (gets (getAttempt a)) (\<lambda>x. case x of None \<Rightarrow> n | Some r \<Rightarrow> f r) s))"
  proof (cases "getAttempt a s")
    case None
    with obeysD [OF assms(1)] show ?thesis by simp
  next
    case (Some r)
    with obeysD [OF assms(2) [OF getAttempt_id [OF Some]]] show ?thesis by simp
  qed
qed

lemmas touch_get = touch_get_or [OF touch.obeys_ret]

lemma touch_lose: "at_id r = a \<Longrightarrow> obeys (touches a) (lose_if_open now r)"
  unfolding lose_if_open_def by (simp only:, rule touch_get) (auto intro!: touch_markLost touch.obeys_ret)

lemma touch_fires:
  "obeys (touches a) (graceFires opts now a)" "obeys (touches a) (orphanFires now a)" "obeys (touches a) (reconcileFires now a)"
proof -
  have del: "obeys (touches a) (modify (\<lambda>s. s\<lparr>graceTimers := map_delete a (graceTimers s)\<rparr>))"
      "obeys (touches a) (modify (\<lambda>s. s\<lparr>orphanTimers := map_delete a (orphanTimers s)\<rparr>))"
      "obeys (touches a) (modify (\<lambda>s. s\<lparr>reconcileTimers := map_delete a (reconcileTimers s)\<rparr>))"
    by (auto simp: obeys_def touches_def attempt_frame_def map_of_map_delete)
  show "obeys (touches a) (graceFires opts now a)" "obeys (touches a) (orphanFires now a)" "obeys (touches a) (reconcileFires now a)"
    unfolding graceFires_def orphanFires_def reconcileFires_def onGraceElapsed_def onOrphanTimeout_def
    by (rule touch.obeys_bind, rule del, rule touch_get, (intro touch_intros touch_markLost; assumption))+
qed

lemma touch_rearm: "obeys (touches a) (rearmOrphanWatchdog opts now a)"
  unfolding rearmOrphanWatchdog_def by (rule touch_get) (auto intro!: touch_intros)

section \<open>Every orphaned attempt has a timer\<close>

definition armed :: "string \<Rightarrow> 'z recovery_state_scheme \<Rightarrow> bool" where
  "armed a s = (map_of (orphanTimers s) a \<noteq> None \<or> map_of (reconcileTimers s) a \<noteq> None)"

definition watched_at :: "string \<Rightarrow> 'z recovery_state_scheme \<Rightarrow> bool" where
  "watched_at a s = (\<forall>r. getAttempt a s = Some r \<longrightarrow> at_state r = Orphaned \<longrightarrow> armed a s)"

definition watched :: "'z recovery_state_scheme \<Rightarrow> bool" where
  "watched s = (\<forall>a. watched_at a s)"

lemma touches_watched:
  assumes "watched s" "touches a s t" "watched_at a t"
  shows "watched t"
  unfolding watched_def
proof
  fix b
  show "watched_at b t"
  proof (cases "b = a")
    case False
    with assms(1,2) show ?thesis by (simp add: watched_def watched_at_def touches_def attempt_frame_def armed_def)
  qed (use assms(3) in simp)
qed

lemma state_set_row: "at_state (set_attempt_row (AF_state st # [AF_outcome oc, AF_finished_at fa]) r) = st"
  by (simp add: set_attempt_row_def)

lemma not_orphaned_watched: "(\<And>r. getAttempt a t = Some r \<Longrightarrow> at_state r \<noteq> Orphaned) \<Longrightarrow> watched_at a t"
  by (simp add: watched_at_def)

lemma getAttempt_markLost:
  "getAttempt b (snd (markLost now r s)) = (if b = at_id r
     then map_option (set_attempt_row [AF_state Completed, AF_outcome (Some Lost), AF_finished_at (Some now)]) (getAttempt b s)
     else getAttempt b s)"
  by (simp add: markLost_def clearAllTimersFor_def getAttempt_complete)

lemma getAttempt_markPreStartLost:
  "getAttempt b (snd (markPreStartLost now a j s)) = (if b = a
     then map_option (set_attempt_row [AF_state Completed, AF_outcome (Some Failed), AF_finished_at (Some now)]) (getAttempt b s)
     else getAttempt b s)"
  by (simp add: markPreStartLost_def clearAllTimersFor_def getAttempt_complete)

lemma watched_markLost: "at_id r = a \<Longrightarrow> watched_at a (snd (markLost now r s))"
  by (rule not_orphaned_watched) (auto simp: getAttempt_markLost state_set_row)

lemma updateAttempt_state:
  assumes "getAttempt a s = Some r" "no_agent_field fs" "fs \<noteq> []"
  shows "updateAttempt a fs s = (Inr (set_attempt_row fs r),
     s\<lparr>job_attempts := sql_update (\<lambda>r. at_id r = a) (set_attempt_row fs) (job_attempts s)\<rparr>)"
  using updateAttempt_existing [OF assms(1) no_agent_fk [OF assms(2)] assms(3)] .

lemma getAttempt_markTerminate:
  fixes s :: "'z recovery_state_scheme"
  assumes "getAttempt (at_id r) s \<noteq> None"
  shows "\<exists>r'. getAttempt (at_id r) (snd (markTerminateStaleFailed now r w s)) = Some r' \<and> at_state r' = Completed \<and> at_outcome r' = Some Failed"
proof -
  from assms obtain r0 where r0: "getAttempt (at_id r) s = Some r0" by auto
  let ?u = "snd (clearAllTimersFor (at_id r) s)"
  let ?fs = "[AF_outcome (Some Failed), AF_finished_at (Some now)]"
  have u: "getAttempt (at_id r) ?u = Some r0" using r0 by (simp add: clearAllTimersFor_def)
  obtain x v where tr: "transitionAttemptState (at_id r) Completed ?fs ?u = (Inr x, v)"
    using transitionAttemptState_existing [OF u, of Completed ?fs] by blast
  then have v: "getAttempt (at_id r) v = Some (set_attempt_row (AF_state Completed # ?fs) r0)"
    using u getAttempt_transition [of "at_id r" "at_id r" Completed ?fs ?u] by simp
  define rest :: "job_field list \<Rightarrow> ('z recovery_state_scheme, unit) rbo" where "rest jfs = bind (updateAttempt (at_id r) [AF_orphaned_at None, AF_last_reconcile_at (Some now)])
      (\<lambda>_. bind (transitionJobState now (at_job_id r) Completed jfs) (\<lambda>_. ret ()))" for jfs
  have "obeys completed_kept (rest jfs)" for jfs
    unfolding rest_def
    by (intro kept.obeys_rules)
      (auto simp: obeys_def completed_kept_def getAttempt_update no_agent_field_def set_attempt_row_def)
  then have "completed_kept v (snd (rest jfs v))" for jfs by (rule obeysD)
  with v have "\<exists>r'. getAttempt (at_id r) (snd (rest jfs v)) = Some r' \<and> at_state r' = Completed \<and> at_outcome r' = Some Failed" for jfs
    unfolding completed_kept_def by (force simp: set_attempt_row_def)
  moreover obtain jfs where "snd (markTerminateStaleFailed now r w s) = snd (rest jfs v)"
    using tr by (simp add: markTerminateStaleFailed_def Let_def bind_apply [of "transitionAttemptState (at_id r) Completed ?fs"]
        bind_apply [of "clearAllTimersFor (at_id r)"] clearAllTimersFor_def rest_def [symmetric])
  ultimately show ?thesis by simp
qed

lemma watched_rearm:
  assumes "getAttempt a s \<noteq> None"
  shows "watched_at a (snd (rearmOrphanWatchdog opts now a s))"
  using assms
  by (auto simp: rearmOrphanWatchdog_def setOrphan_def setGrace_def watched_at_def armed_def map_of_map_set split: option.splits)

lemma watched_at_same:
  assumes "watched_at a s" "map_option at_state (getAttempt a t) = map_option at_state (getAttempt a s)"
    "timers_of t = timers_of s"
  shows "watched_at a t"
  unfolding watched_at_def
proof (intro allI impI)
  fix r assume r: "getAttempt a t = Some r" "at_state r = Orphaned"
  with assms(2) obtain r0 where "getAttempt a s = Some r0" "at_state r0 = Orphaned"
    by (cases "getAttempt a s") auto
  with assms(1) have "armed a s" by (simp add: watched_at_def)
  with assms(3) show "armed a t" by (simp add: armed_def timers_of_def)
qed

lemma watched_disconnect: "watched s \<Longrightarrow> watched (snd (disconnect_one opts now r s))"
proof (rule touches_watched)
  assume w: "watched s"
  show "touches (at_id r) s (snd (disconnect_one opts now r s))" by (rule obeysD [OF touch_disconnect]) simp
  show "watched_at (at_id r) (snd (disconnect_one opts now r s))"
  proof (cases "isPreStartDisconnect (at_state r) (at_process_identity r)")
    case True
    then show ?thesis
      by (intro not_orphaned_watched) (auto simp: disconnect_one_def getAttempt_markPreStartLost state_set_row)
  next
    case False
    let ?d = "now + (ro_graceSeconds opts + ro_orphanSeconds opts + 30) * 1000"
    let ?u = "snd (updateAttempt (at_id r) [AF_lease_deadline (Some ?d)] s)"
    have u: "map_option at_state (getAttempt (at_id r) ?u) = map_option at_state (getAttempt (at_id r) s)"
      by (simp add: getAttempt_update no_agent_field_def set_attempt_row_def option.map_comp comp_def)
    have tm: "timers_of ?u = timers_of s" by simp
    have "watched_at (at_id r) ?u"
      using w u tm watched_at_same by (metis watched_def)
    then have "watched_at (at_id r) (?u\<lparr>graceTimers := g\<rparr>)" for g by (simp add: watched_at_def armed_def)
    with \<open>watched_at (at_id r) ?u\<close> False show ?thesis
      by (auto simp: disconnect_one_def setGrace_def bind_apply split: prod.splits sum.splits)
  qed
qed simp

lemma watched_lose: "watched s \<Longrightarrow> watched (snd (lose_if_open now r s))"
proof (rule touches_watched)
  assume w: "watched s"
  show "touches (at_id r) s (snd (lose_if_open now r s))" by (rule obeysD [OF touch_lose]) simp
  show "watched_at (at_id r) (snd (lose_if_open now r s))"
  proof (cases "getAttempt (at_id r) s")
    case None
    then show ?thesis using w by (simp add: lose_if_open_def watched_def)
  next
    case (Some a)
    then have "at_id a = at_id r" by (rule getAttempt_id)
    with Some w show ?thesis by (auto simp: lose_if_open_def watched_def intro: watched_markLost)
  qed
qed simp

lemma watched_for_each: "(\<And>x s. watched s \<Longrightarrow> watched (snd (f x s))) \<Longrightarrow> watched s \<Longrightarrow> watched (snd (for_each xs f s))"
  using keeps.obeys_for_each [of xs watched f] by (simp add: obeys_def)

lemma watched_onAgentDisconnect: "watched s \<Longrightarrow> watched (snd (onAgentDisconnect opts now ag s))"
  by (simp add: onAgentDisconnect_def watched_for_each watched_disconnect)

lemma watched_onAgentConnect: "watched s \<Longrightarrow> watched (snd (onAgentConnect now ag b s))"
  by (simp add: onAgentConnect_def watched_for_each watched_lose split: option.split)

lemma watched_graceFires: "watched s \<Longrightarrow> watched (snd (graceFires opts now a s))"
proof (rule touches_watched)
  assume w: "watched s"
  show "touches a s (snd (graceFires opts now a s))" by (rule obeysD [OF touch_fires(1)])
  show "watched_at a (snd (graceFires opts now a s))"
  proof (cases "getAttempt a s")
    case (Some r)
    let ?s = "s\<lparr>graceTimers := map_delete a (graceTimers s)\<rparr>"
    have "getAttempt a ?s = Some r" using Some by simp
    from updateAttempt_state [OF this, of "[AF_state Orphaned, AF_orphaned_at (Some now)]"]
    have "\<exists>x u. updateAttempt a [AF_state Orphaned, AF_orphaned_at (Some now)] ?s = (Inr x, u)"
      by (simp add: no_agent_field_def)
    then show ?thesis
      using Some w
      by (auto simp: graceFires_def onGraceElapsed_def bind_apply setOrphan_def watched_def watched_at_def armed_def map_of_map_set)
  qed (simp add: graceFires_def onGraceElapsed_def watched_at_def)
qed simp

lemma watched_orphanFires: "watched s \<Longrightarrow> watched (snd (orphanFires now a s))"
proof (rule touches_watched)
  show "touches a s (snd (orphanFires now a s))" by (rule obeysD [OF touch_fires(2)])
  show "watched_at a (snd (orphanFires now a s))"
  proof (cases "getAttempt a s")
    case (Some r)
    then have "at_id r = a" by (rule getAttempt_id)
    with Some show ?thesis
      by (cases "at_state r = Orphaned")
        (auto simp: orphanFires_def onOrphanTimeout_def intro: watched_markLost, auto simp: watched_at_def)
  qed (simp add: orphanFires_def onOrphanTimeout_def watched_at_def)
qed simp

lemma watched_reconcileFires: "watched s \<Longrightarrow> watched (snd (reconcileFires now a s))"
proof (rule touches_watched)
  show "touches a s (snd (reconcileFires now a s))" by (rule obeysD [OF touch_fires(3)])
  show "watched_at a (snd (reconcileFires now a s))"
  proof (cases "getAttempt a s")
    case (Some r)
    then have "at_id r = a" by (rule getAttempt_id)
    with Some show ?thesis
      by (cases "at_state r = Completed")
        (auto simp: reconcileFires_def intro: watched_markLost, auto simp: watched_at_def)
  qed (simp add: reconcileFires_def watched_at_def)
qed simp

lemma getAttempt_send [simp]: "getAttempt b (snd (sendToAgent ag a l e pl s)) = getAttempt b s"
  by (simp add: sendToAgent_def sendWsFrame_def getAttempt_def split: option.split)

lemma fst_sendReconcile [simp]: "fst (sendReconcileDecision ag d s) = Inr ()"
  by (simp add: sendReconcileDecision_def sendToAgent_def sendWsFrame_def split: option.split)

lemma getAttempt_sendReconcile [simp]: "getAttempt b (snd (sendReconcileDecision ag d s)) = getAttempt b s"
  by (simp add: sendReconcileDecision_def)

text \<open>What the coordinator does with a report after it has sent its decision.\<close>

definition settle_report ::
  "recovery_opts \<Rightarrow> ts \<Rightarrow> recovery_report \<Rightarrow> attempt_row \<Rightarrow> reconcile_decision \<Rightarrow> ('z recovery_state_scheme, unit) rbo" where
  "settle_report opts now payload a d =
     (if dc_adopt d then
        bind (updateAttempt (at_id a)
                [AF_state (if rr_status payload = Report_completed_awaiting_upload then Collecting_artifacts else Running),
                 AF_orphaned_at None, AF_last_reconcile_at (Some now),
                 AF_process_identity (Some (rr_process_identity payload))]) (\<lambda>_. ret ())
      else if at_state a = Completed then ret ()
      else if dc_reason d = Some ''agent_mismatch'' then
        bind (updateAttempt (at_id a) [AF_last_reconcile_at (Some now)]) (\<lambda>_. rearmOrphanWatchdog opts now (at_id a))
      else markTerminateStaleFailed now a (dc_reason d))"

definition answer_report ::
  "recovery_opts \<Rightarrow> ts \<Rightarrow> string \<Rightarrow> recovery_report \<Rightarrow> attempt_row \<Rightarrow> ('z recovery_state_scheme, reconcile_decision) rbo" where
  "answer_report opts now ag p a =
     (if at_state a \<noteq> Completed \<and> falsy_str (at_process_identity a) then
        bind (updateAttempt (at_id a) [AF_last_reconcile_at (Some now)]) (\<lambda>_.
        bind (rearmOrphanWatchdog opts now (at_id a)) (\<lambda>_. ret (terminate_stale p ''process_identity_pending'')))
      else bind (sendReconcileDecision ag (decide ag (Some a) p)) (\<lambda>_.
           bind (settle_report opts now p a (decide ag (Some a) p)) (\<lambda>_. ret (decide ag (Some a) p))))"

lemma onRecoveryReport_answer:
  "onRecoveryReport opts now ag p =
     bind (clearAllTimersFor (lr_attempt_id (rr_lease p))) (\<lambda>_.
     bind (gets (getAttempt (lr_attempt_id (rr_lease p)))) (\<lambda>attempt.
       case attempt of
         None \<Rightarrow> bind (sendReconcileDecision ag (decide ag None p)) (\<lambda>_. ret (decide ag None p))
       | Some a \<Rightarrow> answer_report opts now ag p a))"
  unfolding onRecoveryReport_def answer_report_def settle_report_def Let_def ..

lemma touch_settle: "at_id r = a \<Longrightarrow> obeys (touches a) (settle_report opts now p r d)"
  unfolding settle_report_def by (auto intro!: touch_intros touch_markTerminate touch_rearm)

lemma touch_answer: "at_id r = a \<Longrightarrow> obeys (touches a) (answer_report opts now ag p r)"
  unfolding answer_report_def
  by (auto intro!: touch_intros touch_rearm touch_settle simp: sendReconcileDecision_def)

lemma touch_report: "obeys (touches (lr_attempt_id (rr_lease p))) (onRecoveryReport opts now ag p)"
  unfolding onRecoveryReport_answer
  by (rule touch.obeys_bind [OF touch_ops(6) touch_get_or])
    (auto simp: sendReconcileDecision_def intro: touch_intros touch_answer)

lemma watched_update_rearm:
  assumes "getAttempt a s \<noteq> None"
  shows "watched_at a (snd (bind (updateAttempt a [AF_last_reconcile_at (Some now)]) (\<lambda>_. rearmOrphanWatchdog opts now a) s))"
proof -
  from assms obtain r where r: "getAttempt a s = Some r" by auto
  let ?fs = "[AF_last_reconcile_at (Some now)]"
  have u: "updateAttempt a ?fs s = (Inr (set_attempt_row ?fs r),
      s\<lparr>job_attempts := sql_update (\<lambda>r. at_id r = a) (set_attempt_row ?fs) (job_attempts s)\<rparr>)"
    by (rule updateAttempt_state [OF r]) (simp_all add: no_agent_field_def)
  have "getAttempt a (s\<lparr>job_attempts := sql_update (\<lambda>r. at_id r = a) (set_attempt_row ?fs) (job_attempts s)\<rparr>) \<noteq> None"
    using r by (simp add: getAttempt_sql_update)
  from watched_rearm [OF this] show ?thesis by (simp add: bind_apply u)
qed

lemma snd_bind_ret [simp]: "snd (bind m (\<lambda>_. ret x) s) = snd (m s)"
  by (auto simp: bind_apply split: prod.split sum.split)

lemma watched_settle:
  assumes "getAttempt (at_id r) s = Some r"
  shows "watched_at (at_id r) (snd (settle_report opts now p r d s))"
proof -
  have mism: "watched_at (at_id r) (snd (bind (updateAttempt (at_id r) [AF_last_reconcile_at (Some now)])
      (\<lambda>_. rearmOrphanWatchdog opts now (at_id r)) s))"
    using assms by (intro watched_update_rearm) simp
  have stale: "watched_at (at_id r) (snd (markTerminateStaleFailed now r w s))" for w
    using getAttempt_markTerminate [of r s now w] assms by (intro not_orphaned_watched) auto
  have same: "watched_at (at_id r) s" if "at_state r = Completed"
    using that assms by (simp add: watched_at_def)
  have ad: "watched_at (at_id r) (snd (updateAttempt (at_id r) (AF_state (if b then Collecting_artifacts else Running)
      # [AF_orphaned_at None, AF_last_reconcile_at (Some now), AF_process_identity i]) s))" for b i
    using assms
    by (intro not_orphaned_watched) (auto simp: getAttempt_update no_agent_field_def set_attempt_row_def split: if_splits)
  show ?thesis
    unfolding settle_report_def using mism stale ad same by (cases "dc_adopt d"; cases "at_state r = Completed") simp_all
qed

lemma watched_answer:
  assumes "getAttempt (at_id r) s = Some r"
  shows "watched_at (at_id r) (snd (answer_report opts now ag p r s))"
proof (cases "at_state r \<noteq> Completed \<and> falsy_str (at_process_identity r)")
  case True
  then have "snd (answer_report opts now ag p r s) =
      snd (bind (updateAttempt (at_id r) [AF_last_reconcile_at (Some now)]) (\<lambda>_. rearmOrphanWatchdog opts now (at_id r)) s)"
    by (auto simp: answer_report_def bind_apply split: prod.split sum.split)
  then show ?thesis using watched_update_rearm assms by (metis option.distinct(1))
next
  case False
  obtain u where u: "sendReconcileDecision ag (decide ag (Some r) p) s = (Inr (), u)"
    using fst_sendReconcile by (metis prod.collapse)
  then have "getAttempt (at_id r) u = Some r"
    using getAttempt_sendReconcile assms by (metis snd_conv)
  from watched_settle [OF this] show ?thesis
    using False by (auto simp: answer_report_def bind_apply [of "sendReconcileDecision ag d" for d] u)
qed

lemma watched_onRecoveryReport:
  assumes "watched s"
  shows "watched (snd (onRecoveryReport opts now ag p s))"
proof (rule touches_watched [OF assms obeysD [OF touch_report]])
  let ?a = "lr_attempt_id (rr_lease p)"
  let ?s = "snd (clearAllTimersFor ?a s)"
  show "watched_at ?a (snd (onRecoveryReport opts now ag p s))"
  proof (cases "getAttempt ?a s")
    case None
    then show ?thesis by (simp add: onRecoveryReport_answer clearAllTimersFor_def watched_at_def)
  next
    case (Some r)
    then have "at_id r = ?a" by (rule getAttempt_id)
    with Some watched_answer [of r ?s opts now ag p] show ?thesis
      by (simp add: onRecoveryReport_answer clearAllTimersFor_def)
  qed
qed

section \<open>Startup\<close>

lemma reconcile_for_each:
  "for_each rows (\<lambda>row. setReconcile (at_id row) d) s =
     (Inr (), s\<lparr>reconcileTimers := fold (\<lambda>row m. map_set (at_id row) d m) rows (reconcileTimers s)\<rparr>)"
  by (induction rows arbitrary: s) (simp_all add: setReconcile_def)

lemma map_of_fold_set:
  "map_of (fold (\<lambda>row m. map_set (key row) d m) rows m) a = (if a \<in> key ` set rows then Some d else map_of m a)"
  by (induction rows arbitrary: m) (auto simp: map_of_map_set)

lemma watched_onControllerStartup: "watched (snd (onControllerStartup opts now s))"
  unfolding watched_def watched_at_def
proof (intro allI impI)
  fix a r
  assume r: "getAttempt a (snd (onControllerStartup opts now s)) = Some r" "at_state r = Orphaned"
  then have "getAttempt a s = Some r" by (simp add: onControllerStartup_def reconcile_for_each getAttempt_def)
  with r(2) have "a \<in> at_id ` set (sql_all (\<lambda>r. at_state r \<noteq> Completed) (job_attempts s))"
    by (auto simp: getAttempt_def sql_all_def dest: sql_get_Some)
  then show "armed a (snd (onControllerStartup opts now s))"
    by (simp add: armed_def onControllerStartup_def reconcile_for_each map_of_fold_set)
qed

section \<open>Steps of remote execution orphan nothing\<close>

definition no_new_orphans :: "'z recovery_state_scheme \<Rightarrow> 'z recovery_state_scheme \<Rightarrow> bool" where
  "no_new_orphans s t =
     (timers_of t = timers_of s \<and>
      (\<forall>a r'. getAttempt a t = Some r' \<longrightarrow> at_state r' = Orphaned \<longrightarrow>
         (\<exists>r. getAttempt a s = Some r \<and> at_state r = Orphaned)))"

lemma no_new_orphansI:
  "timers_of t = timers_of s \<Longrightarrow>
   (\<And>a r'. getAttempt a t = Some r' \<Longrightarrow> at_state r' = Orphaned \<Longrightarrow> \<exists>r. getAttempt a s = Some r \<and> at_state r = Orphaned) \<Longrightarrow>
   no_new_orphans s t"
  by (simp add: no_new_orphans_def)

lemma no_new_orphans_same: "timers_of t = timers_of s \<Longrightarrow> job_attempts t = job_attempts s \<Longrightarrow> no_new_orphans s t"
  by (simp add: no_new_orphans_def getAttempt_def)

lemma state_plain:
  assumes "list_all plain_field fs" "at_state (set_attempt_row fs r) = Orphaned"
  shows "at_state r = Orphaned"
  using assms
proof (induction fs arbitrary: r)
  case (Cons f fs)
  then have "at_state (set_attempt_field f r) = Orphaned" by (simp add: set_attempt_row_def)
  with Cons.prems(1) show ?case by (cases f) auto
qed (simp add: set_attempt_row_def)

lemma state_plain_transition:
  assumes "list_all plain_field fs" "st \<noteq> Orphaned"
  shows "at_state (set_attempt_row (AF_state st # fs) r) \<noteq> Orphaned"
  using state_plain [of fs "r\<lparr>at_state := st\<rparr>"] assms by (auto simp: set_attempt_row_def)

lemma orphan_ops:
  "st \<noteq> Orphaned \<Longrightarrow> list_all plain_field fs \<Longrightarrow> no_new_orphans s (snd (transitionAttemptState a st fs s))"
  "list_all plain_field fs \<Longrightarrow> no_new_orphans s (snd (updateAttempt a fs s))"
  "no_new_orphans s (snd (updateAttempt a [AF_log_acked_sequence q] s))"
  "no_new_orphans s (snd (bumpLeaseEpoch a s))"
  "at_state row \<noteq> Orphaned \<Longrightarrow> no_new_orphans s (snd (insertAttempt row s))"
  "no_new_orphans s (s\<lparr>job_attempts := sql_update (\<lambda>r. at_id r = a) (\<lambda>r. r\<lparr>at_artifact_collection_rules := n\<rparr>) (job_attempts s)\<rparr>)"
  "no_new_orphans s (snd (renewActiveLease now ag ttl s))"
proof -
  show "st \<noteq> Orphaned \<Longrightarrow> list_all plain_field fs \<Longrightarrow> no_new_orphans s (snd (transitionAttemptState a st fs s))"
    by (rule no_new_orphansI) (auto simp: getAttempt_transition state_plain_transition split: if_splits)
  show "list_all plain_field fs \<Longrightarrow> no_new_orphans s (snd (updateAttempt a fs s))"
    by (rule no_new_orphansI) (auto simp: getAttempt_update plain_no_agent dest: state_plain split: if_splits)
  show "no_new_orphans s (snd (updateAttempt a [AF_log_acked_sequence q] s))"
    by (rule no_new_orphansI) (auto simp: getAttempt_update no_agent_field_def set_attempt_row_def split: if_splits)
  show "no_new_orphans s (snd (bumpLeaseEpoch a s))"
    by (rule no_new_orphansI, simp)
      (auto simp: bumpLeaseEpoch_def Let_def getAttempt_epoch_update split: option.splits if_splits)
  show "at_state row \<noteq> Orphaned \<Longrightarrow> no_new_orphans s (snd (insertAttempt row s))"
    by (rule no_new_orphansI, simp)
      (auto simp: insertAttempt_def getAttempt_def sql_get_append split: option.splits if_splits)
  show "no_new_orphans s (s\<lparr>job_attempts := sql_update (\<lambda>r. at_id r = a) (\<lambda>r. r\<lparr>at_artifact_collection_rules := n\<rparr>) (job_attempts s)\<rparr>)"
    by (rule no_new_orphansI) (auto simp: getAttempt_collection timers_of_def split: if_splits)
  show "no_new_orphans s (snd (renewActiveLease now ag ttl s))"
    by (rule no_new_orphansI) (auto simp: getAttempt_renew, simp add: renew_attempts timers_of_def)
qed

lemma timers_memory [simp]:
  "timers_of (s\<lparr>ws_sent := x1\<rparr>) = timers_of s" "timers_of (s\<lparr>log_files := x2\<rparr>) = timers_of s"
  "timers_of (s\<lparr>live_hub := x3\<rparr>) = timers_of s" "timers_of (s\<lparr>logChunkChains := x4\<rparr>) = timers_of s"
  "timers_of (s\<lparr>log_writing := x5\<rparr>) = timers_of s" "timers_of (s\<lparr>artifactExpectations := x6\<rparr>) = timers_of s"
  "timers_of (s\<lparr>connectedAgents := x7\<rparr>) = timers_of s"
  by (simp_all add: timers_of_def)

interpretation orph: remote_steps no_new_orphans "\<lambda>_. True"
proof unfold_locales
  show "no_new_orphans s u" if "no_new_orphans s t" "no_new_orphans t u" for s t u :: "'a recovery_state_scheme"
    using that unfolding no_new_orphans_def by metis
qed (auto simp: obeys_def orphan_ops intro: no_new_orphans_same)

lemma watched_remote_step: "remote_step env s t \<Longrightarrow> watched s \<Longrightarrow> watched t"
  using orph.s_step [of env s t]
  by (fastforce simp: no_new_orphans_def watched_def watched_at_def armed_def timers_of_def)

end
