(* ===== verification/Recovery_Safety.thy ===== *)
theory Recovery_Safety
  imports Recovery_Laws Remote_Lifecycle
begin

text \<open>
  What the recovery coordinator guarantees. \<open>recovery_step\<close> interleaves its operations and timers
  with every step of remote execution; the properties are about the states reachable from a Controller
  start, about adoption, and about completed attempts.
\<close>

section \<open>Steps\<close>

inductive recovery_step ::
  "recovery_opts \<Rightarrow> remote_env \<Rightarrow> 'z recovery_state_scheme \<Rightarrow> 'z recovery_state_scheme \<Rightarrow> bool" for opts env where
  cs_execution: "remote_step env s t \<Longrightarrow> recovery_step opts env s t"
| cs_disconnect: "recovery_step opts env s (snd (onAgentDisconnect opts now ag s))"
| cs_connect: "recovery_step opts env s (snd (onAgentConnect now ag boot s))"
| cs_report: "recovery_step opts env s (snd (onRecoveryReport opts now ag p s))"
| cs_grace: "map_of (graceTimers s) a = Some d \<Longrightarrow> d \<le> now \<Longrightarrow> recovery_step opts env s (snd (graceFires opts now a s))"
| cs_orphan: "map_of (orphanTimers s) a = Some d \<Longrightarrow> d \<le> now \<Longrightarrow> recovery_step opts env s (snd (orphanFires now a s))"
| cs_reconcile: "map_of (reconcileTimers s) a = Some d \<Longrightarrow> d \<le> now \<Longrightarrow> recovery_step opts env s (snd (reconcileFires now a s))"

lemma watched_step: "recovery_step opts env s t \<Longrightarrow> watched s \<Longrightarrow> watched t"
  by (induction rule: recovery_step.induct)
    (blast intro: watched_remote_step watched_onAgentDisconnect watched_onAgentConnect watched_onRecoveryReport
      watched_graceFires watched_orphanFires watched_reconcileFires)+

lemma watched_steps: "(recovery_step opts env)\<^sup>*\<^sup>* s t \<Longrightarrow> watched s \<Longrightarrow> watched t"
  by (induction rule: rtranclp_induct) (auto intro: watched_step)

lemma lost_row:
  assumes "getAttempt a s = Some r"
  shows "\<exists>r'. getAttempt a (snd (markLost now r s)) = Some r' \<and> at_state r' = Completed \<and> at_outcome r' = Some Lost \<and>
     at_finished_at r' = Some now"
  using assms getAttempt_id [OF assms] by (simp add: getAttempt_markLost set_attempt_row_def)

lemma orphanFires_lost:
  assumes "getAttempt a s = Some r" "at_state r = Orphaned"
  shows "\<exists>r'. getAttempt a (snd (orphanFires now a s)) = Some r' \<and> at_state r' = Completed \<and> at_outcome r' = Some Lost \<and>
     at_finished_at r' = Some now"
  using assms lost_row [of a "s\<lparr>orphanTimers := map_delete a (orphanTimers s)\<rparr>" r now]
  by (simp add: orphanFires_def onOrphanTimeout_def)

lemma reconcileFires_lost:
  assumes "getAttempt a s = Some r" "at_state r \<noteq> Completed"
  shows "\<exists>r'. getAttempt a (snd (reconcileFires now a s)) = Some r' \<and> at_state r' = Completed \<and> at_outcome r' = Some Lost \<and>
     at_finished_at r' = Some now"
  using assms lost_row [of a "s\<lparr>reconcileTimers := map_delete a (reconcileTimers s)\<rparr>" r now]
  by (simp add: reconcileFires_def)

text \<open>
  (C6) No orphan is forgotten. From a Controller start on, whatever the interleaving of Agent messages,
  disconnects, reconnects, recovery reports, log writes and timers, an attempt in state \<open>orphaned\<close> always
  has an armed orphan or reconcile timer, and when that timer is due the attempt is completed as \<open>lost\<close>.
\<close>

theorem orphans_always_end:
  assumes "(recovery_step opts env)\<^sup>*\<^sup>* (snd (onControllerStartup opts now0 s0)) s"
    and "getAttempt a s = Some r" and "at_state r = Orphaned"
  shows "\<exists>due t. ((map_of (orphanTimers s) a = Some due \<and> t = snd (orphanFires due a s)) \<or>
                  (map_of (reconcileTimers s) a = Some due \<and> t = snd (reconcileFires due a s))) \<and>
     recovery_step opts env s t \<and>
     (\<exists>r'. getAttempt a t = Some r' \<and> at_state r' = Completed \<and> at_outcome r' = Some Lost \<and> at_finished_at r' = Some due)"
proof -
  have "watched s" using watched_steps [OF assms(1) watched_onControllerStartup] .
  with assms(2,3) have "armed a s" by (simp add: watched_def watched_at_def)
  then consider d where "map_of (orphanTimers s) a = Some d" | d where "map_of (reconcileTimers s) a = Some d"
    by (auto simp: armed_def)
  then show ?thesis
  proof cases
    case 1
    then show ?thesis using orphanFires_lost [OF assms(2,3), of d] cs_orphan by blast
  next
    case 2
    have "at_state r \<noteq> Completed" using assms(3) by simp
    with 2 show ?thesis using reconcileFires_lost [OF assms(2), of d] cs_reconcile by blast
  qed
qed

section \<open>Completed attempts\<close>

lemma touches_frame: "obeys (touches a) m \<Longrightarrow> obeys (attempt_frame a) m"
  by (auto simp: obeys_def touches_def)

lemma open_rows_outside:
  assumes "db_wf s" "getAttempt a s = Some r" "at_state r = Completed"
  shows "a \<notin> at_id ` set (open_attempts_of ag s)"
proof
  assume "a \<in> at_id ` set (open_attempts_of ag s)"
  then obtain r' where r': "r' \<in> set (job_attempts s)" "at_id r' = a" "at_state r' \<noteq> Completed"
    by (auto simp: open_attempts_of_def sql_all_def)
  from assms(2) have "r \<in> set (job_attempts s)" "at_id r = a" by (auto simp: getAttempt_def dest: sql_get_Some)
  with r' assms(1) have "r = r'" by (auto simp: db_wf_def attempts_wf_def distinct_map inj_on_def)
  with r' assms(3) show False by simp
qed

lemma for_each_outside:
  assumes "\<And>x. obeys (attempt_frame (at_id x)) (f x)" and "a \<notin> at_id ` set rows"
  shows "getAttempt a (snd (for_each rows f s)) = getAttempt a s"
proof -
  have "obeys (frame_outside (at_id ` set rows)) (for_each rows f)"
    by (rule outside.obeys_for_each) (auto intro: outside_frame [OF _ assms(1)])
  with assms(2) show ?thesis by (auto simp: obeys_def frame_outside_def)
qed

lemma disconnect_completed:
  assumes "db_wf s" "getAttempt a s = Some r" "at_state r = Completed"
  shows "getAttempt a (snd (onAgentDisconnect opts now ag s)) = Some r"
    "getAttempt a (snd (onAgentConnect now ag boot s)) = Some r"
proof -
  have "getAttempt a (snd (for_each (open_attempts_of ag s) (disconnect_one opts now) s)) = Some r"
      "getAttempt a (snd (for_each (open_attempts_of ag s) (lose_if_open now) s)) = Some r"
    using open_rows_outside [OF assms] assms(2)
    by (auto simp: for_each_outside touches_frame touch_disconnect touch_lose)
  with assms(2) show "getAttempt a (snd (onAgentDisconnect opts now ag s)) = Some r"
    "getAttempt a (snd (onAgentConnect now ag boot s)) = Some r"
    by (auto simp: onAgentDisconnect_def onAgentConnect_def split: option.split)
qed

lemma fires_completed:
  assumes "getAttempt a s = Some r" "at_state r = Completed"
  shows "getAttempt a (snd (graceFires opts now b s)) = Some r" "getAttempt a (snd (orphanFires now b s)) = Some r"
    "getAttempt a (snd (reconcileFires now b s)) = Some r"
proof -
  have "getAttempt a (snd (graceFires opts now b s)) = Some r \<and> getAttempt a (snd (orphanFires now b s)) = Some r \<and>
      getAttempt a (snd (reconcileFires now b s)) = Some r"
  proof (cases "b = a")
    case True
    with assms show ?thesis by (simp add: graceFires_def onGraceElapsed_def orphanFires_def onOrphanTimeout_def reconcileFires_def)
  next
    case False
    with assms show ?thesis
      using obeysD [OF touch_fires(1), of b s opts now] obeysD [OF touch_fires(2), of b s now] obeysD [OF touch_fires(3), of b s now]
      by (auto simp: touches_def attempt_frame_def)
  qed
  then show "getAttempt a (snd (graceFires opts now b s)) = Some r" "getAttempt a (snd (orphanFires now b s)) = Some r"
    "getAttempt a (snd (reconcileFires now b s)) = Some r" by blast+
qed

lemma report_completed:
  assumes "getAttempt a s = Some r" "at_state r = Completed"
  shows "getAttempt a (snd (onRecoveryReport opts now ag p s)) = Some r"
proof (cases "lr_attempt_id (rr_lease p) = a")
  case True
  with assms show ?thesis
    by (simp add: onRecoveryReport_answer clearAllTimersFor_def answer_report_def settle_report_def decide_def Let_def
        terminate_stale_def bind_apply [of "sendReconcileDecision ag d" for d] split: prod.split sum.split)
      (metis getAttempt_sendReconcile getAttempt_timers snd_conv)
next
  case False
  with assms obeysD [OF touch_report, of p s opts now ag] show ?thesis by (auto simp: touches_def attempt_frame_def)
qed

text \<open>
  Recovery never reopens or rewrites a completed attempt: no disconnect, reconnect (with or without
  a new boot id), recovery report from any Agent and no timer changes its row in any way.
\<close>

theorem recovery_leaves_completed_alone:
  assumes "db_wf s" and "getAttempt a s = Some r" and "at_state r = Completed"
    and "t \<in> {snd (onAgentDisconnect opts now ag s), snd (onAgentConnect now ag boot s), snd (onRecoveryReport opts now ag p s),
              snd (graceFires opts now b s), snd (orphanFires now b s), snd (reconcileFires now b s)}"
  shows "getAttempt a t = Some r"
  using assms(4) disconnect_completed [OF assms(1-3)] fires_completed [OF assms(2,3)] report_completed [OF assms(2,3)]
  by blast

section \<open>Adoption\<close>

definition may_adopt :: "string \<Rightarrow> recovery_report \<Rightarrow> attempt_row \<Rightarrow> bool" where
  "may_adopt agentId p r =
     (at_state r \<noteq> Completed \<and> at_agent_id r = Some agentId \<and> at_lease_id r = lr_lease_id (rr_lease p) \<and>
      at_lease_epoch r = lr_lease_epoch (rr_lease p) \<and> at_process_identity r = Some (rr_process_identity p) \<and>
      rr_process_identity p \<noteq> [])"

lemma decide_adopt:
  "dc_adopt (decide ag (Some r) p) \<longleftrightarrow>
     at_state r \<noteq> Completed \<and> at_agent_id r = Some ag \<and> at_lease_id r = lr_lease_id (rr_lease p) \<and>
     at_lease_epoch r = lr_lease_epoch (rr_lease p) \<and> at_process_identity r = Some (rr_process_identity p)"
  by (simp add: decide_def Let_def terminate_stale_def)

lemma decide_None: "\<not> dc_adopt (decide ag None p)"
  by (simp add: decide_def terminate_stale_def)

lemma answer_adopts:
  assumes "fst (answer_report opts now ag p r s) = Inr d" "dc_adopt d"
  shows "may_adopt ag p r"
proof (cases "at_state r \<noteq> Completed \<and> falsy_str (at_process_identity r)")
  case True
  with assms show ?thesis
    by (auto simp: answer_report_def terminate_stale_def bind_apply split: prod.splits sum.splits)
next
  case False
  with assms have "d = decide ag (Some r) p"
    by (auto simp: answer_report_def bind_apply split: prod.splits sum.splits)
  with False assms(2) show ?thesis by (auto simp: decide_adopt may_adopt_def falsy_str_def)
qed

lemma adoption_run:
  fixes s :: "'z recovery_state_scheme" and now :: ts
  assumes r: "getAttempt (lr_attempt_id (rr_lease p)) s = Some r" and ok: "may_adopt ag p r"
  defines "u \<equiv> snd (sendReconcileDecision ag (decide ag (Some r) p) (snd (clearAllTimersFor (lr_attempt_id (rr_lease p)) s)))"
    and "fs \<equiv> [AF_state (if rr_status p = Report_completed_awaiting_upload then Collecting_artifacts else Running),
               AF_orphaned_at None, AF_last_reconcile_at (Some now), AF_process_identity (Some (rr_process_identity p))]"
  shows "onRecoveryReport opts now ag p s =
     (Inr (decide ag (Some r) p),
      u\<lparr>job_attempts := sql_update (\<lambda>r. at_id r = lr_attempt_id (rr_lease p)) (set_attempt_row fs) (job_attempts u)\<rparr>)"
proof -
  let ?a = "lr_attempt_id (rr_lease p)" and ?s = "snd (clearAllTimersFor (lr_attempt_id (rr_lease p)) s)"
  have id: "at_id r = ?a" using r by (rule getAttempt_id)
  have u: "sendReconcileDecision ag (decide ag (Some r) p) ?s = (Inr (), u)"
    unfolding u_def by (simp add: prod_eq_iff)
  have "getAttempt ?a u = Some r" using r by (simp add: u_def clearAllTimersFor_def)
  then have upd: "updateAttempt ?a fs u = (Inr (set_attempt_row fs r),
      u\<lparr>job_attempts := sql_update (\<lambda>r. at_id r = ?a) (set_attempt_row fs) (job_attempts u)\<rparr>)"
    by (rule updateAttempt_state) (simp_all add: fs_def no_agent_field_def)
  have d: "dc_adopt (decide ag (Some r) p)" using ok by (simp add: decide_adopt may_adopt_def)
  have "settle_report opts now p r (decide ag (Some r) p) u =
      (Inr (), u\<lparr>job_attempts := sql_update (\<lambda>r. at_id r = ?a) (set_attempt_row fs) (job_attempts u)\<rparr>)"
    using d upd by (simp add: settle_report_def id bind_apply fs_def)
  with u ok have "answer_report opts now ag p r ?s = (Inr (decide ag (Some r) p),
      u\<lparr>job_attempts := sql_update (\<lambda>r. at_id r = ?a) (set_attempt_row fs) (job_attempts u)\<rparr>)"
    by (simp add: answer_report_def bind_apply may_adopt_def falsy_str_def)
  with r show ?thesis by (simp add: onRecoveryReport_answer clearAllTimersFor_def)
qed

text \<open>
  (C7) Who is adopted: a recovery report is answered with \<open>adopt\<close> if and only if the attempt exists,
  is not completed, belongs to the reporting Agent, and the report carries its lease, its epoch and
  the non-empty process identity recorded when the job started.
\<close>

theorem recovery_adopts_exactly_the_owner:
  "(\<exists>d. fst (onRecoveryReport opts now ag p s) = Inr d \<and> dc_adopt d) \<longleftrightarrow>
   (\<exists>r. getAttempt (lr_attempt_id (rr_lease p)) s = Some r \<and> may_adopt ag p r)"
proof
  assume "\<exists>d. fst (onRecoveryReport opts now ag p s) = Inr d \<and> dc_adopt d"
  then obtain d where d: "fst (onRecoveryReport opts now ag p s) = Inr d" "dc_adopt d" by blast
  show "\<exists>r. getAttempt (lr_attempt_id (rr_lease p)) s = Some r \<and> may_adopt ag p r"
  proof (cases "getAttempt (lr_attempt_id (rr_lease p)) s")
    case None
    with d show ?thesis
      by (auto simp: onRecoveryReport_answer clearAllTimersFor_def bind_apply decide_None split: prod.splits sum.splits)
  next
    case (Some r)
    with d answer_adopts show ?thesis by (fastforce simp: onRecoveryReport_answer clearAllTimersFor_def)
  qed
next
  assume "\<exists>r. getAttempt (lr_attempt_id (rr_lease p)) s = Some r \<and> may_adopt ag p r"
  then obtain r where "getAttempt (lr_attempt_id (rr_lease p)) s = Some r" "may_adopt ag p r" by blast
  with adoption_run [OF this] show "\<exists>d. fst (onRecoveryReport opts now ag p s) = Inr d \<and> dc_adopt d"
    by (simp add: decide_adopt may_adopt_def)
qed

text \<open>
  What adoption does: the attempt goes back to \<open>running\<close> (or to \<open>collecting_artifacts\<close> when the job
  has ended and only its upload is missing), is no longer marked orphaned, keeps its lease and its log
  position, and none of its timers can fire any more; no other attempt changes; the Agent is told to
  resume its log exactly after the last acknowledged chunk.
\<close>

theorem adoption_resumes_attempt:
  assumes "getAttempt (lr_attempt_id (rr_lease p)) s = Some r" and "may_adopt ag p r"
    and "map_of (connectedAgents s) ag = Some conn" and "cn_open conn"
  shows "\<exists>t. onRecoveryReport opts now ag p s =
       (Inr \<lparr>dc_lease = rr_lease p, dc_adopt = True, dc_resume_from_sequence = Some (at_log_acked_sequence r), dc_reason = None\<rparr>, t) \<and>
     getAttempt (lr_attempt_id (rr_lease p)) t =
       Some (r\<lparr>at_state := (if rr_status p = Report_completed_awaiting_upload then Collecting_artifacts else Running),
              at_orphaned_at := None, at_last_reconcile_at := Some now\<rparr>) \<and>
     (\<forall>b. b \<noteq> lr_attempt_id (rr_lease p) \<longrightarrow> getAttempt b t = getAttempt b s) \<and>
     (\<forall>m \<in> {graceTimers t, orphanTimers t, reconcileTimers t}. map_of m (lr_attempt_id (rr_lease p)) = None) \<and>
     ws_sent t = ws_sent s @ [\<lparr>fr_socket = cn_socket conn, fr_attempt_id = lr_attempt_id (rr_lease p),
        fr_lease_id = lr_lease_id (rr_lease p), fr_lease_epoch = lr_lease_epoch (rr_lease p),
        fr_payload = Reconcile_decision True (Some (at_log_acked_sequence r)) None\<rparr>]"
proof -
  let ?a = "lr_attempt_id (rr_lease p)"
  let ?d = "\<lparr>dc_lease = rr_lease p, dc_adopt = True, dc_resume_from_sequence = Some (at_log_acked_sequence r), dc_reason = None\<rparr>"
  let ?fs = "[AF_state (if rr_status p = Report_completed_awaiting_upload then Collecting_artifacts else Running),
               AF_orphaned_at None, AF_last_reconcile_at (Some now), AF_process_identity (Some (rr_process_identity p))]"
  have d: "decide ag (Some r) p = ?d"
    using assms(2) getAttempt_id [OF assms(1)]
    by (cases "rr_lease p") (simp add: decide_def may_adopt_def Let_def)
  let ?u = "snd (sendReconcileDecision ag ?d (snd (clearAllTimersFor ?a s)))"
  let ?t = "?u\<lparr>job_attempts := sql_update (\<lambda>r. at_id r = ?a) (set_attempt_row ?fs) (job_attempts ?u)\<rparr>"
  have run: "onRecoveryReport opts now ag p s = (Inr ?d, ?t)"
    using adoption_run [OF assms(1,2)] unfolding d .
  have u: "?u = s\<lparr>graceTimers := map_delete ?a (graceTimers s), orphanTimers := map_delete ?a (orphanTimers s),
      reconcileTimers := map_delete ?a (reconcileTimers s), ws_sent := ws_sent s @ [\<lparr>fr_socket = cn_socket conn, fr_attempt_id = ?a,
        fr_lease_id = lr_lease_id (rr_lease p), fr_lease_epoch = lr_lease_epoch (rr_lease p),
        fr_payload = Reconcile_decision True (Some (at_log_acked_sequence r)) None\<rparr>]\<rparr>"
    using assms(3,4) by (simp add: sendReconcileDecision_def sendToAgent_def sendWsFrame_def clearAllTimersFor_def)
  have row: "set_attempt_row ?fs r = r\<lparr>at_state := (if rr_status p = Report_completed_awaiting_upload then Collecting_artifacts else Running),
              at_orphaned_at := None, at_last_reconcile_at := Some now\<rparr>"
    using assms(2) by (simp add: set_attempt_row_def may_adopt_def)
  have rows: "getAttempt b ?t = (if b = ?a then map_option (set_attempt_row ?fs) (getAttempt b ?u) else getAttempt b ?u)" for b
    by (rule getAttempt_sql_update)
  show ?thesis
    unfolding run using assms(1) rows row by (auto simp: u map_of_map_delete)
qed

section \<open>Disconnects\<close>

definition disconnected_row :: "recovery_opts \<Rightarrow> ts \<Rightarrow> attempt_row \<Rightarrow> attempt_row" where
  "disconnected_row opts now r =
     (if isPreStartDisconnect (at_state r) (at_process_identity r)
      then r\<lparr>at_state := Completed, at_outcome := Some Failed, at_finished_at := Some now\<rparr>
      else r\<lparr>at_lease_deadline := Some (now + (ro_graceSeconds opts + ro_orphanSeconds opts + 30) * 1000)\<rparr>)"

definition job_failed :: "string \<Rightarrow> 'z controller_db_scheme \<Rightarrow> bool" where
  "job_failed j s = (\<exists>r. getJob j s = Some r \<and> jb_state r = Completed \<and> jb_outcome r = Some Failed \<and>
     jb_failure_category r = Some Agent_disconnected)"

definition disconnect_settled :: "recovery_opts \<Rightarrow> ts \<Rightarrow> attempt_row \<Rightarrow> 'z recovery_state_scheme \<Rightarrow> bool" where
  "disconnect_settled opts now r t =
     (getAttempt (at_id r) t = Some (disconnected_row opts now r) \<and>
      (if isPreStartDisconnect (at_state r) (at_process_identity r) then job_failed (at_job_id r) t
       else map_of (graceTimers t) (at_id r) = Some (now + ro_graceSeconds opts * 1000)))"

definition disconnect_ready :: "attempt_row \<Rightarrow> 'z recovery_state_scheme \<Rightarrow> bool" where
  "disconnect_ready r s = (getAttempt (at_id r) s = Some r \<and> getJob (at_job_id r) s \<noteq> None)"

definition disconnect_frame :: "string \<Rightarrow> 'z recovery_state_scheme \<Rightarrow> 'z recovery_state_scheme \<Rightarrow> bool" where
  "disconnect_frame a s t =
     (in_transaction t = in_transaction s \<and>
      (\<forall>b. b \<noteq> a \<longrightarrow> getAttempt b t = getAttempt b s \<and> map_of (graceTimers t) b = map_of (graceTimers s) b) \<and>
      (\<forall>j. getJob j t = getJob j s \<or> job_failed j t))"

lemma getJob_timers [simp]:
  "getJob j (s\<lparr>graceTimers := g\<rparr>) = getJob j s" "getJob j (s\<lparr>orphanTimers := o'\<rparr>) = getJob j s"
  "getJob j (s\<lparr>reconcileTimers := c\<rparr>) = getJob j s"
  by (simp_all add: getJob_def)

lemma graceTimers_job_updated [simp]: "graceTimers (job_updated now j st fs s) = graceTimers s"
  using with_notifier_timers [of _ "s\<lparr>jobs := sql_update (\<lambda>r. jb_id r = j) (set_job_row (st, now, fs)) (jobs s)\<rparr>"]
  by (simp add: job_updated_def timers_of_def)

lemma disconnect_one_run:
  assumes "disconnect_ready r s" "\<not> in_transaction s"
  shows "\<exists>t. disconnect_one opts now r s = (Inr (), t) \<and> disconnect_settled opts now r t \<and> disconnect_frame (at_id r) s t"
proof (cases "isPreStartDisconnect (at_state r) (at_process_identity r)")
  case True
  let ?fs = "[AF_outcome (Some Failed), AF_finished_at (Some now)]"
  let ?jfs = "[JF_outcome (Some Failed), JF_finished_at now, JF_failure_category (Some Agent_disconnected),
              JF_failure_message (Some ''Agent disconnected before script start'')]"
  let ?u = "snd (clearAllTimersFor (at_id r) s)"
  define v where "v = ?u\<lparr>job_attempts := sql_update (\<lambda>q. at_id q = at_id r) (set_attempt_row (AF_state Completed # ?fs)) (job_attempts ?u)\<rparr>"
  let ?t = "job_updated now (at_job_id r) Completed ?jfs v"
  from assms obtain j where j: "getJob (at_job_id r) s = Some j" by (auto simp: disconnect_ready_def)
  have v: "getAttempt b v = (if b = at_id r then map_option (set_attempt_row (AF_state Completed # ?fs)) (getAttempt b s) else getAttempt b s)"
      "getJob k v = getJob k s" "in_transaction v = in_transaction s"
      "graceTimers v = map_delete (at_id r) (graceTimers s)" for b k
    unfolding v_def by (subst getAttempt_sql_update) (simp_all add: clearAllTimersFor_def)
  have "getAttempt (at_id r) ?u = Some r" using assms by (simp add: clearAllTimersFor_def disconnect_ready_def)
  then have tr: "transitionAttemptState (at_id r) Completed ?fs ?u = (Inr (set_attempt_row (AF_state Completed # ?fs) r), v)"
    unfolding v_def by (rule transitionAttemptState_existing)
  have tj: "transitionJobState now (at_job_id r) Completed ?jfs v = (Inr (set_job_row (Completed, now, ?jfs) j), ?t)"
    by (rule transitionJobState_existing) (use j assms in \<open>simp_all add: v no_snapshot_field_def\<close>)
  have run: "disconnect_one opts now r s = (Inr (), ?t)"
    using True tr tj by (simp add: disconnect_one_def markPreStartLost_def bind_apply clearAllTimersFor_def)
  show ?thesis
    unfolding run disconnect_settled_def disconnect_frame_def disconnected_row_def job_failed_def
    using assms True j
    by (auto simp: v disconnect_ready_def set_attempt_row_def set_job_row_def map_of_map_delete)
next
  case False
  let ?fs = "[AF_lease_deadline (Some (now + (ro_graceSeconds opts + ro_orphanSeconds opts + 30) * 1000))]"
  have r: "getAttempt (at_id r) s = Some r" using assms by (simp add: disconnect_ready_def)
  have "updateAttempt (at_id r) ?fs s = (Inr (set_attempt_row ?fs r),
      s\<lparr>job_attempts := sql_update (\<lambda>q. at_id q = at_id r) (set_attempt_row ?fs) (job_attempts s)\<rparr>)"
    by (rule updateAttempt_state [OF r]) (simp_all add: no_agent_field_def)
  with False r show ?thesis
    by (auto simp: disconnect_one_def bind_apply setGrace_def disconnect_settled_def disconnect_frame_def
        disconnected_row_def getAttempt_sql_update map_of_map_set set_attempt_row_def)
qed

lemma frame_ready: "disconnect_frame a s t \<Longrightarrow> at_id r \<noteq> a \<Longrightarrow> disconnect_ready r s \<Longrightarrow> disconnect_ready r t"
  by (auto simp: disconnect_frame_def disconnect_ready_def job_failed_def) (metis+)

lemma frame_settled:
  "disconnect_frame a s t \<Longrightarrow> at_id r \<noteq> a \<Longrightarrow> disconnect_settled opts now r s \<Longrightarrow> disconnect_settled opts now r t"
  by (auto simp: disconnect_frame_def disconnect_settled_def job_failed_def) (metis+)

lemma disconnect_all:
  "distinct (map at_id rows) \<Longrightarrow> \<not> in_transaction s \<Longrightarrow> list_all (\<lambda>r. disconnect_ready r s) rows \<Longrightarrow>
   \<exists>t. for_each rows (disconnect_one opts now) s = (Inr (), t) \<and>
       (\<forall>r. at_id r \<notin> at_id ` set rows \<longrightarrow> disconnect_settled opts now r s \<longrightarrow> disconnect_settled opts now r t) \<and>
       list_all (\<lambda>r. disconnect_settled opts now r t) rows"
proof (induction rows arbitrary: s)
  case (Cons r rows)
  from disconnect_one_run [of r s opts now] Cons.prems obtain u where
    u: "disconnect_one opts now r s = (Inr (), u)" "disconnect_settled opts now r u" "disconnect_frame (at_id r) s u" by auto
  have "list_all (\<lambda>r. disconnect_ready r u) rows"
    using Cons.prems frame_ready [OF u(3)] by (fastforce simp: list_all_iff image_iff)
  moreover have "\<not> in_transaction u" using u(3) Cons.prems by (simp add: disconnect_frame_def)
  ultimately obtain t where t: "for_each rows (disconnect_one opts now) u = (Inr (), t)"
      "\<forall>r. at_id r \<notin> at_id ` set rows \<longrightarrow> disconnect_settled opts now r u \<longrightarrow> disconnect_settled opts now r t"
      "list_all (\<lambda>r. disconnect_settled opts now r t) rows"
    using Cons.IH [of u] Cons.prems by auto
  moreover have "disconnect_settled opts now r t" using t(2) u(2) Cons.prems by auto
  ultimately show ?case using u(1) frame_settled [OF u(3)] by (auto simp: bind_apply)
qed auto

text \<open>
  What a disconnect does to the Agent's open attempts: the call returns, and every attempt that has
  not started its script is failed at once, its job with it; every other attempt keeps its state, gets its
  lease extended beyond the grace and orphan windows (so that the lease sweep cannot end it first) and
  gets a grace timer.
\<close>

theorem disconnect_settles_every_attempt:
  assumes "db_wf s" and "\<not> in_transaction s"
  shows "\<exists>t. onAgentDisconnect opts now ag s = (Inr (), t) \<and>
     (\<forall>r \<in> set (job_attempts s). at_agent_id r = Some ag \<and> at_state r \<noteq> Completed \<longrightarrow> disconnect_settled opts now r t)"
proof -
  let ?rows = "open_attempts_of ag s"
  have sub: "set ?rows \<subseteq> set (job_attempts s)" by (auto simp: open_attempts_of_def sql_all_def)
  have "disconnect_ready r s" if "r \<in> set (job_attempts s)" for r
  proof -
    have "at_id r \<in> at_id ` set (job_attempts s)" using that by blast
    then obtain r' where r': "getAttempt (at_id r) s = Some r'" unfolding getAttempt_mem [symmetric] by blast
    then have "r' \<in> set (job_attempts s)" "at_id r' = at_id r" by (auto simp: getAttempt_def dest: sql_get_Some)
    with that assms(1) have "r' = r" by (auto simp: db_wf_def attempts_wf_def distinct_map inj_on_def)
    moreover have "getJob (at_job_id r) s \<noteq> None"
      unfolding getJob_mem using assms(1) that by (auto simp: db_wf_def attempts_wf_def)
    ultimately show ?thesis using r' by (simp add: disconnect_ready_def)
  qed
  with sub have "list_all (\<lambda>r. disconnect_ready r s) ?rows" by (auto simp: list_all_iff)
  moreover have "distinct (map at_id ?rows)"
    using assms(1) by (simp add: open_attempts_of_def sql_all_def db_wf_def attempts_wf_def distinct_map_filter)
  ultimately obtain t where "for_each ?rows (disconnect_one opts now) s = (Inr (), t)"
      "list_all (\<lambda>r. disconnect_settled opts now r t) ?rows"
    using disconnect_all [of ?rows s opts now] assms(2) by blast
  then show ?thesis by (auto simp: onAgentDisconnect_def list_all_iff open_attempts_of_def sql_all_def)
qed

section \<open>A recovering controller\<close>

definition demo_recovery :: "run_state \<Rightarrow> string option \<Rightarrow> recovery_state" where
  "demo_recovery st identity =
     \<lparr>in_transaction = False, bound_notifier = None, unbound_managed = False, woken = [],
      agents = [demo_agent], jobs = [demo_job Running],
      job_attempts = [(demo_attempt st None 1)\<lparr>at_process_identity := identity, at_log_acked_sequence := 4\<rparr>], job_events = [],
      snapshots = [demo_snapshot],
      connectedAgents = [(''g'', \<lparr>cn_socket = 1, cn_open = True, cn_lastHeartbeatAt = 0, cn_connectionHost = None\<rparr>)],
      ws_sent = [], log_files = [], live_hub = empty_hub, artifactExpectations = [], logChunkChains = [], log_writing = [],
      graceTimers = [], orphanTimers = [], reconcileTimers = []\<rparr>"

definition demo_report :: recovery_report where
  "demo_report = \<lparr>rr_lease = demo_lease 1, rr_status = Report_running, rr_process_identity = ''7:1'',
     rr_last_sent_sequence = 6, rr_last_acked_sequence = 4, rr_artifact_upload_pending = False\<rparr>"

lemma demo_recovery_wf: "db_wf (demo_recovery st i)" "\<not> in_transaction (demo_recovery st i)"
  by (simp_all add: demo_recovery_def demo_defs db_wf_def attempts_wf_def jobs_wf_def events_wf_def)

definition demo_started :: recovery_state where
  "demo_started = snd (onControllerStartup default_recovery_opts 1 (demo_recovery Running None))"

definition demo_cut_off :: recovery_state where
  "demo_cut_off = snd (onAgentDisconnect default_recovery_opts 5 ''g'' demo_started)"

definition demo_orphaned :: recovery_state where
  "demo_orphaned = snd (graceFires default_recovery_opts 60005 ''a'' demo_cut_off)"

lemma demo_orphaned_reached: "(recovery_step default_recovery_opts demo_env)\<^sup>*\<^sup>* demo_started demo_orphaned"
proof -
  have "recovery_step default_recovery_opts demo_env demo_started demo_cut_off"
    unfolding demo_cut_off_def by (rule cs_disconnect)
  moreover have "map_of (graceTimers demo_cut_off) ''a'' = Some 60005" by code_simp
  then have "recovery_step default_recovery_opts demo_env demo_cut_off demo_orphaned"
    unfolding demo_orphaned_def by (rule cs_grace) simp
  ultimately show ?thesis by (meson converse_rtranclp_into_rtranclp r_into_rtranclp)
qed

lemma demo_orphaned_row: "\<exists>r. getAttempt ''a'' demo_orphaned = Some r \<and> at_state r = Orphaned"
proof -
  have "map_option at_state (getAttempt ''a'' demo_orphaned) = Some Orphaned" by code_simp
  then show ?thesis by auto
qed

theorem orphans_always_end_witness:
  "\<exists>t r'. recovery_step default_recovery_opts demo_env demo_orphaned t \<and> getAttempt ''a'' t = Some r' \<and> at_outcome r' = Some Lost"
proof -
  obtain r where "getAttempt ''a'' demo_orphaned = Some r" "at_state r = Orphaned" using demo_orphaned_row by blast
  from orphans_always_end [OF demo_orphaned_reached [unfolded demo_started_def] this] show ?thesis by blast
qed

theorem recovery_leaves_completed_alone_witness:
  "getAttempt ''a'' (snd (onRecoveryReport default_recovery_opts 9 ''g'' demo_report (demo_recovery Completed (Some ''7:1''))))
     = Some ((demo_attempt Completed None 1)\<lparr>at_process_identity := Some ''7:1'', at_log_acked_sequence := 4\<rparr>)"
proof (rule recovery_leaves_completed_alone [OF demo_recovery_wf(1),
      of _ _ _ _ _ default_recovery_opts 9 "''g''" None demo_report "[]"])
  show "getAttempt ''a'' (demo_recovery Completed (Some ''7:1'')) =
      Some ((demo_attempt Completed None 1)\<lparr>at_process_identity := Some ''7:1'', at_log_acked_sequence := 4\<rparr>)"
    by (simp add: demo_recovery_def demo_defs getAttempt_def)
qed (simp_all add: demo_attempt_def blank_attempt_def)

theorem adoption_resumes_attempt_witness:
  "let x = onRecoveryReport default_recovery_opts 9 ''g'' demo_report (demo_recovery Orphaned (Some ''7:1'')) in
   fst x = Inr \<lparr>dc_lease = demo_lease 1, dc_adopt = True, dc_resume_from_sequence = Some 4, dc_reason = None\<rparr> \<and>
   map_option at_state (getAttempt ''a'' (snd x)) = Some Running"
proof -
  let ?s = "demo_recovery Orphaned (Some ''7:1'')"
  let ?r = "(demo_attempt Orphaned None 1)\<lparr>at_process_identity := Some ''7:1'', at_log_acked_sequence := 4\<rparr>"
  let ?c = "\<lparr>cn_socket = 1, cn_open = True, cn_lastHeartbeatAt = 0, cn_connectionHost = None\<rparr>"
  have a: "lr_attempt_id (demo_lease 1) = ''a''" "rr_lease demo_report = demo_lease 1" "rr_status demo_report = Report_running"
    by (simp_all add: demo_report_def demo_lease_def)
  have "getAttempt (lr_attempt_id (rr_lease demo_report)) ?s = Some ?r" "may_adopt ''g'' demo_report ?r"
      "map_of (connectedAgents ?s) ''g'' = Some ?c" "cn_open ?c"
    by (simp_all add: demo_report_def demo_recovery_def demo_defs getAttempt_def may_adopt_def)
  from adoption_resumes_attempt [OF this, of default_recovery_opts 9] show ?thesis
    by (auto simp: a demo_attempt_def blank_attempt_def)
qed

theorem disconnect_settles_every_attempt_witness:
  "disconnect_settled default_recovery_opts 5
     ((demo_attempt Running None 1)\<lparr>at_process_identity := None, at_log_acked_sequence := 4\<rparr>)
     (snd (onAgentDisconnect default_recovery_opts 5 ''g'' (demo_recovery Running None)))"
  using disconnect_settles_every_attempt [OF demo_recovery_wf, of default_recovery_opts 5 "''g''" Running None]
  by (auto simp: demo_recovery_def demo_attempt_def blank_attempt_def)

text \<open>
  A report from an Agent that does not own the attempt is answered \<open>agent_mismatch\<close>, but it also replaces
  the attempt's timers by a grace timer: a running attempt whose own Agent is connected and healthy is
  declared orphaned when that timer fires, and lost when the next one does.
\<close>

theorem foreign_report_loses_running_attempt:
  "let s = demo_recovery Running (Some ''7:1'');
       s1 = snd (onRecoveryReport default_recovery_opts 9 ''intruder'' demo_report s);
       s2 = snd (graceFires default_recovery_opts 60009 ''a'' s1);
       s3 = snd (orphanFires 360009 ''a'' s2)
   in map_of (graceTimers s1) ''a'' = Some 60009 \<and> map_of (orphanTimers s2) ''a'' = Some 360009 \<and>
      map_option at_state (getAttempt ''a'' s2) = Some Orphaned \<and>
      map_option at_outcome (getAttempt ''a'' s3) = Some (Some Lost)"
  by code_simp

end
