(* ===== verification/Scheduler.thy ===== *)
theory Scheduler
  imports Js_Values Job_Store
begin

text \<open>
  \<open>apps/controller/src/scheduler/index.ts\<close>, with \<open>packages/shared/src/host-load.ts\<close> and
  \<open>build-cache-key.ts\<close>: the hard filter over the online Agents, the score of an eligible one, the
  choice, and what happens when there is none. Numbers are rationals: the scores are sums of products of
  the numbers reported, without the rounding of doubles. \<open>localeCompare\<close> (the collation of the
  host) and SHA-256 are parameters. The \<open>for\<close> loop of \<open>selectAgentForJob\<close> is \<open>verdict\<close> on
  every candidate in order.
\<close>

record sched_env =
  se_localeCompare :: "string \<Rightarrow> string \<Rightarrow> int"
  se_sha256 :: "string \<Rightarrow> string"

section \<open>Host load\<close>

record cpu_times =
  ct_user :: rat
  ct_nice :: rat
  ct_sys :: rat
  ct_idle :: rat
  ct_irq :: rat

definition cpu_total :: "cpu_times \<Rightarrow> rat" where
  "cpu_total t = ct_user t + ct_nice t + ct_sys t + ct_idle t + ct_irq t"

definition clamp01 :: "rat \<Rightarrow> rat" where
  "clamp01 x = min 1 (max 0 x)"

definition computeCpuBusyFraction :: "cpu_times list \<Rightarrow> cpu_times list \<Rightarrow> rat" where
  "computeCpuBusyFraction before after =
     (let cores = zip before after;
          idleDelta = sum_list (map (\<lambda>(b, a). ct_idle a - ct_idle b) cores);
          totalDelta = sum_list (map (\<lambda>(b, a). cpu_total a - cpu_total b) cores)
      in if cores = [] then 0
         else if totalDelta \<le> 0 then 0
         else clamp01 (1 - idleDelta / totalDelta))"

definition DEFAULT_REFERENCE_CAPACITY_SCORE :: rat where
  "DEFAULT_REFERENCE_CAPACITY_SCORE = 8 * 3000"

definition computeCapacityScore :: "rat \<Rightarrow> rat \<Rightarrow> rat option \<Rightarrow> rat option \<Rightarrow> rat" where
  "computeCapacityScore cpuLogical cpuSpeedMhz memoryFreeMb memoryReferenceMb =
     (let raw = cpuLogical * cpuSpeedMhz in
      case memoryFreeMb of
        None \<Rightarrow> raw
      | Some free \<Rightarrow>
          (let referenceMb = (case memoryReferenceMb of Some m \<Rightarrow> m | None \<Rightarrow> 4096)
           in if referenceMb \<le> 0 then raw else raw * min 1 (free / referenceMb)))"

text \<open>\<open>HostCpuMonitor\<close>: its state is the list of samples; a failed probe is \<open>None\<close>.\<close>

definition currentBusyFraction :: "rat list \<Rightarrow> rat" where
  "currentBusyFraction samples =
     (if samples = [] then 1 else sum_list samples / of_nat (length samples))"

definition sampleOnce :: "nat \<Rightarrow> rat option \<Rightarrow> rat list \<Rightarrow> rat \<times> rat list" where
  "sampleOnce historySize probe samples =
     (let t = (case probe of
                 None \<Rightarrow> samples
               | Some v \<Rightarrow> (let u = samples @ [v] in if length u > historySize then tl u else u))
      in (currentBusyFraction t, t))"

section \<open>Data\<close>

record scheduler_agent =
  sa_agentId :: string
  sa_capabilities :: agent_capability_report
  sa_activeJobsCount :: int
  sa_recentFailurePenalty :: "rat option"

datatype sched_action = Remote | Sched_wait | Sched_fail_fast | Sched_local_fallback

record no_match_diagnostic =
  nm_required_shell :: string
  nm_target_os :: "string list option"
  nm_hint :: string

record scheduling_decision =
  sd_action :: sched_action
  sd_selectedAgent :: "scheduler_agent option"
  sd_selectedToolchains :: "toolchain_profile list option"
  sd_reason :: "string option"
  sd_noMatchDiagnostic :: "no_match_diagnostic option"

record host_load_snapshot =
  hl_cpuBusyFraction :: rat
  hl_capacityScore :: rat
  hl_runningJobs :: int

record local_host_execution =
  lh_os :: string
  lh_shells :: "string list"

record scheduler_options =
  so_allowLocalFallback :: "bool option"
  so_localHostExecution :: "local_host_execution option"
  so_repoCanonicalId :: "string option"
  so_baseCommit :: "string option"
  so_buildCacheKeys :: "(build_cache_kind \<times> string) list option"
  so_buildCacheProjectIdentity :: "string option"
  so_estimatedTransferBytes :: "rat option"
  so_recentFailurePenalties :: "(string \<times> rat) list option"
  so_registeredAgentCount :: "int option"
  so_hostLoad :: "host_load_snapshot option"
  so_maxHostCpuBusyFraction :: "rat option"

definition truthy_str :: "string option \<Rightarrow> bool" where
  "truthy_str v = (case v of None \<Rightarrow> False | Some s \<Rightarrow> s \<noteq> [])"

section \<open>Local fallback\<close>

definition MAX_EFFECTIVE_HOST_CPU_BUSY_FRACTION :: rat where
  "MAX_EFFECTIVE_HOST_CPU_BUSY_FRACTION = 97 / 100"

definition computeEffectiveMaxHostCpuBusyFraction :: "rat \<Rightarrow> rat \<Rightarrow> rat \<Rightarrow> rat" where
  "computeEffectiveMaxHostCpuBusyFraction capacityScore baseMaxFraction referenceCapacityScore =
     (if referenceCapacityScore \<le> 0 \<or> capacityScore \<le> referenceCapacityScore then baseMaxFraction
      else (let powerRatio = capacityScore / referenceCapacityScore
            in min MAX_EFFECTIVE_HOST_CPU_BUSY_FRACTION (baseMaxFraction * powerRatio)))"

datatype local_fallback_decision = Local_eligible | Local_eligible_host_busy | Local_host_busy | Local_ineligible

definition min_list_opt :: "int list \<Rightarrow> int option" where
  "min_list_opt xs = (case xs of [] \<Rightarrow> None | y # ys \<Rightarrow> Some (fold min ys y))"

definition decideLocalFallback ::
  "bool \<Rightarrow> risk_level \<Rightarrow> host_load_snapshot \<Rightarrow> rat \<Rightarrow> int list \<Rightarrow> rat option \<Rightarrow> local_fallback_decision" where
  "decideLocalFallback allow riskLevel host maxFraction busyAgentRunningJobs referenceScore =
     (if \<not> allow \<or> riskLevel = Destructive \<or> riskLevel = Hardware then Local_ineligible
      else
        (let effective = computeEffectiveMaxHostCpuBusyFraction (hl_capacityScore host) maxFraction
               (case referenceScore of Some r \<Rightarrow> r | None \<Rightarrow> DEFAULT_REFERENCE_CAPACITY_SCORE)
         in if hl_cpuBusyFraction host < effective then Local_eligible
            else case min_list_opt busyAgentRunningJobs of
                   None \<Rightarrow> Local_eligible_host_busy
                 | Some leastBusyOther \<Rightarrow>
                     if hl_runningJobs host \<le> leastBusyOther then Local_eligible_host_busy else Local_host_busy))"

section \<open>Hard filters\<close>

definition matches_any :: "string list option \<Rightarrow> string \<Rightarrow> bool" where
  "matches_any wanted have_it =
     (case wanted of
        None \<Rightarrow> True
      | Some [] \<Rightarrow> True
      | Some ws \<Rightarrow> if have_it = [] then False else list_ex (\<lambda>w. toLowerCase w = toLowerCase have_it) ws)"

definition matchesOs :: "string list option \<Rightarrow> string \<Rightarrow> bool" where
  "matchesOs requestOs agentOs = matches_any requestOs agentOs"

definition matchesArch :: "string list option \<Rightarrow> string \<Rightarrow> bool" where
  "matchesArch requestArch agentArch = matches_any requestArch agentArch"

definition matchesLabels :: "(string \<times> string) list option \<Rightarrow> (string \<times> string) list \<Rightarrow> bool" where
  "matchesLabels requestLabels agentLabels =
     (case requestLabels of
        None \<Rightarrow> True
      | Some ls \<Rightarrow> list_all (\<lambda>(k, v). map_of agentLabels k = Some v) ls)"

definition matchesSecretRefs :: "string list \<Rightarrow> string list \<Rightarrow> bool" where
  "matchesSecretRefs requestRefs agentRefs = list_all (\<lambda>r. r \<in> set agentRefs) requestRefs"

text \<open>\<open>shell.replace(/\.exe$/i, '').toLowerCase()\<close>\<close>

definition normalizedShell :: "string \<Rightarrow> string" where
  "normalizedShell shell =
     toLowerCase (if length shell \<ge> 4 \<and> toLowerCase (drop (length shell - 4) shell) = ''.exe''
                  then take (length shell - 4) shell else shell)"

definition agentHasRequiredShell :: "scheduler_agent \<Rightarrow> string \<Rightarrow> bool" where
  "agentHasRequiredShell agent requiredShell =
     list_ex (\<lambda>shell. normalizedShell shell = requiredShell) (cap_shells (cap_execution (sa_capabilities agent)))"

definition agentIsAtCapacity :: "scheduler_agent \<Rightarrow> bool" where
  "agentIsAtCapacity agent =
     (let capacity = cap_max_jobs (cap_execution (sa_capabilities agent))
      in capacity \<le> 0 \<or> of_int (sa_activeJobsCount agent) \<ge> capacity)"

definition required_shell :: "job_request \<Rightarrow> string" where
  "required_shell request =
     normalizedShell (case ex_shell (rqst_execution request) of Some sh \<Rightarrow> sh | None \<Rightarrow> ''bash'')"

definition rq_opt :: "(requirements_config \<Rightarrow> 'a option) \<Rightarrow> job_request \<Rightarrow> 'a option" where
  "rq_opt f request = Option.bind (rqst_requirements request) f"

definition localHostCanExecute :: "job_request \<Rightarrow> local_host_execution \<Rightarrow> bool" where
  "localHostCanExecute request localHost =
     (if \<not> matchesOs (rq_opt rq_os request) (lh_os localHost) then False
      else list_ex (\<lambda>shell. normalizedShell shell = required_shell request) (lh_shells localHost))"

section \<open>Diagnostics\<close>

text \<open>\<open>Buffer.byteLength(character, 'utf8')\<close> of a character below U+0100.\<close>

definition utf8_bytes :: "char \<Rightarrow> nat" where
  "utf8_bytes c = (if (of_char c :: nat) < 128 then 1 else 2)"

fun truncate_from :: "nat \<Rightarrow> nat \<Rightarrow> string \<Rightarrow> string" where
  "truncate_from maxBytes bytes [] = []"
| "truncate_from maxBytes bytes (c # cs) =
     (if bytes + utf8_bytes c > maxBytes then [] else c # truncate_from maxBytes (bytes + utf8_bytes c) cs)"

definition truncateDiagnosticText :: "string \<Rightarrow> string" where
  "truncateDiagnosticText v = truncate_from 16 0 v"

text \<open>\<open>[...new Set(xs)]\<close>: the first occurrence of every element, in order.\<close>

fun js_set :: "'a list \<Rightarrow> 'a list" where
  "js_set [] = []"
| "js_set (x # xs) = x # filter (\<lambda>y. y \<noteq> x) (js_set xs)"

definition normalizedTargetOs :: "string list option \<Rightarrow> string list option" where
  "normalizedTargetOs requestOs =
     (case requestOs of
        None \<Rightarrow> None
      | Some [] \<Rightarrow> None
      | Some os \<Rightarrow> Some (map truncateDiagnosticText (take 3
          (js_set (filter (\<lambda>w. w \<noteq> []) (map (\<lambda>w. toLowerCase (trim w)) os))))))"

definition noMatchingAgentHint :: "job_request \<Rightarrow> string \<Rightarrow> string \<Rightarrow> string" where
  "noMatchingAgentHint request waitingHint failHint =
     (if rqst_queue_policy request = Some Wait then waitingHint else failHint)"

definition describeNoMatchingAgent ::
  "scheduler_agent list \<Rightarrow> job_request \<Rightarrow> int option \<Rightarrow> no_match_diagnostic" where
  "describeNoMatchingAgent ags request registeredAgentCount =
     (let requestedOs = rq_opt rq_os request;
          targetOs = normalizedTargetOs requestedOs;
          requiredShell = required_shell request;
          diagnosticShell = truncateDiagnosticText requiredShell;
          targetLabel = (case targetOs of Some os \<Rightarrow> join_with '' or '' os | None \<Rightarrow> ''the requested target OS'');
          waitingResumeHint = ''Queued until a matching Agent is online; call job_run again with this job_id.'';
          result = (\<lambda>hint. \<lparr>nm_required_shell = diagnosticShell, nm_target_os = targetOs, nm_hint = hint\<rparr>);
          osMatches = filter (\<lambda>a. matchesOs requestedOs (os_name (os_family (cap_os (sa_capabilities a))))) ags;
          shellMatches = filter (\<lambda>a. agentHasRequiredShell a requiredShell) osMatches
      in if ags = [] then
           result (noMatchingAgentHint request waitingResumeHint
             (if (case registeredAgentCount of Some n \<Rightarrow> n > 0 | None \<Rightarrow> False)
              then ''No registered Agent is online. Reconnect an Agent or use queue_policy=\"wait\".''
              else ''No online Agent is available. Connect an Agent or use queue_policy=\"wait\".''))
         else if (case requestedOs of Some (_ # _) \<Rightarrow> True | _ \<Rightarrow> False) \<and> osMatches = [] then
           result (noMatchingAgentHint request
             (''Queued until an Agent matching target_os '' @ targetLabel @ '' is online; call job_run again with this job_id.'')
             (''No online Agent matches target_os '' @ targetLabel @ ''. Choose target_os and shell supported by the same Agent.''))
         else if shellMatches = [] then
           result (noMatchingAgentHint request
             (''Queued until an Agent provides '' @ diagnosticShell @ '' on '' @ targetLabel @ ''; call job_run again with this job_id.'')
             (''No online Agent provides '' @ diagnosticShell @ '' on '' @ targetLabel @
                ''. Specify shell and target_os supported by the same Agent.''))
         else if list_all agentIsAtCapacity shellMatches then
           result (noMatchingAgentHint request
             ''Queued until a matching Agent has capacity; call job_run again with this job_id.''
             ''All online Agents matching shell and target_os are at capacity. Use queue_policy=\"wait\" or retry when capacity is available.'')
         else
           result (noMatchingAgentHint request waitingResumeHint
             ''No online Agent satisfies the requested execution requirements.''))"

section \<open>Versions\<close>

text \<open>The finite values of \<open>Number(s)\<close>: a literal beyond the range of doubles is \<open>Infinity\<close>
  (the first test only spares the evaluation of the second one).\<close>

definition finite_number :: "string \<Rightarrow> rat option" where
  "finite_number s =
     (case js_Number s of
        None \<Rightarrow> None
      | Some q \<Rightarrow> if \<bar>q\<bar> < 1000000 then Some q else if \<bar>q\<bar> < 2 ^ 1024 - 2 ^ 970 then Some q else None)"

text \<open>\<open><\<close> on strings, by code units.\<close>

fun str_less :: "string \<Rightarrow> string \<Rightarrow> bool" where
  "str_less s [] = False"
| "str_less [] (d # ds) = True"
| "str_less (c # cs) (d # ds) =
     (if (of_char c :: nat) < of_char d then True else if c = d then str_less cs ds else False)"

definition compare_segment :: "string \<Rightarrow> string \<Rightarrow> int" where
  "compare_segment av bv =
     (case (finite_number av, finite_number bv) of
        (Some an, Some bn) \<Rightarrow> if an \<noteq> bn then (if an < bn then -1 else 1) else 0
      | _ \<Rightarrow> if av \<noteq> bv then (if str_less av bv then -1 else 1) else 0)"

fun compare_segments :: "string list \<Rightarrow> string list \<Rightarrow> int" where
  "compare_segments [] [] = 0"
| "compare_segments (a # as) [] = (let c = compare_segment a ''0'' in if c \<noteq> 0 then c else compare_segments as [])"
| "compare_segments [] (b # bs) = (let c = compare_segment ''0'' b in if c \<noteq> 0 then c else compare_segments [] bs)"
| "compare_segments (a # as) (b # bs) = (let c = compare_segment a b in if c \<noteq> 0 then c else compare_segments as bs)"

definition compareVersionParts :: "string \<Rightarrow> string \<Rightarrow> int" where
  "compareVersionParts a b = compare_segments (split_on CHR ''.'' a) (split_on CHR ''.'' b)"

datatype range_op = Ge | Le | Gt | Lt

definition is_newline :: "char \<Rightarrow> bool" where
  "is_newline c = ((of_char c :: nat) = 10 \<or> (of_char c :: nat) = 13)"

text \<open>\<open>/^(>=|<=|>|<)\s*(.+)$/\<close> on a trimmed string; \<open>range_target\<close> is the part after the operator.\<close>

definition range_target :: "string \<Rightarrow> string option" where
  "range_target r =
     (let u = dropWhile is_space r in if u \<noteq> [] \<and> list_all (\<lambda>c. \<not> is_newline c) u then Some u else None)"

definition parse_range :: "string \<Rightarrow> (range_op \<times> string) option" where
  "parse_range t =
     (let one = (\<lambda>op r. map_option (Pair op) (range_target r));
          two = (\<lambda>op2 op1 r. case r of
                    c # r' \<Rightarrow> if c = CHR ''='' \<and> range_target r' \<noteq> None then one op2 r' else one op1 r
                  | [] \<Rightarrow> one op1 r)
      in case t of
           c # r \<Rightarrow> if c = CHR ''>'' then two Ge Gt r else if c = CHR ''<'' then two Le Lt r else None
         | [] \<Rightarrow> None)"

definition is_dotted_digits :: "string \<Rightarrow> bool" where
  "is_dotted_digits t = list_all (\<lambda>p. p \<noteq> [] \<and> list_all is_digit p) (split_on CHR ''.'' t)"

definition matchesVersionSpec :: "string \<Rightarrow> string \<Rightarrow> bool" where
  "matchesVersionSpec version spec =
     (let v = trim version; trimmed = trim spec in
      if trimmed = [] \<or> trimmed = ''*'' \<or> trimmed = ''any'' then True
      else if v = trimmed then True
      else case parse_range trimmed of
             Some (op, target) \<Rightarrow>
               (let cmp = compareVersionParts v (trim target) in
                case op of Ge \<Rightarrow> cmp \<ge> 0 | Gt \<Rightarrow> cmp > 0 | Le \<Rightarrow> cmp \<le> 0 | Lt \<Rightarrow> cmp < 0)
           | None \<Rightarrow> is_dotted_digits trimmed \<and> starts_with v (trimmed @ ''.''))"

section \<open>Tools\<close>

definition profile_serves :: "string \<Rightarrow> string \<Rightarrow> toolchain_profile \<Rightarrow> bool" where
  "profile_serves toolName versionSpec profile =
     ((toLowerCase (tp_kind profile) = toLowerCase toolName \<or> toLowerCase (tp_id profile) = toLowerCase toolName) \<and>
      matchesVersionSpec (tp_version profile) versionSpec)"

text \<open>The selected profiles, or \<open>None\<close> for \<open>matches: false\<close>.\<close>

fun matchToolchainProfiles :: "(string \<times> string) list \<Rightarrow> toolchain_profile list \<Rightarrow> toolchain_profile list option" where
  "matchToolchainProfiles [] profiles = Some []"
| "matchToolchainProfiles ((toolName, versionSpec) # tools) profiles =
     (case find (profile_serves toolName versionSpec) profiles of
        None \<Rightarrow> None
      | Some matched \<Rightarrow> map_option ((#) matched) (matchToolchainProfiles tools profiles))"

definition is_probe_tool :: "string \<Rightarrow> bool" where
  "is_probe_tool name = (toLowerCase name \<in> {''git'', ''git-lfs''})"

definition splitRequestedTools ::
  "(string \<times> string) list option \<Rightarrow> (string \<times> string) list \<times> (string \<times> string) list" where
  "splitRequestedTools requestedTools =
     (case requestedTools of
        None \<Rightarrow> ([], [])
      | Some ts \<Rightarrow> (filter (\<lambda>t. is_probe_tool (fst t)) ts, filter (\<lambda>t. \<not> is_probe_tool (fst t)) ts))"

definition probe_tool_ok :: "(string \<times> string list) list \<Rightarrow> string \<Rightarrow> string \<Rightarrow> bool" where
  "probe_tool_ok agentTools toolName versionSpec =
     (let key = (case find (\<lambda>k. toLowerCase k = toLowerCase toolName) (map fst agentTools) of
                   Some k \<Rightarrow> k | None \<Rightarrow> toolName)
      in case map_of agentTools key of
           None \<Rightarrow> False
         | Some versions \<Rightarrow> list_ex (\<lambda>v. matchesVersionSpec v versionSpec) versions)"

definition matchProbeTools :: "(string \<times> string) list \<Rightarrow> (string \<times> string list) list \<Rightarrow> bool" where
  "matchProbeTools requestedTools agentTools = list_all (\<lambda>(n, v). probe_tool_ok agentTools n v) requestedTools"

definition matchJobToolRequirements ::
  "(string \<times> string) list option \<Rightarrow> agent_capability_report \<Rightarrow> toolchain_profile list option" where
  "matchJobToolRequirements requestedTools caps =
     (let (probeTools, toolchainTools) = splitRequestedTools requestedTools in
      case matchToolchainProfiles toolchainTools (cap_toolchain_profiles caps) of
        None \<Rightarrow> None
      | Some profiles \<Rightarrow> if matchProbeTools probeTools (cap_tools caps) then Some profiles else None)"

section \<open>Scores\<close>

definition defaultConfiguredPriorityForOs :: "os_family \<Rightarrow> rat" where
  "defaultConfiguredPriorityForOs f = (case f of Macos \<Rightarrow> 20 | Linux \<Rightarrow> 15 | _ \<Rightarrow> 10)"

definition resolveConfiguredPriority :: "agent_capability_report \<Rightarrow> rat" where
  "resolveConfiguredPriority caps =
     (case cap_configured_priority caps of
        Some p \<Rightarrow> p | None \<Rightarrow> defaultConfiguredPriorityForOs (os_family (cap_os caps)))"

definition resolveCpuLoadForScoring :: "agent_capability_report \<Rightarrow> rat" where
  "resolveCpuLoadForScoring caps =
     (case res_cpu_load (cap_resources caps) of None \<Rightarrow> 1 | Some load \<Rightarrow> clamp01 load)"

definition computeEstimatedTransferMb :: "rat option \<Rightarrow> rat" where
  "computeEstimatedTransferMb bytes =
     (case bytes of
        None \<Rightarrow> 0
      | Some b \<Rightarrow> if b \<le> 0 then 0 else of_int \<lceil>b / (1024 * 1024)\<rceil>)"

definition computeRecentFailurePenalty :: "int \<Rightarrow> int" where
  "computeRecentFailurePenalty failureCount =
     (if failureCount \<le> 0 then 0 else min 500 (failureCount * 50))"

fun agent_repo_hit :: "repository_cache_entry list \<Rightarrow> string \<Rightarrow> string option \<Rightarrow> bool" where
  "agent_repo_hit [] repo baseCommit = False"
| "agent_repo_hit (entry # entries) repo baseCommit =
     (if rc_canonical_id entry \<noteq> repo then agent_repo_hit entries repo baseCommit
      else if \<not> truthy_str baseCommit then True
      else case rc_commits entry of
             None \<Rightarrow> True
           | Some [] \<Rightarrow> True
           | Some cs \<Rightarrow> the baseCommit \<in> set cs)"

definition agentHasRepoCacheHit :: "agent_capability_report \<Rightarrow> string \<Rightarrow> string option \<Rightarrow> bool" where
  "agentHasRepoCacheHit caps repo baseCommit =
     agent_repo_hit (case cap_repository_cache caps of Some es \<Rightarrow> es | None \<Rightarrow> []) repo baseCommit"

definition agentHasBuildCacheHit :: "agent_capability_report \<Rightarrow> (build_cache_kind \<times> string) list \<Rightarrow> bool" where
  "agentHasBuildCacheHit caps expected =
     (let ads = (case cap_build_caches caps of Some es \<Rightarrow> es | None \<Rightarrow> []) in
      list_ex (\<lambda>(kind, key).
        case find (\<lambda>a. bc_kind a = kind) ads of
          None \<Rightarrow> False
        | Some entry \<Rightarrow> (case bc_keys entry of None \<Rightarrow> False | Some ks \<Rightarrow> key \<in> set ks)) expected)"

text \<open>\<open>computeBuildCacheKey\<close>: \<open>JSON.stringify\<close> of six strings under sorted keys.\<close>

definition hex_digit :: "nat \<Rightarrow> char" where
  "hex_digit n = (if n < 10 then char_of (48 + n) else char_of (87 + n))"

definition json_char :: "char \<Rightarrow> string" where
  "json_char c =
     (let n = (of_char c :: nat) in
      if n = 34 then [char_of (92 :: nat), char_of (34 :: nat)]
      else if n = 92 then [char_of (92 :: nat), char_of (92 :: nat)]
      else if n = 8 then char_of (92 :: nat) # ''b''
      else if n = 9 then char_of (92 :: nat) # ''t''
      else if n = 10 then char_of (92 :: nat) # ''n''
      else if n = 12 then char_of (92 :: nat) # ''f''
      else if n = 13 then char_of (92 :: nat) # ''r''
      else if n < 32 then char_of (92 :: nat) # ''u00'' @ [hex_digit (n div 16), hex_digit (n mod 16)]
      else [c])"

definition json_string :: "string \<Rightarrow> string" where
  "json_string s = char_of (34 :: nat) # concat (map json_char s) @ [char_of (34 :: nat)]"

definition canonicalJson :: "(string \<times> string) list \<Rightarrow> string" where
  "canonicalJson material =
     ''{'' @ join_with '','' (map (\<lambda>(k, v). json_string k @ '':'' @ json_string v) material) @ ''}''"

fun kind_name :: "build_cache_kind \<Rightarrow> string" where
  "kind_name Ccache = ''ccache''"
| "kind_name Sccache = ''sccache''"
| "kind_name Npm = ''npm''"
| "kind_name Pnpm = ''pnpm''"
| "kind_name Pip = ''pip''"

definition computeBuildCacheKey ::
  "sched_env \<Rightarrow> build_cache_kind \<Rightarrow> string \<Rightarrow> string \<Rightarrow> string \<Rightarrow> string \<Rightarrow> string \<Rightarrow> string" where
  "computeBuildCacheKey env kind toolchainProfileId toolchainFingerprint osFamily arch projectIdentity =
     kind_name kind @ ''_'' @ take 32 (se_sha256 env (canonicalJson
       [(''arch'', arch), (''kind'', kind_name kind), (''osFamily'', osFamily), (''projectIdentity'', projectIdentity),
        (''toolchainFingerprint'', toolchainFingerprint), (''toolchainProfileId'', toolchainProfileId)]))"

definition tool_cache_kind :: "string \<Rightarrow> build_cache_kind option" where
  "tool_cache_kind name =
     map_of [(''ccache'', Ccache), (''sccache'', Sccache), (''npm'', Npm), (''pnpm'', Pnpm), (''pip'', Pip)] (toLowerCase name)"

definition computeExpectedBuildCacheKeysForAgent ::
  "sched_env \<Rightarrow> agent_capability_report \<Rightarrow> toolchain_profile list \<Rightarrow> string \<Rightarrow> (string \<times> string) list option
    \<Rightarrow> (build_cache_kind \<times> string) list" where
  "computeExpectedBuildCacheKeysForAgent env caps selectedToolchains projectIdentity requiredTools =
     (let kinds = (case requiredTools of
                     None \<Rightarrow> [Ccache, Sccache, Npm, Pnpm, Pip]
                   | Some [] \<Rightarrow> [Ccache, Sccache, Npm, Pnpm, Pip]
                   | Some ts \<Rightarrow> js_set (List.map_filter (\<lambda>t. tool_cache_kind (fst t)) ts));
          primary = (case selectedToolchains of [] \<Rightarrow> None | p # _ \<Rightarrow> Some p)
      in map (\<lambda>kind. (kind, computeBuildCacheKey env kind
                       (case primary of Some p \<Rightarrow> tp_id p | None \<Rightarrow> ''none'')
                       (case primary of Some p \<Rightarrow> tp_environment_fingerprint p | None \<Rightarrow> ''none'')
                       (os_name (os_family (cap_os caps))) (os_arch (cap_os caps)) projectIdentity))
           (filter (\<lambda>kind. \<not> (kind \<in> {Ccache, Sccache} \<and> primary = None)) kinds))"

fun index_of :: "'a \<Rightarrow> 'a list \<Rightarrow> nat option" where
  "index_of x [] = None"
| "index_of x (y # ys) = (if x = y then Some 0 else map_option Suc (index_of x ys))"

text \<open>\<open>(xs.length - xs.indexOf(x)) * unit\<close>, 0 when there is no list or \<open>x\<close> is not in it.\<close>

definition preference_bonus :: "string list option \<Rightarrow> string \<Rightarrow> rat \<Rightarrow> rat" where
  "preference_bonus prefs x unit =
     (case prefs of None \<Rightarrow> 0
      | Some xs \<Rightarrow> (case index_of x xs of None \<Rightarrow> 0 | Some i \<Rightarrow> of_nat (length xs - i) * unit))"

definition pf_opt :: "(preferences_config \<Rightarrow> 'a option) \<Rightarrow> job_request \<Rightarrow> 'a option" where
  "pf_opt f request = Option.bind (rqst_preferences request) f"

definition computeAgentSchedulerScore ::
  "sched_env \<Rightarrow> string \<Rightarrow> agent_capability_report \<Rightarrow> int \<Rightarrow> rat \<Rightarrow> job_request \<Rightarrow> scheduler_options
    \<Rightarrow> toolchain_profile list \<Rightarrow> bool \<Rightarrow> bool \<Rightarrow> rat" where
  "computeAgentSchedulerScore env agentId caps runningJobs recentFailurePenalty request options
       selectedToolchains toolsRequested toolsMatched =
     (let repoHit = (pf_opt pf_prefer_repo_cache request \<noteq> Some False \<and> truthy_str (so_repoCanonicalId options) \<and>
                     agentHasRepoCacheHit caps (the (so_repoCanonicalId options)) (so_baseCommit options));
          expected = (case so_buildCacheKeys options of
                        Some (k # ks) \<Rightarrow> k # ks
                      | _ \<Rightarrow> if truthy_str (so_buildCacheProjectIdentity options)
                             then computeExpectedBuildCacheKeysForAgent env caps selectedToolchains
                                    (the (so_buildCacheProjectIdentity options)) (rq_opt rq_tools request)
                             else []);
          buildHit = (pf_opt pf_prefer_build_cache request \<noteq> Some False \<and> expected \<noteq> [] \<and>
                      agentHasBuildCacheHit caps expected)
      in resolveConfiguredPriority caps * 1000
         + preference_bonus (pf_opt pf_agent_ids request) agentId 100
         + preference_bonus (pf_opt pf_os_order request) (os_name (os_family (cap_os caps))) 10
         + (if repoHit then 500 else 0)
         + (if toolsRequested \<and> toolsMatched then 200 else 0)
         - of_int runningJobs * 300
         - resolveCpuLoadForScoring caps * 100
         - computeEstimatedTransferMb (so_estimatedTransferBytes options)
         - recentFailurePenalty
         + (if buildHit then 250 else 0))"

section \<open>Selection\<close>

record eligible_candidate =
  el_agent :: scheduler_agent
  el_toolchains :: "toolchain_profile list"
  el_score :: rat

datatype verdict = Busy int | Rejected | Eligible eligible_candidate

definition below_minimum :: "rat option \<Rightarrow> rat \<Rightarrow> bool" where
  "below_minimum required free = (case required of None \<Rightarrow> False | Some m \<Rightarrow> m \<noteq> 0 \<and> free < m)"

definition required_secrets :: "job_request \<Rightarrow> string list" where
  "required_secrets request =
     (case rq_opt rq_secret_refs request of Some rs \<Rightarrow> rs | None \<Rightarrow> []) @
     map snd (case ex_secret_refs (rqst_execution request) of Some rs \<Rightarrow> rs | None \<Rightarrow> [])"

definition recent_penalty :: "scheduler_options \<Rightarrow> scheduler_agent \<Rightarrow> rat" where
  "recent_penalty options candidate =
     (case sa_recentFailurePenalty candidate of
        Some p \<Rightarrow> p
      | None \<Rightarrow> (case Option.bind (so_recentFailurePenalties options) (\<lambda>m. map_of m (sa_agentId candidate)) of
                   Some p \<Rightarrow> p | None \<Rightarrow> 0))"

definition verdict_of :: "sched_env \<Rightarrow> job_request \<Rightarrow> scheduler_options \<Rightarrow> scheduler_agent \<Rightarrow> verdict" where
  "verdict_of env request options candidate =
     (let caps = sa_capabilities candidate;
          effectiveCapacity = cap_max_jobs (cap_execution caps) in
      if effectiveCapacity \<le> 0 \<or> of_int (sa_activeJobsCount candidate) \<ge> effectiveCapacity then
        (if effectiveCapacity > 0 then Busy (sa_activeJobsCount candidate) else Rejected)
      else if \<not> matchesOs (rq_opt rq_os request) (os_name (os_family (cap_os caps))) then Rejected
      else if \<not> matchesArch (rq_opt rq_arch request) (os_arch (cap_os caps)) then Rejected
      else if \<not> matchesLabels (rq_opt rq_labels request) (cap_labels caps) then Rejected
      else if below_minimum (rq_opt rq_min_memory_mb request) (res_memory_free_mb (cap_resources caps)) then Rejected
      else if below_minimum (rq_opt rq_min_disk_mb request) (res_disk_free_mb (cap_resources caps)) then Rejected
      else if \<not> agentHasRequiredShell candidate (required_shell request) then Rejected
      else if \<not> matchesSecretRefs (required_secrets request) (cap_secret_refs caps) then Rejected
      else case matchJobToolRequirements (rq_opt rq_tools request) caps of
             None \<Rightarrow> Rejected
           | Some profiles \<Rightarrow>
               (let toolsRequested = (case rq_opt rq_tools request of Some (_ # _) \<Rightarrow> True | _ \<Rightarrow> False)
                in Eligible \<lparr>el_agent = candidate, el_toolchains = profiles,
                     el_score = computeAgentSchedulerScore env (sa_agentId candidate) caps (sa_activeJobsCount candidate)
                       (recent_penalty options candidate) request options profiles toolsRequested True\<rparr>))"

definition eligible_of :: "verdict \<Rightarrow> eligible_candidate option" where
  "eligible_of v = (case v of Eligible c \<Rightarrow> Some c | _ \<Rightarrow> None)"

definition busy_of :: "verdict \<Rightarrow> int option" where
  "busy_of v = (case v of Busy n \<Rightarrow> Some n | _ \<Rightarrow> None)"

text \<open>\<open>Array.prototype.sort\<close>: stable, by the sign of the comparator.\<close>

fun insert_by :: "('a \<Rightarrow> 'a \<Rightarrow> rat) \<Rightarrow> 'a \<Rightarrow> 'a list \<Rightarrow> 'a list" where
  "insert_by cmp x [] = [x]"
| "insert_by cmp x (y # ys) = (if cmp x y \<le> 0 then x # y # ys else y # insert_by cmp x ys)"

definition js_sort :: "('a \<Rightarrow> 'a \<Rightarrow> rat) \<Rightarrow> 'a list \<Rightarrow> 'a list" where
  "js_sort cmp xs = foldr (insert_by cmp) xs []"

definition candidate_order :: "sched_env \<Rightarrow> eligible_candidate \<Rightarrow> eligible_candidate \<Rightarrow> rat" where
  "candidate_order env a b =
     (if el_score b \<noteq> el_score a then el_score b - el_score a
      else of_int (se_localeCompare env (sa_agentId (el_agent a)) (sa_agentId (el_agent b))))"

definition decision :: "sched_action \<Rightarrow> string option \<Rightarrow> no_match_diagnostic option \<Rightarrow> scheduling_decision" where
  "decision act reason d =
     \<lparr>sd_action = act, sd_selectedAgent = None, sd_selectedToolchains = None, sd_reason = reason, sd_noMatchDiagnostic = d\<rparr>"

definition selectAgentForJob ::
  "sched_env \<Rightarrow> scheduler_agent list \<Rightarrow> job_request \<Rightarrow> scheduler_options \<Rightarrow> scheduling_decision" where
  "selectAgentForJob env ags request options =
     (let verdicts = map (verdict_of env request options) ags;
          eligibleCandidates = List.map_filter eligible_of verdicts;
          busyAgentRunningJobs = List.map_filter busy_of verdicts in
      case js_sort (candidate_order env) eligibleCandidates of
        chosen # _ \<Rightarrow>
          \<lparr>sd_action = Remote, sd_selectedAgent = Some (el_agent chosen),
           sd_selectedToolchains = (if el_toolchains chosen \<noteq> [] then Some (el_toolchains chosen) else None),
           sd_reason = None, sd_noMatchDiagnostic = None\<rparr>
      | [] \<Rightarrow>
          (let queuePolicy = (case rqst_queue_policy request of Some q \<Rightarrow> q | None \<Rightarrow> Local_fallback);
               noMatch = Some (describeNoMatchingAgent ags request (so_registeredAgentCount options));
               riskLevel = (case rqst_risk_level request of Some r \<Rightarrow> r | None \<Rightarrow> Normal);
               allow = (pf_opt pf_allow_local_fallback request \<noteq> Some False \<and> so_allowLocalFallback options \<noteq> Some False)
           in if queuePolicy = Wait then decision Sched_wait (Some ''no_eligible_agent'') noMatch
              else if queuePolicy = Fail_fast then decision Sched_fail_fast (Some ''no_eligible_agent'') noMatch
              else if (case so_localHostExecution options of None \<Rightarrow> False | Some lh \<Rightarrow> \<not> localHostCanExecute request lh)
              then decision Sched_fail_fast (Some ''no_eligible_agent'') noMatch
              else case so_hostLoad options of
                     Some host \<Rightarrow>
                       (case decideLocalFallback allow riskLevel host
                               (case so_maxHostCpuBusyFraction options of Some f \<Rightarrow> f | None \<Rightarrow> 8 / 10)
                               busyAgentRunningJobs None of
                          Local_eligible \<Rightarrow> decision Sched_local_fallback None None
                        | Local_eligible_host_busy \<Rightarrow> decision Sched_local_fallback None None
                        | Local_host_busy \<Rightarrow> decision Sched_wait (Some ''host_busy'') None
                        | Local_ineligible \<Rightarrow> decision Sched_fail_fast (Some ''no_eligible_agent'') noMatch)
                   | None \<Rightarrow>
                       if allow \<and> riskLevel \<noteq> Destructive \<and> riskLevel \<noteq> Hardware
                       then decision Sched_local_fallback None None
                       else decision Sched_fail_fast (Some ''no_eligible_agent'') noMatch))"

section \<open>Queries\<close>

definition active_state :: "run_state \<Rightarrow> bool" where
  "active_state st =
     (st \<in> {Leasing, Preparing_source, Transferring_source, Materializing, Starting, Running, Collecting_artifacts, Cleaning})"

text \<open>\<open>GROUP BY agent_id\<close>: one entry per Agent that has a row.\<close>

definition group_agents :: "attempt_row list \<Rightarrow> string list" where
  "group_agents rows = js_set (List.map_filter at_agent_id rows)"

definition getActiveJobsForAgents :: "'z controller_db_scheme \<Rightarrow> (string \<times> int) list" where
  "getActiveJobsForAgents s =
     (let rows = sql_all (\<lambda>r. active_state (at_state r) \<and> at_agent_id r \<noteq> None) (job_attempts s)
      in map (\<lambda>a. (a, int (length (filter (\<lambda>r. at_agent_id r = Some a) rows)))) (group_agents rows))"

definition finished_desc :: "attempt_row \<Rightarrow> attempt_row \<Rightarrow> rat" where
  "finished_desc a b = of_int (the (at_finished_at b) - the (at_finished_at a))"

definition recent_attempts :: "nat \<Rightarrow> string \<Rightarrow> 'z controller_db_scheme \<Rightarrow> attempt_row list" where
  "recent_attempts windowSize agentId s =
     take windowSize (js_sort finished_desc
       (sql_all (\<lambda>r. at_agent_id r = Some agentId \<and> at_finished_at r \<noteq> None) (job_attempts s)))"

definition getRecentFailurePenaltiesForAgents :: "nat \<Rightarrow> 'z controller_db_scheme \<Rightarrow> (string \<times> int) list" where
  "getRecentFailurePenaltiesForAgents windowSize s =
     map (\<lambda>a. (a, computeRecentFailurePenalty
                    (int (length (filter (\<lambda>r. at_outcome r = Some Failed) (recent_attempts windowSize a s))))))
       (filter (\<lambda>a. recent_attempts windowSize a s \<noteq> [])
         (group_agents (sql_all (\<lambda>r. at_agent_id r \<noteq> None \<and> at_finished_at r \<noteq> None) (job_attempts s))))"

end
