(* ===== verification/Scheduler_Laws.thy ===== *)
theory Scheduler_Laws
  imports Scheduler
begin

text \<open>
  Properties of the scheduler: the selected Agent meets every hard requirement and is the best of those
  that do, the decision does not depend on the order of the Agents, exactly when a job may run on the
  Controller's own host, version ranges, and the bounds of penalties and load figures.
\<close>

section \<open>Sorting with a comparator\<close>

locale comparator =
  fixes cmp :: "'a \<Rightarrow> 'a \<Rightarrow> rat"
  assumes cmp_total: "cmp x y \<le> 0 \<or> cmp y x \<le> 0"
    and cmp_trans: "cmp x y \<le> 0 \<Longrightarrow> cmp y z \<le> 0 \<Longrightarrow> cmp x z \<le> 0"
begin

lemma insert_by_set: "set (insert_by cmp x ys) = insert x (set ys)"
  by (induction ys) auto

lemma insert_by_sorted:
  "sorted_wrt (\<lambda>x y. cmp x y \<le> 0) ys \<Longrightarrow> sorted_wrt (\<lambda>x y. cmp x y \<le> 0) (insert_by cmp x ys)"
proof (induction ys)
  case (Cons y ys)
  show ?case
  proof (cases "cmp x y \<le> 0")
    case True
    with Cons.prems show ?thesis by (auto intro: cmp_trans)
  next
    case False
    then have "cmp y x \<le> 0" using cmp_total by blast
    with False Cons show ?thesis by (auto simp: insert_by_set)
  qed
qed simp

lemma js_sort_set: "set (js_sort cmp xs) = set xs"
  by (induction xs) (simp_all add: js_sort_def insert_by_set)

lemma js_sort_sorted: "sorted_wrt (\<lambda>x y. cmp x y \<le> 0) (js_sort cmp xs)"
  by (induction xs) (simp_all add: js_sort_def insert_by_sorted)

lemma js_sort_length: "length (js_sort cmp xs) = length xs"
proof -
  have "length (insert_by cmp x ys) = Suc (length ys)" for x ys by (induction ys) auto
  then show ?thesis by (induction xs) (simp_all add: js_sort_def)
qed

lemma js_sort_Nil: "js_sort cmp xs = [] \<longleftrightarrow> xs = []"
  using js_sort_length [of xs] by (cases xs) auto

lemma js_sort_head:
  assumes "js_sort cmp xs = y # ys"
  shows "y \<in> set xs \<and> (\<forall>x \<in> set xs. cmp y x \<le> 0)"
proof -
  have "cmp y y \<le> 0" using cmp_total by blast
  with js_sort_sorted [of xs] js_sort_set [of xs] assms show ?thesis by auto
qed

end

interpretation fin: comparator finished_desc
  by unfold_locales (auto simp: finished_desc_def)

text \<open>What the scheduler relies on of \<open>localeCompare\<close>: it orders the Agent ids.\<close>

definition collation :: "(string \<Rightarrow> string \<Rightarrow> int) \<Rightarrow> bool" where
  "collation lc =
     ((\<forall>a b. lc a b \<le> 0 \<or> lc b a \<le> 0) \<and> (\<forall>a b c. lc a b \<le> 0 \<longrightarrow> lc b c \<le> 0 \<longrightarrow> lc a c \<le> 0) \<and>
      (\<forall>a b. lc a b \<le> 0 \<longrightarrow> lc b a \<le> 0 \<longrightarrow> a = b))"

lemma candidate_le:
  "candidate_order env a b \<le> 0 \<longleftrightarrow> el_score b < el_score a \<or>
     (el_score b = el_score a \<and> se_localeCompare env (sa_agentId (el_agent a)) (sa_agentId (el_agent b)) \<le> 0)"
  by (auto simp: candidate_order_def)

lemma collationD:
  assumes "collation lc"
  shows "lc a b \<le> 0 \<or> lc b a \<le> 0" "lc a b \<le> 0 \<Longrightarrow> lc b c \<le> 0 \<Longrightarrow> lc a c \<le> 0"
    "lc a b \<le> 0 \<Longrightarrow> lc b a \<le> 0 \<Longrightarrow> a = b"
  using assms unfolding collation_def by blast+

lemma candidate_comparator:
  assumes "collation (se_localeCompare env)"
  shows "comparator (candidate_order env)"
proof (rule comparator.intro)
  fix x y z
  let ?lc = "\<lambda>a b. se_localeCompare env (sa_agentId (el_agent a)) (sa_agentId (el_agent b))"
  show "candidate_order env x y \<le> 0 \<or> candidate_order env y x \<le> 0"
    using collationD(1) [OF assms] unfolding candidate_le by (meson less_linear)
  assume "candidate_order env x y \<le> 0" "candidate_order env y z \<le> 0"
  moreover have "?lc x y \<le> 0 \<Longrightarrow> ?lc y z \<le> 0 \<Longrightarrow> ?lc x z \<le> 0" by (rule collationD(2) [OF assms])
  ultimately show "candidate_order env x z \<le> 0" unfolding candidate_le by linarith
qed

section \<open>Who is eligible\<close>

definition one_of :: "string list option \<Rightarrow> string \<Rightarrow> bool" where
  "one_of wanted have_it =
     (\<forall>ws. wanted = Some ws \<longrightarrow> ws \<noteq> [] \<longrightarrow> have_it \<noteq> [] \<and> (\<exists>w \<in> set ws. toLowerCase w = toLowerCase have_it))"

definition meets_requirements :: "job_request \<Rightarrow> scheduler_agent \<Rightarrow> bool" where
  "meets_requirements request a =
     (let caps = sa_capabilities a in
      of_int (sa_activeJobsCount a) < cap_max_jobs (cap_execution caps) \<and> 0 < cap_max_jobs (cap_execution caps) \<and>
      one_of (rq_opt rq_os request) (os_name (os_family (cap_os caps))) \<and>
      one_of (rq_opt rq_arch request) (os_arch (cap_os caps)) \<and>
      (\<forall>ls k v. rq_opt rq_labels request = Some ls \<longrightarrow> (k, v) \<in> set ls \<longrightarrow> map_of (cap_labels caps) k = Some v) \<and>
      (\<forall>m. rq_opt rq_min_memory_mb request = Some m \<longrightarrow> m \<noteq> 0 \<longrightarrow> m \<le> res_memory_free_mb (cap_resources caps)) \<and>
      (\<forall>m. rq_opt rq_min_disk_mb request = Some m \<longrightarrow> m \<noteq> 0 \<longrightarrow> m \<le> res_disk_free_mb (cap_resources caps)) \<and>
      required_shell request \<in> normalizedShell ` set (cap_shells (cap_execution caps)) \<and>
      set (required_secrets request) \<subseteq> set (cap_secret_refs caps) \<and>
      (\<forall>ts t spec. rq_opt rq_tools request = Some ts \<longrightarrow> (t, spec) \<in> set ts \<longrightarrow>
         (if is_probe_tool t then probe_tool_ok (cap_tools caps) t spec
          else \<exists>p \<in> set (cap_toolchain_profiles caps). profile_serves t spec p)))"

lemma matches_any_iff: "matches_any wanted have_it = one_of wanted have_it"
  by (cases wanted; cases "the wanted") (auto simp: matches_any_def one_of_def list_ex_iff)

lemma matchToolchainProfiles_Some:
  "matchToolchainProfiles tools profiles \<noteq> None \<longleftrightarrow> (\<forall>(t, spec) \<in> set tools. \<exists>p \<in> set profiles. profile_serves t spec p)"
proof (induction tools profiles rule: matchToolchainProfiles.induct)
  case (2 toolName versionSpec tools profiles)
  have "find (profile_serves toolName versionSpec) profiles = None \<longleftrightarrow>
      \<not> (\<exists>p \<in> set profiles. profile_serves toolName versionSpec p)"
    by (auto simp: find_None_iff)
  with 2 show ?case by (auto split: option.splits)
qed simp

lemma toolRequirements_Some:
  "matchJobToolRequirements rt caps \<noteq> None \<longleftrightarrow>
   (\<forall>ts t spec. rt = Some ts \<longrightarrow> (t, spec) \<in> set ts \<longrightarrow>
      (if is_probe_tool t then probe_tool_ok (cap_tools caps) t spec
       else \<exists>p \<in> set (cap_toolchain_profiles caps). profile_serves t spec p))"
proof (cases rt)
  case None
  then show ?thesis by (simp add: matchJobToolRequirements_def splitRequestedTools_def matchProbeTools_def)
next
  case (Some ts)
  let ?tc = "filter (\<lambda>t. \<not> is_probe_tool (fst t)) ts"
  have "matchJobToolRequirements rt caps \<noteq> None \<longleftrightarrow>
      matchToolchainProfiles ?tc (cap_toolchain_profiles caps) \<noteq> None \<and>
      matchProbeTools (filter (\<lambda>t. is_probe_tool (fst t)) ts) (cap_tools caps)"
    using Some by (auto simp: matchJobToolRequirements_def splitRequestedTools_def split: option.splits)
  then show ?thesis
    unfolding matchToolchainProfiles_Some using Some by (auto simp: matchProbeTools_def list_all_iff)
qed

definition agent_score :: "sched_env \<Rightarrow> job_request \<Rightarrow> scheduler_options \<Rightarrow> scheduler_agent \<Rightarrow> rat" where
  "agent_score env request options a =
     computeAgentSchedulerScore env (sa_agentId a) (sa_capabilities a) (sa_activeJobsCount a) (recent_penalty options a)
       request options (the (matchJobToolRequirements (rq_opt rq_tools request) (sa_capabilities a)))
       (case rq_opt rq_tools request of Some (_ # _) \<Rightarrow> True | _ \<Rightarrow> False) True"

definition candidate_of :: "sched_env \<Rightarrow> job_request \<Rightarrow> scheduler_options \<Rightarrow> scheduler_agent \<Rightarrow> eligible_candidate" where
  "candidate_of env request options a =
     \<lparr>el_agent = a, el_toolchains = the (matchJobToolRequirements (rq_opt rq_tools request) (sa_capabilities a)),
      el_score = agent_score env request options a\<rparr>"

lemma verdict_eligible:
  "eligible_of (verdict_of env request options a) =
     (if meets_requirements request a then Some (candidate_of env request options a) else None)"
proof (cases "matchJobToolRequirements (rq_opt rq_tools request) (sa_capabilities a)")
  case None
  then have "\<not> meets_requirements request a"
    using toolRequirements_Some [of "rq_opt rq_tools request" "sa_capabilities a"] unfolding meets_requirements_def Let_def by simp
  with None show ?thesis by (simp add: verdict_of_def eligible_of_def Let_def)
next
  case (Some ps)
  then have tools: "\<forall>ts t spec. rq_opt rq_tools request = Some ts \<longrightarrow> (t, spec) \<in> set ts \<longrightarrow>
      (if is_probe_tool t then probe_tool_ok (cap_tools (sa_capabilities a)) t spec
       else \<exists>p \<in> set (cap_toolchain_profiles (sa_capabilities a)). profile_serves t spec p)"
    using toolRequirements_Some [of "rq_opt rq_tools request" "sa_capabilities a"] by simp
  have labels: "matchesLabels (rq_opt rq_labels request) l \<longleftrightarrow>
      (\<forall>ls k v. rq_opt rq_labels request = Some ls \<longrightarrow> (k, v) \<in> set ls \<longrightarrow> map_of l k = Some v)" for l
    by (auto simp: matchesLabels_def list_all_iff split: option.split)
  have minimum: "below_minimum m f \<longleftrightarrow> \<not> (\<forall>x. m = Some x \<longrightarrow> x \<noteq> 0 \<longrightarrow> x \<le> f)" for m f
    by (auto simp: below_minimum_def split: option.split)
  have shells: "agentHasRequiredShell a sh \<longleftrightarrow> sh \<in> normalizedShell ` set (cap_shells (cap_execution (sa_capabilities a)))" for sh
    by (auto simp: agentHasRequiredShell_def list_ex_iff)
  have secrets: "matchesSecretRefs rs as \<longleftrightarrow> set rs \<subseteq> set as" for rs as
    by (auto simp: matchesSecretRefs_def list_all_iff)
  show ?thesis
    using Some tools
    by (simp add: verdict_of_def eligible_of_def Let_def meets_requirements_def matchesOs_def matchesArch_def matches_any_iff
        labels minimum shells secrets candidate_of_def agent_score_def not_le)
qed

lemma eligible_list:
  "List.map_filter eligible_of (map (verdict_of env request options) ags) =
     map (candidate_of env request options) (filter (meets_requirements request) ags)"
  by (induction ags) (simp_all add: map_filter_simps verdict_eligible)

section \<open>The choice\<close>

lemma no_eligible:
  assumes "collation (se_localeCompare env)" "\<not> (\<exists>a \<in> set ags. meets_requirements request a)"
  shows "js_sort (candidate_order env) (map (candidate_of env request options) (filter (meets_requirements request) ags)) = []"
  using assms(2) by (simp add: comparator.js_sort_Nil [OF candidate_comparator [OF assms(1)]] filter_empty_conv)

lemma some_eligible:
  assumes "collation (se_localeCompare env)" "a \<in> set ags" "meets_requirements request a"
  shows "sd_action (selectAgentForJob env ags request options) = Remote"
proof -
  have "js_sort (candidate_order env) (map (candidate_of env request options) (filter (meets_requirements request) ags)) \<noteq> []"
    using assms(2,3) by (auto simp: comparator.js_sort_Nil [OF candidate_comparator [OF assms(1)]] filter_empty_conv)
  then show ?thesis
    unfolding selectAgentForJob_def eligible_list Let_def by (auto simp: neq_Nil_conv)
qed

text \<open>
  (C9) The scheduler's choice: a job goes to a remote Agent exactly when some online Agent meets every
  hard requirement (free capacity, operating system, architecture, labels, memory, disk, shell, secrets
  and tools), and then the chosen Agent is one of these, no other one scores higher, and among those
  with the same score its id comes first.
\<close>

theorem scheduler_selects_best_eligible:
  fixes ags :: "scheduler_agent list" and request :: job_request and options :: scheduler_options
  assumes "collation (se_localeCompare env)"
  defines "d \<equiv> selectAgentForJob env ags request options"
  shows "(sd_action d = Remote \<longleftrightarrow> (\<exists>a \<in> set ags. meets_requirements request a)) \<and>
     (sd_action d = Remote \<longrightarrow> (\<exists>a \<in> set ags. sd_selectedAgent d = Some a \<and> meets_requirements request a \<and>
        (\<forall>b \<in> set ags. meets_requirements request b \<longrightarrow>
           agent_score env request options b < agent_score env request options a \<or>
           (agent_score env request options b = agent_score env request options a \<and>
            se_localeCompare env (sa_agentId a) (sa_agentId b) \<le> 0))))"
proof (cases "js_sort (candidate_order env) (map (candidate_of env request options) (filter (meets_requirements request) ags))")
  case Nil
  then have "\<not> (\<exists>a \<in> set ags. meets_requirements request a)"
    using comparator.js_sort_Nil [OF candidate_comparator [OF assms(1)]] by (auto simp: filter_empty_conv)
  moreover have "sd_action d \<noteq> Remote"
    unfolding d_def selectAgentForJob_def eligible_list Let_def Nil
    by (simp add: decision_def split: option.split local_fallback_decision.split)
  ultimately show ?thesis by blast
next
  case (Cons c cs)
  from comparator.js_sort_head [OF candidate_comparator [OF assms(1)] Cons]
  obtain a where a: "a \<in> set ags" "meets_requirements request a" "c = candidate_of env request options a"
      and best: "\<And>b. b \<in> set ags \<Longrightarrow> meets_requirements request b \<Longrightarrow>
                  candidate_order env c (candidate_of env request options b) \<le> 0"
    by auto
  have "sd_action d = Remote" "sd_selectedAgent d = Some a"
    unfolding d_def selectAgentForJob_def eligible_list Let_def Cons by (simp_all add: a candidate_of_def)
  moreover have "agent_score env request options b < agent_score env request options a \<or>
      (agent_score env request options b = agent_score env request options a \<and>
       se_localeCompare env (sa_agentId a) (sa_agentId b) \<le> 0)" if "b \<in> set ags" "meets_requirements request b" for b
    using best [OF that] by (simp add: candidate_le a candidate_of_def)
  ultimately show ?thesis using a by blast
qed

section \<open>Order independence\<close>

lemma min_list_opt_Min: "min_list_opt xs = (if xs = [] then None else Some (Min (set xs)))"
  by (cases xs) (simp_all add: min_list_opt_def Min.set_eq_fold [symmetric])

lemma min_list_opt_cong: "set xs = set ys \<Longrightarrow> min_list_opt xs = min_list_opt ys"
  by (cases xs; cases ys) (auto simp: min_list_opt_Min)

lemma decideLocalFallback_cong:
  "set xs = set ys \<Longrightarrow> decideLocalFallback al rl h mf xs rs = decideLocalFallback al rl h mf ys rs"
  using min_list_opt_cong [of xs ys] by (simp add: decideLocalFallback_def)

lemma filter_Nil_cong: "set xs = set ys \<Longrightarrow> (filter P xs = []) = (filter P ys = [])"
  by (auto simp: filter_empty_conv)

lemma describe_cong: "set xs = set ys \<Longrightarrow> describeNoMatchingAgent xs request n = describeNoMatchingAgent ys request n"
proof -
  assume eq: "set xs = set ys"
  then have "(xs = []) = (ys = [])" by auto
  moreover have "(filter P xs = []) = (filter P ys = [])" "list_all Q (filter P xs) = list_all Q (filter P ys)" for P Q
    using eq by (auto simp: filter_empty_conv list_all_iff)
  ultimately show ?thesis
    unfolding describeNoMatchingAgent_def Let_def filter_filter by simp
qed

lemma candidate_unique:
  assumes "collation (se_localeCompare env)" "inj_on sa_agentId S" "a \<in> S" "b \<in> S"
    "candidate_order env (candidate_of env request options a) (candidate_of env request options b) \<le> 0"
    "candidate_order env (candidate_of env request options b) (candidate_of env request options a) \<le> 0"
  shows "a = b"
proof -
  have "sa_agentId a = sa_agentId b"
    using assms(5,6) collationD(3) [OF assms(1), of "sa_agentId a" "sa_agentId b"]
    unfolding candidate_le by (auto simp: candidate_of_def)
  with assms(2-4) show ?thesis by (auto simp: inj_on_def)
qed

text \<open>
  (C11) The decision depends on which Agents are online and not on the order in which they are listed:
  for the same Agents with distinct ids, in any order, the whole decision (action, Agent, toolchains,
  reason and diagnostic) is the same.
\<close>

theorem scheduler_ignores_agent_order:
  assumes "collation (se_localeCompare env)" and "set xs = set ys" and "inj_on sa_agentId (set xs)"
  shows "selectAgentForJob env xs request options = selectAgentForJob env ys request options"
proof -
  let ?E = "\<lambda>ags. map (candidate_of env request options) (filter (meets_requirements request) ags)"
  let ?S = "\<lambda>ags. js_sort (candidate_order env) (?E ags)"
  note head = comparator.js_sort_head [OF candidate_comparator [OF assms(1)]]
  have none: "?S xs = [] \<longleftrightarrow> ?S ys = []"
    using comparator.js_sort_Nil [OF candidate_comparator [OF assms(1)]] filter_Nil_cong [OF assms(2)] by simp
  have busy: "set (List.map_filter busy_of (map (verdict_of env request options) xs)) =
      set (List.map_filter busy_of (map (verdict_of env request options) ys))"
    using assms(2) by (auto simp: List.map_filter_def)
  show ?thesis
  proof (cases "?S xs")
    case Nil
    with none have "?S ys = []" by simp
    with Nil show ?thesis
      unfolding selectAgentForJob_def eligible_list Let_def decideLocalFallback_cong [OF busy] describe_cong [OF assms(2)]
      by (simp only: list.case)
  next
    case (Cons c cs)
    with none obtain d ds where d: "?S ys = d # ds" by (cases "?S ys") auto
    from head [OF Cons] obtain a where a: "a \<in> set xs" "meets_requirements request a" "c = candidate_of env request options a"
      by auto
    from head [OF d] obtain b where b: "b \<in> set ys" "meets_requirements request b" "d = candidate_of env request options b"
      by auto
    have "candidate_order env c d \<le> 0" "candidate_order env d c \<le> 0"
      using head [OF Cons] head [OF d] a b assms(2) by auto
    with candidate_unique [OF assms(1,3)] a b assms(2) have "c = d" by auto
    with Cons d show ?thesis unfolding selectAgentForJob_def eligible_list Let_def by simp
  qed
qed

section \<open>Local fallback\<close>

definition host_has_room :: "scheduler_options \<Rightarrow> int list \<Rightarrow> bool" where
  "host_has_room options busy =
     (case so_hostLoad options of
        None \<Rightarrow> True
      | Some host \<Rightarrow>
          hl_cpuBusyFraction host < computeEffectiveMaxHostCpuBusyFraction (hl_capacityScore host)
            (case so_maxHostCpuBusyFraction options of Some f \<Rightarrow> f | None \<Rightarrow> 8 / 10) DEFAULT_REFERENCE_CAPACITY_SCORE
          \<or> (\<forall>n \<in> set busy. hl_runningJobs host \<le> n))"

definition busy_counts :: "scheduler_agent list \<Rightarrow> int list" where
  "busy_counts ags = map sa_activeJobsCount (filter (\<lambda>a. 0 < cap_max_jobs (cap_execution (sa_capabilities a)) \<and>
     cap_max_jobs (cap_execution (sa_capabilities a)) \<le> of_int (sa_activeJobsCount a)) ags)"

lemma busy_list: "List.map_filter busy_of (map (verdict_of env request options) ags) = busy_counts ags"
proof (induction ags)
  case (Cons a ags)
  have "busy_of (verdict_of env request options a) =
      (if 0 < cap_max_jobs (cap_execution (sa_capabilities a)) \<and>
          cap_max_jobs (cap_execution (sa_capabilities a)) \<le> of_int (sa_activeJobsCount a) then Some (sa_activeJobsCount a) else None)"
    by (auto simp: verdict_of_def busy_of_def Let_def split: option.split)
  with Cons show ?case by (simp add: map_filter_simps busy_counts_def)
qed (simp add: busy_counts_def map_filter_simps)

lemma least_busy:
  "(case min_list_opt xs of None \<Rightarrow> True | Some m \<Rightarrow> n \<le> m) \<longleftrightarrow> (\<forall>x \<in> set xs. n \<le> x)"
  by (cases xs) (auto simp: min_list_opt_Min)

lemma decide_eligible:
  "decideLocalFallback al rl h mf xs None \<in> {Local_eligible, Local_eligible_host_busy} \<longleftrightarrow>
     al \<and> rl \<notin> {Destructive, Hardware} \<and>
     (hl_cpuBusyFraction h < computeEffectiveMaxHostCpuBusyFraction (hl_capacityScore h) mf DEFAULT_REFERENCE_CAPACITY_SCORE
      \<or> (\<forall>x \<in> set xs. hl_runningJobs h \<le> x))"
  unfolding least_busy [symmetric]
  by (auto simp: decideLocalFallback_def Let_def split: option.split)

lemma remaining_policy: "q \<noteq> Fail_fast \<Longrightarrow> q \<noteq> Wait \<Longrightarrow> q = Local_fallback"
  by (cases q) simp_all

text \<open>
  (C10) When a job runs on the Controller's own host: exactly when no online Agent meets its requirements,
  its queue policy is local fallback, neither the job's preferences nor the Controller's options forbid it,
  its risk is neither destructive nor hardware, the host (when its abilities are known) has the system and
  the shell, and the host is below its load threshold or no busier than every Agent that is full.
\<close>

theorem local_fallback_exactly_when_allowed:
  assumes "collation (se_localeCompare env)"
  shows "sd_action (selectAgentForJob env ags request options) = Sched_local_fallback \<longleftrightarrow>
     (\<forall>a \<in> set ags. \<not> meets_requirements request a) \<and>
     rqst_queue_policy request \<in> {None, Some Local_fallback} \<and>
     pf_opt pf_allow_local_fallback request \<noteq> Some False \<and> so_allowLocalFallback options \<noteq> Some False \<and>
     rqst_risk_level request \<notin> {Some Destructive, Some Hardware} \<and>
     (\<forall>lh. so_localHostExecution options = Some lh \<longrightarrow> localHostCanExecute request lh) \<and>
     host_has_room options (busy_counts ags)"
proof (cases "\<exists>a \<in> set ags. meets_requirements request a")
  case True
  then have "sd_action (selectAgentForJob env ags request options) = Remote" using some_eligible [OF assms] by blast
  with True show ?thesis by auto
next
  case False
  let ?allow = "pf_opt pf_allow_local_fallback request \<noteq> Some False \<and> so_allowLocalFallback options \<noteq> Some False"
  let ?risk = "case rqst_risk_level request of Some r \<Rightarrow> r | None \<Rightarrow> Normal"
  have risk: "?risk \<in> {Destructive, Hardware} \<longleftrightarrow> rqst_risk_level request \<in> {Some Destructive, Some Hardware}"
    by (auto split: option.split)
  have policy: "(case rqst_queue_policy request of Some q \<Rightarrow> q | None \<Rightarrow> Local_fallback) = Local_fallback \<longleftrightarrow>
      rqst_queue_policy request \<in> {None, Some Local_fallback}" by (auto split: option.split)
  show ?thesis
  proof (cases "so_hostLoad options")
    case None
    with False risk policy show ?thesis
      unfolding selectAgentForJob_def eligible_list Let_def no_eligible [OF assms False]
      by (auto simp: decision_def host_has_room_def intro: remaining_policy split: option.splits)
  next
    case (Some h)
    let ?mf = "case so_maxHostCpuBusyFraction options of Some f \<Rightarrow> f | None \<Rightarrow> 8 / 10"
    note el = decide_eligible [of ?allow ?risk h ?mf "busy_counts ags"]
    show ?thesis
      using False risk policy Some el
      unfolding selectAgentForJob_def eligible_list busy_list Let_def no_eligible [OF assms False]
      by (cases "decideLocalFallback ?allow ?risk h ?mf (busy_counts ags) None")
        (auto simp: decision_def host_has_room_def intro: remaining_policy split: option.splits)
  qed
qed

section \<open>Versions\<close>

lemma str_less_antisym: "a \<noteq> b \<Longrightarrow> str_less a b \<longleftrightarrow> \<not> str_less b a"
proof (induction a b rule: str_less.induct)
  case (1 s)
  then show ?case by (cases s) simp_all
next
  case (3 c cs d ds)
  have "(of_char c :: nat) = of_char d \<longleftrightarrow> c = d" by simp
  with 3 show ?case by auto
qed simp_all

lemma compare_segment_antisym: "compare_segment a b = - compare_segment b a"
  using str_less_antisym [of a b]
  by (auto simp: compare_segment_def split: option.splits)

lemma compare_segments_antisym: "compare_segments as bs = - compare_segments bs as"
proof (induction as bs rule: compare_segments.induct)
  case (2 a as)
  then show ?case using compare_segment_antisym [of a "''0''"] by (simp add: Let_def)
next
  case (3 b bs)
  then show ?case using compare_segment_antisym [of "''0''" b] by (simp add: Let_def)
next
  case (4 a as b bs)
  then show ?case using compare_segment_antisym [of a b] by (simp add: Let_def)
qed simp

lemma compareVersionParts_antisym: "compareVersionParts a b = - compareVersionParts b a"
  by (simp add: compareVersionParts_def compare_segments_antisym [of "split_on CHR ''.'' a"])

text \<open>A plain version: trimmed, one line, and not itself an operator.\<close>

definition plain_version :: "string \<Rightarrow> bool" where
  "plain_version t = (t \<noteq> [] \<and> trim t = t \<and> list_all (\<lambda>c. \<not> is_newline c) t \<and> hd t \<notin> {CHR ''='', CHR ''<'', CHR ''>''})"

lemma trim_ends:
  assumes "trim t = t" "t \<noteq> []"
  shows "\<not> is_space (hd t)" "\<not> is_space (last t)"
proof -
  let ?u = "dropWhile is_space t"
  let ?y = "dropWhile is_space (rev ?u)"
  have y1: "rev ?y = t" using assms(1) by (simp add: trim_def)
  with assms(2) have "?y \<noteq> []" by (metis rev.simps(1))
  note y = y1 this
  have "rev ?y @ rev (takeWhile is_space (rev ?u)) = ?u"
    by (metis rev_append rev_rev_ident takeWhile_dropWhile_id)
  with y1 have u: "t @ rev (takeWhile is_space (rev ?u)) = ?u" by simp
  have "hd t = hd ?u" by (metis u hd_append2 assms(2))
  moreover have "?u \<noteq> []" by (metis u append_is_Nil_conv assms(2))
  ultimately have "hd t = hd ?u" "?u \<noteq> []" .
  with hd_dropWhile [of is_space t] show "\<not> is_space (hd t)" by simp
  have "last t = hd ?y" using y by (metis last_rev)
  with hd_dropWhile [OF y(2)] show "\<not> is_space (last t)" by simp
qed

lemma trim_self: "\<not> is_space (hd t) \<Longrightarrow> \<not> is_space (last t) \<Longrightarrow> trim t = t"
proof (cases "t = []")
  case False
  assume h: "\<not> is_space (hd t)" "\<not> is_space (last t)"
  then have "dropWhile is_space t = t" using False by (simp add: dropWhile_eq_self_iff)
  moreover have "dropWhile is_space (rev t) = rev t" using h False by (simp add: dropWhile_eq_self_iff hd_rev)
  ultimately show ?thesis by (simp add: trim_def)
qed (simp add: trim_def)

lemma plain_version_facts:
  assumes "plain_version t"
  shows "trim t = t" "t \<noteq> []" "\<not> is_space (hd t)" "range_target t = Some t"
    "\<not> is_space c \<Longrightarrow> trim (c # t) = c # t" "\<not> is_space c \<Longrightarrow> trim (c # CHR ''='' # t) = c # CHR ''='' # t"
proof -
  show t: "trim t = t" "t \<noteq> []" using assms by (simp_all add: plain_version_def)
  note ends = trim_ends [OF t]
  show "\<not> is_space (hd t)" by (rule ends)
  have "dropWhile is_space t = t" using ends(1) t(2) by (simp add: dropWhile_eq_self_iff)
  then show "range_target t = Some t" using assms by (simp add: range_target_def plain_version_def)
  show "\<not> is_space c \<Longrightarrow> trim (c # t) = c # t" "\<not> is_space c \<Longrightarrow> trim (c # CHR ''='' # t) = c # CHR ''='' # t"
    using ends(2) t(2) by (auto intro!: trim_self)
qed

lemma parse_range_op:
  assumes "plain_version t"
  shows "parse_range (''>='' @ t) = Some (Ge, t)" "parse_range (''<='' @ t) = Some (Le, t)"
    "parse_range (''>'' @ t) = Some (Gt, t)" "parse_range (''<'' @ t) = Some (Lt, t)"
proof -
  note f = plain_version_facts [OF assms]
  obtain c r where t: "t = c # r" using f(2) by (cases t) auto
  have "c \<noteq> CHR ''=''" using assms t by (simp add: plain_version_def)
  with f(4) show "parse_range (''>='' @ t) = Some (Ge, t)" "parse_range (''<='' @ t) = Some (Le, t)"
    "parse_range (''>'' @ t) = Some (Gt, t)" "parse_range (''<'' @ t) = Some (Lt, t)"
    by (simp_all add: parse_range_def t)
qed

lemma range_matches:
  assumes "plain_version v" "plain_version t"
  shows "matchesVersionSpec v (''>='' @ t) = (compareVersionParts v t \<ge> 0)"
    "matchesVersionSpec v (''<='' @ t) = (compareVersionParts v t \<le> 0)"
    "matchesVersionSpec v (''>'' @ t) = (compareVersionParts v t > 0)"
    "matchesVersionSpec v (''<'' @ t) = (compareVersionParts v t < 0)"
proof -
  note fv = plain_version_facts [OF assms(1)] and ft = plain_version_facts [OF assms(2)]
  have sp: "\<not> is_space (CHR ''>'')" "\<not> is_space (CHR ''<'')" by (simp_all add: is_space_def)
  have tr: "trim (''>='' @ t) = ''>='' @ t" "trim (''<='' @ t) = ''<='' @ t" "trim (''>'' @ t) = ''>'' @ t" "trim (''<'' @ t) = ''<'' @ t"
    using ft(5,6) sp by simp_all
  have ne: "v \<noteq> ''>='' @ t" "v \<noteq> ''<='' @ t" "v \<noteq> ''>'' @ t" "v \<noteq> ''<'' @ t"
    using assms(1) by (auto simp: plain_version_def)
  show "matchesVersionSpec v (''>='' @ t) = (compareVersionParts v t \<ge> 0)"
    "matchesVersionSpec v (''<='' @ t) = (compareVersionParts v t \<le> 0)"
    "matchesVersionSpec v (''>'' @ t) = (compareVersionParts v t > 0)"
    "matchesVersionSpec v (''<'' @ t) = (compareVersionParts v t < 0)"
    unfolding matchesVersionSpec_def tr Let_def parse_range_op [OF assms(2)] fv(1) ft(1)
    using ne ft(1) by simp_all
qed

text \<open>
  Version ranges: for plain versions the four operators cut the line of versions consistently. A
  version satisfies \<open>>= t\<close> exactly when it does not satisfy \<open>< t\<close>, and \<open><= t\<close> exactly when it does not
  satisfy \<open>> t\<close>; swapping the two versions turns \<open>>=\<close> into \<open><=\<close>; and every version satisfies both
  inclusive ranges of itself.
\<close>

theorem version_ranges_consistent:
  assumes "plain_version v" and "plain_version t"
  shows "(matchesVersionSpec v (''>='' @ t) \<longleftrightarrow> \<not> matchesVersionSpec v (''<'' @ t)) \<and>
     (matchesVersionSpec v (''<='' @ t) \<longleftrightarrow> \<not> matchesVersionSpec v (''>'' @ t)) \<and>
     (matchesVersionSpec v (''>='' @ t) \<longleftrightarrow> matchesVersionSpec t (''<='' @ v)) \<and>
     matchesVersionSpec v (''>='' @ v) \<and> matchesVersionSpec v (''<='' @ v)"
proof -
  have "compareVersionParts v v = 0" using compareVersionParts_antisym [of v v] by simp
  then show ?thesis
    using compareVersionParts_antisym [of v t]
    unfolding range_matches [OF assms] range_matches [OF assms(2,1)] range_matches [OF assms(1,1)] by auto
qed

section \<open>Bounds\<close>

lemma clamp01_bounds: "0 \<le> clamp01 x" "clamp01 x \<le> 1"
  by (simp_all add: clamp01_def)

lemma failures_penalty: "0 \<le> computeRecentFailurePenalty n \<and> computeRecentFailurePenalty n \<le> 500"
  by (simp add: computeRecentFailurePenalty_def)

lemma sum_list_bounds: "(\<forall>x \<in> set xs. 0 \<le> x \<and> x \<le> 1) \<Longrightarrow> 0 \<le> sum_list xs \<and> sum_list xs \<le> (of_nat (length xs) :: rat)"
  by (induction xs) auto

definition monitor_ok :: "nat \<Rightarrow> rat list \<Rightarrow> bool" where
  "monitor_ok historySize samples = (length samples \<le> historySize \<and> (\<forall>x \<in> set samples. 0 \<le> x \<and> x \<le> 1))"

lemma busy_bounds: "monitor_ok n xs \<Longrightarrow> 0 \<le> currentBusyFraction xs \<and> currentBusyFraction xs \<le> 1"
  using sum_list_bounds [of xs] by (auto simp: monitor_ok_def currentBusyFraction_def divide_le_eq_1)

lemma sampleOnce_ok:
  "monitor_ok n xs \<Longrightarrow> (\<And>v. probe = Some v \<Longrightarrow> 0 \<le> v \<and> v \<le> 1) \<Longrightarrow> monitor_ok n (snd (sampleOnce n probe xs))"
  by (cases xs) (auto simp: sampleOnce_def monitor_ok_def Let_def split: option.split)

text \<open>
  Host load: however often the monitor samples, and whichever probes fail, when every probe is the
  busy fraction of two CPU readings the monitor keeps at most \<open>historySize\<close> samples and reports a value
  between 0 and 1.
\<close>

theorem host_monitor_bounded:
  assumes "\<And>p. p \<in> set probes \<Longrightarrow> p = None \<or> (\<exists>b a. p = Some (computeCpuBusyFraction b a))"
  shows "let samples = fold (\<lambda>p xs. snd (sampleOnce historySize p xs)) probes [] in
    length samples \<le> historySize \<and> 0 \<le> currentBusyFraction samples \<and> currentBusyFraction samples \<le> 1"
proof -
  have probe: "0 \<le> v \<and> v \<le> 1" if "Some v \<in> set probes" for v
    using assms [OF that] clamp01_bounds by (auto simp: computeCpuBusyFraction_def Let_def)
  have "monitor_ok historySize xs \<Longrightarrow> monitor_ok historySize (fold (\<lambda>p xs. snd (sampleOnce historySize p xs)) ps xs)"
    if "set ps \<subseteq> set probes" for ps xs
    using that
  proof (induction ps arbitrary: xs)
    case (Cons p ps)
    then show ?case using probe by (auto intro!: Cons.IH sampleOnce_ok)
  qed simp
  from this [of probes "[]"] have "monitor_ok historySize (fold (\<lambda>p xs. snd (sampleOnce historySize p xs)) probes [])"
    by (simp add: monitor_ok_def)
  then show ?thesis using busy_bounds by (auto simp: monitor_ok_def Let_def)
qed

text \<open>
  Failure penalties: every Agent with a finished attempt has a penalty between 0 and 500, and it is
  50 for each failed attempt among its most recent ones (never more than the window), capped at 500.
\<close>

theorem failure_penalties_bounded:
  assumes "(a, p) \<in> set (getRecentFailurePenaltiesForAgents windowSize s)"
  shows "0 \<le> p \<and> p \<le> 500 \<and> length (recent_attempts windowSize a s) \<le> windowSize \<and>
    p = min 500 (50 * int (length (filter (\<lambda>r. at_outcome r = Some Failed) (recent_attempts windowSize a s)))) \<and>
    (\<forall>r \<in> set (recent_attempts windowSize a s). r \<in> set (job_attempts s) \<and> at_agent_id r = Some a \<and> at_finished_at r \<noteq> None) \<and>
    (\<forall>r \<in> set (recent_attempts windowSize a s). \<forall>q \<in> set (job_attempts s).
       at_agent_id q = Some a \<longrightarrow> at_finished_at q \<noteq> None \<longrightarrow> q \<notin> set (recent_attempts windowSize a s) \<longrightarrow>
       the (at_finished_at q) \<le> the (at_finished_at r))"
proof -
  let ?rows = "sql_all (\<lambda>r. at_agent_id r = Some a \<and> at_finished_at r \<noteq> None) (job_attempts s)"
  let ?sorted = "js_sort finished_desc ?rows"
  have rows: "set ?sorted = {r \<in> set (job_attempts s). at_agent_id r = Some a \<and> at_finished_at r \<noteq> None}"
    by (auto simp: fin.js_sort_set sql_all_def)
  have window: "the (at_finished_at q) \<le> the (at_finished_at r)"
    if "r \<in> set (take windowSize ?sorted)" "q \<in> set ?sorted" "q \<notin> set (take windowSize ?sorted)" for r q
  proof -
    have "q \<in> set (drop windowSize ?sorted)" using that(2,3) by (metis UnE append_take_drop_id set_append)
    moreover have "sorted_wrt (\<lambda>x y. finished_desc x y \<le> 0) (take windowSize ?sorted @ drop windowSize ?sorted)"
      unfolding append_take_drop_id by (rule fin.js_sort_sorted)
    ultimately have "finished_desc r q \<le> 0" using that(1) unfolding sorted_wrt_append by blast
    then show ?thesis by (simp add: finished_desc_def)
  qed
  have "p = computeRecentFailurePenalty (int (length (filter (\<lambda>r. at_outcome r = Some Failed) (recent_attempts windowSize a s))))"
    using assms by (auto simp: getRecentFailurePenaltiesForAgents_def)
  then have "p = min 500 (50 * int (length (filter (\<lambda>r. at_outcome r = Some Failed) (recent_attempts windowSize a s))))"
    by (simp add: computeRecentFailurePenalty_def mult.commute)
  note penalty = this
  have recent: "recent_attempts windowSize a s = take windowSize ?sorted" by (simp add: recent_attempts_def)
  have mem: "r \<in> set (job_attempts s) \<and> at_agent_id r = Some a \<and> at_finished_at r \<noteq> None"
    if "r \<in> set (take windowSize ?sorted)" for r
    using in_set_takeD [OF that] rows by blast
  have "0 \<le> p" "p \<le> 500" unfolding penalty by simp_all
  moreover have "length (recent_attempts windowSize a s) \<le> windowSize" unfolding recent by simp
  moreover have "\<forall>r \<in> set (recent_attempts windowSize a s). \<forall>q \<in> set (job_attempts s).
      at_agent_id q = Some a \<longrightarrow> at_finished_at q \<noteq> None \<longrightarrow> q \<notin> set (recent_attempts windowSize a s) \<longrightarrow>
      the (at_finished_at q) \<le> the (at_finished_at r)"
    unfolding recent using window rows by blast
  moreover have "\<forall>r \<in> set (recent_attempts windowSize a s). r \<in> set (job_attempts s) \<and> at_agent_id r = Some a \<and> at_finished_at r \<noteq> None"
    unfolding recent using mem by blast
  ultimately show ?thesis using penalty by (intro conjI)
qed

section \<open>Two Agents and a job\<close>

definition code_unit_compare :: "string \<Rightarrow> string \<Rightarrow> int" where
  "code_unit_compare a b = (if a = b then 0 else if str_less a b then -1 else 1)"

lemma str_less_trans: "str_less a b \<Longrightarrow> str_less b c \<Longrightarrow> str_less a c"
proof (induction a b arbitrary: c rule: str_less.induct)
  case (2 d ds)
  then show ?case by (cases c) auto
next
  case (3 x xs y ys)
  then show ?case by (cases c) (auto split: if_splits)
qed simp

lemma code_unit_le: "code_unit_compare a b \<le> 0 \<longleftrightarrow> a = b \<or> str_less a b"
  by (simp add: code_unit_compare_def)

lemma code_unit_collation: "collation code_unit_compare"
proof -
  have "code_unit_compare a b \<le> 0 \<or> code_unit_compare b a \<le> 0" for a b
    unfolding code_unit_le using str_less_antisym [of a b] by blast
  moreover have "code_unit_compare a c \<le> 0" if "code_unit_compare a b \<le> 0" "code_unit_compare b c \<le> 0" for a b c
    using that unfolding code_unit_le using str_less_trans [of a b c] by blast
  moreover have "a = b" if "code_unit_compare a b \<le> 0" "code_unit_compare b a \<le> 0" for a b
    using that unfolding code_unit_le using str_less_antisym [of a b] by blast
  ultimately show ?thesis unfolding collation_def by blast
qed

definition demo_sched_env :: sched_env where
  "demo_sched_env = \<lparr>se_localeCompare = code_unit_compare, se_sha256 = (\<lambda>s. s)\<rparr>"

definition demo_caps :: "string \<Rightarrow> rat \<Rightarrow> rat \<Rightarrow> agent_capability_report" where
  "demo_caps i jobs' load =
     \<lparr>cap_agent_id = i, cap_display_name = i, cap_hostname = i,
      cap_os = \<lparr>os_family = Linux, os_version = ''6'', os_arch = ''x64''\<rparr>,
      cap_resources = \<lparr>res_cpu_logical = 8, res_memory_total_mb = 8000, res_memory_free_mb = 4000, res_disk_free_mb = 9000,
        res_cpu_load = Some load, res_disk_free_bytes = None, res_disk_min_free_bytes = None, res_disk_pressure = None,
        res_cpu_speed_mhz = None\<rparr>,
      cap_execution = \<lparr>cap_max_jobs = jobs', cap_shells = [''bash''], cap_supports_tty = False, cap_supports_process_tree_kill = True\<rparr>,
      cap_tools = [(''git'', [''2.43.0''])], cap_toolchain_profiles = [], cap_labels = [], cap_secret_refs = [],
      cap_repository_cache = None, cap_build_caches = None, cap_accepting_jobs = None, cap_boot_id = None,
      cap_configured_priority = None\<rparr>"

definition demo_agents :: "scheduler_agent list" where
  "demo_agents =
     [\<lparr>sa_agentId = ''b'', sa_capabilities = demo_caps ''b'' 2 (1/2), sa_activeJobsCount = 1, sa_recentFailurePenalty = None\<rparr>,
      \<lparr>sa_agentId = ''a'', sa_capabilities = demo_caps ''a'' 2 (1/2), sa_activeJobsCount = 0, sa_recentFailurePenalty = None\<rparr>,
      \<lparr>sa_agentId = ''c'', sa_capabilities = demo_caps ''c'' 1 0, sa_activeJobsCount = 1, sa_recentFailurePenalty = None\<rparr>]"

definition demo_sched_request :: "risk_level option \<Rightarrow> job_request" where
  "demo_sched_request risk =
     \<lparr>rqst_client_request_id = ''req'', rqst_name = None,
      rqst_source = \<lparr>src_project_root = ''/p'', src_cwd = ''.'', src_additional_roots = []\<rparr>,
      rqst_execution = \<lparr>ex_shell = None, ex_script = ''make'', ex_env = [], ex_secret_refs = None,
         ex_timeout_seconds = 60, ex_idle_timeout_seconds = None, ex_cancel_grace_seconds = None,
         ex_cleanup_script = None, ex_cleanup_timeout_seconds = 30, ex_tty = False, ex_completion = Run_to_exit\<rparr>,
      rqst_requirements = Some \<lparr>rq_os = Some [''Linux''], rq_arch = None, rq_tools = Some [(''git'', ''>=2.40'')], rq_labels = None,
         rq_secret_refs = None, rq_min_memory_mb = Some 1000, rq_min_disk_mb = None\<rparr>,
      rqst_preferences = None, rqst_queue_policy = None, rqst_risk_level = risk,
      rqst_intent = None, rqst_source_policy = None, rqst_artifacts = None\<rparr>"

definition demo_options :: scheduler_options where
  "demo_options = \<lparr>so_allowLocalFallback = None, so_localHostExecution = None, so_repoCanonicalId = None, so_baseCommit = None,
     so_buildCacheKeys = None, so_buildCacheProjectIdentity = None, so_estimatedTransferBytes = None,
     so_recentFailurePenalties = None, so_registeredAgentCount = None, so_hostLoad = None, so_maxHostCpuBusyFraction = None\<rparr>"

lemma demo_collation: "collation (se_localeCompare demo_sched_env)"
  by (simp add: demo_sched_env_def code_unit_collation)

lemma demo_choice: "map_option sa_agentId (sd_selectedAgent (selectAgentForJob demo_sched_env demo_agents (demo_sched_request None) demo_options))
    = Some ''a'' \<and> sd_action (selectAgentForJob demo_sched_env demo_agents (demo_sched_request None) demo_options) = Remote"
  by code_simp

theorem scheduler_selects_best_eligible_witness:
  "\<exists>a \<in> set demo_agents. sa_agentId a = ''a'' \<and> meets_requirements (demo_sched_request None) a \<and>
     (\<forall>b \<in> set demo_agents. meets_requirements (demo_sched_request None) b \<longrightarrow>
        agent_score demo_sched_env (demo_sched_request None) demo_options b
          \<le> agent_score demo_sched_env (demo_sched_request None) demo_options a)"
  using scheduler_selects_best_eligible [OF demo_collation, of demo_agents "demo_sched_request None" demo_options] demo_choice
  by fastforce

theorem scheduler_ignores_agent_order_witness:
  "selectAgentForJob demo_sched_env (rev demo_agents) (demo_sched_request None) demo_options =
     selectAgentForJob demo_sched_env demo_agents (demo_sched_request None) demo_options"
proof (rule scheduler_ignores_agent_order [OF demo_collation])
  show "set (rev demo_agents) = set demo_agents" by simp
  have "inj_on sa_agentId (set demo_agents)" by (simp add: demo_agents_def)
  then show "inj_on sa_agentId (set (rev demo_agents))" by simp
qed

theorem local_fallback_exactly_when_allowed_witness:
  "sd_action (selectAgentForJob demo_sched_env [] (demo_sched_request None) demo_options) = Sched_local_fallback \<and>
   sd_action (selectAgentForJob demo_sched_env [] (demo_sched_request (Some Destructive)) demo_options) \<noteq> Sched_local_fallback"
  using local_fallback_exactly_when_allowed [OF demo_collation, of "[]" "demo_sched_request None" demo_options]
    local_fallback_exactly_when_allowed [OF demo_collation, of "[]" "demo_sched_request (Some Destructive)" demo_options]
  by (simp add: demo_sched_request_def demo_options_def pf_opt_def host_has_room_def)

theorem version_ranges_consistent_witness:
  "matchesVersionSpec ''1.93.0'' ''>=1.93'' \<and> \<not> matchesVersionSpec ''1.93.0'' ''<1.93'' \<and> matchesVersionSpec ''1.93'' ''<=1.93.0''"
proof -
  have "plain_version ''1.93.0''" "plain_version ''1.93''" by code_simp+
  from version_ranges_consistent [OF this] have
    "matchesVersionSpec ''1.93.0'' (''>='' @ ''1.93'') \<longleftrightarrow> \<not> matchesVersionSpec ''1.93.0'' (''<'' @ ''1.93'')"
    "matchesVersionSpec ''1.93.0'' (''>='' @ ''1.93'') \<longleftrightarrow> matchesVersionSpec ''1.93'' (''<='' @ ''1.93.0'')" by blast+
  moreover have "matchesVersionSpec ''1.93.0'' (''>='' @ ''1.93'')" by code_simp
  ultimately show ?thesis by simp
qed

theorem host_monitor_bounded_witness:
  "let samples = fold (\<lambda>p xs. snd (sampleOnce 3 p xs)) [None, Some (computeCpuBusyFraction [] [])] [] in
   length samples \<le> 3 \<and> 0 \<le> currentBusyFraction samples \<and> currentBusyFraction samples \<le> 1"
  by (rule host_monitor_bounded) auto

definition demo_sched_db :: controller_db where
  "demo_sched_db =
     \<lparr>in_transaction = False, bound_notifier = None, unbound_managed = False, woken = [], agents = [], jobs = [],
      job_attempts = [(blank_attempt ''a1'' ''j'' 1 ''l'' 1 Completed)\<lparr>at_agent_id := Some ''g'', at_outcome := Some Failed, at_finished_at := Some 5\<rparr>,
                      (blank_attempt ''a2'' ''j'' 2 ''l'' 2 Completed)\<lparr>at_agent_id := Some ''g'', at_outcome := Some Succeeded, at_finished_at := Some 9\<rparr>],
      job_events = [], snapshots = []\<rparr>"

theorem failure_penalties_bounded_witness:
  "length (recent_attempts 10 ''g'' demo_sched_db) \<le> 10 \<and>
   (50 :: int) = min 500 (50 * int (length (filter (\<lambda>r. at_outcome r = Some Failed) (recent_attempts 10 ''g'' demo_sched_db))))"
proof -
  have "(''g'', 50) \<in> set (getRecentFailurePenaltiesForAgents 10 demo_sched_db)" by code_simp
  from failure_penalties_bounded [OF this] show ?thesis by blast
qed

end
