(* ===== verification/Capture_Lease.thy ===== *)
theory Capture_Lease
  imports Remote_Execution
begin

text \<open>
  \<open>apps/controller/src/jobs/submissions.ts\<close> and \<open>capture-lease.ts\<close>: the reservation of an
  idempotency key before its snapshot is captured, and the fenced lease of the process that captures it.
  Each operation is one SQL statement or a few of them without an await in between, so several callers
  (also in other processes on the same database) interleave at the granularity of these operations.
  \<open>JSON.stringify\<close> of a payload is kept as the JSON value.
\<close>

section \<open>Tables\<close>

datatype submission_state = Capturing | Captured | Capture_failed

record submission_row =
  sb_client_id :: string
  sb_client_request_id :: string
  sb_state :: submission_state
  sb_job_id :: "string option"
  sb_response :: "json option"
  sb_error :: "json option"
  sb_created_at :: ts
  sb_updated_at :: ts

record capture_lease =
  cl_client_id :: string
  cl_client_request_id :: string
  cl_owner_token :: string
  cl_fencing_generation :: int
  cl_expires_at :: ts
  cl_created_at :: ts
  cl_updated_at :: ts

record submit_state = remote_state +
  job_submissions :: "submission_row list"
  capture_leases :: "capture_lease list"

type_synonym capture_key = "string \<times> string"

record capture_identity =
  ci_key :: capture_key
  ci_owner_token :: string
  ci_fencing_generation :: int

definition sb_key :: "submission_row \<Rightarrow> capture_key" where
  "sb_key r = (sb_client_id r, sb_client_request_id r)"

definition cl_key :: "capture_lease \<Rightarrow> capture_key" where
  "cl_key r = (cl_client_id r, cl_client_request_id r)"

definition identity_of :: "capture_lease \<Rightarrow> capture_identity" where
  "identity_of l = \<lparr>ci_key = cl_key l, ci_owner_token = cl_owner_token l, ci_fencing_generation = cl_fencing_generation l\<rparr>"

section \<open>Submissions\<close>

definition getSubmission :: "capture_key \<Rightarrow> 'z submit_state_scheme \<Rightarrow> submission_row option" where
  "getSubmission k s = sql_get (\<lambda>r. sb_key r = k) (job_submissions s)"

definition reserveSubmission :: "ts \<Rightarrow> capture_key \<Rightarrow> ('z submit_state_scheme, bool \<times> submission_row) rbo" where
  "reserveSubmission now k = (\<lambda>s.
     let row = \<lparr>sb_client_id = fst k, sb_client_request_id = snd k, sb_state = Capturing, sb_job_id = None,
                sb_response = None, sb_error = None, sb_created_at = now, sb_updated_at = now\<rparr>;
         fresh = (getSubmission k s = None);
         t = (if fresh then s\<lparr>job_submissions := job_submissions s @ [row]\<rparr> else s)
     in case getSubmission k t of
          None \<Rightarrow> (Inl (rbo_internal ''Failed to reserve job submission''), t)
        | Some r \<Rightarrow> (Inr (fresh, r), t))"

fun sub_state_name :: "submission_state \<Rightarrow> string" where
  "sub_state_name Capturing = ''capturing''"
| "sub_state_name Captured = ''captured''"
| "sub_state_name Capture_failed = ''failed''"

definition completed_row ::
  "ts \<Rightarrow> submission_state \<Rightarrow> json \<Rightarrow> string option \<Rightarrow> submission_row \<Rightarrow> submission_row" where
  "completed_row now state payload jobId r =
     (let r' = r\<lparr>sb_state := state, sb_job_id := (case jobId of Some j \<Rightarrow> Some j | None \<Rightarrow> sb_job_id r), sb_updated_at := now\<rparr>
      in if state = Captured then r'\<lparr>sb_response := Some payload\<rparr> else r'\<lparr>sb_error := Some payload\<rparr>)"

definition completeSubmission ::
  "ts \<Rightarrow> capture_key \<Rightarrow> submission_state \<Rightarrow> json \<Rightarrow> string option \<Rightarrow> ('z submit_state_scheme, submission_row) rbo" where
  "completeSubmission now k state payload jobId = (\<lambda>s.
     case getSubmission k s of
       None \<Rightarrow> (Inl (rbo_validation ''Unknown job submission''), s)
     | Some existing \<Rightarrow>
         if sb_state existing \<noteq> Capturing then
           (Inl (rbo_validation (''Submission is already terminal ('' @ sub_state_name (sb_state existing) @
                   '') and cannot transition to '' @ sub_state_name state)), s)
         else if (case jobId of None \<Rightarrow> False | Some j \<Rightarrow> getJob j s = None) then
           (Inl (SqliteConstraint ''job_submissions.job_id''), s)
         else
           (let t = s\<lparr>job_submissions := sql_update (\<lambda>r. sb_key r = k) (completed_row now state payload jobId) (job_submissions s)\<rparr>
            in case getSubmission k t of
                 None \<Rightarrow> (Inl (rbo_internal ''Submission disappeared during update''), t)
               | Some r \<Rightarrow> (Inr r, t)))"

section \<open>Capture leases\<close>

record capture_options =
  co_ttlMs :: "int option"
  co_ownerToken :: "string option"

datatype capture_reason = Lease_active | Lease_terminal | Lease_missing

record capture_result =
  cr_acquired :: bool
  cr_reason :: "capture_reason option"
  cr_reclaimed :: bool
  cr_lease :: "capture_lease option"
  cr_submission :: "submission_row option"

definition DEFAULT_CAPTURE_LEASE_TTL_MS :: int where
  "DEFAULT_CAPTURE_LEASE_TTL_MS = 30000"

definition capture_ttl :: "capture_options \<Rightarrow> ('s, int) rbo" where
  "capture_ttl options =
     (let v = (case co_ttlMs options of Some n \<Rightarrow> n | None \<Rightarrow> DEFAULT_CAPTURE_LEASE_TTL_MS)
      in if v \<le> 0 \<or> v > MAX_SAFE_INTEGER then throw (JsError ''Capture lease TTL must be a positive safe integer'')
         else ret v)"

text \<open>\<open>random\<close> is the token \<open>randomBytes(24)\<close> gives when the options hold none.\<close>

definition newOwnerToken :: "capture_options \<Rightarrow> string \<Rightarrow> string" where
  "newOwnerToken options random = (case co_ownerToken options of Some t \<Rightarrow> t | None \<Rightarrow> random)"

definition getCaptureLease :: "capture_key \<Rightarrow> 'z submit_state_scheme \<Rightarrow> capture_lease option" where
  "getCaptureLease k s = sql_get (\<lambda>l. cl_key l = k) (capture_leases s)"

definition capturing :: "capture_key \<Rightarrow> 'z submit_state_scheme \<Rightarrow> bool" where
  "capturing k s = (\<exists>r \<in> set (job_submissions s). sb_key r = k \<and> sb_state r = Capturing)"

definition reclaimExpiredCaptureLease ::
  "ts \<Rightarrow> string \<Rightarrow> capture_key \<Rightarrow> string \<Rightarrow> int \<Rightarrow> capture_options \<Rightarrow> ('z submit_state_scheme, bool) rbo" where
  "reclaimExpiredCaptureLease now random k expectedOwner expectedGeneration options =
     bind (capture_ttl options) (\<lambda>ttl s.
       let hit = (\<lambda>l. cl_key l = k \<and> cl_owner_token l = expectedOwner \<and>
                      cl_fencing_generation l = expectedGeneration \<and> cl_expires_at l \<le> now \<and> capturing k s)
       in (Inr (sql_changes hit (capture_leases s) = 1),
           s\<lparr>capture_leases := sql_update hit
               (\<lambda>l. l\<lparr>cl_owner_token := newOwnerToken options random, cl_fencing_generation := cl_fencing_generation l + 1,
                      cl_expires_at := now + ttl, cl_updated_at := now\<rparr>) (capture_leases s)\<rparr>))"

text \<open>The part of \<open>acquireCaptureLease\<close> for a submission that is still capturing.\<close>

definition claim_lease ::
  "ts \<Rightarrow> string \<Rightarrow> capture_key \<Rightarrow> capture_options \<Rightarrow> submission_row \<Rightarrow> int \<Rightarrow> ('z submit_state_scheme, capture_result) rbo" where
  "claim_lease now random k options submission ttl = (\<lambda>s.
     let ownerToken = newOwnerToken options random;
         row = \<lparr>cl_client_id = fst k, cl_client_request_id = snd k, cl_owner_token = ownerToken, cl_fencing_generation = 1,
                cl_expires_at = now + ttl, cl_created_at = now, cl_updated_at = now\<rparr>
     in if capturing k s \<and> getCaptureLease k s = None then
          (let t = s\<lparr>capture_leases := capture_leases s @ [row]\<rparr>
           in (Inr \<lparr>cr_acquired = True, cr_reason = None, cr_reclaimed = False, cr_lease = getCaptureLease k t,
                    cr_submission = Some submission\<rparr>, t))
        else case getCaptureLease k s of
          None \<Rightarrow> (Inr \<lparr>cr_acquired = False, cr_reason = Some Lease_missing, cr_reclaimed = False, cr_lease = None,
                      cr_submission = Some submission\<rparr>, s)
        | Some previous \<Rightarrow>
            bind (reclaimExpiredCaptureLease now random k (cl_owner_token previous) (cl_fencing_generation previous)
                    (options\<lparr>co_ownerToken := Some ownerToken\<rparr>)) (\<lambda>reclaimed.
            bind (gets (getCaptureLease k)) (\<lambda>lease.
              if reclaimed then
                ret \<lparr>cr_acquired = True, cr_reason = None, cr_reclaimed = True, cr_lease = lease, cr_submission = Some submission\<rparr>
              else
                ret \<lparr>cr_acquired = False, cr_reason = Some Lease_active, cr_reclaimed = False, cr_lease = lease,
                     cr_submission = Some submission\<rparr>)) s)"

definition acquireCaptureLease ::
  "ts \<Rightarrow> string \<Rightarrow> capture_key \<Rightarrow> capture_options \<Rightarrow> ('z submit_state_scheme, capture_result) rbo" where
  "acquireCaptureLease now random k options = (\<lambda>s.
     case getSubmission k s of
       None \<Rightarrow> (Inr \<lparr>cr_acquired = False, cr_reason = Some Lease_missing, cr_reclaimed = False, cr_lease = None, cr_submission = None\<rparr>, s)
     | Some submission \<Rightarrow>
         if sb_state submission \<noteq> Capturing then
           (Inr \<lparr>cr_acquired = False, cr_reason = Some Lease_terminal, cr_reclaimed = False, cr_lease = getCaptureLease k s,
                 cr_submission = Some submission\<rparr>, s)
         else bind (capture_ttl options) (claim_lease now random k options submission) s)"

definition reserveCaptureLease ::
  "ts \<Rightarrow> string \<Rightarrow> capture_key \<Rightarrow> capture_options \<Rightarrow> ('z submit_state_scheme, capture_result) rbo" where
  "reserveCaptureLease now random k options =
     bind (reserveSubmission now k) (\<lambda>reservation.
       let submission = snd reservation in
       if sb_state submission \<noteq> Capturing then
         bind (gets (getCaptureLease k)) (\<lambda>lease.
           ret \<lparr>cr_acquired = False, cr_reason = Some Lease_terminal, cr_reclaimed = False, cr_lease = lease,
                cr_submission = Some submission\<rparr>)
       else acquireCaptureLease now random k options)"

definition owns_lease :: "capture_identity \<Rightarrow> capture_lease \<Rightarrow> bool" where
  "owns_lease i l = (cl_key l = ci_key i \<and> cl_owner_token l = ci_owner_token i \<and> cl_fencing_generation l = ci_fencing_generation i)"

definition renewCaptureLease ::
  "ts \<Rightarrow> capture_identity \<Rightarrow> capture_options \<Rightarrow> ('z submit_state_scheme, capture_lease option) rbo" where
  "renewCaptureLease now i options =
     bind (capture_ttl options) (\<lambda>ttl s.
       let hit = (\<lambda>l. owns_lease i l \<and> cl_expires_at l > now \<and> capturing (ci_key i) s);
           t = s\<lparr>capture_leases := sql_update hit (\<lambda>l. l\<lparr>cl_expires_at := now + ttl, cl_updated_at := now\<rparr>) (capture_leases s)\<rparr>
       in (Inr (if sql_changes hit (capture_leases s) = 1 then getCaptureLease (ci_key i) t else None), t))"

definition releaseCaptureLease :: "ts \<Rightarrow> capture_identity \<Rightarrow> ('z submit_state_scheme, bool) rbo" where
  "releaseCaptureLease now i = (\<lambda>s.
     (Inr (sql_changes (owns_lease i) (capture_leases s) = 1),
      s\<lparr>capture_leases := sql_update (owns_lease i) (\<lambda>l. l\<lparr>cl_expires_at := 0, cl_updated_at := now\<rparr>) (capture_leases s)\<rparr>))"

definition hasCaptureLeaseAuthority :: "ts \<Rightarrow> capture_identity \<Rightarrow> 'z submit_state_scheme \<Rightarrow> bool" where
  "hasCaptureLeaseAuthority now i s =
     (\<exists>l \<in> set (capture_leases s). \<exists>r \<in> set (job_submissions s).
        sb_key r = cl_key l \<and> owns_lease i l \<and> cl_expires_at l > now \<and> sb_state r = Capturing)"

text \<open>From \<open>submit.ts\<close>: a terminal failure is recorded only while the lease still has authority.\<close>

definition failSubmissionIfCaptureLeaseIsAuthoritative ::
  "ts \<Rightarrow> capture_identity \<Rightarrow> json \<Rightarrow> ('z submit_state_scheme, bool) rbo" where
  "failSubmissionIfCaptureLeaseIsAuthoritative now i payload = (\<lambda>s.
     let hit = (\<lambda>r. sb_key r = ci_key i \<and> sb_state r = Capturing \<and>
                    (\<exists>l \<in> set (capture_leases s). owns_lease i l \<and> cl_expires_at l > now))
     in (Inr (sql_changes hit (job_submissions s) = 1),
         s\<lparr>job_submissions := sql_update hit (\<lambda>r. r\<lparr>sb_state := Capture_failed, sb_error := Some payload, sb_updated_at := now\<rparr>)
                                (job_submissions s)\<rparr>))"

end
