(* ===== verification/Capture_Lease_Laws.thy ===== *)
theory Capture_Lease_Laws
  imports Capture_Lease Remote_Safety
begin

text \<open>
  The capture lease is a fenced lock. \<open>fenced_lock\<close> and \<open>lock_step\<close> are the abstract
  specification, per idempotency key; \<open>capture_step\<close> interleaves the operations of any number of
  callers on the tables. The refinement shows that every concrete step is, for every key, a run of the
  abstract lock; the properties of owners and outcomes follow from it.
\<close>

section \<open>The abstract lock\<close>

datatype lock_phase = Absent | Open | Closed

record fenced_lock =
  fl_phase :: lock_phase
  fl_holder :: "(string \<times> int \<times> ts) option"

inductive lock_step :: "fenced_lock \<Rightarrow> fenced_lock \<Rightarrow> bool" where
  open_lock: "lock_step \<lparr>fl_phase = Absent, fl_holder = None\<rparr> \<lparr>fl_phase = Open, fl_holder = None\<rparr>"
| take_lock: "lock_step \<lparr>fl_phase = Open, fl_holder = None\<rparr> \<lparr>fl_phase = Open, fl_holder = Some (w, 1, e)\<rparr>"
| extend_lock: "now < e \<Longrightarrow> lock_step \<lparr>fl_phase = Open, fl_holder = Some (w, g, e)\<rparr> \<lparr>fl_phase = Open, fl_holder = Some (w, g, e')\<rparr>"
| reclaim_lock: "e \<le> now \<Longrightarrow>
    lock_step \<lparr>fl_phase = Open, fl_holder = Some (w, g, e)\<rparr> \<lparr>fl_phase = Open, fl_holder = Some (w', g + 1, e')\<rparr>"
| drop_lock: "lock_step \<lparr>fl_phase = ph, fl_holder = Some (w, g, e)\<rparr> \<lparr>fl_phase = ph, fl_holder = Some (w, g, 0)\<rparr>"
| close_lock: "lock_step \<lparr>fl_phase = Open, fl_holder = h\<rparr> \<lparr>fl_phase = Closed, fl_holder = h\<rparr>"

definition lock_advances :: "fenced_lock \<Rightarrow> fenced_lock \<Rightarrow> bool" where
  "lock_advances L M =
     ((fl_phase L = Closed \<longrightarrow> fl_phase M = Closed) \<and>
      (\<forall>w g e. fl_holder L = Some (w, g, e) \<longrightarrow>
         (\<exists>w' g' e'. fl_holder M = Some (w', g', e') \<and> (g < g' \<or> (g = g' \<and> w = w')))))"

lemma lock_advances_refl: "lock_advances L L"
  by (simp add: lock_advances_def)

lemma lock_advances_trans:
  assumes "lock_advances L M" "lock_advances M N"
  shows "lock_advances L N"
  unfolding lock_advances_def
proof (intro conjI allI impI)
  show "fl_phase L = Closed \<Longrightarrow> fl_phase N = Closed" using assms by (simp add: lock_advances_def)
  fix w g e assume "fl_holder L = Some (w, g, e)"
  with assms(1) obtain w1 g1 e1 where 1: "fl_holder M = Some (w1, g1, e1)" "g < g1 \<or> (g = g1 \<and> w = w1)"
    unfolding lock_advances_def by blast
  with assms(2) obtain w2 g2 e2 where 2: "fl_holder N = Some (w2, g2, e2)" "g1 < g2 \<or> (g1 = g2 \<and> w1 = w2)"
    unfolding lock_advances_def by blast
  from 1(2) 2(2) have "g < g2 \<or> (g = g2 \<and> w = w2)" by auto
  with 2(1) show "\<exists>w' g' e'. fl_holder N = Some (w', g', e') \<and> (g < g' \<or> (g = g' \<and> w = w'))" by blast
qed

lemma lock_step_advances: "lock_step L M \<Longrightarrow> lock_advances L M"
  by (induction rule: lock_step.induct) (auto simp: lock_advances_def)

lemma lock_steps_advance: "lock_step\<^sup>*\<^sup>* L M \<Longrightarrow> lock_advances L M"
  by (induction rule: rtranclp_induct) (auto intro: lock_advances_refl lock_advances_trans lock_step_advances)

section \<open>The tables as locks\<close>

definition lock_of :: "capture_key \<Rightarrow> 'z submit_state_scheme \<Rightarrow> fenced_lock" where
  "lock_of k s =
     \<lparr>fl_phase = (case getSubmission k s of None \<Rightarrow> Absent | Some r \<Rightarrow> if sb_state r = Capturing then Open else Closed),
      fl_holder = map_option (\<lambda>l. (cl_owner_token l, cl_fencing_generation l, cl_expires_at l)) (getCaptureLease k s)\<rparr>"

definition capture_wf :: "'z submit_state_scheme \<Rightarrow> bool" where
  "capture_wf s =
     (distinct (map sb_key (job_submissions s)) \<and> distinct (map cl_key (capture_leases s)) \<and>
      cl_key ` set (capture_leases s) \<subseteq> sb_key ` set (job_submissions s))"

lemma get_row:
  assumes "capture_wf s"
  shows "r \<in> set (job_submissions s) \<Longrightarrow> sb_key r = k \<Longrightarrow> getSubmission k s = Some r"
    "l \<in> set (capture_leases s) \<Longrightarrow> cl_key l = k \<Longrightarrow> getCaptureLease k s = Some l"
proof -
  have g: "distinct (map key t) \<Longrightarrow> x \<in> set t \<Longrightarrow> key x = k \<Longrightarrow> sql_get (\<lambda>r. key r = k) t = Some x"
    for key :: "'r \<Rightarrow> capture_key" and t x by (induction t) (auto simp: image_iff)
  from assms have d: "distinct (map sb_key (job_submissions s))" "distinct (map cl_key (capture_leases s))"
    by (simp_all add: capture_wf_def)
  show "r \<in> set (job_submissions s) \<Longrightarrow> sb_key r = k \<Longrightarrow> getSubmission k s = Some r"
    unfolding getSubmission_def by (rule g [OF d(1)])
  show "l \<in> set (capture_leases s) \<Longrightarrow> cl_key l = k \<Longrightarrow> getCaptureLease k s = Some l"
    unfolding getCaptureLease_def by (rule g [OF d(2)])
qed

lemma row_get:
  "getSubmission k s = Some r \<Longrightarrow> r \<in> set (job_submissions s) \<and> sb_key r = k"
  "getCaptureLease k s = Some l \<Longrightarrow> l \<in> set (capture_leases s) \<and> cl_key l = k"
  by (auto simp: getSubmission_def getCaptureLease_def dest: sql_get_Some)

lemma capturing_open:
  assumes "capture_wf s"
  shows "capturing k s \<longleftrightarrow> fl_phase (lock_of k s) = Open"
proof
  assume "capturing k s"
  then obtain r where "r \<in> set (job_submissions s)" "sb_key r = k" "sb_state r = Capturing" by (auto simp: capturing_def)
  with get_row(1) [OF assms] show "fl_phase (lock_of k s) = Open" by (simp add: lock_of_def)
next
  assume "fl_phase (lock_of k s) = Open"
  then obtain r where "getSubmission k s = Some r" "sb_state r = Capturing"
    by (auto simp: lock_of_def split: option.splits if_splits)
  with row_get(1) [of k s r] show "capturing k s" unfolding capturing_def by blast
qed

lemma authority_lock:
  assumes "capture_wf s"
  shows "hasCaptureLeaseAuthority now i s \<longleftrightarrow>
     (\<exists>e. lock_of (ci_key i) s = \<lparr>fl_phase = Open, fl_holder = Some (ci_owner_token i, ci_fencing_generation i, e)\<rparr> \<and> now < e)"
proof
  assume "hasCaptureLeaseAuthority now i s"
  then obtain l r where lr: "l \<in> set (capture_leases s)" "r \<in> set (job_submissions s)" "sb_key r = cl_key l" "owns_lease i l"
      "cl_expires_at l > now" "sb_state r = Capturing" by (auto simp: hasCaptureLeaseAuthority_def)
  then have "getSubmission (ci_key i) s = Some r" "getCaptureLease (ci_key i) s = Some l"
    using get_row [OF assms] by (auto simp: owns_lease_def)
  with lr show "\<exists>e. lock_of (ci_key i) s = \<lparr>fl_phase = Open, fl_holder = Some (ci_owner_token i, ci_fencing_generation i, e)\<rparr> \<and> now < e"
    by (simp add: lock_of_def owns_lease_def)
next
  assume "\<exists>e. lock_of (ci_key i) s = \<lparr>fl_phase = Open, fl_holder = Some (ci_owner_token i, ci_fencing_generation i, e)\<rparr> \<and> now < e"
  then obtain l r where "getCaptureLease (ci_key i) s = Some l" "getSubmission (ci_key i) s = Some r" "sb_state r = Capturing"
      "cl_owner_token l = ci_owner_token i" "cl_fencing_generation l = ci_fencing_generation i" "now < cl_expires_at l"
    by (auto simp: lock_of_def split: option.splits if_splits)
  with row_get show "hasCaptureLeaseAuthority now i s"
    unfolding hasCaptureLeaseAuthority_def owns_lease_def by metis
qed

lemma get_leases_update:
  "(\<And>l. cl_key (f l) = cl_key l) \<Longrightarrow>
   getCaptureLease k (s\<lparr>capture_leases := sql_update P f (capture_leases s)\<rparr>) =
     map_option (\<lambda>l. if P l then f l else l) (getCaptureLease k s)"
  unfolding getCaptureLease_def by (simp add: sql_get_update_any)

lemma get_submissions_update:
  "(\<And>r. sb_key (f r) = sb_key r) \<Longrightarrow>
   getSubmission k (s\<lparr>job_submissions := sql_update P f (job_submissions s)\<rparr>) =
     map_option (\<lambda>r. if P r then f r else r) (getSubmission k s)"
  unfolding getSubmission_def by (simp add: sql_get_update_any)

lemma get_other_table [simp]:
  "getSubmission k (s\<lparr>capture_leases := ls\<rparr>) = getSubmission k s"
  "getCaptureLease k (s\<lparr>job_submissions := rs\<rparr>) = getCaptureLease k s"
  by (simp_all add: getSubmission_def getCaptureLease_def)

lemma wf_update:
  "(\<And>l. cl_key (f l) = cl_key l) \<Longrightarrow> capture_wf (s\<lparr>capture_leases := sql_update P f (capture_leases s)\<rparr>) = capture_wf s"
  "(\<And>r. sb_key (h r) = sb_key r) \<Longrightarrow> capture_wf (s\<lparr>job_submissions := sql_update Q h (job_submissions s)\<rparr>) = capture_wf s"
  by (simp_all add: capture_wf_def map_sql_update image_key_sql_update)

section \<open>Refinement\<close>

definition refines :: "'z submit_state_scheme \<Rightarrow> 'z submit_state_scheme \<Rightarrow> bool" where
  "refines s t = (capture_wf s \<longrightarrow> capture_wf t \<and> (\<forall>k. lock_step\<^sup>*\<^sup>* (lock_of k s) (lock_of k t)))"

interpretation ref: step_relation refines
proof unfold_locales
  fix s t u :: "'z submit_state_scheme"
  show "refines s s" by (simp add: refines_def)
  show "refines s t \<Longrightarrow> refines t u \<Longrightarrow> refines s u" unfolding refines_def by (blast intro: rtranclp_trans)
qed

lemma refines_leases:
  assumes "\<And>l. cl_key (f l) = cl_key l"
    and "\<And>l. capture_wf s \<Longrightarrow> l \<in> set (capture_leases s) \<Longrightarrow> P l \<Longrightarrow>
      lock_step \<lparr>fl_phase = fl_phase (lock_of (cl_key l) s), fl_holder = Some (cl_owner_token l, cl_fencing_generation l, cl_expires_at l)\<rparr>
        \<lparr>fl_phase = fl_phase (lock_of (cl_key l) s), fl_holder = Some (cl_owner_token (f l), cl_fencing_generation (f l), cl_expires_at (f l))\<rparr>"
  shows "refines s (s\<lparr>capture_leases := sql_update P f (capture_leases s)\<rparr>)"
  unfolding refines_def
proof (intro impI conjI allI)
  assume wf: "capture_wf s"
  then show "capture_wf (s\<lparr>capture_leases := sql_update P f (capture_leases s)\<rparr>)" by (simp add: wf_update assms(1))
  fix k
  let ?t = "s\<lparr>capture_leases := sql_update P f (capture_leases s)\<rparr>"
  have t: "getCaptureLease k ?t = map_option (\<lambda>l. if P l then f l else l) (getCaptureLease k s)"
    by (rule get_leases_update) (rule assms(1))
  show "lock_step\<^sup>*\<^sup>* (lock_of k s) (lock_of k ?t)"
  proof (cases "getCaptureLease k s")
    case None
    with t show ?thesis by (simp add: lock_of_def)
  next
    case (Some l)
    have l: "l \<in> set (capture_leases s)" "cl_key l = k" using row_get(2) [OF Some] by auto
    show ?thesis
    proof (cases "P l")
      case True
      from assms(2) [OF wf l(1) True] have "lock_step (lock_of k s) (lock_of k ?t)"
        using Some True t l(2) by (simp add: lock_of_def)
      then show ?thesis by blast
    next
      case False
      with Some t show ?thesis by (simp add: lock_of_def)
    qed
  qed
qed

lemma refines_submissions:
  assumes "\<And>r. sb_key (f r) = sb_key r"
    and "\<And>r. r \<in> set (job_submissions s) \<Longrightarrow> P r \<Longrightarrow> sb_state r = Capturing \<and> sb_state (f r) \<noteq> Capturing"
  shows "refines s (s\<lparr>job_submissions := sql_update P f (job_submissions s)\<rparr>)"
  unfolding refines_def
proof (intro impI conjI allI)
  let ?t = "s\<lparr>job_submissions := sql_update P f (job_submissions s)\<rparr>"
  assume wf: "capture_wf s"
  then show "capture_wf ?t" by (simp add: wf_update assms(1))
  fix k
  have t: "getSubmission k ?t = map_option (\<lambda>r. if P r then f r else r) (getSubmission k s)"
    by (rule get_submissions_update) (rule assms(1))
  show "lock_step\<^sup>*\<^sup>* (lock_of k s) (lock_of k ?t)"
  proof (cases "getSubmission k s")
    case None
    with t show ?thesis by (simp add: lock_of_def)
  next
    case (Some r)
    show ?thesis
    proof (cases "P r")
      case True
      with assms(2) row_get(1) [OF Some] have "sb_state r = Capturing" "sb_state (f r) \<noteq> Capturing" by auto
      then have "lock_step (lock_of k s) (lock_of k ?t)"
        using Some True t by (simp add: lock_of_def close_lock)
      then show ?thesis by blast
    next
      case False
      with Some t show ?thesis by (simp add: lock_of_def)
    qed
  qed
qed

lemma refines_ttl: "obeys refines (capture_ttl options)"
  unfolding capture_ttl_def Let_def by (auto intro: ref.obeys_rules)

lemma refines_reclaim: "obeys refines (reclaimExpiredCaptureLease now random k ow g options)"
proof -
  have "obeys refines (\<lambda>s. let hit = (\<lambda>l. cl_key l = k \<and> cl_owner_token l = ow \<and>
                      cl_fencing_generation l = g \<and> cl_expires_at l \<le> now \<and> capturing k s)
       in (Inr (sql_changes hit (capture_leases s) = 1),
           s\<lparr>capture_leases := sql_update hit
               (\<lambda>l. l\<lparr>cl_owner_token := newOwnerToken options random, cl_fencing_generation := cl_fencing_generation l + 1,
                      cl_expires_at := now + ttl, cl_updated_at := now\<rparr>) (capture_leases s)\<rparr>))" for ttl
    unfolding Let_def
    by (rule obeysI, simp, rule refines_leases) (auto simp: cl_key_def capturing_open intro: reclaim_lock)
  then show ?thesis
    unfolding reclaimExpiredCaptureLease_def by (rule ref.obeys_bind [OF refines_ttl])
qed

lemma refines_renew: "obeys refines (renewCaptureLease now i options)"
proof -
  have "obeys refines (\<lambda>s. let hit = (\<lambda>l. owns_lease i l \<and> cl_expires_at l > now \<and> capturing (ci_key i) s);
           t = s\<lparr>capture_leases := sql_update hit (\<lambda>l. l\<lparr>cl_expires_at := now + ttl, cl_updated_at := now\<rparr>) (capture_leases s)\<rparr>
       in (Inr (if sql_changes hit (capture_leases s) = 1 then getCaptureLease (ci_key i) t else None), t))" for ttl
    unfolding Let_def
    by (rule obeysI, simp, rule refines_leases) (auto simp: cl_key_def capturing_open owns_lease_def intro: extend_lock)
  then show ?thesis
    unfolding renewCaptureLease_def by (rule ref.obeys_bind [OF refines_ttl])
qed

lemma refines_release: "obeys refines (releaseCaptureLease now i)"
  unfolding releaseCaptureLease_def
  by (rule obeysI, simp, rule refines_leases) (auto simp: cl_key_def intro: drop_lock)

lemma refines_fail: "obeys refines (failSubmissionIfCaptureLeaseIsAuthoritative now i payload)"
  unfolding failSubmissionIfCaptureLeaseIsAuthoritative_def Let_def
  by (rule obeysI, simp, rule refines_submissions) (auto simp: sb_key_def)

lemma refines_complete:
  assumes "state \<noteq> Capturing"
  shows "obeys refines (completeSubmission now k state payload jobId)"
proof (rule obeysI)
  fix s :: "'z submit_state_scheme"
  let ?t = "s\<lparr>job_submissions := sql_update (\<lambda>r. sb_key r = k) (completed_row now state payload jobId) (job_submissions s)\<rparr>"
  have "refines s ?t" if wf: "capture_wf s" and r: "getSubmission k s = Some r" "sb_state r = Capturing" for r
  proof (rule refines_submissions)
    fix q assume "q \<in> set (job_submissions s)" "sb_key q = k"
    with get_row(1) [OF wf] r have "q = r" by simp
    with r assms show "sb_state q = Capturing \<and> sb_state (completed_row now state payload jobId q) \<noteq> Capturing"
      by (simp add: completed_row_def Let_def)
  qed (simp add: sb_key_def completed_row_def Let_def)
  then have "refines s ?t" if "getSubmission k s = Some r" "sb_state r = Capturing" for r
    using that unfolding refines_def by blast
  then show "refines s (snd (completeSubmission now k state payload jobId s))"
    by (auto simp: completeSubmission_def Let_def ref.R_refl split: option.split)
qed

lemma refines_reserve: "obeys refines (reserveSubmission now k)"
proof (rule obeysI)
  fix s :: "'z submit_state_scheme"
  let ?row = "\<lparr>sb_client_id = fst k, sb_client_request_id = snd k, sb_state = Capturing, sb_job_id = None,
                sb_response = None, sb_error = None, sb_created_at = now, sb_updated_at = now\<rparr>"
  let ?t = "s\<lparr>job_submissions := job_submissions s @ [?row]\<rparr>"
  have key: "sb_key ?row = k" by (simp add: sb_key_def)
  have "refines s ?t" if none: "getSubmission k s = None"
    unfolding refines_def
  proof (intro impI conjI allI)
    assume wf: "capture_wf s"
    have fresh: "k \<notin> sb_key ` set (job_submissions s)" using none by (auto simp: getSubmission_def sql_get_None)
    with wf key show "capture_wf ?t" by (auto simp: capture_wf_def)
    fix j
    have sub: "getSubmission j ?t = (if j = k then Some ?row else getSubmission j s)"
      using none key by (auto simp: getSubmission_def sql_get_append split: option.split)
    show "lock_step\<^sup>*\<^sup>* (lock_of j s) (lock_of j ?t)"
    proof (cases "j = k")
      case True
      have "getCaptureLease k s = None"
        using wf fresh unfolding capture_wf_def getCaptureLease_def sql_get_None by blast
      then have "lock_step (lock_of j s) (lock_of j ?t)"
        using True none sub by (simp add: lock_of_def open_lock)
      then show ?thesis by blast
    next
      case False
      with sub show ?thesis by (simp add: lock_of_def)
    qed
  qed
  then show "refines s (snd (reserveSubmission now k s))"
    by (auto simp: reserveSubmission_def Let_def ref.R_refl split: option.split)
qed

lemma refines_take:
  assumes none: "getCaptureLease k s = None" and cap: "capturing k s"
    and key: "cl_key row = k" and g: "cl_fencing_generation row = 1"
  shows "refines s (s\<lparr>capture_leases := capture_leases s @ [row]\<rparr>)"
  unfolding refines_def
proof (intro impI conjI allI)
  let ?t = "s\<lparr>capture_leases := capture_leases s @ [row]\<rparr>"
  assume wf: "capture_wf s"
  have "k \<notin> cl_key ` set (capture_leases s)" using none by (auto simp: getCaptureLease_def sql_get_None)
  moreover have "k \<in> sb_key ` set (job_submissions s)" using cap by (auto simp: capturing_def)
  ultimately show "capture_wf ?t" using wf key by (auto simp: capture_wf_def)
  fix j
  have lease: "getCaptureLease j ?t = (if j = k then Some row else getCaptureLease j s)"
    using none key by (auto simp: getCaptureLease_def sql_get_append split: option.split)
  show "lock_step\<^sup>*\<^sup>* (lock_of j s) (lock_of j ?t)"
  proof (cases "j = k")
    case True
    have "fl_phase (lock_of k s) = Open" using cap capturing_open [OF wf] by blast
    then have "lock_step (lock_of j s) (lock_of j ?t)"
      using True none lease g by (simp add: lock_of_def take_lock)
    then show ?thesis by blast
  next
    case False
    with lease show ?thesis by (simp add: lock_of_def)
  qed
qed

lemma snd_bind_pure: "(\<And>x t. snd (f x t) = t) \<Longrightarrow> snd (bind m f s) = snd (m s)"
  by (auto simp: bind_apply split: prod.split sum.split)

lemma claim_state:
  "snd (claim_lease now random k options submission ttl s) =
     (case getCaptureLease k s of
        None \<Rightarrow> if capturing k s
          then s\<lparr>capture_leases := capture_leases s @
                 [\<lparr>cl_client_id = fst k, cl_client_request_id = snd k, cl_owner_token = newOwnerToken options random,
                   cl_fencing_generation = 1, cl_expires_at = now + ttl, cl_created_at = now, cl_updated_at = now\<rparr>]\<rparr>
          else s
      | Some l \<Rightarrow> snd (reclaimExpiredCaptureLease now random k (cl_owner_token l) (cl_fencing_generation l)
          (options\<lparr>co_ownerToken := Some (newOwnerToken options random)\<rparr>) s))"
  by (auto simp: claim_lease_def Let_def snd_bind_pure split: option.split)

lemma refines_claim: "obeys refines (claim_lease now random k options submission ttl)"
  by (auto simp: obeys_def claim_state cl_key_def ref.R_refl
      intro!: refines_take obeysD [OF refines_reclaim] split: option.split)

lemma refines_acquire: "obeys refines (acquireCaptureLease now random k options)"
proof -
  have "obeys refines (bind (capture_ttl options) (claim_lease now random k options r))" for r
    by (intro ref.obeys_bind refines_ttl refines_claim)
  then show ?thesis by (auto simp: acquireCaptureLease_def obeys_def ref.R_refl split: option.split)
qed

lemma refines_reserveLease: "obeys refines (reserveCaptureLease now random k options)"
  unfolding reserveCaptureLease_def Let_def
  by (intro ref.obeys_bind refines_reserve ref.obeys_if ref.obeys_rules refines_acquire)

section \<open>Interleavings\<close>

inductive capture_step :: "'z submit_state_scheme \<Rightarrow> 'z submit_state_scheme \<Rightarrow> bool" where
  ks_reserve: "capture_step s (snd (reserveCaptureLease now random k options s))"
| ks_acquire: "capture_step s (snd (acquireCaptureLease now random k options s))"
| ks_reclaim: "capture_step s (snd (reclaimExpiredCaptureLease now random k ow g options s))"
| ks_renew: "capture_step s (snd (renewCaptureLease now i options s))"
| ks_release: "capture_step s (snd (releaseCaptureLease now i s))"
| ks_complete: "state \<noteq> Capturing \<Longrightarrow> capture_step s (snd (completeSubmission now k state payload jobId s))"
| ks_fail: "capture_step s (snd (failSubmissionIfCaptureLeaseIsAuthoritative now i payload s))"

lemma refines_step: "capture_step s t \<Longrightarrow> refines s t"
  by (induction rule: capture_step.induct)
    (simp_all add: obeysD [OF refines_reserveLease] obeysD [OF refines_acquire] obeysD [OF refines_reclaim]
      obeysD [OF refines_renew] obeysD [OF refines_release] obeysD [OF refines_complete] obeysD [OF refines_fail])

lemma refines_steps: "capture_step\<^sup>*\<^sup>* s t \<Longrightarrow> refines s t"
  by (rule ref.rtranclp_step [OF refines_step])

lemma steps_advance: "capture_wf s \<Longrightarrow> capture_step\<^sup>*\<^sup>* s t \<Longrightarrow> capture_wf t \<and> lock_advances (lock_of k s) (lock_of k t)"
  using refines_steps lock_steps_advance unfolding refines_def by blast


lemma stale_never_matches:
  assumes "lock_advances L M" "fl_holder L = Some (w, g, e)" "g' < g \<or> (g' = g \<and> w' \<noteq> w)"
  shows "fl_holder M \<noteq> Some (w', g', e')"
proof -
  from assms(1,2) obtain w1 g1 e1 where "fl_holder M = Some (w1, g1, e1)" "g < g1 \<or> (g = g1 \<and> w = w1)"
    unfolding lock_advances_def by blast
  with assms(3) show ?thesis by auto
qed

lemma no_owner_no_effect:
  assumes "capture_wf t" "\<And>e. fl_holder (lock_of (ci_key i) t) \<noteq> Some (ci_owner_token i, ci_fencing_generation i, e)"
  shows "\<not> owns_lease i l \<or> l \<notin> set (capture_leases t)"
proof (rule ccontr)
  assume "\<not> ?thesis"
  then have "getCaptureLease (ci_key i) t = Some l" "owns_lease i l"
    using get_row(2) [OF assms(1), of l] by (auto simp: owns_lease_def)
  with assms(2) [of "cl_expires_at l"] show False by (simp add: lock_of_def owns_lease_def)
qed

text \<open>
  (C13) A capture owner that was overtaken stays fenced: once the key's lease has a later generation (or the
  same one with another token), then after any further interleaving that owner has no authority at any
  time, its renewals and releases change nothing, and it cannot record a terminal failure.
\<close>

theorem overtaken_owner_fenced_forever:
  fixes i :: capture_identity
  assumes "capture_wf s" and "getCaptureLease (ci_key i) s = Some l"
    and "ci_fencing_generation i < cl_fencing_generation l \<or>
         (ci_fencing_generation i = cl_fencing_generation l \<and> ci_owner_token i \<noteq> cl_owner_token l)"
    and "capture_step\<^sup>*\<^sup>* s t"
  shows "\<not> hasCaptureLeaseAuthority now i t \<and> snd (renewCaptureLease now i options t) = t \<and>
    releaseCaptureLease now i t = (Inr False, t) \<and>
    failSubmissionIfCaptureLeaseIsAuthoritative now i payload t = (Inr False, t)"
proof -
  from steps_advance [OF assms(1,4)] have t: "capture_wf t" "lock_advances (lock_of (ci_key i) s) (lock_of (ci_key i) t)" by auto
  have "fl_holder (lock_of (ci_key i) s) = Some (cl_owner_token l, cl_fencing_generation l, cl_expires_at l)"
    using assms(2) by (simp add: lock_of_def)
  from stale_never_matches [OF t(2) this assms(3)]
  have no: "fl_holder (lock_of (ci_key i) t) \<noteq> Some (ci_owner_token i, ci_fencing_generation i, e)" for e .
  have none: "\<not> owns_lease i l'" if "l' \<in> set (capture_leases t)" for l'
    using no_owner_no_effect [OF t(1) no] that by blast
  have "\<not> hasCaptureLeaseAuthority now i t" using none by (auto simp: hasCaptureLeaseAuthority_def)
  moreover have "snd (renewCaptureLease now i options t) = t"
    using none by (simp add: renewCaptureLease_def capture_ttl_def bind_apply Let_def ret_def throw_def sql_update_id)
  moreover have "releaseCaptureLease now i t = (Inr False, t)"
    using none by (simp add: releaseCaptureLease_def sql_update_id sql_changes_def filter_empty_conv)
  moreover have "failSubmissionIfCaptureLeaseIsAuthoritative now i payload t = (Inr False, t)"
    using none by (auto simp: failSubmissionIfCaptureLeaseIsAuthoritative_def Let_def sql_changes_def sql_update_id)
  ultimately show ?thesis by blast
qed

section \<open>Terminal submissions\<close>

definition terminal_kept :: "'z submit_state_scheme \<Rightarrow> 'z submit_state_scheme \<Rightarrow> bool" where
  "terminal_kept s t =
     (capture_wf s \<longrightarrow> capture_wf t \<and>
      (\<forall>k r. getSubmission k s = Some r \<longrightarrow> sb_state r \<noteq> Capturing \<longrightarrow> getSubmission k t = Some r))"

interpretation tk: step_relation terminal_kept
proof unfold_locales
  fix s t u :: "'z submit_state_scheme"
  show "terminal_kept s s" by (simp add: terminal_kept_def)
  show "terminal_kept s t \<Longrightarrow> terminal_kept t u \<Longrightarrow> terminal_kept s u" unfolding terminal_kept_def by blast
qed

lemma refines_same_submissions:
  assumes "refines s t" "job_submissions t = job_submissions s"
  shows "terminal_kept s t"
  using assms unfolding terminal_kept_def refines_def getSubmission_def by simp

lemma submissions_lease_ops [simp]:
  "job_submissions (snd (reclaimExpiredCaptureLease now random k ow g options s)) = job_submissions s"
  "job_submissions (snd (renewCaptureLease now i options s)) = job_submissions s"
  "job_submissions (snd (releaseCaptureLease now i s)) = job_submissions s"
  by (simp_all add: reclaimExpiredCaptureLease_def renewCaptureLease_def releaseCaptureLease_def capture_ttl_def Let_def
      bind_apply ret_def throw_def)

lemma submissions_acquire [simp]: "job_submissions (snd (acquireCaptureLease now random k options s)) = job_submissions s"
  by (simp add: acquireCaptureLease_def capture_ttl_def Let_def bind_apply claim_state ret_def throw_def split: option.split)

lemma term_reserve: "obeys terminal_kept (reserveSubmission now k)"
proof (rule obeysI)
  fix s :: "'z submit_state_scheme"
  have "getSubmission j (s\<lparr>job_submissions := job_submissions s @ [row]\<rparr>) = Some r"
    if "getSubmission j s = Some r" for j r row
    using that by (simp add: getSubmission_def sql_get_append)
  with obeysD [OF refines_reserve, of s now k] show "terminal_kept s (snd (reserveSubmission now k s))"
    by (auto simp: terminal_kept_def refines_def reserveSubmission_def Let_def split: option.splits)
qed

lemma term_acquire: "obeys terminal_kept (acquireCaptureLease now random k options)"
  by (rule obeysI, rule refines_same_submissions [OF obeysD [OF refines_acquire]]) simp

lemma term_reserveLease: "obeys terminal_kept (reserveCaptureLease now random k options)"
  unfolding reserveCaptureLease_def Let_def
  by (intro tk.obeys_bind term_reserve tk.obeys_if tk.obeys_rules term_acquire)

lemma term_complete: "state \<noteq> Capturing \<Longrightarrow> obeys terminal_kept (completeSubmission now k state payload jobId)"
proof (rule obeysI)
  fix s :: "'z submit_state_scheme"
  assume st: "state \<noteq> Capturing"
  show "terminal_kept s (snd (completeSubmission now k state payload jobId s))"
    unfolding terminal_kept_def
  proof (intro impI conjI allI)
    assume wf: "capture_wf s"
    with obeysD [OF refines_complete [OF st], of s now k payload jobId]
    show "capture_wf (snd (completeSubmission now k state payload jobId s))" by (simp add: refines_def)
    fix j r assume r: "getSubmission j s = Some r" "sb_state r \<noteq> Capturing"
    have key: "sb_key (completed_row now state payload jobId q) = sb_key q" for q
      by (simp add: sb_key_def completed_row_def Let_def)
    show "getSubmission j (snd (completeSubmission now k state payload jobId s)) = Some r"
    proof (cases "j = k")
      case True
      with r show ?thesis by (simp add: completeSubmission_def)
    next
      case False
      have "sb_key r = j" using row_get(1) [OF r(1)] by simp
      with False r key show ?thesis
        by (auto simp: completeSubmission_def Let_def get_submissions_update split: option.split)
    qed
  qed
qed

lemma term_fail: "obeys terminal_kept (failSubmissionIfCaptureLeaseIsAuthoritative now i payload)"
proof (rule obeysI)
  fix s :: "'z submit_state_scheme"
  have key: "sb_key (r\<lparr>sb_state := a, sb_error := b, sb_updated_at := c\<rparr>) = sb_key r" for r a b c by (simp add: sb_key_def)
  from obeysD [OF refines_fail, of s now i payload] key
  show "terminal_kept s (snd (failSubmissionIfCaptureLeaseIsAuthoritative now i payload s))"
    by (auto simp: terminal_kept_def refines_def failSubmissionIfCaptureLeaseIsAuthoritative_def Let_def get_submissions_update)
qed

lemma term_step: "capture_step s t \<Longrightarrow> terminal_kept s t"
proof (induction rule: capture_step.induct)
  case (ks_reclaim s now random k ow g options)
  show ?case by (rule refines_same_submissions [OF obeysD [OF refines_reclaim]]) simp
next
  case (ks_renew s now i options)
  show ?case by (rule refines_same_submissions [OF obeysD [OF refines_renew]]) simp
next
  case (ks_release s now i)
  show ?case by (rule refines_same_submissions [OF obeysD [OF refines_release]]) simp
qed (simp_all add: obeysD [OF term_reserveLease] obeysD [OF term_acquire] obeysD [OF term_complete] obeysD [OF term_fail])

text \<open>
  Idempotency: once a submission is captured or failed, its row (state, job, response and error) never
  changes again, whatever the callers do, so that every retry of the request reads the same outcome; a
  retry neither creates a second submission nor acquires a lease.
\<close>

theorem terminal_submission_immutable:
  assumes "capture_wf s" and "getSubmission k s = Some r" and "sb_state r \<noteq> Capturing" and "capture_step\<^sup>*\<^sup>* s t"
  shows "getSubmission k t = Some r \<and>
    reserveCaptureLease now random k options t =
      (Inr \<lparr>cr_acquired = False, cr_reason = Some Lease_terminal, cr_reclaimed = False, cr_lease = getCaptureLease k t,
            cr_submission = Some r\<rparr>, t)"
proof -
  have "getSubmission k t = Some r"
    using tk.rtranclp_step [OF term_step assms(4)] assms(1-3) unfolding terminal_kept_def by blast
  moreover from this assms(3) have "reserveCaptureLease now random k options t =
      (Inr \<lparr>cr_acquired = False, cr_reason = Some Lease_terminal, cr_reclaimed = False, cr_lease = getCaptureLease k t,
            cr_submission = Some r\<rparr>, t)"
    by (simp add: reserveCaptureLease_def reserveSubmission_def Let_def bind_apply)
  ultimately show ?thesis by blast
qed

section \<open>Acquiring\<close>

lemma filter_unique_key:
  "distinct (map key t) \<Longrightarrow> x \<in> set t \<Longrightarrow> filter (\<lambda>y. key y = key x \<and> Q y) t = (if Q x then [x] else [])"
proof (induction t)
  case (Cons y t)
  show ?case
  proof (cases "x = y")
    case True
    with Cons.prems have "key x \<notin> key ` set t" by simp
    then have "\<forall>z \<in> set t. key z \<noteq> key x" by (metis image_eqI)
    then have "filter (\<lambda>y. key y = key x \<and> Q y) t = []" by (auto simp: filter_empty_conv)
    with True show ?thesis by simp
  next
    case False
    with Cons.prems have "x \<in> set t" "key y \<noteq> key x" by (auto simp: image_iff)
    with Cons show ?thesis by simp
  qed
qed simp

definition ttl_of :: "capture_options \<Rightarrow> int" where
  "ttl_of options = (case co_ttlMs options of Some n \<Rightarrow> n | None \<Rightarrow> DEFAULT_CAPTURE_LEASE_TTL_MS)"

definition valid_ttl :: "capture_options \<Rightarrow> bool" where
  "valid_ttl options = (0 < ttl_of options \<and> ttl_of options \<le> MAX_SAFE_INTEGER)"

lemma capture_ttl_valid: "valid_ttl options \<Longrightarrow> capture_ttl options s = (Inr (ttl_of options), s)"
  by (auto simp: capture_ttl_def valid_ttl_def ttl_of_def Let_def ret_def)

lemma reclaim_run:
  fixes now :: ts and random :: string
  assumes "capture_wf s" "valid_ttl options" "getCaptureLease k s = Some l" "capturing k s"
  defines "l' \<equiv> l\<lparr>cl_owner_token := newOwnerToken options random, cl_fencing_generation := cl_fencing_generation l + 1,
                  cl_expires_at := now + ttl_of options, cl_updated_at := now\<rparr>"
  shows "\<exists>t. reclaimExpiredCaptureLease now random k (cl_owner_token l) (cl_fencing_generation l) options s
      = (Inr (cl_expires_at l \<le> now), t) \<and> job_submissions t = job_submissions s \<and>
      getCaptureLease k t = Some (if cl_expires_at l \<le> now then l' else l)"
proof -
  let ?hit = "\<lambda>x. cl_key x = k \<and> cl_owner_token x = cl_owner_token l \<and>
      cl_fencing_generation x = cl_fencing_generation l \<and> cl_expires_at x \<le> now \<and> capturing k s"
  let ?f = "\<lambda>l. l\<lparr>cl_owner_token := newOwnerToken options random, cl_fencing_generation := cl_fencing_generation l + 1,
                  cl_expires_at := now + ttl_of options, cl_updated_at := now\<rparr>"
  have l: "l \<in> set (capture_leases s)" "cl_key l = k" using row_get(2) [OF assms(3)] by auto
  have "filter ?hit (capture_leases s) = (if cl_expires_at l \<le> now then [l] else [])"
    using filter_unique_key [of cl_key "capture_leases s" l "\<lambda>x. cl_owner_token x = cl_owner_token l \<and>
      cl_fencing_generation x = cl_fencing_generation l \<and> cl_expires_at x \<le> now \<and> capturing k s"] assms(1,4) l
    by (simp add: capture_wf_def)
  then have "sql_changes ?hit (capture_leases s) = (if cl_expires_at l \<le> now then 1 else 0)"
    by (simp add: sql_changes_def)
  moreover have "getCaptureLease k (s\<lparr>capture_leases := sql_update ?hit ?f (capture_leases s)\<rparr>) =
      Some (if cl_expires_at l \<le> now then l' else l)"
    using assms(3,4) l by (subst get_leases_update) (simp_all add: cl_key_def l'_def)
  ultimately show ?thesis
    by (simp add: reclaimExpiredCaptureLease_def bind_apply capture_ttl_valid [OF assms(2)] Let_def)
qed

lemma claim_run:
  assumes "capture_wf s" "valid_ttl options" "capturing k s"
  shows "\<exists>res t. claim_lease now random k options submission (ttl_of options) s = (Inr res, t) \<and>
    job_submissions t = job_submissions s \<and> cr_lease res = getCaptureLease k t \<and>
    (cr_acquired res \<longleftrightarrow> (\<forall>l. getCaptureLease k s = Some l \<longrightarrow> cl_expires_at l \<le> now)) \<and>
    (cr_acquired res \<longrightarrow> (\<exists>l. getCaptureLease k t = Some l \<and> cl_expires_at l = now + ttl_of options \<and>
        cl_fencing_generation l = (case getCaptureLease k s of None \<Rightarrow> 1 | Some l0 \<Rightarrow> cl_fencing_generation l0 + 1)))"
proof (cases "getCaptureLease k s")
  case None
  let ?row = "\<lparr>cl_client_id = fst k, cl_client_request_id = snd k, cl_owner_token = newOwnerToken options random, cl_fencing_generation = 1,
                cl_expires_at = now + ttl_of options, cl_created_at = now, cl_updated_at = now\<rparr>"
  have "getCaptureLease k (s\<lparr>capture_leases := capture_leases s @ [?row]\<rparr>) = Some ?row"
    using None by (simp add: getCaptureLease_def sql_get_append cl_key_def)
  with None assms(3) show ?thesis by (simp add: claim_lease_def Let_def)
next
  case (Some l)
  let ?o = "options\<lparr>co_ownerToken := Some (newOwnerToken options random)\<rparr>"
  have v: "valid_ttl ?o" "ttl_of ?o = ttl_of options" using assms(2) by (simp_all add: valid_ttl_def ttl_of_def)
  from reclaim_run [OF assms(1) v(1) Some assms(3), of now random] obtain t where
    t: "reclaimExpiredCaptureLease now random k (cl_owner_token l) (cl_fencing_generation l) ?o s = (Inr (cl_expires_at l \<le> now), t)"
      "job_submissions t = job_submissions s"
      "getCaptureLease k t = Some (if cl_expires_at l \<le> now then l\<lparr>cl_owner_token := newOwnerToken ?o random,
         cl_fencing_generation := cl_fencing_generation l + 1, cl_expires_at := now + ttl_of ?o, cl_updated_at := now\<rparr> else l)"
    by blast
  with Some show ?thesis
    by (simp add: claim_lease_def Let_def bind_apply [of "reclaimExpiredCaptureLease now random k w g o'" for w g o'] v(2))
qed

text \<open>
  Mutual exclusion of captures: acquiring always answers; it succeeds exactly when the submission is
  capturing and nobody has authority at that moment; and then the new lease has authority, is the only
  identity of that key with authority at any time from there on, and its generation is the next one.
\<close>

theorem acquire_grants_exclusive_authority:
  assumes "capture_wf s" and "valid_ttl options"
  shows "\<exists>res t. acquireCaptureLease now random k options s = (Inr res, t) \<and>
    (cr_acquired res \<longleftrightarrow> capturing k s \<and> \<not> (\<exists>i. ci_key i = k \<and> hasCaptureLeaseAuthority now i s)) \<and>
    (cr_acquired res \<longrightarrow> (\<exists>l. cr_lease res = Some l \<and> hasCaptureLeaseAuthority now (identity_of l) t \<and>
        (\<forall>i now'. ci_key i = k \<longrightarrow> hasCaptureLeaseAuthority now' i t \<longrightarrow> i = identity_of l) \<and>
        cl_fencing_generation l = (case getCaptureLease k s of None \<Rightarrow> 1 | Some l0 \<Rightarrow> cl_fencing_generation l0 + 1)))"
proof (cases "capturing k s")
  case False
  then have "\<not> fl_phase (lock_of k s) = Open" using capturing_open [OF assms(1)] by blast
  with False show ?thesis
    by (auto simp: acquireCaptureLease_def lock_of_def split: option.split if_splits)
next
  case True
  then obtain r where r: "getSubmission k s = Some r" "sb_state r = Capturing"
    using capturing_open [OF assms(1), of k] by (auto simp: lock_of_def split: option.splits if_splits)
  from claim_run [OF assms True, of now random r] obtain res t where
    rt: "claim_lease now random k options r (ttl_of options) s = (Inr res, t)" "job_submissions t = job_submissions s"
      "cr_lease res = getCaptureLease k t" "cr_acquired res \<longleftrightarrow> (\<forall>l. getCaptureLease k s = Some l \<longrightarrow> cl_expires_at l \<le> now)"
      "cr_acquired res \<Longrightarrow> \<exists>l. getCaptureLease k t = Some l \<and> cl_expires_at l = now + ttl_of options \<and>
        cl_fencing_generation l = (case getCaptureLease k s of None \<Rightarrow> 1 | Some l0 \<Rightarrow> cl_fencing_generation l0 + 1)" by blast
  have run: "acquireCaptureLease now random k options s = (Inr res, t)"
    using r rt(1) by (simp add: acquireCaptureLease_def bind_apply capture_ttl_valid [OF assms(2)])
  have wft: "capture_wf t" using obeysD [OF refines_acquire, of s now random k options] run assms(1) by (simp add: refines_def)
  have auth: "(\<exists>i. ci_key i = k \<and> hasCaptureLeaseAuthority now i s) \<longleftrightarrow> (\<exists>l. getCaptureLease k s = Some l \<and> now < cl_expires_at l)"
  proof
    assume "\<exists>l. getCaptureLease k s = Some l \<and> now < cl_expires_at l"
    then obtain l where "getCaptureLease k s = Some l" "now < cl_expires_at l" by blast
    with r have "hasCaptureLeaseAuthority now \<lparr>ci_key = k, ci_owner_token = cl_owner_token l, ci_fencing_generation = cl_fencing_generation l\<rparr> s"
      unfolding authority_lock [OF assms(1)] by (simp add: lock_of_def)
    then show "\<exists>i. ci_key i = k \<and> hasCaptureLeaseAuthority now i s" by (metis capture_identity.select_convs(1))
  next
    assume "\<exists>i. ci_key i = k \<and> hasCaptureLeaseAuthority now i s"
    then show "\<exists>l. getCaptureLease k s = Some l \<and> now < cl_expires_at l"
      unfolding authority_lock [OF assms(1)] by (auto simp: lock_of_def)
  qed
  have sub: "getSubmission k t = Some r" using r(1) rt(2) by (simp add: getSubmission_def)
  have granted: "\<exists>l. cr_lease res = Some l \<and> hasCaptureLeaseAuthority now (identity_of l) t \<and>
        (\<forall>i now'. ci_key i = k \<longrightarrow> hasCaptureLeaseAuthority now' i t \<longrightarrow> i = identity_of l) \<and>
        cl_fencing_generation l = (case getCaptureLease k s of None \<Rightarrow> 1 | Some l0 \<Rightarrow> cl_fencing_generation l0 + 1)"
    if acq: "cr_acquired res"
  proof -
    from rt(5) [OF acq] obtain l where l: "getCaptureLease k t = Some l" "cl_expires_at l = now + ttl_of options"
        "cl_fencing_generation l = (case getCaptureLease k s of None \<Rightarrow> 1 | Some l0 \<Rightarrow> cl_fencing_generation l0 + 1)" by blast
    have key: "cl_key l = k" using row_get(2) [OF l(1)] by simp
    have "hasCaptureLeaseAuthority now (identity_of l) t"
      unfolding authority_lock [OF wft] using l sub r key assms(2) by (simp add: identity_of_def lock_of_def valid_ttl_def)
    moreover have "i = identity_of l" if "ci_key i = k" "hasCaptureLeaseAuthority now' i t" for i now'
      using that l(1) key unfolding authority_lock [OF wft] by (auto simp: lock_of_def identity_of_def)
    ultimately show ?thesis using l rt(3) by auto
  qed
  show ?thesis
    using run rt(4) auth True granted by (intro exI [of _ res] exI [of _ t]) (auto simp: not_less)
qed

section \<open>A submission under capture\<close>

definition demo_key :: capture_key where
  "demo_key = (''c'', ''req'')"

definition demo_capture :: "submission_state \<Rightarrow> submit_state" where
  "demo_capture st =
     \<lparr>in_transaction = False, bound_notifier = None, unbound_managed = False, woken = [],
      agents = [demo_agent], jobs = [], job_attempts = [], job_events = [], snapshots = [],
      connectedAgents = [], ws_sent = [], log_files = [], live_hub = empty_hub, artifactExpectations = [],
      logChunkChains = [], log_writing = [],
      job_submissions = [\<lparr>sb_client_id = ''c'', sb_client_request_id = ''req'', sb_state = st, sb_job_id = None,
        sb_response = None, sb_error = None, sb_created_at = 0, sb_updated_at = 0\<rparr>],
      capture_leases = [\<lparr>cl_client_id = ''c'', cl_client_request_id = ''req'', cl_owner_token = ''o2'', cl_fencing_generation = 2,
        cl_expires_at = 100, cl_created_at = 0, cl_updated_at = 0\<rparr>]\<rparr>"

definition demo_first_owner :: capture_identity where
  "demo_first_owner = \<lparr>ci_key = demo_key, ci_owner_token = ''o1'', ci_fencing_generation = 1\<rparr>"

definition demo_capture_options :: capture_options where
  "demo_capture_options = \<lparr>co_ttlMs = None, co_ownerToken = None\<rparr>"

lemma demo_capture_wf: "capture_wf (demo_capture st)"
  by (simp add: capture_wf_def demo_capture_def sb_key_def cl_key_def)

lemma demo_capture_reached: "capture_step\<^sup>*\<^sup>* (demo_capture st) (snd (acquireCaptureLease 200 ''o3'' demo_key demo_capture_options (demo_capture st)))"
  by (intro r_into_rtranclp ks_acquire)


theorem overtaken_owner_fenced_forever_witness:
  "\<not> hasCaptureLeaseAuthority 50 demo_first_owner
      (snd (acquireCaptureLease 200 ''o3'' demo_key demo_capture_options (demo_capture Capturing)))"
proof -
  have "getCaptureLease (ci_key demo_first_owner) (demo_capture Capturing) = Some (hd (capture_leases (demo_capture Capturing)))"
    by code_simp
  moreover have "ci_fencing_generation demo_first_owner < cl_fencing_generation (hd (capture_leases (demo_capture Capturing)))"
    by code_simp
  ultimately show ?thesis
    using overtaken_owner_fenced_forever [OF demo_capture_wf _ _ demo_capture_reached, where i = demo_first_owner] by blast
qed

theorem terminal_submission_immutable_witness:
  "getSubmission demo_key (snd (acquireCaptureLease 200 ''o3'' demo_key demo_capture_options (demo_capture Captured)))
     = Some (hd (job_submissions (demo_capture Captured)))"
proof -
  have "getSubmission demo_key (demo_capture Captured) = Some (hd (job_submissions (demo_capture Captured)))"
      "sb_state (hd (job_submissions (demo_capture Captured))) \<noteq> Capturing" by code_simp+
  from terminal_submission_immutable [OF demo_capture_wf this demo_capture_reached] show ?thesis by blast
qed

theorem acquire_grants_exclusive_authority_witness:
  "\<exists>res t l. acquireCaptureLease 200 ''o3'' demo_key demo_capture_options (demo_capture Capturing) = (Inr res, t) \<and>
     cr_acquired res \<and> cr_lease res = Some l \<and> cl_fencing_generation l = 3 \<and> hasCaptureLeaseAuthority 200 (identity_of l) t"
proof -
  let ?s = "demo_capture Capturing"
  have v: "valid_ttl demo_capture_options" by code_simp
  obtain res t where rt: "acquireCaptureLease 200 ''o3'' demo_key demo_capture_options ?s = (Inr res, t)"
      "cr_acquired res \<Longrightarrow> (\<exists>l. cr_lease res = Some l \<and> hasCaptureLeaseAuthority 200 (identity_of l) t \<and>
         cl_fencing_generation l = (case getCaptureLease demo_key ?s of None \<Rightarrow> 1 | Some l0 \<Rightarrow> cl_fencing_generation l0 + 1))"
    using acquire_grants_exclusive_authority [OF demo_capture_wf [of Capturing] v, of 200 "''o3''" demo_key] by blast
  have "(case fst (acquireCaptureLease 200 ''o3'' demo_key demo_capture_options ?s) of Inr r \<Rightarrow> cr_acquired r | Inl _ \<Rightarrow> False)" by code_simp
  with rt(1) have "cr_acquired res" by simp
  moreover have "(case getCaptureLease demo_key ?s of None \<Rightarrow> 1 | Some l0 \<Rightarrow> cl_fencing_generation l0 + 1) = 3" by code_simp
  ultimately show ?thesis using rt by metis
qed

end
