(* ===== verification/Local_Runner.thy ===== *)
theory Local_Runner
  imports Capture_Lease
begin

text \<open>
  \<open>apps/controller/src/execution/runner.ts\<close>: jobs that run on the Controller's own host, and
  \<open>persistCollectedArtifacts\<close> of \<open>artifacts.ts\<close>. \<open>runLocalJob\<close> is one long asynchronous
  function; every activation of it is a \<open>local_run\<close> in the state, which holds its local variables
  and the \<open>await\<close> it is suspended at (\<open>run_pc\<close>). \<open>local_step\<close> resumes one activation with
  the outcome of the awaited call (\<open>awaited\<close>) and runs it to its next \<open>await\<close>, so activations,
  cancel requests and message handlers interleave exactly where the event loop can switch. The file
  system, the child process and the snapshot unpacker are the sources of those outcomes; a \<open>rm\<close> whose
  failure is ignored and after which nothing is read is not a step of its own.
\<close>

section \<open>State\<close>

datatype completion_result =
    Exit_result "int option"
  | Timeout_result
  | Duration_complete
  | Log_success
  | Log_failure

record collected_file =
  cf_logical_name :: string
  cf_size_bytes :: int
  cf_sha256 :: string

record artifact_collection =
  ac_files :: "collected_file list"
  ac_skipped :: "(string \<times> string) list"
  ac_limitExceeded :: "(string \<times> int \<times> int) option"
  ac_rules :: nat

record artifact_row =
  ar_id :: string
  ar_job_id :: string
  ar_attempt_id :: string
  ar_logical_name :: string
  ar_path :: string
  ar_size_bytes :: int
  ar_sha256 :: string
  ar_created_at :: ts

text \<open>The suspension points of \<open>runLocalJob\<close>, with what the code after them still needs.\<close>

datatype run_pc =
    Pc_waiting
  | Pc_woken
  | Pc_admitted
  | Pc_dirs
  | Pc_manifest snapshot_row
  | Pc_materialize snapshot_row json
  | Pc_captured_event
  | Pc_warnings
  | Pc_warning_event "(string \<times> string) list"
  | Pc_materialized_event
  | Pc_script
  | Pc_cwd
  | Pc_env_event "string list" "int option"
  | Pc_started_event
  | Pc_cancel_kill
  | Pc_completion
  | Pc_drain completion_result int
  | Pc_kill completion_result
  | Pc_collect completion_result
  | Pc_skip_event completion_result artifact_collection "(string \<times> string) list"
  | Pc_limit_event completion_result
  | Pc_store completion_result "collected_file list" "artifact_row list"
  | Pc_artifact_event completion_result "artifact_row list" "artifact_row list"
  | Pc_remove completion_result "artifact_row list"
  | Pc_final_event
  | Pc_error_event
  | Pc_inflight
  | Pc_cleanup
  | Pc_done
  | Pc_crashed

record local_run =
  rn_jobId :: string
  rn_request :: job_request
  rn_attemptId :: string
  rn_pc :: run_pc
  rn_timedOut :: bool
  rn_cancelled :: bool
  rn_durationComplete :: bool
  rn_logFailure :: bool
  rn_workspacePath :: string
  rn_projectPath :: string
  rn_inFlightCancel :: bool
  rn_cancelSignal :: bool
  rn_nextLogSequence :: int
  rn_logQueue :: "(log_stream \<times> string \<times> int) list"
  rn_thrown :: "rbo_error option"

text \<open>
  The module's variables: \<open>activeCancels\<close> maps an attempt to the activation whose closure it holds;
  \<open>child_kills\<close> records the calls of \<open>child.kill\<close> by activation.
\<close>

record runner_state = submit_state +
  activeCancels :: "(string \<times> nat) list"
  pendingCancels :: "string list"
  admissionActive :: int
  admissionWaiters :: "nat list"
  local_runs :: "(nat \<times> local_run) list"
  child_kills :: "nat list"
  artifacts :: "artifact_row list"

record runner_env =
  le_dataDir :: string
  le_maxConcurrentJobs :: "int option"

definition maxConcurrent :: "runner_env \<Rightarrow> int" where
  "maxConcurrent env = (case le_maxConcurrentJobs env of Some n \<Rightarrow> n | None \<Rightarrow> 1)"

text \<open>The outcomes of awaited calls. \<open>Aw_ids\<close> carries the identifiers the next segment generates.\<close>

datatype awaited =
    Aw_ok
  | Aw_error rbo_error
  | Aw_ids string string
  | Aw_manifest json
  | Aw_materialized string string
  | Aw_warnings "(string \<times> string) list"
  | Aw_spawn_error rbo_error
  | Aw_spawned "int option" "string list"
  | Aw_completion completion_result
  | Aw_collection artifact_collection
  | Aw_stored string
  | Aw_cleanup "int option" bool

section \<open>Directories\<close>

text \<open>\<open>join\<close> of \<open>node:path\<close> on POSIX, for a normalised data directory.\<close>

definition attemptBaseDir :: "string \<Rightarrow> string \<Rightarrow> string" where
  "attemptBaseDir dataDir attemptId = dataDir @ ''/attempts/'' @ attemptId"

definition attemptWorkspaceDir :: "string \<Rightarrow> string \<Rightarrow> string" where
  "attemptWorkspaceDir dataDir attemptId = attemptBaseDir dataDir attemptId @ ''/workspace''"

definition attemptArtifactsDir :: "string \<Rightarrow> string \<Rightarrow> string" where
  "attemptArtifactsDir dataDir attemptId = attemptBaseDir dataDir attemptId @ ''/artifacts''"

section \<open>Activations and admission\<close>

definition set_run :: "nat \<Rightarrow> (local_run \<Rightarrow> local_run) \<Rightarrow> 'z runner_state_scheme \<Rightarrow> 'z runner_state_scheme" where
  "set_run r f s =
     (case map_of (local_runs s) r of None \<Rightarrow> s
      | Some run \<Rightarrow> s\<lparr>local_runs := map_set r (f run) (local_runs s)\<rparr>)"

definition goto :: "nat \<Rightarrow> run_pc \<Rightarrow> ('z runner_state_scheme, unit) rbo" where
  "goto r pc = modify (set_run r (\<lambda>run. run\<lparr>rn_pc := pc\<rparr>))"

definition getLocalRunningJobsCount :: "'z runner_state_scheme \<Rightarrow> int" where
  "getLocalRunningJobsCount s = admissionActive s"

text \<open>One turn of the loop in \<open>acquireAdmission\<close>, and the closure it returns.\<close>

definition acquireAdmission :: "runner_env \<Rightarrow> nat \<Rightarrow> ('z runner_state_scheme, unit) rbo" where
  "acquireAdmission env r = (\<lambda>s.
     if admissionActive s \<ge> maxConcurrent env
     then goto r Pc_waiting (s\<lparr>admissionWaiters := admissionWaiters s @ [r]\<rparr>)
     else goto r Pc_admitted (s\<lparr>admissionActive := admissionActive s + 1\<rparr>))"

definition releaseAdmission :: "('z runner_state_scheme, unit) rbo" where
  "releaseAdmission = (\<lambda>s.
     let t = s\<lparr>admissionActive := max 0 (admissionActive s - 1)\<rparr>
     in case admissionWaiters t of
          [] \<Rightarrow> ret () t
        | w # ws \<Rightarrow> goto w Pc_woken (t\<lparr>admissionWaiters := ws\<rparr>))"

section \<open>Cancelling\<close>

definition isCancelRequested :: "string \<Rightarrow> 'z runner_state_scheme \<Rightarrow> bool" where
  "isCancelRequested jobId s = (jobId \<in> set (pendingCancels s))"

definition forget_cancel :: "string \<Rightarrow> ('z runner_state_scheme, unit) rbo" where
  "forget_cancel jobId = modify (\<lambda>s. s\<lparr>pendingCancels := removeAll jobId (pendingCancels s)\<rparr>)"

definition child_kill :: "nat \<Rightarrow> ('z runner_state_scheme, unit) rbo" where
  "child_kill r = modify (\<lambda>s. s\<lparr>child_kills := child_kills s @ [r]\<rparr>)"

text \<open>The closure an activation registers in \<open>activeCancels\<close>.\<close>

definition cancel_closure :: "nat \<Rightarrow> ('z runner_state_scheme, unit) rbo" where
  "cancel_closure r =
     bind (modify (set_run r (\<lambda>run. run\<lparr>rn_cancelled := True, rn_cancelSignal := True, rn_inFlightCancel := True\<rparr>))) (\<lambda>_.
     child_kill r)"

definition cancelled_fields :: "ts \<Rightarrow> string \<Rightarrow> job_field list" where
  "cancelled_fields now msg =
     [JF_outcome (Some Cancelled), JF_finished_at now, JF_failure_category (Some Cancelled_category),
      JF_failure_message (Some msg)]"

definition requestJobCancel :: "ts \<Rightarrow> string \<Rightarrow> ('z runner_state_scheme, bool) rbo" where
  "requestJobCancel now jobId =
     bind (gets (getJob jobId)) (\<lambda>job.
       if (case job of None \<Rightarrow> True | Some j \<Rightarrow> isTerminalJobState (jb_state j)) then ret False
       else
         bind (gets (getLatestAttempt jobId)) (\<lambda>attempt.
         bind (gets (\<lambda>s. Option.bind attempt (\<lambda>a. map_of (activeCancels s) (at_id a)))) (\<lambda>cancel.
         bind (modify (\<lambda>s. s\<lparr>pendingCancels := set_add jobId (pendingCancels s)\<rparr>)) (\<lambda>_.
           case cancel of
             Some r \<Rightarrow> bind (cancel_closure r) (\<lambda>_. ret True)
           | None \<Rightarrow>
               bind (case attempt of
                       None \<Rightarrow> ret ()
                     | Some a \<Rightarrow> bind (transitionAttemptState (at_id a) Completed
                                        [AF_outcome (Some Cancelled), AF_finished_at (Some now)]) (\<lambda>_. ret ())) (\<lambda>_.
               bind (transitionJobState now jobId Completed (cancelled_fields now ''Job cancelled before execution'')) (\<lambda>_.
               ret True))))))"

section \<open>Leaving an activation\<close>

fun error_message :: "rbo_error \<Rightarrow> string" where
  "error_message (RboError _ m _) = m"
| "error_message (JsError m) = m"
| "error_message (SqliteConstraint t) = ''constraint failed: '' @ t"

fun error_category_of :: "bool \<Rightarrow> rbo_error \<Rightarrow> error_category" where
  "error_category_of cancelled (RboError c _ _) = c"
| "error_category_of cancelled _ = (if cancelled then Cancelled_category else Internal)"

definition emitJobEvent :: "ts \<Rightarrow> local_run \<Rightarrow> event_type \<Rightarrow> ('z runner_state_scheme, unit) rbo" where
  "emitJobEvent now run type =
     bind (createJobEvent now type (rn_jobId run) (rn_attemptId run)) (\<lambda>event.
     bind (recordEvent event) (\<lambda>_. ret ()))"

definition ignoring :: "('s, unit) rbo \<Rightarrow> ('s, unit) rbo" where
  "ignoring m = (\<lambda>s. (Inr (), snd (m s)))"

text \<open>The \<open>finally\<close> block after its first \<open>await\<close>, up to the cleanup script.\<close>

definition run_finally :: "nat \<Rightarrow> local_run \<Rightarrow> ('z runner_state_scheme, unit) rbo" where
  "run_finally r run =
     bind (modify (\<lambda>s. s\<lparr>activeCancels := map_delete (rn_attemptId run) (activeCancels s)\<rparr>)) (\<lambda>_.
     bind (forget_cancel (rn_jobId run)) (\<lambda>_.
     bind (goto r (if rn_projectPath run = [] then Pc_done else Pc_cleanup)) (\<lambda>_.
     releaseAdmission)))"

definition enter_finally :: "nat \<Rightarrow> local_run \<Rightarrow> ('z runner_state_scheme, unit) rbo" where
  "enter_finally r run = (if rn_inFlightCancel run then goto r Pc_inflight else run_finally r run)"

definition leave_with :: "nat \<Rightarrow> local_run \<Rightarrow> rbo_error \<Rightarrow> ('z runner_state_scheme, unit) rbo" where
  "leave_with r run e =
     bind (modify (set_run r (\<lambda>run. run\<lparr>rn_thrown := Some e\<rparr>))) (\<lambda>_. enter_finally r run)"

text \<open>The \<open>catch\<close> block up to the \<open>await\<close> of its event; an exception inside it goes to \<open>finally\<close>.\<close>

definition catch_body :: "ts \<Rightarrow> local_run \<Rightarrow> rbo_error \<Rightarrow> ('z runner_state_scheme, unit) rbo" where
  "catch_body now run e =
     (let category = error_category_of (rn_cancelled run) e;
          outcome = (if rn_cancelled run \<or> category = Cancelled_category then Cancelled else Failed) in
      bind (transitionAttemptState (rn_attemptId run) Completed
              [AF_outcome (Some outcome), AF_finished_at (Some now)]) (\<lambda>_.
      bind (gets (getJob (rn_jobId run))) (\<lambda>latest.
      bind (if (case latest of None \<Rightarrow> True | Some j \<Rightarrow> isTerminalJobState (jb_state j)) then ret ()
            else
              bind (transitionJobState now (rn_jobId run) Cleaning []) (\<lambda>_.
              bind (transitionJobState now (rn_jobId run) Completed
                      [JF_outcome (Some outcome), JF_finished_at now, JF_failure_category (Some category),
                       JF_failure_message (Some (error_message e))]) (\<lambda>_. ret ()))) (\<lambda>_.
      ignoring (emitJobEvent now run (Error_event category (error_message e)))))))"

definition run_catch :: "ts \<Rightarrow> nat \<Rightarrow> local_run \<Rightarrow> rbo_error \<Rightarrow> ('z runner_state_scheme, unit) rbo" where
  "run_catch now r run e = (\<lambda>s.
     case catch_body now run e s of
       (Inr _, t) \<Rightarrow>
         bind (modify (set_run r (\<lambda>run. run\<lparr>rn_thrown := Some e\<rparr>))) (\<lambda>_. goto r Pc_error_event) t
     | (Inl e', t) \<Rightarrow> leave_with r run e' t)"

text \<open>After the event of the \<open>catch\<close> block: rethrow as an \<open>RboError\<close>, or swallow a cancellation.\<close>

definition rethrown :: "local_run \<Rightarrow> rbo_error option" where
  "rethrown run =
     (case rn_thrown run of
        None \<Rightarrow> None
      | Some e \<Rightarrow>
          if rn_cancelled run \<or> error_category_of (rn_cancelled run) e = Cancelled_category then None
          else (case e of RboError c m b \<Rightarrow> Some e | _ \<Rightarrow> Some (rbo_internal (error_message e))))"

definition after_error_event :: "nat \<Rightarrow> local_run \<Rightarrow> ('z runner_state_scheme, unit) rbo" where
  "after_error_event r run =
     bind (modify (set_run r (\<lambda>run. run\<lparr>rn_thrown := rethrown run\<rparr>))) (\<lambda>_. enter_finally r run)"

section \<open>The body of \<open>runLocalJob\<close>\<close>

definition fresh_run :: "string \<Rightarrow> job_request \<Rightarrow> local_run" where
  "fresh_run jobId request =
     \<lparr>rn_jobId = jobId, rn_request = request, rn_attemptId = [], rn_pc = Pc_woken, rn_timedOut = False,
      rn_cancelled = False, rn_durationComplete = False, rn_logFailure = False, rn_workspacePath = [],
      rn_projectPath = [], rn_inFlightCancel = False, rn_cancelSignal = False, rn_nextLogSequence = 1,
      rn_logQueue = [], rn_thrown = None\<rparr>"

definition not_runnable :: "job_row option \<Rightarrow> bool" where
  "not_runnable job =
     (case job of None \<Rightarrow> True | Some j \<Rightarrow> isTerminalJobState (jb_state j) \<or> jb_outcome j = Some Cancelled)"

text \<open>Entry, up to the admission. \<open>r\<close> is the number of the new activation.\<close>

definition runLocalJob :: "runner_env \<Rightarrow> nat \<Rightarrow> string \<Rightarrow> ('z runner_state_scheme, unit) rbo" where
  "runLocalJob env r jobId =
     bind (gets (isCancelRequested jobId)) (\<lambda>requested.
       if requested then forget_cancel jobId
       else
         bind (gets (getJobRequest jobId)) (\<lambda>row.
           case row of
             None \<Rightarrow> throw (JsError (''Missing request for job '' @ jobId))
           | Some request \<Rightarrow>
               bind (gets (getJob jobId)) (\<lambda>current.
                 if not_runnable current then forget_cancel jobId
                 else
                   bind (modify (\<lambda>s. s\<lparr>local_runs := map_set r (fresh_run jobId request) (local_runs s)\<rparr>)) (\<lambda>_.
                   acquireAdmission env r))))"

definition leave_early :: "nat \<Rightarrow> local_run \<Rightarrow> ('z runner_state_scheme, unit) rbo" where
  "leave_early r run =
     bind (goto r Pc_done) (\<lambda>_. bind releaseAdmission (\<lambda>_. forget_cancel (rn_jobId run)))"

text \<open>After the admission: the second check and the attempt. What throws here is not caught.\<close>

definition admitted_body :: "ts \<Rightarrow> string \<Rightarrow> string \<Rightarrow> nat \<Rightarrow> local_run \<Rightarrow> ('z runner_state_scheme, unit) rbo" where
  "admitted_body now attemptId leaseId r run =
     bind (gets (isCancelRequested (rn_jobId run))) (\<lambda>requested.
       if requested then leave_early r run
       else
         bind (gets (getJob (rn_jobId run))) (\<lambda>afterAdmit.
           if not_runnable afterAdmit then leave_early r run
           else
             bind (createAttempt now attemptId leaseId (rn_jobId run) 1) (\<lambda>attempt.
             bind (modify (set_run r (\<lambda>run. run\<lparr>rn_attemptId := at_id attempt\<rparr>))) (\<lambda>_.
             bind (gets (isCancelRequested (rn_jobId run))) (\<lambda>requestedNow.
               if requestedNow then
                 bind (transitionAttemptState (at_id attempt) Completed
                         [AF_outcome (Some Cancelled), AF_finished_at (Some now)]) (\<lambda>_.
                 bind (gets (getJob (rn_jobId run))) (\<lambda>latest.
                 bind (if (case latest of None \<Rightarrow> True | Some j \<Rightarrow> isTerminalJobState (jb_state j)) then ret ()
                       else bind (transitionJobState now (rn_jobId run) Completed
                                    (cancelled_fields now ''Job cancelled before execution'')) (\<lambda>_. ret ())) (\<lambda>_.
                 leave_early r run)))
               else goto r Pc_dirs)))))"

definition uncaught :: "nat \<Rightarrow> ('z runner_state_scheme, unit) rbo \<Rightarrow> ('z runner_state_scheme, unit) rbo" where
  "uncaught r m = (\<lambda>s.
     case m s of
       (Inr _, t) \<Rightarrow> (Inr (), t)
     | (Inl e, t) \<Rightarrow> bind (modify (set_run r (\<lambda>run. run\<lparr>rn_thrown := Some e\<rparr>))) (\<lambda>_. goto r Pc_crashed) t)"

definition caught :: "ts \<Rightarrow> nat \<Rightarrow> ('z runner_state_scheme, unit) rbo \<Rightarrow> ('z runner_state_scheme, unit) rbo" where
  "caught now r m = (\<lambda>s.
     case m s of
       (Inr _, t) \<Rightarrow> (Inr (), t)
     | (Inl e, t) \<Rightarrow> (case map_of (local_runs t) r of None \<Rightarrow> (Inr (), t) | Some run \<Rightarrow> run_catch now r run e t))"

text \<open>The start of the \<open>try\<close> block, up to the reading of the manifest.\<close>

definition throw_cancelled :: "nat \<Rightarrow> string \<Rightarrow> ('z runner_state_scheme, 'a) rbo" where
  "throw_cancelled r msg =
     bind (modify (set_run r (\<lambda>run. run\<lparr>rn_cancelled := True\<rparr>))) (\<lambda>_.
     throw (RboError Cancelled_category msg False))"

definition start_body :: "ts \<Rightarrow> nat \<Rightarrow> local_run \<Rightarrow> ('z runner_state_scheme, unit) rbo" where
  "start_body now r run =
     bind (gets (isCancelRequested (rn_jobId run))) (\<lambda>requested.
       if requested then throw_cancelled r ''Job cancelled before materialization''
       else
         bind (transitionJobState now (rn_jobId run) Matching []) (\<lambda>_.
         bind (transitionJobState now (rn_jobId run) Leased [JF_started_at now]) (\<lambda>_.
         bind (transitionJobState now (rn_jobId run) Materializing []) (\<lambda>_.
         bind (gets (loadSnapshotForJob (rn_jobId run))) (\<lambda>row.
           case row of
             None \<Rightarrow> throw (RboError Internal ''Job is missing snapshot payload'' False)
           | Some snap \<Rightarrow>
               if falsy_str (sn_payload_path snap)
               then throw (RboError Internal ''Job is missing snapshot payload'' False)
               else goto r (Pc_manifest snap))))))"

definition snapshotPayloadMode :: "json \<Rightarrow> bool" where
  "snapshotPayloadMode manifest =
     (js_prop (js_prop (Some manifest) ''payload'') ''mode'' = Some (JStr ''git_overlay''))"

definition after_manifest :: "nat \<Rightarrow> snapshot_row \<Rightarrow> json \<Rightarrow> ('z runner_state_scheme, unit) rbo" where
  "after_manifest r snap manifest =
     (if snapshotPayloadMode manifest
      then throw (RboError Materialization
             ''Local fallback cannot materialize git_overlay snapshots; a remote agent is required'' True)
      else goto r (Pc_materialize snap manifest))"

definition after_materialize ::
  "ts \<Rightarrow> nat \<Rightarrow> local_run \<Rightarrow> snapshot_row \<Rightarrow> json \<Rightarrow> string \<Rightarrow> string \<Rightarrow> ('z runner_state_scheme, unit) rbo" where
  "after_materialize now r run snap manifest workspaceRoot projectPath =
     bind (modify (set_run r (\<lambda>run. run\<lparr>rn_workspacePath := workspaceRoot, rn_projectPath := projectPath\<rparr>))) (\<lambda>_.
     bind (emitJobEvent now run (Snapshot_captured (sn_id snap) (str_of (js_prop (Some manifest) ''content_id'')))) (\<lambda>_.
     goto r Pc_captured_event))"

definition emit_materialized :: "ts \<Rightarrow> nat \<Rightarrow> local_run \<Rightarrow> ('z runner_state_scheme, unit) rbo" where
  "emit_materialized now r run =
     bind (emitJobEvent now run (Materialized (rn_projectPath run))) (\<lambda>_. goto r Pc_materialized_event)"

definition squote :: string where
  "squote = [char_of (39 :: nat)]"

definition next_warning :: "ts \<Rightarrow> nat \<Rightarrow> local_run \<Rightarrow> (string \<times> string) list \<Rightarrow> ('z runner_state_scheme, unit) rbo" where
  "next_warning now r run warnings =
     (case warnings of
        [] \<Rightarrow> emit_materialized now r run
      | (path, pattern) # rest \<Rightarrow>
          (\<lambda>s. case emitJobEvent now run
                      (Secret_warning path (''Matched secret denylist pattern '' @ squote @ pattern @ squote)) s of
                 (Inr _, t) \<Rightarrow> goto r (Pc_warning_event rest) t
               | (Inl _, t) \<Rightarrow> emit_materialized now r run t))"

definition after_materialized_event :: "nat \<Rightarrow> local_run \<Rightarrow> ('z runner_state_scheme, unit) rbo" where
  "after_materialized_event r run =
     bind (gets (isCancelRequested (rn_jobId run))) (\<lambda>requested.
       if requested then throw_cancelled r ''Job cancelled after materialization'' else goto r Pc_script)"

definition after_script :: "ts \<Rightarrow> nat \<Rightarrow> local_run \<Rightarrow> ('z runner_state_scheme, unit) rbo" where
  "after_script now r run = bind (transitionJobState now (rn_jobId run) Starting []) (\<lambda>_. goto r Pc_cwd)"

definition next_env_event ::
  "runner_env \<Rightarrow> ts \<Rightarrow> nat \<Rightarrow> local_run \<Rightarrow> string list \<Rightarrow> int option \<Rightarrow> ('z runner_state_scheme, unit) rbo" where
  "next_env_event env now r run keys pid =
     (case keys of
        [] \<Rightarrow> bind (emitJobEvent now run (Process_started (attemptWorkspaceDir (le_dataDir env) (rn_attemptId run)) pid)) (\<lambda>_.
              goto r Pc_started_event)
      | key # rest \<Rightarrow>
          bind (emitJobEvent now run
                  (Env_override_ignored key ''Reserved RBO_ env key ignored; injected system value wins'')) (\<lambda>_.
          goto r (Pc_env_event rest pid)))"

definition after_started :: "ts \<Rightarrow> nat \<Rightarrow> local_run \<Rightarrow> ('z runner_state_scheme, unit) rbo" where
  "after_started now r run =
     bind (modify (\<lambda>s. s\<lparr>activeCancels := map_set (rn_attemptId run) r (activeCancels s)\<rparr>)) (\<lambda>_.
     bind (transitionJobState now (rn_jobId run) Running []) (\<lambda>_.
     bind (transitionAttemptState (rn_attemptId run) Running []) (\<lambda>_.
     bind (gets (isCancelRequested (rn_jobId run))) (\<lambda>requested.
       if requested then
         bind (modify (set_run r (\<lambda>run. run\<lparr>rn_cancelled := True, rn_cancelSignal := True\<rparr>))) (\<lambda>_.
         bind (child_kill r) (\<lambda>_. goto r Pc_cancel_kill))
       else goto r Pc_completion))))"

section \<open>Logs of a local process\<close>

definition enqueueLocalLog :: "nat \<Rightarrow> log_stream \<Rightarrow> string \<Rightarrow> ('z runner_state_scheme, unit) rbo" where
  "enqueueLocalLog r stream chunk =
     modify (set_run r (\<lambda>run. run\<lparr>rn_nextLogSequence := rn_nextLogSequence run + 1,
                                  rn_logQueue := rn_logQueue run @ [(stream, chunk, rn_nextLogSequence run)]\<rparr>))"

text \<open>The head of \<open>logWriteChain\<close> runs; a failed write does not stop the chain.\<close>

definition local_log_write :: "bool \<Rightarrow> nat \<Rightarrow> ('z runner_state_scheme, unit) rbo" where
  "local_log_write okay r = (\<lambda>s.
     case map_of (local_runs s) r of
       None \<Rightarrow> (Inr (), s)
     | Some run \<Rightarrow>
         (case rn_logQueue run of
            [] \<Rightarrow> (Inr (), s)
          | (stream, chunk, sequence) # rest \<Rightarrow>
              bind (ignoring (persistAndPublishLogChunk okay (rn_attemptId run) stream chunk sequence)) (\<lambda>_.
              modify (set_run r (\<lambda>run. run\<lparr>rn_logQueue := rest\<rparr>))) s))"

section \<open>After the process\<close>

definition completion_flags :: "completion_result \<Rightarrow> local_run \<Rightarrow> local_run" where
  "completion_flags res run =
     (case res of
        Timeout_result \<Rightarrow> run\<lparr>rn_timedOut := True\<rparr>
      | Duration_complete \<Rightarrow> run\<lparr>rn_durationComplete := True\<rparr>
      | Log_failure \<Rightarrow> run\<lparr>rn_logFailure := True\<rparr>
      | _ \<Rightarrow> run)"

definition start_collect :: "ts \<Rightarrow> nat \<Rightarrow> local_run \<Rightarrow> completion_result \<Rightarrow> ('z runner_state_scheme, unit) rbo" where
  "start_collect now r run res =
     bind (transitionJobState now (rn_jobId run) Collecting_artifacts []) (\<lambda>_. goto r (Pc_collect res))"

definition after_drain :: "ts \<Rightarrow> nat \<Rightarrow> local_run \<Rightarrow> completion_result \<Rightarrow> ('z runner_state_scheme, unit) rbo" where
  "after_drain now r run res =
     bind (modify (set_run r (completion_flags res))) (\<lambda>_.
       case res of
         Exit_result _ \<Rightarrow> start_collect now r run res
       | _ \<Rightarrow> bind (child_kill r) (\<lambda>_. goto r (Pc_kill res)))"

text \<open>\<open>persistCollectedArtifacts\<close>: one row per moved file.\<close>

definition insert_artifact :: "artifact_row \<Rightarrow> ('z runner_state_scheme, unit) rbo" where
  "insert_artifact row = (\<lambda>s.
     if (\<exists>a \<in> set (artifacts s). ar_id a = ar_id row \<or>
           (ar_attempt_id a = ar_attempt_id row \<and> ar_logical_name a = ar_logical_name row))
        \<or> getJob (ar_job_id row) s = None \<or> getAttempt (ar_attempt_id row) s = None
     then (Inl (SqliteConstraint ''artifacts''), s)
     else (Inr (), s\<lparr>artifacts := artifacts s @ [row]\<rparr>))"

definition next_artifact_event ::
  "ts \<Rightarrow> nat \<Rightarrow> local_run \<Rightarrow> completion_result \<Rightarrow> artifact_row list \<Rightarrow> artifact_row list \<Rightarrow> ('z runner_state_scheme, unit) rbo" where
  "next_artifact_event now r run res arts todo =
     (case todo of
        [] \<Rightarrow> goto r (Pc_remove res arts)
      | a # rest \<Rightarrow>
          bind (emitJobEvent now run (Artifact_collected (ar_id a) (ar_logical_name a) (ar_sha256 a))) (\<lambda>_.
          goto r (Pc_artifact_event res arts rest)))"

definition next_store ::
  "ts \<Rightarrow> nat \<Rightarrow> local_run \<Rightarrow> completion_result \<Rightarrow> collected_file list \<Rightarrow> artifact_row list \<Rightarrow> ('z runner_state_scheme, unit) rbo" where
  "next_store now r run res files arts =
     (case files of
        [] \<Rightarrow> next_artifact_event now r run res arts arts
      | _ \<Rightarrow> goto r (Pc_store res files arts))"

definition after_store ::
  "runner_env \<Rightarrow> ts \<Rightarrow> nat \<Rightarrow> local_run \<Rightarrow> completion_result \<Rightarrow> collected_file list \<Rightarrow> artifact_row list \<Rightarrow> string
     \<Rightarrow> ('z runner_state_scheme, unit) rbo" where
  "after_store env now r run res files arts artifactId =
     (case files of
        [] \<Rightarrow> next_artifact_event now r run res arts arts
      | file # rest \<Rightarrow>
          (let row = \<lparr>ar_id = artifactId, ar_job_id = rn_jobId run, ar_attempt_id = rn_attemptId run,
                      ar_logical_name = cf_logical_name file,
                      ar_path = attemptArtifactsDir (le_dataDir env) (rn_attemptId run) @ ''/'' @ artifactId,
                      ar_size_bytes = cf_size_bytes file, ar_sha256 = cf_sha256 file, ar_created_at = now\<rparr>
           in bind (insert_artifact row) (\<lambda>_. next_store now r run res rest (arts @ [row]))))"

definition next_skip_event ::
  "ts \<Rightarrow> nat \<Rightarrow> local_run \<Rightarrow> completion_result \<Rightarrow> artifact_collection \<Rightarrow> (string \<times> string) list \<Rightarrow> ('z runner_state_scheme, unit) rbo" where
  "next_skip_event now r run res coll todo =
     (case todo of
        (path, reason) # rest \<Rightarrow>
          bind (emitJobEvent now run (Artifact_skipped path reason)) (\<lambda>_. goto r (Pc_skip_event res coll rest))
      | [] \<Rightarrow>
          (case ac_limitExceeded coll of
             Some (reason, limit, actual) \<Rightarrow>
               bind (emitJobEvent now run (Artifact_limit_exceeded reason limit actual)) (\<lambda>_. goto r (Pc_limit_event res))
           | None \<Rightarrow> next_store now r run res (ac_files coll) []))"

definition after_collect ::
  "ts \<Rightarrow> nat \<Rightarrow> local_run \<Rightarrow> completion_result \<Rightarrow> artifact_collection \<Rightarrow> ('z runner_state_scheme, unit) rbo" where
  "after_collect now r run res coll =
     bind (modify (\<lambda>s. s\<lparr>job_attempts := sql_update (\<lambda>a. at_id a = rn_attemptId run)
                           (\<lambda>a. a\<lparr>at_artifact_collection_rules := Some (ac_rules coll)\<rparr>) (job_attempts s)\<rparr>)) (\<lambda>_.
     next_skip_event now r run res coll (ac_skipped coll))"

definition local_exit_code :: "completion_result \<Rightarrow> int option" where
  "local_exit_code res = (case res of Exit_result c \<Rightarrow> c | _ \<Rightarrow> None)"

definition local_outcome :: "local_run \<Rightarrow> completion_result \<Rightarrow> job_outcome" where
  "local_outcome run res =
     (if rn_cancelled run then Cancelled
      else if rn_timedOut run then Timed_out
      else if rn_logFailure run then Failed
      else if rn_durationComplete run \<or> res = Log_success then Succeeded
      else if local_exit_code res = Some 0 then Succeeded else Failed)"

definition artifact_json :: "artifact_row \<Rightarrow> json" where
  "artifact_json a =
     JObj [(''id'', JStr (ar_id a)), (''logical_name'', JStr (ar_logical_name a)),
           (''size_bytes'', JNum (of_int (ar_size_bytes a))), (''sha256'', JStr (ar_sha256 a))]"

definition local_final_fields :: "ts \<Rightarrow> local_run \<Rightarrow> completion_result \<Rightarrow> artifact_row list \<Rightarrow> job_field list" where
  "local_final_fields now run res arts =
     (let outcome = local_outcome run res; exitCode = local_exit_code res in
      [JF_outcome (Some outcome), JF_finished_at now, JF_exit_code exitCode,
       JF_failure_category
         (if outcome = Failed then Some Process_exit
          else if outcome = Timed_out then Some Timeout
          else if rn_cancelled run then Some Cancelled_category else None),
       JF_failure_message
         (if outcome = Failed then
            (if rn_logFailure run then Some ''Completion failure_pattern matched in logs''
             else Some (''Script exited with code '' @ show_exit exitCode))
          else if outcome = Timed_out then Some ''Execution timed out''
          else if rn_cancelled run then Some ''Job cancelled'' else None),
       JF_result_json (JObj [(''artifacts'', JArr (map artifact_json arts)), (''exit_code'', json_int exitCode),
                             (''outcome'', JStr (outcome_name outcome))])])"

definition finish_body ::
  "ts \<Rightarrow> nat \<Rightarrow> local_run \<Rightarrow> completion_result \<Rightarrow> artifact_row list \<Rightarrow> ('z runner_state_scheme, unit) rbo" where
  "finish_body now r run res arts =
     bind (transitionAttemptState (rn_attemptId run) Completed
             [AF_outcome (Some (local_outcome run res)), AF_finished_at (Some now)]) (\<lambda>_.
     bind (transitionJobState now (rn_jobId run) Cleaning []) (\<lambda>_.
     bind (transitionJobState now (rn_jobId run) Completed (local_final_fields now run res arts)) (\<lambda>_.
     bind (emitJobEvent now run (State_transition Running Completed)) (\<lambda>_.
     goto r Pc_final_event))))"

definition after_cleanup :: "ts \<Rightarrow> nat \<Rightarrow> local_run \<Rightarrow> int option \<Rightarrow> bool \<Rightarrow> ('z runner_state_scheme, unit) rbo" where
  "after_cleanup now r run exitCode timedOut =
     bind (if exitCode \<noteq> Some 0 \<or> timedOut then
             ignoring (emitJobEvent now run
               (Cleanup_error exitCode timedOut
                  (if timedOut then ''Cleanup script timed out''
                   else ''Cleanup script exited with code '' @ show_exit exitCode)))
           else ret ()) (\<lambda>_.
     goto r Pc_done)"

section \<open>Resuming an activation\<close>

text \<open>
  The continuation at a suspension point for the outcome of the awaited call; an outcome that the
  awaited call cannot have leaves the activation suspended.
\<close>

definition when_ok :: "awaited \<Rightarrow> ('s, unit) rbo \<Rightarrow> ('s, unit) rbo" where
  "when_ok inp m = (case inp of Aw_ok \<Rightarrow> m | Aw_error e \<Rightarrow> throw e | _ \<Rightarrow> ret ())"

definition continuation ::
  "runner_env \<Rightarrow> ts \<Rightarrow> nat \<Rightarrow> local_run \<Rightarrow> run_pc \<Rightarrow> awaited \<Rightarrow> ('z runner_state_scheme, unit) rbo" where
  "continuation env now r run pc inp =
     (case pc of
        Pc_manifest snap \<Rightarrow>
          (case inp of Aw_manifest manifest \<Rightarrow> after_manifest r snap manifest | Aw_error e \<Rightarrow> throw e | _ \<Rightarrow> ret ())
      | Pc_materialize snap manifest \<Rightarrow>
          (case inp of Aw_materialized ws proj \<Rightarrow> after_materialize now r run snap manifest ws proj
           | Aw_error e \<Rightarrow> throw e | _ \<Rightarrow> ret ())
      | Pc_captured_event \<Rightarrow> when_ok inp (goto r Pc_warnings)
      | Pc_warnings \<Rightarrow>
          (case inp of Aw_warnings warnings \<Rightarrow> next_warning now r run warnings
           | Aw_error _ \<Rightarrow> emit_materialized now r run | _ \<Rightarrow> ret ())
      | Pc_warning_event rest \<Rightarrow>
          (case inp of Aw_ok \<Rightarrow> next_warning now r run rest | Aw_error _ \<Rightarrow> emit_materialized now r run | _ \<Rightarrow> ret ())
      | Pc_materialized_event \<Rightarrow> when_ok inp (after_materialized_event r run)
      | Pc_script \<Rightarrow> when_ok inp (after_script now r run)
      | Pc_cwd \<Rightarrow>
          (case inp of Aw_spawned pid keys \<Rightarrow> next_env_event env now r run keys pid
           | Aw_error e \<Rightarrow> throw (RboError Validation (error_message e) False)
           | Aw_spawn_error e \<Rightarrow> throw e | _ \<Rightarrow> ret ())
      | Pc_env_event rest pid \<Rightarrow> when_ok inp (next_env_event env now r run rest pid)
      | Pc_started_event \<Rightarrow> when_ok inp (after_started now r run)
      | Pc_cancel_kill \<Rightarrow> when_ok inp (goto r Pc_completion)
      | Pc_completion \<Rightarrow>
          (case inp of Aw_completion res \<Rightarrow> goto r (Pc_drain res (rn_nextLogSequence run))
           | Aw_error e \<Rightarrow> throw e | _ \<Rightarrow> ret ())
      | Pc_drain res bound \<Rightarrow>
          if \<exists>q \<in> set (rn_logQueue run). snd (snd q) < bound then ret () else after_drain now r run res
      | Pc_kill res \<Rightarrow> when_ok inp (start_collect now r run res)
      | Pc_collect res \<Rightarrow>
          (case inp of Aw_collection coll \<Rightarrow> after_collect now r run res coll | Aw_error e \<Rightarrow> throw e | _ \<Rightarrow> ret ())
      | Pc_skip_event res coll rest \<Rightarrow> when_ok inp (next_skip_event now r run res coll rest)
      | Pc_limit_event res \<Rightarrow> when_ok inp (goto r (Pc_remove res []))
      | Pc_store res files arts \<Rightarrow>
          (case inp of Aw_stored artifactId \<Rightarrow> after_store env now r run res files arts artifactId
           | Aw_error e \<Rightarrow> throw e | _ \<Rightarrow> ret ())
      | Pc_artifact_event res arts rest \<Rightarrow> when_ok inp (next_artifact_event now r run res arts rest)
      | Pc_remove res arts \<Rightarrow> finish_body now r run res arts
      | Pc_final_event \<Rightarrow> when_ok inp (enter_finally r run)
      | _ \<Rightarrow> ret ())"

definition local_step :: "runner_env \<Rightarrow> ts \<Rightarrow> nat \<Rightarrow> awaited \<Rightarrow> ('z runner_state_scheme, unit) rbo" where
  "local_step env now r inp = (\<lambda>s.
     case map_of (local_runs s) r of
       None \<Rightarrow> (Inr (), s)
     | Some run \<Rightarrow>
         (case rn_pc run of
            Pc_waiting \<Rightarrow> (Inr (), s)
          | Pc_woken \<Rightarrow> acquireAdmission env r s
          | Pc_admitted \<Rightarrow>
              (case inp of
                 Aw_ids attemptId leaseId \<Rightarrow> uncaught r (admitted_body now attemptId leaseId r run) s
               | _ \<Rightarrow> (Inr (), s))
          | Pc_dirs \<Rightarrow>
              (case inp of
                 Aw_ok \<Rightarrow> caught now r (start_body now r run) s
               | Aw_error e \<Rightarrow> uncaught r (throw e) s
               | _ \<Rightarrow> (Inr (), s))
          | Pc_error_event \<Rightarrow> after_error_event r run s
          | Pc_inflight \<Rightarrow> run_finally r run s
          | Pc_cleanup \<Rightarrow>
              (case inp of Aw_cleanup exitCode timedOut \<Rightarrow> after_cleanup now r run exitCode timedOut s | _ \<Rightarrow> (Inr (), s))
          | Pc_done \<Rightarrow> (Inr (), s)
          | Pc_crashed \<Rightarrow> (Inr (), s)
          | pc \<Rightarrow> caught now r (continuation env now r run pc inp) s))"

end
