(* ===== verification/Local_Runner_Laws.thy ===== *)
theory Local_Runner_Laws
  imports Local_Runner
begin

text \<open>
  Laws of the local runner. The admission variables and the suspension points of all activations are
  abstracted to a counting semaphore with a queue of sleepers (\<open>sem\<close>); every operation of the runner is
  a step of it, so that the bound on running jobs and the absence of lost wakeups are proved once, on the
  semaphore. \<open>pc_rank\<close> is the termination measure of one activation.
\<close>

section \<open>The abstract semaphore\<close>

datatype phase = Sleeping | Awake | Holding | Gone

record sem =
  sem_active :: int
  sem_queue :: "nat list"
  sem_phase :: "nat \<Rightarrow> phase option"

definition in_phase :: "phase \<Rightarrow> sem \<Rightarrow> nat set" where
  "in_phase p x = {r. sem_phase x r = Some p}"

definition sem_enter :: "int \<Rightarrow> nat \<Rightarrow> sem \<Rightarrow> sem" where
  "sem_enter limit r x =
     (if sem_active x \<ge> limit
      then x\<lparr>sem_queue := sem_queue x @ [r], sem_phase := (sem_phase x)(r \<mapsto> Sleeping)\<rparr>
      else x\<lparr>sem_active := sem_active x + 1, sem_phase := (sem_phase x)(r \<mapsto> Holding)\<rparr>)"

definition sem_leave :: "nat \<Rightarrow> sem \<Rightarrow> sem" where
  "sem_leave r x =
     (let y = x\<lparr>sem_active := max 0 (sem_active x - 1), sem_phase := (sem_phase x)(r \<mapsto> Gone)\<rparr>
      in case sem_queue y of
           [] \<Rightarrow> y
         | w # ws \<Rightarrow> y\<lparr>sem_queue := ws, sem_phase := (sem_phase y)(w \<mapsto> Awake)\<rparr>)"

inductive sem_step :: "int \<Rightarrow> sem \<Rightarrow> sem \<Rightarrow> bool" for limit where
  sem_arrive: "sem_phase x r = None \<Longrightarrow> sem_step limit x (sem_enter limit r x)"
| sem_retry: "sem_phase x r = Some Awake \<Longrightarrow> sem_step limit x (sem_enter limit r x)"
| sem_release: "sem_phase x r = Some Holding \<Longrightarrow> sem_step limit x (sem_leave r x)"

text \<open>
  The invariant: the counter is the number of holders and within the limit, the queue is the set of
  sleepers, and while somebody sleeps every free slot has an awakened activation on its way to it.
\<close>

definition sem_inv :: "int \<Rightarrow> sem \<Rightarrow> bool" where
  "sem_inv limit x =
     (finite (dom (sem_phase x)) \<and>
      sem_active x = int (card (in_phase Holding x)) \<and>
      sem_active x \<le> max 0 limit \<and>
      distinct (sem_queue x) \<and> set (sem_queue x) = in_phase Sleeping x \<and>
      (sem_queue x \<noteq> [] \<longrightarrow> limit \<le> sem_active x + int (card (in_phase Awake x))))"

lemma in_phase_finite: "finite (dom (sem_phase x)) \<Longrightarrow> finite (in_phase p x)"
  by (rule finite_subset [of _ "dom (sem_phase x)"]) (auto simp: in_phase_def)

lemma sem_enter_inv:
  assumes inv: "sem_inv limit x" and r: "sem_phase x r = None \<or> sem_phase x r = Some Awake"
  shows "sem_inv limit (sem_enter limit r x)"
proof -
  have fin: "finite (dom (sem_phase x))" and act: "sem_active x = int (card (in_phase Holding x))"
    and q: "distinct (sem_queue x)" "set (sem_queue x) = in_phase Sleeping x"
    and free: "sem_queue x \<noteq> [] \<Longrightarrow> limit \<le> sem_active x + int (card (in_phase Awake x))"
    and le: "sem_active x \<le> max 0 limit"
    using inv by (auto simp: sem_inv_def)
  have out: "r \<notin> in_phase Holding x" "r \<notin> in_phase Sleeping x" using r by (auto simp: in_phase_def)
  show ?thesis
  proof (cases "sem_active x \<ge> limit")
    case True
    let ?y = "sem_enter limit r x"
    have "in_phase Holding ?y = in_phase Holding x" "in_phase Sleeping ?y = insert r (in_phase Sleeping x)"
      using True r by (auto simp: in_phase_def sem_enter_def)
    then show ?thesis using True fin act q le out by (auto simp: sem_inv_def sem_enter_def)
  next
    case False
    let ?y = "sem_enter limit r x"
    have "in_phase Holding ?y = insert r (in_phase Holding x)" "in_phase Sleeping ?y = in_phase Sleeping x"
      "in_phase Awake ?y = in_phase Awake x - {r}"
      using False r by (auto simp: in_phase_def sem_enter_def)
    moreover have "int (card (in_phase Awake x - {r})) \<ge> int (card (in_phase Awake x)) - 1"
      using card_Diff_singleton_if [of "in_phase Awake x" r] by auto
    ultimately show ?thesis using False fin act q free out in_phase_finite [OF fin, of Holding]
      by (auto simp: sem_inv_def sem_enter_def)
  qed
qed

lemma sem_leave_inv:
  assumes inv: "sem_inv limit x" and r: "sem_phase x r = Some Holding"
  shows "sem_inv limit (sem_leave r x)"
proof -
  have fin: "finite (dom (sem_phase x))" and act: "sem_active x = int (card (in_phase Holding x))"
    and q: "distinct (sem_queue x)" "set (sem_queue x) = in_phase Sleeping x"
    and free: "sem_queue x \<noteq> [] \<Longrightarrow> limit \<le> sem_active x + int (card (in_phase Awake x))"
    and le: "sem_active x \<le> max 0 limit"
    using inv by (auto simp: sem_inv_def)
  have finH: "finite (in_phase Holding x)" and finA: "finite (in_phase Awake x)" using fin in_phase_finite by auto
  have mem: "r \<in> in_phase Holding x" using r by (simp add: in_phase_def)
  then have pos: "card (in_phase Holding x) > 0" using finH card_gt_0_iff by blast
  have cardH: "int (card (in_phase Holding x - {r})) = int (card (in_phase Holding x)) - 1"
    using mem finH pos by (simp add: of_nat_diff)
  show ?thesis
  proof (cases "sem_queue x")
    case Nil
    let ?y = "sem_leave r x"
    have "in_phase Holding ?y = in_phase Holding x - {r}" "in_phase Sleeping ?y = in_phase Sleeping x"
      using Nil r by (auto simp: in_phase_def sem_leave_def)
    then show ?thesis using Nil fin act q le cardH pos by (auto simp: sem_inv_def sem_leave_def)
  next
    case (Cons w ws)
    let ?y = "sem_leave r x"
    have w: "sem_phase x w = Some Sleeping" using q(2) Cons by (auto simp: in_phase_def)
    with r have wr: "w \<noteq> r" by auto
    have "in_phase Holding ?y = in_phase Holding x - {r}" "in_phase Sleeping ?y = in_phase Sleeping x - {w}"
      "in_phase Awake ?y = insert w (in_phase Awake x)"
      using Cons r w wr by (auto simp: in_phase_def sem_leave_def)
    moreover have "w \<notin> in_phase Awake x" using w by (simp add: in_phase_def)
    moreover have "set ws = in_phase Sleeping x - {w}" "distinct ws" using q Cons by auto
    ultimately show ?thesis using Cons fin act free le cardH pos finA by (auto simp: sem_inv_def sem_leave_def)
  qed
qed

lemma sem_step_inv: "sem_step limit x y \<Longrightarrow> sem_inv limit x \<Longrightarrow> sem_inv limit y"
  by (induction rule: sem_step.induct) (auto intro: sem_enter_inv sem_leave_inv)

section \<open>The runner as a semaphore\<close>

fun phase_of :: "run_pc \<Rightarrow> phase" where
  "phase_of Pc_waiting = Sleeping"
| "phase_of Pc_woken = Awake"
| "phase_of Pc_cleanup = Gone"
| "phase_of Pc_done = Gone"
| "phase_of pc = Holding"

definition run_phase :: "'z runner_state_scheme \<Rightarrow> nat \<Rightarrow> phase option" where
  "run_phase s r = map_option (\<lambda>run. phase_of (rn_pc run)) (map_of (local_runs s) r)"

definition sem_of :: "'z runner_state_scheme \<Rightarrow> sem" where
  "sem_of s = \<lparr>sem_active = admissionActive s, sem_queue = admissionWaiters s, sem_phase = run_phase s\<rparr>"

text \<open>What the operations of the other components leave alone: everything beyond the tables.\<close>

definition more_same :: "'z controller_db_scheme \<Rightarrow> 'z controller_db_scheme \<Rightarrow> bool" where
  "more_same s t = (controller_db.more t = controller_db.more s)"

interpretation more_same: step_relation more_same
  by unfold_locales (auto simp: more_same_def)

lemma more_same_runner:
  fixes s t :: "'z runner_state_scheme"
  assumes "more_same s t"
  shows "local_runs t = local_runs s" "admissionActive t = admissionActive s" "admissionWaiters t = admissionWaiters s"
    "pendingCancels t = pendingCancels s" "activeCancels t = activeCancels s" "child_kills t = child_kills s"
    "artifacts t = artifacts s"
  using assms by (cases s; cases t; simp add: more_same_def)+

lemma more_same_transitionJobState: "obeys more_same (transitionJobState now j st fs)"
  by (auto simp: obeys_def more_same_def transitionJobState_def bind_apply assertJobLifecycleWriteAllowed_def
        notifyJobLifecycleChanged_def Let_def split: option.splits)

lemma more_same_transitionAttemptState: "obeys more_same (transitionAttemptState a st fs)"
  by (auto simp: obeys_def more_same_def transitionAttemptState_def Let_def split: option.splits)

lemma more_same_createJobEvent: "obeys more_same (createJobEvent now ty j a)"
  by (auto simp: obeys_def more_same_def createJobEvent_def Let_def)

lemma more_same_recordEvent: "obeys more_same (recordEvent e)"
  by (auto simp: obeys_def more_same_def recordEvent_def)

lemma more_same_insertAttempt: "obeys more_same (insertAttempt row)"
  by (auto simp: obeys_def more_same_def insertAttempt_def)

lemma more_same_createAttempt: "obeys more_same (createAttempt now a l j n)"
  unfolding createAttempt_def
  by (intro more_same.obeys_rules more_same_insertAttempt)

lemma more_same_emitJobEvent: "obeys more_same (emitJobEvent now run ty)"
  unfolding emitJobEvent_def
  by (intro more_same.obeys_rules more_same_createJobEvent more_same_recordEvent)

lemma obeys_ignoring: "obeys R m \<Longrightarrow> obeys R (ignoring m)"
  by (simp add: obeys_def ignoring_def)

section \<open>Operations that keep the semaphore\<close>

definition stays :: "nat \<Rightarrow> 'z runner_state_scheme \<Rightarrow> 'z runner_state_scheme \<Rightarrow> bool" where
  "stays r s t = (run_phase s r = Some Holding \<longrightarrow> sem_of t = sem_of s)"

lemma sem_of_phase: "sem_of t = sem_of s \<Longrightarrow> run_phase t = run_phase s"
  by (simp add: sem_of_def)

interpretation stays: step_relation "stays r" for r
  by unfold_locales (auto simp: stays_def dest: sem_of_phase)

lemma more_same_sem: "more_same s t \<Longrightarrow> sem_of t = sem_of s"
  by (simp add: sem_of_def run_phase_def fun_eq_iff more_same_runner)

lemma stays_more: "obeys more_same m \<Longrightarrow> obeys (stays r) m"
  by (simp add: obeys_def stays_def more_same_sem)

lemma run_phase_set_run:
  "run_phase (set_run r f s) r' =
     (if r' = r then map_option (\<lambda>run. phase_of (rn_pc (f run))) (map_of (local_runs s) r) else run_phase s r')"
  by (auto simp: run_phase_def set_run_def map_of_map_set split: option.splits)

lemma set_run_admission [simp]:
  "admissionActive (set_run r f s) = admissionActive s" "admissionWaiters (set_run r f s) = admissionWaiters s"
  by (auto simp: set_run_def split: option.splits)

lemma sem_of_set_run:
  assumes "\<And>run. phase_of (rn_pc (f run)) = phase_of (rn_pc run)"
  shows "sem_of (set_run r f s) = sem_of s"
  using assms by (auto simp: sem_of_def fun_eq_iff run_phase_set_run) (auto simp: run_phase_def)

lemma sem_of_goto:
  assumes "run_phase s r \<noteq> None"
  shows "sem_of (snd (goto r pc s)) = (sem_of s)\<lparr>sem_phase := (run_phase s)(r \<mapsto> phase_of pc)\<rparr>"
  using assms by (auto simp: goto_def sem_of_def fun_eq_iff run_phase_set_run) (auto simp: run_phase_def)

lemma stays_goto: "phase_of pc = Holding \<Longrightarrow> obeys (stays r) (goto r pc)"
proof (rule obeysI)
  fix s :: "'z runner_state_scheme"
  assume pc: "phase_of pc = Holding"
  show "stays r s (snd (goto r pc s))"
  proof (unfold stays_def, rule impI)
    assume h: "run_phase s r = Some Holding"
    then have "(run_phase s)(r \<mapsto> Holding) = run_phase s" by (simp add: fun_upd_idem)
    with h pc show "sem_of (snd (goto r pc s)) = sem_of s" by (simp add: sem_of_goto) (simp add: sem_of_def)
  qed
qed

lemma stays_set_run: "(\<And>run. rn_pc (f run) = rn_pc run) \<Longrightarrow> obeys (stays r) (modify (set_run r' f))"
  by (rule stays.obeys_modify) (simp add: stays_def sem_of_set_run)

lemma stays_modify: "(\<And>s. sem_of (f s) = sem_of s) \<Longrightarrow> obeys (stays r) (modify f)"
  by (rule stays.obeys_modify) (simp add: stays_def)

lemma sem_of_fields [simp]:
  "sem_of (s\<lparr>pendingCancels := p\<rparr>) = sem_of s" "sem_of (s\<lparr>activeCancels := c\<rparr>) = sem_of s"
  "sem_of (s\<lparr>child_kills := k\<rparr>) = sem_of s" "sem_of (s\<lparr>artifacts := a\<rparr>) = sem_of s"
  "sem_of (s\<lparr>job_attempts := x\<rparr>) = sem_of s"
  by (simp_all add: sem_of_def run_phase_def fun_eq_iff)

lemmas stays_db =
  more_same_transitionJobState [THEN stays_more] more_same_transitionAttemptState [THEN stays_more]
  more_same_emitJobEvent [THEN stays_more] more_same_createAttempt [THEN stays_more]

lemma stays_forget: "obeys (stays r) (forget_cancel j)"
  unfolding forget_cancel_def by (rule stays_modify) simp

lemma stays_kill: "obeys (stays r) (child_kill r')"
  unfolding child_kill_def by (rule stays_modify) simp

lemma stays_throw_cancelled: "obeys (stays r) (throw_cancelled r msg)"
  unfolding throw_cancelled_def by (intro stays.obeys_rules) (simp add: stays_def sem_of_set_run)

lemma stays_insert_artifact: "obeys (stays r) (insert_artifact row)"
  by (auto simp: obeys_def stays_def insert_artifact_def)

named_theorems stays_intros \<open>segments of an activation that keep its slot\<close>

lemmas stays_base = stays.obeys_ret stays.obeys_throw stays.obeys_gets stays.obeys_if stays.obeys_bind
  stays_db stays_goto stays_forget stays_kill stays_throw_cancelled stays_insert_artifact stays_set_run

lemma stays_start_body [stays_intros]: "obeys (stays r) (start_body now r run)"
  unfolding start_body_def by (intro stays_base stays.obeys_option) simp_all

lemma stays_after_manifest [stays_intros]: "obeys (stays r) (after_manifest r snap m)"
  unfolding after_manifest_def by (intro stays_base) simp

lemma stays_after_materialize [stays_intros]: "obeys (stays r) (after_materialize now r run snap m ws proj)"
  unfolding after_materialize_def by (intro stays_base) simp_all

lemma stays_emit_materialized [stays_intros]: "obeys (stays r) (emit_materialized now r run)"
  unfolding emit_materialized_def by (intro stays_base) simp

lemma stays_or_else:
  assumes "obeys (stays r) m" "obeys (stays r) f" "obeys (stays r) g"
  shows "obeys (stays r) (\<lambda>s. case m s of (Inr _, t) \<Rightarrow> f t | (Inl _, t) \<Rightarrow> g t)"
proof (rule obeysI)
  fix s
  obtain x t where m: "m s = (x, t)" by (cases "m s")
  with assms(1) have "stays r s t" by (auto dest: obeysD [where s = s])
  with m assms(2,3) show "stays r s (snd (case m s of (Inr _, t) \<Rightarrow> f t | (Inl _, t) \<Rightarrow> g t))"
    by (cases x) (auto intro: stays.R_trans dest: obeysD [where s = t])
qed

lemma stays_next_warning [stays_intros]: "obeys (stays r) (next_warning now r run ws)"
proof (cases ws)
  case (Cons w rest)
  then show ?thesis
    by (cases w) (auto simp: next_warning_def intro!: stays_or_else stays_db stays_goto stays_emit_materialized)
qed (simp add: next_warning_def stays_emit_materialized)

lemma stays_after_materialized_event [stays_intros]: "obeys (stays r) (after_materialized_event r run)"
  unfolding after_materialized_event_def by (intro stays_base) simp

lemma stays_after_script [stays_intros]: "obeys (stays r) (after_script now r run)"
  unfolding after_script_def by (intro stays_base) simp

lemma stays_next_env_event [stays_intros]: "obeys (stays r) (next_env_event env now r run ks pid)"
  unfolding next_env_event_def by (cases ks) (auto intro!: stays_base)

lemma stays_after_started [stays_intros]: "obeys (stays r) (after_started now r run)"
  unfolding after_started_def by (intro stays_base stays_modify) simp_all

lemma stays_start_collect [stays_intros]: "obeys (stays r) (start_collect now r run res)"
  unfolding start_collect_def by (intro stays_base) simp

lemma rn_pc_completion_flags [simp]: "rn_pc (completion_flags res run) = rn_pc run"
  by (cases res) (simp_all add: completion_flags_def)

lemma stays_after_drain [stays_intros]: "obeys (stays r) (after_drain now r run res)"
  unfolding after_drain_def
  by (rule stays.obeys_bind [OF stays_set_run]) (simp, cases res, auto intro!: stays_base stays_start_collect)

lemma stays_next_artifact_event [stays_intros]: "obeys (stays r) (next_artifact_event now r run res arts todo)"
  unfolding next_artifact_event_def by (cases todo) (auto intro!: stays_base)

lemma stays_next_store [stays_intros]: "obeys (stays r) (next_store now r run res files arts)"
  unfolding next_store_def by (cases files) (auto intro!: stays_base stays_next_artifact_event)

lemma stays_after_store [stays_intros]: "obeys (stays r) (after_store env now r run res files arts i)"
  unfolding after_store_def
  by (cases files) (auto simp: Let_def intro!: stays_base stays_next_artifact_event stays_next_store)

lemma stays_next_skip_event [stays_intros]: "obeys (stays r) (next_skip_event now r run res coll todo)"
  unfolding next_skip_event_def
  by (cases todo) (auto split: option.split intro!: stays_base stays_next_store)

lemma stays_after_collect [stays_intros]: "obeys (stays r) (after_collect now r run res coll)"
  unfolding after_collect_def by (intro stays.obeys_bind stays_modify stays_next_skip_event) simp

lemma stays_finish_body [stays_intros]: "obeys (stays r) (finish_body now r run res arts)"
  unfolding finish_body_def by (intro stays_base) simp

lemma stays_when_ok: "obeys (stays r) m \<Longrightarrow> obeys (stays r) (when_ok inp m)"
  by (cases inp) (simp_all add: when_ok_def stays.obeys_ret stays.obeys_throw)

section \<open>Leaving an activation releases its slot\<close>

definition slot_kept :: "int \<Rightarrow> nat \<Rightarrow> 'z runner_state_scheme \<Rightarrow> 'z runner_state_scheme \<Rightarrow> bool" where
  "slot_kept limit r s t =
     (sem_inv limit (sem_of s) \<and> run_phase s r = Some Holding \<longrightarrow>
        sem_of t = sem_of s \<or> sem_of t = sem_leave r (sem_of s))"

lemma slot_kept_stays: "stays r s t \<Longrightarrow> slot_kept limit r s t"
  by (simp add: slot_kept_def stays_def)

lemma slot_kept_obeys: "obeys (stays r) m \<Longrightarrow> obeys (slot_kept limit r) m"
  by (simp add: obeys_def slot_kept_stays)

lemma slot_kept_bind:
  assumes m: "obeys (stays r) m" and f: "\<And>a. obeys (slot_kept limit r) (f a)"
  shows "obeys (slot_kept limit r) (bind m f)"
proof (rule obeysI)
  fix s
  obtain x t where mx: "m s = (x, t)" by (cases "m s")
  with m have st: "stays r s t" by (auto dest: obeysD [where s = s])
  show "slot_kept limit r s (snd (bind m f s))"
  proof (cases x)
    case (Inl e)
    with mx st show ?thesis by (simp add: bind_apply slot_kept_stays)
  next
    case (Inr a)
    with mx obeysD [OF f, of t a] st show ?thesis
      by (auto simp: bind_apply slot_kept_def stays_def dest: sem_of_phase)
  qed
qed

lemma releaseAdmission_sem:
  assumes inv: "sem_inv limit (sem_of s)" and h: "run_phase s r = Some Holding" and pc: "phase_of pc = Gone"
  shows "sem_of (snd (bind (goto r pc) (\<lambda>_. releaseAdmission) s)) = sem_leave r (sem_of s)"
proof -
  let ?u = "set_run r (\<lambda>run. run\<lparr>rn_pc := pc\<rparr>) s"
  let ?t = "?u\<lparr>admissionActive := max 0 (admissionActive s - 1)\<rparr>"
  have phase: "run_phase ?t = (run_phase s)(r \<mapsto> Gone)"
    using h pc run_phase_set_run [of r "\<lambda>run. run\<lparr>rn_pc := pc\<rparr>" s]
    by (auto simp: fun_eq_iff run_phase_def)
  show ?thesis
  proof (cases "admissionWaiters s")
    case Nil
    with phase show ?thesis
      by (simp add: goto_def releaseAdmission_def Let_def sem_of_def sem_leave_def)
  next
    case (Cons w ws)
    then have "run_phase s w = Some Sleeping"
      using inv by (auto simp: sem_inv_def sem_of_def in_phase_def)
    with h have "w \<noteq> r" "run_phase ?t w \<noteq> None" using phase by auto
    then have "run_phase (?t\<lparr>admissionWaiters := ws\<rparr>) w \<noteq> None" by (simp add: run_phase_def)
    from sem_of_goto [OF this, of Pc_woken] Cons phase show ?thesis
      by (simp add: goto_def releaseAdmission_def Let_def sem_of_def sem_leave_def)
        (simp add: run_phase_def fun_eq_iff)
  qed
qed

lemma slot_kept_release: "phase_of pc = Gone \<Longrightarrow> obeys (slot_kept limit r) (bind (goto r pc) (\<lambda>_. releaseAdmission))"
  unfolding obeys_def slot_kept_def using releaseAdmission_sem by blast

lemma slot_kept_if:
  "obeys (slot_kept limit r) m \<Longrightarrow> obeys (slot_kept limit r) n \<Longrightarrow> obeys (slot_kept limit r) (if b then m else n)"
  by simp

lemma slot_kept_run_finally: "obeys (slot_kept limit r) (run_finally r run)"
  unfolding run_finally_def
  by (intro slot_kept_bind slot_kept_release stays_modify stays_forget) simp_all

lemma slot_kept_enter_finally: "obeys (slot_kept limit r) (enter_finally r run)"
  unfolding enter_finally_def
  by (auto intro!: slot_kept_run_finally slot_kept_obeys [OF stays_goto])

lemma slot_kept_leave_with: "obeys (slot_kept limit r) (leave_with r run e)"
  unfolding leave_with_def by (intro slot_kept_bind slot_kept_enter_finally stays_set_run) simp

lemma slot_kept_after_error_event: "obeys (slot_kept limit r) (after_error_event r run)"
  unfolding after_error_event_def by (intro slot_kept_bind slot_kept_enter_finally stays_set_run) simp

lemma slot_kept_leave_early: "obeys (slot_kept limit r) (leave_early r run)"
proof (rule obeysI)
  fix s :: "'z runner_state_scheme"
  obtain x t where st: "bind (goto r Pc_done) (\<lambda>_. releaseAdmission) s = (x, t)" by fastforce
  have "slot_kept limit r s t" using obeysD [OF slot_kept_release [of Pc_done limit r], of s] st by simp
  moreover have "sem_of (snd (leave_early r run s)) = sem_of t"
    using st by (auto simp: leave_early_def bind_apply forget_cancel_def split: prod.splits sum.splits)
  ultimately show "slot_kept limit r s (snd (leave_early r run s))" by (simp add: slot_kept_def)
qed

lemma slot_kept_admitted_body: "obeys (slot_kept limit r) (admitted_body now a l r run)"
proof -
  have end': "obeys (stays r) (if b then ret () else bind (transitionJobState now j st fs) (\<lambda>_. ret ()))" for b j st fs
    by (intro stays_base)
  have dirs: "obeys (slot_kept limit r) (goto r Pc_dirs)" by (rule slot_kept_obeys [OF stays_goto]) simp
  have set_id: "obeys (stays r) (modify (set_run r (\<lambda>run. run\<lparr>rn_attemptId := i\<rparr>)))" for i
    by (rule stays_set_run) simp
  show ?thesis
    unfolding admitted_body_def
    by (intro slot_kept_bind slot_kept_if slot_kept_leave_early dirs set_id end' stays_db stays.obeys_gets)
qed

lemma stays_catch_body: "obeys (stays r) (catch_body now run e)"
  unfolding catch_body_def Let_def
  by (intro stays_base obeys_ignoring)

lemma slot_kept_run_catch: "obeys (slot_kept limit r) (run_catch now r run e)"
proof (rule obeysI)
  fix s :: "'z runner_state_scheme"
  obtain x t where c: "catch_body now run e s = (x, t)" by fastforce
  have st: "stays r s t" using obeysD [OF stays_catch_body, of r s now run e] c by simp
  have err: "obeys (stays r) (bind (modify (set_run r (\<lambda>run. run\<lparr>rn_thrown := Some e\<rparr>))) (\<lambda>_. goto r Pc_error_event))"
    by (intro stays_base) simp_all
  show "slot_kept limit r s (snd (run_catch now r run e s))"
  proof (cases x)
    case (Inl e')
    with c obeysD [OF slot_kept_leave_with, of limit r t run e'] st show ?thesis
      by (auto simp: run_catch_def slot_kept_def stays_def dest: sem_of_phase)
  next
    case (Inr u)
    with c obeysD [OF err, of t] st show ?thesis
      by (auto simp: run_catch_def slot_kept_def stays_def dest: sem_of_phase)
  qed
qed

lemma slot_kept_caught:
  assumes "obeys (stays r) m"
  shows "obeys (slot_kept limit r) (caught now r m)"
proof (rule obeysI)
  fix s
  obtain x t where m: "m s = (x, t)" by fastforce
  with assms have st: "stays r s t" by (auto dest: obeysD [where s = s])
  show "slot_kept limit r s (snd (caught now r m s))"
  proof (cases x)
    case (Inl e)
    with m st obeysD [OF slot_kept_run_catch, of limit r t now "the (map_of (local_runs t) r)" e] show ?thesis
      by (auto simp: caught_def slot_kept_def stays_def dest: sem_of_phase split: option.split)
  next
    case (Inr u)
    with m st show ?thesis by (simp add: caught_def slot_kept_stays)
  qed
qed

lemma slot_kept_uncaught:
  assumes "obeys (slot_kept limit r) m" and "\<And>s e t. m s = (Inl e, t) \<Longrightarrow> stays r s t"
  shows "obeys (slot_kept limit r) (uncaught r m)"
proof (rule obeysI)
  fix s
  obtain x t where m: "m s = (x, t)" by fastforce
  have crash: "obeys (stays r) (bind (modify (set_run r (\<lambda>run. run\<lparr>rn_thrown := Some e\<rparr>))) (\<lambda>_. goto r Pc_crashed))" for e
    by (intro stays_base) simp_all
  show "slot_kept limit r s (snd (uncaught r m s))"
  proof (cases x)
    case (Inl e)
    with m assms(2) have "stays r s t" by blast
    with m Inl obeysD [OF crash, of t e] show ?thesis
      by (auto simp: uncaught_def intro!: slot_kept_stays intro: stays.R_trans)
  next
    case (Inr u)
    with m obeysD [OF assms(1), of s] show ?thesis by (simp add: uncaught_def)
  qed
qed

definition throws_stay :: "nat \<Rightarrow> ('z runner_state_scheme, 'a) rbo \<Rightarrow> bool" where
  "throws_stay r m = (\<forall>s e t. m s = (Inl e, t) \<longrightarrow> stays r s t)"

lemma throws_stay_bind:
  assumes m: "obeys (stays r) m" and f: "\<And>a. throws_stay r (f a)"
  shows "throws_stay r (bind m f)"
proof (unfold throws_stay_def, intro allI impI)
  fix s e u
  assume b: "bind m f s = (Inl e, u)"
  obtain x t where mx: "m s = (x, t)" by fastforce
  with m have st: "stays r s t" by (auto dest: obeysD [where s = s])
  show "stays r s u"
  proof (cases x)
    case (Inl e')
    with mx b st show ?thesis by (simp add: bind_apply)
  next
    case (Inr a)
    with mx b have "f a t = (Inl e, u)" by (simp add: bind_apply)
    with f st show ?thesis unfolding throws_stay_def by (blast intro: stays.R_trans)
  qed
qed

lemma throws_stay_obeys: "obeys (stays r) m \<Longrightarrow> throws_stay r m"
  unfolding throws_stay_def by (metis obeysD snd_conv)

lemma throws_stay_leave_early: "throws_stay r (leave_early r run)"
  by (auto simp: throws_stay_def leave_early_def goto_def releaseAdmission_def Let_def bind_apply forget_cancel_def
      split: list.splits)

lemma throws_stay_if: "throws_stay r m \<Longrightarrow> throws_stay r n \<Longrightarrow> throws_stay r (if b then m else n)"
  by simp

lemma throws_stay_admitted_body: "throws_stay r (admitted_body now a l r run)"
proof -
  have end': "obeys (stays r) (if b then ret () else bind (transitionJobState now j st fs) (\<lambda>_. ret ()))" for b j st fs
    by (intro stays_base)
  have dirs: "throws_stay r (goto r Pc_dirs)" by (rule throws_stay_obeys [OF stays_goto]) simp
  have set_id: "obeys (stays r) (modify (set_run r (\<lambda>run. run\<lparr>rn_attemptId := i\<rparr>)))" for i
    by (rule stays_set_run) simp
  show ?thesis
    unfolding admitted_body_def
    by (intro throws_stay_bind throws_stay_if throws_stay_leave_early dirs set_id end' stays_db stays.obeys_gets)
qed

lemma throws_stay_slot: "obeys (slot_kept limit r) m \<Longrightarrow> throws_stay r m \<Longrightarrow> obeys (slot_kept limit r) (uncaught r m)"
  by (rule slot_kept_uncaught) (auto simp: throws_stay_def)

text \<open>Only the last suspension point of the \<open>try\<close> block can leave without an exception.\<close>

lemma stays_continuation: "pc \<noteq> Pc_final_event \<Longrightarrow> obeys (stays r) (continuation env now r run pc inp)"
  by (cases pc; simp add: continuation_def)
    (auto intro!: stays_when_ok stays_intros stays_goto stays.obeys_ret stays.obeys_throw split: awaited.split)

lemma slot_kept_final:
  "obeys (slot_kept limit r) (caught now r (continuation env now r run Pc_final_event inp) :: ('z runner_state_scheme, unit) rbo)"
proof (cases "inp = Aw_ok")
  case True
  have ok: "fst (enter_finally r run s) = Inr ()" for s :: "'z runner_state_scheme"
    by (auto simp: enter_finally_def run_finally_def goto_def releaseAdmission_def Let_def bind_apply forget_cancel_def
        split: list.splits)
  have "caught now r (continuation env now r run Pc_final_event inp) = (enter_finally r run :: ('z runner_state_scheme, unit) rbo)"
  proof
    fix s :: "'z runner_state_scheme"
    obtain t where "enter_finally r run s = (Inr (), t)" using ok [of s] by (cases "enter_finally r run s") auto
    with True show "caught now r (continuation env now r run Pc_final_event inp) s = enter_finally r run s"
      by (simp add: caught_def continuation_def when_ok_def)
  qed
  then show ?thesis by (simp add: slot_kept_enter_finally)
next
  case False
  then have "obeys (stays r) (continuation env now r run Pc_final_event inp)"
    by (cases inp) (auto simp: continuation_def when_ok_def intro: stays.obeys_ret stays.obeys_throw)
  then show ?thesis by (rule slot_kept_caught)
qed

lemma acquireAdmission_sem:
  assumes "map_of (local_runs s) r \<noteq> None"
  shows "sem_of (snd (acquireAdmission env r s)) = sem_enter (maxConcurrent env) r (sem_of s)"
proof -
  have "run_phase (s\<lparr>admissionWaiters := w\<rparr>) r \<noteq> None" "run_phase (s\<lparr>admissionActive := n\<rparr>) r \<noteq> None" for w n
    using assms by (simp_all add: run_phase_def)
  from sem_of_goto [OF this(1)] sem_of_goto [OF this(2)] show ?thesis
    by (auto simp: acquireAdmission_def sem_enter_def sem_of_def) (auto simp: run_phase_def fun_eq_iff)
qed

lemma after_cleanup_sem:
  fixes s :: "'a runner_state_scheme"
  assumes gone: "run_phase s r = Some Gone"
  shows "sem_of (snd (after_cleanup now r run c b s)) = sem_of s"
proof -
  define m where "m = (if c \<noteq> Some 0 \<or> b then ignoring (emitJobEvent now run
      (Cleanup_error c b (if b then ''Cleanup script timed out'' else ''Cleanup script exited with code '' @ show_exit c)))
      else (ret () :: ('a runner_state_scheme, unit) rbo))"
  have same: "obeys more_same m"
    unfolding m_def by (intro more_same.obeys_rules obeys_ignoring more_same_emitJobEvent)
  obtain x t where mt: "m s = (x, t)" by fastforce
  have "more_same s t" using obeysD [OF same, of s] mt by simp
  then have t: "sem_of t = sem_of s" by (rule more_same_sem)
  have p: "run_phase t r = Some Gone" using sem_of_phase [OF t] gone by simp
  have "(run_phase t)(r \<mapsto> Gone) = run_phase t" using p by (simp add: fun_upd_idem)
  with p t have g: "sem_of (snd (goto r Pc_done t)) = sem_of s" by (simp add: sem_of_goto) (simp add: sem_of_def)
  have "after_cleanup now r run c b s = (case x of Inl e \<Rightarrow> (Inl e, t) | Inr _ \<Rightarrow> goto r Pc_done t)"
    using mt unfolding after_cleanup_def m_def [symmetric] by (simp add: bind_apply split: sum.split)
  with g t show ?thesis by (cases x) simp_all
qed

lemma local_step_sem:
  fixes s :: "'a runner_state_scheme"
  assumes inv: "sem_inv (maxConcurrent env) (sem_of s)"
  shows "sem_of (snd (local_step env now r inp s)) = sem_of s \<or>
         sem_step (maxConcurrent env) (sem_of s) (sem_of (snd (local_step env now r inp s)))"
proof (cases "map_of (local_runs s) r")
  case None
  then show ?thesis by (simp add: local_step_def)
next
  case (Some run)
  have kept: "slot_kept (maxConcurrent env) r s t \<Longrightarrow> phase_of (rn_pc run) = Holding \<Longrightarrow>
      sem_of t = sem_of s \<or> sem_step (maxConcurrent env) (sem_of s) (sem_of t)" for t
    using inv Some sem_release [of "sem_of s" r "maxConcurrent env"]
    by (auto simp: slot_kept_def sem_of_def run_phase_def)
  have goal: "obeys (slot_kept (maxConcurrent env) r) m \<Longrightarrow> phase_of (rn_pc run) = Holding \<Longrightarrow>
      sem_of (snd (m s)) = sem_of s \<or> sem_step (maxConcurrent env) (sem_of s) (sem_of (snd (m s)))" for m :: "('a runner_state_scheme, unit) rbo"
    by (rule kept) (simp add: obeys_def)
  show ?thesis
  proof (cases "rn_pc run")
    case Pc_waiting
    with Some show ?thesis by (simp add: local_step_def)
  next
    case Pc_woken
    with Some acquireAdmission_sem [of s r env] sem_retry [of "sem_of s" r "maxConcurrent env"] show ?thesis
      by (simp add: local_step_def sem_of_def run_phase_def)
  next
    case Pc_admitted
    have "obeys (slot_kept (maxConcurrent env) r) (uncaught r (admitted_body now a l r run))" for a l
      by (intro throws_stay_slot slot_kept_admitted_body throws_stay_admitted_body)
    from goal [OF this] Pc_admitted Some show ?thesis by (cases inp) (simp_all add: local_step_def)
  next
    case Pc_dirs
    have "obeys (slot_kept (maxConcurrent env) r) (uncaught r (throw e))" for e
      by (intro throws_stay_slot slot_kept_obeys throws_stay_obeys stays.obeys_throw)
    note 1 = goal [OF this]
    note 2 = goal [OF slot_kept_caught [OF stays_start_body], of now now run]
    from 1 2 Pc_dirs Some show ?thesis by (cases inp) (simp_all add: local_step_def)
  next
    case Pc_error_event
    from goal [OF slot_kept_after_error_event, of run] Pc_error_event Some show ?thesis by (simp add: local_step_def)
  next
    case Pc_inflight
    from goal [OF slot_kept_run_finally, of run] Pc_inflight Some show ?thesis by (simp add: local_step_def)
  next
    case Pc_cleanup
    have "run_phase s r = Some Gone" using Pc_cleanup Some by (simp add: run_phase_def)
    note after_cleanup_sem [OF this]
    with Pc_cleanup Some show ?thesis by (cases inp) (simp_all add: local_step_def)
  next
    case Pc_final_event
    from goal [OF slot_kept_final, of now env run inp] Pc_final_event Some show ?thesis by (simp add: local_step_def)
  next
    case Pc_done
    with Some show ?thesis by (simp add: local_step_def)
  next
    case Pc_crashed
    with Some show ?thesis by (simp add: local_step_def)
  qed (use goal [OF slot_kept_caught [OF stays_continuation], of "rn_pc run" now env now run inp] Some in
       \<open>simp_all add: local_step_def\<close>)
qed

section \<open>The runner among the other handlers\<close>

text \<open>
  \<open>runner_step\<close>: a job starts, an activation is resumed with some outcome, a cancel request arrives, a
  log chunk is queued or written, or any other part of the Controller runs, which cannot touch the
  runner's variables.
\<close>

definition runner_same :: "'z runner_state_scheme \<Rightarrow> 'z runner_state_scheme \<Rightarrow> bool" where
  "runner_same s t =
     (activeCancels t = activeCancels s \<and> pendingCancels t = pendingCancels s \<and> admissionActive t = admissionActive s \<and>
      admissionWaiters t = admissionWaiters s \<and> local_runs t = local_runs s)"

inductive runner_step :: "runner_env \<Rightarrow> 'z runner_state_scheme \<Rightarrow> 'z runner_state_scheme \<Rightarrow> bool" for env where
  step_start: "map_of (local_runs s) r = None \<Longrightarrow> runner_step env s (snd (runLocalJob env r j s))"
| step_resume: "runner_step env s (snd (local_step env now r inp s))"
| step_cancel: "runner_step env s (snd (requestJobCancel now j s))"
| step_log: "runner_step env s (snd (enqueueLocalLog r stream chunk s))"
| step_write: "runner_step env s (snd (local_log_write okay r s))"
| step_other: "runner_same s t \<Longrightarrow> runner_step env s t"

lemma runLocalJob_sem:
  assumes new: "map_of (local_runs s) r = None"
  shows "sem_of (snd (runLocalJob env r j s)) = sem_of s \<or>
         sem_step (maxConcurrent env) (sem_of s) (sem_of (snd (runLocalJob env r j s)))"
proof -
  have enter: "sem_of (snd (acquireAdmission env r (s\<lparr>local_runs := map_set r (fresh_run j q) (local_runs s)\<rparr>)))
      = sem_enter (maxConcurrent env) r (sem_of s)" for q
  proof -
    let ?s = "s\<lparr>local_runs := map_set r (fresh_run j q) (local_runs s)\<rparr>"
    have "sem_of ?s = (sem_of s)\<lparr>sem_phase := (run_phase s)(r \<mapsto> Awake)\<rparr>"
      by (auto simp: sem_of_def run_phase_def fun_eq_iff map_of_map_set fresh_run_def)
    moreover have "map_of (local_runs ?s) r \<noteq> None" by (simp add: map_of_map_set)
    ultimately show ?thesis using acquireAdmission_sem [of ?s r env] by (simp add: sem_enter_def sem_of_def)
  qed
  have "sem_phase (sem_of s) r = None" using new by (simp add: sem_of_def run_phase_def)
  from sem_arrive [OF this, of "maxConcurrent env"] show ?thesis
    by (auto simp: runLocalJob_def forget_cancel_def enter split: option.splits)
qed

definition sem_same :: "'z runner_state_scheme \<Rightarrow> 'z runner_state_scheme \<Rightarrow> bool" where
  "sem_same s t = (sem_of t = sem_of s)"

interpretation sem_same: step_relation sem_same
  by unfold_locales (auto simp: sem_same_def)

lemma sem_same_more: "obeys more_same m \<Longrightarrow> obeys sem_same m"
  by (simp add: obeys_def sem_same_def more_same_sem)

lemma sem_same_requestJobCancel: "obeys sem_same (requestJobCancel now j)"
  unfolding requestJobCancel_def cancel_closure_def child_kill_def
  by (intro sem_same.obeys_rules sem_same_more [OF more_same_transitionJobState]
        sem_same_more [OF more_same_transitionAttemptState])
    (simp_all add: sem_same_def sem_of_set_run)

lemma requestJobCancel_sem: "sem_of (snd (requestJobCancel now j s)) = sem_of s"
  using obeysD [OF sem_same_requestJobCancel, of s] by (simp add: sem_same_def)

lemma enqueueLocalLog_sem: "sem_of (snd (enqueueLocalLog r stream chunk s)) = sem_of s"
  by (simp add: enqueueLocalLog_def sem_of_set_run)

lemma local_log_write_sem: "sem_of (snd (local_log_write okay r s)) = sem_of s"
proof -
  have "sem_of (snd (persistAndPublishLogChunk okay a st c q s)) = sem_of s" for a st c q
    by (auto simp: persistAndPublishLogChunk_def sem_of_def run_phase_def fun_eq_iff split: prod.splits sum.splits)
  then show ?thesis
    by (auto simp: local_log_write_def ignoring_def bind_apply sem_of_set_run split: option.splits list.splits)
qed

lemma runner_step_sem:
  "runner_step env s t \<Longrightarrow> sem_inv (maxConcurrent env) (sem_of s) \<Longrightarrow>
     sem_of t = sem_of s \<or> sem_step (maxConcurrent env) (sem_of s) (sem_of t)"
proof (induction rule: runner_step.induct)
  case (step_other s t)
  then show ?case by (simp add: runner_same_def sem_of_def run_phase_def fun_eq_iff)
qed (simp_all add: runLocalJob_sem local_step_sem requestJobCancel_sem enqueueLocalLog_sem local_log_write_sem)

lemma runner_inv:
  assumes steps: "(runner_step env)\<^sup>*\<^sup>* s t" and inv: "sem_inv (maxConcurrent env) (sem_of s)"
  shows "sem_inv (maxConcurrent env) (sem_of t)"
  using steps
proof (induction rule: rtranclp_induct)
  case (step t u)
  with runner_step_sem [of env t u] show ?case by (auto dest: sem_step_inv)
qed (rule inv)

end
