(* ===== verification/Local_Runner_Safety.thy ===== *)
theory Local_Runner_Safety
  imports Local_Runner_Laws Remote_Lifecycle
begin

text \<open>
  What the local runner guarantees: the bound on concurrently running jobs and that no free slot is
  forgotten, that every admitted activation comes to rest, how it settles its attempt and its job, and
  what an exception before the \<open>try\<close> block leaves behind.
\<close>

section \<open>The termination measure of an activation\<close>

fun pc_rank :: "run_pc \<Rightarrow> nat \<times> nat" where
  "pc_rank Pc_waiting = (40, 0)"
| "pc_rank Pc_woken = (40, 0)"
| "pc_rank Pc_admitted = (30, 0)"
| "pc_rank Pc_dirs = (29, 0)"
| "pc_rank (Pc_manifest _) = (28, 0)"
| "pc_rank (Pc_materialize _ _) = (27, 0)"
| "pc_rank Pc_captured_event = (26, 0)"
| "pc_rank Pc_warnings = (25, 0)"
| "pc_rank (Pc_warning_event rest) = (24, length rest)"
| "pc_rank Pc_materialized_event = (23, 0)"
| "pc_rank Pc_script = (22, 0)"
| "pc_rank Pc_cwd = (21, 0)"
| "pc_rank (Pc_env_event rest _) = (20, length rest)"
| "pc_rank Pc_started_event = (19, 0)"
| "pc_rank Pc_cancel_kill = (18, 0)"
| "pc_rank Pc_completion = (17, 0)"
| "pc_rank (Pc_drain _ _) = (16, 0)"
| "pc_rank (Pc_kill _) = (15, 0)"
| "pc_rank (Pc_collect _) = (14, 0)"
| "pc_rank (Pc_skip_event _ _ rest) = (13, length rest)"
| "pc_rank (Pc_limit_event _) = (12, 0)"
| "pc_rank (Pc_store _ files _) = (11, length files)"
| "pc_rank (Pc_artifact_event _ _ rest) = (10, length rest)"
| "pc_rank (Pc_remove _ _) = (9, 0)"
| "pc_rank Pc_final_event = (8, 0)"
| "pc_rank Pc_error_event = (7, 0)"
| "pc_rank Pc_inflight = (6, 0)"
| "pc_rank Pc_cleanup = (5, 0)"
| "pc_rank Pc_done = (0, 0)"
| "pc_rank Pc_crashed = (0, 0)"

definition pc_less :: "(run_pc \<times> run_pc) set" where
  "pc_less = inv_image (less_than <*lex*> less_than) pc_rank"

lemma wf_pc_less: "wf pc_less"
  by (auto simp: pc_less_def)

definition below :: "run_pc \<Rightarrow> run_pc set" where
  "below pc = {pc'. (pc', pc) \<in> pc_less}"

lemma below_iff [simp]: "pc' \<in> below pc \<longleftrightarrow>
    fst (pc_rank pc') < fst (pc_rank pc) \<or> fst (pc_rank pc') = fst (pc_rank pc) \<and> snd (pc_rank pc') < snd (pc_rank pc)"
  by (cases "pc_rank pc'"; cases "pc_rank pc") (auto simp: below_def pc_less_def)

text \<open>
  \<open>descends r L\<close>: activation \<open>r\<close>, unless it sleeps in the admission queue, stays where it is suspended
  or goes to a suspension point of \<open>L\<close>.
\<close>

definition descends :: "nat \<Rightarrow> run_pc set \<Rightarrow> 'z runner_state_scheme \<Rightarrow> 'z runner_state_scheme \<Rightarrow> bool" where
  "descends r L s t =
     (r \<notin> set (admissionWaiters s) \<longrightarrow>
        r \<notin> set (admissionWaiters t) \<and>
        (\<forall>run. map_of (local_runs s) r = Some run \<longrightarrow>
           (\<exists>run'. map_of (local_runs t) r = Some run' \<and> (rn_pc run' = rn_pc run \<or> rn_pc run' \<in> L))))"

interpretation descends: step_relation "descends r L" for r L
proof unfold_locales
  fix s t u :: "'a runner_state_scheme"
  assume "descends r L s t" "descends r L t u"
  then show "descends r L s u" unfolding descends_def by metis
qed (simp add: descends_def)

lemma descends_more: "obeys more_same m \<Longrightarrow> obeys (descends r L) m"
proof (rule obeysI)
  fix s
  assume "obeys more_same m"
  then have same: "more_same s (snd (m s))" by (rule obeysD)
  show "descends r L s (snd (m s))" by (simp add: descends_def more_same_runner [OF same])
qed

lemmas descends_db =
  more_same_transitionJobState [THEN descends_more] more_same_transitionAttemptState [THEN descends_more]
  more_same_emitJobEvent [THEN descends_more] more_same_createAttempt [THEN descends_more]

lemma descends_set_run:
  "(\<And>run. rn_pc (f run) = rn_pc run) \<Longrightarrow> obeys (descends r L) (modify (set_run q f))"
  by (auto simp: obeys_def descends_def set_run_def map_of_map_set split: option.splits)

lemma descends_goto: "(q = r \<Longrightarrow> pc \<in> L) \<Longrightarrow> obeys (descends r L) (goto q pc)"
  by (auto simp: obeys_def descends_def goto_def set_run_def map_of_map_set split: option.splits)

lemma descends_modify:
  "(\<And>s. admissionWaiters (f s) = admissionWaiters s \<and> local_runs (f s) = local_runs s) \<Longrightarrow> obeys (descends r L) (modify f)"
  by (simp add: obeys_def descends_def)

lemma descends_release: "obeys (descends r L) releaseAdmission"
  by (auto simp: obeys_def descends_def releaseAdmission_def Let_def goto_def set_run_def map_of_map_set
      split: list.splits option.splits)

lemma descends_forget: "obeys (descends r L) (forget_cancel j)"
  unfolding forget_cancel_def by (rule descends_modify) simp

lemma descends_kill: "obeys (descends r L) (child_kill q)"
  unfolding child_kill_def by (rule descends_modify) simp

lemma descends_throw_cancelled: "obeys (descends r L) (throw_cancelled q msg)"
  unfolding throw_cancelled_def by (intro descends.obeys_bind descends_set_run descends.obeys_throw) simp

lemma descends_insert_artifact: "obeys (descends r L) (insert_artifact row)"
  by (auto simp: obeys_def descends_def insert_artifact_def)

lemma descends_or_else:
  assumes "obeys (descends r L) m" "\<And>u. obeys (descends r L) (f u)" "\<And>e. obeys (descends r L) (g e)"
  shows "obeys (descends r L) (\<lambda>s. case m s of (Inr u, t) \<Rightarrow> f u t | (Inl e, t) \<Rightarrow> g e t)"
proof (rule obeysI)
  fix s
  obtain x t where m: "m s = (x, t)" by (cases "m s")
  with assms(1) have "descends r L s t" by (auto dest: obeysD [where s = s])
  with m assms(2,3) show "descends r L s (snd (case m s of (Inr u, t) \<Rightarrow> f u t | (Inl e, t) \<Rightarrow> g e t))"
    by (cases x) (auto intro: descends.R_trans dest: obeysD [where s = t])
qed

lemmas descends_base = descends.obeys_ret descends.obeys_throw descends.obeys_gets descends.obeys_if descends.obeys_bind
  descends_db descends_goto descends_forget descends_kill descends_throw_cancelled descends_insert_artifact
  descends_set_run descends_release

section \<open>Every segment descends\<close>

lemma descends_run_finally: "(q = r \<Longrightarrow> below Pc_inflight \<subseteq> L) \<Longrightarrow> obeys (descends r L) (run_finally q run)"
  unfolding run_finally_def by (intro descends_base descends_modify) auto

lemma descends_enter_finally: "(q = r \<Longrightarrow> below Pc_error_event \<subseteq> L) \<Longrightarrow> obeys (descends r L) (enter_finally q run)"
  unfolding enter_finally_def by (intro descends_base descends_run_finally) auto

lemma descends_leave_with: "(q = r \<Longrightarrow> below Pc_error_event \<subseteq> L) \<Longrightarrow> obeys (descends r L) (leave_with q run e)"
  unfolding leave_with_def by (intro descends.obeys_bind descends_set_run descends_enter_finally) auto

lemma descends_after_error_event: "(q = r \<Longrightarrow> below Pc_error_event \<subseteq> L) \<Longrightarrow> obeys (descends r L) (after_error_event q run)"
  unfolding after_error_event_def by (intro descends.obeys_bind descends_set_run descends_enter_finally) auto

lemma descends_catch_body: "obeys (descends r L) (catch_body now run e)"
  unfolding catch_body_def Let_def by (intro descends_base obeys_ignoring)

lemma descends_run_catch:
  assumes "q = r \<Longrightarrow> below Pc_final_event \<subseteq> L"
  shows "obeys (descends r L) (run_catch now q run e)"
proof -
  have err: "obeys (descends r L) (bind (modify (set_run q (\<lambda>run. run\<lparr>rn_thrown := Some e\<rparr>))) (\<lambda>_. goto q Pc_error_event))"
    using assms by (intro descends.obeys_bind descends_set_run descends_goto) auto
  have "q = r \<Longrightarrow> below Pc_error_event \<subseteq> L" using assms by (auto simp: subset_iff)
  then have "obeys (descends r L) (leave_with q run e')" for e' by (rule descends_leave_with)
  with err show ?thesis unfolding run_catch_def by (intro descends_or_else descends_catch_body)
qed

lemma descends_caught:
  assumes "obeys (descends r L) m" "q = r \<Longrightarrow> below Pc_final_event \<subseteq> L"
  shows "obeys (descends r L) (caught now q m)"
proof -
  have "obeys (descends r L) (\<lambda>t. case map_of (local_runs t) q of None \<Rightarrow> (Inr (), t) | Some run \<Rightarrow> run_catch now q run e t)" for e
    using obeysD [OF descends_run_catch [OF assms(2)]] by (auto simp: obeys_def descends.R_refl split: option.split)
  with assms(1) show ?thesis unfolding caught_def
    by (intro descends_or_else) (auto simp: obeys_def descends.R_refl)
qed

lemma descends_uncaught:
  assumes "obeys (descends r L) m" "q = r \<Longrightarrow> Pc_crashed \<in> L"
  shows "obeys (descends r L) (uncaught q m)"
proof -
  have "obeys (descends r L) (bind (modify (set_run q (\<lambda>run. run\<lparr>rn_thrown := Some e\<rparr>))) (\<lambda>_. goto q Pc_crashed))" for e
    using assms(2) by (intro descends.obeys_bind descends_set_run descends_goto) auto
  with assms(1) show ?thesis unfolding uncaught_def
    by (intro descends_or_else) (auto simp: obeys_def descends.R_refl)
qed

lemma descends_leave_early: "(q = r \<Longrightarrow> below Pc_admitted \<subseteq> L) \<Longrightarrow> obeys (descends r L) (leave_early q run)"
  unfolding leave_early_def by (intro descends_base) auto

lemma descends_admitted_body:
  "(q = r \<Longrightarrow> below Pc_admitted \<subseteq> L) \<Longrightarrow> obeys (descends r L) (admitted_body now a l q run)"
  unfolding admitted_body_def by (intro descends_base descends_leave_early) auto

lemma descends_start_body: "(q = r \<Longrightarrow> below Pc_dirs \<subseteq> L) \<Longrightarrow> obeys (descends r L) (start_body now q run)"
  unfolding start_body_def by (intro descends_base descends.obeys_option) auto

lemma descends_after_manifest:
  "(q = r \<Longrightarrow> below (Pc_manifest snap) \<subseteq> L) \<Longrightarrow> obeys (descends r L) (after_manifest q snap m)"
  unfolding after_manifest_def by (intro descends_base) auto

lemma descends_after_materialize:
  "(q = r \<Longrightarrow> below (Pc_materialize snap m) \<subseteq> L) \<Longrightarrow> obeys (descends r L) (after_materialize now q run snap m ws proj)"
  unfolding after_materialize_def by (intro descends_base) auto

lemma descends_emit_materialized:
  "(q = r \<Longrightarrow> below (Pc_warning_event []) \<subseteq> L) \<Longrightarrow> obeys (descends r L) (emit_materialized now q run)"
  unfolding emit_materialized_def by (intro descends_base) auto

lemma descends_next_warning:
  assumes "q = r \<Longrightarrow> below (Pc_warning_event ws) \<subseteq> L"
  shows "obeys (descends r L) (next_warning now q run ws)"
proof -
  have "q = r \<Longrightarrow> below (Pc_warning_event []) \<subseteq> L" using assms by (auto simp: subset_iff)
  then have emit: "obeys (descends r L) (emit_materialized now q run)" by (rule descends_emit_materialized)
  show ?thesis
  proof (cases ws)
    case (Cons w rest)
    with assms emit show ?thesis
      by (cases w) (auto simp: next_warning_def subset_iff intro!: descends_or_else descends_db descends_goto)
  qed (simp add: next_warning_def emit)
qed

lemma descends_after_materialized_event:
  "(q = r \<Longrightarrow> below Pc_materialized_event \<subseteq> L) \<Longrightarrow> obeys (descends r L) (after_materialized_event q run)"
  unfolding after_materialized_event_def by (intro descends_base) auto

lemma descends_after_script: "(q = r \<Longrightarrow> below Pc_script \<subseteq> L) \<Longrightarrow> obeys (descends r L) (after_script now q run)"
  unfolding after_script_def by (intro descends_base) auto

lemma descends_next_env_event:
  "(q = r \<Longrightarrow> below (Pc_env_event ks pid) \<subseteq> L) \<Longrightarrow> obeys (descends r L) (next_env_event env now q run ks pid)"
  unfolding next_env_event_def by (cases ks) (auto simp: subset_iff intro!: descends_base)

lemma descends_after_started:
  "(q = r \<Longrightarrow> below Pc_started_event \<subseteq> L) \<Longrightarrow> obeys (descends r L) (after_started now q run)"
  unfolding after_started_def by (intro descends_base descends_modify) auto

lemma descends_start_collect:
  "(q = r \<Longrightarrow> below (Pc_kill res) \<subseteq> L) \<Longrightarrow> obeys (descends r L) (start_collect now q run res)"
  unfolding start_collect_def by (intro descends_base) auto

lemma descends_after_drain:
  "(q = r \<Longrightarrow> below (Pc_drain res n) \<subseteq> L) \<Longrightarrow> obeys (descends r L) (after_drain now q run res)"
  unfolding after_drain_def
  by (rule descends.obeys_bind [OF descends_set_run])
    (simp, cases res, auto intro!: descends_base descends_start_collect simp: subset_iff)

lemma descends_next_artifact_event:
  "(q = r \<Longrightarrow> below (Pc_artifact_event res arts todo) \<subseteq> L) \<Longrightarrow>
     obeys (descends r L) (next_artifact_event now q run res arts todo)"
  unfolding next_artifact_event_def by (cases todo) (auto simp: subset_iff intro!: descends_base)

lemma descends_next_store:
  assumes "q = r \<Longrightarrow> insert (Pc_store res files arts) (below (Pc_store res files arts)) \<subseteq> L"
  shows "obeys (descends r L) (next_store now q run res files arts)"
proof -
  have "q = r \<Longrightarrow> below (Pc_artifact_event res arts arts) \<subseteq> L" using assms by (auto simp: subset_iff)
  note ev = descends_next_artifact_event [OF this]
  show ?thesis using assms unfolding next_store_def by (cases files) (auto intro!: descends_goto ev)
qed

lemma descends_after_store:
  assumes L: "q = r \<Longrightarrow> below (Pc_store res files arts) \<subseteq> L"
  shows "obeys (descends r L) (after_store env now q run res files arts i)"
proof (cases files)
  case Nil
  have "q = r \<Longrightarrow> below (Pc_artifact_event res arts arts) \<subseteq> L" using L by (auto simp: subset_iff)
  with Nil show ?thesis by (simp add: after_store_def descends_next_artifact_event)
next
  case (Cons f rest)
  have "q = r \<Longrightarrow> insert (Pc_store res rest as) (below (Pc_store res rest as)) \<subseteq> L" for as
    using L Cons by (auto simp: subset_iff)
  with Cons show ?thesis
    by (auto simp: after_store_def Let_def intro!: descends_base descends_next_store)
qed

lemma descends_next_skip_event:
  assumes L: "q = r \<Longrightarrow> below (Pc_skip_event res coll todo) \<subseteq> L"
  shows "obeys (descends r L) (next_skip_event now q run res coll todo)"
proof (cases todo)
  case Nil
  have "q = r \<Longrightarrow> insert (Pc_store res files as) (below (Pc_store res files as)) \<subseteq> L" for files as
    using L by (auto simp: subset_iff)
  note store = descends_next_store [OF this]
  with Nil L show ?thesis
    by (auto simp: next_skip_event_def subset_iff split: option.split intro!: descends_base store)
next
  case (Cons x rest)
  with L show ?thesis by (cases x) (auto simp: next_skip_event_def subset_iff intro!: descends_base)
qed

lemma descends_after_collect:
  assumes L: "q = r \<Longrightarrow> below (Pc_collect res) \<subseteq> L"
  shows "obeys (descends r L) (after_collect now q run res coll)"
proof -
  have "q = r \<Longrightarrow> below (Pc_skip_event res coll todo) \<subseteq> L" for todo using L by (auto simp: subset_iff)
  then show ?thesis unfolding after_collect_def
    by (intro descends.obeys_bind descends_modify descends_next_skip_event) simp_all
qed

lemma descends_finish_body:
  "(q = r \<Longrightarrow> below (Pc_remove res arts) \<subseteq> L) \<Longrightarrow> obeys (descends r L) (finish_body now q run res arts)"
  unfolding finish_body_def by (intro descends_base) auto

lemma descends_after_cleanup:
  "(q = r \<Longrightarrow> below Pc_cleanup \<subseteq> L) \<Longrightarrow> obeys (descends r L) (after_cleanup now q run c b)"
  unfolding after_cleanup_def by (intro descends_base obeys_ignoring) auto

lemma descends_when_ok: "obeys (descends r L) m \<Longrightarrow> obeys (descends r L) (when_ok inp m)"
  by (cases inp) (simp_all add: when_ok_def descends.obeys_ret descends.obeys_throw)

lemmas descends_segments =
  descends_start_body descends_after_manifest descends_after_materialize descends_emit_materialized
  descends_next_warning descends_after_materialized_event descends_after_script descends_next_env_event
  descends_after_started descends_start_collect descends_next_artifact_event descends_after_store
  descends_next_skip_event descends_after_collect descends_finish_body descends_enter_finally

lemma descends_continuation:
  assumes L: "q = r \<Longrightarrow> below pc \<subseteq> L"
  shows "obeys (descends r L) (continuation env now q run pc inp)"
  using L
  by (cases pc; simp add: continuation_def)
    (auto intro!: descends_when_ok descends_segments descends_goto descends_after_drain
        descends.obeys_ret descends.obeys_throw simp: subset_iff split: awaited.split)

lemma descends_acquire: "q \<noteq> r \<Longrightarrow> obeys (descends r L) (acquireAdmission env q)"
  by (auto simp: obeys_def descends_def acquireAdmission_def goto_def set_run_def map_of_map_set split: option.splits)

text \<open>Resuming activation \<open>q\<close>: activation \<open>r\<close> descends if it is \<open>q\<close>, and is left where it is otherwise.\<close>

lemma local_step_descends:
  assumes run: "map_of (local_runs s) q = Some run"
    and L: "q = r \<Longrightarrow> below (rn_pc run) \<subseteq> L" and awake: "q = r \<Longrightarrow> rn_pc run \<noteq> Pc_woken"
  shows "descends r L s (snd (local_step env now q inp s))"
proof -
  note go = obeysD [where R = "descends r L" and s = s]
  have catch: "q = r \<Longrightarrow> below Pc_final_event \<subseteq> L" if "fst (pc_rank (rn_pc run)) > 7"
    using L that by (auto simp: subset_iff)
  have rest: "descends r L s (snd (caught now q (continuation env now q run (rn_pc run) inp) s))"
    if "fst (pc_rank (rn_pc run)) > 7"
    using L catch [OF that] by (intro go descends_caught descends_continuation) auto
  show ?thesis
  proof (cases "rn_pc run")
    case Pc_woken
    with awake have "q \<noteq> r" by auto
    from go [OF descends_acquire [OF this]] run Pc_woken show ?thesis by (simp add: local_step_def)
  next
    case Pc_admitted
    have "obeys (descends r L) (uncaught q (admitted_body now a l q run))" for a l
      using L Pc_admitted by (intro descends_uncaught descends_admitted_body) auto
    from go [OF this] run Pc_admitted show ?thesis
      by (cases inp) (simp_all add: local_step_def descends.R_refl)
  next
    case Pc_dirs
    have "obeys (descends r L) (uncaught q (throw e))" for e
      using L Pc_dirs by (intro descends_uncaught descends.obeys_throw) auto
    note 1 = go [OF this]
    have "obeys (descends r L) (caught now q (start_body now q run))"
      using L catch Pc_dirs by (intro descends_caught descends_start_body) auto
    from go [OF this] 1 run Pc_dirs show ?thesis
      by (cases inp) (simp_all add: local_step_def descends.R_refl)
  next
    case Pc_error_event
    with L go [OF descends_after_error_event, of q run] run show ?thesis by (simp add: local_step_def)
  next
    case Pc_inflight
    with L go [OF descends_run_finally, of q run] run show ?thesis by (simp add: local_step_def)
  next
    case Pc_cleanup
    with L go [OF descends_after_cleanup, of q now run] run show ?thesis
      by (cases inp) (simp_all add: local_step_def descends.R_refl)
  qed (use rest run in
       \<open>simp_all add: local_step_def descends.R_refl\<close>)
qed

section \<open>Coming to rest\<close>

definition run_at :: "nat \<Rightarrow> 'z runner_state_scheme \<Rightarrow> run_pc option" where
  "run_at r s = map_option rn_pc (map_of (local_runs s) r)"

lemma run_phase_at: "run_phase s r = map_option phase_of (run_at r s)"
  by (simp add: run_phase_def run_at_def option.map_comp comp_def)

lemma descends_runLocalJob: "q \<noteq> r \<Longrightarrow> obeys (descends r L) (runLocalJob env q j)"
  unfolding runLocalJob_def
  by (intro descends_base descends.obeys_option descends_acquire descends.obeys_modify)
    (auto simp: descends_def map_of_map_set)

lemma descends_requestJobCancel: "obeys (descends r L) (requestJobCancel now j)"
  unfolding requestJobCancel_def cancel_closure_def
  by (intro descends_base descends.obeys_option descends_modify) auto

lemma descends_enqueueLocalLog: "obeys (descends r L) (enqueueLocalLog q stream chunk)"
  unfolding enqueueLocalLog_def by (rule descends_set_run) simp

lemma descends_persistAndPublish: "obeys (descends r L) (persistAndPublishLogChunk okay a st c n)"
  by (auto simp: obeys_def descends_def persistAndPublishLogChunk_def split: prod.splits sum.splits)

lemma descends_write_chunk:
  "obeys (descends r L) (bind (ignoring (persistAndPublishLogChunk okay a st c n))
     (\<lambda>_. modify (set_run q (\<lambda>run. run\<lparr>rn_logQueue := rest\<rparr>))))"
  by (intro descends.obeys_bind obeys_ignoring descends_persistAndPublish descends_set_run) simp

lemma descends_local_log_write: "obeys (descends r L) (local_log_write okay q)"
  using obeysD [OF descends_write_chunk]
  by (auto simp: obeys_def local_log_write_def descends.R_refl split: option.splits list.splits)

lemma descends_runner_same: "runner_same s t \<Longrightarrow> descends r L s t"
  by (simp add: runner_same_def descends_def)

text \<open>A step of the runner leaves an admitted activation where it is, or takes it further down.\<close>

lemma runner_step_descends:
  assumes "runner_step env s t" and at: "run_at r s = Some pc" and pc: "pc \<noteq> Pc_woken"
  shows "descends r (below pc) s t"
  using assms(1)
proof cases
  case (step_start q j)
  with at have "q \<noteq> r" by (auto simp: run_at_def)
  from obeysD [OF descends_runLocalJob [OF this]] step_start show ?thesis by simp
next
  case (step_resume now q inp)
  show ?thesis
  proof (cases "map_of (local_runs s) q")
    case None
    with step_resume show ?thesis by (simp add: local_step_def descends.R_refl)
  next
    case (Some run)
    with at pc have "q = r \<Longrightarrow> rn_pc run = pc" by (auto simp: run_at_def)
    with pc step_resume local_step_descends [OF Some, of r "below pc" env now inp] show ?thesis by auto
  qed
next
  case step_other
  then show ?thesis by (simp add: descends_runner_same)
qed (simp_all add: obeysD [OF descends_requestJobCancel] obeysD [OF descends_enqueueLocalLog] obeysD [OF descends_local_log_write])

lemma runner_step_run_at:
  assumes step: "runner_step env s t" and at: "run_at r s = Some pc" and pc: "phase_of pc = Holding \<or> phase_of pc = Gone"
    and inv: "sem_inv (maxConcurrent env) (sem_of s)"
  shows "\<exists>pc'. run_at r t = Some pc' \<and> (pc' = pc \<or> pc' \<in> below pc) \<and> (phase_of pc' = Holding \<or> phase_of pc' = Gone)"
proof -
  have "pc \<noteq> Pc_woken" using pc by auto
  note d = runner_step_descends [OF step at this]
  have "run_phase s r \<noteq> Some Sleeping" using at pc by (auto simp: run_phase_at)
  then have "r \<notin> set (admissionWaiters s)" using inv by (auto simp: sem_inv_def sem_of_def in_phase_def)
  with d at obtain pc' where p: "run_at r t = Some pc'" "pc' = pc \<or> pc' \<in> below pc"
    by (auto simp: descends_def run_at_def)
  have "fst (pc_rank pc) \<le> 30" using pc by (cases pc) auto
  with p(2) pc have "phase_of pc' = Holding \<or> phase_of pc' = Gone" by (cases pc') auto
  with p show ?thesis by blast
qed

text \<open>A sequence that never goes up in a well-founded relation becomes constant.\<close>

lemma eventually_constant:
  assumes wf: "wf R" and down: "\<And>i. f (Suc i) = f i \<or> (f (Suc i), f i) \<in> R"
  shows "\<exists>n. \<forall>m \<ge> n. f m = f n"
proof -
  from wf obtain z where "z \<in> range f" and min: "\<And>y. (y, z) \<in> R \<Longrightarrow> y \<notin> range f"
    by (rule wfE_min [of R "f 0" "range f"]) auto
  then obtain n where n: "f n = z" by auto
  have "f m = f n" if "m \<ge> n" for m
    using that
  proof (induction m rule: dec_induct)
    case (step m)
    with down [of m] min [of "f (Suc m)"] n show ?case by auto
  qed simp
  then show ?thesis by auto
qed

text \<open>Infinite interleavings.\<close>

lemma trace_inv:
  assumes "\<And>i. runner_step env (\<sigma> i) (\<sigma> (Suc i))" "sem_inv (maxConcurrent env) (sem_of (\<sigma> 0))"
  shows "sem_inv (maxConcurrent env) (sem_of (\<sigma> i))"
proof (induction i)
  case (Suc i)
  have "(runner_step env)\<^sup>*\<^sup>* (\<sigma> i) (\<sigma> (Suc i))" using assms(1) by blast
  from runner_inv [OF this Suc] show ?case .
qed (rule assms(2))

lemma trace_at:
  assumes trace: "\<And>i. runner_step env (\<sigma> i) (\<sigma> (Suc i))" and inv: "sem_inv (maxConcurrent env) (sem_of (\<sigma> 0))"
    and hold: "run_phase (\<sigma> 0) r = Some Holding"
  shows "\<exists>pc. run_at r (\<sigma> i) = Some pc \<and> (phase_of pc = Holding \<or> phase_of pc = Gone)"
proof (induction i)
  case 0
  with hold show ?case by (auto simp: run_phase_at)
next
  case (Suc i)
  with runner_step_run_at [OF trace _ _ trace_inv [OF trace inv]] show ?case by blast
qed

lemma admitted_run_settles:
  assumes trace: "\<And>i. runner_step env (\<sigma> i) (\<sigma> (Suc i))" and inv: "sem_inv (maxConcurrent env) (sem_of (\<sigma> 0))"
    and hold: "run_phase (\<sigma> 0) r = Some Holding"
  shows "\<exists>n pc. \<forall>m \<ge> n. run_at r (\<sigma> m) = Some pc"
proof -
  note live = trace_at [where \<sigma> = \<sigma>, OF trace inv hold]
  define f where "f i = the (run_at r (\<sigma> i))" for i
  have "f (Suc i) = f i \<or> (f (Suc i), f i) \<in> pc_less" for i
    using live [of i] runner_step_run_at [OF trace _ _ trace_inv [OF trace inv], of r i]
    by (auto simp: f_def below_def simp del: below_iff)
  from eventually_constant [OF wf_pc_less, of f, OF this] obtain n where "\<forall>m \<ge> n. f m = f n" by blast
  with live have "\<forall>m \<ge> n. run_at r (\<sigma> m) = Some (f n)" unfolding f_def by (metis option.sel)
  then show ?thesis by blast
qed

section \<open>No suspension point is a dead end\<close>

lemma run_at_set_run [simp]: "(\<And>run. rn_pc (f run) = rn_pc run) \<Longrightarrow> run_at r (set_run q f s) = run_at r s"
  by (auto simp: run_at_def set_run_def map_of_map_set split: option.splits)

lemma run_at_goto: "run_at r s \<noteq> None \<Longrightarrow> run_at r (snd (goto r pc s)) = Some pc"
  by (auto simp: run_at_def goto_def set_run_def map_of_map_set split: option.splits)

lemma run_at_release:
  "r \<notin> set (admissionWaiters s) \<Longrightarrow> run_at r (snd (releaseAdmission s)) = run_at r s"
  by (auto simp: run_at_def releaseAdmission_def Let_def goto_def set_run_def map_of_map_set split: list.splits option.splits)

lemma run_at_run_finally:
  "run_at r s \<noteq> None \<Longrightarrow> r \<notin> set (admissionWaiters s) \<Longrightarrow>
     run_at r (snd (run_finally r run s)) \<in> {Some Pc_done, Some Pc_cleanup}"
proof -
  assume at: "run_at r s \<noteq> None" and w: "r \<notin> set (admissionWaiters s)"
  let ?pc = "if rn_projectPath run = [] then Pc_done else Pc_cleanup"
  let ?s = "s\<lparr>activeCancels := map_delete (rn_attemptId run) (activeCancels s),
              pendingCancels := removeAll (rn_jobId run) (pendingCancels s)\<rparr>"
  have e: "snd (run_finally r run s) = snd (releaseAdmission (snd (goto r ?pc ?s)))"
    by (simp add: run_finally_def forget_cancel_def goto_def)
  have "run_at r ?s \<noteq> None" using at by (simp add: run_at_def)
  note g = run_at_goto [OF this, of ?pc]
  have "r \<notin> set (admissionWaiters (snd (goto r ?pc ?s)))" using w by (simp add: goto_def)
  from run_at_release [OF this] g show ?thesis unfolding e by simp
qed

lemma run_at_enter_finally:
  "run_at r s \<noteq> None \<Longrightarrow> r \<notin> set (admissionWaiters s) \<Longrightarrow>
     run_at r (snd (enter_finally r run s)) \<in> {Some Pc_done, Some Pc_cleanup, Some Pc_inflight}"
  using run_at_run_finally [of r s run] run_at_goto [of r s Pc_inflight] by (auto simp: enter_finally_def)

lemma run_at_run_catch:
  assumes at: "run_at r s \<noteq> None" and w: "r \<notin> set (admissionWaiters s)"
  shows "run_at r (snd (run_catch now r run e s)) \<in> {Some Pc_done, Some Pc_cleanup, Some Pc_inflight, Some Pc_error_event}"
proof -
  obtain x t where c: "catch_body now run e s = (x, t)" by fastforce
  have "descends r {} s t" using obeysD [OF descends_catch_body, of r "{}" s now run e] c by simp
  with at w have t: "run_at r t \<noteq> None" "r \<notin> set (admissionWaiters t)" by (auto simp: descends_def run_at_def)
  show ?thesis
  proof (cases x)
    case (Inl e')
    let ?t = "set_run r (\<lambda>run. run\<lparr>rn_thrown := Some e'\<rparr>) t"
    have "run_at r (snd (enter_finally r run ?t)) \<in> {Some Pc_done, Some Pc_cleanup, Some Pc_inflight}"
      using t by (intro run_at_enter_finally) simp_all
    with c Inl show ?thesis by (auto simp: run_catch_def leave_with_def)
  next
    case (Inr u)
    let ?t = "set_run r (\<lambda>run. run\<lparr>rn_thrown := Some e\<rparr>) t"
    have "run_at r (snd (goto r Pc_error_event ?t)) = Some Pc_error_event" using t by (intro run_at_goto) simp
    with c Inr show ?thesis by (simp add: run_catch_def)
  qed
qed

lemma caught_moves:
  assumes m: "obeys (descends r L) m" and at: "run_at r s = Some pc" and w: "r \<notin> set (admissionWaiters s)"
    and pc: "fst (pc_rank pc) > 7" and moves: "\<And>t. m s = (Inr (), t) \<Longrightarrow> run_at r t \<noteq> Some pc"
  shows "run_at r (snd (caught now r m s)) \<noteq> Some pc"
proof -
  obtain x t where mx: "m s = (x, t)" by fastforce
  have "descends r L s t" using obeysD [OF m, of s] mx by simp
  with at w have t: "run_at r t \<noteq> None" "r \<notin> set (admissionWaiters t)" by (auto simp: descends_def run_at_def)
  show ?thesis
  proof (cases x)
    case (Inl e)
    with mx t(1) obtain run where "caught now r m s = run_catch now r run e t"
      by (auto simp: caught_def run_at_def split: option.splits)
    with run_at_run_catch [OF t, of now run e] pc show ?thesis by auto
  next
    case (Inr u)
    with mx moves show ?thesis by (simp add: caught_def)
  qed
qed

definition logs_drained :: "local_run \<Rightarrow> bool" where
  "logs_drained run =
     (case rn_pc run of Pc_drain _ bound \<Rightarrow> \<not> (\<exists>q \<in> set (rn_logQueue run). snd (snd q) < bound) | _ \<Rightarrow> True)"

definition ends :: "nat \<Rightarrow> run_pc set \<Rightarrow> ('z runner_state_scheme, unit) rbo \<Rightarrow> bool" where
  "ends r P m = (\<forall>s t. m s = (Inr (), t) \<longrightarrow> run_at r s \<noteq> None \<longrightarrow> r \<notin> set (admissionWaiters s) \<longrightarrow> run_at r t \<in> Some ` P)"

lemma endsD:
  "ends r P m \<Longrightarrow> m s = (Inr (), t) \<Longrightarrow> run_at r s = Some pc \<Longrightarrow> r \<notin> set (admissionWaiters s) \<Longrightarrow> \<exists>pc' \<in> P. run_at r t = Some pc'"
  by (auto simp: ends_def)

lemma ends_goto: "pc \<in> P \<Longrightarrow> ends r P (goto r pc)"
  unfolding ends_def by (metis imageI run_at_goto snd_conv)

lemma ends_if: "ends r P m \<Longrightarrow> ends r P n \<Longrightarrow> ends r P (if b then m else n)"
  by simp

lemma ends_throw: "ends r P (throw e)"
  by (simp add: ends_def)

lemma ends_bind:
  assumes m: "obeys (descends r {}) m" and f: "\<And>a. ends r P (f a)"
  shows "ends r P (bind m f)"
proof (unfold ends_def, intro allI impI)
  fix s t
  assume b: "bind m f s = (Inr (), t)" and at: "run_at r s \<noteq> None" and w: "r \<notin> set (admissionWaiters s)"
  obtain x u where mx: "m s = (x, u)" by fastforce
  have "descends r {} s u" using obeysD [OF m, of s] mx by simp
  with at w have u: "run_at r u \<noteq> None" "r \<notin> set (admissionWaiters u)" by (auto simp: descends_def run_at_def)
  from b mx obtain a where "f a u = (Inr (), t)" by (auto simp: bind_apply split: sum.splits)
  with f [of a] u show "run_at r t \<in> Some ` P" unfolding ends_def by blast
qed

lemma ends_emit_materialized: "ends r {Pc_materialized_event} (emit_materialized now r run)"
  unfolding emit_materialized_def by (intro ends_bind ends_goto descends_db) simp

lemma ends_after_drain: "ends r {Pc_collect res, Pc_kill res} (after_drain now r run res)"
  unfolding after_drain_def start_collect_def
  by (rule ends_bind [OF descends_set_run], simp, cases res) (auto intro!: ends_bind ends_goto descends_db descends_kill)

lemma ends_finish_body: "ends r {Pc_final_event} (finish_body now r run res arts)"
  unfolding finish_body_def by (intro ends_bind ends_goto descends_db) simp

lemma ends_leave_early: "ends r {Pc_done, Pc_dirs} (leave_early r run)"
proof (unfold ends_def, intro allI impI)
  fix s t :: "'a runner_state_scheme"
  assume l: "leave_early r run s = (Inr (), t)" and at: "run_at r s \<noteq> None" and w: "r \<notin> set (admissionWaiters s)"
  let ?u = "snd (releaseAdmission (snd (goto r Pc_done s)))"
  have ok: "fst (releaseAdmission u) = Inr ()" for u :: "'a runner_state_scheme"
    by (simp add: releaseAdmission_def Let_def goto_def split: list.splits)
  have "t = snd (forget_cancel (rn_jobId run) ?u)"
    using l ok [of "snd (goto r Pc_done s)"] by (auto simp: leave_early_def goto_def bind_apply split: prod.splits)
  moreover have "r \<notin> set (admissionWaiters (snd (goto r Pc_done s)))" using w by (simp add: goto_def)
  ultimately show "run_at r t \<in> Some ` {Pc_done, Pc_dirs}"
    using run_at_goto [OF at, of Pc_done] run_at_release [of r "snd (goto r Pc_done s)"]
    by (simp add: forget_cancel_def) (simp add: run_at_def)
qed

lemma ends_admitted_body: "ends r {Pc_done, Pc_dirs} (admitted_body now a l r run)"
  unfolding admitted_body_def
  by (intro ends_bind ends_if ends_leave_early ends_goto descends_base) simp_all

lemma admitted_moves:
  assumes at: "run_at r s = Some Pc_admitted" and w: "r \<notin> set (admissionWaiters s)"
  shows "run_at r (snd (uncaught r (admitted_body now a l r run) s)) \<noteq> Some Pc_admitted"
proof -
  obtain x t where b: "admitted_body now a l r run s = (x, t)" by fastforce
  have "descends r (below Pc_admitted) s t"
    using obeysD [OF descends_admitted_body, of r r "below Pc_admitted" s now a l run] b by simp
  with at w have t: "run_at r t \<noteq> None" by (auto simp: descends_def run_at_def)
  show ?thesis
  proof (cases x)
    case (Inl e)
    let ?t = "set_run r (\<lambda>run. run\<lparr>rn_thrown := Some e\<rparr>) t"
    have "run_at r (snd (goto r Pc_crashed ?t)) = Some Pc_crashed" using t by (intro run_at_goto) simp
    with b Inl show ?thesis by (simp add: uncaught_def)
  next
    case (Inr u)
    with b endsD [OF ends_admitted_body _ at w, of now a l run t] show ?thesis by (auto simp: uncaught_def)
  qed
qed

text \<open>At every suspension point but the last ones some outcome of the awaited call moves the activation on.\<close>

lemma outcome_moves:
  fixes s :: "'a runner_state_scheme"
  assumes run: "map_of (local_runs s) r = Some run" and w: "r \<notin> set (admissionWaiters s)"
    and pc: "fst (pc_rank (rn_pc run)) > 7" and P: "rn_pc run \<notin> P"
    and e: "ends r P (continuation env now r run (rn_pc run) inp :: ('a runner_state_scheme, unit) rbo)"
  shows "run_at r (snd (caught now r (continuation env now r run (rn_pc run) inp) s)) \<noteq> Some (rn_pc run)"
proof (rule caught_moves [OF descends_continuation _ w pc])
  show at: "run_at r s = Some (rn_pc run)" using run by (simp add: run_at_def)
  show "continuation env now r run (rn_pc run) inp s = (Inr (), t) \<Longrightarrow> run_at r t \<noteq> Some (rn_pc run)" for t
    using endsD [OF e _ at w, of t] P by auto
qed (rule subset_refl)

lemma local_run_can_move:
  assumes run: "map_of (local_runs s) r = Some run" and w: "r \<notin> set (admissionWaiters s)"
    and phase: "phase_of (rn_pc run) = Holding \<or> rn_pc run = Pc_cleanup" and live: "rn_pc run \<noteq> Pc_crashed"
    and drained: "logs_drained run"
  shows "\<exists>inp. run_at r (snd (local_step env now r inp s)) \<noteq> run_at r s"
proof -
  have at: "run_at r s = Some (rn_pc run)" using run by (simp add: run_at_def)
  note ends_all = ends_throw ends_emit_materialized ends_after_drain ends_finish_body
  note move = outcome_moves [OF run w, where env = env and now = now]
  note err = move [where inp = "Aw_error (JsError [])" and P = "{}"]
  show ?thesis
  proof (cases "rn_pc run")
    case Pc_admitted
    from at Pc_admitted admitted_moves [OF _ w, of now "''a''" "''l''" run] run show ?thesis
      by (intro exI [of _ "Aw_ids ''a'' ''l''"]) (simp add: local_step_def)
  next
    case Pc_dirs
    let ?t = "set_run r (\<lambda>run. run\<lparr>rn_thrown := Some (JsError [])\<rparr>) s"
    have "run_at r (snd (goto r Pc_crashed ?t)) = Some Pc_crashed" using at by (intro run_at_goto) simp
    with at Pc_dirs run show ?thesis
      by (intro exI [of _ "Aw_error (JsError [])"]) (simp add: local_step_def uncaught_def)
  next
    case Pc_error_event
    let ?t = "set_run r (\<lambda>run. run\<lparr>rn_thrown := rethrown run\<rparr>) s"
    have "run_at r (snd (enter_finally r run ?t)) \<in> {Some Pc_done, Some Pc_cleanup, Some Pc_inflight}"
      using at w by (intro run_at_enter_finally) simp_all
    with at Pc_error_event run show ?thesis
      by (intro exI [of _ Aw_ok]) (auto simp: local_step_def after_error_event_def)
  next
    case Pc_inflight
    from run_at_run_finally [OF _ w, of run] at Pc_inflight run show ?thesis
      by (intro exI [of _ Aw_ok]) (auto simp: local_step_def)
  next
    case Pc_cleanup
    from run_at_goto [of r s Pc_done] at Pc_cleanup run show ?thesis
      by (intro exI [of _ "Aw_cleanup (Some 0) False"]) (simp add: local_step_def after_cleanup_def)
  next
    case Pc_warnings
    from move [where inp = "Aw_error (JsError [])" and P = "{Pc_materialized_event}"] at Pc_warnings run show ?thesis
      by (intro exI [of _ "Aw_error (JsError [])"]) (simp add: local_step_def continuation_def ends_emit_materialized)
  next
    case (Pc_warning_event rest)
    from move [where inp = "Aw_error (JsError [])" and P = "{Pc_materialized_event}"] at Pc_warning_event run show ?thesis
      by (intro exI [of _ "Aw_error (JsError [])"]) (simp add: local_step_def continuation_def ends_emit_materialized)
  next
    case (Pc_drain res n)
    from move [where inp = Aw_ok and P = "{Pc_collect res, Pc_kill res}"] at Pc_drain drained run show ?thesis
      by (intro exI [of _ Aw_ok]) (auto simp: local_step_def continuation_def ends_after_drain logs_drained_def)
  next
    case (Pc_remove res arts)
    from move [where inp = Aw_ok and P = "{Pc_final_event}"] at Pc_remove run show ?thesis
      by (intro exI [of _ Aw_ok]) (simp add: local_step_def continuation_def ends_finish_body)
  qed (use err at run phase live in \<open>(intro exI [of _ "Aw_error (JsError [])"],
         simp add: local_step_def continuation_def when_ok_def ends_throw)\<close>)+
qed

section \<open>Settling attempt and job\<close>

lemma settle_rows:
  assumes job: "getJob j s = Some job" and att: "getAttempt a s = Some att" and tx: "\<not> in_transaction s"
    and fs: "no_snapshot_field fs"
  obtains t where
    "\<And>k. bind (transitionAttemptState a Completed [AF_outcome (Some oc), AF_finished_at (Some now)]) (\<lambda>_.
           bind (transitionJobState now j Cleaning []) (\<lambda>_.
           bind (transitionJobState now j Completed fs) (\<lambda>_. k))) s = k t"
    "getAttempt a t = Some (att\<lparr>at_state := Completed, at_outcome := Some oc, at_finished_at := Some now\<rparr>)"
    "getJob j t = Some (set_job_row (Completed, now, fs) (set_job_row (Cleaning, now, []) job))"
    "job_events t = job_events s" "\<not> in_transaction t" "more_same s t"
    "\<And>i. i \<noteq> j \<Longrightarrow> getJob i t = getJob i s" "\<And>b. b \<noteq> a \<Longrightarrow> getAttempt b t = getAttempt b s"
proof -
  define s1 where "s1 = s\<lparr>job_attempts := sql_update (\<lambda>r. at_id r = a)
      (set_attempt_row [AF_state Completed, AF_outcome (Some oc), AF_finished_at (Some now)]) (job_attempts s)\<rparr>"
  have t1: "transitionAttemptState a Completed [AF_outcome (Some oc), AF_finished_at (Some now)] s
      = (Inr (set_attempt_row [AF_state Completed, AF_outcome (Some oc), AF_finished_at (Some now)] att), s1)"
    by (simp add: transitionAttemptState_existing [OF att] s1_def)
  have s1: "getJob j s1 = Some job" "\<not> in_transaction s1" using job tx by (simp_all add: s1_def)
  define s2 where "s2 = job_updated now j Cleaning [] s1"
  have t2: "transitionJobState now j Cleaning [] s1 = (Inr (set_job_row (Cleaning, now, []) job), s2)"
    unfolding s2_def by (rule transitionJobState_existing [OF s1(1) _ s1(2)]) (simp add: no_snapshot_field_def)
  have s2: "getJob j s2 = Some (set_job_row (Cleaning, now, []) job)" "\<not> in_transaction s2" using s1 by (simp_all add: s2_def)
  define t where "t = job_updated now j Completed fs s2"
  have t3: "transitionJobState now j Completed fs s2
      = (Inr (set_job_row (Completed, now, fs) (set_job_row (Cleaning, now, []) job)), t)"
    unfolding t_def by (rule transitionJobState_existing [OF s2(1) fs s2(2)])
  show thesis
  proof (rule that [of t])
    show "bind (transitionAttemptState a Completed [AF_outcome (Some oc), AF_finished_at (Some now)]) (\<lambda>_.
           bind (transitionJobState now j Cleaning []) (\<lambda>_.
           bind (transitionJobState now j Completed fs) (\<lambda>_. k))) s = k t" for k
      by (simp add: bind_apply t1 t2 t3)
    show "getAttempt a t = Some (att\<lparr>at_state := Completed, at_outcome := Some oc, at_finished_at := Some now\<rparr>)"
      using att by (simp add: t_def s2_def s1_def getAttempt_sql_update) (simp add: set_attempt_row_def)
    show "getJob j t = Some (set_job_row (Completed, now, fs) (set_job_row (Cleaning, now, []) job))"
      using s2 by (simp add: t_def)
    show "more_same s t" by (simp add: more_same_def t_def s2_def s1_def job_updated_def)
    show "getJob i t = getJob i s" if "i \<noteq> j" for i using that by (simp add: t_def s2_def s1_def)
    show "getAttempt b t = getAttempt b s" if "b \<noteq> a" for b
      using that by (simp add: t_def s2_def s1_def getAttempt_sql_update)
  qed (use tx in \<open>simp_all add: t_def s2_def s1_def\<close>)
qed

lemma emitJobEvent_ok:
  assumes "getJob (rn_jobId run) s \<noteq> None" "getAttempt (rn_attemptId run) s \<noteq> None" "rn_jobId run \<noteq> []" "rn_attemptId run \<noteq> []"
    "event_type_ok ty" "\<forall>e \<in> set (job_events s). 0 < ev_sequence e"
  shows "\<exists>es. emitJobEvent now run ty s = (Inr (), s\<lparr>job_events := job_events s @ es\<rparr>)"
  using assms nextEventSequence_pos [OF assms(6), of "rn_attemptId run"] nextEventSequence_fresh [of _ s "rn_attemptId run"]
  by (fastforce simp: emitJobEvent_def createJobEvent_def recordEvent_def event_ok_def bind_apply Let_def)

lemma getRow_runner [simp]:
  "getJob j (set_run r f s) = getJob j s" "getAttempt a (set_run r f s) = getAttempt a s"
  by (auto simp: set_run_def getJob_def getAttempt_def split: option.splits)

lemma getRow_goto [simp]: "getJob j (snd (goto r pc s)) = getJob j s" "getAttempt a (snd (goto r pc s)) = getAttempt a s"
  by (simp_all add: goto_def)

lemma run_at_more: "more_same s t \<Longrightarrow> run_at r t = run_at r s"
  by (simp add: run_at_def more_same_runner)

lemma ignoring_emit:
  obtains es where "ignoring (emitJobEvent now run ty) s = (Inr (), s\<lparr>job_events := job_events s @ es\<rparr>)"
proof -
  have "\<exists>es. snd (emitJobEvent now run ty s) = s\<lparr>job_events := job_events s @ es\<rparr>"
    by (auto simp: emitJobEvent_def bind_apply createJobEvent_def recordEvent_def Let_def intro: exI [of _ "[]"])
  with that show thesis by (auto simp: ignoring_def)
qed

lemma catch_body_settles:
  fixes e :: rbo_error
  assumes job: "getJob (rn_jobId run) s = Some job" and att: "getAttempt (rn_attemptId run) s = Some att" and tx: "\<not> in_transaction s"
  defines "category \<equiv> error_category_of (rn_cancelled run) e"
  defines "oc \<equiv> if rn_cancelled run \<or> category = Cancelled_category then Cancelled else Failed"
  obtains t job' where "catch_body now run e s = (Inr (), t)"
    "getAttempt (rn_attemptId run) t = Some (att\<lparr>at_state := Completed, at_outcome := Some oc, at_finished_at := Some now\<rparr>)"
    "getJob (rn_jobId run) t = Some job'" "jb_state job' = Completed" "jb_state job = Completed \<Longrightarrow> job' = job"
    "jb_state job \<noteq> Completed \<Longrightarrow> jb_outcome job' = Some oc \<and> jb_failure_category job' = Some category \<and>
       jb_failure_message job' = Some (error_message e)"
proof (cases "jb_state job = Completed")
  case True
  let ?u = "s\<lparr>job_attempts := sql_update (\<lambda>r. at_id r = rn_attemptId run)
      (set_attempt_row [AF_state Completed, AF_outcome (Some oc), AF_finished_at (Some now)]) (job_attempts s)\<rparr>"
  obtain es where es: "ignoring (emitJobEvent now run (Error_event category (error_message e))) ?u
      = (Inr (), ?u\<lparr>job_events := job_events ?u @ es\<rparr>)" by (rule ignoring_emit)
  show thesis
  proof (rule that [of "?u\<lparr>job_events := job_events ?u @ es\<rparr>" job])
    show "catch_body now run e s = (Inr (), ?u\<lparr>job_events := job_events ?u @ es\<rparr>)"
      using es True job unfolding catch_body_def Let_def category_def [symmetric] oc_def [symmetric]
      by (simp add: bind_apply transitionAttemptState_existing [OF att] isTerminalJobState_def)
  qed (use True att job in \<open>simp_all add: getAttempt_sql_update, simp add: set_attempt_row_def\<close>)
next
  case False
  let ?fs = "[JF_outcome (Some oc), JF_finished_at now, JF_failure_category (Some category), JF_failure_message (Some (error_message e))]"
  have fs: "no_snapshot_field ?fs" by (simp add: no_snapshot_field_def)
  show thesis
  proof (rule settle_rows [OF job att tx fs, of oc now])
    fix u
    assume u: "\<And>k :: ('a runner_state_scheme, unit) rbo. bind (transitionAttemptState (rn_attemptId run) Completed [AF_outcome (Some oc), AF_finished_at (Some now)]) (\<lambda>_.
           bind (transitionJobState now (rn_jobId run) Cleaning []) (\<lambda>_.
           bind (transitionJobState now (rn_jobId run) Completed ?fs) (\<lambda>_. k))) s = k u"
      and rows: "getAttempt (rn_attemptId run) u = Some (att\<lparr>at_state := Completed, at_outcome := Some oc, at_finished_at := Some now\<rparr>)"
        "getJob (rn_jobId run) u = Some (set_job_row (Completed, now, ?fs) (set_job_row (Cleaning, now, []) job))"
    obtain es where es: "ignoring (emitJobEvent now run (Error_event category (error_message e))) u
        = (Inr (), u\<lparr>job_events := job_events u @ es\<rparr>)" by (rule ignoring_emit)
    show thesis
    proof (rule that [of "u\<lparr>job_events := job_events u @ es\<rparr>" "set_job_row (Completed, now, ?fs) (set_job_row (Cleaning, now, []) job)"])
      show "catch_body now run e s = (Inr (), u\<lparr>job_events := job_events u @ es\<rparr>)"
        using es u [of "ignoring (emitJobEvent now run (Error_event category (error_message e)))"] False job
        unfolding catch_body_def Let_def category_def [symmetric] oc_def [symmetric]
        by (auto simp: bind_apply isTerminalJobState_def transitionAttemptState_existing [OF att] split: prod.splits sum.splits)
    qed (use rows False in \<open>simp_all add: set_job_row_def\<close>)
  qed
qed

section \<open>Properties\<close>

text \<open>
  (C17) Admission to the Controller's own host. However activations, cancel requests, log writes and the
  other handlers interleave, the counter of the admission semaphore is the number of activations that
  hold a slot and never exceeds \<open>maxConcurrentJobs\<close>. No wakeup is lost either: while some
  activation sleeps in the queue, every free slot has an awakened activation on its way to take it.
\<close>

theorem local_admission_bounded:
  assumes start: "admissionActive s = 0" "admissionWaiters s = []" "local_runs s = []"
    and steps: "(runner_step env)\<^sup>*\<^sup>* s t"
  shows "admissionActive t = int (card {r. run_phase t r = Some Holding}) \<and>
         admissionActive t \<le> max 0 (maxConcurrent env) \<and>
         (admissionWaiters t \<noteq> [] \<longrightarrow>
            maxConcurrent env \<le> admissionActive t + int (card {r. run_phase t r = Some Awake}))"
proof -
  have "sem_inv (maxConcurrent env) (sem_of s)"
    using start by (simp add: sem_inv_def sem_of_def in_phase_def run_phase_def dom_def)
  from runner_inv [OF steps this] show ?thesis unfolding sem_inv_def sem_of_def in_phase_def sem.select_convs by blast
qed


text \<open>
  The end of a local job. When the process is over and its artifacts are stored, attempt and job
  become \<open>completed\<close> with the same outcome, decided by precedence: a cancel request wins over a
  timeout, a timeout over the log patterns and the duration, and these over the exit code. The exit code
  is recorded only for a process that exited by itself, and a failure category exactly when the job did
  not succeed.
\<close>

theorem local_job_settled_by_outcome:
  assumes run: "map_of (local_runs s) r = Some run" and pc: "rn_pc run = Pc_remove res arts"
    and job: "getJob (rn_jobId run) s = Some job" and att: "getAttempt (rn_attemptId run) s = Some att"
    and tx: "\<not> in_transaction s" and ids: "rn_jobId run \<noteq> []" "rn_attemptId run \<noteq> []"
    and ev: "\<forall>e \<in> set (job_events s). 0 < ev_sequence e"
  shows "\<exists>t job' att'. local_step env now r inp s = (Inr (), t) \<and> run_at r t = Some Pc_final_event \<and>
     getJob (rn_jobId run) t = Some job' \<and> getAttempt (rn_attemptId run) t = Some att' \<and>
     jb_state job' = Completed \<and> at_state att' = Completed \<and> jb_outcome job' = at_outcome att' \<and>
     jb_outcome job' = Some (if rn_cancelled run then Cancelled else if rn_timedOut run then Timed_out
                             else if rn_logFailure run then Failed
                             else if rn_durationComplete run \<or> res = Log_success \<or> res = Exit_result (Some 0)
                             then Succeeded else Failed) \<and>
     jb_exit_code job' = (case res of Exit_result c \<Rightarrow> c | _ \<Rightarrow> None) \<and>
     (jb_failure_category job' = None \<longleftrightarrow> jb_outcome job' = Some Succeeded)"
proof -
  let ?fs = "local_final_fields now run res arts" and ?oc = "local_outcome run res"
  have fs: "no_snapshot_field ?fs" by (simp add: no_snapshot_field_def local_final_fields_def Let_def)
  show ?thesis
  proof (rule settle_rows [OF job att tx fs, of ?oc now])
    fix u
    assume u: "\<And>k :: ('a runner_state_scheme, unit) rbo.
          bind (transitionAttemptState (rn_attemptId run) Completed [AF_outcome (Some ?oc), AF_finished_at (Some now)]) (\<lambda>_.
          bind (transitionJobState now (rn_jobId run) Cleaning []) (\<lambda>_.
          bind (transitionJobState now (rn_jobId run) Completed ?fs) (\<lambda>_. k))) s = k u"
      and rows: "getAttempt (rn_attemptId run) u = Some (att\<lparr>at_state := Completed, at_outcome := Some ?oc, at_finished_at := Some now\<rparr>)"
        "getJob (rn_jobId run) u = Some (set_job_row (Completed, now, ?fs) (set_job_row (Cleaning, now, []) job))"
      and evs: "job_events u = job_events s" and more: "more_same s u"
    have "\<exists>es. emitJobEvent now run (State_transition Running Completed) u = (Inr (), u\<lparr>job_events := job_events u @ es\<rparr>)"
      by (rule emitJobEvent_ok) (use rows ids ev evs in \<open>simp_all add: JobStateSchema_def\<close>)
    then obtain es where es: "emitJobEvent now run (State_transition Running Completed) u = (Inr (), u\<lparr>job_events := job_events u @ es\<rparr>)" by blast
    let ?u = "u\<lparr>job_events := job_events u @ es\<rparr>"
    define t where "t = snd (goto r Pc_final_event ?u)"
    have step: "local_step env now r inp s = (Inr (), t)"
      using run pc u [of "bind (emitJobEvent now run (State_transition Running Completed)) (\<lambda>_. goto r Pc_final_event)"] es
      by (simp add: local_step_def continuation_def caught_def finish_body_def bind_apply t_def goto_def)
    have "run_at r u = Some (rn_pc run)" using run_at_more [OF more] run by (simp add: run_at_def)
    then have "run_at r ?u \<noteq> None" by (auto simp: run_at_def)
    then have "run_at r t = Some Pc_final_event" unfolding t_def by (rule run_at_goto)
    moreover have "getJob (rn_jobId run) t = Some (set_job_row (Completed, now, ?fs) (set_job_row (Cleaning, now, []) job))"
      "getAttempt (rn_attemptId run) t = Some (att\<lparr>at_state := Completed, at_outcome := Some ?oc, at_finished_at := Some now\<rparr>)"
      using rows by (simp_all add: t_def)
    moreover have "?oc = (if rn_cancelled run then Cancelled else if rn_timedOut run then Timed_out
        else if rn_logFailure run then Failed
        else if rn_durationComplete run \<or> res = Log_success \<or> res = Exit_result (Some 0) then Succeeded else Failed)"
      by (cases res) (auto simp: local_outcome_def local_exit_code_def)
    ultimately show ?thesis using step
      by (auto simp: set_job_row_def local_final_fields_def Let_def local_exit_code_def)
  qed
qed


section \<open>What an exception before the \<open>try\<close> block leaves behind\<close>

text \<open>
  An Agent rejected the offer of a job with a \<open>local_fallback\<close> policy, so the job is queued again and has
  an attempt with ordinal 1. When it is then dispatched to the Controller host, \<open>createAttempt(.., 1)\<close>
  violates \<open>UNIQUE (job_id, ordinal)\<close> outside the \<open>try\<close> block: the job stays queued, and its slot is
  never released, whatever happens afterwards.
\<close>

lemma createAttempt_ordinal_taken:
  assumes "a \<in> set (job_attempts s)" "at_job_id a = j" "at_ordinal a = 1"
  shows "createAttempt now aid lid j 1 s = (Inl (SqliteConstraint ''job_attempts''), s)"
  using assms by (auto simp: createAttempt_def insertAttempt_def attempt_insert_ok_def blank_attempt_def bind_apply)

lemma sem_of_active: "admissionActive t = sem_active (sem_of t)"
  by (simp add: sem_of_def)

lemma crashed_stays:
  assumes "(runner_step env)\<^sup>*\<^sup>* s t" "sem_inv (maxConcurrent env) (sem_of s)" "run_at r s = Some Pc_crashed"
  shows "run_at r t = Some Pc_crashed"
  using assms(1)
proof (induction rule: rtranclp_induct)
  case (step t u)
  from runner_inv [OF step.hyps(1) assms(2)] have "sem_inv (maxConcurrent env) (sem_of t)" .
  from runner_step_run_at [OF step.hyps(2) step.IH _ this] show ?case by auto
qed (rule assms(3))

theorem rejected_offer_strands_local_fallback:
  assumes inv: "sem_inv (maxConcurrent env) (sem_of s)"
    and run: "map_of (local_runs s) r = Some run" and pc: "rn_pc run = Pc_admitted"
    and job: "getJob (rn_jobId run) s = Some job" "jb_state job = Queued" "jb_outcome job = None"
    and nocancel: "rn_jobId run \<notin> set (pendingCancels s)"
    and earlier: "a \<in> set (job_attempts s)" "at_job_id a = rn_jobId run" "at_ordinal a = 1"
  shows "getJob (rn_jobId run) (snd (local_step env now r (Aw_ids aid lid) s)) = Some job \<and>
         ((runner_step env)\<^sup>*\<^sup>* (snd (local_step env now r (Aw_ids aid lid) s)) t \<longrightarrow> 1 \<le> admissionActive t)"
proof -
  let ?t = "snd (local_step env now r (Aw_ids aid lid) s)"
  have step: "?t = snd (goto r Pc_crashed (set_run r (\<lambda>run. run\<lparr>rn_thrown := Some (SqliteConstraint ''job_attempts'')\<rparr>) s))"
    using run pc job nocancel createAttempt_ordinal_taken [OF earlier, of now aid lid]
    by (simp add: local_step_def uncaught_def admitted_body_def isCancelRequested_def not_runnable_def isTerminalJobState_def bind_apply)
  have at: "run_at r ?t = Some Pc_crashed"
    unfolding step by (rule run_at_goto) (use run in \<open>simp add: run_at_set_run\<close>, simp add: run_at_def run)
  have inv': "sem_inv (maxConcurrent env) (sem_of ?t)"
    by (rule runner_inv [OF _ inv]) (blast intro: step_resume)
  have "1 \<le> admissionActive t" if steps: "(runner_step env)\<^sup>*\<^sup>* ?t t"
  proof -
    have "run_phase t r = Some Holding" using crashed_stays [OF steps inv' at] by (simp add: run_phase_at)
    then have "r \<in> in_phase Holding (sem_of t)" by (simp add: in_phase_def sem_of_def)
    moreover from runner_inv [OF steps inv'] have "finite (in_phase Holding (sem_of t))"
      "admissionActive t = int (card (in_phase Holding (sem_of t)))"
      by (simp_all add: sem_inv_def in_phase_finite sem_of_active)
    ultimately show ?thesis using card_gt_0_iff [of "in_phase Holding (sem_of t)"] by auto
  qed
  moreover have "getJob (rn_jobId run) ?t = Some job" unfolding step using job by simp
  ultimately show ?thesis by blast
qed

text \<open>
  If the last event of a successful job cannot be written to its log file, the \<open>catch\<close> block marks the
  attempt failed while the job, already completed, keeps \<open>succeeded\<close>.
\<close>

theorem final_event_failure_splits_outcome:
  assumes run: "map_of (local_runs s) r = Some run" and pc: "rn_pc run = Pc_final_event" and c: "\<not> rn_cancelled run"
    and job: "getJob (rn_jobId run) s = Some job" "jb_state job = Completed" "jb_outcome job = Some Succeeded"
    and att: "getAttempt (rn_attemptId run) s = Some att" and tx: "\<not> in_transaction s"
  shows "\<exists>t att'. local_step env now r (Aw_error (JsError msg)) s = (Inr (), t) \<and> getJob (rn_jobId run) t = Some job \<and>
           getAttempt (rn_attemptId run) t = Some att' \<and> at_outcome att' = Some Failed"
proof -
  have step: "local_step env now r (Aw_error (JsError msg)) s = run_catch now r run (JsError msg) s"
    using run pc by (simp add: local_step_def continuation_def caught_def when_ok_def)
  show ?thesis
  proof (rule catch_body_settles [OF job(1) att tx, where e = "JsError msg" and now = now])
    fix t job'
    assume "catch_body now run (JsError msg) s = (Inr (), t)" "getJob (rn_jobId run) t = Some job'"
      "jb_state job = Completed \<Longrightarrow> job' = job"
      and "getAttempt (rn_attemptId run) t = Some (att\<lparr>at_state := Completed,
        at_outcome := Some (if rn_cancelled run \<or> error_category_of (rn_cancelled run) (JsError msg) = Cancelled_category
                            then Cancelled else Failed), at_finished_at := Some now\<rparr>)"
    with job(2) c show ?thesis by (simp add: step run_catch_def goto_def)
  qed
qed

section \<open>Witnesses\<close>

definition demo_run :: "run_pc \<Rightarrow> local_run" where
  "demo_run pc = (fresh_run ''j'' demo_request)\<lparr>rn_attemptId := ''a'', rn_pc := pc\<rparr>"

definition demo_runner :: "run_state \<Rightarrow> int \<Rightarrow> (nat \<times> local_run) list \<Rightarrow> runner_state" where
  "demo_runner st n runs =
     \<lparr>in_transaction = False, bound_notifier = None, unbound_managed = False, woken = [],
      agents = [], jobs = [demo_job st], job_attempts = [blank_attempt ''a'' ''j'' 1 ''l'' 1 Running], job_events = [],
      snapshots = [demo_snapshot], connectedAgents = [], ws_sent = [], log_files = [], live_hub = empty_hub,
      artifactExpectations = [], logChunkChains = [], log_writing = [], job_submissions = [], capture_leases = [],
      activeCancels = [], pendingCancels = [], admissionActive = n, admissionWaiters = [], local_runs = runs,
      child_kills = [], artifacts = []\<rparr>"

definition demo_runner_env :: runner_env where
  "demo_runner_env = \<lparr>le_dataDir = ''/data'', le_maxConcurrentJobs = None\<rparr>"

lemma demo_runner_fields [simp]:
  "admissionActive (demo_runner st n runs) = n" "admissionWaiters (demo_runner st n runs) = []"
  "local_runs (demo_runner st n runs) = runs" "\<not> in_transaction (demo_runner st n runs)"
  "getJob ''j'' (demo_runner st n runs) = Some (demo_job st)" "job_events (demo_runner st n runs) = []"
  "getAttempt ''a'' (demo_runner st n runs) = Some (blank_attempt ''a'' ''j'' 1 ''l'' 1 Running)"
  by (simp_all add: demo_runner_def getJob_def getAttempt_def demo_job_def blank_attempt_def)

lemma demo_run_fields [simp]:
  "rn_jobId (demo_run pc) = ''j''" "rn_attemptId (demo_run pc) = ''a''" "rn_pc (demo_run pc) = pc"
  "\<not> rn_cancelled (demo_run pc)" "\<not> rn_timedOut (demo_run pc)" "\<not> rn_logFailure (demo_run pc)"
  "\<not> rn_durationComplete (demo_run pc)"
  by (simp_all add: demo_run_def fresh_run_def)

theorem local_admission_bounded_witness:
  "admissionActive (snd (runLocalJob demo_runner_env 2 ''j'' (snd (runLocalJob demo_runner_env 1 ''j'' (demo_runner Queued 0 []))))) \<le> 1"
proof -
  let ?s = "demo_runner Queued 0 []"
  let ?t = "snd (runLocalJob demo_runner_env 1 ''j'' ?s)"
  have "runner_step demo_runner_env ?s ?t" by (rule step_start) simp
  moreover have "map_of (local_runs ?t) 2 = None" by code_simp
  then have "runner_step demo_runner_env ?t (snd (runLocalJob demo_runner_env 2 ''j'' ?t))" by (rule step_start)
  ultimately have "(runner_step demo_runner_env)\<^sup>*\<^sup>* ?s (snd (runLocalJob demo_runner_env 2 ''j'' ?t))" by auto
  from local_admission_bounded [OF _ _ _ this] have "admissionActive (snd (runLocalJob demo_runner_env 2 ''j'' ?t)) \<le> max 0 (maxConcurrent demo_runner_env)"
    by simp
  then show ?thesis by (simp add: maxConcurrent_def demo_runner_env_def)
qed


theorem local_job_settled_by_outcome_witness:
  "\<exists>t job'. local_step demo_runner_env 9 1 Aw_ok (demo_runner Collecting_artifacts 1 [(1, demo_run (Pc_remove (Exit_result (Some 0)) []))]) = (Inr (), t) \<and>
     getJob ''j'' t = Some job' \<and> jb_outcome job' = Some Succeeded"
  using local_job_settled_by_outcome
      [of "demo_runner Collecting_artifacts 1 [(1, demo_run (Pc_remove (Exit_result (Some 0)) []))]" 1
          "demo_run (Pc_remove (Exit_result (Some 0)) [])" "Exit_result (Some 0)" "[]" "demo_job Collecting_artifacts"
          "blank_attempt ''a'' ''j'' 1 ''l'' 1 Running" demo_runner_env 9 Aw_ok]
  by auto


end
