(* ===== verification/Job_Submit.thy ===== *)
theory Job_Submit
  imports Local_Runner Scheduler "HOL-Library.List_Lexorder" "HOL-Library.Char_ord"
begin

text \<open>
  \<open>apps/controller/src/jobs/submit.ts\<close>: accepting a job, the confirmation gate of dangerous jobs,
  dispatch, cancelling and waiting. \<open>handleJobSubmit\<close> and \<open>dispatchJobExecution\<close> are split at their
  awaits: \<open>.._begin\<close> runs to the first one, \<open>submit_may_publish\<close> is the authority check before each
  published file, \<open>submit_commit\<close> is the transaction after the last one and \<open>submit_fail\<close> the \<open>catch\<close>
  block. What the awaited calls return (the captured snapshot, the git sidecar, the host load) are
  arguments. \<open>requestHash\<close>, the SHA-256 of the canonical JSON of a request, is a parameter.
\<close>

section \<open>Context\<close>

record submit_env =
  sv_remote :: remote_env
  sv_runner :: runner_env
  sv_sched :: sched_env
  sv_requestHash :: "job_request \<Rightarrow> string"
  sv_clientId :: string
  sv_hasAgentPlane :: bool
  sv_allowLocalFallback :: "bool option"
  sv_defaultQueuePolicy :: "queue_policy option"
  sv_maxHostCpuBusyFraction :: "rat option"
  sv_platform :: string
  sv_strictConfirmation :: bool

definition CONFIRMATION_TTL_SECONDS :: int where
  "CONFIRMATION_TTL_SECONDS = 300"

definition localHostExecutionCapability :: "string \<Rightarrow> local_host_execution option" where
  "localHostExecutionCapability platform =
     (if platform = ''win32'' then Some \<lparr>lh_os = ''windows'', lh_shells = [''powershell'', ''cmd'', ''direct'']\<rparr>
      else if platform = ''linux'' then Some \<lparr>lh_os = ''linux'', lh_shells = [''bash'', ''sh'', ''direct'']\<rparr>
      else if platform = ''darwin'' then Some \<lparr>lh_os = ''macos'', lh_shells = [''bash'', ''sh'', ''direct'']\<rparr>
      else None)"

section \<open>Confirmation tokens\<close>

record confirmation_claims =
  cc_job_id :: string
  cc_request_hash :: string
  cc_content_id :: string
  cc_risk_level :: string

definition confirmation_payload :: "string \<Rightarrow> int \<Rightarrow> confirmation_claims \<Rightarrow> (string \<times> json) list" where
  "confirmation_payload controllerId nowSec c =
     [(''sub'', JStr (cc_job_id c)), (''aud'', JStr controllerId),
      (''exp'', JNum (of_int (nowSec + CONFIRMATION_TTL_SECONDS))), (''job_id'', JStr (cc_job_id c)),
      (''request_hash'', JStr (cc_request_hash c)), (''content_id'', JStr (cc_content_id c)),
      (''risk_level'', JStr (cc_risk_level c))]"

definition issueConfirmationToken :: "jwt_env \<Rightarrow> ts \<Rightarrow> controller_identity \<Rightarrow> confirmation_claims \<Rightarrow> string" where
  "issueConfirmationToken jwt now identity c =
     signEdDsaJwt jwt (now div 1000) (id_signingPrivateKeyPem identity)
       (confirmation_payload (id_controllerId identity) (now div 1000) c)"

text \<open>\<open>String(v ?? '')\<close>\<close>

definition claim_text :: "(rat \<Rightarrow> string) \<Rightarrow> json option \<Rightarrow> string" where
  "claim_text num v = (if js_nullish v then [] else js_String_of num v)"

definition verifyConfirmationToken ::
  "jwt_env \<Rightarrow> (rat \<Rightarrow> string) \<Rightarrow> ts \<Rightarrow> controller_identity \<Rightarrow> string \<Rightarrow> confirmation_claims option" where
  "verifyConfirmationToken jwt num now identity token =
     (case verifyEdDsaJwt jwt (now div 1000) (id_signingPublicKeyPem identity) token of
        None \<Rightarrow> None
      | Some claims \<Rightarrow>
          if map_of claims ''aud'' \<noteq> Some (JStr (id_controllerId identity)) then None
          else
            (let job_id = str_of (map_of claims ''sub'');
                 request_hash = claim_text num (map_of claims ''request_hash'');
                 content_id = claim_text num (map_of claims ''content_id'');
                 risk_level = claim_text num (map_of claims ''risk_level'')
             in if job_id = [] \<or> request_hash = [] \<or> content_id = [] \<or> risk_level = [] then None
                else Some \<lparr>cc_job_id = job_id, cc_request_hash = request_hash, cc_content_id = content_id,
                           cc_risk_level = risk_level\<rparr>))"

section \<open>Submitting\<close>

text \<open>
  \<open>JobRequestSchema\<close> fills in the default risk level; \<open>None\<close> is a request it rejects.
\<close>

definition parse_request :: "job_request option \<Rightarrow> job_request option" where
  "parse_request raw =
     map_option (\<lambda>r. r\<lparr>rqst_risk_level := Some (case rqst_risk_level r of Some x \<Rightarrow> x | None \<Rightarrow> Normal)\<rparr>) raw"

definition risk_of :: "job_request \<Rightarrow> risk_level" where
  "risk_of request = (case rqst_risk_level request of Some r \<Rightarrow> r | None \<Rightarrow> Normal)"

datatype submit_reply =
    Reply_stored json
  | Reply_stored_error json
  | Reply_capture capture_lease job_request

definition effective_policy :: "submit_env \<Rightarrow> job_request \<Rightarrow> queue_policy" where
  "effective_policy env request =
     (case rqst_queue_policy request of
        Some q \<Rightarrow> q
      | None \<Rightarrow> (case sv_defaultQueuePolicy env of Some q \<Rightarrow> q | None \<Rightarrow> Local_fallback))"

text \<open>Replay of a submission that is already reserved by someone or settled.\<close>

definition replay_submission :: "submission_row option \<Rightarrow> ('s, submit_reply) rbo" where
  "replay_submission existing =
     (case existing of
        None \<Rightarrow> throw (rbo_internal ''Capture lease reservation returned no submission'')
      | Some sub \<Rightarrow>
          (case (sb_state sub, sb_response sub, sb_error sub) of
             (Capturing, _, _) \<Rightarrow> throw (rbo_validation ''Submission is still capturing snapshot'')
           | (Captured, Some response, _) \<Rightarrow> ret (Reply_stored response)
           | (Capture_failed, _, Some err) \<Rightarrow> ret (Reply_stored_error err)
           | _ \<Rightarrow> throw (rbo_validation ''Submission cannot acquire a capture lease'')))"

definition handleJobSubmit_begin ::
  "submit_env \<Rightarrow> ts \<Rightarrow> string \<Rightarrow> job_request option \<Rightarrow> ('z submit_state_scheme, submit_reply) rbo" where
  "handleJobSubmit_begin env now random raw =
     (case parse_request raw of
        None \<Rightarrow> throw (rbo_validation ''Invalid job_submit request'')
      | Some parsed \<Rightarrow>
          (let request = parsed\<lparr>rqst_queue_policy := Some (effective_policy env parsed)\<rparr> in
           bind (reserveCaptureLease now random (sv_clientId env, rqst_client_request_id request)
                   \<lparr>co_ttlMs = None, co_ownerToken = None\<rparr>) (\<lambda>reserve.
             if \<not> cr_acquired reserve then replay_submission (cr_submission reserve)
             else (case cr_lease reserve of
                     None \<Rightarrow> throw (rbo_internal ''Capture lease reservation returned no lease'')
                   | Some lease \<Rightarrow> ret (Reply_capture lease request)))))"

text \<open>The renewal timer, and the check before each candidate file is published.\<close>

definition submit_renew :: "ts \<Rightarrow> capture_identity \<Rightarrow> ('z submit_state_scheme, unit) rbo" where
  "submit_renew now i = (\<lambda>s. (Inr (), snd (renewCaptureLease now i \<lparr>co_ttlMs = None, co_ownerToken = None\<rparr> s)))"

definition submit_may_publish :: "ts \<Rightarrow> capture_identity \<Rightarrow> ('z submit_state_scheme, unit) rbo" where
  "submit_may_publish now i = (\<lambda>s.
     if hasCaptureLeaseAuthority now i s then (Inr (), s)
     else (Inl (RboError Lease_expired ''Snapshot capture lease lost before publication'' True), s))"

text \<open>\<open>captureAndPersistSnapshot\<close> gives the normalised request and the snapshot row with the published paths.\<close>

record captured_snapshot =
  cs_request :: job_request
  cs_row :: snapshot_row
  cs_secret_warnings :: "(string \<times> string) list"

definition rollback_submit ::
  "'z submit_state_scheme \<Rightarrow> 'z submit_state_scheme \<Rightarrow> 'z submit_state_scheme" where
  "rollback_submit s0 s1 =
     (rollback_tables s0 s1)\<lparr>job_submissions := job_submissions s0, capture_leases := capture_leases s0\<rparr>"

definition claims_of :: "submit_env \<Rightarrow> string \<Rightarrow> job_request \<Rightarrow> string \<Rightarrow> confirmation_claims" where
  "claims_of env jobId request contentId =
     \<lparr>cc_job_id = jobId, cc_request_hash = sv_requestHash env request, cc_content_id = contentId,
      cc_risk_level = risk_name (risk_of request)\<rparr>"

definition submit_response :: "submit_env \<Rightarrow> ts \<Rightarrow> string \<Rightarrow> captured_snapshot \<Rightarrow> json" where
  "submit_response env now jobId c =
     (let request = cs_request c; snap = cs_row c; risk = risk_of request;
          common = (\<lambda>st. [(''job_id'', JStr jobId), (''state'', JStr st), (''snapshot_id'', JStr (sn_id snap)),
                     (''content_id'', JStr (sn_content_id snap)), (''snapshot_captured'', JBool True), (''selected_agent'', JNull)]);
          warnings = [(''secret_warnings'', JArr (map (\<lambda>w. JStr (fst w)) (cs_secret_warnings c)))]
      in if isDestructiveRisk risk then
           JObj (common ''awaiting_confirmation'' @
             (if sv_strictConfirmation env then
                [(''confirmation_token'', JNull), (''requires_operator_confirmation'', JBool True),
                 (''message'', JStr (''Job has risk_level '' @ squote @ risk_name risk @ squote @
                    ''. Operator confirmation required via '' @ squote @ ''rbo jobs confirm '' @ jobId @ squote @ ''.''))]
              else
                [(''confirmation_token'', JStr (issueConfirmationToken (re_jwt (sv_remote env)) now (re_identity (sv_remote env))
                    (claims_of env jobId request (sn_content_id snap))))]) @ warnings)
         else JObj (common ''queued'' @ warnings))"

definition commit_body ::
  "submit_env \<Rightarrow> ts \<Rightarrow> string \<Rightarrow> capture_identity \<Rightarrow> captured_snapshot \<Rightarrow> ('z submit_state_scheme, json \<times> bool) rbo" where
  "commit_body env now jobId i c = (\<lambda>s.
     if \<not> hasCaptureLeaseAuthority now i s
     then (Inl (RboError Lease_expired ''Snapshot capture lease lost before database commit'' True), s)
     else
       (let request = cs_request c; destructive = isDestructiveRisk (risk_of request);
            response = submit_response env now jobId c in
        bind (persistSnapshot now (cs_row c)) (\<lambda>_.
        bind (createJob now jobId (sv_clientId env) (rqst_client_request_id request) request Created (rqst_name request)) (\<lambda>job.
        bind (transitionJobState now jobId (jb_state job) [JF_snapshot_id (sn_id (cs_row c))]) (\<lambda>_.
        bind (transitionJobState now jobId (if destructive then Awaiting_confirmation else Queued) [JF_queued_at now]) (\<lambda>_.
        bind (completeSubmission now (sv_clientId env, rqst_client_request_id request) Captured response (Some jobId)) (\<lambda>_.
        ret (response, \<not> destructive)))))) s))"

text \<open>The transaction, then the release of the lease. The flag says whether the job is dispatched.\<close>

definition submit_commit ::
  "submit_env \<Rightarrow> ts \<Rightarrow> string \<Rightarrow> capture_identity \<Rightarrow> captured_snapshot \<Rightarrow> ('z submit_state_scheme, json \<times> bool) rbo" where
  "submit_commit env now jobId i c =
     bind (runLifecycleTransaction rollback_submit (commit_body env now jobId i c)) (\<lambda>committed.
     bind (releaseCaptureLease now i) (\<lambda>_.
     ret committed))"

section \<open>Failing a submission\<close>

definition category_name :: "error_category \<Rightarrow> string" where
  "category_name c =
     (case c of
        Validation \<Rightarrow> ''validation'' | No_matching_agent \<Rightarrow> ''no_matching_agent'' | No_capacity \<Rightarrow> ''no_capacity''
      | Source_scan \<Rightarrow> ''source_scan'' | Secret_blocked \<Rightarrow> ''secret_blocked'' | Repo_clone \<Rightarrow> ''repo_clone''
      | Repo_fetch \<Rightarrow> ''repo_fetch'' | Base_commit_missing \<Rightarrow> ''base_commit_missing'' | Bundle_import \<Rightarrow> ''bundle_import''
      | Snapshot_transfer \<Rightarrow> ''snapshot_transfer'' | Snapshot_hash \<Rightarrow> ''snapshot_hash'' | Materialization \<Rightarrow> ''materialization''
      | Workspace_changed \<Rightarrow> ''workspace_changed'' | Shell_missing \<Rightarrow> ''shell_missing'' | Process_spawn \<Rightarrow> ''process_spawn''
      | Process_exit \<Rightarrow> ''process_exit'' | Timeout \<Rightarrow> ''timeout'' | Cancelled_category \<Rightarrow> ''cancelled''
      | Agent_lost \<Rightarrow> ''agent_lost'' | Artifact_collection \<Rightarrow> ''artifact_collection'' | Artifact_upload \<Rightarrow> ''artifact_upload''
      | Cleanup \<Rightarrow> ''cleanup'' | Secret_missing \<Rightarrow> ''secret_missing'' | Toolchain_changed \<Rightarrow> ''toolchain_changed''
      | Agent_disconnected \<Rightarrow> ''agent_disconnected'' | Lease_expired \<Rightarrow> ''lease_expired''
      | Log_spool_limit \<Rightarrow> ''log_spool_limit'' | Internal \<Rightarrow> ''internal'')"

fun error_retryable :: "rbo_error \<Rightarrow> bool" where
  "error_retryable (RboError _ _ b) = b"
| "error_retryable _ = True"

text \<open>\<open>error.message\<close> of an \<open>RboError\<close>, \<open>String(error)\<close> of anything else.\<close>

fun error_text :: "rbo_error \<Rightarrow> string" where
  "error_text (RboError _ m _) = m"
| "error_text (JsError m) = ''Error: '' @ m"
| "error_text (SqliteConstraint t) = ''SqliteError: constraint failed: '' @ t"

definition error_payload :: "rbo_error \<Rightarrow> json" where
  "error_payload e =
     JObj [(''category'', JStr (category_name (case e of RboError c _ _ \<Rightarrow> c | _ \<Rightarrow> Internal))),
           (''message'', JStr (error_text e)), (''retryable'', JBool (error_retryable e))]"

definition submit_fail :: "ts \<Rightarrow> capture_identity \<Rightarrow> rbo_error \<Rightarrow> ('z submit_state_scheme, json) rbo" where
  "submit_fail now i e =
     (if error_retryable e then bind (releaseCaptureLease now i) (\<lambda>_. ret (error_payload e))
      else
        bind (failSubmissionIfCaptureLeaseIsAuthoritative now i (error_payload e)) (\<lambda>recorded.
          if recorded then bind (releaseCaptureLease now i) (\<lambda>_. ret (error_payload e))
          else ret (error_payload (RboError Lease_expired
                 ''Snapshot capture lease lost before recording terminal capture failure'' True))))"

section \<open>Dispatch\<close>

definition map_set_missing :: "string \<Rightarrow> string \<Rightarrow> (string \<times> string) list \<Rightarrow> (string \<times> string) list" where
  "map_set_missing k v m = (if map_of m k = None then m @ [(k, v)] else m)"

definition no_requirements :: requirements_config where
  "no_requirements =
     \<lparr>rq_os = None, rq_arch = None, rq_tools = None, rq_labels = None, rq_secret_refs = None,
      rq_min_memory_mb = None, rq_min_disk_mb = None\<rparr>"

text \<open>\<open>submodules\<close> and \<open>lfs\<close> are the flags of the \<open>GitSourceRequirements\<close> sidecar.\<close>

definition mergeGitSourceToolRequirements :: "job_request \<Rightarrow> bool \<Rightarrow> bool \<Rightarrow> job_request" where
  "mergeGitSourceToolRequirements request submodules lfs =
     (let base = (case Option.bind (rqst_requirements request) rq_tools of Some t \<Rightarrow> t | None \<Rightarrow> []);
          tools1 = (if submodules then map_set_missing ''git'' ''>=0'' base else base);
          tools = (if lfs then map_set_missing ''git-lfs'' ''>=0'' tools1 else tools1)
      in if tools = [] then request
         else request\<lparr>rqst_requirements :=
                Some ((case rqst_requirements request of Some r \<Rightarrow> r | None \<Rightarrow> no_requirements)\<lparr>rq_tools := Some tools\<rparr>)\<rparr>)"

record dispatch_wait =
  dw_jobId :: string
  dw_request :: job_request
  dw_candidates :: "scheduler_agent list"
  dw_registered :: int
  dw_snapshot :: "snapshot_row option"
  dw_penalties :: "(string \<times> rat) list"
  dw_unreported :: bool

definition SCHEDULER_RECENT_FAILURE_WINDOW :: nat where
  "SCHEDULER_RECENT_FAILURE_WINDOW = 10"

definition dispatch_candidates :: "'z remote_state_scheme \<Rightarrow> agent_row list \<Rightarrow> scheduler_agent list" where
  "dispatch_candidates s dbAgents =
     (let activeCounts = getActiveJobsForAgents s in
      List.map_filter (\<lambda>a.
        if map_of (connectedAgents s) (ag_id a) = None then None
        else (case ag_capabilities a of
                None \<Rightarrow> None
              | Some caps \<Rightarrow>
                  Some \<lparr>sa_agentId = ag_id a, sa_capabilities = caps,
                        sa_activeJobsCount = (case map_of activeCounts (ag_id a) of Some n \<Rightarrow> n | None \<Rightarrow> 0),
                        sa_recentFailurePenalty = None\<rparr>)) dbAgents)"

text \<open>
  An Agent that was paired and has not reported its capabilities yet has the report \<open>{}\<close> (here \<open>None\<close>). It
  becomes a candidate like the others, and \<open>selectAgentForJob\<close> fails on reading its capacity.
\<close>

definition dispatch_unreported :: "'z remote_state_scheme \<Rightarrow> agent_row list \<Rightarrow> bool" where
  "dispatch_unreported s dbAgents =
     (\<exists>a \<in> set dbAgents. map_of (connectedAgents s) (ag_id a) \<noteq> None \<and> ag_capabilities a = None)"

text \<open>Up to the reading of the git sidecar. \<open>continue\<close> is \<open>shouldContinueDispatch()\<close>.\<close>

definition dispatch_begin ::
  "bool \<Rightarrow> string \<Rightarrow> job_request \<Rightarrow> ('z remote_state_scheme, dispatch_wait option) rbo" where
  "dispatch_begin continue jobId request =
     (if \<not> continue then ret None
      else gets (\<lambda>s.
        let dbAgents = sql_all (\<lambda>a. ag_disabled_at a = None) (agents s)
        in Some \<lparr>dw_jobId = jobId, dw_request = request, dw_candidates = dispatch_candidates s dbAgents,
                 dw_registered = int (length dbAgents), dw_snapshot = loadSnapshotForJob jobId s,
                 dw_penalties = map (\<lambda>(a, n). (a, of_int n))
                                  (getRecentFailurePenaltiesForAgents SCHEDULER_RECENT_FAILURE_WINDOW s),
                 dw_unreported = dispatch_unreported s dbAgents\<rparr>))"

definition remote_repo_id :: "snapshot_row option \<Rightarrow> string option" where
  "remote_repo_id snap =
     (case snap of None \<Rightarrow> None
      | Some sn \<Rightarrow> if sn_repo_id sn = [] \<or> sn_repo_id sn = ''local'' then None else Some (sn_repo_id sn))"

definition build_cache_identity :: "snapshot_row option \<Rightarrow> string option" where
  "build_cache_identity snap =
     (case remote_repo_id snap of
        Some r \<Rightarrow> Some r
      | None \<Rightarrow> (case snap of None \<Rightarrow> None
                 | Some sn \<Rightarrow> if sn_content_id sn = [] then None else Some (''local:'' @ sn_content_id sn)))"

definition dispatch_options :: "submit_env \<Rightarrow> dispatch_wait \<Rightarrow> host_load_snapshot option \<Rightarrow> scheduler_options" where
  "dispatch_options env w hostLoad =
     \<lparr>so_allowLocalFallback = sv_allowLocalFallback env,
      so_localHostExecution = localHostExecutionCapability (sv_platform env),
      so_repoCanonicalId = remote_repo_id (dw_snapshot w),
      so_baseCommit = Option.bind (dw_snapshot w) sn_base_commit,
      so_buildCacheKeys = None,
      so_buildCacheProjectIdentity = build_cache_identity (dw_snapshot w),
      so_estimatedTransferBytes = map_option of_int (Option.bind (dw_snapshot w) sn_size_bytes),
      so_recentFailurePenalties = Some (dw_penalties w),
      so_registeredAgentCount = Some (dw_registered w),
      so_hostLoad = hostLoad,
      so_maxHostCpuBusyFraction = sv_maxHostCpuBusyFraction env\<rparr>"

definition no_match_json :: "no_match_diagnostic option \<Rightarrow> json" where
  "no_match_json d =
     JObj (case d of
             None \<Rightarrow> []
           | Some n \<Rightarrow>
               [(''no_match'', JObj ([(''required_shell'', JStr (nm_required_shell n))] @
                  (case nm_target_os n of None \<Rightarrow> [] | Some os \<Rightarrow> [(''target_os'', JArr (map JStr os))]) @
                  [(''hint'', JStr (nm_hint n))]))])"

text \<open>
  After the sidecar: the decision and what follows from it. \<open>host\<close> is the host's CPU load and capacity
  score, when the context samples it; \<open>r\<close> numbers the activation of the local runner, \<open>leaseId\<close> and
  \<open>attemptId\<close> are the generated identifiers.
\<close>

definition dispatch_decision ::
  "submit_env \<Rightarrow> dispatch_wait \<Rightarrow> bool \<Rightarrow> bool \<Rightarrow> (rat \<times> rat) option \<Rightarrow> 'z runner_state_scheme \<Rightarrow> scheduling_decision" where
  "dispatch_decision env w submodules lfs host s =
     selectAgentForJob (sv_sched env) (dw_candidates w) (mergeGitSourceToolRequirements (dw_request w) submodules lfs)
       (dispatch_options env w
          (map_option (\<lambda>(busy, score). \<lparr>hl_cpuBusyFraction = busy, hl_capacityScore = score,
                                         hl_runningJobs = getLocalRunningJobsCount s\<rparr>) host))"

definition dispatch_finish ::
  "submit_env \<Rightarrow> ts \<Rightarrow> bool \<Rightarrow> dispatch_wait \<Rightarrow> bool \<Rightarrow> bool \<Rightarrow> (rat \<times> rat) option \<Rightarrow> string \<Rightarrow> string \<Rightarrow> nat
     \<Rightarrow> ('z runner_state_scheme, unit) rbo" where
  "dispatch_finish env now continue w submodules lfs host leaseId attemptId r =
     (if \<not> continue then ret ()
      else if dw_unreported w then throw (JsError ''Cannot read properties of undefined (reading max_jobs)'')
      else
        bind (gets (dispatch_decision env w submodules lfs host)) (\<lambda>decision.
          let jobId = dw_jobId w in
          case (sd_action decision, sd_selectedAgent decision) of
            (Sched_local_fallback, _) \<Rightarrow> runLocalJob (sv_runner env) r jobId
          | (Sched_fail_fast, _) \<Rightarrow>
              bind (transitionJobState now jobId Completed
                      [JF_outcome (Some Failed), JF_finished_at now, JF_failure_category (Some No_matching_agent),
                       JF_failure_message (Some (case sd_noMatchDiagnostic decision of
                          Some d \<Rightarrow> nm_hint d | None \<Rightarrow> ''No eligible agent available to execute job'')),
                       JF_result_json (no_match_json (sd_noMatchDiagnostic decision))]) (\<lambda>_. ret ())
          | (Sched_wait, _) \<Rightarrow>
              if sd_noMatchDiagnostic decision = None then ret ()
              else
                bind (modify (\<lambda>s. s\<lparr>jobs := sql_update (\<lambda>j. jb_id j = jobId \<and> jb_state j = Queued)
                        (\<lambda>j. j\<lparr>jb_result_json := Some (no_match_json (sd_noMatchDiagnostic decision)), jb_updated_at := now\<rparr>)
                        (jobs s)\<rparr>)) (\<lambda>_.
                notifyJobLifecycleChanged jobId)
          | (Remote, Some agent) \<Rightarrow>
              if sv_hasAgentPlane env
              then bind (initiateRemoteAttempt now leaseId attemptId jobId (sa_agentId agent) (sd_selectedToolchains decision)) (\<lambda>_. ret ())
              else ret ()
          | (Remote, None) \<Rightarrow> ret ()))"

text \<open>The order in which \<open>tryDispatchQueuedJobs\<close> goes through the queue; SQLite sorts \<open>NULL\<close> first.\<close>

definition queued_before :: "job_row \<Rightarrow> job_row \<Rightarrow> bool" where
  "queued_before a b =
     (case (jb_queued_at a, jb_queued_at b) of
        (None, None) \<Rightarrow> jb_id a \<le> jb_id b
      | (None, Some _) \<Rightarrow> True
      | (Some _, None) \<Rightarrow> False
      | (Some x, Some y) \<Rightarrow> x < y \<or> (x = y \<and> jb_id a \<le> jb_id b))"

fun queue_insert :: "job_row \<Rightarrow> job_row list \<Rightarrow> job_row list" where
  "queue_insert x [] = [x]"
| "queue_insert x (y # ys) = (if queued_before x y then x # y # ys else y # queue_insert x ys)"

definition tryDispatchQueuedJobs_rows :: "'z controller_db_scheme \<Rightarrow> (string \<times> job_request) list" where
  "tryDispatchQueuedJobs_rows s =
     map (\<lambda>j. (jb_id j, jb_request j)) (foldr queue_insert (sql_all (\<lambda>j. jb_state j = Queued) (jobs s)) [])"

section \<open>Confirming\<close>

datatype confirm_reply =
    Confirm_error string
  | Confirm_queued string job_request

fun state_name :: "run_state \<Rightarrow> string" where
  "state_name Created = ''created''"
| "state_name Awaiting_confirmation = ''awaiting_confirmation''"
| "state_name Queued = ''queued''"
| "state_name Matching = ''matching''"
| "state_name Leased = ''leased''"
| "state_name Leasing = ''leasing''"
| "state_name Preparing_source = ''preparing_source''"
| "state_name Transferring_source = ''transferring_source''"
| "state_name Materializing = ''materializing''"
| "state_name Starting = ''starting''"
| "state_name Running = ''running''"
| "state_name Orphaned = ''orphaned''"
| "state_name Collecting_artifacts = ''collecting_artifacts''"
| "state_name Cleaning = ''cleaning''"
| "state_name Completed = ''completed''"

definition expired_fields :: "ts \<Rightarrow> job_field list" where
  "expired_fields now = cancelled_fields now ''Confirmation expired before execution''"

text \<open>An invalid token ends a job whose confirmation time is over.\<close>

definition reject_token :: "ts \<Rightarrow> job_row \<Rightarrow> ('z controller_db_scheme, confirm_reply) rbo" where
  "reject_token now job =
     bind (if (case jb_queued_at job of None \<Rightarrow> False | Some q \<Rightarrow> q \<le> now - CONFIRMATION_TTL_SECONDS * 1000)
           then bind (transitionJobState now (jb_id job) Completed (expired_fields now)) (\<lambda>_. ret ())
           else ret ()) (\<lambda>_.
     ret (Confirm_error ''Invalid or expired confirmation token''))"

text \<open>\<open>Confirm_queued\<close> stands for the reply together with the dispatch that is started.\<close>

definition handleJobConfirm ::
  "submit_env \<Rightarrow> ts \<Rightarrow> string \<Rightarrow> string \<Rightarrow> ('z controller_db_scheme, confirm_reply) rbo" where
  "handleJobConfirm env now jobId token =
     bind (gets (getJob jobId)) (\<lambda>found.
       case found of
         None \<Rightarrow> ret (Confirm_error (''Unknown job_id '' @ squote @ jobId @ squote))
       | Some job \<Rightarrow>
           if jb_state job \<noteq> Awaiting_confirmation
           then ret (Confirm_error (''Job is not awaiting confirmation (state='' @ state_name (jb_state job) @ '')''))
           else
             (case verifyConfirmationToken (re_jwt (sv_remote env)) (re_num_str (sv_remote env)) now
                     (re_identity (sv_remote env)) token of
                Some claims \<Rightarrow>
                  if cc_job_id claims \<noteq> jb_id job then reject_token now job
                  else
                    bind (gets (\<lambda>s. Option.bind (jb_snapshot_id job) (\<lambda>i. getSnapshot i s))) (\<lambda>snap.
                      let request = jb_request job in
                      if cc_request_hash claims \<noteq> sv_requestHash env request
                        \<or> Some (cc_content_id claims) \<noteq> map_option sn_content_id snap
                        \<or> Some (cc_risk_level claims) \<noteq> map_option risk_name (rqst_risk_level request)
                      then ret (Confirm_error ''Confirmation token binding mismatch'')
                      else
                        bind (transitionJobState now (jb_id job) Queued [JF_queued_at now]) (\<lambda>_.
                        ret (Confirm_queued (jb_id job) request)))
              | None \<Rightarrow> reject_token now job))"

definition stale_confirmation :: "ts \<Rightarrow> job_row \<Rightarrow> bool" where
  "stale_confirmation cutoff j =
     (jb_state j = Awaiting_confirmation \<and>
      (case jb_queued_at j of Some q \<Rightarrow> q \<le> cutoff | None \<Rightarrow> jb_created_at j \<le> cutoff))"

definition expireStaleConfirmations :: "ts \<Rightarrow> int \<Rightarrow> ('z controller_db_scheme, string list) rbo" where
  "expireStaleConfirmations now ttlSeconds =
     bind (gets (\<lambda>s. map jb_id (sql_all (stale_confirmation (now - ttlSeconds * 1000)) (jobs s)))) (\<lambda>rows.
     bind (for_each rows (\<lambda>i. transitionJobState now i Completed (expired_fields now))) (\<lambda>_.
     ret rows))"

definition confirmJobByAdmin :: "submit_env \<Rightarrow> ts \<Rightarrow> string \<Rightarrow> ('z controller_db_scheme, string \<times> job_request) rbo" where
  "confirmJobByAdmin env now jobId =
     bind (gets (getJob jobId)) (\<lambda>found.
       case found of
         None \<Rightarrow> throw (rbo_validation (''Unknown job_id '' @ squote @ jobId @ squote))
       | Some job \<Rightarrow>
           if jb_state job \<noteq> Awaiting_confirmation
           then throw (rbo_validation (''Job is not awaiting confirmation (state='' @ state_name (jb_state job) @ '')''))
           else
             bind (gets (\<lambda>s. Option.bind (jb_snapshot_id job) (\<lambda>i. getSnapshot i s))) (\<lambda>snap.
             bind (handleJobConfirm env now jobId
                     (issueConfirmationToken (re_jwt (sv_remote env)) now (re_identity (sv_remote env))
                        (claims_of env jobId (jb_request job) (case snap of Some sn \<Rightarrow> sn_content_id sn | None \<Rightarrow> [])))) (\<lambda>reply.
               case reply of
                 Confirm_error msg \<Rightarrow> throw (rbo_validation msg)
               | Confirm_queued i request \<Rightarrow> ret (i, request))))"

section \<open>Cancelling\<close>

datatype cancel_reply =
    Cancel_unknown
  | Cancel_already_terminal job_row
  | Cancel_requested_reply bool

definition recordCancelEvent :: "ts \<Rightarrow> string \<Rightarrow> string option \<Rightarrow> bool \<Rightarrow> ('z controller_db_scheme, unit) rbo" where
  "recordCancelEvent now jobId reason signalled =
     bind (gets (getLatestAttempt jobId)) (\<lambda>found.
       case found of
         None \<Rightarrow> ret ()
       | Some attempt \<Rightarrow>
           bind (createJobEvent now (Cancel_requested reason signalled) jobId (at_id attempt)) (\<lambda>event.
           bind (recordEvent event) (\<lambda>_. ret ())))"

text \<open>\<open>hasAgents\<close>: the context carries the map of connected Agents.\<close>

definition cancel_remote :: "ts \<Rightarrow> bool \<Rightarrow> string \<Rightarrow> string option \<Rightarrow> attempt_row \<Rightarrow> ('z remote_state_scheme, bool) rbo" where
  "cancel_remote now hasAgents jobId reason attempt =
     bind (if hasAgents then requestRemoteJobCancel jobId reason else ret False) (\<lambda>signalled.
       if signalled then ret True
       else
         bind (transitionAttemptState (at_id attempt) Completed [AF_outcome (Some Cancelled), AF_finished_at (Some now)]) (\<lambda>_.
         bind (transitionJobState now jobId Completed
                 (cancelled_fields now (case reason of Some x \<Rightarrow> x | None \<Rightarrow> ''Job cancelled (agent unreachable)''))) (\<lambda>_.
         ret True)))"

definition handleJobCancel ::
  "ts \<Rightarrow> bool \<Rightarrow> string \<Rightarrow> string option \<Rightarrow> ('z runner_state_scheme, cancel_reply) rbo" where
  "handleJobCancel now hasAgents jobId reason =
     bind (gets (getJob jobId)) (\<lambda>found.
       case found of
         None \<Rightarrow> ret Cancel_unknown
       | Some job \<Rightarrow>
           if isTerminalJobState (jb_state job) then ret (Cancel_already_terminal job)
           else
             bind (gets (getLatestAttempt jobId)) (\<lambda>attempt.
             bind (case attempt of
                     Some a \<Rightarrow> if falsy_str (at_agent_id a) then requestJobCancel now jobId
                               else cancel_remote now hasAgents jobId reason a
                   | None \<Rightarrow> requestJobCancel now jobId) (\<lambda>signalled.
             bind (recordCancelEvent now jobId reason signalled) (\<lambda>_.
             ret (Cancel_requested_reply signalled)))))"

section \<open>Waiting\<close>

text \<open>
  \<open>waitForJob\<close> sleeps only after \<open>wait_arm\<close>: it subscribes and reads the job once more, in one turn of
  the event loop. \<open>Wait_over\<close> carries the row it returns; in \<open>Wait_sleep\<close> the waiter \<open>l\<close> sleeps until
  its listener is called or a timer of at most one second fires, and then \<open>wait_resume\<close> removes the
  listener and reads again.
\<close>

datatype wait_reply =
    Wait_over "job_row option"
  | Wait_sleep

definition wait_done :: "bool \<Rightarrow> ts \<Rightarrow> ts \<Rightarrow> job_row option \<Rightarrow> 'z controller_db_scheme \<Rightarrow> bool" where
  "wait_done aborted deadline now job s =
     (case job of
        None \<Rightarrow> True
      | Some j \<Rightarrow> isTerminalJobState (jb_state j) \<or> aborted \<or> isBoundJobLifecycleNotifierClosed s \<or> now \<ge> deadline)"

definition drop_listener :: "string \<Rightarrow> nat \<Rightarrow> ('z controller_db_scheme, unit) rbo" where
  "drop_listener jobId l = modify (with_notifier (\<lambda>(n, w). (snd (unsubscribe True jobId l n), w)))"

definition wait_arm :: "bool \<Rightarrow> ts \<Rightarrow> ts \<Rightarrow> string \<Rightarrow> nat \<Rightarrow> ('z controller_db_scheme, wait_reply) rbo" where
  "wait_arm aborted deadline now jobId l = (\<lambda>s.
     let job = getJob jobId s in
     if wait_done aborted deadline now job s then (Inr (Wait_over job), s)
     else
       (let t = snd (subscribeToJobLifecycle jobId l s);
            reread = getJob jobId t in
        if (case reread of None \<Rightarrow> True | Some j \<Rightarrow> isTerminalJobState (jb_state j))
        then bind (drop_listener jobId l) (\<lambda>_. ret (Wait_over reread)) t
        else (Inr Wait_sleep, t)))"

definition wait_resume :: "bool \<Rightarrow> ts \<Rightarrow> ts \<Rightarrow> string \<Rightarrow> nat \<Rightarrow> ('z controller_db_scheme, wait_reply) rbo" where
  "wait_resume aborted deadline now jobId l =
     bind (drop_listener jobId l) (\<lambda>_. wait_arm aborted deadline now jobId l)"

end
