(* ===== verification/Job_Submit_Laws.thy ===== *)
theory Job_Submit_Laws
  imports Job_Submit Capture_Lease_Laws Local_Runner_Laws
begin

text \<open>
  Laws of job submission: what a lifecycle transaction does to the tables, what a successful commit
  leaves behind, the round trip of confirmation tokens, the frame of a job under operations on other
  jobs, and the wakeups of waiters.
\<close>

section \<open>Transactions\<close>

definition tables_of :: "'z submit_state_scheme \<Rightarrow> _" where
  "tables_of s = (agents s, jobs s, job_attempts s, job_events s, snapshots s, job_submissions s, capture_leases s)"

lemma tables_getters:
  assumes "tables_of t = tables_of s"
  shows "getJob j t = getJob j s" "getSnapshot i t = getSnapshot i s" "getSubmission k t = getSubmission k s"
    "hasCaptureLeaseAuthority now c t = hasCaptureLeaseAuthority now c s" "getAttempt a t = getAttempt a s"
  using assms by (simp_all add: tables_of_def getJob_def getSnapshot_def getSubmission_def getAttempt_def hasCaptureLeaseAuthority_def)

lemma with_notifier_submit [simp]:
  "job_submissions (with_notifier f s) = job_submissions s" "capture_leases (with_notifier f s) = capture_leases s"
  by (auto simp: with_notifier_def split: option.splits prod.splits)

lemma tables_with_notifier [simp]: "tables_of (with_notifier f s) = tables_of s"
  by (simp add: tables_of_def)

lemma tables_fold_notifier [simp]: "tables_of (fold (\<lambda>j. with_notifier (f j)) js s) = tables_of s"
  by (induction js arbitrary: s) simp_all

lemma tables_flags [simp]:
  "tables_of (s\<lparr>in_transaction := b\<rparr>) = tables_of s" "tables_of (s\<lparr>unbound_managed := b\<rparr>) = tables_of s"
  "tables_of (clear_pending s) = tables_of s" "tables_of (set_managed b s) = tables_of s"
  by (simp_all add: clear_pending_def set_managed_def) (simp_all add: tables_of_def)

lemma tables_rollback [simp]: "tables_of (rollback_submit s0 s1) = tables_of s0"
  by (simp add: tables_of_def rollback_submit_def rollback_tables_def)

text \<open>\<open>tx_start s s0\<close>: a state in which the operation of a transaction begun in \<open>s\<close> may run.\<close>

definition tx_start :: "'z submit_state_scheme \<Rightarrow> 'z submit_state_scheme \<Rightarrow> bool" where
  "tx_start s s0 = (tables_of s0 = tables_of s \<and> in_transaction s0 \<and> assertJobLifecycleWriteAllowed s0 = (Inr (), s0))"

lemma managed_write_allowed:
  "bound_notifier s \<noteq> None \<Longrightarrow> assertJobLifecycleWriteAllowed (set_managed True (s\<lparr>in_transaction := True\<rparr>))
     = (Inr (), set_managed True (s\<lparr>in_transaction := True\<rparr>))"
  by (auto simp: assertJobLifecycleWriteAllowed_def set_managed_def with_notifier_def split: option.splits)

lemma runJobLifecycle_cases:
  assumes "runJobLifecycleTransaction rollback_submit operation s = (res, t)"
  shows "case res of
      Inl e \<Rightarrow> tables_of t = tables_of s
    | Inr a \<Rightarrow> (\<exists>s0 s1. tx_start s s0 \<and> operation s0 = (Inr a, s1) \<and> tables_of t = tables_of s1)"
proof (cases "bound_notifier s = None \<or> in_transaction s")
  case True
  with assms show ?thesis by (auto simp: runJobLifecycleTransaction_def split: if_splits)
next
  case False
  let ?s0 = "set_managed True (s\<lparr>in_transaction := True\<rparr>)"
  obtain r s1 where op: "operation ?s0 = (r, s1)" by fastforce
  have "tx_start s ?s0" using False managed_write_allowed [of s]
    by (simp add: tx_start_def) (simp add: set_managed_def)
  then have start: "operation ?s0 = (Inr a, s1) \<Longrightarrow> \<exists>s0. tx_start s s0 \<and> operation s0 = (Inr a, s1)" for a by blast
  show ?thesis
  proof (cases r)
    case (Inl e)
    with assms False op show ?thesis by (auto simp: runJobLifecycleTransaction_def Let_def)
  next
    case (Inr a)
    with assms False op have "res = Inr a" "tables_of t = tables_of s1" by (auto simp: runJobLifecycleTransaction_def Let_def)
    with start [of a] op Inr show ?thesis by auto
  qed
qed

lemma runUnboundLifecycle_cases:
  assumes "runUnboundJobLifecycleTransaction rollback_submit operation s = (res, t)"
  shows "case res of
      Inl e \<Rightarrow> tables_of t = tables_of s
    | Inr a \<Rightarrow> (\<exists>s0 s1. tx_start s s0 \<and> operation s0 = (Inr a, s1) \<and> tables_of t = tables_of s1)"
proof (cases "in_transaction s")
  case True
  with assms show ?thesis by (auto simp: runUnboundJobLifecycleTransaction_def)
next
  case False
  let ?s0 = "s\<lparr>in_transaction := True, unbound_managed := True\<rparr>"
  obtain r s1 where op: "operation ?s0 = (r, s1)" by fastforce
  have "tx_start s ?s0" by (simp add: tx_start_def assertJobLifecycleWriteAllowed_def)
  then have start: "operation ?s0 = (Inr a, s1) \<Longrightarrow> \<exists>s0. tx_start s s0 \<and> operation s0 = (Inr a, s1)" for a by blast
  show ?thesis
  proof (cases r)
    case (Inl e)
    with assms False op show ?thesis by (auto simp: runUnboundJobLifecycleTransaction_def Let_def)
  next
    case (Inr a)
    with assms False op have "res = Inr a" "tables_of t = tables_of s1" by (auto simp: runUnboundJobLifecycleTransaction_def Let_def)
    with start [of a] op Inr show ?thesis by auto
  qed
qed

lemma runLifecycleTransaction_cases:
  assumes "runLifecycleTransaction rollback_submit operation s = (res, t)"
  shows "case res of
      Inl e \<Rightarrow> tables_of t = tables_of s
    | Inr a \<Rightarrow> (\<exists>s0 s1. tx_start s s0 \<and> operation s0 = (Inr a, s1) \<and> tables_of t = tables_of s1)"
proof -
  obtain r u where b: "runJobLifecycleTransaction rollback_submit operation s = (r, u)" by fastforce
  note bound = runJobLifecycle_cases [OF b]
  show ?thesis
  proof (cases r)
    case (Inr a)
    with assms b bound show ?thesis by (auto simp: runLifecycleTransaction_def)
  next
    case (Inl e)
    with bound have u: "tables_of u = tables_of s" by simp
    then have start: "tx_start u s0 \<Longrightarrow> tx_start s s0" for s0 by (simp add: tx_start_def)
    show ?thesis
    proof (cases "e = UnboundJobLifecycleNotifierError")
      case True
      with assms b Inl have "runUnboundJobLifecycleTransaction rollback_submit operation u = (res, t)"
        by (simp add: runLifecycleTransaction_def)
      from runUnboundLifecycle_cases [OF this] u start show ?thesis by (auto split: sum.splits)
    next
      case False
      with assms b Inl u show ?thesis by (auto simp: runLifecycleTransaction_def)
    qed
  qed
qed

section \<open>The commit\<close>

definition rows_of :: "string \<Rightarrow> 'z controller_db_scheme \<Rightarrow> job_row list" where
  "rows_of j s = filter (\<lambda>r. jb_id r = j) (jobs s)"

lemma rows_of_sql_update:
  "(\<And>r. jb_id (f r) = jb_id r) \<Longrightarrow> i \<noteq> j \<Longrightarrow>
     filter (\<lambda>r. jb_id r = i) (sql_update (\<lambda>r. jb_id r = j \<and> P r) f t) = filter (\<lambda>r. jb_id r = i) t"
  by (induction t) auto

lemma rows_of_transitionJobState: "i \<noteq> j \<Longrightarrow> rows_of i (snd (transitionJobState now j st fs s)) = rows_of i s"
  using rows_of_sql_update [of "set_job_row (st, now, fs)" i j "\<lambda>_. True" "jobs s"]
  by (auto simp: rows_of_def transitionJobState_def bind_apply assertJobLifecycleWriteAllowed_def Let_def
      notifyJobLifecycleChanged_def split: option.splits)

lemma transitionJobState_Inr:
  assumes "transitionJobState now j st fs s = (Inr r, t)"
  shows "getJob j t = map_option (set_job_row (st, now, fs)) (getJob j s)" "getJob j t = Some r"
    "i \<noteq> j \<Longrightarrow> getJob i t = getJob i s" "snapshots t = snapshots s" "job_attempts t = job_attempts s"
    "more_same s t"
  using assms
  by (auto simp: transitionJobState_def bind_apply assertJobLifecycleWriteAllowed_def Let_def getJob_sql_update
      notifyJobLifecycleChanged_def more_same_def split: if_splits option.splits)

lemma more_same_submit:
  fixes s t :: "'z submit_state_scheme"
  assumes "more_same s t"
  shows "job_submissions t = job_submissions s" "capture_leases t = capture_leases s"
  using assms by (cases s; cases t; simp add: more_same_def)+


lemma createJob_Inr:
  assumes "createJob now j c q rq st nm s = (Inr job, t)"
  shows "getJob j s = None" "getJob j t = Some job" "i \<noteq> j \<Longrightarrow> getJob i t = getJob i s" "jb_request job = rq" "jb_state job = st"
    "jb_client_id job = c" "jb_client_request_id job = q" "snapshots t = snapshots s" "more_same s t"
    "job_attempts t = job_attempts s" "i \<noteq> j \<Longrightarrow> rows_of i t = rows_of i s"
proof -
  define row where "row = \<lparr>jb_id = j, jb_client_id = c, jb_client_request_id = q,
      jb_name = (case nm of Some n \<Rightarrow> Some n | None \<Rightarrow> rqst_name rq), jb_state = st, jb_outcome = None, jb_created_at = now,
      jb_updated_at = now, jb_queued_at = None, jb_started_at = None, jb_finished_at = None, jb_snapshot_id = None,
      jb_request = rq, jb_result_json = None, jb_exit_code = None, jb_failure_category = None, jb_failure_message = None\<rparr>"
  have none: "getJob j s = None"
    using assms by (auto simp: createJob_def getJob_def sql_get_None split: if_splits)
  have get: "getJob k (s\<lparr>jobs := jobs s @ [row]\<rparr>) = (if k = j then Some row else getJob k s)" for k
    using none by (auto simp: getJob_def sql_get_append row_def split: option.splits)
  have t: "t = s\<lparr>jobs := jobs s @ [row]\<rparr>" "job = row"
    using assms get [of j] by (auto simp: createJob_def Let_def row_def [symmetric] split: if_splits)
  show "getJob j s = None" by (rule none)
  show "getJob j t = Some job" "i \<noteq> j \<Longrightarrow> getJob i t = getJob i s" using t get by auto
  show "jb_request job = rq" "jb_state job = st" "jb_client_id job = c" "jb_client_request_id job = q"
    "snapshots t = snapshots s" "more_same s t" "job_attempts t = job_attempts s" "i \<noteq> j \<Longrightarrow> rows_of i t = rows_of i s"
    using t by (simp_all add: row_def more_same_def rows_of_def)
qed

lemma persistSnapshot_Inr:
  assumes "persistSnapshot now row s = (Inr r, t)"
  shows "getSnapshot (sn_id row) t = Some (row\<lparr>sn_created_at := now\<rparr>)" "getJob i t = getJob i s" "more_same s t"
    "job_attempts t = job_attempts s" "jobs t = jobs s"
  using assms
  by (auto simp: persistSnapshot_def getSnapshot_def getJob_def more_same_def sql_get_append split: if_splits)

lemma getSubmission_key: "getSubmission k s = Some r \<Longrightarrow> sb_key r = k"
  unfolding getSubmission_def by (drule sql_get_Some) simp

lemma completeSubmission_Inr:
  assumes "completeSubmission now k st p (Some j) s = (Inr r, t)" "st = Captured"
  shows "\<exists>sub. getSubmission k t = Some sub \<and> sb_state sub = Captured \<and> sb_response sub = Some p \<and> sb_job_id sub = Some j"
    "jobs t = jobs s" "snapshots t = snapshots s" "capture_leases t = capture_leases s"
    "map sb_key (job_submissions t) = map sb_key (job_submissions s)" "job_attempts t = job_attempts s"
proof -
  have key: "sb_key (completed_row now st p j' r) = sb_key r" for j' r
    by (simp add: completed_row_def sb_key_def Let_def)
  from assms obtain e where e: "getSubmission k s = Some e"
      "t = s\<lparr>job_submissions := sql_update (\<lambda>r. sb_key r = k) (completed_row now st p (Some j)) (job_submissions s)\<rparr>"
    by (auto simp: completeSubmission_def Let_def split: option.splits if_splits)
  have "getSubmission k t = Some (completed_row now st p (Some j) e)"
    using e by (auto simp: get_submissions_update [OF key] dest: getSubmission_key)
  then show "\<exists>sub. getSubmission k t = Some sub \<and> sb_state sub = Captured \<and> sb_response sub = Some p \<and> sb_job_id sub = Some j"
    using assms(2) by (simp add: completed_row_def Let_def)
  show "map sb_key (job_submissions t) = map sb_key (job_submissions s)"
    using e by (simp add: map_sql_update key)
qed (use assms in \<open>auto simp: completeSubmission_def Let_def split: option.splits if_splits\<close>)

definition committed :: "submit_env \<Rightarrow> ts \<Rightarrow> string \<Rightarrow> captured_snapshot \<Rightarrow> json \<Rightarrow> bool \<Rightarrow> 'z submit_state_scheme \<Rightarrow> bool" where
  "committed env now jobId c response dispatch t =
     (let request = cs_request c; dangerous = isDestructiveRisk (risk_of request) in
      dispatch = (\<not> dangerous) \<and> response = submit_response env now jobId c \<and>
      (\<exists>job. getJob jobId t = Some job \<and> jb_request job = request \<and> jb_client_id job = sv_clientId env \<and>
             jb_client_request_id job = rqst_client_request_id request \<and>
             jb_state job = (if dangerous then Awaiting_confirmation else Queued) \<and> jb_queued_at job = Some now \<and>
             jb_snapshot_id job = Some (sn_id (cs_row c))) \<and>
      getSnapshot (sn_id (cs_row c)) t = Some ((cs_row c)\<lparr>sn_created_at := now\<rparr>) \<and>
      (\<exists>sub. getSubmission (sv_clientId env, rqst_client_request_id request) t = Some sub \<and> sb_state sub = Captured \<and>
             sb_response sub = Some response \<and> sb_job_id sub = Some jobId))"

lemma commit_body_Inr:
  assumes "commit_body env now jobId i c s = (Inr (response, dispatch), t)"
  shows "hasCaptureLeaseAuthority now i s" "getJob jobId s = None" "committed env now jobId c response dispatch t"
    "\<And>j. j \<noteq> jobId \<Longrightarrow> getJob j t = getJob j s" "capture_leases t = capture_leases s"
    "map sb_key (job_submissions t) = map sb_key (job_submissions s)" "job_attempts t = job_attempts s"
    "\<And>j. j \<noteq> jobId \<Longrightarrow> rows_of j t = rows_of j s"
proof -
  let ?req = "cs_request c" and ?row = "cs_row c"
  let ?key = "(sv_clientId env, rqst_client_request_id ?req)"
  let ?st = "if isDestructiveRisk (risk_of ?req) then Awaiting_confirmation else Queued"
  let ?resp = "submit_response env now jobId c"
  show auth: "hasCaptureLeaseAuthority now i s"
  proof (rule ccontr)
    assume "\<not> hasCaptureLeaseAuthority now i s"
    with assms show False by (simp add: commit_body_def)
  qed
  let ?complete = "bind (completeSubmission now ?key Captured ?resp (Some jobId))
      (\<lambda>_. ret (?resp, \<not> isDestructiveRisk (risk_of ?req)))"
  let ?queue = "bind (transitionJobState now jobId ?st [JF_queued_at now]) (\<lambda>_. ?complete)"
  let ?link = "\<lambda>job. bind (transitionJobState now jobId (jb_state job) [JF_snapshot_id (sn_id ?row)]) (\<lambda>_. ?queue)"
  let ?create = "createJob now jobId (sv_clientId env) (rqst_client_request_id ?req) ?req Created (rqst_name ?req)"
  from assms auth have "bind (persistSnapshot now ?row) (\<lambda>_. bind ?create ?link) s = (Inr (response, dispatch), t)"
    unfolding commit_body_def Let_def by simp
  from bind_Inr [OF this] obtain r1 s1 where 1: "persistSnapshot now ?row s = (Inr r1, s1)"
    and b1: "bind ?create ?link s1 = (Inr (response, dispatch), t)" by blast
  from bind_Inr [OF b1] obtain job s2 where 2: "?create s1 = (Inr job, s2)"
    and b2: "?link job s2 = (Inr (response, dispatch), t)" by blast
  from bind_Inr [OF b2] obtain r3 s3 where 3: "transitionJobState now jobId (jb_state job) [JF_snapshot_id (sn_id ?row)] s2 = (Inr r3, s3)"
    and b3: "?queue s3 = (Inr (response, dispatch), t)" by blast
  from bind_Inr [OF b3] obtain r4 s4 where 4: "transitionJobState now jobId ?st [JF_queued_at now] s3 = (Inr r4, s4)"
    and b4: "?complete s4 = (Inr (response, dispatch), t)" by blast
  from bind_Inr [OF b4] obtain r5 s5 where c5: "completeSubmission now ?key Captured ?resp (Some jobId) s4 = (Inr r5, s5)"
    and b5: "ret (?resp, \<not> isDestructiveRisk (risk_of ?req)) s5 = (Inr (response, dispatch), t)" by blast
  from b5 have r: "response = ?resp" "dispatch = (\<not> isDestructiveRisk (risk_of ?req))" "s5 = t" by simp_all
  with c5 have 5: "completeSubmission now ?key Captured ?resp (Some jobId) s4 = (Inr r5, t)" by simp
  show "getJob jobId s = None" using persistSnapshot_Inr(2) [OF 1] createJob_Inr(1) [OF 2] by simp
  have t4: "getJob k t = getJob k s4" for k using completeSubmission_Inr(2) [OF 5 refl] by (simp add: getJob_def)
  show "getJob k t = getJob k s" if "k \<noteq> jobId" for k
    using that t4 createJob_Inr(3) [OF 2] transitionJobState_Inr(3) [OF 3] transitionJobState_Inr(3) [OF 4] persistSnapshot_Inr(2) [OF 1]
    by simp
  note more = persistSnapshot_Inr(3) [OF 1] createJob_Inr(9) [OF 2] transitionJobState_Inr(6) [OF 3] transitionJobState_Inr(6) [OF 4]
  note subs = more_same_submit [OF more(1)] more_same_submit [OF more(2)] more_same_submit [OF more(3)] more_same_submit [OF more(4)]
  show "capture_leases t = capture_leases s" "map sb_key (job_submissions t) = map sb_key (job_submissions s)"
    using completeSubmission_Inr(4,5) [OF 5 refl] subs by simp_all
  show "rows_of k t = rows_of k s" if "k \<noteq> jobId" for k
    using that persistSnapshot_Inr(5) [OF 1] createJob_Inr(11) [OF 2 that] completeSubmission_Inr(2) [OF 5 refl]
      rows_of_transitionJobState [OF that, of now "jb_state job" "[JF_snapshot_id (sn_id ?row)]" s2]
      rows_of_transitionJobState [OF that, of now ?st "[JF_queued_at now]" s3] 3 4
    by (simp add: rows_of_def)
  show "job_attempts t = job_attempts s"
    using persistSnapshot_Inr(4) [OF 1] createJob_Inr(10) [OF 2] transitionJobState_Inr(5) [OF 3] transitionJobState_Inr(5) [OF 4]
      completeSubmission_Inr(6) [OF 5 refl] by simp
  have job: "getJob jobId t = Some (set_job_row (?st, now, [JF_queued_at now])
      (set_job_row (jb_state job, now, [JF_snapshot_id (sn_id ?row)]) job))"
    using t4 [of jobId] createJob_Inr(2) [OF 2] transitionJobState_Inr(1) [OF 3] transitionJobState_Inr(1) [OF 4] by simp
  have "getSnapshot (sn_id ?row) t = getSnapshot (sn_id ?row) s1"
    using createJob_Inr(8) [OF 2] transitionJobState_Inr(4) [OF 3] transitionJobState_Inr(4) [OF 4] completeSubmission_Inr(3) [OF 5 refl]
    by (simp add: getSnapshot_def)
  with job r persistSnapshot_Inr(1) [OF 1] completeSubmission_Inr(1) [OF 5 refl] createJob_Inr(4,6,7) [OF 2]
  show "committed env now jobId c response dispatch t"
    by (simp add: committed_def Let_def) (simp add: set_job_row_def)
qed

lemma submit_commit_cases:
  assumes "submit_commit env now jobId i c s = (res, t)"
  shows "case res of
      Inl e \<Rightarrow> tables_of t = tables_of s
    | Inr (response, dispatch) \<Rightarrow>
        hasCaptureLeaseAuthority now i s \<and> getJob jobId s = None \<and> committed env now jobId c response dispatch t \<and>
        (\<forall>j. j \<noteq> jobId \<longrightarrow> getJob j t = getJob j s) \<and> (capture_wf s \<longrightarrow> capture_wf t) \<and> job_attempts t = job_attempts s \<and>
        (\<forall>j. j \<noteq> jobId \<longrightarrow> rows_of j t = rows_of j s)"
proof -
  obtain r u where tx: "runLifecycleTransaction rollback_submit (commit_body env now jobId i c) s = (r, u)" by fastforce
  note cases = runLifecycleTransaction_cases [OF tx]
  show ?thesis
  proof (cases r)
    case (Inl e)
    with assms tx have "res = Inl e" "t = u" by (auto simp: submit_commit_def bind_apply)
    with cases Inl show ?thesis by simp
  next
    case (Inr a)
    obtain response dispatch where a: "a = (response, dispatch)" by fastforce
    from cases Inr a obtain s0 s1 where start: "tx_start s s0" and body: "commit_body env now jobId i c s0 = (Inr (response, dispatch), s1)"
        and u: "tables_of u = tables_of s1" by auto
    let ?t = "u\<lparr>capture_leases := sql_update (owns_lease i) (\<lambda>l. l\<lparr>cl_expires_at := 0, cl_updated_at := now\<rparr>) (capture_leases u)\<rparr>"
    have t: "res = Inr (response, dispatch)" "t = ?t"
      using assms tx Inr a by (auto simp: submit_commit_def bind_apply releaseCaptureLease_def)
    have s0: "tables_of s0 = tables_of s" using start by (simp add: tx_start_def)
    note b = commit_body_Inr [OF body]
    have get: "getJob j t = getJob j s1" "getSnapshot x t = getSnapshot x s1" "getSubmission k t = getSubmission k s1" for j x k
      using tables_getters [OF u] by (simp_all add: t(2) getJob_def getSnapshot_def)
    have "committed env now jobId c response dispatch t"
      using b(3) by (simp add: committed_def get)
    moreover have "capture_wf t" if wf: "capture_wf s"
    proof -
      have "cl_key (l\<lparr>cl_expires_at := 0, cl_updated_at := now\<rparr>) = cl_key l" for l by (simp add: cl_key_def)
      then have "capture_wf t = capture_wf u" unfolding t(2) by (rule wf_update(1))
      also have "\<dots> = capture_wf s"
      proof -
        have 1: "capture_leases u = capture_leases s" "map sb_key (job_submissions u) = map sb_key (job_submissions s)"
          using u s0 b(5,6) by (simp_all add: tables_of_def)
        from 1(2) have "sb_key ` set (job_submissions u) = sb_key ` set (job_submissions s)" by (metis list.set_map)
        with 1 show ?thesis by (simp add: capture_wf_def)
      qed
      finally show ?thesis using wf by simp
    qed
    moreover have "job_attempts t = job_attempts s" using u s0 b(7) by (simp add: t(2) tables_of_def)
    moreover have "rows_of j t = rows_of j s" if "j \<noteq> jobId" for j
      using u s0 b(8) [OF that] by (simp add: t(2) tables_of_def rows_of_def)
    ultimately show ?thesis using t b(1,2,4) get tables_getters [OF s0] by simp
  qed
qed

lemma no_authority_when_settled:
  assumes "capture_wf s" "getSubmission (ci_key i) s = Some sub" "sb_state sub \<noteq> Capturing"
  shows "\<not> hasCaptureLeaseAuthority now i s"
proof
  assume "hasCaptureLeaseAuthority now i s"
  then obtain l r where "r \<in> set (job_submissions s)" "sb_key r = ci_key i" "sb_state r = Capturing"
    unfolding hasCaptureLeaseAuthority_def owns_lease_def by auto
  with get_row(1) [OF assms(1), of r "ci_key i"] assms(2,3) show False by auto
qed

lemma commit_without_authority:
  assumes "\<not> hasCaptureLeaseAuthority now i s" "submit_commit env now jobId i c s = (res, t)"
  shows "(\<exists>e. res = Inl e) \<and> tables_of t = tables_of s"
  using submit_commit_cases [OF assms(2)] assms(1) by (cases res) auto


section \<open>Confirmation tokens\<close>

lemma verify_issued_confirmation:
  assumes jwt: "jwt_env_ok jwt (id_signingPrivateKeyPem identity) (id_signingPublicKeyPem identity)"
    and ne: "cc_job_id c \<noteq> []" "cc_request_hash c \<noteq> []" "cc_content_id c \<noteq> []" "cc_risk_level c \<noteq> []"
    and live: "now' div 1000 < now div 1000 + CONFIRMATION_TTL_SECONDS"
  shows "verifyConfirmationToken jwt num now' identity (issueConfirmationToken jwt now identity c) = Some c"
proof -
  let ?claims = "confirmation_payload (id_controllerId identity) (now div 1000) c"
  let ?full = "obj_spread [(''iat'', JNum (of_int (now div 1000)))] ?claims"
  have d: "distinct (map fst ?claims)" by (simp add: confirmation_payload_def)
  have look: "(k, v) \<in> set ?claims \<Longrightarrow> map_of ?full k = Some v" for k v by (rule obj_spread_over [OF d])
  have fields: "map_of ?full ''exp'' = Some (JNum (of_int (now div 1000 + CONFIRMATION_TTL_SECONDS)))"
    "map_of ?full ''aud'' = Some (JStr (id_controllerId identity))" "map_of ?full ''sub'' = Some (JStr (cc_job_id c))"
    "map_of ?full ''request_hash'' = Some (JStr (cc_request_hash c))" "map_of ?full ''content_id'' = Some (JStr (cc_content_id c))"
    "map_of ?full ''risk_level'' = Some (JStr (cc_risk_level c))"
    by (rule look; simp add: confirmation_payload_def)+
  have "of_int (now' div 1000) < (of_int (now div 1000 + CONFIRMATION_TTL_SECONDS) :: rat)" using live by simp
  then have "verifyEdDsaJwt jwt (now' div 1000) (id_signingPublicKeyPem identity) (issueConfirmationToken jwt now identity c) = Some ?full"
    unfolding issueConfirmationToken_def by (rule verify_sign [OF jwt fields(1)])
  with fields ne show ?thesis
    by (simp add: verifyConfirmationToken_def str_of_def claim_text_def js_nullish_def js_String_of_def)
qed

lemma handleJobConfirm_awaiting:
  fixes env :: submit_env and now :: ts and token :: string
  assumes job: "getJob j s = Some job" "jb_state job = Awaiting_confirmation" and tx: "\<not> in_transaction s"
    and snap: "Option.bind (jb_snapshot_id job) (\<lambda>i. getSnapshot i s) = Some snap" and risk: "rqst_risk_level (jb_request job) = Some risk"
  defines "verdict \<equiv> verifyConfirmationToken (re_jwt (sv_remote env)) (re_num_str (sv_remote env)) now (re_identity (sv_remote env)) token"
  shows "if verdict = Some (claims_of env j (jb_request job) (sn_content_id snap))
         then \<exists>t job'. handleJobConfirm env now j token s = (Inr (Confirm_queued j (jb_request job)), t) \<and>
                getJob j t = Some job' \<and> jb_state job' = Queued
         else \<exists>m t job'. handleJobConfirm env now j token s = (Inr (Confirm_error m), t) \<and> getJob j t = Some job' \<and>
                (job' = job \<or> jb_state job' = Completed \<and> jb_outcome job' = Some Cancelled)"
proof -
  have id: "jb_id job = j" using job(1) by (rule getJob_id)
  have tr: "transitionJobState now j st fs s = (Inr (set_job_row (st, now, fs) job), job_updated now j st fs s)"
    if "no_snapshot_field fs" for st fs
    by (rule transitionJobState_existing [OF job(1) that tx])
  have nsf: "no_snapshot_field (expired_fields now)" "no_snapshot_field [JF_queued_at now]"
    by (simp_all add: no_snapshot_field_def expired_fields_def cancelled_fields_def)
  have rej: "\<exists>m t job'. reject_token now job s = (Inr (Confirm_error m), t) \<and> getJob j t = Some job' \<and>
      (job' = job \<or> jb_state job' = Completed \<and> jb_outcome job' = Some Cancelled)"
    using job(1) id tr [OF nsf(1), of Completed]
    by (simp add: reject_token_def bind_apply)
      (simp add: set_job_row_def expired_fields_def cancelled_fields_def)
  have unfold: "handleJobConfirm env now j token s =
      (case verdict of
         Some claims \<Rightarrow>
           if cc_job_id claims \<noteq> j then reject_token now job s
           else if cc_request_hash claims \<noteq> sv_requestHash env (jb_request job) \<or> cc_content_id claims \<noteq> sn_content_id snap \<or>
                cc_risk_level claims \<noteq> risk_name risk then (Inr (Confirm_error ''Confirmation token binding mismatch''), s)
           else (Inr (Confirm_queued j (jb_request job)), job_updated now j Queued [JF_queued_at now] s)
       | None \<Rightarrow> reject_token now job s)"
    using job snap risk id tr [OF nsf(2), of Queued]
    by (simp add: handleJobConfirm_def verdict_def Let_def bind_apply split: option.split)
  show ?thesis
  proof (cases verdict)
    case None
    with unfold rej show ?thesis by simp
  next
    case (Some claims)
    have "claims = claims_of env j (jb_request job) (sn_content_id snap) \<longleftrightarrow>
        cc_job_id claims = j \<and> cc_request_hash claims = sv_requestHash env (jb_request job) \<and>
        cc_content_id claims = sn_content_id snap \<and> cc_risk_level claims = risk_name risk"
      using risk by (cases claims) (auto simp: claims_of_def risk_of_def)
    with Some unfold rej job show ?thesis by auto
  qed
qed

end
