(* ===== verification/Job_Submit_Safety.thy ===== *)
theory Job_Submit_Safety
  imports Job_Submit_Laws Local_Runner_Safety Scheduler_Laws
begin

text \<open>
  What job submission guarantees: a commit is all or nothing and happens at most once per idempotency
  key, a dangerous job is not dispatched before a token bound to it was presented, stale confirmations
  end, and a waiter whose job changes is woken.
\<close>

section \<open>The confirmation gate\<close>

text \<open>
  \<open>gated j s\<close>: job \<open>j\<close> waits for its confirmation, or is over, and no attempt was ever made for it.
\<close>

definition gated :: "string \<Rightarrow> 'z controller_db_scheme \<Rightarrow> bool" where
  "gated j s =
     (rows_of j s \<noteq> [] \<and> (\<forall>r \<in> set (rows_of j s). jb_state r \<in> {Awaiting_confirmation, Completed}) \<and>
      (\<forall>a \<in> set (job_attempts s). at_job_id a \<noteq> j))"

lemma gated_cong: "rows_of j t = rows_of j s \<Longrightarrow> job_attempts t = job_attempts s \<Longrightarrow> gated j t = gated j s"
  by (simp add: gated_def)

lemma sql_get_filter: "sql_get P t = (case filter P t of [] \<Rightarrow> None | r # _ \<Rightarrow> Some r)"
  by (induction t) auto

lemma rows_of_getJob: "getJob j s = (case rows_of j s of [] \<Rightarrow> None | r # _ \<Rightarrow> Some r)"
  unfolding rows_of_def getJob_def by (rule sql_get_filter)

lemma filter_update_own:
  "filter (\<lambda>r. jb_id r = j) (sql_update (\<lambda>r. jb_id r = j) (set_job_row u) t) = map (set_job_row u) (filter (\<lambda>r. jb_id r = j) t)"
  by (induction t) auto

lemma rows_of_own:
  "rows_of j (snd (transitionJobState now j st fs s)) = rows_of j s \<or>
   rows_of j (snd (transitionJobState now j st fs s)) = map (set_job_row (st, now, fs)) (rows_of j s)"
  by (auto simp: rows_of_def transitionJobState_def bind_apply assertJobLifecycleWriteAllowed_def Let_def
      notifyJobLifecycleChanged_def filter_update_own split: option.splits)

lemma gated_transitionJobState: "k \<noteq> j \<or> st = Completed \<Longrightarrow> preserves (gated j) (transitionJobState now k st fs)"
proof (rule preservesI)
  fix s
  assume k: "k \<noteq> j \<or> st = Completed" and g: "gated j s"
  show "gated j (snd (transitionJobState now k st fs s))"
  proof (cases "k = j")
    case True
    with k g rows_of_own [of j now st fs s] show ?thesis by (auto simp: gated_def)
  next
    case False
    then have "rows_of j (snd (transitionJobState now k st fs s)) = rows_of j s" by (simp add: rows_of_transitionJobState)
    with g show ?thesis by (simp add: gated_def)
  qed
qed

lemma gated_transitionAttemptState: "preserves (gated j) (transitionAttemptState a st fs)"
  by (rule preservesI) (auto simp: gated_def rows_of_def transitionAttemptState_def Let_def set_sql_update split: option.split)

lemma gated_insertAttempt: "at_job_id row \<noteq> j \<Longrightarrow> preserves (gated j) (insertAttempt row)"
  by (rule preservesI) (auto simp: gated_def rows_of_def insertAttempt_def)

lemma gated_more: "(\<And>s. jobs (f s) = jobs s \<and> job_attempts (f s) = job_attempts s) \<Longrightarrow> preserves (gated j) (modify f)"
  by (rule preservesI) (simp add: gated_def rows_of_def)

lemma gated_same:
  "(\<And>s. jobs (snd (m s)) = jobs s) \<Longrightarrow> (\<And>s. job_attempts (snd (m s)) = job_attempts s) \<Longrightarrow> preserves (gated j) m"
  by (rule preservesI) (simp add: gated_def rows_of_def)

lemma gated_notify: "preserves (gated j) (notifyJobLifecycleChanged k)"
  by (rule gated_same) (simp_all add: notifyJobLifecycleChanged_def)

lemma gated_sendWsFrame: "preserves (gated j) (sendWsFrame conn a l e m)"
  by (rule gated_same) (simp_all add: sendWsFrame_def)

lemma gated_createJobEvent: "preserves (gated j) (createJobEvent now ty k a)"
  by (rule gated_same) (simp_all add: createJobEvent_def Let_def)

lemma gated_recordEvent: "preserves (gated j) (recordEvent e)"
  by (rule gated_same) (simp_all add: recordEvent_def)

lemmas gated_rules = preserves_rules gated_transitionAttemptState gated_notify gated_sendWsFrame gated_createJobEvent
  gated_recordEvent

lemma gated_recordCancelEvent: "preserves (gated j) (recordCancelEvent now k reason b)"
  unfolding recordCancelEvent_def by (intro gated_rules)

lemma gated_requestJobCancel: "preserves (gated j) (requestJobCancel now k)"
proof -
  have runs: "preserves (gated j) (modify (set_run r f))" for r f
    by (rule gated_more) (simp add: set_run_def split: option.split)
  show ?thesis
    unfolding requestJobCancel_def cancel_closure_def child_kill_def
    by (intro preserves_rules(1-7) gated_transitionAttemptState gated_transitionJobState gated_more runs disjI2) simp_all
qed

lemma gated_requestRemoteJobCancel: "preserves (gated j) (requestRemoteJobCancel k reason)"
  by (rule gated_same)
    (auto simp: requestRemoteJobCancel_def sendWsFrame_def bind_apply Let_def split: option.split)

lemma gated_cancel_remote: "preserves (gated j) (cancel_remote now b k reason a)"
  unfolding cancel_remote_def
  by (intro preserves_rules(1-7) gated_transitionAttemptState gated_transitionJobState gated_requestRemoteJobCancel disjI2) simp

lemma gated_handleJobCancel: "preserves (gated j) (handleJobCancel now b k reason)"
  unfolding handleJobCancel_def
  by (intro preserves_rules(1-7) gated_requestJobCancel gated_cancel_remote gated_recordCancelEvent)

lemma gated_expire: "preserves (gated j) (expireStaleConfirmations now ttl)"
  unfolding expireStaleConfirmations_def
  by (intro preserves_rules(1-7) gated_transitionJobState disjI2) simp

lemma gated_reject: "preserves (gated j) (reject_token now job)"
  unfolding reject_token_def
  by (intro preserves_rules(1-7) gated_transitionJobState disjI2) simp

lemma transitionJobState_Inl:
  "getJob j s \<noteq> None \<Longrightarrow> transitionJobState now j st fs s = (Inl e, t) \<Longrightarrow> t = s"
  by (auto simp: transitionJobState_def bind_apply assertJobLifecycleWriteAllowed_def Let_def getJob_sql_update
      notifyJobLifecycleChanged_def split: if_splits option.splits)

text \<open>The ways a confirmation ends.\<close>

lemma handleJobConfirm_ends:
  assumes "handleJobConfirm env now k token s = (res, t)"
  shows "t = s \<or> (\<exists>job. t = snd (reject_token now job s)) \<or>
         (res = Inr (Confirm_queued k (jb_request (the (getJob k s)))) \<and> t = snd (transitionJobState now k Queued [JF_queued_at now] s))"
proof (cases "getJob k s")
  case None
  with assms show ?thesis by (simp add: handleJobConfirm_def)
next
  case (Some job)
  have id: "jb_id job = k" using Some by (rule getJob_id)
  have q: "bind (transitionJobState now k Queued [JF_queued_at now]) (\<lambda>_. ret (Confirm_queued k (jb_request job))) s = (res, t) \<Longrightarrow>
      t = s \<or> res = Inr (Confirm_queued k (jb_request job)) \<and> t = snd (transitionJobState now k Queued [JF_queued_at now] s)"
    using transitionJobState_Inl [of k s now Queued] Some by (auto simp: bind_apply split: prod.splits sum.splits)
  have rej: "reject_token now job s = (res, t) \<Longrightarrow> \<exists>job. t = snd (reject_token now job s)" by (metis snd_conv)
  show ?thesis
    using assms Some id q rej
    by (auto simp: handleJobConfirm_def Let_def split: if_splits option.splits)
qed

lemma gated_confirm:
  assumes g: "gated j s" and ok: "k \<noteq> j \<or> \<not> (\<exists>i rq. res = Inr (Confirm_queued i rq))" and "handleJobConfirm env now k token s = (res, t)"
  shows "gated j t"
  using handleJobConfirm_ends [OF assms(3)] g ok preservesD [OF gated_reject g] preservesD [OF gated_transitionJobState g, of k Queued]
  by auto

lemma gated_handleJobConfirm:
  assumes "k \<noteq> j"
  shows "preserves (gated j) (handleJobConfirm env now k token)"
proof (rule preservesI)
  fix s
  assume g: "gated j s"
  obtain res t where c: "handleJobConfirm env now k token s = (res, t)" by fastforce
  from gated_confirm [OF g disjI1 [OF assms] c] c show "gated j (snd (handleJobConfirm env now k token s))" by simp
qed

lemma gated_admin: "k \<noteq> j \<Longrightarrow> preserves (gated j) (confirmJobByAdmin env now k)"
  unfolding confirmJobByAdmin_def
  by (intro preserves_rules(1-7) gated_handleJobConfirm) (auto split: confirm_reply.split intro: preserves_rules)

section \<open>Dispatch and the gate\<close>

lemma gated_runLocalJob: "preserves (gated j) (runLocalJob env r k)"
  by (rule gated_same)
    (auto simp: runLocalJob_def forget_cancel_def acquireAdmission_def goto_def set_run_def split: option.splits)

lemma gated_initiate: "k \<noteq> j \<Longrightarrow> preserves (gated j) (initiateRemoteAttempt now l a k g tc)"
proof (rule preservesI)
  fix s :: "'a remote_state_scheme"
  assume k: "k \<noteq> j" and g: "gated j s"
  have "preserves (gated j) (bind (insertAttempt row) (\<lambda>_. bind (transitionJobState now k Leasing []) (\<lambda>_.
      bind (sendWsFrame conn a l e off) (\<lambda>_. ret a))))" if "at_job_id row = k" for row conn e off
    using that k by (intro preserves_rules(1-7) gated_insertAttempt gated_transitionJobState gated_sendWsFrame disjI1) auto
  from preservesD [OF this g] g show "gated j (snd (initiateRemoteAttempt now l a k g' tc s))" for g'
    by (auto simp: initiateRemoteAttempt_def Let_def blank_attempt_def split: option.splits)
qed

lemma gated_wait_note:
  "k \<noteq> j \<Longrightarrow> preserves (gated j) (modify (\<lambda>s. s\<lparr>jobs := sql_update (\<lambda>x. jb_id x = k \<and> jb_state x = Queued)
     (\<lambda>x. x\<lparr>jb_result_json := v, jb_updated_at := now\<rparr>) (jobs s)\<rparr>))"
  by (rule preservesI) (simp add: gated_def rows_of_def rows_of_sql_update)

lemma gated_by_action:
  assumes "preserves (gated j) m1" "preserves (gated j) m2" "preserves (gated j) m3" "\<And>x. preserves (gated j) (m4 x)" "preserves (gated j) m5"
  shows "preserves (gated j) (case p of (Sched_local_fallback, _) \<Rightarrow> m1 | (Sched_fail_fast, _) \<Rightarrow> m2 | (Sched_wait, _) \<Rightarrow> m3
      | (Remote, Some agent) \<Rightarrow> m4 agent | (Remote, None) \<Rightarrow> m5)"
  using assms by (auto split: prod.split sched_action.split option.split)

lemma gated_dispatch_finish:
  "dw_jobId w \<noteq> j \<Longrightarrow> preserves (gated j) (dispatch_finish env now continue w sub lfs host l a r)"
  unfolding dispatch_finish_def Let_def
  by (intro preserves_rules(1-6) gated_by_action gated_runLocalJob gated_transitionJobState disjI1 gated_wait_note gated_notify gated_initiate)

text \<open>
  \<open>gate_step env j\<close>: what the Controller does around job \<open>j\<close> without accepting a confirmation for it.
  Beside the state there are the dispatches in flight and the rows a queue scan still has to dispatch:
  a dispatch starts after a commit that asks for it, after an accepted confirmation, and for a scanned
  row. \<open>g_other\<close> covers the handlers of attempts and activations, which touch only jobs that have one.
\<close>

record gate_state =
  g_db :: "unit runner_state_scheme"
  g_dispatches :: "dispatch_wait list"
  g_rows :: "(string \<times> job_request) list"

definition started :: "string \<Rightarrow> job_request \<Rightarrow> 'z remote_state_scheme \<Rightarrow> dispatch_wait list" where
  "started jobId request s =
     (case fst (dispatch_begin True jobId request s) of Inr (Some w) \<Rightarrow> [w] | _ \<Rightarrow> [])"

inductive gate_step :: "submit_env \<Rightarrow> string \<Rightarrow> gate_state \<Rightarrow> gate_state \<Rightarrow> bool" for env j where
  g_begin: "gate_step env j g (g\<lparr>g_db := snd (handleJobSubmit_begin env now random raw (g_db g))\<rparr>)"
| g_renew: "gate_step env j g (g\<lparr>g_db := snd (submit_renew now i (g_db g))\<rparr>)"
| g_commit: "submit_commit env now jobId i c (g_db g) = (res, t) \<Longrightarrow>
    gate_step env j g (g\<lparr>g_db := t, g_dispatches := g_dispatches g @
      (case res of Inr (_, True) \<Rightarrow> started jobId (cs_request c) t | _ \<Rightarrow> [])\<rparr>)"
| g_fail: "gate_step env j g (g\<lparr>g_db := snd (submit_fail now i e (g_db g))\<rparr>)"
| g_scan: "gate_step env j g (g\<lparr>g_rows := g_rows g @ tryDispatchQueuedJobs_rows (g_db g)\<rparr>)"
| g_row: "(k, rq) \<in> set (g_rows g) \<Longrightarrow>
    gate_step env j g (g\<lparr>g_dispatches := g_dispatches g @ started k rq (g_db g), g_rows := remove1 (k, rq) (g_rows g)\<rparr>)"
| g_finish: "w \<in> set (g_dispatches g) \<Longrightarrow>
    gate_step env j g (g\<lparr>g_db := snd (dispatch_finish env now continue w sub lfs host l a r (g_db g)),
                         g_dispatches := remove1 w (g_dispatches g)\<rparr>)"
| g_confirm: "handleJobConfirm env now k token (g_db g) = (res, t) \<Longrightarrow>
    k \<noteq> j \<or> \<not> (\<exists>i rq. res = Inr (Confirm_queued i rq)) \<Longrightarrow>
    gate_step env j g (g\<lparr>g_db := t, g_dispatches := g_dispatches g @
      (case res of Inr (Confirm_queued i rq) \<Rightarrow> started i rq t | _ \<Rightarrow> [])\<rparr>)"
| g_admin: "confirmJobByAdmin env now k (g_db g) = (res, t) \<Longrightarrow> k \<noteq> j \<Longrightarrow>
    gate_step env j g (g\<lparr>g_db := t, g_dispatches := g_dispatches g @
      (case res of Inr (i, rq) \<Rightarrow> started i rq t | _ \<Rightarrow> [])\<rparr>)"
| g_expire: "gate_step env j g (g\<lparr>g_db := snd (expireStaleConfirmations now ttl (g_db g))\<rparr>)"
| g_cancel: "gate_step env j g (g\<lparr>g_db := snd (handleJobCancel now agents' k reason (g_db g))\<rparr>)"
| g_other: "rows_of j t = rows_of j (g_db g) \<Longrightarrow>
    filter (\<lambda>a. at_job_id a = j) (job_attempts t) = filter (\<lambda>a. at_job_id a = j) (job_attempts (g_db g)) \<Longrightarrow>
    gate_step env j g (g\<lparr>g_db := t\<rparr>)"

definition gate_inv :: "string \<Rightarrow> gate_state \<Rightarrow> bool" where
  "gate_inv j g = (gated j (g_db g) \<and> j \<notin> dw_jobId ` set (g_dispatches g) \<and> j \<notin> fst ` set (g_rows g))"

lemma started_job: "w \<in> set (started k rq s) \<Longrightarrow> dw_jobId w = k"
  by (auto simp: started_def dispatch_begin_def Let_def)

lemma set_queue_insert: "set (queue_insert x xs) = insert x (set xs)"
  by (induction xs) auto

lemma rows_queued: "k \<in> fst ` set (tryDispatchQueuedJobs_rows s) \<Longrightarrow> \<exists>r \<in> set (jobs s). jb_id r = k \<and> jb_state r = Queued"
proof -
  have "set (foldr queue_insert xs []) = set xs" for xs by (induction xs) (auto simp: set_queue_insert)
  then show "k \<in> fst ` set (tryDispatchQueuedJobs_rows s) \<Longrightarrow> ?thesis"
    by (auto simp: tryDispatchQueuedJobs_rows_def sql_all_def)
qed

text \<open>The capture operations leave jobs and attempts alone.\<close>

definition core_same :: "'z controller_db_scheme \<Rightarrow> 'z controller_db_scheme \<Rightarrow> bool" where
  "core_same s t = (jobs t = jobs s \<and> job_attempts t = job_attempts s)"

interpretation core_same: step_relation core_same
  by unfold_locales (auto simp: core_same_def)

lemma gated_core: "obeys core_same m \<Longrightarrow> preserves (gated j) m"
  by (auto simp: obeys_def core_same_def intro!: gated_same)

lemma core_release: "obeys core_same (releaseCaptureLease now i)"
  by (simp add: obeys_def core_same_def releaseCaptureLease_def)

lemma core_failSubmission: "obeys core_same (failSubmissionIfCaptureLeaseIsAuthoritative now i p)"
  by (simp add: obeys_def core_same_def failSubmissionIfCaptureLeaseIsAuthoritative_def Let_def)

lemma core_ttl: "obeys core_same (capture_ttl options)"
  by (simp add: obeys_def core_same_def capture_ttl_def Let_def)

lemma core_renew: "obeys core_same (renewCaptureLease now i options)"
  unfolding renewCaptureLease_def
  by (rule core_same.obeys_bind [OF core_ttl]) (simp add: obeys_def core_same_def Let_def)

lemma core_reclaim: "obeys core_same (reclaimExpiredCaptureLease now random k ow g options)"
  unfolding reclaimExpiredCaptureLease_def
  by (rule core_same.obeys_bind [OF core_ttl]) (simp add: obeys_def core_same_def Let_def)

lemma core_reclaim_simps:
  "jobs (snd (reclaimExpiredCaptureLease now random k ow g options s)) = jobs s"
  "job_attempts (snd (reclaimExpiredCaptureLease now random k ow g options s)) = job_attempts s"
  by (rule obeysD [OF core_reclaim, unfolded core_same_def, THEN conjunct1]
      obeysD [OF core_reclaim, unfolded core_same_def, THEN conjunct2])+

lemma core_claim: "obeys core_same (claim_lease now random k options submission ttl)"
  by (simp add: obeys_def claim_state core_same_def Let_def core_reclaim_simps split: option.split)

lemma core_acquire: "obeys core_same (acquireCaptureLease now random k options)"
proof -
  have "obeys core_same (bind (capture_ttl options) (claim_lease now random k options sub))" for sub
    by (intro core_same.obeys_bind core_ttl core_claim)
  from obeysD [OF this] show ?thesis
    by (auto simp: obeys_def acquireCaptureLease_def core_same.R_refl split: option.split)
qed

lemma core_reserve: "obeys core_same (reserveCaptureLease now random k options)"
proof -
  have "obeys core_same (reserveSubmission now k)"
    by (auto simp: obeys_def core_same_def reserveSubmission_def Let_def split: option.split)
  then show ?thesis unfolding reserveCaptureLease_def Let_def
    by (intro core_same.obeys_bind core_same.obeys_if core_same.obeys_gets core_same.obeys_ret core_acquire)
qed

lemma core_begin: "obeys core_same (handleJobSubmit_begin env now random raw)"
proof -
  have "obeys core_same (replay_submission x)" for x
    by (auto simp: replay_submission_def intro: core_same.obeys_ret core_same.obeys_throw split: option.split submission_state.split)
  then show ?thesis unfolding handleJobSubmit_begin_def Let_def
    by (intro core_same.obeys_option core_same.obeys_bind core_same.obeys_if core_reserve core_same.obeys_ret core_same.obeys_throw)
qed

lemma core_fail: "obeys core_same (submit_fail now i e)"
  unfolding submit_fail_def
  by (intro core_same.obeys_if core_same.obeys_bind core_release core_failSubmission core_same.obeys_ret)

lemma gated_commit:
  assumes g: "gated j s" and c: "submit_commit env now jobId i c s = (res, t)"
  shows "gated j t \<and> (res = Inr (resp, True) \<longrightarrow> jobId \<noteq> j)"
proof -
  have j: "getJob j s \<noteq> None" using g by (auto simp: gated_def rows_of_getJob split: list.split)
  note cases = submit_commit_cases [OF c]
  show ?thesis
  proof (cases res)
    case (Inl e)
    with cases have "tables_of t = tables_of s" by simp
    then have "rows_of j t = rows_of j s" "job_attempts t = job_attempts s" by (simp_all add: tables_of_def rows_of_def)
    with g Inl show ?thesis by (simp add: gated_def)
  next
    case (Inr a)
    with cases have "getJob jobId s = None" "job_attempts t = job_attempts s" "\<forall>j. j \<noteq> jobId \<longrightarrow> rows_of j t = rows_of j s"
      by (auto split: prod.splits)
    moreover from this j have "jobId \<noteq> j" by auto
    ultimately show ?thesis using g by (simp add: gated_def)
  qed
qed

lemma started_outcome: "x \<in> set (case res of Inr (Confirm_queued i rq) \<Rightarrow> started i rq t | _ \<Rightarrow> []) \<Longrightarrow>
    \<exists>i rq. res = Inr (Confirm_queued i rq) \<and> dw_jobId x = i"
  by (auto split: sum.splits confirm_reply.splits dest: started_job)

lemma confirm_queued_job:
  assumes "handleJobConfirm env now k token s = (Inr (Confirm_queued i rq), t)"
  shows "i = k"
  using assms by (auto simp: handleJobConfirm_def reject_token_def Let_def bind_apply getJob_id
      split: option.splits if_splits prod.splits sum.splits dest!: getJob_id)

lemma core_submit_renew: "obeys core_same (submit_renew now i)"
  by (simp add: obeys_def submit_renew_def obeysD [OF core_renew])

lemma gate_inv_step:
  assumes "gate_step env j g g'" and "gate_inv j g"
  shows "gate_inv j g'"
  using assms
proof cases
  case (g_commit now jobId i c res t)
  have "gated j (g_db g)" using assms(2) by (simp add: gate_inv_def)
  note gated_commit [OF this g_commit(2)]
  then show ?thesis using assms(2) g_commit(1)
    by (auto simp: gate_inv_def split: sum.splits prod.splits bool.splits dest: started_job)
next
  case (g_confirm now k token res t)
  have g: "gated j (g_db g)" using assms(2) by (simp add: gate_inv_def)
  have "dw_jobId x \<noteq> j" if "x \<in> set (case res of Inr (Confirm_queued i rq) \<Rightarrow> started i rq t | _ \<Rightarrow> [])" for x
    using started_outcome [OF that] g_confirm(2,3) by (auto dest: confirm_queued_job)
  with gated_confirm [OF g g_confirm(3,2)] assms(2) g_confirm(1) show ?thesis by (auto simp: gate_inv_def)
next
  case (g_admin now k res t)
  have g: "gated j (g_db g)" using assms(2) by (simp add: gate_inv_def)
  have "gated j t" using preservesD [OF gated_admin [OF g_admin(3)] g, of env now] g_admin(2) by simp
  moreover have "i = k" if "res = Inr (i, rq)" for i rq
    using g_admin(2) that by (auto simp: confirmJobByAdmin_def bind_apply split: option.splits if_splits prod.splits sum.splits
        confirm_reply.splits dest: confirm_queued_job)
  ultimately show ?thesis using assms(2) g_admin(1,3)
    by (auto simp: gate_inv_def split: sum.splits prod.splits dest: started_job)
next
  case g_scan
  have "j \<notin> fst ` set (tryDispatchQueuedJobs_rows (g_db g))"
    using assms(2) rows_queued [of j "g_db g"] by (fastforce simp: gate_inv_def gated_def rows_of_def)
  with assms(2) g_scan show ?thesis by (auto simp: gate_inv_def)
next
  case (g_row k rq)
  then show ?thesis using assms(2) by (force simp: gate_inv_def dest: started_job set_remove1_subset [THEN subsetD])
next
  case (g_finish w)
  then show ?thesis using assms(2) by (force simp: gate_inv_def dest: set_remove1_subset [THEN subsetD] intro: preservesD [OF gated_dispatch_finish])
next
  case g_other
  then show ?thesis using assms(2) by (auto simp: gate_inv_def gated_def filter_empty_conv)
qed (use assms(2) in \<open>simp_all add: gate_inv_def preservesD [OF gated_core [OF core_begin]] preservesD [OF gated_core [OF core_fail]]
    preservesD [OF gated_core [OF core_submit_renew]] preservesD [OF gated_expire] preservesD [OF gated_handleJobCancel]\<close>)

section \<open>Properties\<close>

text \<open>
  (C15) Safety: a job that waits for confirmation is not run before it is confirmed. Whatever submissions,
  queue scans, dispatches, expiries, cancellations and confirmations of other jobs are interleaved, as
  long as no confirmation of this job is accepted it is still waiting or over, it has no attempt, and no
  dispatch of it is in flight.
\<close>

theorem dangerous_job_waits_for_confirmation:
  assumes job: "getJob j (g_db g) = Some job" "jb_state job = Awaiting_confirmation"
    and one: "length (rows_of j (g_db g)) = 1" and none: "\<forall>a \<in> set (job_attempts (g_db g)). at_job_id a \<noteq> j"
    and idle: "g_dispatches g = []" "g_rows g = []"
    and steps: "(gate_step env j)\<^sup>*\<^sup>* g g'"
  shows "(\<exists>job'. getJob j (g_db g') = Some job' \<and> jb_state job' \<in> {Awaiting_confirmation, Completed}) \<and>
    (\<forall>a \<in> set (job_attempts (g_db g')). at_job_id a \<noteq> j) \<and>
    j \<notin> dw_jobId ` set (g_dispatches g') \<and> j \<notin> fst ` set (tryDispatchQueuedJobs_rows (g_db g'))"
proof -
  have "rows_of j (g_db g) = [job]"
    using job(1) one by (cases "rows_of j (g_db g)") (auto simp: rows_of_getJob)
  then have "gate_inv j g" using job(2) idle none by (simp add: gate_inv_def gated_def)
  with steps have inv: "gate_inv j g'" by (induction rule: rtranclp_induct) (auto intro: gate_inv_step)
  then have "\<exists>job'. getJob j (g_db g') = Some job' \<and> jb_state job' \<in> {Awaiting_confirmation, Completed}"
    by (cases "rows_of j (g_db g')") (auto simp: gate_inv_def gated_def rows_of_getJob)
  moreover have "j \<notin> fst ` set (tryDispatchQueuedJobs_rows (g_db g'))"
    using inv rows_queued [of j "g_db g'"] by (fastforce simp: gate_inv_def gated_def rows_of_def)
  ultimately show ?thesis using inv by (auto simp: gate_inv_def gated_def)
qed

text \<open>
  Functional: a commit is all or nothing. It either fails and leaves every table as it was, or it
  had the authority of the capture lease and, in one step, the job exists with its snapshot, queued or
  (for a dangerous request) awaiting confirmation, the submission stores the response and the job, and
  no other job and no attempt changed. Only a job that is not dangerous is dispatched at once.
\<close>

theorem submission_commit_all_or_nothing:
  assumes "submit_commit env now jobId i c s = (res, t)"
  shows "case res of
      Inl e \<Rightarrow> tables_of t = tables_of s
    | Inr (response, dispatch) \<Rightarrow>
        hasCaptureLeaseAuthority now i s \<and> getJob jobId s = None \<and> committed env now jobId c response dispatch t \<and>
        (\<forall>k. k \<noteq> jobId \<longrightarrow> getJob k t = getJob k s) \<and> job_attempts t = job_attempts s"
  using submit_commit_cases [OF assms] by (auto split: sum.splits)

text \<open>
  (C14) Safety: a submission commits once. After a successful commit, whatever the capture operations of
  any caller do, every further commit for the same client request fails and changes no table, whoever
  holds or held the lease, and a retry of the request is answered with the stored response.
\<close>

theorem submission_commits_once:
  assumes wf: "capture_wf s" and first: "submit_commit env now jobId i c s = (Inr (response, dispatch), t)"
    and key: "k = (sv_clientId env, rqst_client_request_id (cs_request c))"
    and steps: "capture_step\<^sup>*\<^sup>* t u"
  shows "(ci_key i' = k \<longrightarrow> submit_commit env now' jobId' i' c' u = (res, v) \<longrightarrow> (\<exists>e. res = Inl e) \<and> tables_of v = tables_of u) \<and>
    (rqst_client_request_id rq = snd k \<longrightarrow>
       handleJobSubmit_begin env now' random (Some rq) u = (Inr (Reply_stored response), u))"
proof -
  note cases = submit_commit_cases [OF first]
  then have wft: "capture_wf t" using wf by simp
  from cases key obtain sub where sub: "getSubmission k t = Some sub" "sb_state sub = Captured" "sb_response sub = Some response"
    by (auto simp: committed_def Let_def)
  have u: "getSubmission k u = Some sub" "capture_wf u"
    using tk.rtranclp_step [OF term_step steps] wft sub submission_state.distinct unfolding terminal_kept_def by metis+
  have "\<not> hasCaptureLeaseAuthority now' i' u" if "ci_key i' = k"
    using no_authority_when_settled [OF u(2)] u(1) sub(2) that by simp
  moreover have "handleJobSubmit_begin env now' random (Some rq) u = (Inr (Reply_stored response), u)"
    if "rqst_client_request_id rq = snd k"
    using that u(1) sub(2,3) key
    by (simp add: handleJobSubmit_begin_def parse_request_def Let_def bind_apply reserveCaptureLease_def reserveSubmission_def
        replay_submission_def ret_def)
  ultimately show ?thesis using commit_without_authority by blast
qed

text \<open>
  (C16) Safety: the confirmation of a waiting job needs the token bound to it. The token its submission
  issued queues the job while it is live; any other token, one for another job, another request,
  another content or another risk level, is refused, and the job stays as it is or, once its time is
  over, ends as cancelled.
\<close>

theorem confirmation_requires_bound_token:
  fixes env :: submit_env and token :: string and now :: ts
  assumes jwt: "jwt_env_ok (re_jwt (sv_remote env)) (id_signingPrivateKeyPem (re_identity (sv_remote env)))
      (id_signingPublicKeyPem (re_identity (sv_remote env)))"
    and job: "getJob j s = Some job" "jb_state job = Awaiting_confirmation" and tx: "\<not> in_transaction s"
    and snap: "Option.bind (jb_snapshot_id job) (\<lambda>i. getSnapshot i s) = Some snap" and risk: "rqst_risk_level (jb_request job) = Some risk"
    and ne: "j \<noteq> []" "sv_requestHash env (jb_request job) \<noteq> []" "sn_content_id snap \<noteq> []"
  defines "bound \<equiv> claims_of env j (jb_request job) (sn_content_id snap)"
    and "verify \<equiv> verifyConfirmationToken (re_jwt (sv_remote env)) (re_num_str (sv_remote env)) now (re_identity (sv_remote env))"
  shows "(issued div 1000 + CONFIRMATION_TTL_SECONDS > now div 1000 \<longrightarrow>
      (\<exists>t job'. handleJobConfirm env now j (issueConfirmationToken (re_jwt (sv_remote env)) issued (re_identity (sv_remote env)) bound) s
                 = (Inr (Confirm_queued j (jb_request job)), t) \<and> getJob j t = Some job' \<and> jb_state job' = Queued)) \<and>
    (verify token \<noteq> Some bound \<longrightarrow>
      (\<exists>m t job'. handleJobConfirm env now j token s = (Inr (Confirm_error m), t) \<and> getJob j t = Some job' \<and>
         (job' = job \<or> jb_state job' = Completed \<and> jb_outcome job' = Some Cancelled)))"
proof -
  note aw = handleJobConfirm_awaiting [OF job tx snap risk, of env now]
  have "risk_name r \<noteq> []" for r by (cases r) simp_all
  then have "verify (issueConfirmationToken (re_jwt (sv_remote env)) issued (re_identity (sv_remote env)) bound) = Some bound"
    if "now div 1000 < issued div 1000 + CONFIRMATION_TTL_SECONDS"
    using ne that unfolding verify_def bound_def
    by (intro verify_issued_confirmation [OF jwt]) (simp_all add: claims_of_def)
  then show ?thesis using aw [of token] aw [of "issueConfirmationToken (re_jwt (sv_remote env)) issued (re_identity (sv_remote env)) bound"]
    by (auto simp: verify_def bound_def)
qed

section \<open>Expiry\<close>

lemma expire_loop:
  fixes s :: "'z controller_db_scheme"
  assumes "\<not> in_transaction s" "\<forall>i \<in> set ids. getJob i s \<noteq> None" "distinct ids"
  shows "\<exists>t. for_each ids (\<lambda>i. transitionJobState now i Completed (expired_fields now)) s = (Inr (), t) \<and>
    (\<forall>k. getJob k t = (if k \<in> set ids then map_option (set_job_row (Completed, now, expired_fields now)) (getJob k s) else getJob k s))"
  using assms
proof (induction ids arbitrary: s)
  case (Cons i ids)
  then obtain r where r: "getJob i s = Some r" by auto
  have nsf: "no_snapshot_field (expired_fields now)" by (simp add: no_snapshot_field_def expired_fields_def cancelled_fields_def)
  let ?s = "job_updated now i Completed (expired_fields now) s"
  have "\<forall>k \<in> set ids. getJob k ?s \<noteq> None" using Cons.prems by auto
  with Cons.IH [of ?s] Cons.prems obtain t where t:
    "for_each ids (\<lambda>i. transitionJobState now i Completed (expired_fields now)) ?s = (Inr (), t)"
    "\<forall>k. getJob k t = (if k \<in> set ids then map_option (set_job_row (Completed, now, expired_fields now)) (getJob k ?s) else getJob k ?s)"
    by auto
  with r nsf Cons.prems show ?case
    by (auto simp: bind_apply transitionJobState_existing [OF r nsf Cons.prems(1)])
qed (simp add: ret_def)

text \<open>
  Functional: the sweep ends exactly the stale confirmations. It returns, and lists the jobs whose
  confirmation has been open for the time to live or longer; these are completed as cancelled, every
  other job is as before.
\<close>

theorem stale_confirmations_expire:
  fixes s :: "'z controller_db_scheme"
  assumes tx: "\<not> in_transaction s" and ids: "distinct (map jb_id (jobs s))"
  shows "\<exists>t. expireStaleConfirmations now ttl s = (Inr (map jb_id (filter (stale_confirmation (now - ttl * 1000)) (jobs s))), t) \<and>
    (\<forall>job \<in> set (jobs s).
       if stale_confirmation (now - ttl * 1000) job
       then \<exists>job'. getJob (jb_id job) t = Some job' \<and> jb_state job' = Completed \<and> jb_outcome job' = Some Cancelled \<and>
              jb_finished_at job' = Some now
       else getJob (jb_id job) t = Some job)"
proof -
  let ?stale = "stale_confirmation (now - ttl * 1000)"
  let ?ids = "map jb_id (filter ?stale (jobs s))"
  have row: "job \<in> set xs \<Longrightarrow> distinct (map jb_id xs) \<Longrightarrow> sql_get (\<lambda>r. jb_id r = jb_id job) xs = Some job" for job and xs :: "job_row list"
    by (induction xs) (auto simp: image_iff)
  have get: "getJob (jb_id job) s = Some job" if "job \<in> set (jobs s)" for job
    unfolding getJob_def by (rule row [OF that ids])
  have "distinct ?ids" using ids by (rule distinct_map_filter)
  with expire_loop [OF tx, of ?ids now] get obtain t where t:
    "for_each ?ids (\<lambda>i. transitionJobState now i Completed (expired_fields now)) s = (Inr (), t)"
    "\<forall>k. getJob k t = (if k \<in> set ?ids then map_option (set_job_row (Completed, now, expired_fields now)) (getJob k s) else getJob k s)"
    by auto
  have "jb_id job \<in> set ?ids \<longleftrightarrow> ?stale job" if "job \<in> set (jobs s)" for job
    using that ids by (auto simp: distinct_map inj_on_def)
  with t(2) get have "\<forall>job \<in> set (jobs s).
      if ?stale job then getJob (jb_id job) t = Some (set_job_row (Completed, now, expired_fields now) job) else getJob (jb_id job) t = Some job"
    by auto
  then have "\<forall>job \<in> set (jobs s).
       if ?stale job then \<exists>job'. getJob (jb_id job) t = Some job' \<and> jb_state job' = Completed \<and> jb_outcome job' = Some Cancelled \<and>
              jb_finished_at job' = Some now
       else getJob (jb_id job) t = Some job"
    by (auto simp: set_job_row_def expired_fields_def cancelled_fields_def split: if_splits)
  with t(1) show ?thesis by (simp add: expireStaleConfirmations_def bind_apply sql_all_def)
qed

section \<open>Witnesses\<close>

definition demo_submit_env :: submit_env where
  "demo_submit_env =
     \<lparr>sv_remote = demo_env, sv_runner = demo_runner_env, sv_sched = demo_sched_env, sv_requestHash = (\<lambda>_. ''hash''),
      sv_clientId = ''c'', sv_hasAgentPlane = True, sv_allowLocalFallback = None, sv_defaultQueuePolicy = None,
      sv_maxHostCpuBusyFraction = None, sv_platform = ''linux'', sv_strictConfirmation = False\<rparr>"

definition demo_dangerous :: job_row where
  "demo_dangerous = (demo_job Awaiting_confirmation)\<lparr>jb_request := demo_request\<lparr>rqst_risk_level := Some Destructive\<rparr>\<rparr>"

definition demo_gate :: runner_state where
  "demo_gate = (demo_runner Awaiting_confirmation 0 [])\<lparr>jobs := [demo_dangerous], job_attempts := []\<rparr>"

definition demo_gate_state :: gate_state where
  "demo_gate_state = \<lparr>g_db = demo_gate, g_dispatches = [], g_rows = []\<rparr>"

lemma demo_gate_job [simp]: "getJob ''j'' demo_gate = Some demo_dangerous" "rows_of ''j'' demo_gate = [demo_dangerous]"
  "jb_state demo_dangerous = Awaiting_confirmation" "job_attempts demo_gate = []" "\<not> in_transaction demo_gate"
  by (simp_all add: demo_gate_def getJob_def rows_of_def demo_dangerous_def demo_job_def demo_runner_def)

theorem dangerous_job_waits_for_confirmation_witness:
  "\<exists>job'. getJob ''j'' (snd (expireStaleConfirmations 1000 300 (snd (handleJobConfirm demo_submit_env 9 ''j'' ''forged'' demo_gate)))) = Some job' \<and>
     jb_state job' \<in> {Awaiting_confirmation, Completed}"
proof -
  let ?t = "snd (handleJobConfirm demo_submit_env 9 ''j'' ''forged'' demo_gate)"
  let ?g1 = "\<lparr>g_db = ?t, g_dispatches = [], g_rows = []\<rparr>"
  let ?g2 = "?g1\<lparr>g_db := snd (expireStaleConfirmations 1000 300 (g_db ?g1))\<rparr>"
  have "fst (handleJobConfirm demo_submit_env 9 ''j'' ''forged'' demo_gate) = Inr (Confirm_error ''Invalid or expired confirmation token'')"
    by code_simp
  then have "handleJobConfirm demo_submit_env 9 ''j'' ''forged'' (g_db demo_gate_state)
      = (Inr (Confirm_error ''Invalid or expired confirmation token''), ?t)" by (simp add: demo_gate_state_def prod_eq_iff)
  from g_confirm [OF this] have "gate_step demo_submit_env ''j'' demo_gate_state ?g1" by (simp add: demo_gate_state_def)
  moreover have "gate_step demo_submit_env ''j'' ?g1 ?g2" by (rule g_expire)
  ultimately have "(gate_step demo_submit_env ''j'')\<^sup>*\<^sup>* demo_gate_state ?g2" by (meson r_into_rtranclp rtranclp_trans)
  from dangerous_job_waits_for_confirmation [OF _ _ _ _ _ _ this] show ?thesis by (simp add: demo_gate_state_def)
qed

definition demo_owner :: capture_identity where
  "demo_owner = \<lparr>ci_key = demo_key, ci_owner_token = ''o2'', ci_fencing_generation = 2\<rparr>"

definition demo_captured :: captured_snapshot where
  "demo_captured = \<lparr>cs_request = demo_request, cs_row = demo_snapshot, cs_secret_warnings = []\<rparr>"

definition demo_response :: json where
  "demo_response = submit_response demo_submit_env 50 ''j'' demo_captured"

lemma demo_commit:
  "fst (submit_commit demo_submit_env 50 ''j'' demo_owner demo_captured (demo_capture Capturing)) = Inr (demo_response, True)"
  by code_simp

lemma demo_commit_pair: "submit_commit demo_submit_env 50 ''j'' demo_owner demo_captured (demo_capture Capturing)
    = (Inr (demo_response, True), snd (submit_commit demo_submit_env 50 ''j'' demo_owner demo_captured (demo_capture Capturing)))"
  using demo_commit by (metis prod.collapse)

theorem submission_commit_all_or_nothing_witness:
  "committed demo_submit_env 50 ''j'' demo_captured demo_response True
     (snd (submit_commit demo_submit_env 50 ''j'' demo_owner demo_captured (demo_capture Capturing)))"
  using submission_commit_all_or_nothing [OF demo_commit_pair] by simp

theorem submission_commits_once_witness:
  "let t = snd (submit_commit demo_submit_env 50 ''j'' demo_owner demo_captured (demo_capture Capturing)) in
   (\<exists>e. fst (submit_commit demo_submit_env 60 ''j2'' demo_owner demo_captured t) = Inl e) \<and>
   handleJobSubmit_begin demo_submit_env 60 ''r'' (Some demo_request) t = (Inr (Reply_stored demo_response), t)"
proof -
  have k: "ci_key demo_owner = (''c'', ''req'')" "(''c'', ''req'') = (sv_clientId demo_submit_env, rqst_client_request_id (cs_request demo_captured))"
    "rqst_client_request_id demo_request = snd (''c'', ''req'')"
    by code_simp+
  note once = submission_commits_once [OF demo_capture_wf demo_commit_pair k(2) rtranclp.rtrancl_refl]
  show ?thesis unfolding Let_def
    using once [where i' = demo_owner and rq = demo_request] k by (metis prod.collapse)
qed

theorem confirmation_requires_bound_token_witness:
  "\<exists>m t. handleJobConfirm demo_submit_env 9 ''j'' ''forged'' demo_gate = (Inr (Confirm_error m), t)"
proof -
  have jwt: "jwt_env_ok (re_jwt (sv_remote demo_submit_env)) p q" for p q by (simp add: demo_submit_env_def demo_env_def unary_env_ok)
  have snap: "Option.bind (jb_snapshot_id demo_dangerous) (\<lambda>i. getSnapshot i demo_gate) = Some demo_snapshot"
    by (simp add: demo_dangerous_def demo_job_def demo_gate_def getSnapshot_def demo_runner_def demo_snapshot_def)
  have "verifyConfirmationToken (re_jwt (sv_remote demo_submit_env)) (re_num_str (sv_remote demo_submit_env)) 9
      (re_identity (sv_remote demo_submit_env)) ''forged'' = None" by code_simp
  with confirmation_requires_bound_token [OF jwt demo_gate_job(1,3,5) snap, where issued = 0 and now = 9 and token = "''forged''"] show ?thesis
    by (auto simp: demo_dangerous_def demo_submit_env_def demo_snapshot_def)
qed

theorem stale_confirmations_expire_witness:
  "\<exists>t job'. expireStaleConfirmations 300000 300 demo_gate = (Inr [''j''], t) \<and> getJob ''j'' t = Some job' \<and>
     jb_state job' = Completed \<and> jb_outcome job' = Some Cancelled"
proof -
  have "distinct (map jb_id (jobs demo_gate))" "jobs demo_gate = [demo_dangerous]" "stale_confirmation (300000 - 300 * 1000) demo_dangerous"
    "jb_id demo_dangerous = ''j''" by code_simp+
  with stale_confirmations_expire [of demo_gate 300000 300] show ?thesis by auto
qed

section \<open>Two dispatches of one job\<close>

text \<open>
  A dispatch does not look at the job again after it has read the git sidecar. When the dispatch of a
  submission and the scan of the queue are in flight for the same job, both start an attempt.
\<close>

definition demo_fleet :: runner_state where
  "demo_fleet = (demo_runner Queued 0 [])
     \<lparr>agents := [demo_agent\<lparr>ag_capabilities := Some (demo_caps ''g'' 2 0)\<rparr>], job_attempts := [],
      connectedAgents := [(''g'', \<lparr>cn_socket = 1, cn_open = True, cn_lastHeartbeatAt = 0, cn_connectionHost = None\<rparr>)]\<rparr>"

definition demo_dispatch :: dispatch_wait where
  "demo_dispatch =
     \<lparr>dw_jobId = ''j'', dw_request = demo_request, dw_candidates = dispatch_candidates demo_fleet (agents demo_fleet),
      dw_registered = 1, dw_snapshot = Some demo_snapshot, dw_penalties = [], dw_unreported = False\<rparr>"

lemma demo_dispatch_begun: "fst (dispatch_begin True ''j'' demo_request demo_fleet) = Inr (Some demo_dispatch)"
  by code_simp

theorem concurrent_dispatches_start_two_attempts:
  "let s1 = snd (dispatch_finish demo_submit_env 10 True demo_dispatch False False None ''l1'' ''a1'' 1 demo_fleet);
       s2 = snd (dispatch_finish demo_submit_env 11 True demo_dispatch False False None ''l2'' ''a2'' 2 s1)
   in map (\<lambda>a. (at_id a, at_job_id a, at_state a)) (job_attempts s2) = [(''a1'', ''j'', Leasing), (''a2'', ''j'', Leasing)]"
  by code_simp

section \<open>A dispatch that fails\<close>

text \<open>While one connected Agent has not reported its capabilities, no job is dispatched, to no Agent and not to the host.\<close>

theorem unreported_agent_blocks_dispatch:
  assumes "ag \<in> set (agents s)" "ag_disabled_at ag = None" "map_of (connectedAgents s) (ag_id ag) \<noteq> None" "ag_capabilities ag = None"
  shows "\<exists>w e. dispatch_begin True jobId request s = (Inr (Some w), s) \<and>
    (\<forall>t. dispatch_finish env now True w submodules lfs host leaseId attemptId r t = (Inl (JsError e), t))"
  using assms by (auto simp: dispatch_begin_def dispatch_finish_def dispatch_unreported_def sql_all_def Let_def)

end
