(* ===== verification/Job_Wait.thy ===== *)
theory Job_Wait
  imports Job_Submit_Laws Local_Runner_Safety
begin

text \<open>
  \<open>waitForJob\<close> together with the lifecycle notifier: a waiter that went to sleep is called as soon as
  its job changes, also when the change is made in a transaction, and it is not called by a
  transaction that is rolled back.
\<close>

section \<open>Listening\<close>

definition listening :: "string \<Rightarrow> nat \<Rightarrow> 'z db_conn_scheme \<Rightarrow> bool" where
  "listening j l s = (\<exists>n. bound_notifier s = Some n \<and> \<not> nf_closed n \<and> l \<in> set (listeners_of j n))"

text \<open>\<open>informed j l r s\<close>: the waiter \<open>l\<close> was called, or it still listens and its job is still \<open>r\<close>.\<close>

definition informed :: "string \<Rightarrow> nat \<Rightarrow> job_row option \<Rightarrow> 'z controller_db_scheme \<Rightarrow> bool" where
  "informed j l r s =
     (\<not> in_transaction s \<and> bound_notifier s \<noteq> None \<and> (l \<in> set (woken s) \<or> getJob j s = r \<and> listening j l s))"

text \<open>The same inside a managed transaction, where a change is noted and announced at the commit.\<close>

definition tx_informed :: "string \<Rightarrow> nat \<Rightarrow> job_row option \<Rightarrow> 'z controller_db_scheme \<Rightarrow> bool" where
  "tx_informed j l r s =
     (in_transaction s \<and> bound_notifier s \<noteq> None \<and>
      (l \<in> set (woken s) \<or> listening j l s \<and> (getJob j s = r \<or> j \<in> set (pending_of s))))"

lemma with_notifier_simps [simp]:
  "(bound_notifier (with_notifier f s) = None) = (bound_notifier s = None)"
  "(\<exists>y. bound_notifier (with_notifier f s) = Some y) = (\<exists>y. bound_notifier s = Some y)"
  "in_transaction (with_notifier f s) = in_transaction s" "jobs (with_notifier f t) = jobs t"
  by (auto simp: with_notifier_def split: option.splits prod.splits)

lemma notify_wakes:
  assumes "listening j l s"
  shows "l \<in> set (woken (with_notifier (notify j) s))"
  using assms by (auto simp: listening_def with_notifier_def notify_listeners)

lemma notify_other:
  assumes "listening j l s" "k \<noteq> j"
  shows "listening j l (with_notifier (notify k) s)"
  using assms by (auto simp: listening_def with_notifier_def notify_listeners listeners_of_def map_of_map_delete)

lemma notify_woken: "l \<in> set (woken s) \<Longrightarrow> l \<in> set (woken (with_notifier (notify k) s))"
  by (auto simp: with_notifier_def notify_def split: option.splits)

lemma notify_all_woken: "l \<in> set (woken s) \<Longrightarrow> l \<in> set (woken (fold (\<lambda>k. with_notifier (notify k)) ks s))"
  by (induction ks arbitrary: s) (auto intro: notify_woken)

lemma notify_all:
  "listening j l s \<Longrightarrow>
     l \<in> set (woken (fold (\<lambda>k. with_notifier (notify k)) ks s)) \<or>
     j \<notin> set ks \<and> listening j l (fold (\<lambda>k. with_notifier (notify k)) ks s)"
proof (induction ks arbitrary: s)
  case (Cons k ks)
  show ?case
  proof (cases "k = j")
    case True
    with notify_wakes [OF Cons.prems] notify_all_woken show ?thesis by auto
  next
    case False
    with Cons.IH [OF notify_other [OF Cons.prems]] show ?thesis by auto
  qed
qed simp

section \<open>Writes\<close>

lemma notifyAfterCommit_outside: "notifyAfterCommit False k = notify k"
  by (rule ext) (auto simp: notifyAfterCommit_def notify_def split: prod.split)

lemma informed_notify:
  assumes "\<not> in_transaction s" "bound_notifier s \<noteq> None" "l \<in> set (woken s) \<or> listening j l s"
    and "k \<noteq> j \<Longrightarrow> l \<notin> set (woken s) \<Longrightarrow> getJob j s = r"
  shows "informed j l r (with_notifier (notifyAfterCommit (in_transaction s) k) s)"
  using assms notify_wakes [of j l s] notify_other [of j l s k] notify_woken [of l s k]
  by (cases "k = j") (auto simp: informed_def notifyAfterCommit_outside getJob_def)

lemma listening_jobs [simp]: "listening j l (s\<lparr>jobs := x\<rparr>) = listening j l s"
  by (simp add: listening_def)

lemma informed_transitionJobState: "preserves (informed j l r) (transitionJobState now k st fs)"
proof (rule preservesI)
  fix s :: "'a controller_db_scheme"
  assume i: "informed j l r s"
  let ?t = "s\<lparr>jobs := sql_update (\<lambda>r. jb_id r = k) (set_job_row (st, now, fs)) (jobs s)\<rparr>"
  have unchanged: "getJob k ?t = None \<Longrightarrow> informed j l r ?t"
    using i by (auto simp: informed_def getJob_sql_update)
  have "informed j l r (with_notifier (notifyAfterCommit (in_transaction ?t) k) ?t)"
    using i by (intro informed_notify) (auto simp: informed_def getJob_sql_update)
  with i unchanged show "informed j l r (snd (transitionJobState now k st fs s))"
    by (auto simp: transitionJobState_def bind_apply assertJobLifecycleWriteAllowed_def Let_def notifyJobLifecycleChanged_def
        split: option.split)
qed

text \<open>Inside a transaction.\<close>

lemma pending_noted:
  assumes "listening j l s" "in_transaction s"
  shows "listening j l (with_notifier (notifyAfterCommit True k) s)"
    "set (pending_of (with_notifier (notifyAfterCommit True k) s)) = insert k (set (pending_of s))"
    "woken (with_notifier (notifyAfterCommit True k) s) = woken s"
  using assms
  by (auto simp: listening_def with_notifier_def notifyAfterCommit_def pending_of_def listeners_of_def set_add_def split: option.splits)

lemma noted_woken: "woken (with_notifier (notifyAfterCommit True k) s) = woken s"
  by (auto simp: with_notifier_def notifyAfterCommit_def split: option.splits)

lemma pending_jobs [simp]: "pending_of (s\<lparr>jobs := x\<rparr>) = pending_of s"
  by (simp add: pending_of_def)

lemma tx_informed_transitionJobState: "preserves (tx_informed j l r) (transitionJobState now k st fs)"
proof (rule preservesI)
  fix s :: "'a controller_db_scheme"
  assume i: "tx_informed j l r s"
  let ?t = "s\<lparr>jobs := sql_update (\<lambda>r. jb_id r = k) (set_job_row (st, now, fs)) (jobs s)\<rparr>"
  have unchanged: "getJob k ?t = None \<Longrightarrow> tx_informed j l r ?t"
    using i by (auto simp: tx_informed_def getJob_sql_update)
  have "tx_informed j l r (with_notifier (notifyAfterCommit (in_transaction ?t) k) ?t)"
    using i pending_noted [of j l ?t k]
    by (auto simp: tx_informed_def noted_woken getJob_sql_update)
  with i unchanged show "tx_informed j l r (snd (transitionJobState now k st fs s))"
    by (auto simp: transitionJobState_def bind_apply assertJobLifecycleWriteAllowed_def Let_def notifyJobLifecycleChanged_def
        split: option.split)
qed

type_synonym job_write = "ts \<times> string \<times> run_state \<times> job_field list"

definition write_all :: "job_write list \<Rightarrow> ('z controller_db_scheme, unit) rbo" where
  "write_all ws = for_each ws (\<lambda>(now, k, st, fs). transitionJobState now k st fs)"

lemma tx_informed_write_all: "preserves (tx_informed j l r) (write_all ws)"
  unfolding write_all_def by (intro preserves_rules) (auto intro: tx_informed_transitionJobState)

lemma set_managed_simps [simp]:
  "woken (set_managed b s) = woken s" "listening j l (set_managed b s) = listening j l s"
  "pending_of (set_managed b s) = pending_of s" "(bound_notifier (set_managed b s) = None) = (bound_notifier s = None)"
  "in_transaction (set_managed b s) = in_transaction s" "jobs (set_managed b t) = jobs t"
  by (auto simp: set_managed_def with_notifier_def listening_def pending_of_def listeners_of_def split: option.splits)

lemma clear_pending_simps [simp]:
  "woken (clear_pending s) = woken s" "listening j l (clear_pending s) = listening j l s"
  "(bound_notifier (clear_pending s) = None) = (bound_notifier s = None)"
  "in_transaction (clear_pending s) = in_transaction s" "jobs (clear_pending t) = jobs t"
  by (auto simp: clear_pending_def with_notifier_def listening_def listeners_of_def split: option.splits)

lemma in_transaction_simps [simp]:
  "listening j l (s\<lparr>in_transaction := b\<rparr>) = listening j l s" "pending_of (s\<lparr>in_transaction := b\<rparr>) = pending_of s"
  by (simp_all add: listening_def pending_of_def)

lemma fold_notifier_simps [simp]:
  "jobs (fold (\<lambda>k. with_notifier (f k)) ks s) = jobs s" "in_transaction (fold (\<lambda>k. with_notifier (f k)) ks t) = in_transaction t"
  "(bound_notifier (fold (\<lambda>k. with_notifier (f k)) ks t) = None) = (bound_notifier t = None)"
  by (induction ks arbitrary: s t) simp_all

lemma informed_commit:
  assumes "tx_informed j l r u"
  shows "informed j l r (let s3 = (set_managed False u)\<lparr>in_transaction := False\<rparr>
           in fold (\<lambda>k. with_notifier (notify k)) (pending_of s3) (clear_pending s3))"
  using assms notify_all_woken [of l "clear_pending ((set_managed False u)\<lparr>in_transaction := False\<rparr>)"]
    notify_all [of j l "clear_pending ((set_managed False u)\<lparr>in_transaction := False\<rparr>)"]
  by (auto simp: informed_def tx_informed_def Let_def getJob_def)

text \<open>A rollback restores the job; the waiter, not called, is still listening.\<close>

lemma rollback_simps [simp]:
  "listening j l (rollback_submit s u) = listening j l u" "woken (rollback_submit s u) = woken u"
  "bound_notifier (rollback_submit s u) = bound_notifier u" "jobs (rollback_submit s u) = jobs s"
  by (simp_all add: rollback_submit_def rollback_tables_def listening_def)

lemma informed_rollback:
  assumes "informed j l r s" "tx_informed j l r u" "l \<in> set (woken s) \<Longrightarrow> l \<in> set (woken u)"
  shows "informed j l r (clear_pending ((rollback_submit s (set_managed False u))\<lparr>in_transaction := False\<rparr>))"
  using assms by (auto simp: informed_def tx_informed_def getJob_def)

text \<open>Transactions keep the waiters they have called.\<close>

definition tx_called :: "nat \<Rightarrow> 'z db_conn_scheme \<Rightarrow> bool" where
  "tx_called l s = (in_transaction s \<and> l \<in> set (woken s))"

lemma tx_called_transitionJobState: "preserves (tx_called l) (transitionJobState now k st fs)"
  by (rule preservesI)
    (auto simp: tx_called_def transitionJobState_def bind_apply assertJobLifecycleWriteAllowed_def Let_def
      notifyJobLifecycleChanged_def noted_woken split: option.split)

lemma tx_called_write_all: "preserves (tx_called l) (write_all ws)"
  unfolding write_all_def by (intro preserves_rules) (auto intro: tx_called_transitionJobState)

lemma informed_transaction:
  assumes body: "preserves (tx_informed j l r) m" and called: "preserves (tx_called l) m"
  shows "preserves (informed j l r) (runJobLifecycleTransaction rollback_submit m)"
proof (rule preservesI)
  fix s :: "'a submit_state_scheme"
  assume i: "informed j l r s"
  let ?s0 = "set_managed True (s\<lparr>in_transaction := True\<rparr>)"
  obtain x u where m: "m ?s0 = (x, u)" by fastforce
  have "tx_informed j l r ?s0" using i by (auto simp: informed_def tx_informed_def getJob_def)
  from preservesD [OF body this] m have u: "tx_informed j l r u" by simp
  have w: "l \<in> set (woken s) \<Longrightarrow> l \<in> set (woken u)" using preservesD [OF called, of ?s0] m by (simp add: tx_called_def)
  obtain n where free: "bound_notifier s = Some n" "\<not> in_transaction s" using i by (auto simp: informed_def)
  show "informed j l r (snd (runJobLifecycleTransaction rollback_submit m s))"
  proof (cases x)
    case (Inl e)
    with m free informed_rollback [OF i u w] show ?thesis by (simp add: runJobLifecycleTransaction_def)
  next
    case (Inr a)
    with m free informed_commit [OF u] show ?thesis by (simp add: runJobLifecycleTransaction_def Let_def)
  qed
qed

section \<open>Waiters\<close>

text \<open>
  \<open>wait_step j l\<close>: what may happen while the waiter \<open>l\<close> of job \<open>j\<close> sleeps: writes to any job, the note
  a dispatch leaves on a job that has to wait, lifecycle transactions that commit or roll back, other
  waiters coming and going, the Controller closing the notifier, and everything that concerns neither
  the job nor the notifier.
\<close>

definition note_waiting :: "ts \<Rightarrow> string \<Rightarrow> json \<Rightarrow> ('z controller_db_scheme, unit) rbo" where
  "note_waiting now k v =
     bind (modify (\<lambda>s. s\<lparr>jobs := sql_update (\<lambda>x. jb_id x = k \<and> jb_state x = Queued)
       (\<lambda>x. x\<lparr>jb_result_json := Some v, jb_updated_at := now\<rparr>) (jobs s)\<rparr>)) (\<lambda>_. notifyJobLifecycleChanged k)"

inductive wait_step :: "string \<Rightarrow> nat \<Rightarrow> 'z submit_state_scheme \<Rightarrow> 'z submit_state_scheme \<Rightarrow> bool" for j l where
  ws_write: "wait_step j l s (snd (transitionJobState now k st fs s))"
| ws_note: "wait_step j l s (snd (note_waiting now k v s))"
| ws_transaction: "wait_step j l s (snd (runJobLifecycleTransaction rollback_submit (write_all ws) s))"
| ws_arm: "l' \<noteq> l \<Longrightarrow> wait_step j l s (snd (wait_arm aborted deadline now k l' s))"
| ws_resume: "l' \<noteq> l \<Longrightarrow> wait_step j l s (snd (wait_resume aborted deadline now k l' s))"
| ws_close: "wait_step j l s (with_notifier close_notifier s)"
| ws_other: "getJob j t = getJob j s \<Longrightarrow> bound_notifier t = bound_notifier s \<Longrightarrow> woken t = woken s \<Longrightarrow>
    in_transaction t = in_transaction s \<Longrightarrow> wait_step j l s t"

lemma informed_note: "preserves (informed j l r) (note_waiting now k v)"
proof (rule preservesI)
  fix s :: "'a controller_db_scheme"
  assume i: "informed j l r s"
  let ?t = "s\<lparr>jobs := sql_update (\<lambda>x. jb_id x = k \<and> jb_state x = Queued)
       (\<lambda>x. x\<lparr>jb_result_json := Some v, jb_updated_at := now\<rparr>) (jobs s)\<rparr>"
  have "k \<noteq> j \<Longrightarrow> sql_get (\<lambda>x. jb_id x = j) (sql_update (\<lambda>x. jb_id x = k \<and> jb_state x = Queued)
       (\<lambda>x. x\<lparr>jb_result_json := Some v, jb_updated_at := now\<rparr>) t) = sql_get (\<lambda>x. jb_id x = j) t" for t :: "job_row list"
    by (induction t) auto
  with i have "informed j l r (with_notifier (notifyAfterCommit (in_transaction ?t) k) ?t)"
    by (intro informed_notify) (auto simp: informed_def getJob_def)
  then show "informed j l r (snd (note_waiting now k v s))"
    by (simp add: note_waiting_def bind_apply notifyJobLifecycleChanged_def)
qed

lemma listening_subscribe: "listening j l s \<Longrightarrow> listening j l (with_notifier (subscribe k l') s)"
  by (auto simp: listening_def with_notifier_def subscribe_def listeners_of_def map_of_map_set set_add_def split: option.splits)

lemma listening_drop:
  "listening j l s \<Longrightarrow> l' \<noteq> l \<Longrightarrow> listening j l (with_notifier (\<lambda>(n, w). (snd (unsubscribe True k l' n), w)) s)"
  by (auto simp: listening_def with_notifier_def unsubscribe_def listeners_of_def map_of_map_set map_of_map_delete Let_def
      removeAll_filter_not_eq filter_empty_conv split: option.splits)

lemma woken_subscribe: "l \<in> set (woken s) \<Longrightarrow> l \<in> set (woken (with_notifier (subscribe k l') s))"
  by (auto simp: with_notifier_def subscribe_def split: option.splits)

lemma woken_drop [simp]: "woken (with_notifier (\<lambda>(n, w). (snd (unsubscribe True k l' n), w)) s) = woken s"
  by (auto simp: with_notifier_def split: option.splits)

lemma informed_drop: "l' \<noteq> l \<Longrightarrow> preserves (informed j l r) (drop_listener k l')"
  by (rule preservesI) (auto simp: informed_def drop_listener_def getJob_def listening_drop)

lemma informed_subscribe: "preserves (informed j l r) (subscribeToJobLifecycle k l')"
  by (rule preservesI)
    (auto simp: informed_def subscribeToJobLifecycle_def getJob_def intro: listening_subscribe woken_subscribe split: option.split)

lemma informed_arm:
  assumes "l' \<noteq> l"
  shows "preserves (informed j l r) (wait_arm aborted deadline now k l')"
proof (rule preservesI)
  fix s :: "'a controller_db_scheme"
  assume i: "informed j l r s"
  let ?t = "snd (subscribeToJobLifecycle k l' s)"
  have t: "informed j l r ?t" using i by (rule preservesD [OF informed_subscribe])
  then have "informed j l r (snd (drop_listener k l' ?t))" by (rule preservesD [OF informed_drop [OF assms]])
  with i t show "informed j l r (snd (wait_arm aborted deadline now k l' s))"
    by (simp add: wait_arm_def Let_def bind_apply drop_listener_def split: option.split)
qed

lemma informed_resume: "l' \<noteq> l \<Longrightarrow> preserves (informed j l r) (wait_resume aborted deadline now k l')"
  unfolding wait_resume_def by (intro preserves_rules informed_drop informed_arm)

lemma close_calls: "listening j l s \<Longrightarrow> l \<in> set (woken (with_notifier close_notifier s))"
proof -
  assume "listening j l s"
  then obtain n where n: "bound_notifier s = Some n" "l \<in> set (listeners_of j n)" by (auto simp: listening_def)
  then obtain ls where "map_of (nf_listeners n) j = Some ls" "l \<in> set ls"
    by (cases "map_of (nf_listeners n) j") (simp_all add: listeners_of_def)
  then have "(j, ls) \<in> set (nf_listeners n)" "l \<in> set ls" by (auto dest: map_of_SomeD)
  with n(1) show ?thesis by (force simp: with_notifier_def close_notifier_def)
qed

lemma close_woken: "l \<in> set (woken s) \<Longrightarrow> l \<in> set (woken (with_notifier close_notifier s))"
  by (auto simp: with_notifier_def close_notifier_def split: option.split)

lemma informed_close: "informed j l r s \<Longrightarrow> informed j l r (with_notifier close_notifier s)"
  using close_calls [of j l s] close_woken [of l s] by (auto simp: informed_def)

lemma informed_step: "wait_step j l s t \<Longrightarrow> informed j l r s \<Longrightarrow> informed j l r t"
proof (induction rule: wait_step.induct)
  case (ws_other t s)
  then show ?case by (auto simp: informed_def listening_def)
qed (auto intro: preservesD [OF informed_transitionJobState] preservesD [OF informed_note] informed_close
    preservesD [OF informed_transaction [OF tx_informed_write_all tx_called_write_all]]
    preservesD [OF informed_arm] preservesD [OF informed_resume])

lemma wait_arm_sleeps:
  assumes "wait_arm aborted deadline now j l s = (Inr Wait_sleep, t)" "bound_notifier s \<noteq> None"
  shows "listening j l t \<and> getJob j t = getJob j s \<and> in_transaction t = in_transaction s \<and>
    (\<exists>job. getJob j t = Some job \<and> \<not> isTerminalJobState (jb_state job))"
  using assms
  by (auto simp: wait_arm_def Let_def wait_done_def subscribeToJobLifecycle_def isBoundJobLifecycleNotifierClosed_def listening_def
      listeners_of_subscribe set_add_def bind_apply getJob_def with_notifier_def subscribe_def listeners_of_def map_of_map_set
      split: if_splits option.splits prod.splits)

text \<open>
  (C20) Liveness: no wakeup is lost. A waiter that went to sleep listens to its job, which was not terminal when it
  last read it; after any sequence of writes, transactions that commit or roll back, other waiters and
  a close of the notifier, either the waiter has been called, or the job is still exactly the row it
  read and the waiter still listens.
\<close>

theorem waiter_is_called_on_change:
  assumes arm: "wait_arm aborted deadline now j l s = (Inr Wait_sleep, t)"
    and bound: "bound_notifier s \<noteq> None" and tx: "\<not> in_transaction s"
    and steps: "(wait_step j l)\<^sup>*\<^sup>* t u"
  shows "(\<exists>job. getJob j t = Some job \<and> \<not> isTerminalJobState (jb_state job)) \<and>
    (l \<in> set (woken u) \<or> getJob j u = getJob j t \<and> listening j l u)"
proof -
  note a = wait_arm_sleeps [OF arm bound]
  then have "informed j l (getJob j t) t" using tx by (auto simp: informed_def listening_def)
  with steps have "informed j l (getJob j t) u" by (induction rule: rtranclp_induct) (auto intro: informed_step)
  then have "l \<in> set (woken u) \<or> getJob j u = getJob j t \<and> listening j l u" by (simp add: informed_def)
  with a show ?thesis by blast
qed

definition demo_waiting :: "run_state \<Rightarrow> runner_state" where
  "demo_waiting st = (demo_runner st 0 [])\<lparr>bound_notifier := Some empty_notifier\<rparr>"

theorem waiter_is_called_on_change_witness:
  "7 \<in> set (woken (snd (transitionJobState 9 ''j'' Completed []
      (snd (wait_arm False 100 5 ''j'' 7 (demo_waiting Running))))))"
proof -
  let ?t = "snd (wait_arm False 100 5 ''j'' 7 (demo_waiting Running))"
  let ?u = "snd (transitionJobState 9 ''j'' Completed [] ?t)"
  have "fst (wait_arm False 100 5 ''j'' 7 (demo_waiting Running)) = Inr Wait_sleep" by code_simp
  then have arm: "wait_arm False 100 5 ''j'' 7 (demo_waiting Running) = (Inr Wait_sleep, ?t)" by (metis prod.collapse)
  have "wait_step ''j'' 7 ?t ?u" by (rule ws_write)
  then have steps: "(wait_step ''j'' 7)\<^sup>*\<^sup>* ?t ?u" by (rule r_into_rtranclp)
  have "7 \<in> set (woken ?u) \<or> getJob ''j'' ?u = getJob ''j'' ?t \<and> listening ''j'' 7 ?u"
    using waiter_is_called_on_change [OF arm _ _ steps] by (simp add: demo_waiting_def)
  moreover have "map_option jb_state (getJob ''j'' ?u) \<noteq> map_option jb_state (getJob ''j'' ?t)" by code_simp
  ultimately show ?thesis by auto
qed

end
