(* ===== verification/Log_Spool.thy ===== *)
theory Log_Spool
  imports Chunk_Log
begin

text \<open>
  The Agent's side of the log path: the durable spool of an attempt (\<open>packages/executor/src/spool.ts\<close>)
  and the bounded sender over it (\<open>apps/agent/src/logs/spool-sender.ts\<close>).

  The disk is the log files of \<open>Chunk_Log\<close>, the bytes of an unterminated last line of the index
  (\<open>sd_tail\<close>) and the acknowledgement file; \<open>attempt_spool\<close> is what the process keeps in memory.
  \<open>appendChunk\<close> writes three files one after the other. A crash keeps a prefix of what it writes, and
  the next \<open>openAttemptSpool\<close> starts from there. An unterminated line of the checkpoint file is not
  represented: readers skip it, and checkpoints only say where to start reading.
\<close>

section \<open>The spool\<close>

datatype ack_file =
    Ack_missing
  | Ack_invalid
  | Ack_number int

record spool_disk =
  sd_logs :: attempt_logs
  sd_tail :: nat
  sd_ack :: ack_file

record attempt_spool =
  sp_nextSequence :: int
  sp_stdoutOffset :: int
  sp_stderrOffset :: int

definition streamOffset :: "log_stream \<Rightarrow> attempt_spool \<Rightarrow> int" where
  "streamOffset st sp = (case st of Stdout \<Rightarrow> sp_stdoutOffset sp | Stderr \<Rightarrow> sp_stderrOffset sp)"

definition set_streamOffset :: "log_stream \<Rightarrow> int \<Rightarrow> attempt_spool \<Rightarrow> attempt_spool" where
  "set_streamOffset st n sp = (case st of Stdout \<Rightarrow> sp\<lparr>sp_stdoutOffset := n\<rparr> | Stderr \<Rightarrow> sp\<lparr>sp_stderrOffset := n\<rparr>)"

definition raise_offset :: "log_stream \<Rightarrow> int \<Rightarrow> attempt_spool \<Rightarrow> attempt_spool" where
  "raise_offset st n sp = (if n > streamOffset st sp then set_streamOffset st n sp else sp)"

definition note_entry :: "chunk_index_entry \<Rightarrow> attempt_spool \<Rightarrow> attempt_spool" where
  "note_entry e sp =
     (let sp1 = (if ce_sequence e \<ge> sp_nextSequence sp then sp\<lparr>sp_nextSequence := ce_sequence e + 1\<rparr> else sp)
      in raise_offset (ce_stream e) (ce_byte_offset e + ce_byte_length e) sp1)"

definition openAttemptSpool :: "spool_disk \<Rightarrow> attempt_spool \<times> spool_disk" where
  "openAttemptSpool d =
     (let d1 = d\<lparr>sd_tail := 0\<rparr>;
          d2 = (if sd_ack d1 = Ack_missing then d1\<lparr>sd_ack := Ack_number 0\<rparr> else d1);
          sp = fold note_entry (readChunkIndexEntries (sd_logs d2))
                 \<lparr>sp_nextSequence = 1, sp_stdoutOffset = 0, sp_stderrOffset = 0\<rparr>;
          sp1 = raise_offset Stdout (streamByteOffset (sd_logs d2) Stdout) sp;
          sp2 = raise_offset Stderr (streamByteOffset (sd_logs d2) Stderr) sp1
      in (sp2, d2))"

text \<open>The three writes of \<open>appendChunk\<close>. A line written after an unterminated one becomes part of it.\<close>

definition write_stream :: "log_stream \<Rightarrow> string \<Rightarrow> spool_disk \<Rightarrow> spool_disk" where
  "write_stream st bytes d = d\<lparr>sd_logs := appendLogChunk st bytes (sd_logs d)\<rparr>"

definition write_index :: "chunk_index_entry \<Rightarrow> spool_disk \<Rightarrow> spool_disk" where
  "write_index e d =
     d\<lparr>sd_logs := (sd_logs d)\<lparr>lg_chunks := lg_chunks (sd_logs d) @
         [if sd_tail d = 0 then (length (entry_line e), Entry e) else (sd_tail d + length (entry_line e), Malformed)]\<rparr>,
       sd_tail := 0\<rparr>"

definition write_checkpoint :: "int \<Rightarrow> nat \<Rightarrow> spool_disk \<Rightarrow> spool_disk" where
  "write_checkpoint sequence indexOffset d =
     (if sequence mod 128 = 0
      then d\<lparr>sd_logs := (sd_logs d)\<lparr>lg_checkpoints := lg_checkpoints (sd_logs d) @
             [\<lparr>cp_sequence = sequence - 1, cp_byte_offset = int indexOffset\<rparr>]\<rparr>\<rparr>
      else d)"

definition spool_entry :: "log_stream \<Rightarrow> string \<Rightarrow> attempt_spool \<Rightarrow> chunk_index_entry" where
  "spool_entry st bytes sp =
     \<lparr>ce_sequence = sp_nextSequence sp, ce_stream = st, ce_byte_offset = streamOffset st sp, ce_byte_length = int (length bytes)\<rparr>"

definition appendChunk :: "log_stream \<Rightarrow> string \<Rightarrow> attempt_spool \<times> spool_disk \<Rightarrow> int \<times> attempt_spool \<times> spool_disk" where
  "appendChunk st bytes = (\<lambda>(sp, d).
     let sequence = sp_nextSequence sp;
         byte_offset = streamOffset st sp;
         d1 = write_stream st bytes d;
         indexOffset = index_size (sd_logs d1) + sd_tail d1;
         d2 = write_index (spool_entry st bytes sp) d1;
         d3 = write_checkpoint sequence indexOffset d2
     in (sequence,
         set_streamOffset st (byte_offset + int (length bytes)) (sp\<lparr>sp_nextSequence := sequence + 1\<rparr>), d3))"

definition readAck :: "spool_disk \<Rightarrow> int" where
  "readAck d = (case sd_ack d of Ack_number n \<Rightarrow> n | _ \<Rightarrow> 0)"

definition writeAck :: "int \<Rightarrow> spool_disk \<Rightarrow> spool_disk" where
  "writeAck sequence d = d\<lparr>sd_ack := Ack_number sequence\<rparr>"

definition iterUnacked :: "spool_disk \<Rightarrow> int \<Rightarrow> (int \<times> log_stream \<times> string) list" where
  "iterUnacked d afterSequence = iterIndexedChunksAfter (sd_logs d) afterSequence"

definition totalBytes :: "spool_disk \<Rightarrow> int" where
  "totalBytes d = streamByteOffset (sd_logs d) Stdout + streamByteOffset (sd_logs d) Stderr"

section \<open>The sender\<close>

type_synonym spool_chunk = "int \<times> log_stream \<times> string"

record spool_sender =
  ss_queue :: "spool_chunk list"
  ss_lastAcked :: int
  ss_needsReplay :: bool
  ss_maxQueue :: nat

definition fresh_sender :: "nat \<Rightarrow> spool_sender" where
  "fresh_sender n = \<lparr>ss_queue = [], ss_lastAcked = 0, ss_needsReplay = False, ss_maxQueue = n\<rparr>"

definition isUnderPressure :: "spool_sender \<Rightarrow> bool" where
  "isUnderPressure ss = (ss_needsReplay ss \<or> length (ss_queue ss) \<ge> ss_maxQueue ss)"

text \<open>
  \<open>pump\<close> with the socket open or not: \<open>send\<close> only fails when it is not. The second component of a
  result is what was sent. The \<open>pumping\<close> flag guards against a \<open>send\<close> that calls back, which it does not.
\<close>

fun pump_queue :: "bool \<Rightarrow> int \<Rightarrow> spool_chunk list \<Rightarrow> spool_chunk list \<times> spool_chunk list" where
  "pump_queue sock acked [] = ([], [])"
| "pump_queue sock acked (c # q) =
     (if fst c \<le> acked then pump_queue sock acked q
      else if \<not> sock then (c # q, [])
      else (let (q', sent) = pump_queue sock acked q in (q', c # sent)))"

definition pump :: "bool \<Rightarrow> spool_sender \<Rightarrow> spool_sender \<times> spool_chunk list" where
  "pump sock ss = (let (q, sent) = pump_queue sock (ss_lastAcked ss) (ss_queue ss) in (ss\<lparr>ss_queue := q\<rparr>, sent))"

definition enqueue :: "bool \<Rightarrow> spool_chunk \<Rightarrow> spool_sender \<Rightarrow> spool_sender \<times> spool_chunk list" where
  "enqueue sock c ss =
     (if fst c \<le> ss_lastAcked ss then (ss, [])
      else if \<exists>x \<in> set (ss_queue ss). fst x = fst c then (ss, [])
      else if length (ss_queue ss) \<ge> ss_maxQueue ss then (ss\<lparr>ss_needsReplay := True\<rparr>, [])
      else pump sock (ss\<lparr>ss_queue := sort_key fst (ss_queue ss @ [c])\<rparr>))"

fun enqueue_all :: "bool \<Rightarrow> spool_chunk list \<Rightarrow> spool_sender \<Rightarrow> spool_sender \<times> spool_chunk list" where
  "enqueue_all sock [] ss = (ss, [])"
| "enqueue_all sock (c # cs) ss =
     (let (ss1, sent1) = enqueue sock c ss; (ss2, sent2) = enqueue_all sock cs ss1 in (ss2, sent1 @ sent2))"

definition startReplay :: "bool \<Rightarrow> spool_disk \<Rightarrow> spool_sender \<Rightarrow> spool_sender \<times> spool_chunk list" where
  "startReplay sock d ss = enqueue_all sock (iterUnacked d (ss_lastAcked ss)) ss"

definition onAck :: "bool \<Rightarrow> spool_disk \<Rightarrow> int \<Rightarrow> spool_sender \<Rightarrow> spool_sender \<times> spool_chunk list" where
  "onAck sock d sequence ss =
     (let acked = (if sequence > ss_lastAcked ss then sequence else ss_lastAcked ss);
          ss1 = ss\<lparr>ss_lastAcked := acked, ss_queue := dropWhile (\<lambda>c. fst c \<le> acked) (ss_queue ss)\<rparr>;
          (ss2, sent) = pump sock ss1
      in if ss_needsReplay ss2 \<and> length (ss_queue ss2) < ss_maxQueue ss2
         then (let (ss3, more) = startReplay sock d (ss2\<lparr>ss_needsReplay := False\<rparr>) in (ss3, sent @ more))
         else (ss2, sent))"

definition setAcked :: "int \<Rightarrow> spool_sender \<Rightarrow> spool_sender" where
  "setAcked sequence ss = ss\<lparr>ss_lastAcked := max 0 sequence\<rparr>"


section \<open>Crashes\<close>

datatype crash_point =
    At_stream nat
  | At_index nat
  | At_checkpoint

datatype spool_op =
    Op_append log_stream string
  | Op_crash log_stream string crash_point
  | Op_ack int

text \<open>The disk when the process dies inside \<open>appendChunk\<close>: some bytes of the stream, some of the index line, no checkpoint.\<close>

definition crash_disk :: "log_stream \<Rightarrow> string \<Rightarrow> crash_point \<Rightarrow> attempt_spool \<times> spool_disk \<Rightarrow> spool_disk" where
  "crash_disk st bytes pt = (\<lambda>(sp, d).
     case pt of
       At_stream k \<Rightarrow> write_stream st (take k bytes) d
     | At_index k \<Rightarrow>
         (write_stream st bytes d)\<lparr>sd_tail := sd_tail d + min k (length (entry_line (spool_entry st bytes sp)) - 1)\<rparr>
     | At_checkpoint \<Rightarrow> write_index (spool_entry st bytes sp) (write_stream st bytes d))"

definition spool_exec :: "spool_op \<Rightarrow> attempt_spool \<times> spool_disk \<Rightarrow> attempt_spool \<times> spool_disk" where
  "spool_exec op spd =
     (case op of
        Op_append st bytes \<Rightarrow> snd (appendChunk st bytes spd)
      | Op_crash st bytes pt \<Rightarrow> openAttemptSpool (crash_disk st bytes pt spd)
      | Op_ack n \<Rightarrow> (fst spd, writeAck n (snd spd)))"

text \<open>The specification: a list of chunks, to which a completed write adds one.\<close>

definition spool_spec :: "spool_op \<Rightarrow> (log_stream \<times> string) list \<Rightarrow> (log_stream \<times> string) list" where
  "spool_spec op xs =
     (case op of
        Op_append st bytes \<Rightarrow> xs @ [(st, bytes)]
      | Op_crash st bytes At_checkpoint \<Rightarrow> xs @ [(st, bytes)]
      | _ \<Rightarrow> xs)"

definition numbered :: "(log_stream \<times> string) list \<Rightarrow> spool_chunk list" where
  "numbered xs = zip [1..int (length xs)] xs"

definition op_bytes :: "spool_op \<Rightarrow> nat" where
  "op_bytes op = (case op of Op_append _ b \<Rightarrow> length b | Op_crash _ b _ \<Rightarrow> length b | Op_ack _ \<Rightarrow> 0)"

definition spool_ok :: "attempt_spool \<times> spool_disk \<Rightarrow> spool_chunk list \<Rightarrow> bool" where
  "spool_ok spd cs =
     (let (sp, d) = spd in
      log_holds (sd_logs d) cs \<and> sd_tail d = 0 \<and> map fst cs = [1..sp_nextSequence sp - 1] \<and> 1 \<le> sp_nextSequence sp \<and>
      (\<forall>st. streamOffset st sp = streamByteOffset (sd_logs d) st))"

lemma last_of_upto: "map fst cs = [1..n - 1] \<Longrightarrow> 1 \<le> n \<Longrightarrow> (if cs = [] then 0 else fst (last cs)) = n - (1 :: int)"
proof (cases "cs = []")
  case True
  assume "map fst cs = [1..n - 1]" "1 \<le> n"
  with True have "[1..n - 1] = []" by simp
  then have "n - 1 < 1" by simp
  with True \<open>1 \<le> n\<close> show ?thesis by simp
next
  case False
  assume m: "map fst cs = [1..n - 1]" "1 \<le> n"
  have "last (map fst cs) = fst (last cs)" using False by (simp add: last_map)
  moreover have "1 \<le> n - 1"
  proof (rule ccontr)
    assume "\<not> 1 \<le> n - 1"
    then have "[1..n - 1] = []" by simp
    with m(1) False show False by simp
  qed
  then have "last [1..n - 1] = n - 1" by (simp add: upto_rec2)
  ultimately show ?thesis using m False by simp
qed

lemma log_holds_fewer_checkpoints:
  "log_holds logs cs \<Longrightarrow> set cps \<subseteq> set (lg_checkpoints logs) \<Longrightarrow> log_holds (logs\<lparr>lg_checkpoints := cps\<rparr>) cs"
proof -
  assume h: "log_holds logs cs" and sub: "set cps \<subseteq> set (lg_checkpoints logs)"
  have "stream_bytes st (logs\<lparr>lg_checkpoints := cps\<rparr>) = stream_bytes st logs" for st
    by (cases st) (simp_all add: stream_bytes_def)
  then have "chunk_at (logs\<lparr>lg_checkpoints := cps\<rparr>) = chunk_at logs"
    by (simp add: fun_eq_iff chunk_at_def entry_valid_def streamByteOffset_def)
  moreover have "checkpoint_at (logs\<lparr>lg_checkpoints := cps\<rparr>) = checkpoint_at logs"
    by (simp add: fun_eq_iff checkpoint_at_def)
  ultimately show ?thesis using h sub by (auto simp: log_holds_def)
qed

text \<open>The writes of \<open>appendChunk\<close> are those of \<open>appendIndexedLogChunk\<close>.\<close>

lemma writes_append:
  assumes ok: "spool_ok (sp, d) cs"
  shows "sd_logs (snd (snd (appendChunk st bytes (sp, d)))) = snd (appendIndexedLogChunk st bytes (sp_nextSequence sp) None (sd_logs d))"
    and "sd_logs (write_index (spool_entry st bytes sp) (write_stream st bytes d))
      = (snd (appendIndexedLogChunk st bytes (sp_nextSequence sp) None (sd_logs d)))\<lparr>lg_checkpoints := lg_checkpoints (sd_logs d)\<rparr>"
proof -
  have last: "readLastChunkSequence (sd_logs d) < sp_nextSequence sp"
    using ok last_sequence_holds last_of_upto [of cs] by (fastforce simp: spool_ok_def)
  have "sd_tail d = 0" "streamOffset st sp = streamByteOffset (sd_logs d) st" using ok by (auto simp: spool_ok_def)
  with last show "sd_logs (snd (snd (appendChunk st bytes (sp, d)))) = snd (appendIndexedLogChunk st bytes (sp_nextSequence sp) None (sd_logs d))"
    and "sd_logs (write_index (spool_entry st bytes sp) (write_stream st bytes d))
      = (snd (appendIndexedLogChunk st bytes (sp_nextSequence sp) None (sd_logs d)))\<lparr>lg_checkpoints := lg_checkpoints (sd_logs d)\<rparr>"
    by (cases st; simp add: appendChunk_def appendIndexedLogChunk_def Let_def write_stream_def write_index_def
        write_checkpoint_def spool_entry_def CHUNK_CHECKPOINT_INTERVAL_def appendLogChunk_def)+
qed

lemma written_holds:
  assumes ok: "spool_ok (sp, d) cs" and seq: "sp_nextSequence sp \<le> MAX_SAFE_INTEGER"
    and room: "int (length (stream_bytes st (sd_logs d))) + int (length bytes) \<le> MAX_SAFE_INTEGER"
  shows "log_holds (snd (appendIndexedLogChunk st bytes (sp_nextSequence sp) None (sd_logs d))) (cs @ [(sp_nextSequence sp, st, bytes)])"
    and "stream_bytes st' (snd (appendIndexedLogChunk st bytes (sp_nextSequence sp) None (sd_logs d)))
           = stream_bytes st' (sd_logs d) @ (if st' = st then bytes else [])"
    and "set (lg_checkpoints (sd_logs d)) \<subseteq> set (lg_checkpoints (snd (appendIndexedLogChunk st bytes (sp_nextSequence sp) None (sd_logs d))))"
proof -
  have h: "log_holds (sd_logs d) cs" and m: "map fst cs = [1..sp_nextSequence sp - 1]" "1 \<le> sp_nextSequence sp"
    using ok by (auto simp: spool_ok_def)
  have "sp_nextSequence sp > (if cs = [] then 0 else fst (last cs))" using last_of_upto [OF m] by simp
  note app = appendIndexedLogChunk_holds [OF h this _ room]
  have "isSafeInteger (sp_nextSequence sp)" using m(2) seq by (simp add: isSafeInteger_def)
  from app(1) [OF this] app(3) [OF this] show
    "log_holds (snd (appendIndexedLogChunk st bytes (sp_nextSequence sp) None (sd_logs d))) (cs @ [(sp_nextSequence sp, st, bytes)])"
    "stream_bytes st' (snd (appendIndexedLogChunk st bytes (sp_nextSequence sp) None (sd_logs d)))
           = stream_bytes st' (sd_logs d) @ (if st' = st then bytes else [])" by blast+
  show "set (lg_checkpoints (sd_logs d)) \<subseteq> set (lg_checkpoints (snd (appendIndexedLogChunk st bytes (sp_nextSequence sp) None (sd_logs d))))"
    by (cases st) (auto simp: appendIndexedLogChunk_def Let_def appendLogChunk_def)
qed

section \<open>Reopening\<close>

lemma streamOffset_set [simp]: "streamOffset st (set_streamOffset st' n sp) = (if st = st' then n else streamOffset st sp)"
  by (cases st; cases st') (simp_all add: streamOffset_def set_streamOffset_def)

lemma next_set [simp]: "sp_nextSequence (set_streamOffset st n sp) = sp_nextSequence sp"
  by (cases st) (simp_all add: set_streamOffset_def)

lemma streamOffset_next [simp]: "streamOffset st (sp\<lparr>sp_nextSequence := n\<rparr>) = streamOffset st sp"
  by (cases st) (simp_all add: streamOffset_def)

lemma raise_offset_simps [simp]:
  "sp_nextSequence (raise_offset st n sp) = sp_nextSequence sp"
  "streamOffset st' (raise_offset st n sp) = (if st' = st then max n (streamOffset st sp) else streamOffset st' sp)"
  by (auto simp: raise_offset_def)

lemma note_entry_simps [simp]:
  "sp_nextSequence (note_entry e sp) = max (ce_sequence e + 1) (sp_nextSequence sp)"
  "streamOffset st (note_entry e sp) = (if st = ce_stream e then max (ce_byte_offset e + ce_byte_length e) (streamOffset st sp) else streamOffset st sp)"
  by (auto simp: note_entry_def Let_def)

lemma note_entries_next:
  "sorted_wrt (<) ((sp_nextSequence sp - 1) # map ce_sequence es) \<Longrightarrow>
     sp_nextSequence (fold note_entry es sp) = (if es = [] then sp_nextSequence sp else ce_sequence (last es) + 1)"
proof (induction es arbitrary: sp)
  case (Cons e es)
  then have "sp_nextSequence (note_entry e sp) = ce_sequence e + 1" by simp
  with Cons.IH [of "note_entry e sp"] Cons.prems show ?case by auto
qed simp

lemma note_entries_offset:
  "\<forall>e \<in> set es. ce_byte_offset e + ce_byte_length e \<le> n (ce_stream e) \<Longrightarrow> streamOffset st sp \<le> n st \<Longrightarrow>
     streamOffset st (fold note_entry es sp) \<le> n st"
proof (induction es arbitrary: sp)
  case (Cons e es)
  have "streamOffset st (note_entry e sp) \<le> n st" using Cons.prems by auto
  with Cons.IH [of "note_entry e sp"] Cons.prems show ?case by simp
qed simp

lemma open_ok:
  assumes h: "log_holds (sd_logs d) cs" and m: "map fst cs = [1..n - 1]" "1 \<le> n"
  shows "spool_ok (openAttemptSpool d) cs \<and> sp_nextSequence (fst (openAttemptSpool d)) = n"
proof -
  from h obtain es where es: "lg_chunks (sd_logs d) = map line_of es" "list_all2 (chunk_at (sd_logs d)) es cs"
    "sorted_wrt (<) (0 # map ce_sequence es)" "\<forall>cp \<in> set (lg_checkpoints (sd_logs d)). checkpoint_at (sd_logs d) cp"
    by (rule log_holdsE)
  note valid = chunk_at_valid [OF es(2)]
  from iter_from_sorted [OF es(1) valid es(3,4), of 0 0] obtain es1 es2 where split: "es = es1 @ es2"
      "\<forall>e \<in> set es1. ce_sequence e \<le> 0" "readChunkIndexEntries (sd_logs d) = filter (\<lambda>e. ce_sequence e > 0) es2"
    by (auto simp: readChunkIndexEntries_def)
  have "es1 = []" using split(1,2) es(3) by (cases es1) auto
  with split have "readChunkIndexEntries (sd_logs d) = filter (\<lambda>e. ce_sequence e > 0) es" by simp
  moreover have "filter (\<lambda>e. ce_sequence e > 0) es = es" using es(3) by (auto simp: filter_id_conv)
  ultimately have entries: "readChunkIndexEntries (sd_logs d) = es" by simp
  let ?sp0 = "\<lparr>sp_nextSequence = 1, sp_stdoutOffset = 0, sp_stderrOffset = 0\<rparr>"
  have fst_eq: "map ce_sequence es = map fst cs"
    using es(2) by (induction rule: list_all2_induct) (auto simp: chunk_at_def)
  have "sp_nextSequence (fold note_entry es ?sp0) = (if es = [] then 1 else ce_sequence (last es) + 1)"
    using es(3) by (subst note_entries_next) simp_all
  also have "\<dots> = n"
  proof -
    have "(if cs = [] then 0 else fst (last cs)) = n - 1" by (rule last_of_upto [OF m])
    moreover have "es = [] \<longleftrightarrow> cs = []" using fst_eq by (metis list.map_disc_iff)
    moreover have "es \<noteq> [] \<Longrightarrow> ce_sequence (last es) = fst (last cs)" using fst_eq by (metis last_map list.map_disc_iff)
    ultimately show ?thesis by (auto split: if_splits)
  qed
  finally have nxt: "sp_nextSequence (fold note_entry es ?sp0) = n" .
  have "streamOffset st (fold note_entry es ?sp0) \<le> streamByteOffset (sd_logs d) st" for st
    using valid by (intro note_entries_offset [where n = "streamByteOffset (sd_logs d)"])
      (auto simp: entry_valid_def streamOffset_def streamByteOffset_def split: log_stream.split)
  then have "streamOffset st (fst (openAttemptSpool d)) = streamByteOffset (sd_logs (snd (openAttemptSpool d))) st" for st
    using entries by (cases st) (simp_all add: openAttemptSpool_def Let_def max_def antisym)
  moreover have "sp_nextSequence (fst (openAttemptSpool d)) = n" "sd_logs (snd (openAttemptSpool d)) = sd_logs d"
      "sd_tail (snd (openAttemptSpool d)) = 0"
    using nxt entries by (simp_all add: openAttemptSpool_def Let_def)
  ultimately show ?thesis using h m by (cases "openAttemptSpool d") (simp add: spool_ok_def)
qed

lemma numbered_snoc: "numbered (xs @ [x]) = numbered xs @ [(int (length xs) + 1, x)]"
proof -
  have "[1..int (length xs) + 1] = [1..int (length xs)] @ [int (length xs) + 1]"
    using upto_rec2 [of 1 "int (length xs) + 1"] by simp
  then show ?thesis by (simp add: numbered_def add.commute)
qed

lemma numbered_fst: "map fst (numbered xs) = [1..int (length xs)]"
  by (simp add: numbered_def)

lemma spool_next: "spool_ok (sp, d) (numbered xs) \<Longrightarrow> sp_nextSequence sp = int (length xs) + 1"
proof -
  assume ok: "spool_ok (sp, d) (numbered xs)"
  then have "[1..int (length xs)] = [1..sp_nextSequence sp - 1]" "1 \<le> sp_nextSequence sp" by (auto simp: spool_ok_def numbered_fst)
  then have "length [1..int (length xs)] = length [1..sp_nextSequence sp - 1]" by simp
  with \<open>1 \<le> sp_nextSequence sp\<close> show ?thesis by simp
qed

definition disk_size :: "log_stream \<Rightarrow> attempt_spool \<times> spool_disk \<Rightarrow> int" where
  "disk_size st spd = streamByteOffset (sd_logs (snd spd)) st"

lemma write_stream_logs:
  "stream_bytes st' (sd_logs (write_stream st b d)) = stream_bytes st' (sd_logs d) @ (if st' = st then b else [])"
  "lg_chunks (sd_logs (write_stream st b d)) = lg_chunks (sd_logs d)"
  "lg_checkpoints (sd_logs (write_stream st b d)) = lg_checkpoints (sd_logs d)" "sd_tail (write_stream st b d) = sd_tail d"
  by (cases st; cases st'; simp add: write_stream_def appendLogChunk_def stream_bytes_def)+

lemma write_stream_holds: "log_holds (sd_logs d) cs \<Longrightarrow> log_holds (sd_logs (write_stream st b d)) cs"
proof -
  assume h: "log_holds (sd_logs d) cs"
  have "grows (sd_logs d) (sd_logs (write_stream st b d))" by (simp add: grows_def write_stream_logs)
  then have up: "list_all2 (chunk_at (sd_logs d)) es cs \<Longrightarrow> list_all2 (chunk_at (sd_logs (write_stream st b d))) es cs" for es
    by (metis chunk_at_grows list_all2_mono)
  have "checkpoint_at (sd_logs (write_stream st b d)) = checkpoint_at (sd_logs d)"
    by (simp add: fun_eq_iff checkpoint_at_def write_stream_logs)
  with h up show ?thesis unfolding log_holds_def write_stream_logs by (metis (no_types, lifting))
qed

lemma open_logs: "sd_logs (snd (openAttemptSpool d)) = sd_logs d"
  by (simp add: openAttemptSpool_def Let_def)

lemma append_ok:
  assumes ok: "spool_ok (sp, d) (numbered xs)" and n: "int (length xs) < MAX_SAFE_INTEGER"
    and room: "disk_size st (sp, d) + int (length b) \<le> MAX_SAFE_INTEGER"
  shows "spool_ok (snd (appendChunk st b (sp, d))) (numbered (xs @ [(st, b)]))"
    and "disk_size st' (snd (appendChunk st b (sp, d))) \<le> disk_size st' (sp, d) + int (length b)"
proof -
  have nxt: "sp_nextSequence sp = int (length xs) + 1" by (rule spool_next [OF ok])
  have room': "int (length (stream_bytes st (sd_logs d))) + int (length b) \<le> MAX_SAFE_INTEGER"
    using room by (simp add: disk_size_def streamByteOffset_def)
  note w = written_holds [OF ok _ room'] note a = writes_append(1) [OF ok, of st b]
  have seq: "sp_nextSequence sp \<le> MAX_SAFE_INTEGER" using nxt n by simp
  obtain q sp' d' where ap: "appendChunk st b (sp, d) = (q, sp', d')" by (metis prod.exhaust)
  have sp': "sp' = set_streamOffset st (streamOffset st sp + int (length b)) (sp\<lparr>sp_nextSequence := sp_nextSequence sp + 1\<rparr>)" "sd_tail d' = 0"
    using ap ok by (auto simp: appendChunk_def Let_def write_index_def write_checkpoint_def)
  have logs: "stream_bytes st' (sd_logs d') = stream_bytes st' (sd_logs d) @ (if st' = st then b else [])" for st'
    using w(2) [OF seq] a ap by simp
  have "log_holds (sd_logs d') (numbered xs @ [(int (length xs) + 1, st, b)])"
    using w(1) [OF seq] a ap nxt by simp
  moreover have "[1..sp_nextSequence sp' - 1] = map fst (numbered (xs @ [(st, b)]))"
    using nxt by (simp add: sp'(1) numbered_fst add.commute)
  moreover have "streamOffset st' sp' = streamByteOffset (sd_logs d') st'" for st'
    using ok logs [of st'] by (auto simp: sp'(1) spool_ok_def streamByteOffset_def)
  ultimately show "spool_ok (snd (appendChunk st b (sp, d))) (numbered (xs @ [(st, b)]))"
    using ap sp' nxt by (simp add: spool_ok_def numbered_snoc)
  show "disk_size st' (snd (appendChunk st b (sp, d))) \<le> disk_size st' (sp, d) + int (length b)"
    using ap logs [of st'] by (auto simp: disk_size_def streamByteOffset_def)
qed

lemma exec_ok:
  assumes ok: "spool_ok spd (numbered xs)" and n: "int (length xs) < MAX_SAFE_INTEGER"
    and room: "\<And>st. disk_size st spd + int (op_bytes op) \<le> MAX_SAFE_INTEGER"
  shows "spool_ok (spool_exec op spd) (numbered (spool_spec op xs))"
    and "disk_size st' (spool_exec op spd) \<le> disk_size st' spd + int (op_bytes op)"
proof -
  obtain sp d where spd: "spd = (sp, d)" by (cases spd)
  have base: "log_holds (sd_logs d) (numbered xs)" "map fst (numbered xs) = [1..(int (length xs) + 1) - 1]"
    using ok spd by (simp_all add: spool_ok_def numbered_fst)
  have "spool_ok (spool_exec op spd) (numbered (spool_spec op xs)) \<and>
      disk_size st' (spool_exec op spd) \<le> disk_size st' spd + int (op_bytes op)"
  proof (cases op)
    case (Op_append st b)
    with append_ok [OF ok [unfolded spd] n] room [of st] spd show ?thesis
      by (simp add: spool_exec_def spool_spec_def op_bytes_def)
  next
    case (Op_ack q)
    with ok spd show ?thesis
      by (simp add: spool_exec_def spool_spec_def op_bytes_def disk_size_def spool_ok_def writeAck_def)
  next
    case (Op_crash st b pt)
    show ?thesis
    proof (cases pt)
      case At_checkpoint
      have room': "int (length (stream_bytes st (sd_logs d))) + int (length b) \<le> MAX_SAFE_INTEGER"
        using room [of st] Op_crash spd by (simp add: disk_size_def streamByteOffset_def op_bytes_def)
      have nxt: "sp_nextSequence sp = int (length xs) + 1" using ok spd by (intro spool_next) simp
      note w = written_holds [OF ok [unfolded spd] _ room'] note a = writes_append(2) [OF ok [unfolded spd], of st b]
      have seq: "sp_nextSequence sp \<le> MAX_SAFE_INTEGER" using nxt n by simp
      let ?d = "write_index (spool_entry st b sp) (write_stream st b d)"
      have h: "log_holds (sd_logs ?d) (numbered (xs @ [(st, b)]))"
        unfolding a numbered_snoc using log_holds_fewer_checkpoints [OF w(1) [OF seq] w(3) [OF seq]] nxt by simp
      have "map fst (numbered (xs @ [(st, b)])) = [1..(int (length xs) + 2) - 1]" by (simp add: numbered_fst add.commute)
      from open_ok [OF h this] have "spool_ok (openAttemptSpool ?d) (numbered (xs @ [(st, b)]))" by simp
      moreover have "stream_bytes st' (sd_logs ?d) = stream_bytes st' (sd_logs d) @ (if st' = st then b else [])"
        by (cases st'; cases st) (simp_all add: write_index_def write_stream_def appendLogChunk_def stream_bytes_def)
      ultimately show ?thesis using At_checkpoint Op_crash spd
        by (auto simp: spool_exec_def crash_disk_def spool_spec_def open_logs op_bytes_def disk_size_def streamByteOffset_def)
    next
      case (At_stream k)
      have "log_holds (sd_logs (write_stream st (take k b) d)) (numbered xs)" by (rule write_stream_holds [OF base(1)])
      from open_ok [OF this base(2)] show ?thesis using At_stream Op_crash spd
        by (auto simp: spool_exec_def crash_disk_def spool_spec_def open_logs op_bytes_def disk_size_def streamByteOffset_def write_stream_logs)
    next
      case (At_index k)
      let ?d = "(write_stream st b d)\<lparr>sd_tail := sd_tail d + min k (length (entry_line (spool_entry st b sp)) - 1)\<rparr>"
      have "log_holds (sd_logs ?d) (numbered xs)" using write_stream_holds [OF base(1)] by simp
      from open_ok [OF this base(2)] show ?thesis using At_index Op_crash spd
        by (auto simp: spool_exec_def crash_disk_def spool_spec_def open_logs op_bytes_def disk_size_def streamByteOffset_def write_stream_logs)
    qed
  qed
  then show "spool_ok (spool_exec op spd) (numbered (spool_spec op xs))"
    "disk_size st' (spool_exec op spd) \<le> disk_size st' spd + int (op_bytes op)" by auto
qed

definition empty_spool :: spool_disk where
  "empty_spool = \<lparr>sd_logs = empty_logs, sd_tail = 0, sd_ack = Ack_missing\<rparr>"

lemma run_ok:
  assumes "spool_ok spd (numbered xs)" and "int (length xs) + int (length ops) \<le> MAX_SAFE_INTEGER"
    and "\<And>st. disk_size st spd + int (sum_list (map op_bytes ops)) \<le> MAX_SAFE_INTEGER"
  shows "spool_ok (fold spool_exec ops spd) (numbered (fold spool_spec ops xs))"
  using assms
proof (induction ops arbitrary: spd xs)
  case (Cons op ops)
  have n: "int (length xs) < MAX_SAFE_INTEGER" using Cons.prems(2) by simp
  have room: "disk_size st spd + int (op_bytes op) \<le> MAX_SAFE_INTEGER" for st using Cons.prems(3) [of st] by simp
  note e = exec_ok [OF Cons.prems(1) n room]
  have "length (spool_spec op xs) \<le> Suc (length xs)" by (auto simp: spool_spec_def split: spool_op.split crash_point.split)
  then have "int (length (spool_spec op xs)) + int (length ops) \<le> MAX_SAFE_INTEGER" using Cons.prems(2) by simp
  moreover have "disk_size st (spool_exec op spd) + int (sum_list (map op_bytes ops)) \<le> MAX_SAFE_INTEGER" for st
    using Cons.prems(3) [of st] e(2) [of st] by simp
  ultimately show ?case using Cons.IH [OF e(1)] by simp
qed simp

text \<open>
  (C24) Refinement: the spool on disk implements a list of chunks. Whatever appends, acknowledgements and
  crashes are interleaved, where a crash loses any part of the write it interrupts and leaves torn lines
  and stray bytes behind, the spool that is opened next holds exactly the chunks whose index line was
  complete, numbered from 1 without gaps, and reading after any position returns exactly the later ones,
  with their streams and bytes. The bounds are those of JavaScript's safe integers.
\<close>

theorem spool_refines_chunk_list:
  assumes "int (length ops) \<le> MAX_SAFE_INTEGER" and "int (sum_list (map op_bytes ops)) \<le> MAX_SAFE_INTEGER"
  shows "let (sp, d) = fold spool_exec ops (openAttemptSpool empty_spool); xs = fold spool_spec ops [] in
    iterUnacked d n = filter (\<lambda>c. fst c > n) (numbered xs) \<and> sp_nextSequence sp = int (length xs) + 1"
proof -
  have "spool_ok (openAttemptSpool empty_spool) (numbered [])"
    using open_ok [of empty_spool "[]" 1] log_holds_empty by (simp add: empty_spool_def numbered_def)
  moreover have "disk_size st (openAttemptSpool empty_spool) = 0" for st
    by (cases st) (simp_all add: disk_size_def open_logs empty_spool_def empty_logs_def streamByteOffset_def stream_bytes_def)
  ultimately have ok: "spool_ok (fold spool_exec ops (openAttemptSpool empty_spool)) (numbered (fold spool_spec ops []))"
    using assms by (intro run_ok) simp_all
  obtain sp d where spd: "fold spool_exec ops (openAttemptSpool empty_spool) = (sp, d)" by fastforce
  from ok spd have "log_holds (sd_logs d) (numbered (fold spool_spec ops []))" by (simp add: spool_ok_def)
  with replay_holds [OF this] spool_next [OF ok [unfolded spd]] spd show ?thesis by (simp add: iterUnacked_def)
qed

theorem spool_refines_chunk_list_witness:
  "iterUnacked (snd (fold spool_exec [Op_append Stdout ''ab'', Op_crash Stderr ''xyz'' (At_index 7), Op_append Stdout ''c'',
      Op_crash Stdout ''de'' At_checkpoint, Op_crash Stdout ''fgh'' (At_stream 1), Op_append Stderr ''i'']
      (openAttemptSpool empty_spool))) 1
    = [(2, Stdout, ''c''), (3, Stdout, ''de''), (4, Stderr, ''i'')]"
proof -
  let ?ops = "[Op_append Stdout ''ab'', Op_crash Stderr ''xyz'' (At_index 7), Op_append Stdout ''c'',
      Op_crash Stdout ''de'' At_checkpoint, Op_crash Stdout ''fgh'' (At_stream 1), Op_append Stderr ''i'']"
  have "iterUnacked (snd (fold spool_exec ?ops (openAttemptSpool empty_spool))) 1 = filter (\<lambda>c. fst c > 1) (numbered (fold spool_spec ?ops []))"
    using spool_refines_chunk_list [of ?ops 1] by (simp add: MAX_SAFE_INTEGER_def op_bytes_def case_prod_unfold Let_def)
  also have "\<dots> = [(2, Stdout, ''c''), (3, Stdout, ''de''), (4, Stderr, ''i'')]" by code_simp
  finally show ?thesis .
qed

end
