(* ===== verification/Log_Transport.thy ===== *)
theory Log_Transport
  imports Log_Ingest Log_Spool
begin

text \<open>
  The log path end to end: the spool and the sender of the Agent, a connection that loses, repeats and
  reorders chunks, and the Controller. What the Controller has stored is always a prefix of what the
  Agent has spooled.
\<close>

section \<open>What the sender sends\<close>

lemma pump_queue_set: "set (fst (pump_queue sock acked q)) \<union> set (snd (pump_queue sock acked q)) \<subseteq> set q"
proof (induction q)
  case (Cons c q)
  obtain q' x where "pump_queue sock acked q = (q', x)" by fastforce
  with Cons.IH show ?case by (cases "fst c \<le> acked"; cases sock) auto
qed simp

lemma pump_set: "set (ss_queue (fst (pump sock ss))) \<union> set (snd (pump sock ss)) \<subseteq> set (ss_queue ss)"
  using pump_queue_set [of sock "ss_lastAcked ss" "ss_queue ss"] by (auto simp: pump_def split: prod.splits)

lemma enqueue_set: "set (ss_queue (fst (enqueue sock c ss))) \<union> set (snd (enqueue sock c ss)) \<subseteq> insert c (set (ss_queue ss))"
  using pump_set [of sock "ss\<lparr>ss_queue := sort_key fst (ss_queue ss @ [c])\<rparr>"] by (auto simp: enqueue_def)

lemma enqueue_all_set:
  "set (ss_queue (fst (enqueue_all sock cs ss))) \<union> set (snd (enqueue_all sock cs ss)) \<subseteq> set cs \<union> set (ss_queue ss)"
proof (induction cs arbitrary: ss)
  case (Cons c cs)
  obtain s1 x1 where e: "enqueue sock c ss = (s1, x1)" by fastforce
  obtain s2 x2 where a: "enqueue_all sock cs s1 = (s2, x2)" by fastforce
  from enqueue_set [of sock c ss] Cons.IH [of s1] e a show ?case by auto
qed simp

lemma startReplay_set:
  "set (ss_queue (fst (startReplay sock d ss))) \<union> set (snd (startReplay sock d ss)) \<subseteq> set (iterUnacked d (ss_lastAcked ss)) \<union> set (ss_queue ss)"
  unfolding startReplay_def by (rule enqueue_all_set)

lemma onAck_set:
  "set (ss_queue (fst (onAck sock d q ss))) \<union> set (snd (onAck sock d q ss)) \<subseteq> (\<Union>n. set (iterUnacked d n)) \<union> set (ss_queue ss)"
proof -
  let ?acked = "if q > ss_lastAcked ss then q else ss_lastAcked ss"
  let ?s1 = "ss\<lparr>ss_lastAcked := ?acked, ss_queue := dropWhile (\<lambda>c. fst c \<le> ?acked) (ss_queue ss)\<rparr>"
  obtain s2 x2 where p: "pump sock ?s1 = (s2, x2)" by fastforce
  obtain s3 x3 where r: "startReplay sock d (s2\<lparr>ss_needsReplay := False\<rparr>) = (s3, x3)" by fastforce
  have "set (ss_queue ?s1) \<subseteq> set (ss_queue ss)" by (auto dest: set_dropWhileD)
  with pump_set [of sock ?s1] p have "set (ss_queue s2) \<union> set x2 \<subseteq> set (ss_queue ss)" by auto
  with startReplay_set [of sock d "s2\<lparr>ss_needsReplay := False\<rparr>"] r p show ?thesis
    by (auto simp: onAck_def Let_def)
qed

section \<open>The Controller stores what arrived\<close>

definition stored :: "string \<Rightarrow> 'z remote_state_scheme \<Rightarrow> spool_chunk list" where
  "stored a s = iterIndexedChunksAfter (logs_of a s) 0"

definition arrived :: "string \<Rightarrow> 'z remote_state_scheme \<Rightarrow> spool_chunk set" where
  "arrived a s = (\<lambda>(ag, pl). (lc_sequence pl, lc_stream pl, lc_bytes pl)) ` set (chain_of a s)"

lemma log_frame_stored: "log_frame s t \<Longrightarrow> stored a t = stored a s"
  by (simp add: stored_def log_frame_logs)

lemma stored_holds: "log_holds (logs_of a s) cs \<Longrightarrow> map fst cs = [1..n] \<Longrightarrow> stored a s = cs"
proof -
  assume h: "log_holds (logs_of a s) cs" and m: "map fst cs = [1..n]"
  have "fst c > 0" if "c \<in> set cs" for c
  proof -
    have "fst c \<in> set [1..n]" using that m by (metis image_eqI list.set_map)
    then show ?thesis by simp
  qed
  then show ?thesis unfolding stored_def replay_holds [OF h] by (simp add: filter_id_conv)
qed

lemma begin_stored: "stored a (snd (log_chain_begin now k s)) = stored a s"
proof -
  have ack: "logs_of a (snd (send_log_ack ag pl att s)) = logs_of a s" for ag pl att
    using send_ack_sends [of att pl s ag] by (auto simp: sends_def)
  show ?thesis
  proof (cases "chain_of k s")
    case (Cons x rest)
    obtain ag pl where x: "x = (ag, pl)" by (cases x)
    have "logs_of a (snd (log_chain_begin now k s)) = logs_of a s"
    proof (cases "log_chunk_decision now ag pl s")
      case (Chunk_reacked att)
      obtain t where t: "send_log_ack ag pl att s = (Inr (), t)"
        using send_ack_result [of ag pl att s] by (cases "send_log_ack ag pl att s") simp
      with ack [of ag pl att] Cons x Chunk_reacked show ?thesis
        by (simp add: log_chain_begin_def handleRemoteLogChunk_begin_def bind_apply)
    qed (use Cons x in \<open>simp_all add: log_chain_begin_def handleRemoteLogChunk_begin_def bind_apply\<close>)
    then show ?thesis by (simp add: stored_def)
  qed (simp add: log_chain_begin_def)
qed

lemma finish_stored:
  assumes inv: "log_inv s" and room: "ok \<longrightarrow> log_room k s"
  shows "stored a (snd (log_chain_finish ok k s)) = stored a s \<or>
    (\<exists>c \<in> arrived a s. stored a (snd (log_chain_finish ok k s)) = stored a s @ [c])"
proof (cases "map_of (log_writing s) k")
  case None
  then show ?thesis by (auto simp: log_chain_finish_def split: list.split)
next
  case (Some att)
  note i = log_invD [OF inv]
  from i(3) [of k] Some obtain ag pl rest r where w: "at_id att = k" "chain_of k s = (ag, pl) # rest"
      "getAttempt k s = Some r" "lc_sequence pl = at_log_acked_sequence r + 1"
    by (auto simp: writer_ok_def)
  let ?t = "snd (handleRemoteLogChunk_finish ok ag pl att s)"
  have res: "logs_of a (snd (log_chain_finish ok k s)) = logs_of a ?t" using w Some by (simp add: log_chain_finish_def Let_def)
  show ?thesis
  proof (cases ok)
    case False
    then have "?t = s" by (simp add: handleRemoteLogChunk_finish_def persistAndPublishLogChunk_def bind_apply)
    with res show ?thesis by (simp add: stored_def)
  next
    case True
    let ?n = "at_log_acked_sequence r" let ?c = "(lc_sequence pl, lc_stream pl, lc_bytes pl)"
    from i(2) [of k] w obtain cs where cs: "log_holds (logs_of k s) cs" "map fst cs = [1..?n]" "0 \<le> ?n"
      by (auto simp: log_complete_def)
    from room True w have "isSafeInteger (?n + 1)"
        "int (length (stream_bytes (lc_stream pl) (logs_of k s))) + int (length (lc_bytes pl)) \<le> MAX_SAFE_INTEGER"
      by (auto simp: log_room_def)
    from append_complete [OF cs this] obtain x l where
      app: "appendIndexedLogChunk (lc_stream pl) (lc_bytes pl) (lc_sequence pl) None (logs_of k s) = (Inr x, l)"
      and l: "log_holds l (cs @ [?c])" "map fst (cs @ [?c]) = [1..?n + 1]"
      using w(4) by auto
    note t = finish_ok(2) [OF w(1,3) app, where ag = ag and b = a]
    show ?thesis
    proof (cases "a = k")
      case False
      with t res True show ?thesis by (simp add: stored_def)
    next
      case same: True
      have "logs_of a (snd (log_chain_finish ok k s)) = l" using t res True same by simp
      with l have "stored a (snd (log_chain_finish ok k s)) = cs @ [?c]" by (intro stored_holds) simp_all
      moreover have "stored a s = cs" using stored_holds [OF cs(1,2)] same by simp
      moreover have "?c \<in> arrived a s" using w(2) same by (auto simp: arrived_def)
      ultimately show ?thesis by blast
    qed
  qed
qed

lemma step_stored:
  assumes step: "remote_step env s t" and inv: "log_inv s"
  shows "stored a t = stored a s \<or> (\<exists>c \<in> arrived a s. stored a t = stored a s @ [c])"
proof -
  have frame: "log_frame s t \<Longrightarrow> ?thesis" by (simp add: log_frame_stored)
  from step show ?thesis
  proof (cases rule: remote_step.cases)
    case (rs_log_enqueue ag pl)
    then show ?thesis by (simp add: stored_def enqueueRemoteLogChunk_def Let_def)
  next
    case (rs_log_begin now key)
    then show ?thesis by (simp add: begin_stored)
  next
    case (rs_log_finish ok key)
    then show ?thesis using finish_stored [OF inv] by simp
  next
    case (rs_message m now io ag p) then show ?thesis using frame message_log_frame by blast
  next
    case (rs_renew now ag ttl) then show ?thesis using frame log_frame_renew by blast
  next
    case (rs_connections ca) then show ?thesis using frame connections_log_frame by blast
  qed (use frame in \<open>blast intro: obeysD [OF logf.r_sourceNeedBegin] obeysD [OF logf.r_bundleFinish] obeysD [OF logf.r_fallbackFinish]
      obeysD [OF logf.r_artifactFinish] obeysD [OF logf.r_cleanupFinish] obeysD [OF logf.r_initiate] obeysD [OF logf.r_cancel]
      obeysD [OF logf.r_expire]\<close>)+
qed

lemma stored_all: "log_holds logs (numbered xs) \<Longrightarrow> iterIndexedChunksAfter logs 0 = numbered xs"
proof -
  assume h: "log_holds logs (numbered xs)"
  have "fst c > 0" if "c \<in> set (numbered xs)" for c
  proof -
    have "fst c \<in> set [1..int (length xs)]" using that numbered_fst [of xs] by (metis image_eqI list.set_map)
    then show ?thesis by simp
  qed
  then show ?thesis unfolding replay_holds [OF h] by (simp add: filter_id_conv)
qed

section \<open>The composition\<close>

text \<open>
  One attempt \<open>a\<close>. \<open>tr_sent\<close> is everything the sender ever put on the wire; any of it may reach the Controller, any
  number of times and in any order, or never. \<open>t_append\<close> is \<open>appendAndEnqueue\<close> of the executor, \<open>t_ack\<close> its
  \<open>handleLogAck\<close>, \<open>t_adopt\<close> the replay after an adoption, \<open>t_crash\<close> the death of the Agent inside a write and its restart.
\<close>

record transport =
  tr_spool :: "attempt_spool \<times> spool_disk"
  tr_sender :: spool_sender
  tr_sent :: "spool_chunk list"
  tr_ctl :: remote_state

definition fits :: "spool_op \<Rightarrow> attempt_spool \<times> spool_disk \<Rightarrow> bool" where
  "fits op spd = (sp_nextSequence (fst spd) \<le> MAX_SAFE_INTEGER \<and>
     disk_size Stdout spd + int (op_bytes op) \<le> MAX_SAFE_INTEGER \<and> disk_size Stderr spd + int (op_bytes op) \<le> MAX_SAFE_INTEGER)"

inductive transport_step :: "string \<Rightarrow> remote_env \<Rightarrow> transport \<Rightarrow> transport \<Rightarrow> bool" for a env where
  t_append: "fits (Op_append st b) (tr_spool x) \<Longrightarrow> appendChunk st b (tr_spool x) = (q, spd) \<Longrightarrow>
    enqueue sock (q, st, b) (tr_sender x) = (ss, out) \<Longrightarrow>
    transport_step a env x (x\<lparr>tr_spool := spd, tr_sender := ss, tr_sent := tr_sent x @ out\<rparr>)"
| t_crash: "fits (Op_crash st b pt) (tr_spool x) \<Longrightarrow> openAttemptSpool (crash_disk st b pt (tr_spool x)) = (sp, d) \<Longrightarrow>
    transport_step a env x (x\<lparr>tr_spool := (sp, d), tr_sender := setAcked (readAck d) (fresh_sender n)\<rparr>)"
| t_ack: "onAck sock (snd (tr_spool x)) q (tr_sender x) = (ss, out) \<Longrightarrow>
    transport_step a env x (x\<lparr>tr_spool := (fst (tr_spool x), writeAck q (snd (tr_spool x))), tr_sender := ss, tr_sent := tr_sent x @ out\<rparr>)"
| t_adopt: "startReplay sock (snd (tr_spool x)) (setAcked q (tr_sender x)) = (ss, out) \<Longrightarrow>
    transport_step a env x (x\<lparr>tr_sender := ss, tr_sent := tr_sent x @ out\<rparr>)"
| t_controller: "remote_step env (tr_ctl x) t \<Longrightarrow> arrived a t \<subseteq> arrived a (tr_ctl x) \<union> set (tr_sent x) \<Longrightarrow>
    transport_step a env x (x\<lparr>tr_ctl := t\<rparr>)"

definition transport_inv :: "string \<Rightarrow> (log_stream \<times> string) list \<Rightarrow> transport \<Rightarrow> bool" where
  "transport_inv a xs x =
     (spool_ok (tr_spool x) (numbered xs) \<and> log_inv (tr_ctl x) \<and>
      set (ss_queue (tr_sender x)) \<union> set (tr_sent x) \<union> arrived a (tr_ctl x) \<union> set (stored a (tr_ctl x)) \<subseteq> set (numbered xs))"

lemma numbered_grows: "set (numbered xs) \<subseteq> set (numbered (spool_spec op xs))"
  by (auto simp: spool_spec_def numbered_snoc split: spool_op.split crash_point.split)

lemma unacked_set: "spool_ok spd (numbered xs) \<Longrightarrow> set (iterUnacked (snd spd) n) \<subseteq> set (numbered xs)"
  by (cases spd) (auto simp: spool_ok_def iterUnacked_def replay_holds)

lemma fits_ok:
  assumes "spool_ok spd (numbered xs)" "fits op spd"
  shows "spool_ok (spool_exec op spd) (numbered (spool_spec op xs))"
proof (rule exec_ok(1) [OF assms(1)])
  obtain sp d where spd: "spd = (sp, d)" by (cases spd)
  show "int (length xs) < MAX_SAFE_INTEGER" using assms spool_next [of sp d xs] spd by (simp add: fits_def)
  show "disk_size st spd + int (op_bytes op) \<le> MAX_SAFE_INTEGER" for st using assms(2) by (cases st) (simp_all add: fits_def)
qed

lemma transport_step_inv:
  assumes "transport_step a env x y" and inv: "transport_inv a xs x"
  shows "\<exists>xs'. transport_inv a xs' y"
  using assms(1)
proof cases
  case (t_append st b q spd sock ss out)
  have ok: "spool_ok (tr_spool x) (numbered xs)" using inv by (simp add: transport_inv_def)
  obtain sp d where spd: "tr_spool x = (sp, d)" by fastforce
  have "q = int (length xs) + 1" using t_append(3) spool_next [of sp d xs] ok spd by (simp add: appendChunk_def Let_def)
  then have c: "(q, st, b) \<in> set (numbered (xs @ [(st, b)]))" by (simp add: numbered_snoc)
  have "spool_ok spd (numbered (xs @ [(st, b)]))"
    using fits_ok [OF ok t_append(2)] t_append(3) by (simp add: spool_exec_def spool_spec_def)
  moreover have "set (numbered xs) \<subseteq> set (numbered (xs @ [(st, b)]))" by (auto simp: numbered_snoc)
  ultimately have "transport_inv a (xs @ [(st, b)]) y"
    using inv enqueue_set [of sock "(q, st, b)" "tr_sender x"] t_append(1,4) c by (auto simp: transport_inv_def)
  then show ?thesis ..
next
  case (t_crash st b pt sp d n)
  let ?xs = "spool_spec (Op_crash st b pt) xs"
  have "spool_ok (sp, d) (numbered ?xs)"
    using fits_ok [OF _ t_crash(2), of xs] inv t_crash(3) by (simp add: transport_inv_def spool_exec_def)
  moreover have "ss_queue (setAcked (readAck d) (fresh_sender n)) = []" by (simp add: setAcked_def fresh_sender_def)
  ultimately have "transport_inv a ?xs y"
    using inv numbered_grows [of xs "Op_crash st b pt"] t_crash(1) unfolding transport_inv_def by simp blast
  then show ?thesis ..
next
  case (t_ack sock q ss out)
  have ok: "spool_ok (tr_spool x) (numbered xs)" using inv by (simp add: transport_inv_def)
  then have "spool_ok (fst (tr_spool x), writeAck q (snd (tr_spool x))) (numbered xs)"
    by (cases "tr_spool x") (simp add: spool_ok_def writeAck_def)
  with inv onAck_set [of sock "snd (tr_spool x)" q "tr_sender x"] unacked_set [OF ok] t_ack(1,2) have "transport_inv a xs y"
    unfolding transport_inv_def by simp blast
  then show ?thesis ..
next
  case (t_adopt sock q ss out)
  have ok: "spool_ok (tr_spool x) (numbered xs)" using inv by (simp add: transport_inv_def)
  with inv startReplay_set [of sock "snd (tr_spool x)" "setAcked q (tr_sender x)"] unacked_set [OF ok] t_adopt(1,2) have "transport_inv a xs y"
    unfolding transport_inv_def by (simp add: setAcked_def) blast
  then show ?thesis ..
next
  case (t_controller t)
  have i: "log_inv (tr_ctl x)" using inv by (simp add: transport_inv_def)
  from step_stored [OF t_controller(2) i, of a] step_log_inv [OF t_controller(2) i] inv t_controller(1,3) have "transport_inv a xs y"
    unfolding transport_inv_def by auto
  then show ?thesis ..
qed

lemma numbered_unique: "set ys \<subseteq> set (numbered xs) \<Longrightarrow> map fst ys = [1..int k] \<Longrightarrow> k \<le> length xs \<and> ys = take k (numbered xs)"
proof -
  assume sub: "set ys \<subseteq> set (numbered xs)" and m: "map fst ys = [1..int k]"
  have len: "length ys = k" using arg_cong [OF m, of length] by simp
  have nth: "i < length xs \<Longrightarrow> numbered xs ! i = (int i + 1, xs ! i)" for i by (simp add: numbered_def)
  have at: "i < length xs \<and> ys ! i = numbered xs ! i" if "i < k" for i
  proof -
    have "ys ! i \<in> set (numbered xs)" using sub that len by auto
    then obtain j where j: "j < length xs" "ys ! i = numbered xs ! j"
      by (auto simp: in_set_conv_nth) (auto simp: numbered_def)
    have "fst (ys ! i) = [1..int k] ! i" using that len m by (metis nth_map)
    then have "int j + 1 = 1 + int i" using nth [OF j(1)] j(2) that by simp
    with j show ?thesis by simp
  qed
  have "k \<le> length xs" using at [of "k - 1"] by (cases k) auto
  moreover from this have "ys = take k (numbered xs)" using at len by (intro nth_equalityI) (auto simp: numbered_def)
  ultimately show ?thesis ..
qed

text \<open>
  (C23) Safety, across Agent and Controller: what the Controller has stored of an attempt's log is always a
  prefix of what the Agent has spooled, exactly up to the acknowledged position: the same chunks, in the
  same order, with the same streams and bytes. This holds for every interleaving of output, sends that
  fail, overflowing queues, acknowledgements, replays, crashes and restarts of the Agent, for a
  connection that loses, repeats and reorders chunks, and for every step of the Controller.
\<close>

theorem controller_log_is_prefix_of_spool:
  assumes start: "fresh_logs (tr_ctl x)" "tr_spool x = openAttemptSpool empty_spool" "ss_queue (tr_sender x) = []" "tr_sent x = []"
    and steps: "(transport_step a env)\<^sup>*\<^sup>* x y" and row: "getAttempt a (tr_ctl y) = Some r"
  shows "0 \<le> at_log_acked_sequence r \<and> nat (at_log_acked_sequence r) \<le> length (iterUnacked (snd (tr_spool y)) 0) \<and>
    iterIndexedChunksAfter (logs_of a (tr_ctl y)) 0 = take (nat (at_log_acked_sequence r)) (iterUnacked (snd (tr_spool y)) 0)"
proof -
  have inv0: "log_inv (tr_ctl x)" using fresh_log_inv [OF start(1)] .
  have "stored a (tr_ctl x) = []" "arrived a (tr_ctl x) = {}"
    using start(1) replay_holds [OF log_holds_empty] by (simp_all add: stored_def arrived_def fresh_logs_def logs_of_def chain_of_def)
  moreover have "spool_ok (openAttemptSpool empty_spool) (numbered [])"
    using open_ok [of empty_spool "[]" 1] log_holds_empty by (simp add: empty_spool_def numbered_def)
  ultimately have "transport_inv a [] x" using start inv0 by (simp add: transport_inv_def)
  with steps have "\<exists>xs. transport_inv a xs y" by (induction rule: rtranclp_induct) (auto dest: transport_step_inv)
  then obtain xs where inv: "transport_inv a xs y" ..
  then have "log_inv (tr_ctl y)" by (simp add: transport_inv_def)
  from log_invD(2) [OF this, of a] row obtain cs where cs: "log_holds (logs_of a (tr_ctl y)) cs"
      "map fst cs = [1..at_log_acked_sequence r]" "0 \<le> at_log_acked_sequence r" by (auto simp: log_complete_def)
  have st: "stored a (tr_ctl y) = cs" by (rule stored_holds [OF cs(1,2)])
  with inv have "set cs \<subseteq> set (numbered xs)" by (simp add: transport_inv_def)
  from numbered_unique [OF this, of "nat (at_log_acked_sequence r)"] cs have
    pre: "nat (at_log_acked_sequence r) \<le> length xs" "cs = take (nat (at_log_acked_sequence r)) (numbered xs)" by auto
  have "log_holds (sd_logs (snd (tr_spool y))) (numbered xs)"
    using inv by (auto simp: transport_inv_def spool_ok_def split: prod.splits)
  from stored_all [OF this] have "iterUnacked (snd (tr_spool y)) 0 = numbered xs" by (simp add: iterUnacked_def)
  with pre st cs(3) show ?thesis by (simp add: stored_def numbered_def)
qed

section \<open>A replay that sends nothing\<close>

text \<open>
  \<open>enqueue\<close> returns before it pumps when the chunk is queued already or the queue is full. A sender whose
  queue still holds every unacknowledged chunk when the connection comes back sends nothing on the
  replay, and with a full queue it sends nothing whatever is on disk.
\<close>

lemma enqueue_all_stuck:
  "(\<And>c. c \<in> set cs \<Longrightarrow> fst c \<le> ss_lastAcked ss \<or> (\<exists>x \<in> set (ss_queue ss). fst x = fst c) \<or> ss_maxQueue ss \<le> length (ss_queue ss)) \<Longrightarrow>
     snd (enqueue_all sock cs ss) = []"
proof (induction cs arbitrary: ss)
  case (Cons c cs)
  have e: "snd (enqueue sock c ss) = []" "ss_queue (fst (enqueue sock c ss)) = ss_queue ss"
    "ss_lastAcked (fst (enqueue sock c ss)) = ss_lastAcked ss" "ss_maxQueue (fst (enqueue sock c ss)) = ss_maxQueue ss"
    using Cons.prems [of c] by (auto simp: enqueue_def)
  have "snd (enqueue_all sock cs (fst (enqueue sock c ss))) = []" using Cons.prems e by (intro Cons.IH) auto
  with e(1) show ?case by (auto simp: Let_def split: prod.splits)
qed simp

theorem replay_with_queued_backlog_sends_nothing:
  assumes "\<And>c. c \<in> set (iterUnacked d (ss_lastAcked ss)) \<Longrightarrow> (\<exists>x \<in> set (ss_queue ss). fst x = fst c) \<or> ss_maxQueue ss \<le> length (ss_queue ss)"
  shows "snd (startReplay True d ss) = []"
  unfolding startReplay_def using assms by (intro enqueue_all_stuck) blast

section \<open>Witness\<close>

definition demo_transport :: transport where
  "demo_transport = \<lparr>tr_spool = openAttemptSpool empty_spool, tr_sender = fresh_sender 4, tr_sent = [], tr_ctl = demo_state Running None 1\<rparr>"

definition demo_spooled :: transport where
  "demo_spooled = demo_transport\<lparr>tr_spool := snd (appendChunk Stdout ''hi'' (openAttemptSpool empty_spool)),
     tr_sender := fst (enqueue True (1, Stdout, ''hi'') (fresh_sender 4)), tr_sent := [(1, Stdout, ''hi'')]\<rparr>"

theorem controller_log_is_prefix_of_spool_witness:
  "iterIndexedChunksAfter (logs_of ''a'' demo_log_state) 0 = take 1 (iterUnacked (snd (tr_spool demo_spooled)) 0)"
proof -
  let ?s = "demo_state Running None 1"
  let ?t = "snd (enqueueRemoteLogChunk ''g'' \<lparr>lc_lease = demo_lease 1, lc_stream = Stdout, lc_sequence = 1, lc_bytes = ''hi''\<rparr> ?s)"
  let ?u = "snd (log_chain_begin 500 ''a'' ?t)"
  let ?step = "transport_step ''a'' demo_env"
  have "fits (Op_append Stdout ''hi'') (tr_spool demo_transport)" by code_simp
  moreover have "fst (appendChunk Stdout ''hi'' (tr_spool demo_transport)) = 1" by code_simp
  then have "appendChunk Stdout ''hi'' (tr_spool demo_transport) = (1, snd (appendChunk Stdout ''hi'' (tr_spool demo_transport)))"
    by (metis prod.collapse)
  moreover have "snd (enqueue True (1, Stdout, ''hi'') (fresh_sender 4)) = [(1, Stdout, ''hi'')]" by code_simp
  then have "enqueue True (1, Stdout, ''hi'') (tr_sender demo_transport) = (fst (enqueue True (1, Stdout, ''hi'') (fresh_sender 4)), [(1, Stdout, ''hi'')])"
    by (simp add: demo_transport_def prod_eq_iff)
  ultimately have "?step demo_transport (demo_transport\<lparr>tr_spool := snd (appendChunk Stdout ''hi'' (tr_spool demo_transport)),
      tr_sender := fst (enqueue True (1, Stdout, ''hi'') (fresh_sender 4)), tr_sent := tr_sent demo_transport @ [(1, Stdout, ''hi'')]\<rparr>)"
    by (rule t_append)
  then have s0: "?step demo_transport demo_spooled" by (simp add: demo_spooled_def demo_transport_def)
  have ctl: "tr_ctl demo_spooled = ?s" "tr_sent demo_spooled = [(1, Stdout, ''hi'')]" by (simp_all add: demo_spooled_def demo_transport_def)
  have chains: "map snd (chain_of ''a'' ?t) = [\<lparr>lc_lease = demo_lease 1, lc_stream = Stdout, lc_sequence = 1, lc_bytes = ''hi''\<rparr>]"
    "map snd (chain_of ''a'' ?u) = map snd (chain_of ''a'' ?t)" "chain_of ''a'' demo_log_state = []" by code_simp+
  have room: "log_room ''a'' ?u" by code_simp
  have "arrived ''a'' ?t = {(1, Stdout, ''hi'')}" using chains(1) by (auto simp: arrived_def Cons_eq_map_conv)
  moreover have "remote_step demo_env (tr_ctl demo_spooled) ?t" unfolding ctl by (rule rs_log_enqueue)
  ultimately have "?step demo_spooled (demo_spooled\<lparr>tr_ctl := ?t\<rparr>)" by (intro t_controller) (simp_all add: ctl)
  moreover have "?step (demo_spooled\<lparr>tr_ctl := ?t\<rparr>) (demo_spooled\<lparr>tr_ctl := ?t, tr_ctl := ?u\<rparr>)"
  proof (rule t_controller)
    show "remote_step demo_env (tr_ctl (demo_spooled\<lparr>tr_ctl := ?t\<rparr>)) ?u" by (simp add: rs_log_begin)
    show "arrived ''a'' ?u \<subseteq> arrived ''a'' (tr_ctl (demo_spooled\<lparr>tr_ctl := ?t\<rparr>)) \<union> set (tr_sent (demo_spooled\<lparr>tr_ctl := ?t\<rparr>))"
      using chains(1,2) ctl(2) by (auto simp: arrived_def Cons_eq_map_conv)
  qed
  moreover have "?step (demo_spooled\<lparr>tr_ctl := ?u\<rparr>) (demo_spooled\<lparr>tr_ctl := ?u, tr_ctl := demo_log_state\<rparr>)"
  proof (rule t_controller)
    show "remote_step demo_env (tr_ctl (demo_spooled\<lparr>tr_ctl := ?u\<rparr>)) demo_log_state"
      unfolding demo_log_state_def using room by (simp add: rs_log_finish)
  qed (simp add: arrived_def chains(3))
  ultimately have steps: "?step\<^sup>*\<^sup>* demo_transport (demo_spooled\<lparr>tr_ctl := demo_log_state\<rparr>)"
    using s0 by simp
  have "map_option at_log_acked_sequence (getAttempt ''a'' demo_log_state) = Some 1" by code_simp
  then obtain r where r: "getAttempt ''a'' demo_log_state = Some r" "at_log_acked_sequence r = 1" by auto
  from controller_log_is_prefix_of_spool [OF _ _ _ _ steps, of r] r demo_fresh show ?thesis
    by (simp add: demo_transport_def fresh_sender_def)
qed

end
