(* ===== verification/Agent_Registry.thy ===== *)
theory Agent_Registry
  imports Recovery_Safety Job_Submit
begin

text \<open>
  The Agents the Controller knows: pairing of a new device (\<open>security/pairing.ts\<close>), credentials
  (\<open>security/credentials.ts\<close>), the columns of the agents table (\<open>agents/registry.ts\<close>), the listing
  (\<open>agents/service.ts\<close>) and the capability probe (\<open>agents/probe.ts\<close>), all under
  \<open>apps/controller/src\<close>. The state adds the table \<open>pairing_requests\<close> and what the socket server of
  \<open>websocket/server.ts\<close> keeps: the variables of each connection, the frames sent outside a job, the
  requested scans of the queue and the shutdown flag. SHA-256 is the parameter \<open>pe_sha256\<close>; the ids,
  codes and nonces the code generates are arguments.
\<close>

section \<open>State\<close>

datatype pairing_state = Pair_pending | Pair_approved | Pair_claimed | Pair_rejected | Pair_expired

record pairing_request_row =
  pr_id :: string
  pr_device_public_key :: string
  pr_device_thumbprint :: string
  pr_display_name :: string
  pr_hostname :: "string option"
  pr_one_time_code :: string
  pr_state :: pairing_state
  pr_agent_id :: "string option"
  pr_created_at :: ts
  pr_expires_at :: ts
  pr_resolved_at :: "ts option"

datatype plane_payload =
    Ack_incompatible string
  | Ack_unauthenticated string
  | Ack_rejected string
  | Ack_pairing_pending string string
  | Ack_pairing_approved string string
  | Ack_authenticated string
  | Challenge string
  | Refresh_capabilities

record connection =
  co_authenticated :: "string option"
  co_pendingNonce :: "string option"
  co_pendingCredential :: "string option"
  co_connectionHost :: "string option"

record plane_state = recovery_state +
  pairing_requests :: "pairing_request_row list"
  connections :: "(nat \<times> connection) list"
  plane_sent :: "(nat \<times> plane_payload) list"
  queue_scans :: nat
  shuttingDown :: bool

record plane_env =
  pe_remote :: remote_env
  pe_recovery :: recovery_opts
  pe_fingerprint :: string
  pe_sha256 :: "string \<Rightarrow> string"
  pe_hasDispatchContext :: bool
  pe_heartbeatTimeoutMs :: int

definition publicKeyThumbprint :: "plane_env \<Rightarrow> string \<Rightarrow> string" where
  "publicKeyThumbprint env pem = ''sha256:'' @ pe_sha256 env (trim pem)"

definition verifyNonceSignature :: "plane_env \<Rightarrow> string \<Rightarrow> string \<Rightarrow> string \<Rightarrow> bool" where
  "verifyNonceSignature env pem nonce signature = crypto_verify (re_jwt (pe_remote env)) pem nonce signature"

section \<open>The agents table\<close>

definition get_agent :: "string \<Rightarrow> 'z controller_db_scheme \<Rightarrow> agent_row option" where
  "get_agent agentId s = sql_get (\<lambda>r. ag_id r = agentId) (agents s)"

definition update_agent :: "string \<Rightarrow> (agent_row \<Rightarrow> agent_row) \<Rightarrow> ('z controller_db_scheme, unit) rbo" where
  "update_agent agentId f = modify (\<lambda>s. s\<lparr>agents := sql_update (\<lambda>r. ag_id r = agentId) f (agents s)\<rparr>)"

definition revokeAgent :: "ts \<Rightarrow> string \<Rightarrow> ('z controller_db_scheme, unit) rbo" where
  "revokeAgent now agentId =
     bind (gets (\<lambda>s. sql_changes (\<lambda>r. ag_id r = agentId) (agents s))) (\<lambda>changes.
     bind (update_agent agentId
             (\<lambda>r. r\<lparr>ag_revoked_at := Some now, ag_state := ''revoked'', ag_disabled_at := Some now\<rparr>)) (\<lambda>_.
     if changes = 0 then throw (rbo_validation (''Unknown agent '' @ squote @ agentId @ squote)) else ret ()))"

definition updateAgentCapabilities :: "ts \<Rightarrow> string \<Rightarrow> agent_capability_report \<Rightarrow> ('z controller_db_scheme, unit) rbo" where
  "updateAgentCapabilities now agentId report =
     update_agent agentId (\<lambda>r. r\<lparr>ag_capabilities := Some report, ag_hostname := Some (cap_hostname report),
       ag_max_jobs := cap_max_jobs (cap_execution report), ag_last_boot_id := cap_boot_id report,
       ag_last_seen_at := Some now\<rparr>)"

definition clamp_load :: "rat \<Rightarrow> agent_capability_report \<Rightarrow> agent_capability_report" where
  "clamp_load cpuLoad caps =
     caps\<lparr>cap_resources := (cap_resources caps)\<lparr>res_cpu_load := Some (min 1 (max 0 cpuLoad))\<rparr>\<rparr>"

text \<open>A row without a report holds \<open>'{}'\<close>; reading \<open>caps.resources\<close> throws there and the \<open>catch\<close> skips.\<close>

definition patchAgentCpuLoad :: "ts \<Rightarrow> string \<Rightarrow> rat \<Rightarrow> ('z controller_db_scheme, unit) rbo" where
  "patchAgentCpuLoad now agentId cpuLoad =
     bind (gets (get_agent agentId)) (\<lambda>row.
       case Option.bind row ag_capabilities of
         None \<Rightarrow> ret ()
       | Some caps \<Rightarrow>
           update_agent agentId (\<lambda>r. r\<lparr>ag_capabilities := Some (clamp_load cpuLoad caps), ag_last_seen_at := Some now\<rparr>))"

definition setAgentState :: "ts \<Rightarrow> string \<Rightarrow> string \<Rightarrow> ('z controller_db_scheme, unit) rbo" where
  "setAgentState now agentId st = update_agent agentId (\<lambda>r. r\<lparr>ag_state := st, ag_last_seen_at := Some now\<rparr>)"

definition markAgentSeen :: "ts \<Rightarrow> string \<Rightarrow> string \<Rightarrow> ('z controller_db_scheme, unit) rbo" where
  "markAgentSeen now agentId st = update_agent agentId (\<lambda>r. r\<lparr>ag_state := st, ag_last_seen_at := Some now\<rparr>)"

section \<open>Credentials\<close>

definition CREDENTIAL_TTL_SECONDS :: int where
  "CREDENTIAL_TTL_SECONDS = 30 * 24 * 3600"

definition credential_claims :: "string \<Rightarrow> string \<Rightarrow> string \<Rightarrow> int \<Rightarrow> ts \<Rightarrow> (string \<times> json) list" where
  "credential_claims agentId controllerId thumbprint version now =
     [(''sub'', JStr agentId), (''aud'', JStr controllerId), (''device_thumbprint'', JStr thumbprint),
      (''credential_version'', JNum (of_int version)), (''exp'', JNum (of_int (now div 1000 + CREDENTIAL_TTL_SECONDS)))]"

definition issueAgentCredential :: "plane_env \<Rightarrow> ts \<Rightarrow> string \<Rightarrow> ('z controller_db_scheme, string) rbo" where
  "issueAgentCredential env now agentId =
     bind (gets (get_agent agentId)) (\<lambda>found.
       case found of
         None \<Rightarrow> throw (rbo_validation (''Unknown agent '' @ squote @ agentId @ squote))
       | Some agent \<Rightarrow>
           if ag_revoked_at agent \<noteq> None then throw (rbo_validation (''Agent '' @ squote @ agentId @ squote @ '' is revoked''))
           else if falsy_str (ag_device_thumbprint agent)
           then throw (rbo_internal (''Agent '' @ squote @ agentId @ squote @ '' has no device key on record''))
           else
             (let nextVersion = ag_credential_version agent + 1;
                  identity = re_identity (pe_remote env)
              in
              bind (update_agent agentId (\<lambda>r. r\<lparr>ag_credential_version := nextVersion\<rparr>)) (\<lambda>_.
              ret (signEdDsaJwt (re_jwt (pe_remote env)) (now div 1000) (id_signingPrivateKeyPem identity)
                     (credential_claims agentId (id_controllerId identity) (the (ag_device_thumbprint agent)) nextVersion now)))))"

record verified_credential =
  vc_agentId :: string
  vc_devicePublicKeyPem :: string
  vc_credentialVersion :: int

definition verifyAgentCredential ::
  "plane_env \<Rightarrow> ts \<Rightarrow> string \<Rightarrow> 'z controller_db_scheme \<Rightarrow> verified_credential option" where
  "verifyAgentCredential env now credential s =
     (let identity = re_identity (pe_remote env) in
      case verifyEdDsaJwt (re_jwt (pe_remote env)) (now div 1000) (id_signingPublicKeyPem identity) credential of
        None \<Rightarrow> None
      | Some claims \<Rightarrow>
          if map_of claims ''aud'' \<noteq> Some (JStr (id_controllerId identity)) then None
          else
            (case map_of claims ''sub'' of
               Some (JStr sub) \<Rightarrow>
                 (case get_agent sub s of
                    None \<Rightarrow> None
                  | Some agent \<Rightarrow>
                      if ag_revoked_at agent \<noteq> None \<or> falsy_str (ag_device_public_key agent) \<or>
                         falsy_str (ag_device_thumbprint agent) then None
                      else if map_of claims ''credential_version'' \<noteq> Some (JNum (of_int (ag_credential_version agent))) then None
                      else if map_of claims ''device_thumbprint'' \<noteq> map_option JStr (ag_device_thumbprint agent) then None
                      else if map_option (publicKeyThumbprint env) (ag_device_public_key agent) \<noteq> ag_device_thumbprint agent then None
                      else Some \<lparr>vc_agentId = ag_id agent, vc_devicePublicKeyPem = the (ag_device_public_key agent),
                                 vc_credentialVersion = ag_credential_version agent\<rparr>)
             | _ \<Rightarrow> None))"

section \<open>Pairing\<close>

definition PAIRING_TTL_MS :: int where
  "PAIRING_TTL_MS = 15 * 60 * 1000"

definition getPairingRequest :: "string \<Rightarrow> 'z plane_state_scheme \<Rightarrow> pairing_request_row option" where
  "getPairingRequest i s = sql_get (\<lambda>r. pr_id r = i) (pairing_requests s)"

definition update_pairing ::
  "(pairing_request_row \<Rightarrow> bool) \<Rightarrow> (pairing_request_row \<Rightarrow> pairing_request_row) \<Rightarrow> ('z plane_state_scheme, unit) rbo" where
  "update_pairing P f = modify (\<lambda>s. s\<lparr>pairing_requests := sql_update P f (pairing_requests s)\<rparr>)"

definition live_pairing :: "pairing_request_row \<Rightarrow> bool" where
  "live_pairing r = (pr_state r \<in> {Pair_pending, Pair_approved})"

definition expireStalePairingRequests :: "ts \<Rightarrow> ('z plane_state_scheme, unit) rbo" where
  "expireStalePairingRequests now =
     update_pairing (\<lambda>r. live_pairing r \<and> pr_expires_at r \<le> now)
       (\<lambda>r. r\<lparr>pr_state := Pair_expired,
              pr_resolved_at := (case pr_resolved_at r of None \<Rightarrow> Some now | Some t \<Rightarrow> Some t)\<rparr>)"

text \<open>\<open>ORDER BY created_at\<close> is stable here: rows of the same instant stay in insertion order.\<close>

definition listPairingRequests ::
  "ts \<Rightarrow> pairing_state option \<Rightarrow> ('z plane_state_scheme, pairing_request_row list) rbo" where
  "listPairingRequests now st =
     bind (expireStalePairingRequests now) (\<lambda>_.
     gets (\<lambda>s. sort_key pr_created_at
       (sql_all (\<lambda>r. case st of None \<Rightarrow> True | Some w \<Rightarrow> pr_state r = w) (pairing_requests s))))"

record pairing_input =
  pi_devicePublicKeyPem :: string
  pi_displayName :: string
  pi_hostname :: "string option"

definition new_pairing :: "plane_env \<Rightarrow> ts \<Rightarrow> string \<Rightarrow> string \<Rightarrow> pairing_input \<Rightarrow> pairing_request_row" where
  "new_pairing env now reqId code i =
     \<lparr>pr_id = reqId, pr_device_public_key = pi_devicePublicKeyPem i,
      pr_device_thumbprint = publicKeyThumbprint env (pi_devicePublicKeyPem i),
      pr_display_name = pi_displayName i, pr_hostname = pi_hostname i, pr_one_time_code = code,
      pr_state = Pair_pending, pr_agent_id = None, pr_created_at = now, pr_expires_at = now + PAIRING_TTL_MS,
      pr_resolved_at = None\<rparr>"

definition createPairingRequest ::
  "plane_env \<Rightarrow> ts \<Rightarrow> string \<Rightarrow> string \<Rightarrow> pairing_input \<Rightarrow> ('z plane_state_scheme, pairing_request_row) rbo" where
  "createPairingRequest env now reqId code i =
     bind (expireStalePairingRequests now) (\<lambda>_.
     bind (gets (\<lambda>s. sql_get (\<lambda>r. pr_device_thumbprint r = publicKeyThumbprint env (pi_devicePublicKeyPem i) \<and>
                                    live_pairing r \<and> pr_expires_at r > now) (pairing_requests s))) (\<lambda>existing.
       case existing of
         Some r \<Rightarrow> ret r
       | None \<Rightarrow>
           bind (gets (getPairingRequest reqId)) (\<lambda>taken.
             if taken \<noteq> None then throw (SqliteConstraint ''pairing_requests.id'')
             else
               bind (modify (\<lambda>s. s\<lparr>pairing_requests := pairing_requests s @ [new_pairing env now reqId code i]\<rparr>)) (\<lambda>_.
               ret (new_pairing env now reqId code i)))))"

definition pairing_state_name :: "pairing_state \<Rightarrow> string" where
  "pairing_state_name st =
     (case st of Pair_pending \<Rightarrow> ''pending'' | Pair_approved \<Rightarrow> ''approved'' | Pair_claimed \<Rightarrow> ''claimed''
      | Pair_rejected \<Rightarrow> ''rejected'' | Pair_expired \<Rightarrow> ''expired'')"

definition paired_agent :: "ts \<Rightarrow> string \<Rightarrow> pairing_request_row \<Rightarrow> agent_row" where
  "paired_agent now agentId request =
     \<lparr>ag_id = agentId, ag_display_name = pr_display_name request, ag_hostname = pr_hostname request,
      ag_state = ''offline'', ag_priority = 0, ag_max_jobs = 1, ag_capabilities = None, ag_last_seen_at = None,
      ag_paired_at = now, ag_disabled_at = None, ag_device_public_key = Some (pr_device_public_key request),
      ag_device_thumbprint = Some (pr_device_thumbprint request), ag_credential_version = 0,
      ag_revoked_at = None, ag_last_boot_id = None\<rparr>"

definition approvePairingRequest :: "ts \<Rightarrow> string \<Rightarrow> string \<Rightarrow> ('z plane_state_scheme, string) rbo" where
  "approvePairingRequest now agentId requestId =
     bind (gets (getPairingRequest requestId)) (\<lambda>found.
       case found of
         None \<Rightarrow> throw (rbo_validation (''Unknown pairing request '' @ squote @ requestId @ squote))
       | Some request \<Rightarrow>
           if pr_state request \<noteq> Pair_pending
           then throw (rbo_validation (''Pairing request is '' @ pairing_state_name (pr_state request) @ '', not pending''))
           else if pr_expires_at request \<le> now
           then
             bind (update_pairing (\<lambda>r. pr_id r = requestId) (\<lambda>r. r\<lparr>pr_state := Pair_expired, pr_resolved_at := Some now\<rparr>)) (\<lambda>_.
             throw (rbo_validation ''Pairing request has expired''))
           else
             bind (gets (get_agent agentId)) (\<lambda>taken.
               if taken \<noteq> None then throw (SqliteConstraint ''agents.id'')
               else
                 bind (modify (\<lambda>s. s\<lparr>agents := agents s @ [paired_agent now agentId request]\<rparr>)) (\<lambda>_.
                 bind (update_pairing (\<lambda>r. pr_id r = requestId)
                         (\<lambda>r. r\<lparr>pr_state := Pair_approved, pr_agent_id := Some agentId, pr_resolved_at := Some now\<rparr>)) (\<lambda>_.
                 ret agentId))))"

definition rejectPairingRequest :: "ts \<Rightarrow> string \<Rightarrow> ('z plane_state_scheme, unit) rbo" where
  "rejectPairingRequest now requestId =
     bind (gets (getPairingRequest requestId)) (\<lambda>found.
       case found of
         None \<Rightarrow> throw (rbo_validation (''Unknown pairing request '' @ squote @ requestId @ squote))
       | Some request \<Rightarrow>
           update_pairing (\<lambda>r. pr_id r = requestId) (\<lambda>r. r\<lparr>pr_state := Pair_rejected, pr_resolved_at := Some now\<rparr>))"

definition claimApprovedPairing :: "plane_env \<Rightarrow> ts \<Rightarrow> string \<Rightarrow> ('z plane_state_scheme, (string \<times> string) option) rbo" where
  "claimApprovedPairing env now devicePublicKeyPem =
     bind (gets (\<lambda>s. sql_get (\<lambda>r. pr_device_thumbprint r = publicKeyThumbprint env devicePublicKeyPem \<and>
                                    pr_state r = Pair_approved \<and> pr_agent_id r \<noteq> None) (pairing_requests s))) (\<lambda>found.
       case found of
         None \<Rightarrow> ret None
       | Some request \<Rightarrow>
           if falsy_str (pr_agent_id request) then ret None
           else
             bind (issueAgentCredential env now (the (pr_agent_id request))) (\<lambda>credential.
             bind (update_pairing (\<lambda>r. pr_id r = pr_id request) (\<lambda>r. r\<lparr>pr_state := Pair_claimed, pr_resolved_at := Some now\<rparr>)) (\<lambda>_.
             ret (Some (the (pr_agent_id request), credential)))))"

section \<open>Listing and probing\<close>

record agent_summary =
  as_id :: string
  as_name :: string
  as_state :: string
  as_os :: "string option"
  as_arch :: "string option"
  as_priority :: int
  as_running_jobs :: nat
  as_max_jobs :: rat

text \<open>\<open>ORDER BY priority DESC, id\<close>.\<close>

definition agent_before :: "agent_row \<Rightarrow> agent_row \<Rightarrow> bool" where
  "agent_before a b = (ag_priority a > ag_priority b \<or> ag_priority a = ag_priority b \<and> \<not> str_less (ag_id b) (ag_id a))"

fun insert_agent :: "agent_row \<Rightarrow> agent_row list \<Rightarrow> agent_row list" where
  "insert_agent a [] = [a]"
| "insert_agent a (b # bs) = (if agent_before a b then a # b # bs else b # insert_agent a bs)"

definition effective_state :: "(string \<times> agent_conn) list option \<Rightarrow> agent_row \<Rightarrow> string" where
  "effective_state conns row =
     (case conns of
        None \<Rightarrow> ag_state row
      | Some cs \<Rightarrow>
          if map_of cs (ag_id row) = None \<and> ag_state row \<noteq> ''revoked'' then ''offline''
          else if map_of cs (ag_id row) \<noteq> None \<and> ag_state row = ''offline'' then ''idle''
          else ag_state row)"

definition summarize_agent :: "(string \<times> agent_conn) list option \<Rightarrow> 'z controller_db_scheme \<Rightarrow> agent_row \<Rightarrow> agent_summary" where
  "summarize_agent conns s row =
     \<lparr>as_id = ag_id row, as_name = ag_display_name row, as_state = effective_state conns row,
      as_os = map_option (\<lambda>c. os_name (os_family (cap_os c))) (ag_capabilities row),
      as_arch = map_option (\<lambda>c. os_arch (cap_os c)) (ag_capabilities row),
      as_priority = ag_priority row,
      as_running_jobs = length (sql_all (\<lambda>a. at_agent_id a = Some (ag_id row) \<and> at_state a \<noteq> Completed) (job_attempts s)),
      as_max_jobs = ag_max_jobs row\<rparr>"

definition listAgents :: "bool \<Rightarrow> (string \<times> agent_conn) list option \<Rightarrow> 'z controller_db_scheme \<Rightarrow> agent_summary list" where
  "listAgents includeOffline conns s =
     (let rows = foldr insert_agent
                   (sql_all (\<lambda>r. ag_disabled_at r = None \<and>
                                 (includeOffline \<or> conns \<noteq> None \<or> ag_state r \<noteq> ''offline'')) (agents s)) []
      in filter (\<lambda>a. includeOffline \<or> (as_state a \<noteq> ''offline'' \<and> as_state a \<noteq> ''revoked''))
           (map (summarize_agent conns s) rows))"

datatype probe_result = Probe_requested | Probe_error error_category string bool

definition requestAgentProbe :: "string \<Rightarrow> ('z plane_state_scheme, probe_result) rbo" where
  "requestAgentProbe agentId =
     bind (gets (\<lambda>s. map_of (connectedAgents s) agentId)) (\<lambda>connected.
       case connected of
         None \<Rightarrow> ret (Probe_error Agent_lost (''Agent '' @ squote @ agentId @ squote @ '' is not currently connected'') True)
       | Some c \<Rightarrow>
           bind (modify (\<lambda>s. s\<lparr>plane_sent := plane_sent s @ [(cn_socket c, Refresh_capabilities)]\<rparr>)) (\<lambda>_.
           ret Probe_requested))"

end
