(* ===== verification/Agent_Plane.thy ===== *)
theory Agent_Plane
  imports Agent_Registry
begin

text \<open>
  The socket server Agents connect to (\<open>apps/controller/src/websocket/server.ts\<close>): protocol
  negotiation, pairing, challenge and response, heartbeats, the dispatch of job messages and recovery
  reports, and the close of a connection. A message arrives with its fields coerced the way the handler
  coerces them (\<open>String(..)\<close>, \<open>Number(..)\<close>, the schema parsers of \<open>@rbo/protocol\<close>): \<open>None\<close> in place
  of a payload is a payload its schema rejects, \<open>None\<close> for a version is \<open>NaN\<close>. The scan of the queue
  that \<open>maybeDispatchQueued\<close> starts runs later; here it is counted. A handler that awaits runs up to its
  first \<open>await\<close>; the rest of it is a step of remote execution.
\<close>

section \<open>Connections\<close>

definition negotiateProtocolVersion :: "rat option \<Rightarrow> rat option \<Rightarrow> rat option" where
  "negotiateProtocolVersion minV maxV =
     (case (minV, maxV) of
        (Some lo, Some hi) \<Rightarrow> if max 1 lo \<le> min 1 hi then Some (min 1 hi) else None
      | _ \<Rightarrow> None)"

fun index_of_char :: "char \<Rightarrow> string \<Rightarrow> nat option" where
  "index_of_char c [] = None"
| "index_of_char c (d # ds) = (if c = d then Some 0 else map_option Suc (index_of_char c ds))"

definition strip_brackets :: "string \<Rightarrow> string" where
  "strip_brackets s =
     (let t = (if s \<noteq> [] \<and> hd s = CHR ''['' then tl s else s)
      in if t \<noteq> [] \<and> last t = CHR '']'' then butlast t else t)"

definition host_of_header :: "string \<Rightarrow> string option" where
  "host_of_header hostHeader =
     (let trimmed = trim hostHeader;
          plain = (case index_of_char CHR '':'' trimmed of Some i \<Rightarrow> take i trimmed | None \<Rightarrow> trimmed);
          fallback = (if plain = [] then None else Some plain)
      in if trimmed \<noteq> [] \<and> hd trimmed = CHR ''[''
         then (case index_of_char CHR '']'' trimmed of Some i \<Rightarrow> Some (take (i - 1) (tl trimmed)) | None \<Rightarrow> fallback)
         else fallback)"

definition extractConnectionHost :: "string option \<Rightarrow> string option \<Rightarrow> string option" where
  "extractConnectionHost hostHeader localAddress =
     (case (if falsy_str hostHeader then None else Option.bind hostHeader host_of_header) of
        Some h \<Rightarrow> Some h
      | None \<Rightarrow> if falsy_str localAddress then None else map_option (\<lambda>a. strip_brackets (strip_mapped a)) localAddress)"

definition on_connection :: "nat \<Rightarrow> string option \<Rightarrow> string option \<Rightarrow> ('z plane_state_scheme, unit) rbo" where
  "on_connection sock hostHeader localAddress =
     modify (\<lambda>s. s\<lparr>connections := map_set sock
       \<lparr>co_authenticated = None, co_pendingNonce = None, co_pendingCredential = None,
        co_connectionHost = extractConnectionHost hostHeader localAddress\<rparr> (connections s)\<rparr>)"

definition set_connection :: "nat \<Rightarrow> connection \<Rightarrow> ('z plane_state_scheme, unit) rbo" where
  "set_connection sock c = modify (\<lambda>s. s\<lparr>connections := map_set sock c (connections s)\<rparr>)"

definition send_plane :: "nat \<Rightarrow> plane_payload \<Rightarrow> ('z plane_state_scheme, unit) rbo" where
  "send_plane sock payload = modify (\<lambda>s. s\<lparr>plane_sent := plane_sent s @ [(sock, payload)]\<rparr>)"

definition terminate_socket :: "nat \<Rightarrow> ('z remote_state_scheme, unit) rbo" where
  "terminate_socket sock = modify (\<lambda>s. s\<lparr>connectedAgents :=
     map (\<lambda>(a, c). (a, if cn_socket c = sock then c\<lparr>cn_open := False\<rparr> else c)) (connectedAgents s)\<rparr>)"

definition maybeDispatchQueued :: "plane_env \<Rightarrow> ('z plane_state_scheme, unit) rbo" where
  "maybeDispatchQueued env = modify (\<lambda>s.
     if shuttingDown s \<or> \<not> pe_hasDispatchContext env then s else s\<lparr>queue_scans := Suc (queue_scans s)\<rparr>)"

section \<open>Messages\<close>

record fresh_values =
  fv_nonce :: string
  fv_requestId :: string
  fv_code :: string

datatype plane_message =
    Invalid_json
  | Hello "rat option" "rat option" "string option"
  | Pairing_request string string "string option"
  | Challenge_response string
  | Capabilities "agent_capability_report option"
  | Heartbeat string "rat option"
  | Job_scoped "(lease_ref \<times> job_message) option"
  | Recovery_report_msg "recovery_report option"
  | Other_message

definition handle_hello :: "plane_env \<Rightarrow> fresh_values \<Rightarrow> nat \<Rightarrow> connection \<Rightarrow> rat option \<Rightarrow> rat option \<Rightarrow> string option \<Rightarrow>
    ('z plane_state_scheme, unit) rbo" where
  "handle_hello env fv sock c minV maxV credential =
     (if negotiateProtocolVersion minV maxV = None then send_plane sock (Ack_incompatible (pe_fingerprint env))
      else if falsy_str credential then send_plane sock (Ack_unauthenticated (pe_fingerprint env))
      else
        bind (set_connection sock (c\<lparr>co_pendingCredential := credential, co_pendingNonce := Some (fv_nonce fv)\<rparr>)) (\<lambda>_.
        send_plane sock (Challenge (fv_nonce fv))))"

definition handle_pairing_request ::
  "plane_env \<Rightarrow> ts \<Rightarrow> fresh_values \<Rightarrow> nat \<Rightarrow> string \<Rightarrow> string \<Rightarrow> string option \<Rightarrow> ('z plane_state_scheme, unit) rbo" where
  "handle_pairing_request env now fv sock publicKey displayName hostname =
     (if \<not> sublist ''PUBLIC KEY'' publicKey then send_plane sock (Ack_rejected ''invalid device key'')
      else
        bind (claimApprovedPairing env now publicKey) (\<lambda>claim.
          case claim of
            Some (agentId, credential) \<Rightarrow> send_plane sock (Ack_pairing_approved agentId credential)
          | None \<Rightarrow>
              bind (createPairingRequest env now (fv_requestId fv) (fv_code fv)
                      \<lparr>pi_devicePublicKeyPem = publicKey, pi_displayName = displayName, pi_hostname = hostname\<rparr>) (\<lambda>request.
              if pr_state request \<in> {Pair_rejected, Pair_expired}
              then send_plane sock (Ack_rejected (pairing_state_name (pr_state request)))
              else send_plane sock (Ack_pairing_pending (pr_id request) (pr_one_time_code request)))))"

definition handle_challenge_response ::
  "plane_env \<Rightarrow> ts \<Rightarrow> nat \<Rightarrow> connection \<Rightarrow> string \<Rightarrow> ('z plane_state_scheme, unit) rbo" where
  "handle_challenge_response env now sock c signature =
     (if falsy_str (co_pendingNonce c) \<or> falsy_str (co_pendingCredential c)
      then send_plane sock (Ack_rejected ''no pending challenge'')
      else
        bind (gets (verifyAgentCredential env now (the (co_pendingCredential c)))) (\<lambda>verified.
          case (case verified of
                  None \<Rightarrow> None
                | Some v \<Rightarrow> if verifyNonceSignature env (vc_devicePublicKeyPem v) (the (co_pendingNonce c)) signature
                              then Some v else None) of
            None \<Rightarrow>
              bind (send_plane sock (Ack_rejected ''authentication failed'')) (\<lambda>_.
              set_connection sock (c\<lparr>co_pendingNonce := None, co_pendingCredential := None\<rparr>))
          | Some v \<Rightarrow>
              bind (gets (\<lambda>s. map_of (connectedAgents s) (vc_agentId v))) (\<lambda>previous.
              bind (set_connection sock (c\<lparr>co_pendingNonce := None, co_pendingCredential := None,
                                           co_authenticated := Some (vc_agentId v)\<rparr>)) (\<lambda>_.
              bind (modify (\<lambda>s. s\<lparr>connectedAgents := map_set (vc_agentId v)
                      \<lparr>cn_socket = sock, cn_open = True, cn_lastHeartbeatAt = now, cn_connectionHost = co_connectionHost c\<rparr>
                      (connectedAgents s)\<rparr>)) (\<lambda>_.
              bind (case previous of
                      Some p \<Rightarrow> if cn_socket p \<noteq> sock then terminate_socket (cn_socket p) else ret ()
                    | None \<Rightarrow> ret ()) (\<lambda>_.
              bind (markAgentSeen now (vc_agentId v) ''idle'') (\<lambda>_.
              bind (send_plane sock (Ack_authenticated (vc_agentId v))) (\<lambda>_.
              maybeDispatchQueued env))))))))"

definition handle_capabilities :: "plane_env \<Rightarrow> ts \<Rightarrow> string \<Rightarrow> agent_capability_report option \<Rightarrow> ('z plane_state_scheme, unit) rbo" where
  "handle_capabilities env now agentId parsed =
     (case parsed of
        None \<Rightarrow> ret ()
      | Some report \<Rightarrow>
          bind (onAgentConnect now agentId (cap_boot_id report)) (\<lambda>_.
          bind (updateAgentCapabilities now agentId report) (\<lambda>_.
          maybeDispatchQueued env)))"

text \<open>
  \<open>authenticated.lastHeartbeatAt = Date.now()\<close> writes the object this connection registered; it is
  the one in \<open>connectedAgents\<close> unless another connection of the Agent replaced it.
\<close>

definition touch_heartbeat :: "ts \<Rightarrow> nat \<Rightarrow> string \<Rightarrow> ('z remote_state_scheme, unit) rbo" where
  "touch_heartbeat now sock agentId = modify (\<lambda>s.
     case map_of (connectedAgents s) agentId of
       Some c \<Rightarrow> if cn_socket c = sock
                   then s\<lparr>connectedAgents := map_set agentId (c\<lparr>cn_lastHeartbeatAt := now\<rparr>) (connectedAgents s)\<rparr> else s
     | None \<Rightarrow> s)"

definition handle_heartbeat :: "ts \<Rightarrow> nat \<Rightarrow> string \<Rightarrow> string \<Rightarrow> rat option \<Rightarrow> ('z plane_state_scheme, unit) rbo" where
  "handle_heartbeat now sock agentId st cpuLoad =
     bind (touch_heartbeat now sock agentId) (\<lambda>_.
     bind (markAgentSeen now agentId st) (\<lambda>_.
     bind (case cpuLoad of Some l \<Rightarrow> patchAgentCpuLoad now agentId l | None \<Rightarrow> ret ()) (\<lambda>_.
     renewActiveLease now agentId DEFAULT_LEASE_TTL_SECONDS)))"

fun begin_job_message ::
  "plane_env \<Rightarrow> ts \<Rightarrow> io_results \<Rightarrow> string \<Rightarrow> lease_ref \<Rightarrow> job_message \<Rightarrow> ('z plane_state_scheme, unit) rbo" where
  "begin_job_message env now io agentId p (M_lease_reject reason) =
     bind (handle_job_message (pe_remote env) now io agentId p (M_lease_reject reason)) (\<lambda>_. maybeDispatchQueued env)"
| "begin_job_message env now io agentId p (M_source_need reason) =
     bind (handleRemoteSourceNeed_begin (pe_remote env) now agentId p reason) (\<lambda>_. ret ())"
| "begin_job_message env now io agentId p (M_log_chunk stream sequence bytes) =
     enqueueRemoteLogChunk agentId \<lparr>lc_lease = p, lc_stream = stream, lc_sequence = sequence, lc_bytes = bytes\<rparr>"
| "begin_job_message env now io agentId p (M_cleanup_complete x) = ret ()"
| "begin_job_message env now io agentId p m = handle_job_message (pe_remote env) now io agentId p m"

definition when_authenticated :: "connection \<Rightarrow> (string \<Rightarrow> ('s, unit) rbo) \<Rightarrow> ('s, unit) rbo" where
  "when_authenticated c f = (case co_authenticated c of None \<Rightarrow> ret () | Some agentId \<Rightarrow> f agentId)"

fun handle_message ::
  "plane_env \<Rightarrow> ts \<Rightarrow> fresh_values \<Rightarrow> io_results \<Rightarrow> nat \<Rightarrow> connection \<Rightarrow> plane_message \<Rightarrow> ('z plane_state_scheme, unit) rbo" where
  "handle_message env now fv io sock c Invalid_json = terminate_socket sock"
| "handle_message env now fv io sock c (Hello minV maxV credential) = handle_hello env fv sock c minV maxV credential"
| "handle_message env now fv io sock c (Pairing_request key name host) = handle_pairing_request env now fv sock key name host"
| "handle_message env now fv io sock c (Challenge_response signature) = handle_challenge_response env now sock c signature"
| "handle_message env now fv io sock c (Capabilities parsed) =
     when_authenticated c (\<lambda>agentId. handle_capabilities env now agentId parsed)"
| "handle_message env now fv io sock c (Heartbeat st load) =
     when_authenticated c (\<lambda>agentId. handle_heartbeat now sock agentId st load)"
| "handle_message env now fv io sock c (Job_scoped payload) =
     when_authenticated c (\<lambda>agentId.
       case payload of None \<Rightarrow> ret () | Some (p, m) \<Rightarrow> begin_job_message env now io agentId p m)"
| "handle_message env now fv io sock c (Recovery_report_msg payload) =
     when_authenticated c (\<lambda>agentId.
       case payload of None \<Rightarrow> ret () | Some r \<Rightarrow> bind (onRecoveryReport (pe_recovery env) now agentId r) (\<lambda>_. ret ()))"
| "handle_message env now fv io sock c Other_message = ret ()"

text \<open>\<open>try .. catch\<close> around the switch: an error is logged and what was done before it stays.\<close>

definition logged :: "('s, unit) rbo \<Rightarrow> ('s, unit) rbo" where
  "logged m = (\<lambda>s. (Inr (), snd (m s)))"

definition on_message ::
  "plane_env \<Rightarrow> ts \<Rightarrow> fresh_values \<Rightarrow> io_results \<Rightarrow> nat \<Rightarrow> plane_message \<Rightarrow> ('z plane_state_scheme, unit) rbo" where
  "on_message env now fv io sock m = (\<lambda>s.
     if shuttingDown s then (Inr (), s)
     else case map_of (connections s) sock of
            None \<Rightarrow> (Inr (), s)
          | Some c \<Rightarrow> logged (handle_message env now fv io sock c m) s)"

section \<open>Close, sweep, shutdown\<close>

definition on_close :: "plane_env \<Rightarrow> ts \<Rightarrow> nat \<Rightarrow> ('z plane_state_scheme, unit) rbo" where
  "on_close env now sock = (\<lambda>s.
     if shuttingDown s then (Inr (), s)
     else case Option.bind (map_of (connections s) sock) co_authenticated of
            None \<Rightarrow> (Inr (), s)
          | Some agentId \<Rightarrow>
              if map_option cn_socket (map_of (connectedAgents s) agentId) \<noteq> Some sock then (Inr (), s)
              else
                bind (modify (\<lambda>s. s\<lparr>connectedAgents := map_delete agentId (connectedAgents s)\<rparr>)) (\<lambda>_.
                bind (markAgentSeen now agentId ''offline'') (\<lambda>_.
                bind (onAgentDisconnect (pe_recovery env) now agentId) (\<lambda>_.
                maybeDispatchQueued env))) s)"

definition checkHeartbeats :: "plane_env \<Rightarrow> ts \<Rightarrow> ('z remote_state_scheme, unit) rbo" where
  "checkHeartbeats env now =
     bind (gets connectedAgents) (\<lambda>conns.
     for_each conns (\<lambda>(agentId, c).
       if now - cn_lastHeartbeatAt c > pe_heartbeatTimeoutMs env then terminate_socket (cn_socket c) else ret ()))"

definition leaseSweep :: "plane_env \<Rightarrow> ts \<Rightarrow> ('z plane_state_scheme, unit) rbo" where
  "leaseSweep env now = logged
     (bind (checkHeartbeats env now) (\<lambda>_.
      bind (expireStaleLeases now) (\<lambda>_.
      bind (expireStaleConfirmations now CONFIRMATION_TTL_SECONDS) (\<lambda>_.
      maybeDispatchQueued env))))"

definition close_plane :: "ts \<Rightarrow> ('z plane_state_scheme, unit) rbo" where
  "close_plane now =
     bind (modify (\<lambda>s. s\<lparr>shuttingDown := True\<rparr>)) (\<lambda>_.
     bind (gets (\<lambda>s. map fst (connectedAgents s))) (\<lambda>ids.
     bind (for_each ids (\<lambda>agentId. markAgentSeen now agentId ''offline'')) (\<lambda>_.
     bind (modify (\<lambda>s. s\<lparr>connectedAgents := []\<rparr>)) (\<lambda>_.
     dispose))))"

end
