(* ===== verification/Agent_Plane_Safety.thy ===== *)
theory Agent_Plane_Safety
  imports Agent_Plane
begin

text \<open>
  What pairing and the handshake guarantee. \<open>plane_step\<close> interleaves messages on any number of
  connections, closes, sweeps and shutdown with the operator's decisions and every step of remote
  execution and recovery.
\<close>

section \<open>Steps\<close>

inductive plane_step :: "plane_env \<Rightarrow> 'z plane_state_scheme \<Rightarrow> 'z plane_state_scheme \<Rightarrow> bool" for env where
  ps_connection: "map_of (connections s) sock = None \<Longrightarrow> plane_step env s (snd (on_connection sock h l s))"
| ps_message: "plane_step env s (snd (on_message env now fv io sock m s))"
| ps_close: "plane_step env s (snd (on_close env now sock s))"
| ps_sweep: "plane_step env s (snd (leaseSweep env now s))"
| ps_shutdown: "plane_step env s (snd (close_plane now s))"
| ps_approve: "plane_step env s (snd (approvePairingRequest now ag rq s))"
| ps_reject: "plane_step env s (snd (rejectPairingRequest now rq s))"
| ps_revoke: "plane_step env s (snd (revokeAgent now ag s))"
| ps_list: "plane_step env s (snd (listPairingRequests now st s))"
| ps_probe: "plane_step env s (snd (requestAgentProbe ag s))"
| ps_execution: "remote_step (pe_remote env) s t \<Longrightarrow> connectedAgents t = connectedAgents s \<Longrightarrow> plane_step env s t"
| ps_grace: "plane_step env s (snd (graceFires (pe_recovery env) now a s))"
| ps_orphan: "plane_step env s (snd (orphanFires now a s))"
| ps_reconcile: "plane_step env s (snd (reconcileFires now a s))"

section \<open>What execution and recovery leave alone\<close>

definition side_of :: "'z plane_state_scheme \<Rightarrow> _" where
  "side_of s = (agents s, pairing_requests s, connections s, plane_sent s, queue_scans s, shuttingDown s)"

definition side_same :: "bool \<Rightarrow> 'z plane_state_scheme \<Rightarrow> 'z plane_state_scheme \<Rightarrow> bool" where
  "side_same b s t = (side_of t = side_of s \<and> (b \<longrightarrow> connectedAgents t = connectedAgents s))"

lemma side_updates [simp]:
  "side_of (s\<lparr>job_attempts := x1\<rparr>) = side_of s" "side_of (s\<lparr>jobs := x2\<rparr>) = side_of s"
  "side_of (s\<lparr>job_events := x3\<rparr>) = side_of s" "side_of (s\<lparr>ws_sent := x4\<rparr>) = side_of s"
  "side_of (s\<lparr>log_files := x5\<rparr>) = side_of s" "side_of (s\<lparr>live_hub := x6\<rparr>) = side_of s"
  "side_of (s\<lparr>logChunkChains := x7\<rparr>) = side_of s" "side_of (s\<lparr>log_writing := x8\<rparr>) = side_of s"
  "side_of (s\<lparr>artifactExpectations := x9\<rparr>) = side_of s" "side_of (s\<lparr>connectedAgents := y1\<rparr>) = side_of s"
  "side_of (s\<lparr>graceTimers := y2\<rparr>) = side_of s" "side_of (s\<lparr>orphanTimers := y3\<rparr>) = side_of s"
  "side_of (s\<lparr>reconcileTimers := y4\<rparr>) = side_of s"
  by (simp_all add: side_of_def)

lemma side_notifier [simp]: "side_of (with_notifier f s) = side_of s" "connectedAgents (with_notifier f s) = connectedAgents s"
  by (auto simp: side_of_def with_notifier_def split: option.splits prod.splits)

lemma side_ops:
  "side_same b s (snd (transitionAttemptState a st fs s))"
  "side_same b s (snd (updateAttempt a fs s))"
  "side_same b s (snd (bumpLeaseEpoch a s))"
  "side_same b s (snd (insertAttempt row s))"
  "side_same b s (snd (transitionJobState now j st jfs s))"
  "side_same b s (snd (update_jobs j f s))"
  "side_same b s (snd (recordEvent e s))"
  "side_same b s (snd (notifyJobLifecycleChanged j s))"
  "side_same b s (snd (renewActiveLease now ag ttl s))"
  unfolding side_same_def
  by (simp_all add: transitionAttemptState_def updateAttempt_def bumpLeaseEpoch_def insertAttempt_def
      transitionJobState_def bind_apply assertJobLifecycleWriteAllowed_def notifyJobLifecycleChanged_def update_jobs_def
      recordEvent_def renew_attempts Let_def split: option.split)

interpretation side: remote_all "side_same b" "\<lambda>_. True" for b
  by unfold_locales (auto simp: obeys_def side_ops, auto simp: side_same_def)

interpretation side_steps: remote_steps "side_same False" "\<lambda>_. True"
  by unfold_locales (auto simp: side_ops, auto simp: side_same_def)

lemma side_modify: "(\<And>s. side_of (f s) = side_of s) \<Longrightarrow> (\<And>s. connectedAgents (f s) = connectedAgents s) \<Longrightarrow>
    obeys (side_same b) (modify f)"
  by (simp add: obeys_def side_same_def)

lemma side_timers:
  "obeys (side_same b) (setGrace a d)" "obeys (side_same b) (setOrphan a d)" "obeys (side_same b) (setReconcile a d)"
  "obeys (side_same b) (clearAllTimersFor a)" "obeys (side_same b) dispose"
  unfolding setGrace_def setOrphan_def setReconcile_def clearAllTimersFor_def dispose_def
  by (rule side_modify; simp)+

lemma side_rows:
  "obeys (side_same b) (transitionAttemptState a st fs)" "obeys (side_same b) (updateAttempt a fs)"
  "obeys (side_same b) (transitionJobState now j st jfs)"
  by (simp_all add: obeys_def side_ops)

lemmas side_intros = side.obeys_rules side_timers side_rows

lemma side_marks:
  "obeys (side_same b) (markLost now r)" "obeys (side_same b) (markPreStartLost now a j)"
  "obeys (side_same b) (markTerminateStaleFailed now r w)"
  unfolding markLost_def markPreStartLost_def markTerminateStaleFailed_def Let_def by (intro side_intros)+

lemma side_rearm: "obeys (side_same b) (rearmOrphanWatchdog opts now a)"
  unfolding rearmOrphanWatchdog_def Let_def by (intro side_intros side_marks)

lemma side_recovery:
  "obeys (side_same b) (onAgentDisconnect opts now ag)" "obeys (side_same b) (onAgentConnect now ag boot)"
  "obeys (side_same b) (onRecoveryReport opts now ag p)"
  unfolding onAgentDisconnect_def disconnect_one_def onAgentConnect_def lose_if_open_def onRecoveryReport_def
    sendReconcileDecision_def Let_def
  by (intro side_intros side_marks side_rearm side.r_sendToAgent not_ack_simps)+

lemma side_fires:
  "obeys (side_same b) (graceFires opts now a)" "obeys (side_same b) (orphanFires now a)" "obeys (side_same b) (reconcileFires now a)"
  unfolding graceFires_def orphanFires_def reconcileFires_def onGraceElapsed_def onOrphanTimeout_def Let_def
  by (intro side_intros side_marks side_rearm; simp add: side_same_def)+

lemma side_job_message:
  "obeys (side_same b) (handle_job_message env now io ag p m)" "obeys (side_same b) (handleRemoteSourceNeed_begin env now ag p w)"
  "obeys (side_same b) (enqueueRemoteLogChunk ag pl)" "obeys (side_same b) (expireStaleLeases now)"
  "obeys (side_same b) (renewActiveLease now ag ttl)"
  by (rule side.r_message side.r_sourceNeedBegin [OF TrueI] side.r_enqueue side.r_expire [OF TrueI] obeysI side_ops)+

lemma side_confirmations: "obeys (side_same b) (expireStaleConfirmations now ttl)"
  unfolding expireStaleConfirmations_def by (intro side_intros)


section \<open>Credentials only advance\<close>

definition cred_le :: "agent_row \<Rightarrow> agent_row \<Rightarrow> bool" where
  "cred_le r r' = (ag_credential_version r \<le> ag_credential_version r' \<and>
     (ag_revoked_at r \<noteq> None \<longrightarrow> ag_revoked_at r' \<noteq> None) \<and>
     ag_device_public_key r' = ag_device_public_key r \<and> ag_device_thumbprint r' = ag_device_thumbprint r)"

definition creds_advance :: "'z controller_db_scheme \<Rightarrow> 'z controller_db_scheme \<Rightarrow> bool" where
  "creds_advance s t = (\<forall>a r. get_agent a s = Some r \<longrightarrow> (\<exists>r'. get_agent a t = Some r' \<and> cred_le r r'))"

lemma cred_le_refl [simp]: "cred_le r r"
  by (simp add: cred_le_def)

lemma cred_le_trans: "cred_le r q \<Longrightarrow> cred_le q w \<Longrightarrow> cred_le r w"
  by (auto simp: cred_le_def)

interpretation creds: step_relation creds_advance
proof unfold_locales
  show "creds_advance s u" if "creds_advance s t" "creds_advance t u" for s t u :: "'z controller_db_scheme"
    using that unfolding creds_advance_def by (blast intro: cred_le_trans)
qed (simp add: creds_advance_def)

lemma creds_same: "agents t = agents s \<Longrightarrow> creds_advance s t"
  by (simp add: creds_advance_def get_agent_def)

lemma creds_side: "obeys (side_same b) m \<Longrightarrow> obeys creds_advance m"
  by (auto simp: obeys_def side_same_def side_of_def intro: creds_same)

lemma creds_modify: "(\<And>s. agents (f s) = agents s) \<Longrightarrow> obeys creds_advance (modify f)"
  by (simp add: obeys_def creds_same)

lemma get_agent_update:
  assumes "\<And>r. ag_id (f r) = ag_id r"
  shows "get_agent b (snd (update_agent a f s)) = (if b = a then map_option f (get_agent b s) else get_agent b s)"
proof -
  have "sql_get (\<lambda>r. ag_id r = b) (sql_update (\<lambda>r. ag_id r = a) f t)
      = (if b = a then map_option f (sql_get (\<lambda>r. ag_id r = b) t) else sql_get (\<lambda>r. ag_id r = b) t)" for t
    by (induction t) (auto simp: assms)
  then show ?thesis by (simp add: update_agent_def get_agent_def)
qed

definition plain_agent_update :: "(agent_row \<Rightarrow> agent_row) \<Rightarrow> bool" where
  "plain_agent_update f = (\<forall>r. ag_id (f r) = ag_id r \<and> ag_credential_version (f r) = ag_credential_version r \<and>
     ag_device_public_key (f r) = ag_device_public_key r \<and> ag_device_thumbprint (f r) = ag_device_thumbprint r \<and>
     (ag_revoked_at r \<noteq> None \<longrightarrow> ag_revoked_at (f r) \<noteq> None))"

lemma creds_update: "plain_agent_update f \<Longrightarrow> obeys creds_advance (update_agent a f)"
  by (auto simp: obeys_def creds_advance_def get_agent_update plain_agent_update_def cred_le_def)

lemma creds_agent_ops:
  "obeys creds_advance (revokeAgent now a)" "obeys creds_advance (updateAgentCapabilities now a rep)"
  "obeys creds_advance (patchAgentCpuLoad now a ld)" "obeys creds_advance (markAgentSeen now a st)"
  unfolding revokeAgent_def updateAgentCapabilities_def patchAgentCpuLoad_def markAgentSeen_def
  by (intro creds.obeys_rules creds_update; simp add: plain_agent_update_def)+

lemma issue_success:
  assumes "issueAgentCredential env now a s = (Inr cred, t)"
  shows "\<exists>r. get_agent a s = Some r \<and> ag_revoked_at r = None \<and> \<not> falsy_str (ag_device_thumbprint r) \<and>
     t = snd (update_agent a (\<lambda>q. q\<lparr>ag_credential_version := ag_credential_version r + 1\<rparr>) s) \<and>
     cred = signEdDsaJwt (re_jwt (pe_remote env)) (now div 1000) (id_signingPrivateKeyPem (re_identity (pe_remote env)))
       (credential_claims a (id_controllerId (re_identity (pe_remote env))) (the (ag_device_thumbprint r))
         (ag_credential_version r + 1) now)"
  using assms by (auto simp: issueAgentCredential_def Let_def bind_apply update_agent_def split: option.splits if_splits)

lemma issue_failure: "issueAgentCredential env now a s = (Inl e, t) \<Longrightarrow> t = s"
  by (auto simp: issueAgentCredential_def Let_def bind_apply update_agent_def split: option.splits if_splits)

lemma creds_issue: "obeys creds_advance (issueAgentCredential env now a)"
proof (rule obeysI)
  fix s :: "'z controller_db_scheme"
  show "creds_advance s (snd (issueAgentCredential env now a s))"
  proof (cases "issueAgentCredential env now a s")
    case (Pair x t)
    show ?thesis
    proof (cases x)
      case (Inl e)
      with Pair issue_failure [of env now a s e t] show ?thesis by (simp add: creds.R_refl)
    next
      case (Inr c)
      with issue_success [of env now a s c t] Pair obtain r where "get_agent a s = Some r"
          "t = snd (update_agent a (\<lambda>q. q\<lparr>ag_credential_version := ag_credential_version r + 1\<rparr>) s)" by auto
      with Pair show ?thesis by (auto simp: creds_advance_def get_agent_update cred_le_def)
    qed
  qed
qed

lemma creds_plane_parts:
  "obeys creds_advance (set_connection k c)" "obeys creds_advance (send_plane k pl)" "obeys creds_advance (terminate_socket k)"
  "obeys creds_advance (maybeDispatchQueued env)" "obeys creds_advance (touch_heartbeat now k a)"
  "obeys creds_advance (update_pairing P f)" "obeys creds_advance (on_connection k h l)"
  unfolding set_connection_def send_plane_def terminate_socket_def maybeDispatchQueued_def touch_heartbeat_def update_pairing_def
    on_connection_def
  by (rule creds_modify; simp split: option.split)+

lemmas creds_intros = creds.obeys_rules creds_plane_parts creds_agent_ops creds_issue
  creds_side [OF side_job_message(5)] creds_side [OF side_recovery(1)] creds_side [OF side_recovery(2)] creds_side [OF side_recovery(3)]

lemma creds_pairing:
  "obeys creds_advance (createPairingRequest env now i c inp)" "obeys creds_advance (claimApprovedPairing env now key)"
  "obeys creds_advance (rejectPairingRequest now i)" "obeys creds_advance (listPairingRequests now st)"
  unfolding createPairingRequest_def claimApprovedPairing_def rejectPairingRequest_def listPairingRequests_def
    expireStalePairingRequests_def
  by (intro creds_intros; simp add: creds_same)+

lemma creds_approve: "obeys creds_advance (approvePairingRequest now a i)"
proof (rule obeysI)
  fix s :: "'z plane_state_scheme"
  have "get_agent a s = None \<Longrightarrow> creds_advance s (s\<lparr>agents := agents s @ [paired_agent now a q]\<rparr>)" for q
    by (auto simp: creds_advance_def get_agent_def sql_get_append)
  then show "creds_advance s (snd (approvePairingRequest now a i s))"
    by (auto simp: approvePairingRequest_def bind_apply update_pairing_def creds.R_refl creds_same creds_advance_def get_agent_def
        sql_get_append split: option.splits)
qed

lemma creds_begin_job: "obeys creds_advance (begin_job_message env now io a p m)"
  by (cases m) (auto simp del: handle_job_message.simps intro!: creds_intros creds_side [OF side_job_message(1)]
    creds_side [OF side_job_message(2)] creds_side [OF side_job_message(3)])

lemma creds_handle: "obeys creds_advance (handle_message env now fv io k c m)"
proof -
  have "obeys creds_advance (handle_challenge_response env now k c sig)" for sig
    unfolding handle_challenge_response_def by (intro creds_intros; simp add: creds_same)
  moreover have "obeys creds_advance (handle_pairing_request env now fv k key nm h)" for key nm h
    unfolding handle_pairing_request_def by (auto intro!: creds_intros creds_pairing split: prod.split)
  ultimately show ?thesis
    by (cases m) (auto simp: handle_hello_def handle_capabilities_def handle_heartbeat_def when_authenticated_def
        intro!: creds_intros creds_begin_job split: prod.split)
qed

lemma creds_step: "plane_step env s t \<Longrightarrow> creds_advance s t"
proof (induction rule: plane_step.induct)
  case (ps_message s now fv io sock m)
  then show ?case using obeysD [OF creds_handle]
    by (auto simp: on_message_def logged_def creds.R_refl split: option.split)
next
  case (ps_close s now sock)
  have "obeys creds_advance (bind (modify (\<lambda>s :: 'a plane_state_scheme. s\<lparr>connectedAgents := map_delete a (connectedAgents s)\<rparr>)) (\<lambda>_.
                bind (markAgentSeen now a ''offline'') (\<lambda>_.
                bind (onAgentDisconnect (pe_recovery env) now a) (\<lambda>_. maybeDispatchQueued env))))" for a
    by (intro creds_intros; simp add: creds_same)
  from obeysD [OF this] show ?case by (auto simp: on_close_def creds.R_refl split: option.split simp del: bind_modify)
next
  case (ps_sweep s now)
  have "obeys creds_advance (checkHeartbeats env now)"
    unfolding checkHeartbeats_def by (intro creds_intros) (auto intro!: creds_intros)
  then have "obeys creds_advance (bind (checkHeartbeats env now) (\<lambda>_. bind (expireStaleLeases now) (\<lambda>_.
      bind (expireStaleConfirmations now CONFIRMATION_TTL_SECONDS) (\<lambda>_. maybeDispatchQueued env))))"
    by (intro creds_intros creds_side [OF side_job_message(4)] creds_side [OF side_confirmations])
  from obeysD [OF this] show ?case by (simp add: leaseSweep_def logged_def)
next
  case (ps_shutdown s now)
  have "obeys creds_advance (close_plane now)"
    unfolding close_plane_def by (intro creds_intros creds_side [OF side_timers(5)]; simp add: creds_same)
  from obeysD [OF this] show ?case .
next
  case (ps_probe s ag)
  then show ?case by (auto simp: requestAgentProbe_def creds_same split: option.split)
next
  case (ps_execution s t)
  then show ?case using side_steps.s_step [OF ps_execution(1)] by (auto simp: side_same_def side_of_def intro: creds_same)
qed (auto intro: obeysD [OF creds_pairing(3)] obeysD [OF creds_pairing(4)] obeysD [OF creds_approve] obeysD [OF creds_plane_parts(7)]
    obeysD [OF creds_agent_ops(1)] obeysD [OF creds_side [OF side_fires(1)]] obeysD [OF creds_side [OF side_fires(2)]]
    obeysD [OF creds_side [OF side_fires(3)]])

lemma creds_steps: "(plane_step env)\<^sup>*\<^sup>* s t \<Longrightarrow> creds_advance s t"
  by (rule creds.rtranclp_step [OF creds_step])


section \<open>Well-formed registry\<close>

fun delivers :: "string \<Rightarrow> nat \<times> plane_payload \<Rightarrow> bool" where
  "delivers x (k, Ack_pairing_approved a c) = (a = x)"
| "delivers x f = False"

definition deliveries :: "string \<Rightarrow> (nat \<times> plane_payload) list \<Rightarrow> nat" where
  "deliveries x sent = length (filter (delivers x) sent)"

definition agent_ok :: "plane_env \<Rightarrow> (nat \<times> plane_payload) list \<Rightarrow> agent_row \<Rightarrow> bool" where
  "agent_ok env sent r =
     (ag_device_thumbprint r = map_option (publicKeyThumbprint env) (ag_device_public_key r) \<and> ag_device_public_key r \<noteq> None \<and>
      ag_credential_version r = int (deliveries (ag_id r) sent) \<and> deliveries (ag_id r) sent \<le> 1)"

definition request_ok :: "agent_row list \<Rightarrow> (nat \<times> plane_payload) list \<Rightarrow> pairing_request_row \<Rightarrow> bool" where
  "request_ok ags sent p =
     ((pr_state p = Pair_pending \<longrightarrow> pr_agent_id p = None) \<and>
      (pr_state p = Pair_approved \<longrightarrow> (\<exists>x. pr_agent_id p = Some x \<and> deliveries x sent = 0)) \<and>
      (\<forall>x. pr_agent_id p = Some x \<longrightarrow>
         (\<exists>r \<in> set ags. ag_id r = x \<and> ag_device_thumbprint r = Some (pr_device_thumbprint p))))"

definition requests_unique :: "pairing_request_row list \<Rightarrow> bool" where
  "requests_unique prs =
     (distinct (map pr_id prs) \<and>
      (\<forall>p \<in> set prs. \<forall>q \<in> set prs. live_pairing p \<and> live_pairing q \<and> pr_device_thumbprint p = pr_device_thumbprint q \<longrightarrow> p = q) \<and>
      (\<forall>p \<in> set prs. \<forall>q \<in> set prs. pr_agent_id p \<noteq> None \<and> pr_agent_id p = pr_agent_id q \<longrightarrow> p = q))"

definition registry_wf :: "plane_env \<Rightarrow> agent_row list \<Rightarrow> pairing_request_row list \<Rightarrow> (nat \<times> plane_payload) list \<Rightarrow> bool" where
  "registry_wf env ags prs sent =
     (distinct (map ag_id ags) \<and> (\<forall>r \<in> set ags. agent_ok env sent r) \<and> requests_unique prs \<and>
      (\<forall>p \<in> set prs. request_ok ags sent p \<and> pr_device_thumbprint p = publicKeyThumbprint env (pr_device_public_key p)) \<and>
      (\<forall>x. deliveries x sent > 0 \<longrightarrow> (\<exists>p \<in> set prs. pr_agent_id p = Some x \<and> \<not> live_pairing p)))"

lemma uniqueD:
  assumes "requests_unique prs" "p \<in> set prs" "q \<in> set prs"
  shows "pr_id p = pr_id q \<Longrightarrow> p = q"
    and "live_pairing p \<Longrightarrow> live_pairing q \<Longrightarrow> pr_device_thumbprint p = pr_device_thumbprint q \<Longrightarrow> p = q"
    and "pr_agent_id p = Some x \<Longrightarrow> pr_agent_id q = Some x \<Longrightarrow> p = q"
  using assms by (auto simp: requests_unique_def distinct_map inj_on_def)

lemma uniqueI:
  assumes "distinct (map pr_id prs)"
    and "\<And>p q. p \<in> set prs \<Longrightarrow> q \<in> set prs \<Longrightarrow> live_pairing p \<Longrightarrow> live_pairing q \<Longrightarrow>
      pr_device_thumbprint p = pr_device_thumbprint q \<Longrightarrow> p = q"
    and "\<And>p q x. p \<in> set prs \<Longrightarrow> q \<in> set prs \<Longrightarrow> pr_agent_id p = Some x \<Longrightarrow> pr_agent_id q = Some x \<Longrightarrow> p = q"
  shows "requests_unique prs"
  unfolding requests_unique_def
proof (intro conjI ballI impI)
  show "p = q" if "p \<in> set prs" "q \<in> set prs" "pr_agent_id p \<noteq> None \<and> pr_agent_id p = pr_agent_id q" for p q
    using that assms(3) [of p q] by (metis option.exhaust)
qed (use assms in auto)

lemma registry_wfD:
  assumes "registry_wf env ags prs sent"
  shows "distinct (map ag_id ags)" "requests_unique prs"
    and "r \<in> set ags \<Longrightarrow> agent_ok env sent r"
    and "p \<in> set prs \<Longrightarrow> request_ok ags sent p"
    and "p \<in> set prs \<Longrightarrow> pr_device_thumbprint p = publicKeyThumbprint env (pr_device_public_key p)"
    and "deliveries x sent > 0 \<Longrightarrow> \<exists>p \<in> set prs. pr_agent_id p = Some x \<and> \<not> live_pairing p"
  using assms unfolding registry_wf_def by blast+

lemma registry_wfI:
  assumes "distinct (map ag_id ags)" "requests_unique prs"
    and "\<And>r. r \<in> set ags \<Longrightarrow> agent_ok env sent r"
    and "\<And>p. p \<in> set prs \<Longrightarrow> request_ok ags sent p"
    and "\<And>p. p \<in> set prs \<Longrightarrow> pr_device_thumbprint p = publicKeyThumbprint env (pr_device_public_key p)"
    and "\<And>x. deliveries x sent > 0 \<Longrightarrow> \<exists>p \<in> set prs. pr_agent_id p = Some x \<and> \<not> live_pairing p"
  shows "registry_wf env ags prs sent"
  using assms unfolding registry_wf_def by blast

lemma deliveries_snoc: "deliveries x (sent @ [f]) = deliveries x sent + (if delivers x f then 1 else 0)"
  by (simp add: deliveries_def)

lemma wf_send: "(\<And>x. \<not> delivers x f) \<Longrightarrow> registry_wf env ags prs (sent @ [f]) = registry_wf env ags prs sent"
  by (simp add: registry_wf_def agent_ok_def request_ok_def deliveries_snoc)

text \<open>A request refers to its Agent only through the id and the thumbprint.\<close>

lemma request_agents:
  assumes "request_ok ags sent p" and "(\<lambda>r. (ag_id r, ag_device_thumbprint r)) ` set ags \<subseteq> (\<lambda>r. (ag_id r, ag_device_thumbprint r)) ` set ags'"
  shows "request_ok ags' sent p"
proof -
  have "\<exists>r \<in> set ags'. ag_id r = x \<and> ag_device_thumbprint r = t" if "r \<in> set ags" "ag_id r = x" "ag_device_thumbprint r = t" for x t r
  proof -
    have "(x, t) \<in> (\<lambda>r. (ag_id r, ag_device_thumbprint r)) ` set ags'" using assms(2) that by (auto intro: subsetD)
    then show ?thesis by auto
  qed
  with assms(1) show ?thesis unfolding request_ok_def by blast
qed

lemma agent_keys_update:
  assumes "\<And>r. ag_id (f r) = ag_id r" "\<And>r. ag_device_thumbprint (f r) = ag_device_thumbprint r"
  shows "(\<lambda>r. (ag_id r, ag_device_thumbprint r)) ` set (sql_update P f ags) = (\<lambda>r. (ag_id r, ag_device_thumbprint r)) ` set ags"
  unfolding set_sql_update image_image by (intro image_cong) (simp_all add: assms)

lemma wf_agent_update:
  assumes f: "plain_agent_update f" and wf: "registry_wf env ags prs sent"
  shows "registry_wf env (sql_update (\<lambda>r. ag_id r = a) f ags) prs sent"
proof (rule registry_wfI)
  have keep: "\<And>r. ag_id (f r) = ag_id r" "\<And>r. ag_device_thumbprint (f r) = ag_device_thumbprint r"
    using f by (simp_all add: plain_agent_update_def)
  show "distinct (map ag_id (sql_update (\<lambda>r. ag_id r = a) f ags))"
    using registry_wfD(1) [OF wf] by (simp add: map_sql_update [of ag_id f, OF keep(1)])
  have ok: "agent_ok env sent (if b then f r else r) = agent_ok env sent r" for b r
    using f by (simp add: plain_agent_update_def agent_ok_def)
  show "agent_ok env sent r" if "r \<in> set (sql_update (\<lambda>r. ag_id r = a) f ags)" for r
  proof -
    from that obtain q where "q \<in> set ags" "r = (if ag_id q = a then f q else q)" unfolding set_sql_update by (rule imageE)
    then show ?thesis using registry_wfD(3) [OF wf, of q] ok [of "ag_id q = a" q] by (simp only:)
  qed
  show "request_ok (sql_update (\<lambda>r. ag_id r = a) f ags) sent p" if "p \<in> set prs" for p
    by (rule request_agents [OF registry_wfD(4) [OF wf that]]) (simp only: agent_keys_update [OF keep] order_refl)
qed (use registry_wfD [OF wf] in blast)+

text \<open>Requests that leave the live states, with nothing else about them changed.\<close>

definition retires :: "(pairing_request_row \<Rightarrow> pairing_request_row) \<Rightarrow> bool" where
  "retires f = (\<forall>r. \<not> live_pairing (f r) \<and> pr_id (f r) = pr_id r \<and> pr_agent_id (f r) = pr_agent_id r \<and>
     pr_device_thumbprint (f r) = pr_device_thumbprint r \<and> pr_device_public_key (f r) = pr_device_public_key r)"

lemma unique_retire:
  assumes f: "retires f" and u: "requests_unique prs"
  shows "requests_unique (sql_update P f prs)"
proof (rule uniqueI)
  show "distinct (map pr_id (sql_update P f prs))"
    using u map_sql_update [of pr_id f] f by (simp add: retires_def requests_unique_def)
  show "p = q" if "p \<in> set (sql_update P f prs)" "q \<in> set (sql_update P f prs)" "live_pairing p" "live_pairing q"
      "pr_device_thumbprint p = pr_device_thumbprint q" for p q
    using that f uniqueD(2) [OF u] by (auto simp: retires_def set_sql_update split: if_splits)
  show "p = q" if pq: "p \<in> set (sql_update P f prs)" "q \<in> set (sql_update P f prs)" and
      x: "pr_agent_id p = Some x" "pr_agent_id q = Some x" for p q x
  proof -
    from pq obtain p' q' where "p' \<in> set prs" "q' \<in> set prs" "p = (if P p' then f p' else p')" "q = (if P q' then f q' else q')"
      unfolding set_sql_update by blast
    moreover have "pr_agent_id (if P r then f r else r) = pr_agent_id r" for r using f by (simp add: retires_def)
    ultimately show ?thesis using uniqueD(3) [OF u, of p' q' x] x by metis
  qed
qed

lemma request_retire: "retires f \<Longrightarrow> request_ok ags sent p \<Longrightarrow> request_ok ags sent (f p)"
  by (auto simp: retires_def request_ok_def live_pairing_def)

lemma wf_retire:
  assumes f: "retires f" and wf: "registry_wf env ags prs sent"
  shows "registry_wf env ags (sql_update P f prs) sent"
proof (rule registry_wfI)
  show "request_ok ags sent p" if "p \<in> set (sql_update P f prs)" for p
    using that registry_wfD(4) [OF wf] request_retire [OF f] by (auto simp: set_sql_update)
  show "pr_device_thumbprint p = publicKeyThumbprint env (pr_device_public_key p)" if "p \<in> set (sql_update P f prs)" for p
    using that registry_wfD(5) [OF wf] f by (auto simp: set_sql_update retires_def)
  show "\<exists>p \<in> set (sql_update P f prs). pr_agent_id p = Some x \<and> \<not> live_pairing p" if x: "deliveries x sent > 0" for x
  proof -
    from registry_wfD(6) [OF wf x] obtain p where "p \<in> set prs" "pr_agent_id p = Some x" "\<not> live_pairing p" by blast
    with f show ?thesis by (intro bexI [of _ "if P p then f p else p"]) (auto simp: set_sql_update retires_def)
  qed
qed (use registry_wfD [OF wf] unique_retire [OF f] in blast)+

lemma wf_create:
  assumes wf: "registry_wf env ags prs sent" and fresh: "\<forall>p \<in> set prs. pr_id p \<noteq> pr_id q"
    and none: "\<forall>p \<in> set prs. live_pairing p \<longrightarrow> pr_device_thumbprint p \<noteq> pr_device_thumbprint q"
    and q: "pr_agent_id q = None" "pr_state q = Pair_pending" "pr_device_thumbprint q = publicKeyThumbprint env (pr_device_public_key q)"
  shows "registry_wf env ags (prs @ [q]) sent"
proof (rule registry_wfI)
  note u = registry_wfD(2) [OF wf]
  show "requests_unique (prs @ [q])"
  proof (rule uniqueI)
    show "distinct (map pr_id (prs @ [q]))" using u fresh by (auto simp: requests_unique_def)
    show "p = p'" if "p \<in> set (prs @ [q])" "p' \<in> set (prs @ [q])" "live_pairing p" "live_pairing p'"
      "pr_device_thumbprint p = pr_device_thumbprint p'" for p p'
      using that none uniqueD(2) [OF u, of p p'] by auto
    show "p = p'" if "p \<in> set (prs @ [q])" "p' \<in> set (prs @ [q])" "pr_agent_id p = Some x" "pr_agent_id p' = Some x" for p p' x
      using that q uniqueD(3) [OF u, of p p' x] by auto
  qed
  show "request_ok ags sent p" if "p \<in> set (prs @ [q])" for p
    using that registry_wfD(4) [OF wf] q by (auto simp: request_ok_def)
  show "pr_device_thumbprint p = publicKeyThumbprint env (pr_device_public_key p)" if "p \<in> set (prs @ [q])" for p
    using that registry_wfD(5) [OF wf] q by auto
  show "\<exists>p \<in> set (prs @ [q]). pr_agent_id p = Some x \<and> \<not> live_pairing p" if "deliveries x sent > 0" for x
    using registry_wfD(6) [OF wf that] by auto
qed (use registry_wfD [OF wf] in blast)+

text \<open>What an update of the one request \<open>p\<close> makes of the table.\<close>

lemma set_update_request:
  assumes "requests_unique prs" "p \<in> set prs"
  shows "set (sql_update (\<lambda>r. pr_id r = pr_id p) f prs) = insert (f p) (set prs - {p})"
proof -
  have "set (sql_update (\<lambda>r. pr_id r = pr_id p) f prs) = (\<lambda>r. if r = p then f p else r) ` set prs"
    unfolding set_sql_update using uniqueD(1) [OF assms(1) _ assms(2)] by (intro image_cong) auto
  then show ?thesis using assms(2) by auto
qed

lemma wf_approve:
  assumes wf: "registry_wf env ags prs sent" and p: "p \<in> set prs" "pr_state p = Pair_pending"
    and fresh: "\<forall>r \<in> set ags. ag_id r \<noteq> x"
  shows "registry_wf env (ags @ [paired_agent now x p])
    (sql_update (\<lambda>r. pr_id r = pr_id p) (\<lambda>r. r\<lparr>pr_state := Pair_approved, pr_agent_id := Some x, pr_resolved_at := Some now\<rparr>) prs) sent"
    (is "registry_wf env ?ags (sql_update ?P ?f prs) sent")
proof (rule registry_wfI)
  note u = registry_wfD(2) [OF wf]
  note set = set_update_request [OF u p(1), of ?f]
  have none: "pr_agent_id q \<noteq> Some x" if "q \<in> set prs" for q
    using registry_wfD(4) [OF wf that] fresh by (auto simp: request_ok_def)
  then have nodel: "deliveries x sent = 0" using registry_wfD(6) [OF wf, of x] by blast
  have pend: "pr_agent_id p = None" "live_pairing p" using registry_wfD(4) [OF wf p(1)] p(2) by (auto simp: request_ok_def live_pairing_def)
  show "distinct (map ag_id ?ags)" using registry_wfD(1) [OF wf] fresh by (auto simp: paired_agent_def)
  show "requests_unique (sql_update ?P ?f prs)"
  proof (rule uniqueI)
    show "distinct (map pr_id (sql_update ?P ?f prs))" using u map_sql_update [of pr_id ?f] by (simp add: requests_unique_def)
    show "q = q'" if "q \<in> set (sql_update ?P ?f prs)" "q' \<in> set (sql_update ?P ?f prs)" "live_pairing q" "live_pairing q'"
      "pr_device_thumbprint q = pr_device_thumbprint q'" for q q'
      using that uniqueD(2) [OF u p(1) _ pend(2)] uniqueD(2) [OF u _ _, of q q'] unfolding set by force
    show "q = q'" if "q \<in> set (sql_update ?P ?f prs)" "q' \<in> set (sql_update ?P ?f prs)" "pr_agent_id q = Some y" "pr_agent_id q' = Some y" for q q' y
      using that none uniqueD(3) [OF u, of q q' y] unfolding set by auto
  qed
  show "agent_ok env sent r" if "r \<in> set ?ags" for r
    using that registry_wfD(3) [OF wf, of r] registry_wfD(5) [OF wf p(1)] nodel by (auto simp: agent_ok_def paired_agent_def)
  show "request_ok ?ags sent q" if "q \<in> set (sql_update ?P ?f prs)" for q
  proof (cases "q = ?f p")
    case True
    with nodel show ?thesis by (auto simp: request_ok_def paired_agent_def)
  next
    case False
    with that have "q \<in> set prs" unfolding set by blast
    then show ?thesis by (rule request_agents [OF registry_wfD(4) [OF wf]]) auto
  qed
  show "pr_device_thumbprint q = publicKeyThumbprint env (pr_device_public_key q)" if "q \<in> set (sql_update ?P ?f prs)" for q
    using that registry_wfD(5) [OF wf] p(1) unfolding set by auto
  show "\<exists>q \<in> set (sql_update ?P ?f prs). pr_agent_id q = Some y \<and> \<not> live_pairing q" if "deliveries y sent > 0" for y
    using registry_wfD(6) [OF wf that] pend(2) unfolding set by blast
qed

lemma wf_claim:
  assumes wf: "registry_wf env ags prs sent" and p: "p \<in> set prs" "pr_state p = Pair_approved" "pr_agent_id p = Some x"
    and r: "r \<in> set ags" "ag_id r = x"
  shows "registry_wf env (sql_update (\<lambda>q. ag_id q = x) (\<lambda>q. q\<lparr>ag_credential_version := ag_credential_version r + 1\<rparr>) ags)
    (sql_update (\<lambda>q. pr_id q = pr_id p) (\<lambda>q. q\<lparr>pr_state := Pair_claimed, pr_resolved_at := Some now\<rparr>) prs)
    (sent @ [(k, Ack_pairing_approved x c)])"
    (is "registry_wf env (sql_update ?A ?g ags) (sql_update ?P ?f prs) ?sent")
proof (rule registry_wfI)
  have ret: "retires ?f" by (simp add: retires_def live_pairing_def)
  note u = registry_wfD(2) [OF wf]
  note set = set_update_request [OF u p(1), of ?f]
  have nodel: "deliveries x sent = 0" using registry_wfD(4) [OF wf p(1)] p by (auto simp: request_ok_def)
  have del: "deliveries y ?sent = deliveries y sent + (if y = x then 1 else 0)" for y by (simp add: deliveries_snoc)
  have v: "ag_credential_version r = 0" using registry_wfD(3) [OF wf r(1)] r(2) nodel by (simp add: agent_ok_def)
  show "distinct (map ag_id (sql_update ?A ?g ags))" using registry_wfD(1) [OF wf] map_sql_update [of ag_id ?g] by simp
  show "requests_unique (sql_update ?P ?f prs)" by (rule unique_retire [OF ret u])
  show "agent_ok env ?sent q" if "q \<in> set (sql_update ?A ?g ags)" for q
    using that registry_wfD(3) [OF wf] nodel v by (auto simp: set_sql_update agent_ok_def del)
  show "request_ok (sql_update ?A ?g ags) ?sent q" if q: "q \<in> set (sql_update ?P ?f prs)" for q
  proof -
    have "request_ok ags ?sent q"
    proof (cases "q = ?f p")
      case True
      with registry_wfD(4) [OF wf p(1)] show ?thesis by (simp add: request_ok_def)
    next
      case False
      with q have in': "q \<in> set prs" "q \<noteq> p" unfolding set by blast+
      with uniqueD(3) [OF u _ p(1), of q x] p(3) have "pr_agent_id q \<noteq> Some x" by blast
      with registry_wfD(4) [OF wf in'(1)] show ?thesis by (auto simp: request_ok_def del)
    qed
    then show ?thesis by (rule request_agents) (subst agent_keys_update; simp)
  qed
  show "pr_device_thumbprint q = publicKeyThumbprint env (pr_device_public_key q)" if "q \<in> set (sql_update ?P ?f prs)" for q
    using that registry_wfD(5) [OF wf] p(1) unfolding set by auto
  show "\<exists>q \<in> set (sql_update ?P ?f prs). pr_agent_id q = Some y \<and> \<not> live_pairing q" if y: "deliveries y ?sent > 0" for y
  proof (cases "y = x")
    case True
    with p show ?thesis unfolding set by (simp add: live_pairing_def)
  next
    case False
    with registry_wfD(6) [OF wf, of y] y obtain q where "q \<in> set prs" "pr_agent_id q = Some y" "\<not> live_pairing q" by (auto simp: del)
    with False p(3) show ?thesis unfolding set by auto
  qed
qed

section \<open>The registry stays well formed\<close>

definition reg_inv :: "plane_env \<Rightarrow> 'z plane_state_scheme \<Rightarrow> bool" where
  "reg_inv env s = registry_wf env (agents s) (pairing_requests s) (plane_sent s)"

lemma reg_same: "agents t = agents s \<Longrightarrow> pairing_requests t = pairing_requests s \<Longrightarrow> plane_sent t = plane_sent s \<Longrightarrow>
    reg_inv env t = reg_inv env s"
  by (simp add: reg_inv_def)

lemma reg_side: "obeys (side_same b) m \<Longrightarrow> preserves (reg_inv env) m"
  by (auto simp: preserves_def obeys_def side_same_def side_of_def reg_inv_def)

lemma reg_modify: "(\<And>s. agents (f s) = agents s) \<Longrightarrow> (\<And>s. pairing_requests (f s) = pairing_requests s) \<Longrightarrow>
    (\<And>s. plane_sent (f s) = plane_sent s) \<Longrightarrow> preserves (reg_inv env) (modify f)"
  by (auto simp: preserves_def obeys_def reg_inv_def)

lemma reg_parts:
  "preserves (reg_inv env) (set_connection k c)" "preserves (reg_inv env) (terminate_socket k)"
  "preserves (reg_inv env) (maybeDispatchQueued e)" "preserves (reg_inv env) (touch_heartbeat now k a)"
  "preserves (reg_inv env) (on_connection k h l)"
  unfolding set_connection_def terminate_socket_def maybeDispatchQueued_def touch_heartbeat_def on_connection_def
  by (rule reg_modify; simp split: option.split)+

lemma reg_send: "(\<And>x. \<not> delivers x (k, pl)) \<Longrightarrow> preserves (reg_inv env) (send_plane k pl)"
  by (simp add: preserves_def obeys_def reg_inv_def send_plane_def wf_send)

lemma reg_update: "plain_agent_update f \<Longrightarrow> preserves (reg_inv env) (update_agent a f)"
  by (auto simp: preserves_def obeys_def reg_inv_def update_agent_def wf_agent_update)

lemma reg_agent_ops:
  "preserves (reg_inv env) (revokeAgent now a)" "preserves (reg_inv env) (updateAgentCapabilities now a rep)"
  "preserves (reg_inv env) (patchAgentCpuLoad now a ld)" "preserves (reg_inv env) (markAgentSeen now a st)"
  unfolding revokeAgent_def updateAgentCapabilities_def patchAgentCpuLoad_def markAgentSeen_def
  by (intro preserves_rules reg_update; simp add: plain_agent_update_def)+

lemma reg_retire: "retires f \<Longrightarrow> preserves (reg_inv env) (update_pairing P f)"
  by (auto simp: preserves_def obeys_def reg_inv_def update_pairing_def wf_retire)

lemma retires_states [simp]:
  "retires (\<lambda>r. r\<lparr>pr_state := Pair_expired, pr_resolved_at := g r\<rparr>)"
  "retires (\<lambda>r. r\<lparr>pr_state := Pair_rejected, pr_resolved_at := g r\<rparr>)"
  by (simp_all add: retires_def live_pairing_def)

lemma reg_expire: "preserves (reg_inv env) (expireStalePairingRequests now)"
  unfolding expireStalePairingRequests_def by (rule reg_retire) simp

lemma reg_reject: "preserves (reg_inv env) (rejectPairingRequest now i)" "preserves (reg_inv env) (listPairingRequests now st)"
  unfolding rejectPairingRequest_def listPairingRequests_def by (intro preserves_rules reg_retire reg_expire retires_states)+

lemmas reg_intros = preserves_rules reg_parts reg_send reg_agent_ops
  reg_side [OF side_job_message(5)] reg_side [OF side_recovery(1)] reg_side [OF side_recovery(2)] reg_side [OF side_recovery(3)]

lemma reg_approve: "preserves (reg_inv env) (approvePairingRequest now a i)"
proof (rule preservesI)
  fix s :: "'z plane_state_scheme"
  assume inv: "reg_inv env s"
  show "reg_inv env (snd (approvePairingRequest now a i s))"
  proof (cases "getPairingRequest i s")
    case None
    with inv show ?thesis by (simp add: approvePairingRequest_def)
  next
    case (Some p)
    then have p: "p \<in> set (pairing_requests s)" "pr_id p = i" by (auto simp: getPairingRequest_def dest: sql_get_Some)
    show ?thesis
    proof (cases "pr_state p = Pair_pending \<and> \<not> pr_expires_at p \<le> now \<and> get_agent a s = None")
      case True
      then have "\<forall>r \<in> set (agents s). ag_id r \<noteq> a" by (simp add: get_agent_def sql_get_None)
      with True Some p(2) wf_approve [OF inv [unfolded reg_inv_def] p(1), of a now] show ?thesis
        by (simp add: approvePairingRequest_def reg_inv_def update_pairing_def)
    next
      case False
      with Some inv show ?thesis
        using preservesD [OF reg_retire [OF retires_states(1)] inv, of "\<lambda>r. pr_id r = i" "\<lambda>_. Some now"]
        by (auto simp: approvePairingRequest_def update_pairing_def)
    qed
  qed
qed

lemma expire_leaves_fresh:
  "p \<in> set (pairing_requests (snd (expireStalePairingRequests now s))) \<Longrightarrow> live_pairing p \<Longrightarrow> pr_expires_at p > now"
  by (auto simp: expireStalePairingRequests_def update_pairing_def set_sql_update live_pairing_def split: if_splits)

lemma reg_create: "preserves (reg_inv env) (createPairingRequest env now i c inp)"
proof (rule preservesI)
  fix s :: "'z plane_state_scheme"
  assume "reg_inv env s"
  define t where "t = snd (expireStalePairingRequests now s)"
  have inv: "reg_inv env t" unfolding t_def by (rule preservesD [OF reg_expire \<open>reg_inv env s\<close>])
  have step: "expireStalePairingRequests now s = (Inr (), t)" by (simp add: t_def expireStalePairingRequests_def update_pairing_def)
  show "reg_inv env (snd (createPairingRequest env now i c inp s))"
  proof (cases "sql_get (\<lambda>r. pr_device_thumbprint r = publicKeyThumbprint env (pi_devicePublicKeyPem inp) \<and>
                                    live_pairing r \<and> pr_expires_at r > now) (pairing_requests t)")
    case (Some r)
    with inv step show ?thesis by (simp add: createPairingRequest_def bind_apply)
  next
    case None
    then have none: "\<forall>p \<in> set (pairing_requests t). live_pairing p \<longrightarrow> pr_device_thumbprint p \<noteq> pr_device_thumbprint (new_pairing env now i c inp)"
      using expire_leaves_fresh [of _ now s] by (auto simp: sql_get_None t_def new_pairing_def)
    show ?thesis
    proof (cases "getPairingRequest i t")
      case None': None
      then have "\<forall>p \<in> set (pairing_requests t). pr_id p \<noteq> i" by (simp add: getPairingRequest_def sql_get_None)
      then have "registry_wf env (agents t) (pairing_requests t @ [new_pairing env now i c inp]) (plane_sent t)"
        using inv none unfolding reg_inv_def by (intro wf_create) (auto simp: new_pairing_def)
      with None None' step show ?thesis by (simp add: createPairingRequest_def bind_apply reg_inv_def)
    next
      case (Some q)
      with None inv step show ?thesis by (simp add: createPairingRequest_def bind_apply)
    qed
  qed
qed

lemma claim_cases:
  assumes "claimApprovedPairing env now key s = (y, t)"
  obtains "t = s" "\<forall>x. y \<noteq> Inr (Some x)"
  | p x r c where "y = Inr (Some (x, c))" "p \<in> set (pairing_requests s)" "pr_state p = Pair_approved" "pr_agent_id p = Some x"
      "r \<in> set (agents s)" "ag_id r = x"
      "t = s\<lparr>agents := sql_update (\<lambda>q. ag_id q = x) (\<lambda>q. q\<lparr>ag_credential_version := ag_credential_version r + 1\<rparr>) (agents s),
             pairing_requests := sql_update (\<lambda>q. pr_id q = pr_id p) (\<lambda>q. q\<lparr>pr_state := Pair_claimed, pr_resolved_at := Some now\<rparr>) (pairing_requests s)\<rparr>"
proof (cases "sql_get (\<lambda>r. pr_device_thumbprint r = publicKeyThumbprint env key \<and>
                                    pr_state r = Pair_approved \<and> pr_agent_id r \<noteq> None) (pairing_requests s)")
  case None
  with assms show ?thesis by (intro that(1)) (auto simp: claimApprovedPairing_def)
next
  case (Some p)
  then obtain x where p: "p \<in> set (pairing_requests s)" "pr_state p = Pair_approved" "pr_agent_id p = Some x" by (auto dest: sql_get_Some)
  from Some p(3) have run: "claimApprovedPairing env now key s = (if x = [] then (Inr None, s) else
      bind (issueAgentCredential env now x) (\<lambda>credential.
        bind (update_pairing (\<lambda>r. pr_id r = pr_id p) (\<lambda>r. r\<lparr>pr_state := Pair_claimed, pr_resolved_at := Some now\<rparr>)) (\<lambda>_.
        ret (Some (x, credential)))) s)"
    by (simp add: claimApprovedPairing_def falsy_str_def)
  show ?thesis
  proof (cases "issueAgentCredential env now x s")
    case (Pair z u)
    show ?thesis
    proof (cases z)
      case (Inl e)
      with Pair issue_failure [of env now x s e u] assms run show ?thesis
        by (intro that(1)) (auto simp: bind_apply split: if_splits)
    next
      case (Inr c)
      from issue_success [OF Pair [unfolded Inr]] obtain r where r: "get_agent x s = Some r"
          "u = snd (update_agent x (\<lambda>q. q\<lparr>ag_credential_version := ag_credential_version r + 1\<rparr>) s)" by blast
      from r(1) have r': "r \<in> set (agents s)" "ag_id r = x" by (auto simp: get_agent_def dest: sql_get_Some)
      show ?thesis
      proof (cases "x = []")
        case True
        with run assms show ?thesis by (intro that(1)) auto
      next
        case False
        with run assms Pair Inr r(2) show ?thesis
          by (intro that(2) [OF _ p r', of c]) (auto simp: bind_apply update_agent_def update_pairing_def)
      qed
    qed
  qed
qed

lemma reg_pairing: "preserves (reg_inv env) (handle_pairing_request env now fv k key nm h)"
proof (rule preservesI)
  fix s :: "'z plane_state_scheme"
  assume inv: "reg_inv env s"
  have rest: "preserves (reg_inv env) (bind (createPairingRequest env now (fv_requestId fv) (fv_code fv)
                      \<lparr>pi_devicePublicKeyPem = key, pi_displayName = nm, pi_hostname = h\<rparr>) (\<lambda>request.
              if pr_state request \<in> {Pair_rejected, Pair_expired}
              then send_plane k (Ack_rejected (pairing_state_name (pr_state request)))
              else send_plane k (Ack_pairing_pending (pr_id request) (pr_one_time_code request))))"
    by (intro reg_intros reg_create; simp)
  have rej: "preserves (reg_inv env) (send_plane k (Ack_rejected w))" for w by (rule reg_send) simp
  show "reg_inv env (snd (handle_pairing_request env now fv k key nm h s))"
  proof (cases "claimApprovedPairing env now key s" rule: prod.exhaust)
    case (Pair y t)
    from Pair show ?thesis
    proof (cases rule: claim_cases)
      case 1
      with Pair inv preservesD [OF rest inv] preservesD [OF rej inv] show ?thesis
        by (auto simp: handle_pairing_request_def bind_apply [of "claimApprovedPairing env now key"] split: sum.split option.split)
    next
      case (2 p x r c)
      then show ?thesis using Pair inv preservesD [OF rej inv] wf_claim [OF _ 2(2-6), of env "plane_sent s" now k c]
        by (auto simp: handle_pairing_request_def bind_apply reg_inv_def send_plane_def)
    qed
  qed
qed

lemma reg_begin_job: "preserves (reg_inv env) (begin_job_message e now io a p m)"
  by (cases m) (auto simp del: handle_job_message.simps intro!: reg_intros reg_side [OF side_job_message(1)]
    reg_side [OF side_job_message(2)] reg_side [OF side_job_message(3)])

lemma reg_handle: "preserves (reg_inv env) (handle_message env now fv io k c m)"
proof -
  have "preserves (reg_inv env) (handle_challenge_response env now k c sig)" for sig
    unfolding handle_challenge_response_def by (intro reg_intros; simp add: reg_inv_def)
  moreover have "preserves (reg_inv env) (handle_hello env fv k c lo hi cr)" for lo hi cr
    unfolding handle_hello_def by (intro reg_intros; simp)
  moreover have "preserves (reg_inv env) (handle_capabilities env now a pa)" for a pa
    unfolding handle_capabilities_def by (intro reg_intros)
  moreover have "preserves (reg_inv env) (handle_heartbeat now k a st ld)" for a st ld
    unfolding handle_heartbeat_def by (intro reg_intros)
  moreover have "preserves (reg_inv env) (case pl of None \<Rightarrow> ret () | Some (p, w) \<Rightarrow> begin_job_message env now io a p w)" for pl a
    by (cases pl) (auto simp: reg_begin_job intro: preserves_rules(1))
  moreover have "preserves (reg_inv env) (case pl of None \<Rightarrow> ret () | Some r \<Rightarrow> bind (onRecoveryReport (pe_recovery env) now a r) (\<lambda>_. ret ()))"
    for pl a by (intro reg_intros)
  ultimately show ?thesis
    by (cases m; cases "co_authenticated c")
      (simp_all add: when_authenticated_def reg_parts reg_pairing preserves_rules(1))
qed

lemma reg_step: "plane_step env s t \<Longrightarrow> reg_inv env s \<Longrightarrow> reg_inv env t"
proof (induction rule: plane_step.induct)
  case (ps_message s now fv io sock m)
  then show ?case using preservesD [OF reg_handle]
    by (auto simp: on_message_def logged_def split: option.split)
next
  case (ps_close s now sock)
  have "preserves (reg_inv env) (bind (modify (\<lambda>s :: 'a plane_state_scheme. s\<lparr>connectedAgents := map_delete a (connectedAgents s)\<rparr>)) (\<lambda>_.
                bind (markAgentSeen now a ''offline'') (\<lambda>_.
                bind (onAgentDisconnect (pe_recovery env) now a) (\<lambda>_. maybeDispatchQueued env))))" for a
    by (intro reg_intros; simp add: reg_inv_def)
  from preservesD [OF this ps_close] ps_close show ?case by (auto simp: on_close_def split: option.split simp del: bind_modify)
next
  case (ps_sweep s now)
  have "preserves (reg_inv env) (checkHeartbeats env now)"
    unfolding checkHeartbeats_def by (intro reg_intros) (auto intro!: reg_parts preserves_rules(1))
  then have "preserves (reg_inv env) (bind (checkHeartbeats env now) (\<lambda>_. bind (expireStaleLeases now) (\<lambda>_.
      bind (expireStaleConfirmations now CONFIRMATION_TTL_SECONDS) (\<lambda>_. maybeDispatchQueued env))))"
    by (intro reg_intros reg_side [OF side_job_message(4)] reg_side [OF side_confirmations])
  from preservesD [OF this ps_sweep] show ?case by (simp add: leaseSweep_def logged_def)
next
  case (ps_shutdown s now)
  have "preserves (reg_inv env) (close_plane now)"
    unfolding close_plane_def by (intro reg_intros reg_side [OF side_timers(5)]; simp add: reg_inv_def)
  from preservesD [OF this ps_shutdown] show ?case .
next
  case (ps_probe s ag)
  then show ?case by (auto simp: requestAgentProbe_def reg_inv_def wf_send split: option.split)
next
  case (ps_execution s t)
  then show ?case using side_steps.s_step [OF ps_execution(1)] by (auto simp: side_same_def side_of_def reg_inv_def)
qed (auto intro: preservesD [OF reg_reject(1)] preservesD [OF reg_reject(2)] preservesD [OF reg_approve] preservesD [OF reg_parts(5)]
    preservesD [OF reg_agent_ops(1)] preservesD [OF reg_side [OF side_fires(1)]] preservesD [OF reg_side [OF side_fires(2)]]
    preservesD [OF reg_side [OF side_fires(3)]])

section \<open>Connected Agents are paired Agents\<close>

definition known :: "string \<Rightarrow> 'z controller_db_scheme \<Rightarrow> bool" where
  "known a s = (get_agent a s \<noteq> None)"

definition conn_inv :: "'z plane_state_scheme \<Rightarrow> bool" where
  "conn_inv s = ((\<forall>a. map_of (connectedAgents s) a \<noteq> None \<longrightarrow> known a s) \<and>
     (\<forall>k c a. map_of (connections s) k = Some c \<and> co_authenticated c = Some a \<longrightarrow> known a s))"

lemma conn_invD:
  assumes "conn_inv s"
  shows "map_of (connectedAgents s) a \<noteq> None \<Longrightarrow> known a s"
    and "map_of (connections s) k = Some c \<Longrightarrow> co_authenticated c = Some a \<Longrightarrow> known a s"
  using assms unfolding conn_inv_def by simp_all

lemma conn_invI:
  assumes "conn_inv s" "creds_advance s t"
    and "\<And>a. map_of (connectedAgents t) a \<noteq> None \<Longrightarrow> map_of (connectedAgents s) a \<noteq> None \<or> known a s"
    and "\<And>k c a. map_of (connections t) k = Some c \<Longrightarrow> co_authenticated c = Some a \<Longrightarrow>
           known a s \<or> (\<exists>d. map_of (connections s) k = Some d \<and> co_authenticated d = Some a)"
  shows "conn_inv t"
proof -
  have mono: "known a t" if "known a s" for a
  proof -
    from that obtain r where "get_agent a s = Some r" by (auto simp: known_def)
    with assms(2) obtain r' where "get_agent a t = Some r'" unfolding creds_advance_def by blast
    then show ?thesis by (simp add: known_def)
  qed
  have k1: "known a t" if "map_of (connectedAgents t) a \<noteq> None" for a
    using assms(3) [OF that] mono [of a] conn_invD(1) [OF assms(1), of a] by argo
  have k2: "known a t" if "map_of (connections t) k = Some c" "co_authenticated c = Some a" for k c a
    using assms(4) [OF that]
  proof
    assume "\<exists>d. map_of (connections s) k = Some d \<and> co_authenticated d = Some a"
    then obtain d where "map_of (connections s) k = Some d" "co_authenticated d = Some a" by (elim exE conjE)
    then show ?thesis by (intro mono conn_invD(2) [OF assms(1)])
  qed (rule mono)
  show ?thesis
    unfolding conn_inv_def
  proof (intro conjI allI impI)
    fix k c a
    assume "map_of (connections t) k = Some c \<and> co_authenticated c = Some a"
    then show "known a t" by (elim conjE) (rule k2)
  qed (rule k1)
qed

lemma map_of_terminate: "map_of (map (\<lambda>(a, c). (a, if cn_socket c = k then c\<lparr>cn_open := False\<rparr> else c)) m) a
    = map_option (\<lambda>c. if cn_socket c = k then c\<lparr>cn_open := False\<rparr> else c) (map_of m a)"
  by (induction m) (simp_all add: case_prod_beta)

text \<open>An operation that registers nobody.\<close>

definition quiet :: "'z plane_state_scheme \<Rightarrow> 'z plane_state_scheme \<Rightarrow> bool" where
  "quiet s t = ((\<forall>a. map_of (connectedAgents t) a \<noteq> None \<longrightarrow> map_of (connectedAgents s) a \<noteq> None) \<and>
     connections t = connections s)"

interpretation quiet: step_relation quiet
  by unfold_locales (auto simp: quiet_def)

lemma quiet_conn: "quiet s t \<Longrightarrow> creds_advance s t \<Longrightarrow> conn_inv s \<Longrightarrow> conn_inv t"
  by (rule conn_invI) (auto simp: quiet_def)

lemma quiet_side: "obeys (side_same True) m \<Longrightarrow> obeys quiet m"
  by (auto simp: obeys_def side_same_def side_of_def quiet_def)

lemma quiet_parts:
  "obeys quiet (send_plane k pl)" "obeys quiet (terminate_socket k)" "obeys quiet (maybeDispatchQueued e)"
  "obeys quiet (touch_heartbeat now k a)" "obeys quiet (update_agent a f)" "obeys quiet (update_pairing P g)"
  unfolding send_plane_def terminate_socket_def maybeDispatchQueued_def touch_heartbeat_def update_agent_def update_pairing_def
  by (auto simp: obeys_def quiet_def map_of_terminate map_of_map_set split: option.split)

lemma quiet_agent_ops:
  "obeys quiet (revokeAgent now a)" "obeys quiet (updateAgentCapabilities now a rep)" "obeys quiet (patchAgentCpuLoad now a ld)"
  "obeys quiet (markAgentSeen now a st)" "obeys quiet (issueAgentCredential env now a)"
  unfolding revokeAgent_def updateAgentCapabilities_def patchAgentCpuLoad_def markAgentSeen_def issueAgentCredential_def Let_def
  by (intro quiet.obeys_rules quiet_parts)+

lemmas quiet_intros = quiet.obeys_rules quiet_parts quiet_agent_ops
  quiet_side [OF side_job_message(5)] quiet_side [OF side_recovery(1)] quiet_side [OF side_recovery(2)] quiet_side [OF side_recovery(3)]

lemma quiet_pairing:
  "obeys quiet (createPairingRequest env now i c inp)" "obeys quiet (claimApprovedPairing env now key)"
  "obeys quiet (rejectPairingRequest now i)" "obeys quiet (listPairingRequests now st)" "obeys quiet (approvePairingRequest now a i)"
  unfolding createPairingRequest_def claimApprovedPairing_def rejectPairingRequest_def listPairingRequests_def
    expireStalePairingRequests_def approvePairingRequest_def
  by (intro quiet_intros; simp add: quiet_def)+

lemma quiet_begin_job: "obeys quiet (begin_job_message e now io a p m)"
  by (cases m) (auto simp del: handle_job_message.simps intro!: quiet_intros quiet_side [OF side_job_message(1)]
    quiet_side [OF side_job_message(2)] quiet_side [OF side_job_message(3)])

lemma verify_known: "verifyAgentCredential env now cr s = Some v \<Longrightarrow> known (vc_agentId v) s"
proof -
  assume "verifyAgentCredential env now cr s = Some v"
  then obtain r sub where "get_agent sub s = Some r" "vc_agentId v = ag_id r"
    by (auto simp: verifyAgentCredential_def Let_def split: option.splits json.splits if_splits)
  then show ?thesis by (auto simp: known_def get_agent_def dest: sql_get_Some)
qed

text \<open>A handler that at most changes the pending challenge of its own connection, or registers a verified Agent.\<close>

lemma conn_hello:
  assumes "conn_inv s" "map_of (connections s) k = Some c"
  shows "conn_inv (snd (handle_hello env fv k c lo hi cr s))"
  by (rule conn_invI [OF assms(1) creds_same])
    (use assms(2) in \<open>auto simp: handle_hello_def send_plane_def set_connection_def map_of_map_set split: if_splits\<close>)

lemma conn_challenge:
  assumes "conn_inv s" "map_of (connections s) k = Some c"
  shows "conn_inv (snd (handle_challenge_response env now k c sig s))"
proof (rule conn_invI [OF assms(1)])
  show "creds_advance s (snd (handle_challenge_response env now k c sig s))"
    using obeysD [OF creds_handle, of s env now _ _ k c "Challenge_response sig"] by simp
qed (use assms(2) in \<open>auto simp: handle_challenge_response_def bind_apply send_plane_def set_connection_def maybeDispatchQueued_def
      markAgentSeen_def update_agent_def terminate_socket_def map_of_map_set map_of_terminate verify_known
      split: if_splits option.splits\<close>)

lemma conn_quiet_handle:
  assumes "\<And>lo hi cr. m \<noteq> Hello lo hi cr" "\<And>sig. m \<noteq> Challenge_response sig"
  shows "obeys quiet (handle_message env now fv io k c m)"
proof -
  have "obeys quiet (handle_pairing_request env now fv k key nm h)" for key nm h
    unfolding handle_pairing_request_def by (auto intro!: quiet_intros quiet_pairing split: prod.split)
  moreover have "obeys quiet (handle_capabilities env now a pa)" for a pa
    unfolding handle_capabilities_def by (intro quiet_intros)
  moreover have "obeys quiet (handle_heartbeat now k a st ld)" for a st ld
    unfolding handle_heartbeat_def by (intro quiet_intros)
  moreover have "obeys quiet (case pl of None \<Rightarrow> ret () | Some (p, w) \<Rightarrow> begin_job_message env now io a p w)" for pl a
    by (cases pl) (auto simp: quiet_begin_job intro: quiet.obeys_ret)
  moreover have "obeys quiet (case pl of None \<Rightarrow> ret () | Some r \<Rightarrow> bind (onRecoveryReport (pe_recovery env) now a r) (\<lambda>_. ret ()))"
    for pl a by (intro quiet_intros)
  ultimately show ?thesis using assms
    by (cases m; cases "co_authenticated c") (simp_all add: when_authenticated_def quiet_parts quiet.obeys_ret)
qed

lemma conn_step: "plane_step env s t \<Longrightarrow> conn_inv s \<Longrightarrow> conn_inv t"
proof (induction rule: plane_step.induct)
  case (ps_connection s sock h l)
  then show ?case by (intro conn_invI [OF ps_connection(2) creds_same]) (auto simp: on_connection_def map_of_map_set split: if_splits)
next
  case (ps_message s now fv io sock m)
  show ?case
  proof (cases "shuttingDown s \<or> map_of (connections s) sock = None")
    case True
    with ps_message show ?thesis by (auto simp: on_message_def)
  next
    case False
    then obtain c where c: "map_of (connections s) sock = Some c" "\<not> shuttingDown s" by auto
    have "conn_inv (snd (handle_message env now fv io sock c m s))"
    proof (cases "(\<exists>lo hi cr. m = Hello lo hi cr) \<or> (\<exists>sig. m = Challenge_response sig)")
      case True
      with conn_hello [OF ps_message c(1)] conn_challenge [OF ps_message c(1)] show ?thesis by auto
    next
      case False
      then show ?thesis using quiet_conn [OF obeysD [OF conn_quiet_handle] obeysD [OF creds_handle] ps_message] by blast
    qed
    with c show ?thesis by (simp add: on_message_def logged_def)
  qed
next
  case (ps_close s now sock)
  have "obeys quiet (bind (modify (\<lambda>s :: 'a plane_state_scheme. s\<lparr>connectedAgents := map_delete a (connectedAgents s)\<rparr>)) (\<lambda>_.
                bind (markAgentSeen now a ''offline'') (\<lambda>_.
                bind (onAgentDisconnect (pe_recovery env) now a) (\<lambda>_. maybeDispatchQueued env))))" for a
    by (intro quiet_intros; simp add: quiet_def map_of_map_delete)
  from obeysD [OF this] have "quiet s (snd (on_close env now sock s))"
    by (auto simp: on_close_def quiet.R_refl split: option.split simp del: bind_modify)
  from quiet_conn [OF this creds_step [OF plane_step.ps_close] ps_close] show ?case .
next
  case (ps_sweep s now)
  have "obeys quiet (checkHeartbeats env now)"
    unfolding checkHeartbeats_def by (intro quiet_intros) (auto intro!: quiet_parts quiet.obeys_ret)
  then have "obeys quiet (bind (checkHeartbeats env now) (\<lambda>_. bind (expireStaleLeases now) (\<lambda>_.
      bind (expireStaleConfirmations now CONFIRMATION_TTL_SECONDS) (\<lambda>_. maybeDispatchQueued env))))"
    by (intro quiet_intros quiet_side [OF side_job_message(4)] quiet_side [OF side_confirmations])
  from obeysD [OF this, of s] have "quiet s (snd (leaseSweep env now s))" by (simp add: leaseSweep_def logged_def)
  from quiet_conn [OF this creds_step [OF plane_step.ps_sweep] ps_sweep] show ?case .
next
  case (ps_shutdown s now)
  have "obeys quiet (close_plane now)"
    unfolding close_plane_def by (intro quiet_intros quiet_side [OF side_timers(5)]; simp add: quiet_def)
  from quiet_conn [OF obeysD [OF this] creds_step [OF plane_step.ps_shutdown] ps_shutdown] show ?case .
next
  case (ps_probe s ag)
  have "quiet s (snd (requestAgentProbe ag s))" by (auto simp: requestAgentProbe_def quiet_def split: option.split)
  from quiet_conn [OF this creds_step [OF plane_step.ps_probe] ps_probe] show ?case .
next
  case (ps_execution s t)
  then show ?case
    using side_steps.s_step [OF ps_execution(1)] quiet_conn [OF _ creds_step [OF plane_step.ps_execution [OF ps_execution(1,2)]]]
    by (auto simp: side_same_def side_of_def quiet_def)
next
  case (ps_approve s now ag rq)
  from quiet_conn [OF obeysD [OF quiet_pairing(5)] creds_step [OF plane_step.ps_approve] ps_approve] show ?case .
next
  case (ps_reject s now rq)
  from quiet_conn [OF obeysD [OF quiet_pairing(3)] creds_step [OF plane_step.ps_reject] ps_reject] show ?case .
next
  case (ps_revoke s now ag)
  from quiet_conn [OF obeysD [OF quiet_agent_ops(1)] creds_step [OF plane_step.ps_revoke] ps_revoke] show ?case .
next
  case (ps_list s now st)
  from quiet_conn [OF obeysD [OF quiet_pairing(4)] creds_step [OF plane_step.ps_list] ps_list] show ?case .
next
  case (ps_grace s now a)
  from quiet_conn [OF obeysD [OF quiet_side [OF side_fires(1)]] creds_step [OF plane_step.ps_grace] ps_grace] show ?case .
next
  case (ps_orphan s now a)
  from quiet_conn [OF obeysD [OF quiet_side [OF side_fires(2)]] creds_step [OF plane_step.ps_orphan] ps_orphan] show ?case .
next
  case (ps_reconcile s now a)
  from quiet_conn [OF obeysD [OF quiet_side [OF side_fires(3)]] creds_step [OF plane_step.ps_reconcile] ps_reconcile] show ?case .
qed

section \<open>Properties\<close>

definition fresh_plane :: "'z plane_state_scheme \<Rightarrow> bool" where
  "fresh_plane s = (agents s = [] \<and> pairing_requests s = [] \<and> plane_sent s = [] \<and> connections s = [] \<and> connectedAgents s = [])"

lemma plane_steps_inv:
  assumes "(plane_step env)\<^sup>*\<^sup>* s0 s" "fresh_plane s0"
  shows "reg_inv env s \<and> conn_inv s"
  using assms(1)
proof (induction rule: rtranclp_induct)
  case base
  show ?case using assms(2)
    by (simp add: fresh_plane_def reg_inv_def registry_wf_def requests_unique_def deliveries_def conn_inv_def)
next
  case (step t u)
  then show ?case using reg_step conn_step by blast
qed

text \<open>
  (C27) Typing of the Agent registry. In every state reachable from an empty Controller, whatever the
  interleaving of connections, messages, operator decisions, sweeps and job execution: Agent ids and
  request ids are unique; every Agent has a device key whose hash is its stored thumbprint; a device has
  at most one request that is pending or approved; an approved request names an Agent with the device's
  thumbprint, and no two requests name the same Agent; and every connected Agent and every authenticated
  connection belongs to a paired Agent.
\<close>

theorem agent_registry_well_formed:
  assumes "(plane_step env)\<^sup>*\<^sup>* s0 s" and "fresh_plane s0"
  shows "distinct (map ag_id (agents s)) \<and> distinct (map pr_id (pairing_requests s)) \<and>
    (\<forall>r \<in> set (agents s). \<exists>key. ag_device_public_key r = Some key \<and> ag_device_thumbprint r = Some (publicKeyThumbprint env key)) \<and>
    (\<forall>p \<in> set (pairing_requests s). \<forall>q \<in> set (pairing_requests s).
       live_pairing p \<and> live_pairing q \<and> pr_device_thumbprint p = pr_device_thumbprint q \<or>
       pr_agent_id p \<noteq> None \<and> pr_agent_id p = pr_agent_id q \<longrightarrow> p = q) \<and>
    (\<forall>p \<in> set (pairing_requests s). \<forall>a. pr_agent_id p = Some a \<longrightarrow>
       (\<exists>r \<in> set (agents s). ag_id r = a \<and> ag_device_thumbprint r = Some (pr_device_thumbprint p))) \<and>
    (\<forall>a. map_of (connectedAgents s) a \<noteq> None \<longrightarrow> get_agent a s \<noteq> None) \<and>
    (\<forall>k c a. map_of (connections s) k = Some c \<and> co_authenticated c = Some a \<longrightarrow> get_agent a s \<noteq> None)"
proof (intro conjI)
  note inv = plane_steps_inv [OF assms]
  then have wf: "registry_wf env (agents s) (pairing_requests s) (plane_sent s)" and conn: "conn_inv s" by (simp_all add: reg_inv_def)
  note u = registry_wfD(2) [OF wf]
  show "distinct (map ag_id (agents s))" by (rule registry_wfD(1) [OF wf])
  show "distinct (map pr_id (pairing_requests s))" using u by (simp add: requests_unique_def)
  show "\<forall>r \<in> set (agents s). \<exists>key. ag_device_public_key r = Some key \<and> ag_device_thumbprint r = Some (publicKeyThumbprint env key)"
  proof
    fix r
    assume "r \<in> set (agents s)"
    then have "agent_ok env (plane_sent s) r" by (rule registry_wfD(3) [OF wf])
    then show "\<exists>key. ag_device_public_key r = Some key \<and> ag_device_thumbprint r = Some (publicKeyThumbprint env key)"
      by (auto simp: agent_ok_def)
  qed
  show "\<forall>p \<in> set (pairing_requests s). \<forall>q \<in> set (pairing_requests s).
       live_pairing p \<and> live_pairing q \<and> pr_device_thumbprint p = pr_device_thumbprint q \<or>
       pr_agent_id p \<noteq> None \<and> pr_agent_id p = pr_agent_id q \<longrightarrow> p = q"
    using u unfolding requests_unique_def by blast
  show "\<forall>p \<in> set (pairing_requests s). \<forall>a. pr_agent_id p = Some a \<longrightarrow>
       (\<exists>r \<in> set (agents s). ag_id r = a \<and> ag_device_thumbprint r = Some (pr_device_thumbprint p))"
    using registry_wfD(4) [OF wf] unfolding request_ok_def by blast
qed (use plane_steps_inv [OF assms] in \<open>auto simp: conn_inv_def known_def\<close>)

text \<open>
  (C26) A credential is handed out once, and only after an approval. In every state reachable from an
  empty Controller at most one frame with a credential was sent for an Agent; if one was, the Agent's row
  has credential version 1 and an operator-approved request of the same device names that Agent and is no
  longer open, so that it cannot be claimed again; and if none was, the version is 0.
\<close>

theorem credential_delivered_once:
  assumes "(plane_step env)\<^sup>*\<^sup>* s0 s" and "fresh_plane s0"
  shows "deliveries a (plane_sent s) \<le> 1 \<and>
    (deliveries a (plane_sent s) = 1 \<longrightarrow>
      (\<exists>p \<in> set (pairing_requests s). \<exists>r. pr_agent_id p = Some a \<and> \<not> live_pairing p \<and> get_agent a s = Some r \<and>
         ag_device_thumbprint r = Some (pr_device_thumbprint p) \<and> ag_credential_version r = 1)) \<and>
    (\<forall>r. get_agent a s = Some r \<and> deliveries a (plane_sent s) = 0 \<longrightarrow> ag_credential_version r = 0)"
proof -
  have wf: "registry_wf env (agents s) (pairing_requests s) (plane_sent s)"
    using plane_steps_inv [OF assms] by (simp add: reg_inv_def)
  have row: "ag_id r = a \<and> agent_ok env (plane_sent s) r" if "get_agent a s = Some r" for r
    using that registry_wfD(3) [OF wf] by (auto simp: get_agent_def dest: sql_get_Some)
  show ?thesis
  proof (cases "deliveries a (plane_sent s) = 0")
    case True
    with row show ?thesis by (auto simp: agent_ok_def)
  next
    case False
    with registry_wfD(6) [OF wf, of a] obtain p where p: "p \<in> set (pairing_requests s)" "pr_agent_id p = Some a" "\<not> live_pairing p" by auto
    with registry_wfD(4) [OF wf p(1)] obtain r where r: "r \<in> set (agents s)" "ag_id r = a"
        "ag_device_thumbprint r = Some (pr_device_thumbprint p)" by (auto simp: request_ok_def)
    have "get_agent a s = Some r" unfolding get_agent_def
    proof (cases "sql_get (\<lambda>r. ag_id r = a) (agents s)")
      case None
      with r show "sql_get (\<lambda>r. ag_id r = a) (agents s) = Some r" by (auto simp: sql_get_None)
    next
      case (Some q)
      with sql_get_Some [OF Some] r registry_wfD(1) [OF wf] show "sql_get (\<lambda>r. ag_id r = a) (agents s) = Some r"
        by (auto simp: distinct_map inj_on_def)
    qed
    with row [of r] p r False show ?thesis by (auto simp: agent_ok_def)
  qed
qed

lemma verify_issued:
  assumes jwt: "jwt_env_ok (re_jwt (pe_remote env)) (id_signingPrivateKeyPem (re_identity (pe_remote env)))
      (id_signingPublicKeyPem (re_identity (pe_remote env)))"
    and row: "get_agent a s = Some r" "ag_device_public_key r = Some key" "key \<noteq> []"
      "ag_device_thumbprint r = Some (publicKeyThumbprint env key)"
  shows "verifyAgentCredential env now (signEdDsaJwt (re_jwt (pe_remote env)) (t0 div 1000)
      (id_signingPrivateKeyPem (re_identity (pe_remote env)))
      (credential_claims a (id_controllerId (re_identity (pe_remote env))) (publicKeyThumbprint env key) v t0)) s \<noteq> None \<longleftrightarrow>
    now div 1000 < t0 div 1000 + CREDENTIAL_TTL_SECONDS \<and> ag_revoked_at r = None \<and> ag_credential_version r = v"
proof -
  define claims where "claims = obj_spread [(''iat'', JNum (of_int (t0 div 1000)))]
    (credential_claims a (id_controllerId (re_identity (pe_remote env))) (publicKeyThumbprint env key) v t0)"
  have fields: "map_of claims ''exp'' = Some (JNum (of_int (t0 div 1000 + CREDENTIAL_TTL_SECONDS)))"
    "map_of claims ''sub'' = Some (JStr a)" "map_of claims ''aud'' = Some (JStr (id_controllerId (re_identity (pe_remote env))))"
    "map_of claims ''device_thumbprint'' = Some (JStr (publicKeyThumbprint env key))"
    "map_of claims ''credential_version'' = Some (JNum (of_int v))"
    by (simp_all add: claims_def credential_claims_def obj_spread_def)
  note sign = verify_sign_any [OF jwt fields(1) [unfolded claims_def], of "now div 1000", folded claims_def]
  have "publicKeyThumbprint env key \<noteq> []" by (simp add: publicKeyThumbprint_def)
  moreover have "(of_int (t0 div 1000 + CREDENTIAL_TTL_SECONDS) :: rat) \<le> of_int (now div 1000) \<longleftrightarrow>
      t0 div 1000 + CREDENTIAL_TTL_SECONDS \<le> now div 1000" by (rule of_int_le_iff)
  moreover have "(of_int v :: rat) = of_int (ag_credential_version r) \<longleftrightarrow> v = ag_credential_version r" by (rule of_int_eq_iff)
  ultimately show ?thesis using row
    by (auto simp: verifyAgentCredential_def Let_def sign fields falsy_str_def)
qed

text \<open>
  (C25) Credentials and their retirement. A credential issued to an Agent verifies in a later state if and
  only if it has not expired, the Agent has not been revoked and no newer credential was issued to it; and
  once the Agent is revoked or has a newer credential, no sequence of messages, operator decisions or
  other steps makes the old one verify again.
\<close>

theorem retired_credential_never_verifies:
  assumes jwt: "jwt_env_ok (re_jwt (pe_remote env)) (id_signingPrivateKeyPem (re_identity (pe_remote env)))
      (id_signingPublicKeyPem (re_identity (pe_remote env)))"
    and issued: "issueAgentCredential env t0 a s0 = (Inr cred, s1)" and row: "get_agent a s1 = Some r1"
    and key: "ag_device_public_key r1 = Some key" "key \<noteq> []" "ag_device_thumbprint r1 = Some (publicKeyThumbprint env key)"
    and steps: "(plane_step env)\<^sup>*\<^sup>* s1 s2" and row2: "get_agent a s2 = Some r2"
  shows "(verifyAgentCredential env now cred s2 \<noteq> None \<longleftrightarrow>
      now div 1000 < t0 div 1000 + CREDENTIAL_TTL_SECONDS \<and> ag_revoked_at r2 = None \<and>
      ag_credential_version r2 = ag_credential_version r1) \<and>
    (ag_revoked_at r2 \<noteq> None \<or> ag_credential_version r2 \<noteq> ag_credential_version r1 \<longrightarrow>
      (\<forall>s3 later. (plane_step env)\<^sup>*\<^sup>* s2 s3 \<longrightarrow> verifyAgentCredential env later cred s3 = None))"
proof -
  from issue_success [OF issued] obtain r0 where r0: "get_agent a s0 = Some r0"
      "s1 = snd (update_agent a (\<lambda>q. q\<lparr>ag_credential_version := ag_credential_version r0 + 1\<rparr>) s0)"
      "cred = signEdDsaJwt (re_jwt (pe_remote env)) (t0 div 1000) (id_signingPrivateKeyPem (re_identity (pe_remote env)))
       (credential_claims a (id_controllerId (re_identity (pe_remote env))) (the (ag_device_thumbprint r0))
         (ag_credential_version r0 + 1) t0)" by blast
  then have "r1 = r0\<lparr>ag_credential_version := ag_credential_version r0 + 1\<rparr>" using row by (simp add: get_agent_update)
  with r0(3) key have cred: "cred = signEdDsaJwt (re_jwt (pe_remote env)) (t0 div 1000) (id_signingPrivateKeyPem (re_identity (pe_remote env)))
       (credential_claims a (id_controllerId (re_identity (pe_remote env))) (publicKeyThumbprint env key)
         (ag_credential_version r1) t0)" by simp
  have le: "cred_le r1 r2" using creds_steps [OF steps] row row2 unfolding creds_advance_def by fastforce
  have "ag_device_public_key r2 = Some key" "ag_device_thumbprint r2 = Some (publicKeyThumbprint env key)"
    using le key by (simp_all add: cred_le_def)
  note now2 = verify_issued [OF jwt row2 this(1) key(2) this(2), of now t0 "ag_credential_version r1", folded cred]
  have "verifyAgentCredential env later cred s3 = None"
    if retired: "ag_revoked_at r2 \<noteq> None \<or> ag_credential_version r2 \<noteq> ag_credential_version r1" and s3: "(plane_step env)\<^sup>*\<^sup>* s2 s3" for s3 later
  proof -
    from creds_steps [OF s3] row2 obtain r3 where r3: "get_agent a s3 = Some r3" "cred_le r2 r3" unfolding creds_advance_def by blast
    then have k3: "ag_device_public_key r3 = Some key" "ag_device_thumbprint r3 = Some (publicKeyThumbprint env key)"
      using le key by (simp_all add: cred_le_def)
    have "ag_revoked_at r3 \<noteq> None \<or> ag_credential_version r3 \<noteq> ag_credential_version r1"
      using retired le r3(2) by (auto simp: cred_le_def)
    with verify_issued [OF jwt r3(1) k3(1) key(2) k3(2), of later t0 "ag_credential_version r1", folded cred] show ?thesis by blast
  qed
  with now2 show ?thesis by blast
qed

text \<open>
  Revocation does not reach a live session: the messages of a connection that was authenticated before
  are handled as before, and its next heartbeat overwrites the state \<open>'revoked'\<close>.
\<close>

theorem revoked_agent_keeps_session:
  fixes s :: "'z plane_state_scheme" and t0 :: ts
  assumes "map_of (connections s) k = Some c" "co_authenticated c = Some a" "\<not> shuttingDown s" "get_agent a s = Some r"
  defines "t \<equiv> snd (revokeAgent t0 a s)"
  shows "snd (on_message env now fv io k (Job_scoped (Some (p, m))) t) = snd (begin_job_message env now io a p m t)"
    and "\<exists>r'. get_agent a (snd (on_message env now fv io k (Heartbeat st None) t)) = Some r' \<and> ag_state r' = st \<and> ag_revoked_at r' = Some t0"
proof -
  have t: "map_of (connections t) k = Some c" "\<not> shuttingDown t"
    "get_agent a t = Some (r\<lparr>ag_revoked_at := Some t0, ag_state := ''revoked'', ag_disabled_at := Some t0\<rparr>)"
    using assms get_agent_update [of "\<lambda>r. r\<lparr>ag_revoked_at := Some t0, ag_state := ''revoked'', ag_disabled_at := Some t0\<rparr>" a a s]
    by (auto simp: revokeAgent_def bind_apply update_agent_def)
  show "snd (on_message env now fv io k (Job_scoped (Some (p, m))) t) = snd (begin_job_message env now io a p m t)"
    using t assms(2) by (simp add: on_message_def logged_def when_authenticated_def)
  define u where "u = snd (touch_heartbeat now k a t)"
  have u: "touch_heartbeat now k a t = (Inr (), u)" "get_agent a u = get_agent a t"
    by (auto simp: u_def touch_heartbeat_def get_agent_def split: option.split)
  have "get_agent a (snd (on_message env now fv io k (Heartbeat st None) t)) = get_agent a (snd (markAgentSeen now a st u))"
    using t assms(2) u(1)
    by (simp add: on_message_def logged_def when_authenticated_def handle_heartbeat_def bind_apply markAgentSeen_def update_agent_def
        renew_attempts get_agent_def)
  then show "\<exists>r'. get_agent a (snd (on_message env now fv io k (Heartbeat st None) t)) = Some r' \<and> ag_state r' = st \<and> ag_revoked_at r' = Some t0"
    using t(3) u(2) by (simp add: markAgentSeen_def get_agent_update)
qed

section \<open>Witnesses\<close>

definition demo_plane_env :: "jwt_env \<Rightarrow> plane_env" where
  "demo_plane_env j = \<lparr>pe_remote = demo_env\<lparr>re_jwt := j\<rparr>, pe_recovery = default_recovery_opts, pe_fingerprint = ''fp'',
     pe_sha256 = (\<lambda>k. k), pe_hasDispatchContext = True, pe_heartbeatTimeoutMs = 60000\<rparr>"

definition blank_jwt :: jwt_env where
  "blank_jwt = \<lparr>b64_encode = (\<lambda>_. ''x''), b64_decode = (\<lambda>_. None), crypto_sign = (\<lambda>_ _. ''s''), crypto_verify = (\<lambda>_ _ _. False)\<rparr>"

definition demo_plane :: plane_state where
  "demo_plane =
     \<lparr>in_transaction = False, bound_notifier = None, unbound_managed = False, woken = [],
      agents = [], jobs = [], job_attempts = [], job_events = [], snapshots = [],
      connectedAgents = [], ws_sent = [], log_files = [], live_hub = empty_hub, artifactExpectations = [], logChunkChains = [], log_writing = [],
      graceTimers = [], orphanTimers = [], reconcileTimers = [],
      pairing_requests = [], connections = [], plane_sent = [], queue_scans = 0, shuttingDown = False\<rparr>"

definition demo_fresh :: fresh_values where
  "demo_fresh = \<lparr>fv_nonce = ''n'', fv_requestId = ''pair_1'', fv_code = ''000001''\<rparr>"

definition demo_ask :: plane_message where
  "demo_ask = Pairing_request ''-PUBLIC KEY-'' ''box'' None"

definition demo_paired :: plane_state where
  "demo_paired =
     (let env = demo_plane_env blank_jwt;
          s1 = snd (on_connection 7 None None demo_plane);
          s2 = snd (on_message env 10 demo_fresh demo_io 7 demo_ask s1);
          s3 = snd (approvePairingRequest 20 ''agt_1'' ''pair_1'' s2)
      in snd (on_message env 30 demo_fresh demo_io 7 demo_ask s3))"

lemma demo_paired_steps: "(plane_step (demo_plane_env blank_jwt))\<^sup>*\<^sup>* demo_plane demo_paired"
proof -
  let ?env = "demo_plane_env blank_jwt"
  define s1 where "s1 = snd (on_connection 7 None None demo_plane)"
  define s2 where "s2 = snd (on_message ?env 10 demo_fresh demo_io 7 demo_ask s1)"
  define s3 where "s3 = snd (approvePairingRequest 20 ''agt_1'' ''pair_1'' s2)"
  have "plane_step ?env demo_plane s1" unfolding s1_def by (rule ps_connection) (simp add: demo_plane_def)
  moreover have "plane_step ?env s1 s2" unfolding s2_def by (rule ps_message)
  moreover have "plane_step ?env s2 s3" unfolding s3_def by (rule ps_approve)
  moreover have "plane_step ?env s3 demo_paired"
    unfolding demo_paired_def Let_def s1_def [symmetric] s2_def [symmetric] s3_def [symmetric] by (rule ps_message)
  ultimately show ?thesis by (meson converse_rtranclp_into_rtranclp rtranclp.rtrancl_refl)
qed

lemma demo_plane_fresh: "fresh_plane demo_plane"
  by (simp add: fresh_plane_def demo_plane_def)

theorem agent_registry_well_formed_witness:
  "pr_state (hd (pairing_requests demo_paired)) = Pair_claimed \<and> distinct (map ag_id (agents demo_paired))"
proof -
  have "pr_state (hd (pairing_requests demo_paired)) = Pair_claimed" by code_simp
  with agent_registry_well_formed [OF demo_paired_steps demo_plane_fresh] show ?thesis by blast
qed

theorem credential_delivered_once_witness:
  "deliveries ''agt_1'' (plane_sent demo_paired) = 1 \<and>
   (\<exists>r. get_agent ''agt_1'' demo_paired = Some r \<and> ag_credential_version r = 1)"
proof -
  have "deliveries ''agt_1'' (plane_sent demo_paired) = 1" by code_simp
  with credential_delivered_once [OF demo_paired_steps demo_plane_fresh, of "''agt_1''"] show ?thesis by auto
qed

definition demo_device :: agent_row where
  "demo_device = demo_agent\<lparr>ag_id := ''agt_1'', ag_device_public_key := Some ''k'', ag_device_thumbprint := Some ''sha256:k'',
     ag_credential_version := 0, ag_revoked_at := None\<rparr>"

theorem retired_credential_never_verifies_witness:
  "\<exists>cred s1. issueAgentCredential (demo_plane_env unary_env) 0 ''agt_1'' (demo_plane\<lparr>agents := [demo_device]\<rparr>) = (Inr cred, s1) \<and>
     verifyAgentCredential (demo_plane_env unary_env) 5000 cred s1 \<noteq> None \<and>
     verifyAgentCredential (demo_plane_env unary_env) 5000 cred (snd (revokeAgent 1000 ''agt_1'' s1)) = None"
proof -
  let ?env = "demo_plane_env unary_env" and ?s0 = "demo_plane\<lparr>agents := [demo_device]\<rparr>"
  let ?r1 = "demo_device\<lparr>ag_credential_version := 1\<rparr>"
  let ?r2 = "?r1\<lparr>ag_revoked_at := Some 1000, ag_state := ''revoked'', ag_disabled_at := Some 1000\<rparr>"
  have jwt: "jwt_env_ok (re_jwt (pe_remote ?env)) p q" for p q by (simp add: demo_plane_env_def unary_env_ok)
  obtain cred s1 where iss: "issueAgentCredential ?env 0 ''agt_1'' ?s0 = (Inr cred, s1)" and s1: "s1 = demo_plane\<lparr>agents := [?r1]\<rparr>"
    by (auto simp: issueAgentCredential_def get_agent_def demo_device_def Let_def falsy_str_def update_agent_def demo_agent_def)
  have row: "get_agent ''agt_1'' s1 = Some ?r1" by (simp add: s1 get_agent_def demo_device_def)
  have key: "ag_device_public_key ?r1 = Some ''k''" "''k'' \<noteq> []" "ag_device_thumbprint ?r1 = Some (publicKeyThumbprint ?env ''k'')"
    by (simp_all add: demo_device_def publicKeyThumbprint_def demo_plane_env_def, code_simp)
  have row2: "get_agent ''agt_1'' (snd (revokeAgent 1000 ''agt_1'' s1)) = Some ?r2"
    by (simp add: s1 revokeAgent_def bind_apply update_agent_def get_agent_def demo_device_def)
  note fate = retired_credential_never_verifies [OF jwt iss row key]
  from fate [OF rtranclp.rtrancl_refl row, of 5000] have "verifyAgentCredential ?env 5000 cred s1 \<noteq> None"
    by (simp add: CREDENTIAL_TTL_SECONDS_def demo_device_def)
  moreover have "(plane_step ?env)\<^sup>*\<^sup>* s1 (snd (revokeAgent 1000 ''agt_1'' s1))" by (rule r_into_rtranclp) (rule ps_revoke)
  from fate [OF this row2, of 5000] have "verifyAgentCredential ?env 5000 cred (snd (revokeAgent 1000 ''agt_1'' s1)) = None" by simp
  ultimately show ?thesis using iss by blast
qed

text \<open>An approved request is claimable after its expiry until someone lists or creates a request.\<close>

theorem expired_approval_is_claimable:
  "\<exists>a c t. claimApprovedPairing (demo_plane_env blank_jwt) 900011 ''-PUBLIC KEY-''
     (snd (approvePairingRequest 20 ''agt_1'' ''pair_1''
       (snd (on_message (demo_plane_env blank_jwt) 10 demo_fresh demo_io 7 demo_ask (snd (on_connection 7 None None demo_plane))))))
     = (Inr (Some (a, c)), t) \<and> pr_expires_at (hd (pairing_requests t)) < 900011"
proof -
  let ?r = "claimApprovedPairing (demo_plane_env blank_jwt) 900011 ''-PUBLIC KEY-''
     (snd (approvePairingRequest 20 ''agt_1'' ''pair_1''
       (snd (on_message (demo_plane_env blank_jwt) 10 demo_fresh demo_io 7 demo_ask (snd (on_connection 7 None None demo_plane))))))"
  have "(case fst ?r of Inr (Some _) \<Rightarrow> True | _ \<Rightarrow> False) \<and> pr_expires_at (hd (pairing_requests (snd ?r))) < 900011" by code_simp
  then show ?thesis by (cases ?r) (auto split: sum.splits option.splits)
qed

end
