(* ===== verification/Stream_Filters.thy ===== *)
theory Stream_Filters
  imports Rbo_Prelude "HOL-Library.Word"
begin

text \<open>
  Two filters the bytes of a running job pass on their way to the log.
  \<^item> \<open>packages/executor/src/windows-frames.ts\<close>: the reader of the frames that the native Windows helper
    writes (\<open>native/windows-executor/src/execute.rs\<close>). Bytes are \<open>8 word\<close>, the length field is the
    little-endian \<open>32 word\<close> the helper sends.
  \<^item> \<open>apps/agent/src/executor/redactor.ts\<close>: the redactor that removes secret values from a stream that
    arrives in arbitrary chunks.
\<close>

section \<open>Helper frames\<close>

definition FRAME_TAG_STDOUT :: "8 word" where "FRAME_TAG_STDOUT = 1"
definition FRAME_TAG_STDERR :: "8 word" where "FRAME_TAG_STDERR = 2"
definition FRAME_TAG_CONTROL :: "8 word" where "FRAME_TAG_CONTROL = 3"

record parsed_frames =
  pf_stdout :: "8 word list list"
  pf_stderr :: "8 word list list"
  pf_control :: "8 word list option"

definition no_frames :: parsed_frames where
  "no_frames = \<lparr>pf_stdout = [], pf_stderr = [], pf_control = None\<rparr>"

definition to_le_bytes :: "32 word \<Rightarrow> 8 word list" where
  "to_le_bytes w = map (\<lambda>i. ucast (drop_bit (8 * i) w)) [0, 1, 2, 3]"

definition write_frame :: "8 word \<times> 8 word list \<Rightarrow> 8 word list" where
  "write_frame f = fst f # to_le_bytes (word_of_nat (length (snd f))) @ snd f"

fun readUInt32LE :: "8 word list \<Rightarrow> nat" where
  "readUInt32LE (a # b # c # d # r) = unat a + 256 * unat b + 65536 * unat c + 16777216 * unat d"
| "readUInt32LE _ = 0"

text \<open>The body of the loop: file the payload under its tag; an unknown tag is dropped.\<close>

definition file_frame :: "8 word \<Rightarrow> 8 word list \<Rightarrow> parsed_frames \<Rightarrow> parsed_frames" where
  "file_frame tag payload p =
     (if tag = FRAME_TAG_STDOUT then p\<lparr>pf_stdout := pf_stdout p @ [payload]\<rparr>
      else if tag = FRAME_TAG_STDERR then p\<lparr>pf_stderr := pf_stderr p @ [payload]\<rparr>
      else if tag = FRAME_TAG_CONTROL then p\<lparr>pf_control := Some payload\<rparr>
      else p)"

function read_frames :: "8 word list \<Rightarrow> parsed_frames \<Rightarrow> parsed_frames \<times> 8 word list" where
  "read_frames buffer p =
     (if length buffer \<ge> 5 then
        (let n = readUInt32LE (drop 1 buffer) in
         if length buffer < 5 + n then (p, buffer)
         else read_frames (drop (5 + n) buffer) (file_frame (hd buffer) (take n (drop 5 buffer)) p))
      else (p, buffer))"
  by pat_completeness auto
termination
  by (relation "measure (\<lambda>(buffer, p). length buffer)") auto

declare read_frames.simps [simp del]

definition append_frames :: "8 word list \<Rightarrow> 8 word list \<Rightarrow> parsed_frames \<times> 8 word list" where
  "append_frames buffer chunk = read_frames (buffer @ chunk) no_frames"

text \<open>What the client does with the results of consecutive calls: it appends the outputs and keeps the last control frame.\<close>

definition merge_frames :: "parsed_frames \<Rightarrow> parsed_frames \<Rightarrow> parsed_frames" where
  "merge_frames p q = \<lparr>pf_stdout = pf_stdout p @ pf_stdout q, pf_stderr = pf_stderr p @ pf_stderr q,
     pf_control = (case pf_control q of None \<Rightarrow> pf_control p | Some c \<Rightarrow> Some c)\<rparr>"

fun feed_frames :: "8 word list \<Rightarrow> 8 word list list \<Rightarrow> parsed_frames \<times> 8 word list" where
  "feed_frames buffer [] = (no_frames, buffer)"
| "feed_frames buffer (c # cs) =
     (let (p, rest) = append_frames buffer c; (q, rest') = feed_frames rest cs in (merge_frames p q, rest'))"

definition demux :: "(8 word \<times> 8 word list) list \<Rightarrow> parsed_frames" where
  "demux fs = fold (\<lambda>(t, d). file_frame t d) fs no_frames"

subsection \<open>The length field\<close>

lemma unat_byte: "unat (ucast (drop_bit k (w :: 32 word)) :: 8 word) = unat w div 2 ^ k mod 256"
proof -
  have "unat (ucast x :: 8 word) = unat x mod 256" for x :: "32 word" by (simp add: unsigned_ucast_eq take_bit_eq_mod)
  moreover have "unat (drop_bit k w) = unat w div 2 ^ k" unfolding unat_drop_bit_eq by (rule drop_bit_eq_div)
  ultimately show ?thesis by simp
qed

lemma le_digits: "(n :: nat) < 2 ^ 32 \<Longrightarrow>
    n mod 256 + 256 * (n div 2 ^ 8 mod 256) + 65536 * (n div 2 ^ 16 mod 256) + 16777216 * (n div 2 ^ 24 mod 256) = n"
proof -
  assume "n < 2 ^ 32"
  define a where "a = n div 256"
  define b where "b = a div 256"
  define c where "c = b div 256"
  have "n div 2 ^ 8 = a" "n div 2 ^ 16 = b" "n div 2 ^ 24 = c"
    using div_mult2_eq [of n 256 256] div_mult2_eq [of n 65536 256] by (simp_all add: a_def b_def c_def)
  moreover have "c mod 256 = c" using \<open>n < 2 ^ 32\<close> by (simp add: a_def b_def c_def less_mult_imp_div_less)
  moreover have "n = 256 * a + n mod 256" "a = 256 * b + a mod 256" "b = 256 * c + b mod 256"
    by (simp_all add: a_def b_def c_def)
  ultimately show ?thesis by simp
qed

lemma readUInt32LE_le_bytes: "n < 2 ^ 32 \<Longrightarrow> readUInt32LE (to_le_bytes (word_of_nat n) @ r) = n"
  using le_digits [of n] unat_byte [of 0 "word_of_nat n"]
  by (simp add: to_le_bytes_def unat_byte unat_of_nat drop_bit_0)

subsection \<open>Reading in chunks\<close>

lemma file_frame_merge: "file_frame t d (merge_frames p q) = merge_frames p (file_frame t d q)"
  by (simp add: file_frame_def merge_frames_def)

lemma merge_no_frames [simp]: "merge_frames p no_frames = p" "merge_frames no_frames p = p"
  by (simp_all add: merge_frames_def no_frames_def split: option.split)

lemma merge_assoc: "merge_frames (merge_frames p q) r = merge_frames p (merge_frames q r)"
  by (simp add: merge_frames_def split: option.split)

lemma read_frames_acc: "read_frames b (merge_frames p q) = map_prod (merge_frames p) id (read_frames b q)"
proof (induction b q rule: read_frames.induct)
  case (1 b q)
  show ?case
    by (subst (1 2) read_frames.simps) (use 1 in \<open>simp add: Let_def file_frame_merge id_def\<close>)
qed

text \<open>The buffer holds no complete frame.\<close>

definition incomplete :: "8 word list \<Rightarrow> bool" where
  "incomplete b = (length b < 5 \<or> length b < 5 + readUInt32LE (drop 1 b))"

lemma read_frames_stop: "incomplete b \<Longrightarrow> read_frames b p = (p, b)"
  by (subst read_frames.simps) (auto simp: incomplete_def Let_def)

lemma read_frames_step:
  assumes "\<not> incomplete b" and "n = readUInt32LE (drop 1 b)"
  shows "read_frames b p = read_frames (drop (5 + n) b) (file_frame (hd b) (take n (drop 5 b)) p)"
  using assms by (subst read_frames.simps) (simp add: incomplete_def Let_def)

lemma complete_append:
  assumes "\<not> incomplete b"
  shows "\<not> incomplete (b @ c)" "readUInt32LE (drop 1 (b @ c)) = readUInt32LE (drop 1 b)"
proof -
  have "readUInt32LE (xs @ c) = readUInt32LE xs" if "4 \<le> length xs" for xs
    using that by (cases xs rule: readUInt32LE.cases) auto
  moreover have "4 \<le> length (drop 1 b)" "1 \<le> length b" using assms by (auto simp: incomplete_def)
  ultimately show "readUInt32LE (drop 1 (b @ c)) = readUInt32LE (drop 1 b)" by simp
  with assms show "\<not> incomplete (b @ c)" by (simp add: incomplete_def)
qed

lemma read_frames_induct [case_names stop step]:
  assumes stop: "\<And>b p. incomplete b \<Longrightarrow> P b p"
    and step: "\<And>b p. \<not> incomplete b \<Longrightarrow> P (drop (5 + readUInt32LE (drop 1 b)) b)
        (file_frame (hd b) (take (readUInt32LE (drop 1 b)) (drop 5 b)) p) \<Longrightarrow> P b p"
  shows "P b p"
proof (induction "length b" arbitrary: b p rule: less_induct)
  case less
  show ?case
  proof (cases "incomplete b")
    case False
    then have "length (drop (5 + readUInt32LE (drop 1 b)) b) < length b" by (auto simp: incomplete_def)
    from step [OF False less [OF this]] show ?thesis .
  qed (rule stop)
qed

lemma read_frames_prefix: "read_frames (b @ c) p = (let (q, r) = read_frames b p in read_frames (r @ c) q)"
proof (induction b p rule: read_frames_induct)
  case (stop b p)
  then show ?case by (simp add: read_frames_stop)
next
  case (step b p)
  let ?n = "readUInt32LE (drop 1 b)"
  have len: "5 + ?n \<le> length b" using step.hyps by (simp add: incomplete_def)
  then have ne: "b \<noteq> []" by auto
  have "read_frames (b @ c) p = read_frames (drop (5 + ?n) (b @ c)) (file_frame (hd (b @ c)) (take ?n (drop 5 (b @ c))) p)"
    by (rule read_frames_step [OF complete_append(1) [OF step.hyps]]) (simp only: complete_append(2) [OF step.hyps])
  also have "\<dots> = read_frames (drop (5 + ?n) b @ c) (file_frame (hd b) (take ?n (drop 5 b)) p)"
    using len ne by (simp add: hd_append)
  also note step.IH
  also note read_frames_step [OF step.hyps refl, symmetric]
  finally show ?case .
qed

lemma read_frames_rest: "incomplete (snd (read_frames b p))"
  by (induction b p rule: read_frames_induct) (simp_all add: read_frames_stop read_frames_step)

lemma feed_frames_concat: "incomplete b \<Longrightarrow> feed_frames b cs = read_frames (b @ concat cs) no_frames"
proof (induction cs arbitrary: b)
  case Nil
  then show ?case by (simp add: read_frames_stop)
next
  case (Cons c cs)
  obtain p r where pr: "read_frames (b @ c) no_frames = (p, r)" by (cases "read_frames (b @ c) no_frames")
  with read_frames_rest [of "b @ c" no_frames] have "incomplete r" by simp
  from Cons.IH [OF this] pr have "feed_frames b (c # cs) = map_prod (merge_frames p) id (read_frames (r @ concat cs) no_frames)"
    by (simp add: append_frames_def split: prod.split)
  also have "\<dots> = read_frames (r @ concat cs) p" using read_frames_acc [of "r @ concat cs" p no_frames] by simp
  also have "\<dots> = read_frames (b @ concat (c # cs)) no_frames"
    using read_frames_prefix [of "b @ c" "concat cs" no_frames] pr by simp
  finally show ?case .
qed

lemma read_written:
  "length (snd f) < 2 ^ 32 \<Longrightarrow> read_frames (write_frame f @ rest) p = read_frames rest (file_frame (fst f) (snd f) p)"
proof -
  assume small: "length (snd f) < 2 ^ 32"
  let ?b = "write_frame f @ rest"
  have len: "length (to_le_bytes w) = 4" for w by (simp add: to_le_bytes_def)
  have n: "readUInt32LE (drop 1 ?b) = length (snd f)" using readUInt32LE_le_bytes [OF small] by (simp add: write_frame_def)
  then have "\<not> incomplete ?b" by (simp add: incomplete_def write_frame_def len)
  from read_frames_step [OF this n [symmetric], of p]
  have "read_frames ?b p = read_frames (drop (length (write_frame f)) ?b)
      (file_frame (hd ?b) (take (length (snd f)) (drop (length (fst f # to_le_bytes (word_of_nat (length (snd f))))) ?b)) p)"
    by (simp add: write_frame_def len)
  then show ?thesis by (simp add: write_frame_def)
qed

lemma read_all_written:
  "\<forall>f \<in> set fs. length (snd f) < 2 ^ 32 \<Longrightarrow>
   read_frames (concat (map write_frame fs)) p = (fold (\<lambda>(t, d). file_frame t d) fs p, [])"
  by (induction fs arbitrary: p) (simp_all add: read_written read_frames_stop incomplete_def case_prod_beta)

text \<open>
  (C34) However the pipe from the Windows helper cuts the bytes into chunks, the reader recovers exactly
  the frames the helper wrote: feeding it any chunking of the written frames yields every stdout and
  stderr payload in order and the last control payload, and leaves nothing in its buffer.
\<close>

theorem helper_frames_roundtrip:
  assumes "concat chunks = concat (map write_frame fs)" and "\<forall>f \<in> set fs. length (snd f) < 2 ^ 32"
  shows "feed_frames [] chunks = (demux fs, [])"
  using assms feed_frames_concat [of "[]" chunks] read_all_written [of fs no_frames]
  by (simp add: incomplete_def demux_def)

theorem helper_frames_roundtrip_witness:
  "feed_frames [] [[1, 2], [0, 0, 0, 104], [105, 2, 0, 0, 0, 0]] = (\<lparr>pf_stdout = [[104, 105]], pf_stderr = [[]], pf_control = None\<rparr>, [])"
proof -
  have "concat [[1, 2], [0, 0, 0, 104], [105, 2, 0, 0, 0, 0]] = concat (map write_frame [(1, [104, 105]), (2, [])])" by code_simp
  moreover have "\<forall>f \<in> set [(1 :: 8 word, [104, 105 :: 8 word]), (2, [])]. length (snd f) < 2 ^ 32" by simp
  ultimately have "feed_frames [] [[1, 2], [0, 0, 0, 104], [105, 2, 0, 0, 0, 0]] = (demux [(1, [104, 105]), (2, [])], [])"
    by (rule helper_frames_roundtrip)
  also have "demux [(1, [104, 105]), (2, [])] = \<lparr>pf_stdout = [[104, 105]], pf_stderr = [[]], pf_control = None\<rparr>" by code_simp
  finally show ?thesis .
qed

section \<open>Redaction\<close>

text \<open>\<open>text.split(secret)\<close> and \<open>join\<close>: pieces between non-overlapping occurrences from the left.\<close>

function split_str :: "string \<Rightarrow> string \<Rightarrow> string list" where
  "split_str sep [] = [[]]"
| "split_str sep (c # cs) =
     (if sep \<noteq> [] \<and> prefix sep (c # cs) then [] # split_str sep (drop (length sep) (c # cs))
      else (case split_str sep cs of [] \<Rightarrow> [[c]] | w # ws \<Rightarrow> (c # w) # ws))"
  by pat_completeness auto
termination
  by (relation "measure (\<lambda>(sep, s). length s)") auto

declare split_str.simps(2) [simp del]

definition MASK :: string where
  "MASK = ''[REDACTED]''"

record redactor =
  rd_secrets :: "string list"
  rd_tailBuffer :: string
  rd_maxSecretLength :: nat

definition new_redactor :: "string list \<Rightarrow> redactor" where
  "new_redactor secrets =
     (let kept = rev (sort_key length (rev (filter (\<lambda>s. s \<noteq> []) secrets)))
      in \<lparr>rd_secrets = kept, rd_tailBuffer = [], rd_maxSecretLength = fold (\<lambda>s m. max m (length s)) kept 0\<rparr>)"

definition replace_secret :: "string \<Rightarrow> string \<Rightarrow> string" where
  "replace_secret secret text = (if sublist secret text then join_with MASK (split_str secret text) else text)"

definition replace_secrets :: "string list \<Rightarrow> string \<Rightarrow> string" where
  "replace_secrets secrets text = fold replace_secret secrets text"

definition redact :: "string \<Rightarrow> redactor \<Rightarrow> string \<times> redactor" where
  "redact chunk r =
     (if rd_secrets r = [] then (chunk, r)
      else
        (let redacted = replace_secrets (rd_secrets r) (rd_tailBuffer r @ chunk) in
         if rd_maxSecretLength r \<le> 1 then (redacted, r\<lparr>rd_tailBuffer := []\<rparr>)
         else
           (let keepLength = min (rd_maxSecretLength r - 1) (length redacted);
                outputLength = length redacted - keepLength
            in (take outputLength redacted, r\<lparr>rd_tailBuffer := drop outputLength redacted\<rparr>))))"

definition redact_flush :: "redactor \<Rightarrow> string \<times> redactor" where
  "redact_flush r =
     (if rd_secrets r = [] \<or> rd_tailBuffer r = [] then (rd_tailBuffer r, r\<lparr>rd_tailBuffer := []\<rparr>)
      else (replace_secrets (rd_secrets r) (rd_tailBuffer r), r\<lparr>rd_tailBuffer := []\<rparr>))"

text \<open>The whole of a stream: every chunk through \<open>redact\<close>, then \<open>flush\<close>.\<close>

fun redact_stream :: "string list \<Rightarrow> redactor \<Rightarrow> string" where
  "redact_stream [] r = fst (redact_flush r)"
| "redact_stream (c # cs) r = (let (out, r') = redact c r in out @ redact_stream cs r')"

subsection \<open>One secret\<close>

text \<open>The reference: a scan from the left that masks every occurrence.\<close>

function mask_all :: "string \<Rightarrow> string \<Rightarrow> string" where
  "mask_all s [] = []"
| "mask_all s (c # cs) =
     (if s \<noteq> [] \<and> prefix s (c # cs) then MASK @ mask_all s (drop (length s) (c # cs)) else c # mask_all s cs)"
  by pat_completeness auto
termination
  by (relation "measure (\<lambda>(s, xs). length xs)") auto

declare mask_all.simps(2) [simp del]

lemma split_str_not_Nil: "split_str sep t \<noteq> []"
  by (cases t) (auto simp: split_str.simps split: list.split)

lemma join_split_str: "join_with MASK (split_str s t) = mask_all s t"
proof (induction s t rule: split_str.induct)
  case (2 s c cs)
  have cons: "join_with MASK ((c # w) # ws) = c # join_with MASK (w # ws)" for w ws by (cases ws) simp_all
  have skip: "join_with MASK ([] # ws) = MASK @ join_with MASK ws" if "ws \<noteq> []" for ws using that by (cases ws) simp_all
  show ?case
  proof (cases "s \<noteq> [] \<and> prefix s (c # cs)")
    case True
    then show ?thesis using 2(1) skip [OF split_str_not_Nil] by (simp add: split_str.simps mask_all.simps)
  next
    case False
    with 2(2) cons split_str_not_Nil [of s cs] show ?thesis
      by (cases "split_str s cs") (auto simp: split_str.simps mask_all.simps)
  qed
qed simp

lemma mask_all_absent: "\<not> sublist s t \<Longrightarrow> mask_all s t = t"
proof (induction t)
  case (Cons c cs)
  then show ?case by (auto simp: mask_all.simps sublist_Cons_right)
qed simp

lemma replace_secret_mask: "replace_secret s t = mask_all s t"
  by (simp add: replace_secret_def join_split_str mask_all_absent)

lemma mask_all_short: "length t < length s \<Longrightarrow> mask_all s t = t"
  by (rule mask_all_absent) (auto dest: sublist_length_le)

text \<open>A secret that neither starts with a character of the mask nor contains its opening bracket.\<close>

definition maskable :: "string \<Rightarrow> bool" where
  "maskable s = (s \<noteq> [] \<and> hd s \<notin> set MASK \<and> CHR ''['' \<notin> set s)"

lemma mask_all_no_start:
  assumes "\<And>i. i < length u \<Longrightarrow> \<not> prefix s (drop i (u @ z))"
  shows "mask_all s (u @ z) = u @ mask_all s z"
  using assms
proof (induction u)
  case (Cons c u)
  have "\<not> prefix s (c # u @ z)" using Cons.prems [of 0] by simp
  moreover have "mask_all s (u @ z) = u @ mask_all s z"
    by (rule Cons.IH) (use Cons.prems [of "Suc i" for i] in auto)
  ultimately show ?case by (simp add: mask_all.simps)
qed simp

lemma no_start_in_mask:
  assumes "maskable s" "i < length MASK"
  shows "\<not> prefix s (drop i (MASK @ z))"
proof -
  have "drop i (MASK @ z) = MASK ! i # drop (Suc i) MASK @ z" using assms(2) by (simp add: Cons_nth_drop_Suc [symmetric])
  with assms show ?thesis by (cases s) (auto simp: maskable_def)
qed

lemma mask_all_mask: "maskable s \<Longrightarrow> mask_all s (MASK @ z) = MASK @ mask_all s z"
  by (rule mask_all_no_start) (rule no_start_in_mask)

lemma sublist_no_start: "(\<And>i. i < length u \<Longrightarrow> \<not> prefix s (drop i (u @ z))) \<Longrightarrow> sublist s (u @ z) \<Longrightarrow> sublist s z"
proof (induction u)
  case (Cons c u)
  have "\<not> prefix s (c # u @ z)" using Cons.prems(1) [of 0] by simp
  with Cons.prems(2) have "sublist s (u @ z)" by (simp add: sublist_Cons_right)
  moreover have "\<not> prefix s (drop i (u @ z))" if "i < length u" for i using Cons.prems(1) [of "Suc i"] that by simp
  ultimately show ?case using Cons.IH by blast
qed simp

lemma prefix_unmasked:
  assumes "prefix p (mask_all s t @ y)" and "CHR ''['' \<notin> set p"
  shows "prefix p (t @ y)"
  using assms
proof (induction s t arbitrary: p rule: mask_all.induct)
  case (2 s c cs)
  show ?case
  proof (cases "s \<noteq> [] \<and> prefix s (c # cs)")
    case True
    with 2(3,4) show ?thesis by (cases p) (auto simp: mask_all.simps MASK_def)
  next
    case False
    with 2(3,4) 2(2) [OF False, of "tl p"] show ?thesis by (cases p) (auto simp: mask_all.simps)
  qed
qed simp

lemma prefix_masked_Cons:
  assumes m: "maskable s" and p: "prefix s (c # mask_all s cs @ y)"
  shows "prefix s (c # cs @ y)"
proof -
  from m obtain d p' where "s = d # p'" by (cases s) (auto simp: maskable_def)
  with p prefix_unmasked [of p' s cs y] m show ?thesis by (auto simp: maskable_def)
qed

lemma mask_all_free: "maskable s \<Longrightarrow> \<not> sublist s (mask_all s t)"
proof (induction s t rule: mask_all.induct)
  case (1 s)
  then show ?case by (simp add: maskable_def)
next
  case (2 s c cs)
  show ?case
  proof (cases "prefix s (c # cs)")
    case True
    with 2 have "\<not> sublist s (mask_all s (drop (length s) (c # cs)))" by (simp add: maskable_def)
    with sublist_no_start [OF no_start_in_mask [OF 2(3)]] True 2(3) show ?thesis by (auto simp: mask_all.simps maskable_def)
  next
    case False
    with 2 have "\<not> sublist s (mask_all s cs)" by simp
    with False prefix_masked_Cons [OF 2(3), of c cs "[]"] show ?thesis by (auto simp: mask_all.simps sublist_Cons_right)
  qed
qed

lemma mask_all_again:
  assumes m: "maskable s"
  shows "mask_all s (x @ y) = mask_all s (mask_all s x @ y)"
proof (induction "length x" arbitrary: x rule: less_induct)
  case less
  have ne: "s \<noteq> []" using m by (simp add: maskable_def)
  show ?case
  proof (cases x)
    case (Cons c cs)
    consider (hit) r where "x = s @ r" | (straddle) "length x < length s" | (miss) "\<not> prefix s (x @ y)"
    proof (cases "length x < length s \<or> \<not> prefix s (x @ y)")
      case False
      then have "prefix s x" using prefix_length_prefix [of s "x @ y" x] by simp
      then show ?thesis using that(1) by (auto simp: prefix_def)
    qed (use that(2,3) in blast)
    then show ?thesis
    proof cases
      case hit
      then have "length r < length x" using ne by simp
      from less [OF this] have "mask_all s (MASK @ mask_all s r @ y) = MASK @ mask_all s (r @ y)"
        using mask_all_mask [OF m] by simp
      moreover have "mask_all s (s @ z) = MASK @ mask_all s z" for z using ne by (cases s) (simp_all add: mask_all.simps)
      ultimately show ?thesis using hit by simp
    next
      case straddle
      then show ?thesis by (simp add: mask_all_short)
    next
      case miss
      then have "\<not> prefix s x" by auto
      then have x: "mask_all s x = c # mask_all s cs" using Cons by (simp add: mask_all.simps)
      have "\<not> prefix s (c # mask_all s cs @ y)" using miss prefix_masked_Cons [OF m, of c cs y] Cons by auto
      then have "mask_all s (mask_all s x @ y) = c # mask_all s (mask_all s cs @ y)" using x by (simp add: mask_all.simps)
      also have "\<dots> = c # mask_all s (cs @ y)" using less [of cs] Cons by simp
      also have "\<dots> = mask_all s (x @ y)" using miss Cons by (simp add: mask_all.simps)
      finally show ?thesis by simp
    qed
  qed simp
qed

text \<open>All but the last \<open>length s - 1\<close> characters of the masked text are final.\<close>

lemma mask_all_cut:
  assumes m: "maskable s" and n: "n + (length s - 1) \<le> length (mask_all s x)"
  shows "mask_all s (x @ z) = take n (mask_all s x) @ mask_all s (drop n (mask_all s x) @ z)"
proof -
  let ?R = "mask_all s x"
  have "mask_all s (take n ?R @ drop n ?R @ z) = take n ?R @ mask_all s (drop n ?R @ z)"
  proof (rule mask_all_no_start)
    fix i
    assume "i < length (take n ?R)"
    then have i: "i + length s \<le> length ?R" using n m by (cases s) (auto simp: maskable_def)
    show "\<not> prefix s (drop i (take n ?R @ drop n ?R @ z))"
    proof
      assume "prefix s (drop i (take n ?R @ drop n ?R @ z))"
      moreover have "drop i (take n ?R @ drop n ?R @ z) = drop i ?R @ z" using i by (simp flip: append_assoc)
      ultimately have "prefix s (drop i ?R @ z)" by (simp only:)
      then have "prefix s (drop i ?R)" using prefix_length_prefix [of s "drop i ?R @ z" "drop i ?R"] i by simp
      then have "sublist s ?R" by (meson prefix_imp_sublist sublist_drop sublist_order.order_trans)
      with mask_all_free [OF m] show False by blast
    qed
  qed
  moreover have "take n ?R @ drop n ?R @ z = ?R @ z" by (simp flip: append_assoc)
  ultimately show ?thesis using mask_all_again [OF m, of x z] by (simp only:)
qed

lemma redact_one:
  assumes m: "maskable s" and r: "rd_secrets r = [s]" "rd_maxSecretLength r = length s"
  shows "redact c r = (let t = mask_all s (rd_tailBuffer r @ c); n = length t - (length s - 1)
     in (take n t, r\<lparr>rd_tailBuffer := drop n t\<rparr>))"
proof -
  have "length s \<le> 1 \<Longrightarrow> length s - 1 = 0" by simp
  moreover have "n - min k n = n - k" for n k :: nat by simp
  ultimately show ?thesis using r by (simp add: redact_def replace_secrets_def replace_secret_mask Let_def)
qed

lemma redact_stream_one:
  assumes m: "maskable s" and r: "rd_secrets r = [s]" "rd_maxSecretLength r = length s"
  shows "redact_stream cs r = mask_all s (rd_tailBuffer r @ concat cs)"
  using r
proof (induction cs arbitrary: r)
  case Nil
  then show ?case by (simp add: redact_flush_def replace_secrets_def replace_secret_mask)
next
  case (Cons c cs)
  define t where "t = mask_all s (rd_tailBuffer r @ c)"
  define n where "n = length t - (length s - 1)"
  have step: "redact c r = (take n t, r\<lparr>rd_tailBuffer := drop n t\<rparr>)"
    using redact_one [OF m Cons.prems] by (simp add: Let_def t_def n_def)
  have rest: "redact_stream cs (r\<lparr>rd_tailBuffer := drop n t\<rparr>) = mask_all s (drop n t @ concat cs)"
    using Cons.IH [of "r\<lparr>rd_tailBuffer := drop n t\<rparr>"] Cons.prems by simp
  have "mask_all s ((rd_tailBuffer r @ c) @ concat cs) = take n t @ mask_all s (drop n t @ concat cs)"
  proof (cases "length s - 1 \<le> length t")
    case True
    then show ?thesis unfolding t_def by (intro mask_all_cut [OF m]) (simp add: n_def t_def)
  next
    case False
    then have "n = 0" by (simp add: n_def)
    then show ?thesis using mask_all_again [OF m, of "rd_tailBuffer r @ c" "concat cs"] by (simp add: t_def)
  qed
  with step rest show ?case by simp
qed



text \<open>
  With two secrets, one a prefix of the other, a chunk boundary after the shorter one makes the redactor
  mask the prefix and emit the rest of the longer secret.
\<close>

theorem split_long_secret_leaks:
  "redact_stream [''passw'', ''ord123''] (new_redactor [''passw'', ''password123'']) = ''[REDACTED]ord123''"
  "redact_stream [''password123''] (new_redactor [''passw'', ''password123'']) = ''[REDACTED]''"
  by code_simp+

end
