(* ===== verification/Path_Policy.thy ===== *)
theory Path_Policy
  imports Js_Values
begin

text \<open>
  Lexical policies on paths and repository URLs that Controller and Agent share:
  \<open>packages/shared/src/paths.ts\<close>, \<open>packages/shared/src/git-allowlist.ts\<close> and
  \<open>packages/snapshot/src/secret-policy.ts\<close>. \<open>node:path\<close> is its POSIX variant; letter case is that of
  ASCII letters; SHA-256 and \<open>fs.realpath\<close> are parameters. Regular expressions are written out as
  scans; in each of them the first repeated class excludes the character that follows it, so that
  matching needs no backtracking.
\<close>

section \<open>Relative paths\<close>

definition backslashes :: "string \<Rightarrow> string" where
  "backslashes s = replace_char (CHR 0x5C) (CHR ''/'') s"

definition normalizePath :: "string \<Rightarrow> string" where
  "normalizePath s =
     (let n = backslashes s in if length n > 1 \<and> last n = CHR ''/'' then butlast n else n)"

definition WINDOWS_RESERVED_NAMES :: "string list" where
  "WINDOWS_RESERVED_NAMES =
     [''CON'', ''PRN'', ''AUX'', ''NUL'', ''COM1'', ''COM2'', ''COM3'', ''COM4'', ''COM5'', ''COM6'', ''COM7'', ''COM8'',
      ''COM9'', ''LPT1'', ''LPT2'', ''LPT3'', ''LPT4'', ''LPT5'', ''LPT6'', ''LPT7'', ''LPT8'', ''LPT9'']"

definition reserved_segment :: "string \<Rightarrow> bool" where
  "reserved_segment segment =
     (segment \<noteq> [] \<and> toUpperCase (takeWhile (\<lambda>c. c \<noteq> CHR ''.'') segment) \<in> set WINDOWS_RESERVED_NAMES)"

definition containsWindowsReservedName :: "string \<Rightarrow> bool" where
  "containsWindowsReservedName s = list_ex reserved_segment (split_on (CHR ''/'') (backslashes s))"

fun drive_letter :: "string \<Rightarrow> bool" where
  "drive_letter (c # d # r) = (is_alpha c \<and> d = CHR '':'')"
| "drive_letter _ = False"

definition isSafeRelativePath :: "bool \<Rightarrow> string \<Rightarrow> bool" where
  "isSafeRelativePath allowDot v =
     (let n = backslashes v in
      if n = [] \<or> n = ''.'' then allowDot
      else if starts_with n ''/'' \<or> drive_letter n \<or> sublist ''://'' n then False
      else if list_ex (\<lambda>p. p = [] \<or> p = ''.'' \<or> p = ''..'') (split_on (CHR ''/'') n) then False
      else \<not> containsWindowsReservedName n)"

section \<open>Containment\<close>

text \<open>
  \<open>path.resolve\<close>, \<open>path.relative\<close> and \<open>path.isAbsolute\<close> of POSIX. An absolute path is the list of its
  segments; \<open>normalize_segs\<close> drops empty and \<open>.\<close> segments and lets \<open>..\<close> remove the one before it.
\<close>

fun normalize_segs :: "string list \<Rightarrow> string list \<Rightarrow> string list" where
  "normalize_segs acc [] = rev acc"
| "normalize_segs acc (p # ps) =
     (if p = [] \<or> p = ''.'' then normalize_segs acc ps
      else if p = ''..'' then normalize_segs (tl acc) ps
      else normalize_segs (p # acc) ps)"

definition isAbsolute :: "string \<Rightarrow> bool" where
  "isAbsolute s = starts_with s ''/''"

definition resolve_path :: "string list \<Rightarrow> string \<Rightarrow> string list" where
  "resolve_path base s =
     (if isAbsolute s then normalize_segs [] (split_on (CHR ''/'') s)
      else normalize_segs (rev base) (split_on (CHR ''/'') s))"

fun strip_common :: "string list \<Rightarrow> string list \<Rightarrow> string list \<times> string list" where
  "strip_common (p # ps) (q # qs) = (if p = q then strip_common ps qs else (p # ps, q # qs))"
| "strip_common ps qs = (ps, qs)"

definition relative_path :: "string list \<Rightarrow> string list \<Rightarrow> string" where
  "relative_path from to =
     (let (up, down) = strip_common from to in join_with ''/'' (map (\<lambda>_. ''..'') up @ down))"

definition isPathContained :: "string list \<Rightarrow> string list \<Rightarrow> bool" where
  "isPathContained parent child =
     (let rel = relative_path parent child in \<not> starts_with rel ''..'' \<and> \<not> isAbsolute rel)"

text \<open>
  \<open>resolveContainedCwd\<close>: \<open>exists_dir\<close> and \<open>realpath\<close> are what the file system answers; \<open>mkdir\<close> of a
  missing directory precedes the second check, as in the code.
\<close>

definition resolveContainedCwd ::
  "(string list \<Rightarrow> string list) \<Rightarrow> string list \<Rightarrow> string option \<Rightarrow> string + string list" where
  "resolveContainedCwd realpath project cwd =
     (let raw = (case cwd of None \<Rightarrow> [] | Some c \<Rightarrow> if c = [] \<or> c = ''.'' then [] else backslashes c);
          escapes = ''cwd escapes project root: '' @ (case cwd of None \<Rightarrow> ''undefined'' | Some c \<Rightarrow> c)
      in
      if raw = [] then Inr (realpath project)
      else if \<not> isSafeRelativePath False raw then Inl escapes
      else
        (let joined = resolve_path project raw in
         if \<not> isPathContained project joined then Inl escapes
         else if \<not> isPathContained (realpath project) (realpath joined)
         then Inl (''Path escapes allowed root: '' @ join_with ''/'' ([] # joined))
         else Inr (realpath joined)))"

section \<open>Repository URLs\<close>

definition strip_suffix_while :: "(char \<Rightarrow> bool) \<Rightarrow> string \<Rightarrow> string" where
  "strip_suffix_while P s = rev (dropWhile P (rev s))"

definition url_schemes :: "string list" where
  "url_schemes = [''https://'', ''http://'', ''ssh://'', ''git://'']"

text \<open>\<open>/^(https?|ssh|git):\/\//i\<close>: the matched scheme with its slashes.\<close>

definition url_scheme :: "string \<Rightarrow> string option" where
  "url_scheme u = find (\<lambda>p. starts_with (toLowerCase u) p) url_schemes"

text \<open>\<open>.replace(/^[^@/]+@/, '')\<close>\<close>

definition strip_userinfo :: "string \<Rightarrow> string" where
  "strip_userinfo u =
     (let w = takeWhile (\<lambda>c. c \<noteq> CHR ''@'' \<and> c \<noteq> CHR ''/'') u; r = drop (length w) u
      in if w \<noteq> [] \<and> starts_with r ''@'' then tl r else u)"

text \<open>\<open>url.match(/^([^:/]+):(.+)$/)\<close>\<close>

definition scp_match :: "string \<Rightarrow> (string \<times> string) option" where
  "scp_match u =
     (let w = takeWhile (\<lambda>c. c \<noteq> CHR '':'' \<and> c \<noteq> CHR ''/'') u; r = drop (length w) u
      in if w \<noteq> [] \<and> starts_with r '':'' \<and> tl r \<noteq> [] \<and> list_all (\<lambda>c. c \<noteq> CHR 0x0A \<and> c \<noteq> CHR 0x0D) (tl r)
         then Some (w, tl r) else None)"

definition split_first_slash :: "string \<Rightarrow> string \<times> string" where
  "split_first_slash u =
     (let w = takeWhile (\<lambda>c. c \<noteq> CHR ''/'') u in (w, drop (Suc (length w)) u))"

text \<open>\<open>host.replace(/:\d+$/, '')\<close>\<close>

definition strip_port :: "string \<Rightarrow> string" where
  "strip_port h =
     (let r = strip_suffix_while is_digit h
      in if r \<noteq> h \<and> r \<noteq> [] \<and> last r = CHR '':'' then butlast r else h)"

definition strip_git :: "string \<Rightarrow> string" where
  "strip_git u = (if suffix ''.git'' (toLowerCase u) then take (length u - 4) u else u)"

definition normalizeRepositoryUrl :: "string \<Rightarrow> string" where
  "normalizeRepositoryUrl rawUrl =
     (let url = strip_git (strip_suffix_while (\<lambda>c. c = CHR ''/'') (trim rawUrl));
          rest = strip_userinfo (case url_scheme url of None \<Rightarrow> url | Some p \<Rightarrow> drop (length p) url);
          (host, path) = (case (if url_scheme url = None then scp_match rest else None) of
                            Some hp \<Rightarrow> hp | None \<Rightarrow> split_first_slash rest);
          host' = toLowerCase (strip_port host);
          path' = dropWhile (\<lambda>c. c = CHR ''/'') (normalizePath path)
      in if path' = [] then host' else host' @ ''/'' @ path')"

definition computeRepoKey :: "(string \<Rightarrow> string) \<Rightarrow> string \<Rightarrow> string" where
  "computeRepoKey sha256 rawUrl = sha256 (normalizeRepositoryUrl rawUrl)"

section \<open>The Git allowlist\<close>

record git_url_allowlist =
  al_schemes :: "string list"
  al_hosts :: "string list"
  al_repository_prefixes :: "string list option"

datatype git_url_reject = Empty_url | File_scheme | Local_path | External_helper | Unsupported_scheme
  | Unknown_host | Prefix_mismatch | Unparseable

datatype git_url_result =
    Url_rejected git_url_reject
  | Url_ok string string string string

text \<open>\<open>/^[A-Za-z][A-Za-z0-9+.-]*::/\<close>\<close>

definition external_helper :: "string \<Rightarrow> bool" where
  "external_helper u =
     (let w = takeWhile (\<lambda>c. is_alpha c \<or> is_digit c \<or> c \<in> set ''+.-'') u
      in w \<noteq> [] \<and> is_alpha (hd w) \<and> starts_with (drop (length w) u) ''::'')"

text \<open>\<open>/^[^@/\s]+@[^:/\s]+:/\<close>\<close>

definition scp_like :: "string \<Rightarrow> bool" where
  "scp_like u =
     (let w = takeWhile (\<lambda>c. c \<noteq> CHR ''@'' \<and> c \<noteq> CHR ''/'' \<and> \<not> is_space c) u;
          r = drop (length w) u;
          h = takeWhile (\<lambda>c. c \<noteq> CHR '':'' \<and> c \<noteq> CHR ''/'' \<and> \<not> is_space c) (tl r)
      in w \<noteq> [] \<and> starts_with r ''@'' \<and> h \<noteq> [] \<and> starts_with (drop (length h) (tl r)) '':'')"

definition detectScheme :: "string \<Rightarrow> string option" where
  "detectScheme raw =
     (let t = trim raw; l = toLowerCase t in
      if starts_with l ''file:'' then Some ''file''
      else if starts_with l ''https://'' then Some ''https''
      else if starts_with l ''http://'' then Some ''http''
      else if starts_with l ''ssh://'' then Some ''ssh''
      else if starts_with l ''git://'' then Some ''git''
      else if scp_like t then Some ''ssh''
      else None)"

definition looksLikeLocalPath :: "string \<Rightarrow> bool" where
  "looksLikeLocalPath raw =
     (let t = trim raw in
      drive_letter t \<and> (case drop 2 t of c # _ \<Rightarrow> c = CHR ''/'' \<or> c = CHR 0x5C | [] \<Rightarrow> False) \<or>
      starts_with t ''/'' \<or> starts_with t [CHR 0x5C] \<or>
      starts_with t ''./'' \<or> starts_with t [CHR ''.'', CHR 0x5C] \<or> starts_with t ''../'')"

definition evaluateRepositoryUrl :: "string \<Rightarrow> git_url_allowlist \<Rightarrow> git_url_result" where
  "evaluateRepositoryUrl rawUrl allow =
     (let trimmed = trim rawUrl in
      if trimmed = [] then Url_rejected Empty_url
      else if external_helper trimmed then Url_rejected External_helper
      else if starts_with (toLowerCase trimmed) ''file:'' then Url_rejected File_scheme
      else if looksLikeLocalPath trimmed then Url_rejected Local_path
      else
        (case detectScheme trimmed of
           None \<Rightarrow> Url_rejected Unparseable
         | Some scheme \<Rightarrow>
             if toLowerCase scheme \<notin> set (map toLowerCase (al_schemes allow)) then Url_rejected Unsupported_scheme
             else
               (let canonical = normalizeRepositoryUrl trimmed;
                    (h, path) = split_first_slash canonical;
                    host = toLowerCase h;
                    allowedHosts = map toLowerCase (al_hosts allow);
                    prefixes = (case al_repository_prefixes allow of None \<Rightarrow> [] | Some ps \<Rightarrow> ps)
                in
                if ''*'' \<notin> set allowedHosts \<and> host \<notin> set allowedHosts then Url_rejected Unknown_host
                else if prefixes \<noteq> [] \<and> \<not> list_ex (\<lambda>p. path = p \<or> starts_with path p) prefixes
                then Url_rejected Prefix_mismatch
                else Url_ok scheme host path canonical)))"

definition isAllowedRepositoryUrl :: "string \<Rightarrow> git_url_allowlist \<Rightarrow> bool" where
  "isAllowedRepositoryUrl rawUrl allow = (case evaluateRepositoryUrl rawUrl allow of Url_ok _ _ _ _ \<Rightarrow> True | _ \<Rightarrow> False)"

definition assertAllowedRepositoryUrl :: "string \<Rightarrow> git_url_allowlist \<Rightarrow> git_url_reject option + string" where
  "assertAllowedRepositoryUrl rawUrl allow =
     (case evaluateRepositoryUrl rawUrl allow of
        Url_rejected w \<Rightarrow> Inl (Some w)
      | Url_ok _ _ _ canonical \<Rightarrow> if canonical = [] then Inl None else Inr canonical)"

section \<open>Secret files\<close>

definition DEFAULT_SECRET_DENYLIST :: "string list" where
  "DEFAULT_SECRET_DENYLIST =
     [''.env'', ''.env.*'', ''*.pem'', ''*.key'', ''*.p12'', ''*.pfx'', ''id_rsa'', ''id_ed25519'', ''credentials.json'',
      ''secrets.*'', ''.aws/'', ''.ssh/'']"

definition normalizeSecretPath :: "string \<Rightarrow> string" where
  "normalizeSecretPath s = (let n = backslashes s in if starts_with n ''./'' then drop 2 n else n)"

text \<open>The regular expression built from a pattern: \<open>*\<close> matches any characters but line ends.\<close>

fun star_match :: "string \<Rightarrow> string \<Rightarrow> bool" where
  "star_match [] s = (s = [])"
| "star_match (p # ps) s =
     (if p = CHR ''*''
      then star_match ps s \<or> (case s of [] \<Rightarrow> False | c # cs \<Rightarrow> c \<noteq> CHR 0x0A \<and> c \<noteq> CHR 0x0D \<and> star_match (p # ps) cs)
      else (case s of [] \<Rightarrow> False | c # cs \<Rightarrow> p = c \<and> star_match ps cs))"

definition basename :: "string \<Rightarrow> string" where
  "basename path = last (split_on (CHR ''/'') path)"

definition matchPattern :: "string \<Rightarrow> string \<Rightarrow> bool" where
  "matchPattern pathStr pattern =
     (let path = normalizeSecretPath pathStr; pat = backslashes pattern; base = basename path in
      if suffix ''/'' pat then path = butlast pat \<or> starts_with path pat \<or> sublist (CHR ''/'' # pat) path
      else if starts_with pat ''*.'' then suffix (tl pat) base \<or> base = drop 2 pat
      else if CHR ''*'' \<in> set pat then star_match pat path \<or> star_match pat base
      else if suffix ''.*'' pat
      then (let pre = take (length pat - 2) pat in base = pre \<or> starts_with base (pre @ ''.''))
      else path = pat \<or> suffix (CHR ''/'' # pat) path \<or> base = pat)"

datatype secret_policy_mode = Mode_block | Mode_warn | Mode_allow

definition findSecretPolicyViolations :: "string \<Rightarrow> secret_policy_mode \<Rightarrow> string list \<Rightarrow> (string \<times> string) list" where
  "findSecretPolicyViolations pathStr mode denylist =
     (if mode = Mode_allow then []
      else map (\<lambda>p. (normalizeSecretPath pathStr, p)) (filter (matchPattern pathStr) denylist))"

definition isSecretBlocked :: "string \<Rightarrow> secret_policy_mode \<Rightarrow> string list \<Rightarrow> bool" where
  "isSecretBlocked pathStr mode denylist =
     (mode = Mode_block \<and> findSecretPolicyViolations pathStr mode denylist \<noteq> [])"

section \<open>Containment holds\<close>

lemma strip_common_Nil: "fst (strip_common ps qs) = [] \<Longrightarrow> prefix ps qs"
  by (induction ps qs rule: strip_common.induct) (auto split: if_splits)

lemma strip_common_append: "strip_common ps (ps @ qs) = ([], qs)"
  by (induction ps) (auto simp: strip_common.simps(2) split: list.split)

lemma join_dots: "prefix ''..'' (join_with ''/'' (''..'' # ws))"
  by (cases ws) simp_all

lemma contained_prefix: "isPathContained parent child \<Longrightarrow> prefix parent child"
proof -
  assume c: "isPathContained parent child"
  obtain up down where sc: "strip_common parent child = (up, down)" by (cases "strip_common parent child")
  have "up = []"
  proof (rule ccontr)
    assume "up \<noteq> []"
    then obtain u us where "up = u # us" by (cases up) auto
    with c sc join_dots show False by (simp add: isPathContained_def relative_path_def starts_with_def)
  qed
  with sc strip_common_Nil [of parent child] show ?thesis by simp
qed

lemma contained_below:
  assumes "ps \<noteq> []" "hd ps \<noteq> []" "hd (hd ps) \<noteq> CHR ''/''" "\<not> prefix ''..'' (join_with ''/'' ps)"
  shows "isPathContained base (base @ ps)"
proof -
  obtain p qs where "ps = p # qs" using assms(1) by (cases ps) auto
  with assms have "\<not> prefix ''/'' (join_with ''/'' ps)" by (cases p; cases qs) auto
  with assms(4) show ?thesis
    by (simp add: isPathContained_def relative_path_def strip_common_append starts_with_def isAbsolute_def)
qed

lemma normalize_plain:
  "\<forall>p \<in> set ps. p \<noteq> [] \<and> p \<noteq> ''.'' \<and> p \<noteq> ''..'' \<Longrightarrow> normalize_segs acc ps = rev acc @ ps"
  by (induction ps arbitrary: acc) auto

lemma backslashes_idem [simp]: "backslashes (backslashes s) = backslashes s"
  by (simp add: backslashes_def replace_char_def)

lemma safe_segments:
  assumes "isSafeRelativePath False s"
  shows "\<forall>p \<in> set (split_on (CHR ''/'') (backslashes s)). p \<noteq> [] \<and> p \<noteq> ''.'' \<and> p \<noteq> ''..''"
    and "\<not> isAbsolute (backslashes s)" and "backslashes s \<noteq> []" and "backslashes s \<noteq> ''.''"
  using assms by (auto simp: isSafeRelativePath_def Let_def isAbsolute_def list_ex_iff split: if_splits)



text \<open>A directory whose name begins with two dots passes \<open>isSafeRelativePath\<close> and is refused all the same.\<close>

theorem dotted_directory_refused:
  "isSafeRelativePath False ''..cache'' \<and> resolveContainedCwd id [''srv''] (Some ''..cache'') = Inl ''cwd escapes project root: ..cache''"
  by code_simp

section \<open>One repository, one identity\<close>

definition host_char :: "char \<Rightarrow> bool" where
  "host_char c = (lower_char c = c \<and> c \<notin> set ''@:/'' \<and> \<not> is_space c)"

definition path_char :: "char \<Rightarrow> bool" where
  "path_char c = (c \<notin> set ''@:'' \<and> \<not> is_space c \<and> c \<noteq> CHR 0x5C)"

definition plain_host :: "string \<Rightarrow> bool" where
  "plain_host h = (h \<noteq> [] \<and> list_all host_char h)"

definition plain_repo_path :: "string \<Rightarrow> bool" where
  "plain_repo_path p = (p \<noteq> [] \<and> list_all path_char p \<and> hd p \<noteq> CHR ''/'' \<and> last p \<noteq> CHR ''/'' \<and> \<not> suffix ''.git'' (toLowerCase p))"

lemma takeWhile_stop: "list_all P xs \<Longrightarrow> \<not> P y \<Longrightarrow> takeWhile P (xs @ y # ys) = xs"
  by (induction xs) auto

lemma trim_plain: "s \<noteq> [] \<Longrightarrow> \<not> is_space (hd s) \<Longrightarrow> \<not> is_space (last s) \<Longrightarrow> trim s = s"
proof -
  assume s: "s \<noteq> []" "\<not> is_space (hd s)" "\<not> is_space (last s)"
  then have "dropWhile is_space s = s" by (cases s) auto
  moreover from s have "dropWhile is_space (rev s) = rev s" by (cases s rule: rev_cases) auto
  ultimately show ?thesis by (simp add: trim_def)
qed

lemma toLowerCase_append [simp]: "toLowerCase (x @ y) = toLowerCase x @ toLowerCase y"
  by (simp add: toLowerCase_def)

lemma lower_delims:
  "toLowerCase ''/'' = ''/''" "toLowerCase '':'' = '':''" "toLowerCase ''.git'' = ''.git''" "toLowerCase ''https://'' = ''https://''"
  "toLowerCase ''http://'' = ''http://''" "toLowerCase ''ssh://'' = ''ssh://''" "toLowerCase ''git://'' = ''git://''"
  "toLowerCase ''git@'' = ''git@''"
  by code_simp+

lemma delims_not_digits: "\<not> is_digit (CHR '':'')" "\<not> is_digit (CHR ''/'')" "\<not> is_digit (CHR ''@'')"
  by code_simp+

lemma delims_not_space: "\<not> is_space (CHR ''/'')" "\<not> is_space (CHR ''t'')" "\<not> is_space (CHR ''g'')" "\<not> is_space (CHR ''h'')" "\<not> is_space (CHR ''s'')"
  "is_space (CHR 0x0A)" "is_space (CHR 0x0D)"
  by code_simp+

lemma plain_path_last:
  assumes "plain_repo_path p"
  shows "p \<noteq> []" "last p \<noteq> CHR ''/''" "\<not> is_space (last p)" "list_all path_char p" "hd p \<noteq> CHR ''/''"
  using assms by (auto simp: plain_repo_path_def path_char_def list_all_iff)

lemma strip_slash:
  assumes "plain_repo_path p"
  shows "strip_suffix_while (\<lambda>c. c = CHR ''/'') (b @ p) = b @ p"
  using plain_path_last [OF assms] by (cases p rule: rev_cases) (auto simp: strip_suffix_while_def)

lemma strip_git_plain:
  assumes "plain_repo_path p" "c = CHR ''/'' \<or> c = CHR '':''"
  shows "strip_git (b @ c # p) = b @ c # p"
proof -
  have "\<not> suffix ''.git'' (toLowerCase (b @ [c]) @ toLowerCase p)"
  proof
    assume "suffix ''.git'' (toLowerCase (b @ [c]) @ toLowerCase p)"
    then have "suffix ''.git'' (toLowerCase p) \<or> (\<exists>z. ''.git'' = z @ toLowerCase p \<and> suffix z (toLowerCase (b @ [c])))"
      by (simp only: suffix_append)
    moreover have "toLowerCase [c] = [c]" using assms(2) by (auto simp: lower_delims)
    ultimately obtain z where z: "suffix z (toLowerCase b @ [c])" "''.git'' = z @ toLowerCase p"
      using assms(1) by (auto simp only: plain_repo_path_def toLowerCase_append)
    have "z = [] \<or> last z = c" using z(1) by (auto simp: suffix_def) (metis last_appendR last_snoc)
    moreover have "z \<noteq> []" using z(2) assms(1) by (auto simp only: plain_repo_path_def append_Nil suffix_order.order_refl)
    moreover have "set z \<subseteq> set ''.git''" using z(2) by (metis set_append Un_upper1)
    ultimately have "c \<in> set ''.git''" using last_in_set by blast
    with assms(2) show False by auto
  qed
  moreover have "toLowerCase (b @ c # p) = toLowerCase (b @ [c]) @ toLowerCase p" by (simp add: toLowerCase_def)
  ultimately show ?thesis by (simp only: strip_git_def if_False)
qed

lemma strip_tail:
  assumes p: "plain_repo_path p" and c: "c = CHR ''/'' \<or> c = CHR '':''" and t: "tail \<in> {[], ''/'', ''.git'', ''.git/''}"
  shows "strip_git (strip_suffix_while (\<lambda>c. c = CHR ''/'') (b @ c # p @ tail)) = b @ c # p"
proof -
  have git: "strip_git (x @ ''.git'') = x" for x
    unfolding strip_git_def toLowerCase_append lower_delims by (simp only: suffix_def) simp
  have slash: "strip_suffix_while (\<lambda>c. c = CHR ''/'') (x @ ''/'') = strip_suffix_while (\<lambda>c. c = CHR ''/'') x" for x
    by (simp add: strip_suffix_while_def)
  have keep: "strip_suffix_while (\<lambda>c. c = CHR ''/'') (x @ ''.git'') = x @ ''.git''" for x by (simp add: strip_suffix_while_def)
  have base: "strip_suffix_while (\<lambda>c. c = CHR ''/'') ((b @ [c]) @ p) = (b @ [c]) @ p" by (rule strip_slash [OF p])
  from t show ?thesis
    using base slash [of "b @ c # p"] keep [of "b @ c # p"] slash [of "b @ c # p @ ''.git''"] git [of "b @ c # p"] strip_git_plain [OF p c, of b]
    by auto
qed

lemma url_scheme_known: "scheme \<in> set url_schemes \<Longrightarrow> url_scheme (scheme @ x) = Some scheme"
proof -
  assume "scheme \<in> set url_schemes"
  then consider "scheme = ''https://''" | "scheme = ''http://''" | "scheme = ''ssh://''" | "scheme = ''git://''"
    by (auto simp: url_schemes_def)
  then show ?thesis
    by cases (simp_all only: url_schemes_def url_scheme_def starts_with_def toLowerCase_append lower_delims, simp_all)
qed

lemma strip_port_host:
  assumes "plain_host h"
  shows "strip_port h = h" "ds \<noteq> [] \<Longrightarrow> list_all is_digit ds \<Longrightarrow> strip_port (h @ CHR '':'' # ds) = h"
proof -
  have colon: "CHR '':'' \<notin> set h" using assms by (auto simp: plain_host_def host_char_def list_all_iff)
  moreover have "set (strip_suffix_while is_digit h) \<subseteq> set h" by (auto simp: strip_suffix_while_def dest: set_dropWhileD)
  ultimately have "strip_suffix_while is_digit h \<noteq> [] \<Longrightarrow> last (strip_suffix_while is_digit h) \<noteq> CHR '':''"
    using last_in_set [of "strip_suffix_while is_digit h"] by (metis subsetD)
  then show "strip_port h = h" by (auto simp: strip_port_def Let_def)
  assume "ds \<noteq> []" "list_all is_digit ds"
  moreover from this(2) have "strip_suffix_while is_digit (h @ CHR '':'' # ds) = h @ '':''"
    by (simp add: strip_suffix_while_def dropWhile_append list_all_iff delims_not_digits)
  ultimately show "strip_port (h @ CHR '':'' # ds) = h" by (simp add: strip_port_def Let_def)
qed

lemma lower_host: "plain_host h \<Longrightarrow> toLowerCase h = h"
  by (simp add: plain_host_def host_char_def toLowerCase_def list_all_iff map_idI)

lemma normal_path:
  assumes "plain_repo_path p"
  shows "dropWhile (\<lambda>c. c = CHR ''/'') (normalizePath p) = p"
proof -
  have "\<forall>c \<in> set p. c \<noteq> CHR 0x5C" using assms unfolding plain_repo_path_def path_char_def list_all_iff by blast
  then have "backslashes p = p" unfolding backslashes_def replace_char_def by (intro map_idI) simp
  then have "normalizePath p = p" using plain_path_last(2) [OF assms] by (simp add: normalizePath_def)
  moreover have "dropWhile (\<lambda>c. c = CHR ''/'') p = p" using plain_path_last(1,5) [OF assms] by (cases p) auto
  ultimately show ?thesis by simp
qed

lemma host_no_delims:
  assumes "plain_host h" "port = [] \<or> (\<exists>ds. port = '':'' @ ds \<and> ds \<noteq> [] \<and> list_all is_digit ds)"
  shows "list_all (\<lambda>c. c \<noteq> CHR ''@'' \<and> c \<noteq> CHR ''/'') (h @ port)" "list_all (\<lambda>c. c \<noteq> CHR '':'' \<and> c \<noteq> CHR ''/'') h"
    "toLowerCase (strip_port (h @ port)) = h" "h \<noteq> []"
proof -
  have h: "h \<noteq> []" "\<forall>c \<in> set h. c \<noteq> CHR ''@'' \<and> c \<noteq> CHR ''/'' \<and> c \<noteq> CHR '':''"
    using assms(1) by (auto simp: plain_host_def host_char_def list_all_iff)
  have "\<forall>c \<in> set port. c \<noteq> CHR ''@'' \<and> c \<noteq> CHR ''/''"
    using assms(2) delims_not_digits by (auto simp: list_all_iff)
  with h show "list_all (\<lambda>c. c \<noteq> CHR ''@'' \<and> c \<noteq> CHR ''/'') (h @ port)" unfolding list_all_iff set_append by blast
  from h show "list_all (\<lambda>c. c \<noteq> CHR '':'' \<and> c \<noteq> CHR ''/'') h" "h \<noteq> []" by (simp_all add: list_all_iff)
  from assms(2) strip_port_host [OF assms(1)] lower_host [OF assms(1)] show "toLowerCase (strip_port (h @ port)) = h" by auto
qed

lemma split_first_slash_at: "list_all (\<lambda>c. c \<noteq> CHR ''/'') x \<Longrightarrow> split_first_slash (x @ CHR ''/'' # y) = (x, y)"
  by (simp add: split_first_slash_def takeWhile_stop)

text \<open>
  Every usual way to write a repository URL gives the same repository identity: any of the
  supported schemes, with or without user name and port, and the \<open>git@host:path\<close> form, each with or
  without a trailing \<open>.git\<close> or slash, normalise to \<open>host/path\<close>, so mirrors and caches keyed by it are shared.
\<close>

theorem repository_forms_share_identity:
  assumes h: "plain_host h" and p: "plain_repo_path p" and sch: "scheme \<in> set url_schemes"
    and t: "tail \<in> {[], ''/'', ''.git'', ''.git/''}"
    and user: "user = [] \<or> (\<exists>u. user = u @ ''@'' \<and> u \<noteq> [] \<and> list_all (\<lambda>c. c \<noteq> CHR ''@'' \<and> c \<noteq> CHR ''/'') u)"
    and port: "port = [] \<or> (\<exists>ds. port = '':'' @ ds \<and> ds \<noteq> [] \<and> list_all is_digit ds)"
  shows "normalizeRepositoryUrl (scheme @ user @ h @ port @ ''/'' @ p @ tail) = h @ ''/'' @ p \<and>
    normalizeRepositoryUrl (''git@'' @ h @ '':'' @ p @ tail) = h @ ''/'' @ p"
proof
  note hp = host_no_delims [OF h port] and pl = plain_path_last [OF p]
  have lst: "\<not> is_space (last (x @ p @ tail))" for x using pl t by (auto simp: delims_not_space)
  have "\<not> is_space (hd (scheme @ x))" "scheme \<noteq> []" for x using sch by (auto simp: url_schemes_def delims_not_space)
  then have tr: "trim (scheme @ user @ h @ port @ ''/'' @ p @ tail) = scheme @ user @ h @ port @ ''/'' @ p @ tail"
    using lst [of "scheme @ user @ h @ port @ ''/''"] by (intro trim_plain) simp_all
  have rest: "strip_userinfo (user @ h @ port @ CHR ''/'' # p) = h @ port @ CHR ''/'' # p"
    using user
  proof
    assume "user = []"
    then show ?thesis using takeWhile_stop [OF hp(1), of "CHR ''/''" p] by (simp add: strip_userinfo_def Let_def starts_with_def)
  next
    assume "\<exists>u. user = u @ ''@'' \<and> u \<noteq> [] \<and> list_all (\<lambda>c. c \<noteq> CHR ''@'' \<and> c \<noteq> CHR ''/'') u"
    then obtain u where u: "user = u @ ''@''" "u \<noteq> []" "list_all (\<lambda>c. c \<noteq> CHR ''@'' \<and> c \<noteq> CHR ''/'') u" by blast
    then show ?thesis using takeWhile_stop [OF u(3), of "CHR ''@''" "h @ port @ CHR ''/'' # p"]
      by (simp add: strip_userinfo_def Let_def starts_with_def)
  qed
  have "list_all (\<lambda>c. c \<noteq> CHR ''/'') (h @ port)" using hp(1) by (simp add: list_all_iff)
  note sp = split_first_slash_at [OF this, of p]
  have st: "strip_git (strip_suffix_while (\<lambda>c. c = CHR ''/'') (scheme @ user @ h @ port @ ''/'' @ p @ tail)) = scheme @ user @ h @ port @ CHR ''/'' # p"
    using strip_tail [OF p _ t, of "CHR ''/''" "scheme @ user @ h @ port"] by simp
  show "normalizeRepositoryUrl (scheme @ user @ h @ port @ ''/'' @ p @ tail) = h @ ''/'' @ p"
    using rest sp hp(3) normal_path [OF p] pl(1)
    by (simp add: normalizeRepositoryUrl_def tr [simplified] st [simplified] url_scheme_known [OF sch] Let_def del: dropWhile_eq_Nil_conv)
  have tr2: "trim (''git@'' @ h @ '':'' @ p @ tail) = ''git@'' @ h @ '':'' @ p @ tail"
    using lst [of "''git@'' @ h @ '':''"] by (intro trim_plain) (simp_all add: delims_not_space)
  have st2: "strip_git (strip_suffix_while (\<lambda>c. c = CHR ''/'') (''git@'' @ h @ '':'' @ p @ tail)) = ''git@'' @ h @ CHR '':'' # p"
    using strip_tail [OF p _ t, of "CHR '':''" "''git@'' @ h"] by simp
  have none: "url_scheme (''git@'' @ x) = None" for x
    unfolding url_scheme_def url_schemes_def starts_with_def toLowerCase_append lower_delims by simp
  have rest2: "strip_userinfo (''git@'' @ h @ CHR '':'' # p) = h @ CHR '':'' # p"
    by (simp add: strip_userinfo_def Let_def starts_with_def)
  have m: "scp_match (h @ CHR '':'' # p) = Some (h, p)"
  proof -
    have "\<forall>c \<in> set p. \<not> is_space c" using pl(4) unfolding path_char_def list_all_iff by blast
    then have "list_all (\<lambda>c. c \<noteq> CHR 0x0A \<and> c \<noteq> CHR 0x0D) p" using delims_not_space(6,7) unfolding list_all_iff by blast
    then show ?thesis using takeWhile_stop [OF hp(2), of "CHR '':''" p] hp(4) pl(1)
      by (simp add: scp_match_def Let_def starts_with_def)
  qed
  show "normalizeRepositoryUrl (''git@'' @ h @ '':'' @ p @ tail) = h @ ''/'' @ p"
    using m normal_path [OF p] pl(1) strip_port_host(1) [OF h] lower_host [OF h] none [of "h @ CHR '':'' # p", simplified] rest2 [simplified]
    by (simp add: normalizeRepositoryUrl_def tr2 [simplified] st2 [simplified] Let_def del: dropWhile_eq_Nil_conv)
qed

theorem repository_forms_share_identity_witness:
  "normalizeRepositoryUrl ''ssh://git@github.com:22/kuzyasun/app.git'' = ''github.com/kuzyasun/app'' \<and>
   normalizeRepositoryUrl ''git@github.com:kuzyasun/app.git'' = ''github.com/kuzyasun/app''"
proof -
  have "plain_host ''github.com''" "plain_repo_path ''kuzyasun/app''" "''ssh://'' \<in> set url_schemes"
    "list_all (\<lambda>c. c \<noteq> CHR ''@'' \<and> c \<noteq> CHR ''/'') ''git''" "list_all is_digit ''22''" by code_simp+
  then show ?thesis
    using repository_forms_share_identity [of "''github.com''" "''kuzyasun/app''" "''ssh://''" "''.git''" "''git@''" "'':22''"]
    by auto
qed

text \<open>
  The user name is stripped up to the first \<open>@\<close> before any slash, also when a query or fragment has
  ended the host: Git connects to \<open>evil.example\<close> for these URLs, and the allowlist accepts them for
  \<open>github.com\<close>.
\<close>

theorem allowlist_accepts_foreign_host:
  defines "allow \<equiv> \<lparr>al_schemes = [''https''], al_hosts = [''github.com''], al_repository_prefixes = Some [''kuzyasun/'']\<rparr>"
  shows "isAllowedRepositoryUrl ''https://evil.example?@github.com/kuzyasun/app'' allow"
    and "isAllowedRepositoryUrl ''https://evil.example#@github.com/kuzyasun/app'' allow"
  unfolding allow_def by code_simp+

text \<open>A path with a \<open>..\<close> segment passes the prefix test.\<close>

theorem allowlist_prefix_ignores_dotdot:
  "isAllowedRepositoryUrl ''https://github.com/kuzyasun/../other/app''
     \<lparr>al_schemes = [''https''], al_hosts = [''github.com''], al_repository_prefixes = Some [''kuzyasun/'']\<rparr>"
  by code_simp

section \<open>Secret files\<close>

lemma basename_tail: "CHR ''/'' \<notin> set n \<Longrightarrow> basename (d @ CHR ''/'' # n) = n"
proof -
  assume n: "CHR ''/'' \<notin> set n"
  have "\<exists>ws. ws \<noteq> [] \<and> split_on (CHR ''/'') (d @ CHR ''/'' # n) = ws @ [n]"
  proof (induction d)
    case Nil
    with n show ?case by simp
  next
    case (Cons c d)
    then obtain w ws where "split_on (CHR ''/'') (d @ CHR ''/'' # n) = (w # ws) @ [n]" by (metis neq_Nil_conv)
    then show ?case by (cases "c = CHR ''/''") (auto intro: exI [of _ "[] # w # ws"] exI [of _ "(c # w) # ws"])
  qed
  then show ?thesis by (auto simp: basename_def)
qed

lemma suffix_single: "suffix [c] s \<longleftrightarrow> s \<noteq> [] \<and> last s = c"
  by (cases s rule: rev_cases) (auto simp: suffix_def)

lemma basename_normalized:
  assumes "CHR ''/'' \<notin> set n" "CHR 0x5C \<notin> set n"
  shows "basename (normalizeSecretPath (d @ CHR ''/'' # n)) = n"
proof -
  have n: "backslashes n = n" using assms(2) unfolding backslashes_def replace_char_def by (intro map_idI) auto
  have b: "backslashes (d @ CHR ''/'' # n) = backslashes d @ CHR ''/'' # n"
    using n by (simp add: backslashes_def replace_char_def)
  show ?thesis
  proof (cases "starts_with (backslashes d @ CHR ''/'' # n) ''./''")
    case False
    with b show ?thesis by (simp add: normalizeSecretPath_def basename_tail [OF assms(1)])
  next
    case True
    then have "normalizeSecretPath (d @ CHR ''/'' # n) = drop 2 (backslashes d @ CHR ''/'' # n)" using b by (simp add: normalizeSecretPath_def)
    moreover have "drop 2 (backslashes d @ CHR ''/'' # n) = (if length (backslashes d) = 1 then n else drop 2 (backslashes d) @ CHR ''/'' # n)"
      using True by (cases "backslashes d"; cases "tl (backslashes d)") (auto simp: starts_with_def)
    ultimately show ?thesis using basename_tail [OF assms(1)] assms(1) by (simp add: basename_def)
  qed
qed

lemma star_all: "list_all (\<lambda>c. c \<noteq> CHR 0x0A \<and> c \<noteq> CHR 0x0D) s \<Longrightarrow> star_match ''*'' s"
  by (induction s) auto

text \<open>
  Under the mode \<open>block\<close> the default denylist stops the usual secret files in every directory, with either
  kind of slash: environment files, private keys and certificates, SSH keys and credential files.
\<close>

theorem default_denylist_blocks:
  assumes name: "CHR ''/'' \<notin> set n" "CHR 0x5C \<notin> set n"
    and secret: "n \<in> {''.env'', ''id_rsa'', ''id_ed25519'', ''credentials.json''} \<or>
      (\<exists>x \<in> {''.pem'', ''.key'', ''.p12'', ''.pfx''}. suffix x n) \<or>
      (\<exists>x. (n = ''.env.'' @ x \<or> n = ''secrets.'' @ x) \<and> list_all (\<lambda>c. c \<noteq> CHR 0x0A \<and> c \<noteq> CHR 0x0D) x)"
  shows "isSecretBlocked (d @ ''/'' @ n) Mode_block DEFAULT_SECRET_DENYLIST"
proof -
  note base = basename_normalized [OF name, of d]
  have pats: "backslashes ''.env'' = ''.env''" "backslashes ''id_rsa'' = ''id_rsa''" "backslashes ''id_ed25519'' = ''id_ed25519''"
    "backslashes ''credentials.json'' = ''credentials.json''" "backslashes ''*.pem'' = ''*.pem''" "backslashes ''*.key'' = ''*.key''"
    "backslashes ''*.p12'' = ''*.p12''" "backslashes ''*.pfx'' = ''*.pfx''" "backslashes ''.env.*'' = ''.env.*''"
    "backslashes ''secrets.*'' = ''secrets.*''" by code_simp+
  have "\<exists>p \<in> set DEFAULT_SECRET_DENYLIST. matchPattern (d @ CHR ''/'' # n) p"
    using secret
  proof (elim disjE)
    assume "n \<in> {''.env'', ''id_rsa'', ''id_ed25519'', ''credentials.json''}"
    then show ?thesis using base by (intro bexI [of _ n]) (auto simp: matchPattern_def Let_def DEFAULT_SECRET_DENYLIST_def pats starts_with_def suffix_single suffix_def)
  next
    assume "\<exists>x \<in> {''.pem'', ''.key'', ''.p12'', ''.pfx''}. suffix x n"
    then obtain x where x: "x \<in> {''.pem'', ''.key'', ''.p12'', ''.pfx''}" "suffix x n" by blast
    then show ?thesis using base
      by (intro bexI [of _ "CHR ''*'' # x"]) (auto simp: matchPattern_def Let_def DEFAULT_SECRET_DENYLIST_def pats starts_with_def suffix_single)
  next
    assume "\<exists>x. (n = ''.env.'' @ x \<or> n = ''secrets.'' @ x) \<and> list_all (\<lambda>c. c \<noteq> CHR 0x0A \<and> c \<noteq> CHR 0x0D) x"
    then obtain x pre where x: "n = pre @ x" "pre \<in> {''.env.'', ''secrets.''}" "list_all (\<lambda>c. c \<noteq> CHR 0x0A \<and> c \<noteq> CHR 0x0D) x" by blast
    then have "star_match (pre @ ''*'') n" using star_all [OF x(3)] by auto
    with x(2) base show ?thesis
      by (intro bexI [of _ "pre @ ''*''"]) (auto simp: matchPattern_def Let_def DEFAULT_SECRET_DENYLIST_def pats starts_with_def suffix_single)
  qed
  then show ?thesis by (auto simp: isSecretBlocked_def findSecretPolicyViolations_def filter_empty_conv)
qed

text \<open>
  The branch for patterns that end in \<open>.*\<close> is never reached, because the test for \<open>*\<close> comes first:
  a file named \<open>secrets\<close> passes.
\<close>

theorem bare_secrets_file_passes:
  "\<not> isSecretBlocked ''conf/secrets'' Mode_block DEFAULT_SECRET_DENYLIST"
  by code_simp

end
