(* ===== verification/Agent_State.thy ===== *)
theory Agent_State
  imports Recovery Local_Runner Log_Spool Stream_Filters
begin

text \<open>
  The state of the Agent process: \<open>apps/agent/src/recovery/attempt-metadata.ts\<close> and the data and
  helper methods of \<open>AgentJobExecutor\<close> (\<open>apps/agent/src/executor/index.ts\<close>).

  The executor's handlers are asynchronous and keep references to an \<open>AttemptRuntime\<close> across their
  awaits, also after the attempt was removed from the \<open>attempts\<close> map or replaced in it. The runtimes
  are therefore objects in a store (\<open>ag_obj\<close>) and \<open>ag_attempts\<close> maps an attempt to the address of
  its current one. Every activation of an asynchronous handler has a number; \<open>ag_acts\<close> holds its
  local variables and the \<open>await\<close> it is suspended at. Consecutive awaits between which nothing of this
  state is read or written are one. A \<open>SpoolSender\<close> and a child process carry the number of the
  activation that created them.

  Writes of \<open>metadata.json\<close> are assumed to succeed; sockets are numbered, and a frame is sent on the
  socket the sender holds if that is open. Texts are UTF-8 bytes.
\<close>

section \<open>Attempt metadata\<close>

datatype meta_status = Meta_accepted | Meta_running | Meta_completed_awaiting_upload | Meta_orphaned | Meta_terminal

record attempt_metadata =
  mt_lease :: lease_ref
  mt_job_id :: string
  mt_process_identity :: "string option"
  mt_status :: meta_status
  mt_workspace_path :: "string option"
  mt_spool_dir :: string
  mt_risk_level :: risk_level
  mt_updated_at :: ts
  mt_last_exit :: "job_exit option"
  mt_lease_deadline :: "ts option"
  mt_artifact_manifest :: "artifact_decl list option"
  mt_artifact_collection :: "nat option"

definition mt_attempt_id :: "attempt_metadata \<Rightarrow> string" where
  "mt_attempt_id m = lr_attempt_id (mt_lease m)"

section \<open>Runtime of an attempt\<close>

record transfer =
  tr_download_url :: string
  tr_data_token :: string
  tr_expected_size_bytes :: int
  tr_expected_sha256 :: string

datatype prepare_source =
    Prepare_source_full transfer
  | Prepare_source_git_overlay overlay_repo transfer

record attempt_runtime =
  rt_attemptId :: string
  rt_jobId :: string
  rt_offer :: "(lease_ref \<times> lease_offer) option"
  rt_prepare :: "prepare_source option"
  rt_prepareReady :: bool
  rt_runInProgress :: bool
  rt_materializedProjectPath :: "string option"
  rt_overlayRepoUrl :: "string option"
  rt_activeProcessKill :: "nat option"
  rt_cancelled :: bool
  rt_pendingArtifactUpload :: "(lease_ref \<times> nat) option"
  rt_pendingBundleDownload :: "nat option"
  rt_activeSpool :: "nat option"
  rt_activeSpoolSender :: "nat option"
  rt_activeSpoolLease :: "lease_ref option"
  rt_spoolWriteChain :: "(nat \<times> log_stream \<times> string) list"
  rt_spoolWritten :: nat
  rt_spoolLimitBreached :: bool
  rt_leaseDeadlineMs :: "ts option"
  rt_leaseTtlSeconds :: int
  rt_leaseRisk :: risk_level
  rt_leaseTimer :: "ts option"
  rt_leaseExpired :: bool

definition createAttemptRuntime :: "string \<Rightarrow> string \<Rightarrow> attempt_runtime" where
  "createAttemptRuntime attemptId jobId =
     \<lparr>rt_attemptId = attemptId, rt_jobId = jobId, rt_offer = None, rt_prepare = None, rt_prepareReady = False,
      rt_runInProgress = False, rt_materializedProjectPath = None, rt_overlayRepoUrl = None, rt_activeProcessKill = None,
      rt_cancelled = False, rt_pendingArtifactUpload = None, rt_pendingBundleDownload = None, rt_activeSpool = None,
      rt_activeSpoolSender = None, rt_activeSpoolLease = None, rt_spoolWriteChain = [], rt_spoolWritten = 0,
      rt_spoolLimitBreached = False, rt_leaseDeadlineMs = None, rt_leaseTtlSeconds = 300, rt_leaseRisk = Normal,
      rt_leaseTimer = None, rt_leaseExpired = False\<rparr>"

definition isDestructiveOrHardware :: "risk_level \<Rightarrow> bool" where
  "isDestructiveOrHardware risk = (risk = Destructive \<or> risk = Hardware)"

section \<open>Activations\<close>

datatype cache_mode = Cache_hit | Cache_miss | Cache_read_disabled | Cache_write_disabled

record acquired_cache =
  aq_cacheKey :: string
  aq_kind :: build_cache_kind
  aq_mode :: cache_mode
  aq_path :: string

text \<open>
  The suspension points, by handler: \<open>Pf\<close> and \<open>Po\<close> prepare a full snapshot and a Git overlay,
  \<open>Pr\<close> runs a job, \<open>Pk\<close> cancels, \<open>Px\<close> ends an expired lease, \<open>Pa\<close> stores an
  acknowledgement, \<open>Pb\<close> abandons attempts, \<open>Pu\<close> resumes an upload, \<open>Pl\<close> reports the attempts
  found on disk and \<open>Pd\<close> applies a reconcile decision.
\<close>

datatype prepare_pc =
    Pf_worktree | Pf_mkdir | Pf_download | Pf_materialize
  | Po_mkdir | Po_ensure | Po_fetch | Po_has | Po_wait_bundle | Po_bundle_granted | Po_bundle_failed string
  | Po_import | Po_create | Po_controlled | Po_overlay | Po_apply | Po_worktree bool

datatype job_pc =
    Pr_setup | Pr_ack | Pr_script | Pr_cwd | Pr_cache "(string \<times> build_cache_kind) list"
  | Pr_env_events "int option" | Pr_late_kill | Pr_completion | Pr_drain completion_result nat
  | Pr_flush_stdout completion_result nat | Pr_flush_stderr completion_result nat
  | Pr_kill completion_result bool | Pr_collect | Pr_grant | Pr_granted | Pr_grant_failed string
  | Pr_cleanup | Pr_finally

datatype recovery_pc =
    Pu_verify attempt_metadata | Pu_grant | Pu_granted | Pu_failed string
  | Pl_list | Pl_kill attempt_metadata "attempt_metadata list" | Pl_resources attempt_metadata "attempt_metadata list"
  | Pl_rm attempt_metadata "attempt_metadata list" | Pl_spool attempt_metadata "attempt_metadata list"
  | Pd_kill "attempt_metadata option" | Pd_resources "attempt_metadata option" | Pd_rm
  | Pd_replay attempt_metadata nat | Pd_open attempt_metadata int

datatype agent_pc =
    In_prepare prepare_pc
  | In_run job_pc
  | In_recovery recovery_pc
  | P_rm_clear
  | Pk_rm "string option"
  | Px_kill
  | Pa_write nat int
  | Pb_kill string "string list"
  | P_done
  | P_rejected string

record activation =
  act_obj :: nat
  act_lease :: lease_ref
  act_pc :: agent_pc
  act_prepare :: "prepare_source option"
  act_fetchFailed :: bool
  act_worktreeCreated :: bool
  act_spool :: attempt_spool
  act_stdoutRedactor :: redactor
  act_stderrRedactor :: redactor
  act_attached :: bool
  act_caches :: "acquired_cache list"
  act_exit :: "job_exit option"

definition new_activation :: "nat \<Rightarrow> lease_ref \<Rightarrow> agent_pc \<Rightarrow> activation" where
  "new_activation addr p pc =
     \<lparr>act_obj = addr, act_lease = p, act_pc = pc, act_prepare = None, act_fetchFailed = False, act_worktreeCreated = False,
      act_spool = \<lparr>sp_nextSequence = 1, sp_stdoutOffset = 0, sp_stderrOffset = 0\<rparr>,
      act_stdoutRedactor = new_redactor [], act_stderrRedactor = new_redactor [], act_attached = False,
      act_caches = [], act_exit = None\<rparr>"

text \<open>The payload tuple of an activation that serves no message.\<close>

definition no_lease :: lease_ref where
  "no_lease = \<lparr>lr_attempt_id = [], lr_lease_id = [], lr_lease_epoch = 0\<rparr>"

section \<open>The Agent\<close>

record live_sender =
  ls_sender :: spool_sender
  ls_lease :: lease_ref
  ls_dir :: string
  ls_recovery :: bool

datatype agent_frame = Job_frame job_message | Recovery_frame recovery_report

record agent_state =
  ag_socket :: nat
  ag_open :: "nat list"
  ag_recSocket :: "nat option"
  ag_rejected :: "string list"
  ag_liveSenders :: "(string \<times> nat) list"
  ag_senders :: "nat \<Rightarrow> live_sender option"
  ag_attempts :: "(string \<times> nat) list"
  ag_obj :: "nat \<Rightarrow> attempt_runtime"
  ag_next :: nat
  ag_meta :: "string \<Rightarrow> attempt_metadata option"
  ag_removals :: "string list"
  ag_spools :: "string \<Rightarrow> spool_disk"
  ag_acts :: "nat \<Rightarrow> activation option"
  ag_sent :: "(nat \<times> lease_ref \<times> agent_frame) list"
  ag_spawned :: "nat list"
  ag_kills :: "nat list"
  ag_cacheHeld :: "(nat \<times> string) list"
  ag_published :: "(lease_ref \<times> string \<times> job_outcome) list"

record agent_config =
  gc_stateDir :: string
  gc_secretMap :: "(string \<times> string) list option"
  gc_toolchainProfiles :: "toolchain_profile list option"
  gc_maxJobs :: "int option"
  gc_logSpoolMaxBytes :: "int option"
  gc_logSendQueueMax :: "nat option"
  gc_diskMinFreeBytes :: "int option"
  gc_hasDiskProbe :: bool

text \<open>What a segment reads from outside: the clock, the number of an activation it starts, the host, and
  the result of spawning the script.\<close>

record agent_world =
  wd_now :: ts
  wd_act :: nat
  wd_freeBytes :: "int option"
  wd_exists :: "string \<Rightarrow> bool"
  wd_getenv :: "string \<Rightarrow> string option"
  wd_identity :: "int \<Rightarrow> string option"
  wd_spawn :: "string + int option \<times> string list"
  wd_staged :: "string \<Rightarrow> (string \<times> int) option"
  wd_cacheTargets :: "(string \<times> build_cache_kind) list"

text \<open>The outcome of the awaited call.\<close>

datatype agent_awaited =
    Aok
  | Aerr string
  | Apath string
  | Abool bool
  | Acache cache_mode string
  | Acompletion completion_result
  | Acollected "artifact_decl list" nat
  | Acleanup "int option" bool
  | Anames "string list"

definition show_int :: "int \<Rightarrow> string" where
  "show_int n = (if n < 0 then ''-'' @ show_nat (nat (- n)) else show_nat (nat n))"

definition quoted :: "string \<Rightarrow> string" where
  "quoted x = [CHR 0x27] @ x @ [CHR 0x27]"

definition maxJobs :: "agent_config \<Rightarrow> int" where
  "maxJobs cfg = (case gc_maxJobs cfg of Some n \<Rightarrow> n | None \<Rightarrow> 1)"

definition DEFAULT_LOG_SPOOL_MAX_BYTES :: int where
  "DEFAULT_LOG_SPOOL_MAX_BYTES = 536870912"

definition DEFAULT_LOG_SEND_QUEUE_MAX :: nat where
  "DEFAULT_LOG_SEND_QUEUE_MAX = 64"

definition set_obj :: "nat \<Rightarrow> (attempt_runtime \<Rightarrow> attempt_runtime) \<Rightarrow> 'z agent_state_scheme \<Rightarrow> 'z agent_state_scheme" where
  "set_obj addr f s = s\<lparr>ag_obj := (ag_obj s)(addr := f (ag_obj s addr))\<rparr>"

definition set_act :: "nat \<Rightarrow> (activation \<Rightarrow> activation) \<Rightarrow> 'z agent_state_scheme \<Rightarrow> 'z agent_state_scheme" where
  "set_act r f s = s\<lparr>ag_acts := (ag_acts s)(r := map_option f (ag_acts s r))\<rparr>"

definition jump :: "nat \<Rightarrow> agent_pc \<Rightarrow> 'z agent_state_scheme \<Rightarrow> 'z agent_state_scheme" where
  "jump r pc = set_act r (\<lambda>a. a\<lparr>act_pc := pc\<rparr>)"

definition start_act :: "nat \<Rightarrow> activation \<Rightarrow> 'z agent_state_scheme \<Rightarrow> 'z agent_state_scheme" where
  "start_act r a s = s\<lparr>ag_acts := (ag_acts s)(r \<mapsto> a)\<rparr>"

definition current :: "string \<Rightarrow> 'z agent_state_scheme \<Rightarrow> nat option" where
  "current attemptId s = map_of (ag_attempts s) attemptId"

section \<open>Metadata on disk\<close>

definition attemptMetadataDir :: "string \<Rightarrow> string \<Rightarrow> string" where
  "attemptMetadataDir stateDir attemptId = stateDir @ ''/attempts/'' @ attemptId"

definition writeAttemptMetadata :: "attempt_metadata \<Rightarrow> 'z agent_state_scheme \<Rightarrow> 'z agent_state_scheme" where
  "writeAttemptMetadata m s = s\<lparr>ag_meta := (ag_meta s)(mt_attempt_id m \<mapsto> m)\<rparr>"

definition readAttemptMetadata :: "string \<Rightarrow> 'z agent_state_scheme \<Rightarrow> attempt_metadata option" where
  "readAttemptMetadata attemptId s = ag_meta s attemptId"

definition listAttemptMetadata :: "string list \<Rightarrow> 'z agent_state_scheme \<Rightarrow> attempt_metadata list" where
  "listAttemptMetadata names s = List.map_filter (\<lambda>n. readAttemptMetadata n s) names"

definition removeAttemptMetadata :: "string \<Rightarrow> 'z agent_state_scheme \<Rightarrow> 'z agent_state_scheme" where
  "removeAttemptMetadata attemptId s = s\<lparr>ag_meta := (ag_meta s)(attemptId := None)\<rparr>"

text \<open>The removal that nothing waits for: it is pending until \<open>finish_removal\<close>.\<close>

definition start_removal :: "string \<Rightarrow> 'z agent_state_scheme \<Rightarrow> 'z agent_state_scheme" where
  "start_removal attemptId s = s\<lparr>ag_removals := ag_removals s @ [attemptId]\<rparr>"

definition finish_removal :: "string \<Rightarrow> 'z agent_state_scheme \<Rightarrow> 'z agent_state_scheme" where
  "finish_removal attemptId s =
     (if attemptId \<in> set (ag_removals s)
      then removeAttemptMetadata attemptId (s\<lparr>ag_removals := remove1 attemptId (ag_removals s)\<rparr>) else s)"

section \<open>Frames and senders\<close>

definition sendFrame :: "lease_ref \<Rightarrow> job_message \<Rightarrow> 'z agent_state_scheme \<Rightarrow> 'z agent_state_scheme" where
  "sendFrame p m s =
     (if ag_socket s \<in> set (ag_open s) then s\<lparr>ag_sent := ag_sent s @ [(ag_socket s, p, Job_frame m)]\<rparr> else s)"

definition recovery_open :: "'z agent_state_scheme \<Rightarrow> bool" where
  "recovery_open s = (case ag_recSocket s of None \<Rightarrow> False | Some k \<Rightarrow> k \<in> set (ag_open s))"

definition sendJobScoped :: "lease_ref \<Rightarrow> agent_frame \<Rightarrow> 'z agent_state_scheme \<Rightarrow> 'z agent_state_scheme" where
  "sendJobScoped p fr s =
     (case ag_recSocket s of
        None \<Rightarrow> s
      | Some k \<Rightarrow> if k \<in> set (ag_open s) then s\<lparr>ag_sent := ag_sent s @ [(k, p, fr)]\<rparr> else s)"

definition sender_open :: "live_sender \<Rightarrow> 'z agent_state_scheme \<Rightarrow> bool" where
  "sender_open ls s = (if ls_recovery ls then recovery_open s else ag_socket s \<in> set (ag_open s))"

definition send_chunk :: "live_sender \<Rightarrow> spool_chunk \<Rightarrow> 'z agent_state_scheme \<Rightarrow> 'z agent_state_scheme" where
  "send_chunk ls c s =
     (case c of (sequence, st, bytes) \<Rightarrow>
        if ls_recovery ls then sendJobScoped (ls_lease ls) (Job_frame (M_log_chunk st sequence bytes)) s
        else sendFrame (ls_lease ls) (M_log_chunk st sequence bytes) s)"

text \<open>An operation of a sender with the frames it sends through its \<open>send\<close> option.\<close>

definition run_sender ::
  "nat \<Rightarrow> (bool \<Rightarrow> spool_disk \<Rightarrow> spool_sender \<Rightarrow> spool_sender \<times> spool_chunk list) \<Rightarrow> 'z agent_state_scheme \<Rightarrow> 'z agent_state_scheme" where
  "run_sender q f s =
     (case ag_senders s q of
        None \<Rightarrow> s
      | Some ls \<Rightarrow>
          (let (ss, sent) = f (sender_open ls s) (ag_spools s (ls_dir ls)) (ls_sender ls)
           in fold (send_chunk ls) sent (s\<lparr>ag_senders := (ag_senders s)(q \<mapsto> ls\<lparr>ls_sender := ss\<rparr>)\<rparr>)))"

definition isUnderSpoolPressure :: "'z agent_state_scheme \<Rightarrow> bool" where
  "isUnderSpoolPressure s =
     list_ex (\<lambda>(_, addr). case rt_activeSpoolSender (ag_obj s addr) of
                None \<Rightarrow> False
              | Some q \<Rightarrow> (case ag_senders s q of None \<Rightarrow> False | Some ls \<Rightarrow> isUnderPressure (ls_sender ls))) (ag_attempts s)"

definition isBusy :: "'z agent_state_scheme \<Rightarrow> bool" where
  "isBusy s = (ag_attempts s \<noteq> [])"

definition getActiveJobs :: "'z agent_state_scheme \<Rightarrow> (string \<times> string) list" where
  "getActiveJobs s = map (\<lambda>(_, addr). (rt_attemptId (ag_obj s addr), rt_jobId (ag_obj s addr))) (ag_attempts s)"

section \<open>Settling promises\<close>

definition settle_bundle :: "nat \<Rightarrow> agent_pc \<Rightarrow> 'z agent_state_scheme \<Rightarrow> 'z agent_state_scheme" where
  "settle_bundle r pc = set_act r (\<lambda>a. if act_pc a = In_prepare Po_wait_bundle then a\<lparr>act_pc := pc\<rparr> else a)"

definition grant_upload :: "nat \<Rightarrow> 'z agent_state_scheme \<Rightarrow> 'z agent_state_scheme" where
  "grant_upload r = set_act r (\<lambda>a. case act_pc a of
     In_run Pr_grant \<Rightarrow> a\<lparr>act_pc := In_run Pr_granted\<rparr> | In_recovery Pu_grant \<Rightarrow> a\<lparr>act_pc := In_recovery Pu_granted\<rparr> | _ \<Rightarrow> a)"

definition reject_upload :: "nat \<Rightarrow> string \<Rightarrow> 'z agent_state_scheme \<Rightarrow> 'z agent_state_scheme" where
  "reject_upload r msg = set_act r (\<lambda>a. case act_pc a of
     In_run Pr_grant \<Rightarrow> a\<lparr>act_pc := In_run (Pr_grant_failed msg)\<rparr>
   | In_recovery Pu_grant \<Rightarrow> a\<lparr>act_pc := In_recovery (Pu_failed msg)\<rparr> | _ \<Rightarrow> a)"

definition kill_child :: "nat \<Rightarrow> 'z agent_state_scheme \<Rightarrow> 'z agent_state_scheme" where
  "kill_child r s = s\<lparr>ag_kills := ag_kills s @ [r]\<rparr>"

section \<open>The registry of attempts\<close>

definition matchesReservedLease :: "lease_ref \<Rightarrow> 'z agent_state_scheme \<Rightarrow> nat option" where
  "matchesReservedLease p s =
     (case current (lr_attempt_id p) s of
        None \<Rightarrow> None
      | Some addr \<Rightarrow>
          (case rt_offer (ag_obj s addr) of
             None \<Rightarrow> None
           | Some (q, _) \<Rightarrow> if q = p then Some addr else None))"

definition clearLeaseTimer :: "nat \<Rightarrow> 'z agent_state_scheme \<Rightarrow> 'z agent_state_scheme" where
  "clearLeaseTimer addr = set_obj addr (\<lambda>t. t\<lparr>rt_leaseTimer := None\<rparr>)"

definition reject_pending_upload :: "nat \<Rightarrow> string \<Rightarrow> 'z agent_state_scheme \<Rightarrow> 'z agent_state_scheme" where
  "reject_pending_upload addr msg s =
     (case rt_pendingArtifactUpload (ag_obj s addr) of
        None \<Rightarrow> s
      | Some (_, r) \<Rightarrow> reject_upload r msg (set_obj addr (\<lambda>t. t\<lparr>rt_pendingArtifactUpload := None\<rparr>) s))"

definition reject_pending_bundle :: "nat \<Rightarrow> string \<Rightarrow> 'z agent_state_scheme \<Rightarrow> 'z agent_state_scheme" where
  "reject_pending_bundle addr msg s =
     (case rt_pendingBundleDownload (ag_obj s addr) of
        None \<Rightarrow> s
      | Some r \<Rightarrow> settle_bundle r (In_prepare (Po_bundle_failed msg)) (set_obj addr (\<lambda>t. t\<lparr>rt_pendingBundleDownload := None\<rparr>) s))"

definition clearLiveSender :: "string \<Rightarrow> 'z agent_state_scheme \<Rightarrow> 'z agent_state_scheme" where
  "clearLiveSender attemptId s = s\<lparr>ag_liveSenders := map_delete attemptId (ag_liveSenders s)\<rparr>"

definition clearAttempt :: "string \<Rightarrow> 'z agent_state_scheme \<Rightarrow> 'z agent_state_scheme" where
  "clearAttempt attemptId s =
     (case current attemptId s of
        None \<Rightarrow> s
      | Some addr \<Rightarrow>
          (let s1 = clearLiveSender attemptId s;
               s2 = clearLeaseTimer addr s1;
               s3 = reject_pending_upload addr ''attempt cleared'' s2;
               s4 = reject_pending_bundle addr ''attempt cleared'' s3
           in s4\<lparr>ag_attempts := map_delete attemptId (ag_attempts s4)\<rparr>))"

section \<open>Lease deadline\<close>

text \<open>The timer is the instant it is due; the callback runs at or after it.\<close>

definition scheduleLeaseTimer :: "ts \<Rightarrow> nat \<Rightarrow> 'z agent_state_scheme \<Rightarrow> 'z agent_state_scheme" where
  "scheduleLeaseTimer now addr s =
     (let s1 = clearLeaseTimer addr s in
      case rt_leaseDeadlineMs (ag_obj s1 addr) of
        None \<Rightarrow> s1
      | Some d \<Rightarrow> set_obj addr (\<lambda>t. t\<lparr>rt_leaseTimer := Some (now + max 0 (d - now))\<rparr>) s1)"

definition armLeaseDeadline :: "ts \<Rightarrow> nat \<Rightarrow> lease_offer \<Rightarrow> 'z agent_state_scheme \<Rightarrow> 'z agent_state_scheme" where
  "armLeaseDeadline now addr offer s =
     scheduleLeaseTimer now addr
       (set_obj addr (\<lambda>t. t\<lparr>rt_leaseTtlSeconds := lo_lease_ttl_seconds offer,
          rt_leaseRisk := (case rqst_risk_level (lo_job_request offer) of Some r \<Rightarrow> r | None \<Rightarrow> Normal),
          rt_leaseDeadlineMs := Some (now + lo_lease_ttl_seconds offer * 1000), rt_leaseExpired := False\<rparr>) s)"

definition renew_attempt :: "ts \<Rightarrow> int option \<Rightarrow> nat \<Rightarrow> 'z agent_state_scheme \<Rightarrow> 'z agent_state_scheme" where
  "renew_attempt now ttlSeconds addr s =
     (let t = ag_obj s addr in
      if rt_leaseDeadlineMs t = None \<or> rt_leaseExpired t then s
      else
        (let deadline = now + (case ttlSeconds of Some n \<Rightarrow> n | None \<Rightarrow> rt_leaseTtlSeconds t) * 1000;
             s1 = scheduleLeaseTimer now addr (set_obj addr (\<lambda>t. t\<lparr>rt_leaseDeadlineMs := Some deadline\<rparr>) s)
         in case readAttemptMetadata (rt_attemptId t) s1 of
              None \<Rightarrow> s1
            | Some m \<Rightarrow> writeAttemptMetadata (m\<lparr>mt_lease_deadline := Some deadline, mt_updated_at := now\<rparr>) s1))"

definition renewLeaseDeadline :: "ts \<Rightarrow> int option \<Rightarrow> 'z agent_state_scheme \<Rightarrow> 'z agent_state_scheme" where
  "renewLeaseDeadline now ttlSeconds s = fold (renew_attempt now ttlSeconds) (map snd (ag_attempts s)) s"

definition lease_expired_exit :: job_exit where
  "lease_expired_exit =
     \<lparr>jx_exit_code = None, jx_outcome = Failed, jx_failure_category = Some Lease_expired,
      jx_failure_message = Some (''Lease expired '' @ [CHR 0xE2, CHR 0x80, CHR 0x94] @ '' Agent self-terminated destructive/hardware job'')\<rparr>"

definition or_else :: "'a option \<Rightarrow> 'a \<Rightarrow> 'a" where
  "or_else x d = (case x of Some y \<Rightarrow> y | None \<Rightarrow> d)"

definition workspaceDir :: "agent_config \<Rightarrow> string \<Rightarrow> string" where
  "workspaceDir cfg attemptId = gc_stateDir cfg @ ''/workspaces/'' @ attemptId"

definition logsDir :: "agent_config \<Rightarrow> string \<Rightarrow> string" where
  "logsDir cfg attemptId = gc_stateDir cfg @ ''/logs/'' @ attemptId"

text \<open>The end of \<open>onLeaseExpired\<close>, after the kill: the metadata record of the expired attempt.\<close>

definition write_expired :: "agent_config \<Rightarrow> ts \<Rightarrow> nat \<Rightarrow> 'z agent_state_scheme \<Rightarrow> 'z agent_state_scheme" where
  "write_expired cfg now addr s =
     (let t = ag_obj s addr in
      case rt_offer t of
        None \<Rightarrow> s
      | Some (p, offer) \<Rightarrow>
          (let existing = readAttemptMetadata (rt_attemptId t) s in
           writeAttemptMetadata
             \<lparr>mt_lease = p, mt_job_id = lo_job_id offer,
              mt_process_identity = Option.bind existing mt_process_identity, mt_status = Meta_terminal,
              mt_workspace_path = Some (or_else (Option.bind existing mt_workspace_path) (workspaceDir cfg (rt_attemptId t))),
              mt_spool_dir = or_else (map_option mt_spool_dir existing) (logsDir cfg (rt_attemptId t)),
              mt_risk_level = rt_leaseRisk t, mt_updated_at = now, mt_last_exit = Some lease_expired_exit,
              mt_lease_deadline = rt_leaseDeadlineMs t,
              mt_artifact_manifest = Option.bind existing mt_artifact_manifest, mt_artifact_collection = None\<rparr> s))"

definition onLeaseExpired :: "agent_config \<Rightarrow> ts \<Rightarrow> nat \<Rightarrow> string \<Rightarrow> 'z agent_state_scheme \<Rightarrow> 'z agent_state_scheme" where
  "onLeaseExpired cfg now r attemptId s =
     (case current attemptId s of
        None \<Rightarrow> s
      | Some addr \<Rightarrow>
          (let t = ag_obj s addr in
           case rt_leaseDeadlineMs t of
             None \<Rightarrow> s
           | Some d \<Rightarrow>
               if rt_leaseExpired t then s
               else if now < d then scheduleLeaseTimer now addr s
               else if \<not> isDestructiveOrHardware (rt_leaseRisk t) then s
               else
                 (let s1 = set_obj addr (\<lambda>t. t\<lparr>rt_leaseExpired := True, rt_cancelled := True\<rparr>) s in
                  case rt_activeProcessKill t of
                    None \<Rightarrow> write_expired cfg now addr s1
                  | Some child \<Rightarrow>
                      kill_child child
                        (start_act r (new_activation addr no_lease Px_kill) s1))))"

section \<open>Terminal reports\<close>

definition persistTerminalMetadata :: "ts \<Rightarrow> string \<Rightarrow> job_exit \<Rightarrow> 'z agent_state_scheme \<Rightarrow> 'z agent_state_scheme" where
  "persistTerminalMetadata now attemptId lastExit s =
     (case readAttemptMetadata attemptId s of
        None \<Rightarrow> s
      | Some m \<Rightarrow>
          start_removal attemptId
            (writeAttemptMetadata (m\<lparr>mt_status := Meta_terminal, mt_last_exit := Some lastExit, mt_updated_at := now\<rparr>) s))"

definition sendCancelledTerminal :: "ts \<Rightarrow> lease_ref \<Rightarrow> string \<Rightarrow> 'z agent_state_scheme \<Rightarrow> 'z agent_state_scheme" where
  "sendCancelledTerminal now p message s =
     (let exit = \<lparr>jx_exit_code = None, jx_outcome = Cancelled, jx_failure_category = Some Cancelled_category,
                  jx_failure_message = Some message\<rparr> in
      sendFrame p (M_cleanup_complete \<lparr>cr_exit_code = None, cr_timed_out = False, cr_message = Some message\<rparr>)
        (sendFrame p (M_job_exit exit) (persistTerminalMetadata now (lr_attempt_id p) exit s)))"

definition failTerminal :: "ts \<Rightarrow> lease_ref \<Rightarrow> error_category \<Rightarrow> string \<Rightarrow> 'z agent_state_scheme \<Rightarrow> 'z agent_state_scheme" where
  "failTerminal now p failureCategory failureMessage s =
     (let exit = \<lparr>jx_exit_code = Some 1, jx_outcome = Failed, jx_failure_category = Some failureCategory,
                  jx_failure_message = Some failureMessage\<rparr> in
      sendFrame p (M_cleanup_complete \<lparr>cr_exit_code = Some 1, cr_timed_out = False, cr_message = Some failureMessage\<rparr>)
        (sendFrame p (M_job_exit exit) (persistTerminalMetadata now (lr_attempt_id p) exit s)))"

text \<open>A condition \<open>x ? {k: x} : {}\<close> drops the empty string.\<close>

definition truthy :: "string option \<Rightarrow> string option" where
  "truthy x = (if x = Some [] then None else x)"

definition persistCompletedAwaitingUpload ::
  "agent_config \<Rightarrow> ts \<Rightarrow> nat \<Rightarrow> lease_offer \<Rightarrow> lease_ref \<Rightarrow> job_exit \<Rightarrow> artifact_decl list option \<Rightarrow> nat option
     \<Rightarrow> 'z agent_state_scheme \<Rightarrow> 'z agent_state_scheme" where
  "persistCompletedAwaitingUpload cfg now addr offer run exit manifest collection s =
     (let existing = readAttemptMetadata (lr_attempt_id run) s;
          deadline = rt_leaseDeadlineMs (ag_obj s addr) in
      writeAttemptMetadata
        \<lparr>mt_lease = run, mt_job_id = lo_job_id offer, mt_process_identity = Option.bind existing mt_process_identity,
         mt_status = Meta_completed_awaiting_upload,
         mt_workspace_path = Some (or_else (Option.bind existing mt_workspace_path) (workspaceDir cfg (lr_attempt_id run))),
         mt_spool_dir = or_else (map_option mt_spool_dir existing) (logsDir cfg (lr_attempt_id run)),
         mt_risk_level = (case rqst_risk_level (lo_job_request offer) of
                            Some r \<Rightarrow> r | None \<Rightarrow> or_else (map_option mt_risk_level existing) Normal),
         mt_updated_at = now,
         mt_last_exit = Some (exit\<lparr>jx_failure_message := truthy (jx_failure_message exit)\<rparr>),
         mt_lease_deadline = (if deadline \<noteq> None \<and> deadline \<noteq> Some 0 then deadline else Option.bind existing mt_lease_deadline),
         mt_artifact_manifest = (if manifest \<noteq> None then manifest else Option.bind existing mt_artifact_manifest),
         mt_artifact_collection = (if collection \<noteq> None then collection else Option.bind existing mt_artifact_collection)\<rparr> s)"

section \<open>Offers\<close>

definition isAcceptingJobsUnderDiskPressure :: "int \<Rightarrow> int \<Rightarrow> bool \<Rightarrow> bool" where
  "isAcceptingJobsUnderDiskPressure freeBytes minFreeBytes spoolPressure = (\<not> spoolPressure \<and> freeBytes \<ge> minFreeBytes)"

text \<open>The reason of the first refusal that applies.\<close>

definition offer_refusal :: "agent_config \<Rightarrow> agent_world \<Rightarrow> 'z agent_state_scheme \<Rightarrow> string option" where
  "offer_refusal cfg w s =
     (if int (length (ag_attempts s)) \<ge> maxJobs cfg then Some (''Agent capacity limit reached ('' @ show_int (maxJobs cfg) @ '' active job max)'')
      else case (gc_diskMinFreeBytes cfg, gc_hasDiskProbe cfg, wd_freeBytes w) of
             (Some minFree, True, Some free) \<Rightarrow>
               if \<not> isAcceptingJobsUnderDiskPressure free minFree (isUnderSpoolPressure s)
               then Some (if isUnderSpoolPressure s then ''Agent refusing leases under log spool pressure''
                          else ''Agent refusing leases under disk pressure'')
               else None
           | _ \<Rightarrow> None)"

definition handleLeaseOffer ::
  "agent_config \<Rightarrow> agent_world \<Rightarrow> lease_ref \<Rightarrow> lease_offer \<Rightarrow> 'z agent_state_scheme \<Rightarrow> 'z agent_state_scheme" where
  "handleLeaseOffer cfg w p offer s =
     (if lr_attempt_id p \<in> set (ag_rejected s) then s
      else case offer_refusal cfg w s of
             Some reason \<Rightarrow> sendFrame p (M_lease_reject reason) s
           | None \<Rightarrow>
               (let now = wd_now w; addr = ag_next s;
                    s1 = s\<lparr>ag_obj := (ag_obj s)(addr := (createAttemptRuntime (lr_attempt_id p) (lo_job_id offer))\<lparr>rt_offer := Some (p, offer)\<rparr>),
                           ag_next := addr + 1,
                           ag_attempts := map_set (lr_attempt_id p) addr (ag_attempts s)\<rparr>;
                    s2 = armLeaseDeadline now addr offer s1;
                    s3 = writeAttemptMetadata
                           \<lparr>mt_lease = p, mt_job_id = lo_job_id offer, mt_process_identity = None, mt_status = Meta_accepted,
                            mt_workspace_path = Some (workspaceDir cfg (lr_attempt_id p)), mt_spool_dir = logsDir cfg (lr_attempt_id p),
                            mt_risk_level = rt_leaseRisk (ag_obj s2 addr), mt_updated_at = now, mt_last_exit = None,
                            mt_lease_deadline = rt_leaseDeadlineMs (ag_obj s2 addr), mt_artifact_manifest = None,
                            mt_artifact_collection = None\<rparr> s2
                in sendFrame p M_lease_accept s3))"

end
