(* ===== verification/Agent_Executor.thy ===== *)
theory Agent_Executor
  imports Agent_State
begin

text \<open>
  The asynchronous handlers of \<open>AgentJobExecutor\<close> (\<open>apps/agent/src/executor/index.ts\<close>): preparing
  the source, running the job, cancelling, acknowledgements, grants and abandoning. A handler starts an
  activation; \<open>prepare_step\<close>, \<open>run_step\<close> and \<open>misc_step\<close> resume it with the outcome of the call
  it awaits and run it to its next \<open>await\<close>. An outcome that the awaited call cannot have leaves the
  state as it is. Error texts are those of \<open>String(error)\<close>.
\<close>

section \<open>Preparing the source\<close>

definition is_cancelled :: "nat \<Rightarrow> 'z agent_state_scheme \<Rightarrow> bool" where
  "is_cancelled addr s = rt_cancelled (ag_obj s addr)"

definition prepare_cancelled_message :: string where
  "prepare_cancelled_message = ''Job cancelled during prepare_source''"

definition source_is_ready :: "nat \<Rightarrow> activation \<Rightarrow> 'z agent_state_scheme \<Rightarrow> 'z agent_state_scheme" where
  "source_is_ready r a s =
     jump r P_done (sendFrame (act_lease a) M_source_ready (set_obj (act_obj a) (\<lambda>t. t\<lparr>rt_prepareReady := True\<rparr>) s))"

definition prepare_terminal ::
  "ts \<Rightarrow> activation \<Rightarrow> error_category \<Rightarrow> string \<Rightarrow> 'z agent_state_scheme \<Rightarrow> 'z agent_state_scheme" where
  "prepare_terminal now a category msg s =
     (if is_cancelled (act_obj a) s \<or> sublist ''cancelled'' msg
      then sendCancelledTerminal now (act_lease a) prepare_cancelled_message s
      else failTerminal now (act_lease a) category msg s)"

text \<open>The \<open>catch\<close> block of \<open>handlePrepareSource\<close>.\<close>

definition catch_full :: "ts \<Rightarrow> nat \<Rightarrow> activation \<Rightarrow> string \<Rightarrow> 'z agent_state_scheme \<Rightarrow> 'z agent_state_scheme" where
  "catch_full now r a msg s =
     (if matchesReservedLease (act_lease a) s = None then jump r P_done s
      else jump r P_rm_clear (prepare_terminal now a Materialization msg s))"

definition handlePrepareSource :: "nat \<Rightarrow> lease_ref \<Rightarrow> prepare_source \<Rightarrow> 'z agent_state_scheme \<Rightarrow> 'z agent_state_scheme" where
  "handlePrepareSource r p prep s =
     (case matchesReservedLease p s of
        None \<Rightarrow> s
      | Some addr \<Rightarrow>
          (let s1 = set_obj addr (\<lambda>t. t\<lparr>rt_prepare := Some prep, rt_prepareReady := False\<rparr>) s;
               start = (\<lambda>pc. start_act r ((new_activation addr p (In_prepare pc))\<lparr>act_prepare := Some prep\<rparr>)) in
           case prep of
             Prepare_source_git_overlay _ _ \<Rightarrow> start Po_mkdir s1
           | Prepare_source_full _ \<Rightarrow>
               if rt_overlayRepoUrl (ag_obj s1 addr) \<noteq> None \<and> rt_materializedProjectPath (ag_obj s1 addr) \<noteq> None
               then start Pf_worktree s1
               else start Pf_mkdir (set_obj addr (\<lambda>t. t\<lparr>rt_overlayRepoUrl := None\<rparr>) s1)))"

definition full_mkdir_done :: "ts \<Rightarrow> nat \<Rightarrow> activation \<Rightarrow> 'z agent_state_scheme \<Rightarrow> 'z agent_state_scheme" where
  "full_mkdir_done now r a s =
     (case act_prepare a of
        Some (Prepare_source_full d) \<Rightarrow>
          if tr_expected_size_bytes d \<le> 0 \<or> tr_expected_sha256 d = []
          then catch_full now r a ''Error: prepare_source missing expected size or sha256'' s
          else if is_cancelled (act_obj a) s then catch_full now r a ''Error: cancelled'' s
          else jump r (In_prepare Pf_download) s
      | _ \<Rightarrow> s)"

definition full_materialized :: "ts \<Rightarrow> nat \<Rightarrow> activation \<Rightarrow> string \<Rightarrow> 'z agent_state_scheme \<Rightarrow> 'z agent_state_scheme" where
  "full_materialized now r a projectPath s =
     (let s1 = set_obj (act_obj a) (\<lambda>t. t\<lparr>rt_materializedProjectPath := Some projectPath\<rparr>) s in
      if is_cancelled (act_obj a) s1
      then jump r P_rm_clear (sendCancelledTerminal now (act_lease a) prepare_cancelled_message s1)
      else source_is_ready r a s1)"

text \<open>Git overlay: mirror, commit, bundle, worktree, overlay.\<close>

definition overlay_repo_of :: "activation \<Rightarrow> overlay_repo option" where
  "overlay_repo_of a = (case act_prepare a of Some (Prepare_source_git_overlay repo _) \<Rightarrow> Some repo | _ \<Rightarrow> None)"

definition cleanupOverlayAttempt :: "nat \<Rightarrow> activation \<Rightarrow> bool \<Rightarrow> 'z agent_state_scheme \<Rightarrow> 'z agent_state_scheme" where
  "cleanupOverlayAttempt r a clear s =
     (if act_worktreeCreated a then jump r (In_prepare (Po_worktree clear)) s
      else jump r (if clear then P_rm_clear else P_done) (set_obj (act_obj a) (\<lambda>t. t\<lparr>rt_overlayRepoUrl := None\<rparr>) s))"

definition catch_overlay :: "ts \<Rightarrow> nat \<Rightarrow> activation \<Rightarrow> string \<Rightarrow> 'z agent_state_scheme \<Rightarrow> 'z agent_state_scheme" where
  "catch_overlay now r a msg s =
     (if matchesReservedLease (act_lease a) s = None then cleanupOverlayAttempt r a False s
      else cleanupOverlayAttempt r a True
             (prepare_terminal now a (if sublist ''fetch'' msg then Repo_fetch else Materialization) msg s))"

definition escalate_source :: "nat \<Rightarrow> activation \<Rightarrow> 'z agent_state_scheme \<Rightarrow> 'z agent_state_scheme" where
  "escalate_source r a s =
     jump r P_done (sendFrame (act_lease a)
       (M_source_need (if act_fetchFailed a then Repo_fetch_failed else Full_snapshot_required)) s)"

text \<open>\<open>source_need\<close> and \<open>waitForBundleDownload\<close>.\<close>

definition waitForBundleDownload :: "nat \<Rightarrow> activation \<Rightarrow> 'z agent_state_scheme \<Rightarrow> 'z agent_state_scheme" where
  "waitForBundleDownload r a s =
     (if rt_pendingBundleDownload (ag_obj s (act_obj a)) \<noteq> None
      then jump r (In_prepare (Po_bundle_failed ''bundle download already pending'')) s
      else jump r (In_prepare Po_wait_bundle) (set_obj (act_obj a) (\<lambda>t. t\<lparr>rt_pendingBundleDownload := Some r\<rparr>) s))"

definition need_bundle :: "nat \<Rightarrow> activation \<Rightarrow> 'z agent_state_scheme \<Rightarrow> 'z agent_state_scheme" where
  "need_bundle r a s = waitForBundleDownload r a (sendFrame (act_lease a) (M_source_need Base_commit_missing_reason) s)"

definition unless_cancelled ::
  "ts \<Rightarrow> nat \<Rightarrow> activation \<Rightarrow> prepare_pc \<Rightarrow> 'z agent_state_scheme \<Rightarrow> 'z agent_state_scheme" where
  "unless_cancelled now r a pc s =
     (if is_cancelled (act_obj a) s then catch_overlay now r a ''Error: cancelled'' s else jump r (In_prepare pc) s)"

definition worktree_created :: "agent_config \<Rightarrow> nat \<Rightarrow> activation \<Rightarrow> 'z agent_state_scheme \<Rightarrow> 'z agent_state_scheme" where
  "worktree_created cfg r a s =
     (let s1 = set_act r (\<lambda>a. a\<lparr>act_worktreeCreated := True\<rparr>) s;
          s2 = set_obj (act_obj a) (\<lambda>t. t\<lparr>rt_overlayRepoUrl := map_option or_url (overlay_repo_of a),
                 rt_materializedProjectPath := Some (workspaceDir cfg (lr_attempt_id (act_lease a)) @ ''/project'')\<rparr>) s1
      in jump r (In_prepare Po_controlled) s2)"

definition overlay_applied :: "ts \<Rightarrow> nat \<Rightarrow> activation \<Rightarrow> 'z agent_state_scheme \<Rightarrow> 'z agent_state_scheme" where
  "overlay_applied now r a s =
     (if is_cancelled (act_obj a) s
      then cleanupOverlayAttempt r a True (sendCancelledTerminal now (act_lease a) prepare_cancelled_message s)
      else source_is_ready r a s)"

definition bundle_failed :: "ts \<Rightarrow> nat \<Rightarrow> activation \<Rightarrow> string \<Rightarrow> 'z agent_state_scheme \<Rightarrow> 'z agent_state_scheme" where
  "bundle_failed now r a msg s =
     (if is_cancelled (act_obj a) s \<or> sublist ''cancelled'' msg then catch_overlay now r a ''Error: cancelled'' s
      else escalate_source r a s)"

definition fetch_failed :: "nat \<Rightarrow> 'z agent_state_scheme \<Rightarrow> 'z agent_state_scheme" where
  "fetch_failed r = set_act r (\<lambda>a. a\<lparr>act_fetchFailed := True\<rparr>)"

text \<open>The resumption of a prepare activation, by suspension point and outcome.\<close>

definition prepare_step ::
  "agent_config \<Rightarrow> ts \<Rightarrow> nat \<Rightarrow> activation \<Rightarrow> prepare_pc \<Rightarrow> agent_awaited \<Rightarrow> 'z agent_state_scheme \<Rightarrow> 'z agent_state_scheme" where
  "prepare_step cfg now r a pc aw s =
     (case (pc, aw) of
        (Pf_worktree, _) \<Rightarrow> jump r (In_prepare Pf_mkdir) (set_obj (act_obj a) (\<lambda>t. t\<lparr>rt_overlayRepoUrl := None\<rparr>) s)
      | (Pf_mkdir, Aok) \<Rightarrow> full_mkdir_done now r a s
      | (Pf_mkdir, Aerr m) \<Rightarrow> jump r (P_rejected m) s
      | (Pf_download, Aok) \<Rightarrow>
          if is_cancelled (act_obj a) s then catch_full now r a ''Error: cancelled'' s else jump r (In_prepare Pf_materialize) s
      | (Pf_download, Aerr m) \<Rightarrow> catch_full now r a m s
      | (Pf_materialize, Apath x) \<Rightarrow> full_materialized now r a x s
      | (Pf_materialize, Aerr m) \<Rightarrow> catch_full now r a m s
      | (Po_mkdir, Aok) \<Rightarrow> unless_cancelled now r a Po_ensure s
      | (Po_mkdir, Aerr m) \<Rightarrow> jump r (P_rejected m) s
      | (Po_ensure, Aok) \<Rightarrow>
          jump r (In_prepare (if (case overlay_repo_of a of Some repo \<Rightarrow> or_fetch_refs repo \<noteq> [] | None \<Rightarrow> False)
                              then Po_fetch else Po_has)) s
      | (Po_ensure, Aerr _) \<Rightarrow> need_bundle r a (fetch_failed r s)
      | (Po_fetch, Aok) \<Rightarrow> jump r (In_prepare Po_has) s
      | (Po_fetch, Aerr _) \<Rightarrow> jump r (In_prepare Po_has) (fetch_failed r s)
      | (Po_has, Abool b) \<Rightarrow> if b then jump r (In_prepare Po_create) s else need_bundle r a s
      | (Po_has, Aerr m) \<Rightarrow> catch_overlay now r a m s
      | (Po_bundle_failed msg, _) \<Rightarrow> bundle_failed now r a msg s
      | (Po_bundle_granted, _) \<Rightarrow> unless_cancelled now r a Po_import s
      | (Po_import, Abool b) \<Rightarrow> if b then jump r (In_prepare Po_create) s else escalate_source r a s
      | (Po_import, Aerr m) \<Rightarrow> catch_overlay now r a m s
      | (Po_create, Aok) \<Rightarrow> worktree_created cfg r a s
      | (Po_create, Aerr m) \<Rightarrow> catch_overlay now r a m s
      | (Po_controlled, Aok) \<Rightarrow> unless_cancelled now r a Po_overlay s
      | (Po_controlled, Aerr m) \<Rightarrow> catch_overlay now r a m s
      | (Po_overlay, Aok) \<Rightarrow> unless_cancelled now r a Po_apply s
      | (Po_overlay, Aerr m) \<Rightarrow> catch_overlay now r a m s
      | (Po_apply, Aok) \<Rightarrow> overlay_applied now r a s
      | (Po_apply, Aerr m) \<Rightarrow> catch_overlay now r a m s
      | (Po_worktree clear, _) \<Rightarrow>
          jump r (if clear then P_rm_clear else P_done) (set_obj (act_obj a) (\<lambda>t. t\<lparr>rt_overlayRepoUrl := None\<rparr>) s)
      | _ \<Rightarrow> s)"

definition handleBundleDownload :: "lease_ref \<Rightarrow> 'z agent_state_scheme \<Rightarrow> 'z agent_state_scheme" where
  "handleBundleDownload p s =
     (case matchesReservedLease p s of
        None \<Rightarrow> s
      | Some addr \<Rightarrow>
          (case rt_pendingBundleDownload (ag_obj s addr) of
             None \<Rightarrow> s
           | Some r \<Rightarrow>
               settle_bundle r (In_prepare Po_bundle_granted) (set_obj addr (\<lambda>t. t\<lparr>rt_pendingBundleDownload := None\<rparr>) s)))"

text \<open>The timer of \<open>waitForBundleDownload\<close>, cleared whenever the promise settles.\<close>

definition bundle_timeout :: "nat \<Rightarrow> 'z agent_state_scheme \<Rightarrow> 'z agent_state_scheme" where
  "bundle_timeout addr = reject_pending_bundle addr ''timed out waiting for bundle_download''"

section \<open>Running the job\<close>

definition handleRunJob :: "nat \<Rightarrow> lease_ref \<Rightarrow> 'z agent_state_scheme \<Rightarrow> 'z agent_state_scheme" where
  "handleRunJob r p s =
     (case matchesReservedLease p s of
        None \<Rightarrow> s
      | Some addr \<Rightarrow>
          if rt_prepare (ag_obj s addr) = None then s
          else start_act r ((new_activation addr p (In_run Pr_setup))\<lparr>act_prepare := rt_prepare (ag_obj s addr)\<rparr>)
                 (set_obj addr (\<lambda>t. t\<lparr>rt_runInProgress := True\<rparr>) s))"

definition offer_of :: "activation \<Rightarrow> 'z agent_state_scheme \<Rightarrow> lease_offer option" where
  "offer_of a s = map_option snd (rt_offer (ag_obj s (act_obj a)))"

definition run_catch_agent :: "ts \<Rightarrow> nat \<Rightarrow> activation \<Rightarrow> string \<Rightarrow> 'z agent_state_scheme \<Rightarrow> 'z agent_state_scheme" where
  "run_catch_agent now r a msg s = jump r (In_run Pr_finally) (failTerminal now (act_lease a) Internal msg s)"

definition spool_opened :: "agent_config \<Rightarrow> nat \<Rightarrow> activation \<Rightarrow> 'z agent_state_scheme \<Rightarrow> 'z agent_state_scheme" where
  "spool_opened cfg r a s =
     (let dir = logsDir cfg (lr_attempt_id (act_lease a));
          (sp, d) = openAttemptSpool (ag_spools s dir);
          s1 = s\<lparr>ag_spools := (ag_spools s)(dir := d),
                 ag_senders := (ag_senders s)(r \<mapsto>
                   \<lparr>ls_sender = fresh_sender (or_else (gc_logSendQueueMax cfg) DEFAULT_LOG_SEND_QUEUE_MAX),
                    ls_lease = act_lease a, ls_dir = dir, ls_recovery = False\<rparr>)\<rparr>;
          s2 = set_act r (\<lambda>a. a\<lparr>act_spool := sp\<rparr>) s1;
          s3 = set_obj (act_obj a) (\<lambda>t. t\<lparr>rt_activeSpool := Some r, rt_activeSpoolLease := Some (act_lease a),
                 rt_spoolLimitBreached := False\<rparr>) s2
      in jump r (In_run Pr_ack) s3)"

definition registerLiveSender :: "string \<Rightarrow> nat \<Rightarrow> 'z agent_state_scheme \<Rightarrow> 'z agent_state_scheme" where
  "registerLiveSender attemptId q s = s\<lparr>ag_liveSenders := map_set attemptId q (ag_liveSenders s)\<rparr>"

definition sender_ready :: "nat \<Rightarrow> activation \<Rightarrow> 'z agent_state_scheme \<Rightarrow> 'z agent_state_scheme" where
  "sender_ready r a s =
     registerLiveSender (lr_attempt_id (act_lease a)) r
       (set_obj (act_obj a) (\<lambda>t. t\<lparr>rt_activeSpoolSender := Some r\<rparr>)
         (run_sender r (\<lambda>_ d ss. (setAcked (readAck d) ss, [])) s))"

text \<open>The toolchain recheck: the message of the first profile that is gone or has changed.\<close>

definition profile_problem :: "toolchain_profile list \<Rightarrow> (string \<Rightarrow> bool) \<Rightarrow> toolchain_profile \<Rightarrow> string option" where
  "profile_problem currents exists profile =
     (let path = truthy (ta_path (tp_activation profile)) in
      if (case path of Some x \<Rightarrow> \<not> exists x | None \<Rightarrow> False)
      then Some (''Selected toolchain path missing: '' @ the path)
      else case find (\<lambda>q. tp_id q = tp_id profile) currents of
             None \<Rightarrow> Some (''Selected toolchain fingerprint mismatch for profile '' @ quoted (tp_id profile))
           | Some c \<Rightarrow>
               if tp_environment_fingerprint c \<noteq> tp_environment_fingerprint profile \<or> tp_version c \<noteq> tp_version profile \<or>
                  (path \<noteq> None \<and> truthy (ta_path (tp_activation c)) \<noteq> None \<and> ta_path (tp_activation c) \<noteq> path)
               then Some (''Selected toolchain fingerprint mismatch for profile '' @ quoted (tp_id profile)) else None)"

fun toolchain_problem :: "toolchain_profile list \<Rightarrow> (string \<Rightarrow> bool) \<Rightarrow> toolchain_profile list \<Rightarrow> string option" where
  "toolchain_problem currents exists [] = None"
| "toolchain_problem currents exists (p # ps) =
     (case profile_problem currents exists p of Some m \<Rightarrow> Some m | None \<Rightarrow> toolchain_problem currents exists ps)"

text \<open>The secrets of the job: the first store reference without a value, or the environment entries.\<close>

fun resolve_secrets ::
  "(string \<times> string) list \<Rightarrow> (string \<Rightarrow> string option) \<Rightarrow> (string \<times> string) list \<Rightarrow> string + (string \<times> string) list" where
  "resolve_secrets secretMap getenv [] = Inr []"
| "resolve_secrets secretMap getenv ((envName, storeRef) # rest) =
     (case truthy (getenv (or_else (map_of secretMap storeRef) storeRef)) of
        None \<Rightarrow> Inl storeRef
      | Some val \<Rightarrow>
          (case resolve_secrets secretMap getenv rest of Inl x \<Rightarrow> Inl x | Inr env \<Rightarrow> Inr ((envName, val) # env)))"

definition before_spawn :: "agent_config \<Rightarrow> agent_world \<Rightarrow> nat \<Rightarrow> activation \<Rightarrow> 'z agent_state_scheme \<Rightarrow> 'z agent_state_scheme" where
  "before_spawn cfg w r a s =
     (case offer_of a s of
        None \<Rightarrow> s
      | Some offer \<Rightarrow>
          (case toolchain_problem (or_else (gc_toolchainProfiles cfg) []) (wd_exists w) (or_else (lo_selected_toolchain_profiles offer) []) of
             Some msg \<Rightarrow> jump r P_rm_clear (failTerminal (wd_now w) (act_lease a) Toolchain_changed msg s)
           | None \<Rightarrow>
               if is_cancelled (act_obj a) s
               then jump r P_rm_clear (sendCancelledTerminal (wd_now w) (act_lease a) ''Job cancelled before spawn'' s)
               else
                 (case resolve_secrets (or_else (gc_secretMap cfg) []) (wd_getenv w)
                         (or_else (ex_secret_refs (rqst_execution (lo_job_request offer))) []) of
                    Inl ref \<Rightarrow>
                      jump r P_rm_clear (failTerminal (wd_now w) (act_lease a) Secret_missing (''Missing required secret ref '' @ quoted ref) s)
                  | Inr env \<Rightarrow>
                      jump r (In_run Pr_script)
                        (set_act r (\<lambda>a. a\<lparr>act_stdoutRedactor := new_redactor (map snd env),
                           act_stderrRedactor := new_redactor (map snd env)\<rparr>) s))))"

text \<open>The segment after spawning: report, register the kill, store the identity, and end an expired lease.\<close>

definition started_metadata ::
  "agent_config \<Rightarrow> agent_world \<Rightarrow> activation \<Rightarrow> int option \<Rightarrow> 'z agent_state_scheme \<Rightarrow> 'z agent_state_scheme" where
  "started_metadata cfg w a pid s =
     (case (pid, offer_of a s) of
        (Some n, Some offer) \<Rightarrow>
          if n > 0 then
            (case wd_identity w n of
               None \<Rightarrow> s
             | Some identity \<Rightarrow>
                 (let attemptId = lr_attempt_id (act_lease a);
                      overlay = (case act_prepare a of Some (Prepare_source_git_overlay _ _) \<Rightarrow> True | _ \<Rightarrow> False) in
                  writeAttemptMetadata
                    \<lparr>mt_lease = act_lease a, mt_job_id = lo_job_id offer, mt_process_identity = Some identity,
                     mt_status = Meta_running,
                     mt_workspace_path = Some (if overlay then workspaceDir cfg attemptId else workspaceDir cfg attemptId @ ''/workspace''),
                     mt_spool_dir = logsDir cfg attemptId,
                     mt_risk_level = or_else (rqst_risk_level (lo_job_request offer)) Normal, mt_updated_at = wd_now w,
                     mt_last_exit = None, mt_lease_deadline = None, mt_artifact_manifest = None, mt_artifact_collection = None\<rparr> s))
          else s
      | _ \<Rightarrow> s)"

definition attach_output :: "nat \<Rightarrow> 'z agent_state_scheme \<Rightarrow> 'z agent_state_scheme" where
  "attach_output r = set_act r (\<lambda>a. a\<lparr>act_attached := True, act_pc := In_run Pr_completion\<rparr>)"

definition late_lease_check :: "agent_config \<Rightarrow> agent_world \<Rightarrow> nat \<Rightarrow> activation \<Rightarrow> 'z agent_state_scheme \<Rightarrow> 'z agent_state_scheme" where
  "late_lease_check cfg w r a s =
     (let t = ag_obj s (act_obj a) in
      if isDestructiveOrHardware (rt_leaseRisk t) \<and>
         (case rt_leaseDeadlineMs t of None \<Rightarrow> False | Some d \<Rightarrow> wd_now w \<ge> d)
      then if rt_leaseExpired t then jump r (In_run Pr_late_kill) (kill_child r s)
           else attach_output r (onLeaseExpired cfg (wd_now w) (wd_act w) (lr_attempt_id (act_lease a)) s)
      else attach_output r s)"

definition job_is_started ::
  "agent_config \<Rightarrow> agent_world \<Rightarrow> nat \<Rightarrow> activation \<Rightarrow> int option \<Rightarrow> 'z agent_state_scheme \<Rightarrow> 'z agent_state_scheme" where
  "job_is_started cfg w r a pid s =
     (let s1 = sendFrame (act_lease a) (M_job_started (case pid of Some n \<Rightarrow> if n > 0 then Some n else None | None \<Rightarrow> None)) s;
          s2 = set_obj (act_obj a) (\<lambda>t. t\<lparr>rt_activeProcessKill := Some r\<rparr>) s1
      in late_lease_check cfg w r a (started_metadata cfg w a pid s2))"

definition spawn_job :: "agent_config \<Rightarrow> agent_world \<Rightarrow> nat \<Rightarrow> activation \<Rightarrow> 'z agent_state_scheme \<Rightarrow> 'z agent_state_scheme" where
  "spawn_job cfg w r a s =
     (case wd_spawn w of
        Inl msg \<Rightarrow> run_catch_agent (wd_now w) r a msg s
      | Inr (pid, ignored) \<Rightarrow>
          (let s1 = s\<lparr>ag_spawned := ag_spawned s @ [r]\<rparr> in
           if ignored \<noteq> [] then jump r (In_run (Pr_env_events pid)) s1 else job_is_started cfg w r a pid s1))"

definition acquire_next ::
  "agent_config \<Rightarrow> agent_world \<Rightarrow> nat \<Rightarrow> activation \<Rightarrow> (string \<times> build_cache_kind) list \<Rightarrow> 'z agent_state_scheme \<Rightarrow> 'z agent_state_scheme" where
  "acquire_next cfg w r a targets s =
     (if targets = [] then spawn_job cfg w r a s else jump r (In_run (Pr_cache targets)) s)"

definition cache_acquired :: "nat \<Rightarrow> string \<times> build_cache_kind \<Rightarrow> cache_mode \<Rightarrow> string \<Rightarrow> 'z agent_state_scheme \<Rightarrow> 'z agent_state_scheme" where
  "cache_acquired r target mode path s =
     set_act r (\<lambda>a. a\<lparr>act_caches := act_caches a @ [\<lparr>aq_cacheKey = fst target, aq_kind = snd target, aq_mode = mode, aq_path = path\<rparr>]\<rparr>)
       (s\<lparr>ag_cacheHeld := ag_cacheHeld s @ [(r, fst target)]\<rparr>)"

subsection \<open>Output\<close>

definition appendAndEnqueue :: "nat \<Rightarrow> nat \<Rightarrow> log_stream \<Rightarrow> string \<Rightarrow> 'z agent_state_scheme \<Rightarrow> 'z agent_state_scheme" where
  "appendAndEnqueue addr r st text = set_obj addr (\<lambda>t. t\<lparr>rt_spoolWriteChain := rt_spoolWriteChain t @ [(r, st, text)]\<rparr>)"

definition chain_length :: "nat \<Rightarrow> 'z agent_state_scheme \<Rightarrow> nat" where
  "chain_length addr s = rt_spoolWritten (ag_obj s addr) + length (rt_spoolWriteChain (ag_obj s addr))"

text \<open>A \<open>data\<close> event of the child's stdout or stderr.\<close>

definition child_output :: "nat \<Rightarrow> log_stream \<Rightarrow> string \<Rightarrow> 'z agent_state_scheme \<Rightarrow> 'z agent_state_scheme" where
  "child_output r st raw s =
     (case ag_acts s r of
        None \<Rightarrow> s
      | Some a \<Rightarrow>
          if \<not> act_attached a then s
          else
            (let (text, rd) = redact raw (case st of Stdout \<Rightarrow> act_stdoutRedactor a | Stderr \<Rightarrow> act_stderrRedactor a);
                 s1 = set_act r (\<lambda>a. case st of Stdout \<Rightarrow> a\<lparr>act_stdoutRedactor := rd\<rparr> | Stderr \<Rightarrow> a\<lparr>act_stderrRedactor := rd\<rparr>) s
             in if text = [] then s1 else appendAndEnqueue (act_obj a) r st text s1))"

text \<open>\<open>runAppend\<close>: the next link of the write chain, whose disk writes succeed or not.\<close>

definition run_append :: "agent_config \<Rightarrow> nat \<Rightarrow> nat \<Rightarrow> activation \<Rightarrow> log_stream \<Rightarrow> string \<Rightarrow> 'z agent_state_scheme \<Rightarrow> 'z agent_state_scheme" where
  "run_append cfg addr r a st text s =
     (let dir = logsDir cfg (lr_attempt_id (act_lease a));
          (sequence, sp, d) = appendChunk st text (act_spool a, ag_spools s dir);
          s1 = set_act r (\<lambda>a. a\<lparr>act_spool := sp\<rparr>) (s\<lparr>ag_spools := (ag_spools s)(dir := d)\<rparr>);
          s2 = run_sender r (\<lambda>sock _. enqueue sock (sequence, st, text)) s1
      in if totalBytes d \<ge> or_else (gc_logSpoolMaxBytes cfg) DEFAULT_LOG_SPOOL_MAX_BYTES
         then kill_child r (set_obj addr (\<lambda>t. t\<lparr>rt_spoolLimitBreached := True\<rparr>) s2) else s2)"

definition chain_step :: "agent_config \<Rightarrow> nat \<Rightarrow> bool \<Rightarrow> 'z agent_state_scheme \<Rightarrow> 'z agent_state_scheme" where
  "chain_step cfg addr ok s =
     (case rt_spoolWriteChain (ag_obj s addr) of
        [] \<Rightarrow> s
      | (r, st, text) # rest \<Rightarrow>
          (let s1 = set_obj addr (\<lambda>t. t\<lparr>rt_spoolWriteChain := rest, rt_spoolWritten := rt_spoolWritten t + 1\<rparr>) s in
           case ag_acts s1 r of
             None \<Rightarrow> s1
           | Some a \<Rightarrow> if \<not> ok \<or> rt_spoolLimitBreached (ag_obj s1 addr) then s1 else run_append cfg addr r a st text s1))"

subsection \<open>Completion\<close>

definition exit_code_of :: "completion_result \<Rightarrow> int option" where
  "exit_code_of result = (case result of Exit_result c \<Rightarrow> c | _ \<Rightarrow> None)"

definition agent_outcome :: "bool \<Rightarrow> bool \<Rightarrow> completion_result \<Rightarrow> job_outcome" where
  "agent_outcome cancelled spoolLimit result =
     (if cancelled then Cancelled
      else if spoolLimit then Failed
      else case result of
             Timeout_result \<Rightarrow> Timed_out
           | Log_failure \<Rightarrow> Failed
           | Duration_complete \<Rightarrow> Succeeded
           | Log_success \<Rightarrow> Succeeded
           | Exit_result c \<Rightarrow> if c = Some 0 then Succeeded else Failed)"

definition exit_extras :: "agent_config \<Rightarrow> bool \<Rightarrow> bool \<Rightarrow> completion_result \<Rightarrow> (error_category \<times> string) option" where
  "exit_extras cfg cancelled spoolLimit result =
     (if spoolLimit
      then Some (Log_spool_limit,
             ''Log spool exceeded '' @ show_int (or_else (gc_logSpoolMaxBytes cfg) DEFAULT_LOG_SPOOL_MAX_BYTES) @ '' bytes'')
      else case agent_outcome cancelled spoolLimit result of
             Failed \<Rightarrow>
               Some (Process_exit,
                 if result = Log_failure then ''Completion failure_pattern matched in logs''
                 else ''Script exited with code '' @ (case exit_code_of result of None \<Rightarrow> ''null'' | Some c \<Rightarrow> show_int c))
           | Timed_out \<Rightarrow> Some (Timeout, ''Execution timed out'')
           | _ \<Rightarrow> None)"

definition completed_exit :: "agent_config \<Rightarrow> bool \<Rightarrow> bool \<Rightarrow> completion_result \<Rightarrow> job_exit" where
  "completed_exit cfg cancelled spoolLimit result =
     \<lparr>jx_exit_code = exit_code_of result, jx_outcome = agent_outcome cancelled spoolLimit result,
      jx_failure_category = map_option fst (exit_extras cfg cancelled spoolLimit result),
      jx_failure_message = map_option snd (exit_extras cfg cancelled spoolLimit result)\<rparr>"

text \<open>After the streams are drained and the process is stopped. \<open>effectiveOutcome\<close> is \<open>outcome\<close>.\<close>

definition run_settled ::
  "agent_config \<Rightarrow> ts \<Rightarrow> nat \<Rightarrow> activation \<Rightarrow> completion_result \<Rightarrow> bool \<Rightarrow> 'z agent_state_scheme \<Rightarrow> 'z agent_state_scheme" where
  "run_settled cfg now r a result spoolLimit s =
     (let t = ag_obj s (act_obj a); p = act_lease a in
      if rt_leaseExpired t
      then jump r (In_run Pr_finally)
             (sendFrame p (M_cleanup_complete \<lparr>cr_exit_code = None, cr_timed_out = False,
                             cr_message = jx_failure_message lease_expired_exit\<rparr>)
               (sendFrame p (M_job_exit lease_expired_exit) s))
      else case offer_of a s of
             None \<Rightarrow> s
           | Some offer \<Rightarrow>
               (let exit = completed_exit cfg (rt_cancelled t) spoolLimit result;
                    s1 = persistCompletedAwaitingUpload cfg now (act_obj a) offer p exit None None s;
                    s2 = sendFrame p (M_job_exit exit) s1
                in set_act r (\<lambda>a. a\<lparr>act_exit := Some exit, act_pc := In_run Pr_collect\<rparr>) s2))"

definition needs_kill :: "completion_result \<Rightarrow> bool" where
  "needs_kill result = (case result of Exit_result _ \<Rightarrow> False | _ \<Rightarrow> True)"

definition streams_flushed ::
  "agent_config \<Rightarrow> ts \<Rightarrow> nat \<Rightarrow> activation \<Rightarrow> completion_result \<Rightarrow> 'z agent_state_scheme \<Rightarrow> 'z agent_state_scheme" where
  "streams_flushed cfg now r a result s =
     (let spoolLimit = rt_spoolLimitBreached (ag_obj s (act_obj a)) in
      if needs_kill result then jump r (In_run (Pr_kill result spoolLimit)) (kill_child r s)
      else run_settled cfg now r a result spoolLimit s)"

definition flush_stderr ::
  "agent_config \<Rightarrow> ts \<Rightarrow> nat \<Rightarrow> activation \<Rightarrow> completion_result \<Rightarrow> 'z agent_state_scheme \<Rightarrow> 'z agent_state_scheme" where
  "flush_stderr cfg now r a result s =
     (let (text, rd) = redact_flush (act_stderrRedactor a);
          s1 = set_act r (\<lambda>a. a\<lparr>act_stderrRedactor := rd\<rparr>) s in
      if text = [] then streams_flushed cfg now r a result s1
      else (let s2 = appendAndEnqueue (act_obj a) r Stderr text s1
            in jump r (In_run (Pr_flush_stderr result (chain_length (act_obj a) s2))) s2))"

definition flush_stdout ::
  "agent_config \<Rightarrow> ts \<Rightarrow> nat \<Rightarrow> activation \<Rightarrow> completion_result \<Rightarrow> 'z agent_state_scheme \<Rightarrow> 'z agent_state_scheme" where
  "flush_stdout cfg now r a result s =
     (let (text, rd) = redact_flush (act_stdoutRedactor a);
          s1 = set_act r (\<lambda>a. a\<lparr>act_stdoutRedactor := rd\<rparr>) s in
      if text = [] then flush_stderr cfg now r a result s1
      else (let s2 = appendAndEnqueue (act_obj a) r Stdout text s1
            in jump r (In_run (Pr_flush_stdout result (chain_length (act_obj a) s2))) s2))"

definition written_up_to :: "nat \<Rightarrow> nat \<Rightarrow> 'z agent_state_scheme \<Rightarrow> bool" where
  "written_up_to addr n s = (rt_spoolWritten (ag_obj s addr) \<ge> n)"

subsection \<open>Artifacts and cleanup\<close>

text \<open>\<open>requestArtifactUploadTokens\<close>: the rejection, or the state with the request outstanding.\<close>

definition requestArtifactUploadTokens ::
  "nat \<Rightarrow> lease_ref \<Rightarrow> artifact_decl list \<Rightarrow> nat option \<Rightarrow> 'z agent_state_scheme \<Rightarrow> string + 'z agent_state_scheme" where
  "requestArtifactUploadTokens r p arts collection s =
     (case current (lr_attempt_id p) s of
        None \<Rightarrow> Inl ''Error: attempt not active for artifact upload''
      | Some addr \<Rightarrow>
          if rt_pendingArtifactUpload (ag_obj s addr) \<noteq> None then Inl ''Error: artifact upload already pending''
          else Inr (sendFrame p (M_artifact_manifest arts collection)
                      (set_obj addr (\<lambda>t. t\<lparr>rt_pendingArtifactUpload := Some (p, r)\<rparr>) s)))"

definition collected :: "agent_config \<Rightarrow> ts \<Rightarrow> nat \<Rightarrow> activation \<Rightarrow> artifact_decl list \<Rightarrow> nat \<Rightarrow> 'z agent_state_scheme \<Rightarrow> 'z agent_state_scheme" where
  "collected cfg now r a staged summary s =
     (case (offer_of a s, act_exit a) of
        (Some offer, Some exit) \<Rightarrow>
          (let s1 = persistCompletedAwaitingUpload cfg now (act_obj a) offer (act_lease a) exit (Some staged) (Some summary) s in
           case requestArtifactUploadTokens r (act_lease a) staged (Some summary) s1 of
             Inl msg \<Rightarrow> run_catch_agent now r a msg s1
           | Inr s2 \<Rightarrow> jump r (In_run Pr_grant) s2)
      | _ \<Rightarrow> s)"

definition handleArtifactUploadGrant :: "lease_ref \<Rightarrow> 'z agent_state_scheme \<Rightarrow> 'z agent_state_scheme" where
  "handleArtifactUploadGrant p s =
     (case current (lr_attempt_id p) s of
        None \<Rightarrow> s
      | Some addr \<Rightarrow>
          (case rt_pendingArtifactUpload (ag_obj s addr) of
             None \<Rightarrow> s
           | Some (q, r) \<Rightarrow>
               if q = p then grant_upload r (set_obj addr (\<lambda>t. t\<lparr>rt_pendingArtifactUpload := None\<rparr>) s) else s))"

text \<open>The timer of the upload request of activation \<open>r\<close>, cleared whenever its promise settles.\<close>

definition waits_for_grant :: "nat \<Rightarrow> 'z agent_state_scheme \<Rightarrow> bool" where
  "waits_for_grant r s = (case ag_acts s r of
     None \<Rightarrow> False | Some a \<Rightarrow> act_pc a = In_run Pr_grant \<or> act_pc a = In_recovery Pu_grant)"

definition upload_timeout :: "nat \<Rightarrow> string \<Rightarrow> 'z agent_state_scheme \<Rightarrow> 'z agent_state_scheme" where
  "upload_timeout r attemptId s =
     (let s1 = (case current attemptId s of
                  None \<Rightarrow> s | Some addr \<Rightarrow> set_obj addr (\<lambda>t. t\<lparr>rt_pendingArtifactUpload := None\<rparr>) s)
      in reject_upload r ''timed out waiting for artifact upload tokens'' s1)"

definition publish_misses :: "activation \<Rightarrow> 'z agent_state_scheme \<Rightarrow> 'z agent_state_scheme" where
  "publish_misses a s =
     (case act_exit a of
        None \<Rightarrow> s
      | Some exit \<Rightarrow>
          s\<lparr>ag_published := ag_published s @
              map (\<lambda>c. (act_lease a, aq_cacheKey c, jx_outcome exit)) (filter (\<lambda>c. aq_mode c = Cache_miss) (act_caches a))\<rparr>)"

definition cleaned_up :: "nat \<Rightarrow> activation \<Rightarrow> int option \<Rightarrow> bool \<Rightarrow> 'z agent_state_scheme \<Rightarrow> 'z agent_state_scheme" where
  "cleaned_up r a code timedOut s =
     jump r (In_run Pr_finally)
       (publish_misses a
         (sendFrame (act_lease a) (M_cleanup_complete \<lparr>cr_exit_code = code, cr_timed_out = timedOut, cr_message = None\<rparr>) s))"

definition run_finished :: "nat \<Rightarrow> activation \<Rightarrow> 'z agent_state_scheme \<Rightarrow> 'z agent_state_scheme" where
  "run_finished r a s =
     jump r P_done (clearAttempt (lr_attempt_id (act_lease a))
       (s\<lparr>ag_cacheHeld := filter (\<lambda>h. fst h \<noteq> r) (ag_cacheHeld s)\<rparr>))"

subsection \<open>The resumption of a run\<close>

definition run_step ::
  "agent_config \<Rightarrow> agent_world \<Rightarrow> nat \<Rightarrow> activation \<Rightarrow> job_pc \<Rightarrow> agent_awaited \<Rightarrow> 'z agent_state_scheme \<Rightarrow> 'z agent_state_scheme" where
  "run_step cfg w r a pc aw s =
     (let now = wd_now w in
      case (pc, aw) of
        (Pr_setup, Aok) \<Rightarrow> spool_opened cfg r a s
      | (Pr_setup, Aerr m) \<Rightarrow> jump r (P_rejected m) s
      | (Pr_ack, _) \<Rightarrow> before_spawn cfg w r a (sender_ready r a s)
      | (Pr_script, Aok) \<Rightarrow> jump r (In_run Pr_cwd) s
      | (Pr_script, Aerr m) \<Rightarrow> run_catch_agent now r a m s
      | (Pr_cwd, Aok) \<Rightarrow> acquire_next cfg w r a (wd_cacheTargets w) s
      | (Pr_cwd, Aerr m) \<Rightarrow> run_catch_agent now r a m s
      | (Pr_cache (t # ts), Acache mode path) \<Rightarrow> acquire_next cfg w r a ts (cache_acquired r t mode path s)
      | (Pr_cache (t # ts), Aerr m) \<Rightarrow> run_catch_agent now r a m s
      | (Pr_env_events pid, Aok) \<Rightarrow> job_is_started cfg w r a pid s
      | (Pr_env_events pid, Aerr m) \<Rightarrow> run_catch_agent now r a m s
      | (Pr_late_kill, _) \<Rightarrow> attach_output r s
      | (Pr_completion, Acompletion result) \<Rightarrow> jump r (In_run (Pr_drain result (chain_length (act_obj a) s))) s
      | (Pr_completion, Aerr m) \<Rightarrow> run_catch_agent now r a m s
      | (Pr_drain result n, _) \<Rightarrow> if written_up_to (act_obj a) n s then flush_stdout cfg now r a result s else s
      | (Pr_flush_stdout result n, Aok) \<Rightarrow> if written_up_to (act_obj a) n s then flush_stderr cfg now r a result s else s
      | (Pr_flush_stdout result n, Aerr m) \<Rightarrow> if written_up_to (act_obj a) n s then run_catch_agent now r a m s else s
      | (Pr_flush_stderr result n, Aok) \<Rightarrow> if written_up_to (act_obj a) n s then streams_flushed cfg now r a result s else s
      | (Pr_flush_stderr result n, Aerr m) \<Rightarrow> if written_up_to (act_obj a) n s then run_catch_agent now r a m s else s
      | (Pr_kill result spoolLimit, Aok) \<Rightarrow> run_settled cfg now r a result spoolLimit s
      | (Pr_kill result spoolLimit, Aerr m) \<Rightarrow> run_catch_agent now r a m s
      | (Pr_collect, Acollected staged summary) \<Rightarrow> collected cfg now r a staged summary s
      | (Pr_collect, Aerr m) \<Rightarrow> run_catch_agent now r a m s
      | (Pr_granted, _) \<Rightarrow> jump r (In_run Pr_cleanup) s
      | (Pr_grant_failed m, _) \<Rightarrow> run_catch_agent now r a (''Error: '' @ m) s
      | (Pr_cleanup, Acleanup code timedOut) \<Rightarrow> cleaned_up r a code timedOut s
      | (Pr_finally, _) \<Rightarrow> run_finished r a s
      | _ \<Rightarrow> s)"

section \<open>Acknowledgements, cancelling, abandoning\<close>

definition handleLogAck :: "nat \<Rightarrow> lease_ref \<Rightarrow> int \<Rightarrow> 'z agent_state_scheme \<Rightarrow> 'z agent_state_scheme" where
  "handleLogAck r p sequence s =
     (case current (lr_attempt_id p) s of
        None \<Rightarrow> s
      | Some addr \<Rightarrow>
          (let t = ag_obj s addr in
           case (rt_activeSpoolLease t, rt_activeSpool t, rt_activeSpoolSender t) of
             (Some q, Some _, Some sender) \<Rightarrow> if q = p then start_act r (new_activation addr p (Pa_write sender sequence)) s else s
           | _ \<Rightarrow> s))"

definition ack_written :: "nat \<Rightarrow> int \<Rightarrow> bool \<Rightarrow> 'z agent_state_scheme \<Rightarrow> 'z agent_state_scheme" where
  "ack_written q sequence ok s =
     (let s1 = (case ag_senders s q of
                  None \<Rightarrow> s
                | Some ls \<Rightarrow> if ok then s\<lparr>ag_spools := (ag_spools s)(ls_dir ls := writeAck sequence (ag_spools s (ls_dir ls)))\<rparr> else s)
      in run_sender q (\<lambda>sock d. onAck sock d sequence) s1)"

definition handleCancelJob :: "nat \<Rightarrow> lease_ref \<Rightarrow> string option \<Rightarrow> 'z agent_state_scheme \<Rightarrow> 'z agent_state_scheme" where
  "handleCancelJob r p reason s =
     (case matchesReservedLease p s of
        None \<Rightarrow> s
      | Some addr \<Rightarrow>
          (let s1 = set_obj addr (\<lambda>t. t\<lparr>rt_cancelled := True\<rparr>) s; t = ag_obj s1 addr in
           case rt_activeProcessKill t of
             Some child \<Rightarrow> kill_child child s1
           | None \<Rightarrow>
               if rt_runInProgress t then s1
               else start_act r (new_activation addr p (Pk_rm reason)) (reject_pending_bundle addr ''cancelled'' s1)))"

definition cancel_removed :: "ts \<Rightarrow> nat \<Rightarrow> activation \<Rightarrow> string option \<Rightarrow> 'z agent_state_scheme \<Rightarrow> 'z agent_state_scheme" where
  "cancel_removed now r a reason s =
     (let t = ag_obj s (act_obj a) in
      if rt_prepare t \<noteq> None \<and> \<not> rt_prepareReady t then jump r P_done s
      else jump r P_done (clearAttempt (lr_attempt_id (act_lease a))
             (sendCancelledTerminal now (act_lease a) (or_else reason ''Job cancelled before process start'') s)))"

text \<open>\<open>forceAbandonAttempt\<close> up to its \<open>await\<close>: whether it suspends, and the state.\<close>

definition abandon_begin :: "string \<Rightarrow> 'z agent_state_scheme \<Rightarrow> bool \<times> 'z agent_state_scheme" where
  "abandon_begin attemptId s =
     (case current attemptId s of
        None \<Rightarrow> (False, s)
      | Some addr \<Rightarrow>
          (let s1 = set_obj addr (\<lambda>t. t\<lparr>rt_cancelled := True\<rparr>) s in
           case rt_activeProcessKill (ag_obj s1 addr) of
             Some child \<Rightarrow> (True, kill_child child s1)
           | None \<Rightarrow> (False, clearAttempt attemptId s1)))"

fun abandon_next :: "nat \<Rightarrow> string list \<Rightarrow> 'z agent_state_scheme \<Rightarrow> 'z agent_state_scheme" where
  "abandon_next r [] s = jump r P_done s"
| "abandon_next r (x # xs) s =
     (case abandon_begin x s of (True, s1) \<Rightarrow> jump r (Pb_kill x xs) s1 | (False, s1) \<Rightarrow> abandon_next r xs s1)"

definition forceAbandon :: "nat \<Rightarrow> 'z agent_state_scheme \<Rightarrow> 'z agent_state_scheme" where
  "forceAbandon r s = abandon_next r (map fst (ag_attempts s)) (start_act r (new_activation 0 no_lease P_done) s)"

text \<open>The resumption of the other activations of the executor.\<close>

definition misc_step :: "agent_config \<Rightarrow> ts \<Rightarrow> nat \<Rightarrow> activation \<Rightarrow> agent_awaited \<Rightarrow> 'z agent_state_scheme \<Rightarrow> 'z agent_state_scheme" where
  "misc_step cfg now r a aw s =
     (case act_pc a of
        P_rm_clear \<Rightarrow> jump r P_done (clearAttempt (lr_attempt_id (act_lease a)) s)
      | Pk_rm reason \<Rightarrow> cancel_removed now r a reason s
      | Px_kill \<Rightarrow> jump r P_done (write_expired cfg now (act_obj a) s)
      | Pa_write q sequence \<Rightarrow> jump r P_done (ack_written q sequence (aw = Aok) s)
      | Pb_kill x xs \<Rightarrow> abandon_next r xs (clearAttempt x s)
      | _ \<Rightarrow> s)"

end
