(* ===== verification/Agent_Recovery.thy ===== *)
theory Agent_Recovery
  imports Agent_Executor
begin

text \<open>
  The Agent's recovery coordinator (\<open>apps/agent/src/recovery/coordinator.ts\<close>), the two executor
  methods it calls back (\<open>resendJobExitIfCompleted\<close>, \<open>resumeArtifactUpload\<close>), and the connection
  to the Controller (\<open>apps/agent/src/connection/client.ts\<close>): handshake, heartbeats, dispatch,
  disconnect and reconnect. The hooks are those \<open>AgentConnection\<close> passes: \<open>onAdopted\<close> is not set.
  \<open>agent_step\<close> is the event loop: one handler entry, resumption, timer or socket event per step.
\<close>

section \<open>Resuming an upload\<close>

definition resendJobExitIfCompleted :: "attempt_metadata \<Rightarrow> 'z agent_state_scheme \<Rightarrow> 'z agent_state_scheme" where
  "resendJobExitIfCompleted m s =
     (case mt_last_exit m of
        None \<Rightarrow> s
      | Some exit \<Rightarrow> sendFrame (mt_lease m) (M_job_exit (exit\<lparr>jx_failure_message := truthy (jx_failure_message exit)\<rparr>)) s)"

definition resumeArtifactUpload :: "nat \<Rightarrow> attempt_metadata \<Rightarrow> 'z agent_state_scheme \<Rightarrow> 'z agent_state_scheme" where
  "resumeArtifactUpload r m s =
     (case mt_artifact_manifest m of None \<Rightarrow> jump r P_done s | Some _ \<Rightarrow> jump r (In_recovery (Pu_verify m)) s)"

definition verified_items :: "agent_world \<Rightarrow> artifact_decl list \<Rightarrow> artifact_decl list" where
  "verified_items w items = filter (\<lambda>i. wd_staged w (ad_path i) = Some (ad_sha256 i, ad_size_bytes i)) items"

text \<open>The runtime the upload is registered with: the current one, or a new one without an offer.\<close>

definition resumed_runtime :: "attempt_metadata \<Rightarrow> 'z agent_state_scheme \<Rightarrow> 'z agent_state_scheme" where
  "resumed_runtime m s =
     (let (addr, s1) =
        (case current (mt_attempt_id m) s of
           Some addr \<Rightarrow> (addr, set_obj addr (\<lambda>t. t\<lparr>rt_jobId := mt_job_id m\<rparr>) s)
         | None \<Rightarrow>
             (ag_next s,
              s\<lparr>ag_obj := (ag_obj s)(ag_next s := createAttemptRuntime (mt_attempt_id m) (mt_job_id m)),
                ag_next := ag_next s + 1, ag_attempts := map_set (mt_attempt_id m) (ag_next s) (ag_attempts s)\<rparr>))
      in set_obj addr (\<lambda>t. t\<lparr>rt_leaseRisk := mt_risk_level m,
           rt_leaseDeadlineMs := (if mt_lease_deadline m \<noteq> None then mt_lease_deadline m else rt_leaseDeadlineMs t)\<rparr>) s1)"

definition upload_verified :: "agent_world \<Rightarrow> nat \<Rightarrow> attempt_metadata \<Rightarrow> 'z agent_state_scheme \<Rightarrow> 'z agent_state_scheme" where
  "upload_verified w r m s =
     (let items = or_else (mt_artifact_manifest m) []; verified = verified_items w items in
      if verified = [] \<and> items \<noteq> [] then jump r P_done s
      else
        (let s1 = resumed_runtime m s in
         case requestArtifactUploadTokens r (mt_lease m) verified (mt_artifact_collection m) s1 of
           Inl msg \<Rightarrow> jump r (P_rejected msg) s1
         | Inr s2 \<Rightarrow> jump r (In_recovery Pu_grant) s2))"

section \<open>Reporting the attempts on disk\<close>

definition hasProcessIdentity :: "string option \<Rightarrow> bool" where
  "hasProcessIdentity identity = (case identity of None \<Rightarrow> False | Some x \<Rightarrow> trim x \<noteq> [])"

definition reject_attempt :: "string \<Rightarrow> 'z agent_state_scheme \<Rightarrow> 'z agent_state_scheme" where
  "reject_attempt attemptId s = s\<lparr>ag_rejected := set_add attemptId (ag_rejected s)\<rparr>"

fun report_next :: "nat \<Rightarrow> attempt_metadata list \<Rightarrow> 'z agent_state_scheme \<Rightarrow> 'z agent_state_scheme" where
  "report_next r [] s = jump r P_done s"
| "report_next r (m # ms) s =
     (if mt_status m = Meta_terminal then report_next r ms s
      else if \<not> hasProcessIdentity (mt_process_identity m)
      then (case abandon_begin (mt_attempt_id m) (reject_attempt (mt_attempt_id m) s) of
              (True, s1) \<Rightarrow> jump r (In_recovery (Pl_kill m ms)) s1
            | (False, s1) \<Rightarrow> jump r (In_recovery (Pl_resources m ms)) s1)
      else if \<not> recovery_open s then report_next r ms s
      else jump r (In_recovery (Pl_spool m ms)) s)"

definition reportAll :: "nat \<Rightarrow> 'z agent_state_scheme \<Rightarrow> 'z agent_state_scheme" where
  "reportAll r s = start_act r (new_activation 0 no_lease (In_recovery Pl_list)) s"

definition live_acked :: "string \<Rightarrow> 'z agent_state_scheme \<Rightarrow> int option" where
  "live_acked attemptId s =
     Option.bind (map_of (ag_liveSenders s) attemptId) (\<lambda>q. map_option (\<lambda>ls. ss_lastAcked (ls_sender ls)) (ag_senders s q))"

definition report_status :: "meta_status \<Rightarrow> recovery_status" where
  "report_status st =
     (case st of Meta_completed_awaiting_upload \<Rightarrow> Report_completed_awaiting_upload | Meta_orphaned \<Rightarrow> Report_orphaned | _ \<Rightarrow> Report_running)"

definition emitRecoveryReport :: "attempt_metadata \<Rightarrow> int \<Rightarrow> int \<Rightarrow> 'z agent_state_scheme \<Rightarrow> 'z agent_state_scheme" where
  "emitRecoveryReport m lastSent lastAcked s =
     sendJobScoped (mt_lease m)
       (Recovery_frame
         \<lparr>rr_lease = mt_lease m, rr_status = report_status (mt_status m), rr_process_identity = or_else (mt_process_identity m) [],
          rr_last_sent_sequence = lastSent, rr_last_acked_sequence = lastAcked,
          rr_artifact_upload_pending = (mt_status m = Meta_completed_awaiting_upload)\<rparr>) s"

definition spool_inspected :: "attempt_metadata \<Rightarrow> bool \<Rightarrow> 'z agent_state_scheme \<Rightarrow> 'z agent_state_scheme" where
  "spool_inspected m ok s =
     (if \<not> ok then emitRecoveryReport m 0 0 s
      else
        (let d = snd (openAttemptSpool (ag_spools s (mt_spool_dir m)));
             s1 = s\<lparr>ag_spools := (ag_spools s)(mt_spool_dir m := d)\<rparr>;
             acked = readAck d
         in emitRecoveryReport m acked (case live_acked (mt_attempt_id m) s1 of Some n \<Rightarrow> max acked n | None \<Rightarrow> acked) s1))"

section \<open>Applying a decision\<close>

definition write_decided :: "ts \<Rightarrow> reconcile_decision \<Rightarrow> attempt_metadata \<Rightarrow> 'z agent_state_scheme \<Rightarrow> 'z agent_state_scheme" where
  "write_decided now dec m s =
     writeAttemptMetadata
       (m\<lparr>mt_status := (if mt_status m = Meta_completed_awaiting_upload then Meta_completed_awaiting_upload
                        else if dc_resume_from_sequence dec \<noteq> None then Meta_running else mt_status m),
          mt_updated_at := now\<rparr>) s"

definition after_replay :: "nat \<Rightarrow> attempt_metadata \<Rightarrow> 'z agent_state_scheme \<Rightarrow> 'z agent_state_scheme" where
  "after_replay r m s =
     (if mt_status m = Meta_completed_awaiting_upload then resumeArtifactUpload r m (resendJobExitIfCompleted m s)
      else jump r P_done s)"

definition adopt :: "ts \<Rightarrow> nat \<Rightarrow> reconcile_decision \<Rightarrow> attempt_metadata \<Rightarrow> 'z agent_state_scheme \<Rightarrow> 'z agent_state_scheme" where
  "adopt now r dec m s =
     (let s1 = write_decided now dec m s in
      case map_of (ag_liveSenders s1) (mt_attempt_id m) of
        Some q \<Rightarrow>
          jump r (In_recovery (Pd_replay m q))
            (case dc_resume_from_sequence dec of None \<Rightarrow> s1 | Some n \<Rightarrow> run_sender q (\<lambda>_ _ ss. (setAcked n ss, [])) s1)
      | None \<Rightarrow>
          if \<not> recovery_open s1 then after_replay r m s1
          else jump r (In_recovery (Pd_open m (or_else (dc_resume_from_sequence dec) 0))) s1)"

definition handleReconcileDecision :: "ts \<Rightarrow> nat \<Rightarrow> reconcile_decision \<Rightarrow> 'z agent_state_scheme \<Rightarrow> 'z agent_state_scheme" where
  "handleReconcileDecision now r dec s =
     (let attemptId = lr_attempt_id (dc_lease dec);
          meta = readAttemptMetadata attemptId s;
          s0 = start_act r (new_activation 0 (dc_lease dec) P_done) s in
      if \<not> dc_adopt dec
      then (case abandon_begin attemptId (reject_attempt attemptId s0) of
              (True, s1) \<Rightarrow> jump r (In_recovery (Pd_kill meta)) s1
            | (False, s1) \<Rightarrow> jump r (In_recovery (Pd_resources meta)) s1)
      else case meta of None \<Rightarrow> s0 | Some m \<Rightarrow> adopt now r dec m s0)"

text \<open>\<open>replayFromDisk\<close> once the spool is open: a sender of the coordinator, and its replay.\<close>

definition replayFromDisk :: "nat \<Rightarrow> attempt_metadata \<Rightarrow> int \<Rightarrow> 'z agent_state_scheme \<Rightarrow> 'z agent_state_scheme" where
  "replayFromDisk r m resumeFrom s =
     (let dir = mt_spool_dir m;
          s1 = s\<lparr>ag_spools := (ag_spools s)(dir := snd (openAttemptSpool (ag_spools s dir))),
                 ag_senders := (ag_senders s)(r \<mapsto>
                   \<lparr>ls_sender = setAcked resumeFrom (fresh_sender 64), ls_lease = mt_lease m, ls_dir = dir, ls_recovery = True\<rparr>),
                 ag_liveSenders := map_set (mt_attempt_id m) r (ag_liveSenders s)\<rparr>
      in run_sender r startReplay s1)"

definition recovery_step ::
  "agent_world \<Rightarrow> nat \<Rightarrow> activation \<Rightarrow> recovery_pc \<Rightarrow> agent_awaited \<Rightarrow> 'z agent_state_scheme \<Rightarrow> 'z agent_state_scheme" where
  "recovery_step w r a pc aw s =
     (case (pc, aw) of
        (Pu_verify m, _) \<Rightarrow> upload_verified w r m s
      | (Pu_granted, _) \<Rightarrow> jump r P_done s
      | (Pu_failed m, _) \<Rightarrow> jump r (P_rejected (''Error: '' @ m)) s
      | (Pl_list, Anames names) \<Rightarrow> report_next r (listAttemptMetadata names s) s
      | (Pl_kill m ms, _) \<Rightarrow> jump r (In_recovery (Pl_resources m ms)) (clearAttempt (mt_attempt_id m) s)
      | (Pl_resources m ms, _) \<Rightarrow>
          jump r (In_recovery (Pl_rm m ms)) (writeAttemptMetadata (m\<lparr>mt_status := Meta_terminal, mt_updated_at := wd_now w\<rparr>) s)
      | (Pl_rm m ms, _) \<Rightarrow> report_next r ms (removeAttemptMetadata (mt_attempt_id m) s)
      | (Pl_spool m ms, Aok) \<Rightarrow> report_next r ms (spool_inspected m True s)
      | (Pl_spool m ms, Aerr _) \<Rightarrow> report_next r ms (spool_inspected m False s)
      | (Pd_kill meta, _) \<Rightarrow> jump r (In_recovery (Pd_resources meta)) (clearAttempt (lr_attempt_id (act_lease a)) s)
      | (Pd_resources meta, _) \<Rightarrow>
          jump r (In_recovery Pd_rm)
            (case meta of None \<Rightarrow> s | Some m \<Rightarrow> writeAttemptMetadata (m\<lparr>mt_status := Meta_terminal\<rparr>) s)
      | (Pd_rm, _) \<Rightarrow> jump r P_done (removeAttemptMetadata (lr_attempt_id (act_lease a)) s)
      | (Pd_replay m q, Aok) \<Rightarrow> after_replay r m (run_sender q startReplay s)
      | (Pd_replay m q, Aerr msg) \<Rightarrow> jump r (P_rejected msg) s
      | (Pd_open m n, Aok) \<Rightarrow> after_replay r m (replayFromDisk r m n s)
      | (Pd_open m n, Aerr msg) \<Rightarrow> jump r (P_rejected msg) s
      | _ \<Rightarrow> s)"

section \<open>Disconnecting\<close>

definition onDisconnectPark :: "ts \<Rightarrow> string \<Rightarrow> 'z agent_state_scheme \<Rightarrow> 'z agent_state_scheme" where
  "onDisconnectPark now attemptId s =
     (if attemptId = [] then s else case readAttemptMetadata attemptId s of
        None \<Rightarrow> s
      | Some m \<Rightarrow>
          if mt_status m = Meta_terminal then s
          else writeAttemptMetadata
                 (m\<lparr>mt_status := (if mt_status m = Meta_completed_awaiting_upload then mt_status m else Meta_orphaned),
                    mt_updated_at := now\<rparr>) s)"

definition abandonOnDisconnect :: "ts \<Rightarrow> 'z agent_state_scheme \<Rightarrow> 'z agent_state_scheme" where
  "abandonOnDisconnect now s = (fold (onDisconnectPark now) (map fst (ag_attempts s)) s)\<lparr>ag_recSocket := None\<rparr>"

text \<open>Any activation of the executor or the coordinator is resumed here.\<close>

definition resume_agent ::
  "agent_config \<Rightarrow> agent_world \<Rightarrow> nat \<Rightarrow> agent_awaited \<Rightarrow> 'z agent_state_scheme \<Rightarrow> 'z agent_state_scheme" where
  "resume_agent cfg w r aw s =
     (case ag_acts s r of
        None \<Rightarrow> s
      | Some a \<Rightarrow>
          (case act_pc a of
             In_prepare pc \<Rightarrow> prepare_step cfg (wd_now w) r a pc aw s
           | In_run pc \<Rightarrow> run_step cfg w r a pc aw s
           | In_recovery pc \<Rightarrow> recovery_step w r a pc aw s
           | _ \<Rightarrow> misc_step cfg (wd_now w) r a aw s))"

section \<open>The connection\<close>

datatype connect_status = Pairing_pending | Pairing_approved | Authenticated | Rejected | Incompatible_protocol

datatype conn_frame =
    Hello_frame "string option"
  | Challenge_response_frame string
  | Pairing_request_frame
  | Capabilities_frame string
  | Heartbeat_frame bool "(string \<times> string) list" bool bool bool

text \<open>The variables of one \<open>connectOnce\<close>: the state it loaded and whether its promise is settled.\<close>

record conn_local =
  cl_credential :: "string option"
  cl_agentId :: "string option"
  cl_settled :: bool

record connection_state = agent_state +
  cx_hasExecutor :: bool
  cx_socket :: "nat option"
  cx_heartbeat :: "nat option"
  cx_stored :: "string option \<times> string option"
  cx_conns :: "nat \<Rightarrow> conn_local option"
  cx_results :: "(nat \<times> (connect_status \<times> string option) option) list"
  cx_frames :: "(nat \<times> conn_frame) list"
  cx_agentId :: string

record connection_options =
  co_sign :: "string \<Rightarrow> string"
  co_acceptingJobs :: "bool option"

datatype hello_ack =
    Ack_unauthenticated
  | Ack_pairing_pending
  | Ack_pairing_approved string string
  | Ack_authenticated "string option"
  | Ack_incompatible_protocol
  | Ack_rejected

definition hasStoredCredential :: "'z connection_state_scheme \<Rightarrow> bool" where
  "hasStoredCredential s = (truthy (fst (cx_stored s)) \<noteq> None)"

definition conn_send :: "nat \<Rightarrow> conn_frame \<Rightarrow> 'z connection_state_scheme \<Rightarrow> 'z connection_state_scheme" where
  "conn_send k fr s = s\<lparr>cx_frames := cx_frames s @ [(k, fr)]\<rparr>"

definition set_conn :: "nat \<Rightarrow> (conn_local \<Rightarrow> conn_local) \<Rightarrow> 'z connection_state_scheme \<Rightarrow> 'z connection_state_scheme" where
  "set_conn k f s = s\<lparr>cx_conns := (cx_conns s)(k := map_option f (cx_conns s k))\<rparr>"

text \<open>\<open>finish\<close> and the rejection of the promise (\<open>None\<close>), once.\<close>

definition settle_conn :: "nat \<Rightarrow> (connect_status \<times> string option) option \<Rightarrow> 'z connection_state_scheme \<Rightarrow> 'z connection_state_scheme" where
  "settle_conn k res s =
     (case cx_conns s k of
        None \<Rightarrow> s
      | Some c \<Rightarrow> if cl_settled c then s else set_conn k (\<lambda>c. c\<lparr>cl_settled := True\<rparr>) (s\<lparr>cx_results := cx_results s @ [(k, res)]\<rparr>))"

definition connectOnce :: "nat \<Rightarrow> 'z connection_state_scheme \<Rightarrow> 'z connection_state_scheme" where
  "connectOnce k s =
     s\<lparr>cx_socket := Some k,
       cx_conns := (cx_conns s)(k \<mapsto> \<lparr>cl_credential = fst (cx_stored s), cl_agentId = snd (cx_stored s), cl_settled = False\<rparr>)\<rparr>"

definition on_open :: "nat \<Rightarrow> 'z connection_state_scheme \<Rightarrow> 'z connection_state_scheme" where
  "on_open k s =
     (case cx_conns s k of
        None \<Rightarrow> s
      | Some c \<Rightarrow> conn_send k (Hello_frame (cl_credential c)) (s\<lparr>ag_open := set_add k (ag_open s)\<rparr>))"

definition stopHeartbeats :: "'z connection_state_scheme \<Rightarrow> 'z connection_state_scheme" where
  "stopHeartbeats s = s\<lparr>cx_heartbeat := None\<rparr>"

definition sendHeartbeat ::
  "agent_config \<Rightarrow> connection_options \<Rightarrow> agent_world \<Rightarrow> nat \<Rightarrow> 'z connection_state_scheme \<Rightarrow> 'z connection_state_scheme" where
  "sendHeartbeat cfg opts w k s =
     (let busy = cx_hasExecutor s \<and> isBusy s;
          s1 = (if cx_hasExecutor s then renewLeaseDeadline (wd_now w) None s else s);
          freeBytes = or_else (wd_freeBytes w) 0;
          minFree = or_else (gc_diskMinFreeBytes cfg) 0;
          spoolPressure = (cx_hasExecutor s \<and> isUnderSpoolPressure s1);
          diskPressure = (minFree > 0 \<and> freeBytes < minFree);
          accepting = (if diskPressure \<or> spoolPressure then False else or_else (co_acceptingJobs opts) True)
      in conn_send k (Heartbeat_frame busy (if cx_hasExecutor s then getActiveJobs s1 else []) accepting diskPressure spoolPressure) s1)"

definition startHeartbeats ::
  "agent_config \<Rightarrow> connection_options \<Rightarrow> agent_world \<Rightarrow> nat \<Rightarrow> 'z connection_state_scheme \<Rightarrow> 'z connection_state_scheme" where
  "startHeartbeats cfg opts w k s = (sendHeartbeat cfg opts w k (stopHeartbeats s))\<lparr>cx_heartbeat := Some k\<rparr>"

definition heartbeat_tick ::
  "agent_config \<Rightarrow> connection_options \<Rightarrow> agent_world \<Rightarrow> 'z connection_state_scheme \<Rightarrow> 'z connection_state_scheme" where
  "heartbeat_tick cfg opts w s =
     (case cx_heartbeat s of
        None \<Rightarrow> s
      | Some k \<Rightarrow> if k \<notin> set (ag_open s) then stopHeartbeats s else sendHeartbeat cfg opts w k s)"

text \<open>\<open>hello_ack\<close> with status \<open>authenticated\<close>; \<open>wd_act\<close> numbers the recovery scan.\<close>

definition on_authenticated ::
  "agent_config \<Rightarrow> connection_options \<Rightarrow> agent_world \<Rightarrow> nat \<Rightarrow> string \<Rightarrow> 'z connection_state_scheme \<Rightarrow> 'z connection_state_scheme" where
  "on_authenticated cfg opts w k agentId s =
     (case cx_conns s k of
        None \<Rightarrow> s
      | Some c \<Rightarrow>
          (let s1 = s\<lparr>cx_stored := (cl_credential c, Some agentId), cx_agentId := agentId\<rparr>;
               s2 = conn_send k (Capabilities_frame agentId) s1;
               s3 = s2\<lparr>ag_recSocket := Some k, ag_socket := k, cx_hasExecutor := True\<rparr>;
               s4 = reportAll (wd_act w) s3;
               s5 = startHeartbeats cfg opts w k s4
           in settle_conn k (Some (Authenticated, Some agentId)) s5))"

definition on_hello_ack ::
  "agent_config \<Rightarrow> connection_options \<Rightarrow> agent_world \<Rightarrow> nat \<Rightarrow> hello_ack \<Rightarrow> 'z connection_state_scheme \<Rightarrow> 'z connection_state_scheme" where
  "on_hello_ack cfg opts w k ack s =
     (case ack of
        Ack_unauthenticated \<Rightarrow> conn_send k Pairing_request_frame s
      | Ack_pairing_pending \<Rightarrow> settle_conn k (Some (Pairing_pending, None)) s
      | Ack_pairing_approved credential agentId \<Rightarrow>
          conn_send k (Hello_frame (Some credential))
            (set_conn k (\<lambda>c. c\<lparr>cl_credential := Some credential, cl_agentId := Some agentId\<rparr>)
              (s\<lparr>cx_stored := (Some credential, Some agentId)\<rparr>))
      | Ack_authenticated agentId \<Rightarrow>
          on_authenticated cfg opts w k (or_else agentId (or_else (Option.bind (cx_conns s k) cl_agentId) [])) s
      | Ack_incompatible_protocol \<Rightarrow> settle_conn k (Some (Incompatible_protocol, None)) s
      | Ack_rejected \<Rightarrow>
          if truthy (Option.bind (cx_conns s k) cl_credential) \<noteq> None
          then conn_send k Pairing_request_frame
                 (set_conn k (\<lambda>c. c\<lparr>cl_credential := None, cl_agentId := None\<rparr>) (s\<lparr>cx_stored := (None, None)\<rparr>))
          else settle_conn k (Some (Rejected, None)) s)"

definition on_challenge :: "connection_options \<Rightarrow> nat \<Rightarrow> string \<Rightarrow> 'z connection_state_scheme \<Rightarrow> 'z connection_state_scheme" where
  "on_challenge opts k nonce s = conn_send k (Challenge_response_frame (co_sign opts nonce)) s"

definition on_socket_close :: "ts \<Rightarrow> nat \<Rightarrow> 'z connection_state_scheme \<Rightarrow> 'z connection_state_scheme" where
  "on_socket_close now k s =
     (let s1 = stopHeartbeats (s\<lparr>ag_open := removeAll k (ag_open s)\<rparr>);
          s2 = (if cx_hasExecutor s1 then abandonOnDisconnect now s1 else s1)
      in settle_conn k None s2)"

text \<open>
  \<open>close\<close>: the socket leaves the state \<open>OPEN\<close> at once, its \<open>close\<close> event comes later.
  \<open>killProcess\<close> is set when the Agent shuts down; it does not connect again after that.
\<close>

definition close_connection :: "ts \<Rightarrow> nat \<Rightarrow> bool \<Rightarrow> 'z connection_state_scheme \<Rightarrow> 'z connection_state_scheme" where
  "close_connection now r killProcess s =
     (let s1 = stopHeartbeats s;
          s2 = (if killProcess
                then (if cx_hasExecutor s1 then forceAbandon r (s1\<lparr>cx_hasExecutor := False\<rparr>) else s1)
                else if cx_hasExecutor s1 then abandonOnDisconnect now s1 else s1)
      in case cx_socket s2 of
           None \<Rightarrow> s2
         | Some k \<Rightarrow> s2\<lparr>ag_open := removeAll k (ag_open s2), cx_socket := None\<rparr>)"

section \<open>The event loop\<close>

text \<open>The messages of the Controller that the executor and the coordinator handle.\<close>

datatype agent_message =
    G_lease_offer lease_offer
  | G_prepare_source prepare_source
  | G_run_job
  | G_bundle_download
  | G_artifact_upload_grant
  | G_cancel_job "string option"
  | G_log_ack int
  | G_reconcile_decision bool "int option" "string option"

definition on_job_message ::
  "agent_config \<Rightarrow> agent_world \<Rightarrow> lease_ref \<Rightarrow> agent_message \<Rightarrow> 'z agent_state_scheme \<Rightarrow> 'z agent_state_scheme" where
  "on_job_message cfg w p m s =
     (let r = wd_act w in
      case m of
        G_lease_offer offer \<Rightarrow> handleLeaseOffer cfg w p offer s
      | G_prepare_source prep \<Rightarrow> handlePrepareSource r p prep s
      | G_run_job \<Rightarrow> handleRunJob r p s
      | G_bundle_download \<Rightarrow> handleBundleDownload p s
      | G_artifact_upload_grant \<Rightarrow> handleArtifactUploadGrant p s
      | G_cancel_job reason \<Rightarrow> handleCancelJob r p reason s
      | G_log_ack sequence \<Rightarrow> handleLogAck r p sequence s
      | G_reconcile_decision b from reason \<Rightarrow>
          handleReconcileDecision (wd_now w) r
            \<lparr>dc_lease = p, dc_adopt = b, dc_resume_from_sequence = from, dc_reason = reason\<rparr> s)"

text \<open>What the Controller issued for each attempt: one lease and one offer.\<close>

type_synonym offer_table = "string \<Rightarrow> lease_ref \<times> lease_offer"

inductive agent_step :: "agent_config \<Rightarrow> connection_options \<Rightarrow> offer_table \<Rightarrow> connection_state \<Rightarrow> connection_state \<Rightarrow> bool"
  for cfg :: agent_config and opts :: connection_options and offers :: offer_table where
  message: "cx_hasExecutor s \<Longrightarrow> ag_acts s (wd_act w) = None \<Longrightarrow>
    (\<And>offer. m = G_lease_offer offer \<Longrightarrow> offers (lr_attempt_id p) = (p, offer)) \<Longrightarrow>
    agent_step cfg opts offers s (on_job_message cfg w p m s)"
| resume: "ag_acts s (wd_act w) = None \<Longrightarrow> agent_step cfg opts offers s (resume_agent cfg w r aw s)"
| lease_timer: "ag_acts s r = None \<Longrightarrow> rt_leaseTimer (ag_obj s addr) = Some t \<Longrightarrow> t \<le> now \<Longrightarrow>
    agent_step cfg opts offers s (onLeaseExpired cfg now r (rt_attemptId (ag_obj s addr)) (clearLeaseTimer addr s))"
| bundle_timer: "agent_step cfg opts offers s (bundle_timeout addr s)"
| upload_timer: "waits_for_grant r s \<Longrightarrow> ag_acts s r = Some a \<Longrightarrow>
    agent_step cfg opts offers s (upload_timeout r (lr_attempt_id (act_lease a)) s)"
| child_data: "agent_step cfg opts offers s (child_output r st raw s)"
| spool_write: "agent_step cfg opts offers s (chain_step cfg addr ok s)"
| removal: "agent_step cfg opts offers s (finish_removal attemptId s)"
| connect: "cx_conns s k = None \<Longrightarrow> agent_step cfg opts offers s (connectOnce k s)"
| opened: "agent_step cfg opts offers s (on_open k s)"
| challenge: "agent_step cfg opts offers s (on_challenge opts k nonce s)"
| hello: "ag_acts s (wd_act w) = None \<Longrightarrow> agent_step cfg opts offers s (on_hello_ack cfg opts w k ack s)"
| heartbeat: "agent_step cfg opts offers s (heartbeat_tick cfg opts w s)"
| socket_closed: "agent_step cfg opts offers s (on_socket_close now k s)"
| closed: "ag_acts s r = None \<Longrightarrow> agent_step cfg opts offers s (close_connection now r killProcess s)"

end
