(* ===== verification/Agent_Laws.thy ===== *)
theory Agent_Laws
  imports Agent_Recovery
begin

text \<open>
  The invariant of the Agent process and its preservation by every handler, resumption and timer.

  \<open>offers\<close> is what the Controller issued for each attempt: one lease and one offer. The invariant says
  that the registry is a map to live objects, that every object, activation, metadata record, sender and
  sent frame carries the issued lease of its attempt, that a registered attempt of a destructive or
  hardware job has an armed lease timer until it is marked expired, and that at most \<open>maxJobs\<close>
  registered attempts came from an offer.
\<close>

section \<open>The invariant\<close>

definition issued :: "offer_table \<Rightarrow> lease_ref \<Rightarrow> bool" where
  "issued offers p = (p = fst (offers (lr_attempt_id p)))"

definition risk_of :: "offer_table \<Rightarrow> string \<Rightarrow> risk_level" where
  "risk_of offers x = or_else (rqst_risk_level (lo_job_request (snd (offers x)))) Normal"

definition meta_ok :: "offer_table \<Rightarrow> attempt_metadata \<Rightarrow> bool" where
  "meta_ok offers m = (issued offers (mt_lease m) \<and> mt_risk_level m = risk_of offers (mt_attempt_id m))"

text \<open>The part of a runtime the invariant is about.\<close>

type_synonym core = "string \<times> (lease_ref \<times> lease_offer) option \<times> risk_level \<times> ts option \<times> ts option \<times> bool"

definition core :: "attempt_runtime \<Rightarrow> core" where
  "core t = (rt_attemptId t, rt_offer t, rt_leaseRisk t, rt_leaseDeadlineMs t, rt_leaseTimer t, rt_leaseExpired t)"

definition obj_ok :: "offer_table \<Rightarrow> attempt_runtime \<Rightarrow> bool" where
  "obj_ok offers t =
     (\<forall>po. rt_offer t = Some po \<longrightarrow>
        po = offers (rt_attemptId t) \<and> issued offers (fst po) \<and> lr_attempt_id (fst po) = rt_attemptId t \<and>
        rt_leaseRisk t = risk_of offers (rt_attemptId t))"

text \<open>A registered runtime of a destructive job that was not marked expired has its timer armed.\<close>

definition watched :: "attempt_runtime \<Rightarrow> bool" where
  "watched t = (rt_offer t \<noteq> None \<and> isDestructiveOrHardware (rt_leaseRisk t) \<and> \<not> rt_leaseExpired t \<longrightarrow>
                rt_leaseTimer t \<noteq> None \<and> rt_leaseDeadlineMs t \<noteq> None)"

definition serves :: "activation \<Rightarrow> attempt_runtime \<Rightarrow> bool" where
  "serves a t = (\<exists>offer. rt_offer t = Some (act_lease a, offer))"

fun pc_metas :: "recovery_pc \<Rightarrow> attempt_metadata list" where
  "pc_metas (Pu_verify m) = [m]"
| "pc_metas (Pl_kill m ms) = m # ms"
| "pc_metas (Pl_resources m ms) = m # ms"
| "pc_metas (Pl_rm m ms) = m # ms"
| "pc_metas (Pl_spool m ms) = m # ms"
| "pc_metas (Pd_kill meta) = (case meta of None \<Rightarrow> [] | Some m \<Rightarrow> [m])"
| "pc_metas (Pd_resources meta) = (case meta of None \<Rightarrow> [] | Some m \<Rightarrow> [m])"
| "pc_metas (Pd_replay m q) = [m]"
| "pc_metas (Pd_open m n) = [m]"
| "pc_metas _ = []"

definition pc_ok :: "offer_table \<Rightarrow> agent_pc \<Rightarrow> bool" where
  "pc_ok offers pc = (case pc of In_recovery q \<Rightarrow> list_all (meta_ok offers) (pc_metas q) | _ \<Rightarrow> True)"

text \<open>Where an activation works under the lease of its object.\<close>

definition serving_pc :: "agent_pc \<Rightarrow> bool" where
  "serving_pc pc = (case pc of In_prepare _ \<Rightarrow> True | In_run _ \<Rightarrow> True | P_rm_clear \<Rightarrow> True | Pk_rm _ \<Rightarrow> True | _ \<Rightarrow> False)"

definition act_ok :: "offer_table \<Rightarrow> activation \<Rightarrow> attempt_runtime \<Rightarrow> bool" where
  "act_ok offers a t = ((serving_pc (act_pc a) \<longrightarrow> serves a t) \<and> pc_ok offers (act_pc a))"

definition slots_used :: "'z agent_state_scheme \<Rightarrow> nat" where
  "slots_used s = length (filter (\<lambda>(_, addr). rt_offer (ag_obj s addr) \<noteq> None) (ag_attempts s))"

definition registry_ok :: "agent_config \<Rightarrow> 'z agent_state_scheme \<Rightarrow> bool" where
  "registry_ok cfg s =
     (distinct (map fst (ag_attempts s)) \<and> int (slots_used s) \<le> max 0 (maxJobs cfg) \<and>
      (\<forall>x addr. current x s = Some addr \<longrightarrow> addr < ag_next s \<and> rt_attemptId (ag_obj s addr) = x \<and> watched (ag_obj s addr)))"

definition leases_ok :: "offer_table \<Rightarrow> 'z agent_state_scheme \<Rightarrow> bool" where
  "leases_ok offers s =
     ((\<forall>addr. obj_ok offers (ag_obj s addr) \<and> (rt_offer (ag_obj s addr) \<noteq> None \<longrightarrow> addr < ag_next s)) \<and>
      (\<forall>r a. ag_acts s r = Some a \<longrightarrow> act_ok offers a (ag_obj s (act_obj a))) \<and>
      (\<forall>x m. ag_meta s x = Some m \<longrightarrow> mt_attempt_id m = x \<and> meta_ok offers m) \<and>
      (\<forall>q ls. ag_senders s q = Some ls \<longrightarrow> issued offers (ls_lease ls)) \<and>
      list_all (\<lambda>(_, p, _). issued offers p) (ag_sent s))"

definition agent_ok :: "agent_config \<Rightarrow> offer_table \<Rightarrow> 'z agent_state_scheme \<Rightarrow> bool" where
  "agent_ok cfg offers s = (registry_ok cfg s \<and> leases_ok offers s)"

text \<open>
  The invariant while activation \<open>r\<close> runs: if it works on an object under a lease (\<open>w\<close>), the object
  holds the offer of that lease.
\<close>

definition works :: "(nat \<times> lease_ref) option \<Rightarrow> nat \<Rightarrow> 'z agent_state_scheme \<Rightarrow> bool" where
  "works w r s =
     (\<forall>addr p. w = Some (addr, p) \<longrightarrow> (\<exists>offer. rt_offer (ag_obj s addr) = Some (p, offer)) \<and>
        (\<forall>a. ag_acts s r = Some a \<longrightarrow> act_obj a = addr \<and> act_lease a = p))"

definition agent_ok_for :: "agent_config \<Rightarrow> offer_table \<Rightarrow> (nat \<times> lease_ref) option \<Rightarrow> nat \<Rightarrow> 'z agent_state_scheme \<Rightarrow> bool" where
  "agent_ok_for cfg offers w r s = (agent_ok cfg offers s \<and> works w r s)"

section \<open>Primitive operations\<close>

lemma set_obj_obj [simp]: "ag_obj (set_obj addr f s) = (ag_obj s)(addr := f (ag_obj s addr))"
  and set_obj_fields [simp]: "ag_attempts (set_obj addr f s) = ag_attempts s" "ag_next (set_obj addr f s) = ag_next s"
    "ag_acts (set_obj addr f s) = ag_acts s" "ag_meta (set_obj addr f s) = ag_meta s" "ag_senders (set_obj addr f s) = ag_senders s"
    "ag_sent (set_obj addr f s) = ag_sent s" "current x (set_obj addr f s) = current x s"
  by (simp_all add: set_obj_def current_def)

lemma core_cong:
  assumes "core t = core u"
  shows "rt_attemptId t = rt_attemptId u" "rt_offer t = rt_offer u" "obj_ok offers t = obj_ok offers u" "watched t = watched u"
    "serves a t = serves a u" "act_ok offers a t = act_ok offers a u"
  using assms by (simp_all add: core_def obj_ok_def watched_def serves_def act_ok_def split: option.split)

text \<open>States that agree on what the invariant reads.\<close>

definition same_core :: "'z agent_state_scheme \<Rightarrow> 'z agent_state_scheme \<Rightarrow> bool" where
  "same_core s t =
     (ag_attempts t = ag_attempts s \<and> ag_next t = ag_next s \<and> (\<forall>addr. core (ag_obj t addr) = core (ag_obj s addr)))"

lemma registry_cong: "same_core s t \<Longrightarrow> registry_ok cfg t = registry_ok cfg s"
proof -
  assume c: "same_core s t"
  then have eq: "core (ag_obj t addr) = core (ag_obj s addr)" for addr by (simp add: same_core_def)
  note core_cong [OF eq]
  then show ?thesis using c by (simp add: registry_ok_def slots_used_def same_core_def current_def)
qed

lemma leases_cong:
  "same_core s t \<Longrightarrow> ag_acts t = ag_acts s \<Longrightarrow> ag_meta t = ag_meta s \<Longrightarrow> ag_senders t = ag_senders s \<Longrightarrow> ag_sent t = ag_sent s \<Longrightarrow>
     leases_ok offers t = leases_ok offers s"
proof -
  assume c: "same_core s t" and e: "ag_acts t = ag_acts s" "ag_meta t = ag_meta s" "ag_senders t = ag_senders s" "ag_sent t = ag_sent s"
  then have eq: "core (ag_obj t addr) = core (ag_obj s addr)" for addr by (simp add: same_core_def)
  note core_cong [OF eq]
  then show ?thesis using c e by (simp add: leases_ok_def same_core_def)
qed

named_theorems keep \<open>operations that keep the invariant\<close>

lemma ok_cong:
  assumes "agent_ok_for cfg offers w r s" and "same_core s t" "ag_acts t = ag_acts s" "ag_meta t = ag_meta s" "ag_senders t = ag_senders s"
    "ag_sent t = ag_sent s"
  shows "agent_ok_for cfg offers w r t"
proof -
  have eq: "core (ag_obj t addr) = core (ag_obj s addr)" for addr using assms(2) by (simp add: same_core_def)
  note core_cong [OF eq]
  then show ?thesis using assms by (simp add: agent_ok_for_def agent_ok_def works_def registry_cong leases_cong)
qed

lemma ok_set_obj [keep]:
  "agent_ok_for cfg offers w r s \<Longrightarrow> (\<And>t. core (f t) = core t) \<Longrightarrow> agent_ok_for cfg offers w r (set_obj addr f s)"
  by (rule ok_cong) (auto simp: same_core_def)

lemma ok_other_fields [keep]:
  assumes "agent_ok_for cfg offers w r s"
  shows "agent_ok_for cfg offers w r (s\<lparr>ag_open := x1\<rparr>)" "agent_ok_for cfg offers w r (s\<lparr>ag_recSocket := x2\<rparr>)"
    "agent_ok_for cfg offers w r (s\<lparr>ag_rejected := x3\<rparr>)" "agent_ok_for cfg offers w r (s\<lparr>ag_liveSenders := x4\<rparr>)"
    "agent_ok_for cfg offers w r (s\<lparr>ag_removals := x5\<rparr>)" "agent_ok_for cfg offers w r (s\<lparr>ag_spools := x6\<rparr>)"
    "agent_ok_for cfg offers w r (s\<lparr>ag_spawned := x7\<rparr>)" "agent_ok_for cfg offers w r (s\<lparr>ag_kills := x8\<rparr>)"
    "agent_ok_for cfg offers w r (s\<lparr>ag_cacheHeld := x9\<rparr>)" "agent_ok_for cfg offers w r (s\<lparr>ag_published := x10\<rparr>)"
    "agent_ok_for cfg offers w r (s\<lparr>ag_socket := x11\<rparr>)"
  using assms by - (rule ok_cong; simp add: same_core_def; fail)+

lemma ok_kill [keep]: "agent_ok_for cfg offers w r s \<Longrightarrow> agent_ok_for cfg offers w r (kill_child c s)"
  unfolding kill_child_def by (rule keep)

lemma ok_send [keep]: "agent_ok_for cfg offers w r s \<Longrightarrow> issued offers p \<Longrightarrow> agent_ok_for cfg offers w r (sendFrame p m s)"
  by (simp add: agent_ok_for_def agent_ok_def registry_ok_def leases_ok_def sendFrame_def works_def slots_used_def current_def)

lemma ok_send_scoped [keep]: "agent_ok_for cfg offers w r s \<Longrightarrow> issued offers p \<Longrightarrow> agent_ok_for cfg offers w r (sendJobScoped p fr s)"
  by (simp add: agent_ok_for_def agent_ok_def registry_ok_def leases_ok_def sendJobScoped_def works_def slots_used_def current_def split: option.split)

lemma ok_write_meta [keep]:
  "agent_ok_for cfg offers w r s \<Longrightarrow> meta_ok offers m \<Longrightarrow> agent_ok_for cfg offers w r (writeAttemptMetadata m s)"
  by (simp add: agent_ok_for_def agent_ok_def registry_ok_def leases_ok_def writeAttemptMetadata_def works_def slots_used_def current_def)

lemma ok_remove_meta [keep]: "agent_ok_for cfg offers w r s \<Longrightarrow> agent_ok_for cfg offers w r (removeAttemptMetadata x s)"
  by (simp add: agent_ok_for_def agent_ok_def registry_ok_def leases_ok_def removeAttemptMetadata_def works_def slots_used_def current_def)

text \<open>Activations: \<open>r\<close> is the one that runs; a function that keeps lease and object keeps what it serves.\<close>

lemma ok_acts:
  assumes ok: "agent_ok_for cfg offers w r s"
    and new: "\<And>q a. g q = Some a \<Longrightarrow> ag_acts s q = Some a \<or>
       act_ok offers a (ag_obj s (act_obj a)) \<and> (q = r \<longrightarrow> w = None \<or> w = Some (act_obj a, act_lease a))"
  shows "agent_ok_for cfg offers w r (s\<lparr>ag_acts := g\<rparr>)"
proof -
  have "act_ok offers a (ag_obj s (act_obj a))" if "g q = Some a" for q a
    using new [OF that] ok by (auto simp: agent_ok_for_def agent_ok_def leases_ok_def)
  then have "agent_ok cfg offers (s\<lparr>ag_acts := g\<rparr>)"
    using ok by (simp add: agent_ok_for_def agent_ok_def registry_ok_def leases_ok_def slots_used_def current_def)
  moreover have "act_obj a = addr \<and> act_lease a = p" if "g r = Some a" "w = Some (addr, p)" for a addr p
    using new [OF that(1)] ok that(2) by (auto simp: agent_ok_for_def works_def)
  then have "works w r (s\<lparr>ag_acts := g\<rparr>)" using ok by (simp add: agent_ok_for_def works_def)
  ultimately show ?thesis by (simp add: agent_ok_for_def)
qed

text \<open>A change of activations that keeps object and lease.\<close>

lemma ok_change_act:
  assumes ok: "agent_ok_for cfg offers w r s"
    and f: "\<And>a. act_obj (f a) = act_obj a \<and> act_lease (f a) = act_lease a"
    and pc: "\<And>a. ag_acts s q = Some a \<Longrightarrow> act_ok offers a (ag_obj s (act_obj a)) \<Longrightarrow> act_ok offers (f a) (ag_obj s (act_obj a))"
  shows "agent_ok_for cfg offers w r (set_act q f s)"
  unfolding set_act_def
proof (rule ok_acts [OF ok])
  fix q' a
  assume a: "((ag_acts s)(q := map_option f (ag_acts s q))) q' = Some a"
  show "ag_acts s q' = Some a \<or> act_ok offers a (ag_obj s (act_obj a)) \<and> (q' = r \<longrightarrow> w = None \<or> w = Some (act_obj a, act_lease a))"
  proof (cases "q' = q")
    case True
    with a obtain c where c: "ag_acts s q = Some c" "a = f c" by auto
    then have "act_ok offers c (ag_obj s (act_obj c))" "q = r \<longrightarrow> w = None \<or> w = Some (act_obj c, act_lease c)"
      using ok by (cases w; force simp: agent_ok_for_def agent_ok_def leases_ok_def works_def)+
    with f [of c] c pc True show ?thesis by simp
  qed (use a in simp)
qed

lemma ok_set_act [keep]:
  "agent_ok_for cfg offers w r s \<Longrightarrow> (\<And>a. act_obj (f a) = act_obj a \<and> act_lease (f a) = act_lease a \<and> act_pc (f a) = act_pc a) \<Longrightarrow>
     agent_ok_for cfg offers w r (set_act q f s)"
  by (rule ok_change_act) (simp_all add: act_ok_def serves_def)

lemma pc_ok_simps [simp]:
  "pc_ok offers (In_prepare x1)" "pc_ok offers (In_run x2)" "pc_ok offers P_rm_clear" "pc_ok offers (Pk_rm x3)" "pc_ok offers Px_kill"
  "pc_ok offers (Pa_write x4 x5)" "pc_ok offers (Pb_kill x6 x7)" "pc_ok offers P_done" "pc_ok offers (P_rejected x8)"
  "pc_ok offers (In_recovery pc) = list_all (meta_ok offers) (pc_metas pc)"
  by (simp_all add: pc_ok_def)

lemma serving_pc_simps [simp]:
  "serving_pc (In_prepare x1)" "serving_pc (In_run x2)" "serving_pc P_rm_clear" "serving_pc (Pk_rm x3)" "\<not> serving_pc Px_kill"
  "\<not> serving_pc (Pa_write x4 x5)" "\<not> serving_pc (Pb_kill x6 x7)" "\<not> serving_pc P_done" "\<not> serving_pc (P_rejected x8)"
  "\<not> serving_pc (In_recovery x9)"
  by (simp_all add: serving_pc_def)

lemma ok_set_pc:
  assumes ok: "agent_ok_for cfg offers w r s"
    and f: "\<And>a. act_obj (f a) = act_obj a \<and> act_lease (f a) = act_lease a \<and> pc_ok offers (act_pc (f a)) \<and> (serving_pc (act_pc (f a)) \<longrightarrow> w \<noteq> None)"
  shows "agent_ok_for cfg offers w r (set_act r f s)"
proof (rule ok_change_act [OF ok])
  fix a
  assume a: "ag_acts s r = Some a"
  have "w \<noteq> None \<Longrightarrow> serves a (ag_obj s (act_obj a))" using ok a by (force simp: agent_ok_for_def works_def serves_def)
  with f [of a] show "act_ok offers (f a) (ag_obj s (act_obj a))" by (auto simp: act_ok_def serves_def)
qed (use f in blast)

lemma ok_jump [keep]:
  "agent_ok_for cfg offers w r s \<Longrightarrow> pc_ok offers pc \<Longrightarrow> (serving_pc pc \<Longrightarrow> w \<noteq> None) \<Longrightarrow> agent_ok_for cfg offers w r (jump r pc s)"
  unfolding jump_def by (rule ok_set_pc) auto

lemma ok_start [keep]:
  "agent_ok_for cfg offers w r s \<Longrightarrow> act_ok offers a (ag_obj s (act_obj a)) \<Longrightarrow> (q = r \<Longrightarrow> w = None \<or> w = Some (act_obj a, act_lease a)) \<Longrightarrow>
     agent_ok_for cfg offers w r (start_act q a s)"
  unfolding start_act_def by (rule ok_acts) (auto split: if_splits)

text \<open>Settling the promise another activation waits for.\<close>

lemma ok_settle:
  "agent_ok_for cfg offers w r s \<Longrightarrow>
   (\<And>a. act_obj (f a) = act_obj a \<and> act_lease (f a) = act_lease a \<and>
       serving_pc (act_pc (f a)) = serving_pc (act_pc a) \<and> (pc_ok offers (act_pc a) \<longrightarrow> pc_ok offers (act_pc (f a)))) \<Longrightarrow>
   agent_ok_for cfg offers w r (set_act q f s)"
  by (rule ok_change_act) (simp_all add: act_ok_def serves_def)

lemma ok_settle_bundle [keep]: "agent_ok_for cfg offers w r s \<Longrightarrow> agent_ok_for cfg offers w r (settle_bundle q (In_prepare pc) s)"
  unfolding settle_bundle_def by (rule ok_settle) simp_all

lemma ok_grant_upload [keep]: "agent_ok_for cfg offers w r s \<Longrightarrow> agent_ok_for cfg offers w r (grant_upload q s)"
  unfolding grant_upload_def by (rule ok_settle) (simp_all split: agent_pc.split job_pc.split recovery_pc.split)

lemma ok_reject_upload [keep]: "agent_ok_for cfg offers w r s \<Longrightarrow> agent_ok_for cfg offers w r (reject_upload q msg s)"
  unfolding reject_upload_def by (rule ok_settle) (simp_all split: agent_pc.split job_pc.split recovery_pc.split)

text \<open>Senders.\<close>

lemma ok_senders [keep]:
  assumes ok: "agent_ok_for cfg offers w r s"
    and new: "\<And>q ls. g q = Some ls \<Longrightarrow> ag_senders s q = Some ls \<or> issued offers (ls_lease ls)"
  shows "agent_ok_for cfg offers w r (s\<lparr>ag_senders := g\<rparr>)"
proof -
  have "issued offers (ls_lease ls)" if "g q = Some ls" for q ls
    using new [OF that] ok by (auto simp: agent_ok_for_def agent_ok_def leases_ok_def)
  with ok show ?thesis by (simp add: agent_ok_for_def agent_ok_def registry_ok_def leases_ok_def works_def slots_used_def current_def)
qed

lemma ok_send_chunks:
  "agent_ok_for cfg offers w r s \<Longrightarrow> issued offers (ls_lease ls) \<Longrightarrow> agent_ok_for cfg offers w r (fold (send_chunk ls) cs s)"
proof (induction cs arbitrary: s)
  case (Cons c cs)
  have "agent_ok_for cfg offers w r (send_chunk ls c s)"
    using Cons.prems by (auto simp: send_chunk_def intro!: keep split: prod.split)
  with Cons.IH Cons.prems(2) show ?case by simp
qed simp

lemma ok_run_sender [keep]: "agent_ok_for cfg offers w r s \<Longrightarrow> agent_ok_for cfg offers w r (run_sender q f s)"
proof (cases "ag_senders s q")
  case (Some ls)
  assume ok: "agent_ok_for cfg offers w r s"
  with Some have "issued offers (ls_lease ls)" by (auto simp: agent_ok_for_def agent_ok_def leases_ok_def)
  with ok Some show ?thesis
    by (auto simp: run_sender_def intro!: ok_send_chunks ok_senders split: prod.split if_splits)
qed (simp add: run_sender_def)

section \<open>The registry and the lease timers\<close>

lemma map_delete_filter: "map_delete k m = filter (\<lambda>e. fst e \<noteq> k) m"
  by (induction m) auto

lemma keys_map_set: "fst ` set (map_set k v m) = insert k (fst ` set m)"
  using arg_cong [OF map_of_map_set [of k v m], of dom] by (simp add: dom_map_of_conv_image_fst)

lemma distinct_map_delete: "distinct (map fst m) \<Longrightarrow> distinct (map fst (map_delete k m))"
  by (simp add: map_delete_filter distinct_map_filter)

lemma distinct_map_set: "distinct (map fst m) \<Longrightarrow> distinct (map fst (map_set k v m))"
proof (induction m)
  case (Cons e m)
  then show ?case using keys_map_set [of k v m] by (cases e) (auto simp: map_delete_filter distinct_map_filter)
qed simp

lemma map_set_length: "distinct (map fst m) \<Longrightarrow> length (map_set k v m) \<le> length m + 1"
  by (induction m) (auto simp: map_delete_filter le_SucI)

lemma map_set_new: "map_of m k = None \<Longrightarrow> map_set k v m = m @ [(k, v)]"
  by (induction m) (auto split: if_splits)

lemma length_filter_delete: "length (filter P (map_delete k m)) \<le> length (filter P m)"
  by (induction m) auto

lemma ok_set_obj_gen:
  assumes ok: "agent_ok_for cfg offers w r s"
    and f: "rt_attemptId (f (ag_obj s addr)) = rt_attemptId (ag_obj s addr)" "rt_offer (f (ag_obj s addr)) = rt_offer (ag_obj s addr)"
      "obj_ok offers (f (ag_obj s addr))"
    and w: "current (rt_attemptId (ag_obj s addr)) s = Some addr \<Longrightarrow> watched (f (ag_obj s addr))"
  shows "agent_ok_for cfg offers w r (set_obj addr f s)"
proof -
  have off: "rt_offer (((ag_obj s)(addr := f (ag_obj s addr))) x) = rt_offer (ag_obj s x)" for x using f(2) by simp
  then have srv: "serves a (((ag_obj s)(addr := f (ag_obj s addr))) x) = serves a (ag_obj s x)" for a x by (simp add: serves_def)
  have "registry_ok cfg (set_obj addr f s)" unfolding registry_ok_def slots_used_def
    using ok f(1) w by (simp only: set_obj_obj set_obj_fields off) (simp add: agent_ok_for_def agent_ok_def registry_ok_def slots_used_def)
  moreover have "leases_ok offers (set_obj addr f s)"
    using ok f off srv by (simp add: agent_ok_for_def agent_ok_def leases_ok_def act_ok_def)
  ultimately show ?thesis using ok off by (simp add: agent_ok_for_def agent_ok_def works_def)
qed

lemma okD:
  assumes "agent_ok_for cfg offers w r s"
  shows "distinct (map fst (ag_attempts s))" "int (slots_used s) \<le> max 0 (maxJobs cfg)"
    "current x s = Some addr \<Longrightarrow> addr < ag_next s" "current x s = Some addr \<Longrightarrow> rt_attemptId (ag_obj s addr) = x"
    "current x s = Some addr \<Longrightarrow> watched (ag_obj s addr)" "obj_ok offers (ag_obj s ad)" "rt_offer (ag_obj s ad) \<noteq> None \<Longrightarrow> ad < ag_next s"
    "ag_acts s q = Some a \<Longrightarrow> act_ok offers a (ag_obj s (act_obj a))" "ag_meta s x = Some m \<Longrightarrow> mt_attempt_id m = x"
    "ag_meta s x = Some m \<Longrightarrow> meta_ok offers m"
  using assms by (auto simp: agent_ok_for_def agent_ok_def registry_ok_def leases_ok_def simp del: split_paired_Ex)

text \<open>Removing an attempt from the registry.\<close>

lemma ok_drop:
  assumes ok: "agent_ok_for cfg offers w r s" and cur: "current x s = Some addr"
  shows "agent_ok_for cfg offers w r (clearLeaseTimer addr (s\<lparr>ag_attempts := map_delete x (ag_attempts s)\<rparr>))"
proof -
  let ?s = "s\<lparr>ag_attempts := map_delete x (ag_attempts s)\<rparr>"
  note d = okD [OF ok]
  have cur': "current y ?s = (if y = x then None else current y s)" for y by (simp add: current_def map_of_map_delete)
  have "slots_used ?s \<le> slots_used s" by (simp add: slots_used_def length_filter_delete del: not_None_eq)
  then have "registry_ok cfg ?s" using d(1-5) by (auto simp: registry_ok_def cur' distinct_map_delete split: if_splits)
  moreover have "leases_ok offers ?s" using ok by (simp add: agent_ok_for_def agent_ok_def leases_ok_def)
  ultimately have ok': "agent_ok_for cfg offers w r ?s" using ok by (simp add: agent_ok_for_def agent_ok_def works_def)
  have "current (rt_attemptId (ag_obj s addr)) ?s = None" using d(4) [OF cur] by (simp add: cur')
  then show ?thesis unfolding clearLeaseTimer_def
    using d(6) [of addr] by (intro ok_set_obj_gen [OF ok']) (simp_all add: obj_ok_def)
qed

lemma ok_reject_pending [keep]:
  assumes "agent_ok_for cfg offers w r s"
  shows "agent_ok_for cfg offers w r (reject_pending_upload addr msg s)" "agent_ok_for cfg offers w r (reject_pending_bundle addr msg s)"
  using assms by (auto simp: reject_pending_upload_def reject_pending_bundle_def core_def intro!: keep split: option.split)

lemma ok_clearAttempt [keep]:
  assumes ok: "agent_ok_for cfg offers w r s"
  shows "agent_ok_for cfg offers w r (clearAttempt x s)"
proof (cases "current x s")
  case (Some addr)
  have "clearAttempt x s = reject_pending_bundle addr ''attempt cleared'' (reject_pending_upload addr ''attempt cleared''
      (clearLeaseTimer addr ((clearLiveSender x s)\<lparr>ag_attempts := map_delete x (ag_attempts (clearLiveSender x s))\<rparr>)))"
    using Some by (simp add: clearAttempt_def Let_def reject_pending_bundle_def reject_pending_upload_def clearLeaseTimer_def
        clearLiveSender_def set_obj_def settle_bundle_def reject_upload_def set_act_def split: option.split)
  moreover have "agent_ok_for cfg offers w r (clearLiveSender x s)" unfolding clearLiveSender_def by (rule keep ok)+
  moreover have "current x (clearLiveSender x s) = Some addr" using Some by (simp add: current_def clearLiveSender_def)
  ultimately show ?thesis by (simp add: ok_drop ok_reject_pending)
qed (simp add: clearAttempt_def ok)

lemma set_obj_twice: "set_obj addr f (set_obj addr g s) = set_obj addr (\<lambda>t. f (g t)) s"
  by (simp add: set_obj_def)

lemma schedule_set:
  "scheduleLeaseTimer now addr s =
     set_obj addr (\<lambda>t. t\<lparr>rt_leaseTimer := map_option (\<lambda>d. now + max 0 (d - now)) (rt_leaseDeadlineMs t)\<rparr>) s"
  by (simp add: scheduleLeaseTimer_def clearLeaseTimer_def Let_def set_obj_twice split: option.split) (simp add: set_obj_def)

lemma obj_okD:
  assumes "obj_ok offers t" "rt_offer t = Some (p, offer)"
  shows "issued offers p" "lr_attempt_id p = rt_attemptId t" "rt_leaseRisk t = risk_of offers (rt_attemptId t)"
    "(p, offer) = offers (rt_attemptId t)"
  using assms by (auto simp: obj_ok_def)

lemma ok_schedule [keep]:
  assumes ok: "agent_ok_for cfg offers w r s"
  shows "agent_ok_for cfg offers w r (scheduleLeaseTimer now addr s)"
  unfolding schedule_set
proof (rule ok_set_obj_gen [OF ok])
  assume "current (rt_attemptId (ag_obj s addr)) s = Some addr"
  from okD(5) [OF ok this] show "watched ((ag_obj s addr)\<lparr>rt_leaseTimer := map_option (\<lambda>d. now + max 0 (d - now)) (rt_leaseDeadlineMs (ag_obj s addr))\<rparr>)"
    by (auto simp: watched_def)
qed (use okD(6) [OF ok, of addr] in \<open>simp_all add: obj_ok_def\<close>)

lemma ok_renew_attempt [keep]:
  assumes ok: "agent_ok_for cfg offers w r s"
  shows "agent_ok_for cfg offers w r (renew_attempt now ttl addr s)"
proof -
  have ok1: "agent_ok_for cfg offers w r (scheduleLeaseTimer now addr (set_obj addr (\<lambda>t. t\<lparr>rt_leaseDeadlineMs := Some d\<rparr>) s))" for d
    unfolding schedule_set set_obj_twice
    by (rule ok_set_obj_gen [OF ok]) (use okD(6) [OF ok, of addr] in \<open>simp_all add: obj_ok_def watched_def\<close>)
  then show ?thesis
    using okD(10) [OF ok1] ok1 by (auto simp: renew_attempt_def Let_def readAttemptMetadata_def meta_ok_def mt_attempt_id_def intro!: ok ok_write_meta split: option.split)
qed

lemma ok_renew [keep]: "agent_ok_for cfg offers w r s \<Longrightarrow> agent_ok_for cfg offers w r (renewLeaseDeadline now ttl s)"
proof -
  have "agent_ok_for cfg offers w r s \<Longrightarrow> agent_ok_for cfg offers w r (fold (renew_attempt now ttl) xs s)" for xs
    by (induction xs arbitrary: s) (simp_all add: ok_renew_attempt)
  then show "agent_ok_for cfg offers w r s \<Longrightarrow> agent_ok_for cfg offers w r (renewLeaseDeadline now ttl s)"
    by (simp add: renewLeaseDeadline_def)
qed

section \<open>Reports and offers\<close>

lemma ok_worksD:
  assumes "agent_ok_for cfg offers (Some (addr, p)) r s"
  shows "issued offers p" "\<exists>offer. rt_offer (ag_obj s addr) = Some (p, offer)"
    "rt_offer (ag_obj s addr) = Some (q, offer) \<Longrightarrow> q = p \<and> (p, offer) = offers (lr_attempt_id p)"
proof -
  from assms obtain offer' where o: "rt_offer (ag_obj s addr) = Some (p, offer')" by (auto simp: agent_ok_for_def works_def)
  then show "\<exists>offer. rt_offer (ag_obj s addr) = Some (p, offer)" by blast
  note d = obj_okD [OF okD(6) [OF assms] o]
  show "issued offers p" by (rule d(1))
  show "rt_offer (ag_obj s addr) = Some (q, offer) \<Longrightarrow> q = p \<and> (p, offer) = offers (lr_attempt_id p)"
    using o d(2,4) by simp
qed

lemma ok_start_removal [keep]: "agent_ok_for cfg offers w r s \<Longrightarrow> agent_ok_for cfg offers w r (start_removal x s)"
  unfolding start_removal_def by (rule keep)

lemma ok_persistTerminal [keep]: "agent_ok_for cfg offers w r s \<Longrightarrow> agent_ok_for cfg offers w r (persistTerminalMetadata now x exit s)"
  using okD(10) [of cfg offers w r s]
  by (auto simp: persistTerminalMetadata_def readAttemptMetadata_def meta_ok_def mt_attempt_id_def intro!: keep split: option.split)

lemma ok_terminals [keep]:
  assumes "agent_ok_for cfg offers w r s" "issued offers p"
  shows "agent_ok_for cfg offers w r (sendCancelledTerminal now p msg s)" "agent_ok_for cfg offers w r (failTerminal now p cat msg s)"
  using assms by (simp_all add: sendCancelledTerminal_def failTerminal_def Let_def ok_send ok_persistTerminal)

lemma ok_write_expired [keep]:
  assumes ok: "agent_ok_for cfg offers w r s"
  shows "agent_ok_for cfg offers w r (write_expired cfg' now addr s)"
proof (cases "rt_offer (ag_obj s addr)")
  case (Some po)
  obtain p offer where po: "po = (p, offer)" by (cases po)
  note d = obj_okD(1-3) [OF okD(6) [OF ok] Some [unfolded po]]
  then show ?thesis using Some po
    by (simp add: write_expired_def Let_def ok_write_meta [OF ok] meta_ok_def mt_attempt_id_def)
qed (simp add: write_expired_def ok)

lemma act_ok_plain: "\<not> serving_pc pc \<Longrightarrow> pc_ok offers pc \<Longrightarrow> act_ok offers (new_activation addr p pc) t"
  by (simp add: act_ok_def new_activation_def)

lemma ok_expire:
  assumes ok: "agent_ok_for cfg offers w r s" and q: "q \<noteq> r \<or> w = None"
  shows "agent_ok_for cfg offers w r
    (case k of None \<Rightarrow> write_expired cfg' now addr s
     | Some child \<Rightarrow> kill_child child (start_act q (new_activation addr no_lease Px_kill) s))"
proof (cases k)
  case (Some child)
  have "agent_ok_for cfg offers w r (start_act q (new_activation addr no_lease Px_kill) s)"
    using q by (intro ok_start [OF ok] act_ok_plain) auto
  then show ?thesis unfolding Some option.case by (rule ok_kill)
qed (simp add: ok_write_expired ok)

text \<open>One callback on an object whose state after each of its branches is known to be good.\<close>

lemma ok_expiry_cases:
  assumes q: "q \<noteq> r \<or> w = None" and cur: "current x s = Some addr"
    and plain: "rt_leaseDeadlineMs (ag_obj s addr) = None \<or> rt_leaseExpired (ag_obj s addr) \<or>
      \<not> isDestructiveOrHardware (rt_leaseRisk (ag_obj s addr)) \<Longrightarrow> agent_ok_for cfg offers w r s"
    and sched: "agent_ok_for cfg offers w r (scheduleLeaseTimer now addr s)"
    and exp: "agent_ok_for cfg offers w r (set_obj addr (\<lambda>t. t\<lparr>rt_leaseExpired := True, rt_cancelled := True\<rparr>) s)"
  shows "agent_ok_for cfg offers w r (onLeaseExpired cfg' now q x s)"
proof (cases "rt_leaseDeadlineMs (ag_obj s addr)")
  case (Some d)
  then show ?thesis using plain sched ok_expire [OF exp q]
    by (cases "rt_leaseExpired (ag_obj s addr)"; cases "now < d"; cases "isDestructiveOrHardware (rt_leaseRisk (ag_obj s addr))")
      (simp_all add: onLeaseExpired_def cur Let_def)
qed (simp add: onLeaseExpired_def cur Let_def plain)

lemma ok_onLeaseExpired [keep]:
  assumes ok: "agent_ok_for cfg offers w r s" and q: "q \<noteq> r \<or> w = None"
  shows "agent_ok_for cfg offers w r (onLeaseExpired cfg' now q x s)"
proof (cases "current x s")
  case (Some addr)
  have "agent_ok_for cfg offers w r (set_obj addr (\<lambda>t. t\<lparr>rt_leaseExpired := True, rt_cancelled := True\<rparr>) s)"
    by (rule ok_set_obj_gen [OF ok]) (use okD(6) [OF ok, of addr] in \<open>simp_all add: obj_ok_def watched_def\<close>)
  with ok ok_schedule [OF ok] show ?thesis by (intro ok_expiry_cases [OF q Some])
qed (simp add: onLeaseExpired_def ok)

text \<open>The timer callback: the timer that fired is no longer armed.\<close>

lemma ok_lease_timer:
  assumes ok: "agent_ok_for cfg offers None r s"
  shows "agent_ok_for cfg offers None r (onLeaseExpired cfg' now q (rt_attemptId (ag_obj s addr)) (clearLeaseTimer addr s))"
proof (cases "current (rt_attemptId (ag_obj s addr)) s = Some addr")
  case False
  then have "agent_ok_for cfg offers None r (clearLeaseTimer addr s)" unfolding clearLeaseTimer_def
    by (intro ok_set_obj_gen [OF ok]) (use okD(6) [OF ok, of addr] in \<open>simp_all add: obj_ok_def\<close>)
  then show ?thesis by (rule ok_onLeaseExpired) simp
next
  case cur: True
  note w = okD(5) [OF ok cur] and obj = okD(6) [OF ok, of addr]
  show ?thesis
  proof (rule ok_expiry_cases)
    show "current (rt_attemptId (ag_obj s addr)) (clearLeaseTimer addr s) = Some addr" using cur by (simp add: clearLeaseTimer_def)
    show "agent_ok_for cfg offers None r (scheduleLeaseTimer now addr (clearLeaseTimer addr s))"
      unfolding schedule_set clearLeaseTimer_def set_obj_twice
      by (rule ok_set_obj_gen [OF ok]) (use obj w in \<open>auto simp: obj_ok_def watched_def\<close>)
    show "agent_ok_for cfg offers None r (set_obj addr (\<lambda>t. t\<lparr>rt_leaseExpired := True, rt_cancelled := True\<rparr>) (clearLeaseTimer addr s))"
      unfolding clearLeaseTimer_def set_obj_twice
      by (rule ok_set_obj_gen [OF ok]) (use obj in \<open>simp_all add: obj_ok_def watched_def\<close>)
    assume "rt_leaseDeadlineMs (ag_obj (clearLeaseTimer addr s) addr) = None \<or> rt_leaseExpired (ag_obj (clearLeaseTimer addr s) addr) \<or>
      \<not> isDestructiveOrHardware (rt_leaseRisk (ag_obj (clearLeaseTimer addr s) addr))"
    then show "agent_ok_for cfg offers None r (clearLeaseTimer addr s)" unfolding clearLeaseTimer_def
      by (intro ok_set_obj_gen [OF ok]) (use obj w in \<open>auto simp: obj_ok_def watched_def\<close>)
  qed simp
qed

lemma ok_persistCompleted [keep]:
  assumes ok: "agent_ok_for cfg offers w r s" and p: "issued offers p" "offer = snd (offers (lr_attempt_id p))"
  shows "agent_ok_for cfg offers w r (persistCompletedAwaitingUpload cfg' now addr offer p exit man coll s)"
proof -
  have "risk_of offers (lr_attempt_id p) = (case rqst_risk_level (lo_job_request offer) of Some x \<Rightarrow> x
      | None \<Rightarrow> or_else (map_option mt_risk_level (readAttemptMetadata (lr_attempt_id p) s)) Normal)"
    using okD(9,10) [OF ok, of "lr_attempt_id p"] p(2)
    by (auto simp: risk_of_def or_else_def readAttemptMetadata_def meta_ok_def split: option.split)
  with p(1) show ?thesis
    by (simp add: persistCompletedAwaitingUpload_def Let_def ok_write_meta [OF ok] meta_ok_def mt_attempt_id_def)
qed

text \<open>A new runtime: nothing refers to its address yet.\<close>

lemma ok_new_object:
  assumes ok: "agent_ok_for cfg offers w r s"
    and t: "rt_attemptId t = x" "obj_ok offers t" "watched t"
    and cap: "int (slots_used (s\<lparr>ag_obj := (ag_obj s)(ag_next s := t), ag_next := Suc (ag_next s), ag_attempts := map_set x (ag_next s) (ag_attempts s)\<rparr>)) \<le> max 0 (maxJobs cfg)"
  shows "agent_ok_for cfg offers w r (s\<lparr>ag_obj := (ag_obj s)(ag_next s := t), ag_next := Suc (ag_next s), ag_attempts := map_set x (ag_next s) (ag_attempts s)\<rparr>)"
    (is "agent_ok_for cfg offers w r ?s")
proof -
  note d = okD [OF ok]
  have cur: "current y ?s = (if y = x then Some (ag_next s) else current y s)" for y
    by (simp add: current_def map_of_map_set)
  have "registry_ok cfg ?s"
  proof -
    have "addr < ag_next ?s \<and> rt_attemptId (ag_obj ?s addr) = y \<and> watched (ag_obj ?s addr)" if "current y ?s = Some addr" for y addr
    proof (cases "y = x")
      case False
      with that cur have "current y s = Some addr" by simp
      with d(3-5) [OF this] show ?thesis by simp
    qed (use that t cur in auto)
    then show ?thesis using cap distinct_map_set [OF d(1)] by (simp add: registry_ok_def)
  qed
  moreover have same: "serves a (ag_obj ?s (act_obj a))" if "serves a (ag_obj s (act_obj a))" for a
    using that d(7) [of "act_obj a"] by (auto simp: serves_def)
  then have "leases_ok offers ?s"
    using ok t(2) d(7) by (auto simp: agent_ok_for_def agent_ok_def leases_ok_def act_ok_def less_Suc_eq)
  moreover have "works w r ?s" using ok d(7) by (fastforce simp: agent_ok_for_def works_def)
  ultimately show ?thesis by (simp add: agent_ok_for_def agent_ok_def)
qed

lemma slots_le: "slots_used s \<le> length (ag_attempts s)"
  by (simp add: slots_used_def)

lemma ok_handleLeaseOffer:
  assumes ok: "agent_ok_for cfg offers None r s" and p: "(p, offer) = offers (lr_attempt_id p)"
  shows "agent_ok_for cfg offers None r (handleLeaseOffer cfg wd p offer s)"
proof -
  have iss: "issued offers p" using p by (metis fst_conv issued_def)
  show ?thesis
  proof (cases "lr_attempt_id p \<in> set (ag_rejected s) \<or> offer_refusal cfg wd s \<noteq> None")
    case True
    then show ?thesis using ok iss by (auto simp: handleLeaseOffer_def ok_send)
  next
    case False
    let ?n = "ag_next s" and ?x = "lr_attempt_id p"
    let ?t = "(createAttemptRuntime ?x (lo_job_id offer))\<lparr>rt_offer := Some (p, offer)\<rparr>"
    let ?arm = "\<lambda>t. t\<lparr>rt_leaseTtlSeconds := lo_lease_ttl_seconds offer,
          rt_leaseRisk := (case rqst_risk_level (lo_job_request offer) of Some r \<Rightarrow> r | None \<Rightarrow> Normal),
          rt_leaseDeadlineMs := Some (wd_now wd + lo_lease_ttl_seconds offer * 1000), rt_leaseExpired := False,
          rt_leaseTimer := Some (wd_now wd + max 0 (lo_lease_ttl_seconds offer * 1000))\<rparr>"
    let ?s1 = "s\<lparr>ag_obj := (ag_obj s)(?n := ?t), ag_next := Suc ?n, ag_attempts := map_set ?x ?n (ag_attempts s)\<rparr>"
    let ?s2 = "s\<lparr>ag_obj := (ag_obj s)(?n := ?arm ?t), ag_next := Suc ?n, ag_attempts := map_set ?x ?n (ag_attempts s)\<rparr>"
    have arm: "armLeaseDeadline (wd_now wd) ?n offer ?s1 = ?s2"
      by (simp add: armLeaseDeadline_def schedule_set set_obj_twice) (simp add: set_obj_def)
    have risk: "(case rqst_risk_level (lo_job_request offer) of Some r \<Rightarrow> r | None \<Rightarrow> Normal) = risk_of offers ?x"
      using p by (metis risk_of_def or_else_def snd_conv option.case_eq_if)
    have "int (length (ag_attempts s)) < maxJobs cfg" using False by (auto simp: offer_refusal_def split: if_splits)
    moreover have "slots_used ?s2 \<le> length (ag_attempts s) + 1"
      using slots_le [of ?s2] map_set_length [OF okD(1) [OF ok], of ?x ?n] by simp
    ultimately have "int (slots_used ?s2) \<le> max 0 (maxJobs cfg)" by linarith
    then have ok2: "agent_ok_for cfg offers None r ?s2"
      using iss p [symmetric] by (intro ok_new_object [OF ok]) (simp_all add: createAttemptRuntime_def obj_ok_def watched_def risk)
    have "handleLeaseOffer cfg wd p offer s = sendFrame p M_lease_accept (writeAttemptMetadata
        \<lparr>mt_lease = p, mt_job_id = lo_job_id offer, mt_process_identity = None, mt_status = Meta_accepted,
         mt_workspace_path = Some (workspaceDir cfg ?x), mt_spool_dir = logsDir cfg ?x,
         mt_risk_level = risk_of offers ?x, mt_updated_at = wd_now wd, mt_last_exit = None,
         mt_lease_deadline = Some (wd_now wd + lo_lease_ttl_seconds offer * 1000), mt_artifact_manifest = None,
         mt_artifact_collection = None\<rparr> ?s2)"
      using False by (simp add: handleLeaseOffer_def Let_def arm risk)
    then show ?thesis using ok2 iss by (simp add: ok_send ok_write_meta meta_ok_def mt_attempt_id_def)
  qed
qed

lemma ok_resumed_runtime [keep]:
  assumes ok: "agent_ok_for cfg offers None r s" and m: "meta_ok offers m"
  shows "agent_ok_for cfg offers None r (resumed_runtime m s)"
proof (cases "current (mt_attempt_id m) s")
  case (Some addr)
  note o = okD(6) [OF ok, of addr] and w = okD(5) [OF ok Some] and x = okD(4) [OF ok Some]
  have "resumed_runtime m s = set_obj addr (\<lambda>t. t\<lparr>rt_jobId := mt_job_id m, rt_leaseRisk := mt_risk_level m,
           rt_leaseDeadlineMs := (if mt_lease_deadline m \<noteq> None then mt_lease_deadline m else rt_leaseDeadlineMs t)\<rparr>) s"
    using Some by (simp add: resumed_runtime_def set_obj_twice cong: if_cong)
  then show ?thesis using o w m x
    by (auto intro!: ok_set_obj_gen [OF ok] simp: obj_ok_def watched_def meta_ok_def)
next
  case None
  let ?n = "ag_next s" and ?x = "mt_attempt_id m"
  let ?t = "(createAttemptRuntime ?x (mt_job_id m))\<lparr>rt_leaseRisk := mt_risk_level m, rt_leaseDeadlineMs := mt_lease_deadline m\<rparr>"
  let ?s = "s\<lparr>ag_obj := (ag_obj s)(?n := ?t), ag_next := Suc ?n, ag_attempts := map_set ?x ?n (ag_attempts s)\<rparr>"
  have "rt_offer ?t = None" by (simp add: createAttemptRuntime_def)
  have "filter (\<lambda>(_, addr). rt_offer (ag_obj ?s addr) \<noteq> None) (ag_attempts s) = filter (\<lambda>(_, addr). rt_offer (ag_obj s addr) \<noteq> None) (ag_attempts s)"
  proof (rule filter_cong [OF refl])
    fix e
    assume "e \<in> set (ag_attempts s)"
    then have "current (fst e) s = Some (snd e)" using okD(1) [OF ok] by (simp add: current_def)
    from okD(3) [OF ok this] show "(case e of (_, addr) \<Rightarrow> rt_offer (ag_obj ?s addr) \<noteq> None) = (case e of (_, addr) \<Rightarrow> rt_offer (ag_obj s addr) \<noteq> None)"
      by (cases e) simp
  qed
  then have "slots_used ?s = slots_used s"
    using None \<open>rt_offer ?t = None\<close> unfolding slots_used_def by (simp add: map_set_new current_def)
  then have "agent_ok_for cfg offers None r ?s"
    using okD(2) [OF ok] by (intro ok_new_object [OF ok]) (simp_all add: createAttemptRuntime_def obj_ok_def watched_def)
  moreover have "resumed_runtime m s = ?s" using None by (simp add: resumed_runtime_def set_obj_def createAttemptRuntime_def)
  ultimately show ?thesis by simp
qed

section \<open>Preparing the source\<close>

abbreviation runs :: "agent_config \<Rightarrow> offer_table \<Rightarrow> activation \<Rightarrow> nat \<Rightarrow> 'z agent_state_scheme \<Rightarrow> bool" where
  "runs cfg offers a r s \<equiv> agent_ok_for cfg offers (Some (act_obj a, act_lease a)) r s"

lemma ok_prepare_parts:
  assumes ok: "runs cfg offers a r s" and iss: "issued offers (act_lease a)"
  shows "runs cfg offers a r (source_is_ready r a s)" "runs cfg offers a r (prepare_terminal now a cat msg s)"
    "runs cfg offers a r (cleanupOverlayAttempt r a b s)" "runs cfg offers a r (escalate_source r a s)"
    "runs cfg offers a r (waitForBundleDownload r a s)" "runs cfg offers a r (worktree_created cfg' r a s)"
    "runs cfg offers a r (fetch_failed r s)"
  unfolding source_is_ready_def prepare_terminal_def cleanupOverlayAttempt_def escalate_source_def waitForBundleDownload_def
    worktree_created_def fetch_failed_def Let_def
  by (auto intro!: keep ok iss simp: core_def)

lemma ok_prepare_catch:
  assumes ok: "runs cfg offers a r s" and iss: "issued offers (act_lease a)"
  shows "runs cfg offers a r (catch_full now r a msg s)" "runs cfg offers a r (catch_overlay now r a msg s)"
    "runs cfg offers a r (need_bundle r a s)"
  unfolding catch_full_def catch_overlay_def need_bundle_def
  by (auto intro!: ok_prepare_parts ok_jump ok_send ok iss)

lemma ok_prepare_branches:
  assumes ok: "runs cfg offers a r s" and iss: "issued offers (act_lease a)"
  shows "runs cfg offers a r (full_mkdir_done now r a s)" "runs cfg offers a r (full_materialized now r a x s)"
    "runs cfg offers a r (unless_cancelled now r a pc s)" "runs cfg offers a r (overlay_applied now r a s)"
    "runs cfg offers a r (bundle_failed now r a msg s)"
proof -
  have "runs cfg offers a r (set_obj (act_obj a) (\<lambda>t. t\<lparr>rt_materializedProjectPath := Some x\<rparr>) s)"
    by (rule ok_set_obj [OF ok]) (simp add: core_def)
  then show "runs cfg offers a r (full_materialized now r a x s)"
    unfolding full_materialized_def Let_def by (auto intro!: ok_prepare_parts ok_jump ok_terminals iss)
qed (unfold full_mkdir_done_def unless_cancelled_def overlay_applied_def bundle_failed_def,
    auto intro!: ok_prepare_parts ok_prepare_catch ok_jump ok_terminals ok iss split: option.split prepare_source.split)

lemma ok_overlay_url [keep]: "agent_ok_for cfg offers w r s \<Longrightarrow> agent_ok_for cfg offers w r (set_obj addr (\<lambda>t. t\<lparr>rt_overlayRepoUrl := x\<rparr>) s)"
  by (rule ok_set_obj) (simp_all add: core_def)

lemma ok_prepare_step:
  assumes ok: "runs cfg offers a r s"
  shows "runs cfg offers a r (prepare_step cfg' now r a pc aw s)"
proof -
  note iss = ok_worksD(1) [OF ok]
  note rules = ok_prepare_parts ok_prepare_catch ok_prepare_branches ok_jump ok_overlay_url ok iss
  show ?thesis unfolding prepare_step_def
    by (cases pc; cases aw; simp add: rules)
qed

section \<open>Running the job\<close>

lemma ok_spool_opened:
  assumes ok: "runs cfg offers a r s" and iss: "issued offers (act_lease a)"
  shows "runs cfg offers a r (spool_opened cfg' r a s)" "runs cfg offers a r (sender_ready r a s)"
  unfolding spool_opened_def sender_ready_def registerLiveSender_def
  using iss by (auto simp: Let_def core_def intro!: keep ok split: prod.split if_splits)

lemma ok_catch_run:
  assumes ok: "runs cfg offers a r s" and iss: "issued offers (act_lease a)"
  shows "runs cfg offers a r (run_catch_agent now r a msg s)" "runs cfg offers a r (before_spawn cfg' wd r a s)"
  unfolding run_catch_agent_def before_spawn_def
  by (auto intro!: keep ok iss split: option.split sum.split)

lemma offer_issued:
  assumes ok: "runs cfg offers a r s" and "offer_of a s = Some offer"
  shows "offer = snd (offers (lr_attempt_id (act_lease a)))"
proof -
  from assms(2) obtain q where "rt_offer (ag_obj s (act_obj a)) = Some (q, offer)" by (auto simp: offer_of_def)
  from ok_worksD(3) [OF ok this] show ?thesis by (metis snd_conv)
qed

lemma ok_started_metadata:
  assumes ok: "runs cfg offers a r s"
  shows "runs cfg offers a r (started_metadata cfg' wd a pid s)"
proof (cases "offer_of a s")
  case (Some offer)
  from offer_issued [OF ok Some] have "or_else (rqst_risk_level (lo_job_request offer)) Normal = risk_of offers (lr_attempt_id (act_lease a))"
    by (simp add: risk_of_def)
  with ok_worksD(1) [OF ok] Some show ?thesis unfolding started_metadata_def
    by (auto intro!: ok_write_meta ok simp: Let_def meta_ok_def mt_attempt_id_def split: option.split)
qed (simp add: started_metadata_def ok split: option.split)

lemma ok_attach: "runs cfg offers a r s \<Longrightarrow> runs cfg offers a r (attach_output r s)"
  unfolding attach_output_def by (rule ok_set_pc) simp_all

lemma ok_late_check:
  assumes ok: "runs cfg offers a r s" and q: "wd_act wd \<noteq> r"
  shows "runs cfg offers a r (late_lease_check cfg' wd r a s)"
  unfolding late_lease_check_def
  using q by (auto simp: Let_def intro!: ok_attach ok_jump ok_kill ok_onLeaseExpired ok)

lemma ok_job_is_started:
  assumes ok: "runs cfg offers a r s" and q: "wd_act wd \<noteq> r"
  shows "runs cfg offers a r (job_is_started cfg' wd r a pid s)"
proof -
  have "runs cfg offers a r (set_obj (act_obj a) (\<lambda>t. t\<lparr>rt_activeProcessKill := Some r\<rparr>) (sendFrame (act_lease a) m s))" for m
    using ok_send [OF ok ok_worksD(1) [OF ok]] by (rule ok_set_obj) (simp add: core_def)
  from ok_late_check [where wd = wd, OF ok_started_metadata [OF this] q] show ?thesis by (simp add: job_is_started_def Let_def)
qed

lemma ok_acquire_next:
  assumes ok: "runs cfg offers a r s" and q: "wd_act wd \<noteq> r"
  shows "runs cfg offers a r (acquire_next cfg' wd r a ts s)"
proof -
  have sp: "runs cfg offers a r (s\<lparr>ag_spawned := x\<rparr>)" for x by (rule keep ok)+
  from ok_job_is_started [where wd = wd, OF sp q] ok_jump [OF sp] ok_catch_run(1) [OF ok ok_worksD(1) [OF ok]] ok
  show ?thesis by (auto simp: acquire_next_def spawn_job_def Let_def intro!: ok_jump split: sum.split prod.split)
qed

lemma ok_cache_acquired: "agent_ok_for cfg offers w r s \<Longrightarrow> agent_ok_for cfg offers w r (cache_acquired q t mode path s)"
  unfolding cache_acquired_def by (intro keep) simp_all

lemma ok_append [keep]: "agent_ok_for cfg offers w r s \<Longrightarrow> agent_ok_for cfg offers w r (appendAndEnqueue addr q st text s)"
  unfolding appendAndEnqueue_def by (rule ok_set_obj) (simp_all add: core_def)

lemma ok_child_output [keep]: "agent_ok_for cfg offers w r s \<Longrightarrow> agent_ok_for cfg offers w r (child_output q st raw s)"
  unfolding child_output_def Let_def
  by (auto intro!: keep split: option.split prod.split log_stream.split)

lemma ok_run_append [keep]:
  "agent_ok_for cfg offers w r s \<Longrightarrow> agent_ok_for cfg offers w r (run_append cfg' addr q a st text s)"
  unfolding run_append_def Let_def by (auto intro!: keep simp: core_def split: prod.split)

lemma ok_chain_step [keep]:
  assumes ok: "agent_ok_for cfg offers w r s"
  shows "agent_ok_for cfg offers w r (chain_step cfg' addr b s)"
proof -
  have set: "agent_ok_for cfg offers w r (set_obj addr (\<lambda>t. t\<lparr>rt_spoolWriteChain := x, rt_spoolWritten := Suc (rt_spoolWritten t)\<rparr>) s)" for x
    by (rule ok_set_obj [OF ok]) (simp add: core_def)
  show ?thesis unfolding chain_step_def Let_def
    by (auto simp: ok set ok_run_append split: list.split option.split)
qed

text \<open>After the completion.\<close>

lemma ok_run_settled:
  assumes ok: "runs cfg offers a r s"
  shows "runs cfg offers a r (run_settled cfg' now r a result b s)"
proof (cases "offer_of a s")
  case (Some offer)
  note o = offer_issued [OF ok Some]
  note iss = ok_worksD(1) [OF ok]
  have "runs cfg offers a r (set_act r (\<lambda>a. a\<lparr>act_exit := x, act_pc := In_run Pr_collect\<rparr>)
      (sendFrame (act_lease a) (M_job_exit y) (persistCompletedAwaitingUpload cfg' now (act_obj a) offer (act_lease a) y None None s)))" for x y
    by (rule ok_set_pc [OF ok_send [OF ok_persistCompleted [OF ok iss o] iss]]) simp_all
  then show ?thesis using Some by (simp add: run_settled_def Let_def ok_jump ok_send ok iss)
qed (simp add: run_settled_def Let_def ok ok_jump ok_send ok_worksD(1) [OF ok])

lemma ok_flush:
  fixes s :: "'z agent_state_scheme"
  assumes ok: "runs cfg offers a r s"
  shows "runs cfg offers a r (streams_flushed cfg' now r a result s)" "runs cfg offers a r (flush_stderr cfg' now r a result s)"
    "runs cfg offers a r (flush_stdout cfg' now r a result s)"
proof -
  have one: "runs cfg offers a r t \<Longrightarrow> runs cfg offers a r (streams_flushed cfg' now r a result t)" for t :: "'z agent_state_scheme"
    unfolding streams_flushed_def Let_def by (simp add: ok_run_settled ok_jump ok_kill)
  have two: "runs cfg offers a r t \<Longrightarrow> runs cfg offers a r (flush_stderr cfg' now r a result t)" for t :: "'z agent_state_scheme"
    unfolding flush_stderr_def Let_def by (auto intro!: one ok_jump ok_append ok_set_act split: prod.split)
  show "runs cfg offers a r (streams_flushed cfg' now r a result s)" "runs cfg offers a r (flush_stderr cfg' now r a result s)"
    by (rule one [OF ok]) (rule two [OF ok])
  show "runs cfg offers a r (flush_stdout cfg' now r a result s)"
    unfolding flush_stdout_def Let_def by (auto intro!: two ok_jump ok_append ok_set_act ok split: prod.split)
qed

lemma ok_request_upload:
  assumes ok: "agent_ok_for cfg offers w r s" and iss: "issued offers p" and req: "requestArtifactUploadTokens q p arts coll s = Inr t"
  shows "agent_ok_for cfg offers w r t"
proof -
  have "agent_ok_for cfg offers w r (set_obj addr (\<lambda>t. t\<lparr>rt_pendingArtifactUpload := x\<rparr>) s)" for addr x
    by (rule ok_set_obj [OF ok]) (simp add: core_def)
  with req iss show ?thesis by (auto simp: requestArtifactUploadTokens_def intro!: ok_send split: option.splits if_splits)
qed

lemma ok_collected:
  assumes ok: "runs cfg offers a r s"
  shows "runs cfg offers a r (collected cfg' now r a staged n s)"
proof (cases "offer_of a s")
  case (Some offer)
  note o = offer_issued [OF ok Some]
  note iss = ok_worksD(1) [OF ok]
  have "runs cfg offers a r (persistCompletedAwaitingUpload cfg' now (act_obj a) offer (act_lease a) y x z s)" for x y z
    by (rule ok_persistCompleted [OF ok iss o])
  with ok_request_upload [OF this iss] Some show ?thesis
    by (auto simp: collected_def Let_def intro!: ok ok_catch_run ok_jump iss split: option.split sum.split)
qed (simp add: collected_def ok)

lemma ok_run_ends:
  fixes s :: "'z agent_state_scheme"
  assumes ok: "runs cfg offers a r s"
  shows "runs cfg offers a r (cleaned_up r a code b s)" "runs cfg offers a r (run_finished r a s)"
proof -
  have "runs cfg offers a r t \<Longrightarrow> runs cfg offers a r (publish_misses a t)" for t :: "'z agent_state_scheme"
    unfolding publish_misses_def by (auto intro!: keep split: option.split)
  then show "runs cfg offers a r (cleaned_up r a code b s)"
    unfolding cleaned_up_def by (simp add: ok_jump ok_send ok ok_worksD(1) [OF ok])
  show "runs cfg offers a r (run_finished r a s)"
    unfolding run_finished_def by (intro keep ok) simp_all
qed

lemma ok_run_step:
  assumes ok: "runs cfg offers a r s" and q: "wd_act wd \<noteq> r"
  shows "runs cfg offers a r (run_step cfg' wd r a pc aw s)"
proof -
  note iss = ok_worksD(1) [OF ok]
  note rules = ok_spool_opened ok_catch_run ok_job_is_started ok_acquire_next ok_cache_acquired ok_attach ok_run_settled ok_flush
    ok_collected ok_run_ends ok_jump ok iss q
  show ?thesis unfolding run_step_def Let_def
    by (cases pc; cases aw; simp add: rules split: list.split)
qed

section \<open>Entries, resumptions, recovery\<close>

lemma ok_None: "agent_ok_for cfg offers None r s = agent_ok cfg offers s"
  by (simp add: agent_ok_for_def works_def)

lemma ok_weaken: "agent_ok_for cfg offers w r s \<Longrightarrow> agent_ok_for cfg offers None r s"
  by (simp add: agent_ok_for_def works_def)

lemma ok_serving:
  assumes ok: "agent_ok_for cfg offers None r s" and a: "ag_acts s r = Some a" and pc: "serving_pc (act_pc a)"
  shows "runs cfg offers a r s"
  using ok okD(8) [OF ok a] a pc by (auto simp: agent_ok_for_def works_def act_ok_def serves_def)

lemma matches_offer:
  "matchesReservedLease p s = Some addr \<Longrightarrow> \<exists>offer. rt_offer (ag_obj s addr) = Some (p, offer)"
  by (auto simp: matchesReservedLease_def split: option.splits prod.splits if_splits)

lemma ok_entries:
  assumes ok: "agent_ok_for cfg offers None r s"
  shows "agent_ok_for cfg offers None r (handlePrepareSource q p prep s)" "agent_ok_for cfg offers None r (handleRunJob q p s)"
    "agent_ok_for cfg offers None r (handleCancelJob q p reason s)"
proof -
  have set: "(\<And>t. core (f t) = core t) \<Longrightarrow> agent_ok_for cfg offers None r (set_obj addr f s)" for f addr by (rule ok_set_obj [OF ok])
  show "agent_ok_for cfg offers None r (handlePrepareSource q p prep s)"
    unfolding handlePrepareSource_def Let_def set_obj_twice
    by (auto intro!: ok_start ok_overlay_url set ok dest!: matches_offer simp: core_def act_ok_def serves_def new_activation_def split: option.split prepare_source.split)
  show "agent_ok_for cfg offers None r (handleRunJob q p s)"
    unfolding handleRunJob_def
    by (auto intro!: ok_start set ok dest!: matches_offer simp: core_def act_ok_def serves_def new_activation_def split: option.split)
  have "agent_ok_for cfg offers None r (start_act q (new_activation addr p (Pk_rm reason))
      (reject_pending_bundle addr ''cancelled'' (set_obj addr (\<lambda>t. t\<lparr>rt_cancelled := True\<rparr>) s)))"
    if m: "matchesReservedLease p s = Some addr" for addr
  proof -
    have "agent_ok_for cfg offers None r (set_obj addr (\<lambda>t. t\<lparr>rt_cancelled := True\<rparr>) s)" by (rule set) (simp add: core_def)
    note ok1 = ok_reject_pending(2) [OF this]
    have "rt_offer (ag_obj (reject_pending_bundle addr ''cancelled'' (set_obj addr (\<lambda>t. t\<lparr>rt_cancelled := True\<rparr>) s)) addr)
        = rt_offer (ag_obj s addr)"
      by (simp add: reject_pending_bundle_def settle_bundle_def set_act_def split: option.split)
    with matches_offer [OF m] show ?thesis by (auto intro!: ok_start ok1 simp: act_ok_def serves_def new_activation_def)
  qed
  then show "agent_ok_for cfg offers None r (handleCancelJob q p reason s)"
    unfolding handleCancelJob_def Let_def
    by (auto intro!: ok_kill set ok simp: core_def split: option.split)
qed

lemma ok_promises:
  assumes ok: "agent_ok_for cfg offers w r s"
  shows "agent_ok_for cfg offers w r (handleBundleDownload p s)" "agent_ok_for cfg offers w r (handleArtifactUploadGrant p s)"
    "agent_ok_for cfg offers w r (bundle_timeout addr s)" "agent_ok_for cfg offers w r (upload_timeout q x s)"
    "agent_ok_for cfg offers w r (finish_removal x s)" "agent_ok_for cfg offers w r (ack_written q' n b s)"
  unfolding handleBundleDownload_def handleArtifactUploadGrant_def bundle_timeout_def upload_timeout_def finish_removal_def ack_written_def Let_def
  by (auto intro!: keep ok simp: core_def split: option.split)

lemma ok_handleLogAck: "agent_ok_for cfg offers None r s \<Longrightarrow> agent_ok_for cfg offers None r (handleLogAck q p n s)"
  unfolding handleLogAck_def Let_def
  by (auto intro!: ok_start act_ok_plain split: option.split)

lemma ok_abandon_begin: "agent_ok_for cfg offers None r s \<Longrightarrow> agent_ok_for cfg offers None r (snd (abandon_begin x s))"
  unfolding abandon_begin_def Let_def
  by (auto intro!: keep simp: core_def split: option.split)

lemma ok_abandon_next: "agent_ok_for cfg offers None r s \<Longrightarrow> agent_ok_for cfg offers None r (abandon_next r xs s)"
proof (induction xs arbitrary: s)
  case (Cons x xs)
  from ok_abandon_begin [OF Cons.prems, of x] Cons.IH show ?case
    by (auto intro!: ok_jump split: prod.split bool.split)
qed (auto intro!: ok_jump)

lemma ok_forceAbandon: "agent_ok_for cfg offers None r s \<Longrightarrow> agent_ok_for cfg offers None r (forceAbandon r s)"
  unfolding forceAbandon_def by (auto intro!: ok_abandon_next ok_start act_ok_plain)

lemma ok_misc_step:
  assumes ok: "agent_ok_for cfg offers None r s" and a: "ag_acts s r = Some a"
  shows "agent_ok_for cfg offers None r (misc_step cfg' now r a aw s)"
proof -
  have "issued offers (act_lease a)" if "act_pc a = Pk_rm x" for x
    using ok_worksD(1) [OF ok_serving [OF ok a]] that by simp
  then show ?thesis unfolding misc_step_def cancel_removed_def Let_def
    by (auto intro!: keep ok_promises ok_abandon_next ok split: agent_pc.split)
qed

text \<open>The recovery coordinator.\<close>

lemma ok_resend: "agent_ok_for cfg offers w r s \<Longrightarrow> meta_ok offers m \<Longrightarrow> agent_ok_for cfg offers w r (resendJobExitIfCompleted m s)"
  unfolding resendJobExitIfCompleted_def by (auto intro!: ok_send simp: meta_ok_def split: option.split)

lemma ok_resumeArtifactUpload: "agent_ok_for cfg offers w r s \<Longrightarrow> meta_ok offers m \<Longrightarrow> agent_ok_for cfg offers w r (resumeArtifactUpload r m s)"
  unfolding resumeArtifactUpload_def by (auto intro!: ok_jump split: option.split)

lemma ok_upload_verified:
  assumes ok: "agent_ok_for cfg offers None r s" and m: "meta_ok offers m"
  shows "agent_ok_for cfg offers None r (upload_verified wd r m s)"
proof -
  note ok1 = ok_resumed_runtime [OF ok m]
  have "issued offers (mt_lease m)" using m by (simp add: meta_ok_def)
  note req = ok_request_upload [OF ok1 this]
  show ?thesis unfolding upload_verified_def Let_def
    by (auto intro!: ok_jump ok ok1 elim: req split: sum.split)
qed

lemma ok_reject_attempt [keep]: "agent_ok_for cfg offers w r s \<Longrightarrow> agent_ok_for cfg offers w r (reject_attempt x s)"
  unfolding reject_attempt_def by (rule keep)

lemma ok_abandon_jump:
  assumes ok: "agent_ok_for cfg offers None r s" and pcs: "pc_ok offers (In_recovery pc)" "pc_ok offers (In_recovery pc')"
  shows "agent_ok_for cfg offers None r (case abandon_begin x s of
    (True, s1) \<Rightarrow> jump r (In_recovery pc) s1 | (False, s1) \<Rightarrow> jump r (In_recovery pc') s1)"
  using ok_abandon_begin [OF ok, of x] pcs by (auto intro!: ok_jump split: prod.split bool.split)

lemma ok_report_next:
  "agent_ok_for cfg offers None r s \<Longrightarrow> list_all (meta_ok offers) ms \<Longrightarrow> agent_ok_for cfg offers None r (report_next r ms s)"
proof (induction ms arbitrary: s)
  case (Cons m ms)
  have m: "list_all (meta_ok offers) (m # ms)" by (rule Cons.prems)
  have "agent_ok_for cfg offers None r (case abandon_begin (mt_attempt_id m) (reject_attempt (mt_attempt_id m) s) of
      (True, s1) \<Rightarrow> jump r (In_recovery (Pl_kill m ms)) s1 | (False, s1) \<Rightarrow> jump r (In_recovery (Pl_resources m ms)) s1)"
    using m by (intro ok_abandon_jump ok_reject_attempt Cons.prems(1)) simp_all
  moreover have "agent_ok_for cfg offers None r (jump r (In_recovery (Pl_spool m ms)) s)"
    using m by (intro ok_jump Cons.prems(1)) simp_all
  ultimately show ?case using Cons.IH [OF Cons.prems(1)] m by simp
qed (auto intro!: ok_jump)

lemma ok_spool_inspected: "agent_ok_for cfg offers w r s \<Longrightarrow> meta_ok offers m \<Longrightarrow> agent_ok_for cfg offers w r (spool_inspected m b s)"
  unfolding spool_inspected_def emitRecoveryReport_def Let_def by (auto intro!: keep simp: meta_ok_def)

lemma ok_after_replay: "agent_ok_for cfg offers w r s \<Longrightarrow> meta_ok offers m \<Longrightarrow> agent_ok_for cfg offers w r (after_replay r m s)"
  unfolding after_replay_def by (auto intro!: ok_resumeArtifactUpload ok_resend ok_jump)

lemma ok_adopt:
  assumes ok: "agent_ok_for cfg offers None r s" and m: "meta_ok offers m"
  shows "agent_ok_for cfg offers None r (adopt now r dec m s)"
proof -
  have ok1: "agent_ok_for cfg offers None r (write_decided now dec m s)"
    unfolding write_decided_def using m by (intro ok_write_meta ok) (simp add: meta_ok_def mt_attempt_id_def)
  show ?thesis unfolding adopt_def Let_def
    using m by (auto intro!: ok_jump ok_after_replay ok_run_sender ok1 split: option.split)
qed

lemma ok_handleReconcileDecision:
  assumes ok: "agent_ok_for cfg offers None r s"
  shows "agent_ok_for cfg offers None r (handleReconcileDecision now r dec s)"
proof -
  let ?s = "start_act r (new_activation 0 (dc_lease dec) P_done) s"
  have ok0: "agent_ok_for cfg offers None r ?s" by (intro ok_start ok act_ok_plain) simp_all
  have meta: "ag_meta s x = Some m \<Longrightarrow> meta_ok offers m" for x m by (rule okD(10) [OF ok])
  then have metas: "pc_ok offers (In_recovery (Pd_kill (readAttemptMetadata x s)))" "pc_ok offers (In_recovery (Pd_resources (readAttemptMetadata x s)))" for x
    by (auto simp: readAttemptMetadata_def split: option.split)
  have "agent_ok_for cfg offers None r (case abandon_begin x (reject_attempt x ?s) of
      (True, s1) \<Rightarrow> jump r (In_recovery (Pd_kill (readAttemptMetadata x s))) s1
    | (False, s1) \<Rightarrow> jump r (In_recovery (Pd_resources (readAttemptMetadata x s))) s1)" for x
    by (rule ok_abandon_jump [OF ok_reject_attempt [OF ok0] metas])
  then show ?thesis unfolding handleReconcileDecision_def Let_def
    using ok0 ok_adopt [OF ok0] meta by (auto simp: readAttemptMetadata_def split: option.split)
qed

lemma ok_replayFromDisk: "agent_ok_for cfg offers w r s \<Longrightarrow> meta_ok offers m \<Longrightarrow> agent_ok_for cfg offers w r (replayFromDisk q m n s)"
  unfolding replayFromDisk_def Let_def by (auto intro!: keep simp: meta_ok_def split: if_splits)

lemma list_all_map_filter: "(\<And>x y. f x = Some y \<Longrightarrow> P y) \<Longrightarrow> list_all P (List.map_filter f xs)"
  by (auto simp: list_all_iff List.map_filter_def)

lemma ok_plain_jump:
  "agent_ok_for cfg offers None r s \<Longrightarrow> pc_ok offers pc \<Longrightarrow> \<not> serving_pc pc \<Longrightarrow> agent_ok_for cfg offers None r (jump r pc s)"
  by (rule ok_jump) simp_all

lemma ok_recovery_step:
  assumes ok: "agent_ok_for cfg offers None r s" and a: "ag_acts s r = Some a" "act_pc a = In_recovery pc"
  shows "agent_ok_for cfg offers None r (recovery_step wd r a pc aw s)"
proof -
  have metas: "list_all (meta_ok offers) (pc_metas pc)" using okD(8) [OF ok a(1)] a(2) by (simp add: act_ok_def)
  have listed: "list_all (meta_ok offers) (listAttemptMetadata names s)" for names
    unfolding listAttemptMetadata_def readAttemptMetadata_def by (rule list_all_map_filter) (rule okD(10) [OF ok])
  have upd: "meta_ok offers m \<Longrightarrow> meta_ok offers (m\<lparr>mt_status := x\<rparr>)" "meta_ok offers m \<Longrightarrow> meta_ok offers (m\<lparr>mt_status := x, mt_updated_at := y\<rparr>)" for m x y
    by (simp_all add: meta_ok_def mt_attempt_id_def)
  note rules = ok_upload_verified ok_report_next ok_spool_inspected ok_after_replay ok_replayFromDisk ok_run_sender
    ok_clearAttempt ok_write_meta ok_remove_meta ok listed upd ok_plain_jump
  show ?thesis unfolding recovery_step_def using metas
    by (cases pc; cases aw; simp add: rules split: option.splits)
qed

text \<open>A resumption of any activation.\<close>

lemma ok_resume:
  assumes ok: "agent_ok cfg offers s" and q: "ag_acts s (wd_act wd) = None"
  shows "agent_ok cfg offers (resume_agent cfg' wd r aw s)"
proof (cases "ag_acts s r")
  case (Some a)
  then have q: "wd_act wd \<noteq> r" using q by auto
  have ok: "agent_ok_for cfg offers None r s" using ok by (simp add: ok_None)
  note misc = ok_misc_step [OF ok Some, unfolded ok_None] and serv = ok_serving [OF ok Some]
  show ?thesis
  proof (cases "act_pc a")
    case (In_prepare pc)
    with ok_weaken [OF ok_prepare_step [OF serv]] Some show ?thesis by (simp add: resume_agent_def ok_None)
  next
    case (In_run pc)
    with ok_weaken [OF ok_run_step [OF serv q]] Some show ?thesis by (simp add: resume_agent_def ok_None)
  next
    case (In_recovery pc)
    with ok_recovery_step [OF ok Some] Some show ?thesis by (simp add: resume_agent_def ok_None)
  qed (use misc Some in \<open>simp_all add: resume_agent_def\<close>)
qed (simp add: resume_agent_def ok)

lemma ok_message:
  assumes ok: "agent_ok cfg offers s" and off: "\<And>offer. m = G_lease_offer offer \<Longrightarrow> offers (lr_attempt_id p) = (p, offer)"
  shows "agent_ok cfg offers (on_job_message cfg wd p m s)"
proof -
  have ok: "agent_ok_for cfg offers None (wd_act wd) s" using ok by (simp add: ok_None)
  show ?thesis unfolding ok_None [where r = "wd_act wd", symmetric] on_job_message_def Let_def
    using off ok by (cases m) (simp_all add: ok_handleLeaseOffer ok_entries ok_promises ok_handleLogAck ok_handleReconcileDecision)
qed

section \<open>The connection\<close>

lemma ok_view:
  assumes "agent_ok cfg offers s" "same_core s t" "ag_acts t = ag_acts s" "ag_meta t = ag_meta s" "ag_senders t = ag_senders s" "ag_sent t = ag_sent s"
  shows "agent_ok cfg offers t"
  using ok_cong [of cfg offers None 0 s t] assms by (simp add: ok_None)

lemma ok_conn_fields:
  assumes "agent_ok cfg offers (s :: connection_state)"
  shows "agent_ok cfg offers (conn_send k fr s)" "agent_ok cfg offers (set_conn k f s)" "agent_ok cfg offers (stopHeartbeats s)"
    "agent_ok cfg offers (settle_conn k res s)" "agent_ok cfg offers (connectOnce k s)" "agent_ok cfg offers (on_open k s)"
    "agent_ok cfg offers (s\<lparr>cx_heartbeat := h\<rparr>)" "agent_ok cfg offers (s\<lparr>cx_stored := st\<rparr>)"
    "agent_ok cfg offers (s\<lparr>cx_stored := st, cx_agentId := x\<rparr>)" "agent_ok cfg offers (s\<lparr>cx_hasExecutor := b\<rparr>)"
    "agent_ok cfg offers (s\<lparr>ag_recSocket := y, ag_socket := k, cx_hasExecutor := b\<rparr>)" "agent_ok cfg offers (s\<lparr>ag_open := zs\<rparr>)"
    "agent_ok cfg offers (s\<lparr>ag_open := zs, cx_socket := None\<rparr>)"
  unfolding conn_send_def set_conn_def stopHeartbeats_def settle_conn_def connectOnce_def on_open_def
  by (rule ok_view [OF assms]; simp add: same_core_def split: option.split)+

lemma ok_park:
  assumes "agent_ok cfg offers s"
  shows "agent_ok cfg offers (onDisconnectPark now x s)"
proof -
  have ok: "agent_ok_for cfg offers None 0 s" using assms by (simp add: ok_None)
  then show ?thesis unfolding ok_None [where r = 0, symmetric] onDisconnectPark_def
    using okD(10) [OF ok] by (auto intro!: ok_write_meta simp: readAttemptMetadata_def meta_ok_def mt_attempt_id_def split: option.split)
qed

lemma ok_abandonOnDisconnect:
  assumes "agent_ok cfg offers s"
  shows "agent_ok cfg offers (abandonOnDisconnect now s)"
proof -
  have "agent_ok cfg offers (fold (onDisconnectPark now) xs s)" for xs
    using assms by (induction xs arbitrary: s) (simp_all add: ok_park)
  then show ?thesis unfolding abandonOnDisconnect_def
    by (rule ok_view) (simp_all add: same_core_def)
qed

lemma ok_sendHeartbeat: "agent_ok cfg offers s \<Longrightarrow> agent_ok cfg offers (sendHeartbeat cfg' opts wd k (s :: connection_state))"
  using ok_renew [of cfg offers None 0 s "wd_now wd" None]
  by (simp add: sendHeartbeat_def Let_def ok_conn_fields ok_None)

lemma ok_on_hello_ack:
  assumes ok: "agent_ok cfg offers (s :: connection_state)"
  shows "agent_ok cfg offers (on_hello_ack cfg' opts wd k ack s)"
proof -
  have start: "agent_ok cfg offers t \<Longrightarrow> agent_ok cfg offers (reportAll (wd_act wd) t)" for t :: connection_state
    unfolding ok_None [where r = 0, symmetric] reportAll_def by (intro ok_start act_ok_plain) simp_all
  note rules = ok_conn_fields ok_sendHeartbeat start ok
  have "agent_ok cfg offers (on_authenticated cfg' opts wd k x s)" for x
    unfolding on_authenticated_def startHeartbeats_def Let_def by (auto intro!: rules split: option.split)
  then show ?thesis unfolding on_hello_ack_def by (auto intro!: rules split: hello_ack.split)
qed

theorem agent_step_ok: "agent_step cfg opts offers s t \<Longrightarrow> agent_ok cfg offers s \<Longrightarrow> agent_ok cfg offers t"
proof (induction rule: agent_step.induct)
  case (message s w m p)
  then show ?case by (intro ok_message) auto
next
  case (resume s w r aw)
  then show ?case by (intro ok_resume)
next
  case (lease_timer s r addr t now)
  then show ?case using ok_lease_timer [of cfg offers 0 s cfg now r addr] by (simp add: ok_None)
next
  case (socket_closed s now k)
  then show ?case by (auto simp: on_socket_close_def Let_def intro!: ok_conn_fields ok_abandonOnDisconnect)
next
  case (closed s r now killProcess)
  then have "agent_ok cfg offers (forceAbandon r ((stopHeartbeats s)\<lparr>cx_hasExecutor := False\<rparr>))"
    using ok_forceAbandon [of cfg offers r "(stopHeartbeats s)\<lparr>cx_hasExecutor := False\<rparr>"] by (simp add: ok_None ok_conn_fields)
  with closed show ?case by (auto simp: close_connection_def Let_def intro!: ok_conn_fields ok_abandonOnDisconnect split: option.split)
next
  case (heartbeat s w)
  then show ?case by (auto simp: heartbeat_tick_def intro!: ok_conn_fields ok_sendHeartbeat split: option.split)
next
  case (spool_write s addr ok)
  then show ?case using ok_chain_step [of cfg offers None 0 s cfg addr ok] by (simp add: ok_None)
next
  case (child_data s r st raw)
  then show ?case using ok_child_output [of cfg offers None 0 s r st raw] by (simp add: ok_None)
next
  case (bundle_timer s addr)
  then show ?case using ok_promises(3) [of cfg offers None 0 s addr] by (simp add: ok_None)
next
  case (upload_timer r s a)
  then show ?case using ok_promises(4) [of cfg offers None 0 s r] by (simp add: ok_None)
next
  case (removal s attemptId)
  then show ?case using ok_promises(5) [of cfg offers None 0 s attemptId] by (simp add: ok_None)
qed (simp_all add: ok_conn_fields ok_on_hello_ack on_challenge_def)


end
