(* ===== verification/Agent_Scenarios.thy ===== *)
theory Agent_Scenarios
  imports Agent_Recovery
begin

text \<open>
  Executions of the Agent that end in a state its comments rule out. Each is a sequence of steps of
  \<open>agent_step\<close>, evaluated on a connected Agent with one slot.
\<close>

definition idle_agent :: connection_state where
  "idle_agent =
     \<lparr>ag_socket = 1, ag_open = [1], ag_recSocket = Some 1, ag_rejected = [], ag_liveSenders = [], ag_senders = (\<lambda>_. None),
      ag_attempts = [], ag_obj = (\<lambda>_. createAttemptRuntime [] []), ag_next = 0, ag_meta = (\<lambda>_. None), ag_removals = [],
      ag_spools = (\<lambda>_. \<lparr>sd_logs = empty_logs, sd_tail = 0, sd_ack = Ack_missing\<rparr>), ag_acts = (\<lambda>_. None), ag_sent = [],
      ag_spawned = [], ag_kills = [], ag_cacheHeld = [], ag_published = [], cx_hasExecutor = True, cx_socket = Some 1,
      cx_heartbeat = Some 1, cx_stored = (Some ''c'', Some ''ag''),
      cx_conns = (\<lambda>_. None)(1 \<mapsto> \<lparr>cl_credential = Some ''c'', cl_agentId = Some ''ag'', cl_settled = True\<rparr>),
      cx_results = [], cx_frames = [], cx_agentId = ''ag''\<rparr>"

definition small_config :: agent_config where
  "small_config =
     \<lparr>gc_stateDir = ''/s'', gc_secretMap = None, gc_toolchainProfiles = None, gc_maxJobs = None, gc_logSpoolMaxBytes = None,
      gc_logSendQueueMax = None, gc_diskMinFreeBytes = None, gc_hasDiskProbe = False\<rparr>"

definition at_time :: "ts \<Rightarrow> nat \<Rightarrow> agent_world" where
  "at_time now r =
     \<lparr>wd_now = now, wd_act = r, wd_freeBytes = None, wd_exists = (\<lambda>_. True), wd_getenv = (\<lambda>_. None),
      wd_identity = (\<lambda>n. Some ''pid''), wd_spawn = Inr (Some 42, []), wd_staged = (\<lambda>_. None), wd_cacheTargets = []\<rparr>"

definition lease_a :: lease_ref where
  "lease_a = \<lparr>lr_attempt_id = ''a'', lr_lease_id = ''l'', lr_lease_epoch = 1\<rparr>"

definition offer_a :: "risk_level \<Rightarrow> lease_offer" where
  "offer_a risk =
     \<lparr>lo_job_id = ''j'', lo_job_request = demo_request\<lparr>rqst_risk_level := Some risk\<rparr>, lo_snapshot_id = ''s'', lo_content_id = ''c'',
      lo_size_bytes = 1, lo_sha256 = ''h'', lo_selected_toolchain_profiles = None, lo_lease_ttl_seconds = 300\<rparr>"

definition full_source :: prepare_source where
  "full_source = Prepare_source_full \<lparr>tr_download_url = ''u'', tr_data_token = ''t'', tr_expected_size_bytes = 1, tr_expected_sha256 = ''h''\<rparr>"

text \<open>Scripts: messages and resumptions in order, all at one instant.\<close>

datatype event = Msg nat agent_message | Res nat agent_awaited

definition happens :: "ts \<Rightarrow> event \<Rightarrow> connection_state \<Rightarrow> connection_state" where
  "happens now e s =
     (case e of
        Msg r m \<Rightarrow> on_job_message small_config (at_time now r) lease_a m s
      | Res r aw \<Rightarrow> resume_agent small_config (at_time now 99) r aw s)"

definition play :: "ts \<Rightarrow> event list \<Rightarrow> connection_state \<Rightarrow> connection_state" where
  "play now es s = fold (happens now) es s"

definition prepared :: "risk_level \<Rightarrow> event list" where
  "prepared risk =
     [Msg 1 (G_lease_offer (offer_a risk)), Msg 1 (G_prepare_source full_source), Res 1 Aok, Res 1 Aok, Res 1 (Apath ''/p'')]"

text \<open>Up to the point where \<open>run_job\<close> has passed its check for a cancellation and writes the script.\<close>

definition before_the_spawn :: "risk_level \<Rightarrow> event list" where
  "before_the_spawn risk = prepared risk @ [Msg 2 G_run_job, Res 2 Aok, Res 2 Aok]"

definition pc_of :: "nat \<Rightarrow> 'z agent_state_scheme \<Rightarrow> agent_pc option" where
  "pc_of r s = map_option act_pc (ag_acts s r)"

definition frames :: "'z agent_state_scheme \<Rightarrow> agent_frame list" where
  "frames s = map (\<lambda>(_, _, fr). fr) (ag_sent s)"

text \<open>
  A cancellation that arrives while the script is written: \<open>handleCancelJob\<close> leaves the kill to the
  run, and the run starts the process without looking at the flag again. Nobody kills it:
  \<open>waitForCompletion\<close> ends by exit or timeout.
\<close>

theorem cancel_before_spawn_is_lost:
  "let s = play 0 (before_the_spawn Normal @ [Msg 3 (G_cancel_job None), Res 2 Aok, Res 2 Aok]) idle_agent in
   pc_of 2 s = Some (In_run Pr_completion) \<and> rt_cancelled (ag_obj s 0) \<and> 2 \<in> set (ag_spawned s) \<and> ag_kills s = []"
  by code_simp

text \<open>
  The decision to terminate the attempt at the same point clears it, frees the slot and forgets the
  metadata; the run then starts the process. No timer of a lease watches it.
\<close>

theorem terminated_attempt_still_spawns:
  "let s = play 0 (before_the_spawn Destructive @
      [Msg 3 (G_reconcile_decision False None None), Res 3 Aok, Res 3 Aok, Res 2 Aok, Res 2 Aok]) idle_agent in
   pc_of 2 s = Some (In_run Pr_completion) \<and> 2 \<in> set (ag_spawned s) \<and> ag_kills s = [] \<and>
   ag_attempts s = [] \<and> rt_leaseTimer (ag_obj s 0) = None"
  by code_simp

text \<open>
  The directories and the spool are set up before the \<open>try\<close> block: when that fails, nothing is
  reported, the slot stays taken, and a cancellation is left to the run that is gone.
\<close>

theorem failed_setup_keeps_slot:
  "let s = play 0 (prepared Normal @ [Msg 2 G_run_job, Res 2 (Aerr ''ENOSPC''), Msg 3 (G_cancel_job None)]) idle_agent in
   pc_of 2 s = Some (P_rejected ''ENOSPC'') \<and> current ''a'' s = Some 0 \<and> ag_kills s = [] \<and>
   frames s = [Job_frame M_lease_accept, Job_frame M_source_ready] \<and>
   offer_refusal small_config (at_time 0 9) s \<noteq> None"
  by code_simp

text \<open>
  After a restart, an attempt that waits for its upload is adopted: the upload is granted and done, and
  the runtime created for it stays registered. The Agent with one slot refuses every further lease, and
  it has not sent \<open>cleanup_complete\<close>.
\<close>

definition completed_meta :: attempt_metadata where
  "completed_meta =
     \<lparr>mt_lease = lease_a, mt_job_id = ''j'', mt_process_identity = Some ''pid'', mt_status = Meta_completed_awaiting_upload,
      mt_workspace_path = None, mt_spool_dir = ''/s/logs/a'', mt_risk_level = Normal, mt_updated_at = 0,
      mt_last_exit = Some \<lparr>jx_exit_code = Some 0, jx_outcome = Succeeded, jx_failure_category = None, jx_failure_message = None\<rparr>,
      mt_lease_deadline = None, mt_artifact_manifest = Some [], mt_artifact_collection = None\<rparr>"

theorem resumed_upload_keeps_slot:
  "let s = play 0 [Msg 1 (G_reconcile_decision True (Some 0) None), Res 1 Aok, Res 1 Aok, Msg 2 G_artifact_upload_grant, Res 1 Aok]
             (idle_agent\<lparr>ag_meta := [''a'' \<mapsto> completed_meta]\<rparr>) in
   pc_of 1 s = Some P_done \<and> current ''a'' s = Some 0 \<and> offer_refusal small_config (at_time 0 9) s \<noteq> None \<and>
   frames s = [Job_frame (M_job_exit (the (mt_last_exit completed_meta))), Job_frame (M_artifact_manifest [] None)]"
  by code_simp

text \<open>
  While the Agent is disconnected, a finished job asks for its upload; the frame is dropped and the
  request times out. The run then marks the attempt terminal and removes its metadata: the report
  of the success, kept for the next connection, is lost.
\<close>

theorem offline_upload_timeout_loses_success:
  "let run = before_the_spawn Normal @ [Res 2 Aok, Res 2 Aok, Res 2 (Acompletion (Exit_result (Some 0)))];
       s1 = on_socket_close 0 1 (play 0 run idle_agent);
       s2 = play 0 [Res 2 Aok, Res 2 (Acollected [] 0)] s1;
       s3 = finish_removal ''a'' (play 60000 [Res 2 Aok] (upload_timeout 2 ''a'' s2)) in
   (\<exists>m \<in> set_option (ag_meta s2 ''a''). mt_status m = Meta_completed_awaiting_upload \<and>
      map_option jx_outcome (mt_last_exit m) = Some Succeeded) \<and>
   ag_meta s3 ''a'' = None \<and>
   frames s3 = [Job_frame M_lease_accept, Job_frame M_source_ready, Job_frame (M_job_started (Some 42))]"
  by code_simp

text \<open>
  A connection that ended with \<open>pairing_pending\<close> is closed before the next one is opened, and its
  \<open>close\<close> event may come after the next one is authenticated: it stops the heartbeats of the new
  connection and detaches the recovery coordinator from it, although the new socket is open.
\<close>

definition pairing_agent :: connection_state where
  "pairing_agent = idle_agent\<lparr>ag_recSocket := None, cx_hasExecutor := False, cx_heartbeat := None\<rparr>"

theorem late_close_stops_new_heartbeats:
  "let s1 = close_connection 0 7 False pairing_agent;
       s2 = on_hello_ack small_config \<lparr>co_sign = id, co_acceptingJobs = None\<rparr> (at_time 0 8) 2 (Ack_authenticated None) (on_open 2 (connectOnce 2 s1));
       s3 = on_socket_close 30000 1 s2 in
   cx_heartbeat s2 = Some 2 \<and> cx_heartbeat s3 = None \<and> 2 \<in> set (ag_open s3) \<and> ag_recSocket s3 = None \<and> cx_socket s3 = Some 2"
  by code_simp

end
