(* ===== verification/Agent_Safety.thy ===== *)
theory Agent_Safety
  imports Agent_Laws Agent_Scenarios
begin

text \<open>
  What the Agent guarantees in every state its event loop can reach, and how a run of a job ends.
\<close>

section \<open>Reachable states\<close>

text \<open>A process that just started: nothing in memory, and on disk what earlier processes wrote.\<close>

definition fresh_agent :: "offer_table \<Rightarrow> connection_state \<Rightarrow> bool" where
  "fresh_agent offers s =
     (ag_attempts s = [] \<and> ag_acts s = (\<lambda>_. None) \<and> ag_senders s = (\<lambda>_. None) \<and> ag_sent s = [] \<and>
      (\<forall>addr. rt_offer (ag_obj s addr) = None) \<and> (\<forall>x m. ag_meta s x = Some m \<longrightarrow> mt_attempt_id m = x \<and> meta_ok offers m))"

definition agent_reachable :: "agent_config \<Rightarrow> connection_options \<Rightarrow> offer_table \<Rightarrow> connection_state \<Rightarrow> bool" where
  "agent_reachable cfg opts offers s = (\<exists>s0. fresh_agent offers s0 \<and> (agent_step cfg opts offers)\<^sup>*\<^sup>* s0 s)"

lemma fresh_agent_ok: "fresh_agent offers s \<Longrightarrow> agent_ok cfg offers s"
  by (auto simp: fresh_agent_def agent_ok_def registry_ok_def leases_ok_def slots_used_def current_def obj_ok_def)

lemma reachable_ok:
  assumes "agent_reachable cfg opts offers s"
  shows "agent_ok cfg offers s"
proof -
  from assms obtain s0 where s0: "fresh_agent offers s0" "(agent_step cfg opts offers)\<^sup>*\<^sup>* s0 s" by (auto simp: agent_reachable_def)
  from s0(2) show ?thesis
    by (induction rule: rtranclp_induct) (simp_all add: fresh_agent_ok [OF s0(1)] agent_step_ok)
qed

lemma fresh_reachable: "fresh_agent offers s \<Longrightarrow> agent_reachable cfg opts offers s"
  by (auto simp: agent_reachable_def)

lemma step_reachable: "agent_reachable cfg opts offers s \<Longrightarrow> agent_step cfg opts offers s t \<Longrightarrow> agent_reachable cfg opts offers t"
  by (auto simp: agent_reachable_def intro: rtranclp.rtrancl_into_rtrancl)

text \<open>The scenarios run from an idle Agent: each message and each resumption is a step.\<close>

definition offers_a :: "risk_level \<Rightarrow> offer_table" where
  "offers_a risk = (\<lambda>_. (lease_a, offer_a risk))"

definition opts_a :: connection_options where
  "opts_a = \<lparr>co_sign = id, co_acceptingJobs = None\<rparr>"

lemma idle_reachable: "agent_reachable cfg opts offers idle_agent"
  by (rule fresh_reachable) (simp add: fresh_agent_def idle_agent_def createAttemptRuntime_def)

definition issued_message :: "risk_level \<Rightarrow> agent_message \<Rightarrow> bool" where
  "issued_message risk m = (case m of G_lease_offer offer \<Rightarrow> offer = offer_a risk | _ \<Rightarrow> True)"

lemma reachable_message:
  "agent_reachable small_config opts (offers_a risk) s \<Longrightarrow> cx_hasExecutor s \<and> ag_acts s r = None \<and> issued_message risk m \<Longrightarrow>
   agent_reachable small_config opts (offers_a risk) (happens now (Msg r m) s)"
  unfolding happens_def
  by (auto simp: at_time_def offers_a_def issued_message_def intro!: step_reachable [OF _ agent_step.message])

lemma reachable_resume:
  "agent_reachable small_config opts offers s \<Longrightarrow> ag_acts s 99 = None \<Longrightarrow> agent_reachable small_config opts offers (happens now (Res r aw) s)"
  unfolding happens_def
  by (auto simp: at_time_def intro!: step_reachable [OF _ agent_step.resume])

section \<open>Slots\<close>

text \<open>
  (C30) The Agent never works on more offered attempts than it has slots. In every reachable state at
  most \<open>maxJobs\<close> registered attempts came from an offer, and an offer that finds all slots taken is
  answered with a rejection and changes nothing else.
\<close>

theorem agent_slots_bounded:
  assumes "agent_reachable cfg opts offers s"
  shows "int (slots_used s) \<le> max 0 (maxJobs cfg) \<and>
    (int (length (ag_attempts s)) \<ge> maxJobs cfg \<and> lr_attempt_id p \<notin> set (ag_rejected s) \<longrightarrow>
       (\<exists>reason. handleLeaseOffer cfg w p offer s = sendFrame p (M_lease_reject reason) s))"
  using reachable_ok [OF assms] by (auto simp: agent_ok_def registry_ok_def handleLeaseOffer_def offer_refusal_def)

theorem agent_slots_bounded_witness:
  "let s = happens 0 (Msg 1 (G_lease_offer (offer_a Normal))) idle_agent in
   int (slots_used s) \<le> 1 \<and> slots_used s = 1 \<and>
   (\<exists>reason. handleLeaseOffer small_config (at_time 0 2) (lease_a\<lparr>lr_attempt_id := ''b''\<rparr>) (offer_a Normal) s =
      sendFrame (lease_a\<lparr>lr_attempt_id := ''b''\<rparr>) (M_lease_reject reason) s)"
proof -
  let ?s = "happens 0 (Msg 1 (G_lease_offer (offer_a Normal))) idle_agent" and ?p = "lease_a\<lparr>lr_attempt_id := ''b''\<rparr>"
  have "agent_reachable small_config opts_a (offers_a Normal) ?s"
    by (rule reachable_message [OF idle_reachable]) (simp add: idle_agent_def issued_message_def)
  note bound = agent_slots_bounded [OF this, of ?p "at_time 0 2" "offer_a Normal"]
  have "max 0 (maxJobs small_config) = 1" by code_simp
  moreover have "int (length (ag_attempts ?s)) \<ge> maxJobs small_config \<and> lr_attempt_id ?p \<notin> set (ag_rejected ?s)" by code_simp
  moreover have "slots_used ?s = 1" by code_simp
  ultimately show ?thesis using bound unfolding Let_def by metis
qed

section \<open>Leases\<close>

text \<open>
  (C29) The Agent speaks only under leases the Controller issued: in every reachable state, each job
  frame and recovery report sent carries attempt, lease and epoch of an offer of the Controller, and so
  does every metadata record kept for a later process.
\<close>

theorem agent_frames_carry_issued_lease:
  assumes "agent_reachable cfg opts offers s"
  shows "(\<forall>(k, p, fr) \<in> set (ag_sent s). p = fst (offers (lr_attempt_id p))) \<and>
    (\<forall>x m. ag_meta s x = Some m \<longrightarrow> mt_lease m = fst (offers x))"
proof
  have ok: "leases_ok offers s" using reachable_ok [OF assms] by (simp add: agent_ok_def)
  then show "\<forall>(k, p, fr) \<in> set (ag_sent s). p = fst (offers (lr_attempt_id p))"
    by (auto simp: leases_ok_def list_all_iff issued_def)
  from ok show "\<forall>x m. ag_meta s x = Some m \<longrightarrow> mt_lease m = fst (offers x)"
    by (auto simp: leases_ok_def meta_ok_def issued_def mt_attempt_id_def)
qed

theorem agent_frames_carry_issued_lease_witness:
  "let s = happens 0 (Msg 1 (G_lease_offer (offer_a Normal))) idle_agent in
   ag_sent s = [(1, lease_a, Job_frame M_lease_accept)] \<and>
   (\<forall>(k, p, fr) \<in> set (ag_sent s). p = fst (offers_a Normal (lr_attempt_id p)))"
proof -
  let ?s = "happens 0 (Msg 1 (G_lease_offer (offer_a Normal))) idle_agent"
  have "agent_reachable small_config opts_a (offers_a Normal) ?s"
    by (rule reachable_message [OF idle_reachable]) (simp add: idle_agent_def issued_message_def)
  note issued = agent_frames_carry_issued_lease [OF this]
  have "ag_sent ?s = [(1, lease_a, Job_frame M_lease_accept)]" by code_simp
  with issued show ?thesis by (simp add: Let_def)
qed

text \<open>What the callback of the lease timer does once the deadline has passed.\<close>

lemma expiry_kills:
  assumes cur: "current x s = Some addr" and d: "rt_leaseDeadlineMs (ag_obj s addr) = Some d" "d \<le> now"
    and live: "\<not> rt_leaseExpired (ag_obj s addr)" and risk: "isDestructiveOrHardware (rt_leaseRisk (ag_obj s addr))"
  shows "rt_leaseExpired (ag_obj (onLeaseExpired cfg now q x s) addr)"
    "rt_activeProcessKill (ag_obj s addr) = Some child \<Longrightarrow> child \<in> set (ag_kills (onLeaseExpired cfg now q x s))"
proof -
  have "rt_leaseExpired (ag_obj (write_expired cfg now addr t) addr) = rt_leaseExpired (ag_obj t addr)" for t :: "'a agent_state_scheme"
    by (simp add: write_expired_def Let_def writeAttemptMetadata_def split: option.split prod.split)
  then show "rt_leaseExpired (ag_obj (onLeaseExpired cfg now q x s) addr)"
    using assms by (simp add: onLeaseExpired_def Let_def kill_child_def start_act_def split: option.split)
  show "rt_activeProcessKill (ag_obj s addr) = Some child \<Longrightarrow> child \<in> set (ag_kills (onLeaseExpired cfg now q x s))"
    using assms by (simp add: onLeaseExpired_def Let_def kill_child_def)
qed



section \<open>The end of a run\<close>

definition stage :: "agent_pc \<Rightarrow> nat" where
  "stage pc =
     (case pc of
        In_run q \<Rightarrow>
          (case q of Pr_setup \<Rightarrow> 18 | Pr_ack \<Rightarrow> 17 | Pr_script \<Rightarrow> 16 | Pr_cwd \<Rightarrow> 15 | Pr_cache _ \<Rightarrow> 14 | Pr_env_events _ \<Rightarrow> 13
           | Pr_late_kill \<Rightarrow> 12 | Pr_completion \<Rightarrow> 11 | Pr_drain _ _ \<Rightarrow> 10 | Pr_flush_stdout _ _ \<Rightarrow> 9 | Pr_flush_stderr _ _ \<Rightarrow> 8
           | Pr_kill _ _ \<Rightarrow> 7 | Pr_collect \<Rightarrow> 6 | Pr_grant \<Rightarrow> 5 | Pr_granted \<Rightarrow> 4 | Pr_grant_failed _ \<Rightarrow> 4 | Pr_cleanup \<Rightarrow> 3 | Pr_finally \<Rightarrow> 2)
      | P_rm_clear \<Rightarrow> 1
      | _ \<Rightarrow> 0)"

definition caches_left :: "agent_pc \<Rightarrow> nat" where
  "caches_left pc = (case pc of In_run (Pr_cache ts) \<Rightarrow> length ts | _ \<Rightarrow> 0)"

definition run_order :: "(agent_pc \<times> agent_pc) set" where
  "run_order = measures [stage, caches_left]"

lemma stage_simps [simp]:
  "stage (In_run Pr_setup) = 18" "stage (In_run Pr_ack) = 17" "stage (In_run Pr_script) = 16" "stage (In_run Pr_cwd) = 15"
  "stage (In_run (Pr_cache ts)) = 14" "stage (In_run (Pr_env_events pid)) = 13" "stage (In_run Pr_late_kill) = 12"
  "stage (In_run Pr_completion) = 11" "stage (In_run (Pr_drain c n)) = 10" "stage (In_run (Pr_flush_stdout c n)) = 9"
  "stage (In_run (Pr_flush_stderr c n)) = 8" "stage (In_run (Pr_kill c b)) = 7" "stage (In_run Pr_collect) = 6"
  "stage (In_run Pr_grant) = 5" "stage (In_run Pr_granted) = 4" "stage (In_run (Pr_grant_failed m)) = 4"
  "stage (In_run Pr_cleanup) = 3" "stage (In_run Pr_finally) = 2" "stage P_rm_clear = 1" "stage P_done = 0" "stage (P_rejected m) = 0"
  by (simp_all add: stage_def)

definition reaches :: "nat \<Rightarrow> 'z agent_state_scheme \<Rightarrow> agent_pc \<Rightarrow> bool" where
  "reaches r s pc = (\<exists>pc'. pc_of r s = Some pc' \<and> pc' \<noteq> P_done \<and> (pc', pc) \<in> run_order)"

lemma run_orderI: "stage pc' < stage pc \<Longrightarrow> (pc', pc) \<in> run_order"
  by (simp add: run_order_def)

definition alive :: "nat \<Rightarrow> 'z agent_state_scheme \<Rightarrow> bool" where
  "alive r s = (r \<in> dom (ag_acts s))"

lemma pc_jump: "alive r s \<Longrightarrow> pc_of r (jump r pc s) = Some pc"
  by (auto simp: alive_def pc_of_def jump_def set_act_def)

text \<open>No operation of a run ends an activation: \<open>r\<close> stays in the table.\<close>

lemma alive_acts: "ag_acts t = ag_acts s \<Longrightarrow> alive r t = alive r s"
  by (simp add: alive_def)

lemma alive_jump [simp]: "alive r (set_act q f s) = alive r s" "alive r (jump q pc s) = alive r s"
  by (auto simp: alive_def set_act_def jump_def)

lemma acts_prims [simp]:
  "ag_acts (sendFrame p m s) = ag_acts s" "ag_acts (kill_child c s) = ag_acts s" "ag_acts (writeAttemptMetadata md s) = ag_acts s"
  "ag_acts (start_removal x s) = ag_acts s"
  by (simp_all add: sendFrame_def kill_child_def writeAttemptMetadata_def start_removal_def)

lemma acts_reports [simp]:
  "ag_acts (persistTerminalMetadata now x e s) = ag_acts s" "ag_acts (sendCancelledTerminal now p msg s) = ag_acts s"
  "ag_acts (failTerminal now p cat msg s) = ag_acts s" "ag_acts (persistCompletedAwaitingUpload cfg now addr offer p e man coll s) = ag_acts s"
  "ag_acts (started_metadata cfg w a pid s) = ag_acts s" "ag_acts (appendAndEnqueue addr q st text s) = ag_acts s"
  by (simp_all add: persistTerminalMetadata_def sendCancelledTerminal_def failTerminal_def persistCompletedAwaitingUpload_def
      started_metadata_def appendAndEnqueue_def Let_def split: option.split prod.split)

lemma fold_chunks_acts: "ag_acts (fold (send_chunk ls) cs s) = ag_acts s"
  by (induction cs arbitrary: s) (simp_all add: send_chunk_def sendJobScoped_def split: prod.split option.split)

lemma acts_sender [simp]: "ag_acts (run_sender q f s) = ag_acts s"
  by (simp add: run_sender_def fold_chunks_acts split: option.split prod.split)

lemma acts_sender_ready [simp]: "ag_acts (sender_ready r a s) = ag_acts s"
  by (simp add: sender_ready_def registerLiveSender_def)

lemma acts_update [simp]: "ag_acts (set_obj addr f s) = ag_acts s"
  by (simp add: set_obj_def)

lemmas alive_same [simp] =
  acts_prims [THEN alive_acts] acts_reports [THEN alive_acts] acts_sender [THEN alive_acts] acts_sender_ready [THEN alive_acts]
  acts_update [THEN alive_acts]

lemma alive_expiry [simp]: "alive r s \<Longrightarrow> alive r (onLeaseExpired cfg now q x s)"
  by (auto simp: alive_def onLeaseExpired_def Let_def schedule_set write_expired_def start_act_def split: option.split prod.split)

lemma alive_fields [simp]:
  "alive r (s\<lparr>ag_spawned := x\<rparr>) = alive r s" "alive r (s\<lparr>ag_cacheHeld := h\<rparr>) = alive r s" "alive r (s\<lparr>ag_published := y\<rparr>) = alive r s"
  "alive r (s\<lparr>ag_spools := sp\<rparr>) = alive r s" "alive r (s\<lparr>ag_senders := ls\<rparr>) = alive r s"
  "alive r (s\<lparr>ag_attempts := m\<rparr>) = alive r s" "alive r (s\<lparr>ag_liveSenders := l\<rparr>) = alive r s"
  by (simp_all add: alive_def)

lemma request_acts: "requestArtifactUploadTokens r p arts coll s = Inr t \<Longrightarrow> alive q t = alive q s"
  by (auto simp: requestArtifactUploadTokens_def alive_def split: option.splits if_splits)

lemma pc_exit: "alive r s \<Longrightarrow> pc_of r (set_act r (\<lambda>a. a\<lparr>act_exit := e, act_pc := pc\<rparr>) s) = Some pc"
  by (auto simp: alive_def pc_of_def set_act_def)

lemma pc_attach: "alive r s \<Longrightarrow> pc_of r (attach_output r s) = Some (In_run Pr_completion)"
  by (auto simp: alive_def attach_output_def pc_of_def set_act_def)

lemma reaches_started: "alive r s \<Longrightarrow> 12 < stage pc \<Longrightarrow> reaches r (job_is_started cfg w r a pid s) pc"
  unfolding reaches_def job_is_started_def late_lease_check_def Let_def
  by (auto simp: pc_attach pc_jump intro!: run_orderI)

lemma reaches_jump: "alive r s \<Longrightarrow> pc' \<noteq> P_done \<Longrightarrow> stage pc' < stage pc \<Longrightarrow> reaches r (jump r pc' s) pc"
  by (auto simp: reaches_def pc_jump intro!: run_orderI)

lemma reaches_catch: "alive r s \<Longrightarrow> 2 < stage pc \<Longrightarrow> reaches r (run_catch_agent now r a msg s) pc"
  unfolding run_catch_agent_def by (rule reaches_jump) simp_all

lemma reaches_acquire:
  assumes s: "alive r s" and pc: "13 < stage pc" "ts \<noteq> [] \<Longrightarrow> (In_run (Pr_cache ts), pc) \<in> run_order"
  shows "reaches r (acquire_next cfg w r a ts s) pc"
proof (cases "ts = []")
  case True
  then show ?thesis using s pc(1)
    by (auto simp: acquire_next_def spawn_job_def Let_def intro!: reaches_catch reaches_jump reaches_started split: sum.split)
next
  case False
  then show ?thesis using s pc(2) by (auto simp: acquire_next_def reaches_def pc_jump)
qed

lemma reaches_before_spawn:
  "offer_of a s \<noteq> None \<Longrightarrow> alive r s \<Longrightarrow> 16 < stage pc \<Longrightarrow> reaches r (before_spawn cfg w r a s) pc"
  by (auto simp: before_spawn_def intro!: reaches_jump split: option.split sum.split)

lemma reaches_settled:
  assumes "offer_of a s \<noteq> None" "alive r s" "6 < stage pc"
  shows "reaches r (run_settled cfg now r a result b s) pc"
  using assms by (auto simp: run_settled_def Let_def reaches_def pc_exit pc_jump intro!: run_orderI split: option.split)

lemma reaches_flushed:
  assumes "offer_of a s \<noteq> None" "alive r s" "7 < stage pc"
  shows "reaches r (streams_flushed cfg now r a result s) pc"
  using assms by (auto simp: streams_flushed_def Let_def intro!: reaches_jump reaches_settled)

lemma offer_set_act: "offer_of a (set_act r f s) = offer_of a s" "offer_of a (appendAndEnqueue addr r st text s) = offer_of a s"
  "offer_of a (sender_ready r a' s) = offer_of a s"
proof -
  have fold: "ag_obj (fold (send_chunk ls) cs t) = ag_obj t" for ls cs and t :: "'b agent_state_scheme"
    by (induction cs arbitrary: t) (simp_all add: send_chunk_def sendJobScoped_def sendFrame_def split: prod.split option.split)
  show "offer_of a (set_act r f s) = offer_of a s" "offer_of a (appendAndEnqueue addr r st text s) = offer_of a s"
    "offer_of a (sender_ready r a' s) = offer_of a s"
    by (simp_all add: offer_of_def set_act_def appendAndEnqueue_def sender_ready_def registerLiveSender_def run_sender_def fold split: option.split prod.split)
qed

lemma reaches_flush_stderr:
  assumes "offer_of a s \<noteq> None" "alive r s" "8 < stage pc"
  shows "reaches r (flush_stderr cfg now r a result s) pc"
  using assms by (auto simp: flush_stderr_def Let_def offer_set_act intro!: reaches_jump reaches_flushed split: prod.split)

lemma reaches_flush_stdout:
  assumes "offer_of a s \<noteq> None" "alive r s" "9 < stage pc"
  shows "reaches r (flush_stdout cfg now r a result s) pc"
  using assms by (auto simp: flush_stdout_def Let_def offer_set_act intro!: reaches_jump reaches_flush_stderr split: prod.split)

lemma reaches_collected:
  "offer_of a s \<noteq> None \<Longrightarrow> act_exit a \<noteq> None \<Longrightarrow> alive r s \<Longrightarrow> 5 < stage pc \<Longrightarrow> reaches r (collected cfg now r a staged n s) pc"
  by (auto simp: collected_def Let_def request_acts intro!: reaches_jump reaches_catch split: sum.split)

lemmas clearing = clearAttempt_def reject_pending_upload_def reject_pending_bundle_def reject_upload_def settle_bundle_def clearLeaseTimer_def
  clearLiveSender_def Let_def

lemma clearAttempt_gone: "current x (clearAttempt x s) = None"
  by (auto simp: clearAttempt_def current_def map_of_map_delete Let_def split: option.split)

lemma alive_clear [simp]: "alive r (clearAttempt x s) = alive r s"
  by (simp add: clearing split: option.split prod.split)

lemma held_clear [simp]: "ag_cacheHeld (clearAttempt x s) = ag_cacheHeld s"
  by (simp add: clearing set_act_def set_obj_def split: option.split prod.split)

lemma run_step_advances:
  assumes a: "alive r s" and o: "offer_of a s \<noteq> None" and pc: "pc \<noteq> Pr_finally"
  shows "run_step cfg w r a pc aw s = s \<or> reaches r (run_step cfg w r a pc aw s) (In_run pc)"
proof -
  note steps = reaches_jump reaches_catch reaches_started reaches_before_spawn reaches_settled reaches_flushed reaches_flush_stderr
    reaches_flush_stdout
  have attach: "stage (In_run Pr_completion) < stage pc' \<Longrightarrow> reaches r (attach_output r s) pc'" for pc'
    using pc_attach [OF a] by (auto simp: reaches_def intro!: run_orderI)
  show ?thesis
  proof (cases pc)
    case (Pr_cache ts)
    then show ?thesis using a
      by (cases ts; cases aw)
        (auto simp: run_step_def cache_acquired_def run_order_def caches_left_def intro!: reaches_acquire reaches_catch)
  next
    case Pr_collect
    show ?thesis
    proof (cases "act_exit a")
      case None
      then show ?thesis using Pr_collect a by (cases aw) (auto simp: run_step_def collected_def Let_def intro: reaches_catch split: option.split)
    next
      case (Some e)
      then show ?thesis using Pr_collect a o by (cases aw) (auto simp: run_step_def intro: reaches_collected reaches_catch)
    qed
  next
    case Pr_setup
    then show ?thesis using a by (cases aw) (simp_all add: run_step_def spool_opened_def Let_def steps split: prod.split)
  next
    case Pr_ack
    then show ?thesis using a o by (simp add: run_step_def Let_def steps offer_set_act)
  next
    case Pr_cleanup
    then show ?thesis using a by (cases aw) (simp_all add: run_step_def cleaned_up_def publish_misses_def Let_def steps split: option.split)
  qed (cases aw; simp add: a o pc run_step_def Let_def attach steps reaches_acquire run_orderI)+
qed

lemma jump_fields [simp]: "current x (jump r pc s) = current x s" "ag_cacheHeld (jump r pc s) = ag_cacheHeld s"
  by (simp_all add: jump_def set_act_def current_def)



section \<open>Exits and reconnects\<close>

definition keeps_exit :: "attempt_metadata \<Rightarrow> string \<Rightarrow> 'z agent_state_scheme \<Rightarrow> bool" where
  "keeps_exit m x s =
     ((\<forall>y n. ag_meta s y = Some n \<longrightarrow> mt_attempt_id n = y) \<and>
      (\<exists>n. ag_meta s x = Some n \<and> mt_lease n = mt_lease m \<and> mt_status n = Meta_completed_awaiting_upload \<and> mt_last_exit n = mt_last_exit m))"

lemma parked_exit: "keeps_exit m x s \<Longrightarrow> keeps_exit m x (onDisconnectPark now y s)"
  by (auto simp: keeps_exit_def onDisconnectPark_def readAttemptMetadata_def writeAttemptMetadata_def mt_attempt_id_def split: option.split)

lemma parked_all: "keeps_exit m x s \<Longrightarrow> keeps_exit m x (fold (onDisconnectPark now) ys s)"
  by (induction ys arbitrary: s) (simp_all add: parked_exit)

lemma exit_message_kept: "truthy (jx_failure_message (completed_exit cfg c b result)) = jx_failure_message (completed_exit cfg c b result)"
  by (auto simp: truthy_def completed_exit_def exit_extras_def split: job_outcome.split if_splits)



end
