(* ===== verification/Log_Presentation.thy ===== *)
theory Log_Presentation
  imports Chunk_Log "HOL-Library.Word"
begin

text \<open>
  The presentation of raw logs (\<open>packages/executor/src/log-presentation.ts\<close>): control sequences are
  removed, the output is cut at a byte budget and at a budget of scanned raw bytes, and repeated lines
  can be collapsed. A caller resumes at \<open>consumedRawBytes\<close> with the parser state it got back.

  Bytes are \<open>8 word\<close>. The loop over the chunks is a loop over their concatenation: a code point is
  looked up across chunk boundaries, and nothing else in the loop depends on them.
\<close>

type_synonym bytes = "8 word list"

section \<open>Parser state\<close>

datatype parser_mode = Ground | Escape | Csi | Osc | Osc_escape | Discard

record presentation_state =
  lp_mode :: parser_mode
  lp_csiLength :: int
  lp_oscLength :: int
  lp_controlLength :: int

record present_options =
  po_maxBytes :: int
  po_stripAnsi :: "bool option"
  po_collapseDuplicates :: "bool option"
  po_rawScanCap :: "int option"

record present_result =
  pr_data :: bytes
  pr_state :: presentation_state
  pr_consumedRawBytes :: nat
  pr_scannedRawBytes :: nat
  pr_truncated :: bool

definition MIN_BUDGET :: int where "MIN_BUDGET = 4"
definition DEFAULT_RAW_SCAN_CAP :: int where "DEFAULT_RAW_SCAN_CAP = 1024 * 1024"
definition MAX_CONTROL_BYTES :: int where "MAX_CONTROL_BYTES = 4096"
definition MAX_DEDUP_LINE_BYTES :: nat where "MAX_DEDUP_LINE_BYTES = 64 * 1024"

definition initialState :: presentation_state where
  "initialState = \<lparr>lp_mode = Ground, lp_csiLength = 0, lp_oscLength = 0, lp_controlLength = 0\<rparr>"

text \<open>\<open>x | 0\<close> is the signed 32 bit value of \<open>x\<close>.\<close>

definition bounded_length :: "int \<Rightarrow> int" where
  "bounded_length x = min (max 0 (sint (word_of_int x :: 32 word))) MAX_CONTROL_BYTES"

definition copyState :: "presentation_state option \<Rightarrow> presentation_state" where
  "copyState st =
     (let source = (case st of Some x \<Rightarrow> x | None \<Rightarrow> initialState) in
      \<lparr>lp_mode = lp_mode source, lp_csiLength = bounded_length (lp_csiLength source),
       lp_oscLength = bounded_length (lp_oscLength source), lp_controlLength = bounded_length (lp_controlLength source)\<rparr>)"

definition utf8Width :: "8 word \<Rightarrow> nat" where
  "utf8Width byte =
     (if byte < 0x80 then 1
      else if 0xc2 \<le> byte \<and> byte \<le> 0xdf then 2
      else if 0xe0 \<le> byte \<and> byte \<le> 0xef then 3
      else if 0xf0 \<le> byte \<and> byte \<le> 0xf4 then 4
      else 1)"

text \<open>
  Decoding the bytes of one candidate inserts the replacement character, or the candidate encodes it:
  the ranges of continuation bytes of well-formed UTF-8.
\<close>

definition continuation :: "8 word \<Rightarrow> bool" where
  "continuation b = (0x80 \<le> b \<and> b \<le> 0xbf)"

definition second_byte :: "8 word \<Rightarrow> 8 word \<Rightarrow> bool" where
  "second_byte lead b =
     (if lead = 0xe0 then 0xa0 \<le> b \<and> b \<le> 0xbf
      else if lead = 0xed then 0x80 \<le> b \<and> b \<le> 0x9f
      else if lead = 0xf0 then 0x90 \<le> b \<and> b \<le> 0xbf
      else if lead = 0xf4 then 0x80 \<le> b \<and> b \<le> 0x8f
      else continuation b)"

definition well_formed :: "bytes \<Rightarrow> bool" where
  "well_formed cs =
     (case cs of
        lead # b # rest \<Rightarrow> second_byte lead b \<and> list_all continuation rest
      | _ \<Rightarrow> True)"

definition has_replacement :: "bytes \<Rightarrow> bool" where
  "has_replacement candidate = (\<not> well_formed candidate \<or> candidate = [0xef, 0xbf, 0xbd])"

section \<open>The presenter\<close>

text \<open>The variables of \<open>presentLogChunks\<close>.\<close>

record presenter =
  pz_parser :: presentation_state
  pz_output :: bytes
  pz_consumed :: nat
  pz_scanned :: nat
  pz_truncated :: bool
  pz_line :: bytes
  pz_lineStart :: "nat \<times> nat \<times> presentation_state"
  pz_previousLine :: "bytes option"
  pz_dedupLine :: bool

definition collapse :: "present_options \<Rightarrow> bool" where
  "collapse opts = (po_collapseDuplicates opts = Some True)"

definition stripAnsi :: "present_options \<Rightarrow> bool" where
  "stripAnsi opts = (po_stripAnsi opts \<noteq> Some False)"

definition scanCap :: "present_options \<Rightarrow> int" where
  "scanCap opts = (case po_rawScanCap opts of Some n \<Rightarrow> n | None \<Rightarrow> DEFAULT_RAW_SCAN_CAP)"

definition append_out :: "present_options \<Rightarrow> bytes \<Rightarrow> presenter \<Rightarrow> bool \<times> presenter" where
  "append_out opts bs z =
     (if bs = [] then (True, z)
      else if int (length (pz_output z) + length bs) > po_maxBytes opts then (False, z)
      else (True, z\<lparr>pz_output := pz_output z @ bs\<rparr>))"

definition emitLine :: "present_options \<Rightarrow> bytes \<Rightarrow> presenter \<Rightarrow> bool \<times> presenter" where
  "emitLine opts bs z =
     (if collapse opts \<and> pz_dedupLine z \<and> pz_previousLine z = Some bs then (True, z)
      else case append_out opts bs z of
             (False, z1) \<Rightarrow> (False, z1)
           | (True, z1) \<Rightarrow> (True, if collapse opts \<and> pz_dedupLine z1 then z1\<lparr>pz_previousLine := Some bs\<rparr> else z1))"

function emitText :: "present_options \<Rightarrow> bytes \<Rightarrow> presenter \<Rightarrow> bool \<times> presenter" where
  "emitText opts bs z =
     (if \<not> collapse opts \<or> \<not> pz_dedupLine z then append_out opts bs z
      else
        (let z0 = (if pz_line z = [] then z\<lparr>pz_lineStart := (pz_consumed z, pz_scanned z, copyState (Some (pz_parser z)))\<rparr> else z);
             joined = pz_line z @ bs
         in if 0x0a \<notin> set joined
            then if length joined > MAX_DEDUP_LINE_BYTES
                 then append_out opts joined (z0\<lparr>pz_dedupLine := False, pz_line := []\<rparr>)
                 else (True, z0\<lparr>pz_line := joined\<rparr>)
            else
              (let whole = takeWhile (\<lambda>b. b \<noteq> 0x0a) joined @ [0x0a]; rest = drop (length whole) joined in
               case emitLine opts whole z0 of
                 (False, z1) \<Rightarrow> (False, z1)
               | (True, z1) \<Rightarrow>
                   (let z2 = z1\<lparr>pz_line := []\<rparr> in if rest \<noteq> [] then emitText opts rest z2 else (True, z2)))))"
  by auto
termination
proof (relation "measure (\<lambda>(opts, bs, z). length (pz_line z) + length bs)")
  fix opts :: present_options and bs joined whole rest :: bytes and z z0 z1 z2 :: presenter
  assume "joined = pz_line z @ bs" "rest = drop (length whole) joined" "whole = takeWhile (\<lambda>b. b \<noteq> 0x0a) joined @ [0x0a]"
    "rest \<noteq> []" "z2 = z1\<lparr>pz_line := []\<rparr>"
  then show "((opts, rest, z2), opts, bs, z) \<in> measure (\<lambda>(opts, bs, z). length (pz_line z) + length bs)"
    by (cases joined) auto
qed simp

declare emitText.simps [simp del]

definition rollbackLine :: "present_options \<Rightarrow> presenter \<Rightarrow> presenter" where
  "rollbackLine opts z =
     (if \<not> collapse opts \<or> \<not> pz_dedupLine z \<or> pz_line z = [] then z
      else case pz_lineStart z of
             (consumed, scanned, st) \<Rightarrow> z\<lparr>pz_consumed := consumed, pz_scanned := scanned, pz_parser := st, pz_line := []\<rparr>)"

definition controlByte :: "presentation_state \<Rightarrow> presentation_state" where
  "controlByte st =
     (let st1 = st\<lparr>lp_controlLength := min MAX_CONTROL_BYTES (lp_controlLength st + 1)\<rparr>;
          st2 = (if lp_controlLength st1 \<ge> MAX_CONTROL_BYTES then st1\<lparr>lp_mode := Discard\<rparr> else st1);
          st3 = (if lp_mode st2 = Csi then st2\<lparr>lp_csiLength := min MAX_CONTROL_BYTES (lp_csiLength st2 + 1)\<rparr> else st2)
      in if lp_mode st3 = Osc \<or> lp_mode st3 = Osc_escape
         then st3\<lparr>lp_oscLength := min MAX_CONTROL_BYTES (lp_oscLength st3 + 1)\<rparr> else st3)"

definition to_ground :: "presentation_state \<Rightarrow> presentation_state" where
  "to_ground st = st\<lparr>lp_mode := Ground, lp_controlLength := 0\<rparr>"

text \<open>The byte of a control sequence: the parser after it, and whether the byte is consumed.\<close>

definition control_step :: "8 word \<Rightarrow> presentation_state \<Rightarrow> bool \<times> presentation_state" where
  "control_step byte st =
     (let st1 = controlByte st in
      case lp_mode st of
        Escape \<Rightarrow>
          if byte = 0x5b then (True, st1\<lparr>lp_mode := Csi, lp_csiLength := 0\<rparr>)
          else if byte = 0x5d then (True, st1\<lparr>lp_mode := Osc, lp_oscLength := 0\<rparr>)
          else (False, to_ground st1)
      | Csi \<Rightarrow> (True, if 0x40 \<le> byte \<and> byte \<le> 0x7e then to_ground st1 else st1)
      | Discard \<Rightarrow> (True, if byte = 0x07 \<or> byte = 0x5c then to_ground st1 else st1)
      | _ \<Rightarrow>
          (True,
           if lp_mode st1 = Osc_escape
           then if byte = 0x5c then to_ground st1 else st1\<lparr>lp_mode := Osc\<rparr>
           else if byte = 0x07 then to_ground st1
           else if byte = 0x1b then st1\<lparr>lp_mode := Osc_escape\<rparr>
           else st1))"

text \<open>
  One round of the loop on the bytes left, with \<open>scanned\<close> already counted: the number of bytes it
  consumes, and whether the loop goes on.
\<close>

definition stop_truncated :: "presenter \<Rightarrow> nat \<times> bool \<times> presenter" where
  "stop_truncated z = (0, False, z\<lparr>pz_truncated := True\<rparr>)"

definition consume :: "nat \<Rightarrow> presenter \<Rightarrow> nat \<times> bool \<times> presenter" where
  "consume n z = (n, True, z\<lparr>pz_consumed := pz_consumed z + n\<rparr>)"

definition text_step :: "present_options \<Rightarrow> bytes \<Rightarrow> presenter \<Rightarrow> nat \<times> bool \<times> presenter" where
  "text_step opts bs z =
     (let byte = hd bs; width = utf8Width byte; candidate = take width bs in
      if stripAnsi opts \<and> byte = 0x1b
      then consume 1 (z\<lparr>pz_parser := (pz_parser z)\<lparr>lp_mode := Escape, lp_controlLength := 1\<rparr>\<rparr>)
      else if width > 1 then
        (if length candidate < width then (0, False, z\<lparr>pz_scanned := pz_scanned z - 1\<rparr>)
         else if int (pz_scanned z + width - 1) > scanCap opts
         then stop_truncated (rollbackLine opts (z\<lparr>pz_scanned := pz_scanned z - 1\<rparr>))
         else if has_replacement candidate then
           (case emitText opts [byte] z of
              (False, z1) \<Rightarrow> stop_truncated z1
            | (True, z1) \<Rightarrow> consume 1 z1)
         else
           (case emitText opts candidate z of
              (False, z1) \<Rightarrow> stop_truncated (rollbackLine opts z1)
            | (True, z1) \<Rightarrow> consume width (z1\<lparr>pz_scanned := pz_scanned z1 + width - 1\<rparr>)))
      else
        (case emitText opts [byte] z of
           (False, z1) \<Rightarrow> stop_truncated (rollbackLine opts z1)
         | (True, z1) \<Rightarrow> consume 1 z1))"

definition loop_step :: "present_options \<Rightarrow> bytes \<Rightarrow> presenter \<Rightarrow> nat \<times> bool \<times> presenter" where
  "loop_step opts bs z =
     (if int (pz_scanned z) \<ge> scanCap opts then stop_truncated (rollbackLine opts z)
      else
        (let z1 = z\<lparr>pz_scanned := pz_scanned z + 1\<rparr> in
         if \<not> stripAnsi opts \<or> lp_mode (pz_parser z1) = Ground then text_step opts bs z1
         else case control_step (hd bs) (pz_parser z1) of
                (consumed, st) \<Rightarrow> consume (if consumed then 1 else 0) (z1\<lparr>pz_parser := st\<rparr>)))"

lemma text_step_measure:
  assumes "text_step opts bs z = (n, True, z1)" "bs \<noteq> []"
  shows "0 < n \<and> n \<le> length bs"
proof -
  have "1 \<le> length bs" using assms(2) by (cases bs) simp_all
  then show ?thesis using assms(1)
    by (auto simp: text_step_def consume_def stop_truncated_def Let_def split: if_splits prod.splits bool.splits)
qed

lemma loop_step_measure:
  assumes "loop_step opts bs z = (n, True, z1)" "bs \<noteq> []"
  shows "0 < n \<and> n \<le> length bs \<or> n = 0 \<and> lp_mode (pz_parser z) = Escape \<and> lp_mode (pz_parser z1) = Ground"
proof (cases "\<not> stripAnsi opts \<or> lp_mode (pz_parser z) = Ground")
  case True
  then show ?thesis using assms text_step_measure [of opts bs "z\<lparr>pz_scanned := pz_scanned z + 1\<rparr>" n z1]
    by (auto simp: loop_step_def stop_truncated_def split: if_splits)
next
  case False
  then show ?thesis using assms
    by (cases "lp_mode (pz_parser z)"; cases bs)
      (auto simp: loop_step_def control_step_def stop_truncated_def consume_def to_ground_def Let_def split: if_splits prod.splits)
qed

function present_loop :: "present_options \<Rightarrow> bytes \<Rightarrow> presenter \<Rightarrow> presenter" where
  "present_loop opts bs z =
     (if bs = [] then z
      else case loop_step opts bs z of (n, go, z1) \<Rightarrow> if go then present_loop opts (drop n bs) z1 else z1)"
  by auto
termination
proof (relation "measure (\<lambda>(opts, bs, z). 2 * length bs + (if lp_mode (pz_parser z) = Escape then 1 else 0))")
  fix opts bs z n go z1 and x y :: "bool \<times> presenter"
  show "((opts, drop n bs, z1), opts, bs, z) \<in> measure (\<lambda>(opts, bs, z). 2 * length bs + (if lp_mode (pz_parser z) = Escape then 1 else 0))"
    if "bs \<noteq> []" "(n, x) = loop_step opts bs z" "(go, z1) = x" "go" 
    using loop_step_measure [of opts bs z n z1] that by auto
qed auto

declare present_loop.simps [simp del]

definition start_presenter :: "presentation_state \<Rightarrow> presenter" where
  "start_presenter st =
     \<lparr>pz_parser = st, pz_output = [], pz_consumed = 0, pz_scanned = 0, pz_truncated = False, pz_line = [],
      pz_lineStart = (0, 0, st), pz_previousLine = None, pz_dedupLine = True\<rparr>"

definition finish_page :: "present_options \<Rightarrow> presenter \<Rightarrow> presenter" where
  "finish_page opts z =
     (if collapse opts \<and> pz_line z \<noteq> [] \<and> \<not> pz_truncated z
      then case append_out opts (pz_line z) z of
             (True, z1) \<Rightarrow> z1
           | (False, z1) \<Rightarrow> (rollbackLine opts z1)\<lparr>pz_truncated := True\<rparr>
      else z)"

definition presentLogChunks :: "bytes list \<Rightarrow> presentation_state option \<Rightarrow> present_options \<Rightarrow> string + present_result" where
  "presentLogChunks chunks state opts =
     (if abs (po_maxBytes opts) > MAX_SAFE_INTEGER \<or> po_maxBytes opts < MIN_BUDGET then Inl ''maxBytes must be at least 4''
      else if abs (scanCap opts) > MAX_SAFE_INTEGER \<or> scanCap opts < 1 then Inl ''rawScanCap must be positive''
      else
        (let z = finish_page opts (present_loop opts (concat chunks) (start_presenter (copyState state)))
         in Inr \<lparr>pr_data = pz_output z, pr_state = pz_parser z, pr_consumedRawBytes = pz_consumed z,
                 pr_scannedRawBytes = pz_scanned z, pr_truncated = pz_truncated z\<rparr>))"

section \<open>The tail of a log\<close>

definition residual_control :: "8 word \<Rightarrow> bool" where
  "residual_control byte = ((byte < 0x20 \<and> byte \<noteq> 0x09 \<and> byte \<noteq> 0x0a \<and> byte \<noteq> 0x0d) \<or> byte = 0x7f)"

definition removeResidualControls :: "bytes \<Rightarrow> bytes" where
  "removeResidualControls data = filter (\<lambda>b. \<not> residual_control b) data"

text \<open>The scan from the last byte: \<open>before\<close> is what is not looked at yet, reversed; \<open>after\<close> what is kept.\<close>

fun scan_lines :: "nat \<Rightarrow> bytes \<Rightarrow> bytes \<Rightarrow> bytes" where
  "scan_lines lines [] after = after"
| "scan_lines lines (b # before) after =
     (if b = 0x0a \<and> after \<noteq> [] then if lines \<le> 1 then after else scan_lines (lines - 1) before (b # after)
      else scan_lines lines before (b # after))"

definition trailingLines :: "bytes \<Rightarrow> int \<Rightarrow> bytes" where
  "trailingLines data maxLines = (if data = [] \<or> maxLines \<le> 0 then [] else scan_lines (nat maxLines) (rev data) [])"

text \<open>What a fatal UTF-8 decoder accepts.\<close>

function utf8_ok :: "bytes \<Rightarrow> bool" where
  "utf8_ok bs =
     (case bs of
        [] \<Rightarrow> True
      | b # _ \<Rightarrow>
          if b < 0x80 then utf8_ok (tl bs)
          else if utf8Width b > 1 \<and> length (take (utf8Width b) bs) = utf8Width b \<and> well_formed (take (utf8Width b) bs)
          then utf8_ok (drop (utf8Width b) bs)
          else False)"
  by auto
termination by (relation "measure length") auto

declare utf8_ok.simps [simp del]

fun utf8_suffix_of :: "bytes \<Rightarrow> bytes" where
  "utf8_suffix_of [] = []"
| "utf8_suffix_of (b # bs) = (if utf8_ok (b # bs) then b # bs else utf8_suffix_of bs)"

definition utf8Suffix :: "bytes \<Rightarrow> int \<Rightarrow> bytes" where
  "utf8Suffix data maxBytes =
     (if maxBytes \<le> 0 \<or> data = [] then [] else utf8_suffix_of (drop (length data - nat maxBytes) data))"

record tail_options =
  to_maxBytes :: int
  to_maxLines :: int
  to_stderrPrefixComplete :: bool
  to_stdoutPrefixComplete :: bool

definition present_stream :: "int \<Rightarrow> bytes list \<Rightarrow> bool \<Rightarrow> bytes" where
  "present_stream maxBytes chunks prefixComplete =
     (if \<not> prefixComplete then []
      else case presentLogChunks chunks None
                  \<lparr>po_maxBytes = maxBytes, po_stripAnsi = Some True, po_collapseDuplicates = None, po_rawScanCap = Some maxBytes\<rparr> of
             Inr res \<Rightarrow> removeResidualControls (pr_data res)
           | Inl _ \<Rightarrow> [])"

definition presentLogTail :: "bytes list \<Rightarrow> bytes list \<Rightarrow> tail_options \<Rightarrow> string + bytes" where
  "presentLogTail stderrChunks stdoutChunks opts =
     (if abs (to_maxBytes opts) > MAX_SAFE_INTEGER \<or> to_maxBytes opts < MIN_BUDGET then Inl ''maxBytes must be at least 4''
      else if abs (to_maxLines opts) > MAX_SAFE_INTEGER \<or> to_maxLines opts < 1 then Inl ''maxLines must be positive''
      else
        (let stderr = trailingLines (present_stream (to_maxBytes opts) stderrChunks (to_stderrPrefixComplete opts)) (to_maxLines opts);
             stdout = trailingLines (present_stream (to_maxBytes opts) stdoutChunks (to_stdoutPrefixComplete opts)) (to_maxLines opts);
             stderrSuffix = utf8Suffix stderr (to_maxBytes opts);
             stdoutSuffix = utf8Suffix stdout (to_maxBytes opts - int (length stderrSuffix))
         in Inr (stderrSuffix @ stdoutSuffix)))"

section \<open>Pages\<close>

text \<open>
  The text of a stream, without any budget: what is left when the control sequences are removed. A
  code point that the input ends in the middle of is not part of it.
\<close>

function shown :: "presentation_state \<Rightarrow> bytes \<Rightarrow> bytes" where
  "shown st bs =
     (if bs = [] then []
      else if lp_mode st \<noteq> Ground
      then case control_step (hd bs) st of (consumed, st') \<Rightarrow> shown st' (if consumed then tl bs else bs)
      else if hd bs = 0x1b then shown (st\<lparr>lp_mode := Escape, lp_controlLength := 1\<rparr>) (tl bs)
      else if length bs < utf8Width (hd bs) then []
      else if utf8Width (hd bs) = 1 \<or> has_replacement (take (utf8Width (hd bs)) bs) then hd bs # shown st (tl bs)
      else take (utf8Width (hd bs)) bs @ shown st (drop (utf8Width (hd bs)) bs))"
  by auto
termination
proof (relation "measure (\<lambda>(st, bs). 2 * length bs + (if lp_mode st = Escape then 1 else 0))")
  fix st :: presentation_state and bs :: bytes and consumed st'
  assume "bs \<noteq> []" "lp_mode st \<noteq> Ground" "(consumed, st') = control_step (hd bs) st"
  then show "((st', if consumed then tl bs else bs), st, bs) \<in> measure (\<lambda>(st, bs). 2 * length bs + (if lp_mode st = Escape then 1 else 0))"
    by (cases "lp_mode st"; cases bs) (auto simp: control_step_def to_ground_def Let_def split: if_splits)
qed (auto simp: utf8Width_def neq_Nil_conv)

declare shown.simps [simp del]

lemma shown_nil [simp]: "shown st [] = []"
  by (simp add: shown.simps)

text \<open>Without collapsing, text goes straight to the output.\<close>

lemma emit_plain: "\<not> collapse opts \<Longrightarrow> emitText opts bs z = append_out opts bs z"
  by (simp add: emitText.simps)

lemma rollback_plain: "\<not> collapse opts \<Longrightarrow> rollbackLine opts z = z"
  by (simp add: rollbackLine_def)

definition pages_to :: "presenter \<Rightarrow> bytes \<Rightarrow> nat \<Rightarrow> presenter \<Rightarrow> bool" where
  "pages_to z bs n z' =
     (n \<le> length bs \<and> pz_consumed z' = pz_consumed z + n \<and>
      pz_output z' @ shown (pz_parser z') (drop n bs) = pz_output z @ shown (pz_parser z) bs)"

lemma text_step_pages:
  assumes "\<not> collapse opts" "stripAnsi opts" "lp_mode (pz_parser z) = Ground" "bs \<noteq> []" "text_step opts bs z = (n, go, z')"
  shows "pages_to z bs n z'"
proof -
  have "1 \<le> length bs" using assms(4) by (cases bs) simp_all
  moreover have "drop (Suc 0) bs = tl bs" by (cases bs) simp_all
  moreover have "1 \<le> utf8Width (hd bs)" by (simp add: utf8Width_def)
  ultimately show ?thesis
    unfolding pages_to_def using assms
    by (auto simp: shown.simps [of "pz_parser z" bs] text_step_def emit_plain rollback_plain append_out_def consume_def stop_truncated_def Let_def min_def split: if_splits prod.splits)
qed


lemma loop_step_pages:
  assumes "\<not> collapse opts" "stripAnsi opts" "bs \<noteq> []" "loop_step opts bs z = (n, go, z')"
  shows "pages_to z bs n z'"
proof (cases "int (pz_scanned z) \<ge> scanCap opts")
  case True
  then show ?thesis using assms by (auto simp: loop_step_def stop_truncated_def rollback_plain pages_to_def)
next
  case False
  let ?z = "z\<lparr>pz_scanned := pz_scanned z + 1\<rparr>"
  show ?thesis
  proof (cases "lp_mode (pz_parser z) = Ground")
    case True
    then have "text_step opts bs ?z = (n, go, z')" using assms False by (simp add: loop_step_def)
    from text_step_pages [OF assms(1,2) _ assms(3) this] True show ?thesis by (simp add: pages_to_def)
  next
    case mode: False
    obtain b rest where bs: "bs = b # rest" using assms(3) by (cases bs) simp_all
    from mode show ?thesis using assms False
      by (auto simp: loop_step_def consume_def pages_to_def bs shown.simps [of "pz_parser z" "b # rest"] split: prod.splits if_splits)
  qed
qed

lemma pages_to_trans: "pages_to z bs n y \<Longrightarrow> pages_to y (drop n bs) m x \<Longrightarrow> pages_to z bs (n + m) x"
  by (auto simp: pages_to_def ac_simps)

lemma present_loop_pages:
  assumes "\<not> collapse opts" "stripAnsi opts"
  shows "\<exists>n. pages_to z bs n (present_loop opts bs z)"
  using assms
proof (induction opts bs z rule: present_loop.induct)
  case (1 opts bs z)
  show ?case
  proof (cases "bs = []")
    case True
    then show ?thesis by (auto simp: present_loop.simps pages_to_def)
  next
    case False
    obtain n go y where step: "loop_step opts bs z = (n, go, y)" by (cases "loop_step opts bs z") auto
    note here = loop_step_pages [OF 1(2,3) False step]
    show ?thesis
    proof (cases go)
      case True
      then obtain m where "pages_to y (drop n bs) m (present_loop opts (drop n bs) y)"
        using 1(1) [OF False step [symmetric] refl] 1(2,3) by auto
      then have "pages_to z bs (n + m) (present_loop opts bs z)"
        using pages_to_trans [OF here] True False step by (simp add: present_loop.simps [of opts bs])
      then show ?thesis by blast
    qed (use here False step in \<open>auto simp: present_loop.simps [of opts bs]\<close>)
  qed
qed

text \<open>The loop stops without a cut only at the end of the input or inside its last code point.\<close>

lemma loop_step_complete:
  assumes "\<not> collapse opts" "stripAnsi opts" "bs \<noteq> []" "loop_step opts bs z = (n, False, z')" "\<not> pz_truncated z'"
  shows "shown (pz_parser z) bs = [] \<and> pz_output z' = pz_output z"
proof -
  have "1 \<le> length bs" using assms(3) by (cases bs) simp_all
  then show ?thesis using assms
    by (auto simp: loop_step_def text_step_def emit_plain rollback_plain append_out_def consume_def stop_truncated_def Let_def min_def
        shown.simps [of "pz_parser z" bs] split: if_splits prod.splits)
qed

lemma present_loop_complete:
  assumes "\<not> collapse opts" "stripAnsi opts" "\<not> pz_truncated (present_loop opts bs z)"
  shows "pz_output (present_loop opts bs z) = pz_output z @ shown (pz_parser z) bs"
  using assms
proof (induction opts bs z rule: present_loop.induct)
  case (1 opts bs z)
  show ?case
  proof (cases "bs = []")
    case False
    obtain n go y where step: "loop_step opts bs z = (n, go, y)" by (cases "loop_step opts bs z") auto
    note here = loop_step_pages [OF 1(2,3) False step]
    show ?thesis
    proof (cases go)
      case True
      then have loop: "present_loop opts bs z = present_loop opts (drop n bs) y" using False step by (simp add: present_loop.simps [of opts bs])
      then have "pz_output (present_loop opts (drop n bs) y) = pz_output y @ shown (pz_parser y) (drop n bs)"
        using 1(1) [OF False step [symmetric] refl True] 1(2-4) by simp
      then show ?thesis using here loop by (simp add: pages_to_def)
    next
      case stop: False
      then have loop: "present_loop opts bs z = y" using False step by (simp add: present_loop.simps [of opts bs])
      have "shown (pz_parser z) bs = [] \<and> pz_output y = pz_output z" using loop_step_complete [OF 1(2,3) False] step stop loop 1(4) by auto
      then show ?thesis using loop by simp
    qed
  qed (simp add: present_loop.simps)
qed

text \<open>The counters of the parser stay bounded, so a state that is handed back is taken over as it is.\<close>

definition counters_bounded :: "presentation_state \<Rightarrow> bool" where
  "counters_bounded st =
     (0 \<le> lp_csiLength st \<and> lp_csiLength st \<le> MAX_CONTROL_BYTES \<and> 0 \<le> lp_oscLength st \<and> lp_oscLength st \<le> MAX_CONTROL_BYTES \<and>
      0 \<le> lp_controlLength st \<and> lp_controlLength st \<le> MAX_CONTROL_BYTES)"

lemma bounded_length_id: "0 \<le> x \<Longrightarrow> x \<le> MAX_CONTROL_BYTES \<Longrightarrow> bounded_length x = x"
  by (simp add: bounded_length_def MAX_CONTROL_BYTES_def sint_sbintrunc' signed_take_bit_int_eq_self)

lemma copyState_id: "counters_bounded st \<Longrightarrow> copyState (Some st) = st"
  by (simp add: copyState_def counters_bounded_def bounded_length_id)

lemma copyState_bounded: "counters_bounded (copyState st)"
  by (auto simp: copyState_def counters_bounded_def bounded_length_def Let_def MAX_CONTROL_BYTES_def)

lemma controlByte_bounded: "counters_bounded st \<Longrightarrow> counters_bounded (controlByte st)"
  by (simp add: controlByte_def counters_bounded_def Let_def MAX_CONTROL_BYTES_def)

lemma bounded_updates:
  "counters_bounded st \<Longrightarrow> counters_bounded (to_ground st)" "counters_bounded st \<Longrightarrow> counters_bounded (st\<lparr>lp_mode := m\<rparr>)"
  "counters_bounded st \<Longrightarrow> counters_bounded (st\<lparr>lp_mode := m, lp_csiLength := 0\<rparr>)"
  "counters_bounded st \<Longrightarrow> counters_bounded (st\<lparr>lp_mode := m, lp_oscLength := 0\<rparr>)"
  by (simp_all add: to_ground_def counters_bounded_def MAX_CONTROL_BYTES_def)

lemma control_step_bounded: "counters_bounded st \<Longrightarrow> control_step b st = (c, st') \<Longrightarrow> counters_bounded st'"
  using controlByte_bounded [of st]
  by (cases "lp_mode st") (auto simp: control_step_def Let_def bounded_updates split: if_splits)

lemma loop_step_bounded:
  assumes "\<not> collapse opts" "counters_bounded (pz_parser z)" "loop_step opts bs z = (n, go, z')"
  shows "counters_bounded (pz_parser z')"
proof -
  have esc: "counters_bounded ((pz_parser z)\<lparr>lp_mode := Escape, lp_controlLength := 1\<rparr>)"
    using assms(2) by (simp add: counters_bounded_def MAX_CONTROL_BYTES_def)
  show ?thesis using assms esc
    by (auto simp: loop_step_def text_step_def emit_plain rollback_plain append_out_def consume_def stop_truncated_def Let_def
        dest: control_step_bounded split: if_splits prod.splits)
qed

lemma present_loop_bounded: "\<not> collapse opts \<Longrightarrow> counters_bounded (pz_parser z) \<Longrightarrow> counters_bounded (pz_parser (present_loop opts bs z))"
proof (induction opts bs z rule: present_loop.induct)
  case (1 opts bs z)
  then show ?case using loop_step_bounded [OF 1(2,3)]
    by (subst present_loop.simps) (auto split: prod.split)
qed

text \<open>Budgets.\<close>

lemma emitText_budget:
  assumes "int (length (pz_output z)) \<le> po_maxBytes opts" "emitText opts bs z = (b, z')"
  shows "int (length (pz_output z')) \<le> po_maxBytes opts"
  using assms
proof (induction opts bs z arbitrary: b z' rule: emitText.induct)
  case (1 opts bs z)
  show ?case using 1
    by (subst (asm) (2) emitText.simps)
      (auto simp: append_out_def emitLine_def Let_def split: if_splits prod.splits bool.splits)
qed


lemma loop_step_budget:
  assumes "int (length (pz_output z)) \<le> po_maxBytes opts" "loop_step opts bs z = (n, go, z')"
  shows "int (length (pz_output z')) \<le> po_maxBytes opts"
proof -
  have roll: "pz_output (rollbackLine opts y) = pz_output y" for y by (simp add: rollbackLine_def split: prod.split)
  have start: "int (length (pz_output (z\<lparr>pz_scanned := m\<rparr>))) \<le> po_maxBytes opts" for m using assms(1) by simp
  show ?thesis using assms emitText_budget [OF start]
    by (auto simp: loop_step_def text_step_def roll consume_def stop_truncated_def Let_def split: if_splits prod.splits bool.splits)
qed

lemma present_loop_budget:
  "int (length (pz_output z)) \<le> po_maxBytes opts \<Longrightarrow> int (length (pz_output (present_loop opts bs z))) \<le> po_maxBytes opts"
proof (induction opts bs z rule: present_loop.induct)
  case (1 opts bs z)
  then show ?case using loop_step_budget [OF 1(2)]
    by (subst present_loop.simps) (auto split: prod.split)
qed

text \<open>No escape byte is shown.\<close>

lemma take_no_escape:
  assumes "1 < utf8Width b" "well_formed (b # take n bs)"
  shows "0x1b \<notin> set (b # take n bs)"
proof -
  have lead: "b \<noteq> 0x1b" using assms(1) by (auto simp: utf8Width_def)
  have tail: "\<not> continuation 0x1b" "\<not> second_byte b 0x1b" by (auto simp: continuation_def second_byte_def)
  show ?thesis using assms(2) lead tail
    by (cases "take n bs") (auto simp: well_formed_def list_all_iff)
qed

lemma shown_no_escape: "0x1b \<notin> set (shown st bs)"
proof (induction st bs rule: shown.induct)
  case (1 st bs)
  show ?case
  proof (cases bs)
    case (Cons b rest)
    have cand: "0x1b \<notin> set (take (utf8Width b) bs)" if ok: "\<not> has_replacement (take (utf8Width b) bs)" and width: "utf8Width b \<noteq> 1"
    proof -
      obtain k where k: "utf8Width b = Suc k" "0 < k" using width by (cases "utf8Width b") (auto simp: utf8Width_def split: if_splits)
      then show ?thesis using take_no_escape [of b k rest] ok Cons by (simp add: has_replacement_def)
    qed
    show ?thesis using 1 cand Cons
      by (subst shown.simps) (auto split: prod.split)
  qed simp
qed

text \<open>Progress: a page that is cut has consumed something.\<close>

lemma consumed_mono: "pz_consumed z \<le> pz_consumed (present_loop opts bs z)" if "\<not> collapse opts" "stripAnsi opts"
  using present_loop_pages [OF that, of z bs] by (auto simp: pages_to_def)

lemma first_char:
  assumes "\<not> collapse opts" "stripAnsi opts" "4 \<le> po_maxBytes opts" "lp_mode (pz_parser z) = Ground" "bs \<noteq> []"
    "pz_output z = []" "int (pz_scanned z) + 3 \<le> scanCap opts" "text_step opts bs z = (n, go, z')"
  shows "go \<and> 0 < n \<or> \<not> go \<and> pz_truncated z' = pz_truncated z"
proof -
  have "1 \<le> utf8Width (hd bs)" "utf8Width (hd bs) \<le> 4" by (simp_all add: utf8Width_def)
  then show ?thesis using assms
    by (auto simp: text_step_def emit_plain append_out_def consume_def stop_truncated_def Let_def split: if_splits)
qed


lemma present_loop_progress:
  assumes "\<not> collapse opts" "stripAnsi opts" "4 \<le> po_maxBytes opts" "5 \<le> scanCap opts" "pz_truncated (present_loop opts bs (start_presenter st))"
  shows "0 < pz_consumed (present_loop opts bs (start_presenter st))"
proof (rule ccontr)
  assume none: "\<not> 0 < pz_consumed (present_loop opts bs (start_presenter st))"
  let ?z = "start_presenter st"
  have ne: "bs \<noteq> []" using assms(5) by (auto simp: present_loop.simps start_presenter_def)
  have stays: False
    if "present_loop opts bs ?z = present_loop opts bs z" "lp_mode (pz_parser z) = Ground" "pz_output z = []" "int (pz_scanned z) \<le> 1"
      "\<not> pz_truncated z" "pz_consumed z = 0" for z
  proof -
    let ?y = "z\<lparr>pz_scanned := pz_scanned z + 1\<rparr>"
    obtain n go x where step: "text_step opts bs ?y = (n, go, x)" by (cases "text_step opts bs ?y") auto
    then have loop: "loop_step opts bs z = (n, go, x)" using that assms(4) by (simp add: loop_step_def)
    from first_char [OF assms(1-3) _ ne _ _ step] that assms(4) consider "go" "0 < n" | "\<not> go" "\<not> pz_truncated x" by auto
    then show False
    proof cases
      case 1
      then have "0 < pz_consumed x" using loop_step_pages [OF assms(1,2) ne loop] by (simp add: pages_to_def)
      then show False using 1 loop that none ne consumed_mono [OF assms(1,2), of x "drop n bs"] by (auto simp: present_loop.simps [of opts bs z])
    next
      case 2
      then show False using loop that assms(5) ne by (simp add: present_loop.simps [of opts bs z])
    qed
  qed
  show False
  proof (cases "lp_mode st = Ground")
    case True
    then show ?thesis using stays [of ?z] by (simp add: start_presenter_def)
  next
    case False
    obtain c st' where ctl: "control_step (hd bs) st = (c, st')" by (cases "control_step (hd bs) st") auto
    let ?y = "?z\<lparr>pz_scanned := 1, pz_parser := st'\<rparr>"
    have step: "loop_step opts bs ?z = consume (if c then 1 else 0) ?y"
      using False assms(2,4) ctl by (simp add: loop_step_def start_presenter_def)
    show ?thesis
    proof (cases c)
      case True
      let ?x = "?y\<lparr>pz_consumed := 1\<rparr>"
      have "present_loop opts bs ?z = present_loop opts (drop 1 bs) ?x"
        using step True ne by (simp add: present_loop.simps [of opts bs] consume_def start_presenter_def)
      then show ?thesis using none consumed_mono [OF assms(1,2), of ?x "drop 1 bs"] by simp
    next
      case keep: False
      then have "lp_mode st' = Ground" using ctl False
        by (cases "lp_mode st") (auto simp: control_step_def to_ground_def Let_def split: if_splits)
      moreover have "present_loop opts bs ?z = present_loop opts bs ?y"
        using step keep ne by (subst present_loop.simps) (simp add: consume_def start_presenter_def)
      ultimately show ?thesis using stays [of ?y] by (simp add: start_presenter_def)
    qed
  qed
qed

text \<open>The result of a presentation that removes control sequences and does not collapse lines.\<close>

lemma present_result:
  assumes "presentLogChunks chunks state opts = Inr res" "\<not> collapse opts"
  shows "4 \<le> po_maxBytes opts"
    "res = (let z = present_loop opts (concat chunks) (start_presenter (copyState state)) in
       \<lparr>pr_data = pz_output z, pr_state = pz_parser z, pr_consumedRawBytes = pz_consumed z,
        pr_scannedRawBytes = pz_scanned z, pr_truncated = pz_truncated z\<rparr>)"
  using assms by (auto simp: presentLogChunks_def finish_page_def MIN_BUDGET_def Let_def split: if_splits)

lemma present_facts:
  assumes "presentLogChunks chunks state opts = Inr res" "stripAnsi opts" "\<not> collapse opts"
  shows "int (length (pr_data res)) \<le> po_maxBytes opts" "0x1b \<notin> set (pr_data res)" "counters_bounded (pr_state res)"
    "pr_data res @ shown (pr_state res) (drop (pr_consumedRawBytes res) (concat chunks)) = shown (copyState state) (concat chunks)"
    "pr_consumedRawBytes res \<le> length (concat chunks)"
proof -
  let ?s = "copyState state" and ?bs = "concat chunks"
  let ?z = "present_loop opts ?bs (start_presenter ?s)"
  note res = present_result [OF assms(1,3), unfolded Let_def]
  show "counters_bounded (pr_state res)"
    using present_loop_bounded [OF assms(3)] copyState_bounded by (simp add: res(2) start_presenter_def)
  obtain n where "pages_to (start_presenter ?s) ?bs n ?z" using present_loop_pages [OF assms(3,2)] by blast
  then show page: "pr_data res @ shown (pr_state res) (drop (pr_consumedRawBytes res) ?bs) = shown ?s ?bs"
    and "pr_consumedRawBytes res \<le> length ?bs"
    by (simp_all add: res(2) pages_to_def start_presenter_def)
  show "0x1b \<notin> set (pr_data res)" using shown_no_escape [of ?s ?bs] page by (metis UnCI set_append)
  show "int (length (pr_data res)) \<le> po_maxBytes opts"
    using res(1) present_loop_budget [of "start_presenter ?s" opts ?bs] by (simp add: res(2) start_presenter_def)
qed



text \<open>The tail of a log.\<close>

lemma utf8_ok_simps:
  "utf8_ok []"
  "b < 0x80 \<Longrightarrow> utf8_ok (b # bs) = utf8_ok bs"
  "\<not> b < 0x80 \<Longrightarrow> utf8_ok (b # bs) =
     (utf8Width b > 1 \<and> utf8Width b \<le> length (b # bs) \<and> well_formed (take (utf8Width b) (b # bs)) \<and> utf8_ok (drop (utf8Width b) (b # bs)))"
  by (subst utf8_ok.simps; auto)+

lemma utf8_ok_append: "utf8_ok a \<Longrightarrow> utf8_ok b \<Longrightarrow> utf8_ok (a @ b)"
proof (induction a rule: length_induct)
  case (1 a)
  show ?case
  proof (cases a)
    case (Cons x xs)
    show ?thesis
    proof (cases "x < 0x80")
      case True
      then show ?thesis using 1 Cons by (simp add: utf8_ok_simps(2))
    next
      case False
      with 1(2) Cons have ok: "1 < utf8Width x" "utf8Width x \<le> length a" "well_formed (take (utf8Width x) a)" "utf8_ok (drop (utf8Width x) a)"
        by (simp_all add: utf8_ok_simps(3))
      have "length (drop (utf8Width x) a) < length a" using ok(1,2) by simp
      then have "utf8_ok (drop (utf8Width x) a @ b)" using 1(1,3) ok(4) by blast
      moreover have "take (utf8Width x) (a @ b) = take (utf8Width x) a" "drop (utf8Width x) (a @ b) = drop (utf8Width x) a @ b" using ok(2) by simp_all
      ultimately show ?thesis using False ok Cons utf8_ok_simps(3) [OF False, of "xs @ b"] by simp
    qed
  qed (use 1 in simp)
qed

lemma utf8_suffix: "utf8_ok (utf8_suffix_of bs)" "length (utf8_suffix_of bs) \<le> length bs" "set (utf8_suffix_of bs) \<subseteq> set bs"
  by (induction bs) (auto simp: utf8_ok_simps(1))

lemma utf8Suffix_facts:
  "utf8_ok (utf8Suffix d n)" "0 \<le> n \<Longrightarrow> int (length (utf8Suffix d n)) \<le> n" "set (utf8Suffix d n) \<subseteq> set d"
proof -
  show "utf8_ok (utf8Suffix d n)" by (simp add: utf8Suffix_def utf8_suffix utf8_ok_simps(1))
  have "length (utf8_suffix_of (drop (length d - nat n) d)) \<le> nat n" using utf8_suffix(2) [of "drop (length d - nat n) d"] by simp
  then show "0 \<le> n \<Longrightarrow> int (length (utf8Suffix d n)) \<le> n" by (auto simp: utf8Suffix_def simp flip: le_nat_iff)
  show "set (utf8Suffix d n) \<subseteq> set d"
    using subset_trans [OF utf8_suffix(3) set_drop_subset, of "length d - nat n" d] by (simp add: utf8Suffix_def)
qed

lemma scan_lines_set: "set (scan_lines n before after) \<subseteq> set before \<union> set after"
  by (induction n before after rule: scan_lines.induct) auto

lemma trailing_set: "set (trailingLines d n) \<subseteq> set d"
  using scan_lines_set [of "nat n" "rev d" "[]"] by (simp add: trailingLines_def)

lemma present_stream_clean: "b \<in> set (present_stream m chunks known) \<Longrightarrow> \<not> residual_control b"
  by (auto simp: present_stream_def removeResidualControls_def split: if_splits sum.splits)

text \<open>
  The tail that \<open>job_wait\<close> returns is at most \<open>maxBytes\<close> bytes of well-formed UTF-8 without
  control bytes other than tab, newline and carriage return, and a stream whose beginning is not known
  contributes nothing. Other arguments are refused.
\<close>

theorem log_tail_is_bounded_text:
  "(case presentLogTail e out opts of
      Inl _ \<Rightarrow> to_maxBytes opts < 4 \<or> to_maxLines opts < 1 \<or> max \<bar>to_maxBytes opts\<bar> \<bar>to_maxLines opts\<bar> > MAX_SAFE_INTEGER
    | Inr t \<Rightarrow>
        int (length t) \<le> to_maxBytes opts \<and> utf8_ok t \<and> list_all (\<lambda>b. \<not> residual_control b) t \<and>
        (to_stderrPrefixComplete opts \<or> to_stdoutPrefixComplete opts \<or> t = []))"
proof (cases "presentLogTail e out opts")
  case (Inl m)
  then show ?thesis by (auto simp: presentLogTail_def MIN_BUDGET_def Let_def split: if_splits)
next
  case (Inr t)
  define a where "a = trailingLines (present_stream (to_maxBytes opts) e (to_stderrPrefixComplete opts)) (to_maxLines opts)"
  define b where "b = trailingLines (present_stream (to_maxBytes opts) out (to_stdoutPrefixComplete opts)) (to_maxLines opts)"
  define x where "x = utf8Suffix a (to_maxBytes opts)"
  define y where "y = utf8Suffix b (to_maxBytes opts - int (length x))"
  from Inr have t: "t = x @ y" and big: "4 \<le> to_maxBytes opts"
    by (auto simp: presentLogTail_def MIN_BUDGET_def Let_def a_def b_def x_def y_def split: if_splits)
  have x: "int (length x) \<le> to_maxBytes opts" using utf8Suffix_facts(2) [of "to_maxBytes opts" a] big by (simp add: x_def)
  have y: "int (length y) \<le> to_maxBytes opts - int (length x)" unfolding y_def by (rule utf8Suffix_facts(2)) (use x in simp)
  have "\<not> residual_control c" if "c \<in> set a" for c
    using subsetD [OF trailing_set that [unfolded a_def]] by (rule present_stream_clean)
  moreover have "\<not> residual_control c" if "c \<in> set b" for c
    using subsetD [OF trailing_set that [unfolded b_def]] by (rule present_stream_clean)
  moreover have "set x \<subseteq> set a" "set y \<subseteq> set b" by (simp_all add: x_def y_def utf8Suffix_facts(3))
  ultimately have clean: "\<not> residual_control c" if "c \<in> set t" for c using that by (auto simp: t)
  have "present_stream m c False = []" for m c by (simp add: present_stream_def)
  then have "to_stderrPrefixComplete opts \<or> to_stdoutPrefixComplete opts \<or> t = []"
    by (cases "to_stderrPrefixComplete opts"; cases "to_stdoutPrefixComplete opts")
      (simp_all add: t x_def y_def a_def b_def trailingLines_def utf8Suffix_def)
  moreover have "utf8_ok t" using utf8_ok_append utf8Suffix_facts(1) by (simp add: t x_def y_def)
  moreover have "int (length t) \<le> to_maxBytes opts" using x y by (simp add: t)
  ultimately show ?thesis using Inr clean by (simp add: list_all_iff)
qed

end
