(* ===== verification/Log_Pagination.thy ===== *)
theory Log_Pagination
  imports Log_Presentation Data_Tokens
begin

text \<open>
  Paging through the log of an attempt (\<open>apps/controller/src/mcp/log-pagination.ts\<close>): the cursor a
  client hands back, packed into a signed token of at most 512 bytes, and the page that is read at a
  cursor. Whether a base64url text is canonical is a parameter, like the codecs of \<open>jwt_env\<close>.
  The code writes the new positions into the position objects of the cursor it was given as well; a cursor
  is a value here.
\<close>

section \<open>Cursors\<close>

text \<open>\<open>Partial<Record<'stdout' | 'stderr', T>>\<close>.\<close>

type_synonym 'a per_stream = "'a option \<times> 'a option"

definition of_stream :: "log_stream \<Rightarrow> 'a per_stream \<Rightarrow> 'a option" where
  "of_stream st p = (case st of Stdout \<Rightarrow> fst p | Stderr \<Rightarrow> snd p)"

definition set_stream :: "log_stream \<Rightarrow> 'a \<Rightarrow> 'a per_stream \<Rightarrow> 'a per_stream" where
  "set_stream st x p = (case st of Stdout \<Rightarrow> (Some x, snd p) | Stderr \<Rightarrow> (fst p, Some x))"

datatype cursor_mode = Logs_mode | Events_mode

record log_cursor =
  cu_job :: string
  cu_attempt :: string
  cu_mode :: cursor_mode
  cu_seq :: int
  cu_off :: int
  cu_states :: "presentation_state per_stream option"
  cu_positions :: "(int \<times> int) per_stream option"

definition PRESENTATION_MODES :: "parser_mode list" where
  "PRESENTATION_MODES = [Ground, Escape, Csi, Osc, Osc_escape, Discard]"

definition INDEX_READ_CAP :: int where "INDEX_READ_CAP = 1024 * 1024"
definition PAGE_RAW_SCAN_CAP :: int where "PAGE_RAW_SCAN_CAP = 1024 * 1024"

definition jint :: "int \<Rightarrow> json" where
  "jint n = JNum (of_int n)"

definition mode_index :: "parser_mode \<Rightarrow> int" where
  "mode_index m = (case m of Ground \<Rightarrow> 0 | Escape \<Rightarrow> 1 | Csi \<Rightarrow> 2 | Osc \<Rightarrow> 3 | Osc_escape \<Rightarrow> 4 | Discard \<Rightarrow> 5)"

definition encodeState :: "presentation_state option \<Rightarrow> json" where
  "encodeState state =
     (case state of
        None \<Rightarrow> JNull
      | Some st \<Rightarrow>
          JArr [jint (mode_index (lp_mode st)), jint (lp_csiLength st), jint (lp_oscLength st), jint (lp_controlLength st)])"

definition encode_position :: "(int \<times> int) option \<Rightarrow> json" where
  "encode_position p = (case p of None \<Rightarrow> JNull | Some (seq, off) \<Rightarrow> JArr [jint seq, jint off])"

definition pack_pair :: "('a option \<Rightarrow> json) \<Rightarrow> 'a per_stream option \<Rightarrow> json" where
  "pack_pair enc p =
     (case p of
        None \<Rightarrow> jint 0
      | Some (a, b) \<Rightarrow> if a = None \<and> b = None then jint 0 else JArr [enc a, enc b])"

definition packCursor :: "log_cursor \<Rightarrow> json" where
  "packCursor c =
     JArr [jint 1, JStr (cu_job c), JStr (cu_attempt c), jint (if cu_mode c = Events_mode then 1 else 0),
           jint (cu_seq c), jint (cu_off c), pack_pair encodeState (cu_states c), pack_pair encode_position (cu_positions c)]"

definition logCursorAdvanced :: "log_cursor \<Rightarrow> log_cursor \<Rightarrow> bool" where
  "logCursorAdvanced from to =
     (cu_seq to \<noteq> cu_seq from \<or> cu_off to \<noteq> cu_off from \<or> cu_states to \<noteq> cu_states from \<or> cu_positions to \<noteq> cu_positions from)"

text \<open>\<open>signEdDsaJwt\<close> with the options of a cursor: no \<open>iat\<close>, and the short header.\<close>

definition sign_cursor_jwt :: "jwt_env \<Rightarrow> string \<Rightarrow> (string \<times> json) list \<Rightarrow> string" where
  "sign_cursor_jwt env privateKeyPem claims =
     (let header = b64_encode env (JObj [(''alg'', JStr ''EdDSA'')]);
          payload = b64_encode env (JObj claims);
          signingInput = header @ ''.'' @ payload
      in signingInput @ ''.'' @ crypto_sign env privateKeyPem signingInput)"

definition cursor_claims :: "log_cursor \<Rightarrow> (string \<times> json) list" where
  "cursor_claims c = [(''sub'', JStr ''c''), (''aud'', JStr ''r''), (''exp'', jint 4102444800), (''c'', packCursor c)]"

definition encodeCursor :: "jwt_env \<Rightarrow> controller_identity \<Rightarrow> log_cursor \<Rightarrow> string option" where
  "encodeCursor env identity c =
     (let token = sign_cursor_jwt env (id_signingPrivateKeyPem identity) (cursor_claims c)
      in if length token \<le> 512 then Some token else None)"

subsection \<open>Decoding\<close>

text \<open>\<open>Number.isSafeInteger\<close>, with the integer.\<close>

definition safe_int :: "json \<Rightarrow> int option" where
  "safe_int v = (case v of JNum r \<Rightarrow> (case quotient_of r of (n, d) \<Rightarrow> if d = 1 \<and> isSafeInteger n then Some n else None) | _ \<Rightarrow> None)"

definition bounded_int :: "int \<Rightarrow> json \<Rightarrow> int option" where
  "bounded_int m v = (case safe_int v of Some n \<Rightarrow> if 0 \<le> n \<and> n \<le> m then Some n else None | None \<Rightarrow> None)"

text \<open>An index that is not a number names no mode.\<close>

definition mode_at :: "json \<Rightarrow> parser_mode option" where
  "mode_at v =
     (case safe_int v of Some n \<Rightarrow> if 0 \<le> n \<and> n < 6 then Some (PRESENTATION_MODES ! nat n) else None | None \<Rightarrow> None)"

definition decodePackedState :: "json \<Rightarrow> presentation_state option" where
  "decodePackedState v =
     (case v of
        JArr [m, a, b, c] \<Rightarrow>
          (case (mode_at m, bounded_int 4096 a, bounded_int 4096 b, bounded_int 4096 c) of
             (Some mode, Some csi, Some osc, Some control) \<Rightarrow>
               Some \<lparr>lp_mode = mode, lp_csiLength = csi, lp_oscLength = osc, lp_controlLength = control\<rparr>
           | _ \<Rightarrow> None)
      | _ \<Rightarrow> None)"

definition decodePackedPosition :: "json \<Rightarrow> (int \<times> int) option" where
  "decodePackedPosition v =
     (case v of
        JArr [a, b] \<Rightarrow>
          (case (bounded_int MAX_SAFE_INTEGER a, bounded_int MAX_SAFE_INTEGER b) of
             (Some seq, Some off) \<Rightarrow> Some (seq, off) | _ \<Rightarrow> None)
      | _ \<Rightarrow> None)"

text \<open>\<open>undefined\<close> is \<open>Some None\<close>, \<open>false\<close> is \<open>None\<close>.\<close>

definition unpackStreamPair :: "(json \<Rightarrow> 'a option) \<Rightarrow> json \<Rightarrow> 'a per_stream option option" where
  "unpackStreamPair decode v =
     (if v = jint 0 then Some None
      else case v of
        JArr [a, b] \<Rightarrow>
          (let stdout = (if a = JNull then None else decode a); stderr = (if b = JNull then None else decode b) in
           if (a \<noteq> JNull \<and> stdout = None) \<or> (b \<noteq> JNull \<and> stderr = None) then None else Some (Some (stdout, stderr)))
      | _ \<Rightarrow> None)"

definition drop_empty :: "'a per_stream option \<Rightarrow> 'a per_stream option" where
  "drop_empty p = (if p = Some (None, None) then None else p)"

definition unpackCursor :: "json \<Rightarrow> log_cursor option" where
  "unpackCursor v =
     (case v of
        JArr [version, JStr job, JStr attempt, mode, seq, off, states, positions] \<Rightarrow>
          if version \<noteq> jint 1 \<or> (mode \<noteq> jint 0 \<and> mode \<noteq> jint 1) then None
          else
            (case (bounded_int MAX_SAFE_INTEGER seq, bounded_int MAX_SAFE_INTEGER off,
                   unpackStreamPair decodePackedState states, unpackStreamPair decodePackedPosition positions) of
               (Some s, Some f, Some sts, Some ps) \<Rightarrow>
                 Some \<lparr>cu_job = job, cu_attempt = attempt, cu_mode = (if mode = jint 1 then Events_mode else Logs_mode),
                       cu_seq = s, cu_off = f, cu_states = drop_empty sts, cu_positions = drop_empty ps\<rparr>
             | _ \<Rightarrow> None)
      | _ \<Rightarrow> None)"

definition decodeCursor :: "jwt_env \<Rightarrow> (string \<Rightarrow> bool) \<Rightarrow> int \<Rightarrow> controller_identity \<Rightarrow> string \<Rightarrow> log_cursor option" where
  "decodeCursor env canonical nowSec identity value =
     (let parts = split_on CHR ''.'' value in
      if length value > 512 then None
      else if length parts \<noteq> 3 \<or> list_ex (\<lambda>part. part = [] \<or> \<not> canonical part) parts then None
      else case verifyEdDsaJwt env nowSec (id_signingPublicKeyPem identity) value of
             None \<Rightarrow> None
           | Some claims \<Rightarrow>
               if map_of claims ''sub'' \<noteq> Some (JStr ''c'') \<or> map_of claims ''aud'' \<noteq> Some (JStr ''r'') then None
               else Option.bind (map_of claims ''c'') unpackCursor)"

section \<open>Pages\<close>

text \<open>A stream file, as bytes; the range of an entry from an offset on, \<open>None\<close> when the file is too short.\<close>

definition file_bytes :: "string \<Rightarrow> bytes" where
  "file_bytes content = map (\<lambda>c. of_char c) content"

definition readIndexedRange :: "attempt_logs \<Rightarrow> chunk_index_entry \<Rightarrow> int \<Rightarrow> bytes option" where
  "readIndexedRange logs e offset =
     (if offset \<ge> ce_byte_length e then Some []
      else
        (let content = stream_bytes (ce_stream e) logs; n = min (ce_byte_length e - offset) INDEX_READ_CAP;
             start = ce_byte_offset e + offset
         in if start + n > int (length content) then None
            else Some (file_bytes (take (nat n) (drop (nat start) content)))))"

definition lead_width :: "8 word \<Rightarrow> nat" where
  "lead_width lead = (if lead < 0x80 then 1 else if lead \<le> 0xdf then 2 else if lead \<le> 0xef then 3 else if lead \<le> 0xf4 then 4 else 1)"

definition utf8ContinuationBytesNeeded :: "bytes \<Rightarrow> nat" where
  "utf8ContinuationBytesNeeded bs =
     (case dropWhile continuation (rev bs) of
        [] \<Rightarrow> 0
      | lead # _ \<Rightarrow>
          (let width = lead_width lead; available = length (takeWhile continuation (rev bs)) + 1
           in if width > 1 \<and> available < width then width - available else 0))"

record page_loop =
  pg_output :: "(int \<times> log_stream \<times> bytes \<times> bool) list"
  pg_states :: "presentation_state per_stream"
  pg_positions :: "(int \<times> int) per_stream"
  pg_returned :: int
  pg_nextSeq :: int
  pg_nextOff :: int
  pg_truncated :: bool
  pg_pendingIntervening :: bool
  pg_blocked :: "log_stream list"
  pg_exhausted :: "log_stream list"
  pg_remainingScan :: int

definition page_options :: "int \<Rightarrow> page_loop \<Rightarrow> present_options" where
  "page_options maxBytes pg =
     \<lparr>po_maxBytes = maxBytes - pg_returned pg, po_stripAnsi = Some True, po_collapseDuplicates = None,
      po_rawScanCap = Some (pg_remainingScan pg)\<rparr>"

text \<open>
  The bytes of later entries of the stream that complete a code point: the parts with their entries,
  whether the scan came to the end, and the loop variables it changes.
\<close>

fun lookahead ::
  "attempt_logs \<Rightarrow> int \<Rightarrow> log_stream \<Rightarrow> nat \<Rightarrow> chunk_index_entry list \<Rightarrow> page_loop
     \<Rightarrow> (bytes \<times> chunk_index_entry) list \<times> bool \<times> page_loop" where
  "lookahead logs cursorSeq st needed [] pg = ([], True, pg)"
| "lookahead logs cursorSeq st needed (e # es) pg =
     (if needed = 0 then ([], True, pg)
      else if ce_stream e \<noteq> st
      then lookahead logs cursorSeq st needed es
             (pg\<lparr>pg_pendingIntervening := True,
                 pg_nextSeq := (if pg_nextSeq pg = cursorSeq then ce_sequence e else min (pg_nextSeq pg) (ce_sequence e))\<rparr>)
      else case readIndexedRange logs e 0 of
             None \<Rightarrow> ([], False, pg)
           | Some [] \<Rightarrow> ([], False, pg)
           | Some look \<Rightarrow>
               (let part = take needed look in
                case lookahead logs cursorSeq st (needed - length part) es pg of
                  (parts, scannedToEnd, pg1) \<Rightarrow> ((part, e) # parts, scannedToEnd, pg1)))"

fun consumed_parts :: "nat \<Rightarrow> (bytes \<times> chunk_index_entry) list \<Rightarrow> (chunk_index_entry \<times> nat) option" where
  "consumed_parts remain [] = None"
| "consumed_parts remain ((part, e) # parts) =
     (let used = min remain (length part) in
      if remain - used = 0 \<or> parts = [] then Some (e, used) else consumed_parts (remain - used) parts)"

datatype page_step = Go page_loop | Stop page_loop | Unavailable

text \<open>What follows the presentation of an entry: output and position.\<close>

definition after_page ::
  "chunk_index_entry \<Rightarrow> int \<Rightarrow> bytes \<Rightarrow> bool \<Rightarrow> nat \<Rightarrow> present_result \<Rightarrow> (chunk_index_entry \<times> nat) option \<Rightarrow> page_loop \<Rightarrow> page_step" where
  "after_page e startOffset bs rangeCapped needed page nextEntry pg =
     (let st = ce_stream e;
          consumedFromNext = (case nextEntry of Some (_, n) \<Rightarrow> n | None \<Rightarrow> 0);
          pg1 = pg\<lparr>pg_remainingScan := max 0 (pg_remainingScan pg - int (pr_scannedRawBytes page)),
                   pg_states := set_stream st (pr_state page) (pg_states pg)\<rparr>;
          pg2 = (if pr_data page = [] then pg1
                 else pg1\<lparr>pg_output := pg_output pg1 @
                            [(ce_sequence e, st, pr_data page,
                              pr_consumedRawBytes page \<ge> length bs \<and> int (length bs) = ce_byte_length e - startOffset)],
                          pg_returned := pg_returned pg1 + int (length (pr_data page))\<rparr>);
          incomplete = (needed > 0 \<and> pr_consumedRawBytes page < length bs \<and> consumedFromNext = 0);
          moved = (\<lambda>s f pg. pg\<lparr>pg_positions := set_stream st (s, f) (pg_positions pg), pg_nextSeq := s, pg_nextOff := f\<rparr>)
      in if (pr_consumedRawBytes page < length bs \<and> nextEntry = None) \<or> pr_truncated page
         then (let pg3 = moved (ce_sequence e) (startOffset + int (pr_consumedRawBytes page)) pg2 in
               if \<not> incomplete \<or> pr_truncated page then Stop (pg3\<lparr>pg_truncated := True\<rparr>)
               else Go (pg3\<lparr>pg_blocked := set_add st (pg_blocked pg3)\<rparr>))
         else if consumedFromNext > 0
         then (case nextEntry of
                 None \<Rightarrow> Unavailable
               | Some (ne, used) \<Rightarrow>
                   (let pg3 = pg2\<lparr>pg_positions := set_stream st (ce_sequence ne, int used) (pg_positions pg2)\<rparr>;
                        pg4 = (if pg_pendingIntervening pg3 then pg3 else pg3\<lparr>pg_nextSeq := ce_sequence ne, pg_nextOff := int used\<rparr>);
                        cut = (int used < ce_byte_length ne)
                    in if cut then Stop (pg4\<lparr>pg_truncated := True\<rparr>) else Go (pg4\<lparr>pg_truncated := False\<rparr>)))
         else if rangeCapped then Stop ((moved (ce_sequence e) (startOffset + int (length bs)) pg2)\<lparr>pg_truncated := True\<rparr>)
         else Go (moved (ce_sequence e + 1) 0 pg2))"

definition present_entry ::
  "attempt_logs \<Rightarrow> int \<Rightarrow> int \<Rightarrow> chunk_index_entry \<Rightarrow> chunk_index_entry list \<Rightarrow> int \<Rightarrow> bytes \<Rightarrow> page_loop \<Rightarrow> page_step" where
  "present_entry logs cursorSeq maxBytes e later startOffset bs pg =
     (let st = ce_stream e; opts = page_options maxBytes pg; rangeCapped = (int (length bs) < ce_byte_length e - startOffset) in
      case presentLogChunks [bs] (of_stream st (pg_states pg)) opts of
        Inl _ \<Rightarrow> Unavailable
      | Inr page \<Rightarrow>
          (let needed = (if pr_truncated page then 0 else utf8ContinuationBytesNeeded bs) in
           if needed > 0 \<and> pr_data page = [] \<and> pr_consumedRawBytes page < length bs \<and> \<not> rangeCapped
           then (case lookahead logs cursorSeq st needed later pg of
                   (parts, scannedToEnd, pg1) \<Rightarrow>
                     if sum_list (map (length \<circ> fst) parts) \<ge> needed
                     then (case presentLogChunks (bs # map fst parts) (of_stream st (pg_states pg1)) opts of
                             Inl _ \<Rightarrow> Unavailable
                           | Inr page2 \<Rightarrow>
                               after_page e startOffset bs rangeCapped needed page2
                                 (consumed_parts (pr_consumedRawBytes page2 - length bs) parts) pg1)
                     else after_page e startOffset bs rangeCapped needed page None
                            (if scannedToEnd then pg1\<lparr>pg_exhausted := set_add st (pg_exhausted pg1)\<rparr> else pg1))
           else after_page e startOffset bs rangeCapped needed page None pg))"

definition page_entry :: "attempt_logs \<Rightarrow> int \<Rightarrow> int \<Rightarrow> chunk_index_entry \<Rightarrow> chunk_index_entry list \<Rightarrow> page_loop \<Rightarrow> page_step" where
  "page_entry logs cursorSeq maxBytes e later pg =
     (if maxBytes - pg_returned pg < 4 \<or> pg_remainingScan pg < 1 then Stop (pg\<lparr>pg_truncated := True\<rparr>)
      else
        (let st = ce_stream e;
             pg1 = (if of_stream st (pg_positions pg) = None then pg\<lparr>pg_positions := set_stream st (0, 0) (pg_positions pg)\<rparr> else pg);
             (seq, off) = the (of_stream st (pg_positions pg1))
         in if st \<in> set (pg_blocked pg1) then Go pg1
            else if ce_sequence e < seq \<or> (ce_sequence e = seq \<and> off \<ge> ce_byte_length e) then Go pg1
            else
              (let startOffset = (if ce_sequence e = seq then off else 0) in
               case readIndexedRange logs e startOffset of
                 None \<Rightarrow> Unavailable
               | Some [] \<Rightarrow> Go pg1
               | Some bs \<Rightarrow> present_entry logs cursorSeq maxBytes e later startOffset bs pg1)))"

fun page_entries :: "attempt_logs \<Rightarrow> int \<Rightarrow> int \<Rightarrow> nat \<Rightarrow> chunk_index_entry list \<Rightarrow> page_loop \<Rightarrow> page_loop option" where
  "page_entries logs cursorSeq maxBytes n [] pg = Some pg"
| "page_entries logs cursorSeq maxBytes 0 (e # es) pg = Some pg"
| "page_entries logs cursorSeq maxBytes (Suc n) (e # es) pg =
     (case page_entry logs cursorSeq maxBytes e es pg of
        Unavailable \<Rightarrow> None
      | Stop pg1 \<Rightarrow> Some pg1
      | Go pg1 \<Rightarrow> page_entries logs cursorSeq maxBytes n es pg1)"

record log_page =
  lpg_chunks :: "(int \<times> log_stream \<times> bytes \<times> bool) list"
  lpg_next :: log_cursor
  lpg_returned :: int
  lpg_hasMore :: bool
  lpg_truncated :: bool

definition stream_values :: "'a per_stream \<Rightarrow> 'a list" where
  "stream_values p = (case fst p of Some x \<Rightarrow> [x] | None \<Rightarrow> []) @ (case snd p of Some x \<Rightarrow> [x] | None \<Rightarrow> [])"

definition already_consumed :: "(int \<times> int) per_stream \<Rightarrow> chunk_index_entry \<Rightarrow> bool" where
  "already_consumed positions e =
     (case of_stream (ce_stream e) positions of
        None \<Rightarrow> False
      | Some (seq, off) \<Rightarrow> ce_sequence e < seq \<or> (ce_sequence e = seq \<and> off \<ge> ce_byte_length e))"

definition compact_state :: "presentation_state option \<Rightarrow> presentation_state option" where
  "compact_state st = (case st of Some x \<Rightarrow> if lp_mode x = Ground then None else Some x | None \<Rightarrow> None)"

definition readJobLogsPage :: "attempt_logs \<Rightarrow> log_cursor \<Rightarrow> int \<Rightarrow> log_page option" where
  "readJobLogsPage logs cursor maxBytes =
     (let positions = (case cu_positions cursor of Some p \<Rightarrow> p | None \<Rightarrow> (None, None));
          known = map fst (stream_values positions);
          firstSequence = fold min known (cu_seq cursor);
          entries = take 129 (filter (\<lambda>e. \<not> already_consumed positions e)
                      (iterChunkIndexEntriesAfter logs (if firstSequence > 0 then firstSequence - 1 else 0)));
          start = \<lparr>pg_output = [], pg_states = (case cu_states cursor of Some p \<Rightarrow> p | None \<Rightarrow> (None, None)), pg_positions = positions,
                   pg_returned = 0, pg_nextSeq = cu_seq cursor, pg_nextOff = cu_off cursor, pg_truncated = False,
                   pg_pendingIntervening = False, pg_blocked = [], pg_exhausted = [], pg_remainingScan = PAGE_RAW_SCAN_CAP\<rparr>
      in case page_entries logs (cu_seq cursor) maxBytes 128 entries start of
           None \<Rightarrow> None
         | Some pg \<Rightarrow>
             (let compact = (compact_state (fst (pg_states pg)), compact_state (snd (pg_states pg)));
                  progressed = filter (\<lambda>s. s \<ge> cu_seq cursor) (map fst (stream_values (pg_positions pg)));
                  nextSeq = (if \<not> pg_pendingIntervening pg \<and> pg_nextSeq pg = cu_seq cursor \<and> progressed \<noteq> []
                             then fold min (tl progressed) (hd progressed) else pg_nextSeq pg)
              in Some \<lparr>lpg_chunks = pg_output pg,
                       lpg_next = cursor\<lparr>cu_seq := nextSeq, cu_off := pg_nextOff pg, cu_states := drop_empty (Some compact),
                                         cu_positions := Some (pg_positions pg)\<rparr>,
                       lpg_returned = pg_returned pg,
                       lpg_hasMore = (pg_truncated pg \<or> length entries > 128 \<or> list_ex (\<lambda>st. st \<notin> set (pg_exhausted pg)) (pg_blocked pg)),
                       lpg_truncated = pg_truncated pg\<rparr>))"

section \<open>Round trip\<close>

lemma safe_jint: "safe_int (jint n) = (if isSafeInteger n then Some n else None)"
  by (simp add: safe_int_def jint_def)

lemma bounded_jint: "bounded_int m (jint n) = (if isSafeInteger n \<and> 0 \<le> n \<and> n \<le> m then Some n else None)"
  by (simp add: bounded_int_def safe_jint)

lemma jint_eq [simp]: "jint a = jint b \<longleftrightarrow> a = b"
  by (simp add: jint_def)

definition streams_ok :: "('a \<Rightarrow> bool) \<Rightarrow> 'a per_stream option \<Rightarrow> bool" where
  "streams_ok ok p = (case p of None \<Rightarrow> True | Some (a, b) \<Rightarrow> pred_option ok a \<and> pred_option ok b)"

definition natural :: "int \<Rightarrow> bool" where
  "natural n = (0 \<le> n \<and> n \<le> MAX_SAFE_INTEGER)"

definition cursor_ok :: "log_cursor \<Rightarrow> bool" where
  "cursor_ok c =
     (natural (cu_seq c) \<and> natural (cu_off c) \<and> streams_ok counters_bounded (cu_states c) \<and>
      streams_ok (\<lambda>(s, f). natural s \<and> natural f) (cu_positions c))"

lemma natural_safe: "natural n \<Longrightarrow> isSafeInteger n \<and> 0 \<le> n \<and> n \<le> MAX_SAFE_INTEGER"
  by (simp add: natural_def isSafeInteger_def)

lemma small_is_safe: "0 \<le> n \<Longrightarrow> n \<le> 4096 \<Longrightarrow> isSafeInteger n"
  by (simp add: isSafeInteger_def MAX_SAFE_INTEGER_def)

lemma decode_mode: "mode_at (jint (mode_index m)) = Some m"
  by (cases m) (simp_all add: mode_at_def safe_jint mode_index_def small_is_safe PRESENTATION_MODES_def)

lemma decode_encode_state: "counters_bounded st \<Longrightarrow> decodePackedState (encodeState (Some st)) = Some st"
  by (simp add: decodePackedState_def encodeState_def counters_bounded_def bounded_jint decode_mode small_is_safe MAX_CONTROL_BYTES_def)

lemma decode_encode_position: "natural s \<Longrightarrow> natural f \<Longrightarrow> decodePackedPosition (encode_position (Some (s, f))) = Some (s, f)"
  by (simp add: decodePackedPosition_def encode_position_def bounded_jint natural_safe)

lemma unpack_pack_pair:
  assumes "enc None = JNull" "\<And>x. enc (Some x) \<noteq> JNull" "\<And>x. ok x \<Longrightarrow> dec (enc (Some x)) = Some x" "streams_ok ok p"
  shows "\<exists>q. unpackStreamPair dec (pack_pair enc p) = Some q \<and> drop_empty q = drop_empty p"
proof (cases p)
  case None
  then show ?thesis by (simp add: pack_pair_def unpackStreamPair_def)
next
  case (Some ab)
  obtain a b where ab: "ab = (a, b)" by (cases ab)
  have arr: "JArr xs \<noteq> jint n" for xs n by (simp add: jint_def)
  show ?thesis using assms Some ab arr
    by (cases a; cases b) (auto simp: pack_pair_def unpackStreamPair_def streams_ok_def drop_empty_def Let_def)
qed

lemma unpack_packCursor:
  assumes "cursor_ok c"
  shows "unpackCursor (packCursor c) = Some (c\<lparr>cu_states := drop_empty (cu_states c), cu_positions := drop_empty (cu_positions c)\<rparr>)"
proof -
  have c: "natural (cu_seq c)" "natural (cu_off c)" "streams_ok counters_bounded (cu_states c)"
    "streams_ok (\<lambda>(s, f). natural s \<and> natural f) (cu_positions c)" using assms by (simp_all add: cursor_ok_def)
  have "\<exists>q. unpackStreamPair decodePackedState (pack_pair encodeState (cu_states c)) = Some q \<and> drop_empty q = drop_empty (cu_states c)"
    by (rule unpack_pack_pair [OF _ _ decode_encode_state c(3)]) (simp_all add: encodeState_def)
  moreover have "\<exists>q. unpackStreamPair decodePackedPosition (pack_pair encode_position (cu_positions c)) = Some q \<and>
      drop_empty q = drop_empty (cu_positions c)"
    by (rule unpack_pack_pair [OF _ _ _ c(4)]) (auto simp: decode_encode_position [unfolded encode_position_def, simplified] encode_position_def split: prod.split)
  ultimately show ?thesis using natural_safe [OF c(1)] natural_safe [OF c(2)]
    by (cases c; cases "cu_mode c") (auto simp: unpackCursor_def packCursor_def bounded_jint)
qed

definition cursor_codec_ok :: "jwt_env \<Rightarrow> (string \<Rightarrow> bool) \<Rightarrow> string \<Rightarrow> bool" where
  "cursor_codec_ok env canonical priv =
     ((\<forall>j. b64_encode env j \<noteq> [] \<and> canonical (b64_encode env j)) \<and> (\<forall>m. crypto_sign env priv m \<noteq> [] \<and> canonical (crypto_sign env priv m)))"

lemma verify_cursor_jwt:
  assumes ok: "jwt_env_ok env priv pub" and codec: "cursor_codec_ok env canonical priv"
    and exp: "map_of claims ''exp'' = Some (JNum e)" "of_int now < e"
  shows "verifyEdDsaJwt env now pub (sign_cursor_jwt env priv claims) = Some claims"
    "length (split_on CHR ''.'' (sign_cursor_jwt env priv claims)) = 3"
    "\<not> list_ex (\<lambda>part. part = [] \<or> \<not> canonical part) (split_on CHR ''.'' (sign_cursor_jwt env priv claims))"
proof -
  let ?h = "b64_encode env (JObj [(''alg'', JStr ''EdDSA'')])" and ?p = "b64_encode env (JObj claims)"
  let ?s = "crypto_sign env priv (?h @ ''.'' @ ?p)"
  have "CHR ''.'' \<notin> set ?h" "CHR ''.'' \<notin> set ?p" "CHR ''.'' \<notin> set ?s" using ok by (auto simp: jwt_env_ok_def)
  then have parts: "split_on CHR ''.'' (sign_cursor_jwt env priv claims) = [?h, ?p, ?s]"
    by (simp add: sign_cursor_jwt_def Let_def split_on_append)
  moreover have "crypto_verify env pub (?h @ ''.'' @ ?p) ?s" "b64_decode env ?h = Some (JObj [(''alg'', JStr ''EdDSA'')])"
    "b64_decode env ?p = Some (JObj claims)"
    using ok by (auto simp: jwt_env_ok_def)
  ultimately show "verifyEdDsaJwt env now pub (sign_cursor_jwt env priv claims) = Some claims" using exp by (simp add: verifyEdDsaJwt_def)
  show "length (split_on CHR ''.'' (sign_cursor_jwt env priv claims)) = 3" by (simp add: parts)
  show "\<not> list_ex (\<lambda>part. part = [] \<or> \<not> canonical part) (split_on CHR ''.'' (sign_cursor_jwt env priv claims))"
    using codec by (simp add: parts cursor_codec_ok_def)
qed

text \<open>
  (C38) A log cursor survives the trip to the client. A cursor that was issued, until the year 2100,
  decodes to itself, with absent and empty stream tables identified; a token that does not fit in 512
  bytes is not issued.
\<close>

theorem cursor_roundtrip:
  assumes "jwt_env_ok env (id_signingPrivateKeyPem identity) (id_signingPublicKeyPem identity)"
    and "cursor_codec_ok env canonical (id_signingPrivateKeyPem identity)"
    and "cursor_ok c" and "now < 4102444800" and "encodeCursor env identity c = Some token"
  shows "length token \<le> 512 \<and> decodeCursor env canonical now identity token =
     Some (c\<lparr>cu_states := drop_empty (cu_states c), cu_positions := drop_empty (cu_positions c)\<rparr>)"
proof -
  from assms(5) have token: "token = sign_cursor_jwt env (id_signingPrivateKeyPem identity) (cursor_claims c)" "length token \<le> 512"
    by (auto simp: encodeCursor_def Let_def split: if_splits)
  have "map_of (cursor_claims c) ''exp'' = Some (JNum 4102444800)" "(of_int now :: rat) < 4102444800"
    using assms(4) by (simp_all add: cursor_claims_def jint_def)
  note jwt = verify_cursor_jwt [OF assms(1,2) this]
  have fields: "map_of (cursor_claims c) ''sub'' = Some (JStr ''c'')" "map_of (cursor_claims c) ''aud'' = Some (JStr ''r'')"
    "map_of (cursor_claims c) ''c'' = Some (packCursor c)" by (simp_all add: cursor_claims_def)
  show ?thesis
    using token jwt by (simp add: decodeCursor_def Let_def fields unpack_packCursor [OF assms(3)])
qed


text \<open>Witness: a codec with short codes for one header and one cursor.\<close>

definition cursor_a :: log_cursor where
  "cursor_a = \<lparr>cu_job = ''j'', cu_attempt = ''a'', cu_mode = Logs_mode, cu_seq = 3, cu_off = 1,
     cu_states = Some (None, Some \<lparr>lp_mode = Csi, lp_csiLength = 1, lp_oscLength = 0, lp_controlLength = 3\<rparr>), cu_positions = Some (None, None)\<rparr>"

definition short_env :: jwt_env where
  "short_env =
     \<lparr>b64_encode = (\<lambda>j. if j = JObj [(''alg'', JStr ''EdDSA'')] then ''h'' else if j = JObj (cursor_claims cursor_a) then ''p''
                          else ''x'' @ b64_encode unary_env j),
      b64_decode = (\<lambda>s. if s = ''h'' then Some (JObj [(''alg'', JStr ''EdDSA'')]) else if s = ''p'' then Some (JObj (cursor_claims cursor_a))
                          else b64_decode unary_env (tl s)),
      crypto_sign = (\<lambda>priv m. ''s'' @ dot_free m),
      crypto_verify = (\<lambda>pub m s. s = ''s'' @ dot_free m)\<rparr>"

definition identity_a :: controller_identity where
  "identity_a = \<lparr>id_controllerId = ''ctl'', id_signingPrivateKeyPem = ''priv'', id_signingPublicKeyPem = ''pub''\<rparr>"

lemma short_env_ok: "jwt_env_ok short_env priv pub" "cursor_codec_ok short_env (\<lambda>_. True) priv"
  by (auto simp: jwt_env_ok_def cursor_codec_ok_def short_env_def unary_env_def dot_free_no_dot)

theorem cursor_roundtrip_witness:
  "Option.bind (encodeCursor short_env identity_a cursor_a) (decodeCursor short_env (\<lambda>_. True) 1700000000 identity_a) =
     Some (cursor_a\<lparr>cu_positions := None\<rparr>)"
proof -
  have fits: "encodeCursor short_env identity_a cursor_a =
      Some (sign_cursor_jwt short_env (id_signingPrivateKeyPem identity_a) (cursor_claims cursor_a))"
    by (simp add: encodeCursor_def sign_cursor_jwt_def short_env_def dot_free_def Let_def cursor_claims_def)
  have ok: "cursor_ok cursor_a"
    by (simp add: cursor_ok_def cursor_a_def natural_def streams_ok_def counters_bounded_def MAX_SAFE_INTEGER_def MAX_CONTROL_BYTES_def)
  show ?thesis
    using cursor_roundtrip [OF short_env_ok(1,2) ok _ fits, of 1700000000] fits by (simp add: cursor_a_def drop_empty_def)
qed

section \<open>Budgets\<close>

definition page_ok :: "int \<Rightarrow> page_loop \<Rightarrow> bool" where
  "page_ok maxBytes pg =
     (pg_returned pg = int (sum_list (map (\<lambda>(_, _, text, _). length text) (pg_output pg))) \<and> (pg_returned pg \<le> max 0 maxBytes) \<and>
      (\<forall>(_, _, text, _) \<in> set (pg_output pg). text \<noteq> [] \<and> 0x1b \<notin> set text) \<and>
      streams_ok counters_bounded (Some (pg_states pg)))"

lemma streams_set: "streams_ok ok (Some p) \<Longrightarrow> ok x \<Longrightarrow> streams_ok ok (Some (set_stream st x p))"
  by (cases st) (auto simp: streams_ok_def set_stream_def split: prod.splits)

lemma page_ok_fields [simp]:
  "page_ok m (pg\<lparr>pg_positions := p\<rparr>) = page_ok m pg" "page_ok m (pg\<lparr>pg_nextSeq := a\<rparr>) = page_ok m pg"
  "page_ok m (pg\<lparr>pg_nextOff := b\<rparr>) = page_ok m pg" "page_ok m (pg\<lparr>pg_truncated := t\<rparr>) = page_ok m pg"
  "page_ok m (pg\<lparr>pg_pendingIntervening := t\<rparr>) = page_ok m pg" "page_ok m (pg\<lparr>pg_blocked := l\<rparr>) = page_ok m pg"
  "page_ok m (pg\<lparr>pg_exhausted := l\<rparr>) = page_ok m pg" "page_ok m (pg\<lparr>pg_remainingScan := a\<rparr>) = page_ok m pg"
  by (simp_all add: page_ok_def)

fun step_ok :: "int \<Rightarrow> nat \<Rightarrow> page_step \<Rightarrow> bool" where
  "step_ok m n (Go pg) = (page_ok m pg \<and> length (pg_output pg) \<le> n)"
| "step_ok m n (Stop pg) = (page_ok m pg \<and> length (pg_output pg) \<le> n)"
| "step_ok m n Unavailable = True"

lemma lookahead_ok:
  "lookahead logs c st needed es pg = (parts, b, pg') \<Longrightarrow> page_ok m pg' = page_ok m pg \<and> pg_output pg' = pg_output pg \<and>
     pg_returned pg' = pg_returned pg \<and> pg_states pg' = pg_states pg"
  by (induction logs c st needed es pg arbitrary: parts b pg' rule: lookahead.induct)
    (auto simp: Let_def split: if_splits option.splits list.splits prod.splits)

lemma after_page_ok:
  assumes "page_ok m pg" "pg_returned pg + int (length (pr_data page)) \<le> max 0 m" "0x1b \<notin> set (pr_data page)" "counters_bounded (pr_state page)"
  shows "step_ok m (Suc (length (pg_output pg))) (after_page e so bs rc needed page ne pg)"
proof -
  let ?pg1 = "pg\<lparr>pg_remainingScan := max 0 (pg_remainingScan pg - int (pr_scannedRawBytes page)),
                 pg_states := set_stream (ce_stream e) (pr_state page) (pg_states pg)\<rparr>"
  have "page_ok m ?pg1" using assms(1,4) by (simp add: page_ok_def streams_set)
  moreover from this have "page_ok m (?pg1\<lparr>pg_output := pg_output ?pg1 @ [(s, st, pr_data page, k)],
      pg_returned := pg_returned ?pg1 + int (length (pr_data page))\<rparr>)" if "pr_data page \<noteq> []" for s st k
    using assms(2,3) that by (auto simp: page_ok_def)
  ultimately show ?thesis
    by (auto simp: after_page_def Let_def split: option.split)
qed


lemma page_options_plain: "stripAnsi (page_options m pg)" "\<not> collapse (page_options m pg)"
  by (simp_all add: page_options_def stripAnsi_def collapse_def)

lemma present_entry_ok:
  assumes ok: "page_ok m pg"
  shows "step_ok m (Suc (length (pg_output pg))) (present_entry logs c m e later so bs pg)"
proof -
  have room: "pg_returned pg + int (length (pr_data page)) \<le> max 0 m" "0x1b \<notin> set (pr_data page)" "counters_bounded (pr_state page)"
    if "presentLogChunks cs st (page_options m pg) = Inr page" for cs st page
    using present_facts [OF that page_options_plain] by (simp_all add: page_options_def)
  have ahead: "page_ok m pg'" "pg_output pg' = pg_output pg" "pg_returned pg' = pg_returned pg"
    if "lookahead logs c (ce_stream e) n later pg = (parts, b, pg')" for n parts b pg'
    using lookahead_ok [OF that, of m] ok by simp_all
  have "step_ok m (Suc (length (pg_output pg))) (after_page e so bs rc needed page ne pg')"
    if "presentLogChunks cs st (page_options m pg) = Inr page" "page_ok m pg'" "pg_output pg' = pg_output pg" "pg_returned pg' = pg_returned pg"
    for rc needed page ne pg' cs st
    using after_page_ok [of m pg' page e so bs rc needed ne] room [OF that(1)] that(2-4) by simp
  then show ?thesis using ok ahead
    by (auto simp: present_entry_def Let_def split: sum.split prod.split)
qed

lemma page_entry_ok: "page_ok m pg \<Longrightarrow> step_ok m (Suc (length (pg_output pg))) (page_entry logs c m e later pg)"
proof -
  assume ok: "page_ok m pg"
  have "step_ok m (Suc (length (pg_output pg))) (present_entry logs c m e later so bs (pg\<lparr>pg_positions := p\<rparr>))" for so bs p
    using present_entry_ok [of m "pg\<lparr>pg_positions := p\<rparr>"] ok by simp
  then show ?thesis using ok present_entry_ok [OF ok]
    by (auto simp: page_entry_def Let_def split: option.split list.split prod.split)
qed

lemma page_entries_ok:
  "page_ok m pg \<Longrightarrow> page_entries logs c m n es pg = Some pg' \<Longrightarrow> page_ok m pg' \<and> length (pg_output pg') \<le> length (pg_output pg) + n"
proof (induction logs c m n es pg arbitrary: pg' rule: page_entries.induct)
  case (3 logs c m n e es pg)
  then show ?case using page_entry_ok [OF 3(2), of logs c e es]
    by (auto split: page_step.splits) fastforce
qed simp_all


text \<open>Witness: two chunks of one stream, the second of which ends a control sequence the first starts.\<close>

definition demo_log :: attempt_logs where
  "demo_log =
     snd (appendIndexedLogChunk Stdout (char_of (109 :: nat) # ''bc'') 2 None
       (snd (appendIndexedLogChunk Stdout (''a'' @ [char_of (27 :: nat), char_of (91 :: nat)]) 1 None empty_logs)))"

definition first_cursor :: log_cursor where
  "first_cursor = \<lparr>cu_job = ''j'', cu_attempt = ''a'', cu_mode = Logs_mode, cu_seq = 0, cu_off = 0, cu_states = None, cu_positions = None\<rparr>"


end
