(* ===== verification/Build_Cache.thy ===== *)
theory Build_Cache
  imports Agent_State Scheduler "HOL-Library.List_Lexorder" "HOL-Library.Char_ord"
begin

text \<open>
  The build-cache store of the Agent (\<open>apps/agent/src/build-cache/store.ts\<close>) and the fixed cache kinds
  (\<open>kinds.ts\<close>, \<open>index.ts\<close>).

  The store is a directory: a published entry per key, a lock file beside it, and the directories of
  misses under construction and of entries that were moved aside. An acquisition of a key runs as an
  activation, from \<open>acquireForJob\<close> through \<open>publishIfAllowed\<close> to \<open>release\<close>; one step of it is
  one file operation, which succeeds or fails. Activations of several jobs interleave at every step. The
  content of the directory of the kind inside an entry is an opaque text, absent until that directory
  is made. A lock file is identified by the activation that
  created it, since a write through its handle does not reach a file that replaced it.
\<close>

section \<open>Cache kinds\<close>

record kind_definition =
  kd_kind :: build_cache_kind
  kd_cacheDirEnv :: string
  kd_extraEnv :: "(string \<times> string) list"
  kd_relativeDir :: string
  kd_requiresToolchain :: bool

definition BUILD_CACHE_KINDS :: "kind_definition list" where
  "BUILD_CACHE_KINDS =
     [\<lparr>kd_kind = Ccache, kd_cacheDirEnv = ''CCACHE_DIR'', kd_extraEnv = [(''CCACHE_NOHASHDIR'', ''1'')], kd_relativeDir = ''ccache'',
       kd_requiresToolchain = True\<rparr>,
      \<lparr>kd_kind = Sccache, kd_cacheDirEnv = ''SCCACHE_DIR'', kd_extraEnv = [], kd_relativeDir = ''sccache'', kd_requiresToolchain = True\<rparr>,
      \<lparr>kd_kind = Npm, kd_cacheDirEnv = ''npm_config_cache'', kd_extraEnv = [], kd_relativeDir = ''npm'', kd_requiresToolchain = False\<rparr>,
      \<lparr>kd_kind = Pnpm, kd_cacheDirEnv = ''PNPM_STORE_PATH'', kd_extraEnv = [], kd_relativeDir = ''pnpm'', kd_requiresToolchain = False\<rparr>,
      \<lparr>kd_kind = Pip, kd_cacheDirEnv = ''PIP_CACHE_DIR'', kd_extraEnv = [], kd_relativeDir = ''pip'', kd_requiresToolchain = False\<rparr>]"

definition getBuildCacheKindDefinition :: "build_cache_kind \<Rightarrow> kind_definition option" where
  "getBuildCacheKindDefinition kind = find (\<lambda>d. kd_kind d = kind) BUILD_CACHE_KINDS"

definition ALL_CACHE_DIR_ENV_NAMES :: "string list" where
  "ALL_CACHE_DIR_ENV_NAMES = remdups (concat (map (\<lambda>d. kd_cacheDirEnv d # map fst (kd_extraEnv d)) BUILD_CACHE_KINDS))"

definition TOOL_NAME_TO_KIND :: "(string \<times> build_cache_kind) list" where
  "TOOL_NAME_TO_KIND = [(''ccache'', Ccache), (''sccache'', Sccache), (''npm'', Npm), (''pnpm'', Pnpm), (''pip'', Pip)]"

definition buildCacheEnvForKind :: "build_cache_kind \<Rightarrow> string \<Rightarrow> (string \<times> string) list" where
  "buildCacheEnvForKind kind absoluteCacheDir =
     (case getBuildCacheKindDefinition kind of
        None \<Rightarrow> []
      | Some d \<Rightarrow> (kd_cacheDirEnv d, absoluteCacheDir) # kd_extraEnv d)"

text \<open>\<open>requiredTools\<close> is an object, its entries in order; \<open>toLowerCase\<close> is a parameter.\<close>

definition resolveRelevantBuildCacheKinds ::
  "(string \<Rightarrow> string) \<Rightarrow> build_cache_kind list \<Rightarrow> (string \<times> string) list option \<Rightarrow> build_cache_kind list" where
  "resolveRelevantBuildCacheKinds toLower enabledKinds requiredTools =
     (let tools = (case requiredTools of Some ts \<Rightarrow> ts | None \<Rightarrow> []);
          all = filter (\<lambda>k. k \<in> set enabledKinds) (map kd_kind BUILD_CACHE_KINDS)
      in if tools = [] then all
         else filter (\<lambda>k. \<exists>t \<in> set (map fst tools). map_of TOOL_NAME_TO_KIND (toLower t) = Some k) all)"

definition stripUserBuildCacheEnv :: "(string \<times> string) list option \<Rightarrow> (string \<times> string) list" where
  "stripUserBuildCacheEnv env =
     (case env of None \<Rightarrow> [] | Some es \<Rightarrow> filter (\<lambda>(name, _). name \<notin> set ALL_CACHE_DIR_ENV_NAMES) es)"

record cache_config =
  cc_enabledKinds :: "build_cache_kind list"
  cc_retentionDays :: int
  cc_allowReadRiskLevels :: "risk_level list"
  cc_allowWriteRiskLevels :: "risk_level list"

definition DEFAULT_BUILD_CACHE_CONFIG :: cache_config where
  "DEFAULT_BUILD_CACHE_CONFIG =
     \<lparr>cc_enabledKinds = [Ccache, Sccache, Npm, Pnpm, Pip], cc_retentionDays = 14, cc_allowReadRiskLevels = [Safe, Normal],
      cc_allowWriteRiskLevels = [Safe, Normal]\<rparr>"

text \<open>
  \<open>resolveBuildCacheInjection\<close>: the environment, the directories and the targets of a job. \<open>key\<close>
  computes the cache key of a kind for a toolchain (\<open>computeBuildCacheKey\<close>, with the other fields of
  the job fixed); the state directory is an absolute normal path.
\<close>

record cache_target =
  ct_kind :: build_cache_kind
  ct_cacheKey :: string
  ct_publishedKindDir :: string

record cache_injection =
  ci_env :: "string \<Rightarrow> string option"
  ci_targets :: "cache_target list"

definition no_injection :: cache_injection where
  "no_injection = \<lparr>ci_env = Map.empty, ci_targets = []\<rparr>"

definition inject_kind ::
  "(build_cache_kind \<Rightarrow> string \<Rightarrow> string \<Rightarrow> string) \<Rightarrow> string \<Rightarrow> (string \<times> string) option \<Rightarrow> build_cache_kind \<Rightarrow>
   cache_injection \<Rightarrow> cache_injection" where
  "inject_kind key stateDir toolchain kind acc =
     (case getBuildCacheKindDefinition kind of
        None \<Rightarrow> acc
      | Some d \<Rightarrow>
          if kd_requiresToolchain d \<and> toolchain = None then acc
          else
            (let (profileId, fingerprint) = (case toolchain of Some t \<Rightarrow> t | None \<Rightarrow> (''none'', ''none''));
                 cacheKey = key kind profileId fingerprint;
                 dir = stateDir @ ''/build-caches/'' @ cacheKey @ ''/'' @ kd_relativeDir d
             in acc\<lparr>ci_env := ci_env acc ++ map_of (rev (buildCacheEnvForKind kind dir)),
                   ci_targets := ci_targets acc @ [\<lparr>ct_kind = kind, ct_cacheKey = cacheKey, ct_publishedKindDir = dir\<rparr>]\<rparr>))"

definition resolveBuildCacheInjection ::
  "(string \<Rightarrow> string) \<Rightarrow> (build_cache_kind \<Rightarrow> string \<Rightarrow> string \<Rightarrow> string) \<Rightarrow> cache_config \<Rightarrow> string \<Rightarrow> bool \<Rightarrow> risk_level \<Rightarrow>
   (string \<times> string) option \<Rightarrow> (string \<times> string) list option \<Rightarrow> cache_injection" where
  "resolveBuildCacheInjection toLower key cfg stateDir preferBuildCache risk toolchain requiredTools =
     (if \<not> preferBuildCache then no_injection
      else if risk \<notin> set (cc_allowReadRiskLevels cfg) then no_injection
      else fold (inject_kind key stateDir toolchain) (resolveRelevantBuildCacheKinds toLower (cc_enabledKinds cfg) requiredTools) no_injection)"

definition injectedKinds :: "cache_injection \<Rightarrow> build_cache_kind list" where
  "injectedKinds acc = map ct_kind (ci_targets acc)"

section \<open>The store\<close>

record cache_meta =
  cm_kind :: build_cache_kind
  cm_last_used_at :: ts
  cm_active_users :: int
  cm_bytes :: "int option"

record cache_dir =
  cd_published :: bool
  cd_meta :: "cache_meta option"
  cd_content :: "string option"

definition empty_dir :: cache_dir where
  "empty_dir = \<lparr>cd_published = False, cd_meta = None, cd_content = None\<rparr>"

record cache_lock =
  ck_id :: nat
  ck_pid :: "int option"
  ck_mtime :: ts

definition LOCK_TIMEOUT_MS :: int where "LOCK_TIMEOUT_MS = 30000"
definition LOCK_STALE_MAX_AGE_MS :: int where "LOCK_STALE_MAX_AGE_MS = 10 * 60 * 1000"

datatype lock_use = For_acquire | For_release

text \<open>
  The program points of an acquisition: \<open>L\<close> takes the lock, \<open>A\<close> acquires, \<open>B\<close> publishes,
  \<open>R\<close> and \<open>M\<close> release a hit and a miss.
\<close>

datatype store_pc =
    L_mkdir lock_use | L_try lock_use | L_write lock_use | L_stat lock_use ts | L_read lock_use ts | L_rm lock_use
  | A_check | A_meta | A_write cache_meta | A_unlock_hit | A_mkdir | A_unlock_refused | A_rm_temp | A_mk_temp | A_abort
  | Held_hit | Held_miss
  | B_discard | B_check | B_size | B_meta cache_meta | B_marker | B_clear | B_look | B_aside | B_swap | B_undo | B_done
  | R_meta | R_write cache_meta | R_unlock
  | M_rm | M_check | M_meta | M_write cache_meta | M_unlock
  | Finished cache_mode | Threw

record cache_act =
  ca_key :: string
  ca_kind :: build_cache_kind
  ca_attempt :: string
  ca_risk :: risk_level
  ca_deadline :: ts
  ca_published :: bool
  ca_pc :: store_pc

record cache_store =
  cs_dirs :: "string \<Rightarrow> cache_dir option"
  cs_locks :: "string \<Rightarrow> cache_lock option"
  cs_temps :: "string \<times> string \<Rightarrow> cache_dir option"
  cs_baks :: "string \<times> string \<Rightarrow> cache_dir option"
  cs_acts :: "nat \<Rightarrow> cache_act option"

text \<open>What a step finds outside: the clock, the process, whether the file operation succeeds, and a size.\<close>

record cache_env =
  ce_now :: ts
  ce_pid :: int
  ce_alive :: "int \<Rightarrow> bool"
  ce_ok :: bool
  ce_bytes :: int

definition isPidAlive :: "cache_env \<Rightarrow> int \<Rightarrow> bool" where
  "isPidAlive env pid = (pid > 0 \<and> ce_alive env pid)"

definition goto :: "nat \<Rightarrow> store_pc \<Rightarrow> cache_store \<Rightarrow> cache_store" where
  "goto r pc s = s\<lparr>cs_acts := (cs_acts s)(r := map_option (\<lambda>a. a\<lparr>ca_pc := pc\<rparr>) (cs_acts s r))\<rparr>"

definition set_dir :: "string \<Rightarrow> cache_dir option \<Rightarrow> cache_store \<Rightarrow> cache_store" where
  "set_dir k d s = s\<lparr>cs_dirs := (cs_dirs s)(k := d)\<rparr>"

definition set_lock :: "string \<Rightarrow> cache_lock option \<Rightarrow> cache_store \<Rightarrow> cache_store" where
  "set_lock k l s = s\<lparr>cs_locks := (cs_locks s)(k := l)\<rparr>"

definition set_temp :: "string \<times> string \<Rightarrow> cache_dir option \<Rightarrow> cache_store \<Rightarrow> cache_store" where
  "set_temp x d s = s\<lparr>cs_temps := (cs_temps s)(x := d)\<rparr>"

definition set_bak :: "string \<times> string \<Rightarrow> cache_dir option \<Rightarrow> cache_store \<Rightarrow> cache_store" where
  "set_bak x d s = s\<lparr>cs_baks := (cs_baks s)(x := d)\<rparr>"

definition isPublished :: "string \<Rightarrow> cache_store \<Rightarrow> bool" where
  "isPublished k s = (case cs_dirs s k of Some d \<Rightarrow> cd_published d | None \<Rightarrow> False)"

definition readMeta :: "cache_env \<Rightarrow> string \<Rightarrow> cache_store \<Rightarrow> cache_meta option" where
  "readMeta env k s = (if ce_ok env then Option.bind (cs_dirs s k) cd_meta else None)"

text \<open>\<open>writeMeta\<close>: the state with the metadata written, if the directory is there.\<close>

definition writeMeta :: "string \<Rightarrow> cache_meta \<Rightarrow> cache_store \<Rightarrow> cache_store" where
  "writeMeta k m s = (case cs_dirs s k of Some d \<Rightarrow> set_dir k (Some (d\<lparr>cd_meta := Some m\<rparr>)) s | None \<Rightarrow> s)"

text \<open>\<open>mkdir\<close> of the directory of the kind, with its parents.\<close>

definition make_kind_dir :: "cache_dir option \<Rightarrow> cache_dir option" where
  "make_kind_dir entry =
     (let d = (case entry of Some d \<Rightarrow> d | None \<Rightarrow> empty_dir)
      in Some (d\<lparr>cd_content := (case cd_content d of Some c \<Rightarrow> Some c | None \<Rightarrow> Some [])\<rparr>))"

subsection \<open>Taking the lock\<close>

text \<open>The outcome of a failed \<open>acquireExclusiveLock\<close>: the acquisition is refused, a release throws.\<close>

definition lock_failed :: "nat \<Rightarrow> lock_use \<Rightarrow> cache_store \<Rightarrow> cache_store" where
  "lock_failed r use = goto r (case use of For_acquire \<Rightarrow> Finished Cache_read_disabled | For_release \<Rightarrow> Threw)"

definition locked_pc :: "lock_use \<Rightarrow> store_pc" where
  "locked_pc use = (case use of For_acquire \<Rightarrow> A_check | For_release \<Rightarrow> R_meta)"

definition lock_mkdir :: "cache_env \<Rightarrow> nat \<Rightarrow> cache_act \<Rightarrow> lock_use \<Rightarrow> cache_store \<Rightarrow> cache_store" where
  "lock_mkdir env r a use s =
     (if \<not> ce_ok env then lock_failed r use s
      else
        (let s1 = (if cs_dirs s (ca_key a) = None then set_dir (ca_key a) (Some empty_dir) s else s)
         in s1\<lparr>cs_acts := (cs_acts s1)(r \<mapsto> a\<lparr>ca_deadline := ce_now env + LOCK_TIMEOUT_MS, ca_pc := L_try use\<rparr>)\<rparr>))"

definition lock_try :: "cache_env \<Rightarrow> nat \<Rightarrow> cache_act \<Rightarrow> lock_use \<Rightarrow> cache_store \<Rightarrow> cache_store" where
  "lock_try env r a use s =
     (if ce_now env \<ge> ca_deadline a then lock_failed r use s
      else if cs_locks s (ca_key a) \<noteq> None then goto r (L_stat use (ce_now env)) s
      else if ce_ok env
      then goto r (L_write use) (set_lock (ca_key a) (Some \<lparr>ck_id = r, ck_pid = None, ck_mtime = ce_now env\<rparr>) s)
      else lock_failed r use s)"

definition lock_write :: "cache_env \<Rightarrow> nat \<Rightarrow> cache_act \<Rightarrow> lock_use \<Rightarrow> cache_store \<Rightarrow> cache_store" where
  "lock_write env r a use s =
     (if \<not> ce_ok env then lock_failed r use s
      else goto r (locked_pc use)
             (case cs_locks s (ca_key a) of
                Some l \<Rightarrow> if ck_id l = r then set_lock (ca_key a) (Some (l\<lparr>ck_pid := Some (ce_pid env), ck_mtime := ce_now env\<rparr>)) s else s
              | None \<Rightarrow> s))"

text \<open>\<open>reclaimStaleLockIfNeeded\<close>, called with the clock \<open>t\<close>: \<open>stat\<close>, then \<open>readFile\<close>, then \<open>rm\<close>.\<close>

definition reclaim_stat :: "cache_env \<Rightarrow> nat \<Rightarrow> cache_act \<Rightarrow> lock_use \<Rightarrow> ts \<Rightarrow> cache_store \<Rightarrow> cache_store" where
  "reclaim_stat env r a use t s =
     (case cs_locks s (ca_key a) of
        Some l \<Rightarrow> if ce_ok env then goto r (L_read use (t - ck_mtime l)) s else goto r (L_try use) s
      | None \<Rightarrow> goto r (L_try use) s)"

definition owner_alive :: "cache_env \<Rightarrow> cache_lock option \<Rightarrow> bool" where
  "owner_alive env l = (case Option.bind l ck_pid of Some pid \<Rightarrow> ce_ok env \<and> isPidAlive env pid | None \<Rightarrow> False)"

definition reclaim_read :: "cache_env \<Rightarrow> nat \<Rightarrow> cache_act \<Rightarrow> lock_use \<Rightarrow> ts \<Rightarrow> cache_store \<Rightarrow> cache_store" where
  "reclaim_read env r a use age s =
     (if owner_alive env (cs_locks s (ca_key a)) \<and> age < LOCK_STALE_MAX_AGE_MS then goto r (L_try use) s else goto r (L_rm use) s)"

definition reclaim_rm :: "cache_env \<Rightarrow> nat \<Rightarrow> cache_act \<Rightarrow> lock_use \<Rightarrow> cache_store \<Rightarrow> cache_store" where
  "reclaim_rm env r a use s = goto r (L_try use) (if ce_ok env then set_lock (ca_key a) None s else s)"

subsection \<open>Acquiring\<close>

definition acquireForJob ::
  "cache_config \<Rightarrow> nat \<Rightarrow> string \<Rightarrow> build_cache_kind \<Rightarrow> string \<Rightarrow> risk_level \<Rightarrow> cache_store \<Rightarrow> cache_store" where
  "acquireForJob cfg r key kind attempt risk s =
     s\<lparr>cs_acts := (cs_acts s)(r \<mapsto>
         \<lparr>ca_key = key, ca_kind = kind, ca_attempt = attempt, ca_risk = risk, ca_deadline = 0, ca_published = False,
          ca_pc = (if risk \<notin> set (cc_allowReadRiskLevels cfg) then Finished Cache_read_disabled else L_mkdir For_acquire)\<rparr>)\<rparr>"

definition acquire_check :: "cache_config \<Rightarrow> cache_env \<Rightarrow> nat \<Rightarrow> cache_act \<Rightarrow> cache_store \<Rightarrow> cache_store" where
  "acquire_check cfg env r a s =
     (if ce_ok env \<and> isPublished (ca_key a) s then goto r A_meta s
      else if ca_risk a \<notin> set (cc_allowWriteRiskLevels cfg) then goto r A_unlock_refused s
      else goto r A_rm_temp s)"

definition used_meta :: "ts \<Rightarrow> build_cache_kind \<Rightarrow> cache_meta option \<Rightarrow> cache_meta" where
  "used_meta now kind existing =
     (case existing of
        Some m \<Rightarrow> m\<lparr>cm_kind := kind, cm_last_used_at := now, cm_active_users := cm_active_users m + 1\<rparr>
      | None \<Rightarrow> \<lparr>cm_kind = kind, cm_last_used_at = now, cm_active_users = 1, cm_bytes = None\<rparr>)"

definition left_meta :: "ts \<Rightarrow> cache_meta \<Rightarrow> cache_meta" where
  "left_meta now m = m\<lparr>cm_active_users := max 0 (cm_active_users m - 1), cm_last_used_at := now\<rparr>"

definition acquire_step :: "cache_config \<Rightarrow> cache_env \<Rightarrow> nat \<Rightarrow> cache_act \<Rightarrow> cache_store \<Rightarrow> cache_store" where
  "acquire_step cfg env r a s =
     (let k = ca_key a; temp = (ca_key a, ca_attempt a) in
      case ca_pc a of
        A_check \<Rightarrow> acquire_check cfg env r a s
      | A_meta \<Rightarrow> goto r (A_write (used_meta (ce_now env) (ca_kind a) (readMeta env k s))) s
      | A_write m \<Rightarrow> if ce_ok env \<and> cs_dirs s k \<noteq> None then goto r A_unlock_hit (writeMeta k m s) else goto r A_abort s
      | A_unlock_hit \<Rightarrow> if ce_ok env then goto r A_mkdir (set_lock k None s) else goto r A_abort s
      | A_mkdir \<Rightarrow> if ce_ok env then goto r Held_hit (set_dir k (make_kind_dir (cs_dirs s k)) s) else goto r Threw s
      | A_unlock_refused \<Rightarrow> if ce_ok env then goto r (Finished Cache_write_disabled) (set_lock k None s) else goto r A_abort s
      | A_rm_temp \<Rightarrow> goto r A_mk_temp (if ce_ok env then set_temp temp None s else s)
      | A_mk_temp \<Rightarrow>
          if ce_ok env then goto r Held_miss (set_temp temp (make_kind_dir (cs_temps s temp)) s) else goto r A_abort s
      | A_abort \<Rightarrow> goto r Threw (if ce_ok env then set_lock k None s else s)
      | _ \<Rightarrow> s)"

subsection \<open>Publishing\<close>

definition publishIfAllowed :: "cache_config \<Rightarrow> nat \<Rightarrow> cache_act \<Rightarrow> job_outcome \<Rightarrow> cache_store \<Rightarrow> cache_store" where
  "publishIfAllowed cfg r a outcome s =
     goto r (if outcome \<noteq> Succeeded \<or> ca_risk a \<notin> set (cc_allowWriteRiskLevels cfg) then B_discard else B_check) s"

text \<open>A directory can be renamed to a path where there is nothing or an empty directory.\<close>

definition free_target :: "string \<Rightarrow> cache_store \<Rightarrow> bool" where
  "free_target k s = (cs_dirs s k = None \<or> cs_dirs s k = Some empty_dir)"

definition publish_step :: "cache_env \<Rightarrow> nat \<Rightarrow> cache_act \<Rightarrow> cache_store \<Rightarrow> cache_store" where
  "publish_step env r a s =
     (let k = ca_key a; temp = (ca_key a, ca_attempt a); t = cs_temps s (ca_key a, ca_attempt a) in
      case ca_pc a of
        B_discard \<Rightarrow> goto r Held_miss (if ce_ok env then set_temp temp None s else s)
      | B_check \<Rightarrow> goto r (if ce_ok env \<and> t \<noteq> None then B_size else Held_miss) s
      | B_size \<Rightarrow>
          goto r (B_meta \<lparr>cm_kind = ca_kind a, cm_last_used_at = ce_now env, cm_active_users = 1, cm_bytes = Some (ce_bytes env)\<rparr>) s
      | B_meta m \<Rightarrow>
          (case t of
             Some d \<Rightarrow> if ce_ok env then goto r B_marker (set_temp temp (Some (d\<lparr>cd_meta := Some m\<rparr>)) s) else goto r Held_miss s
           | None \<Rightarrow> goto r Held_miss s)
      | B_marker \<Rightarrow>
          (case t of
             Some d \<Rightarrow> if ce_ok env then goto r B_clear (set_temp temp (Some (d\<lparr>cd_published := True\<rparr>)) s) else goto r Held_miss s
           | None \<Rightarrow> goto r Held_miss s)
      | B_clear \<Rightarrow> goto r B_look (if ce_ok env then set_bak temp None s else s)
      | B_look \<Rightarrow> goto r (if ce_ok env \<and> cs_dirs s k \<noteq> None then B_aside else B_swap) s
      | B_aside \<Rightarrow>
          if ce_ok env \<and> cs_dirs s k \<noteq> None \<and> cs_baks s temp = None
          then goto r B_swap (set_dir k None (set_bak temp (cs_dirs s k) s)) else goto r Held_miss s
      | B_swap \<Rightarrow>
          if ce_ok env \<and> t \<noteq> None \<and> free_target k s
          then (let s1 = set_temp temp None (set_dir k t s)
                in s1\<lparr>cs_acts := (cs_acts s1)(r \<mapsto> a\<lparr>ca_published := True, ca_pc := B_done\<rparr>)\<rparr>)
          else goto r B_undo s
      | B_undo \<Rightarrow>
          goto r Held_miss
            (if ce_ok env \<and> cs_baks s temp \<noteq> None \<and> free_target k s then set_bak temp None (set_dir k (cs_baks s temp) s) else s)
      | B_done \<Rightarrow> goto r Held_miss (if ce_ok env then set_bak temp None s else s)
      | _ \<Rightarrow> s)"

subsection \<open>Releasing\<close>

definition release :: "nat \<Rightarrow> cache_act \<Rightarrow> cache_store \<Rightarrow> cache_store" where
  "release r a s = (case ca_pc a of Held_hit \<Rightarrow> goto r (L_mkdir For_release) s | Held_miss \<Rightarrow> goto r M_rm s | _ \<Rightarrow> s)"

definition release_step :: "cache_env \<Rightarrow> nat \<Rightarrow> cache_act \<Rightarrow> cache_store \<Rightarrow> cache_store" where
  "release_step env r a s =
     (let k = ca_key a; temp = (ca_key a, ca_attempt a) in
      case ca_pc a of
        R_meta \<Rightarrow> goto r (case readMeta env k s of Some m \<Rightarrow> R_write (left_meta (ce_now env) m) | None \<Rightarrow> R_unlock) s
      | R_write m \<Rightarrow> goto r R_unlock (if ce_ok env then writeMeta k m s else s)
      | R_unlock \<Rightarrow> goto r (if ce_ok env then Finished Cache_hit else Threw) (if ce_ok env then set_lock k None s else s)
      | M_rm \<Rightarrow> goto r M_check (if ce_ok env then set_temp temp None s else s)
      | M_check \<Rightarrow> goto r (if ce_ok env \<and> isPublished k s then M_meta else M_unlock) s
      | M_meta \<Rightarrow> goto r (case readMeta env k s of Some m \<Rightarrow> M_write (left_meta (ce_now env) m) | None \<Rightarrow> M_unlock) s
      | M_write m \<Rightarrow> goto r M_unlock (if ce_ok env then writeMeta k m s else s)
      | M_unlock \<Rightarrow> goto r (if ce_ok env then Finished Cache_miss else Threw) (if ce_ok env then set_lock k None s else s)
      | _ \<Rightarrow> s)"

text \<open>The next file operation of an activation.\<close>

definition cache_step :: "cache_config \<Rightarrow> cache_env \<Rightarrow> nat \<Rightarrow> cache_store \<Rightarrow> cache_store" where
  "cache_step cfg env r s =
     (case cs_acts s r of
        None \<Rightarrow> s
      | Some a \<Rightarrow>
          (case ca_pc a of
             L_mkdir use \<Rightarrow> lock_mkdir env r a use s
           | L_try use \<Rightarrow> lock_try env r a use s
           | L_write use \<Rightarrow> lock_write env r a use s
           | L_stat use t \<Rightarrow> reclaim_stat env r a use t s
           | L_read use age \<Rightarrow> reclaim_read env r a use age s
           | L_rm use \<Rightarrow> reclaim_rm env r a use s
           | B_discard \<Rightarrow> publish_step env r a s | B_check \<Rightarrow> publish_step env r a s | B_size \<Rightarrow> publish_step env r a s
           | B_meta _ \<Rightarrow> publish_step env r a s | B_marker \<Rightarrow> publish_step env r a s | B_clear \<Rightarrow> publish_step env r a s
           | B_look \<Rightarrow> publish_step env r a s | B_aside \<Rightarrow> publish_step env r a s | B_swap \<Rightarrow> publish_step env r a s
           | B_undo \<Rightarrow> publish_step env r a s | B_done \<Rightarrow> publish_step env r a s
           | R_meta \<Rightarrow> release_step env r a s | R_write _ \<Rightarrow> release_step env r a s | R_unlock \<Rightarrow> release_step env r a s
           | M_rm \<Rightarrow> release_step env r a s | M_check \<Rightarrow> release_step env r a s | M_meta \<Rightarrow> release_step env r a s
           | M_write _ \<Rightarrow> release_step env r a s | M_unlock \<Rightarrow> release_step env r a s
           | _ \<Rightarrow> acquire_step cfg env r a s))"

text \<open>What the job itself writes into the directory it was given, and a process that dies.\<close>

definition cache_fill :: "nat \<Rightarrow> string \<Rightarrow> cache_store \<Rightarrow> cache_store" where
  "cache_fill r content s =
     (case cs_acts s r of
        None \<Rightarrow> s
      | Some a \<Rightarrow>
          (let k = ca_key a; temp = (ca_key a, ca_attempt a) in
           case ca_pc a of
             Held_hit \<Rightarrow> set_dir k (map_option (\<lambda>d. d\<lparr>cd_content := Some content\<rparr>) (cs_dirs s k)) s
           | Held_miss \<Rightarrow> set_temp temp (map_option (\<lambda>d. d\<lparr>cd_content := Some content\<rparr>) (cs_temps s temp)) s
           | _ \<Rightarrow> s))"

definition cache_crash :: "nat \<Rightarrow> cache_store \<Rightarrow> cache_store" where
  "cache_crash r s = s\<lparr>cs_acts := (cs_acts s)(r := None)\<rparr>"

text \<open>The timer of a held lock, and \<open>utimes\<close> on its path.\<close>

definition touch_lock :: "cache_env \<Rightarrow> string \<Rightarrow> cache_store \<Rightarrow> cache_store" where
  "touch_lock env k s =
     (if ce_ok env then set_lock k (map_option (\<lambda>l. l\<lparr>ck_mtime := ce_now env\<rparr>) (cs_locks s k)) s else s)"

subsection \<open>Evicting\<close>

text \<open>
  The names in the root directory are entries, temporary and moved-aside directories of an attempt, and
  lock files. An eviction finds outside the listing, the times and sizes of directories, the free space
  and whether an entry can be removed.
\<close>

datatype cache_name = Name_key string | Name_temp string string | Name_bak string string | Name_lock string

record evict_env =
  ee_env :: cache_env
  ee_names :: "cache_name list option"
  ee_mtime :: "cache_name \<Rightarrow> ts option"
  ee_size :: "string \<Rightarrow> int"
  ee_free :: "int option"
  ee_rm_ok :: "string \<Rightarrow> bool"

record evict_candidate =
  ec_key :: string
  ec_lastUsed :: ts
  ec_bytes :: int

definition reclaimStaleLockIfNeeded :: "cache_env \<Rightarrow> ts \<Rightarrow> string \<Rightarrow> cache_store \<Rightarrow> bool \<times> cache_store" where
  "reclaimStaleLockIfNeeded env nowMs k s =
     (case cs_locks s k of
        Some l \<Rightarrow>
          if \<not> ce_ok env \<or> owner_alive env (Some l) \<and> nowMs - ck_mtime l < LOCK_STALE_MAX_AGE_MS then (False, s)
          else (True, set_lock k None s)
      | None \<Rightarrow> (False, s))"

text \<open>\<open>pathExists(lockFile)\<close> and, if it is there, the attempt to reclaim it: whether the entry may be looked at.\<close>

definition lock_gone :: "cache_env \<Rightarrow> ts \<Rightarrow> string \<Rightarrow> cache_store \<Rightarrow> bool \<times> cache_store" where
  "lock_gone env nowMs k s =
     (if ce_ok env \<and> cs_locks s k \<noteq> None then reclaimStaleLockIfNeeded env nowMs k s else (True, s))"

definition retentionMs :: "cache_config \<Rightarrow> int" where
  "retentionMs cfg = cc_retentionDays cfg * 24 * 60 * 60 * 1000"

definition old_name :: "cache_config \<Rightarrow> evict_env \<Rightarrow> cache_name \<Rightarrow> bool" where
  "old_name cfg ee n = (case ee_mtime ee n of Some t \<Rightarrow> ce_now (ee_env ee) - t \<ge> retentionMs cfg | None \<Rightarrow> False)"

definition scan_name ::
  "cache_config \<Rightarrow> evict_env \<Rightarrow> cache_name \<Rightarrow> evict_candidate list \<times> cache_store \<Rightarrow> evict_candidate list \<times> cache_store" where
  "scan_name cfg ee n cs =
     (let env = ee_env ee; s = snd cs in
      case n of
        Name_lock _ \<Rightarrow> cs
      | Name_temp k a \<Rightarrow> (fst cs, if old_name cfg ee n then set_temp (k, a) None s else s)
      | Name_bak k a \<Rightarrow> (fst cs, if old_name cfg ee n then set_bak (k, a) None s else s)
      | Name_key k \<Rightarrow>
          if \<not> (ce_ok env \<and> isPublished k s) then cs
          else
            (let (go, s1) = lock_gone env (ce_now env) k s in
             if \<not> go then (fst cs, s1)
             else
               (case readMeta env k s1 of
                  None \<Rightarrow> (fst cs, s1)
                | Some m \<Rightarrow>
                    if cm_active_users m > 0 then (fst cs, s1)
                    else
                      (fst cs @ [\<lparr>ec_key = k, ec_lastUsed = cm_last_used_at m,
                                  ec_bytes = (case cm_bytes m of Some b \<Rightarrow> b | None \<Rightarrow> ee_size ee k)\<rparr>], s1))))"

record evict_options =
  eo_maxSizeBytes :: int
  eo_minFreeBytes :: int

record evict_result =
  er_evictedKeys :: "string list"
  er_freedBytes :: int

definition due :: "cache_config \<Rightarrow> evict_options \<Rightarrow> ts \<Rightarrow> int \<Rightarrow> int \<Rightarrow> int \<Rightarrow> evict_candidate \<Rightarrow> bool" where
  "due cfg opts nowMs tot avail freed c =
     (tot - freed > eo_maxSizeBytes opts \<or> avail + freed < eo_minFreeBytes opts \<or>
      retentionMs cfg = 0 \<or> nowMs - ec_lastUsed c \<ge> retentionMs cfg)"

text \<open>The look at the lock and the users just before an entry is removed, and the removal.\<close>

definition evict_recheck :: "cache_env \<Rightarrow> string \<Rightarrow> cache_store \<Rightarrow> bool \<times> cache_store" where
  "evict_recheck env k s =
     (let (go, s1) = lock_gone env (ce_now env) k s
      in (go \<and> (case readMeta env k s1 of Some m \<Rightarrow> cm_active_users m \<le> 0 | None \<Rightarrow> True), s1))"

definition evict_remove :: "string \<Rightarrow> cache_store \<Rightarrow> cache_store" where
  "evict_remove k s = set_lock k None (set_dir k None s)"

fun evict_loop ::
  "cache_config \<Rightarrow> evict_env \<Rightarrow> evict_options \<Rightarrow> int \<Rightarrow> int \<Rightarrow> evict_candidate list \<Rightarrow> evict_result \<Rightarrow> cache_store \<Rightarrow>
   (string + evict_result) \<times> cache_store" where
  "evict_loop cfg ee opts tot avail [] res s = (Inr res, s)"
| "evict_loop cfg ee opts tot avail (c # cs) res s =
     (if \<not> due cfg opts (ce_now (ee_env ee)) tot avail (er_freedBytes res) c then evict_loop cfg ee opts tot avail cs res s
      else
        (let (go, s1) = evict_recheck (ee_env ee) (ec_key c) s in
         if \<not> go then evict_loop cfg ee opts tot avail cs res s1
         else if \<not> ee_rm_ok ee (ec_key c) then (Inl ''rm failed'', s1)
         else
           evict_loop cfg ee opts tot avail cs
             \<lparr>er_evictedKeys = er_evictedKeys res @ [ec_key c], er_freedBytes = er_freedBytes res + ec_bytes c\<rparr>
             (evict_remove (ec_key c) s1)))"

definition free_bytes :: "evict_env \<Rightarrow> evict_options \<Rightarrow> int \<Rightarrow> int" where
  "free_bytes ee opts tot =
     (case ee_free ee of
        Some b \<Rightarrow> b
      | None \<Rightarrow> max 0 (if eo_maxSizeBytes opts > 0 then eo_maxSizeBytes opts - tot else 0))"

definition evictInactive ::
  "cache_config \<Rightarrow> evict_env \<Rightarrow> evict_options \<Rightarrow> cache_store \<Rightarrow> (string + evict_result) \<times> cache_store" where
  "evictInactive cfg ee opts s =
     (case ee_names ee of
        None \<Rightarrow> (Inr \<lparr>er_evictedKeys = [], er_freedBytes = 0\<rparr>, s)
      | Some names \<Rightarrow>
          (let (cands, s1) = fold (scan_name cfg ee) names ([], s);
               tot = sum_list (map ec_bytes cands)
           in evict_loop cfg ee opts tot (free_bytes ee opts tot) (sort_key ec_lastUsed cands)
                \<lparr>er_evictedKeys = [], er_freedBytes = 0\<rparr> s1))"

subsection \<open>Advertising\<close>

fun add_key :: "string \<Rightarrow> string \<Rightarrow> (string \<times> string list) list \<Rightarrow> (string \<times> string list) list" where
  "add_key kind k [] = [(kind, [k])]"
| "add_key kind k ((kind', ks) # rest) = (if kind' = kind then (kind', ks @ [k]) # rest else (kind', ks) # add_key kind k rest)"

definition key_prefix :: "string \<Rightarrow> string" where
  "key_prefix name = (if CHR ''_'' \<in> set name then takeWhile (\<lambda>c. c \<noteq> CHR ''_'') name else [])"

definition advertised_kind :: "cache_env \<Rightarrow> string \<Rightarrow> cache_store \<Rightarrow> string" where
  "advertised_kind env k s = (case readMeta env k s of Some m \<Rightarrow> kind_name (cm_kind m) | None \<Rightarrow> key_prefix k)"

definition listPublishedKeys :: "cache_env \<Rightarrow> cache_name list option \<Rightarrow> cache_store \<Rightarrow> (string \<times> string list) list" where
  "listPublishedKeys env names s =
     (case names of
        None \<Rightarrow> []
      | Some ns \<Rightarrow>
          (let listed = fold (\<lambda>n acc. case n of
                  Name_key k \<Rightarrow>
                    if ce_ok env \<and> isPublished k s \<and> advertised_kind env k s \<noteq> [] then add_key (advertised_kind env k s) k acc else acc
                | _ \<Rightarrow> acc) ns []
           in map (\<lambda>(kind, ks). (kind, sort ks)) (filter (\<lambda>(_, ks). ks \<noteq> []) listed)))"

text \<open>\<open>listPresentBuildCacheKeys\<close> looks only at names of the form kind, underscore, 32 hexadecimal digits.\<close>

definition hex_digit :: "char \<Rightarrow> bool" where
  "hex_digit c = (c \<in> set ''0123456789abcdefABCDEF'')"

definition opaque_key_kind :: "build_cache_kind list \<Rightarrow> string \<Rightarrow> build_cache_kind option" where
  "opaque_key_kind enabledKinds name =
     (let suffix = drop (length (key_prefix name) + 1) name in
      case find (\<lambda>d. kind_name (kd_kind d) = key_prefix name) BUILD_CACHE_KINDS of
        Some d \<Rightarrow> if kd_kind d \<in> set enabledKinds \<and> length suffix = 32 \<and> list_all hex_digit suffix then Some (kd_kind d) else None
      | None \<Rightarrow> None)"

definition listPresentBuildCacheKeys ::
  "build_cache_kind list \<Rightarrow> cache_env \<Rightarrow> cache_name list option \<Rightarrow> cache_store \<Rightarrow> (build_cache_kind \<times> string list) list" where
  "listPresentBuildCacheKeys enabledKinds env names s =
     (case names of
        None \<Rightarrow> []
      | Some ns \<Rightarrow>
          (let present = concat (map (\<lambda>n. case n of
                  Name_key k \<Rightarrow> if ce_ok env \<and> isPublished k s then [k] else []
                | _ \<Rightarrow> []) ns);
               of_kind = (\<lambda>kind. filter (\<lambda>k. opaque_key_kind enabledKinds k = Some kind) present)
           in map (\<lambda>kind. (kind, sort (of_kind kind))) (filter (\<lambda>kind. of_kind kind \<noteq> []) enabledKinds)))"

end
