(* ===== verification/Build_Cache_Laws.thy ===== *)
theory Build_Cache_Laws
  imports Build_Cache
begin

text \<open>
  Mutual exclusion and the count of users in the build-cache store. The steps of \<open>store_step\<close> are the
  operations of \<^theory_text>\<open>Build_Cache\<close> in any interleaving, with file operations that succeed and
  with processes that die at any point; a lock is reclaimed only when no running activation holds it,
  which is what the reclaiming of stale locks is meant to ensure.
\<close>

section \<open>Holders and users\<close>

fun miss_pc :: "store_pc \<Rightarrow> bool" where
  "miss_pc A_rm_temp = True"
| "miss_pc A_mk_temp = True"
| "miss_pc Held_miss = True"
| "miss_pc B_discard = True"
| "miss_pc B_check = True"
| "miss_pc B_size = True"
| "miss_pc (B_meta m) = True"
| "miss_pc B_marker = True"
| "miss_pc B_clear = True"
| "miss_pc B_look = True"
| "miss_pc B_aside = True"
| "miss_pc B_swap = True"
| "miss_pc B_undo = True"
| "miss_pc B_done = True"
| "miss_pc M_rm = True"
| "miss_pc M_check = True"
| "miss_pc M_meta = True"
| "miss_pc (M_write m) = True"
| "miss_pc M_unlock = True"
| "miss_pc _ = False"

fun holding :: "store_pc \<Rightarrow> bool" where
  "holding (L_write use) = True"
| "holding A_check = True"
| "holding A_meta = True"
| "holding (A_write m) = True"
| "holding A_unlock_hit = True"
| "holding A_unlock_refused = True"
| "holding A_abort = True"
| "holding R_meta = True"
| "holding (R_write m) = True"
| "holding R_unlock = True"
| "holding pc = miss_pc pc"

text \<open>An activation uses the published entry: a hit until its release has counted it out, a miss from its publication on.\<close>

fun use_pc :: "lock_use \<Rightarrow> bool" where
  "use_pc For_release = True"
| "use_pc For_acquire = False"

fun hit_pc :: "store_pc \<Rightarrow> bool" where
  "hit_pc A_unlock_hit = True"
| "hit_pc A_mkdir = True"
| "hit_pc Held_hit = True"
| "hit_pc (L_mkdir u) = use_pc u"
| "hit_pc (L_try u) = use_pc u"
| "hit_pc (L_write u) = use_pc u"
| "hit_pc (L_stat u t) = use_pc u"
| "hit_pc (L_read u t) = use_pc u"
| "hit_pc (L_rm u) = use_pc u"
| "hit_pc R_meta = True"
| "hit_pc (R_write m) = True"
| "hit_pc _ = False"

definition using_entry :: "cache_act \<Rightarrow> bool" where
  "using_entry a = (hit_pc (ca_pc a) \<or> ca_published a \<and> (case ca_pc a of
       Held_miss \<Rightarrow> True | B_done \<Rightarrow> True | M_rm \<Rightarrow> True | M_check \<Rightarrow> True | M_meta \<Rightarrow> True | M_write _ \<Rightarrow> True | _ \<Rightarrow> False))"

definition entry_users :: "cache_store \<Rightarrow> string \<Rightarrow> nat set" where
  "entry_users s k = {r. \<exists>a. cs_acts s r = Some a \<and> ca_key a = k \<and> using_entry a}"

definition entry_count :: "cache_store \<Rightarrow> string \<Rightarrow> int option" where
  "entry_count s k = (case cs_dirs s k of
       Some d \<Rightarrow> if cd_published d then map_option cm_active_users (cd_meta d) else None
     | None \<Rightarrow> None)"

text \<open>The entry is published and counts at least the given number of users.\<close>

definition counts :: "cache_store \<Rightarrow> string \<Rightarrow> nat \<Rightarrow> bool" where
  "counts s k n = (n = 0 \<or> (\<exists>c. entry_count s k = Some c \<and> int n \<le> c))"

definition staged :: "cache_store \<Rightarrow> cache_act \<Rightarrow> bool \<Rightarrow> bool" where
  "staged s a marked = (\<forall>d. cs_temps s (ca_key a, ca_attempt a) = Some d \<longrightarrow>
       (\<exists>m. cd_meta d = Some m \<and> cm_active_users m = 1) \<and> (marked \<longrightarrow> cd_published d))"

text \<open>The condition of a program point, with the users given.\<close>

definition pc_ok_at :: "cache_store \<Rightarrow> nat set \<Rightarrow> nat \<Rightarrow> cache_act \<Rightarrow> bool" where
  "pc_ok_at s U r a =
     ((miss_pc (ca_pc a) \<longrightarrow> U \<subseteq> {r}) \<and>
      (case ca_pc a of
         A_meta \<Rightarrow> isPublished (ca_key a) s
       | A_write m \<Rightarrow> isPublished (ca_key a) s \<and> int (card U) + 1 \<le> cm_active_users m
       | R_write m \<Rightarrow> int (card U) \<le> cm_active_users m + 1 \<and> 0 \<le> cm_active_users m
       | M_write m \<Rightarrow> 0 \<le> cm_active_users m
       | B_meta m \<Rightarrow> cm_active_users m = 1
       | B_marker \<Rightarrow> staged s a False
       | B_clear \<Rightarrow> staged s a True
       | B_look \<Rightarrow> staged s a True
       | B_aside \<Rightarrow> staged s a True
       | B_swap \<Rightarrow> staged s a True
       | _ \<Rightarrow> True))"

definition pc_ok :: "cache_store \<Rightarrow> nat \<Rightarrow> cache_act \<Rightarrow> bool" where
  "pc_ok s r a = pc_ok_at s (entry_users s (ca_key a)) r a"

text \<open>No count on disk is negative.\<close>

definition dir_ok :: "cache_dir option \<Rightarrow> bool" where
  "dir_ok entry = (\<forall>d m. entry = Some d \<and> cd_meta d = Some m \<longrightarrow> 0 \<le> cm_active_users m)"

definition metas_ok :: "cache_store \<Rightarrow> bool" where
  "metas_ok s = ((\<forall>k. dir_ok (cs_dirs s k)) \<and> (\<forall>x. dir_ok (cs_temps s x)) \<and> (\<forall>x. dir_ok (cs_baks s x)))"

definition lock_held_by :: "cache_store \<Rightarrow> nat \<Rightarrow> string \<Rightarrow> bool" where
  "lock_held_by s r k = (\<exists>l. cs_locks s k = Some l \<and> ck_id l = r)"

text \<open>Where an activation that has published can be.\<close>

fun late_pc :: "store_pc \<Rightarrow> bool" where
  "late_pc B_done = True"
| "late_pc Held_miss = True"
| "late_pc M_rm = True"
| "late_pc M_check = True"
| "late_pc M_meta = True"
| "late_pc (M_write m) = True"
| "late_pc M_unlock = True"
| "late_pc (Finished mode) = True"
| "late_pc Threw = True"
| "late_pc pc = False"

definition act_ok :: "cache_store \<Rightarrow> nat \<Rightarrow> cache_act \<Rightarrow> bool" where
  "act_ok s r a = ((ca_published a \<longrightarrow> late_pc (ca_pc a)) \<and> (holding (ca_pc a) \<longrightarrow> lock_held_by s r (ca_key a) \<and> pc_ok s r a))"

definition store_ok :: "cache_store \<Rightarrow> bool" where
  "store_ok s = (finite (dom (cs_acts s)) \<and> metas_ok s \<and> (\<forall>r a. cs_acts s r = Some a \<longrightarrow> act_ok s r a) \<and>
     (\<forall>k. counts s k (card (entry_users s k))))"

section \<open>Steps\<close>

definition lock_orphaned :: "cache_store \<Rightarrow> string \<Rightarrow> bool" where
  "lock_orphaned s k = (\<forall>r a. cs_acts s r = Some a \<and> ca_key a = k \<longrightarrow> \<not> holding (ca_pc a))"

text \<open>A step that succeeds, and that reclaims no lock of a running activation.\<close>

definition sound_step :: "cache_env \<Rightarrow> nat \<Rightarrow> cache_store \<Rightarrow> bool" where
  "sound_step env r s = (ce_ok env \<and> (\<forall>a u. cs_acts s r = Some a \<and> ca_pc a = L_rm u \<longrightarrow> lock_orphaned s (ca_key a)))"

text \<open>The locks of running activations are fresh and name a live process, so that an eviction does not reclaim them.\<close>

definition live_locks :: "cache_env \<Rightarrow> cache_store \<Rightarrow> bool" where
  "live_locks env s = (\<forall>k l. cs_locks s k = Some l \<and> \<not> lock_orphaned s k \<longrightarrow>
     owner_alive env (Some l) \<and> ce_now env - ck_mtime l < LOCK_STALE_MAX_AGE_MS)"

inductive store_step :: "cache_config \<Rightarrow> cache_store \<Rightarrow> cache_store \<Rightarrow> bool" for cfg where
  start: "cs_acts s r = None \<Longrightarrow> store_step cfg s (acquireForJob cfg r key kind attempt risk s)"
| go: "sound_step env r s \<Longrightarrow> store_step cfg s (cache_step cfg env r s)"
| publish: "cs_acts s r = Some a \<Longrightarrow> ca_pc a = Held_miss \<Longrightarrow> \<not> ca_published a \<Longrightarrow>
    store_step cfg s (publishIfAllowed cfg r a outcome s)"
| leave: "cs_acts s r = Some a \<Longrightarrow> store_step cfg s (release r a s)"
| fill: "store_step cfg s (cache_fill r content s)"
| touch: "store_step cfg s (touch_lock env k s)"
| crash: "store_step cfg s (cache_crash r s)"
| evict: "ce_ok (ee_env ee) \<Longrightarrow>
    live_locks (ee_env ee) s \<Longrightarrow>
    store_step cfg s (snd (evictInactive cfg ee opts s))"

lemma set_acts [simp]:
  "cs_acts (set_dir k d s) = cs_acts s" "cs_acts (set_lock k l s) = cs_acts s" "cs_acts (set_temp x d s) = cs_acts s"
  "cs_acts (set_bak x d s) = cs_acts s" "cs_acts (writeMeta k m s) = cs_acts s"
  by (simp_all add: set_dir_def set_lock_def set_temp_def set_bak_def writeMeta_def split: option.split)

lemma set_locks [simp]:
  "cs_locks (set_dir k d s) = cs_locks s" "cs_locks (set_lock k l s) = (cs_locks s)(k := l)" "cs_locks (set_temp x d s) = cs_locks s"
  "cs_locks (set_bak x d s) = cs_locks s" "cs_locks (writeMeta k m s) = cs_locks s"
  by (simp_all add: set_dir_def set_lock_def set_temp_def set_bak_def writeMeta_def split: option.split)

lemma set_temps [simp]:
  "cs_temps (set_dir k d s) = cs_temps s" "cs_temps (set_lock k l s) = cs_temps s" "cs_temps (set_temp x d s) = (cs_temps s)(x := d)"
  "cs_temps (set_bak x d s) = cs_temps s" "cs_temps (writeMeta k m s) = cs_temps s"
  by (simp_all add: set_dir_def set_lock_def set_temp_def set_bak_def writeMeta_def split: option.split)

lemma set_dirs [simp]:
  "cs_dirs (set_dir k d s) = (cs_dirs s)(k := d)" "cs_dirs (set_lock k l s) = cs_dirs s" "cs_dirs (set_temp x d s) = cs_dirs s"
  "cs_dirs (set_bak x d s) = cs_dirs s"
  "cs_dirs (writeMeta k m s) = (cs_dirs s)(k := map_option (\<lambda>d. d\<lparr>cd_meta := Some m\<rparr>) (cs_dirs s k))"
  by (auto simp: set_dir_def set_lock_def set_temp_def set_bak_def writeMeta_def fun_eq_iff split: option.split)

lemma set_metas [simp]:
  "metas_ok s \<Longrightarrow> dir_ok d \<Longrightarrow> metas_ok (set_dir k d s)" "metas_ok (set_lock k l s) = metas_ok s"
  "metas_ok s \<Longrightarrow> dir_ok d \<Longrightarrow> metas_ok (set_temp x d s)" "metas_ok s \<Longrightarrow> dir_ok d \<Longrightarrow> metas_ok (set_bak x d s)"
  "metas_ok s \<Longrightarrow> 0 \<le> cm_active_users m \<Longrightarrow> metas_ok (writeMeta k m s)"
  by (auto simp: metas_ok_def set_dir_def set_lock_def set_temp_def set_bak_def writeMeta_def dir_ok_def split: option.split)

lemma dir_ok_simps [simp]:
  "dir_ok None" "dir_ok (Some empty_dir)" "dir_ok (make_kind_dir entry) = dir_ok entry"
  "dir_ok (Some d) \<Longrightarrow> dir_ok (Some (d\<lparr>cd_published := b\<rparr>))" "0 \<le> cm_active_users m \<Longrightarrow> dir_ok (Some (d\<lparr>cd_meta := Some m\<rparr>))"
  by (auto simp: dir_ok_def empty_dir_def make_kind_dir_def Let_def split: option.splits)

lemma metas_okD: "metas_ok s \<Longrightarrow> dir_ok (cs_dirs s k)" "metas_ok s \<Longrightarrow> dir_ok (cs_temps s x)" "metas_ok s \<Longrightarrow> dir_ok (cs_baks s x)"
  unfolding metas_ok_def by blast+

lemma made_count: "cs_dirs s k = None \<Longrightarrow> entry_count (set_dir k (Some empty_dir) s) k = entry_count s k"
  by (simp add: entry_count_def empty_dir_def)

lemma published_dir: "isPublished k s \<Longrightarrow> \<exists>d. cs_dirs s k = Some d \<and> cd_published d"
  by (auto simp: isPublished_def split: option.splits)

lemma written_count: "isPublished k s \<Longrightarrow> entry_count (writeMeta k m s) k = Some (cm_active_users m)"
  by (auto simp: isPublished_def entry_count_def split: option.splits)

section \<open>One activation moves\<close>

definition same_elsewhere :: "string \<Rightarrow> cache_store \<Rightarrow> cache_store \<Rightarrow> bool" where
  "same_elsewhere k s s' = (\<forall>k'. k' \<noteq> k \<longrightarrow> cs_dirs s' k' = cs_dirs s k' \<and> cs_locks s' k' = cs_locks s k' \<and>
     (\<forall>x. cs_temps s' (k', x) = cs_temps s (k', x)))"

definition alone :: "cache_store \<Rightarrow> nat \<Rightarrow> string \<Rightarrow> bool" where
  "alone s r k = (\<forall>r' b. r' \<noteq> r \<and> cs_acts s r' = Some b \<and> ca_key b = k \<longrightarrow> \<not> holding (ca_pc b))"

definition quiet :: "cache_store \<Rightarrow> cache_store \<Rightarrow> string \<Rightarrow> bool" where
  "quiet s s' k = ((\<forall>r. lock_held_by s r k \<longrightarrow> lock_held_by s' r k) \<and> (\<forall>a b. ca_key a = k \<and> staged s a b \<longrightarrow> staged s' a b) \<and>
     (isPublished k s \<longrightarrow> isPublished k s') \<and> entry_users s' k \<subseteq> entry_users s k)"

lemma users_finite: "store_ok s \<Longrightarrow> finite (entry_users s k)"
  by (rule finite_subset [of _ "dom (cs_acts s)"]) (auto simp: entry_users_def store_ok_def)

lemma holder_unique:
  assumes "store_ok s" "cs_acts s r = Some a" "holding (ca_pc a)"
  shows "alone s r (ca_key a)"
proof -
  have "lock_held_by s r' (ca_key b)" if "cs_acts s r' = Some b" "holding (ca_pc b)" for r' b
    using assms(1) that by (simp add: store_ok_def act_ok_def)
  from this [OF assms(2,3)] this show ?thesis by (fastforce simp: alone_def lock_held_by_def)
qed

lemma unlocked_alone: "store_ok s \<Longrightarrow> cs_locks s k = None \<Longrightarrow> alone s r k"
  by (fastforce simp: store_ok_def act_ok_def alone_def lock_held_by_def)

lemma users_update:
  assumes "cs_acts s' = (cs_acts s)(r \<mapsto> a')" "cs_acts s r = Some a" "ca_key a' = ca_key a"
  shows "entry_users s' k = (if ca_key a = k then if using_entry a' then insert r (entry_users s k) else entry_users s k - {r}
     else entry_users s k)"
  using assms by (auto simp: entry_users_def split: if_splits)

lemma pc_ok_quiet:
  assumes "pc_ok s r a" "quiet s s' (ca_key a)" "finite (entry_users s (ca_key a))"
  shows "pc_ok s' r a"
proof -
  have "card (entry_users s' (ca_key a)) \<le> card (entry_users s (ca_key a))"
    using assms(2,3) by (auto simp: quiet_def intro: card_mono)
  then show ?thesis using assms(1,2)
    by (auto simp: pc_ok_def pc_ok_at_def quiet_def split: store_pc.splits)
qed

lemma own_step:
  assumes ok: "store_ok s" and a: "cs_acts s r = Some a"
    and acts: "cs_acts s' = (cs_acts s)(r \<mapsto> a')" "ca_key a' = ca_key a"
    and frame: "same_elsewhere (ca_key a) s s'"
    and others: "alone s r (ca_key a) \<or> quiet s s' (ca_key a)"
    and own: "holding (ca_pc a') \<Longrightarrow> lock_held_by s' r (ca_key a) \<and> pc_ok s' r a'"
    and cnt: "counts s' (ca_key a) (card (entry_users s' (ca_key a)))" and metas: "metas_ok s'"
    and late: "ca_published a' \<longrightarrow> late_pc (ca_pc a')"
  shows "store_ok s'"
proof -
  note users = users_update [OF acts(1) a acts(2)]
  have elsewhere: "quiet s s' k" if "k \<noteq> ca_key a" for k
    using that frame by (auto simp: quiet_def same_elsewhere_def isPublished_def staged_def lock_held_by_def users)
  have "act_ok s' r' b" if b: "cs_acts s' r' = Some b" for r' b
  proof (cases "r' = r")
    case True
    then show ?thesis using own acts b late by (auto simp: act_ok_def)
  next
    case False
    with b acts have b': "cs_acts s r' = Some b" by simp
    then have old: "act_ok s r' b" using ok by (simp add: store_ok_def)
    show ?thesis
    proof (cases "quiet s s' (ca_key b)")
      case True
      with old pc_ok_quiet [OF _ True users_finite [OF ok]] show ?thesis
        by (auto simp: act_ok_def quiet_def)
    next
      case no: False
      with elsewhere have key: "ca_key b = ca_key a" by blast
      with no others False b' have "\<not> holding (ca_pc b)" by (auto simp: alone_def)
      with old show ?thesis by (simp add: act_ok_def)
    qed
  qed
  moreover have "counts s' k (card (entry_users s' k))" for k
  proof (cases "k = ca_key a")
    case False
    then have "counts s' k n = counts s k n" for n using frame by (simp add: counts_def entry_count_def same_elsewhere_def)
    with False ok show ?thesis by (simp add: users store_ok_def)
  qed (use cnt in simp)
  moreover have "finite (dom (cs_acts s'))" using ok acts(1) by (simp add: store_ok_def)
  ultimately show ?thesis using metas by (simp add: store_ok_def)
qed

definition next_users :: "nat set \<Rightarrow> nat \<Rightarrow> cache_act \<Rightarrow> nat set" where
  "next_users U r a' = (if using_entry a' then insert r U else U - {r})"

lemma goto_at: "cs_acts s r = Some a \<Longrightarrow> goto r pc s = s\<lparr>cs_acts := (cs_acts s)(r \<mapsto> a\<lparr>ca_pc := pc\<rparr>)\<rparr>"
  by (simp add: goto_def)

lemma acts_irrelevant [simp]:
  "isPublished k (s\<lparr>cs_acts := x\<rparr>) = isPublished k s" "staged (s\<lparr>cs_acts := x\<rparr>) a b = staged s a b"
  "entry_count (s\<lparr>cs_acts := x\<rparr>) k = entry_count s k" "counts (s\<lparr>cs_acts := x\<rparr>) k n = counts s k n"
  "lock_held_by (s\<lparr>cs_acts := x\<rparr>) r k = lock_held_by s r k"
  "metas_ok (s\<lparr>cs_acts := x\<rparr>) = metas_ok s"
  by (simp_all add: isPublished_def staged_def entry_count_def counts_def lock_held_by_def metas_ok_def)

lemma pc_ok_acts [simp]: "pc_ok_at (s\<lparr>cs_acts := x\<rparr>) U r a = pc_ok_at s U r a"
  by (simp add: pc_ok_at_def split: store_pc.split)

lemma act_step:
  assumes ok: "store_ok s" and a: "cs_acts s r = Some a" and U: "U = entry_users s (ca_key a)"
    and t: "cs_acts t = cs_acts s" "same_elsewhere (ca_key a) s t" "ca_key a' = ca_key a"
    and others: "alone s r (ca_key a) \<or> cs_locks t (ca_key a) = cs_locks s (ca_key a) \<and>
      (\<forall>x. cs_temps t (ca_key a, x) = cs_temps s (ca_key a, x)) \<and> (isPublished (ca_key a) s \<longrightarrow> isPublished (ca_key a) t) \<and>
      (using_entry a' \<longrightarrow> using_entry a)"
    and own: "holding (ca_pc a') \<Longrightarrow> lock_held_by t r (ca_key a) \<and> pc_ok_at t (next_users U r a') r a'"
    and cnt: "counts t (ca_key a) (card (next_users U r a'))" and metas: "metas_ok t" "ca_published a' \<longrightarrow> late_pc (ca_pc a')"
  shows "store_ok (t\<lparr>cs_acts := (cs_acts t)(r \<mapsto> a')\<rparr>)"
proof (rule own_step [OF ok a, of _ a'])
  let ?s' = "t\<lparr>cs_acts := (cs_acts t)(r \<mapsto> a')\<rparr>"
  show acts: "cs_acts ?s' = (cs_acts s)(r \<mapsto> a')" using t by simp
  have users: "entry_users ?s' (ca_key a) = next_users U r a'"
    using users_update [OF acts a t(3), of "ca_key a"] by (simp add: next_users_def U)
  show "same_elsewhere (ca_key a) s ?s'" using t(2) by (simp add: same_elsewhere_def)
  have "using_entry a \<Longrightarrow> r \<in> U" using a by (auto simp: U entry_users_def)
  then show "alone s r (ca_key a) \<or> quiet s ?s' (ca_key a)"
    using others by (auto simp: quiet_def staged_def lock_held_by_def users next_users_def U split: if_splits)
  show "lock_held_by ?s' r (ca_key a) \<and> pc_ok ?s' r a'" if "holding (ca_pc a')"
    using own [OF that] by (simp add: pc_ok_def users t(3))
  show "counts ?s' (ca_key a) (card (entry_users ?s' (ca_key a)))" using cnt by (simp add: users)
qed (use metas t(3) in simp_all)

lemma act_facts:
  assumes "store_ok s" "cs_acts s r = Some a"
  shows "finite (entry_users s (ca_key a))" "r \<in> entry_users s (ca_key a) \<longleftrightarrow> using_entry a"
    "counts s (ca_key a) (card (entry_users s (ca_key a)))" "metas_ok s"
    "ca_published a \<longrightarrow> late_pc (ca_pc a)"
    "holding (ca_pc a) \<Longrightarrow> lock_held_by s r (ca_key a) \<and> pc_ok_at s (entry_users s (ca_key a)) r a \<and> alone s r (ca_key a)"
  using assms users_finite [OF assms(1)] holder_unique [OF assms]
  by (auto simp: entry_users_def store_ok_def act_ok_def pc_ok_def)

lemma counts_le: "counts s k n \<Longrightarrow> m \<le> n \<Longrightarrow> counts s k m"
  by (auto simp: counts_def)

lemma next_users_card: "finite U \<Longrightarrow> (using_entry a' \<longrightarrow> r \<in> U) \<Longrightarrow> card (next_users U r a') \<le> card U"
  by (auto simp: next_users_def insert_absorb intro: card_mono)

lemma entry_kept:
  "counts s k (card U) \<Longrightarrow> finite U \<Longrightarrow> (using_entry a' \<longrightarrow> r \<in> U) \<Longrightarrow> entry_count t k = entry_count s k \<Longrightarrow>
   counts t k (card (next_users U r a'))"
  using counts_le [OF _ next_users_card] by (simp add: counts_def)

lemma no_users: "U \<subseteq> {r} \<Longrightarrow> \<not> using_entry a' \<Longrightarrow> counts t k (card (next_users U r a'))"
  by (simp add: counts_def next_users_def subset_singleton_iff) auto

lemma next_users_sub: "U \<subseteq> {r} \<Longrightarrow> next_users U r a' \<subseteq> {r}"
  by (auto simp: next_users_def)

text \<open>A step that touches no entry and frees no lock: the activation moves to a program point that needs no more of the entry.\<close>

lemma move_step:
  assumes ok: "store_ok s" and a: "cs_acts s r = Some a"
    and same: "cs_dirs t = cs_dirs s" "cs_locks t = cs_locks s" "cs_temps t = cs_temps s" "cs_acts t = cs_acts s" "metas_ok t"
    and a': "ca_key a' = ca_key a" "ca_published a' = ca_published a" "ca_published a \<Longrightarrow> late_pc (ca_pc a) \<Longrightarrow> late_pc (ca_pc a')" "using_entry a' \<Longrightarrow> using_entry a" "holding (ca_pc a') \<Longrightarrow> holding (ca_pc a)"
    and own: "holding (ca_pc a') \<Longrightarrow> pc_ok_at s (entry_users s (ca_key a)) r a \<Longrightarrow>
      pc_ok_at t (next_users (entry_users s (ca_key a)) r a') r a'"
  shows "store_ok (t\<lparr>cs_acts := (cs_acts t)(r \<mapsto> a')\<rparr>)"
proof (rule act_step [OF ok a refl same(4) _ a'(1)])
  note facts = act_facts [OF ok a]
  show "same_elsewhere (ca_key a) s t" by (simp add: same_elsewhere_def same)
  show "alone s r (ca_key a) \<or> cs_locks t (ca_key a) = cs_locks s (ca_key a) \<and>
      (\<forall>x. cs_temps t (ca_key a, x) = cs_temps s (ca_key a, x)) \<and> (isPublished (ca_key a) s \<longrightarrow> isPublished (ca_key a) t) \<and>
      (using_entry a' \<longrightarrow> using_entry a)" using same a'(4) by (simp add: isPublished_def)
  show "lock_held_by t r (ca_key a) \<and> pc_ok_at t (next_users (entry_users s (ca_key a)) r a') r a'" if "holding (ca_pc a')"
    using facts(6) own that a'(5) same(2) by (simp add: lock_held_by_def)
  show "counts t (ca_key a) (card (next_users (entry_users s (ca_key a)) r a'))"
    using facts a'(4) by (intro entry_kept [OF facts(3,1)]) (auto simp: entry_count_def same(1))
qed (use same(5) a'(2,3) act_facts(5) [OF ok a] in simp_all)

lemmas pc_simps = pc_ok_at_def using_entry_def next_users_sub

lemma lock_steps_ok:
  assumes ok: "store_ok s" and a: "cs_acts s r = Some a" and env: "ce_ok env"
  shows "ca_pc a = L_mkdir u \<Longrightarrow> store_ok (lock_mkdir env r a u s)"
    and "ca_pc a = L_try u \<Longrightarrow> store_ok (lock_try env r a u s)"
    and "ca_pc a = L_write u \<Longrightarrow> store_ok (lock_write env r a u s)"
    and "ca_pc a = L_stat u t \<Longrightarrow> store_ok (reclaim_stat env r a u t s)"
    and "ca_pc a = L_read u t \<Longrightarrow> store_ok (reclaim_read env r a u t s)"
    and "ca_pc a = L_rm u \<Longrightarrow> lock_orphaned s (ca_key a) \<Longrightarrow> store_ok (reclaim_rm env r a u s)"
proof -
  note facts = act_facts [OF ok a]
  have free: "store_ok (goto r pc s)" if "\<not> holding pc" "hit_pc pc \<Longrightarrow> hit_pc (ca_pc a)" "late_pc (ca_pc a) \<Longrightarrow> late_pc pc" for pc
    unfolding goto_at [OF a] by (rule move_step [OF ok a]) (use that facts in \<open>auto simp: using_entry_def split: store_pc.splits\<close>)
  show "store_ok (lock_mkdir env r a u s)" if "ca_pc a = L_mkdir u"
  proof -
    let ?t = "if cs_dirs s (ca_key a) = None then set_dir (ca_key a) (Some empty_dir) s else s"
    have "store_ok (?t\<lparr>cs_acts := (cs_acts ?t)(r \<mapsto> a\<lparr>ca_deadline := ce_now env + LOCK_TIMEOUT_MS, ca_pc := L_try u\<rparr>)\<rparr>)"
      by (rule act_step [OF ok a refl], use that in \<open>auto simp: same_elsewhere_def isPublished_def using_entry_def split: option.split\<close>)
        (use that facts in \<open>auto intro!: entry_kept simp: made_count using_entry_def\<close>)
    then show ?thesis using env by (simp add: lock_mkdir_def Let_def)
  qed
  show "store_ok (lock_try env r a u s)" if pc: "ca_pc a = L_try u"
  proof -
    have "store_ok (goto r (L_write u) (set_lock (ca_key a) (Some l) s))" if none: "cs_locks s (ca_key a) = None" "ck_id l = r" for l
    proof -
      let ?t = "set_lock (ca_key a) (Some l) s"
      have t: "cs_acts ?t r = Some a" using a by simp
      show ?thesis unfolding goto_at [OF t]
        by (rule act_step [OF ok a refl],
          use none pc facts unlocked_alone [OF ok none(1), of r] in \<open>auto simp: same_elsewhere_def lock_held_by_def pc_simps\<close>)
          (use facts pc in \<open>auto intro!: entry_kept simp: entry_count_def using_entry_def\<close>)
    qed
    then show ?thesis using env pc by (auto simp: lock_try_def lock_failed_def intro!: free split: lock_use.split)
  qed
  show "store_ok (reclaim_stat env r a u t s)" if "ca_pc a = L_stat u t"
    using that by (auto simp: reclaim_stat_def intro!: free split: option.split)
  show "store_ok (reclaim_read env r a u t s)" if "ca_pc a = L_read u t"
    using that by (auto simp: reclaim_read_def intro!: free)
  show "store_ok (reclaim_rm env r a u s)" if pc: "ca_pc a = L_rm u" and orphaned: "lock_orphaned s (ca_key a)"
  proof -
    let ?t = "set_lock (ca_key a) None s"
    have t: "cs_acts ?t r = Some a" using a by simp
    have "store_ok (goto r (L_try u) ?t)" unfolding goto_at [OF t]
      by (rule act_step [OF ok a refl], use pc orphaned in \<open>auto simp: same_elsewhere_def alone_def lock_orphaned_def\<close>)
        (use facts pc in \<open>auto intro!: entry_kept simp: entry_count_def using_entry_def\<close>)
    then show ?thesis using env by (simp add: reclaim_rm_def)
  qed
  show "store_ok (lock_write env r a u s)" if pc: "ca_pc a = L_write u"
  proof -
    from facts(6) pc obtain l where l: "cs_locks s (ca_key a) = Some l" "ck_id l = r" and alone: "alone s r (ca_key a)"
      by (auto simp: lock_held_by_def)
    let ?t = "set_lock (ca_key a) (Some (l\<lparr>ck_pid := Some (ce_pid env), ck_mtime := ce_now env\<rparr>)) s"
    have t: "cs_acts ?t r = Some a" using a by simp
    have "store_ok (goto r (locked_pc u) ?t)" unfolding goto_at [OF t]
      by (rule act_step [OF ok a refl], use pc alone l in \<open>auto simp: same_elsewhere_def lock_held_by_def locked_pc_def pc_simps split: lock_use.split\<close>)
        (use facts pc in \<open>auto intro!: entry_kept simp: entry_count_def using_entry_def split: lock_use.splits\<close>)
    then show ?thesis using env l by (simp add: lock_write_def)
  qed
qed

section \<open>The holder of the lock\<close>

lemma holder_goto:
  assumes ok: "store_ok s" and a: "cs_acts s r = Some a" and hold: "holding (ca_pc a)"
    and t: "cs_acts t = cs_acts s" "same_elsewhere (ca_key a) s t"
    and own: "holding pc \<Longrightarrow> cs_locks t (ca_key a) = cs_locks s (ca_key a) \<and>
      pc_ok_at t (next_users (entry_users s (ca_key a)) r (a\<lparr>ca_pc := pc\<rparr>)) r (a\<lparr>ca_pc := pc\<rparr>)"
    and cnt: "counts t (ca_key a) (card (next_users (entry_users s (ca_key a)) r (a\<lparr>ca_pc := pc\<rparr>)))" and metas: "metas_ok t"
    and late: "ca_published a \<longrightarrow> late_pc (ca_pc a) \<longrightarrow> late_pc pc"
  shows "store_ok (goto r pc t)"
proof -
  note facts = act_facts [OF ok a]
  have at: "cs_acts t r = Some a" using a t by simp
  show ?thesis unfolding goto_at [OF at]
    by (rule act_step [OF ok a refl t]) (use facts hold own cnt metas late in \<open>auto simp: lock_held_by_def\<close>)
qed

lemma users_stay: "finite U \<Longrightarrow> using_entry a' \<longleftrightarrow> r \<in> U \<Longrightarrow> next_users U r a' = U"
  by (auto simp: next_users_def)

lemma acquire_step_ok:
  assumes ok: "store_ok s" and a: "cs_acts s r = Some a" and env: "ce_ok env"
  shows "store_ok (acquire_step cfg env r a s)"
proof -
  note facts = act_facts [OF ok a]
  let ?U = "entry_users s (ca_key a)"
  note simps = same_elsewhere_def pc_ok_at_def using_entry_def next_users_def
  show ?thesis
  proof (cases "ca_pc a")
    case A_check
    have "?U = {}" if "\<not> isPublished (ca_key a) s"
      using that facts(1,3) by (auto simp: counts_def entry_count_def isPublished_def split: option.splits if_splits)
    then show ?thesis using A_check env facts
      by (auto simp: acquire_step_def acquire_check_def simps intro!: holder_goto [OF ok a] entry_kept)
  next
    case A_meta
    have "int (card ?U) + 1 \<le> cm_active_users (used_meta (ce_now env) (ca_kind a) (readMeta env (ca_key a) s))"
      using A_meta facts env by (auto simp: used_meta_def readMeta_def counts_def entry_count_def isPublished_def pc_ok_at_def metas_ok_def dir_ok_def
        split: option.splits if_splits Option.bind_splits)
    with A_meta show ?thesis using env facts
      by (auto simp: acquire_step_def Let_def simps intro!: holder_goto [OF ok a] entry_kept)
  next
    case (A_write m)
    then have "counts (writeMeta (ca_key a) m s) (ca_key a) (card (insert r ?U))" "0 \<le> cm_active_users m"
      "cs_dirs s (ca_key a) \<noteq> None"
      using facts published_dir [of "ca_key a" s] by (auto simp: counts_def written_count using_entry_def pc_ok_at_def)
    with A_write show ?thesis using env facts
      by (auto simp: acquire_step_def Let_def simps intro!: holder_goto [OF ok a])
  next
    case A_mkdir
    let ?t = "set_dir (ca_key a) (make_kind_dir (cs_dirs s (ca_key a))) s"
    have at: "cs_acts ?t r = Some a" using a by simp
    have "entry_count ?t (ca_key a) = entry_count s (ca_key a)" "isPublished (ca_key a) ?t = isPublished (ca_key a) s"
      by (auto simp: entry_count_def isPublished_def make_kind_dir_def empty_dir_def Let_def split: option.split)
    then have "store_ok (goto r Held_hit ?t)" unfolding goto_at [OF at]
      by (intro act_step [OF ok a refl]) (use facts metas_okD [OF facts(4)] A_mkdir in \<open>auto simp: same_elsewhere_def using_entry_def intro!: entry_kept\<close>)
    with A_mkdir env show ?thesis by (simp add: acquire_step_def Let_def)
  qed (use ok env facts metas_okD [OF facts(4)] in \<open>auto simp: acquire_step_def Let_def simps entry_count_def intro!: holder_goto [OF ok a] entry_kept\<close>)
qed

lemma release_step_ok:
  assumes ok: "store_ok s" and a: "cs_acts s r = Some a" and env: "ce_ok env"
  shows "store_ok (release_step env r a s)"
proof -
  note facts = act_facts [OF ok a] and metas = metas_okD [OF act_facts(4) [OF ok a]]
  let ?U = "entry_users s (ca_key a)"
  note simps = same_elsewhere_def pc_ok_at_def using_entry_def next_users_def
  have left: "0 \<le> cm_active_users (left_meta t m)" "cm_active_users m \<le> cm_active_users (left_meta t m) + 1" for t m
    by (simp_all add: left_meta_def)
  have only: "?U \<subseteq> {r}" if "miss_pc (ca_pc a)" "holding (ca_pc a)" using facts(6) that by (simp add: pc_ok_at_def)
  show ?thesis
  proof (cases "ca_pc a")
    case R_meta
    then obtain m where m: "readMeta env (ca_key a) s = Some m" "int (card ?U) \<le> cm_active_users m"
      using facts(1-3) env by (auto simp: counts_def entry_count_def readMeta_def using_entry_def split: option.splits if_splits)
    with R_meta show ?thesis using env facts insert_absorb [of r ?U] left(1) [of "ce_now env" m] left(2) [of m "ce_now env"]
      by (auto simp: release_step_def Let_def simps intro!: holder_goto [OF ok a] entry_kept)
  next
    case (R_write m)
    then have "r \<in> ?U" using facts by (simp add: using_entry_def)
    with R_write facts have "card ?U > 0" "int (card (?U - {r})) \<le> cm_active_users m" by (auto simp: card_gt_0_iff pc_ok_at_def)
    moreover have "isPublished (ca_key a) s"
      using facts(3) \<open>card ?U > 0\<close> by (auto simp: counts_def entry_count_def isPublished_def split: option.splits if_splits)
    ultimately have "counts (writeMeta (ca_key a) m s) (ca_key a) (card (?U - {r}))" by (simp add: counts_def written_count)
    with R_write show ?thesis using env facts
      by (auto simp: release_step_def Let_def simps intro!: holder_goto [OF ok a])
  next
    case (M_write m)
    with only show ?thesis using env facts
      by (auto simp: release_step_def Let_def simps intro!: holder_goto [OF ok a] no_users)
  qed (use ok env facts only left in \<open>auto simp: release_step_def Let_def simps entry_count_def readMeta_def intro!: holder_goto [OF ok a] entry_kept split: option.splits\<close>)
qed

lemma publish_step_ok:
  assumes ok: "store_ok s" and a: "cs_acts s r = Some a" and env: "ce_ok env"
  shows "store_ok (publish_step env r a s)"
proof -
  note facts = act_facts [OF ok a] and metas = metas_okD [OF act_facts(4) [OF ok a]]
  let ?U = "entry_users s (ca_key a)" and ?temp = "(ca_key a, ca_attempt a)"
  note simps = same_elsewhere_def pc_ok_at_def using_entry_def next_users_def
  have only: "?U \<subseteq> {r}" if "miss_pc (ca_pc a)" using facts(6) that by (cases "ca_pc a") (simp_all add: pc_ok_at_def)
  then have none: "?U = {}" if "miss_pc (ca_pc a)" "\<not> ca_published a" using facts(2) that
    by (cases "ca_pc a") (auto simp: using_entry_def subset_singleton_iff)
  show ?thesis
  proof (cases "ca_pc a")
    case B_swap
    show ?thesis
    proof (cases "cs_temps s ?temp \<noteq> None \<and> free_target (ca_key a) s")
      case True
      then obtain d where d: "cs_temps s ?temp = Some d" by blast
      let ?t = "set_temp ?temp None (set_dir (ca_key a) (Some d) s)"
      have "entry_count ?t (ca_key a) = Some 1" using B_swap facts(6) d by (auto simp: entry_count_def pc_ok_at_def staged_def)
      then have "store_ok (?t\<lparr>cs_acts := (cs_acts ?t)(r \<mapsto> a\<lparr>ca_published := True, ca_pc := B_done\<rparr>)\<rparr>)"
        using B_swap none facts metas(2) [of ?temp] d
        by (intro act_step [OF ok a refl]) (auto simp: simps counts_def lock_held_by_def)
      with True B_swap env d show ?thesis by (simp add: publish_step_def Let_def)
    next
      case False
      with B_swap env facts none show ?thesis
        by (auto simp: publish_step_def Let_def simps counts_def intro!: holder_goto [OF ok a])
    qed
  next
    case (B_meta m)
    with env facts none metas show ?thesis
      by (auto simp: publish_step_def Let_def simps counts_def staged_def split: option.split intro!: holder_goto [OF ok a])
  next
    case B_marker
    with env facts none metas(2) [of ?temp] show ?thesis
      by (auto simp: publish_step_def Let_def simps counts_def staged_def split: option.split intro!: holder_goto [OF ok a])
  next
    case B_done
    with env facts only metas show ?thesis
      by (auto simp: publish_step_def Let_def same_elsewhere_def pc_ok_at_def using_entry_def next_users_sub entry_count_def
        intro!: holder_goto [OF ok a] entry_kept)
  qed (use ok env facts none metas(1) [of "ca_key a"] metas(3) [of ?temp] in
    \<open>auto simp: publish_step_def Let_def simps counts_def staged_def free_target_def intro!: holder_goto [OF ok a]\<close>)
qed

section \<open>Every step\<close>

lemma cache_step_ok:
  assumes "store_ok s" "sound_step env r s"
  shows "store_ok (cache_step cfg env r s)"
proof (cases "cs_acts s r")
  case (Some a)
  have env: "ce_ok env" and rm: "\<And>u. ca_pc a = L_rm u \<Longrightarrow> lock_orphaned s (ca_key a)"
    using assms(2) Some by (auto simp: sound_step_def)
  note steps = lock_steps_ok [OF assms(1) Some env] acquire_step_ok [OF assms(1) Some env] publish_step_ok [OF assms(1) Some env]
    release_step_ok [OF assms(1) Some env]
  show ?thesis by (cases "ca_pc a") (use Some steps rm in \<open>simp_all add: cache_step_def\<close>)
qed (use assms in \<open>simp add: cache_step_def\<close>)

text \<open>What happens beside the activations: they stay as they are or end.\<close>

lemma outside_step:
  assumes ok: "store_ok s" and acts: "\<And>r. cs_acts t r = cs_acts s r \<or> cs_acts t r = None"
    and quiet: "\<And>k. quiet s t k \<or> lock_orphaned s k"
    and cnt: "\<And>k. counts t k (card (entry_users t k))" and metas: "metas_ok t"
  shows "store_ok t"
proof -
  have "act_ok t r a" if a: "cs_acts t r = Some a" for r a
  proof -
    from a acts [of r] have s: "cs_acts s r = Some a" by auto
    then have old: "act_ok s r a" using ok by (simp add: store_ok_def)
    from quiet [of "ca_key a"] show ?thesis
    proof
      assume q: "quiet s t (ca_key a)"
      with old pc_ok_quiet [OF _ q users_finite [OF ok]] show ?thesis by (auto simp: act_ok_def quiet_def)
    next
      assume "lock_orphaned s (ca_key a)"
      with s old show ?thesis by (auto simp: lock_orphaned_def act_ok_def)
    qed
  qed
  moreover have "finite (dom (cs_acts t))"
    by (rule finite_subset [of _ "dom (cs_acts s)"]) (use ok acts in \<open>auto simp: store_ok_def, metis option.distinct(1)\<close>)
  ultimately show ?thesis using cnt metas by (simp add: store_ok_def)
qed

lemma users_acts: "cs_acts t = cs_acts s \<Longrightarrow> entry_users t k = entry_users s k"
  by (simp add: entry_users_def)

lemma store_okD: "store_ok s \<Longrightarrow> counts s k (card (entry_users s k))" "store_ok s \<Longrightarrow> metas_ok s"
  by (simp_all add: store_ok_def)

lemma publishIfAllowed_ok:
  assumes "store_ok s" "cs_acts s r = Some a" "ca_pc a = Held_miss" "\<not> ca_published a"
  shows "store_ok (publishIfAllowed cfg r a outcome s)"
  unfolding publishIfAllowed_def goto_at [OF assms(2)]
  by (rule move_step [OF assms(1,2)]) (use assms act_facts(4) [OF assms(1,2)] in \<open>auto simp: pc_simps split: if_splits\<close>)

lemma release_ok:
  assumes "store_ok s" "cs_acts s r = Some a"
  shows "store_ok (release r a s)"
proof -
  note facts = act_facts [OF assms]
  have "store_ok (goto r (L_mkdir For_release) s)" if "ca_pc a = Held_hit"
    unfolding goto_at [OF assms(2)] by (rule move_step [OF assms]) (use that facts in \<open>auto simp: pc_simps\<close>)
  moreover have "store_ok (goto r M_rm s)" if "ca_pc a = Held_miss"
    unfolding goto_at [OF assms(2)] by (rule move_step [OF assms]) (use that facts in \<open>auto simp: pc_simps\<close>)
  ultimately show ?thesis using assms by (simp add: release_def split: store_pc.split)
qed

lemma fill_ok:
  assumes ok: "store_ok s"
  shows "store_ok (cache_fill r content s)"
proof (rule outside_step [OF ok])
  let ?t = "cache_fill r content s"
  have acts: "cs_acts ?t = cs_acts s" by (simp add: cache_fill_def Let_def split: option.split store_pc.split)
  then show "cs_acts ?t r' = cs_acts s r' \<or> cs_acts ?t r' = None" for r' by simp
  have same: "isPublished k ?t = isPublished k s" "entry_count ?t k = entry_count s k" "cs_locks ?t = cs_locks s" "staged ?t a b = staged s a b" for k a b
    by (auto simp: cache_fill_def Let_def isPublished_def entry_count_def staged_def split: option.split store_pc.split)
  show "quiet s ?t k \<or> lock_orphaned s k" for k by (simp add: quiet_def lock_held_by_def same users_acts [OF acts])
  show "counts ?t k (card (entry_users ?t k))" for k
    using store_okD(1) [OF ok] by (simp add: counts_def same users_acts [OF acts])
  have filled: "dir_ok (map_option (\<lambda>d. d\<lparr>cd_content := c\<rparr>) e) = dir_ok e" for c e by (auto simp: dir_ok_def)
  show "metas_ok ?t" using store_okD(2) [OF ok] metas_okD [OF store_okD(2) [OF ok]]
    by (auto simp: cache_fill_def Let_def filled split: option.split store_pc.split)
qed

lemma touch_ok:
  assumes ok: "store_ok s"
  shows "store_ok (touch_lock env k s)"
proof (rule outside_step [OF ok])
  let ?t = "touch_lock env k s"
  have fields: "cs_acts ?t = cs_acts s" "cs_dirs ?t = cs_dirs s" "cs_temps ?t = cs_temps s" "metas_ok ?t = metas_ok s"
    by (simp_all add: touch_lock_def)
  have "lock_held_by ?t r k' = lock_held_by s r k'" for r k' by (auto simp: touch_lock_def lock_held_by_def)
  then show "quiet s ?t k' \<or> lock_orphaned s k'" for k'
    by (simp add: quiet_def staged_def isPublished_def fields users_acts [OF fields(1)])
  show "counts ?t k' (card (entry_users ?t k'))" for k'
    using store_okD(1) [OF ok, of k'] by (simp add: counts_def entry_count_def fields users_acts [OF fields(1)])
qed (use store_okD(2) [OF ok] in \<open>simp_all add: touch_lock_def\<close>)

lemma crash_ok:
  assumes ok: "store_ok s"
  shows "store_ok (cache_crash r s)"
proof (rule outside_step [OF ok])
  let ?t = "cache_crash r s"
  have fields: "cs_dirs ?t = cs_dirs s" "cs_locks ?t = cs_locks s" "cs_temps ?t = cs_temps s" "cs_baks ?t = cs_baks s"
    and acts: "cs_acts ?t = (cs_acts s)(r := None)" by (simp_all add: cache_crash_def)
  have users: "entry_users ?t k \<subseteq> entry_users s k" for k by (auto simp: entry_users_def acts split: if_splits)
  then show "quiet s ?t k \<or> lock_orphaned s k" for k by (simp add: quiet_def staged_def lock_held_by_def isPublished_def fields)
  show "counts ?t k (card (entry_users ?t k))" for k
    using counts_le [OF store_okD(1) [OF ok] card_mono [OF users_finite [OF ok] users], of k]
    by (simp add: counts_def entry_count_def fields)
  show "metas_ok ?t" using store_okD(2) [OF ok] by (simp add: metas_ok_def fields)
qed (simp add: cache_crash_def)

lemma acquireForJob_ok:
  assumes ok: "store_ok s" and new: "cs_acts s r = None"
  shows "store_ok (acquireForJob cfg r key kind attempt risk s)"
proof -
  let ?t = "acquireForJob cfg r key kind attempt risk s"
  from new obtain a where t: "?t = s\<lparr>cs_acts := (cs_acts s)(r \<mapsto> a)\<rparr>" and a: "\<not> holding (ca_pc a)" "\<not> using_entry a" "\<not> ca_published a"
    by (force simp: acquireForJob_def using_entry_def)
  have users: "entry_users ?t k = entry_users s k" for k using a new by (auto simp: entry_users_def t split: if_splits)
  have "act_ok ?t r' b" if "cs_acts ?t r' = Some b" for r' b
  proof (cases "r' = r")
    case False
    with that ok have "act_ok s r' b" by (simp add: store_ok_def t)
    then show ?thesis using users by (simp add: act_ok_def pc_ok_def t)
  qed (use that a in \<open>auto simp: t act_ok_def\<close>)
  moreover have "finite (dom (cs_acts ?t))" "metas_ok ?t" using ok by (simp_all add: t store_ok_def)
  moreover have "counts ?t k (card (entry_users ?t k))" for k unfolding users using ok by (simp add: t store_ok_def)
  ultimately show ?thesis by (simp add: store_ok_def)
qed

section \<open>Eviction\<close>

definition in_use :: "cache_store \<Rightarrow> string \<Rightarrow> bool" where
  "in_use s k = (entry_users s k \<noteq> {} \<or> \<not> lock_orphaned s k)"

text \<open>What an eviction leaves: every entry in use, every lock that is held, and the invariant.\<close>

definition spares :: "cache_env \<Rightarrow> cache_store \<Rightarrow> cache_store \<Rightarrow> bool" where
  "spares env s t = (store_ok t \<and> live_locks env t \<and> cs_acts t = cs_acts s \<and>
     (\<forall>k. in_use s k \<longrightarrow> cs_dirs t k = cs_dirs s k) \<and> (\<forall>k. \<not> lock_orphaned s k \<longrightarrow> cs_locks t k = cs_locks s k))"

lemma orphaned_acts: "cs_acts t = cs_acts s \<Longrightarrow> lock_orphaned t k = lock_orphaned s k"
  by (simp add: lock_orphaned_def)

lemma in_use_acts: "cs_acts t = cs_acts s \<Longrightarrow> in_use t k = in_use s k"
  using orphaned_acts [of t s k] users_acts [of t s k] by (simp add: in_use_def)

lemma spares_refl: "store_ok s \<Longrightarrow> live_locks env s \<Longrightarrow> spares env s s"
  by (simp add: spares_def)

lemma spares_trans:
  assumes "spares env s t" "spares env t u"
  shows "spares env s u"
proof -
  have acts: "cs_acts t = cs_acts s" using assms(1) by (simp add: spares_def)
  show ?thesis using assms by (simp add: spares_def in_use_acts [OF acts] orphaned_acts [OF acts])
qed

lemma unlocked_orphaned: "store_ok s \<Longrightarrow> cs_locks s k = None \<Longrightarrow> lock_orphaned s k"
  by (fastforce simp: store_ok_def act_ok_def lock_orphaned_def lock_held_by_def)

lemma spares_outside:
  assumes ok: "store_ok s" "live_locks env s" and acts: "cs_acts t = cs_acts s" "metas_ok t"
    and locks: "\<And>k. cs_locks t k = cs_locks s k \<or> cs_locks t k = None \<and> lock_orphaned s k"
    and dirs: "\<And>k. cs_dirs t k = cs_dirs s k \<or> \<not> in_use s k"
    and temps: "\<And>x. cs_temps t x = cs_temps s x \<or> cs_temps t x = None"
  shows "spares env s t"
proof -
  have held: "lock_held_by t r k" if "\<not> lock_orphaned s k" "lock_held_by s r k" for r k
    using locks [of k] that by (auto simp: lock_held_by_def)
  have staged: "staged t a b" if "staged s a b" for a b
    using temps [of "(ca_key a, ca_attempt a)"] that by (auto simp: staged_def)
  have "quiet s t k \<or> lock_orphaned s k" for k
    using dirs [of k] held staged by (auto simp: quiet_def in_use_def isPublished_def users_acts [OF acts(1)])
  moreover have "counts t k (card (entry_users t k))" for k
    using dirs [of k] store_okD(1) [OF ok(1), of k] by (auto simp: counts_def entry_count_def in_use_def users_acts [OF acts(1)])
  ultimately have "store_ok t" using acts by (intro outside_step [OF ok(1)]) auto
  moreover have "live_locks env t"
    using ok(2) locks by (auto simp: live_locks_def orphaned_acts [OF acts(1)]) (metis option.distinct(1))+
  moreover have "cs_locks t k = cs_locks s k" if "\<not> lock_orphaned s k" for k using locks [of k] that by auto
  moreover have "cs_dirs t k = cs_dirs s k" if "in_use s k" for k using dirs [of k] that by auto
  ultimately show ?thesis using acts(1) by (simp add: spares_def)
qed

lemma lock_gone_spares:
  assumes "store_ok s" "live_locks env s" "ce_ok env"
  shows "spares env s (snd (lock_gone env (ce_now env) k s))"
    and "fst (lock_gone env (ce_now env) k s) \<Longrightarrow> lock_orphaned s k"
    and "cs_dirs (snd (lock_gone env (ce_now env) k s)) = cs_dirs s"
proof -
  have stale: "lock_orphaned s k" if "cs_locks s k = Some l" "\<not> (owner_alive env (Some l) \<and> ce_now env - ck_mtime l < LOCK_STALE_MAX_AGE_MS)" for l
    using assms(2) that by (auto simp: live_locks_def)
  have "spares env s (set_lock k None s)" if "lock_orphaned s k"
    by (rule spares_outside [OF assms(1,2)]) (use that store_okD(2) [OF assms(1)] in auto)
  then show "spares env s (snd (lock_gone env (ce_now env) k s))"
    using stale spares_refl [OF assms(1,2)] by (auto simp: lock_gone_def reclaimStaleLockIfNeeded_def split: option.split)
  show "lock_orphaned s k" if "fst (lock_gone env (ce_now env) k s)"
    using that stale assms(3) unlocked_orphaned [OF assms(1)]
    by (cases "cs_locks s k") (auto simp: lock_gone_def reclaimStaleLockIfNeeded_def split: if_splits)
  show "cs_dirs (snd (lock_gone env (ce_now env) k s)) = cs_dirs s"
    by (simp add: lock_gone_def reclaimStaleLockIfNeeded_def split: option.split)
qed

lemma evict_remove_spares:
  assumes "store_ok s" "live_locks env s" "\<not> in_use s k"
  shows "spares env s (evict_remove k s)"
  by (rule spares_outside [OF assms(1,2)]) (use assms store_okD(2) [OF assms(1)] in \<open>auto simp: evict_remove_def in_use_def\<close>)

lemma scan_spares:
  assumes "store_ok (snd cs)" "live_locks (ee_env ee) (snd cs)" "ce_ok (ee_env ee)"
  shows "spares (ee_env ee) (snd cs) (snd (scan_name cfg ee n cs))"
proof -
  have "spares (ee_env ee) (snd cs) (set_temp x None (snd cs))" "spares (ee_env ee) (snd cs) (set_bak x None (snd cs))" for x
    by (rule spares_outside [OF assms(1,2)], use store_okD(2) [OF assms(1)] in auto)+
  then show ?thesis
    using assms spares_refl [OF assms(1,2)] lock_gone_spares(1) [OF assms, of] 
    by (auto simp: scan_name_def Let_def split: cache_name.split prod.split option.split) (metis snd_conv)+
qed

lemma scan_all_spares:
  "store_ok (snd cs) \<Longrightarrow> live_locks (ee_env ee) (snd cs) \<Longrightarrow> ce_ok (ee_env ee) \<Longrightarrow>
   spares (ee_env ee) (snd cs) (snd (fold (scan_name cfg ee) names cs))"
proof (induction names arbitrary: cs)
  case (Cons n ns)
  note step = scan_spares [OF Cons.prems, of cfg n]
  then have "store_ok (snd (scan_name cfg ee n cs))" "live_locks (ee_env ee) (snd (scan_name cfg ee n cs))"
    by (simp_all add: spares_def)
  from spares_trans [OF step Cons.IH [OF this Cons.prems(3)]] show ?case by simp
qed (simp add: spares_refl)

lemma evict_recheck_spares:
  assumes "store_ok s" "live_locks env s" "ce_ok env"
  shows "spares env s (snd (evict_recheck env k s))" "fst (evict_recheck env k s) \<Longrightarrow> \<not> in_use s k"
proof -
  let ?l = "lock_gone env (ce_now env) k s"
  show "spares env s (snd (evict_recheck env k s))"
    using lock_gone_spares(1) [OF assms, of k] by (auto simp: evict_recheck_def split: prod.split)
  show "\<not> in_use s k" if go: "fst (evict_recheck env k s)"
  proof -
    from go have "fst ?l" and meta: "case readMeta env k (snd ?l) of Some m \<Rightarrow> cm_active_users m \<le> 0 | None \<Rightarrow> True"
      by (auto simp: evict_recheck_def split: prod.splits)
    moreover have "readMeta env k (snd ?l) = readMeta env k s" using lock_gone_spares(3) [OF assms] by (simp add: readMeta_def)
    ultimately have "card (entry_users s k) = 0" "lock_orphaned s k"
      using store_okD(1) [OF assms(1), of k] assms(3) lock_gone_spares(2) [OF assms, of k]
      by (auto simp: counts_def entry_count_def readMeta_def split: option.splits if_splits)
    then show ?thesis using users_finite [OF assms(1)] by (simp add: in_use_def)
  qed
qed

lemma evict_loop_spares:
  "store_ok s \<Longrightarrow> live_locks (ee_env ee) s \<Longrightarrow> ce_ok (ee_env ee) \<Longrightarrow>
   spares (ee_env ee) s (snd (evict_loop cfg ee opts tot avail cs res s))"
proof (induction cs arbitrary: res s)
  case (Cons c cs)
  note re = evict_recheck_spares [OF Cons.prems, of "ec_key c"]
  let ?s1 = "snd (evict_recheck (ee_env ee) (ec_key c) s)"
  from re(1) have s1: "store_ok ?s1" "live_locks (ee_env ee) ?s1" "cs_acts ?s1 = cs_acts s" by (simp_all add: spares_def)
  have "spares (ee_env ee) s (evict_remove (ec_key c) ?s1)" if "fst (evict_recheck (ee_env ee) (ec_key c) s)"
    using spares_trans [OF re(1) evict_remove_spares [OF s1(1,2)]] re(2) [OF that] by (simp add: in_use_acts [OF s1(3)])
  then have "spares (ee_env ee) s (snd (evict_loop cfg ee opts tot avail cs r (evict_remove (ec_key c) ?s1)))"
    if go: "fst (evict_recheck (ee_env ee) (ec_key c) s)" for r
    using spares_trans [OF _ Cons.IH [OF _ _ Cons.prems(3)]] go by (simp add: spares_def [of _ s "evict_remove (ec_key c) ?s1"])
  moreover have "spares (ee_env ee) s (snd (evict_loop cfg ee opts tot avail cs res ?s1))"
    using spares_trans [OF re(1) Cons.IH [OF s1(1,2) Cons.prems(3)]] .
  ultimately show ?case using re(1) Cons.IH [OF Cons.prems] by (auto simp: split_beta Let_def)
qed (simp add: spares_refl)

lemma evict_spares:
  assumes "store_ok s" "live_locks (ee_env ee) s" "ce_ok (ee_env ee)"
  shows "spares (ee_env ee) s (snd (evictInactive cfg ee opts s))"
proof (cases "ee_names ee")
  case (Some names)
  note scan = scan_all_spares [of "([], s)", simplified, OF assms, of cfg names]
  then have "store_ok (snd (fold (scan_name cfg ee) names ([], s)))" "live_locks (ee_env ee) (snd (fold (scan_name cfg ee) names ([], s)))"
    by (simp_all add: spares_def)
  from spares_trans [OF scan evict_loop_spares [OF this assms(3)]] Some show ?thesis by (simp add: evictInactive_def split_beta Let_def)
qed (simp add: evictInactive_def spares_refl [OF assms(1,2)])

lemma store_step_ok: "store_step cfg s t \<Longrightarrow> store_ok s \<Longrightarrow> store_ok t"
proof (induction rule: store_step.induct)
  case (evict ee s opts)
  then show ?case using evict_spares [of s ee cfg opts] by (simp add: spares_def)
qed (auto intro: acquireForJob_ok cache_step_ok publishIfAllowed_ok release_ok fill_ok touch_ok crash_ok)


text \<open>Witness: a job that has acquired a published entry, and an eviction that would remove every idle entry.\<close>

definition demo_env :: cache_env where
  "demo_env = \<lparr>ce_now = 1000, ce_pid = 7, ce_alive = (\<lambda>pid. pid = 7), ce_ok = True, ce_bytes = 0\<rparr>"

definition demo_entry :: cache_dir where
  "demo_entry = \<lparr>cd_published = True, cd_meta = Some \<lparr>cm_kind = Npm, cm_last_used_at = 0, cm_active_users = 0, cm_bytes = Some 10\<rparr>,
     cd_content = Some ''tarballs''\<rparr>"

text \<open>A store with two entries, one of which has a lock and is acquired by up to two activations.\<close>

definition cache_at ::
  "cache_dir option \<Rightarrow> cache_lock option \<Rightarrow> (string \<times> string \<Rightarrow> cache_dir option) \<Rightarrow> cache_act option \<Rightarrow> cache_act option \<Rightarrow> cache_store" where
  "cache_at d l t a0 a1 = \<lparr>cs_dirs = Map.empty(''npm_1'' := d, ''npm_2'' := Some demo_entry), cs_locks = Map.empty(''npm_1'' := l), cs_temps = t,
     cs_baks = Map.empty, cs_acts = Map.empty(0 := a0, 1 := a1)\<rparr>"

lemma cache_at_simps [simp]:
  "cs_dirs (cache_at d l t a0 a1) ''npm_1'' = d" "cs_locks (cache_at d l t a0 a1) ''npm_1'' = l" "cs_temps (cache_at d l t a0 a1) = t"
  "cs_acts (cache_at d l t a0 a1) 0 = a0" "cs_acts (cache_at d l t a0 a1) (Suc 0) = a1"
  "set_dir ''npm_1'' d' (cache_at d l t a0 a1) = cache_at d' l t a0 a1" "set_lock ''npm_1'' l' (cache_at d l t a0 a1) = cache_at d l' t a0 a1"
  "set_temp x e (cache_at d l t a0 a1) = cache_at d l (t(x := e)) a0 a1"
  "(cache_at d l t a0 a1)\<lparr>cs_acts := (cs_acts (cache_at d' l' t' b0 b1))(0 := b)\<rparr> = cache_at d l t b b1"
  "(cache_at d l t a0 a1)\<lparr>cs_acts := (cs_acts (cache_at d' l' t' b0 b1))(Suc 0 := b)\<rparr> = cache_at d l t b0 b"
  by (auto simp: cache_at_def set_dir_def set_lock_def set_temp_def fun_eq_iff)

definition demo_store :: cache_store where
  "demo_store = cache_at (Some demo_entry) None Map.empty None None"

definition demo_evict :: evict_env where
  "demo_evict = \<lparr>ee_env = demo_env, ee_names = Some [Name_key ''npm_1'', Name_key ''npm_2''], ee_mtime = (\<lambda>_. None), ee_size = (\<lambda>_. 10),
     ee_free = Some 0, ee_rm_ok = (\<lambda>_. True)\<rparr>"

definition demo_limits :: evict_options where
  "demo_limits = \<lparr>eo_maxSizeBytes = 0, eo_minFreeBytes = 100\<rparr>"

definition demo_acquire :: "nat \<Rightarrow> string \<Rightarrow> cache_store \<Rightarrow> cache_store" where
  "demo_acquire r k = acquireForJob DEFAULT_BUILD_CACHE_CONFIG r k Npm (if r = 0 then ''first'' else ''second'') Safe"

definition demo_run :: "nat \<Rightarrow> nat \<Rightarrow> cache_store \<Rightarrow> cache_store" where
  "demo_run r n = (cache_step DEFAULT_BUILD_CACHE_CONFIG demo_env r) ^^ n"

lemmas cache_eval = demo_run_def demo_acquire_def demo_store_def demo_entry_def demo_env_def DEFAULT_BUILD_CACHE_CONFIG_def
  acquireForJob_def goto_def isPublished_def readMeta_def writeMeta_def make_kind_dir_def empty_dir_def
  lock_failed_def locked_pc_def lock_mkdir_def lock_try_def lock_write_def reclaim_stat_def owner_alive_def isPidAlive_def reclaim_read_def
  reclaim_rm_def acquire_check_def used_meta_def left_meta_def acquire_step_def cache_step_def
  LOCK_TIMEOUT_MS_def LOCK_STALE_MAX_AGE_MS_def Let_def eval_nat_numeral funpow_Suc_right

definition no_reclaim :: "nat \<Rightarrow> cache_store \<Rightarrow> bool" where
  "no_reclaim r s = (case cs_acts s r of None \<Rightarrow> True | Some a \<Rightarrow> (case ca_pc a of L_rm _ \<Rightarrow> False | _ \<Rightarrow> True))"

lemma demo_run_reach:
  "list_all (\<lambda>i. no_reclaim r (demo_run r i s)) [0..<n] \<Longrightarrow> (store_step DEFAULT_BUILD_CACHE_CONFIG)\<^sup>*\<^sup>* s (demo_run r n s)"
proof (induction n)
  case (Suc n)
  then have "sound_step demo_env r (demo_run r n s)"
    by (auto simp: sound_step_def no_reclaim_def demo_env_def split: store_pc.splits)
  with Suc show ?case by (auto simp: demo_run_def intro: rtranclp.rtrancl_into_rtrancl store_step.go)
qed (simp add: demo_run_def)

lemma demo_hit:
  "demo_run 0 8 (demo_acquire 0 ''npm_1'' demo_store) =
     cache_at (Some (demo_entry\<lparr>cd_meta := Some \<lparr>cm_kind = Npm, cm_last_used_at = 1000, cm_active_users = 1, cm_bytes = Some 10\<rparr>\<rparr>))
       None Map.empty
       (Some \<lparr>ca_key = ''npm_1'', ca_kind = Npm, ca_attempt = ''first'', ca_risk = Safe, ca_deadline = 31000, ca_published = False,
          ca_pc = Held_hit\<rparr>) None"
  by (simp add: cache_eval del: funpow.simps(2))


section \<open>Where the lock does not protect\<close>

text \<open>
  The lock file is created first and its process id written later. An activation that looks at it in
  between reads no process id, takes the lock for abandoned and removes it: two activations then build
  the same entry, each taking itself for the only writer.
\<close>

definition demo_act :: "nat \<Rightarrow> store_pc \<Rightarrow> cache_act option" where
  "demo_act r pc = Some \<lparr>ca_key = ''npm_1'', ca_kind = Npm, ca_attempt = (if r = 0 then ''first'' else ''second''), ca_risk = Safe,
     ca_deadline = 31000, ca_published = False, ca_pc = pc\<rparr>"

definition demo_lock :: "nat \<Rightarrow> int option \<Rightarrow> cache_lock option" where
  "demo_lock r pid = Some \<lparr>ck_id = r, ck_pid = pid, ck_mtime = 1000\<rparr>"

lemma race_open:
  "demo_run 0 2 (demo_acquire 0 ''npm_1'' (cache_at None None Map.empty None None)) =
     cache_at (Some empty_dir) (demo_lock 0 None) Map.empty (demo_act 0 (L_write For_acquire)) None"
  by (simp add: cache_eval demo_act_def demo_lock_def del: funpow.simps(2))

lemma race_reclaim:
  "demo_run 1 7 (demo_acquire 1 ''npm_1''
     (cache_at (Some empty_dir) (demo_lock 0 None) Map.empty (demo_act 0 (L_write For_acquire)) None)) =
     cache_at (Some empty_dir) (demo_lock 1 (Some 7)) Map.empty (demo_act 0 (L_write For_acquire)) (demo_act 1 A_check)"
  by (simp add: cache_eval demo_act_def demo_lock_def del: funpow.simps(2))

lemma race_second:
  "demo_run 1 3 (cache_at (Some empty_dir) (demo_lock 1 (Some 7)) Map.empty (demo_act 0 (L_write For_acquire)) (demo_act 1 A_check)) =
     cache_at (Some empty_dir) (demo_lock 1 (Some 7)) [(''npm_1'', ''second'') \<mapsto> empty_dir\<lparr>cd_content := Some []\<rparr>]
       (demo_act 0 (L_write For_acquire)) (demo_act 1 Held_miss)"
  by (simp add: cache_eval demo_act_def demo_lock_def del: funpow.simps(2))

lemma empty_lock_is_reclaimed:
  "let s1 = demo_run 0 2 (demo_acquire 0 ''npm_1'' (cache_at None None Map.empty None None));
       s2 = demo_run 1 3 (demo_run 1 7 (demo_acquire 1 ''npm_1'' s1));
       s3 = demo_run 0 4 s2
   in map_option ca_pc (cs_acts s3 0) = Some Held_miss \<and> map_option ca_pc (cs_acts s3 1) = Some Held_miss"
  unfolding race_open Let_def race_reclaim race_second by (simp add: cache_eval demo_act_def demo_lock_def del: funpow.simps(2))

text \<open>
  An eviction takes no lock: between its last look at an entry and the removal a job can acquire the entry,
  whose directory then disappears under the job.
\<close>

lemma evict_removes_acquired_entry:
  "let (go, s1) = evict_recheck demo_env ''npm_1'' demo_store;
       s2 = demo_run 0 8 (demo_acquire 0 ''npm_1'' s1);
       s3 = evict_remove ''npm_1'' s2
   in go \<and> map_option ca_pc (cs_acts s3 0) = Some Held_hit \<and> cs_dirs s3 ''npm_1'' = None"
proof -
  have "evict_recheck demo_env ''npm_1'' demo_store = (True, demo_store)"
    by (simp add: evict_recheck_def lock_gone_def readMeta_def demo_store_def demo_entry_def)
  then show ?thesis by (simp add: Let_def demo_hit evict_remove_def)
qed

section \<open>The order of eviction\<close>

text \<open>A candidate that nothing protects: no lock, and nobody counted.\<close>

definition idle :: "cache_env \<Rightarrow> cache_store \<Rightarrow> string \<Rightarrow> bool" where
  "idle env s k = (cs_locks s k = None \<and> (\<forall>m. readMeta env k s = Some m \<longrightarrow> cm_active_users m \<le> 0))"

lemma idle_recheck: "idle env s k \<Longrightarrow> evict_recheck env k s = (True, s)"
  by (auto simp: idle_def evict_recheck_def lock_gone_def split: option.split)

lemma idle_after_remove: "idle env s k \<Longrightarrow> k' \<noteq> k \<Longrightarrow> idle env (evict_remove k' s) k"
  by (auto simp: idle_def evict_remove_def readMeta_def)

lemma due_antimono: "freed \<le> freed' \<Longrightarrow> \<not> due cfg opts now tot avail freed c \<Longrightarrow> \<not> due cfg opts now tot avail freed' c"
  by (auto simp: due_def)

lemma evict_loop_result:
  assumes "evict_loop cfg ee opts tot avail cs res s = (Inr res', t)"
    "\<forall>c \<in> set cs. idle (ee_env ee) s (ec_key c) \<and> 0 \<le> ec_bytes c" "distinct (map ec_key cs)"
  shows "\<exists>ds. subseq ds cs \<and> er_evictedKeys res' = er_evictedKeys res @ map ec_key ds \<and>
    er_freedBytes res' = er_freedBytes res + sum_list (map ec_bytes ds) \<and>
    (\<forall>c \<in> set cs. c \<in> set ds \<and> cs_dirs t (ec_key c) = None \<or> \<not> due cfg opts (ce_now (ee_env ee)) tot avail (er_freedBytes res') c) \<and>
    (\<forall>k. k \<notin> ec_key ` set ds \<longrightarrow> cs_dirs t k = cs_dirs s k) \<and> er_freedBytes res \<le> er_freedBytes res'"
  using assms
proof (induction cs arbitrary: res s)
  case (Cons c cs)
  show ?case
  proof (cases "due cfg opts (ce_now (ee_env ee)) tot avail (er_freedBytes res) c")
    case False
    with Cons.prems have loop: "evict_loop cfg ee opts tot avail cs res s = (Inr res', t)" by simp
    from Cons.IH [OF this] Cons.prems obtain ds where ds: "subseq ds cs" "er_evictedKeys res' = er_evictedKeys res @ map ec_key ds"
      "er_freedBytes res' = er_freedBytes res + sum_list (map ec_bytes ds)" "er_freedBytes res \<le> er_freedBytes res'"
      "\<forall>c \<in> set cs. c \<in> set ds \<and> cs_dirs t (ec_key c) = None \<or> \<not> due cfg opts (ce_now (ee_env ee)) tot avail (er_freedBytes res') c"
      "\<forall>k. k \<notin> ec_key ` set ds \<longrightarrow> cs_dirs t k = cs_dirs s k" by auto
    with due_antimono [OF ds(4) False] show ?thesis by (intro exI [of _ ds]) auto
  next
    case True
    let ?res = "\<lparr>er_evictedKeys = er_evictedKeys res @ [ec_key c], er_freedBytes = er_freedBytes res + ec_bytes c\<rparr>"
    have re: "evict_recheck (ee_env ee) (ec_key c) s = (True, s)" using Cons.prems by (intro idle_recheck) simp
    with True Cons.prems have loop: "evict_loop cfg ee opts tot avail cs ?res (evict_remove (ec_key c) s) = (Inr res', t)"
      by (auto split: if_splits)
    have "\<forall>c' \<in> set cs. idle (ee_env ee) (evict_remove (ec_key c) s) (ec_key c') \<and> 0 \<le> ec_bytes c'"
      using Cons.prems by (auto intro!: idle_after_remove)
    from Cons.IH [OF loop this] Cons.prems(3) obtain ds where ds: "subseq ds cs" "er_evictedKeys res' = er_evictedKeys ?res @ map ec_key ds"
      "er_freedBytes res' = er_freedBytes ?res + sum_list (map ec_bytes ds)" "er_freedBytes ?res \<le> er_freedBytes res'"
      "\<forall>c \<in> set cs. c \<in> set ds \<and> cs_dirs t (ec_key c) = None \<or> \<not> due cfg opts (ce_now (ee_env ee)) tot avail (er_freedBytes res') c"
      "\<forall>k. k \<notin> ec_key ` set ds \<longrightarrow> cs_dirs t k = cs_dirs (evict_remove (ec_key c) s) k" by auto
    have "ec_key c \<notin> ec_key ` set ds" using list_emb_set [OF ds(1)] Cons.prems(3) by auto
    with ds Cons.prems(2) show ?thesis by (intro exI [of _ "c # ds"]) (auto simp: evict_remove_def)
  qed
qed auto

definition scan_ok :: "evict_env \<Rightarrow> cache_name list \<Rightarrow> evict_candidate list \<times> cache_store \<Rightarrow> bool" where
  "scan_ok ee seen cs = (distinct (map ec_key (fst cs)) \<and>
     (\<forall>c \<in> set (fst cs). Name_key (ec_key c) \<in> set seen \<and> idle (ee_env ee) (snd cs) (ec_key c)))"

lemma lock_gone_idle:
  "idle env s k \<Longrightarrow> idle env (snd (lock_gone env now k' s)) k"
  "ce_ok env \<Longrightarrow> fst (lock_gone env now k s) \<Longrightarrow> cs_locks (snd (lock_gone env now k s)) k = None"
  by (auto simp: lock_gone_def reclaimStaleLockIfNeeded_def idle_def readMeta_def split: option.splits if_splits)

lemma scan_name_ok:
  assumes "scan_ok ee seen cs" "n \<notin> set seen" "ce_ok (ee_env ee)"
  shows "scan_ok ee (n # seen) (scan_name cfg ee n cs)"
proof -
  have temps: "idle env (set_temp x d s) k = idle env s k" "idle env (set_bak x d s) k = idle env s k" for env x d s k
    by (simp_all add: idle_def readMeta_def)
  show ?thesis
  proof (cases n)
    case (Name_key k)
    let ?g = "lock_gone (ee_env ee) (ce_now (ee_env ee)) k (snd cs)"
    have keep: "scan_ok ee (n # seen) (fst cs, snd ?g)" "scan_ok ee (n # seen) cs" using assms by (auto simp: scan_ok_def lock_gone_idle(1))
    have "scan_ok ee (n # seen) (fst cs @ [c], snd ?g)"
      if "fst ?g" "readMeta (ee_env ee) k (snd ?g) = Some m" "cm_active_users m \<le> 0" "ec_key c = k" for c m
      using that assms Name_key keep(1) lock_gone_idle(2) [OF assms(3) that(1)] by (auto simp: scan_ok_def idle_def)
    then show ?thesis using keep Name_key by (simp add: scan_name_def Let_def split_beta split: option.split)
  qed (use assms in \<open>auto simp: scan_ok_def scan_name_def Let_def temps\<close>)
qed

lemma scan_ok_all:
  "scan_ok ee seen cs \<Longrightarrow> distinct names \<Longrightarrow> set names \<inter> set seen = {} \<Longrightarrow> ce_ok (ee_env ee) \<Longrightarrow>
   scan_ok ee (rev names @ seen) (fold (scan_name cfg ee) names cs)"
proof (induction names arbitrary: seen cs)
  case (Cons n ns)
  then have "scan_ok ee (n # seen) (scan_name cfg ee n cs)" by (intro scan_name_ok) auto
  from Cons.IH [OF this] Cons.prems show ?case by simp
qed simp

lemma scan_dirs: "cs_dirs (snd (fold (scan_name cfg ee) names cs)) = cs_dirs (snd cs)"
proof (induction names arbitrary: cs)
  case (Cons n ns)
  have "cs_dirs (snd (scan_name cfg ee n cs)) = cs_dirs (snd cs)"
    by (auto simp: scan_name_def Let_def lock_gone_def reclaimStaleLockIfNeeded_def split: cache_name.split option.split prod.split)
  with Cons show ?case by simp
qed simp


text \<open>Witness: of two entries of ten bytes under a quota of ten bytes the one used earlier goes.\<close>

definition quota_store :: cache_store where
  "quota_store = \<lparr>cs_dirs = [''npm_1'' \<mapsto> demo_entry\<lparr>cd_meta := Some \<lparr>cm_kind = Npm, cm_last_used_at = 900, cm_active_users = 0, cm_bytes = Some 10\<rparr>\<rparr>,
     ''npm_2'' \<mapsto> demo_entry], cs_locks = Map.empty, cs_temps = Map.empty, cs_baks = Map.empty, cs_acts = Map.empty\<rparr>"

definition quota_limits :: evict_options where
  "quota_limits = \<lparr>eo_maxSizeBytes = 10, eo_minFreeBytes = 0\<rparr>"


end
