(* ===== verification/Spec2Isabelle.thy ===== *)
theory Spec2Isabelle
  imports Js_Values Data_Tokens Live_Log_Hub Log_Ingest Remote_Lifecycle Recovery_Safety Scheduler_Laws Capture_Lease_Laws
    Local_Runner_Safety Job_Submit_Safety Job_Wait Log_Transport Agent_Plane_Safety
    Stream_Filters Path_Policy Agent_Safety Log_Pagination Build_Cache_Laws
begin

text \<open>
  Verification of the Controller of the remote build orchestrator.
\<close>

end
